(* ===== verification/Prelude.thy ===== *)
theory Prelude
  imports Main "HOL-Library.AList" "HOL-Library.Product_Lexorder"
    "HOL-Library.List_Lexorder" "HOL-Library.Char_ord"
begin

text \<open>
  What every component of the model shares.

  \<^item> Errors. A Python exception is a value of \<open>err\<close>; an operation that may raise
    returns \<open>'a res\<close>, a sum whose left side is the exception. An HTTP handler that raises
    leaves its database session uncommitted, so \<open>Inl\<close> carries no state.
  \<^item> Tables. A database table is the list of its rows. \<open>get_row\<close> is
    \<open>session.get\<close> on the primary key, \<open>upd_row\<close> an attribute assignment on the row
    with that key, \<open>del_rows\<close> a \<open>DELETE ... WHERE\<close>, \<open>order_by\<close> a stable sort by a
    key and \<open>limit\<close> a prefix. \<open>distinct (map key rows)\<close> is the primary-key constraint.
  \<^item> Dictionaries. A Python dict keeps insertion order, so it is an association list;
    assignment is \<open>AList.update\<close>, which overwrites in place and appends a new key.
\<close>

section \<open>Collections of rules\<close>

named_theorems tbl \<open>rewriting of table operations\<close>
named_theorems frame \<open>what an operation leaves unchanged\<close>

section \<open>Exceptions as values\<close>

datatype err =
    HTTPException nat string
  | ValueError string
  | KeyError
  | IndexError
  | TypeError
  | RuntimeError string
  | IntegrityError string
  | DataError string
  | TimeoutError
  | ZeroDivisionError
  | JSONDecodeError
  | OverflowError
  | OSError string

type_synonym 'a res = "err + 'a"

text \<open>Sequencing: the rest runs only when the first part did not raise.\<close>

definition bindE :: "'a res \<Rightarrow> ('a \<Rightarrow> 'b res) \<Rightarrow> 'b res" where
  "bindE m f = (case m of Inl e \<Rightarrow> Inl e | Inr x \<Rightarrow> f x)"

lemma bindE_simps [simp]:
  "bindE (Inl e) f = Inl e"
  "bindE (Inr x) f = f x"
  by (simp_all add: bindE_def)

lemma bindE_Inr_iff: "bindE m f = Inr y \<longleftrightarrow> (\<exists>x. m = Inr x \<and> f x = Inr y)"
  by (cases m) auto

lemma bindE_Inl_iff: "bindE m f = Inl e \<longleftrightarrow> m = Inl e \<or> (\<exists>x. m = Inr x \<and> f x = Inl e)"
  by (cases m) auto

definition guardE :: "bool \<Rightarrow> err \<Rightarrow> unit res" where
  "guardE b e = (if b then Inr () else Inl e)"

lemma guardE_simps [simp]:
  "guardE True e = Inr ()"
  "guardE False e = Inl e"
  by (simp_all add: guardE_def)

lemma guardE_Inr_iff [simp]: "guardE b e = Inr u \<longleftrightarrow> b"
  by (simp add: guardE_def)

text \<open>A loop whose body may raise.\<close>

fun foldE :: "('a \<Rightarrow> 's \<Rightarrow> 's res) \<Rightarrow> 'a list \<Rightarrow> 's \<Rightarrow> 's res" where
  "foldE f [] s = Inr s"
| "foldE f (x # xs) s = bindE (f x s) (foldE f xs)"

lemma foldE_invariant:
  assumes "foldE f xs s = Inr t" "P s" "\<And>x s t. x \<in> set xs \<Longrightarrow> P s \<Longrightarrow> f x s = Inr t \<Longrightarrow> P t"
  shows "P t"
  using assms
proof (induction xs arbitrary: s)
  case (Cons x xs)
  then obtain s1 where s1: "f x s = Inr s1" "foldE f xs s1 = Inr t" by (auto simp: bindE_Inr_iff)
  have "P s1" by (rule Cons.prems(3) [OF _ Cons.prems(2) s1(1)]) simp
  then show ?case by (rule Cons.IH [OF s1(2)]) (rule Cons.prems(3), auto)
qed simp

text \<open>The loop ends without an exception when every iteration does, under an invariant.\<close>

lemma foldE_total:
  assumes "P s" "\<And>x s. x \<in> set xs \<Longrightarrow> P s \<Longrightarrow> \<exists>t. f x s = Inr t \<and> P t"
  shows "\<exists>t. foldE f xs s = Inr t \<and> P t"
  using assms
proof (induction xs arbitrary: s)
  case (Cons x xs)
  obtain t where t: "f x s = Inr t" "P t" using Cons.prems(2) [of x s] Cons.prems(1) by auto
  have "\<exists>u. foldE f xs t = Inr u \<and> P u" by (rule Cons.IH [OF t(2)]) (rule Cons.prems(2), auto)
  with t show ?case by simp
qed simp

text \<open>\<open>for x in xs: if P(x): raise f(x)\<close>\<close>

definition raise_first :: "('a \<Rightarrow> bool) \<Rightarrow> ('a \<Rightarrow> err) \<Rightarrow> 'a list \<Rightarrow> unit res" where
  "raise_first P f xs = (case find P xs of Some x \<Rightarrow> Inl (f x) | None \<Rightarrow> Inr ())"

lemma raise_first_Inr_iff [simp]: "raise_first P f xs = Inr u \<longleftrightarrow> (\<forall>x\<in>set xs. \<not> P x)"
  by (induction xs) (auto simp: raise_first_def)

lemma raise_first_Inl_iff:
  "raise_first P f xs = Inl e \<longleftrightarrow> (\<exists>x. find P xs = Some x \<and> e = f x)"
  by (cases "find P xs") (auto simp: raise_first_def)

lemma res_unit_cases: "(r :: unit res) = Inr () \<or> (\<exists>e. r = Inl e)"
  by (cases r) auto

section \<open>Tables\<close>

definition get_row :: "('r \<Rightarrow> 'k) \<Rightarrow> 'k \<Rightarrow> 'r list \<Rightarrow> 'r option" where
  "get_row key k rows = find (\<lambda>r. key r = k) rows"

text \<open>An \<open>INSERT\<close>, which the primary key may refuse.\<close>

definition insert_row :: "('r \<Rightarrow> 'k) \<Rightarrow> 'r \<Rightarrow> 'r list \<Rightarrow> 'r list res" where
  "insert_row key r rows =
     (if key r \<in> set (map key rows) then Inl (IntegrityError ''duplicate key'') else Inr (rows @ [r]))"

text \<open>Several inserts of one session, in order.\<close>

fun insert_rows :: "('r \<Rightarrow> 'k) \<Rightarrow> 'r list \<Rightarrow> 'r list \<Rightarrow> 'r list res" where
  "insert_rows key [] rows = Inr rows"
| "insert_rows key (r # rs) rows = bindE (insert_row key r rows) (insert_rows key rs)"

definition upd_row :: "('r \<Rightarrow> 'k) \<Rightarrow> 'k \<Rightarrow> ('r \<Rightarrow> 'r) \<Rightarrow> 'r list \<Rightarrow> 'r list" where
  "upd_row key k f rows = map (\<lambda>r. if key r = k then f r else r) rows"

definition del_rows :: "('r \<Rightarrow> bool) \<Rightarrow> 'r list \<Rightarrow> 'r list" where
  "del_rows P rows = filter (\<lambda>r. \<not> P r) rows"

definition order_by :: "('r \<Rightarrow> 'k::linorder) \<Rightarrow> 'r list \<Rightarrow> 'r list" where
  "order_by f rows = sort_key f rows"

definition limit :: "nat \<Rightarrow> 'r list \<Rightarrow> 'r list" where
  "limit n rows = take n rows"

lemma get_row_Some_iff:
  assumes "distinct (map key rows)"
  shows "get_row key k rows = Some r \<longleftrightarrow> r \<in> set rows \<and> key r = k"
proof
  assume "get_row key k rows = Some r"
  then show "r \<in> set rows \<and> key r = k"
    by (auto simp: get_row_def find_Some_iff)
next
  assume r: "r \<in> set rows \<and> key r = k"
  then have "get_row key k rows \<noteq> None"
    by (auto simp: get_row_def find_None_iff)
  then obtain r' where r': "get_row key k rows = Some r'" by blast
  then have "r' \<in> set rows \<and> key r' = k"
    by (auto simp: get_row_def find_Some_iff)
  with r assms have "r' = r"
    by (auto simp: distinct_map inj_on_def)
  with r' show "get_row key k rows = Some r" by simp
qed

lemma get_row_SomeD: "get_row key k rows = Some r \<Longrightarrow> r \<in> set rows \<and> key r = k"
  by (auto simp: get_row_def find_Some_iff)

lemma get_row_None_iff: "get_row key k rows = None \<longleftrightarrow> k \<notin> key ` set rows"
  by (auto simp: get_row_def find_None_iff)

lemma get_row_key: "get_row key k rows = Some r \<Longrightarrow> key r = k"
  by (blast dest: get_row_SomeD)

lemma insert_row_Inr_iff:
  "insert_row key r rows = Inr rows' \<longleftrightarrow> key r \<notin> key ` set rows \<and> rows' = rows @ [r]"
  by (auto simp: insert_row_def)

lemma insert_rows_Inr_iff:
  "insert_rows key rs rows = Inr rows' \<longleftrightarrow>
     distinct (map key rs) \<and> key ` set rs \<inter> key ` set rows = {} \<and> rows' = rows @ rs"
proof (induction rs arbitrary: rows)
  case (Cons r rs)
  show ?case by (auto simp: bindE_Inr_iff insert_row_Inr_iff Cons.IH)
qed auto

lemma insert_rows_distinct:
  "insert_rows key rs rows = Inr rows' \<Longrightarrow> distinct (map key rows) \<Longrightarrow> distinct (map key rows')"
  by (auto simp: insert_rows_Inr_iff)

lemma insert_row_distinct:
  "insert_row key r rows = Inr rows' \<Longrightarrow> distinct (map key rows) \<Longrightarrow> distinct (map key rows')"
  by (auto simp: insert_row_Inr_iff)

lemma get_row_append [tbl]:
  "get_row key k (rows @ rows') =
     (case get_row key k rows of None \<Rightarrow> get_row key k rows' | Some r \<Rightarrow> Some r)"
  unfolding get_row_def by (induction rows) simp_all

lemma get_row_Nil [tbl, simp]: "get_row key k [] = None"
  by (simp add: get_row_def)

lemma get_row_Cons [tbl]:
  "get_row key k (r # rows) = (if key r = k then Some r else get_row key k rows)"
  by (simp add: get_row_def)

lemma get_row_upd_row [tbl]:
  assumes "\<And>r. key (f r) = key r"
  shows "get_row key k (upd_row key k' f rows) =
    (if k = k' then map_option f (get_row key k rows) else get_row key k rows)"
  unfolding get_row_def upd_row_def
proof (induction rows)
  case Nil
  show ?case by simp
next
  case (Cons a rows)
  show ?case
    by (cases "key a = k'"; cases "key a = k") (use Cons.IH assms in \<open>simp_all\<close>)
qed

lemma map_key_upd_row [tbl]:
  assumes "\<And>r. key (f r) = key r"
  shows "map key (upd_row key k f rows) = map key rows"
  by (induction rows) (auto simp: upd_row_def assms)

lemma upd_row_map_other [tbl]:
  assumes "\<And>r. g (f r) = g r"
  shows "map g (upd_row key k f rows) = map g rows"
  by (induction rows) (auto simp: upd_row_def assms)

lemma length_upd_row [tbl, simp]: "length (upd_row key k f rows) = length rows"
  by (simp add: upd_row_def)

lemma set_upd_row: "set (upd_row key k f rows) = (\<lambda>r. if key r = k then f r else r) ` set rows"
  by (simp add: upd_row_def)

lemma upd_row_id: "k \<notin> key ` set rows \<Longrightarrow> upd_row key k f rows = rows"
  by (induction rows) (auto simp: upd_row_def)

lemma set_del_rows [tbl, simp]: "set (del_rows P rows) = {r \<in> set rows. \<not> P r}"
  by (simp add: del_rows_def)

lemma distinct_map_del_rows [tbl]: "distinct (map key rows) \<Longrightarrow> distinct (map key (del_rows P rows))"
  by (simp add: del_rows_def distinct_map_filter)

lemma get_row_del_rows [tbl]:
  assumes "\<And>r. key r = k \<Longrightarrow> \<not> P r"
  shows "get_row key k (del_rows P rows) = get_row key k rows"
  by (induction rows) (auto simp: get_row_def del_rows_def assms)

lemma get_row_del_rows_key [tbl, simp]:
  "get_row key k (del_rows (\<lambda>r. key r = k') rows) = (if k = k' then None else get_row key k rows)"
  by (induction rows) (auto simp: get_row_def del_rows_def)

lemma del_rows_del_rows [tbl]: "del_rows P (del_rows Q rows) = del_rows (\<lambda>r. P r \<or> Q r) rows"
  by (auto simp: del_rows_def intro: filter_cong)

lemma set_order_by [simp]: "set (order_by f rows) = set rows"
  by (simp add: order_by_def)

lemma length_order_by [simp]: "length (order_by f rows) = length rows"
  by (simp add: order_by_def)

lemma sorted_order_by: "sorted (map f (order_by f rows))"
  by (simp add: order_by_def)

lemma set_limit: "set (limit n rows) \<subseteq> set rows"
  by (simp add: limit_def set_take_subset)

lemma length_limit: "length (limit n rows) \<le> n"
  by (simp add: limit_def)

section \<open>Dictionaries\<close>

lemma map_of_update [simp]: "map_of (AList.update k v d) = (map_of d)(k \<mapsto> v)"
  by (rule update_conv')

lemma keys_update: "map fst (AList.update k v d) =
    (if k \<in> set (map fst d) then map fst d else map fst d @ [k])"
  by (rule update_keys)

lemma distinct_keys_update: "distinct (map fst d) \<Longrightarrow> distinct (map fst (AList.update k v d))"
  by (rule distinct_update)

text \<open>\<open>dict.setdefault(k, v)\<close>, for its effect.\<close>

definition dict_setdefault :: "'k \<Rightarrow> 'v \<Rightarrow> ('k \<times> 'v) list \<Rightarrow> ('k \<times> 'v) list" where
  "dict_setdefault k v d = (case map_of d k of Some _ \<Rightarrow> d | None \<Rightarrow> d @ [(k, v)])"

text \<open>\<open>list(dict.fromkeys(xs))\<close>: duplicates removed, first occurrences kept in order.\<close>

fun dedup_from :: "'a list \<Rightarrow> 'a list \<Rightarrow> 'a list" where
  "dedup_from seen [] = []"
| "dedup_from seen (x # xs) =
     (if x \<in> set seen then dedup_from seen xs else x # dedup_from (x # seen) xs)"

definition dict_fromkeys :: "'a list \<Rightarrow> 'a list" where
  "dict_fromkeys xs = dedup_from [] xs"

lemma set_dedup_from: "set (dedup_from seen xs) = set xs - set seen"
  by (induction xs arbitrary: seen) auto

lemma distinct_dedup_from: "distinct (dedup_from seen xs)"
  by (induction xs arbitrary: seen) (auto simp: set_dedup_from)

lemma set_dict_fromkeys [simp]: "set (dict_fromkeys xs) = set xs"
  by (simp add: dict_fromkeys_def set_dedup_from)

lemma distinct_dict_fromkeys [simp]: "distinct (dict_fromkeys xs)"
  by (simp add: dict_fromkeys_def distinct_dedup_from)

section \<open>Generic list facts\<close>

lemma option_case_None_iff: "(case x of None \<Rightarrow> True | Some y \<Rightarrow> P y) \<longleftrightarrow> (\<forall>y. x = Some y \<longrightarrow> P y)"
  by (cases x) auto

lemma fold_invariant_step:
  assumes "P s" and "\<And>x s. x \<in> set xs \<Longrightarrow> P s \<Longrightarrow> P (f x s)"
  shows "P (fold f xs s)"
  using assms by (induction xs arbitrary: s) auto

lemma image_rest: "x \<in> f ` A \<Longrightarrow> x \<notin> f ` {r \<in> A. P r} \<Longrightarrow> x \<in> f ` {r \<in> A. \<not> P r}"
  by blast

end
