(* ===== verification/PyFloat.thy ===== *)
theory PyFloat
  imports Complex_Main Prelude
begin

text \<open>
  Python's \<open>float\<close>: IEEE 754 binary64, kept as the rational number it denotes.

  \<open>fl x\<close> is the double nearest to \<open>x\<close>, ties to even, with gradual underflow
  (exponent at least \<open>-1074\<close>). Every arithmetic operation of the model is the exact
  operation followed by \<open>fl\<close>, and a decimal literal is \<open>fl\<close> of its value. Infinities
  and NaN are not represented: the modelled code works on confidences, weights and scores far
  below \<open>2 ^ 1023\<close>, and guards its divisors.

  The locale \<open>rounding\<close> states what the clients need of rounding (monotone, exact on the
  few integers they compare with), and their lemmas about ratios and clamps are proved there
  once; \<open>fl\<close> interprets it.
\<close>

section \<open>Round half to even\<close>

definition rhe :: "rat \<Rightarrow> int" where
  "rhe y = (let f = \<lfloor>y\<rfloor>; d = y - of_int f in
     if d < 1 / 2 then f
     else if d > 1 / 2 then f + 1
     else if even f then f else f + 1)"

lemma rhe_of_int [simp]: "rhe (of_int n) = n"
  by (simp add: rhe_def)

lemma rhe_bounds: "\<lfloor>y\<rfloor> \<le> rhe y" "rhe y \<le> \<lfloor>y\<rfloor> + 1"
  by (auto simp: rhe_def Let_def)

lemma rhe_mono:
  assumes "x \<le> y"
  shows "rhe x \<le> rhe y"
proof (cases "\<lfloor>x\<rfloor> = \<lfloor>y\<rfloor>")
  case True
  with assms show ?thesis by (auto simp: rhe_def Let_def)
next
  case False
  then have "\<lfloor>x\<rfloor> + 1 \<le> \<lfloor>y\<rfloor>" using floor_mono [OF assms] by linarith
  then show ?thesis using rhe_bounds(2) [of x] rhe_bounds(1) [of y] by linarith
qed

section \<open>The binary exponent of a positive rational\<close>

text \<open>The number of binary digits of a natural number.\<close>

fun nbits :: "nat \<Rightarrow> nat" where
  "nbits n = (if n = 0 then 0 else Suc (nbits (n div 2)))"

declare nbits.simps [simp del]

lemma nbits_bounds: "0 < n \<Longrightarrow> 2 ^ (nbits n - 1) \<le> n \<and> n < 2 ^ nbits n \<and> 0 < nbits n"
proof (induction n rule: nbits.induct)
  case (1 n)
  show ?case
  proof (cases "n div 2 = 0")
    case True
    with "1.prems" have "n = 1" by auto
    then show ?thesis by (simp add: nbits.simps)
  next
    case False
    with "1" have IH: "2 ^ (nbits (n div 2) - 1) \<le> n div 2" "n div 2 < 2 ^ nbits (n div 2)"
      and pos: "0 < nbits (n div 2)"
      by auto
    have eq: "nbits n = Suc (nbits (n div 2))"
      using "1.prems" by (subst nbits.simps) simp
    from pos have "2 ^ nbits (n div 2) = 2 * (2::nat) ^ (nbits (n div 2) - 1)"
      by (simp flip: power_Suc)
    then have "2 * 2 ^ (nbits (n div 2) - 1) \<le> n" and "n < 2 * (2 * 2 ^ (nbits (n div 2) - 1))"
      using IH by linarith+
    with eq \<open>2 ^ nbits (n div 2) = _\<close> pos show ?thesis by simp
  qed
qed

definition ilog2 :: "rat \<Rightarrow> int" where
  "ilog2 x = (let (p, q) = quotient_of x;
                  k = int (nbits (nat p)) - int (nbits (nat q))
              in if 2 powi k \<le> x then k else k - 1)"

lemma powi_nat_diff: "(2::rat) powi (int a - int b) = 2 ^ a / 2 ^ b"
  by (simp add: power_int_diff)

lemma ilog2_bounds:
  assumes "0 < x"
  shows "2 powi ilog2 x \<le> x" and "x < 2 powi (ilog2 x + 1)"
proof -
  obtain p q where pq: "quotient_of x = (p, q)" by (cases "quotient_of x")
  have q: "0 < q" using pq by (rule quotient_of_denom_pos)
  have x: "x = of_int p / of_int q" using pq by (rule quotient_of_div)
  with assms q have p: "0 < p" by (simp add: zero_less_divide_iff)
  obtain m n where m: "p = int m" and n: "q = int n"
    using p q by (metis less_imp_le nonneg_int_cases)
  let ?a = "nbits m" and ?b = "nbits n"
  have P: "2 ^ (?a - 1) \<le> m" "m < 2 ^ ?a" "0 < ?a"
    using nbits_bounds [of m] p m by auto
  have Q: "2 ^ (?b - 1) \<le> n" "n < 2 ^ ?b" "0 < ?b"
    using nbits_bounds [of n] q n by auto
  have "(of_nat (2 ^ (?a - 1)) :: rat) \<le> of_nat m" "(of_nat m :: rat) < of_nat (2 ^ ?a)"
    using P by (simp_all only: of_nat_le_iff of_nat_less_iff)
  then have P': "(2::rat) ^ (?a - 1) \<le> of_int p" "of_int p < (2::rat) ^ ?a"
    by (simp_all add: m)
  have "(of_nat (2 ^ (?b - 1)) :: rat) \<le> of_nat n" "(of_nat n :: rat) < of_nat (2 ^ ?b)"
    using Q by (simp_all only: of_nat_le_iff of_nat_less_iff)
  then have Q': "(2::rat) ^ (?b - 1) \<le> of_int q" "of_int q < (2::rat) ^ ?b"
    by (simp_all add: n)
  have a1: "(2::rat) ^ ?a = 2 * 2 ^ (?a - 1)" using P(3) by (simp flip: power_Suc)
  have b1: "(2::rat) ^ ?b = 2 * 2 ^ (?b - 1)" using Q(3) by (simp flip: power_Suc)
  have qq: "(0::rat) < of_int q" using q by simp
  let ?k = "int ?a - int ?b"
  have up: "x < 2 powi (?k + 1)"
  proof -
    have "of_int p * 2 ^ ?b < (2::rat) ^ ?a * 2 ^ ?b"
      using P'(2) by simp
    also have "\<dots> \<le> 2 ^ ?a * (2 * of_int q)"
      using Q'(1) b1 by simp
    finally have "x < 2 * 2 ^ ?a / 2 ^ ?b"
      using qq by (simp add: x field_simps)
    then show ?thesis by (simp add: power_int_add_1 powi_nat_diff mult.commute)
  qed
  have low: "2 powi (?k - 1) \<le> x"
  proof -
    have "(2::rat) ^ ?a * of_int q \<le> 2 ^ ?a * 2 ^ ?b"
      using Q'(2) by simp
    also have "\<dots> \<le> 2 * of_int p * 2 ^ ?b"
      using P'(1) a1 by simp
    finally have "2 ^ ?a / 2 ^ ?b / 2 \<le> x"
      using qq by (simp add: x field_simps)
    then show ?thesis by (simp add: power_int_diff powi_nat_diff)
  qed
  have e: "ilog2 x = (if 2 powi ?k \<le> x then ?k else ?k - 1)"
    by (simp add: ilog2_def pq Let_def m n)
  show "2 powi ilog2 x \<le> x" using low by (simp add: e)
  show "x < 2 powi (ilog2 x + 1)" using up by (simp add: e)
qed

lemma ilog2_mono:
  assumes "0 < x" "x \<le> y"
  shows "ilog2 x \<le> ilog2 y"
proof (rule ccontr)
  assume "\<not> ?thesis"
  then have "ilog2 y + 1 \<le> ilog2 x" by simp
  then have "(2::rat) powi (ilog2 y + 1) \<le> 2 powi ilog2 x"
    by (rule power_int_increasing) simp
  with ilog2_bounds(1) [of x] ilog2_bounds(2) [of y] assms show False by simp
qed

section \<open>Rounding to binary64\<close>

definition fl_exp :: "rat \<Rightarrow> int" where
  "fl_exp x = max (ilog2 x - 52) (-1074)"

definition fl_pos :: "rat \<Rightarrow> rat" where
  "fl_pos x = of_int (rhe (x / 2 powi fl_exp x)) * 2 powi fl_exp x"

definition fl :: "rat \<Rightarrow> rat" where
  "fl x = (if x = 0 then 0 else if x < 0 then - fl_pos (- x) else fl_pos x)"

lemma powi2_pos [simp]: "(0::rat) < 2 powi k"
  by (simp add: zero_less_power_int)

lemma fl_pos_nonneg: "0 < x \<Longrightarrow> 0 \<le> fl_pos x"
  unfolding fl_pos_def
  using rhe_mono [of 0 "x / 2 powi fl_exp x"] rhe_of_int [of 0]
  by (simp add: zero_le_mult_iff)

lemma fl_pos_upper:
  assumes "0 < x"
  shows "fl_pos x \<le> 2 powi (fl_exp x + 53)"
proof -
  have "ilog2 x + 1 \<le> fl_exp x + 53" by (simp add: fl_exp_def)
  then have "(2::rat) powi (ilog2 x + 1) \<le> 2 powi (fl_exp x + 53)"
    by (rule power_int_increasing) simp
  with ilog2_bounds(2) [OF assms] have "x \<le> 2 powi (fl_exp x + 53)" by simp
  then have "x / 2 powi fl_exp x \<le> of_int (2 ^ 53)"
    by (simp add: power_int_add field_simps)
  then have "rhe (x / 2 powi fl_exp x) \<le> rhe (of_int (2 ^ 53))" by (rule rhe_mono)
  then have "rhe (x / 2 powi fl_exp x) \<le> 2 ^ 53" by (simp only: rhe_of_int)
  then have "(of_int (rhe (x / 2 powi fl_exp x)) :: rat) \<le> of_int (2 ^ 53)"
    by (simp only: of_int_le_iff)
  then show ?thesis by (simp add: fl_pos_def power_int_add)
qed

lemma fl_pos_lower:
  assumes "0 < x" "-1074 < fl_exp x"
  shows "2 powi (fl_exp x + 52) \<le> fl_pos x"
proof -
  from assms(2) have "fl_exp x + 52 = ilog2 x" by (simp add: fl_exp_def)
  with ilog2_bounds(1) [OF assms(1)] have "2 powi (fl_exp x + 52) \<le> x" by simp
  then have "of_int (2 ^ 52) \<le> x / 2 powi fl_exp x"
    by (simp add: power_int_add field_simps)
  then have "rhe (of_int (2 ^ 52)) \<le> rhe (x / 2 powi fl_exp x)" by (rule rhe_mono)
  then have "2 ^ 52 \<le> rhe (x / 2 powi fl_exp x)" by (simp only: rhe_of_int)
  then have "(of_int (2 ^ 52) :: rat) \<le> of_int (rhe (x / 2 powi fl_exp x))"
    by (simp only: of_int_le_iff)
  then show ?thesis by (simp add: fl_pos_def power_int_add)
qed

lemma fl_pos_mono:
  assumes "0 < x" "x \<le> y"
  shows "fl_pos x \<le> fl_pos y"
proof (cases "fl_exp x = fl_exp y")
  case True
  have "x / 2 powi fl_exp y \<le> y / 2 powi fl_exp y"
    using assms by (simp add: divide_right_mono)
  then have "rhe (x / 2 powi fl_exp y) \<le> rhe (y / 2 powi fl_exp y)" by (rule rhe_mono)
  with True show ?thesis by (simp add: fl_pos_def)
next
  case False
  moreover have "fl_exp x \<le> fl_exp y"
    using ilog2_mono [OF assms] by (auto simp: fl_exp_def)
  ultimately have lt: "fl_exp x + 53 \<le> fl_exp y + 52" and ey: "-1074 < fl_exp y"
    by (auto simp: fl_exp_def)
  have "fl_pos x \<le> 2 powi (fl_exp x + 53)" by (rule fl_pos_upper [OF assms(1)])
  also have "\<dots> \<le> 2 powi (fl_exp y + 52)" using lt by (rule power_int_increasing) simp
  also have "\<dots> \<le> fl_pos y" using assms ey by (intro fl_pos_lower) auto
  finally show ?thesis .
qed

lemma fl_0 [simp]: "fl 0 = 0"
  by (simp add: fl_def)

lemma fl_mono:
  assumes "x \<le> y"
  shows "fl x \<le> fl y"
proof -
  consider "0 < x" | "x = 0" | "x < 0" "0 \<le> y" | "x < 0" "y < 0" by linarith
  then show ?thesis
  proof cases
    case 1
    with assms show ?thesis by (simp add: fl_def fl_pos_mono)
  next
    case 2
    with assms show ?thesis by (simp add: fl_def fl_pos_nonneg)
  next
    case 3
    then show ?thesis
      using fl_pos_nonneg [of "- x"] fl_pos_nonneg [of y] by (auto simp: fl_def)
  next
    case 4
    with assms show ?thesis by (simp add: fl_def fl_pos_mono)
  qed
qed

lemma fl_minus: "fl (- x) = - fl x"
  by (simp add: fl_def)

text \<open>A number with at most 53 significant bits is its own rounding.\<close>

lemma fl_exact:
  assumes "x = of_int n * 2 powi e" "0 < n" "n < 2 ^ 53" "-1074 \<le> e"
  shows "fl x = x"
proof -
  have x: "0 < x" using assms by simp
  have "ilog2 x < e + 53"
  proof (rule ccontr)
    assume "\<not> ilog2 x < e + 53"
    then have "(2::rat) powi (e + 53) \<le> 2 powi ilog2 x"
      by (intro power_int_increasing) auto
    also have "\<dots> \<le> x" by (rule ilog2_bounds(1) [OF x])
    finally have "2 ^ 53 \<le> (of_int n :: rat)"
      by (simp add: assms(1) power_int_add)
    then have "(of_int (2 ^ 53) :: rat) \<le> of_int n" by simp
    then have "2 ^ 53 \<le> n" by (simp only: of_int_le_iff)
    with assms(3) show False by simp
  qed
  then have e: "fl_exp x \<le> e" using assms(4) by (auto simp: fl_exp_def)
  define k where "k = fl_exp x"
  from e obtain d where d: "e = k + int d"
    unfolding k_def by (metis zle_iff_zadd)
  have eq: "x = of_int (n * 2 ^ d) * 2 powi k"
    using assms(1) by (simp add: d power_int_add)
  then have "x / 2 powi k = of_int (n * 2 ^ d)" by simp
  then have "fl_pos x = of_int (n * 2 ^ d) * 2 powi k"
    by (simp only: fl_pos_def rhe_of_int flip: k_def)
  with eq have "fl_pos x = x" by simp
  then show ?thesis using x by (simp add: fl_def)
qed

lemma fl_of_pos_int: "0 < n \<Longrightarrow> n < 2 ^ 53 \<Longrightarrow> fl (of_int n) = of_int n"
  by (rule fl_exact [where n = n and e = 0]) simp_all

lemma fl_of_int:
  assumes "\<bar>n\<bar> < 2 ^ 53"
  shows "fl (of_int n) = of_int n"
proof -
  consider "0 < n" | "n = 0" | "0 < - n" by linarith
  then show ?thesis
  proof cases
    case 3
    have "- n < 2 ^ 53" using assms by linarith
    with 3 have "fl (of_int (- n)) = of_int (- n)" by (rule fl_of_pos_int)
    then show ?thesis by (simp add: fl_minus)
  next
    case 1
    have "n < 2 ^ 53" using assms by linarith
    with 1 show ?thesis by (rule fl_of_pos_int)
  qed simp
qed

lemma fl_1 [simp]: "fl 1 = 1" and fl_2 [simp]: "fl 2 = 2"
  using fl_of_int [of 1] fl_of_int [of 2] by simp_all

section \<open>Arithmetic on floats\<close>

definition fadd :: "rat \<Rightarrow> rat \<Rightarrow> rat" where "fadd x y = fl (x + y)"
definition fsub :: "rat \<Rightarrow> rat \<Rightarrow> rat" where "fsub x y = fl (x - y)"
definition fmul :: "rat \<Rightarrow> rat \<Rightarrow> rat" where "fmul x y = fl (x * y)"
definition fdiv :: "rat \<Rightarrow> rat \<Rightarrow> rat" where "fdiv x y = fl (x / y)"

text \<open>\<open>round(x, n)\<close>: the decimal with \<open>n\<close> places nearest to the exact value,
  ties to even, read back as a float.\<close>

definition py_round :: "rat \<Rightarrow> nat \<Rightarrow> rat" where
  "py_round x n = fl (of_int (rhe (x * 10 ^ n)) / 10 ^ n)"

lemma py_round_mono: "x \<le> y \<Longrightarrow> py_round x n \<le> py_round y n"
  unfolding py_round_def
  by (intro fl_mono divide_right_mono) (simp_all add: rhe_mono)

lemma py_round_0 [simp]: "py_round 0 n = 0"
  using rhe_of_int [of 0] by (simp add: py_round_def)

lemma py_round_1 [simp]: "py_round 1 n = 1"
proof -
  have "rhe (of_int (10 ^ n)) = 10 ^ n" by (rule rhe_of_int)
  then show ?thesis by (simp add: py_round_def)
qed

lemma py_round_unit: "0 \<le> x \<Longrightarrow> x \<le> 1 \<Longrightarrow> 0 \<le> py_round x n \<and> py_round x n \<le> 1"
  using py_round_mono [of 0 x n] py_round_mono [of x 1 n] by simp

section \<open>What clients need of rounding\<close>

locale rounding =
  fixes rnd :: "rat \<Rightarrow> rat"
  assumes mono: "x \<le> y \<Longrightarrow> rnd x \<le> rnd y"
    and zero: "rnd 0 = 0"
    and one: "rnd 1 = 1"
    and two: "rnd 2 = 2"
begin

lemma nonneg: "0 \<le> x \<Longrightarrow> 0 \<le> rnd x"
  using mono [of 0 x] zero by simp

lemma le_one: "x \<le> 1 \<Longrightarrow> rnd x \<le> 1"
  using mono [of x 1] one by simp

lemma ge_one: "1 \<le> x \<Longrightarrow> 1 \<le> rnd x"
  using mono [of 1 x] one by simp

lemma ge_two: "2 \<le> x \<Longrightarrow> 2 \<le> rnd x"
  using mono [of 2 x] two by simp

lemma quotient_unit:
  assumes "0 \<le> a" "a \<le> b"
  shows "0 \<le> rnd (a / b) \<and> rnd (a / b) \<le> 1"
  using assms by (intro conjI nonneg le_one) (auto simp: divide_le_eq_1)

lemma smoothed_ratio_unit:
  assumes "0 \<le> s" "s \<le> t"
  shows "0 \<le> rnd (rnd (s + 1) / rnd (t + 2)) \<and> rnd (rnd (s + 1) / rnd (t + 2)) \<le> 1"
proof (rule quotient_unit)
  show "0 \<le> rnd (s + 1)" using assms by (intro nonneg) simp
  show "rnd (s + 1) \<le> rnd (t + 2)" using assms by (intro mono) simp
qed

lemma clamp_up_unit:
  assumes "0 \<le> c" "0 \<le> d"
  shows "0 \<le> min 1 (rnd (c + d)) \<and> min 1 (rnd (c + d)) \<le> 1"
  using assms nonneg [of "c + d"] by simp

lemma clamp_down_unit:
  assumes "c \<le> 1" "0 \<le> d"
  shows "0 \<le> max 0 (rnd (c - d)) \<and> max 0 (rnd (c - d)) \<le> 1"
  using assms le_one [of "c - d"] by simp

end

interpretation f64: rounding fl
  by unfold_locales (simp_all add: fl_mono)

text \<open>Literals of the modelled code.\<close>

definition f0_1 :: rat where "f0_1 = fl (1 / 10)"
definition f0_2 :: rat where "f0_2 = fl (1 / 5)"
definition f0_5 :: rat where "f0_5 = fl (1 / 2)"
definition f0_6 :: rat where "f0_6 = fl (3 / 5)"
definition f0_7 :: rat where "f0_7 = fl (7 / 10)"
definition f0_8 :: rat where "f0_8 = fl (4 / 5)"

lemma f_half [simp]: "f0_5 = 1 / 2"
  using fl_exact [of "1/2" 1 "-1"] by (simp add: f0_5_def power_int_minus)

lemma f_lits_unit:
  "0 \<le> f0_1" "0 \<le> f0_2" "0 \<le> f0_6" "f0_6 \<le> 1" "0 \<le> f0_7" "0 \<le> f0_8" "f0_8 \<le> 1"
  "0 \<le> f0_1" "f0_2 \<le> 1"
  by (simp_all add: f0_1_def f0_2_def f0_6_def f0_7_def f0_8_def f64.nonneg f64.le_one)

end
