(* ===== verification/PyText.thy ===== *)
theory PyText
  imports Prelude
begin

text \<open>
  Python \<open>str\<close> as a list of characters, with the string methods the code calls.

  A character is a code point below 256, so text is Latin-1 (white space includes the
  file/group/record/unit separators, NEL and the no-break space, as \<open>str.isspace\<close> does;
  the soft hyphen is a character). Unicode normalisation and case folding beyond that range are
  parameters where the code uses them.
\<close>

section \<open>Character classes\<close>

definition ord_of :: "char \<Rightarrow> nat" where
  "ord_of c = of_char c"

definition py_isspace :: "char \<Rightarrow> bool" where
  "py_isspace c = (let n = ord_of c in
     (9 \<le> n \<and> n \<le> 13) \<or> (28 \<le> n \<and> n \<le> 32) \<or> n = 133 \<or> n = 160)"

definition is_lower_az :: "char \<Rightarrow> bool" where
  "is_lower_az c = (let n = ord_of c in 97 \<le> n \<and> n \<le> 122)"

definition is_upper_az :: "char \<Rightarrow> bool" where
  "is_upper_az c = (let n = ord_of c in 65 \<le> n \<and> n \<le> 90)"

definition is_digit09 :: "char \<Rightarrow> bool" where
  "is_digit09 c = (let n = ord_of c in 48 \<le> n \<and> n \<le> 57)"

definition lower_char :: "char \<Rightarrow> char" where
  "lower_char c = (let n = ord_of c in
     if (65 \<le> n \<and> n \<le> 90) \<or> (192 \<le> n \<and> n \<le> 222 \<and> n \<noteq> 215) then char_of (n + 32) else c)"

definition py_lower :: "string \<Rightarrow> string" where
  "py_lower s = map lower_char s"

lemma length_py_lower [simp]: "length (py_lower s) = length s"
  by (simp add: py_lower_def)

lemma lower_char_not_upper: "\<not> is_upper_az (lower_char c)"
  by (auto simp: is_upper_az_def lower_char_def Let_def ord_of_def of_char_of)

section \<open>Stripping, splitting, joining\<close>

definition py_lstrip :: "string \<Rightarrow> string" where
  "py_lstrip s = dropWhile py_isspace s"

definition py_rstrip :: "string \<Rightarrow> string" where
  "py_rstrip s = rev (dropWhile py_isspace (rev s))"

definition py_strip :: "string \<Rightarrow> string" where
  "py_strip s = py_rstrip (py_lstrip s)"

text \<open>\<open>s.strip(chars)\<close> for a set of characters.\<close>

definition py_strip_chars :: "string \<Rightarrow> string \<Rightarrow> string" where
  "py_strip_chars cs s =
     rev (dropWhile (\<lambda>c. c \<in> set cs) (rev (dropWhile (\<lambda>c. c \<in> set cs) s)))"

fun split_ws_from :: "string \<Rightarrow> string \<Rightarrow> string list" where
  "split_ws_from acc [] = (if acc = [] then [] else [rev acc])"
| "split_ws_from acc (c # cs) =
     (if py_isspace c
      then (if acc = [] then split_ws_from [] cs else rev acc # split_ws_from [] cs)
      else split_ws_from (c # acc) cs)"

definition py_split :: "string \<Rightarrow> string list" where
  "py_split s = split_ws_from [] s"

fun py_join :: "string \<Rightarrow> string list \<Rightarrow> string" where
  "py_join sep [] = []"
| "py_join sep [x] = x"
| "py_join sep (x # y # xs) = x @ sep @ py_join sep (y # xs)"

definition squeeze_ws :: "string \<Rightarrow> string" where
  \<comment> \<open>\<open>" ".join(s.split())\<close>\<close>
  "squeeze_ws s = py_join '' '' (py_split s)"

definition no_ws :: "string \<Rightarrow> bool" where
  "no_ws w = list_all (\<lambda>c. \<not> py_isspace c) w"

lemma no_ws_simps [simp]:
  "no_ws []" "no_ws (c # w) \<longleftrightarrow> \<not> py_isspace c \<and> no_ws w" "no_ws (rev w) \<longleftrightarrow> no_ws w"
  by (simp_all add: no_ws_def)

lemma split_ws_from_words:
  "no_ws acc \<Longrightarrow> list_all (\<lambda>w. w \<noteq> [] \<and> no_ws w) (split_ws_from acc s)"
proof (induction acc s rule: split_ws_from.induct)
  case (2 acc c cs)
  then show ?case by (cases "py_isspace c"; cases "acc = []") simp_all
qed simp

lemma py_split_words: "w \<in> set (py_split s) \<Longrightarrow> w \<noteq> [] \<and> no_ws w"
  using split_ws_from_words [of "[]" s] by (simp add: py_split_def list_all_iff)

lemma split_ws_from_word:
  "no_ws w \<Longrightarrow> split_ws_from acc (w @ s) = split_ws_from (rev w @ acc) s"
  by (induction w arbitrary: acc) auto

lemma py_split_join:
  assumes "\<forall>w\<in>set ws. w \<noteq> [] \<and> no_ws w"
  shows "py_split (py_join '' '' ws) = ws"
proof -
  have sp: "py_isspace (CHR '' '')" by (simp add: py_isspace_def ord_of_def)
  have "split_ws_from [] (py_join '' '' ws) = ws"
    using assms
  proof (induction "'' ''" ws rule: py_join.induct)
    case (2 x)
    then show ?case using split_ws_from_word [of x "[]" "[]"] by simp
  next
    case (3 x y xs)
    then show ?case
      using split_ws_from_word [of x "[]" "CHR '' '' # py_join '' '' (y # xs)"] sp by simp
  qed simp
  then show ?thesis by (simp add: py_split_def)
qed

lemma squeeze_ws_idem [simp]: "squeeze_ws (squeeze_ws s) = squeeze_ws s"
  unfolding squeeze_ws_def by (subst py_split_join) (auto dest: py_split_words)

lemma dropWhile_hd: "dropWhile P xs \<noteq> [] \<Longrightarrow> \<not> P (hd (dropWhile P xs))"
  by (rule hd_dropWhile) auto

lemma py_strip_Nil_iff: "py_strip s = [] \<longleftrightarrow> (\<forall>c\<in>set s. py_isspace c)"
proof
  assume "py_strip s = []"
  then have "\<forall>c\<in>set (dropWhile py_isspace s). py_isspace c"
    by (simp add: py_strip_def py_rstrip_def py_lstrip_def)
  then have "dropWhile py_isspace s = []"
    using hd_dropWhile hd_in_set by metis
  then show "\<forall>c\<in>set s. py_isspace c" by simp
qed (simp add: py_strip_def py_rstrip_def py_lstrip_def dropWhile_eq_Nil_conv [THEN iffD2])

section \<open>Searching\<close>

fun starts_with :: "'a list \<Rightarrow> 'a list \<Rightarrow> bool" where
  "starts_with [] s = True"
| "starts_with (p # ps) [] = False"
| "starts_with (p # ps) (c # s) = (p = c \<and> starts_with ps s)"

lemma starts_with_take: "starts_with p s \<longleftrightarrow> take (length p) s = p"
  by (induction p s rule: starts_with.induct) auto

lemma starts_with_length: "starts_with p s \<Longrightarrow> length p \<le> length s"
  by (induction p s rule: starts_with.induct) auto

definition ends_with :: "'a list \<Rightarrow> 'a list \<Rightarrow> bool" where
  "ends_with p s = starts_with (rev p) (rev s)"

text \<open>\<open>s.find(sub)\<close>: the least index of an occurrence, \<open>None\<close> for Python's \<open>-1\<close>.\<close>

fun py_find :: "'a list \<Rightarrow> 'a list \<Rightarrow> nat option" where
  "py_find sub [] = (if sub = [] then Some 0 else None)"
| "py_find sub (c # s) =
     (if starts_with sub (c # s) then Some 0 else map_option Suc (py_find sub s))"

definition py_contains :: "'a list \<Rightarrow> 'a list \<Rightarrow> bool" where
  \<comment> \<open>\<open>sub in s\<close>\<close>
  "py_contains sub s = (py_find sub s \<noteq> None)"

text \<open>The slice \<open>s[i:j]\<close> for \<open>0 \<le> i\<close> and \<open>0 \<le> j\<close>.\<close>

definition slice :: "nat \<Rightarrow> nat \<Rightarrow> 'a list \<Rightarrow> 'a list" where
  "slice i j s = take (j - i) (drop i s)"

lemma length_slice: "length (slice i j s) = min (j - i) (length s - i)"
  by (simp add: slice_def)

lemma slice_empty [simp]: "j \<le> i \<Longrightarrow> slice i j s = []"
  by (simp add: slice_def)

lemma slice_Nil_iff: "slice i j s = [] \<longleftrightarrow> j \<le> i \<or> length s \<le> i"
  by (auto simp: slice_def)

lemma nth_slice: "k < j - i \<Longrightarrow> i + k < length s \<Longrightarrow> slice i j s ! k = s ! (i + k)"
  by (simp add: slice_def)

lemma py_find_Some:
  "py_find sub s = Some i \<Longrightarrow>
     i + length sub \<le> length s \<and> slice i (i + length sub) s = sub"
proof (induction sub s arbitrary: i rule: py_find.induct)
  case (2 sub c s)
  show ?case
  proof (cases "starts_with sub (c # s)")
    case True
    with 2 show ?thesis
      by (auto simp: starts_with_take slice_def dest: starts_with_length)
         (use True starts_with_length in fastforce)
  next
    case False
    with 2 obtain j where "py_find sub s = Some j" "i = Suc j" by auto
    with 2(1) [OF False] show ?thesis by (auto simp: slice_def)
  qed
qed (auto split: if_splits)

lemma py_find_least:
  "py_find sub s = Some i \<Longrightarrow> slice j (j + length sub) s = sub \<Longrightarrow> j + length sub \<le> length s \<Longrightarrow> i \<le> j"
proof (induction sub s arbitrary: i j rule: py_find.induct)
  case (2 sub c s)
  show ?case
  proof (cases "starts_with sub (c # s)")
    case True
    with 2 show ?thesis by auto
  next
    case False
    with 2 obtain k where k: "py_find sub s = Some k" "i = Suc k" by auto
    show ?thesis
    proof (cases j)
      case 0
      with 2(3) False show ?thesis by (simp add: slice_def starts_with_take)
    next
      case (Suc j')
      with 2 False k have "k \<le> j'" by (auto simp: slice_def)
      with k Suc show ?thesis by simp
    qed
  qed
qed (auto split: if_splits)

lemma py_find_None:
  "py_find sub s = None \<Longrightarrow> j + length sub \<le> length s \<Longrightarrow> slice j (j + length sub) s \<noteq> sub"
proof (induction sub s arbitrary: j rule: py_find.induct)
  case (2 sub c s)
  then have nf: "\<not> starts_with sub (c # s)" and none: "py_find sub s = None"
    by (auto split: if_splits)
  show ?case
  proof (cases j)
    case 0
    with nf show ?thesis by (simp add: slice_def starts_with_take)
  next
    case (Suc j')
    with 2 nf none show ?thesis by (auto simp: slice_def)
  qed
qed (auto split: if_splits)

lemma py_contains_iff:
  "py_contains sub s \<longleftrightarrow> (\<exists>j. j + length sub \<le> length s \<and> slice j (j + length sub) s = sub)"
  unfolding py_contains_def
  using py_find_Some [of sub s] py_find_None [of sub s] by (cases "py_find sub s") blast+

text \<open>\<open>s.rfind(sub, lo, hi)\<close>: the greatest index in the range, scanning downwards from \<open>k\<close>.\<close>

fun rfind_down :: "'a list \<Rightarrow> 'a list \<Rightarrow> nat \<Rightarrow> nat \<Rightarrow> nat option" where
  "rfind_down sub s lo 0 =
     (if lo = 0 \<and> starts_with sub s then Some 0 else None)"
| "rfind_down sub s lo (Suc k) =
     (if Suc k < lo then None
      else if starts_with sub (drop (Suc k) s) then Some (Suc k)
      else rfind_down sub s lo k)"

definition py_rfind :: "'a list \<Rightarrow> 'a list \<Rightarrow> nat \<Rightarrow> nat \<Rightarrow> int" where
  "py_rfind sub s lo hi =
     (if hi < lo + length sub then -1
      else case rfind_down sub (take hi s) lo (hi - length sub) of
             None \<Rightarrow> -1 | Some i \<Rightarrow> int i)"

lemma rfind_down_Some: "rfind_down sub s lo k = Some i \<Longrightarrow> lo \<le> i \<and> i \<le> k \<and> starts_with sub (drop i s)"
  by (induction k) (auto split: if_splits)

lemma py_rfind_bounds:
  "py_rfind sub s lo hi = -1 \<or>
     (int lo \<le> py_rfind sub s lo hi \<and> py_rfind sub s lo hi + int (length sub) \<le> int hi)"
proof (cases "hi < lo + length sub")
  case False
  show ?thesis
  proof (cases "rfind_down sub (take hi s) lo (hi - length sub)")
    case (Some i)
    then have "lo \<le> i \<and> i \<le> hi - length sub" using rfind_down_Some by blast
    then have "lo \<le> i \<and> i + length sub \<le> hi" using False by linarith
    with Some False show ?thesis by (simp add: py_rfind_def)
  qed (simp add: py_rfind_def)
qed (simp add: py_rfind_def)

section \<open>Replacing\<close>

text \<open>\<open>s.replace(sub, "")\<close> for a single character.\<close>

definition remove_char :: "char \<Rightarrow> string \<Rightarrow> string" where
  "remove_char c s = filter (\<lambda>x. x \<noteq> c) s"

section \<open>Digits\<close>

definition hex_digit :: "nat \<Rightarrow> char" where
  "hex_digit d = (if d < 10 then char_of (48 + d) else char_of (87 + d))"

text \<open>\<open>w\<close> hexadecimal digits of \<open>n\<close>, most significant first (\<open>'%0wx' % n\<close> for \<open>n < 16 ^ w\<close>).\<close>

fun hex_pad :: "nat \<Rightarrow> nat \<Rightarrow> string" where
  "hex_pad 0 n = []"
| "hex_pad (Suc w) n = hex_pad w (n div 16) @ [hex_digit (n mod 16)]"

lemma length_hex_pad [simp]: "length (hex_pad w n) = w"
  by (induction w arbitrary: n) auto

lemma hex_digit_inj: "d < 16 \<Longrightarrow> e < 16 \<Longrightarrow> hex_digit d = hex_digit e \<Longrightarrow> d = e"
  by (auto simp: hex_digit_def take_bit_eq_mod split: if_splits dest!: arg_cong [where f = "of_char :: char \<Rightarrow> nat"])

lemma hex_digit_mono: "d < e \<Longrightarrow> e < 16 \<Longrightarrow> hex_digit d < hex_digit e"
  by (auto simp: hex_digit_def less_char_def take_bit_eq_mod)

lemma hex_pad_inj: "m < 16 ^ w \<Longrightarrow> n < 16 ^ w \<Longrightarrow> hex_pad w m = hex_pad w n \<Longrightarrow> m = n"
proof (induction w arbitrary: m n)
  case (Suc w)
  then have d: "hex_pad w (m div 16) = hex_pad w (n div 16)"
    and l: "hex_digit (m mod 16) = hex_digit (n mod 16)" by auto
  from l have "m mod 16 = n mod 16" by (intro hex_digit_inj) auto
  moreover have "m div 16 = n div 16"
    using Suc.prems d by (intro Suc.IH) (auto simp: less_mult_imp_div_less)
  ultimately show ?case by (metis div_mult_mod_eq)
qed simp

text \<open>Decimal digits of a natural number.\<close>

fun dec_str :: "nat \<Rightarrow> string" where
  "dec_str n = (if n < 10 then [char_of (48 + n)] else dec_str (n div 10) @ [char_of (48 + n mod 10)])"

declare dec_str.simps [simp del]

lemma dec_str_nonempty: "dec_str n \<noteq> []"
  by (subst dec_str.simps) simp

definition int_str :: "int \<Rightarrow> string" where
  "int_str i = (if i < 0 then ''-'' @ dec_str (nat (- i)) else dec_str (nat i))"

end
