(* ===== verification/Json.thy ===== *)
theory Json
  imports PyFloat PyText
begin

text \<open>
  The JSON values the API stores in its \<open>JSONB\<close> columns and receives in request bodies: what
  Python's \<open>json.loads\<close> and Pydantic hand to the handlers. An object is an association list
  in insertion order (Python dictionaries keep it). Floats are the rationals of the binary64
  values, as in theory PyFloat.
\<close>

datatype json =
    JNull
  | JBool bool
  | JInt int
  | JFloat rat
  | JStr string
  | JList "json list"
  | JObj "(string \<times> json) list"

type_synonym jobj = "(string \<times> json) list"

section \<open>Python's view of a value\<close>

text \<open>\<open>bool(v)\<close>\<close>

fun truthy :: "json \<Rightarrow> bool" where
  "truthy JNull = False"
| "truthy (JBool b) = b"
| "truthy (JInt i) = (i \<noteq> 0)"
| "truthy (JFloat x) = (x \<noteq> 0)"
| "truthy (JStr s) = (s \<noteq> [])"
| "truthy (JList xs) = (xs \<noteq> [])"
| "truthy (JObj kvs) = (kvs \<noteq> [])"

fun is_jstr :: "json \<Rightarrow> bool" where
  "is_jstr (JStr _) = True"
| "is_jstr _ = False"

fun is_jbool :: "json \<Rightarrow> bool" where
  "is_jbool (JBool _) = True"
| "is_jbool _ = False"

fun is_jlist :: "json \<Rightarrow> bool" where
  "is_jlist (JList _) = True"
| "is_jlist _ = False"

fun is_jobj :: "json \<Rightarrow> bool" where
  "is_jobj (JObj _) = True"
| "is_jobj _ = False"

text \<open>\<open>isinstance(v, int)\<close> holds of a \<open>bool\<close> too.\<close>

fun is_jint :: "json \<Rightarrow> bool" where
  "is_jint (JInt _) = True"
| "is_jint (JBool _) = True"
| "is_jint _ = False"

text \<open>\<open>d.get(k)\<close>, with \<open>None\<close> for an absent key.\<close>

definition jget :: "string \<Rightarrow> jobj \<Rightarrow> json" where
  "jget k d = (case map_of d k of None \<Rightarrow> JNull | Some v \<Rightarrow> v)"

definition has_key :: "string \<Rightarrow> jobj \<Rightarrow> bool" where
  "has_key k d \<longleftrightarrow> map_of d k \<noteq> None"

definition truthy_opt :: "'a list option \<Rightarrow> bool" where
  \<comment> \<open>\<open>bool\<close> of an optional text, list or dictionary\<close>
  "truthy_opt x = (case x of None \<Rightarrow> False | Some xs \<Rightarrow> xs \<noteq> [])"

lemma has_key_iff: "has_key k d \<longleftrightarrow> k \<in> fst ` set d"
  by (force simp: has_key_def map_of_eq_None_iff)

lemma truthy_opt_simps [simp]:
  "\<not> truthy_opt None" "truthy_opt (Some xs) \<longleftrightarrow> xs \<noteq> []"
  by (simp_all add: truthy_opt_def)

lemma jget_not_key: "\<not> has_key k d \<Longrightarrow> jget k d = JNull"
  by (simp add: has_key_def jget_def)

end
