(* ===== verification/Regex.thy ===== *)
theory Regex
  imports PyText
begin

text \<open>
  Python's \<open>re\<close> engine for the constructs the program's patterns use: character classes,
  sequence, alternation, greedy and lazy repetition and the word boundary. The engine
  backtracks; \<open>rm r s i\<close> is the list of the end positions of the matches of \<open>r\<close> in \<open>s\<close>
  that start at \<open>i\<close>, in the order in which the engine tries them, so that its head is the match
  the engine reports.
\<close>

section \<open>Patterns\<close>

datatype rx =
    Cls "char \<Rightarrow> bool"
  | Eps
  | Seq rx rx
  | Alt rx rx
  | Star rx
  | LazyStar rx
  | WordB

text \<open>\<open>\w\<close> on the first 256 code points: letters, digits and other numerics, underscore.\<close>

definition is_word :: "char \<Rightarrow> bool" where
  "is_word c = (let n = ord_of c in
     is_lower_az c \<or> is_upper_az c \<or> is_digit09 c \<or> n = 95 \<or> n = 170 \<or> n = 178 \<or> n = 179 \<or> n = 181
     \<or> n = 185 \<or> n = 186 \<or> (188 \<le> n \<and> n \<le> 190) \<or> (192 \<le> n \<and> n \<noteq> 215 \<and> n \<noteq> 247))"

definition word_at :: "string \<Rightarrow> nat \<Rightarrow> bool" where
  "word_at s i \<longleftrightarrow> i < length s \<and> is_word (s ! i)"

definition at_boundary :: "string \<Rightarrow> nat \<Rightarrow> bool" where
  "at_boundary s i \<longleftrightarrow> (0 < i \<and> word_at s (i - 1)) \<noteq> word_at s i"

section \<open>The engine\<close>

function rm :: "rx \<Rightarrow> string \<Rightarrow> nat \<Rightarrow> nat list" where
  "rm (Cls p) s i = (if i < length s \<and> p (s ! i) then [Suc i] else [])"
| "rm Eps s i = [i]"
| "rm (Seq a b) s i = concat (map (rm b s) (rm a s i))"
| "rm (Alt a b) s i = rm a s i @ rm b s i"
| "rm (Star a) s i =
     concat (map (\<lambda>j. if i < j \<and> j \<le> length s then rm (Star a) s j else []) (rm a s i)) @ [i]"
| "rm (LazyStar a) s i =
     i # concat (map (\<lambda>j. if i < j \<and> j \<le> length s then rm (LazyStar a) s j else []) (rm a s i))"
| "rm WordB s i = (if at_boundary s i then [i] else [])"
  by pat_completeness auto
termination
  by (relation "measures [\<lambda>(r, s, i). size r, \<lambda>(r, s, i). length s - i]") (simp_all add: diff_less_mono2)

declare rm.simps(5,6) [simp del]

lemma rm_bounds: "j \<in> set (rm r s i) \<Longrightarrow> i \<le> length s \<Longrightarrow> i \<le> j \<and> j \<le> length s"
proof (induction r s i arbitrary: j rule: rm.induct)
  case (3 a b s i)
  then obtain k where k: "k \<in> set (rm a s i)" "j \<in> set (rm b s k)" by auto
  with 3 have "i \<le> k \<and> k \<le> length s" by blast
  with 3 k show ?case by (meson le_trans)
next
  case (5 a s i)
  show ?case
  proof (cases "j = i")
    case False
    then obtain k where k: "k \<in> set (rm a s i)" "i < k \<and> k \<le> length s" "j \<in> set (rm (Star a) s k)"
      using "5.prems"(1) by (subst (asm) rm.simps(5)) (auto split: if_split_asm)
    then have "k \<le> j \<and> j \<le> length s" using "5.IH"(2) by blast
    with k show ?thesis by linarith
  qed (use "5.prems" in simp)
next
  case (6 a s i)
  show ?case
  proof (cases "j = i")
    case False
    then obtain k where k: "k \<in> set (rm a s i)" "i < k \<and> k \<le> length s" "j \<in> set (rm (LazyStar a) s k)"
      using "6.prems"(1) by (subst (asm) rm.simps(6)) (auto split: if_split_asm)
    then have "k \<le> j \<and> j \<le> length s" using "6.IH"(2) by blast
    with k show ?thesis by linarith
  qed (use "6.prems" in simp)
qed (auto split: if_splits)

lemma rm_Star_nonempty: "rm (Star a) s i \<noteq> []"
  by (subst rm.simps(5)) simp

section \<open>Derived forms\<close>

definition Opt :: "rx \<Rightarrow> rx" where "Opt r = Alt r Eps"
definition Plus :: "rx \<Rightarrow> rx" where "Plus r = Seq r (Star r)"

definition chr :: "char \<Rightarrow> rx" where "chr c = Cls (\<lambda>x. x = c)"

text \<open>A literal under \<open>(?i)\<close>.\<close>

definition chr_i :: "char \<Rightarrow> rx" where "chr_i c = Cls (\<lambda>x. lower_char x = lower_char c)"

primrec lit :: "string \<Rightarrow> rx" where
  "lit [] = Eps"
| "lit (c # cs) = Seq (chr c) (lit cs)"

primrec lit_i :: "string \<Rightarrow> rx" where
  "lit_i [] = Eps"
| "lit_i (c # cs) = Seq (chr_i c) (lit_i cs)"

fun alts :: "rx list \<Rightarrow> rx" where
  "alts [] = Cls (\<lambda>_. False)"
| "alts [r] = r"
| "alts (r # rs) = Alt r (alts rs)"

fun seqs :: "rx list \<Rightarrow> rx" where
  "seqs [] = Eps"
| "seqs [r] = r"
| "seqs (r # rs) = Seq r (seqs rs)"

definition one_of :: "string \<Rightarrow> rx" where "one_of cs = Cls (\<lambda>x. x \<in> set cs)"
definition none_of :: "string \<Rightarrow> rx" where "none_of cs = Cls (\<lambda>x. x \<notin> set cs)"
definition space :: rx where "space = Cls py_isspace"
definition any :: rx where "any = Cls (\<lambda>_. True)"

section \<open>Search and substitution\<close>

text \<open>
  A pattern whose only group is a prefix is the pair of the group and the rest. The engine's
  match at \<open>i\<close> is the first pair of a group end and a match end.
\<close>

definition match_at :: "rx \<Rightarrow> rx \<Rightarrow> string \<Rightarrow> nat \<Rightarrow> (nat \<times> nat) option" where
  "match_at g r s i =
     (case concat (map (\<lambda>j. map (Pair j) (rm r s j)) (rm g s i)) of [] \<Rightarrow> None | m # _ \<Rightarrow> Some m)"

lemma match_at_bounds:
  assumes m: "match_at g r s i = Some (j, k)" and i: "i \<le> length s"
  shows "i \<le> j \<and> j \<le> k \<and> k \<le> length s"
proof -
  let ?ms = "concat (map (\<lambda>j. map (Pair j) (rm r s j)) (rm g s i))"
  from m have "hd ?ms = (j, k)" "?ms \<noteq> []"
    by (auto simp: match_at_def simp del: concat_eq_Nil_conv split: list.splits)
  then have "(j, k) \<in> set ?ms" using hd_in_set by metis
  then have "j \<in> set (rm g s i)" "k \<in> set (rm r s j)" by auto
  with i show ?thesis using rm_bounds by metis
qed

text \<open>\<open>pattern.search(s)\<close> as a truth value.\<close>

definition rx_search :: "rx \<Rightarrow> rx \<Rightarrow> string \<Rightarrow> bool" where
  "rx_search g r s = list_ex (\<lambda>i. match_at g r s i \<noteq> None) [0..<Suc (length s)]"

text \<open>
  \<open>pattern.sub(repl, s)\<close> where \<open>repl j\<close> is computed from the text of the group: left to
  right, non-overlapping. An empty match makes no replacement here; the program's patterns have
  none.
\<close>

function rx_sub_from :: "rx \<Rightarrow> rx \<Rightarrow> (string \<Rightarrow> string) \<Rightarrow> string \<Rightarrow> nat \<Rightarrow> string" where
  "rx_sub_from g r repl s i =
     (if i < length s then
        (case match_at g r s i of
           Some (j, k) \<Rightarrow>
             if i < k then repl (slice i j s) @ rx_sub_from g r repl s k
             else s ! i # rx_sub_from g r repl s (Suc i)
         | None \<Rightarrow> s ! i # rx_sub_from g r repl s (Suc i))
      else [])"
  by pat_completeness auto
termination
  by (relation "measure (\<lambda>(g, r, repl, s, i). length s - i)") auto

declare rx_sub_from.simps [simp del]

definition rx_sub :: "rx \<Rightarrow> rx \<Rightarrow> (string \<Rightarrow> string) \<Rightarrow> string \<Rightarrow> string" where
  "rx_sub g r repl s = rx_sub_from g r repl s 0"

lemma rx_sub_from_no_match:
  "(\<forall>j. i \<le> j \<and> j < length s \<longrightarrow> match_at g r s j = None) \<Longrightarrow> rx_sub_from g r repl s i = drop i s"
proof (induction g r repl s i rule: rx_sub_from.induct)
  case (1 g r repl s i)
  show ?case
  proof (cases "i < length s")
    case True
    then have m: "match_at g r s i = None" using "1.prems" by blast
    have "rx_sub_from g r repl s (Suc i) = drop (Suc i) s"
      using "1.IH"(1) [OF True m] "1.prems" by auto
    then show ?thesis using True m by (subst rx_sub_from.simps) (simp add: Cons_nth_drop_Suc)
  qed (subst rx_sub_from.simps, simp)
qed

lemma rx_sub_no_match:
  assumes "\<not> rx_search g r s"
  shows "rx_sub g r repl s = s"
proof -
  have "\<forall>j. 0 \<le> j \<and> j < length s \<longrightarrow> match_at g r s j = None"
    using assms by (auto simp: rx_search_def list_ex_iff simp del: not_None_eq)
  then show ?thesis unfolding rx_sub_def by (simp only: rx_sub_from_no_match drop_0)
qed

end
