(* ===== verification/Redaction.thy ===== *)
theory Redaction
  imports Json Regex
begin

text \<open>
  Secret redaction, \<open>app/redaction.py\<close>: the seven patterns, the sensitive keys, and the
  recursive walk over a JSON value. The patterns are written as syntax trees of theory Regex, in
  the order of \<open>PATTERNS\<close>; each is a name, its group (a prefix, or nothing) and the rest.
\<close>

section \<open>Patterns\<close>

definition sep_opt :: rx where "sep_opt = Opt (one_of ''_-'')"

definition assignment_names :: rx where
  "assignment_names = alts
    [lit_i ''authorization'', lit_i ''credential'', lit_i ''cookie'',
     seqs [lit_i ''private'', sep_opt, lit_i ''key''],
     seqs [lit_i ''ssh'', sep_opt, lit_i ''key''],
     seqs [lit_i ''access'', sep_opt, lit_i ''key''],
     seqs [lit_i ''api'', sep_opt, lit_i ''key''],
     seqs [lit_i ''access'', sep_opt, lit_i ''token''],
     seqs [lit_i ''auth'', sep_opt, lit_i ''token''],
     lit_i ''password'', lit_i ''passwd'', lit_i ''pwd'', lit_i ''secret'']"

definition quote2 :: string where "quote2 = [char_of (34::nat)]"
definition quote1 :: string where "quote1 = [char_of (39::nat)]"
definition newlines :: string where "newlines = [char_of (13::nat), char_of (10::nat)]"

definition space_or :: "string \<Rightarrow> rx" where
  "space_or cs = Cls (\<lambda>c. \<not> py_isspace c \<and> c \<notin> set cs)"

definition token_char :: "string \<Rightarrow> rx" where
  "token_char cs = Cls (\<lambda>c. is_lower_az c \<or> is_upper_az c \<or> is_digit09 c \<or> c \<in> set cs)"

definition pem_kind :: rx where
  "pem_kind = seqs
    [Star (Cls (\<lambda>c. is_upper_az c \<or> is_digit09 c \<or> c = CHR '' '')),
     Alt (lit ''PRIVATE KEY'') (lit ''CERTIFICATE''), lit ''-----'']"

definition PATTERNS :: "(string \<times> rx \<times> rx) list" where
  "PATTERNS =
    [(''assignment'',
      seqs [WordB, assignment_names, WordB, Star space, one_of '':='', Star space],
      alts [seqs [lit quote2, Star (none_of quote2), lit quote2],
            seqs [lit quote1, Star (none_of quote1), lit quote1],
            Plus (space_or '',;'')]),
     (''header'',
      seqs [WordB, alts [lit_i ''authorization'', lit_i ''proxy-authorization'', lit_i ''cookie'',
                         lit_i ''set-cookie'', lit_i ''x-api-key''],
            Star space, chr (CHR '':''), Star space],
      Plus (none_of newlines)),
     (''auth'',
      seqs [WordB, Alt (lit_i ''Basic'') (lit_i ''Bearer''), Plus space],
      Plus (token_char ''._~+/=-'')),
     (''credential'', Eps,
      seqs [WordB, Alt (lit ''ogm'') (lit ''rfr''), chr (CHR ''_''), Plus (token_char ''_-''), WordB]),
     (''pem'', Eps,
      seqs [lit ''-----BEGIN '', pem_kind, LazyStar any, lit ''-----END '', pem_kind]),
     (''dsn'', Eps,
      seqs [WordB,
            alts [Seq (lit_i ''postgres'') (Opt (lit_i ''ql'')), lit_i ''mysql'',
                  Seq (lit_i ''mongodb'') (Opt (lit_i ''+srv'')), lit_i ''redis'',
                  Seq (lit_i ''amqp'') (Opt (lit_i ''s''))],
            lit ''://'', Plus (space_or (quote2 @ quote1))]),
     (''url_userinfo'', Eps,
      seqs [WordB, lit_i ''http'', Opt (lit_i ''s''), lit ''://'', Plus (space_or ''/@:''), chr (CHR '':''),
            Plus (space_or ''/@''), chr (CHR ''@''), Plus (space_or (quote2 @ quote1))])]"

definition REDACTED :: string where "REDACTED = ''[REDACTED]''"

section \<open>Keys\<close>

definition SENSITIVE_KEYS :: "string list" where
  "SENSITIVE_KEYS =
    [''authorization'', ''credential'', ''cookie'', ''password'', ''passwd'', ''secret'', ''privatekey'',
     ''sshkey'', ''accesskey'', ''accesstoken'', ''authtoken'', ''apikey'', ''token'']"

definition normalize_key :: "string \<Rightarrow> string" where
  "normalize_key key = remove_char (CHR '' '') (remove_char (CHR ''-'') (remove_char (CHR ''_'') (py_lower key)))"

definition is_sensitive_key :: "string \<Rightarrow> bool" where
  "is_sensitive_key key = list_ex (\<lambda>sensitive. py_contains sensitive (normalize_key key)) SENSITIVE_KEYS"

section \<open>Text\<close>

text \<open>The two first branches of the loop keep the group, \<open>\1\<close>; the last replaces all.\<close>

definition redact_one :: "string \<times> rx \<times> rx \<Rightarrow> string \<Rightarrow> string" where
  "redact_one p s = (case p of (name, g, r) \<Rightarrow>
     if name = ''auth'' then rx_sub g r (\<lambda>grp. grp @ REDACTED) s
     else if name = ''assignment'' \<or> name = ''header'' then rx_sub g r (\<lambda>grp. grp @ REDACTED) s
     else rx_sub g r (\<lambda>grp. REDACTED) s)"

definition redact_string :: "string \<Rightarrow> string" where
  "redact_string value = fold redact_one PATTERNS value"

definition string_secret :: "string \<Rightarrow> bool" where
  "string_secret s = list_ex (\<lambda>(name, g, r). rx_search g r s) PATTERNS"

section \<open>Values\<close>

fun redact_value :: "json \<Rightarrow> string \<Rightarrow> json" where
  "redact_value (JObj kvs) parent_key =
     JObj (map (\<lambda>(k, v). (k, if is_sensitive_key k then JStr REDACTED else redact_value v k)) kvs)"
| "redact_value (JList xs) parent_key = JList (map (\<lambda>item. redact_value item parent_key) xs)"
| "redact_value (JStr s) parent_key =
     (if parent_key = ''pattern'' then JStr s else JStr (redact_string s))"
| "redact_value v parent_key = v"

fun contains_secret :: "json \<Rightarrow> string \<Rightarrow> bool" where
  "contains_secret (JObj kvs) parent_key =
     list_ex (\<lambda>(k, v). is_sensitive_key k \<or> contains_secret v k) kvs"
| "contains_secret (JList xs) parent_key = list_ex (\<lambda>item. contains_secret item parent_key) xs"
| "contains_secret (JStr s) parent_key = (parent_key \<noteq> ''pattern'' \<and> string_secret s)"
| "contains_secret v parent_key = False"

definition sanitize_input :: "jobj \<Rightarrow> jobj" where
  "sanitize_input data = (case redact_value (JObj data) [] of JObj kvs \<Rightarrow> kvs | _ \<Rightarrow> [])"

definition validate_no_secrets :: "jobj \<Rightarrow> unit res" where
  "validate_no_secrets data =
     guardE (\<not> contains_secret (JObj data) [])
       (ValueError ''input contains secrets that must be redacted'')"

lemma sanitize_input_eq: "JObj (sanitize_input data) = redact_value (JObj data) []"
  by (simp add: sanitize_input_def)

section \<open>Facts\<close>

lemma redact_one_clean:
  "\<not> (case p of (name, g, r) \<Rightarrow> rx_search g r s) \<Longrightarrow> redact_one p s = s"
  by (cases p) (auto simp: redact_one_def rx_sub_no_match)

lemma redact_string_clean: "\<not> string_secret s \<Longrightarrow> redact_string s = s"
proof -
  assume "\<not> string_secret s"
  then have "\<forall>p\<in>set PATTERNS. \<not> (case p of (name, g, r) \<Rightarrow> rx_search g r s)"
    by (auto simp: string_secret_def list_ex_iff)
  then have "fold redact_one ps s = s" if "set ps \<subseteq> set PATTERNS" for ps
    using that by (induction ps) (auto simp: redact_one_clean)
  then show ?thesis by (simp add: redact_string_def)
qed

text \<open>Every sensitive key, at any depth, holds the marker.\<close>

fun keys_redacted :: "json \<Rightarrow> bool" where
  "keys_redacted (JObj kvs) =
     list_all (\<lambda>(k, v). (is_sensitive_key k \<longrightarrow> v = JStr REDACTED) \<and> keys_redacted v) kvs"
| "keys_redacted (JList xs) = list_all keys_redacted xs"
| "keys_redacted v = True"

text \<open>The keys, list lengths and constructors of a value, apart from what a sensitive key holds.\<close>

fun same_shape :: "json \<Rightarrow> json \<Rightarrow> bool" where
  "same_shape (JObj kvs) w = (case w of
     JObj kws \<Rightarrow> list_all2 (\<lambda>(k, v) (l, u). k = l \<and> (is_sensitive_key k \<or> same_shape v u)) kvs kws | _ \<Rightarrow> False)"
| "same_shape (JList xs) w = (case w of JList ys \<Rightarrow> list_all2 same_shape xs ys | _ \<Rightarrow> False)"
| "same_shape (JStr s) w = is_jstr w"
| "same_shape v w = (v = w)"

lemma keys_redacted_redact: "keys_redacted (redact_value v p)"
  by (induction v p rule: redact_value.induct) (auto simp: list_all_iff)

lemma same_shape_redact: "same_shape v (redact_value v p)"
  by (induction v p rule: redact_value.induct)
     (auto simp: list_all2_map2 list_all2_same split: prod.splits)

lemma redact_value_clean: "\<not> contains_secret v p \<Longrightarrow> redact_value v p = v"
  by (induction v p rule: redact_value.induct)
     (auto simp: list_ex_iff redact_string_clean intro!: map_idI dest!: bspec)

section \<open>Properties\<close>

text \<open>Whatever the input, sanitising keeps every key, list position and type outside
  sensitive entries, and after it every sensitive key, at any depth of nested objects and lists,
  holds the marker instead of its value.\<close>

theorem sanitize_input_redacts:
  "keys_redacted (JObj (sanitize_input data)) \<and> same_shape (JObj data) (JObj (sanitize_input data))"
  unfolding sanitize_input_eq using keys_redacted_redact same_shape_redact by blast

text \<open>Data in which no secret is detected is stored unchanged: sanitising rewrites a value
  only where \<open>contains_secret\<close> finds something.\<close>

theorem sanitize_input_clean:
  assumes "validate_no_secrets data = Inr ()"
  shows "sanitize_input data = data"
  using assms sanitize_input_eq [of data] redact_value_clean [of "JObj data" "[]"]
  by (simp add: validate_no_secrets_def)

theorem sanitize_input_clean_witness:
  "sanitize_input [(''a'', JList [JInt 3, JNull])] = [(''a'', JList [JInt 3, JNull])]"
  by (rule sanitize_input_clean) code_simp

end
