(* ===== verification/MemTypes.thy ===== *)
theory MemTypes
  imports Json
begin

text \<open>
  Typed memory content, \<open>app/memory/types.py\<close>: the table of memory types and the validation
  of a content object against it.
\<close>

section \<open>The schemas\<close>

record schema =
  sc_required :: "string list"
  sc_optional :: "string list"
  sc_validators :: "(string \<times> (json \<Rightarrow> bool)) list"

fun nonempty_str :: "json \<Rightarrow> bool" where
  "nonempty_str (JStr s) = (length s > 0)"
| "nonempty_str _ = False"

fun summary_ok :: "json \<Rightarrow> bool" where
  "summary_ok (JStr s) = (length s > 0 \<and> length s \<le> 20000)"
| "summary_ok _ = False"

fun steps_ok :: "json \<Rightarrow> bool" where
  "steps_ok (JList v) = (0 < length v \<and> length v \<le> 100)"
| "steps_ok _ = False"

definition mk_schema where
  "mk_schema req opt val = \<lparr>sc_required = req, sc_optional = opt, sc_validators = val\<rparr>"

definition TYPE_SCHEMAS :: "(string \<times> schema) list" where
  "TYPE_SCHEMAS =
    [(''bugfix'', mk_schema [''summary''] [''root_cause'', ''fix'', ''verified'', ''extensions'']
        [(''verified'', is_jbool), (''summary'', summary_ok)]),
     (''decision'', mk_schema [''decision'', ''rationale''] [''alternatives'', ''extensions'']
        [(''decision'', nonempty_str), (''rationale'', nonempty_str)]),
     (''preference'', mk_schema [''subject'', ''preference''] [''context'', ''extensions'']
        [(''subject'', nonempty_str), (''preference'', nonempty_str)]),
     (''procedure'', mk_schema [''name''] [''steps'', ''prerequisites'', ''extensions'']
        [(''name'', nonempty_str), (''steps'', steps_ok)]),
     (''research'', mk_schema [''question'', ''finding''] [''sources'', ''extensions'']
        [(''question'', nonempty_str), (''finding'', nonempty_str)]),
     (''trading'', mk_schema [''instrument'', ''thesis''] [''risk'', ''timeframe'', ''extensions'']
        [(''instrument'', nonempty_str), (''thesis'', nonempty_str)]),
     (''learning'', mk_schema [''topic'', ''lesson''] [''application'', ''extensions'']
        [(''topic'', nonempty_str), (''lesson'', nonempty_str)]),
     (''fact'', mk_schema [''value''] [''subject'', ''unit'', ''extensions'']
        [(''value'', \<lambda>v. v \<noteq> JNull)]),
     (''custom'', mk_schema [] [] [])]"

definition get_type_schema :: "string \<Rightarrow> schema option" where
  "get_type_schema memory_type = map_of TYPE_SCHEMAS memory_type"

definition list_memory_types :: "string list" where
  "list_memory_types = map fst TYPE_SCHEMAS"

section \<open>Validation\<close>

text \<open>Each loop raises at the first offending field, in the order of the source.\<close>

definition check_required :: "string \<Rightarrow> schema \<Rightarrow> jobj \<Rightarrow> unit res" where
  "check_required memory_type sch content =
     raise_first (\<lambda>field. \<not> has_key field content)
       (\<lambda>field. HTTPException 400 (''missing required field '' @ field @ '' for type '' @ memory_type))
       (sc_required sch)"

definition check_unknown :: "string \<Rightarrow> schema \<Rightarrow> jobj \<Rightarrow> unit res" where
  "check_unknown memory_type sch content =
     raise_first (\<lambda>field. field \<notin> set (sc_required sch @ sc_optional sch))
       (\<lambda>field. HTTPException 400 (''unknown field '' @ field @ '' for type '' @ memory_type))
       (map fst content)"

definition check_values :: "string \<Rightarrow> schema \<Rightarrow> jobj \<Rightarrow> unit res" where
  "check_values memory_type sch content =
     raise_first (\<lambda>(field, validator). has_key field content \<and> \<not> validator (jget field content))
       (\<lambda>(field, validator). HTTPException 400 (''invalid value for field '' @ field @ '' in type '' @ memory_type))
       (sc_validators sch)"

definition check_evidence :: "string \<Rightarrow> jobj \<Rightarrow> unit res" where
  "check_evidence memory_type content =
     guardE (\<not> (has_key ''verified'' content \<and> memory_type = ''bugfix''
               \<and> truthy (jget ''verified'' content) \<and> \<not> truthy (jget ''verification_evidence'' content)))
       (HTTPException 400 ''verified bugfix requires verification evidence'')"

definition validate_typed_content :: "string \<Rightarrow> jobj \<Rightarrow> unit res" where
  "validate_typed_content memory_type content =
     (case map_of TYPE_SCHEMAS memory_type of
        None \<Rightarrow> Inl (HTTPException 400 (''invalid memory type: '' @ memory_type))
      | Some sch \<Rightarrow>
          if memory_type = ''custom'' then
            guardE (content \<noteq> []) (HTTPException 400 ''custom content cannot be empty'')
          else
            bindE (check_required memory_type sch content) (\<lambda>_.
            bindE (check_unknown memory_type sch content) (\<lambda>_.
            bindE (check_values memory_type sch content) (\<lambda>_.
            check_evidence memory_type content))))"

section \<open>Facts\<close>

lemma check_required_ok:
  "check_required t sch c = Inr u \<longleftrightarrow> (\<forall>f\<in>set (sc_required sch). has_key f c)"
  by (simp add: check_required_def)

lemma check_unknown_ok:
  "check_unknown t sch c = Inr u \<longleftrightarrow> fst ` set c \<subseteq> set (sc_required sch) \<union> set (sc_optional sch)"
  by (auto simp: check_unknown_def)

lemma check_values_ok:
  "check_values t sch c = Inr u \<longleftrightarrow>
     (\<forall>(f, ok)\<in>set (sc_validators sch). has_key f c \<longrightarrow> ok (jget f c))"
  by (auto simp: check_values_def)

lemma schema_bugfix: "map_of TYPE_SCHEMAS ''bugfix'' = Some (mk_schema [''summary'']
    [''root_cause'', ''fix'', ''verified'', ''extensions''] [(''verified'', is_jbool), (''summary'', summary_ok)])"
  by (simp add: TYPE_SCHEMAS_def)

lemma no_schema_allows_evidence:
  "map_of TYPE_SCHEMAS t = Some sch \<Longrightarrow> ''verification_evidence'' \<notin> set (sc_required sch) \<union> set (sc_optional sch)"
  by (auto simp: TYPE_SCHEMAS_def mk_schema_def split: if_splits)

lemma unknown_field_rejected:
  assumes "map_of TYPE_SCHEMAS t = Some sch" "t \<noteq> ''custom''"
    and "k \<in> fst ` set c" "k \<notin> set (sc_required sch) \<union> set (sc_optional sch)"
  shows "\<exists>e. validate_typed_content t c = Inl e"
proof -
  have "check_unknown t sch c \<noteq> Inr ()" using assms(3,4) by (auto simp: check_unknown_ok)
  then obtain e where "check_unknown t sch c = Inl e" using res_unit_cases by blast
  then show ?thesis using assms(1,2) res_unit_cases [of "check_required t sch c"]
    by (auto simp: validate_typed_content_def)
qed

section \<open>Properties\<close>

text \<open>Exactly the well-formed contents are accepted: a known type; for \<open>custom\<close> any
  non-empty object; for the others all required fields, no field outside the schema, every
  validator satisfied, and no unproved verification.\<close>

theorem validate_typed_content_accepts:
  "validate_typed_content t c = Inr () \<longleftrightarrow>
     (case map_of TYPE_SCHEMAS t of
        None \<Rightarrow> False
      | Some sch \<Rightarrow>
          if t = ''custom'' then c \<noteq> []
          else (\<forall>f\<in>set (sc_required sch). has_key f c)
            \<and> fst ` set c \<subseteq> set (sc_required sch) \<union> set (sc_optional sch)
            \<and> (\<forall>(f, ok)\<in>set (sc_validators sch). has_key f c \<longrightarrow> ok (jget f c))
            \<and> \<not> (t = ''bugfix'' \<and> truthy (jget ''verified'' c)))"
proof (cases "map_of TYPE_SCHEMAS t")
  case (Some sch)
  have ev: "check_evidence t c = Inr () \<longleftrightarrow> \<not> (t = ''bugfix'' \<and> truthy (jget ''verified'' c))"
    if "fst ` set c \<subseteq> set (sc_required sch) \<union> set (sc_optional sch)"
  proof -
    have "\<not> has_key ''verification_evidence'' c"
      using that no_schema_allows_evidence [OF Some] by (auto simp: has_key_iff)
    moreover have "has_key ''verified'' c" if "truthy (jget ''verified'' c)"
      using that by (cases "has_key ''verified'' c") (simp_all add: jget_not_key)
    ultimately show ?thesis by (auto simp: check_evidence_def jget_not_key)
  qed
  have "validate_typed_content t c = Inr () \<longleftrightarrow>
      (if t = ''custom'' then c \<noteq> []
       else check_required t sch c = Inr () \<and> check_unknown t sch c = Inr ()
         \<and> check_values t sch c = Inr () \<and> check_evidence t c = Inr ())"
    by (simp add: validate_typed_content_def Some bindE_Inr_iff)
  then show ?thesis
    using ev by (simp add: Some check_required_ok check_unknown_ok check_values_ok cong: conj_cong)
qed (simp add: validate_typed_content_def)

theorem validate_typed_content_accepts_witness:
  "validate_typed_content ''fact'' [(''value'', JInt 1), (''unit'', JStr ''m'')] = Inr ()"
  by (subst validate_typed_content_accepts)
     (simp add: TYPE_SCHEMAS_def mk_schema_def has_key_def jget_def)

text \<open>A \<open>bugfix\<close> memory marked as verified is never accepted, with or without the
  evidence the code asks for: the evidence field itself is not in the schema.\<close>

theorem verified_bugfix_always_rejected:
  assumes "truthy (jget ''verified'' c)"
  shows "\<exists>e. validate_typed_content ''bugfix'' c = Inl e"
  using validate_typed_content_accepts [of "''bugfix''" c] assms
    res_unit_cases [of "validate_typed_content ''bugfix'' c"]
  by (auto simp: schema_bugfix)

theorem verified_bugfix_always_rejected_witness:
  "\<exists>e. validate_typed_content ''bugfix''
     [(''summary'', JStr ''s''), (''verified'', JBool True), (''verification_evidence'', JStr ''log'')] = Inl e"
  by (rule verified_bugfix_always_rejected) (simp add: jget_def)

end
