(* ===== verification/Supersession.thy ===== *)
theory Supersession
  imports Prelude
begin

text \<open>
  Supersession chains. Three tables of the program hold a link from a row to the row that
  supersedes it (episodes, memories through the confidence endpoint, patterns), and three handlers
  walk such a chain before adding a link. \<open>chain_walk\<close> is that loop: the cursor's row is
  fetched, a visited cursor stops the walk, a row without a link ends it.

  The locale states what a handler promises of the table of links; its lemmas say that chains stay
  free of cycles under any sequence of such handlers. The components that own the handlers
  interpret it.
\<close>

section \<open>The walk\<close>

datatype walk = Ended | Revisits | Dangles

type_synonym 'k links = "('k \<times> 'k option) list"

function chain_walk :: "'k links \<Rightarrow> 'k list \<Rightarrow> 'k \<Rightarrow> walk" where
  "chain_walk links visited cursor =
     (case map_of links cursor of
        None \<Rightarrow> Dangles
      | Some nxt \<Rightarrow>
          if cursor \<in> set visited then Revisits
          else (case nxt of None \<Rightarrow> Ended | Some k \<Rightarrow> chain_walk links (cursor # visited) k))"
  by pat_completeness auto
termination
proof (relation "measure (\<lambda>(links, visited, cursor). card (fst ` set links - set visited))")
  fix links :: "'k links" and visited :: "'k list" and cursor :: 'k and x y
  assume "map_of links cursor = Some x" "cursor \<notin> set visited"
  then have "cursor \<in> fst ` set links - set visited"
    by (force dest: map_of_SomeD)
  then have "fst ` set links - set (cursor # visited) \<subset> fst ` set links - set visited" by auto
  then show "((links, cursor # visited, y), links, visited, cursor)
      \<in> measure (\<lambda>(links, visited, cursor). card (fst ` set links - set visited))"
    by (simp add: psubset_card_mono)
qed simp

declare chain_walk.simps [simp del]

section \<open>The relation of a table of links\<close>

definition chain_rel :: "'k links \<Rightarrow> ('k \<times> 'k) set" where
  "chain_rel links = {(a, b). map_of links a = Some (Some b)}"

definition set_link :: "'k \<Rightarrow> 'k \<Rightarrow> 'k links \<Rightarrow> 'k links" where
  "set_link a b links = AList.update a (Some b) links"

lemma chain_rel_set_link:
  "chain_rel (set_link a b links) = insert (a, b) {(x, y) \<in> chain_rel links. x \<noteq> a}"
  by (auto simp: chain_rel_def set_link_def split: if_split_asm)

lemma chain_rel_single_valued: "(x, y) \<in> chain_rel l \<Longrightarrow> (x, z) \<in> chain_rel l \<Longrightarrow> y = z"
  by (simp add: chain_rel_def)

text \<open>A walk that does not revisit has passed every node reachable from its start.\<close>

lemma chain_walk_reaches:
  assumes "chain_walk links visited cursor \<noteq> Revisits" "a \<in> set visited" "a \<in> fst ` set links"
  shows "(cursor, a) \<notin> (chain_rel links)\<^sup>*"
  using assms
proof (induction links visited cursor rule: chain_walk.induct)
  case (1 links visited cursor)
  show ?case
  proof (cases "map_of links cursor")
    case None
    then have "cursor \<noteq> a" using "1.prems"(3) by (auto simp: map_of_eq_None_iff)
    moreover have "(cursor, b) \<notin> chain_rel links" for b using None by (simp add: chain_rel_def)
    ultimately show ?thesis by (metis converse_rtranclE)
  next
    case (Some nxt)
    with "1.prems"(1) have new: "cursor \<notin> set visited"
      by (subst (asm) chain_walk.simps) (auto split: if_splits)
    with "1.prems"(2) have "cursor \<noteq> a" by blast
    show ?thesis
    proof (cases nxt)
      case None
      then have "(cursor, b) \<notin> chain_rel links" for b using Some by (simp add: chain_rel_def)
      with \<open>cursor \<noteq> a\<close> show ?thesis by (metis converse_rtranclE)
    next
      case (Some k)
      have "chain_walk links (cursor # visited) k \<noteq> Revisits"
        using "1.prems"(1) \<open>map_of links cursor = Some nxt\<close> new Some
        by (subst (asm) chain_walk.simps) simp
      then have "(k, a) \<notin> (chain_rel links)\<^sup>*"
        using "1.IH" [OF \<open>map_of links cursor = Some nxt\<close> new Some] "1.prems"(2,3) by simp
      moreover have "b = k" if "(cursor, b) \<in> chain_rel links" for b
        using that Some \<open>map_of links cursor = Some nxt\<close> by (simp add: chain_rel_def)
      ultimately show ?thesis using \<open>cursor \<noteq> a\<close> by (metis converse_rtranclE)
    qed
  qed
qed

text \<open>On an acyclic table the walk refuses only what would close a cycle.\<close>

lemma chain_walk_revisits:
  assumes "chain_walk links visited cursor = Revisits" "acyclic (chain_rel links)"
    and "\<forall>v\<in>set visited. v \<noteq> a \<longrightarrow> (v, cursor) \<in> (chain_rel links)\<^sup>+"
  shows "(cursor, a) \<in> (chain_rel links)\<^sup>*"
  using assms
proof (induction links visited cursor rule: chain_walk.induct)
  case (1 links visited cursor)
  obtain nxt where n: "map_of links cursor = Some nxt"
    using "1.prems"(1) by (subst (asm) chain_walk.simps) (auto split: option.splits)
  show ?case
  proof (cases "cursor \<in> set visited")
    case True
    then show ?thesis using "1.prems"(2,3) by (cases "cursor = a") (auto simp: acyclic_def)
  next
    case False
    then obtain k where k: "nxt = Some k"
      using "1.prems"(1) n by (subst (asm) chain_walk.simps) (auto split: option.splits)
    then have step: "(cursor, k) \<in> chain_rel links" using n by (simp add: chain_rel_def)
    have "chain_walk links (cursor # visited) k = Revisits"
      using "1.prems"(1) n k False by (subst (asm) chain_walk.simps) simp
    moreover have "\<forall>v\<in>set (cursor # visited). v \<noteq> a \<longrightarrow> (v, k) \<in> (chain_rel links)\<^sup>+"
      using "1.prems"(3) step by (auto intro: trancl_into_trancl)
    ultimately have "(k, a) \<in> (chain_rel links)\<^sup>*"
      using "1.IH" [OF n False k] "1.prems"(2) by blast
    with step show ?thesis by (rule converse_rtrancl_into_rtrancl)
  qed
qed

lemma acyclic_set_link:
  assumes "acyclic (chain_rel links)" "(b, a) \<notin> (chain_rel links)\<^sup>*"
  shows "acyclic (chain_rel (set_link a b links))"
proof -
  have "acyclic (insert (a, b) (chain_rel links))"
    using assms by (simp add: acyclic_insert)
  then show ?thesis by (rule acyclic_subset) (auto simp: chain_rel_set_link)
qed

text \<open>A walk that ends in a part of the table ends in the whole table.\<close>

lemma chain_walk_extend:
  assumes "chain_walk part visited cursor = Ended"
    and "\<And>x n. map_of part x = Some n \<Longrightarrow> map_of links x = Some n"
  shows "chain_walk links visited cursor = Ended"
  using assms
proof (induction part visited cursor rule: chain_walk.induct)
  case (1 part visited cursor)
  obtain nxt where n: "map_of part cursor = Some nxt" and new: "cursor \<notin> set visited"
    using "1.prems"(1) by (subst (asm) chain_walk.simps) (auto split: option.splits if_splits)
  have n': "map_of links cursor = Some nxt" using "1.prems"(2) n by blast
  show ?case
  proof (cases nxt)
    case None
    with n' new show ?thesis by (subst chain_walk.simps) simp
  next
    case (Some k)
    then have "chain_walk part (cursor # visited) k = Ended"
      using "1.prems"(1) n new by (subst (asm) chain_walk.simps) simp
    then have "chain_walk links (cursor # visited) k = Ended"
      using "1.IH" [OF n new Some] "1.prems"(2) by blast
    with n' new Some show ?thesis by (subst chain_walk.simps) simp
  qed
qed

section \<open>The contract of a superseding operation\<close>

locale supersession =
  fixes ok :: "'db \<Rightarrow> bool"
    and links :: "'db \<Rightarrow> 'k links"
    and supersede :: "'k \<Rightarrow> 'k \<Rightarrow> 'db \<Rightarrow> 'db res"
  assumes keeps_ok: "ok db \<Longrightarrow> supersede a b db = Inr db' \<Longrightarrow> ok db'"
    and effect: "ok db \<Longrightarrow> supersede a b db = Inr db' \<Longrightarrow> links db' = set_link a b (links db)"
    and guard: "ok db \<Longrightarrow> supersede a b db = Inr db' \<Longrightarrow> (b, a) \<notin> (chain_rel (links db))\<^sup>*"
begin

lemma keeps_acyclic:
  "ok db \<Longrightarrow> acyclic (chain_rel (links db)) \<Longrightarrow> supersede a b db = Inr db' \<Longrightarrow> acyclic (chain_rel (links db'))"
  by (simp add: effect guard acyclic_set_link)

lemma not_self: "ok db \<Longrightarrow> supersede a b db = Inr db' \<Longrightarrow> a \<noteq> b"
  using guard by blast

lemma superseded_reaches:
  "ok db \<Longrightarrow> supersede a b db = Inr db' \<Longrightarrow> (a, b) \<in> chain_rel (links db')"
  by (simp add: effect chain_rel_set_link)

text \<open>A sequence of requests, each either done or refused with an error.\<close>

definition run :: "('k \<times> 'k) list \<Rightarrow> 'db \<Rightarrow> 'db" where
  "run reqs db = fold (\<lambda>(a, b) db. case supersede a b db of Inl _ \<Rightarrow> db | Inr db' \<Rightarrow> db') reqs db"

lemma run_acyclic:
  assumes "ok db" "acyclic (chain_rel (links db))"
  shows "ok (run reqs db) \<and> acyclic (chain_rel (links (run reqs db)))"
  unfolding run_def using assms
  by (intro fold_invariant_step [where P = "\<lambda>db. ok db \<and> acyclic (chain_rel (links db))"])
     (auto split: sum.splits intro: keeps_acyclic keeps_ok)

end

end
