(* ===== verification/Ids.thy ===== *)
theory Ids
  imports PyText
begin

unbundle bit_operations_syntax

text \<open>
  Identifiers: \<open>packages/core/src/open_graph_core/ids.py\<close> (\<open>uuid7\<close>, \<open>new_id\<close>),
  \<open>stable_id\<close> of \<open>extraction.py\<close>, \<open>deterministic_id\<close> of \<open>app/ingestion.py\<close>,
  \<open>memory_id\<close>, \<open>hold_id\<close>, \<open>policy_id\<close> and \<open>audit_id\<close> of the API.

  A \<open>draw\<close> is what one call of \<open>uuid7\<close> reads from outside the program: the clock in
  milliseconds and two random bit strings, of 12 and 62 bits. The hash function
  (\<open>sha256 ... hexdigest\<close>) is the parameter \<open>sha\<close>, from text to text.
\<close>

section \<open>Time-ordered UUIDs\<close>

record draw =
  draw_ms :: nat
  draw_a :: nat
  draw_b :: nat

definition draw_ok :: "draw \<Rightarrow> bool" where
  "draw_ok d \<longleftrightarrow> draw_ms d < 2 ^ 48 \<and> draw_a d < 2 ^ 12 \<and> draw_b d < 2 ^ 62"

definition uuid7_value :: "draw \<Rightarrow> nat" where
  "uuid7_value d = push_bit 80 (draw_ms d) OR push_bit 76 7 OR push_bit 64 (draw_a d)
     OR push_bit 62 2 OR draw_b d"

text \<open>\<open>str(UUID(int = v))\<close>: 32 hexadecimal digits grouped 8-4-4-4-12.\<close>

definition uuid_str :: "nat \<Rightarrow> string" where
  "uuid_str v = (let h = hex_pad 32 v in
     take 8 h @ ''-'' @ slice 8 12 h @ ''-'' @ slice 12 16 h @ ''-'' @ slice 16 20 h @ ''-'' @ drop 20 h)"

definition uuid7 :: "draw \<Rightarrow> string" where
  "uuid7 d = uuid_str (uuid7_value d)"

definition PREFIXES :: "string list" where
  "PREFIXES = [''proj'', ''ds'', ''doc'', ''chunk'', ''ent'', ''rel'', ''job'', ''qry'']"

definition new_id :: "string \<Rightarrow> draw \<Rightarrow> string res" where
  "new_id prefix d =
     (if prefix \<notin> set PREFIXES then Inl (ValueError (''unsupported resource prefix: '' @ prefix))
      else Inr (prefix @ ''_'' @ uuid7 d))"

definition memory_id :: "draw \<Rightarrow> string" where "memory_id d = ''mem_'' @ uuid7 d"
definition hold_id :: "draw \<Rightarrow> string" where "hold_id d = ''lh_'' @ uuid7 d"
definition policy_id :: "draw \<Rightarrow> string" where "policy_id d = ''rp_'' @ uuid7 d"
definition audit_id :: "draw \<Rightarrow> string" where "audit_id d = ''al_'' @ uuid7 d"

section \<open>Content-derived identifiers\<close>

definition unit_sep :: string where "unit_sep = [char_of (31::nat)]"

definition stable_id :: "(string \<Rightarrow> string) \<Rightarrow> string \<Rightarrow> string list \<Rightarrow> string" where
  "stable_id sha prefix parts = prefix @ ''_'' @ take 32 (sha (py_join unit_sep parts))"

definition deterministic_id :: "(string \<Rightarrow> string) \<Rightarrow> string \<Rightarrow> string list \<Rightarrow> string" where
  "deterministic_id sha prefix parts = prefix @ ''_'' @ take 32 (sha (py_join unit_sep parts))"

section \<open>The fields of a UUID\<close>

lemma bit_lt_2_pow: "bit (m::nat) n \<Longrightarrow> m < 2 ^ k \<Longrightarrow> n < k"
  by (metis bit_take_bit_iff take_bit_nat_eq_self_iff)

lemma bit_nat_7: "bit (7::nat) n \<longleftrightarrow> n < 3"
proof -
  have "mask 3 = (7::nat)" by (simp add: mask_eq_exp_minus_1)
  then show ?thesis using bit_mask_iff [of 3 n, where ?'a = nat] by (simp only:) simp
qed

lemma bit_nat_2: "bit (2::nat) n \<longleftrightarrow> n = 1"
  using bit_exp_iff [of 1 n, where ?'a = nat] by auto

lemma uuid7_bits:
  "bit (uuid7_value d) n \<longleftrightarrow>
     (80 \<le> n \<and> bit (draw_ms d) (n - 80)) \<or> (76 \<le> n \<and> n < 79) \<or>
     (64 \<le> n \<and> bit (draw_a d) (n - 64)) \<or> n = 63 \<or> bit (draw_b d) n"
  unfolding uuid7_value_def bit_or_iff bit_push_bit_iff bit_nat_7 bit_nat_2
  by auto

lemma uuid7_timestamp:
  assumes "draw_ok d"
  shows "drop_bit 80 (uuid7_value d) = draw_ms d"
proof (rule bit_eqI)
  fix n
  have "\<not> bit (draw_a d) (80 + n - 64)" "\<not> bit (draw_b d) (80 + n)"
    using assms bit_lt_2_pow [of "draw_a d" "80 + n - 64" 12] bit_lt_2_pow [of "draw_b d" "80 + n" 62]
    by (auto simp: draw_ok_def)
  then show "bit (drop_bit 80 (uuid7_value d)) n = bit (draw_ms d) n"
    by (simp add: bit_drop_bit_eq uuid7_bits)
qed

lemma uuid7_version:
  assumes "draw_ok d"
  shows "take_bit 4 (drop_bit 76 (uuid7_value d)) = 7"
proof (rule bit_eqI)
  fix n
  have "\<not> bit (draw_a d) (76 + n - 64)" "\<not> bit (draw_b d) (76 + n)"
    using assms bit_lt_2_pow [of "draw_a d" "76 + n - 64" 12] bit_lt_2_pow [of "draw_b d" "76 + n" 62]
    by (auto simp: draw_ok_def)
  then show "bit (take_bit 4 (drop_bit 76 (uuid7_value d))) n = bit (7::nat) n"
    by (auto simp: bit_take_bit_iff bit_drop_bit_eq uuid7_bits bit_nat_7)
qed

lemma uuid7_variant:
  assumes "draw_ok d"
  shows "take_bit 2 (drop_bit 62 (uuid7_value d)) = 2"
proof (rule bit_eqI)
  fix n
  have "\<not> bit (draw_b d) (62 + n)"
    using assms bit_lt_2_pow [of "draw_b d" "62 + n" 62] by (auto simp: draw_ok_def)
  then show "bit (take_bit 2 (drop_bit 62 (uuid7_value d))) n = bit (2::nat) n"
    by (auto simp: bit_take_bit_iff bit_drop_bit_eq uuid7_bits bit_nat_2)
qed

lemma uuid7_rand_b:
  assumes "draw_ok d"
  shows "take_bit 62 (uuid7_value d) = draw_b d"
proof (rule bit_eqI)
  fix n
  show "bit (take_bit 62 (uuid7_value d)) n = bit (draw_b d) n"
    using assms bit_lt_2_pow [of "draw_b d" n 62]
    by (auto simp: bit_take_bit_iff uuid7_bits draw_ok_def)
qed

lemma uuid7_rand_a:
  assumes "draw_ok d"
  shows "take_bit 12 (drop_bit 64 (uuid7_value d)) = draw_a d"
proof (rule bit_eqI)
  fix n
  have "\<not> bit (draw_b d) (64 + n)"
    using assms bit_lt_2_pow [of "draw_b d" "64 + n" 62] by (auto simp: draw_ok_def)
  then show "bit (take_bit 12 (drop_bit 64 (uuid7_value d))) n = bit (draw_a d) n"
    using assms bit_lt_2_pow [of "draw_a d" n 12]
    by (auto simp: bit_take_bit_iff bit_drop_bit_eq uuid7_bits draw_ok_def)
qed

text \<open>\<open>UUID(int=...)\<close> accepts the value: it fits 128 bits.\<close>

lemma uuid7_range:
  assumes "draw_ok d"
  shows "uuid7_value d < 2 ^ 128"
proof -
  have "uuid7_value d div 2 ^ 80 < 2 ^ 48"
    using uuid7_timestamp [OF assms] assms by (simp add: drop_bit_eq_div draw_ok_def)
  then show ?thesis by (simp add: div_less_iff_less_mult)
qed

lemma uuid7_value_inj:
  assumes "draw_ok d" "draw_ok e" "uuid7_value d = uuid7_value e"
  shows "d = e"
  using assms uuid7_timestamp [OF assms(1)] uuid7_timestamp [OF assms(2)]
    uuid7_rand_a [OF assms(1)] uuid7_rand_a [OF assms(2)]
    uuid7_rand_b [OF assms(1)] uuid7_rand_b [OF assms(2)]
  by simp

lemma uuid7_value_mono:
  assumes "draw_ok d" "draw_ok e" "draw_ms d < draw_ms e"
  shows "uuid7_value d < uuid7_value e"
proof (rule ccontr)
  assume "\<not> ?thesis"
  then have "uuid7_value e div 2 ^ 80 \<le> uuid7_value d div 2 ^ 80" by (simp add: div_le_mono)
  then show False
    using uuid7_timestamp [OF assms(1)] uuid7_timestamp [OF assms(2)] assms(3)
    by (simp add: drop_bit_eq_div)
qed

section \<open>The printed form\<close>

lemma length_uuid_str [simp]: "length (uuid_str v) = 36"
  by (simp add: uuid_str_def Let_def length_slice)

lemma length_uuid7 [simp]: "length (uuid7 d) = 36"
  by (simp add: uuid7_def)

lemma list_less_append_same: "(xs::'a::linorder list) @ ys < xs @ zs \<longleftrightarrow> ys < zs"
  by (induction xs) auto

lemma list_less_append_diff:
  "length xs = length xs' \<Longrightarrow> (xs::'a::linorder list) < xs' \<Longrightarrow> xs @ ys < xs' @ zs"
  by (induction xs xs' rule: list_induct2) auto

lemma list_less_split:
  assumes "length xs = length xs'" "(xs::'a::linorder list) @ ys < xs' @ zs"
  shows "xs < xs' \<or> (xs = xs' \<and> ys < zs)"
  using assms by (induction xs xs' rule: list_induct2) auto

lemma dash_mono:
  assumes "length xs = length xs'" "(xs::string) @ ys < xs' @ zs" "ys < zs \<Longrightarrow> ys' < zs'"
  shows "xs @ ''-'' @ ys' < xs' @ ''-'' @ zs'"
  using list_less_split [OF assms(1,2)]
proof
  assume "xs < xs'"
  then show ?thesis using assms(1) by (simp add: list_less_append_diff)
next
  assume "xs = xs' \<and> ys < zs"
  then show ?thesis using assms(3) by (simp add: list_less_append_same)
qed

lemma hex_pad_mono: "m < n \<Longrightarrow> n < 16 ^ w \<Longrightarrow> hex_pad w m < hex_pad w n"
proof (induction w arbitrary: m n)
  case (Suc w)
  show ?case
  proof (cases "m div 16 = n div 16")
    case True
    then have "m mod 16 < n mod 16" using Suc.prems(1)
      by (metis mod_div_mult_eq add_less_cancel_right)
    then have "hex_digit (m mod 16) < hex_digit (n mod 16)" by (intro hex_digit_mono) auto
    with True show ?thesis by (simp add: list_less_append_same)
  next
    case False
    then have "m div 16 < n div 16" using Suc.prems(1) by (meson div_le_mono le_neq_implies_less less_imp_le)
    moreover have "n div 16 < 16 ^ w" using Suc.prems(2) by (simp add: less_mult_imp_div_less)
    ultimately have "hex_pad w (m div 16) < hex_pad w (n div 16)" by (rule Suc.IH)
    then show ?thesis by (simp add: list_less_append_diff)
  qed
qed simp

lemma slice_append_drop: "i \<le> j \<Longrightarrow> slice i j h @ drop j h = drop i h"
  by (simp add: slice_def) (metis append_take_drop_id drop_drop le_add_diff_inverse2)

lemma dash_slice_mono:
  assumes "length h = length k" "i \<le> j" "drop i h < drop i (k::string)"
    and "drop j h < drop j k \<Longrightarrow> ys < zs"
  shows "slice i j h @ ''-'' @ ys < slice i j k @ ''-'' @ zs"
  using assms by (intro dash_mono [of _ _ "drop j h" "drop j k"]) (simp_all add: length_slice slice_append_drop)

lemma uuid_str_mono:
  assumes "v < w" "w < 2 ^ 128"
  shows "uuid_str v < uuid_str w"
proof -
  let ?h = "hex_pad 32 v" and ?k = "hex_pad 32 w"
  have l: "length ?h = length ?k" by simp
  have "?h < ?k" using assms by (intro hex_pad_mono) simp_all
  then have "slice 0 8 ?h @ ''-'' @ slice 8 12 ?h @ ''-'' @ slice 12 16 ?h @ ''-'' @ slice 16 20 ?h @ ''-'' @ drop 20 ?h
     < slice 0 8 ?k @ ''-'' @ slice 8 12 ?k @ ''-'' @ slice 12 16 ?k @ ''-'' @ slice 16 20 ?k @ ''-'' @ drop 20 ?k"
    by (intro dash_slice_mono l) simp_all
  then show ?thesis by (simp add: uuid_str_def Let_def slice_def)
qed

lemma uuid_str_inj:
  assumes "v < 2 ^ 128" "w < 2 ^ 128" "uuid_str v = uuid_str w"
  shows "v = w"
  using assms uuid_str_mono [of v w] uuid_str_mono [of w v] by (cases v w rule: linorder_cases) auto

lemma uuid7_inj: "draw_ok d \<Longrightarrow> draw_ok e \<Longrightarrow> uuid7 d = uuid7 e \<Longrightarrow> d = e"
  unfolding uuid7_def by (intro uuid7_value_inj uuid_str_inj uuid7_range)

lemma memory_id_inj: "draw_ok d \<Longrightarrow> draw_ok e \<Longrightarrow> memory_id d = memory_id e \<longleftrightarrow> d = e"
  by (auto simp: memory_id_def dest: uuid7_inj)

lemma length_memory_id [simp]: "length (memory_id d) = 40"
  by (simp add: memory_id_def)

lemma length_stable_id: "length (sha x) = 64 \<Longrightarrow> x = py_join unit_sep parts \<Longrightarrow>
    length (stable_id sha prefix parts) = length prefix + 33"
  by (simp add: stable_id_def)

section \<open>Properties\<close>

text \<open>A UUID made by \<open>uuid7\<close> fits 128 bits, carries the clock in its top 48 bits and both
  random parts in their fields, and has version 7 and the RFC variant bits.\<close>

theorem uuid7_layout:
  assumes "draw_ok d"
  shows "uuid7_value d < 2 ^ 128
    \<and> drop_bit 80 (uuid7_value d) = draw_ms d
    \<and> take_bit 4 (drop_bit 76 (uuid7_value d)) = 7
    \<and> take_bit 12 (drop_bit 64 (uuid7_value d)) = draw_a d
    \<and> take_bit 2 (drop_bit 62 (uuid7_value d)) = 2
    \<and> take_bit 62 (uuid7_value d) = draw_b d"
  using assms uuid7_range uuid7_timestamp uuid7_version uuid7_rand_a uuid7_variant uuid7_rand_b
  by blast

definition sample_draw :: draw where
  "sample_draw = \<lparr>draw_ms = 1700000000000, draw_a = 5, draw_b = 9\<rparr>"

lemma sample_draw_ok [simp]: "draw_ok sample_draw" "draw_ok (sample_draw\<lparr>draw_ms := 1700000000001\<rparr>)"
  by (simp_all add: draw_ok_def sample_draw_def)

theorem uuid7_layout_witness:
  "draw_ok sample_draw \<and> take_bit 4 (drop_bit 76 (uuid7_value sample_draw)) = 7"
  using uuid7_layout [of sample_draw] by simp

text \<open>Identifiers made in a later millisecond sort after earlier ones as text, whatever the
  random bits, and two different draws never print the same identifier.\<close>

theorem memory_ids_time_ordered:
  assumes "draw_ok d" "draw_ok e"
  shows "(draw_ms d < draw_ms e \<longrightarrow> memory_id d < memory_id e) \<and> (d \<noteq> e \<longrightarrow> memory_id d \<noteq> memory_id e)"
  using assms uuid7_value_mono [OF assms] uuid7_range [of e]
  by (simp add: memory_id_inj)
     (simp add: memory_id_def uuid7_def uuid_str_mono list_less_append_same)

theorem memory_ids_time_ordered_witness:
  "memory_id sample_draw < memory_id (sample_draw\<lparr>draw_ms := 1700000000001\<rparr>)"
  using memory_ids_time_ordered [of sample_draw "sample_draw\<lparr>draw_ms := 1700000000001\<rparr>"]
  by (simp add: sample_draw_def draw_ok_def)

end
