(* ===== verification/MemSchema.thy ===== *)
theory MemSchema
  imports Redaction MemTypes Supersession Ids
begin

text \<open>
  The agent-memory tables of \<open>app/models.py\<close> and the request bodies of
  \<open>app/memory/schemas.py\<close>. A table is the list of its rows (theory Prelude); a UUID column is
  its text; a timestamp is an integer number of microseconds. Bodies are what Pydantic has
  validated, and \<open>valid_\<dots>\<close> states the field constraints it enforces. The generated column
  \<open>search_vector\<close> and the vector column \<open>embedding\<close> are not kept: PostgreSQL computes the one
  and no handler writes the other.
\<close>

section \<open>Literal types\<close>

datatype ep_status = SOpen | SActive | SDegraded | SSuperseded | SRejected | SArchived
datatype attempt_result = RSuccess | RFailed | RPartial
datatype outcome_status = OSuccess | OFailed | OPartial | OCancelled
datatype verifier_kind = VCi | VRuntime | VTest | VBuild | VSelfReport | VCustom
datatype feedback_kind = FConfirm | FReject | FCorrect | FSupersede | FMerge | FStale | FVerified

definition Domain :: "string list" where
  "Domain = [''engineering'', ''trading'', ''research'', ''operations'', ''custom'']"

definition MemoryType :: "string list" where
  "MemoryType = [''bugfix'', ''decision'', ''preference'', ''procedure'', ''research'', ''trading'',
     ''learning'', ''fact'', ''custom'']"

section \<open>Rows\<close>

record episode =
  ep_id :: string
  ep_project :: string
  ep_domain :: string
  ep_type :: string
  ep_title :: string
  ep_goal :: string
  ep_signature :: string
  ep_scope :: jobj
  ep_tags :: "string list"
  ep_metadata :: jobj
  ep_content :: "jobj option"
  ep_confidence :: rat
  ep_version :: int
  ep_root :: "string option"
  ep_status :: ep_status
  ep_feedback :: int
  ep_superseded_by :: "string option"
  ep_created :: int
  ep_updated :: int

record attempt =
  at_id :: string
  at_episode :: string
  at_sequence :: int
  at_hypothesis :: string
  at_actions :: "json list"
  at_result :: attempt_result
  at_notes :: "string option"
  at_metadata :: jobj
  at_created :: int

record outcome =
  out_id :: string
  out_episode :: string
  out_status :: outcome_status
  out_summary :: string
  out_lesson :: "string option"
  out_metrics :: jobj
  out_pattern_key :: string
  out_metadata :: jobj
  out_created :: int

record pattern =
  pt_id :: string
  pt_project :: string
  pt_key :: string
  pt_verified :: int
  pt_successes :: rat
  pt_total :: rat
  pt_confidence :: rat
  pt_promoted :: bool
  pt_superseded_by :: "string option"

record verifier =
  vr_id :: string
  vr_outcome :: string
  vr_kind :: verifier_kind
  vr_name :: string
  vr_status :: string
  vr_command :: "string option"
  vr_artifact :: "string option"
  vr_metrics :: jobj

record evidence =
  ev_id :: string
  ev_episode :: string
  ev_reference :: string
  ev_metadata :: jobj

record member =
  mb_pattern :: string
  mb_outcome :: string

record retrieval_audit =
  ra_id :: string
  ra_project :: string
  ra_query :: string
  ra_results :: "(string \<times> string option) list"

record version =
  vs_id :: string
  vs_episode :: string
  vs_version :: int
  vs_content :: jobj
  vs_confidence :: rat

record hold =
  lh_id :: string
  lh_project :: string
  lh_type :: string
  lh_resource :: string
  lh_reason :: string
  lh_created_by :: string
  lh_created :: int

record policy =
  rp_id :: string
  rp_project :: string
  rp_type :: string
  rp_days :: int
  rp_action :: string
  rp_status :: string
  rp_created_by :: string
  rp_created :: int
  rp_updated :: int

record audit_log =
  al_id :: string
  al_project :: string
  al_actor_type :: string
  al_actor :: "string option"
  al_operation :: string
  al_type :: string
  al_resource :: string
  al_metadata :: jobj
  al_created :: int

record idem_key =
  ik_key :: string
  ik_project :: string
  ik_operation :: string
  ik_resource :: "string option"
  ik_hash :: string
  ik_created :: int

record mem_db =
  episodes :: "episode list"
  attempts :: "attempt list"
  outcomes :: "outcome list"
  patterns :: "pattern list"
  verifiers :: "verifier list"
  evidences :: "evidence list"
  members :: "member list"
  retrieval_audits :: "retrieval_audit list"
  versions :: "version list"
  holds :: "hold list"
  policies :: "policy list"
  audit_logs :: "audit_log list"
  idem_keys :: "idem_key list"

definition empty_db :: mem_db where
  "empty_db = \<lparr>episodes = [], attempts = [], outcomes = [], patterns = [], verifiers = [], evidences = [],
     members = [], retrieval_audits = [], versions = [], holds = [], policies = [], audit_logs = [],
     idem_keys = []\<rparr>"

section \<open>Request bodies\<close>

record evidence_input =
  ei_reference :: string
  ei_metadata :: jobj

record episode_input =
  pi_domain :: string
  pi_type :: string
  pi_title :: string
  pi_goal :: string
  pi_signature :: string
  pi_scope :: jobj
  pi_tags :: "string list"
  pi_metadata :: jobj
  pi_content :: "jobj option"
  pi_confidence :: rat
  pi_evidence :: "evidence_input list"
  pi_idempotency :: "string option"

record attempt_input =
  ai_hypothesis :: string
  ai_actions :: "json list"
  ai_result :: attempt_result
  ai_notes :: "string option"
  ai_metadata :: jobj

record verifier_input =
  vi_kind :: verifier_kind
  vi_name :: string
  vi_status :: string
  vi_command :: "string option"
  vi_artifact :: "string option"
  vi_metrics :: jobj

record outcome_input =
  oi_status :: outcome_status
  oi_summary :: string
  oi_lesson :: "string option"
  oi_verifiers :: "verifier_input list"
  oi_metrics :: jobj
  oi_metadata :: jobj
  oi_pattern_key :: "string option"

record confidence_input =
  ci_kind :: feedback_kind
  ci_content :: "jobj option"
  ci_confidence :: "rat option"
  ci_target :: "string option"

definition valid_episode_input :: "episode_input \<Rightarrow> bool" where
  "valid_episode_input b \<longleftrightarrow> pi_domain b \<in> set Domain \<and> pi_type b \<in> set MemoryType
     \<and> pi_title b \<noteq> [] \<and> length (pi_title b) \<le> 255 \<and> pi_goal b \<noteq> []
     \<and> pi_signature b \<noteq> [] \<and> length (pi_signature b) \<le> 512
     \<and> 0 \<le> pi_confidence b \<and> pi_confidence b \<le> 1
     \<and> list_all (\<lambda>e. ei_reference e \<noteq> []) (pi_evidence b)
     \<and> (case pi_idempotency b of None \<Rightarrow> True | Some k \<Rightarrow> length k \<le> 255)"

definition valid_confidence_input :: "confidence_input \<Rightarrow> bool" where
  "valid_confidence_input b \<longleftrightarrow>
     (case ci_confidence b of None \<Rightarrow> True | Some c \<Rightarrow> 0 \<le> c \<and> c \<le> 1)"

definition valid_feedback_score :: "int \<Rightarrow> bool" where
  "valid_feedback_score score \<longleftrightarrow> -1 \<le> score \<and> score \<le> 1"

section \<open>Views\<close>

record attempt_view =
  av_id :: string
  av_sequence :: int
  av_body :: attempt_input

record episode_view =
  w_id :: string
  w_project :: string
  w_domain :: string
  w_type :: string
  w_title :: string
  w_goal :: string
  w_signature :: string
  w_scope :: jobj
  w_tags :: "string list"
  w_metadata :: jobj
  w_content :: "jobj option"
  w_confidence :: rat
  w_version :: int
  w_root :: "string option"
  w_status :: ep_status
  w_feedback :: int
  w_superseded_by :: "string option"
  w_attempts :: "attempt_view list"

record pattern_view =
  pv_key :: string
  pv_verified :: int
  pv_successes :: rat
  pv_total :: rat
  pv_confidence :: rat
  pv_promoted :: bool

record outcome_view =
  ov_id :: string
  ov_status :: outcome_status
  ov_pattern :: pattern_view

record search_result =
  sr_episode :: episode_view
  sr_pattern :: "pattern_view option"
  sr_actions :: "json list"
  sr_lesson :: "string option"
  sr_scope_match :: bool

section \<open>Referential actions\<close>

text \<open>\<open>DELETE\<close> of an episode: what the foreign keys of the schema do with the rows that
  refer to it. \<open>CASCADE\<close> removes attempts, outcomes (and their verifiers and memberships),
  evidence and versions; \<open>SET NULL\<close> clears the links of other episodes.\<close>

definition null_link :: "string \<Rightarrow> string option \<Rightarrow> string option" where
  "null_link k x = (if x = Some k then None else x)"

definition delete_episode_row :: "string \<Rightarrow> mem_db \<Rightarrow> mem_db" where
  "delete_episode_row k db =
     (let gone = map out_id (filter (\<lambda>o'. out_episode o' = k) (outcomes db)) in
      db\<lparr>episodes := map (\<lambda>e. e\<lparr>ep_superseded_by := null_link k (ep_superseded_by e),
                                ep_root := null_link k (ep_root e)\<rparr>)
                        (del_rows (\<lambda>e. ep_id e = k) (episodes db)),
         attempts := del_rows (\<lambda>a. at_episode a = k) (attempts db),
         outcomes := del_rows (\<lambda>o'. out_episode o' = k) (outcomes db),
         verifiers := del_rows (\<lambda>v. vr_outcome v \<in> set gone) (verifiers db),
         members := del_rows (\<lambda>m. mb_outcome m \<in> set gone) (members db),
         evidences := del_rows (\<lambda>e. ev_episode e = k) (evidences db),
         versions := del_rows (\<lambda>v. vs_episode v = k) (versions db)\<rparr>)"

text \<open>The foreign keys and unique constraints of the tables.\<close>

definition opt_ref :: "string list \<Rightarrow> string option \<Rightarrow> bool" where
  "opt_ref keys x = (case x of None \<Rightarrow> True | Some k \<Rightarrow> k \<in> set keys)"

definition refs_ok :: "mem_db \<Rightarrow> bool" where
  "refs_ok db \<longleftrightarrow>
     (let eps = map ep_id (episodes db); outs = map out_id (outcomes db); pts = map pt_id (patterns db) in
      list_all (\<lambda>e. opt_ref eps (ep_superseded_by e) \<and> opt_ref eps (ep_root e)) (episodes db)
      \<and> list_all (\<lambda>a. at_episode a \<in> set eps) (attempts db)
      \<and> list_all (\<lambda>o'. out_episode o' \<in> set eps) (outcomes db)
      \<and> list_all (\<lambda>v. vr_outcome v \<in> set outs) (verifiers db)
      \<and> list_all (\<lambda>m. mb_pattern m \<in> set pts \<and> mb_outcome m \<in> set outs) (members db)
      \<and> list_all (\<lambda>e. ev_episode e \<in> set eps) (evidences db)
      \<and> list_all (\<lambda>v. vs_episode v \<in> set eps) (versions db))"

definition keys_ok :: "mem_db \<Rightarrow> bool" where
  "keys_ok db \<longleftrightarrow>
     distinct (map ep_id (episodes db)) \<and> distinct (map at_id (attempts db))
     \<and> distinct (map out_id (outcomes db)) \<and> distinct (map pt_id (patterns db))
     \<and> distinct (map (\<lambda>a. (at_episode a, at_sequence a)) (attempts db))
     \<and> distinct (map out_episode (outcomes db))
     \<and> distinct (map (\<lambda>p. (pt_project p, pt_key p)) (patterns db))
     \<and> distinct (map vs_id (versions db))
     \<and> distinct (map (\<lambda>k. (ik_key k, ik_project k)) (idem_keys db))"

lemma delete_episode_ids:
  "map ep_id (episodes (delete_episode_row k db)) = filter (\<lambda>i. i \<noteq> k) (map ep_id (episodes db))"
  by (simp add: delete_episode_row_def Let_def del_rows_def filter_map o_def)

lemma delete_episode_refs:
  assumes "refs_ok db"
  shows "refs_ok (delete_episode_row k db)"
proof -
  let ?db = "delete_episode_row k db"
  have eps: "set (map ep_id (episodes ?db)) = set (map ep_id (episodes db)) - {k}"
    unfolding delete_episode_ids by auto
  have opt: "opt_ref (map ep_id (episodes ?db)) (null_link k x)"
    if "opt_ref (map ep_id (episodes db)) x" for x
    using that eps by (auto simp: opt_ref_def null_link_def split: option.splits)
  have kept: "x \<in> set (map out_id (outcomes ?db))"
    if "x \<in> set (map out_id (outcomes db))" "x \<notin> out_id ` {r \<in> set (outcomes db). out_episode r = k}" for x
    using image_rest [of x out_id "set (outcomes db)" "\<lambda>r. out_episode r = k"] that
    by (simp add: delete_episode_row_def Let_def)
  have old: "list_all (\<lambda>e. opt_ref (map ep_id (episodes db)) (ep_superseded_by e)
        \<and> opt_ref (map ep_id (episodes db)) (ep_root e)) (episodes db)"
    "\<forall>a\<in>set (attempts db). at_episode a \<in> ep_id ` set (episodes db)"
    "\<forall>o'\<in>set (outcomes db). out_episode o' \<in> ep_id ` set (episodes db)"
    "\<forall>v\<in>set (verifiers db). vr_outcome v \<in> set (map out_id (outcomes db))"
    "\<forall>m\<in>set (members db). mb_pattern m \<in> pt_id ` set (patterns db) \<and> mb_outcome m \<in> set (map out_id (outcomes db))"
    "\<forall>e\<in>set (evidences db). ev_episode e \<in> ep_id ` set (episodes db)"
    "\<forall>v\<in>set (versions db). vs_episode v \<in> ep_id ` set (episodes db)"
    using assms by (simp_all add: refs_ok_def Let_def list_all_iff)
  have 1: "list_all (\<lambda>e. opt_ref (map ep_id (episodes ?db)) (ep_superseded_by e)
        \<and> opt_ref (map ep_id (episodes ?db)) (ep_root e)) (episodes ?db)"
    using old(1) opt by (auto simp: list_all_iff delete_episode_row_def Let_def)
  have 2: "\<forall>a\<in>set (attempts ?db). at_episode a \<in> set (map ep_id (episodes ?db))"
    unfolding eps using old(2) by (simp add: delete_episode_row_def Let_def)
  have 3: "\<forall>o'\<in>set (outcomes ?db). out_episode o' \<in> set (map ep_id (episodes ?db))"
    unfolding eps using old(3) by (simp add: delete_episode_row_def Let_def)
  have 4: "\<forall>v\<in>set (verifiers ?db). vr_outcome v \<in> set (map out_id (outcomes ?db))"
    using old(4) kept by (simp add: delete_episode_row_def Let_def)
  have 5: "\<forall>m\<in>set (members ?db). mb_pattern m \<in> set (map pt_id (patterns ?db)) \<and> mb_outcome m \<in> set (map out_id (outcomes ?db))"
    using old(5) kept by (simp add: delete_episode_row_def Let_def)
  have 6: "\<forall>e\<in>set (evidences ?db). ev_episode e \<in> set (map ep_id (episodes ?db))"
    unfolding eps using old(6) by (simp add: delete_episode_row_def Let_def)
  have 7: "\<forall>v\<in>set (versions ?db). vs_episode v \<in> set (map ep_id (episodes ?db))"
    unfolding eps using old(7) by (simp add: delete_episode_row_def Let_def)
  show ?thesis
    unfolding refs_ok_def Let_def using 1 2 3 4 5 6 7 by (simp only: list_all_iff)
qed

lemma delete_episode_keys: "keys_ok db \<Longrightarrow> keys_ok (delete_episode_row k db)"
  by (simp add: keys_ok_def delete_episode_ids distinct_map_filter)
     (simp add: delete_episode_row_def Let_def distinct_map_del_rows)

end
