(* ===== verification/MemService.thy ===== *)
theory MemService
  imports MemSchema
begin

text \<open>
  \<open>app/memory/service.py\<close>: pattern keys, verifier weights, the confidence of a pattern, views,
  ownership, search, and the memory graph. What PostgreSQL computes for the search is the record
  \<open>pg\<close>: whether a row's text vector matches a query, its rank, and the text of a JSON value.
  Where the SQL leaves an order open (a query without \<open>ORDER BY\<close>, ties) the model keeps the
  order of the table.
\<close>

section \<open>Pattern keys\<close>

definition key_char :: "char \<Rightarrow> bool" where
  "key_char c \<longleftrightarrow> is_lower_az c \<or> is_digit09 c"

definition normalize_pattern_key :: "string \<Rightarrow> string" where
  "normalize_pattern_key signature =
     (let normalized = py_strip_chars ''-''
            (rx_sub Eps (Plus (Cls (\<lambda>c. \<not> key_char c))) (\<lambda>_. ''-'') (py_lower signature));
          key = take 255 normalized
      in if key = [] then ''unspecified'' else key)"

section \<open>Evidence weights and confidence\<close>

fun verifier_weights :: "verifier_kind \<Rightarrow> rat" where
  "verifier_weights VCi = 1"
| "verifier_weights VRuntime = 1"
| "verifier_weights VTest = f0_6"
| "verifier_weights VBuild = f0_6"
| "verifier_weights VSelfReport = f0_2"
| "verifier_weights VCustom = f0_2"

definition verifier_weight :: "verifier_input list \<Rightarrow> rat" where
  "verifier_weight verifs =
     (let passing = map (\<lambda>item. verifier_weights (vi_kind item))
            (filter (\<lambda>item. py_lower (vi_status item) \<in> {''passed'', ''success'', ''verified''}) verifs)
      in if passing = [] then 0 else Max (set passing))"

definition bayesian_confidence :: "rat \<Rightarrow> rat \<Rightarrow> rat" where
  "bayesian_confidence successes tot =
     (let bounded_total = max 0 tot; bounded_successes = min bounded_total (max 0 successes)
      in fdiv (fadd bounded_successes 1) (fadd bounded_total 2))"

definition is_promoted :: "int \<Rightarrow> rat \<Rightarrow> bool" where
  "is_promoted verified_outcomes confidence \<longleftrightarrow> verified_outcomes \<ge> 3 \<and> confidence \<ge> f0_7"

section \<open>Views and ownership\<close>

definition attempt_view_of :: "attempt \<Rightarrow> attempt_view" where
  "attempt_view_of a = \<lparr>av_id = at_id a, av_sequence = at_sequence a,
     av_body = \<lparr>ai_hypothesis = at_hypothesis a, ai_actions = at_actions a, ai_result = at_result a,
       ai_notes = at_notes a, ai_metadata = at_metadata a\<rparr>\<rparr>"

definition episode_view_of :: "episode \<Rightarrow> attempt list \<Rightarrow> episode_view" where
  "episode_view_of item atts =
     \<lparr>w_id = ep_id item, w_project = ep_project item, w_domain = ep_domain item, w_type = ep_type item,
      w_title = ep_title item, w_goal = ep_goal item, w_signature = ep_signature item,
      w_scope = ep_scope item, w_tags = ep_tags item, w_metadata = ep_metadata item,
      w_content = ep_content item, w_confidence = ep_confidence item, w_version = ep_version item,
      w_root = ep_root item, w_status = ep_status item, w_feedback = ep_feedback item,
      w_superseded_by = ep_superseded_by item, w_attempts = map attempt_view_of atts\<rparr>"

definition pattern_view_of :: "pattern \<Rightarrow> pattern_view" where
  "pattern_view_of item =
     \<lparr>pv_key = pt_key item, pv_verified = pt_verified item, pv_successes = pt_successes item,
      pv_total = pt_total item, pv_confidence = pt_confidence item, pv_promoted = pt_promoted item\<rparr>"

definition owned_episode :: "mem_db \<Rightarrow> string \<Rightarrow> string \<Rightarrow> episode res" where
  "owned_episode db project episode_id =
     (case find (\<lambda>e. ep_id e = episode_id \<and> ep_project e = project) (episodes db) of
        None \<Rightarrow> Inl (HTTPException 404 ''agent memory episode not found'')
      | Some item \<Rightarrow> Inr item)"

definition project_pattern :: "mem_db \<Rightarrow> string \<Rightarrow> string \<Rightarrow> pattern option" where
  "project_pattern db project key = find (\<lambda>p. pt_project p = project \<and> pt_key p = key) (patterns db)"

lemma owned_episode_Inr:
  "owned_episode db project i = Inr e \<Longrightarrow> e \<in> set (episodes db) \<and> ep_id e = i \<and> ep_project e = project"
  by (auto simp: owned_episode_def find_Some_iff split: option.splits)

lemma owned_episode_iff:
  assumes "distinct (map ep_id (episodes db))"
  shows "owned_episode db project i = Inr e \<longleftrightarrow>
    e \<in> set (episodes db) \<and> ep_id e = i \<and> ep_project e = project"
proof
  assume e: "e \<in> set (episodes db) \<and> ep_id e = i \<and> ep_project e = project"
  then obtain e' where "owned_episode db project i = Inr e'"
    by (cases "find (\<lambda>e. ep_id e = i \<and> ep_project e = project) (episodes db)")
       (auto simp: owned_episode_def find_None_iff)
  with e assms show "owned_episode db project i = Inr e"
    by (metis get_row_Some_iff option.inject owned_episode_Inr)
qed (rule owned_episode_Inr)

lemma project_pattern_Some:
  "project_pattern db project k = Some p \<Longrightarrow> p \<in> set (patterns db) \<and> pt_project p = project \<and> pt_key p = k"
  by (auto simp: project_pattern_def find_Some_iff)

section \<open>Facts: keys, weights, confidence\<close>

lemma plus_class_matches:
  "i < length s \<Longrightarrow> p (s ! i) \<Longrightarrow> \<exists>k > i. match_at Eps (Plus (Cls p)) s i = Some (i, k)"
proof -
  assume i: "i < length s" "p (s ! i)"
  obtain k ks where ks: "rm (Star (Cls p)) s (Suc i) = k # ks"
    using rm_Star_nonempty list.exhaust by blast
  then have "Suc i \<le> k" using rm_bounds [of k "Star (Cls p)" s "Suc i"] i by simp
  with i ks show ?thesis by (auto simp: match_at_def Plus_def)
qed

lemma rx_sub_class_chars:
  "c \<in> set (rx_sub_from Eps (Plus (Cls p)) repl s i) \<Longrightarrow>
     \<not> p c \<or> (\<exists>w. c \<in> set (repl w))"
proof (induction Eps "Plus (Cls p)" repl s i rule: rx_sub_from.induct)
  case (1 repl s i)
  show ?case
  proof (cases "i < length s \<and> p (s ! i)")
    case True
    then obtain k where k: "k > i" "match_at Eps (Plus (Cls p)) s i = Some (i, k)"
      using plus_class_matches by blast
    with "1.prems" True show ?thesis
      using "1.hyps"(2) [OF _ k(2) refl k(1)] by (subst (asm) rx_sub_from.simps) auto
  next
    case False
    show ?thesis
    proof (cases "i < length s")
      case True
      with False have "\<not> p (s ! i)" by simp
      then have "match_at Eps (Plus (Cls p)) s i = None" by (simp add: match_at_def Plus_def)
      with "1.prems" True \<open>\<not> p (s ! i)\<close> show ?thesis
        using "1.hyps"(1) by (subst (asm) rx_sub_from.simps) auto
    qed (use "1.prems" in \<open>subst (asm) rx_sub_from.simps, simp\<close>)
  qed
qed

lemma set_py_strip_chars: "set (py_strip_chars cs s) \<subseteq> set s"
  unfolding py_strip_chars_def by (auto dest!: set_dropWhileD)

lemma normalize_pattern_key_chars:
  "set (normalize_pattern_key sig) \<subseteq> {c. key_char c \<or> c = CHR ''-''}"
proof -
  let ?r = "rx_sub Eps (Plus (Cls (\<lambda>c. \<not> key_char c))) (\<lambda>_. ''-'') (py_lower sig)"
  have "set ?r \<subseteq> {c. key_char c \<or> c = CHR ''-''}"
    unfolding rx_sub_def using rx_sub_class_chars [where p = "\<lambda>c. \<not> key_char c"] by fastforce
  then have "set (take 255 (py_strip_chars ''-'' ?r)) \<subseteq> {c. key_char c \<or> c = CHR ''-''}"
    using set_py_strip_chars [of "''-''" ?r] set_take_subset [of 255 "py_strip_chars ''-'' ?r"] by blast
  moreover have "set ''unspecified'' \<subseteq> {c. key_char c \<or> c = CHR ''-''}"
    by (simp add: key_char_def is_lower_az_def ord_of_def)
  ultimately show ?thesis unfolding normalize_pattern_key_def Let_def by (simp split: if_split)
qed

lemma normalize_pattern_key_size:
  "normalize_pattern_key sig \<noteq> [] \<and> length (normalize_pattern_key sig) \<le> 255"
  by (simp add: normalize_pattern_key_def Let_def)

lemma bayesian_confidence_unit:
  "0 \<le> bayesian_confidence s t \<and> bayesian_confidence s t \<le> 1"
  unfolding bayesian_confidence_def Let_def fdiv_def fadd_def
  by (rule f64.smoothed_ratio_unit) auto

lemma bayesian_confidence_mono:
  assumes "s \<le> s'"
  shows "bayesian_confidence s t \<le> bayesian_confidence s' t"
proof -
  have "2 \<le> fadd (max 0 t) 2" unfolding fadd_def by (intro f64.ge_two) simp
  moreover have "fadd (min (max 0 t) (max 0 s)) 1 \<le> fadd (min (max 0 t) (max 0 s')) 1"
    unfolding fadd_def using assms by (intro fl_mono) auto
  ultimately show ?thesis
    unfolding bayesian_confidence_def Let_def fdiv_def by (intro fl_mono divide_right_mono) simp_all
qed

lemma verifier_weights_unit: "0 \<le> verifier_weights k \<and> verifier_weights k \<le> 1"
  by (cases k) (simp_all add: f_lits_unit)

lemma verifier_weight_unit: "0 \<le> verifier_weight vs \<and> verifier_weight vs \<le> 1"
proof -
  let ?P = "map (\<lambda>item. verifier_weights (vi_kind item))
       (filter (\<lambda>item. py_lower (vi_status item) \<in> {''passed'', ''success'', ''verified''}) vs)"
  have all: "\<forall>w\<in>set ?P. 0 \<le> w \<and> w \<le> 1" using verifier_weights_unit by auto
  show ?thesis
  proof (cases "?P = []")
    case False
    then have "Max (set ?P) \<in> set ?P" by (intro Max_in) (simp_all only: finite_set set_empty not_False_eq_True)
    with all False show ?thesis unfolding verifier_weight_def Let_def by (simp only: if_False)
  qed (simp add: verifier_weight_def Let_def)
qed

section \<open>Properties: keys and confidence\<close>

text \<open>Whatever the problem signature, its pattern key fits the column: it is not empty, has at
  most 255 characters and only lower-case letters, digits and dashes.\<close>

theorem normalize_pattern_key_shape:
  "normalize_pattern_key sig \<noteq> [] \<and> length (normalize_pattern_key sig) \<le> 255
     \<and> set (normalize_pattern_key sig) \<subseteq> {c. key_char c \<or> c = CHR ''-''}"
  using normalize_pattern_key_chars normalize_pattern_key_size by blast

text \<open>The confidence of a pattern is a probability for all inputs, inconsistent ones
  included, in binary64 arithmetic; it does not fall when successes grow; and a pattern without
  any evidence has confidence one half and is never promoted.\<close>

theorem bayesian_confidence_probability:
  "0 \<le> bayesian_confidence s t \<and> bayesian_confidence s t \<le> 1
   \<and> bayesian_confidence s t \<le> bayesian_confidence (max s s') t
   \<and> bayesian_confidence s 0 = 1 / 2
   \<and> \<not> is_promoted n (bayesian_confidence s 0)"
proof -
  have "bayesian_confidence s 0 = fl (1 / 2)"
    by (simp add: bayesian_confidence_def fdiv_def fadd_def)
  also have "\<dots> = 1 / 2" by (rule f_half [unfolded f0_5_def])
  finally have "bayesian_confidence s 0 = 1 / 2" .
  moreover have "\<not> f0_7 \<le> 1 / 2" by code_simp
  ultimately show ?thesis
    using bayesian_confidence_unit bayesian_confidence_mono [of s "max s s'"] by (simp add: is_promoted_def)
qed

end
