(* ===== verification/MemConfidence.thy ===== *)
theory MemConfidence
  imports MemService
begin

text \<open>
  \<open>app/memory/confidence.py\<close>: confidence feedback, corrections with version history, merging and
  superseding. An operation takes the clock and the database and returns the database with the
  changed rows and the episode, or the HTTP error. Inserting a version is refused by the database
  when its identifier exceeds the column, \<open>String(40)\<close>, or a key repeats.
\<close>

section \<open>Operations\<close>

definition calculate_confidence :: "rat \<Rightarrow> feedback_kind \<Rightarrow> rat" where
  "calculate_confidence current kind =
     (case kind of
        FConfirm \<Rightarrow> min 1 (fadd current f0_1)
      | FReject \<Rightarrow> 0
      | FStale \<Rightarrow> max 0 (fsub current f0_2)
      | FVerified \<Rightarrow> 1
      | _ \<Rightarrow> current)"

definition get_status_for_feedback :: "feedback_kind \<Rightarrow> ep_status option" where
  "get_status_for_feedback kind =
     (case kind of FReject \<Rightarrow> Some SRejected | FStale \<Rightarrow> Some SDegraded | _ \<Rightarrow> None)"

definition save_episode :: "episode \<Rightarrow> mem_db \<Rightarrow> mem_db" where
  "save_episode e db = db\<lparr>episodes := upd_row ep_id (ep_id e) (\<lambda>_. e) (episodes db)\<rparr>"

definition version_of :: "episode \<Rightarrow> version" where
  "version_of e =
     \<lparr>vs_id = ''ver_'' @ ep_id e @ ''_v'' @ int_str (ep_version e), vs_episode = ep_id e,
      vs_version = ep_version e,
      vs_content = (case ep_content e of None \<Rightarrow> [] | Some c \<Rightarrow> c), vs_confidence = ep_confidence e\<rparr>"

definition add_version :: "version \<Rightarrow> mem_db \<Rightarrow> mem_db res" where
  "add_version v db =
     (if length (vs_id v) > 40 then Inl (DataError ''value too long for type character varying(40)'')
      else if (vs_episode v, vs_version v) \<in> (\<lambda>w. (vs_episode w, vs_version w)) ` set (versions db)
        then Inl (IntegrityError ''uq_agent_memory_version'')
      else bindE (insert_row vs_id v (versions db)) (\<lambda>rows. Inr (db\<lparr>versions := rows\<rparr>)))"

definition apply_confidence_feedback ::
    "int \<Rightarrow> mem_db \<Rightarrow> episode \<Rightarrow> feedback_kind \<Rightarrow> jobj option \<Rightarrow> rat option \<Rightarrow> (episode \<times> mem_db) res" where
  "apply_confidence_feedback now db e kind content confidence =
     (case kind of
        FConfirm \<Rightarrow>
          (let e' = e\<lparr>ep_confidence := calculate_confidence (ep_confidence e) kind,
                      ep_feedback := ep_feedback e + 1, ep_updated := now\<rparr> in Inr (e', save_episode e' db))
      | FReject \<Rightarrow>
          (let e' = e\<lparr>ep_confidence := 0, ep_status := SRejected,
                      ep_feedback := ep_feedback e - 1, ep_updated := now\<rparr> in Inr (e', save_episode e' db))
      | FStale \<Rightarrow>
          (let e' = e\<lparr>ep_confidence := calculate_confidence (ep_confidence e) kind,
                      ep_status := SDegraded, ep_updated := now\<rparr> in Inr (e', save_episode e' db))
      | FVerified \<Rightarrow>
          (if \<not> truthy_opt content then Inl (HTTPException 400 ''verified feedback requires verification evidence'')
           else let e' = e\<lparr>ep_confidence := 1, ep_feedback := ep_feedback e + 2, ep_updated := now\<rparr>
                in Inr (e', save_episode e' db))
      | FCorrect \<Rightarrow>
          (if \<not> truthy_opt content then Inl (HTTPException 400 ''correct feedback requires new content'')
           else bindE (add_version (version_of e) db) (\<lambda>db1.
             let e' = e\<lparr>ep_content := content,
                        ep_confidence := (case confidence of Some c \<Rightarrow> c | None \<Rightarrow> ep_confidence e),
                        ep_version := ep_version e + 1, ep_updated := now\<rparr>
             in Inr (e', save_episode e' db1)))
      | FMerge \<Rightarrow> Inl (HTTPException 400 ''merge requires target_id parameter'')
      | FSupersede \<Rightarrow> Inl (HTTPException 400 ''supersede requires target_id parameter''))"

definition merge_memories ::
    "int \<Rightarrow> mem_db \<Rightarrow> episode \<Rightarrow> string \<Rightarrow> jobj option \<Rightarrow> rat option \<Rightarrow> (episode \<times> mem_db) res" where
  "merge_memories now db source target_id content confidence =
     (case get_row ep_id target_id (episodes db) of
        None \<Rightarrow> Inl (HTTPException 404 ''target episode not found'')
      | Some target \<Rightarrow>
          bindE (guardE (ep_project target = ep_project source)
            (HTTPException 400 ''target must be in same project'')) (\<lambda>_.
          bindE (guardE (ep_type target = ep_type source)
            (HTTPException 400 ''merge inputs must have the same type'')) (\<lambda>_.
          bindE (guardE (ep_id target \<noteq> ep_id source)
            (HTTPException 400 ''cannot merge with itself'')) (\<lambda>_.
          bindE (add_version (version_of source) db) (\<lambda>db1.
            let source' = source\<lparr>
                  ep_content := (if truthy_opt content then content else ep_content target),
                  ep_confidence := (case confidence of Some c \<Rightarrow> c
                                    | None \<Rightarrow> max (ep_confidence source) (ep_confidence target)),
                  ep_version := ep_version source + 1, ep_updated := now\<rparr>;
                target' = target\<lparr>ep_status := SSuperseded, ep_superseded_by := Some (ep_id source),
                  ep_updated := now\<rparr>
            in Inr (source', save_episode target' (save_episode source' db1)))))))"

text \<open>The table of links; an empty text is a missing link, as in \<open>if not cursor.superseded_by_id\<close>.\<close>

definition link :: "string option \<Rightarrow> string option" where
  "link x = (case x of None \<Rightarrow> None | Some s \<Rightarrow> if s = [] then None else Some s)"

definition episode_links :: "mem_db \<Rightarrow> string links" where
  "episode_links db = map (\<lambda>e. (ep_id e, link (ep_superseded_by e))) (episodes db)"

definition supersede_memory :: "int \<Rightarrow> mem_db \<Rightarrow> episode \<Rightarrow> string \<Rightarrow> (episode \<times> mem_db) res" where
  "supersede_memory now db current superseding_id =
     (case get_row ep_id superseding_id (episodes db) of
        None \<Rightarrow> Inl (HTTPException 404 ''superseding episode not found'')
      | Some superseding \<Rightarrow>
          bindE (guardE (ep_project superseding = ep_project current)
            (HTTPException 400 ''superseding episode must be in same project'')) (\<lambda>_.
          bindE (guardE (ep_id superseding \<noteq> ep_id current)
            (HTTPException 400 ''cannot supersede itself'')) (\<lambda>_.
          bindE (guardE (chain_walk (episode_links db) [ep_id current] (ep_id superseding) \<noteq> Revisits)
            (HTTPException 400 ''memory supersession would create a cycle'')) (\<lambda>_.
            let current' = current\<lparr>ep_status := SSuperseded, ep_superseded_by := Some superseding_id,
                             ep_updated := now\<rparr>
            in Inr (current', save_episode current' db)))))"

definition get_version_history :: "mem_db \<Rightarrow> string \<Rightarrow> version list" where
  "get_version_history db episode_id =
     order_by vs_version (filter (\<lambda>v. vs_episode v = episode_id) (versions db))"

section \<open>Facts\<close>

lemma calculate_confidence_unit:
  assumes "0 \<le> c" "c \<le> 1"
  shows "0 \<le> calculate_confidence c k \<and> calculate_confidence c k \<le> 1"
  using assms f64.clamp_up_unit [of c f0_1] f64.clamp_down_unit [of c f0_2] f_lits_unit
  by (cases k) (simp_all add: calculate_confidence_def fadd_def fsub_def)

lemma length_int_str_pos: "0 < length (int_str n)"
  by (simp add: int_str_def dec_str_nonempty)

lemma add_version_Inr:
  "add_version v db = Inr db' \<longleftrightarrow> length (vs_id v) \<le> 40
     \<and> (vs_episode v, vs_version v) \<notin> (\<lambda>w. (vs_episode w, vs_version w)) ` set (versions db)
     \<and> vs_id v \<notin> vs_id ` set (versions db) \<and> db' = db\<lparr>versions := versions db @ [v]\<rparr>"
  by (auto simp: add_version_def bindE_Inr_iff insert_row_Inr_iff)

lemma version_of_too_long:
  assumes "length (ep_id e) = 40"
  shows "add_version (version_of e) db = Inl (DataError ''value too long for type character varying(40)'')"
  using assms length_int_str_pos [of "ep_version e"] by (simp add: add_version_def version_of_def)

lemma map_of_episode_links:
  "map_of (episode_links db) k = map_option (\<lambda>e. link (ep_superseded_by e)) (get_row ep_id k (episodes db))"
proof -
  have "map_of (map (\<lambda>e. (ep_id e, link (ep_superseded_by e))) rows) k
      = map_option (\<lambda>e. link (ep_superseded_by e)) (get_row ep_id k rows)" for rows
    by (induction rows) (auto simp: get_row_Cons)
  then show ?thesis by (simp add: episode_links_def)
qed

lemma episode_links_dom: "fst ` set (episode_links db) = ep_id ` set (episodes db)"
  by (auto simp: episode_links_def image_image)

lemma links_upd_row:
  assumes "ep_id e \<in> ep_id ` set rows" "distinct (map ep_id rows)" "link (ep_superseded_by e) = l"
  shows "map (\<lambda>e. (ep_id e, link (ep_superseded_by e))) (upd_row ep_id (ep_id e) (\<lambda>_. e) rows)
      = AList.update (ep_id e) l (map (\<lambda>e. (ep_id e, link (ep_superseded_by e))) rows)"
  using assms(1,2)
proof (induction rows)
  case (Cons r rows)
  show ?case
  proof (cases "ep_id r = ep_id e")
    case True
    with Cons.prems(2) have "upd_row ep_id (ep_id e) (\<lambda>_. e) rows = rows"
      by (intro upd_row_id) auto
    then show ?thesis using True assms(3) by (simp add: upd_row_def)
  next
    case False
    with Cons show ?thesis by (simp add: upd_row_def)
  qed
qed simp

lemma episode_links_save:
  assumes "ep_id e \<in> ep_id ` set (episodes db)" "ep_superseded_by e = Some b" "b \<noteq> []"
    and "distinct (map ep_id (episodes db))"
  shows "episode_links (save_episode e db) = set_link (ep_id e) b (episode_links db)"
  using links_upd_row [of e "episodes db" "Some b"] assms
  by (simp add: episode_links_def save_episode_def set_link_def link_def)

end
