(* ===== verification/LegalHold.thy ===== *)
theory LegalHold
  imports MemSchema
begin

text \<open>
  Legal holds, \<open>app/legal_hold.py\<close>, and the audit trail, \<open>app/audit.py\<close>. A view of a row is
  the row itself.
\<close>

section \<open>Requests\<close>

text \<open>What a handler reads from outside: the authenticated project, the clock, and the random
  draws of its successive calls of \<open>uuid7\<close>.\<close>

record req =
  rq_project :: string
  rq_now :: int
  rq_ids :: "nat \<Rightarrow> draw"

record hold_input =
  hi_type :: string
  hi_resource :: string
  hi_reason :: string

definition HOLD_TYPES :: "string list" where
  "HOLD_TYPES = [''episode'', ''memory'', ''entity'', ''project'']"

definition valid_hold_input :: "hold_input \<Rightarrow> bool" where
  "valid_hold_input b \<longleftrightarrow> hi_type b \<in> set HOLD_TYPES \<and> hi_resource b \<noteq> []
     \<and> length (hi_resource b) \<le> 40 \<and> hi_reason b \<noteq> []"

section \<open>Handlers\<close>

definition create_legal_hold :: "req \<Rightarrow> mem_db \<Rightarrow> hold_input \<Rightarrow> (hold \<times> mem_db) res" where
  "create_legal_hold rq db body =
     (if list_ex (\<lambda>h. lh_project h = rq_project rq \<and> lh_type h = hi_type body
                     \<and> lh_resource h = hi_resource body) (holds db)
      then Inl (HTTPException 409 ''legal hold already exists for this resource'')
      else if hi_type body = ''episode''
              \<and> \<not> list_ex (\<lambda>e. ep_id e = hi_resource body \<and> ep_project e = rq_project rq) (episodes db)
      then Inl (HTTPException 404 ''episode not found'')
      else let item = \<lparr>lh_id = hold_id (rq_ids rq 0), lh_project = rq_project rq, lh_type = hi_type body,
                       lh_resource = hi_resource body, lh_reason = hi_reason body,
                       lh_created_by = ''api_key'', lh_created = rq_now rq\<rparr>
           in bindE (insert_row lh_id item (holds db)) (\<lambda>rows. Inr (item, db\<lparr>holds := rows\<rparr>)))"

definition page :: "nat \<Rightarrow> nat \<Rightarrow> 'a list \<Rightarrow> 'a list" where
  "page n offset xs = take n (drop offset xs)"

definition list_legal_holds ::
    "req \<Rightarrow> mem_db \<Rightarrow> string option \<Rightarrow> nat \<Rightarrow> nat \<Rightarrow> hold list \<times> nat" where
  "list_legal_holds rq db resource_type n offset =
     (let query = filter (\<lambda>h. lh_project h = rq_project rq
             \<and> (truthy_opt resource_type \<longrightarrow> Some (lh_type h) = resource_type)) (holds db)
      in (page n offset (order_by (\<lambda>h. - lh_created h) query), length query))"

definition find_hold :: "req \<Rightarrow> mem_db \<Rightarrow> string \<Rightarrow> hold res" where
  "find_hold rq db k =
     (case find (\<lambda>h. lh_id h = k \<and> lh_project h = rq_project rq) (holds db) of
        None \<Rightarrow> Inl (HTTPException 404 ''legal hold not found'')
      | Some item \<Rightarrow> Inr item)"

definition get_legal_hold :: "req \<Rightarrow> mem_db \<Rightarrow> string \<Rightarrow> hold res" where
  "get_legal_hold rq db k = find_hold rq db k"

definition delete_legal_hold :: "req \<Rightarrow> mem_db \<Rightarrow> string \<Rightarrow> mem_db res" where
  "delete_legal_hold rq db k =
     bindE (find_hold rq db k) (\<lambda>item. Inr (db\<lparr>holds := del_rows (\<lambda>h. lh_id h = lh_id item) (holds db)\<rparr>))"

definition check_legal_hold ::
    "mem_db \<Rightarrow> string \<Rightarrow> string list \<Rightarrow> string list option \<Rightarrow> unit res" where
  "check_legal_hold db project resource_ids resource_types =
     (if list_ex (\<lambda>h. lh_project h = project \<and> lh_type h = ''project'') (holds db)
      then Inl (HTTPException 423 (''project is under legal hold: project:'' @ project))
      else if resource_ids = [] then Inr ()
      else let found = filter (\<lambda>h. lh_project h = project \<and> lh_resource h \<in> set resource_ids
                 \<and> (truthy_opt resource_types \<longrightarrow> lh_type h \<in> set (the resource_types))) (holds db)
           in guardE (found = []) (HTTPException 423 (''resources are under legal hold: '' @
                py_join '', '' (map (\<lambda>h. lh_type h @ '':'' @ lh_resource h) found))))"

section \<open>Audit trail\<close>

definition create_audit_log ::
    "req \<Rightarrow> mem_db \<Rightarrow> string \<Rightarrow> string option \<Rightarrow> string \<Rightarrow> string \<Rightarrow> string \<Rightarrow> jobj option \<Rightarrow> (audit_log \<times> mem_db) res" where
  "create_audit_log rq db actor_type actor_id operation resource_type resource_id metadata =
     (let log = \<lparr>al_id = audit_id (rq_ids rq 0), al_project = rq_project rq, al_actor_type = actor_type,
                 al_actor = actor_id, al_operation = operation, al_type = resource_type,
                 al_resource = resource_id,
                 al_metadata = (case metadata of None \<Rightarrow> [] | Some m \<Rightarrow> m), al_created = rq_now rq\<rparr>
      in bindE (insert_row al_id log (audit_logs db)) (\<lambda>rows. Inr (log, db\<lparr>audit_logs := rows\<rparr>)))"

definition list_audit_logs ::
    "req \<Rightarrow> mem_db \<Rightarrow> string option \<Rightarrow> string option \<Rightarrow> string option \<Rightarrow> nat \<Rightarrow> nat \<Rightarrow> audit_log list \<times> nat" where
  "list_audit_logs rq db resource_type resource_id operation n offset =
     (let query = filter (\<lambda>l. al_project l = rq_project rq
             \<and> (truthy_opt resource_type \<longrightarrow> Some (al_type l) = resource_type)
             \<and> (truthy_opt resource_id \<longrightarrow> Some (al_resource l) = resource_id)
             \<and> (truthy_opt operation \<longrightarrow> Some (al_operation l) = operation)) (audit_logs db)
      in (page n offset (order_by (\<lambda>l. - al_created l) query), length query))"

section \<open>The contract of a hold\<close>

text \<open>What a hold protects, as the specification of the checks.\<close>

definition project_held :: "mem_db \<Rightarrow> string \<Rightarrow> bool" where
  "project_held db project \<longleftrightarrow> (\<exists>h\<in>set (holds db). lh_project h = project \<and> lh_type h = ''project'')"

definition resource_held :: "mem_db \<Rightarrow> string \<Rightarrow> string list \<Rightarrow> string \<Rightarrow> bool" where
  "resource_held db project types k \<longleftrightarrow>
     (\<exists>h\<in>set (holds db). lh_project h = project \<and> lh_type h \<in> set types \<and> lh_resource h = k)"

definition episode_held :: "mem_db \<Rightarrow> string \<Rightarrow> string \<Rightarrow> bool" where
  "episode_held db project k \<longleftrightarrow>
     project_held db project \<or> resource_held db project [''episode'', ''memory''] k"

lemma project_held_code: "list_ex (\<lambda>h. lh_project h = p \<and> lh_type h = ''project'') (holds db) = project_held db p"
  by (auto simp: project_held_def list_ex_iff)

lemma check_legal_hold_Inr:
  "check_legal_hold db p ids None = Inr () \<longleftrightarrow>
     \<not> project_held db p \<and> (\<forall>h\<in>set (holds db). lh_project h = p \<longrightarrow> lh_resource h \<notin> set ids)"
  by (auto simp: check_legal_hold_def project_held_code Let_def filter_empty_conv)

lemma check_legal_hold_types_Inr:
  "types \<noteq> [] \<Longrightarrow> check_legal_hold db p ids (Some types) = Inr () \<longleftrightarrow>
     \<not> project_held db p \<and> (\<forall>k\<in>set ids. \<not> resource_held db p types k)"
  by (auto simp: check_legal_hold_def project_held_code Let_def filter_empty_conv resource_held_def)

lemma check_legal_hold_episode:
  "check_legal_hold db p [k] None = Inr () \<Longrightarrow> \<not> episode_held db p k"
  by (auto simp: check_legal_hold_Inr episode_held_def resource_held_def)

lemma create_legal_hold_Inr:
  assumes "create_legal_hold rq db b = Inr (h, db')"
  shows "db' = db\<lparr>holds := holds db @ [h]\<rparr> \<and> lh_id h \<notin> lh_id ` set (holds db)
    \<and> lh_project h = rq_project rq \<and> lh_type h = hi_type b \<and> lh_resource h = hi_resource b"
  using assms
  by (auto simp: create_legal_hold_def Let_def bindE_Inr_iff insert_row_Inr_iff split: if_splits)

lemma find_hold_Inr:
  "find_hold rq db k = Inr h \<Longrightarrow> h \<in> set (holds db) \<and> lh_id h = k \<and> lh_project h = rq_project rq"
  by (auto simp: find_hold_def find_Some_iff split: option.splits)

end
