(* ===== verification/Idempotency.thy ===== *)
theory Idempotency
  imports MemSchema
begin

text \<open>
  Duplicate prevention, \<open>app/idempotency.py\<close>: a key of a project and an operation maps to the
  resource its first request created, for 24 hours. The primary key of the table is the key and the
  project; the lookup also compares the operation. The hash of the stored result
  (\<open>json.dumps\<close> and \<open>sha256\<close>) is the parameter \<open>hash\<close>.
\<close>

definition IDEMPOTENCY_TTL_HOURS :: int where "IDEMPOTENCY_TTL_HOURS = 24"

definition hours :: "int \<Rightarrow> int" where "hours h = h * 3600 * 1000000"

definition idem_lookup :: "string \<Rightarrow> string \<Rightarrow> string \<Rightarrow> idem_key list \<Rightarrow> idem_key option" where
  "idem_lookup key project operation rows =
     find (\<lambda>r. ik_key r = key \<and> ik_project r = project \<and> ik_operation r = operation) rows"

definition compute_result_hash :: "(jobj \<Rightarrow> string) \<Rightarrow> (string \<Rightarrow> string) \<Rightarrow> jobj \<Rightarrow> string" where
  "compute_result_hash dumps sha data = sha (dumps data)"

text \<open>The result and the table: an expired row is deleted.\<close>

definition check_idempotency ::
    "int \<Rightarrow> mem_db \<Rightarrow> string \<Rightarrow> string \<Rightarrow> string \<Rightarrow> string option \<times> mem_db" where
  "check_idempotency now db key project operation =
     (case idem_lookup key project operation (idem_keys db) of
        None \<Rightarrow> (None, db)
      | Some existing \<Rightarrow>
          if ik_created existing \<ge> now - hours IDEMPOTENCY_TTL_HOURS then (ik_resource existing, db)
          else (None, db\<lparr>idem_keys :=
                  del_rows (\<lambda>r. ik_key r = key \<and> ik_project r = project) (idem_keys db)\<rparr>))"

definition store_idempotency ::
    "(jobj \<Rightarrow> string) \<Rightarrow> int \<Rightarrow> mem_db \<Rightarrow> string \<Rightarrow> string \<Rightarrow> string \<Rightarrow> string \<Rightarrow> jobj \<Rightarrow> mem_db res" where
  "store_idempotency hash now db key project operation resource data =
     bindE (insert_row (\<lambda>r. (ik_key r, ik_project r))
        \<lparr>ik_key = key, ik_project = project, ik_operation = operation, ik_resource = Some resource,
         ik_hash = hash data, ik_created = now\<rparr> (idem_keys db))
     (\<lambda>rows. Inr (db\<lparr>idem_keys := rows\<rparr>))"

definition cleanup_expired_keys :: "int \<Rightarrow> mem_db \<Rightarrow> int \<times> mem_db" where
  "cleanup_expired_keys now db =
     (let old = (\<lambda>r. ik_created r < now - hours IDEMPOTENCY_TTL_HOURS) in
      (int (length (filter old (idem_keys db))), db\<lparr>idem_keys := del_rows old (idem_keys db)\<rparr>))"

section \<open>Facts\<close>

lemma idem_lookup_Some:
  "idem_lookup k p op rows = Some r \<Longrightarrow> r \<in> set rows \<and> ik_key r = k \<and> ik_project r = p \<and> ik_operation r = op"
  by (auto simp: idem_lookup_def find_Some_iff)

lemma idem_lookup_append:
  "idem_lookup k p op (xs @ ys) =
     (case idem_lookup k p op xs of None \<Rightarrow> idem_lookup k p op ys | Some r \<Rightarrow> Some r)"
  by (induction xs) (auto simp: idem_lookup_def)

lemma idem_lookup_single:
  "idem_lookup k p op [r] =
     (if ik_key r = k \<and> ik_project r = p \<and> ik_operation r = op then Some r else None)"
  by (simp add: idem_lookup_def)

lemma idem_lookup_None_key:
  "(k, p) \<notin> (\<lambda>r. (ik_key r, ik_project r)) ` set rows \<Longrightarrow> idem_lookup k p op rows = None"
  by (auto simp: idem_lookup_def find_None_iff)

lemma check_idempotency_frame:
  assumes "check_idempotency now db key project op = (r, db')"
  shows "\<exists>rows. db' = db\<lparr>idem_keys := rows\<rparr> \<and> set rows \<subseteq> set (idem_keys db)
    \<and> (distinct (map (\<lambda>k. (ik_key k, ik_project k)) (idem_keys db)) \<longrightarrow>
        distinct (map (\<lambda>k. (ik_key k, ik_project k)) rows))"
proof (cases "idem_keys db' = idem_keys db")
  case True
  then have "db' = db\<lparr>idem_keys := idem_keys db\<rparr>"
    using assms by (auto simp: check_idempotency_def split: option.splits if_splits)
  then show ?thesis by blast
next
  case False
  then have "db' = db\<lparr>idem_keys := del_rows (\<lambda>r. ik_key r = key \<and> ik_project r = project) (idem_keys db)\<rparr>"
    using assms by (auto simp: check_idempotency_def split: option.splits if_splits)
  then show ?thesis by (auto simp: distinct_map_del_rows)
qed

lemma store_idempotency_Inr:
  "store_idempotency h now db k p op r d = Inr db' \<longleftrightarrow>
     (k, p) \<notin> (\<lambda>r. (ik_key r, ik_project r)) ` set (idem_keys db)
     \<and> db' = db\<lparr>idem_keys := idem_keys db @
        [\<lparr>ik_key = k, ik_project = p, ik_operation = op, ik_resource = Some r, ik_hash = h d, ik_created = now\<rparr>]\<rparr>"
  by (auto simp: store_idempotency_def bindE_Inr_iff insert_row_Inr_iff)

text \<open>After a store, the same request finds the resource for 24 hours and not later.\<close>

lemma check_after_store:
  assumes "store_idempotency h t0 db k p op r d = Inr db'"
  shows "check_idempotency now db' k p op =
    (if now \<le> t0 + hours IDEMPOTENCY_TTL_HOURS then (Some r, db') else (None, db))"
proof -
  from assms have new: "(k, p) \<notin> (\<lambda>r. (ik_key r, ik_project r)) ` set (idem_keys db)"
    by (simp add: store_idempotency_Inr)
  then have "filter (\<lambda>r. ik_key r = k \<longrightarrow> ik_project r \<noteq> p) (idem_keys db) = idem_keys db"
    by (intro filter_True) auto
  with new assms show ?thesis
    by (simp add: store_idempotency_Inr check_idempotency_def idem_lookup_append idem_lookup_None_key
        idem_lookup_single del_rows_def)
qed

end
