(* ===== verification/MemApi.thy ===== *)
theory MemApi
  imports MemConfidence LegalHold Idempotency
begin

text \<open>
  The agent-memory endpoints, \<open>app/memory/api.py\<close>. A handler takes the request and the database
  and returns its response with the database it commits, or the HTTP error (nothing is committed
  then). A column with \<open>onupdate=func.now()\<close> changes exactly when the flushed row differs from
  the stored one: \<open>touched\<close>.
\<close>

section \<open>Episodes\<close>

definition touched :: "int \<Rightarrow> episode \<Rightarrow> episode \<Rightarrow> episode" where
  "touched now old e = (if e = old then e else e\<lparr>ep_updated := now\<rparr>)"

definition new_episode :: "req \<Rightarrow> episode_input \<Rightarrow> jobj option \<Rightarrow> episode" where
  "new_episode rq body content =
     \<lparr>ep_id = memory_id (rq_ids rq 0), ep_project = rq_project rq, ep_domain = pi_domain body,
      ep_type = pi_type body, ep_title = pi_title body, ep_goal = pi_goal body,
      ep_signature = pi_signature body, ep_scope = pi_scope body, ep_tags = pi_tags body,
      ep_metadata = sanitize_input (pi_metadata body), ep_content = content,
      ep_confidence = pi_confidence body, ep_version = 1, ep_root = None, ep_status = SOpen,
      ep_feedback = 0, ep_superseded_by = None, ep_created = rq_now rq, ep_updated = rq_now rq\<rparr>"

definition new_evidence :: "req \<Rightarrow> string \<Rightarrow> nat \<times> evidence_input \<Rightarrow> evidence" where
  "new_evidence rq k ie = (case ie of (i, e) \<Rightarrow>
     \<lparr>ev_id = memory_id (rq_ids rq (Suc i)), ev_episode = k, ev_reference = ei_reference e,
      ev_metadata = sanitize_input (ei_metadata e)\<rparr>)"

definition checked_content :: "episode_input \<Rightarrow> jobj option res" where
  "checked_content body =
     (if truthy_opt (pi_content body) then
        bindE (validate_typed_content (pi_type body) (the (pi_content body))) (\<lambda>_.
          Inr (Some (sanitize_input (the (pi_content body)))))
      else Inr (pi_content body))"

definition replayed_episode :: "req \<Rightarrow> mem_db \<Rightarrow> episode_input \<Rightarrow> episode option \<times> mem_db" where
  \<comment> \<open>the first block of \<open>create_episode\<close>\<close>
  "replayed_episode rq db body =
     (if truthy_opt (pi_idempotency body) then
        (case check_idempotency (rq_now rq) db (the (pi_idempotency body)) (rq_project rq) ''episode.create'' of
           (found, db1) \<Rightarrow>
             if truthy_opt found then (get_row ep_id (the found) (episodes db1), db1) else (None, db1))
      else (None, db))"

definition create_episode ::
    "(jobj \<Rightarrow> string) \<Rightarrow> req \<Rightarrow> mem_db \<Rightarrow> episode_input \<Rightarrow> (episode_view \<times> mem_db) res" where
  "create_episode hash rq db body =
     (case replayed_episode rq db body of
        (Some existing, _) \<Rightarrow> Inr (episode_view_of existing [], db)
      | (None, db1) \<Rightarrow>
          bindE (checked_content body) (\<lambda>content.
          let item = new_episode rq body content in
          bindE (insert_row ep_id item (episodes db1)) (\<lambda>eps.
          bindE (insert_rows ev_id (map (new_evidence rq (ep_id item)) (enumerate 0 (pi_evidence body)))
                   (evidences db1)) (\<lambda>evs.
          let db2 = db1\<lparr>episodes := eps, evidences := evs\<rparr> in
          bindE (if truthy_opt (pi_idempotency body)
                 then store_idempotency hash (rq_now rq) db2 (the (pi_idempotency body)) (rq_project rq)
                        ''episode.create'' (ep_id item)
                        [(''id'', JStr (ep_id item)), (''type'', JStr (ep_type item))]
                 else Inr db2) (\<lambda>db3.
          Inr (episode_view_of item [], db3))))))"

definition list_episodes :: "req \<Rightarrow> mem_db \<Rightarrow> ep_status option \<Rightarrow> nat \<Rightarrow> episode_view list" where
  "list_episodes rq db status n =
     map (\<lambda>row. episode_view_of row [])
       (limit n (order_by (\<lambda>e. - ep_created e)
          (filter (\<lambda>e. ep_project e = rq_project rq \<and> (status \<noteq> None \<longrightarrow> Some (ep_status e) = status))
             (episodes db))))"

definition attempts_of :: "mem_db \<Rightarrow> string \<Rightarrow> attempt list" where
  "attempts_of db k = order_by at_sequence (filter (\<lambda>a. at_episode a = k) (attempts db))"

definition get_episode :: "req \<Rightarrow> mem_db \<Rightarrow> string \<Rightarrow> episode_view res" where
  "get_episode rq db episode_id =
     bindE (owned_episode db (rq_project rq) episode_id) (\<lambda>item.
       Inr (episode_view_of item (attempts_of db (ep_id item))))"

section \<open>Attempts\<close>

definition next_sequence :: "mem_db \<Rightarrow> string \<Rightarrow> int" where
  "next_sequence db k =
     (let seqs = map at_sequence (filter (\<lambda>a. at_episode a = k) (attempts db));
          v = (if seqs = [] then 0 else Max (set seqs)) + 1
      in if v = 0 then 1 else v)"

definition append_attempt ::
    "req \<Rightarrow> mem_db \<Rightarrow> string \<Rightarrow> attempt_input \<Rightarrow> (attempt_view \<times> mem_db) res" where
  "append_attempt rq db episode_id body =
     bindE (owned_episode db (rq_project rq) episode_id) (\<lambda>item.
     bindE (guardE (ep_status item \<in> {SOpen, SActive, SDegraded})
       (HTTPException 409 ''attempts require an open, active, or degraded episode'')) (\<lambda>_.
     let sequence = next_sequence db (ep_id item);
         item' = touched (rq_now rq) item
           (item\<lparr>ep_status := (if ai_result body = RSuccess then SActive
                              else if ai_result body = RFailed then SDegraded else SActive)\<rparr>);
         att = \<lparr>at_id = memory_id (rq_ids rq 0), at_episode = ep_id item, at_sequence = sequence,
                at_hypothesis = ai_hypothesis body, at_actions = ai_actions body,
                at_result = ai_result body, at_notes = ai_notes body, at_metadata = ai_metadata body,
                at_created = rq_now rq\<rparr>
     in bindE (insert_row at_id att (attempts db)) (\<lambda>rows.
        Inr (\<lparr>av_id = at_id att, av_sequence = sequence, av_body = body\<rparr>,
             save_episode item' (db\<lparr>attempts := rows\<rparr>)))))"

section \<open>Outcomes\<close>

definition empty_pattern :: "req \<Rightarrow> string \<Rightarrow> pattern" where
  "empty_pattern rq key =
     \<lparr>pt_id = memory_id (rq_ids rq 0), pt_project = rq_project rq, pt_key = key, pt_verified = 0,
      pt_successes = 0, pt_total = 0, pt_confidence = 1 / 2, pt_promoted = False,
      pt_superseded_by = None\<rparr>"

definition credit :: "outcome_status \<Rightarrow> rat" where
  "credit st = (if st = OSuccess then 1 else if st = OPartial then 1 / 2 else 0)"

definition scored_pattern :: "pattern \<Rightarrow> outcome_input \<Rightarrow> pattern" where
  "scored_pattern p body =
     (let quality = verifier_weight (oi_verifiers body);
          tot = fadd (pt_total p) quality;
          suc = fadd (pt_successes p) (fmul quality (credit (oi_status body)));
          ver = pt_verified p + (if quality > 0 then 1 else 0);
          conf = bayesian_confidence suc tot
      in p\<lparr>pt_total := tot, pt_successes := suc, pt_verified := ver, pt_confidence := conf,
           pt_promoted := is_promoted ver conf\<rparr>)"

definition new_verifier :: "req \<Rightarrow> string \<Rightarrow> nat \<times> verifier_input \<Rightarrow> verifier" where
  "new_verifier rq k iv = (case iv of (i, v) \<Rightarrow>
     \<lparr>vr_id = memory_id (rq_ids rq i), vr_outcome = k, vr_kind = vi_kind v, vr_name = vi_name v,
      vr_status = vi_status v, vr_command = vi_command v, vr_artifact = vi_artifact v,
      vr_metrics = vi_metrics v\<rparr>)"

text \<open>The pattern the outcome counts towards, the table with it, and the number of identifiers
  drawn so far.\<close>

definition outcome_pattern :: "req \<Rightarrow> mem_db \<Rightarrow> string \<Rightarrow> (pattern \<times> pattern list \<times> nat) res" where
  "outcome_pattern rq db key =
     (case project_pattern db (rq_project rq) key of
        Some p \<Rightarrow> Inr (p, patterns db, 0)
      | None \<Rightarrow> bindE (insert_row pt_id (empty_pattern rq key) (patterns db)) (\<lambda>rows.
          Inr (empty_pattern rq key, rows, 1)))"

definition record_outcome ::
    "req \<Rightarrow> mem_db \<Rightarrow> string \<Rightarrow> outcome_input \<Rightarrow> (outcome_view \<times> mem_db) res" where
  "record_outcome rq db episode_id body =
     bindE (owned_episode db (rq_project rq) episode_id) (\<lambda>e.
     bindE (guardE (ep_status e \<notin> {SSuperseded, SRejected})
       (HTTPException 409 ''cannot finalize a superseded or rejected episode'')) (\<lambda>_.
     bindE (guardE (\<not> list_ex (\<lambda>o'. out_episode o' = ep_id e) (outcomes db))
       (HTTPException 409 ''episode already has a finalized outcome'')) (\<lambda>_.
     let key = (if truthy_opt (oi_pattern_key body) then the (oi_pattern_key body)
                else normalize_pattern_key (ep_signature e)) in
     bindE (outcome_pattern rq db key) (\<lambda>(p, pats, n).
     let p' = scored_pattern p body;
         out = \<lparr>out_id = memory_id (rq_ids rq n), out_episode = ep_id e, out_status = oi_status body,
                out_summary = oi_summary body, out_lesson = oi_lesson body, out_metrics = oi_metrics body,
                out_pattern_key = key, out_metadata = oi_metadata body, out_created = rq_now rq\<rparr> in
     bindE (insert_row out_id out (outcomes db)) (\<lambda>outs.
     bindE (insert_rows vr_id (map (new_verifier rq (out_id out)) (enumerate (Suc n) (oi_verifiers body)))
              (verifiers db)) (\<lambda>vers.
     Inr (\<lparr>ov_id = out_id out, ov_status = oi_status body, ov_pattern = pattern_view_of p'\<rparr>,
          db\<lparr>patterns := upd_row pt_id (pt_id p) (\<lambda>_. p') pats, outcomes := outs, verifiers := vers,
             members := members db @ [\<lparr>mb_pattern = pt_id p, mb_outcome = out_id out\<rparr>]\<rparr>)))))))"

section \<open>Feedback and superseding\<close>

definition feedback :: "req \<Rightarrow> mem_db \<Rightarrow> string \<Rightarrow> int \<Rightarrow> (episode_view \<times> mem_db) res" where
  "feedback rq db episode_id score =
     bindE (owned_episode db (rq_project rq) episode_id) (\<lambda>item.
     let item' = touched (rq_now rq) item (item\<lparr>ep_feedback := ep_feedback item + score\<rparr>)
     in Inr (episode_view_of item' [], save_episode item' db))"

definition project_links :: "mem_db \<Rightarrow> string \<Rightarrow> string links" where
  "project_links db project =
     map (\<lambda>e. (ep_id e, link (ep_superseded_by e))) (filter (\<lambda>e. ep_project e = project) (episodes db))"

definition supersede_episode :: "req \<Rightarrow> mem_db \<Rightarrow> string \<Rightarrow> string \<Rightarrow> (episode_view \<times> mem_db) res" where
  "supersede_episode rq db episode_id superseding_id =
     bindE (owned_episode db (rq_project rq) episode_id) (\<lambda>item.
     bindE (owned_episode db (rq_project rq) superseding_id) (\<lambda>replacement.
     bindE (guardE (ep_id item \<noteq> superseding_id)
       (HTTPException 422 ''an episode cannot supersede itself'')) (\<lambda>_.
     bindE (guardE (\<not> (ep_status item = SSuperseded \<or> ep_status replacement = SSuperseded))
       (HTTPException 409 ''superseded episodes cannot be superseded or reactivated'')) (\<lambda>_.
     case chain_walk (project_links db (rq_project rq)) [ep_id item] (ep_id replacement) of
       Revisits \<Rightarrow> Inl (HTTPException 409 ''episode supersession would create a cycle'')
     | Dangles \<Rightarrow> Inl (HTTPException 404 ''agent memory episode not found'')
     | Ended \<Rightarrow>
         let item' = touched (rq_now rq) item
               (item\<lparr>ep_status := SSuperseded, ep_superseded_by := Some superseding_id\<rparr>)
         in Inr (episode_view_of item' [], save_episode item' db)))))"

definition feedback_pattern :: "req \<Rightarrow> mem_db \<Rightarrow> string \<Rightarrow> int \<Rightarrow> (pattern_view \<times> mem_db) res" where
  "feedback_pattern rq db key score =
     (case project_pattern db (rq_project rq) key of
        None \<Rightarrow> Inl (HTTPException 404 ''agent memory pattern not found'')
      | Some p \<Rightarrow>
          let suc = max 0 (fadd (pt_successes p) (fmul (of_int score) f0_1));
              conf = bayesian_confidence suc (pt_total p);
              p' = p\<lparr>pt_successes := suc, pt_confidence := conf,
                     pt_promoted := is_promoted (pt_verified p) conf\<rparr>
          in Inr (pattern_view_of p', db\<lparr>patterns := upd_row pt_id (pt_id p) (\<lambda>_. p') (patterns db)\<rparr>))"

definition pattern_links :: "mem_db \<Rightarrow> string \<Rightarrow> string links" where
  "pattern_links db project =
     map (\<lambda>p. (pt_key p, link (pt_superseded_by p))) (filter (\<lambda>p. pt_project p = project) (patterns db))"

definition supersede_pattern :: "req \<Rightarrow> mem_db \<Rightarrow> string \<Rightarrow> string \<Rightarrow> (pattern_view \<times> mem_db) res" where
  "supersede_pattern rq db key superseding_key =
     bindE (guardE (key \<noteq> superseding_key) (HTTPException 422 ''a pattern cannot supersede itself'')) (\<lambda>_.
     case (project_pattern db (rq_project rq) key, project_pattern db (rq_project rq) superseding_key) of
       (Some p, Some replacement) \<Rightarrow>
         bindE (guardE (\<not> (truthy_opt (pt_superseded_by p) \<or> truthy_opt (pt_superseded_by replacement)))
           (HTTPException 409 ''superseded patterns cannot be superseded or re-promoted'')) (\<lambda>_.
         case chain_walk (pattern_links db (rq_project rq)) [pt_key p] (pt_key replacement) of
           Revisits \<Rightarrow> Inl (HTTPException 409 ''pattern supersession would create a cycle'')
         | Dangles \<Rightarrow> Inl (HTTPException 409 ''pattern supersession chain is invalid'')
         | Ended \<Rightarrow>
             let p' = p\<lparr>pt_promoted := False, pt_superseded_by := Some (pt_key replacement)\<rparr>
             in Inr (pattern_view_of replacement,
                     db\<lparr>patterns := upd_row pt_id (pt_id p) (\<lambda>_. p') (patterns db)\<rparr>))
     | _ \<Rightarrow> Inl (HTTPException 404 ''agent memory pattern not found''))"

section \<open>Deletion, confidence, history\<close>

definition hard_delete_episode :: "req \<Rightarrow> mem_db \<Rightarrow> string \<Rightarrow> string \<Rightarrow> mem_db res" where
  "hard_delete_episode rq db episode_id mode =
     bindE (guardE (mode \<in> {''archive'', ''invalidate'', ''hard''})
       (HTTPException 400 ''mode must be archive, invalidate, or hard'')) (\<lambda>_.
     bindE (owned_episode db (rq_project rq) episode_id) (\<lambda>e.
     if mode = ''archive'' then
       Inr (save_episode (e\<lparr>ep_status := SArchived, ep_updated := rq_now rq\<rparr>) db)
     else if mode = ''invalidate'' then
       Inr (save_episode (e\<lparr>ep_status := SRejected, ep_updated := rq_now rq\<rparr>) db)
     else
       (case check_legal_hold db (rq_project rq) [episode_id] None of
          Inl _ \<Rightarrow> Inl (HTTPException 423 ''episode is under legal hold'')
        | Inr _ \<Rightarrow> Inr (delete_episode_row (ep_id e) db))))"

definition confidence_change ::
    "req \<Rightarrow> mem_db \<Rightarrow> episode \<Rightarrow> confidence_input \<Rightarrow> (episode \<times> mem_db) res" where
  "confidence_change rq db e body =
     (if ci_kind body = FMerge then
        bindE (guardE (truthy_opt (ci_target body)) (HTTPException 400 ''merge requires target_id'')) (\<lambda>_.
          merge_memories (rq_now rq) db e (the (ci_target body)) (ci_content body) (ci_confidence body))
      else if ci_kind body = FCorrect then
        apply_confidence_feedback (rq_now rq) db e (ci_kind body) (ci_content body) (ci_confidence body)
      else if ci_kind body = FSupersede then
        bindE (guardE (truthy_opt (ci_target body)) (HTTPException 400 ''supersede requires target_id'')) (\<lambda>_.
          supersede_memory (rq_now rq) db e (the (ci_target body)))
      else apply_confidence_feedback (rq_now rq) db e (ci_kind body) (ci_content body) None)"

definition apply_confidence ::
    "req \<Rightarrow> mem_db \<Rightarrow> string \<Rightarrow> confidence_input \<Rightarrow> (episode_view \<times> mem_db) res" where
  "apply_confidence rq db episode_id body =
     bindE (owned_episode db (rq_project rq) episode_id) (\<lambda>e.
     bindE (confidence_change rq db e body) (\<lambda>(e', db').
     Inr (episode_view_of e' (attempts_of db' (ep_id e')), db')))"

definition get_version_history_endpoint :: "req \<Rightarrow> mem_db \<Rightarrow> string \<Rightarrow> version list res" where
  "get_version_history_endpoint rq db episode_id =
     bindE (owned_episode db (rq_project rq) episode_id) (\<lambda>_. Inr (get_version_history db episode_id))"

end
