(* ===== verification/Retention.thy ===== *)
theory Retention
  imports MemConfidence LegalHold
begin

text \<open>
  Retention policies, \<open>app/retention.py\<close>: a preview of what a policy would touch and its
  application to the episodes of a project, which skips what a legal hold protects.
\<close>

section \<open>Handlers\<close>

record retention_input =
  ri_type :: string
  ri_days :: int
  ri_action :: string

definition valid_retention_input :: "retention_input \<Rightarrow> bool" where
  "valid_retention_input b \<longleftrightarrow> ri_type b \<in> {''episode'', ''memory''} \<and> 0 < ri_days b \<and> ri_days b \<le> 3650
     \<and> ri_action b \<in> {''archive'', ''delete''}"

definition days :: "int \<Rightarrow> int" where "days d = d * 86400 * 1000000"

definition aged :: "req \<Rightarrow> retention_input \<Rightarrow> episode \<Rightarrow> bool" where
  "aged rq body e \<longleftrightarrow> ep_project e = rq_project rq \<and> ep_created e < rq_now rq - days (ri_days body)"

record preview_item =
  pr_resource :: string
  pr_type :: string
  pr_created :: int
  pr_status :: ep_status

definition preview_retention :: "req \<Rightarrow> mem_db \<Rightarrow> retention_input \<Rightarrow> nat \<times> preview_item list" where
  "preview_retention rq db body =
     (let query = filter (\<lambda>e. aged rq body e
             \<and> (if ri_action body = ''archive'' then ep_status e \<in> {SActive, SOpen}
                else if ri_action body = ''delete'' then ep_status e \<in> {SArchived, SSuperseded, SRejected}
                else True)) (episodes db);
          items = limit 100 query
      in (length items, map (\<lambda>e. \<lparr>pr_resource = ep_id e, pr_type = ''episode'',
                                   pr_created = ep_created e, pr_status = ep_status e\<rparr>) items))"

definition retention_targets :: "req \<Rightarrow> mem_db \<Rightarrow> retention_input \<Rightarrow> episode list" where
  "retention_targets rq db body =
     filter (\<lambda>e. aged rq body e
        \<and> (if ri_action body = ''archive'' then ep_status e \<in> {SActive, SOpen}
           else ep_status e \<in> {SArchived, SSuperseded, SRejected})) (episodes db)"

definition held_ids :: "req \<Rightarrow> mem_db \<Rightarrow> string list" where
  "held_ids rq db = map lh_resource (filter (\<lambda>h. lh_project h = rq_project rq
     \<and> lh_type h \<in> {''episode'', ''memory''}) (holds db))"

lemma project_held_policies [simp]: "project_held (db\<lparr>policies := rows\<rparr>) p = project_held db p"
  by (simp add: project_held_def)

lemma held_ids_iff:
  "k \<in> set (held_ids rq db) \<longleftrightarrow> resource_held db (rq_project rq) [''episode'', ''memory''] k"
  by (force simp: held_ids_def resource_held_def)

lemma resource_held_policies [simp]:
  "resource_held (db\<lparr>policies := rows\<rparr>) p ts k = resource_held db p ts k"
  by (simp add: resource_held_def)

text \<open>The body of the loop: the count and the database.\<close>

definition retain_one :: "req \<Rightarrow> retention_input \<Rightarrow> string list \<Rightarrow> episode \<Rightarrow> nat \<times> mem_db \<Rightarrow> nat \<times> mem_db" where
  "retain_one rq body held item acc = (case acc of (affected, db) \<Rightarrow>
     if ep_id item \<in> set held then (affected, db)
     else if ri_action body = ''archive'' then
       (affected + 1, db\<lparr>episodes := upd_row ep_id (ep_id item)
            (\<lambda>e. e\<lparr>ep_status := SArchived, ep_updated := rq_now rq\<rparr>) (episodes db)\<rparr>)
     else (affected + 1, delete_episode_row (ep_id item) db))"

definition completed_policy :: "req \<Rightarrow> retention_input \<Rightarrow> policy" where
  "completed_policy rq body =
     \<lparr>rp_id = policy_id (rq_ids rq 0), rp_project = rq_project rq, rp_type = ri_type body,
      rp_days = ri_days body, rp_action = ri_action body, rp_status = ''completed'',
      rp_created_by = ''api_key'', rp_created = rq_now rq, rp_updated = rq_now rq\<rparr>"

definition apply_retention ::
    "req \<Rightarrow> mem_db \<Rightarrow> retention_input \<Rightarrow> (string \<times> nat \<times> string \<times> mem_db) res" where
  "apply_retention rq db body =
     (let policy = completed_policy rq body in
      bindE (insert_row rp_id policy (policies db)) (\<lambda>rows.
      let db1 = db\<lparr>policies := rows\<rparr> in
      if list_ex (\<lambda>h. lh_project h = rq_project rq \<and> lh_type h = ''project'') (holds db1) then
        Inr (rp_id policy, 0, ri_action body, db1)
      else
        (case fold (retain_one rq body (held_ids rq db1)) (retention_targets rq db1 body) (0, db1) of
           (affected, db2) \<Rightarrow> Inr (rp_id policy, affected, ri_action body, db2))))"

definition list_retention_policies :: "req \<Rightarrow> mem_db \<Rightarrow> string option \<Rightarrow> policy list" where
  "list_retention_policies rq db status =
     order_by (\<lambda>p. - rp_created p) (filter (\<lambda>p. rp_project p = rq_project rq
        \<and> (truthy_opt status \<longrightarrow> Some (rp_status p) = status)) (policies db))"

section \<open>What a step leaves alone\<close>

text \<open>Nothing about an episode changes but, possibly, its links to a row that was deleted.\<close>

definition no_links :: "episode \<Rightarrow> episode" where
  "no_links e = e\<lparr>ep_superseded_by := None, ep_root := None\<rparr>"

definition same_but_links :: "episode \<Rightarrow> episode \<Rightarrow> bool" where
  "same_but_links e e' \<longleftrightarrow> no_links e' = no_links e
     \<and> (ep_superseded_by e' = None \<or> ep_superseded_by e' = ep_superseded_by e)
     \<and> (ep_root e' = None \<or> ep_root e' = ep_root e)"

lemma same_but_links_refl [simp]: "same_but_links e e"
  by (simp add: same_but_links_def)

lemma same_but_links_trans: "same_but_links a b \<Longrightarrow> same_but_links b c \<Longrightarrow> same_but_links a c"
  by (auto simp: same_but_links_def)

lemma ep_id_no_links [simp]: "ep_id (no_links e) = ep_id e"
  by (simp add: no_links_def)

lemma same_but_links_id: "same_but_links a b \<Longrightarrow> ep_id b = ep_id a"
  unfolding same_but_links_def using ep_id_no_links by metis

definition kept :: "mem_db \<Rightarrow> mem_db \<Rightarrow> episode \<Rightarrow> bool" where
  "kept db db' e \<longleftrightarrow> (\<exists>e'\<in>set (episodes db'). same_but_links e e')"

lemma kept_delete:
  assumes "ep_id e \<noteq> k" "e \<in> set (episodes db)"
  shows "kept db (delete_episode_row k db) e"
proof -
  let ?e = "e\<lparr>ep_superseded_by := null_link k (ep_superseded_by e), ep_root := null_link k (ep_root e)\<rparr>"
  have "same_but_links e ?e"
    by (simp add: same_but_links_def no_links_def null_link_def)
  moreover have "?e \<in> set (episodes (delete_episode_row k db))"
    using assms by (auto simp: delete_episode_row_def Let_def)
  ultimately show ?thesis by (auto simp: kept_def)
qed

lemma retain_one_keeps:
  assumes "e \<in> set (episodes db)" "ep_id e \<noteq> ep_id item \<or> ep_id e \<in> set held"
    and "retain_one rq body held item (n, db) = (n', db')"
  shows "kept db db' e"
proof (cases "ep_id item \<in> set held")
  case True
  then show ?thesis using assms by (auto simp: retain_one_def kept_def intro: same_but_links_refl)
next
  case False
  with assms(2) have "ep_id e \<noteq> ep_id item" by auto
  then show ?thesis
    using False assms(1,3) kept_delete [of e "ep_id item" db]
    by (auto simp: retain_one_def kept_def set_upd_row split: if_split_asm intro!: bexI [of _ e])
qed

lemma retain_all_keeps:
  assumes "e \<in> set (episodes db)" "\<And>item. item \<in> set items \<Longrightarrow> ep_id e \<noteq> ep_id item \<or> ep_id e \<in> set held"
    and "fold (retain_one rq body held) items (n, db) = (n', db')"
  shows "kept db db' e"
  using assms
proof (induction items arbitrary: n db e)
  case Nil
  then show ?case by (auto simp: kept_def intro: same_but_links_refl)
next
  case (Cons item items)
  obtain n1 db1 where step: "retain_one rq body held item (n, db) = (n1, db1)" by fastforce
  have "kept db db1 e" using Cons.prems(1,2) step by (intro retain_one_keeps) auto
  then obtain e1 where e1: "e1 \<in> set (episodes db1)" "same_but_links e e1" by (auto simp: kept_def)
  have "kept db1 db' e1"
    using Cons.prems step same_but_links_id [OF e1(2)] by (intro Cons.IH [OF e1(1)]) auto
  then show ?case using e1(2) same_but_links_trans by (auto simp: kept_def)
qed

section \<open>A concrete case\<close>

definition sample_req :: req where
  "sample_req = \<lparr>rq_project = ''p'', rq_now = days 100, rq_ids = (\<lambda>i. sample_draw\<lparr>draw_a := i\<rparr>)\<rparr>"

definition sample_episode :: "string \<Rightarrow> ep_status \<Rightarrow> episode" where
  "sample_episode k st =
     \<lparr>ep_id = k, ep_project = ''p'', ep_domain = ''custom'', ep_type = ''custom'', ep_title = ''t'', ep_goal = ''g'',
      ep_signature = ''s'', ep_scope = [], ep_tags = [], ep_metadata = [], ep_content = None,
      ep_confidence = 1 / 2, ep_version = 1, ep_root = None, ep_status = st, ep_feedback = 0,
      ep_superseded_by = None, ep_created = 0, ep_updated = 0\<rparr>"

definition sample_held_db :: mem_db where
  "sample_held_db = empty_db\<lparr>
     episodes := [sample_episode ''m1'' SArchived, sample_episode ''m2'' SArchived],
     holds := [\<lparr>lh_id = ''h'', lh_project = ''p'', lh_type = ''episode'', lh_resource = ''m1'',
                lh_reason = ''r'', lh_created_by = ''api_key'', lh_created = 0\<rparr>]\<rparr>"

definition sample_purge :: retention_input where
  "sample_purge = \<lparr>ri_type = ''episode'', ri_days = 1, ri_action = ''delete''\<rparr>"

section \<open>Properties\<close>

text \<open>C8. Applying a retention policy never deletes or archives an episode under an episode or
  memory hold, any episode of a project under a project hold, one of another project, or one that
  is not old enough: each is still there, unchanged but for links to deleted rows.\<close>

theorem retention_respects_holds:
  assumes "apply_retention rq db body = Inr (pid, n, act, db')"
    and "e \<in> set (episodes db)" "distinct (map ep_id (episodes db))"
    and "episode_held db (ep_project e) (ep_id e) \<or> ep_project e \<noteq> rq_project rq
      \<or> rq_now rq - days (ri_days body) \<le> ep_created e"
  shows "\<exists>e'\<in>set (episodes db'). same_but_links e e'"
proof -
  obtain rows where rows: "insert_row rp_id (completed_policy rq body) (policies db) = Inr rows"
    using assms(1) by (auto simp: apply_retention_def Let_def bindE_Inr_iff)
  let ?db = "db\<lparr>policies := rows\<rparr>"
  show ?thesis
  proof (cases "project_held db (rq_project rq)")
    case True
    then have "episodes db' = episodes db"
      using assms(1) rows by (auto simp: apply_retention_def Let_def project_held_code)
    with assms(2) show ?thesis by (auto intro: same_but_links_refl)
  next
    case False
    then have fold: "fold (retain_one rq body (held_ids rq ?db)) (retention_targets rq ?db body) (0, ?db) = (n, db')"
      using assms(1) rows
      by (auto simp: apply_retention_def Let_def project_held_code split: prod.splits)
    have "ep_id e \<noteq> ep_id item \<or> ep_id e \<in> set (held_ids rq ?db)"
      if "item \<in> set (retention_targets rq ?db body)" for item
    proof (rule disjCI)
      assume not_held: "ep_id e \<notin> set (held_ids rq ?db)"
      from that have "item \<in> set (episodes db)" "aged rq body item"
        by (auto simp: retention_targets_def)
      moreover have "\<not> aged rq body e"
        using assms(4) False not_held
        by (auto simp: aged_def episode_held_def held_ids_iff)
      ultimately show "ep_id e \<noteq> ep_id item"
        using assms(2,3) by (auto simp: distinct_map inj_on_def)
    qed
    then have "kept ?db db' e" using fold assms(2) by (intro retain_all_keeps) auto
    then show ?thesis by (simp add: kept_def)
  qed
qed

theorem retention_respects_holds_witness:
  "\<exists>e\<in>set (episodes (snd (snd (snd (projr (apply_retention sample_req sample_held_db sample_purge)))))).
     ep_id e = ''m1''"
proof -
  let ?r = "apply_retention sample_req sample_held_db sample_purge"
  have "\<exists>x. ?r = Inr x"
    by (simp add: apply_retention_def insert_row_def sample_held_db_def empty_db_def Let_def split: prod.split)
  then obtain pid n act db' where r: "?r = Inr (pid, n, act, db')" by (metis prod_cases4)
  have "\<exists>e'\<in>set (episodes db'). same_but_links (hd (episodes sample_held_db)) e'"
    by (rule retention_respects_holds [OF r])
       (simp_all add: sample_held_db_def sample_req_def sample_episode_def empty_db_def
         episode_held_def resource_held_def)
  moreover have "ep_id (hd (episodes sample_held_db)) = ''m1''"
    by (simp add: sample_held_db_def sample_episode_def)
  ultimately have "\<exists>e\<in>set (episodes db'). ep_id e = ''m1''"
    using same_but_links_id by fastforce
  then show ?thesis using r by simp
qed

end
