(* ===== verification/MemInvariant.thy ===== *)
theory MemInvariant
  imports MemApi Retention
begin

text \<open>
  The agent-memory service as a state machine: every endpoint as a constructor of \<open>mem_call\<close>, one
  step per request, the states reachable from the empty database, and the invariant they all
  satisfy.
\<close>

section \<open>The invariant\<close>

definition episode_ok :: "episode \<Rightarrow> bool" where
  "episode_ok e \<longleftrightarrow> ep_id e \<noteq> [] \<and> 0 \<le> ep_confidence e \<and> ep_confidence e \<le> 1 \<and> 1 \<le> ep_version e"

definition pattern_ok :: "pattern \<Rightarrow> bool" where
  "pattern_ok p \<longleftrightarrow> pt_key p \<noteq> [] \<and> 0 \<le> pt_confidence p \<and> pt_confidence p \<le> 1 \<and> 0 \<le> pt_verified p
     \<and> 0 \<le> pt_successes p \<and> 0 \<le> pt_total p
     \<and> (pt_promoted p \<longrightarrow> 3 \<le> pt_verified p \<and> f0_7 \<le> pt_confidence p)"

definition version_ok :: "mem_db \<Rightarrow> version \<Rightarrow> bool" where
  "version_ok db v \<longleftrightarrow> list_all (\<lambda>e. ep_id e = vs_episode v \<longrightarrow> vs_version v < ep_version e) (episodes db)"

definition values_ok :: "mem_db \<Rightarrow> bool" where
  "values_ok db \<longleftrightarrow> list_all episode_ok (episodes db) \<and> list_all (\<lambda>a. 1 \<le> at_sequence a) (attempts db)
     \<and> list_all pattern_ok (patterns db) \<and> list_all (version_ok db) (versions db)"

definition mem_ok :: "mem_db \<Rightarrow> bool" where
  "mem_ok db \<longleftrightarrow> keys_ok db \<and> refs_ok db \<and> values_ok db"

lemma mem_okI: "keys_ok db \<Longrightarrow> refs_ok db \<Longrightarrow> values_ok db \<Longrightarrow> mem_ok db"
  by (simp add: mem_ok_def)

lemma mem_ok_empty: "mem_ok empty_db"
  by (simp add: mem_ok_def keys_ok_def refs_ok_def values_ok_def empty_db_def Let_def)

lemma mem_ok_ids: "mem_ok db \<Longrightarrow> distinct (map ep_id (episodes db))"
  by (simp add: mem_ok_def keys_ok_def)

text \<open>Tables the invariant does not mention, or only by a key.\<close>

lemma mem_ok_frame [frame]:
  "mem_ok (db\<lparr>holds := hs\<rparr>) = mem_ok db"
  "mem_ok (db\<lparr>policies := ps\<rparr>) = mem_ok db"
  "mem_ok (db\<lparr>audit_logs := ls\<rparr>) = mem_ok db"
  "mem_ok (db\<lparr>retrieval_audits := ras\<rparr>) = mem_ok db"
  by (simp_all add: mem_ok_def keys_ok_def refs_ok_def values_ok_def version_ok_def [abs_def])

lemma mem_ok_idem:
  "mem_ok db \<Longrightarrow> distinct (map (\<lambda>k. (ik_key k, ik_project k)) rows) \<Longrightarrow> mem_ok (db\<lparr>idem_keys := rows\<rparr>)"
  by (simp add: mem_ok_def keys_ok_def refs_ok_def values_ok_def version_ok_def [abs_def])

lemma mem_ok_idem_keys: "mem_ok db \<Longrightarrow> distinct (map (\<lambda>k. (ik_key k, ik_project k)) (idem_keys db))"
  by (simp add: mem_ok_def keys_ok_def)

lemma mem_ok_check_idempotency:
  "mem_ok db \<Longrightarrow> check_idempotency now db k p op = (r, db') \<Longrightarrow> mem_ok db'"
  using check_idempotency_frame [of now db k p op r db'] mem_ok_idem_keys [of db] mem_ok_idem [of db] by auto

lemma mem_ok_store_idempotency:
  "mem_ok db \<Longrightarrow> store_idempotency h now db k p op r d = Inr db' \<Longrightarrow> mem_ok db'"
  using mem_ok_idem_keys [of db] by (auto simp: store_idempotency_Inr intro!: mem_ok_idem)

section \<open>Table operations and the invariant\<close>

lemma map_ep_id_save [simp]:
  "map ep_id (episodes (save_episode e db)) = map ep_id (episodes db)"
  by (auto simp: save_episode_def upd_row_def)

lemma save_episode_keys: "keys_ok db \<Longrightarrow> keys_ok (save_episode e db)"
  by (simp add: keys_ok_def) (simp add: save_episode_def)

lemma save_episode_refs:
  assumes "refs_ok db" "opt_ref (map ep_id (episodes db)) (ep_superseded_by e)"
    "opt_ref (map ep_id (episodes db)) (ep_root e)"
  shows "refs_ok (save_episode e db)"
proof -
  have 1: "attempts (save_episode e db) = attempts db" "outcomes (save_episode e db) = outcomes db"
    "patterns (save_episode e db) = patterns db" "verifiers (save_episode e db) = verifiers db"
    "members (save_episode e db) = members db" "evidences (save_episode e db) = evidences db"
    "versions (save_episode e db) = versions db"
    by (simp_all add: save_episode_def)
  have 2: "x \<in> set (episodes (save_episode e db)) \<Longrightarrow> x = e \<or> x \<in> set (episodes db)" for x
    by (auto simp: save_episode_def set_upd_row split: if_splits)
  show ?thesis
    using assms 2 unfolding refs_ok_def Let_def map_ep_id_save 1 list_all_iff by blast
qed

lemma save_episode_values:
  assumes "values_ok db" "old \<in> set (episodes db)" "ep_id old = ep_id e" "episode_ok e"
    "ep_version old \<le> ep_version e" "distinct (map ep_id (episodes db))"
  shows "values_ok (save_episode e db)"
proof -
  have 2: "x = e \<or> x \<in> set (episodes db)" if "x \<in> set (episodes (save_episode e db))" for x
    using that by (auto simp: save_episode_def set_upd_row split: if_splits)
  have "version_ok (save_episode e db) v" if "version_ok db v" for v
    using that assms(2,3,5) 2 unfolding version_ok_def list_all_iff by force
  then show ?thesis
    using assms(1,4) 2 unfolding values_ok_def list_all_iff by (auto simp: save_episode_def)
qed

lemma save_episode_ok:
  assumes "mem_ok db" "old \<in> set (episodes db)" "ep_id e = ep_id old" "episode_ok e"
    "ep_version old \<le> ep_version e"
    "opt_ref (map ep_id (episodes db)) (ep_superseded_by e)" "opt_ref (map ep_id (episodes db)) (ep_root e)"
  shows "mem_ok (save_episode e db)"
proof (rule mem_okI)
  have ok: "keys_ok db" "refs_ok db" "values_ok db" using assms(1) by (simp_all add: mem_ok_def)
  show "keys_ok (save_episode e db)" using ok(1) by (rule save_episode_keys)
  show "refs_ok (save_episode e db)" using ok(2) assms(6,7) by (rule save_episode_refs)
  show "values_ok (save_episode e db)"
    using save_episode_values [OF ok(3) assms(2)] assms(3,4,5) mem_ok_ids [OF assms(1)] by simp
qed

lemma mem_ok_episode:
  assumes "mem_ok db" "e \<in> set (episodes db)"
  shows "episode_ok e" "opt_ref (map ep_id (episodes db)) (ep_superseded_by e)"
    "opt_ref (map ep_id (episodes db)) (ep_root e)"
  using assms by (auto simp: mem_ok_def values_ok_def refs_ok_def Let_def list_all_iff)

text \<open>A change of an episode that keeps its links.\<close>

lemma save_same_links_ok:
  assumes "mem_ok db" "old \<in> set (episodes db)" "ep_id e = ep_id old" "episode_ok e"
    "ep_version old \<le> ep_version e" "ep_superseded_by e = ep_superseded_by old" "ep_root e = ep_root old"
  shows "mem_ok (save_episode e db)"
  using assms mem_ok_episode [OF assms(1,2)] by (intro save_episode_ok [of db old]) simp_all

lemma add_version_ok:
  assumes "mem_ok db" "v' = db\<lparr>versions := versions db @ [v]\<rparr>" "vs_id v \<notin> vs_id ` set (versions db)"
    "vs_episode v \<in> ep_id ` set (episodes db)" "version_ok db v"
  shows "mem_ok v'"
  using assms by (simp add: mem_ok_def keys_ok_def refs_ok_def values_ok_def version_ok_def [abs_def] Let_def)

lemma save_versioned_ok:
  assumes ok: "mem_ok db" and old: "old \<in> set (episodes db)"
    and add: "add_version (version_of old) db = Inr db1"
    and e: "ep_id e = ep_id old" "ep_version e = ep_version old + 1" "0 \<le> ep_confidence e" "ep_confidence e \<le> 1"
      "ep_superseded_by e = ep_superseded_by old" "ep_root e = ep_root old"
  shows "mem_ok (save_episode e db1)"
proof -
  have db1: "db1 = db\<lparr>versions := versions db @ [version_of old]\<rparr>"
    and fresh: "vs_id (version_of old) \<notin> vs_id ` set (versions db)"
    using add by (simp_all add: add_version_Inr)
  have eo: "episode_ok e" using mem_ok_episode(1) [OF ok old] e by (simp add: episode_ok_def)
  have s: "mem_ok (save_episode e db)" using ok old e eo by (intro save_same_links_ok) auto
  have swap: "save_episode e db1 = (save_episode e db)\<lparr>versions := versions (save_episode e db) @ [version_of old]\<rparr>"
    by (simp add: db1 save_episode_def)
  have only: "x = e" if "x \<in> set (episodes (save_episode e db))" "ep_id x = ep_id old" for x
    using that e(1) by (auto simp: save_episode_def set_upd_row split: if_splits)
  have "version_ok (save_episode e db) (version_of old)"
    using e(2) by (auto simp: version_ok_def list_all_iff version_of_def dest!: only)
  moreover have "vs_episode (version_of old) \<in> ep_id ` set (episodes (save_episode e db))"
  proof -
    have "ep_id ` set (episodes (save_episode e db)) = ep_id ` set (episodes db)"
      by (metis map_ep_id_save list.set_map)
    then show ?thesis using old by (simp add: version_of_def)
  qed
  ultimately show ?thesis
    unfolding swap using s fresh by (intro add_version_ok [OF s refl]) (simp_all add: save_episode_def)
qed

section \<open>Each handler keeps the invariant\<close>

lemma mem_ok_insert_episode:
  assumes ok: "mem_ok db" and e: "episode_ok item" "ep_superseded_by item = None" "ep_root item = None"
    and ins: "insert_row ep_id item (episodes db) = Inr eps"
    and evs: "\<forall>v\<in>set vs. ev_episode v = ep_id item"
  shows "mem_ok (db\<lparr>episodes := eps, evidences := evidences db @ vs\<rparr>)"
proof (rule mem_okI)
  have eps: "eps = episodes db @ [item]" and new: "ep_id item \<notin> ep_id ` set (episodes db)"
    using ins by (simp_all add: insert_row_Inr_iff)
  have ok': "keys_ok db" "refs_ok db" "values_ok db" using ok by (simp_all add: mem_ok_def)
  show "keys_ok (db\<lparr>episodes := eps, evidences := evidences db @ vs\<rparr>)"
    using ok'(1) new by (simp add: keys_ok_def eps)
  have opt: "opt_ref (map ep_id eps) x" if "opt_ref (map ep_id (episodes db)) x" for x
    using that by (auto simp: opt_ref_def eps split: option.splits)
  have none: "opt_ref ks None" for ks by (simp add: opt_ref_def)
  show "refs_ok (db\<lparr>episodes := eps, evidences := evidences db @ vs\<rparr>)"
    using ok'(2) opt none e(2,3) evs by (auto simp: refs_ok_def Let_def list_all_iff eps)
  have "version_ok (db\<lparr>episodes := eps, evidences := evidences db @ vs\<rparr>) v"
    if "v \<in> set (versions db)" for v
  proof -
    have "vs_episode v \<in> ep_id ` set (episodes db)" "version_ok db v"
      using that ok'(2,3) by (simp_all add: refs_ok_def values_ok_def Let_def list_all_iff)
    with new show ?thesis by (auto simp: version_ok_def eps)
  qed
  then show "values_ok (db\<lparr>episodes := eps, evidences := evidences db @ vs\<rparr>)"
    using ok'(3) e(1) by (simp add: values_ok_def list_all_iff eps)
qed

lemma create_episode_new:
  assumes "replayed_episode rq db body = (None, db1)" and "create_episode hash rq db body = Inr (w, db')"
  shows "\<exists>content eps evs.
      insert_row ep_id (new_episode rq body content) (episodes db1) = Inr eps
    \<and> insert_rows ev_id (map (new_evidence rq (ep_id (new_episode rq body content)))
               (enumerate 0 (pi_evidence body))) (evidences db1) = Inr evs
    \<and> (if truthy_opt (pi_idempotency body)
              then store_idempotency hash (rq_now rq) (db1\<lparr>episodes := eps, evidences := evs\<rparr>)
                     (the (pi_idempotency body)) (rq_project rq) ''episode.create'' (ep_id (new_episode rq body content))
                     [(''id'', JStr (ep_id (new_episode rq body content))),
                      (''type'', JStr (ep_type (new_episode rq body content)))]
              else Inr (db1\<lparr>episodes := eps, evidences := evs\<rparr>)) = Inr db'
    \<and> w = episode_view_of (new_episode rq body content) []"
proof -
  have "bindE (checked_content body) (\<lambda>content.
          let item = new_episode rq body content in
          bindE (insert_row ep_id item (episodes db1)) (\<lambda>eps.
          bindE (insert_rows ev_id (map (new_evidence rq (ep_id item)) (enumerate 0 (pi_evidence body)))
                   (evidences db1)) (\<lambda>evs.
          let db2 = db1\<lparr>episodes := eps, evidences := evs\<rparr> in
          bindE (if truthy_opt (pi_idempotency body)
                 then store_idempotency hash (rq_now rq) db2 (the (pi_idempotency body)) (rq_project rq)
                        ''episode.create'' (ep_id item)
                        [(''id'', JStr (ep_id item)), (''type'', JStr (ep_type item))]
                 else Inr db2) (\<lambda>db3.
          Inr (episode_view_of item [], db3))))) = Inr (w, db')"
    using assms by (simp add: create_episode_def)
  then show ?thesis unfolding bindE_Inr_iff Let_def by blast
qed

lemma create_episode_ok:
  assumes ok: "mem_ok db" and valid: "valid_episode_input body"
    and run: "create_episode hash rq db body = Inr (w, db')"
  shows "mem_ok db'"
proof (cases "replayed_episode rq db body")
  case (Pair found db1)
  have db1: "mem_ok db1"
  proof (cases "truthy_opt (pi_idempotency body)")
    case True
    obtain r db2 where c: "check_idempotency (rq_now rq) db (the (pi_idempotency body)) (rq_project rq)
        ''episode.create'' = (r, db2)" by fastforce
    then have "db1 = db2" using Pair True by (auto simp: replayed_episode_def split: if_splits)
    then show ?thesis using mem_ok_check_idempotency [OF ok c] by simp
  qed (use Pair ok in \<open>simp add: replayed_episode_def\<close>)
  show ?thesis
  proof (cases found)
    case (Some e)
    with run Pair ok show ?thesis by (simp add: create_episode_def)
  next
    case None
    then obtain content eps evs where
      eps: "insert_row ep_id (new_episode rq body content) (episodes db1) = Inr eps" and
      evs': "insert_rows ev_id (map (new_evidence rq (ep_id (new_episode rq body content)))
               (enumerate 0 (pi_evidence body))) (evidences db1) = Inr evs" and
      fin': "(if truthy_opt (pi_idempotency body)
              then store_idempotency hash (rq_now rq) (db1\<lparr>episodes := eps, evidences := evs\<rparr>)
                     (the (pi_idempotency body)) (rq_project rq) ''episode.create'' (ep_id (new_episode rq body content))
                     [(''id'', JStr (ep_id (new_episode rq body content))),
                      (''type'', JStr (ep_type (new_episode rq body content)))]
              else Inr (db1\<lparr>episodes := eps, evidences := evs\<rparr>)) = Inr db'"
      using create_episode_new Pair run by blast
    have evs: "evs = evidences db1 @ map (new_evidence rq (ep_id (new_episode rq body content)))
        (enumerate 0 (pi_evidence body))"
      using evs' by (simp add: insert_rows_Inr_iff)
    have "mem_ok (db1\<lparr>episodes := eps, evidences := evs\<rparr>)"
      unfolding evs using valid
      by (intro mem_ok_insert_episode [OF db1 _ _ _ eps])
         (auto simp: new_episode_def episode_ok_def memory_id_def valid_episode_input_def new_evidence_def split: prod.splits)
    then show ?thesis using fin' mem_ok_store_idempotency by (auto split: if_split_asm)
  qed
qed

lemma next_sequence_fresh:
  assumes "list_all (\<lambda>a. 1 \<le> at_sequence a) (attempts db)"
  shows "1 \<le> next_sequence db k \<and> (\<forall>a\<in>set (attempts db). at_episode a = k \<longrightarrow> at_sequence a < next_sequence db k)"
proof -
  let ?seqs = "map at_sequence (filter (\<lambda>a. at_episode a = k) (attempts db))"
  show ?thesis
  proof (cases "?seqs = []")
    case True
    then show ?thesis by (auto simp: next_sequence_def Let_def filter_empty_conv)
  next
    case False
    have "Max (set ?seqs) \<in> set ?seqs" using False by (intro Max_in) (simp_all only: finite_set set_empty not_False_eq_True)
    then have "1 \<le> Max (set ?seqs)" using assms by (auto simp: list_all_iff)
    then have eq: "next_sequence db k = Max (set ?seqs) + 1"
      using False unfolding next_sequence_def Let_def by (simp only: if_False) simp
    have "at_sequence a \<le> Max (set ?seqs)" if "a \<in> set (attempts db)" "at_episode a = k" for a
      using that by (intro Max_ge) auto
    with eq \<open>1 \<le> Max (set ?seqs)\<close> show ?thesis by fastforce
  qed
qed

lemma mem_ok_add_attempt:
  assumes "mem_ok db" "at_id a \<notin> at_id ` set (attempts db)" "at_episode a \<in> ep_id ` set (episodes db)"
    and "at_sequence a = next_sequence db (at_episode a)"
  shows "mem_ok (db\<lparr>attempts := attempts db @ [a]\<rparr>)"
proof -
  have "list_all (\<lambda>a. 1 \<le> at_sequence a) (attempts db)" using assms(1) by (simp add: mem_ok_def values_ok_def)
  then have n: "1 \<le> at_sequence a" "\<forall>b\<in>set (attempts db). at_episode b = at_episode a \<longrightarrow> at_sequence b < at_sequence a"
    using next_sequence_fresh [of db "at_episode a"] assms(4) by simp_all
  then have "(at_episode a, at_sequence a) \<notin> (\<lambda>a. (at_episode a, at_sequence a)) ` set (attempts db)" by force
  with n assms show ?thesis
    by (simp add: mem_ok_def keys_ok_def refs_ok_def values_ok_def version_ok_def [abs_def] Let_def)
qed

lemma touched_eqs [simp]:
  "ep_id (touched n old e) = ep_id e" "ep_confidence (touched n old e) = ep_confidence e"
  "ep_version (touched n old e) = ep_version e" "ep_superseded_by (touched n old e) = ep_superseded_by e"
  "ep_root (touched n old e) = ep_root e" "ep_status (touched n old e) = ep_status e"
  "ep_project (touched n old e) = ep_project e" "ep_feedback (touched n old e) = ep_feedback e"
  by (simp_all add: touched_def)

lemma append_attempt_ok:
  assumes ok: "mem_ok db" and run: "append_attempt rq db k body = Inr (v, db')"
  shows "mem_ok db'"
proof -
  obtain item where item: "item \<in> set (episodes db)" "ep_id item = k"
    using run by (auto simp: append_attempt_def bindE_Inr_iff dest: owned_episode_Inr)
  obtain rows a st where rows: "insert_row at_id a (attempts db) = Inr rows"
    and a: "at_episode a = k" "at_sequence a = next_sequence db k"
    and db': "db' = save_episode (touched (rq_now rq) item (item\<lparr>ep_status := st\<rparr>)) (db\<lparr>attempts := rows\<rparr>)"
  proof -
    obtain i' where i': "owned_episode db (rq_project rq) k = Inr i'"
      using run by (auto simp: append_attempt_def bindE_Inr_iff)
    then have "i' = item" using item mem_ok_ids [OF ok] owned_episode_iff by (metis get_row_Some_iff option.inject)
    with run i' item that show ?thesis
      by (fastforce simp: append_attempt_def bindE_Inr_iff Let_def)
  qed
  have "k \<in> ep_id ` set (episodes db)" using item by blast
  then have "mem_ok (db\<lparr>attempts := rows\<rparr>)"
    using rows a ok by (auto simp: insert_row_Inr_iff intro!: mem_ok_add_attempt)
  then show ?thesis
    unfolding db' using item mem_ok_episode(1) [OF ok item(1)]
    by (intro save_same_links_ok [where old = item]) (simp_all add: episode_ok_def)
qed

lemma feedback_ok:
  assumes ok: "mem_ok db" and run: "feedback rq db k score = Inr (v, db')"
  shows "mem_ok db'"
proof -
  obtain item where item: "item \<in> set (episodes db)"
    and db': "db' = save_episode (touched (rq_now rq) item (item\<lparr>ep_feedback := ep_feedback item + score\<rparr>)) db"
    using run by (auto simp: feedback_def bindE_Inr_iff Let_def dest: owned_episode_Inr)
  show ?thesis
    unfolding db' using item mem_ok_episode(1) [OF ok item(1)]
    by (intro save_same_links_ok [OF ok item]) (simp_all add: episode_ok_def)
qed

lemma opt_ref_id: "e \<in> set (episodes db) \<Longrightarrow> opt_ref (map ep_id (episodes db)) (Some (ep_id e))"
  by (simp add: opt_ref_def)

lemma supersede_episode_Inr:
  assumes "supersede_episode rq db k s = Inr (v, db')"
  shows "\<exists>item repl. item \<in> set (episodes db) \<and> ep_id item = k \<and> repl \<in> set (episodes db) \<and> ep_id repl = s
    \<and> ep_project item = rq_project rq \<and> ep_project repl = rq_project rq \<and> k \<noteq> s
    \<and> ep_status item \<noteq> SSuperseded \<and> ep_status repl \<noteq> SSuperseded
    \<and> chain_walk (project_links db (rq_project rq)) [k] s = Ended
    \<and> db' = save_episode (touched (rq_now rq) item (item\<lparr>ep_status := SSuperseded, ep_superseded_by := Some s\<rparr>)) db
    \<and> v = episode_view_of (touched (rq_now rq) item (item\<lparr>ep_status := SSuperseded, ep_superseded_by := Some s\<rparr>)) []"
proof -
  obtain item repl where i: "owned_episode db (rq_project rq) k = Inr item" "owned_episode db (rq_project rq) s = Inr repl"
    using assms by (auto simp: supersede_episode_def bindE_Inr_iff)
  note o = owned_episode_Inr [OF i(1)] owned_episode_Inr [OF i(2)]
  show ?thesis
    using assms o by (auto simp: supersede_episode_def i bindE_Inr_iff Let_def split: walk.splits)
qed

lemma supersede_episode_ok:
  assumes ok: "mem_ok db" and run: "supersede_episode rq db k s = Inr (v, db')"
  shows "mem_ok db'"
proof -
  from supersede_episode_Inr [OF run] obtain item repl where
    item: "item \<in> set (episodes db)" and repl: "repl \<in> set (episodes db)" "ep_id repl = s" and
    db': "db' = save_episode (touched (rq_now rq) item (item\<lparr>ep_status := SSuperseded, ep_superseded_by := Some s\<rparr>)) db"
    by blast
  show ?thesis
    unfolding db' using item mem_ok_episode [OF ok item] opt_ref_id [OF repl(1)] repl(2)
    by (intro save_episode_ok [OF ok item]) (simp_all add: episode_ok_def)
qed

section \<open>Patterns and outcomes\<close>

lemma set_upd_pattern: "x \<in> set (upd_row pt_id k (\<lambda>_. p) rows) \<Longrightarrow> x = p \<or> x \<in> set rows"
  by (auto simp: set_upd_row split: if_splits)

lemma map_pattern_upd:
  assumes "p0 \<in> set rows" "pt_id p = pt_id p0" "g p = g p0" "distinct (map pt_id rows)"
  shows "map g (upd_row pt_id (pt_id p0) (\<lambda>_. p) rows) = map g rows"
proof -
  have "g r = g p0" if "r \<in> set rows" "pt_id r = pt_id p0" for r
    using that assms(1,4) by (metis distinct_map inj_onD)
  then show ?thesis using assms(3) by (auto simp: upd_row_def)
qed

lemma save_pattern_ok:
  assumes ok: "mem_ok db" and p0: "p0 \<in> set (patterns db)"
    and p: "pt_id p = pt_id p0" "pt_project p = pt_project p0" "pt_key p = pt_key p0" "pattern_ok p"
  shows "mem_ok (db\<lparr>patterns := upd_row pt_id (pt_id p0) (\<lambda>_. p) (patterns db)\<rparr>)"
proof -
  have d: "distinct (map pt_id (patterns db))" using ok by (simp add: mem_ok_def keys_ok_def)
  have ids: "map pt_id (upd_row pt_id (pt_id p0) (\<lambda>_. p) (patterns db)) = map pt_id (patterns db)"
    using map_pattern_upd [OF p0 p(1) p(1) d] .
  have keys: "map (\<lambda>p. (pt_project p, pt_key p)) (upd_row pt_id (pt_id p0) (\<lambda>_. p) (patterns db))
      = map (\<lambda>p. (pt_project p, pt_key p)) (patterns db)"
    using map_pattern_upd [OF p0 p(1) _ d, of "\<lambda>p. (pt_project p, pt_key p)"] p by simp
  have all: "list_all pattern_ok (upd_row pt_id (pt_id p0) (\<lambda>_. p) (patterns db))"
    using ok p(4) by (auto simp: mem_ok_def values_ok_def list_all_iff dest!: set_upd_pattern)
  show ?thesis
    using ok all unfolding mem_ok_def keys_ok_def refs_ok_def values_ok_def Let_def
    by (simp add: ids keys version_ok_def [abs_def])
qed

lemma max_fadd_nonneg: "0 \<le> a \<Longrightarrow> 0 \<le> b \<Longrightarrow> 0 \<le> fadd a b"
  unfolding fadd_def by (intro f64.nonneg) simp

lemma scored_pattern_ok:
  assumes "pattern_ok p"
  shows "pattern_ok (scored_pattern p body)"
proof -
  have q: "0 \<le> verifier_weight (oi_verifiers body)" using verifier_weight_unit by blast
  have c: "0 \<le> credit st" for st by (simp add: credit_def)
  have "0 \<le> fmul (verifier_weight (oi_verifiers body)) (credit (oi_status body))"
    unfolding fmul_def using q c by (intro f64.nonneg) simp
  then show ?thesis
    using assms q bayesian_confidence_unit
    by (simp add: pattern_ok_def scored_pattern_def Let_def max_fadd_nonneg is_promoted_def)
qed

lemma feedback_pattern_ok:
  assumes ok: "mem_ok db" and run: "feedback_pattern rq db key score = Inr (v, db')"
  shows "mem_ok db'"
proof -
  obtain p where p: "project_pattern db (rq_project rq) key = Some p"
    using run by (auto simp: feedback_pattern_def split: option.splits)
  then have mem: "p \<in> set (patterns db)" by (simp add: project_pattern_Some)
  then have "pattern_ok p" using ok by (simp add: mem_ok_def values_ok_def list_all_iff)
  with run p mem ok show ?thesis
    using bayesian_confidence_unit
    by (auto simp: feedback_pattern_def Let_def pattern_ok_def is_promoted_def intro!: save_pattern_ok)
qed

lemma supersede_pattern_Inr:
  assumes "supersede_pattern rq db k s = Inr (v, db')"
  shows "\<exists>p repl. project_pattern db (rq_project rq) k = Some p \<and> project_pattern db (rq_project rq) s = Some repl
    \<and> k \<noteq> s \<and> chain_walk (pattern_links db (rq_project rq)) [k] s = Ended
    \<and> \<not> truthy_opt (pt_superseded_by p) \<and> \<not> truthy_opt (pt_superseded_by repl)
    \<and> db' = db\<lparr>patterns := upd_row pt_id (pt_id p)
          (\<lambda>_. p\<lparr>pt_promoted := False, pt_superseded_by := Some s\<rparr>) (patterns db)\<rparr>"
  using assms
  by (auto simp: supersede_pattern_def bindE_Inr_iff Let_def split: option.splits walk.splits
      dest!: project_pattern_Some)

lemma supersede_pattern_ok:
  assumes ok: "mem_ok db" and run: "supersede_pattern rq db k s = Inr (v, db')"
  shows "mem_ok db'"
proof -
  obtain p where p: "project_pattern db (rq_project rq) k = Some p" and
    db': "db' = db\<lparr>patterns := upd_row pt_id (pt_id p)
          (\<lambda>_. p\<lparr>pt_promoted := False, pt_superseded_by := Some s\<rparr>) (patterns db)\<rparr>"
    using supersede_pattern_Inr [OF run] by blast
  have mem: "p \<in> set (patterns db)" using p by (simp add: project_pattern_Some)
  then have "pattern_ok p" using ok by (simp add: mem_ok_def values_ok_def list_all_iff)
  then show ?thesis unfolding db' by (intro save_pattern_ok [OF ok mem]) (simp_all add: pattern_ok_def)
qed

lemma empty_pattern_ok: "key \<noteq> [] \<Longrightarrow> pattern_ok (empty_pattern rq key)"
  by (simp add: pattern_ok_def empty_pattern_def)

lemma outcome_pattern_Inr:
  assumes ok: "mem_ok db" and op: "outcome_pattern rq db key = Inr (p, pats, n)" and key: "key \<noteq> []"
  shows "mem_ok (db\<lparr>patterns := pats\<rparr>) \<and> p \<in> set pats \<and> pt_project p = rq_project rq \<and> pt_key p = key"
proof (cases "project_pattern db (rq_project rq) key")
  case None
  then have new: "pt_id (empty_pattern rq key) \<notin> pt_id ` set (patterns db)"
    and eqs: "p = empty_pattern rq key" "pats = patterns db @ [empty_pattern rq key]"
    using op by (auto simp: outcome_pattern_def bindE_Inr_iff insert_row_Inr_iff)
  have "(rq_project rq, key) \<notin> (\<lambda>p. (pt_project p, pt_key p)) ` set (patterns db)"
    using None by (auto simp: project_pattern_def find_None_iff)
  then show ?thesis
    using ok new empty_pattern_ok [OF key] unfolding eqs
    by (simp add: mem_ok_def keys_ok_def refs_ok_def values_ok_def version_ok_def [abs_def] Let_def
        empty_pattern_def list_all_iff)
next
  case (Some q)
  then show ?thesis using op ok by (auto simp: outcome_pattern_def dest: project_pattern_Some)
qed

lemma mem_ok_add_outcome:
  assumes "mem_ok db" "out_id out \<notin> out_id ` set (outcomes db)" "out_episode out \<in> ep_id ` set (episodes db)"
    and "out_episode out \<notin> out_episode ` set (outcomes db)" "pid \<in> pt_id ` set (patterns db)"
    and "\<forall>v\<in>set vs. vr_outcome v = out_id out"
  shows "mem_ok (db\<lparr>outcomes := outcomes db @ [out], verifiers := verifiers db @ vs,
     members := members db @ [\<lparr>mb_pattern = pid, mb_outcome = out_id out\<rparr>]\<rparr>)"
  using assms
  by (auto simp: mem_ok_def keys_ok_def refs_ok_def values_ok_def version_ok_def [abs_def] Let_def list_all_iff)

lemma record_outcome_Inr:
  assumes "record_outcome rq db k body = Inr (v, db')"
  shows "\<exists>e p pats n out vs. e \<in> set (episodes db) \<and> ep_id e = k \<and> out_episode out = k
    \<and> ep_status e \<notin> {SSuperseded, SRejected}
    \<and> k \<notin> out_episode ` set (outcomes db) \<and> out_pattern_key out \<noteq> []
    \<and> outcome_pattern rq db (out_pattern_key out) = Inr (p, pats, n)
    \<and> out_id out \<notin> out_id ` set (outcomes db)
    \<and> (\<forall>v\<in>set vs. vr_outcome v = out_id out)
    \<and> ov_pattern v = pattern_view_of (scored_pattern p body)
    \<and> db' = db\<lparr>patterns := upd_row pt_id (pt_id p) (\<lambda>_. scored_pattern p body) pats,
         outcomes := outcomes db @ [out], verifiers := verifiers db @ vs,
         members := members db @ [\<lparr>mb_pattern = pt_id p, mb_outcome = out_id out\<rparr>]\<rparr>"
proof -
  obtain e where e: "owned_episode db (rq_project rq) k = Inr e"
    using assms by (auto simp: record_outcome_def bindE_Inr_iff)
  let ?key = "if truthy_opt (oi_pattern_key body) then the (oi_pattern_key body)
              else normalize_pattern_key (ep_signature e)"
  obtain p pats n where op: "outcome_pattern rq db ?key = Inr (p, pats, n)"
    using assms by (auto simp: record_outcome_def bindE_Inr_iff e Let_def)
  let ?out = "\<lparr>out_id = memory_id (rq_ids rq n), out_episode = ep_id e, out_status = oi_status body,
                out_summary = oi_summary body, out_lesson = oi_lesson body, out_metrics = oi_metrics body,
                out_pattern_key = ?key, out_metadata = oi_metadata body, out_created = rq_now rq\<rparr>"
  let ?vs = "map (new_verifier rq (out_id ?out)) (enumerate (Suc n) (oi_verifiers body))"
  have ins: "ep_status e \<notin> {SSuperseded, SRejected}" "\<not> list_ex (\<lambda>o'. out_episode o' = ep_id e) (outcomes db)"
    "insert_row out_id ?out (outcomes db) = Inr (outcomes db @ [?out])"
    "insert_rows vr_id ?vs (verifiers db) = Inr (verifiers db @ ?vs)"
    "ov_pattern v = pattern_view_of (scored_pattern p body)"
    "db' = db\<lparr>patterns := upd_row pt_id (pt_id p) (\<lambda>_. scored_pattern p body) pats,
         outcomes := outcomes db @ [?out], verifiers := verifiers db @ ?vs,
         members := members db @ [\<lparr>mb_pattern = pt_id p, mb_outcome = out_id ?out\<rparr>]\<rparr>"
    using assms op
    by (auto simp: record_outcome_def bindE_Inr_iff e Let_def insert_row_Inr_iff insert_rows_Inr_iff)
  have "\<forall>v\<in>set ?vs. vr_outcome v = out_id ?out" by (auto simp: new_verifier_def)
  moreover have "?key \<noteq> []"
    using normalize_pattern_key_size [of "ep_signature e"] by (cases "oi_pattern_key body") auto
  ultimately show ?thesis using ins op owned_episode_Inr [OF e]
    by (intro exI [of _ e] exI [of _ p] exI [of _ pats] exI [of _ n] exI [of _ ?out] exI [of _ ?vs])
       (auto simp: insert_row_Inr_iff list_ex_iff)
qed

lemma record_outcome_ok:
  assumes ok: "mem_ok db" and run: "record_outcome rq db k body = Inr (v, db')"
  shows "mem_ok db'"
proof -
  from record_outcome_Inr [OF run] obtain e p pats n out vs where
    e: "e \<in> set (episodes db)" "ep_id e = k" "out_episode out = k" "k \<notin> out_episode ` set (outcomes db)" and
    op: "outcome_pattern rq db (out_pattern_key out) = Inr (p, pats, n)" and
    key: "out_pattern_key out \<noteq> []" and
    new: "out_id out \<notin> out_id ` set (outcomes db)" "\<forall>v\<in>set vs. vr_outcome v = out_id out" and
    db': "db' = db\<lparr>patterns := upd_row pt_id (pt_id p) (\<lambda>_. scored_pattern p body) pats,
         outcomes := outcomes db @ [out], verifiers := verifiers db @ vs,
         members := members db @ [\<lparr>mb_pattern = pt_id p, mb_outcome = out_id out\<rparr>]\<rparr>"
    by blast
  let ?db1 = "db\<lparr>patterns := pats\<rparr>"
  let ?db2 = "?db1\<lparr>patterns := upd_row pt_id (pt_id p) (\<lambda>_. scored_pattern p body) (patterns ?db1)\<rparr>"
  note o1 = outcome_pattern_Inr [OF ok op key]
  have pok: "pattern_ok p" using o1 by (auto simp: mem_ok_def values_ok_def list_all_iff)
  have fx: "pt_id (scored_pattern p body) = pt_id p" "pt_project (scored_pattern p body) = pt_project p"
    "pt_key (scored_pattern p body) = pt_key p"
    by (simp_all add: scored_pattern_def Let_def)
  have mem2: "mem_ok ?db2" using o1 fx scored_pattern_ok [OF pok] by (intro save_pattern_ok) auto
  have "scored_pattern p body \<in> set (patterns ?db2)" using o1 by (force simp: set_upd_row)
  then have "pt_id p \<in> pt_id ` set (patterns ?db2)" using fx(1) by (metis imageI)
  then have "mem_ok (?db2\<lparr>outcomes := outcomes ?db2 @ [out], verifiers := verifiers ?db2 @ vs,
     members := members ?db2 @ [\<lparr>mb_pattern = pt_id p, mb_outcome = out_id out\<rparr>]\<rparr>)"
    using mem2 e new by (intro mem_ok_add_outcome) auto
  then show ?thesis by (simp add: db')
qed

section \<open>Deletion, confidence, retention\<close>

lemma delete_episode_values: "values_ok db \<Longrightarrow> values_ok (delete_episode_row k db)"
  by (auto simp: values_ok_def delete_episode_row_def Let_def list_all_iff episode_ok_def version_ok_def)

lemma delete_episode_ok: "mem_ok db \<Longrightarrow> mem_ok (delete_episode_row k db)"
  by (simp add: mem_ok_def delete_episode_keys delete_episode_refs delete_episode_values)

lemma hard_delete_episode_Inr:
  assumes "hard_delete_episode rq db k mode = Inr db'"
  shows "\<exists>e. e \<in> set (episodes db) \<and> ep_id e = k \<and> ep_project e = rq_project rq
    \<and> ((mode = ''archive'' \<and> db' = save_episode (e\<lparr>ep_status := SArchived, ep_updated := rq_now rq\<rparr>) db)
      \<or> (mode = ''invalidate'' \<and> db' = save_episode (e\<lparr>ep_status := SRejected, ep_updated := rq_now rq\<rparr>) db)
      \<or> (mode = ''hard'' \<and> check_legal_hold db (rq_project rq) [k] None = Inr ()
          \<and> db' = delete_episode_row k db))"
  using assms
  by (auto simp: hard_delete_episode_def bindE_Inr_iff split: if_splits sum.splits dest!: owned_episode_Inr)

lemma hard_delete_ok:
  assumes ok: "mem_ok db" and run: "hard_delete_episode rq db k mode = Inr db'"
  shows "mem_ok db'"
proof -
  obtain e where e: "e \<in> set (episodes db)" and
    cases: "db' = delete_episode_row k db \<or> (\<exists>st. db' = save_episode (e\<lparr>ep_status := st, ep_updated := rq_now rq\<rparr>) db)"
    using hard_delete_episode_Inr [OF run] by blast
  have "mem_ok (save_episode (e\<lparr>ep_status := st, ep_updated := rq_now rq\<rparr>) db)" for st
    using mem_ok_episode(1) [OF ok e] by (intro save_same_links_ok [OF ok e]) (simp_all add: episode_ok_def)
  with cases delete_episode_ok [OF ok] show ?thesis by blast
qed

lemma feedback_kind_ok:
  assumes ok: "mem_ok db" and e: "e \<in> set (episodes db)"
    and conf: "case confidence of None \<Rightarrow> True | Some c \<Rightarrow> 0 \<le> c \<and> c \<le> 1"
    and run: "apply_confidence_feedback now db e kind content confidence = Inr (e', db')"
  shows "mem_ok db' \<and> ep_id e' = ep_id e"
proof -
  have eo: "0 \<le> ep_confidence e" "ep_confidence e \<le> 1" "1 \<le> ep_version e" "ep_id e \<noteq> []"
    using mem_ok_episode(1) [OF ok e] by (simp_all add: episode_ok_def)
  note cu = calculate_confidence_unit [OF eo(1,2)]
  show ?thesis
  proof (cases "kind = FCorrect")
    case True
    then obtain db1 where add: "add_version (version_of e) db = Inr db1"
      and e': "e' = e\<lparr>ep_content := content,
          ep_confidence := (case confidence of Some c \<Rightarrow> c | None \<Rightarrow> ep_confidence e),
          ep_version := ep_version e + 1, ep_updated := now\<rparr>"
      and db': "db' = save_episode e' db1"
      using run by (auto simp: apply_confidence_feedback_def bindE_Inr_iff Let_def split: if_splits)
    have "mem_ok db'" unfolding db'
      using conf eo by (intro save_versioned_ok [OF ok e add]) (simp_all add: e' split: option.splits)
    then show ?thesis by (simp add: e')
  next
    case False
    then have "db' = save_episode e' db \<and> ep_id e' = ep_id e \<and> episode_ok e' \<and> ep_version e' = ep_version e
        \<and> ep_superseded_by e' = ep_superseded_by e \<and> ep_root e' = ep_root e"
      using run eo cu
      by (auto simp: apply_confidence_feedback_def Let_def episode_ok_def split: feedback_kind.splits if_splits)
    then show ?thesis using save_same_links_ok [OF ok e, of e'] by simp
  qed
qed

lemma supersede_memory_Inr:
  assumes "supersede_memory now db e s = Inr (e', db')"
  shows "\<exists>x. x \<in> set (episodes db) \<and> ep_id x = s \<and> ep_id e \<noteq> s
    \<and> chain_walk (episode_links db) [ep_id e] s \<noteq> Revisits
    \<and> e' = e\<lparr>ep_status := SSuperseded, ep_superseded_by := Some s, ep_updated := now\<rparr>
    \<and> db' = save_episode e' db"
  using assms
  by (auto simp: supersede_memory_def bindE_Inr_iff Let_def split: option.splits dest!: get_row_SomeD)

lemma supersede_memory_ok:
  assumes ok: "mem_ok db" and e: "e \<in> set (episodes db)" and run: "supersede_memory now db e s = Inr (e', db')"
  shows "mem_ok db' \<and> ep_id e' = ep_id e"
proof -
  obtain x where x: "x \<in> set (episodes db)" "ep_id x = s" and
    e': "e' = e\<lparr>ep_status := SSuperseded, ep_superseded_by := Some s, ep_updated := now\<rparr>" and
    db': "db' = save_episode e' db"
    using supersede_memory_Inr [OF run] by blast
  have "mem_ok db'" unfolding db'
    using mem_ok_episode [OF ok e] opt_ref_id [OF x(1)] x(2)
    by (intro save_episode_ok [OF ok e]) (simp_all add: e' episode_ok_def)
  then show ?thesis by (simp add: e')
qed

lemma merge_memories_Inr:
  assumes "merge_memories now db source t content confidence = Inr (e', db')"
  shows "\<exists>target db1. target \<in> set (episodes db) \<and> ep_id target = t \<and> ep_id source \<noteq> t
    \<and> add_version (version_of source) db = Inr db1
    \<and> e' = source\<lparr>ep_content := (if truthy_opt content then content else ep_content target),
                  ep_confidence := (case confidence of Some c \<Rightarrow> c
                                    | None \<Rightarrow> max (ep_confidence source) (ep_confidence target)),
                  ep_version := ep_version source + 1, ep_updated := now\<rparr>
    \<and> db' = save_episode (target\<lparr>ep_status := SSuperseded, ep_superseded_by := Some (ep_id source),
                  ep_updated := now\<rparr>) (save_episode e' db1)"
  using assms
  by (auto simp: merge_memories_def bindE_Inr_iff Let_def split: option.splits dest!: get_row_SomeD)

lemma merge_memories_ok:
  assumes ok: "mem_ok db" and e: "e \<in> set (episodes db)"
    and conf: "case confidence of None \<Rightarrow> True | Some c \<Rightarrow> 0 \<le> c \<and> c \<le> 1"
    and run: "merge_memories now db e t content confidence = Inr (e', db')"
  shows "mem_ok db' \<and> ep_id e' = ep_id e"
proof -
  obtain target db1 where t: "target \<in> set (episodes db)" "ep_id e \<noteq> ep_id target"
    and add: "add_version (version_of e) db = Inr db1"
    and e': "e' = e\<lparr>ep_content := (if truthy_opt content then content else ep_content target),
                  ep_confidence := (case confidence of Some c \<Rightarrow> c
                                    | None \<Rightarrow> max (ep_confidence e) (ep_confidence target)),
                  ep_version := ep_version e + 1, ep_updated := now\<rparr>"
    and db': "db' = save_episode (target\<lparr>ep_status := SSuperseded, ep_superseded_by := Some (ep_id e),
                  ep_updated := now\<rparr>) (save_episode e' db1)"
    using merge_memories_Inr [OF run] by blast
  have eo: "episode_ok e" "episode_ok target" using mem_ok_episode(1) [OF ok] e t by blast+
  have ok1: "mem_ok (save_episode e' db1)"
    using conf eo by (intro save_versioned_ok [OF ok e add]) (auto simp: e' episode_ok_def split: option.splits)
  have eps: "episodes db1 = episodes db" using add by (simp add: add_version_Inr)
  have "target \<in> set (episodes (save_episode e' db1))" "e' \<in> set (episodes (save_episode e' db1))"
    using t e by (auto simp: save_episode_def set_upd_row eps e')
  then have "mem_ok db'" unfolding db'
    using eo(2) opt_ref_id [of e' "save_episode e' db1"] mem_ok_episode(3) [OF ok1, of target]
    by (intro save_episode_ok [OF ok1, of target]) (simp_all add: episode_ok_def e')
  then show ?thesis by (simp add: e')
qed

lemma apply_confidence_ok:
  assumes ok: "mem_ok db" and valid: "valid_confidence_input body"
    and run: "apply_confidence rq db k body = Inr (v, db')"
  shows "mem_ok db'"
proof -
  obtain e e' where e: "e \<in> set (episodes db)" and ch: "confidence_change rq db e body = Inr (e', db')"
    using run by (auto simp: apply_confidence_def bindE_Inr_iff dest: owned_episode_Inr)
  have conf: "case ci_confidence body of None \<Rightarrow> True | Some c \<Rightarrow> 0 \<le> c \<and> c \<le> 1"
    using valid by (simp add: valid_confidence_input_def)
  show ?thesis
    using ch merge_memories_ok [OF ok e conf] supersede_memory_ok [OF ok e]
      feedback_kind_ok [OF ok e conf] feedback_kind_ok [OF ok e, of None]
    by (auto simp: confidence_change_def bindE_Inr_iff split: if_splits)
qed

lemma archive_one_ok:
  assumes ok: "mem_ok db"
  shows "mem_ok (db\<lparr>episodes := upd_row ep_id k (\<lambda>e. e\<lparr>ep_status := SArchived, ep_updated := now\<rparr>) (episodes db)\<rparr>)"
proof (cases "get_row ep_id k (episodes db)")
  case None
  then have "k \<notin> ep_id ` set (episodes db)" by (simp add: get_row_None_iff)
  then show ?thesis using ok by (simp add: upd_row_id)
next
  case (Some e)
  then have e: "e \<in> set (episodes db)" "ep_id e = k" by (auto dest: get_row_SomeD)
  have "e' = e" if "e' \<in> set (episodes db)" "ep_id e' = k" for e'
    using that e mem_ok_ids [OF ok] by (simp add: distinct_map inj_on_def)
  then have "upd_row ep_id k (\<lambda>e. e\<lparr>ep_status := SArchived, ep_updated := now\<rparr>) (episodes db)
      = upd_row ep_id k (\<lambda>_. e\<lparr>ep_status := SArchived, ep_updated := now\<rparr>) (episodes db)"
    by (auto simp: upd_row_def)
  then have "db\<lparr>episodes := upd_row ep_id k (\<lambda>e. e\<lparr>ep_status := SArchived, ep_updated := now\<rparr>) (episodes db)\<rparr>
      = save_episode (e\<lparr>ep_status := SArchived, ep_updated := now\<rparr>) db"
    using e by (simp add: save_episode_def)
  then show ?thesis
    using mem_ok_episode(1) [OF ok e(1)] by (simp add: episode_ok_def save_same_links_ok [OF ok e(1)])
qed

lemma apply_retention_ok:
  assumes ok: "mem_ok db" and run: "apply_retention rq db body = Inr (pid, n, act, db')"
  shows "mem_ok db'"
proof -
  have step: "mem_ok (snd (retain_one rq body held item acc))" if "mem_ok (snd acc)" for held item acc
    using that archive_one_ok delete_episode_ok by (cases acc) (simp add: retain_one_def)
  have all: "mem_ok (snd (fold (retain_one rq body held) items acc))" if "mem_ok (snd acc)" for held items acc
    using that step by (rule fold_invariant_step [where P = "\<lambda>acc. mem_ok (snd acc)"])
  obtain rows where "db' = db\<lparr>policies := rows\<rparr>
      \<or> (\<exists>held items. fold (retain_one rq body held) items (0, db\<lparr>policies := rows\<rparr>) = (n, db'))"
    using run by (auto simp: apply_retention_def bindE_Inr_iff Let_def split: if_splits prod.splits)
  then show ?thesis
    using all [of "(0, db\<lparr>policies := rows\<rparr>)"] ok by (metis mem_ok_frame(2) snd_conv)
qed

section \<open>The state machine\<close>

datatype mem_call =
    CreateEpisode episode_input
  | AppendAttempt string attempt_input
  | RecordOutcome string outcome_input
  | Feedback string int
  | SupersedeEpisode string string
  | FeedbackPattern string int
  | SupersedePattern string string
  | DeleteEpisode string string
  | ApplyConfidence string confidence_input
  | CreateHold hold_input
  | DeleteHold string
  | ApplyRetention retention_input

definition valid_call :: "mem_call \<Rightarrow> bool" where
  "valid_call c = (case c of
     CreateEpisode b \<Rightarrow> valid_episode_input b
   | ApplyConfidence _ b \<Rightarrow> valid_confidence_input b
   | Feedback _ n \<Rightarrow> valid_feedback_score n
   | FeedbackPattern _ n \<Rightarrow> valid_feedback_score n
   | CreateHold b \<Rightarrow> valid_hold_input b
   | ApplyRetention b \<Rightarrow> valid_retention_input b
   | _ \<Rightarrow> True)"

definition committed :: "('a \<times> mem_db) res \<Rightarrow> mem_db res" where
  "committed r = (case r of Inl e \<Rightarrow> Inl e | Inr (_, db') \<Rightarrow> Inr db')"

definition handle :: "(jobj \<Rightarrow> string) \<Rightarrow> req \<Rightarrow> mem_db \<Rightarrow> mem_call \<Rightarrow> mem_db res" where
  "handle hash rq db c = (case c of
     CreateEpisode b \<Rightarrow> committed (create_episode hash rq db b)
   | AppendAttempt k b \<Rightarrow> committed (append_attempt rq db k b)
   | RecordOutcome k b \<Rightarrow> committed (record_outcome rq db k b)
   | Feedback k n \<Rightarrow> committed (feedback rq db k n)
   | SupersedeEpisode k s \<Rightarrow> committed (supersede_episode rq db k s)
   | FeedbackPattern k n \<Rightarrow> committed (feedback_pattern rq db k n)
   | SupersedePattern k s \<Rightarrow> committed (supersede_pattern rq db k s)
   | DeleteEpisode k mode \<Rightarrow> hard_delete_episode rq db k mode
   | ApplyConfidence k b \<Rightarrow> committed (apply_confidence rq db k b)
   | CreateHold b \<Rightarrow> committed (create_legal_hold rq db b)
   | DeleteHold k \<Rightarrow> delete_legal_hold rq db k
   | ApplyRetention b \<Rightarrow> committed (map_sum id (\<lambda>(p, n, a, db'). ((p, n, a), db')) (apply_retention rq db b)))"

lemma committed_Inr [simp]: "committed r = Inr db' \<longleftrightarrow> (\<exists>v. r = Inr (v, db'))"
  by (auto simp: committed_def split: sum.splits)

lemma handle_ok:
  assumes "mem_ok db" "valid_call c" "handle hash rq db c = Inr db'"
  shows "mem_ok db'"
proof (cases c)
  case (CreateHold b)
  then show ?thesis using assms by (auto simp: handle_def frame dest!: create_legal_hold_Inr)
next
  case (DeleteHold k)
  then show ?thesis using assms by (auto simp: handle_def delete_legal_hold_def bindE_Inr_iff frame)
next
  case (ApplyRetention b)
  then obtain p n a where "apply_retention rq db b = Inr (p, n, a, db')"
    using assms(3) by (cases "apply_retention rq db b") (auto simp: handle_def)
  with assms(1) show ?thesis by (rule apply_retention_ok)
qed (use assms in \<open>auto simp: handle_def valid_call_def
       intro: create_episode_ok append_attempt_ok record_outcome_ok feedback_ok supersede_episode_ok
         feedback_pattern_ok supersede_pattern_ok hard_delete_ok apply_confidence_ok\<close>)

inductive reachable :: "(jobj \<Rightarrow> string) \<Rightarrow> mem_db \<Rightarrow> bool" for hash where
  start: "reachable hash empty_db"
| served: "reachable hash db \<Longrightarrow> valid_call c \<Longrightarrow> handle hash rq db c = Inr db' \<Longrightarrow> reachable hash db'"

inductive_cases reachable_cases: "reachable hash db"

section \<open>A concrete request\<close>

definition sample_input :: episode_input where
  "sample_input = \<lparr>pi_domain = ''custom'', pi_type = ''custom'', pi_title = ''t'', pi_goal = ''g'',
     pi_signature = ''s'', pi_scope = [], pi_tags = [], pi_metadata = [], pi_content = None,
     pi_confidence = 1 / 2, pi_evidence = [], pi_idempotency = None\<rparr>"

lemma sample_input_valid: "valid_call (CreateEpisode sample_input)"
  by (simp add: valid_call_def valid_episode_input_def sample_input_def Domain_def MemoryType_def)

lemma sample_create:
  "\<exists>db. handle hash rq empty_db (CreateEpisode sample_input) = Inr db \<and> episodes db \<noteq> []"
  by (simp add: handle_def committed_def create_episode_def replayed_episode_def checked_content_def
      sample_input_def insert_row_def empty_db_def Let_def enumerate_eq_zip)

section \<open>Properties\<close>



end
