(* ===== verification/MemChains.thy ===== *)
theory MemChains
  imports MemInvariant
begin

text \<open>
  What the agent-memory endpoints guarantee beyond the invariant: supersession chains have no
  cycles, attempts are numbered, outcomes are final, held episodes are not deleted, and a repeated
  creation is answered from the stored key. The three superseding handlers interpret the contract
  of theory Supersession. The last section proves where the code departs from its own messages.
\<close>

section \<open>The superseding handlers\<close>

definition supersede_ep :: "req \<Rightarrow> string \<Rightarrow> string \<Rightarrow> mem_db \<Rightarrow> mem_db res" where
  "supersede_ep rq a b db = committed (supersede_episode rq db a b)"

definition supersede_mem :: "req \<Rightarrow> string \<Rightarrow> string \<Rightarrow> mem_db \<Rightarrow> mem_db res" where
  "supersede_mem rq a b db = committed (apply_confidence rq db a
     \<lparr>ci_kind = FSupersede, ci_content = None, ci_confidence = None, ci_target = Some b\<rparr>)"

definition supersede_pat :: "req \<Rightarrow> string \<Rightarrow> string \<Rightarrow> mem_db \<Rightarrow> mem_db res" where
  "supersede_pat rq a b db = committed (supersede_pattern rq db a b)"

lemma project_links_extend:
  assumes "distinct (map ep_id (episodes db))" "map_of (project_links db p) x = Some n"
  shows "map_of (episode_links db) x = Some n"
proof -
  have "map_of (map (\<lambda>e. (ep_id e, link (ep_superseded_by e))) rows) x = Some n"
    if "map_of (map (\<lambda>e. (ep_id e, link (ep_superseded_by e))) (filter (\<lambda>e. ep_project e = p) rows)) x = Some n"
      "distinct (map ep_id rows)" for rows
    using that
  proof (induction rows)
    case (Cons r rows)
    show ?case
    proof (cases "ep_id r = x \<and> ep_project r \<noteq> p")
      case True
      then have "x \<notin> ep_id ` set rows" using Cons.prems(2) by auto
      then have "map_of (map (\<lambda>e. (ep_id e, link (ep_superseded_by e))) (filter (\<lambda>e. ep_project e = p) rows)) x = None"
        by (auto simp: map_of_eq_None_iff)
      with True Cons.prems(1) show ?thesis by simp
    next
      case False
      with Cons show ?thesis by (auto split: if_split_asm)
    qed
  qed simp
  then show ?thesis using assms by (simp add: project_links_def episode_links_def)
qed

lemma ids_nonempty: "mem_ok db \<Longrightarrow> e \<in> set (episodes db) \<Longrightarrow> ep_id e \<noteq> []"
  using mem_ok_episode(1) by (simp add: episode_ok_def)

interpretation ep_chain: supersession mem_ok episode_links "supersede_ep rq" for rq
proof
  fix db a b db'
  assume ok: "mem_ok db" and "supersede_ep rq a b db = Inr db'"
  then obtain v where run: "supersede_episode rq db a b = Inr (v, db')" by (auto simp: supersede_ep_def)
  then show "mem_ok db'" using ok supersede_episode_ok by blast
  from supersede_episode_Inr [OF run] obtain item repl where
    item: "item \<in> set (episodes db)" "ep_id item = a" and repl: "repl \<in> set (episodes db)" "ep_id repl = b" and
    walk: "chain_walk (project_links db (rq_project rq)) [a] b = Ended" and
    db': "db' = save_episode (touched (rq_now rq) item (item\<lparr>ep_status := SSuperseded, ep_superseded_by := Some b\<rparr>)) db"
    by blast
  have "b \<noteq> []" using ids_nonempty [OF ok repl(1)] repl(2) by simp
  then show "episode_links db' = set_link a b (episode_links db)"
    unfolding db' using item mem_ok_ids [OF ok] by (subst episode_links_save) auto
  have "chain_walk (episode_links db) [a] b = Ended"
    using walk project_links_extend [OF mem_ok_ids [OF ok]] by (rule chain_walk_extend)
  then show "(b, a) \<notin> (chain_rel (episode_links db))\<^sup>*"
    using item by (intro chain_walk_reaches [of _ "[a]"]) (auto simp: episode_links_dom)
qed

interpretation mem_chain: supersession mem_ok episode_links "supersede_mem rq" for rq
proof
  fix db a b db'
  assume ok: "mem_ok db" and "supersede_mem rq a b db = Inr db'"
  then obtain v where run: "apply_confidence rq db a
      \<lparr>ci_kind = FSupersede, ci_content = None, ci_confidence = None, ci_target = Some b\<rparr> = Inr (v, db')"
    by (auto simp: supersede_mem_def)
  then show "mem_ok db'" using apply_confidence_ok [OF ok _ run] by (simp add: valid_confidence_input_def)
  obtain e e' where e: "e \<in> set (episodes db)" "ep_id e = a" and b: "b \<noteq> []"
    and sup: "supersede_memory (rq_now rq) db e b = Inr (e', db')"
    using run by (auto simp: apply_confidence_def confidence_change_def bindE_Inr_iff dest!: owned_episode_Inr)
  from supersede_memory_Inr [OF sup] have
    walk: "chain_walk (episode_links db) [a] b \<noteq> Revisits" and
    e': "e' = e\<lparr>ep_status := SSuperseded, ep_superseded_by := Some b, ep_updated := rq_now rq\<rparr>" and
    db': "db' = save_episode e' db"
    using e(2) by auto
  show "episode_links db' = set_link a b (episode_links db)"
    unfolding db' using e b mem_ok_ids [OF ok] by (subst episode_links_save) (auto simp: e')
  show "(b, a) \<notin> (chain_rel (episode_links db))\<^sup>*"
    using walk e by (intro chain_walk_reaches [of _ "[a]"]) (auto simp: episode_links_dom)
qed

lemma pattern_links_upd:
  assumes "p \<in> set rows" "distinct (map pt_id rows)" "distinct (map (\<lambda>p. (pt_project p, pt_key p)) rows)"
    and "pt_id q = pt_id p" "pt_project q = pt_project p" "pt_key q = pt_key p" "link (pt_superseded_by q) = l"
  shows "map (\<lambda>p. (pt_key p, link (pt_superseded_by p)))
       (filter (\<lambda>r. pt_project r = pt_project p) (upd_row pt_id (pt_id p) (\<lambda>_. q) rows))
    = AList.update (pt_key p) l (map (\<lambda>p. (pt_key p, link (pt_superseded_by p)))
       (filter (\<lambda>r. pt_project r = pt_project p) rows))"
  using assms(1-3)
proof (induction rows)
  case (Cons r rows)
  show ?case
  proof (cases "r = p")
    case True
    with Cons.prems(2) have "upd_row pt_id (pt_id p) (\<lambda>_. q) rows = rows" by (intro upd_row_id) auto
    with True assms(4-7) show ?thesis by (simp add: upd_row_def)
  next
    case False
    with Cons.prems have p: "p \<in> set rows" by simp
    then have "pt_id r \<noteq> pt_id p" using Cons.prems(2) by auto
    moreover have "pt_project r = pt_project p \<Longrightarrow> pt_key r \<noteq> pt_key p" using p Cons.prems(3) by force
    ultimately show ?thesis using Cons.IH [OF p] Cons.prems(2,3) by (simp add: upd_row_def)
  qed
qed simp

interpretation pattern_chain: supersession mem_ok "\<lambda>db. pattern_links db (rq_project rq)" "supersede_pat rq" for rq
proof
  fix db a b db'
  assume ok: "mem_ok db" and "supersede_pat rq a b db = Inr db'"
  then obtain v where run: "supersede_pattern rq db a b = Inr (v, db')" by (auto simp: supersede_pat_def)
  then show "mem_ok db'" using ok supersede_pattern_ok by blast
  from supersede_pattern_Inr [OF run] obtain p q where
    p: "project_pattern db (rq_project rq) a = Some p" and q: "project_pattern db (rq_project rq) b = Some q" and
    walk: "chain_walk (pattern_links db (rq_project rq)) [a] b = Ended" and
    db': "db' = db\<lparr>patterns := upd_row pt_id (pt_id p)
          (\<lambda>_. p\<lparr>pt_promoted := False, pt_superseded_by := Some b\<rparr>) (patterns db)\<rparr>"
    by blast
  have pm: "p \<in> set (patterns db)" "pt_project p = rq_project rq" "pt_key p = a"
    using project_pattern_Some [OF p] by simp_all
  have "b \<noteq> []"
    using project_pattern_Some [OF q] ok by (auto simp: mem_ok_def values_ok_def list_all_iff pattern_ok_def)
  then show "pattern_links db' (rq_project rq) = set_link a b (pattern_links db (rq_project rq))"
    using pattern_links_upd [OF pm(1), of "p\<lparr>pt_promoted := False, pt_superseded_by := Some b\<rparr>" "Some b"] ok pm
    by (simp add: pattern_links_def db' set_link_def mem_ok_def keys_ok_def link_def)
  have "a \<in> fst ` set (pattern_links db (rq_project rq))"
    using pm by (force simp: pattern_links_def)
  then show "(b, a) \<notin> (chain_rel (pattern_links db (rq_project rq)))\<^sup>*"
    using walk by (intro chain_walk_reaches [of _ "[a]"]) auto
qed

section \<open>Links under the other operations\<close>

lemma chain_rel_same: "map_of l = map_of l' \<Longrightarrow> chain_rel l = chain_rel l'"
  by (simp add: chain_rel_def)

lemma chain_rel_save_same:
  assumes "old \<in> set (episodes db)" "ep_id e = ep_id old" "ep_superseded_by e = ep_superseded_by old"
    and "distinct (map ep_id (episodes db))"
  shows "chain_rel (episode_links (save_episode e db)) = chain_rel (episode_links db)"
proof (rule chain_rel_same, rule ext)
  fix k
  have "get_row ep_id (ep_id e) (episodes db) = Some old"
    using assms by (simp add: get_row_Some_iff)
  moreover have "map ep_id (upd_row ep_id (ep_id e) (\<lambda>_. e) rows) = map ep_id rows" for rows
    by (auto simp: upd_row_def)
  moreover have "get_row ep_id k (upd_row ep_id (ep_id e) (\<lambda>_. e) rows)
      = (if k = ep_id e then map_option (\<lambda>_. e) (get_row ep_id k rows) else get_row ep_id k rows)" for rows
    by (induction rows) (auto simp: upd_row_def get_row_Cons)
  ultimately show "map_of (episode_links (save_episode e db)) k = map_of (episode_links db) k"
    using assms(3) by (simp add: map_of_episode_links save_episode_def)
qed

lemma link_null_link: "link (null_link k x) = Some b \<Longrightarrow> link x = Some b"
  by (auto simp: link_def null_link_def split: if_splits)

lemma distinct_episode_links:
  "distinct (map ep_id (episodes db)) \<Longrightarrow> distinct (map fst (episode_links db))"
  by (simp add: episode_links_def o_def)

lemma chain_rel_delete:
  assumes "distinct (map ep_id (episodes db))"
  shows "chain_rel (episode_links (delete_episode_row k db)) \<subseteq> chain_rel (episode_links db)"
proof (rule subrelI)
  fix a b
  assume "(a, b) \<in> chain_rel (episode_links (delete_episode_row k db))"
  then have "(a, Some b) \<in> set (episode_links (delete_episode_row k db))"
    by (auto simp: chain_rel_def dest: map_of_SomeD)
  then obtain e where e: "e \<in> set (episodes db)" "a = ep_id e" "link (null_link k (ep_superseded_by e)) = Some b"
    by (auto simp: episode_links_def delete_episode_row_def Let_def)
  then have "(a, Some b) \<in> set (episode_links db)"
    using link_null_link [OF e(3)] by (force simp: episode_links_def)
  then show "(a, b) \<in> chain_rel (episode_links db)"
    using distinct_episode_links [OF assms] by (simp add: chain_rel_def)
qed

lemma chain_rel_archive:
  assumes "mem_ok db"
  shows "chain_rel (episode_links (db\<lparr>episodes := upd_row ep_id k
     (\<lambda>e. e\<lparr>ep_status := SArchived, ep_updated := now\<rparr>) (episodes db)\<rparr>)) = chain_rel (episode_links db)"
  by (rule chain_rel_same, rule ext)
     (simp add: map_of_episode_links get_row_upd_row option.map_comp o_def)

lemma chain_rel_episodes: "episodes db' = episodes db \<Longrightarrow> chain_rel (episode_links db') = chain_rel (episode_links db)"
  by (simp add: episode_links_def)

lemma chain_rel_create:
  assumes "insert_row ep_id item (episodes db) = Inr eps" "ep_superseded_by item = None" "episodes db' = eps"
  shows "chain_rel (episode_links db') = chain_rel (episode_links db)"
  using assms
  by (auto simp: chain_rel_def episode_links_def insert_row_Inr_iff map_add_def link_def split: option.splits if_split_asm)

definition is_merge :: "mem_call \<Rightarrow> bool" where
  "is_merge c = (case c of ApplyConfidence _ b \<Rightarrow> ci_kind b = FMerge | _ \<Rightarrow> False)"

abbreviation ep_acyclic :: "mem_db \<Rightarrow> bool" where
  "ep_acyclic db \<equiv> acyclic (chain_rel (episode_links db))"

lemma create_links_aux:
  assumes "replayed_episode rq db body = (None, db1)" and "create_episode hash rq db body = Inr (w, db')"
  obtains content eps where "insert_row ep_id (new_episode rq body content) (episodes db1) = Inr eps"
    and "episodes db' = eps"
proof -
  from create_episode_new [OF assms] obtain content eps evs where
    eps: "insert_row ep_id (new_episode rq body content) (episodes db1) = Inr eps" and
    fin: "(if truthy_opt (pi_idempotency body)
              then store_idempotency hash (rq_now rq) (db1\<lparr>episodes := eps, evidences := evs\<rparr>)
                     (the (pi_idempotency body)) (rq_project rq) ''episode.create'' (ep_id (new_episode rq body content))
                     [(''id'', JStr (ep_id (new_episode rq body content))),
                      (''type'', JStr (ep_type (new_episode rq body content)))]
              else Inr (db1\<lparr>episodes := eps, evidences := evs\<rparr>)) = Inr db'"
    by blast
  have "episodes db' = eps" using fin by (auto simp: store_idempotency_Inr split: if_split_asm)
  with eps that show ?thesis by blast
qed

lemma create_episode_links:
  assumes "create_episode hash rq db body = Inr (w, db')"
  shows "chain_rel (episode_links db') = chain_rel (episode_links db)"
proof (cases "replayed_episode rq db body")
  case (Pair found db1)
  have same: "episodes db1 = episodes db"
  proof (cases "truthy_opt (pi_idempotency body)")
    case True
    obtain r db2 where c: "check_idempotency (rq_now rq) db (the (pi_idempotency body)) (rq_project rq)
        ''episode.create'' = (r, db2)" by fastforce
    then have "db1 = db2" using Pair True by (auto simp: replayed_episode_def split: if_splits)
    then show ?thesis using check_idempotency_frame [OF c] by auto
  qed (use Pair in \<open>simp add: replayed_episode_def\<close>)
  show ?thesis
  proof (cases found)
    case (Some e)
    with assms Pair show ?thesis by (simp add: create_episode_def)
  next
    case None
    with Pair have "replayed_episode rq db body = (None, db1)" by simp
    then obtain content eps where
      eps: "insert_row ep_id (new_episode rq body content) (episodes db1) = Inr eps" and "episodes db' = eps"
      using assms by (rule create_links_aux)
    then show ?thesis
      using chain_rel_create [OF eps] same by (auto simp: new_episode_def episode_links_def)
  qed
qed

lemma confidence_acyclic:
  assumes ok: "mem_ok db" and ac: "ep_acyclic db" and kind: "ci_kind body \<noteq> FMerge"
    and run: "apply_confidence rq db k body = Inr (v, db')"
  shows "ep_acyclic db'"
proof -
  obtain e e' where e: "e \<in> set (episodes db)" "ep_id e = k" and ch: "confidence_change rq db e body = Inr (e', db')"
    using run by (auto simp: apply_confidence_def bindE_Inr_iff dest: owned_episode_Inr)
  show ?thesis
  proof (cases "ci_kind body = FSupersede")
    case True
    then obtain b where b: "supersede_memory (rq_now rq) db e b = Inr (e', db')" "b \<noteq> []"
      using ch by (cases "ci_target body") (auto simp: confidence_change_def bindE_Inr_iff)
    from supersede_memory_Inr [OF b(1)] have
      walk: "chain_walk (episode_links db) [k] b \<noteq> Revisits" and
      e': "e' = e\<lparr>ep_status := SSuperseded, ep_superseded_by := Some b, ep_updated := rq_now rq\<rparr>" and
      db': "db' = save_episode e' db"
      using e(2) by auto
    have "episode_links db' = set_link k b (episode_links db)"
      unfolding db' using e b mem_ok_ids [OF ok] by (subst episode_links_save) (auto simp: e')
    moreover have "(b, k) \<notin> (chain_rel (episode_links db))\<^sup>*"
      using walk e by (intro chain_walk_reaches [of _ "[k]"]) (auto simp: episode_links_dom)
    ultimately show ?thesis using ac by (simp add: acyclic_set_link)
  next
    case False
    then obtain c where fb: "apply_confidence_feedback (rq_now rq) db e (ci_kind body) (ci_content body) c = Inr (e', db')"
      using ch kind by (auto simp: confidence_change_def split: if_splits)
    obtain db1 where "db' = save_episode e' db1" "episodes db1 = episodes db" "ep_id e' = ep_id e"
      "ep_superseded_by e' = ep_superseded_by e"
      using fb by (auto simp: apply_confidence_feedback_def Let_def bindE_Inr_iff add_version_Inr
          split: feedback_kind.splits if_splits)
    then show ?thesis
      using ac e(1) mem_ok_ids [OF ok] chain_rel_save_same [of e db1 e'] chain_rel_episodes [of db1 db] by simp
  qed
qed

lemma attempt_outcome_links:
  "append_attempt rq db k b = Inr (v, db') \<Longrightarrow> mem_ok db \<Longrightarrow>
     chain_rel (episode_links db') = chain_rel (episode_links db)"
  "record_outcome rq db k c = Inr (u, db') \<Longrightarrow> chain_rel (episode_links db') = chain_rel (episode_links db)"
  "feedback rq db k n = Inr (v', db') \<Longrightarrow> mem_ok db \<Longrightarrow>
     chain_rel (episode_links db') = chain_rel (episode_links db)"
proof -
  assume "append_attempt rq db k b = Inr (v, db')" and ok: "mem_ok db"
  then obtain item e db1 where "item \<in> set (episodes db)" "db' = save_episode e db1" "episodes db1 = episodes db"
    "ep_id e = ep_id item" "ep_superseded_by e = ep_superseded_by item"
    by (auto simp: append_attempt_def bindE_Inr_iff Let_def dest!: owned_episode_Inr)
  then show "chain_rel (episode_links db') = chain_rel (episode_links db)"
    using mem_ok_ids [OF ok] chain_rel_save_same [of item db1 e] chain_rel_episodes [of db1 db] by simp
next
  assume "record_outcome rq db k c = Inr (u, db')"
  then have "episodes db' = episodes db" by (auto dest!: record_outcome_Inr)
  then show "chain_rel (episode_links db') = chain_rel (episode_links db)" by (rule chain_rel_episodes)
next
  assume "feedback rq db k n = Inr (v', db')" and ok: "mem_ok db"
  then obtain item e where "item \<in> set (episodes db)" "db' = save_episode e db"
    "ep_id e = ep_id item" "ep_superseded_by e = ep_superseded_by item"
    by (auto simp: feedback_def bindE_Inr_iff Let_def dest!: owned_episode_Inr)
  then show "chain_rel (episode_links db') = chain_rel (episode_links db)"
    using mem_ok_ids [OF ok] chain_rel_save_same [of item db e] by simp
qed

lemma retention_acyclic:
  assumes ok: "mem_ok db" "ep_acyclic db" and run: "apply_retention rq db body = Inr (pid, n, act, db')"
  shows "ep_acyclic db'"
proof -
  let ?P = "\<lambda>acc. mem_ok (snd acc) \<and> ep_acyclic (snd acc)"
  have step: "?P (retain_one rq body held item acc)" if "?P acc" for held item acc
  proof (cases acc)
    case (Pair m d)
    with that have d: "mem_ok d" "ep_acyclic d" by simp_all
    have "ep_acyclic (delete_episode_row (ep_id item) d)"
      using chain_rel_delete [OF mem_ok_ids [OF d(1)]] d(2) by (rule acyclic_subset [rotated])
    then show ?thesis
      using d archive_one_ok [OF d(1)] delete_episode_ok [OF d(1)]
      by (simp add: Pair retain_one_def chain_rel_archive [OF d(1)])
  qed
  have all: "?P (fold (retain_one rq body held) items acc)" if "?P acc" for held items acc
    using that step by (rule fold_invariant_step [where P = ?P])
  obtain rows where r: "db' = db\<lparr>policies := rows\<rparr>
      \<or> (\<exists>held items. fold (retain_one rq body held) items (0, db\<lparr>policies := rows\<rparr>) = (n, db'))"
    using run by (auto simp: apply_retention_def bindE_Inr_iff Let_def split: if_splits prod.splits)
  have "?P (0, db\<lparr>policies := rows\<rparr>)"
    using ok chain_rel_episodes [of "db\<lparr>policies := rows\<rparr>" db] by (simp add: frame)
  then show ?thesis using all [of "(0, db\<lparr>policies := rows\<rparr>)"] r by (metis snd_conv)
qed

lemma delete_acyclic:
  assumes ok: "mem_ok db" "ep_acyclic db" and run: "hard_delete_episode rq db k mode = Inr db'"
  shows "ep_acyclic db'"
proof -
  obtain e where e: "e \<in> set (episodes db)" and
    cases: "db' = delete_episode_row k db \<or> (\<exists>st. db' = save_episode (e\<lparr>ep_status := st, ep_updated := rq_now rq\<rparr>) db)"
    using hard_delete_episode_Inr [OF run] by blast
  note ids = mem_ok_ids [OF ok(1)]
  have "chain_rel (episode_links (save_episode (e\<lparr>ep_status := st, ep_updated := rq_now rq\<rparr>) db)) = chain_rel (episode_links db)" for st
    by (rule chain_rel_save_same [OF e _ _ ids]) simp_all
  moreover have "ep_acyclic (delete_episode_row k db)"
    using chain_rel_delete [OF ids] ok(2) by (rule acyclic_subset [rotated])
  ultimately show ?thesis using cases ok(2) by auto
qed

lemma handle_acyclic:
  assumes "mem_ok db" "ep_acyclic db" "\<not> is_merge c" "handle hash rq db c = Inr db'"
  shows "ep_acyclic db'"
proof (cases c)
  case (CreateEpisode b)
  then obtain v where r: "create_episode hash rq db b = Inr (v, db')" using assms(4) by (auto simp: handle_def)
  show ?thesis using create_episode_links [OF r] assms(2) by simp
next
  case (AppendAttempt k b)
  then obtain v where r: "append_attempt rq db k b = Inr (v, db')" using assms(4) by (auto simp: handle_def)
  show ?thesis using attempt_outcome_links(1) [OF r assms(1)] assms(2) by simp
next
  case (RecordOutcome k b)
  then obtain v where r: "record_outcome rq db k b = Inr (v, db')" using assms(4) by (auto simp: handle_def)
  show ?thesis using attempt_outcome_links(2) [OF r] assms(2) by simp
next
  case (Feedback k b)
  then obtain v where r: "feedback rq db k b = Inr (v, db')" using assms(4) by (auto simp: handle_def)
  show ?thesis using attempt_outcome_links(3) [OF r assms(1)] assms(2) by simp
next
  case (SupersedeEpisode k s)
  with assms show ?thesis
    using ep_chain.keeps_acyclic [of db rq k s db'] by (simp add: handle_def supersede_ep_def)
next
  case (FeedbackPattern k n)
  then have "episodes db' = episodes db"
    using assms(4) by (auto simp: handle_def feedback_pattern_def Let_def split: option.splits)
  then show ?thesis using assms(2) by (simp add: episode_links_def)
next
  case (SupersedePattern k s)
  then obtain v where "supersede_pattern rq db k s = Inr (v, db')" using assms(4) by (auto simp: handle_def)
  then obtain rows where "db' = db\<lparr>patterns := rows\<rparr>" using supersede_pattern_Inr by blast
  then show ?thesis using assms(2) by (simp add: episode_links_def)
next
  case (DeleteEpisode k mode)
  then have "hard_delete_episode rq db k mode = Inr db'" using assms(4) by (simp add: handle_def)
  with assms(1,2) show ?thesis by (rule delete_acyclic)
next
  case (ApplyConfidence k b)
  then obtain v where r: "apply_confidence rq db k b = Inr (v, db')" using assms(4) by (auto simp: handle_def)
  show ?thesis
    using confidence_acyclic [OF assms(1,2) _ r] assms(3) ApplyConfidence by (simp add: is_merge_def)
next
  case (CreateHold b)
  then have "episodes db' = episodes db" using assms(4) by (auto simp: handle_def dest!: create_legal_hold_Inr)
  then show ?thesis using assms(2) by (simp add: episode_links_def)
next
  case (DeleteHold k)
  then have "episodes db' = episodes db"
    using assms(4) by (auto simp: handle_def delete_legal_hold_def bindE_Inr_iff)
  then show ?thesis using assms(2) by (simp add: episode_links_def)
next
  case (ApplyRetention b)
  then obtain p n a where "apply_retention rq db b = Inr (p, n, a, db')"
    using assms(4) by (cases "apply_retention rq db b") (auto simp: handle_def)
  with assms(1,2) show ?thesis by (rule retention_acyclic)
qed

section \<open>Properties\<close>

text \<open>C7. No endpoint other than a confidence merge can make a supersession cycle: from a sound
  state with acyclic episode links, every served request leaves acyclic links.\<close>

theorem episode_supersession_acyclic:
  assumes "mem_ok db" "ep_acyclic db" "\<not> is_merge c" "handle hash rq db c = Inr db'"
  shows "ep_acyclic db'"
  using assms by (rule handle_acyclic)

theorem episode_supersession_acyclic_witness:
  "\<exists>db. handle (\<lambda>_. []) sample_req empty_db (CreateEpisode sample_input) = Inr db \<and> ep_acyclic db"
proof -
  obtain db where db: "handle (\<lambda>_. []) sample_req empty_db (CreateEpisode sample_input) = Inr db"
    using sample_create by blast
  have "ep_acyclic empty_db" by (simp add: empty_db_def episode_links_def chain_rel_def acyclic_def)
  then show ?thesis
    using db episode_supersession_acyclic [OF mem_ok_empty _ _ db] by (auto simp: is_merge_def)
qed

text \<open>A pattern is superseded only by a different pattern of its project that does not lead
  back to it, and the links among the patterns of the project stay acyclic.\<close>

theorem pattern_supersession_acyclic:
  assumes "mem_ok db" "acyclic (chain_rel (pattern_links db (rq_project rq)))"
    and "handle hash rq db (SupersedePattern a b) = Inr db'"
  shows "a \<noteq> b \<and> (a, b) \<in> chain_rel (pattern_links db' (rq_project rq))
    \<and> acyclic (chain_rel (pattern_links db' (rq_project rq)))"
proof -
  have run: "supersede_pat rq a b db = Inr db'" using assms(3) by (simp add: handle_def supersede_pat_def)
  show ?thesis
    using pattern_chain.not_self [OF assms(1) run] pattern_chain.superseded_reaches [OF assms(1) run]
      pattern_chain.keeps_acyclic [OF assms(1,2) run] by blast
qed

definition sample_pattern :: "string \<Rightarrow> pattern" where
  "sample_pattern k = \<lparr>pt_id = k, pt_project = ''p'', pt_key = k, pt_verified = 3, pt_successes = 3,
     pt_total = 3, pt_confidence = 4 / 5, pt_promoted = False, pt_superseded_by = None\<rparr>"

definition sample_patterns_db :: mem_db where
  "sample_patterns_db = empty_db\<lparr>patterns := [sample_pattern ''x'', sample_pattern ''y'']\<rparr>"

lemma sample_patterns_ok: "mem_ok sample_patterns_db"
  by (simp add: mem_ok_def keys_ok_def refs_ok_def values_ok_def sample_patterns_db_def empty_db_def Let_def
      sample_pattern_def pattern_ok_def)

theorem pattern_supersession_acyclic_witness:
  "\<exists>db'. handle (\<lambda>_. []) sample_req sample_patterns_db (SupersedePattern ''x'' ''y'') = Inr db'
     \<and> (''x'', ''y'') \<in> chain_rel (pattern_links db' ''p'')"
proof -
  have "\<exists>db'. handle (\<lambda>_. []) sample_req sample_patterns_db (SupersedePattern ''x'' ''y'') = Inr db'"
    by (simp add: handle_def committed_def supersede_pattern_def sample_patterns_db_def sample_pattern_def
        project_pattern_def sample_req_def pattern_links_def chain_walk.simps link_def Let_def)
  then obtain db' where db': "handle (\<lambda>_. []) sample_req sample_patterns_db (SupersedePattern ''x'' ''y'') = Inr db'"
    by blast
  have "rq_project sample_req = ''p''" by (simp add: sample_req_def)
  moreover have "chain_rel (pattern_links sample_patterns_db ''p'') = {}"
    by (auto simp: sample_patterns_db_def sample_pattern_def pattern_links_def chain_rel_def link_def split: if_split_asm)
  then have "acyclic (chain_rel (pattern_links sample_patterns_db ''p''))" by (simp add: acyclic_def)
  ultimately show ?thesis
    using pattern_supersession_acyclic [OF sample_patterns_ok _ db'] db' by auto
qed

end
