(* ===== verification/MemProps.thy ===== *)
theory MemProps
  imports MemChains
begin

text \<open>
  Functional properties of single agent-memory endpoints on every branch that matters to a client,
  and, in the last section, what the endpoints do where their own messages or comments say
  otherwise.
\<close>

section \<open>Facts\<close>

lemma owned_of_member:
  assumes "mem_ok db" "e \<in> set (episodes db)"
  shows "owned_episode db (ep_project e) (ep_id e) = Inr e"
  using assms owned_episode_iff [OF mem_ok_ids [OF assms(1)]] by simp

lemma episodes_save: "mem_ok db \<Longrightarrow> old \<in> set (episodes db) \<Longrightarrow> ep_id e = ep_id old \<Longrightarrow>
    e \<in> set (episodes (save_episode e db))"
  by (force simp: save_episode_def set_upd_row)

lemma Inl_or_Inr: "(\<exists>e. r = Inl e) \<or> (\<exists>x. r = Inr x)"
  by (cases r) auto

section \<open>A concrete database\<close>

definition sample_open_db :: mem_db where
  "sample_open_db = empty_db\<lparr>episodes := [sample_episode ''m1'' SOpen, sample_episode ''m2'' SArchived]\<rparr>"

lemma sample_open_ok: "mem_ok sample_open_db"
  by (simp add: mem_ok_def keys_ok_def refs_ok_def values_ok_def sample_open_db_def empty_db_def Let_def
      sample_episode_def episode_ok_def opt_ref_def)

definition sample_attempt :: attempt_input where
  "sample_attempt = \<lparr>ai_hypothesis = ''h'', ai_actions = [], ai_result = RFailed, ai_notes = None, ai_metadata = []\<rparr>"

definition sample_outcome :: outcome_input where
  "sample_outcome = \<lparr>oi_status = OSuccess, oi_summary = ''s'', oi_lesson = None, oi_verifiers = [],
     oi_metrics = [], oi_metadata = [], oi_pattern_key = Some ''key''\<rparr>"

lemma sample_outcome_recorded:
  "\<exists>v db'. record_outcome sample_req sample_open_db ''m1'' sample_outcome = Inr (v, db')"
  by (simp add: record_outcome_def owned_episode_def sample_open_db_def empty_db_def sample_episode_def
      sample_req_def sample_outcome_def outcome_pattern_def project_pattern_def insert_row_def Let_def
      enumerate_eq_zip)

section \<open>Attempts and outcomes\<close>

text \<open>Appending an attempt to an episode of the project that is open, active or degraded
  succeeds whenever the new identifier is fresh; its number is above every earlier number of the
  episode, so the unique constraint cannot be violated; on any other status the request is refused
  with 409.\<close>

theorem append_attempt_numbering:
  assumes "mem_ok db" "e \<in> set (episodes db)" "memory_id (rq_ids rq 0) \<notin> at_id ` set (attempts db)"
    and "ep_project e = rq_project rq"
  shows "if ep_status e \<in> {SOpen, SActive, SDegraded}
    then \<exists>v db'. append_attempt rq db (ep_id e) body = Inr (v, db')
      \<and> (\<forall>a\<in>set (attempts db). at_episode a = ep_id e \<longrightarrow> at_sequence a < av_sequence v)
      \<and> length (attempts db') = length (attempts db) + 1
    else append_attempt rq db (ep_id e) body
      = Inl (HTTPException 409 ''attempts require an open, active, or degraded episode'')"
proof -
  have o: "owned_episode db (rq_project rq) (ep_id e) = Inr e"
    using owned_of_member [OF assms(1,2)] assms(4) by simp
  have "\<forall>a\<in>set (attempts db). at_episode a = ep_id e \<longrightarrow> at_sequence a < next_sequence db (ep_id e)"
    using next_sequence_fresh assms(1) by (simp add: mem_ok_def values_ok_def)
  then show ?thesis
    using assms(3) by (simp add: append_attempt_def o insert_row_def Let_def save_episode_def)
qed

text \<open>A recorded outcome is final: once a request recorded the outcome of an episode, no later
  state of the episode's row lets another be recorded, while the outcome's row is there.\<close>

theorem outcome_is_final:
  assumes "record_outcome rq db k body = Inr (v, db1)"
    and "set (outcomes db1) \<subseteq> set (outcomes db2)"
  shows "\<exists>e. record_outcome rq2 db2 k body2 = Inl e"
proof (rule ccontr)
  assume "\<not> ?thesis"
  then obtain v2 db3 where r2: "record_outcome rq2 db2 k body2 = Inr (v2, db3)"
    by (metis Inl_or_Inr surj_pair)
  from record_outcome_Inr [OF assms(1)] have "k \<in> out_episode ` set (outcomes db1)" by force
  with assms(2) have "k \<in> out_episode ` set (outcomes db2)" by blast
  moreover from record_outcome_Inr [OF r2] have "k \<notin> out_episode ` set (outcomes db2)" by blast
  ultimately show False by blast
qed

theorem append_attempt_numbering_witness:
  "\<exists>v db'. append_attempt sample_req sample_open_db ''m1'' sample_attempt = Inr (v, db')"
proof -
  have "sample_episode ''m1'' SOpen \<in> set (episodes sample_open_db)" by (simp add: sample_open_db_def)
  moreover have "memory_id (rq_ids sample_req 0) \<notin> at_id ` set (attempts sample_open_db)"
    by (simp add: sample_open_db_def empty_db_def)
  ultimately show ?thesis
    using append_attempt_numbering [OF sample_open_ok, of "sample_episode ''m1'' SOpen" sample_req sample_attempt]
    by (auto simp: sample_episode_def sample_req_def)
qed

theorem outcome_is_final_witness:
  "\<exists>v db e. record_outcome sample_req sample_open_db ''m1'' sample_outcome = Inr (v, db)
     \<and> record_outcome sample_req db ''m1'' sample_outcome = Inl e"
proof -
  obtain v db where db: "record_outcome sample_req sample_open_db ''m1'' sample_outcome = Inr (v, db)"
    using sample_outcome_recorded by blast
  with outcome_is_final [OF db subset_refl] show ?thesis by blast
qed

section \<open>Deletion\<close>

text \<open>C9. A hard delete succeeds only for an episode of the caller's project that no hold
  protects; afterwards no row of any table refers to the episode and every other episode is still
  there, unchanged but for links to it.\<close>

theorem hard_delete_safe:
  assumes "mem_ok db" "hard_delete_episode rq db k ''hard'' = Inr db'"
  shows "\<not> episode_held db (rq_project rq) k
    \<and> refs_ok db' \<and> k \<notin> ep_id ` set (episodes db')
    \<and> (\<forall>a\<in>set (attempts db'). at_episode a \<noteq> k) \<and> (\<forall>o'\<in>set (outcomes db'). out_episode o' \<noteq> k)
    \<and> (\<forall>e\<in>set (episodes db). ep_id e \<noteq> k \<longrightarrow> (\<exists>e'\<in>set (episodes db'). same_but_links e e'))"
proof -
  from hard_delete_episode_Inr [OF assms(2)] have
    hold: "check_legal_hold db (rq_project rq) [k] None = Inr ()" and db': "db' = delete_episode_row k db"
    by auto
  have "refs_ok db'" using assms(1) unfolding db' by (intro delete_episode_refs) (simp add: mem_ok_def)
  moreover have "\<exists>e'\<in>set (episodes db'). same_but_links e e'" if "e \<in> set (episodes db)" "ep_id e \<noteq> k" for e
    using kept_delete that by (simp add: kept_def db')
  moreover have "k \<notin> set (map ep_id (episodes db'))"
    unfolding db' delete_episode_ids by simp
  then have "k \<notin> ep_id ` set (episodes db')" by simp
  ultimately show ?thesis
    using check_legal_hold_episode [OF hold] by (auto simp: db' delete_episode_row_def Let_def)
qed

theorem hard_delete_safe_witness:
  "\<exists>db'. hard_delete_episode sample_req sample_open_db ''m1'' ''hard'' = Inr db' \<and> ''m1'' \<notin> ep_id ` set (episodes db')"
proof -
  have "\<exists>db'. hard_delete_episode sample_req sample_open_db ''m1'' ''hard'' = Inr db'"
    by (simp add: hard_delete_episode_def owned_episode_def sample_open_db_def empty_db_def sample_episode_def
        sample_req_def check_legal_hold_def)
  then show ?thesis using hard_delete_safe [OF sample_open_ok] by blast
qed

section \<open>Idempotent creation\<close>



section \<open>Departures\<close>

text \<open>C36. An episode created by the service has an identifier of 40 characters, so the row of its
  previous version never fits the column and both the \<open>correct\<close> and the \<open>merge\<close>
  feedback fail on it, whatever the request.\<close>

theorem correct_and_merge_always_fail:
  assumes "ci_kind body = FCorrect \<or> ci_kind body = FMerge"
  shows "\<exists>e. apply_confidence rq db (memory_id d) body = Inl e"
proof (rule ccontr)
  assume "\<not> ?thesis"
  then obtain v db' where run: "apply_confidence rq db (memory_id d) body = Inr (v, db')"
    by (metis Inl_or_Inr surj_pair)
  then obtain e e' where e: "ep_id e = memory_id d" and ch: "confidence_change rq db e body = Inr (e', db')"
    by (auto simp: apply_confidence_def bindE_Inr_iff dest!: owned_episode_Inr)
  have long: "add_version (version_of e) db = Inr x \<longleftrightarrow> False" for x
    using version_of_too_long [of e db] e by simp
  have "confidence_change rq db e body \<noteq> Inr (e', db')"
  proof (cases "ci_kind body = FMerge")
    case True
    then show ?thesis using merge_memories_Inr long by (fastforce simp: confidence_change_def bindE_Inr_iff)
  next
    case False
    with assms show ?thesis
      by (auto simp: confidence_change_def apply_confidence_feedback_def bindE_Inr_iff long)
  qed
  with ch show False by simp
qed

theorem correct_and_merge_always_fail_witness:
  "\<exists>e. apply_confidence sample_req sample_open_db (memory_id sample_draw)
     \<lparr>ci_kind = FCorrect, ci_content = Some [(''a'', JNull)], ci_confidence = None, ci_target = None\<rparr> = Inl e"
  by (rule correct_and_merge_always_fail) simp

text \<open>A superseded episode is reactivated by \<open>stale\<close> feedback: it becomes degraded, a
  status in which it takes attempts and is found by search, though it keeps its superseding link;
  the supersede endpoint says that superseded episodes cannot be reactivated.\<close>

theorem stale_reactivates_superseded:
  assumes "mem_ok db" "e \<in> set (episodes db)" "ep_status e = SSuperseded"
  shows "\<exists>v db' e'. apply_confidence \<lparr>rq_project = ep_project e, rq_now = now, rq_ids = ids\<rparr> db (ep_id e)
       \<lparr>ci_kind = FStale, ci_content = None, ci_confidence = None, ci_target = None\<rparr> = Inr (v, db')
     \<and> e' \<in> set (episodes db') \<and> ep_id e' = ep_id e \<and> ep_status e' = SDegraded
     \<and> ep_superseded_by e' = ep_superseded_by e"
proof -
  let ?e = "e\<lparr>ep_confidence := calculate_confidence (ep_confidence e) FStale, ep_status := SDegraded, ep_updated := now\<rparr>"
  have "?e \<in> set (episodes (save_episode ?e db))" by (rule episodes_save [OF assms(1,2)]) simp
  then show ?thesis
    using owned_of_member [OF assms(1,2)]
    by (auto simp: apply_confidence_def confidence_change_def apply_confidence_feedback_def Let_def
        intro!: exI [of _ ?e])
qed

theorem stale_reactivates_superseded_witness:
  "\<exists>v db' e'. apply_confidence \<lparr>rq_project = ''p'', rq_now = 0, rq_ids = \<lambda>_. sample_draw\<rparr>
        (empty_db\<lparr>episodes := [sample_episode ''m'' SSuperseded]\<rparr>) ''m''
       \<lparr>ci_kind = FStale, ci_content = None, ci_confidence = None, ci_target = None\<rparr> = Inr (v, db')
     \<and> e' \<in> set (episodes db') \<and> ep_status e' = SDegraded"
proof -
  have ok: "mem_ok (empty_db\<lparr>episodes := [sample_episode ''m'' SSuperseded]\<rparr>)"
    by (simp add: mem_ok_def keys_ok_def refs_ok_def values_ok_def empty_db_def Let_def
        sample_episode_def episode_ok_def opt_ref_def)
  have p: "ep_project (sample_episode ''m'' SSuperseded) = ''p''" "ep_id (sample_episode ''m'' SSuperseded) = ''m''"
    by (simp_all add: sample_episode_def)
  show ?thesis
    using stale_reactivates_superseded [OF ok, of "sample_episode ''m'' SSuperseded" 0 "\<lambda>_. sample_draw"]
    unfolding p by (auto simp: sample_episode_def)
qed

text \<open>Merging has no cycle check: from a sound state with acyclic links, with identifiers short
  enough for the version rows, merging a superseded episode with the one that superseded it makes
  each supersede the other.\<close>

definition cycle_db :: mem_db where
  "cycle_db = empty_db\<lparr>episodes := [(sample_episode ''a'' SSuperseded)\<lparr>ep_superseded_by := Some ''b''\<rparr>,
     sample_episode ''b'' SOpen]\<rparr>"

theorem merge_creates_cycle:
  "mem_ok cycle_db \<and> ep_acyclic cycle_db
   \<and> (\<exists>v db'. apply_confidence sample_req cycle_db ''a''
        \<lparr>ci_kind = FMerge, ci_content = None, ci_confidence = None, ci_target = Some ''b''\<rparr> = Inr (v, db')
      \<and> (''a'', ''b'') \<in> chain_rel (episode_links db') \<and> (''b'', ''a'') \<in> chain_rel (episode_links db'))"
proof (intro conjI)
  show "mem_ok cycle_db"
    by (simp add: mem_ok_def keys_ok_def refs_ok_def values_ok_def cycle_db_def empty_db_def Let_def
        sample_episode_def episode_ok_def opt_ref_def)
  have "chain_rel (episode_links cycle_db) = {(''a'', ''b'')}"
    by (auto simp: chain_rel_def episode_links_def cycle_db_def sample_episode_def link_def split: if_split_asm)
  moreover have "acyclic (insert (''a'', ''b'') {})" by (subst acyclic_insert) (simp add: acyclic_def)
  ultimately show "ep_acyclic cycle_db" by simp
  show "\<exists>v db'. apply_confidence sample_req cycle_db ''a''
        \<lparr>ci_kind = FMerge, ci_content = None, ci_confidence = None, ci_target = Some ''b''\<rparr> = Inr (v, db')
      \<and> (''a'', ''b'') \<in> chain_rel (episode_links db') \<and> (''b'', ''a'') \<in> chain_rel (episode_links db')"
    by (simp add: apply_confidence_def confidence_change_def merge_memories_def owned_episode_def cycle_db_def
        empty_db_def sample_episode_def sample_req_def get_row_def add_version_def version_of_def int_str_def
        dec_str.simps insert_row_def Let_def save_episode_def upd_row_def chain_rel_def episode_links_def link_def)
qed

text \<open>A superseded pattern is promoted again by feedback on it, though the supersede endpoint
  clears its promotion and says that superseded patterns cannot be re-promoted.\<close>

definition superseded_pattern_db :: mem_db where
  "superseded_pattern_db = empty_db\<lparr>patterns :=
     [(sample_pattern ''x'')\<lparr>pt_superseded_by := Some ''y''\<rparr>, sample_pattern ''y'']\<rparr>"

theorem superseded_pattern_repromoted:
  "\<exists>v db'. feedback_pattern sample_req superseded_pattern_db ''x'' 1 = Inr (v, db') \<and> pv_promoted v
     \<and> list_ex (\<lambda>p. pt_key p = ''x'' \<and> pt_promoted p \<and> pt_superseded_by p = Some ''y'') (patterns db')"
proof -
  have "f0_7 \<le> bayesian_confidence 3 3"
    unfolding bayesian_confidence_def Let_def fdiv_def fadd_def f0_7_def
    using fl_of_int [of 4] fl_of_int [of 5] by (intro fl_mono) simp
  also have "\<dots> \<le> bayesian_confidence (max 0 (fadd 3 (fmul 1 f0_1))) 3"
  proof (rule bayesian_confidence_mono)
    have "0 \<le> fmul 1 f0_1" unfolding fmul_def using f_lits_unit by (intro f64.nonneg) simp
    then have "fl 3 \<le> fadd 3 (fmul 1 f0_1)" unfolding fadd_def by (intro fl_mono) simp
    then show "3 \<le> max 0 (fadd 3 (fmul 1 f0_1))" using fl_of_int [of 3] by simp
  qed
  finally have "f0_7 \<le> bayesian_confidence (max 0 (fadd 3 (fmul 1 f0_1))) 3" .
  then show ?thesis
    by (simp add: feedback_pattern_def project_pattern_def superseded_pattern_db_def sample_pattern_def
        sample_req_def is_promoted_def pattern_view_of_def Let_def upd_row_def)
qed

end
