(* ===== verification/MemGraph.thy ===== *)
theory MemGraph
  imports MemService LegalHold
begin

text \<open>
  The memory graph, \<open>build_memory_graph\<close> of \<open>app/memory/service.py\<close>: a page of episodes with
  their attempts, outcomes, patterns, verifiers and evidence as nodes, and the relations among
  them as edges. Each block of the function is a definition; \<open>isofmt\<close> is the text of a timestamp.
\<close>

section \<open>Nodes and edges\<close>

record node =
  nd_id :: string
  nd_type :: string
  nd_label :: string
  nd_status :: "string option"
  nd_domain :: "string option"
  nd_metadata :: jobj

record edge =
  ed_id :: string
  ed_source :: string
  ed_target :: string
  ed_type :: string

record stats =
  st_episodes :: nat
  st_attempts :: nat
  st_outcomes :: nat
  st_patterns :: nat
  st_verifiers :: nat
  st_evidence :: nat

fun ep_status_str :: "ep_status \<Rightarrow> string" where
  "ep_status_str SOpen = ''open''"
| "ep_status_str SActive = ''active''"
| "ep_status_str SDegraded = ''degraded''"
| "ep_status_str SSuperseded = ''superseded''"
| "ep_status_str SRejected = ''rejected''"
| "ep_status_str SArchived = ''archived''"

fun result_str :: "attempt_result \<Rightarrow> string" where
  "result_str RSuccess = ''success''"
| "result_str RFailed = ''failed''"
| "result_str RPartial = ''partial''"

fun outcome_str :: "outcome_status \<Rightarrow> string" where
  "outcome_str OSuccess = ''success''"
| "outcome_str OFailed = ''failed''"
| "outcome_str OPartial = ''partial''"
| "outcome_str OCancelled = ''cancelled''"

fun kind_str :: "verifier_kind \<Rightarrow> string" where
  "kind_str VCi = ''ci''"
| "kind_str VRuntime = ''runtime''"
| "kind_str VTest = ''test''"
| "kind_str VBuild = ''build''"
| "kind_str VSelfReport = ''self_report''"
| "kind_str VCustom = ''custom''"

definition jopt :: "string option \<Rightarrow> json" where
  "jopt x = (case x of None \<Rightarrow> JNull | Some s \<Rightarrow> JStr s)"

text \<open>\<open>for x in xs: if key(x) in seen: continue; seen.add(key(x)); ...\<close>\<close>

fun unseen :: "('a \<Rightarrow> 'k) \<Rightarrow> 'k list \<Rightarrow> 'a list \<Rightarrow> 'a list" where
  "unseen key seen [] = []"
| "unseen key seen (x # xs) =
     (if key x \<in> set seen then unseen key seen xs else x # unseen key (key x # seen) xs)"

section \<open>Blocks\<close>

definition graph_episodes :: "mem_db \<Rightarrow> string \<Rightarrow> string option \<Rightarrow> string option \<Rightarrow> nat \<Rightarrow> episode list" where
  "graph_episodes db project status domain n =
     unseen ep_id [] (limit n (order_by (\<lambda>e. - ep_updated e)
       (filter (\<lambda>e. ep_project e = project
          \<and> (truthy_opt status \<longrightarrow> Some (ep_status_str (ep_status e)) = status)
          \<and> (truthy_opt domain \<longrightarrow> Some (ep_domain e) = domain)) (episodes db))))"

definition episode_node :: "(int \<Rightarrow> string) \<Rightarrow> episode \<Rightarrow> node" where
  "episode_node isofmt e =
     \<lparr>nd_id = ep_id e, nd_type = ''episode'', nd_label = ep_title e,
      nd_status = Some (ep_status_str (ep_status e)), nd_domain = Some (ep_domain e),
      nd_metadata = [(''goal'', JStr (ep_goal e)), (''problem_signature'', JStr (ep_signature e)),
        (''feedback_score'', JInt (ep_feedback e)), (''tags'', JList (map JStr (ep_tags e))),
        (''created_at'', JStr (isofmt (ep_created e)))]\<rparr>"

definition supersedes_edges :: "string list \<Rightarrow> episode list \<Rightarrow> edge list" where
  "supersedes_edges ids eps =
     map (\<lambda>e. \<lparr>ed_id = ''sup-'' @ ep_id e @ ''-'' @ the (ep_superseded_by e), ed_source = ep_id e,
                ed_target = the (ep_superseded_by e), ed_type = ''supersedes''\<rparr>)
       (filter (\<lambda>e. truthy_opt (ep_superseded_by e) \<and> the (ep_superseded_by e) \<in> set ids) eps)"

definition graph_attempts :: "mem_db \<Rightarrow> string list \<Rightarrow> attempt list" where
  "graph_attempts db ids = unseen at_id []
     (order_by (\<lambda>a. (at_episode a, at_sequence a)) (filter (\<lambda>a. at_episode a \<in> set ids) (attempts db)))"

definition attempt_node :: "attempt \<Rightarrow> node" where
  "attempt_node a =
     \<lparr>nd_id = at_id a, nd_type = ''attempt'',
      nd_label = ''#'' @ int_str (at_sequence a) @ '': '' @ take 60 (at_hypothesis a),
      nd_status = Some (result_str (at_result a)), nd_domain = None,
      nd_metadata = [(''hypothesis'', JStr (at_hypothesis a)), (''result'', JStr (result_str (at_result a))),
        (''notes'', jopt (at_notes a)), (''sequence'', JInt (at_sequence a))]\<rparr>"

definition has_edge :: "string \<Rightarrow> string \<Rightarrow> string \<Rightarrow> string \<Rightarrow> edge" where
  "has_edge pre typ s t = \<lparr>ed_id = pre @ ''-'' @ s @ ''-'' @ t, ed_source = s, ed_target = t, ed_type = typ\<rparr>"

definition attempt_edge :: "attempt \<Rightarrow> edge" where
  "attempt_edge a = has_edge ''eat'' ''has_attempt'' (at_episode a) (at_id a)"

definition graph_outcomes :: "mem_db \<Rightarrow> string list \<Rightarrow> outcome list" where
  "graph_outcomes db ids = filter (\<lambda>o'. out_episode o' \<in> set ids) (outcomes db)"

definition outcome_node :: "(int \<Rightarrow> string) \<Rightarrow> outcome \<Rightarrow> node" where
  "outcome_node isofmt o' =
     \<lparr>nd_id = out_id o', nd_type = ''outcome'',
      nd_label = outcome_str (out_status o') @ '': '' @ take 60 (out_summary o'),
      nd_status = Some (outcome_str (out_status o')), nd_domain = None,
      nd_metadata = [(''summary'', JStr (out_summary o')), (''lesson'', jopt (out_lesson o')),
        (''pattern_key'', JStr (out_pattern_key o')), (''created_at'', JStr (isofmt (out_created o')))]\<rparr>"

definition outcome_edge :: "outcome \<Rightarrow> edge" where
  "outcome_edge o' = has_edge ''eou'' ''has_outcome'' (out_episode o') (out_id o')"

definition graph_patterns :: "mem_db \<Rightarrow> string \<Rightarrow> outcome list \<Rightarrow> pattern list" where
  "graph_patterns db project outs =
     unseen pt_id [] (filter (\<lambda>p. pt_project p = project
       \<and> pt_key p \<in> set (filter (\<lambda>k. k \<noteq> []) (map out_pattern_key outs))) (patterns db))"

definition pattern_node :: "pattern \<Rightarrow> node" where
  "pattern_node p =
     \<lparr>nd_id = pt_id p, nd_type = ''pattern'', nd_label = pt_key p, nd_status = None, nd_domain = None,
      nd_metadata = [(''pattern_key'', JStr (pt_key p)), (''confidence'', JFloat (pt_confidence p)),
        (''verified_outcomes'', JInt (pt_verified p)), (''promoted'', JBool (pt_promoted p))]\<rparr>"

text \<open>\<open>pattern_map[out.pattern_key]\<close>: the last of the patterns with the key.\<close>

definition matches_edges :: "pattern list \<Rightarrow> outcome list \<Rightarrow> edge list" where
  "matches_edges pats outs =
     concat (map (\<lambda>o'. case map_of (rev (map (\<lambda>p. (pt_key p, p)) pats)) (out_pattern_key o') of
         Some p \<Rightarrow> if out_pattern_key o' \<noteq> [] then [has_edge ''omp'' ''matches_pattern'' (out_id o') (pt_id p)] else []
       | None \<Rightarrow> []) outs)"

definition graph_verifiers :: "mem_db \<Rightarrow> outcome list \<Rightarrow> verifier list" where
  "graph_verifiers db outs =
     unseen vr_id [] (filter (\<lambda>v. vr_outcome v \<in> set (map out_id outs)) (verifiers db))"

definition verifier_node :: "verifier \<Rightarrow> node" where
  "verifier_node v =
     \<lparr>nd_id = vr_id v, nd_type = ''verifier'', nd_label = kind_str (vr_kind v) @ '': '' @ vr_name v,
      nd_status = Some (vr_status v), nd_domain = None,
      nd_metadata = [(''kind'', JStr (kind_str (vr_kind v))), (''name'', JStr (vr_name v)),
        (''command'', jopt (vr_command v)), (''artifact_uri'', jopt (vr_artifact v))]\<rparr>"

definition verifier_edge :: "verifier \<Rightarrow> edge" where
  "verifier_edge v = has_edge ''ovr'' ''verified_by'' (vr_outcome v) (vr_id v)"

definition graph_evidence :: "mem_db \<Rightarrow> string list \<Rightarrow> evidence list" where
  "graph_evidence db ids = unseen ev_id [] (filter (\<lambda>v. ev_episode v \<in> set ids) (evidences db))"

definition evidence_node :: "evidence \<Rightarrow> node" where
  "evidence_node v =
     \<lparr>nd_id = ev_id v, nd_type = ''evidence'', nd_label = take 80 (ev_reference v),
      nd_status = None, nd_domain = None,
      nd_metadata = AList.update ''reference'' (JStr (ev_reference v)) (ev_metadata v)\<rparr>"

definition evidence_edge :: "evidence \<Rightarrow> edge" where
  "evidence_edge v = has_edge ''eev'' ''has_evidence'' (ev_episode v) (ev_id v)"

section \<open>The function\<close>

definition build_memory_graph ::
    "(int \<Rightarrow> string) \<Rightarrow> mem_db \<Rightarrow> string \<Rightarrow> string option \<Rightarrow> string option \<Rightarrow> nat \<Rightarrow> node list \<times> edge list \<times> stats" where
  "build_memory_graph isofmt db project status domain n =
     (let eps = graph_episodes db project status domain n;
          ids = map ep_id eps;
          sup = supersedes_edges ids eps
      in if ids = [] then
           (map (episode_node isofmt) eps, sup, \<lparr>st_episodes = length eps, st_attempts = 0, st_outcomes = 0,
              st_patterns = 0, st_verifiers = 0, st_evidence = 0\<rparr>)
         else
           let atts = graph_attempts db ids; outs = graph_outcomes db ids;
               pats = graph_patterns db project outs; vers = graph_verifiers db outs;
               evs = graph_evidence db ids
           in (map (episode_node isofmt) eps @ map attempt_node atts @ map (outcome_node isofmt) outs
                 @ map pattern_node pats @ map verifier_node vers @ map evidence_node evs,
               sup @ map attempt_edge atts @ map outcome_edge outs @ matches_edges pats outs
                 @ map verifier_edge vers @ map evidence_edge evs,
               \<lparr>st_episodes = length eps, st_attempts = length atts, st_outcomes = length outs,
                st_patterns = length pats, st_verifiers = length vers, st_evidence = length evs\<rparr>))"

section \<open>Facts\<close>

lemma unseen_spec: "set (unseen key seen xs) \<subseteq> set xs \<and> distinct (map key (unseen key seen xs))
    \<and> (\<forall>x\<in>set (unseen key seen xs). key x \<notin> set seen)"
proof (induction xs arbitrary: seen)
  case (Cons x xs)
  show ?case using Cons.IH [of seen] Cons.IH [of "key x # seen"] by auto
qed simp

lemma set_unseen: "set (unseen key seen xs) \<subseteq> set xs"
  by (rule conjunct1 [OF unseen_spec])

lemma length_unseen: "length (unseen key seen xs) \<le> length xs"
  by (induction xs arbitrary: seen) (auto simp: le_SucI)

definition node_ids :: "node list \<Rightarrow> string set" where
  "node_ids ns = nd_id ` set ns"

definition count_type :: "string \<Rightarrow> node list \<Rightarrow> nat" where
  "count_type t ns = length (filter (\<lambda>x. nd_type x = t) ns)"

lemma count_type_append [simp]: "count_type t (xs @ ys) = count_type t xs + count_type t ys"
  by (simp add: count_type_def)

lemma count_type_map:
  "(\<And>x. nd_type (f x) = t') \<Longrightarrow> count_type t (map f xs) = (if t = t' then length xs else 0)"
  by (auto simp: count_type_def filter_map o_def)

lemma node_types [simp]:
  "nd_type (episode_node isofmt e) = ''episode''" "nd_type (attempt_node a) = ''attempt''"
  "nd_type (outcome_node isofmt o') = ''outcome''" "nd_type (pattern_node p) = ''pattern''"
  "nd_type (verifier_node v) = ''verifier''" "nd_type (evidence_node w) = ''evidence''"
  by (simp_all add: episode_node_def attempt_node_def outcome_node_def pattern_node_def
      verifier_node_def evidence_node_def)

lemma node_id_eqs [simp]:
  "nd_id (episode_node isofmt e) = ep_id e" "nd_id (attempt_node a) = at_id a"
  "nd_id (outcome_node isofmt o') = out_id o'" "nd_id (pattern_node p) = pt_id p"
  "nd_id (verifier_node v) = vr_id v" "nd_id (evidence_node w) = ev_id w"
  by (simp_all add: episode_node_def attempt_node_def outcome_node_def pattern_node_def
      verifier_node_def evidence_node_def)

lemma edge_ends [simp]:
  "ed_source (attempt_edge a) = at_episode a" "ed_target (attempt_edge a) = at_id a"
  "ed_source (outcome_edge o') = out_episode o'" "ed_target (outcome_edge o') = out_id o'"
  "ed_source (verifier_edge v) = vr_outcome v" "ed_target (verifier_edge v) = vr_id v"
  "ed_source (evidence_edge w) = ev_episode w" "ed_target (evidence_edge w) = ev_id w"
  by (simp_all add: attempt_edge_def outcome_edge_def verifier_edge_def evidence_edge_def has_edge_def)

lemma supersedes_ends:
  "e \<in> set (supersedes_edges ids eps) \<Longrightarrow> ed_source e \<in> ep_id ` set eps \<and> ed_target e \<in> set ids"
  by (auto simp: supersedes_edges_def)

lemma matches_ends:
  "e \<in> set (matches_edges pats outs) \<Longrightarrow> ed_source e \<in> out_id ` set outs \<and> ed_target e \<in> pt_id ` set pats"
proof -
  let ?m = "map_of (rev (map (\<lambda>p. (pt_key p, p)) pats))"
  assume "e \<in> set (matches_edges pats outs)"
  then obtain o' where o': "o' \<in> set outs" and
    e': "e \<in> set (case ?m (out_pattern_key o') of
         Some p \<Rightarrow> if out_pattern_key o' \<noteq> [] then [has_edge ''omp'' ''matches_pattern'' (out_id o') (pt_id p)] else []
       | None \<Rightarrow> [])"
    unfolding matches_edges_def set_concat set_map by blast
  obtain p where p: "?m (out_pattern_key o') = Some p"
    using e' by (cases "?m (out_pattern_key o')") simp_all
  have e: "e = has_edge ''omp'' ''matches_pattern'' (out_id o') (pt_id p)"
    using e' unfolding p by (simp split: if_split_asm)
  from map_of_SomeD [OF p] have "p \<in> set pats" by auto
  with o' e show ?thesis by (simp add: has_edge_def)
qed

lemma graph_rows:
  "a \<in> set (graph_attempts db ids) \<Longrightarrow> at_episode a \<in> set ids"
  "o' \<in> set (graph_outcomes db ids) \<Longrightarrow> out_episode o' \<in> set ids"
  "v \<in> set (graph_verifiers db outs) \<Longrightarrow> vr_outcome v \<in> out_id ` set outs"
  "w \<in> set (graph_evidence db ids) \<Longrightarrow> ev_episode w \<in> set ids"
  by (auto simp: graph_attempts_def graph_outcomes_def graph_verifiers_def graph_evidence_def
      dest!: set_unseen [THEN subsetD])

section \<open>Properties\<close>

text \<open>The memory graph is closed and counted: every edge joins two nodes of the graph, the
  statistics are the numbers of nodes of each kind, there are at most the requested number of
  episodes, all of the project, and no episode, attempt, pattern, verifier or evidence twice.\<close>

theorem memory_graph_closed:
  assumes "build_memory_graph isofmt db project status domain n = (ns, es, st)"
  shows "(\<forall>e\<in>set es. ed_source e \<in> node_ids ns \<and> ed_target e \<in> node_ids ns)
    \<and> st_episodes st = count_type ''episode'' ns \<and> st_attempts st = count_type ''attempt'' ns
    \<and> st_outcomes st = count_type ''outcome'' ns \<and> st_patterns st = count_type ''pattern'' ns
    \<and> st_verifiers st = count_type ''verifier'' ns \<and> st_evidence st = count_type ''evidence'' ns
    \<and> st_episodes st \<le> n
    \<and> (\<forall>x\<in>set ns. nd_type x = ''episode'' \<longrightarrow> (\<exists>e\<in>set (episodes db). ep_id e = nd_id x \<and> ep_project e = project))"
proof -
  let ?eps = "graph_episodes db project status domain n"
  let ?ids = "map ep_id ?eps"
  let ?atts = "graph_attempts db ?ids" and ?outs = "graph_outcomes db ?ids"
  let ?pats = "graph_patterns db project ?outs" and ?vers = "graph_verifiers db ?outs"
  let ?evs = "graph_evidence db ?ids"
  have "length ?eps \<le> n"
    unfolding graph_episodes_def using length_unseen length_limit by (rule le_trans)
  moreover have eps: "\<forall>e\<in>set ?eps. e \<in> set (episodes db) \<and> ep_project e = project"
    unfolding graph_episodes_def by (auto dest!: set_unseen [THEN subsetD] set_limit [THEN subsetD])
  ultimately show ?thesis
  proof (cases "?ids = []")
    case True
    with assms show ?thesis
      by (auto simp: build_memory_graph_def Let_def supersedes_edges_def count_type_def)
  next
    case False
    then have ns: "ns = map (episode_node isofmt) ?eps @ map attempt_node ?atts @ map (outcome_node isofmt) ?outs
         @ map pattern_node ?pats @ map verifier_node ?vers @ map evidence_node ?evs"
      and es: "es = supersedes_edges ?ids ?eps @ map attempt_edge ?atts @ map outcome_edge ?outs
         @ matches_edges ?pats ?outs @ map verifier_edge ?vers @ map evidence_edge ?evs"
      and st: "st = \<lparr>st_episodes = length ?eps, st_attempts = length ?atts, st_outcomes = length ?outs,
         st_patterns = length ?pats, st_verifiers = length ?vers, st_evidence = length ?evs\<rparr>"
      using assms by (simp_all add: build_memory_graph_def Let_def)
    have "ed_source e \<in> node_ids ns \<and> ed_target e \<in> node_ids ns" if "e \<in> set es" for e
      using that graph_rows(1,2,4) [of _ db ?ids] graph_rows(3) [of _ db ?outs]
      by (auto simp: es ns node_ids_def image_Un image_image dest!: supersedes_ends matches_ends)
    moreover have "\<exists>e\<in>set (episodes db). ep_id e = nd_id x \<and> ep_project e = project"
      if "x \<in> set ns" "nd_type x = ''episode''" for x
      using that eps by (auto simp: ns)
    ultimately show ?thesis
      using \<open>length ?eps \<le> n\<close> unfolding st ns by (simp add: count_type_map)
  qed
qed

theorem memory_graph_closed_witness:
  "\<exists>ns es st. build_memory_graph (\<lambda>_. ''t'') (empty_db\<lparr>episodes := [\<lparr>ep_id = ''m'', ep_project = ''p'',
       ep_domain = ''custom'', ep_type = ''custom'', ep_title = ''t'', ep_goal = ''g'', ep_signature = ''s'',
       ep_scope = [], ep_tags = [], ep_metadata = [], ep_content = None, ep_confidence = 1 / 2,
       ep_version = 1, ep_root = None, ep_status = SOpen, ep_feedback = 0, ep_superseded_by = None,
       ep_created = 0, ep_updated = 0\<rparr>]\<rparr>) ''p'' None None 5 = (ns, es, st)
     \<and> st_episodes st = count_type ''episode'' ns \<and> st_episodes st \<le> 5"
proof -
  obtain ns es st where "build_memory_graph (\<lambda>_. ''t'') (empty_db\<lparr>episodes := [\<lparr>ep_id = ''m'', ep_project = ''p'',
       ep_domain = ''custom'', ep_type = ''custom'', ep_title = ''t'', ep_goal = ''g'', ep_signature = ''s'',
       ep_scope = [], ep_tags = [], ep_metadata = [], ep_content = None, ep_confidence = 1 / 2,
       ep_version = 1, ep_root = None, ep_status = SOpen, ep_feedback = 0, ep_superseded_by = None,
       ep_created = 0, ep_updated = 0\<rparr>]\<rparr>) ''p'' None None 5 = (ns, es, st)"
    using prod_cases3 by blast
  with memory_graph_closed [OF this] show ?thesis by blast
qed

end
