(* ===== verification/MemSearch.thy ===== *)
theory MemSearch
  imports Retention
begin

text \<open>
  Search over agent memory: \<open>fetch_search_results\<close> of \<open>app/memory/service.py\<close> and the
  \<open>/search\<close> endpoint of \<open>app/memory/api.py\<close>. PostgreSQL's part is the record \<open>pg\<close>: whether
  the text vector of an episode matches \<open>plainto_tsquery\<close> of the query, \<open>ts_rank_cd\<close>, and the
  text of a JSON value that is no string. \<open>ILIKE\<close> is modelled: percent, underscore and the
  escaping backslash.
\<close>

record pg =
  pg_matches :: "string \<Rightarrow> episode \<Rightarrow> bool"
  pg_rank :: "string \<Rightarrow> episode \<Rightarrow> rat"
  pg_text :: "json \<Rightarrow> string"

section \<open>SQL operators\<close>

fun like :: "string \<Rightarrow> string \<Rightarrow> bool" where
  "like [] s = (s = [])"
| "like (p # ps) [] = (p = CHR ''%'' \<and> like ps [])"
| "like (p # ps) (c # s) =
     (if p = CHR ''%'' then like ps (c # s) \<or> like (p # ps) s
      else if p = CHR ''_'' then like ps s
      else if p = char_of (92::nat) then (case ps of [] \<Rightarrow> False | q # qs \<Rightarrow> q = c \<and> like qs s)
      else p = c \<and> like ps s)"

definition ilike :: "string \<Rightarrow> string \<Rightarrow> bool" where
  "ilike pat s = like (py_lower pat) (py_lower s)"

text \<open>\<open>column["key"].astext\<close>, null for an absent key and for a JSON null.\<close>

definition astext :: "pg \<Rightarrow> string \<Rightarrow> jobj \<Rightarrow> string option" where
  "astext db_fns key d = (case jget key d of JNull \<Rightarrow> None | JStr s \<Rightarrow> Some s | v \<Rightarrow> Some (pg_text db_fns v))"

text \<open>The outer joins: each episode with its outcome and the outcome's pattern, if there are any.\<close>

definition outer :: "'a list \<Rightarrow> 'a option list" where
  "outer xs = (if xs = [] then [None] else map Some xs)"

definition joined :: "mem_db \<Rightarrow> episode \<Rightarrow> (episode \<times> pattern option) list" where
  "joined db e = concat (map (\<lambda>mo. case mo of
       None \<Rightarrow> [(e, None)]
     | Some o' \<Rightarrow> map (Pair e)
         (outer (filter (\<lambda>p. pt_project p = ep_project e \<and> pt_key p = out_pattern_key o') (patterns db))))
     (outer (filter (\<lambda>o'. out_episode o' = ep_id e) (outcomes db))))"

section \<open>The query\<close>

record search_params =
  sp_q :: string
  sp_signature :: "string option"
  sp_repository :: "string option"
  sp_environment :: "string option"
  sp_inactive :: bool
  sp_limit :: nat

definition signature_bonus :: "search_params \<Rightarrow> episode \<Rightarrow> rat" where
  "signature_bonus sp e =
     (if ep_signature e = (if truthy_opt (sp_signature sp) then the (sp_signature sp) else sp_q sp) then 2 else 0)"

definition scope_bonus :: "pg \<Rightarrow> search_params \<Rightarrow> episode \<Rightarrow> rat" where
  "scope_bonus db_fns sp e =
     (let b0 = 0;
          b1 = (if truthy_opt (sp_repository sp)
                then fadd b0 (if astext db_fns ''repository'' (ep_scope e) = sp_repository sp then 1 / 4 else 0) else b0)
      in if truthy_opt (sp_environment sp)
         then fadd b1 (if astext db_fns ''environment'' (ep_scope e) = sp_environment sp then 1 / 4 else 0) else b1)"

definition promoted_bonus :: "pattern option \<Rightarrow> rat" where
  "promoted_bonus p = (case p of Some q \<Rightarrow> if pt_promoted q then 1 / 2 else 0 | None \<Rightarrow> 0)"

definition search_score :: "pg \<Rightarrow> search_params \<Rightarrow> episode \<times> pattern option \<Rightarrow> rat" where
  "search_score db_fns sp row = (case row of (e, p) \<Rightarrow>
     fadd (fadd (fadd (fadd (pg_rank db_fns (sp_q sp) e) (signature_bonus sp e)) (scope_bonus db_fns sp e))
       (promoted_bonus p)) (case p of Some q \<Rightarrow> pt_confidence q | None \<Rightarrow> 0))"

text \<open>The filters shared by the full-text query and the fallback.\<close>

definition passes_filters :: "pg \<Rightarrow> search_params \<Rightarrow> string \<Rightarrow> episode \<Rightarrow> bool" where
  "passes_filters db_fns sp project e \<longleftrightarrow> ep_project e = project
     \<and> (\<not> sp_inactive sp \<longrightarrow> ep_status e \<notin> {SSuperseded, SRejected})
     \<and> (truthy_opt (sp_signature sp) \<longrightarrow> Some (ep_signature e) = sp_signature sp)
     \<and> (truthy_opt (sp_repository sp) \<longrightarrow> astext db_fns ''repository'' (ep_scope e) = sp_repository sp)
     \<and> (truthy_opt (sp_environment sp) \<longrightarrow> astext db_fns ''environment'' (ep_scope e) = sp_environment sp)"

definition ranked_rows :: "pg \<Rightarrow> mem_db \<Rightarrow> string \<Rightarrow> search_params \<Rightarrow> (episode \<times> pattern option) list" where
  "ranked_rows db_fns db project sp =
     limit (sp_limit sp)
       (order_by (\<lambda>r. (- search_score db_fns sp r, - ep_created (fst r)))
         (concat (map (joined db)
           (filter (\<lambda>e. passes_filters db_fns sp project e \<and> pg_matches db_fns (sp_q sp) e) (episodes db)))))"

definition query_keywords :: "string \<Rightarrow> string list" where
  "query_keywords q = filter (\<lambda>w. length w > 1) (map py_strip (py_split q))"

definition fuzzy_match :: "string list \<Rightarrow> episode \<Rightarrow> bool" where
  "fuzzy_match kws e =
     list_ex (\<lambda>kw. let pat = ''%'' @ kw @ ''%'' in
        ilike pat (ep_title e) \<or> ilike pat (ep_goal e) \<or> ilike pat (ep_signature e)) (take 5 kws)"

definition fallback_rows :: "pg \<Rightarrow> mem_db \<Rightarrow> string \<Rightarrow> search_params \<Rightarrow> (episode \<times> pattern option) list" where
  "fallback_rows db_fns db project sp =
     (let kws = query_keywords (sp_q sp) in
      if kws = [] then []
      else limit (sp_limit sp)
        (order_by (\<lambda>r. - ep_created (fst r))
          (concat (map (joined db)
            (filter (\<lambda>e. passes_filters db_fns sp project e \<and> fuzzy_match kws e) (episodes db))))))"

definition search_rows :: "pg \<Rightarrow> mem_db \<Rightarrow> string \<Rightarrow> search_params \<Rightarrow> (episode \<times> pattern option) list" where
  "search_rows db_fns db project sp =
     (let rows = ranked_rows db_fns db project sp in
      if rows = [] then fallback_rows db_fns db project sp else rows)"

definition last_outcome :: "mem_db \<Rightarrow> string \<Rightarrow> outcome option" where
  "last_outcome db k = find (\<lambda>o'. out_episode o' = k) (rev (outcomes db))"

definition best_attempt :: "mem_db \<Rightarrow> string \<Rightarrow> attempt option" where
  "best_attempt db k =
     find (\<lambda>a. at_episode a = k)
       (order_by (\<lambda>a. (at_episode a, - at_sequence a))
         (filter (\<lambda>a. at_result a = RSuccess) (attempts db)))"

definition scope_match :: "search_params \<Rightarrow> episode \<Rightarrow> bool" where
  "scope_match sp e \<longleftrightarrow>
     (\<not> truthy_opt (sp_repository sp) \<or> jget ''repository'' (ep_scope e) = JStr (the (sp_repository sp)))
     \<and> (\<not> truthy_opt (sp_environment sp) \<or> jget ''environment'' (ep_scope e) = JStr (the (sp_environment sp)))"

definition search_result_of :: "mem_db \<Rightarrow> search_params \<Rightarrow> episode \<times> pattern option \<Rightarrow> search_result" where
  "search_result_of db sp row = (case row of (e, p) \<Rightarrow>
     \<lparr>sr_episode = episode_view_of e [],
      sr_pattern = map_option pattern_view_of p,
      sr_actions = (case best_attempt db (ep_id e) of Some a \<Rightarrow> at_actions a | None \<Rightarrow> []),
      sr_lesson = (case last_outcome db (ep_id e) of Some o' \<Rightarrow> out_lesson o' | None \<Rightarrow> None),
      sr_scope_match = scope_match sp e\<rparr>)"

definition fetch_search_results :: "pg \<Rightarrow> mem_db \<Rightarrow> string \<Rightarrow> search_params \<Rightarrow> search_result list" where
  "fetch_search_results db_fns db project sp =
     map (search_result_of db sp) (search_rows db_fns db project sp)"

section \<open>The endpoint\<close>

definition search :: "pg \<Rightarrow> req \<Rightarrow> mem_db \<Rightarrow> search_params \<Rightarrow> (string \<times> search_result list \<times> mem_db) res" where
  "search db_fns rq db sp =
     (let results = fetch_search_results db_fns db (rq_project rq) sp;
          row = \<lparr>ra_id = memory_id (rq_ids rq 0), ra_project = rq_project rq, ra_query = ''[redacted]'',
                 ra_results = map (\<lambda>r. (w_id (sr_episode r), map_option pv_key (sr_pattern r))) results\<rparr>
      in bindE (insert_row ra_id row (retrieval_audits db)) (\<lambda>rows.
           Inr (sp_q sp, results, db\<lparr>retrieval_audits := rows\<rparr>)))"

section \<open>Facts\<close>

lemma outer_Some [simp]: "Some x \<in> set (outer xs) \<longleftrightarrow> x \<in> set xs"
  by (auto simp: outer_def split: if_splits)

lemma joined_fst: "r \<in> set (joined db e) \<Longrightarrow> fst r = e"
  by (auto simp: joined_def split: option.splits)

lemma joined_pattern: "(e', Some p) \<in> set (joined db e) \<Longrightarrow> p \<in> set (patterns db) \<and> pt_project p = ep_project e"
  by (auto simp: joined_def split: option.splits)

lemma rows_from_filter:
  assumes "r \<in> set (limit n (order_by f (concat (map (joined db) (filter P (episodes db))))))"
  shows "fst r \<in> set (episodes db) \<and> P (fst r)"
proof -
  have "r \<in> set (concat (map (joined db) (filter P (episodes db))))"
    using assms set_limit set_order_by by (metis (no_types, lifting) subsetD)
  then show ?thesis by (auto dest: joined_fst)
qed

lemma search_rows_ok:
  assumes "r \<in> set (search_rows db_fns db project sp)"
  shows "fst r \<in> set (episodes db) \<and> passes_filters db_fns sp project (fst r)"
proof (cases "ranked_rows db_fns db project sp = []")
  case True
  with assms show ?thesis
    by (auto simp: search_rows_def fallback_rows_def Let_def split: if_splits dest!: rows_from_filter)
next
  case False
  with assms show ?thesis
    by (auto simp: search_rows_def ranked_rows_def Let_def split: if_splits dest!: rows_from_filter)
qed

lemma length_search_rows: "length (search_rows db_fns db project sp) \<le> sp_limit sp"
  using length_limit by (auto simp: search_rows_def ranked_rows_def fallback_rows_def Let_def)

section \<open>Properties\<close>

text \<open>Search stays within its bounds: at most the requested number of results; every result is
  an episode of the caller's project that satisfies every filter of the request, superseded and
  rejected ones only on demand; and what the audit keeps of the request are identifiers, never the
  query.\<close>

theorem search_isolated:
  assumes "search db_fns rq db sp = Inr (q, results, db')"
  shows "length results \<le> sp_limit sp
    \<and> (\<forall>r\<in>set results. \<exists>e\<in>set (episodes db). w_id (sr_episode r) = ep_id e
        \<and> passes_filters db_fns sp (rq_project rq) e)
    \<and> (\<exists>row. retrieval_audits db' = retrieval_audits db @ [row] \<and> ra_query row = ''[redacted]''
        \<and> map fst (ra_results row) = map (\<lambda>r. w_id (sr_episode r)) results)
    \<and> episodes db' = episodes db"
proof -
  have res: "results = fetch_search_results db_fns db (rq_project rq) sp"
    using assms by (auto simp: search_def Let_def bindE_Inr_iff)
  have "\<exists>e\<in>set (episodes db). w_id (sr_episode r) = ep_id e \<and> passes_filters db_fns sp (rq_project rq) e"
    if "r \<in> set results" for r
  proof -
    obtain row where row: "row \<in> set (search_rows db_fns db (rq_project rq) sp)" "r = search_result_of db sp row"
      using \<open>r \<in> set results\<close> by (auto simp: res fetch_search_results_def)
    have "w_id (sr_episode r) = ep_id (fst row)"
      by (cases row) (simp add: row(2) search_result_of_def episode_view_of_def)
    with search_rows_ok [OF row(1)] show ?thesis by blast
  qed
  moreover have "length results \<le> sp_limit sp"
    by (simp add: res fetch_search_results_def length_search_rows)
  ultimately show ?thesis
    using assms by (auto simp: search_def Let_def bindE_Inr_iff insert_row_Inr_iff o_def)
qed

definition sample_pg :: pg where
  "sample_pg = \<lparr>pg_matches = (\<lambda>q e. ep_title e = q), pg_rank = (\<lambda>_ _. 1), pg_text = (\<lambda>_. [])\<rparr>"

definition sample_search :: search_params where
  "sample_search = \<lparr>sp_q = ''t'', sp_signature = None, sp_repository = None, sp_environment = None,
     sp_inactive = False, sp_limit = 5\<rparr>"

theorem search_isolated_witness:
  "\<exists>q rs db'. search sample_pg sample_req (empty_db\<lparr>episodes := [sample_episode ''m'' SOpen, sample_episode ''n'' SRejected]\<rparr>)
       sample_search = Inr (q, rs, db') \<and> length rs \<le> 5 \<and> (\<forall>r\<in>set rs. w_id (sr_episode r) = ''m'')"
proof -
  let ?db = "empty_db\<lparr>episodes := [sample_episode ''m'' SOpen, sample_episode ''n'' SRejected]\<rparr>"
  obtain q rs db' where s: "search sample_pg sample_req ?db sample_search = Inr (q, rs, db')"
    by (simp add: search_def empty_db_def insert_row_def Let_def)
  note c = search_isolated [OF s]
  have "ep_status (sample_episode ''n'' SRejected) = SRejected" "ep_id (sample_episode ''m'' SOpen) = ''m''"
    by (simp_all add: sample_episode_def)
  then have "\<forall>r\<in>set rs. w_id (sr_episode r) = ''m''"
    using c by (auto simp: passes_filters_def sample_search_def)
  with s c show ?thesis by (auto simp: sample_search_def)
qed

end
