(* ===== verification/GraphSchema.thy ===== *)
theory GraphSchema
  imports Json Ids
begin

text \<open>
  The document and knowledge-graph tables of \<open>app/models.py\<close> and \<open>app/graph/models.py\<close>, the
  query filters of \<open>app/graph/helpers.py\<close> and the temporal filter of \<open>app/graph/service.py\<close>,
  and what the foreign keys do when documents, chunks, relations or entities are deleted.
\<close>

section \<open>Enumerations\<close>

datatype doc_status = PendingUpload | Uploaded | StorageFailed | DQueued | Parsing | DChunking | Persisting
  | Indexed | DFailed | Cancelled | Stale | Deleting | DeleteFailed

datatype job_status = JQueued | JRunning | JSucceeded | JFailed

datatype ix_stage = StQueued | StReading | StParsing | StChunking | StPersisting | StComplete

datatype review_state = Unreviewed | Approved | Rejected | NeedsReview

section \<open>Rows\<close>

text \<open>The bookkeeping columns \<open>created_at\<close> and \<open>updated_at\<close>, which the database fills in, are left
  out where no modelled operation reads them.\<close>

record document =
  dc_id :: string
  dc_project :: string
  dc_dataset :: string
  dc_filename :: string
  dc_mime :: string
  dc_size :: int
  dc_hash :: string
  dc_source :: string
  dc_object_key :: string
  dc_status :: doc_status
  dc_error :: "string option"
  dc_stage :: "string option"
  dc_metadata :: jobj

record chunk =
  ck_id :: string
  ck_project :: string
  ck_dataset :: string
  ck_document :: string
  ck_pipeline :: string
  ck_index :: int
  ck_text :: string
  ck_tokens :: int
  ck_embedding :: "rat list option"
  ck_metadata :: jobj

record gentity =
  en_id :: string
  en_project :: string
  en_dataset :: string
  en_name :: string
  en_norm :: string
  en_type :: string
  en_confidence :: rat
  en_version :: int
  en_review :: review_state
  en_from :: int
  en_until :: "int option"
  en_superseded_by :: "string option"

record galias =
  as_id :: string
  as_project :: string
  as_dataset :: string
  as_entity :: string
  as_alias :: string
  as_norm :: string
  as_type :: string
  as_confidence :: rat

record alias_evidence =
  ae_alias :: string
  ae_evidence :: string

record grelation =
  rl_id :: string
  rl_project :: string
  rl_dataset :: string
  rl_source :: string
  rl_target :: string
  rl_type :: string
  rl_confidence :: rat
  rl_extractor :: string
  rl_review :: review_state
  rl_from :: int
  rl_until :: "int option"
  rl_superseded_by :: "string option"

record gevidence =
  gv_id :: string
  gv_project :: string
  gv_dataset :: string
  gv_document :: string
  gv_chunk :: string
  gv_run :: string
  gv_entity :: "string option"
  gv_relation :: "string option"
  gv_quote :: string
  gv_start :: "int option"
  gv_end :: "int option"
  gv_confidence :: rat

record gmerge =
  mg_id :: string
  mg_project :: string
  mg_dataset :: string
  mg_source :: string
  mg_target :: string
  mg_reason :: string
  mg_review :: review_state
  mg_reviewer :: "string option"

record graph_db =
  g_documents :: "document list"
  g_chunks :: "chunk list"
  g_entities :: "gentity list"
  g_aliases :: "galias list"
  g_alias_evidence :: "alias_evidence list"
  g_relations :: "grelation list"
  g_evidence :: "gevidence list"
  g_merges :: "gmerge list"

definition empty_graph :: graph_db where
  "empty_graph = \<lparr>g_documents = [], g_chunks = [], g_entities = [], g_aliases = [], g_alias_evidence = [],
     g_relations = [], g_evidence = [], g_merges = []\<rparr>"

section \<open>Filters\<close>

definition supported_relation :: "graph_db \<Rightarrow> grelation \<Rightarrow> bool" where
  "supported_relation db r \<longleftrightarrow> rl_review r \<noteq> Rejected
     \<and> (rl_review r = Approved \<or> list_ex (\<lambda>v. gv_relation v = Some (rl_id r)) (g_evidence db))"

definition supported_entity :: "graph_db \<Rightarrow> gentity \<Rightarrow> bool" where
  "supported_entity db e \<longleftrightarrow> en_review e \<noteq> Rejected
     \<and> (en_review e = Approved
        \<or> list_ex (\<lambda>v. gv_entity v = Some (en_id e)) (g_evidence db)
        \<or> list_ex (\<lambda>v. list_ex (\<lambda>r. gv_relation v = Some (rl_id r) \<and> rl_review r \<noteq> Rejected
              \<and> (rl_source r = en_id e \<or> rl_target r = en_id e)) (g_relations db)) (g_evidence db))"

text \<open>\<open>temporal_filter\<close> on the validity fields of a row.\<close>

definition temporal :: "int option \<Rightarrow> bool \<Rightarrow> int \<Rightarrow> int option \<Rightarrow> string option \<Rightarrow> bool" where
  "temporal as_of include_history valid_from valid_until superseded_by =
     (if include_history then True
      else case as_of of
        Some t \<Rightarrow> valid_from \<le> t \<and> (case valid_until of None \<Rightarrow> True | Some u \<Rightarrow> t < u)
      | None \<Rightarrow> valid_until = None \<and> superseded_by = None)"

definition temporal_entity :: "int option \<Rightarrow> bool \<Rightarrow> gentity \<Rightarrow> bool" where
  "temporal_entity as_of hist e = temporal as_of hist (en_from e) (en_until e) (en_superseded_by e)"

definition temporal_relation :: "int option \<Rightarrow> bool \<Rightarrow> grelation \<Rightarrow> bool" where
  "temporal_relation as_of hist r = temporal as_of hist (rl_from r) (rl_until r) (rl_superseded_by r)"

definition normalize_dataset_id :: "string \<Rightarrow> string" where
  "normalize_dataset_id k = (if \<not> starts_with ''ds_'' k then ''ds_'' @ k else k)"

section \<open>Limits\<close>

definition MAX_NEIGHBORS :: nat where "MAX_NEIGHBORS = 100"
definition MAX_NODES :: nat where "MAX_NODES = 200"
definition MAX_PATH_DEPTH :: nat where "MAX_PATH_DEPTH = 4"
definition MAX_PATH_RELATIONS :: nat where "MAX_PATH_RELATIONS = 200"
definition MAX_SUBGRAPH_DEPTH :: nat where "MAX_SUBGRAPH_DEPTH = 2"
definition MAX_SUBGRAPH_RELATIONS :: nat where "MAX_SUBGRAPH_RELATIONS = 400"
definition MAX_EXPLORER_NODES :: nat where "MAX_EXPLORER_NODES = 3000"
definition MAX_EXPLORER_RELATIONS :: nat where "MAX_EXPLORER_RELATIONS = 5000"
definition MAX_RELATION_CITATIONS :: nat where "MAX_RELATION_CITATIONS = 20"
definition GRAPH_CANDIDATE_LIMIT :: nat where "GRAPH_CANDIDATE_LIMIT = 2000"

section \<open>Deletions and their cascades\<close>

definition delete_evidence_rows :: "(gevidence \<Rightarrow> bool) \<Rightarrow> graph_db \<Rightarrow> graph_db" where
  "delete_evidence_rows P db =
     (let gone = map gv_id (filter P (g_evidence db)) in
      db\<lparr>g_evidence := del_rows P (g_evidence db),
         g_alias_evidence := del_rows (\<lambda>a. ae_evidence a \<in> set gone) (g_alias_evidence db)\<rparr>)"

definition delete_alias_rows :: "(galias \<Rightarrow> bool) \<Rightarrow> graph_db \<Rightarrow> graph_db" where
  "delete_alias_rows P db =
     (let gone = map as_id (filter P (g_aliases db)) in
      db\<lparr>g_aliases := del_rows P (g_aliases db),
         g_alias_evidence := del_rows (\<lambda>a. ae_alias a \<in> set gone) (g_alias_evidence db)\<rparr>)"

definition delete_relation_rows :: "(grelation \<Rightarrow> bool) \<Rightarrow> graph_db \<Rightarrow> graph_db" where
  "delete_relation_rows P db =
     (let gone = map rl_id (filter P (g_relations db)) in
      delete_evidence_rows (\<lambda>v. gv_relation v \<in> Some ` set gone)
        (db\<lparr>g_relations := del_rows P (g_relations db)\<rparr>))"

text \<open>Chunks of a document: their evidence goes with them (\<open>ON DELETE CASCADE\<close>).\<close>

definition delete_chunk_rows :: "(chunk \<Rightarrow> bool) \<Rightarrow> graph_db \<Rightarrow> graph_db" where
  "delete_chunk_rows P db =
     (let gone = map ck_id (filter P (g_chunks db)) in
      delete_evidence_rows (\<lambda>v. gv_chunk v \<in> set gone) (db\<lparr>g_chunks := del_rows P (g_chunks db)\<rparr>))"

definition delete_document_row :: "string \<Rightarrow> graph_db \<Rightarrow> graph_db" where
  "delete_document_row k db =
     delete_evidence_rows (\<lambda>v. gv_document v = k)
       (delete_chunk_rows (\<lambda>c. ck_document c = k)
         (db\<lparr>g_documents := del_rows (\<lambda>d. dc_id d = k) (g_documents db)\<rparr>))"

section \<open>Constraints of the schema\<close>

definition graph_keys :: "graph_db \<Rightarrow> bool" where
  "graph_keys db \<longleftrightarrow> distinct (map dc_id (g_documents db)) \<and> distinct (map ck_id (g_chunks db))
     \<and> distinct (map en_id (g_entities db)) \<and> distinct (map as_id (g_aliases db))
     \<and> distinct (map rl_id (g_relations db)) \<and> distinct (map gv_id (g_evidence db))
     \<and> distinct (map mg_id (g_merges db))"

definition opt_in :: "'a option \<Rightarrow> 'a set \<Rightarrow> bool" where
  "opt_in x A = (case x of None \<Rightarrow> True | Some y \<Rightarrow> y \<in> A)"

definition graph_refs :: "graph_db \<Rightarrow> bool" where
  "graph_refs db \<longleftrightarrow>
     (\<forall>r\<in>set (g_relations db). rl_source r \<in> en_id ` set (g_entities db) \<and> rl_target r \<in> en_id ` set (g_entities db)
        \<and> rl_source r \<noteq> rl_target r)
     \<and> (\<forall>v\<in>set (g_evidence db). opt_in (gv_entity v) (en_id ` set (g_entities db))
        \<and> opt_in (gv_relation v) (rl_id ` set (g_relations db))
        \<and> (gv_entity v = None) \<noteq> (gv_relation v = None)
        \<and> gv_chunk v \<in> ck_id ` set (g_chunks db))
     \<and> (\<forall>a\<in>set (g_aliases db). as_entity a \<in> en_id ` set (g_entities db))
     \<and> (\<forall>m\<in>set (g_merges db). mg_source m \<in> en_id ` set (g_entities db) \<and> mg_target m \<in> en_id ` set (g_entities db))
     \<and> (\<forall>c\<in>set (g_chunks db). ck_document c \<in> dc_id ` set (g_documents db))"

lemma opt_in_simps [simp]: "opt_in None A" "opt_in (Some x) A \<longleftrightarrow> x \<in> A"
  by (simp_all add: opt_in_def)

lemma delete_evidence_fields [simp]:
  "g_evidence (delete_evidence_rows P db) = del_rows P (g_evidence db)"
  "g_entities (delete_evidence_rows P db) = g_entities db"
  "g_relations (delete_evidence_rows P db) = g_relations db"
  "g_aliases (delete_evidence_rows P db) = g_aliases db"
  "g_merges (delete_evidence_rows P db) = g_merges db"
  "g_chunks (delete_evidence_rows P db) = g_chunks db"
  "g_documents (delete_evidence_rows P db) = g_documents db"
  by (simp_all add: delete_evidence_rows_def Let_def)

lemma delete_alias_fields [simp]:
  "g_evidence (delete_alias_rows P db) = g_evidence db"
  "g_entities (delete_alias_rows P db) = g_entities db"
  "g_relations (delete_alias_rows P db) = g_relations db"
  "g_aliases (delete_alias_rows P db) = del_rows P (g_aliases db)"
  "g_merges (delete_alias_rows P db) = g_merges db"
  "g_chunks (delete_alias_rows P db) = g_chunks db"
  "g_documents (delete_alias_rows P db) = g_documents db"
  by (simp_all add: delete_alias_rows_def Let_def)

lemma delete_relation_fields [simp]:
  "g_evidence (delete_relation_rows P db) =
     del_rows (\<lambda>v. gv_relation v \<in> Some ` set (map rl_id (filter P (g_relations db)))) (g_evidence db)"
  "g_entities (delete_relation_rows P db) = g_entities db"
  "g_relations (delete_relation_rows P db) = del_rows P (g_relations db)"
  "g_aliases (delete_relation_rows P db) = g_aliases db"
  "g_merges (delete_relation_rows P db) = g_merges db"
  "g_chunks (delete_relation_rows P db) = g_chunks db"
  "g_documents (delete_relation_rows P db) = g_documents db"
  by (simp_all add: delete_relation_rows_def Let_def)

lemma delete_chunk_fields [simp]:
  "g_evidence (delete_chunk_rows P db) =
     del_rows (\<lambda>v. gv_chunk v \<in> set (map ck_id (filter P (g_chunks db)))) (g_evidence db)"
  "g_entities (delete_chunk_rows P db) = g_entities db"
  "g_relations (delete_chunk_rows P db) = g_relations db"
  "g_aliases (delete_chunk_rows P db) = g_aliases db"
  "g_merges (delete_chunk_rows P db) = g_merges db"
  "g_chunks (delete_chunk_rows P db) = del_rows P (g_chunks db)"
  "g_documents (delete_chunk_rows P db) = g_documents db"
  by (simp_all add: delete_chunk_rows_def Let_def)

lemma delete_evidence_refs: "graph_refs db \<Longrightarrow> graph_refs (delete_evidence_rows P db)"
  unfolding graph_refs_def by simp

lemma delete_evidence_keys: "graph_keys db \<Longrightarrow> graph_keys (delete_evidence_rows P db)"
  unfolding graph_keys_def by (simp add: distinct_map_del_rows)

section \<open>A concrete graph\<close>

definition sample_entity :: "string \<Rightarrow> gentity" where
  "sample_entity k = \<lparr>en_id = k, en_project = ''p'', en_dataset = ''d'', en_name = k, en_norm = k,
     en_type = ''thing'', en_confidence = 1, en_version = 1, en_review = Unreviewed, en_from = 0,
     en_until = None, en_superseded_by = None\<rparr>"

definition sample_relation :: "string \<Rightarrow> string \<Rightarrow> string \<Rightarrow> review_state \<Rightarrow> grelation" where
  "sample_relation k a b st = \<lparr>rl_id = k, rl_project = ''p'', rl_dataset = ''d'', rl_source = a, rl_target = b,
     rl_type = ''uses'', rl_confidence = 1, rl_extractor = ''x'', rl_review = st, rl_from = 0,
     rl_until = None, rl_superseded_by = None\<rparr>"

definition sample_cite :: "string \<Rightarrow> string \<Rightarrow> string option \<Rightarrow> string option \<Rightarrow> gevidence" where
  "sample_cite k doc e r = \<lparr>gv_id = k, gv_project = ''p'', gv_dataset = ''d'', gv_document = doc, gv_chunk = doc,
     gv_run = ''run'', gv_entity = e, gv_relation = r, gv_quote = ''q'', gv_start = None, gv_end = None,
     gv_confidence = 1\<rparr>"

definition sample_chunk :: "string \<Rightarrow> chunk" where
  "sample_chunk k = \<lparr>ck_id = k, ck_project = ''p'', ck_dataset = ''d'', ck_document = k, ck_pipeline = ''v'',
     ck_index = 0, ck_text = ''t'', ck_tokens = 1, ck_embedding = None, ck_metadata = []\<rparr>"

definition sample_document :: "string \<Rightarrow> document" where
  "sample_document k = \<lparr>dc_id = k, dc_project = ''p'', dc_dataset = ''d'', dc_filename = ''f'', dc_mime = ''text/plain'',
     dc_size = 1, dc_hash = k, dc_source = ''upload'', dc_object_key = k, dc_status = Indexed, dc_error = None, dc_stage = None, dc_metadata = []\<rparr>"

text \<open>Two documents; \<open>x\<close> cites the relation between \<open>a\<close> and \<open>b\<close>, \<open>y\<close> cites \<open>c\<close>.\<close>

definition sample_graph :: "review_state \<Rightarrow> graph_db" where
  "sample_graph st = empty_graph\<lparr>
     g_documents := [sample_document ''x'', sample_document ''y''],
     g_chunks := [sample_chunk ''x'', sample_chunk ''y''],
     g_entities := [sample_entity ''a'', sample_entity ''b'', sample_entity ''c''],
     g_relations := [sample_relation ''r'' ''a'' ''b'' st],
     g_evidence := [sample_cite ''v'' ''x'' None (Some ''r''), sample_cite ''w'' ''y'' (Some ''c'') None]\<rparr>"

lemmas sample_graph_defs = sample_graph_def empty_graph_def sample_document_def sample_chunk_def
  sample_entity_def sample_relation_def sample_cite_def

lemma sample_graph_ok: "graph_keys (sample_graph st)" "graph_refs (sample_graph st)"
  by (simp_all add: graph_keys_def graph_refs_def sample_graph_defs)

end
