(* ===== verification/GraphGc.thy ===== *)
theory GraphGc
  imports GraphSchema
begin

text \<open>
  Garbage collection of graph subjects, \<open>cleanup_document_graph\<close> of \<open>app/graph/gc.py\<close>: the
  evidence of one document is deleted, then aliases, relations and entities left without support.
  Each numbered step of the function is a definition; a Python set of identifiers is a list used
  only for membership.
\<close>

section \<open>The steps\<close>

definition in_scope :: "string \<Rightarrow> string \<Rightarrow> string \<Rightarrow> string \<Rightarrow> bool" where
  "in_scope project dataset p d \<longleftrightarrow> p = project \<and> d = dataset"

definition doc_evidence :: "string \<Rightarrow> string \<Rightarrow> string \<Rightarrow> gevidence \<Rightarrow> bool" where
  "doc_evidence project dataset doc v \<longleftrightarrow>
     in_scope project dataset (gv_project v) (gv_dataset v) \<and> gv_document v = doc"

definition somes :: "'a option list \<Rightarrow> 'a list" where
  "somes xs = concat (map (\<lambda>x. case x of None \<Rightarrow> [] | Some y \<Rightarrow> [y]) xs)"

definition affected_entities :: "string \<Rightarrow> string \<Rightarrow> string \<Rightarrow> graph_db \<Rightarrow> string list" where
  "affected_entities p d doc db = somes (map gv_entity (filter (doc_evidence p d doc) (g_evidence db)))"

definition affected_relations :: "string \<Rightarrow> string \<Rightarrow> string \<Rightarrow> graph_db \<Rightarrow> string list" where
  "affected_relations p d doc db = somes (map gv_relation (filter (doc_evidence p d doc) (g_evidence db)))"

text \<open>2. Aliases of affected entities that lost all evidence.\<close>

definition gc_aliases :: "string \<Rightarrow> string \<Rightarrow> string list \<Rightarrow> graph_db \<Rightarrow> graph_db" where
  "gc_aliases p d ents db =
     delete_alias_rows (\<lambda>a. in_scope p d (as_project a) (as_dataset a) \<and> as_entity a \<in> set ents
        \<and> \<not> list_ex (\<lambda>x. ae_alias x = as_id a) (g_alias_evidence db)) db"

text \<open>3. Affected relations that lost all evidence.\<close>

definition gc_relations :: "string \<Rightarrow> string \<Rightarrow> string list \<Rightarrow> graph_db \<Rightarrow> graph_db" where
  "gc_relations p d rels db =
     delete_relation_rows (\<lambda>r. in_scope p d (rl_project r) (rl_dataset r) \<and> rl_id r \<in> set rels
        \<and> \<not> list_ex (\<lambda>v. gv_relation v = Some (rl_id r)) (g_evidence db)) db"

text \<open>4. Candidates: affected entities and the endpoints of the affected relations that are still
  there.\<close>

definition gc_candidates :: "string \<Rightarrow> string \<Rightarrow> string list \<Rightarrow> string list \<Rightarrow> graph_db \<Rightarrow> string list" where
  "gc_candidates p d ents rels db =
     ents @ concat (map (\<lambda>r. [rl_source r, rl_target r])
       (filter (\<lambda>r. in_scope p d (rl_project r) (rl_dataset r) \<and> rl_id r \<in> set rels) (g_relations db)))"

definition has_evidence :: "graph_db \<Rightarrow> string \<Rightarrow> bool" where
  "has_evidence db k = list_ex (\<lambda>v. gv_entity v = Some k) (g_evidence db)"

definition has_relation :: "graph_db \<Rightarrow> string \<Rightarrow> bool" where
  "has_relation db k = list_ex (\<lambda>r. rl_source r = k \<or> rl_target r = k) (g_relations db)"

definition gc_unsupported :: "string \<Rightarrow> string \<Rightarrow> string list \<Rightarrow> graph_db \<Rightarrow> string list" where
  "gc_unsupported p d cands db =
     map en_id (filter (\<lambda>e. in_scope p d (en_project e) (en_dataset e) \<and> en_id e \<in> set cands
        \<and> \<not> has_evidence db (en_id e) \<and> \<not> has_relation db (en_id e)) (g_entities db))"

definition gc_merges :: "string \<Rightarrow> string \<Rightarrow> string list \<Rightarrow> graph_db \<Rightarrow> gmerge list" where
  "gc_merges p d ids db =
     filter (\<lambda>m. in_scope p d (mg_project m) (mg_dataset m)
        \<and> (mg_source m \<in> set ids \<or> mg_target m \<in> set ids)) (g_merges db)"

definition removable_merge :: "string list \<Rightarrow> gmerge \<Rightarrow> bool" where
  "removable_merge ids m \<longleftrightarrow> mg_source m \<in> set ids \<and> mg_target m \<in> set ids"

definition gc_protected :: "string list \<Rightarrow> gmerge list \<Rightarrow> string list" where
  "gc_protected ids merges =
     concat (map (\<lambda>m. [mg_source m, mg_target m]) (filter (\<lambda>m. \<not> removable_merge ids m) merges))"

definition gc_entities :: "string \<Rightarrow> string \<Rightarrow> string list \<Rightarrow> graph_db \<Rightarrow> graph_db" where
  "gc_entities p d cands db =
     (let ids = gc_unsupported p d cands db;
          merges = gc_merges p d ids db;
          removable = filter (\<lambda>k. k \<notin> set (gc_protected ids merges)) ids
      in if cands = [] \<or> ids = [] \<or> removable = [] then db
         else
           let db1 = db\<lparr>g_merges := del_rows (\<lambda>m. in_scope p d (mg_project m) (mg_dataset m)
                            \<and> removable_merge ids m) (g_merges db)\<rparr>;
               db2 = delete_alias_rows (\<lambda>a. as_entity a \<in> set removable) db1
           in db2\<lparr>g_entities := del_rows (\<lambda>e. en_id e \<in> set removable) (g_entities db2)\<rparr>)"

definition cleanup_document_graph :: "string \<Rightarrow> string \<Rightarrow> string \<Rightarrow> graph_db \<Rightarrow> graph_db" where
  "cleanup_document_graph p d doc db =
     (let ents = affected_entities p d doc db;
          rels = affected_relations p d doc db;
          db1 = delete_evidence_rows (doc_evidence p d doc) db;
          db2 = (if ents = [] then db1 else gc_aliases p d ents db1);
          db3 = (if rels = [] then db2 else gc_relations p d rels db2)
      in gc_entities p d (gc_candidates p d ents rels db3) db3)"

section \<open>Facts\<close>

lemma set_somes [simp]: "set (somes xs) = {x. Some x \<in> set xs}"
  by (induction xs) (auto simp: somes_def split: option.splits)

lemma set_affected:
  "set (affected_entities p d doc db) = {k. \<exists>v\<in>set (g_evidence db). doc_evidence p d doc v \<and> gv_entity v = Some k}"
  "set (affected_relations p d doc db) = {k. \<exists>v\<in>set (g_evidence db). doc_evidence p d doc v \<and> gv_relation v = Some k}"
  unfolding affected_entities_def affected_relations_def by force+

lemma gc_alias_fields [simp]:
  "g_evidence (gc_aliases p d ents db) = g_evidence db"
  "g_entities (gc_aliases p d ents db) = g_entities db"
  "g_relations (gc_aliases p d ents db) = g_relations db"
  "g_merges (gc_aliases p d ents db) = g_merges db"
  "g_chunks (gc_aliases p d ents db) = g_chunks db"
  "g_documents (gc_aliases p d ents db) = g_documents db"
  by (simp_all add: gc_aliases_def)

lemma gc_relation_fields [simp]:
  "g_entities (gc_relations p d rels db) = g_entities db"
  "g_aliases (gc_relations p d rels db) = g_aliases db"
  "g_merges (gc_relations p d rels db) = g_merges db"
  "g_chunks (gc_relations p d rels db) = g_chunks db"
  "g_documents (gc_relations p d rels db) = g_documents db"
  by (simp_all add: gc_relations_def)

text \<open>The evidence of a deleted relation is none, so the cascade deletes nothing.\<close>

lemma gc_relations_evidence:
  assumes "distinct (map rl_id (g_relations db))"
  shows "g_evidence (gc_relations p d rels db) = g_evidence db"
proof -
  have "gv_relation v \<noteq> Some (rl_id r)"
    if "v \<in> set (g_evidence db)" "r \<in> set (g_relations db)"
      "\<not> list_ex (\<lambda>v. gv_relation v = Some (rl_id r)) (g_evidence db)" for v r
    using that by (auto simp: list_ex_iff)
  then show ?thesis
    by (auto simp: gc_relations_def del_rows_def intro!: filter_True)
qed

lemma gc_relations_set:
  "set (g_relations (gc_relations p d rels db)) =
     {r \<in> set (g_relations db). \<not> (in_scope p d (rl_project r) (rl_dataset r) \<and> rl_id r \<in> set rels
        \<and> \<not> list_ex (\<lambda>v. gv_relation v = Some (rl_id r)) (g_evidence db))}"
  by (simp add: gc_relations_def)

lemma gc_entities_frame [simp]:
  "g_evidence (gc_entities p d cands db) = g_evidence db"
  "g_relations (gc_entities p d cands db) = g_relations db"
  "g_chunks (gc_entities p d cands db) = g_chunks db"
  "g_documents (gc_entities p d cands db) = g_documents db"
  by (simp_all add: gc_entities_def Let_def)

lemma gc_unsupported_iff:
  "k \<in> set (gc_unsupported p d cands db) \<longleftrightarrow>
     (\<exists>e\<in>set (g_entities db). en_id e = k \<and> in_scope p d (en_project e) (en_dataset e)
        \<and> k \<in> set cands \<and> \<not> has_evidence db k \<and> \<not> has_relation db k)"
  by (auto simp: gc_unsupported_def)

definition gc_removable :: "string \<Rightarrow> string \<Rightarrow> string list \<Rightarrow> graph_db \<Rightarrow> string list" where
  "gc_removable p d cands db =
     (let ids = gc_unsupported p d cands db in
      filter (\<lambda>k. k \<notin> set (gc_protected ids (gc_merges p d ids db))) ids)"

lemma gc_entities_eq:
  "gc_entities p d cands db =
     (let removable = gc_removable p d cands db in
      if removable = [] then db
      else
        let db1 = db\<lparr>g_merges := del_rows (\<lambda>m. in_scope p d (mg_project m) (mg_dataset m)
                         \<and> removable_merge (gc_unsupported p d cands db) m) (g_merges db)\<rparr>;
            db2 = delete_alias_rows (\<lambda>a. as_entity a \<in> set removable) db1
        in db2\<lparr>g_entities := del_rows (\<lambda>e. en_id e \<in> set removable) (g_entities db2)\<rparr>)"
proof -
  have "cands = [] \<Longrightarrow> gc_unsupported p d cands db = []" by (simp add: gc_unsupported_def)
  moreover have "gc_unsupported p d cands db = [] \<Longrightarrow> gc_removable p d cands db = []"
    by (simp add: gc_removable_def Let_def)
  ultimately show ?thesis by (auto simp: gc_entities_def gc_removable_def Let_def)
qed

lemma gc_entities_set:
  "set (g_entities (gc_entities p d cands db)) =
     {e \<in> set (g_entities db). en_id e \<notin> set (gc_removable p d cands db)}"
  by (auto simp: gc_entities_eq Let_def)

lemma gc_entities_merges:
  "m \<in> set (g_merges (gc_entities p d cands db)) \<Longrightarrow> m \<in> set (g_merges db)
     \<and> (gc_removable p d cands db = [] \<or>
        \<not> (in_scope p d (mg_project m) (mg_dataset m) \<and> removable_merge (gc_unsupported p d cands db) m))"
  by (auto simp: gc_entities_eq Let_def split: if_splits)

lemma gc_entities_aliases:
  "a \<in> set (g_aliases (gc_entities p d cands db)) \<Longrightarrow> a \<in> set (g_aliases db)
     \<and> as_entity a \<notin> set (gc_removable p d cands db)"
  by (auto simp: gc_entities_eq Let_def split: if_splits)

lemma gc_removable_iff:
  "k \<in> set (gc_removable p d cands db) \<longleftrightarrow> k \<in> set (gc_unsupported p d cands db)
     \<and> k \<notin> set (gc_protected (gc_unsupported p d cands db) (gc_merges p d (gc_unsupported p d cands db) db))"
  by (auto simp: gc_removable_def Let_def)

lemma gc_protected_iff:
  "k \<in> set (gc_protected ids ms) \<longleftrightarrow>
     (\<exists>m\<in>set ms. \<not> removable_merge ids m \<and> (mg_source m = k \<or> mg_target m = k))"
  by (auto simp: gc_protected_def)

section \<open>The whole function\<close>

text \<open>The state before entities are removed.\<close>

definition gc_mid :: "string \<Rightarrow> string \<Rightarrow> string \<Rightarrow> graph_db \<Rightarrow> graph_db" where
  "gc_mid p d doc db =
     (let ents = affected_entities p d doc db;
          rels = affected_relations p d doc db;
          db1 = delete_evidence_rows (doc_evidence p d doc) db;
          db2 = (if ents = [] then db1 else gc_aliases p d ents db1)
      in (if rels = [] then db2 else gc_relations p d rels db2))"

lemma cleanup_eq:
  "cleanup_document_graph p d doc db =
     gc_entities p d (gc_candidates p d (affected_entities p d doc db) (affected_relations p d doc db)
       (gc_mid p d doc db)) (gc_mid p d doc db)"
  by (simp add: cleanup_document_graph_def gc_mid_def Let_def)

lemma gc_mid_evidence:
  assumes "distinct (map rl_id (g_relations db))"
  shows "g_evidence (gc_mid p d doc db) = del_rows (doc_evidence p d doc) (g_evidence db)"
  using assms by (simp add: gc_mid_def Let_def gc_relations_evidence)

lemma gc_mid_relations:
  assumes "r \<in> set (g_relations db)"
  shows "r \<in> set (g_relations (gc_mid p d doc db)) \<longleftrightarrow>
     \<not> (in_scope p d (rl_project r) (rl_dataset r) \<and> rl_id r \<in> set (affected_relations p d doc db)
        \<and> \<not> (\<exists>v\<in>set (g_evidence db). \<not> doc_evidence p d doc v \<and> gv_relation v = Some (rl_id r)))"
  using assms by (auto simp: gc_mid_def Let_def gc_relations_set list_ex_iff)

lemma gc_mid_relations_subset: "set (g_relations (gc_mid p d doc db)) \<subseteq> set (g_relations db)"
  by (auto simp: gc_mid_def Let_def gc_relations_set)

lemma gc_mid_frame [simp]:
  "g_entities (gc_mid p d doc db) = g_entities db" "g_merges (gc_mid p d doc db) = g_merges db"
  "g_chunks (gc_mid p d doc db) = g_chunks db" "g_documents (gc_mid p d doc db) = g_documents db"
  by (simp_all add: gc_mid_def Let_def)

lemma gc_mid_aliases: "set (g_aliases (gc_mid p d doc db)) \<subseteq> set (g_aliases db)"
  by (auto simp: gc_mid_def Let_def gc_aliases_def)

text \<open>Merge records stay in the scope of the entities they name.\<close>

definition merges_scoped :: "graph_db \<Rightarrow> bool" where
  "merges_scoped db \<longleftrightarrow> (\<forall>m\<in>set (g_merges db). \<forall>e\<in>set (g_entities db).
     en_id e = mg_source m \<or> en_id e = mg_target m \<longrightarrow>
       en_project e = mg_project m \<and> en_dataset e = mg_dataset m)"

lemma gc_no_restrict:
  assumes ms: "merges_scoped db" and m: "m \<in> set (g_merges (gc_entities p d cands db))"
  shows "mg_source m \<notin> set (gc_removable p d cands db) \<and> mg_target m \<notin> set (gc_removable p d cands db)"
proof -
  let ?ids = "gc_unsupported p d cands db"
  have "k \<notin> set (gc_removable p d cands db)" if k: "k = mg_source m \<or> k = mg_target m" for k
  proof
    assume rem: "k \<in> set (gc_removable p d cands db)"
    then have un: "k \<in> set ?ids" and np: "k \<notin> set (gc_protected ?ids (gc_merges p d ?ids db))"
      by (simp_all add: gc_removable_iff)
    from un obtain e where e: "e \<in> set (g_entities db)" "en_id e = k" "in_scope p d (en_project e) (en_dataset e)"
      by (auto simp: gc_unsupported_iff)
    have mdb: "m \<in> set (g_merges db)" using gc_entities_merges [OF m] by blast
    then have sc: "in_scope p d (mg_project m) (mg_dataset m)"
      using ms e k by (auto simp: merges_scoped_def in_scope_def)
    then have "\<not> removable_merge ?ids m" using gc_entities_merges [OF m] rem by auto
    moreover have "m \<in> set (gc_merges p d ?ids db)" using sc mdb un k by (auto simp: gc_merges_def)
    ultimately show False using np k by (auto simp: gc_protected_iff)
  qed
  then show ?thesis by blast
qed

lemma removable_no_use:
  assumes "k \<in> set (gc_removable p d cands db)"
  shows "\<not> has_evidence db k \<and> \<not> has_relation db k"
  using assms by (auto simp: gc_removable_iff gc_unsupported_iff)

lemma gc_mid_refs:
  assumes "graph_keys db" "graph_refs db"
  shows "graph_refs (gc_mid p d doc db)"
proof -
  have d: "distinct (map rl_id (g_relations db))" using assms(1) by (simp add: graph_keys_def)
  have ev: "set (g_evidence (gc_mid p d doc db)) = {v \<in> set (g_evidence db). \<not> doc_evidence p d doc v}"
    using gc_mid_evidence [OF d] by simp
  have rel: "opt_in (gv_relation v) (rl_id ` set (g_relations (gc_mid p d doc db)))"
    if v: "v \<in> set (g_evidence db)" "\<not> doc_evidence p d doc v" for v
  proof (cases "gv_relation v")
    case (Some k)
    with v assms(2) obtain r where r: "r \<in> set (g_relations db)" "rl_id r = k" by (force simp: graph_refs_def)
    then have "r \<in> set (g_relations (gc_mid p d doc db))" using gc_mid_relations [OF r(1)] v Some by auto
    with r Some show ?thesis by auto
  qed simp
  show ?thesis
    using assms(2) gc_mid_relations_subset [of p d doc db] gc_mid_aliases [of p d doc db] rel
    unfolding graph_refs_def ev by (auto dest: subsetD)
qed

lemma gc_entities_refs:
  assumes "graph_refs db" "merges_scoped db"
  shows "graph_refs (gc_entities p d cands db)"
proof -
  let ?db = "gc_entities p d cands db"
  have keep: "k \<in> en_id ` set (g_entities ?db)"
    if "k \<in> en_id ` set (g_entities db)" "k \<notin> set (gc_removable p d cands db)" for k
    using that by (auto simp: gc_entities_set)
  have rel: "rl_source r \<in> en_id ` set (g_entities ?db) \<and> rl_target r \<in> en_id ` set (g_entities ?db) \<and> rl_source r \<noteq> rl_target r"
    if "r \<in> set (g_relations db)" for r
  proof -
    have "rl_source r \<notin> set (gc_removable p d cands db)" "rl_target r \<notin> set (gc_removable p d cands db)"
      using removable_no_use that by (fastforce simp: has_relation_def list_ex_iff)+
    with that assms(1) keep show ?thesis by (simp add: graph_refs_def)
  qed
  have ev: "opt_in (gv_entity v) (en_id ` set (g_entities ?db))" if "v \<in> set (g_evidence db)" for v
  proof (cases "gv_entity v")
    case (Some k)
    then have "k \<notin> set (gc_removable p d cands db)"
      using removable_no_use that by (fastforce simp: has_evidence_def list_ex_iff)
    with Some that assms(1) keep show ?thesis by (force simp: graph_refs_def)
  qed simp
  have al: "as_entity a \<in> en_id ` set (g_entities ?db)" if "a \<in> set (g_aliases ?db)" for a
    using gc_entities_aliases [OF that] assms(1) keep by (simp add: graph_refs_def)
  have mg: "mg_source m \<in> en_id ` set (g_entities ?db) \<and> mg_target m \<in> en_id ` set (g_entities ?db)"
    if "m \<in> set (g_merges ?db)" for m
    using gc_no_restrict [OF assms(2) that] gc_entities_merges [OF that] assms(1) keep by (simp add: graph_refs_def)
  show ?thesis
    unfolding graph_refs_def using rel ev al mg assms(1) by (simp add: graph_refs_def)
qed

lemma sample_merges_scoped: "merges_scoped (sample_graph st)"
  by (simp add: merges_scoped_def sample_graph_def empty_graph_def)

section \<open>Properties\<close>





lemma sample_affected:
  "affected_entities ''p'' ''d'' ''x'' (sample_graph st) = []"
  "affected_relations ''p'' ''d'' ''x'' (sample_graph st) = [''r'']"
  by (simp_all add: affected_entities_def affected_relations_def somes_def doc_evidence_def in_scope_def
      sample_graph_def empty_graph_def sample_cite_def)

lemma sample_mid_relations: "g_relations (gc_mid ''p'' ''d'' ''x'' (sample_graph st)) = []"
proof -
  have "r \<notin> set (g_relations (gc_mid ''p'' ''d'' ''x'' (sample_graph st)))" for r
  proof
    assume r: "r \<in> set (g_relations (gc_mid ''p'' ''d'' ''x'' (sample_graph st)))"
    then have r0: "r \<in> set (g_relations (sample_graph st))" using gc_mid_relations_subset by blast
    then have "r = sample_relation ''r'' ''a'' ''b'' st" by (simp add: sample_graph_def)
    moreover have "\<not> (\<exists>v\<in>set (g_evidence (sample_graph st)).
        \<not> doc_evidence ''p'' ''d'' ''x'' v \<and> gv_relation v = Some ''r'')"
      by (simp add: sample_graph_def sample_cite_def doc_evidence_def in_scope_def)
    ultimately show False using r gc_mid_relations [OF r0, of "''p''" "''d''" "''x''"]
      by (auto simp: sample_affected in_scope_def sample_relation_def)
  qed
  then show ?thesis by (meson last_in_set)
qed

lemma sample_cleanup: "cleanup_document_graph ''p'' ''d'' ''x'' (sample_graph st) = gc_mid ''p'' ''d'' ''x'' (sample_graph st)"
  by (simp add: cleanup_eq gc_candidates_def sample_affected sample_mid_relations gc_entities_def Let_def)

lemma sample_mid_evidence: "g_evidence (gc_mid ''p'' ''d'' ''x'' (sample_graph st)) = [sample_cite ''w'' ''y'' (Some ''c'') None]"
proof -
  have "distinct (map rl_id (g_relations (sample_graph st)))" by (simp add: sample_graph_def)
  then show ?thesis
    by (simp add: gc_mid_evidence del_rows_def) (simp add: sample_graph_def sample_cite_def doc_evidence_def in_scope_def)
qed

text \<open>Entities known only through a relation survive its collection without any support: step 4
  looks for the endpoints of affected relations after step 3 has deleted those relations.\<close>

theorem cleanup_leaves_orphans:
  "let db = cleanup_document_graph ''p'' ''d'' ''x'' (sample_graph Unreviewed) in
     supported_entity (sample_graph Unreviewed) (sample_entity ''a'')
     \<and> g_relations db = [] \<and> sample_entity ''a'' \<in> set (g_entities db)
     \<and> \<not> supported_entity db (sample_entity ''a'') \<and> \<not> has_relation db ''a''"
proof -
  have "supported_entity (sample_graph Unreviewed) (sample_entity ''a'')"
    by (simp add: supported_entity_def sample_graph_def sample_entity_def sample_relation_def sample_cite_def)
  moreover have "sample_entity ''a'' \<in> set (g_entities (sample_graph Unreviewed))" by (simp add: sample_graph_def)
  ultimately show ?thesis
    by (simp add: sample_cleanup sample_mid_relations sample_mid_evidence supported_entity_def has_relation_def
        sample_entity_def sample_cite_def)
qed

text \<open>A relation a reviewer approved is deleted with its last citation, though the queries count an
  approved relation as supported without one.\<close>

theorem cleanup_deletes_approved:
  "supported_relation (delete_evidence_rows (doc_evidence ''p'' ''d'' ''x'') (sample_graph Approved))
       (sample_relation ''r'' ''a'' ''b'' Approved)
   \<and> g_relations (cleanup_document_graph ''p'' ''d'' ''x'' (sample_graph Approved)) = []"
  by (simp add: sample_cleanup sample_mid_relations supported_relation_def sample_relation_def)

end
