(* ===== verification/GraphWalk.thy ===== *)
theory GraphWalk
  imports GraphSchema
begin

text \<open>
  Traversal of the knowledge graph: \<open>bounded_walk\<close> and \<open>path_ids\<close> of \<open>app/graph/service.py\<close>.
  The dictionaries of the function are association lists and its frontier sets are lists used for
  membership only. \<open>path_ids\<close> follows parent links in a \<open>while\<close> loop; it is a partial
  function, None when the links never lead back to the source.
\<close>

section \<open>The walk\<close>

record walk =
  wk_entities :: "(string \<times> gentity) list"
  wk_relations :: "(string \<times> grelation) list"
  wk_parents :: "(string \<times> string \<times> string) list"
  wk_next :: "string list"

definition in_dict :: "'k \<Rightarrow> ('k \<times> 'v) list \<Rightarrow> bool" where
  "in_dict k d \<longleftrightarrow> map_of d k \<noteq> None"

lemma in_dict_iff: "in_dict k d \<longleftrightarrow> k \<in> fst ` set d"
  by (simp add: in_dict_def map_of_eq_None_iff)

definition walk_filter :: "graph_db \<Rightarrow> string \<Rightarrow> string \<Rightarrow> string list \<Rightarrow> grelation \<Rightarrow> bool" where
  "walk_filter db project dataset frontier r \<longleftrightarrow>
     rl_project r = project \<and> rl_dataset r = dataset
     \<and> (rl_source r \<in> set frontier \<or> rl_target r \<in> set frontier)
     \<and> supported_relation db r \<and> temporal_relation None False r"

definition walk_rows_of ::
    "graph_db \<Rightarrow> string \<Rightarrow> string \<Rightarrow> string list \<Rightarrow> (string \<times> grelation) list \<Rightarrow> nat \<Rightarrow> grelation list" where
  "walk_rows_of db project dataset frontier relations relation_limit =
     limit (relation_limit - length relations)
       (order_by rl_id (filter (\<lambda>r. walk_filter db project dataset frontier r \<and> \<not> in_dict (rl_id r) relations)
          (g_relations db)))"

definition walk_candidates ::
    "graph_db \<Rightarrow> string \<Rightarrow> string \<Rightarrow> (string \<times> gentity) list \<Rightarrow> grelation list \<Rightarrow> (string \<times> gentity) list" where
  "walk_candidates db project dataset entities rows =
     (let wanted = filter (\<lambda>k. \<not> in_dict k entities) (concat (map (\<lambda>r. [rl_source r, rl_target r]) rows)) in
      map (\<lambda>e. (en_id e, e))
        (filter (\<lambda>e. en_id e \<in> set wanted \<and> en_project e = project \<and> en_dataset e = dataset
           \<and> supported_entity db e \<and> temporal_entity None False e) (g_entities db)))"

text \<open>The loop over the rows of one level; True when the target was reached.\<close>

definition visit :: "string list \<Rightarrow> (string \<times> gentity) list \<Rightarrow> grelation \<Rightarrow> walk \<Rightarrow> walk" where
  "visit frontier candidates r w =
     (let new = (if rl_source r \<in> set frontier then rl_target r else rl_source r);
          previous = (if rl_source r \<in> set frontier then rl_source r else rl_target r);
          w1 = (if in_dict new (wk_entities w) then w
                else w\<lparr>wk_entities := wk_entities w @ [(new, the (map_of candidates new))],
                       wk_parents := AList.update new (previous, rl_id r) (wk_parents w),
                       wk_next := new # wk_next w\<rparr>)
      in w1\<lparr>wk_relations := AList.update (rl_id r) r (wk_relations w1)\<rparr>)"

fun walk_level ::
    "nat \<Rightarrow> string option \<Rightarrow> string list \<Rightarrow> (string \<times> gentity) list \<Rightarrow> grelation list \<Rightarrow> walk \<Rightarrow> bool \<times> walk" where
  "walk_level node_limit target frontier candidates [] w = (False, w)"
| "walk_level node_limit target frontier candidates (r # rows) w =
     (let known = (\<lambda>k. in_dict k (wk_entities w) \<or> in_dict k candidates);
          new = (if rl_source r \<in> set frontier then rl_target r else rl_source r)
      in if \<not> known (rl_source r) \<or> \<not> known (rl_target r) then walk_level node_limit target frontier candidates rows w
         else if \<not> in_dict new (wk_entities w) \<and> node_limit \<le> length (wk_entities w)
           then walk_level node_limit target frontier candidates rows w
         else
           let w' = visit frontier candidates r w in
           if Some new = target then (True, w') else walk_level node_limit target frontier candidates rows w')"

fun walk_loop ::
    "graph_db \<Rightarrow> string \<Rightarrow> string \<Rightarrow> nat \<Rightarrow> nat \<Rightarrow> string option \<Rightarrow> nat \<Rightarrow> string list \<Rightarrow> walk \<Rightarrow> walk" where
  "walk_loop db project dataset node_limit relation_limit target 0 frontier w = w"
| "walk_loop db project dataset node_limit relation_limit target (Suc depth) frontier w =
     (if frontier = [] \<or> node_limit \<le> length (wk_entities w) \<or> relation_limit \<le> length (wk_relations w) then w
      else
        let rows = walk_rows_of db project dataset frontier (wk_relations w) relation_limit;
            candidates = walk_candidates db project dataset (wk_entities w) rows
        in case walk_level node_limit target frontier candidates rows (w\<lparr>wk_next := []\<rparr>) of
             (True, w') \<Rightarrow> w'
           | (False, w') \<Rightarrow> walk_loop db project dataset node_limit relation_limit target depth (wk_next w') w')"

definition bounded_walk ::
    "graph_db \<Rightarrow> string \<Rightarrow> string \<Rightarrow> gentity \<Rightarrow> nat \<Rightarrow> nat \<Rightarrow> nat \<Rightarrow> string option \<Rightarrow> walk" where
  "bounded_walk db project dataset origin depth node_limit relation_limit target =
     walk_loop db project dataset node_limit relation_limit target depth [en_id origin]
       \<lparr>wk_entities = [(en_id origin, origin)], wk_relations = [], wk_parents = [], wk_next = []\<rparr>"

section \<open>Paths\<close>

partial_function (option) path_loop ::
    "string \<Rightarrow> (string \<times> string \<times> string) list \<Rightarrow> string \<Rightarrow> string list \<Rightarrow> string list
       \<Rightarrow> (string list \<times> string list) res option" where
  "path_loop source parents current entities relations =
     (if current = source then Some (Inr (entities, relations))
      else case map_of parents current of
        None \<Rightarrow> Some (Inl KeyError)
      | Some (prev, rel) \<Rightarrow> path_loop source parents prev (entities @ [prev]) (relations @ [rel]))"

definition path_ids ::
    "string \<Rightarrow> string \<Rightarrow> (string \<times> string \<times> string) list \<Rightarrow> (string list \<times> string list) res option" where
  "path_ids source target parents =
     (if source = target then Some (Inr ([source], []))
      else if \<not> in_dict target parents then Some (Inr ([], []))
      else map_option (map_sum id (\<lambda>(es, rs). (rev es, rev rs))) (path_loop source parents target [target] []))"

text \<open>A path: consecutive entities are joined by the relation between them.\<close>

definition joins :: "(string \<times> grelation) list \<Rightarrow> string \<Rightarrow> string \<Rightarrow> string \<Rightarrow> bool" where
  "joins rels k a b = (case map_of rels k of None \<Rightarrow> False
     | Some r \<Rightarrow> rl_source r = a \<and> rl_target r = b \<or> rl_source r = b \<and> rl_target r = a)"

fun linked :: "(string \<times> grelation) list \<Rightarrow> string list \<Rightarrow> string list \<Rightarrow> bool" where
  "linked rels [a] [] = True"
| "linked rels (a # b # es) (k # ks) = (joins rels k a b \<and> linked rels (b # es) ks)"
| "linked rels es ks = False"

section \<open>Facts about paths\<close>

lemma joins_sym: "joins rels k a b = joins rels k b a"
  by (auto simp: joins_def split: option.splits)

lemma linked_length: "linked rels es ks \<Longrightarrow> length es = Suc (length ks)"
  by (induction rels es ks rule: linked.induct) auto

lemma linked_snoc:
  "linked rels es ks \<Longrightarrow> joins rels k (last es) b \<Longrightarrow> linked rels (es @ [b]) (ks @ [k])"
  by (induction rels es ks rule: linked.induct) auto

lemma linked_rev: "linked rels es ks \<Longrightarrow> linked rels (rev es) (rev ks)"
proof (induction rels es ks rule: linked.induct)
  case (2 rels a b es k ks)
  then have l: "linked rels (rev (b # es)) (rev ks)" and "joins rels k a b" by simp_all
  then have "joins rels k (last (rev (b # es))) a" by (simp add: joins_sym)
  from linked_snoc [OF l this] show ?case by simp
qed auto

text \<open>\<open>k\<close> is \<open>n\<close> parent links away from the root, each over a relation that joins them.\<close>

fun away :: "(string \<times> grelation) list \<Rightarrow> (string \<times> string \<times> string) list \<Rightarrow> string \<Rightarrow> nat \<Rightarrow> string \<Rightarrow> bool" where
  "away rels ps origin 0 k = (k = origin)"
| "away rels ps origin (Suc n) k = (k \<noteq> origin \<and> (case map_of ps k of None \<Rightarrow> False
     | Some (p, q) \<Rightarrow> joins rels q p k \<and> away rels ps origin n p))"

lemma away_mono:
  assumes "\<And>q a b. joins rels q a b \<Longrightarrow> joins rels' q a b" "\<And>k x. map_of ps k = Some x \<Longrightarrow> map_of ps' k = Some x"
  shows "away rels ps origin n k \<Longrightarrow> away rels' ps' origin n k"
proof (induction n arbitrary: k)
  case (Suc n)
  then obtain p q where "k \<noteq> origin" "map_of ps k = Some (p, q)" "joins rels q p k" "away rels ps origin n p"
    by (auto split: option.splits)
  with Suc.IH assms show ?case by simp
qed simp

lemma path_loop_away:
  assumes "away rels ps origin n k"
  shows "\<exists>es ks. path_loop origin ps k as bs = Some (Inr (as @ es, bs @ ks)) \<and> length ks = n
     \<and> linked rels (k # es) ks \<and> last (k # es) = origin"
  using assms
proof (induction n arbitrary: k as bs)
  case 0
  then show ?case by (intro exI [of _ "[]"]) (simp add: path_loop.simps [of origin ps origin])
next
  case (Suc n)
  then obtain p q where p: "k \<noteq> origin" "map_of ps k = Some (p, q)" "joins rels q p k" "away rels ps origin n p"
    by (auto split: option.splits)
  from Suc.IH [OF p(4), of "as @ [p]" "bs @ [q]"] obtain es ks where
    e: "path_loop origin ps p (as @ [p]) (bs @ [q]) = Some (Inr ((as @ [p]) @ es, (bs @ [q]) @ ks))"
    "length ks = n" "linked rels (p # es) ks" "last (p # es) = origin" by blast
  have "path_loop origin ps k as bs = Some (Inr (as @ p # es, bs @ q # ks))"
    using p e(1) by (simp add: path_loop.simps [of origin ps k])
  moreover have "linked rels (k # p # es) (q # ks)" using p(3) e(3) by (simp add: joins_sym)
  ultimately show ?case using e by (intro exI [of _ "p # es"] exI [of _ "q # ks"]) simp
qed

lemma path_ids_away:
  assumes "away rels ps origin n k"
  shows "\<exists>es ks. path_ids origin k ps = Some (Inr (es, ks)) \<and> length ks = n \<and> linked rels es ks
     \<and> hd es = origin \<and> last es = k"
proof (cases n)
  case 0
  with assms show ?thesis by (simp add: path_ids_def)
next
  case (Suc m)
  with assms have k: "k \<noteq> origin" "in_dict k ps" by (auto simp: in_dict_def split: option.splits)
  from path_loop_away [OF assms, of "[k]" "[]"] obtain es ks where
    e: "path_loop origin ps k [k] [] = Some (Inr (k # es, ks))" "length ks = n"
    "linked rels (k # es) ks" "last (k # es) = origin" by auto
  then have "path_ids origin k ps = Some (Inr (rev (k # es), rev ks))" using k by (simp add: path_ids_def)
  moreover have "linked rels (rev (k # es)) (rev ks)" using e(3) by (rule linked_rev)
  moreover have "hd (rev (k # es)) = origin" using e(4) by (metis hd_rev)
  ultimately show ?thesis using e(2) by (intro exI conjI) auto
qed

section \<open>The invariant of the walk\<close>

definition good_entity :: "graph_db \<Rightarrow> string \<Rightarrow> string \<Rightarrow> gentity \<Rightarrow> bool" where
  "good_entity db project dataset e \<longleftrightarrow> e \<in> set (g_entities db) \<and> en_project e = project
     \<and> en_dataset e = dataset \<and> supported_entity db e \<and> temporal_entity None False e"

definition good_relation :: "graph_db \<Rightarrow> string \<Rightarrow> string \<Rightarrow> grelation \<Rightarrow> bool" where
  "good_relation db project dataset r \<longleftrightarrow> r \<in> set (g_relations db) \<and> rl_project r = project
     \<and> rl_dataset r = dataset \<and> supported_relation db r \<and> temporal_relation None False r"

definition near :: "walk \<Rightarrow> string \<Rightarrow> nat \<Rightarrow> string \<Rightarrow> bool" where
  "near w origin d k \<longleftrightarrow> in_dict k (wk_entities w)
     \<and> (\<exists>n\<le>d. away (wk_relations w) (wk_parents w) origin n k)"

definition walk_ok :: "graph_db \<Rightarrow> string \<Rightarrow> string \<Rightarrow> gentity \<Rightarrow> nat \<Rightarrow> nat \<Rightarrow> nat \<Rightarrow> walk \<Rightarrow> bool" where
  "walk_ok db project dataset origin node_limit relation_limit d w \<longleftrightarrow>
     in_dict (en_id origin) (wk_entities w) \<and> distinct (map fst (wk_entities w))
     \<and> (\<forall>x\<in>set (wk_entities w). fst x = en_id (snd x)
          \<and> (snd x = origin \<or> good_entity db project dataset (snd x)))
     \<and> (\<forall>x\<in>set (wk_relations w). fst x = rl_id (snd x) \<and> good_relation db project dataset (snd x)
          \<and> in_dict (rl_source (snd x)) (wk_entities w) \<and> in_dict (rl_target (snd x)) (wk_entities w))
     \<and> length (wk_entities w) \<le> max 1 node_limit
     \<and> (\<forall>k. in_dict k (wk_parents w) \<longrightarrow> in_dict k (wk_entities w) \<and> k \<noteq> en_id origin)
     \<and> (\<forall>k. in_dict k (wk_entities w) \<longrightarrow> near w (en_id origin) d k)"

lemma near_mono: "near w origin d k \<Longrightarrow> d \<le> d' \<Longrightarrow> near w origin d' k"
  unfolding near_def by (meson le_trans)

lemma walk_ok_mono: "walk_ok db p s origin nl rl d w \<Longrightarrow> d \<le> d' \<Longrightarrow> walk_ok db p s origin nl rl d' w"
  unfolding walk_ok_def by (blast intro: near_mono)

lemma in_dict_append [simp]: "in_dict k (xs @ ys) \<longleftrightarrow> in_dict k xs \<or> in_dict k ys"
  by (auto simp: in_dict_iff)

lemma in_dict_Cons [simp]: "in_dict k (x # xs) \<longleftrightarrow> k = fst x \<or> in_dict k xs"
  by (auto simp: in_dict_iff)

lemma in_dict_Nil [simp]: "\<not> in_dict k []"
  by (simp add: in_dict_def)

lemma in_dict_update [simp]: "in_dict k (AList.update a b d) \<longleftrightarrow> k = a \<or> in_dict k d"
  by (auto simp: in_dict_def)

lemma in_dict_map_of: "in_dict k d \<Longrightarrow> (k, the (map_of d k)) \<in> set d"
  by (auto simp: in_dict_def intro: map_of_SomeD)

lemma set_update: "x \<in> set (AList.update k v d) \<Longrightarrow> x = (k, v) \<or> x \<in> set d"
  by (induction d) (auto split: if_splits)

lemma length_update: "length (AList.update k v d) \<le> Suc (length d)"
  by (induction d) auto

lemma joins_update:
  assumes "distinct (map rl_id (g_relations db))" "r \<in> set (g_relations db)"
    "\<And>x. x \<in> set rels \<Longrightarrow> fst x = rl_id (snd x) \<and> snd x \<in> set (g_relations db)"
    "joins rels q a b"
  shows "joins (AList.update (rl_id r) r rels) q a b"
proof (cases "q = rl_id r")
  case True
  from assms(4) obtain r0 where r0: "map_of rels q = Some r0" by (auto simp: joins_def split: option.splits)
  with assms(3) [OF map_of_SomeD [OF r0]] True have "rl_id r0 = rl_id r" "r0 \<in> set (g_relations db)" by auto
  with assms(1,2) have "r0 = r" by (simp add: distinct_map inj_on_def)
  with r0 True assms(4) show ?thesis by (simp add: joins_def)
next
  case False
  with assms(4) show ?thesis by (simp add: joins_def)
qed

text \<open>The two ways a row of a level is taken.\<close>

lemma visit_fields:
  fixes r :: grelation and w :: walk
  defines "new fr \<equiv> (if rl_source r \<in> set fr then rl_target r else rl_source r)"
    and "prev fr \<equiv> (if rl_source r \<in> set fr then rl_source r else rl_target r)"
  shows "wk_relations (visit fr cs r w) = AList.update (rl_id r) r (wk_relations w)"
    "in_dict (new fr) (wk_entities w) \<Longrightarrow> wk_entities (visit fr cs r w) = wk_entities w
       \<and> wk_parents (visit fr cs r w) = wk_parents w \<and> wk_next (visit fr cs r w) = wk_next w"
    "\<not> in_dict (new fr) (wk_entities w) \<Longrightarrow>
       wk_entities (visit fr cs r w) = wk_entities w @ [(new fr, the (map_of cs (new fr)))]
       \<and> wk_parents (visit fr cs r w) = AList.update (new fr) (prev fr, rl_id r) (wk_parents w)
       \<and> wk_next (visit fr cs r w) = new fr # wk_next w"
  by (simp_all add: visit_def new_def prev_def Let_def)

lemma visit_ok:
  assumes ok: "walk_ok db p s origin nl rl (Suc d) w"
    and keys: "distinct (map rl_id (g_relations db))"
    and fr: "\<And>k. k \<in> set fr \<Longrightarrow> near w (en_id origin) d k"
    and cs: "\<And>x. x \<in> set cs \<Longrightarrow> fst x = en_id (snd x) \<and> good_entity db p s (snd x)"
    and r: "good_relation db p s r" "rl_source r \<in> set fr \<or> rl_target r \<in> set fr"
    and known: "in_dict (rl_source r) (wk_entities w) \<or> in_dict (rl_source r) cs"
      "in_dict (rl_target r) (wk_entities w) \<or> in_dict (rl_target r) cs"
    and lim: "in_dict (if rl_source r \<in> set fr then rl_target r else rl_source r) (wk_entities w)
      \<or> length (wk_entities w) < nl"
  shows "walk_ok db p s origin nl rl (Suc d) (visit fr cs r w)
    \<and> (\<forall>k\<in>set fr. near (visit fr cs r w) (en_id origin) d k)"
proof -
  let ?w = "visit fr cs r w" and ?o = "en_id origin"
  define new where "new = (if rl_source r \<in> set fr then rl_target r else rl_source r)"
  define prev where "prev = (if rl_source r \<in> set fr then rl_source r else rl_target r)"
  note fields = visit_fields [where fr = fr and cs = cs and r = r and w = w, folded new_def prev_def]
  have pf: "prev \<in> set fr" using r(2) by (auto simp: prev_def)
  have joined: "rl_source r = new \<and> rl_target r = prev \<or> rl_source r = prev \<and> rl_target r = new"
    by (auto simp: new_def prev_def)
  have rels: "fst x = rl_id (snd x) \<and> snd x \<in> set (g_relations db)" if "x \<in> set (wk_relations w)" for x
    using ok that by (auto simp: walk_ok_def good_relation_def)
  have rdb: "r \<in> set (g_relations db)" using r(1) by (simp add: good_relation_def)
  have j: "joins (wk_relations ?w) q a b" if "joins (wk_relations w) q a b" for q a b
    unfolding fields(1) using keys rdb rels that by (rule joins_update)
  have jr: "joins (wk_relations ?w) (rl_id r) prev new"
    using joined by (auto simp: fields(1) joins_def)
  have fre: "in_dict k (wk_entities w)" if "k \<in> set fr" for k using fr [OF that] by (simp add: near_def)
  show ?thesis
  proof (cases "in_dict new (wk_entities w)")
    case True
    note f = fields(1) fields(2) [OF True]
    have nr: "near ?w ?o n k" if "near w ?o n k" for n k
      using that away_mono [OF j] f unfolding near_def by fastforce
    have ends: "in_dict (rl_source r) (wk_entities w)" "in_dict (rl_target r) (wk_entities w)"
      using joined True fre [OF pf] by auto
    have "walk_ok db p s origin nl rl (Suc d) ?w"
      using ok r(1) ends nr by (auto simp: walk_ok_def f dest!: set_update)
    with fr nr show ?thesis by blast
  next
    case False
    note f = fields(1) fields(3) [OF False]
    let ?e = "the (map_of cs new)"
    have nc: "in_dict new cs" using False known joined by auto
    with cs [OF in_dict_map_of [OF nc]] have e: "en_id ?e = new" "good_entity db p s ?e" by simp_all
    have no: "new \<noteq> ?o" using False ok by (auto simp: walk_ok_def)
    have np: "\<not> in_dict new (wk_parents w)" using False ok by (auto simp: walk_ok_def)
    have par: "map_of (wk_parents ?w) k = Some x" if "map_of (wk_parents w) k = Some x" for k x
    proof -
      have "k \<noteq> new" using that np by (metis in_dict_def option.distinct(1))
      with that f show ?thesis by simp
    qed
    have nr: "near ?w ?o n k" if "near w ?o n k" for n k
      using that away_mono [OF j par] f unfolding near_def by fastforce
    have "near w ?o d prev" by (rule fr [OF pf])
    then obtain n where n: "n \<le> d" "away (wk_relations ?w) (wk_parents ?w) ?o n prev"
      using nr unfolding near_def by blast
    then have "away (wk_relations ?w) (wk_parents ?w) ?o (Suc n) new"
      using no jr f by simp
    then have nn: "near ?w ?o (Suc d) new" using n(1) f unfolding near_def by (auto intro: exI [of _ "Suc n"])
    have ends: "in_dict (rl_source r) (wk_entities ?w)" "in_dict (rl_target r) (wk_entities ?w)"
      using joined fre [OF pf] f by auto
    have "length (wk_entities w) < nl" using lim False by (simp add: new_def)
    then have len: "length (wk_entities ?w) \<le> max 1 nl" by (simp add: f)
    have ents: "in_dict k (wk_entities ?w) \<longleftrightarrow> k = new \<or> in_dict k (wk_entities w)" for k
      by (auto simp: f)
    have dist: "distinct (map fst (wk_entities ?w))" using ok False by (auto simp: walk_ok_def f in_dict_iff)
    have g1: "fst x = en_id (snd x) \<and> (snd x = origin \<or> good_entity db p s (snd x))"
      if "x \<in> set (wk_entities ?w)" for x
      using that ok e by (auto simp: walk_ok_def f)
    have g2: "fst x = rl_id (snd x) \<and> good_relation db p s (snd x)
        \<and> in_dict (rl_source (snd x)) (wk_entities ?w) \<and> in_dict (rl_target (snd x)) (wk_entities ?w)"
      if x: "x \<in> set (wk_relations ?w)" for x
    proof -
      have "x = (rl_id r, r) \<or> x \<in> set (wk_relations w)" using x set_update unfolding fields(1) by fast
      then show ?thesis
      proof
        assume "x = (rl_id r, r)"
        with r(1) ends show ?thesis by simp
      next
        assume "x \<in> set (wk_relations w)"
        with ok show ?thesis unfolding walk_ok_def ents by blast
      qed
    qed
    have g3: "in_dict k (wk_entities ?w) \<and> k \<noteq> ?o" if "in_dict k (wk_parents ?w)" for k
      using that ok no by (auto simp: walk_ok_def f)
    have g4: "near ?w ?o (Suc d) k" if "in_dict k (wk_entities ?w)" for k
      using that ok nn nr unfolding ents walk_ok_def by blast
    have "in_dict ?o (wk_entities ?w)" using ok by (simp add: walk_ok_def f)
    then have "walk_ok db p s origin nl rl (Suc d) ?w"
      unfolding walk_ok_def using dist g1 g2 len g3 g4 by blast
    with fr nr show ?thesis by blast
  qed
qed

lemma visit_next:
  "k \<in> set (wk_next (visit fr cs r w)) \<Longrightarrow> k \<in> set (wk_next w) \<or> in_dict k (wk_entities (visit fr cs r w))"
  by (auto simp: visit_def Let_def split: if_splits)

lemma visit_keeps: "in_dict k (wk_entities w) \<Longrightarrow> in_dict k (wk_entities (visit fr cs r w))"
  by (auto simp: visit_def Let_def)

lemma visit_length: "length (wk_relations (visit fr cs r w)) \<le> Suc (length (wk_relations w))"
  by (simp add: visit_def Let_def length_update)

lemma walk_level_ok:
  assumes "walk_ok db p s origin nl rl (Suc d) w"
    and "distinct (map rl_id (g_relations db))"
    and "\<forall>k\<in>set fr. near w (en_id origin) d k"
    and "\<forall>x\<in>set cs. fst x = en_id (snd x) \<and> good_entity db p s (snd x)"
    and "\<forall>r\<in>set rows. good_relation db p s r \<and> (rl_source r \<in> set fr \<or> rl_target r \<in> set fr)"
    and "length (wk_relations w) + length rows \<le> rl"
    and "\<forall>k\<in>set (wk_next w). in_dict k (wk_entities w)"
    and "walk_level nl tgt fr cs rows w = (b, w')"
  shows "walk_ok db p s origin nl rl (Suc d) w' \<and> length (wk_relations w') \<le> rl
    \<and> (\<forall>k\<in>set (wk_next w'). in_dict k (wk_entities w'))"
  using assms
proof (induction nl tgt fr cs rows w rule: walk_level.induct)
  case (1 nl tgt fr cs w)
  then show ?case by simp
next
  case (2 nl tgt fr cs r rows w)
  note IH = 2(1-3) and asm = 2(4-11)
  define new where "new = (if rl_source r \<in> set fr then rl_target r else rl_source r)"
  let ?known = "\<lambda>k. in_dict k (wk_entities w) \<or> in_dict k cs"
  let ?w = "visit fr cs r w"
  have rows: "\<forall>r\<in>set rows. good_relation db p s r \<and> (rl_source r \<in> set fr \<or> rl_target r \<in> set fr)"
    and len: "length (wk_relations w) + length rows \<le> rl"
    using asm(5,6) by simp_all
  consider (skip) "\<not> ?known (rl_source r) \<or> \<not> ?known (rl_target r)"
    | (full) "?known (rl_source r)" "?known (rl_target r)" "\<not> in_dict new (wk_entities w)" "nl \<le> length (wk_entities w)"
    | (take) "?known (rl_source r)" "?known (rl_target r)" "in_dict new (wk_entities w) \<or> length (wk_entities w) < nl"
    by fastforce
  then show ?case
  proof cases
    case skip
    then have step: "walk_level nl tgt fr cs rows w = (b, w')" using asm(8) by (auto simp: Let_def)
    show ?thesis
      by (rule IH(1)) (use skip asm(1-4) rows len asm(7) step in \<open>auto\<close>)
  next
    case full
    then have step: "walk_level nl tgt fr cs rows w = (b, w')" using asm(8) by (simp add: Let_def new_def)
    show ?thesis
      by (rule IH(2) [OF refl refl]) (use full asm(1-4) rows len asm(7) step in \<open>auto simp: new_def\<close>)
  next
    case take
    from asm(3,4) have v: "walk_ok db p s origin nl rl (Suc d) ?w \<and> (\<forall>k\<in>set fr. near ?w (en_id origin) d k)"
      by (intro visit_ok [OF asm(1,2)]) (use asm(5) take in \<open>auto simp: new_def\<close>)
    have vlen: "length (wk_relations ?w) + length rows \<le> rl" using visit_length [of fr cs r w] asm(6) by simp
    have vnext: "\<forall>k\<in>set (wk_next ?w). in_dict k (wk_entities ?w)"
      using visit_next visit_keeps asm(7) by blast
    have level: "walk_level nl tgt fr cs (r # rows) w =
        (if Some new = tgt then (True, ?w) else walk_level nl tgt fr cs rows ?w)"
      using take by (auto simp: Let_def new_def)
    show ?thesis
    proof (cases "Some new = tgt")
      case True
      then have "w' = ?w" using asm(8) [unfolded level] by simp
      with v vlen vnext show ?thesis by simp
    next
      case False
      then have step: "walk_level nl tgt fr cs rows ?w = (b, w')" using asm(8) [unfolded level] by simp
      show ?thesis
        by (rule IH(3) [OF refl refl]) (use take False v asm(2,4) rows vlen vnext step in \<open>auto simp: new_def\<close>)
    qed
  qed
qed

lemma walk_rows_good:
  "r \<in> set (walk_rows_of db p s fr rels rl) \<Longrightarrow>
     good_relation db p s r \<and> (rl_source r \<in> set fr \<or> rl_target r \<in> set fr)"
  using set_limit by (fastforce simp: walk_rows_of_def walk_filter_def good_relation_def)

lemma walk_rows_length: "length rels \<le> rl \<Longrightarrow> length rels + length (walk_rows_of db p s fr rels rl) \<le> rl"
  unfolding walk_rows_of_def
  by (rule order_trans [OF add_left_mono [OF length_limit]]) simp

lemma walk_candidates_good:
  "x \<in> set (walk_candidates db p s ents rows) \<Longrightarrow> fst x = en_id (snd x) \<and> good_entity db p s (snd x)"
  by (auto simp: walk_candidates_def Let_def good_entity_def)

lemma walk_loop_ok:
  assumes "walk_ok db p s origin nl rl d w" "distinct (map rl_id (g_relations db))"
    "length (wk_relations w) \<le> rl" "\<forall>k\<in>set fr. in_dict k (wk_entities w)"
  shows "walk_ok db p s origin nl rl (d + depth) (walk_loop db p s nl rl tgt depth fr w)
    \<and> length (wk_relations (walk_loop db p s nl rl tgt depth fr w)) \<le> rl"
  using assms(1,3,4)
proof (induction depth arbitrary: d fr w)
  case 0
  then show ?case by simp
next
  case (Suc depth)
  let ?w = "w\<lparr>wk_next := []\<rparr>"
  let ?rows = "walk_rows_of db p s fr (wk_relations w) rl"
  let ?cs = "walk_candidates db p s (wk_entities w) ?rows"
  obtain b w' where l: "walk_level nl tgt fr ?cs ?rows ?w = (b, w')" by fastforce
  have near: "near ?w = near w" by (intro ext) (simp add: near_def)
  have "walk_ok db p s origin nl rl (Suc d) ?w"
    using walk_ok_mono [OF Suc.prems(1), of "Suc d"] by (simp add: walk_ok_def near)
  moreover have "\<forall>k\<in>set fr. near ?w (en_id origin) d k"
    using Suc.prems(1,3) by (simp add: walk_ok_def near)
  ultimately have w': "walk_ok db p s origin nl rl (Suc d) w' \<and> length (wk_relations w') \<le> rl
      \<and> (\<forall>k\<in>set (wk_next w'). in_dict k (wk_entities w'))"
    by (rule walk_level_ok [OF _ assms(2) _ _ _ _ _ l])
      (use walk_candidates_good walk_rows_good walk_rows_length [OF Suc.prems(2)] in \<open>auto\<close>)
  have stop: "walk_ok db p s origin nl rl (d + Suc depth) w"
    using Suc.prems(1) by (rule walk_ok_mono) simp
  have ret: "walk_ok db p s origin nl rl (d + Suc depth) w'"
    using conjunct1 [OF w'] by (rule walk_ok_mono) simp
  have rec: "walk_ok db p s origin nl rl (Suc d + depth) (walk_loop db p s nl rl tgt depth (wk_next w') w')
      \<and> length (wk_relations (walk_loop db p s nl rl tgt depth (wk_next w') w')) \<le> rl"
    using w' by (intro Suc.IH) blast+
  then show ?case
    using stop ret rec w' Suc.prems(2) by (auto simp: Let_def l split: bool.splits)
qed

lemma bounded_walk_ok:
  assumes "distinct (map rl_id (g_relations db))"
  shows "walk_ok db p s origin nl rl depth (bounded_walk db p s origin depth nl rl tgt)
    \<and> length (wk_relations (bounded_walk db p s origin depth nl rl tgt)) \<le> rl"
proof -
  let ?w = "\<lparr>wk_entities = [(en_id origin, origin)], wk_relations = [], wk_parents = [], wk_next = []\<rparr>"
  have "walk_ok db p s origin nl rl 0 ?w" by (auto simp: walk_ok_def near_def)
  from walk_loop_ok [OF this assms, of "[en_id origin]" depth tgt] show ?thesis
    by (simp add: bounded_walk_def)
qed

section \<open>Properties\<close>

text \<open>C38. A bounded walk stays within its limits and its graph: at most the given numbers of
  entities and relations (the root always counts), every other entity and every relation a current,
  supported row of the dataset, and both ends of every relation among the entities.\<close>

theorem bounded_walk_sound:
  assumes "graph_keys db"
  shows "length (wk_entities (bounded_walk db p s origin depth nl rl tgt)) \<le> max 1 nl
    \<and> length (wk_relations (bounded_walk db p s origin depth nl rl tgt)) \<le> rl
    \<and> distinct (map fst (wk_entities (bounded_walk db p s origin depth nl rl tgt)))
    \<and> (\<forall>x\<in>set (wk_entities (bounded_walk db p s origin depth nl rl tgt)).
        fst x = en_id (snd x) \<and> (snd x = origin \<or> good_entity db p s (snd x)))
    \<and> (\<forall>x\<in>set (wk_relations (bounded_walk db p s origin depth nl rl tgt)).
        good_relation db p s (snd x)
        \<and> in_dict (rl_source (snd x)) (wk_entities (bounded_walk db p s origin depth nl rl tgt))
        \<and> in_dict (rl_target (snd x)) (wk_entities (bounded_walk db p s origin depth nl rl tgt)))"
  using bounded_walk_ok [of db p s origin nl rl depth tgt] assms
  unfolding walk_ok_def graph_keys_def by blast

theorem bounded_walk_sound_witness:
  "length (wk_entities (bounded_walk (sample_graph Unreviewed) ''p'' ''d'' (sample_entity ''a'') 2 10 10 None)) \<le> 10"
  using bounded_walk_sound [OF sample_graph_ok(1) [of Unreviewed], of "''p''" "''d''" "sample_entity ''a''" 2 10 10 None]
  by simp

text \<open>Path reconstruction returns: for every entity of a walk the parent links lead back to the
  root, without a \<open>KeyError\<close> and without looping, along relations of the walk that join consecutive
  entities, in at most as many hops as the walk is deep.\<close>

theorem walk_paths:
  assumes "graph_keys db" "in_dict k (wk_entities (bounded_walk db p s origin depth nl rl tgt))"
  shows "\<exists>es ks. path_ids (en_id origin) k (wk_parents (bounded_walk db p s origin depth nl rl tgt)) = Some (Inr (es, ks))
    \<and> linked (wk_relations (bounded_walk db p s origin depth nl rl tgt)) es ks
    \<and> hd es = en_id origin \<and> last es = k \<and> length ks \<le> depth"
proof -
  let ?w = "bounded_walk db p s origin depth nl rl tgt"
  have "near ?w (en_id origin) depth k"
    using bounded_walk_ok [of db p s origin nl rl depth tgt] assms unfolding walk_ok_def graph_keys_def by blast
  then obtain n where "n \<le> depth" "away (wk_relations ?w) (wk_parents ?w) (en_id origin) n k"
    by (auto simp: near_def)
  with path_ids_away [OF this(2)] show ?thesis by blast
qed

lemma sample_walk:
  "bounded_walk (sample_graph Unreviewed) ''p'' ''d'' (sample_entity ''a'') 1 10 10 None =
     \<lparr>wk_entities = [(''a'', sample_entity ''a''), (''b'', sample_entity ''b'')],
      wk_relations = [(''r'', sample_relation ''r'' ''a'' ''b'' Unreviewed)],
      wk_parents = [(''b'', ''a'', ''r'')], wk_next = [''b'']\<rparr>"
proof -
  let ?db = "sample_graph Unreviewed"
  have rows: "walk_rows_of ?db ''p'' ''d'' [''a''] [] 10 = [sample_relation ''r'' ''a'' ''b'' Unreviewed]"
    by (simp add: walk_rows_of_def walk_filter_def supported_relation_def temporal_relation_def temporal_def
        limit_def order_by_def sample_graph_def sample_relation_def sample_cite_def)
  have "supported_entity ?db (sample_entity ''b'')"
    by (simp add: supported_entity_def sample_graph_def sample_entity_def sample_relation_def sample_cite_def)
  then have cs: "walk_candidates ?db ''p'' ''d'' [(''a'', sample_entity ''a'')]
      [sample_relation ''r'' ''a'' ''b'' Unreviewed] = [(''b'', sample_entity ''b'')]"
    by (simp add: walk_candidates_def Let_def sample_relation_def)
       (simp add: sample_graph_def sample_entity_def temporal_entity_def temporal_def)
  have ids: "en_id (sample_entity k) = k" "rl_id (sample_relation k a b st) = k"
    "rl_source (sample_relation k a b st) = a" "rl_target (sample_relation k a b st) = b" for k a b st
    by (simp_all add: sample_entity_def sample_relation_def)
  show ?thesis
    by (simp add: bounded_walk_def rows cs ids visit_def Let_def)
qed

theorem walk_paths_witness:
  "\<exists>es ks. path_ids ''a'' ''b'' [(''b'', ''a'', ''r'')] = Some (Inr (es, ks)) \<and> hd es = ''a'' \<and> last es = ''b'' \<and> length ks \<le> 1"
proof -
  have id: "en_id (sample_entity ''a'') = ''a''" by (simp add: sample_entity_def)
  have "in_dict ''b'' (wk_entities (bounded_walk (sample_graph Unreviewed) ''p'' ''d'' (sample_entity ''a'') 1 10 10 None))"
    unfolding sample_walk by simp
  from walk_paths [OF sample_graph_ok(1) this] show ?thesis
    unfolding sample_walk id by auto
qed

end
