(* ===== verification/Dispatch.thy ===== *)
theory Dispatch
  imports GraphSchema
begin

text \<open>
  Graph extraction jobs and their outbox, \<open>app/graph/dispatch.py\<close> with the tables
  \<open>GraphExtractionJob\<close> and \<open>GraphExtractionOutbox\<close> of \<open>app/graph/models.py\<close>.

  Each database transaction is one operation on the state; an operation that commits several times
  (dispatching, executing) is one definition per transaction, and the interleavings of dispatchers,
  workers and the reconciler are the sequences of these steps. \<open>q_workers\<close> holds the job of every
  worker that has committed its start and not yet its end. Times are seconds; each call of the clock
  is an argument. Publishing to the queue and the extraction itself are outside the model: they show
  as the choice between the success and the failure step.
\<close>

section \<open>State\<close>

record gjob =
  gj_id :: string
  gj_project :: string
  gj_dataset :: string
  gj_document :: string
  gj_status :: job_status
  gj_attempt :: nat
  gj_max :: nat
  gj_next :: int
  gj_lease :: "int option"
  gj_error :: "string option"
  gj_provider :: string
  gj_model :: string
  gj_extractor :: string
  gj_prompt :: string
  gj_ontology :: "string option"

record gbox =
  gb_job :: string
  gb_attempts :: nat
  gb_error :: "string option"
  gb_published :: "int option"
  gb_created :: int

record queue_db =
  q_documents :: "document list"
  q_jobs :: "gjob list"
  q_outbox :: "gbox list"
  q_workers :: "string list"

record extractor_meta =
  xm_provider :: string
  xm_model :: string
  xm_extractor :: string
  xm_prompt :: string

definition LEASE_SECONDS :: int where "LEASE_SECONDS = 300"
definition MAX_GRAPH_OUTBOX_ATTEMPTS :: nat where "MAX_GRAPH_OUTBOX_ATTEMPTS = 20"

text \<open>\<open>lease_seconds\<close>, of the setting \<open>graph_extractor_timeout_seconds\<close> rounded down.\<close>

definition lease_seconds :: "int \<Rightarrow> int" where
  "lease_seconds timeout = max LEASE_SECONDS (timeout + 60)"

definition set_job :: "string \<Rightarrow> (gjob \<Rightarrow> gjob) \<Rightarrow> queue_db \<Rightarrow> queue_db" where
  "set_job k f s = s\<lparr>q_jobs := upd_row gj_id k f (q_jobs s)\<rparr>"

definition set_box :: "string \<Rightarrow> (gbox \<Rightarrow> gbox) \<Rightarrow> queue_db \<Rightarrow> queue_db" where
  "set_box k f s = s\<lparr>q_outbox := upd_row gb_job k f (q_outbox s)\<rparr>"

definition set_doc :: "string \<Rightarrow> (document \<Rightarrow> document) \<Rightarrow> queue_db \<Rightarrow> queue_db" where
  "set_doc k f s = s\<lparr>q_documents := upd_row dc_id k f (q_documents s)\<rparr>"

definition job_of :: "queue_db \<Rightarrow> string \<Rightarrow> gjob option" where
  "job_of s k = get_row gj_id k (q_jobs s)"

definition box_of :: "queue_db \<Rightarrow> string \<Rightarrow> gbox option" where
  "box_of s k = get_row gb_job k (q_outbox s)"

definition doc_of :: "queue_db \<Rightarrow> string \<Rightarrow> document option" where
  "doc_of s k = get_row dc_id k (q_documents s)"

section \<open>Enqueueing\<close>

definition new_box :: "string \<Rightarrow> string option \<Rightarrow> int \<Rightarrow> gbox" where
  "new_box k err now = \<lparr>gb_job = k, gb_attempts = 0, gb_error = err, gb_published = None, gb_created = now\<rparr>"

definition new_job :: "extractor_meta \<Rightarrow> string \<Rightarrow> document \<Rightarrow> int \<Rightarrow> gjob" where
  "new_job m k d now =
     \<lparr>gj_id = k, gj_project = dc_project d, gj_dataset = dc_dataset d, gj_document = dc_id d,
      gj_status = JQueued, gj_attempt = 0, gj_max = 5, gj_next = now, gj_lease = None, gj_error = None,
      gj_provider = xm_provider m, gj_model = xm_model m, gj_extractor = xm_extractor m,
      gj_prompt = xm_prompt m, gj_ontology = None\<rparr>"

definition put_box :: "string \<Rightarrow> string option \<Rightarrow> int \<Rightarrow> queue_db \<Rightarrow> queue_db" where
  "put_box k err now s =
     (case box_of s k of
        None \<Rightarrow> s\<lparr>q_outbox := q_outbox s @ [new_box k err now]\<rparr>
      | Some _ \<Rightarrow> set_box k (\<lambda>b. b\<lparr>gb_published := None, gb_error := err\<rparr>) s)"

definition enqueue_graph_extraction ::
    "(string \<Rightarrow> string) \<Rightarrow> extractor_meta \<Rightarrow> document \<Rightarrow> int \<Rightarrow> queue_db \<Rightarrow> queue_db" where
  "enqueue_graph_extraction sha m d now s =
     (let k = stable_id sha ''graph-job'' [dc_id d, xm_extractor m];
          s1 = (case job_of s k of
              None \<Rightarrow> s\<lparr>q_jobs := q_jobs s @ [new_job m k d now], q_outbox := q_outbox s @ [new_box k None now]\<rparr>
            | Some _ \<Rightarrow> put_box k None now
                (set_job k (\<lambda>j. j\<lparr>gj_status := JQueued, gj_attempt := 0, gj_error := None, gj_next := now\<rparr>) s))
      in set_doc (dc_id d) (\<lambda>x. x\<lparr>dc_stage := Some ''queued''\<rparr>) s1)"

section \<open>Dispatching\<close>

definition claimable :: "int \<Rightarrow> queue_db \<Rightarrow> gbox \<Rightarrow> bool" where
  "claimable now s b \<longleftrightarrow> gb_published b = None \<and> gb_attempts b < MAX_GRAPH_OUTBOX_ATTEMPTS
     \<and> (case job_of s (gb_job b) of None \<Rightarrow> False | Some j \<Rightarrow> gj_status j = JQueued \<and> gj_next j \<le> now)"

definition claimed :: "int \<Rightarrow> nat \<Rightarrow> queue_db \<Rightarrow> string list" where
  "claimed now n s = map gb_job (limit n (order_by gb_created (filter (claimable now s) (q_outbox s))))"

definition claim_pending :: "int \<Rightarrow> nat \<Rightarrow> queue_db \<Rightarrow> queue_db" where
  "claim_pending now n s =
     s\<lparr>q_outbox := map (\<lambda>b. if gb_job b \<in> set (claimed now n s)
         then b\<lparr>gb_attempts := gb_attempts b + 1, gb_published := Some now, gb_error := None\<rparr> else b) (q_outbox s)\<rparr>"

text \<open>The transaction after \<open>enqueue_job\<close> raised \<open>message\<close>; \<open>now\<close> is the dispatcher's start.\<close>

definition publish_failed :: "int \<Rightarrow> string \<Rightarrow> string \<Rightarrow> queue_db \<Rightarrow> queue_db" where
  "publish_failed now k message s =
     (case box_of s k of None \<Rightarrow> s
      | Some b \<Rightarrow>
        if gb_published b \<noteq> Some now then s
        else
          let s1 = set_box k (\<lambda>b. b\<lparr>gb_published := None, gb_error := Some message\<rparr>) s in
          case job_of s k of
            Some j \<Rightarrow> if gb_attempts b \<ge> MAX_GRAPH_OUTBOX_ATTEMPTS
              then set_doc (gj_document j) (\<lambda>d. d\<lparr>dc_status := DFailed, dc_stage := Some ''failed'', dc_error := Some message\<rparr>)
                     (set_job k (\<lambda>j. j\<lparr>gj_status := JFailed, gj_error := Some message\<rparr>) s1)
              else s1
          | None \<Rightarrow> s1)"

text \<open>The whole function; \<open>send\<close> gives the message of the exception that publishing a job raises.\<close>

definition dispatch_pending_graph_jobs ::
    "(string \<Rightarrow> string option) \<Rightarrow> int \<Rightarrow> nat \<Rightarrow> queue_db \<Rightarrow> nat \<times> queue_db" where
  "dispatch_pending_graph_jobs send now n s =
     fold (\<lambda>k (sent, s). case send k of None \<Rightarrow> (sent + 1, s) | Some e \<Rightarrow> (sent, publish_failed now k e s))
       (claimed now n s) (0, claim_pending now n s)"

section \<open>Reconciling\<close>

definition expired :: "int \<Rightarrow> gjob \<Rightarrow> bool" where
  "expired now j \<longleftrightarrow> gj_status j = JRunning \<and> (case gj_lease j of None \<Rightarrow> False | Some t \<Rightarrow> t < now)"

definition recovered :: "int \<Rightarrow> nat \<Rightarrow> queue_db \<Rightarrow> string list" where
  "recovered now n s = map gj_id (limit n (filter (expired now) (q_jobs s)))"

definition recover_running :: "int \<Rightarrow> nat \<Rightarrow> queue_db \<Rightarrow> queue_db" where
  "recover_running now n s =
     s\<lparr>q_jobs := map (\<lambda>j. if gj_id j \<in> set (recovered now n s)
           then j\<lparr>gj_status := JQueued, gj_lease := None, gj_next := now\<rparr> else j) (q_jobs s),
       q_outbox := map (\<lambda>b. if gb_job b \<in> set (recovered now n s)
           then b\<lparr>gb_published := None\<rparr> else b) (q_outbox s)\<rparr>"

definition stale_box :: "int \<Rightarrow> int \<Rightarrow> queue_db \<Rightarrow> gbox \<Rightarrow> bool" where
  "stale_box timeout now s b \<longleftrightarrow>
     (case gb_published b of None \<Rightarrow> False | Some t \<Rightarrow> t < now - lease_seconds timeout * 2)
     \<and> (case job_of s (gb_job b) of None \<Rightarrow> False | Some j \<Rightarrow> gj_status j = JQueued)"

definition stale_boxes :: "int \<Rightarrow> int \<Rightarrow> nat \<Rightarrow> queue_db \<Rightarrow> string list" where
  "stale_boxes timeout now n s = map gb_job (limit n (filter (stale_box timeout now s) (q_outbox s)))"

definition recover_stale :: "int \<Rightarrow> int \<Rightarrow> nat \<Rightarrow> queue_db \<Rightarrow> queue_db" where
  "recover_stale timeout now n s =
     s\<lparr>q_outbox := map (\<lambda>b. if gb_job b \<in> set (stale_boxes timeout now n s)
         then b\<lparr>gb_published := None, gb_error := Some ''dispatch stale; requeued''\<rparr> else b) (q_outbox s)\<rparr>"

definition reconcile_graph_jobs :: "int \<Rightarrow> int \<Rightarrow> nat \<Rightarrow> queue_db \<Rightarrow> nat \<times> queue_db" where
  "reconcile_graph_jobs timeout now n s =
     (let s1 = recover_running now n s in
      (length (recovered now n s) + length (stale_boxes timeout now n s1), recover_stale timeout now n s1))"

section \<open>Single jobs\<close>

definition renew_graph_job_lease :: "int \<Rightarrow> int \<Rightarrow> string \<Rightarrow> queue_db \<Rightarrow> queue_db" where
  "renew_graph_job_lease timeout now k s =
     (case job_of s k of
        Some j \<Rightarrow> if gj_status j = JRunning
          then set_job k (\<lambda>j. j\<lparr>gj_lease := Some (now + lease_seconds timeout)\<rparr>) s else s
      | None \<Rightarrow> s)"

definition requeue_graph_job :: "int \<Rightarrow> string \<Rightarrow> string \<Rightarrow> queue_db \<Rightarrow> queue_db" where
  "requeue_graph_job now k reason s =
     (case job_of s k of None \<Rightarrow> s
      | Some j \<Rightarrow> if gj_status j = JSucceeded then s
        else put_box k (Some reason) now
          (set_job k (\<lambda>j. j\<lparr>gj_status := JQueued, gj_lease := None, gj_next := now, gj_error := Some reason\<rparr>) s))"

text \<open>\<open>execute_graph_job\<close> up to the extraction: the result to return, or None to go on.\<close>

definition start_graph_job :: "int \<Rightarrow> int \<Rightarrow> string \<Rightarrow> queue_db \<Rightarrow> (string option \<times> queue_db) res" where
  "start_graph_job timeout now k s =
     (case job_of s k of None \<Rightarrow> Inr (Some k, s)
      | Some j \<Rightarrow>
        if gj_status j = JSucceeded
           \<or> (gj_status j = JRunning \<and> (case gj_lease j of None \<Rightarrow> False | Some t \<Rightarrow> t > now))
          then Inr (Some (gj_document j), s)
        else if gj_attempt j \<ge> gj_max j
          then Inr (Some (gj_document j), set_job k (\<lambda>j. j\<lparr>gj_status := JFailed, gj_lease := None\<rparr>) s)
        else case doc_of s (gj_document j) of
          None \<Rightarrow> Inl (ValueError ''graph job document scope mismatch'')
        | Some d \<Rightarrow>
          if dc_project d \<noteq> gj_project j \<or> dc_dataset d \<noteq> gj_dataset j
            then Inl (ValueError ''graph job document scope mismatch'')
          else if dc_status d \<notin> {Indexed, Persisting}
            then Inl (ValueError ''graph extraction requires a persisted document'')
          else
            let s1 = set_job k (\<lambda>j. j\<lparr>gj_status := JRunning, gj_attempt := gj_attempt j + 1,
                        gj_lease := Some (now + lease_seconds timeout), gj_error := None\<rparr>) s;
                s2 = set_doc (dc_id d) (\<lambda>d. d\<lparr>dc_stage := Some ''extracting''\<rparr>) s1
            in Inr (None, s2\<lparr>q_workers := k # q_workers s2\<rparr>))"

text \<open>The transaction of the \<open>except\<close> branch, and the one after a successful extraction.\<close>

definition fail_graph_job :: "int \<Rightarrow> string \<Rightarrow> string \<Rightarrow> queue_db \<Rightarrow> queue_db" where
  "fail_graph_job now k message s0 =
     (let s = s0\<lparr>q_workers := remove1 k (q_workers s0)\<rparr> in
      case job_of s k of None \<Rightarrow> s
      | Some j \<Rightarrow>
        if gj_attempt j \<ge> gj_max j then
          set_doc (gj_document j) (\<lambda>d. d\<lparr>dc_status := DFailed, dc_stage := Some ''failed'', dc_error := Some message\<rparr>)
            (set_job k (\<lambda>j. j\<lparr>gj_error := Some message, gj_lease := None, gj_status := JFailed\<rparr>) s)
        else
          set_box k (\<lambda>b. b\<lparr>gb_published := None\<rparr>)
            (set_job k (\<lambda>j. j\<lparr>gj_error := Some message, gj_lease := None, gj_status := JQueued,
               gj_next := now + int (min 60 (2 ^ gj_attempt j))\<rparr>) s))"

definition complete_graph_job :: "string \<Rightarrow> queue_db \<Rightarrow> queue_db" where
  "complete_graph_job k s0 =
     (let s = s0\<lparr>q_workers := remove1 k (q_workers s0)\<rparr> in
      case job_of s k of None \<Rightarrow> s
      | Some j \<Rightarrow>
        set_doc (gj_document j) (\<lambda>d. d\<lparr>dc_status := Indexed, dc_stage := Some ''complete'', dc_error := None\<rparr>)
          (set_job k (\<lambda>j. j\<lparr>gj_status := JSucceeded, gj_lease := None, gj_error := None\<rparr>) s))"

text \<open>The whole function when nothing comes in between; \<open>extract\<close> gives the message of a failure.\<close>

definition execute_graph_job ::
    "(string \<Rightarrow> string option) \<Rightarrow> int \<Rightarrow> int \<Rightarrow> int \<Rightarrow> string \<Rightarrow> queue_db \<Rightarrow> string res \<times> queue_db" where
  "execute_graph_job extract timeout now later k s =
     (case start_graph_job timeout now k s of
        Inl e \<Rightarrow> (Inl e, s)
      | Inr (Some r, s1) \<Rightarrow> (Inr r, s1)
      | Inr (None, s1) \<Rightarrow>
        (case extract k of
           None \<Rightarrow> (Inr k, complete_graph_job k s1)
         | Some message \<Rightarrow>
             (Inl (RuntimeError (''graph extraction failed for job '' @ k @ '': '' @ message)),
              fail_graph_job later k message s1)))"

text \<open>Deleting a document deletes its jobs and their outbox rows (\<open>ON DELETE CASCADE\<close>).\<close>

definition delete_job_document :: "string \<Rightarrow> queue_db \<Rightarrow> queue_db" where
  "delete_job_document doc s =
     (let gone = map gj_id (filter (\<lambda>j. gj_document j = doc) (q_jobs s)) in
      s\<lparr>q_documents := del_rows (\<lambda>d. dc_id d = doc) (q_documents s),
        q_jobs := del_rows (\<lambda>j. gj_document j = doc) (q_jobs s),
        q_outbox := del_rows (\<lambda>b. gb_job b \<in> set gone) (q_outbox s)\<rparr>)"

section \<open>Steps\<close>

inductive queue_step :: "queue_db \<Rightarrow> queue_db \<Rightarrow> bool" where
  enqueue: "d \<in> set (q_documents s) \<Longrightarrow> queue_step s (enqueue_graph_extraction sha m d now s)"
| claim: "queue_step s (claim_pending now n s)"
| unpublish: "queue_step s (publish_failed now k message s)"
| recover: "queue_step s (recover_running now n s)"
| restale: "queue_step s (recover_stale timeout now n s)"
| renew: "queue_step s (renew_graph_job_lease timeout now k s)"
| requeue: "queue_step s (requeue_graph_job now k reason s)"
| start: "start_graph_job timeout now k s = Inr (r, s') \<Longrightarrow> queue_step s s'"
| failed: "k \<in> set (q_workers s) \<Longrightarrow> queue_step s (fail_graph_job now k message s)"
| completed: "k \<in> set (q_workers s) \<Longrightarrow> queue_step s (complete_graph_job k s)"
| upload: "dc_id d \<notin> dc_id ` set (q_documents s) \<Longrightarrow> queue_step s (s\<lparr>q_documents := q_documents s @ [d]\<rparr>)"
| delete: "queue_step s (delete_job_document doc s)"

inductive queue_reachable :: "queue_db \<Rightarrow> bool" where
  initial: "queue_reachable \<lparr>q_documents = [], q_jobs = [], q_outbox = [], q_workers = []\<rparr>"
| step: "queue_reachable s \<Longrightarrow> queue_step s s' \<Longrightarrow> queue_reachable s'"

definition queue_ok :: "queue_db \<Rightarrow> bool" where
  "queue_ok s \<longleftrightarrow> distinct (map gj_id (q_jobs s)) \<and> distinct (map gb_job (q_outbox s))
     \<and> distinct (map dc_id (q_documents s))
     \<and> gj_id ` set (q_jobs s) = gb_job ` set (q_outbox s)
     \<and> (\<forall>j\<in>set (q_jobs s). gj_attempt j \<le> gj_max j \<and> (gj_status j = JRunning \<longrightarrow> gj_lease j \<noteq> None)
          \<and> gj_document j \<in> dc_id ` set (q_documents s))
     \<and> (\<forall>b\<in>set (q_outbox s). gb_attempts b \<le> MAX_GRAPH_OUTBOX_ATTEMPTS)"

section \<open>The invariant\<close>

lemma queue_fields [simp]:
  "q_documents (set_job k f s) = q_documents s" "q_outbox (set_job k f s) = q_outbox s"
  "q_workers (set_job k f s) = q_workers s" "q_jobs (set_box k g s) = q_jobs s"
  "q_documents (set_box k g s) = q_documents s" "q_workers (set_box k g s) = q_workers s"
  "q_jobs (set_doc k h s) = q_jobs s" "q_outbox (set_doc k h s) = q_outbox s"
  "q_workers (set_doc k h s) = q_workers s" "q_jobs (put_box k e now s) = q_jobs s"
  "q_documents (put_box k e now s) = q_documents s" "q_workers (put_box k e now s) = q_workers s"
  by (simp_all add: set_job_def set_box_def set_doc_def put_box_def split: option.split)

lemma jobs_map_ok:
  assumes "queue_ok s" "\<And>j. gj_id (f j) = gj_id j"
    "\<And>j. j \<in> set (q_jobs s) \<Longrightarrow> gj_document (f j) = gj_document j \<and> gj_attempt (f j) \<le> gj_max (f j)
       \<and> (gj_status (f j) = JRunning \<longrightarrow> gj_lease (f j) \<noteq> None)"
  shows "queue_ok (s\<lparr>q_jobs := map f (q_jobs s)\<rparr>)"
  using assms by (simp add: queue_ok_def image_image o_def)

lemma boxes_map_ok:
  assumes "queue_ok s" "\<And>b. gb_job (f b) = gb_job b"
    "\<And>b. b \<in> set (q_outbox s) \<Longrightarrow> gb_attempts (f b) \<le> MAX_GRAPH_OUTBOX_ATTEMPTS"
  shows "queue_ok (s\<lparr>q_outbox := map f (q_outbox s)\<rparr>)"
  using assms by (simp add: queue_ok_def image_image o_def)

lemma set_job_ok:
  assumes "queue_ok s" "\<And>j. gj_id (f j) = gj_id j"
    "\<And>j. j \<in> set (q_jobs s) \<Longrightarrow> gj_id j = k \<Longrightarrow> gj_document (f j) = gj_document j \<and> gj_attempt (f j) \<le> gj_max (f j)
       \<and> (gj_status (f j) = JRunning \<longrightarrow> gj_lease (f j) \<noteq> None)"
  shows "queue_ok (set_job k f s)"
  unfolding set_job_def upd_row_def
  by (rule jobs_map_ok [OF assms(1)]) (use assms in \<open>auto simp: queue_ok_def\<close>)

lemma set_box_ok:
  assumes "queue_ok s" "\<And>b. gb_job (f b) = gb_job b \<and> gb_attempts (f b) = gb_attempts b"
  shows "queue_ok (set_box k f s)"
  unfolding set_box_def upd_row_def
  by (rule boxes_map_ok [OF assms(1)]) (use assms in \<open>auto simp: queue_ok_def\<close>)

lemma set_doc_ok:
  assumes "queue_ok s" "\<And>d. dc_id (f d) = dc_id d"
  shows "queue_ok (set_doc k f s)"
proof -
  have "map dc_id (upd_row dc_id k f (q_documents s)) = map dc_id (q_documents s)"
    using assms(2) by (rule map_key_upd_row)
  moreover from this have "dc_id ` set (upd_row dc_id k f (q_documents s)) = dc_id ` set (q_documents s)"
    by (metis set_map)
  ultimately show ?thesis using assms(1) by (simp add: queue_ok_def set_doc_def)
qed

lemma workers_ok: "queue_ok s \<Longrightarrow> queue_ok (s\<lparr>q_workers := ws\<rparr>)"
  by (simp add: queue_ok_def)

lemma put_box_ok:
  assumes "queue_ok s" "job_of s k \<noteq> None"
  shows "queue_ok (put_box k e now s)"
proof (cases "box_of s k")
  case None
  from assms(2) have "k \<in> gj_id ` set (q_jobs s)" by (simp add: job_of_def get_row_None_iff)
  with assms(1) have "k \<in> gb_job ` set (q_outbox s)" by (simp add: queue_ok_def)
  with None show ?thesis by (simp add: box_of_def get_row_None_iff)
next
  case (Some b)
  then show ?thesis using assms(1) by (simp add: put_box_def set_box_ok)
qed

lemma job_of_SomeD: "job_of s k = Some j \<Longrightarrow> j \<in> set (q_jobs s) \<and> gj_id j = k"
  unfolding job_of_def by (rule get_row_SomeD)

lemma job_of_set_job:
  "(\<And>j. gj_id (f j) = gj_id j) \<Longrightarrow>
     job_of (set_job k f s) k' = (if k' = k then map_option f (job_of s k') else job_of s k')"
  by (simp add: job_of_def set_job_def get_row_upd_row)

lemma job_of_set_box [simp]: "job_of (set_box k f s) k' = job_of s k'"
  and job_of_set_doc [simp]: "job_of (set_doc k g s) k' = job_of s k'"
  and job_of_workers [simp]: "job_of (s\<lparr>q_workers := ws\<rparr>) k' = job_of s k'"
  by (simp_all add: job_of_def)

lemma enqueue_row_ok:
  assumes "queue_ok s" "dc_id d \<in> dc_id ` set (q_documents s)"
  shows "queue_ok (enqueue_graph_extraction sha m d now s)"
proof -
  let ?k = "stable_id sha ''graph-job'' [dc_id d, xm_extractor m]"
  let ?new = "s\<lparr>q_jobs := q_jobs s @ [new_job m ?k d now], q_outbox := q_outbox s @ [new_box ?k None now]\<rparr>"
  let ?f = "\<lambda>j. j\<lparr>gj_status := JQueued, gj_attempt := 0, gj_error := None, gj_next := now\<rparr>"
  have "queue_ok ?new" if "job_of s ?k = None"
  proof -
    from that have "?k \<notin> gj_id ` set (q_jobs s)" by (simp add: job_of_def get_row_None_iff)
    with assms show ?thesis by (auto simp: queue_ok_def new_job_def new_box_def)
  qed
  moreover have "queue_ok (put_box ?k None now (set_job ?k ?f s))" if "job_of s ?k \<noteq> None"
  proof (rule put_box_ok)
    show "queue_ok (set_job ?k ?f s)" by (rule set_job_ok [OF assms(1)]) simp_all
    show "job_of (set_job ?k ?f s) ?k \<noteq> None" using that by (simp add: job_of_set_job)
  qed
  ultimately show ?thesis
    unfolding enqueue_graph_extraction_def Let_def by (intro set_doc_ok) (auto split: option.split)
qed

lemma enqueue_ok:
  "queue_ok s \<Longrightarrow> d \<in> set (q_documents s) \<Longrightarrow> queue_ok (enqueue_graph_extraction sha m d now s)"
  by (simp add: enqueue_row_ok)

lemma claim_ok: "queue_ok s \<Longrightarrow> queue_ok (claim_pending now n s)"
proof -
  assume ok: "queue_ok s"
  have att: "gb_attempts b < MAX_GRAPH_OUTBOX_ATTEMPTS"
    if "b \<in> set (q_outbox s)" "gb_job b \<in> set (claimed now n s)" for b
  proof -
    from that(2) obtain b' where b': "b' \<in> set (q_outbox s)" "claimable now s b'" "gb_job b' = gb_job b"
      using set_limit by (fastforce simp: claimed_def)
    with ok that(1) have "b' = b" by (simp add: queue_ok_def distinct_map inj_on_def)
    with b' show ?thesis by (simp add: claimable_def)
  qed
  show ?thesis
    unfolding claim_pending_def
  proof (rule boxes_map_ok [OF ok])
    fix b assume b: "b \<in> set (q_outbox s)"
    show "gb_attempts (if gb_job b \<in> set (claimed now n s)
        then b\<lparr>gb_attempts := gb_attempts b + 1, gb_published := Some now, gb_error := None\<rparr> else b) \<le> MAX_GRAPH_OUTBOX_ATTEMPTS"
      using att [OF b] b ok by (auto simp: queue_ok_def)
  qed simp
qed

lemma queue_ok_jobD:
  "queue_ok s \<Longrightarrow> j \<in> set (q_jobs s) \<Longrightarrow> gj_attempt j \<le> gj_max j
     \<and> (gj_status j = JRunning \<longrightarrow> gj_lease j \<noteq> None)"
  by (simp add: queue_ok_def)

lemma publish_failed_ok:
  assumes "queue_ok s"
  shows "queue_ok (publish_failed now k message s)"
proof -
  let ?s = "set_box k (\<lambda>b. b\<lparr>gb_published := None, gb_error := Some message\<rparr>) s"
  have b: "queue_ok ?s" by (rule set_box_ok [OF assms]) simp
  have "queue_ok (set_job k (\<lambda>j. j\<lparr>gj_status := JFailed, gj_error := Some message\<rparr>) ?s)"
    by (rule set_job_ok [OF b]) (use queue_ok_jobD [OF assms] in \<open>auto\<close>)
  with assms b show ?thesis
    unfolding publish_failed_def Let_def by (auto intro: set_doc_ok split: option.split)
qed

lemma recover_running_ok:
  assumes "queue_ok s"
  shows "queue_ok (recover_running now n s)"
proof -
  let ?f = "\<lambda>j. if gj_id j \<in> set (recovered now n s) then j\<lparr>gj_status := JQueued, gj_lease := None, gj_next := now\<rparr> else j"
  have "queue_ok (s\<lparr>q_jobs := map ?f (q_jobs s)\<rparr>)"
  proof (rule jobs_map_ok [OF assms])
    fix j assume "j \<in> set (q_jobs s)"
    from queue_ok_jobD [OF assms this]
    show "gj_document (?f j) = gj_document j \<and> gj_attempt (?f j) \<le> gj_max (?f j)
       \<and> (gj_status (?f j) = JRunning \<longrightarrow> gj_lease (?f j) \<noteq> None)"
      by (cases "gj_id j \<in> set (recovered now n s)") simp_all
  qed simp
  then have "queue_ok (s\<lparr>q_jobs := map ?f (q_jobs s)\<rparr>\<lparr>q_outbox :=
      map (\<lambda>b. if gb_job b \<in> set (recovered now n s) then b\<lparr>gb_published := None\<rparr> else b)
        (q_outbox (s\<lparr>q_jobs := map ?f (q_jobs s)\<rparr>))\<rparr>)" (is "queue_ok ?s")
  proof (rule boxes_map_ok)
    fix b assume "b \<in> set (q_outbox (s\<lparr>q_jobs := map ?f (q_jobs s)\<rparr>))"
    then have "b \<in> set (q_outbox s)" by simp
    with assms have "gb_attempts b \<le> MAX_GRAPH_OUTBOX_ATTEMPTS" unfolding queue_ok_def by blast
    then show "gb_attempts (if gb_job b \<in> set (recovered now n s) then b\<lparr>gb_published := None\<rparr> else b)
        \<le> MAX_GRAPH_OUTBOX_ATTEMPTS" by (cases "gb_job b \<in> set (recovered now n s)") simp_all
  qed simp
  moreover have "?s = recover_running now n s" unfolding recover_running_def by simp
  ultimately show ?thesis by simp
qed

lemma recover_stale_ok: "queue_ok s \<Longrightarrow> queue_ok (recover_stale timeout now n s)"
  unfolding recover_stale_def by (rule boxes_map_ok) (auto simp: queue_ok_def)

lemma renew_ok:
  assumes "queue_ok s"
  shows "queue_ok (renew_graph_job_lease timeout now k s)"
proof -
  have "queue_ok (set_job k (\<lambda>j. j\<lparr>gj_lease := Some (now + lease_seconds timeout)\<rparr>) s)"
    by (rule set_job_ok [OF assms]) (use queue_ok_jobD [OF assms] in \<open>auto\<close>)
  with assms show ?thesis by (simp add: renew_graph_job_lease_def split: option.split)
qed

lemma requeue_ok:
  assumes "queue_ok s"
  shows "queue_ok (requeue_graph_job now k reason s)"
proof -
  let ?s = "set_job k (\<lambda>j. j\<lparr>gj_status := JQueued, gj_lease := None, gj_next := now, gj_error := Some reason\<rparr>) s"
  have "queue_ok ?s" by (rule set_job_ok [OF assms]) (use queue_ok_jobD [OF assms] in \<open>auto\<close>)
  moreover have "job_of s k \<noteq> None \<Longrightarrow> job_of ?s k \<noteq> None" by (simp add: job_of_set_job)
  ultimately show ?thesis
    using assms put_box_ok [of ?s k] by (auto simp: requeue_graph_job_def split: option.split)
qed

text \<open>What a start does when it starts.\<close>

lemma start_graph_job_cases:
  assumes "start_graph_job timeout now k s = Inr (r, s')"
  obtains (stay) "s' = s" "r \<noteq> None"
  | (give_up) j where "job_of s k = Some j" "gj_attempt j \<ge> gj_max j" "gj_status j \<noteq> JSucceeded"
      "s' = set_job k (\<lambda>j. j\<lparr>gj_status := JFailed, gj_lease := None\<rparr>) s" "r = Some (gj_document j)"
  | (go) j d where "job_of s k = Some j" "gj_attempt j < gj_max j" "gj_status j \<noteq> JSucceeded"
      "gj_status j = JRunning \<longrightarrow> (\<forall>t. gj_lease j = Some t \<longrightarrow> t \<le> now)"
      "doc_of s (gj_document j) = Some d" "dc_status d \<in> {Indexed, Persisting}"
      "s' = (set_doc (dc_id d) (\<lambda>d. d\<lparr>dc_stage := Some ''extracting''\<rparr>)
         (set_job k (\<lambda>j. j\<lparr>gj_status := JRunning, gj_attempt := gj_attempt j + 1,
            gj_lease := Some (now + lease_seconds timeout), gj_error := None\<rparr>) s))
         \<lparr>q_workers := k # q_workers s\<rparr>" "r = None"
proof (cases "job_of s k")
  case None
  then have "start_graph_job timeout now k s = Inr (Some k, s)" by (simp add: start_graph_job_def)
  with assms stay show ?thesis by auto
next
  case (Some j)
  let ?held = "gj_status j = JSucceeded
    \<or> (gj_status j = JRunning \<and> (case gj_lease j of None \<Rightarrow> False | Some t \<Rightarrow> t > now))"
  consider ?held | "\<not> ?held" "gj_attempt j \<ge> gj_max j" | "\<not> ?held" "gj_attempt j < gj_max j" by linarith
  then show ?thesis
  proof cases
    case 1
    then have "start_graph_job timeout now k s = Inr (Some (gj_document j), s)"
      unfolding start_graph_job_def Some by simp
    with assms stay show ?thesis by auto
  next
    case 2
    then have "start_graph_job timeout now k s = Inr (Some (gj_document j),
        set_job k (\<lambda>j. j\<lparr>gj_status := JFailed, gj_lease := None\<rparr>) s)"
      unfolding start_graph_job_def Some by auto
    with assms 2 give_up [OF Some] show ?thesis by simp
  next
    case 3
    then obtain d where d: "doc_of s (gj_document j) = Some d"
      using assms unfolding start_graph_job_def Some by (auto split: option.splits)
    from 3 d have "dc_status d \<in> {Indexed, Persisting}" "r = None"
      "s' = (set_doc (dc_id d) (\<lambda>d. d\<lparr>dc_stage := Some ''extracting''\<rparr>)
         (set_job k (\<lambda>j. j\<lparr>gj_status := JRunning, gj_attempt := gj_attempt j + 1,
            gj_lease := Some (now + lease_seconds timeout), gj_error := None\<rparr>) s))
         \<lparr>q_workers := k # q_workers s\<rparr>"
      using assms unfolding start_graph_job_def Some by (auto simp: Let_def split: if_splits)
    moreover have "gj_status j = JRunning \<longrightarrow> (\<forall>t. gj_lease j = Some t \<longrightarrow> t \<le> now)" "gj_status j \<noteq> JSucceeded"
      using 3(1) by auto
    ultimately show ?thesis using go [OF Some 3(2)] d by blast
  qed
qed

lemma start_ok:
  assumes "queue_ok s" "start_graph_job timeout now k s = Inr (r, s')"
  shows "queue_ok s'"
  using assms(2)
proof (cases rule: start_graph_job_cases)
  case stay
  with assms(1) show ?thesis by simp
next
  case (give_up j)
  show ?thesis unfolding give_up(4)
    by (rule set_job_ok [OF assms(1)]) (use queue_ok_jobD [OF assms(1)] in \<open>auto\<close>)
next
  case (go j d)
  have "x = j" if "x \<in> set (q_jobs s)" "gj_id x = k" for x
    using that job_of_SomeD [OF go(1)] assms(1) by (simp add: queue_ok_def distinct_map inj_on_def)
  with go(2) have "gj_attempt x < gj_max x" if "x \<in> set (q_jobs s)" "gj_id x = k" for x using that by simp
  then show ?thesis unfolding go(7)
    by (intro workers_ok set_doc_ok set_job_ok [OF assms(1)]) (auto simp: Suc_le_eq)
qed

lemma fail_ok:
  assumes "queue_ok s"
  shows "queue_ok (fail_graph_job now k message s)"
proof -
  let ?s = "s\<lparr>q_workers := remove1 k (q_workers s)\<rparr>"
  have w: "queue_ok ?s" using assms by (rule workers_ok)
  have "queue_ok (set_job k (\<lambda>j. j\<lparr>gj_error := Some message, gj_lease := None, gj_status := JFailed\<rparr>) ?s)"
    by (rule set_job_ok [OF w]) (use queue_ok_jobD [OF w] in \<open>auto\<close>)
  moreover have "queue_ok (set_job k (\<lambda>j. j\<lparr>gj_error := Some message, gj_lease := None, gj_status := JQueued,
      gj_next := h j\<rparr>) ?s)" for h
    by (rule set_job_ok [OF w]) (use queue_ok_jobD [OF w] in \<open>auto\<close>)
  ultimately show ?thesis
    using w unfolding fail_graph_job_def Let_def by (auto intro!: set_doc_ok set_box_ok split: option.split)
qed

lemma complete_ok:
  assumes "queue_ok s"
  shows "queue_ok (complete_graph_job k s)"
proof -
  let ?s = "s\<lparr>q_workers := remove1 k (q_workers s)\<rparr>"
  have w: "queue_ok ?s" using assms by (rule workers_ok)
  have "queue_ok (set_job k (\<lambda>j. j\<lparr>gj_status := JSucceeded, gj_lease := None, gj_error := None\<rparr>) ?s)"
    by (rule set_job_ok [OF w]) (use queue_ok_jobD [OF w] in \<open>auto\<close>)
  with w show ?thesis
    unfolding complete_graph_job_def Let_def by (auto intro!: set_doc_ok split: option.split)
qed

lemma delete_ok:
  assumes "queue_ok s"
  shows "queue_ok (delete_job_document doc s)"
proof -
  let ?gone = "gj_id ` {j \<in> set (q_jobs s). gj_document j = doc}"
  have inj: "inj_on gj_id (set (q_jobs s))" using assms by (simp add: queue_ok_def distinct_map)
  have "gj_id ` {j \<in> set (q_jobs s). gj_document j \<noteq> doc} = gj_id ` set (q_jobs s) - ?gone"
    using inj by (auto simp: inj_on_def)
  also have "\<dots> = gb_job ` {b \<in> set (q_outbox s). gb_job b \<notin> ?gone}"
    using assms by (auto simp: queue_ok_def)
  finally show ?thesis
    using assms unfolding queue_ok_def delete_job_document_def Let_def
    by (simp add: distinct_map_del_rows) blast
qed

lemma queue_step_ok: "queue_step s s' \<Longrightarrow> queue_ok s \<Longrightarrow> queue_ok s'"
proof (induction rule: queue_step.induct)
  case (upload d s)
  then show ?case by (auto simp: queue_ok_def)
next
  case (start timeout now k s r s')
  then show ?case by (blast intro: start_ok)
qed (blast intro: enqueue_ok claim_ok publish_failed_ok recover_running_ok recover_stale_ok renew_ok
    requeue_ok fail_ok complete_ok delete_ok)+

lemma queue_reachable_ok: "queue_reachable s \<Longrightarrow> queue_ok s"
proof (induction rule: queue_reachable.induct)
  case initial
  show ?case by (simp add: queue_ok_def)
next
  case (step s s')
  then show ?case by (blast intro: queue_step_ok)
qed

section \<open>Looking up after a step\<close>

lemma box_of_simps [simp]:
  "box_of (set_job k f s) k' = box_of s k'" "box_of (set_doc k g s) k' = box_of s k'"
  "box_of (s\<lparr>q_workers := ws\<rparr>) k' = box_of s k'"
  by (simp_all add: box_of_def)

lemma doc_of_simps [simp]:
  "doc_of (set_job k f s) k' = doc_of s k'" "doc_of (set_box k h s) k' = doc_of s k'"
  "doc_of (s\<lparr>q_workers := ws\<rparr>) k' = doc_of s k'"
  by (simp_all add: doc_of_def)

lemma doc_of_set_doc:
  "(\<And>d. dc_id (f d) = dc_id d) \<Longrightarrow>
     doc_of (set_doc k f s) k' = (if k' = k then map_option f (doc_of s k') else doc_of s k')"
  by (simp add: doc_of_def set_doc_def get_row_upd_row)

lemma box_of_set_box:
  "(\<And>b. gb_job (f b) = gb_job b) \<Longrightarrow>
     box_of (set_box k f s) k' = (if k' = k then map_option f (box_of s k') else box_of s k')"
  by (simp add: box_of_def set_box_def get_row_upd_row)

lemma doc_of_SomeD: "doc_of s k = Some d \<Longrightarrow> dc_id d = k"
  unfolding doc_of_def by (rule get_row_key)

lemma started_job:
  assumes "start_graph_job timeout now k s = Inr (None, s')"
  obtains j where "job_of s k = Some j" "gj_attempt j < gj_max j"
    "job_of s' k = Some (j\<lparr>gj_status := JRunning, gj_attempt := gj_attempt j + 1,
       gj_lease := Some (now + lease_seconds timeout), gj_error := None\<rparr>)"
  using assms
proof (cases rule: start_graph_job_cases)
  case (go j d)
  then show ?thesis using that [OF go(1,2)] by (simp add: job_of_set_job)
qed auto

lemma job_has_box:
  assumes "queue_ok s" "job_of s k = Some j"
  obtains b where "box_of s k = Some b" "b \<in> set (q_outbox s)" "gb_job b = k"
proof -
  have "j \<in> set (q_jobs s)" "gj_id j = k" using job_of_SomeD [OF assms(2)] by simp_all
  then have "k \<in> gb_job ` set (q_outbox s)" using assms(1) unfolding queue_ok_def by blast
  then obtain b where b: "b \<in> set (q_outbox s)" "gb_job b = k" by blast
  have "distinct (map gb_job (q_outbox s))" using assms(1) by (simp add: queue_ok_def)
  then have "box_of s k = Some b" using b by (simp add: box_of_def get_row_Some_iff)
  with b that show ?thesis by blast
qed

section \<open>Properties\<close>

text \<open>C6. In every state that enqueuing, dispatching, reconciling and workers reach in any order, each
  job has exactly one outbox row, its attempts never exceed its maximum, it was published at most
  twenty times, and a running job holds a lease, so that the reconciler can recover it.\<close>

theorem queue_invariant:
  assumes "queue_reachable s" "job_of s k = Some j"
  shows "gj_attempt j \<le> gj_max j \<and> (gj_status j = JRunning \<longrightarrow> gj_lease j \<noteq> None)
    \<and> (\<exists>b. box_of s k = Some b \<and> gb_attempts b \<le> MAX_GRAPH_OUTBOX_ATTEMPTS)
    \<and> length (filter (\<lambda>b. gb_job b = k) (q_outbox s)) = 1"
proof -
  have ok: "queue_ok s" using assms(1) by (rule queue_reachable_ok)
  have j: "j \<in> set (q_jobs s)" "gj_id j = k" using job_of_SomeD [OF assms(2)] by simp_all
  obtain b where b: "box_of s k = Some b" "b \<in> set (q_outbox s)" "gb_job b = k"
    using ok assms(2) by (rule job_has_box)
  have d: "distinct (map gb_job (q_outbox s))" using ok by (simp add: queue_ok_def)
  have "gb_attempts b \<le> MAX_GRAPH_OUTBOX_ATTEMPTS" using ok b by (simp add: queue_ok_def)
  moreover have "length (filter (\<lambda>b. gb_job b = k) (q_outbox s)) = 1"
  proof -
    have "set (filter (\<lambda>b. gb_job b = k) (q_outbox s)) = {b}"
      using b d by (auto simp: distinct_map inj_on_def)
    moreover have "distinct (filter (\<lambda>b. gb_job b = k) (q_outbox s))"
      using d by (simp add: distinct_map)
    ultimately show ?thesis by (metis distinct_card card_1_singleton_iff One_nat_def)
  qed
  ultimately show ?thesis using queue_ok_jobD [OF ok j(1)] b(1) by blast
qed

text \<open>A lease is exclusive: while the lease of a started job has not run out, no other worker
  starts it, and its attempt leaves the state as it is.\<close>

theorem start_exclusive:
  assumes "start_graph_job timeout now k s = Inr (None, s')" "now' < now + lease_seconds timeout"
  shows "\<exists>doc. start_graph_job timeout' now' k s' = Inr (Some doc, s')"
  using assms(1)
proof (rule started_job)
  fix j
  assume "job_of s' k = Some (j\<lparr>gj_status := JRunning, gj_attempt := gj_attempt j + 1,
       gj_lease := Some (now + lease_seconds timeout), gj_error := None\<rparr>)"
  then show ?thesis using assms(2) by (simp add: start_graph_job_def)
qed

text \<open>A failed extraction never loses its job: below the maximum of attempts the job is queued
  again and, from at most a minute later, is picked by the next dispatch unless its outbox row is used
  up; at the maximum the job and its document are marked as failed.\<close>

theorem failed_job_settles:
  assumes "queue_reachable s" "job_of s k = Some j"
  shows "if gj_attempt j < gj_max j
    then (\<exists>b. box_of (fail_graph_job now k message s) k = Some b
        \<and> (gb_attempts b < MAX_GRAPH_OUTBOX_ATTEMPTS
           \<longrightarrow> (\<forall>t\<ge>now + 60. claimable t (fail_graph_job now k message s) b)))
    else map_option gj_status (job_of (fail_graph_job now k message s) k) = Some JFailed
      \<and> map_option dc_status (doc_of (fail_graph_job now k message s) (gj_document j)) = Some DFailed"
proof -
  have ok: "queue_ok s" using assms(1) by (rule queue_reachable_ok)
  obtain b where b: "box_of s k = Some b" "gb_job b = k"
    using ok assms(2) by (rule job_has_box)
  show ?thesis
  proof (cases "gj_attempt j < gj_max j")
    case True
    let ?f = "\<lambda>x. x\<lparr>gj_error := Some message, gj_lease := None, gj_status := JQueued,
       gj_next := now + int (min 60 (2 ^ gj_attempt x))\<rparr>"
    let ?s = "s\<lparr>q_workers := remove1 k (q_workers s)\<rparr>"
    have f: "fail_graph_job now k message s = set_box k (\<lambda>b. b\<lparr>gb_published := None\<rparr>) (set_job k ?f ?s)"
      using True assms(2) by (simp add: fail_graph_job_def Let_def)
    have box: "box_of (fail_graph_job now k message s) k = Some (b\<lparr>gb_published := None\<rparr>)"
      unfolding f using b by (simp add: box_of_set_box)
    have job: "job_of (fail_graph_job now k message s) k = Some (?f j)"
      unfolding f using assms(2) by (simp add: job_of_set_job)
    have "claimable t (fail_graph_job now k message s) (b\<lparr>gb_published := None\<rparr>)"
      if "gb_attempts b < MAX_GRAPH_OUTBOX_ATTEMPTS" "t \<ge> now + 60" for t
      using that b(2) job by (simp add: claimable_def)
    with box True show ?thesis by auto
  next
    case False
    have "gj_document j \<in> dc_id ` set (q_documents s)"
      using ok job_of_SomeD [OF assms(2)] by (simp add: queue_ok_def)
    then have "doc_of s (gj_document j) \<noteq> None" by (simp add: doc_of_def get_row_None_iff)
    with False assms(2) show ?thesis
      by (auto simp: fail_graph_job_def Let_def job_of_set_job doc_of_set_doc)
  qed
qed

section \<open>Retrying\<close>

text \<open>One execution whose extraction fails.\<close>

definition failing_run :: "int \<Rightarrow> int \<Rightarrow> string \<Rightarrow> string \<Rightarrow> queue_db \<Rightarrow> queue_db" where
  "failing_run timeout now message k s = snd (execute_graph_job (\<lambda>_. Some message) timeout now now k s)"

definition ready :: "nat \<Rightarrow> string \<Rightarrow> queue_db \<Rightarrow> bool" where
  "ready left k s \<longleftrightarrow> (\<exists>j d. job_of s k = Some j \<and> gj_status j = JQueued \<and> gj_attempt j + left = gj_max j
     \<and> doc_of s (gj_document j) = Some d \<and> dc_project d = gj_project j \<and> dc_dataset d = gj_dataset j
     \<and> dc_status d \<in> {Indexed, Persisting})"

definition given_up :: "string \<Rightarrow> queue_db \<Rightarrow> bool" where
  "given_up k s \<longleftrightarrow> (\<exists>j d. job_of s k = Some j \<and> gj_status j = JFailed
     \<and> doc_of s (gj_document j) = Some d \<and> dc_status d = DFailed)"

lemma failing_run_step:
  assumes "ready (Suc n) k s"
  shows "if n = 0 then given_up k (failing_run timeout now message k s)
    else ready n k (failing_run timeout now message k s)"
proof -
  obtain j d where j: "job_of s k = Some j" "gj_status j = JQueued" "gj_attempt j + Suc n = gj_max j"
    and d: "doc_of s (gj_document j) = Some d" "dc_project d = gj_project j" "dc_dataset d = gj_dataset j"
      "dc_status d \<in> {Indexed, Persisting}"
    using assms by (auto simp: ready_def)
  have did: "dc_id d = gj_document j" using d(1) by (rule doc_of_SomeD)
  let ?s1 = "(set_doc (dc_id d) (\<lambda>d. d\<lparr>dc_stage := Some ''extracting''\<rparr>)
         (set_job k (\<lambda>j. j\<lparr>gj_status := JRunning, gj_attempt := gj_attempt j + 1,
            gj_lease := Some (now + lease_seconds timeout), gj_error := None\<rparr>) s))"
  let ?s = "?s1\<lparr>q_workers := k # q_workers ?s1\<rparr>"
  have start: "start_graph_job timeout now k s = Inr (None, ?s)"
    using j d by (simp add: start_graph_job_def Let_def)
  let ?j = "j\<lparr>gj_status := JRunning, gj_attempt := gj_attempt j + 1,
            gj_lease := Some (now + lease_seconds timeout), gj_error := None\<rparr>"
  have job: "job_of ?s k = Some ?j" using j(1) by (simp add: job_of_set_job)
  have doc: "doc_of ?s (gj_document j) = Some (d\<lparr>dc_stage := Some ''extracting''\<rparr>)"
    using d(1) by (simp add: did doc_of_set_doc)
  obtain s1 where s1: "start_graph_job timeout now k s = Inr (None, s1)" "job_of s1 k = Some ?j"
    "doc_of s1 (gj_document j) = Some (d\<lparr>dc_stage := Some ''extracting''\<rparr>)"
    using start job doc by blast
  have run: "failing_run timeout now message k s = fail_graph_job now k message s1"
    by (simp add: failing_run_def execute_graph_job_def s1(1))
  show ?thesis
  proof (cases "n = 0")
    case True
    with j(3) have "gj_attempt ?j \<ge> gj_max ?j" by simp
    then show ?thesis using True s1(2,3)
      by (simp add: run fail_graph_job_def Let_def given_up_def job_of_set_job doc_of_set_doc)
  next
    case False
    with j(3) have "\<not> gj_attempt ?j \<ge> gj_max ?j" by simp
    then show ?thesis using False s1(2,3) d j(3)
      by (simp add: run fail_graph_job_def Let_def ready_def job_of_set_job)
  qed
qed

text \<open>C39. Retrying ends: a queued job whose extraction always fails is executed exactly as often as it
  has attempts left, and then the job and its document are failed.\<close>

theorem retries_end:
  assumes "ready (Suc n) k s"
  shows "given_up k ((failing_run timeout now message k ^^ Suc n) s)"
  using assms
proof (induction n arbitrary: s)
  case 0
  with failing_run_step [of 0] show ?case by simp
next
  case (Suc n)
  with failing_run_step [of "Suc n"] have "ready (Suc n) k (failing_run timeout now message k s)" by simp
  from Suc.IH [OF this] show ?case by (simp add: funpow_swap1)
qed

text \<open>The budget of an outbox row is never refilled: enqueuing a job again, after its document was
  indexed anew, resets the attempts of the job but not those of the row, so that after twenty
  publications the job is queued and no dispatch picks it at any time.\<close>

theorem outbox_budget_exhausted:
  assumes "queue_reachable s" "d \<in> set (q_documents s)"
    "box_of s (stable_id sha ''graph-job'' [dc_id d, xm_extractor m]) = Some b"
    "gb_attempts b = MAX_GRAPH_OUTBOX_ATTEMPTS"
  shows "let k = stable_id sha ''graph-job'' [dc_id d, xm_extractor m];
      s' = enqueue_graph_extraction sha m d now s
    in map_option gj_status (job_of s' k) = Some JQueued \<and> (\<forall>t n. k \<notin> set (claimed t n s'))"
proof -
  let ?k = "stable_id sha ''graph-job'' [dc_id d, xm_extractor m]"
  let ?s = "enqueue_graph_extraction sha m d now s"
  have ok: "queue_ok s" using assms(1) by (rule queue_reachable_ok)
  have ok': "queue_ok ?s" using ok assms(2) by (rule enqueue_ok)
  have "b \<in> set (q_outbox s) \<and> gb_job b = ?k" using assms(3) unfolding box_of_def by (rule get_row_SomeD)
  then have "?k \<in> gb_job ` set (q_outbox s)" by (metis imageI)
  then have "?k \<in> gj_id ` set (q_jobs s)" using ok by (simp add: queue_ok_def)
  then obtain j where j: "job_of s ?k = Some j"
    by (metis job_of_def get_row_None_iff option.exhaust)
  have job: "map_option gj_status (job_of ?s ?k) = Some JQueued"
    using j assms(3) by (simp add: enqueue_graph_extraction_def Let_def put_box_def job_of_set_job)
  have box: "box_of ?s ?k = Some (b\<lparr>gb_published := None, gb_error := None\<rparr>)"
    using j assms(3) by (simp add: enqueue_graph_extraction_def Let_def put_box_def box_of_set_box)
  have "?k \<notin> set (claimed t n ?s)" for t n
  proof
    assume "?k \<in> set (claimed t n ?s)"
    then obtain b' where b': "b' \<in> set (q_outbox ?s)" "gb_job b' = ?k" "claimable t ?s b'"
      using set_limit by (fastforce simp: claimed_def)
    moreover have "distinct (map gb_job (q_outbox ?s))" using ok' by (simp add: queue_ok_def)
    ultimately have "box_of ?s ?k = Some b'" by (simp add: box_of_def get_row_Some_iff)
    with box assms(4) b'(3) show False by (auto simp: claimable_def)
  qed
  with job show ?thesis by (simp add: Let_def)
qed

section \<open>A concrete queue\<close>

definition sample_meta :: extractor_meta where
  "sample_meta = \<lparr>xm_provider = ''p'', xm_model = ''m'', xm_extractor = ''v'', xm_prompt = ''1''\<rparr>"

definition sample_key :: string where
  "sample_key = stable_id (\<lambda>x. x) ''graph-job'' [''x'', ''v'']"

definition sample_job :: "job_status \<Rightarrow> nat \<Rightarrow> int \<Rightarrow> int option \<Rightarrow> gjob" where
  "sample_job st att t lease = (new_job sample_meta sample_key (sample_document ''x'') 0)
     \<lparr>gj_status := st, gj_attempt := att, gj_next := t, gj_lease := lease\<rparr>"

definition sample_row :: "nat \<Rightarrow> int option \<Rightarrow> gbox" where
  "sample_row att pub = (new_box sample_key None 0)\<lparr>gb_attempts := att, gb_published := pub\<rparr>"

definition sample_state :: "string option \<Rightarrow> gjob \<Rightarrow> gbox \<Rightarrow> string list \<Rightarrow> queue_db" where
  "sample_state stage j b ws = \<lparr>q_documents = [(sample_document ''x'')\<lparr>dc_stage := stage\<rparr>], q_jobs = [j],
     q_outbox = [b], q_workers = ws\<rparr>"

lemmas sample_queue_defs = sample_state_def sample_job_def sample_row_def new_job_def new_box_def
  sample_document_def job_of_def box_of_def doc_of_def get_row_def upd_row_def
  set_job_def set_box_def set_doc_def

lemma sample_queued: "queue_reachable (sample_state (Some ''queued'') (sample_job JQueued 0 0 None) (sample_row 0 None) [])"
proof -
  have "queue_reachable \<lparr>q_documents = [sample_document ''x''], q_jobs = [], q_outbox = [], q_workers = []\<rparr>"
    using queue_reachable.step [OF queue_reachable.initial queue_step.upload [of "sample_document ''x''"]] by simp
  from queue_reachable.step [OF this queue_step.enqueue
      [of "sample_document ''x''" _ "\<lambda>x. x" sample_meta 0]]
  show ?thesis
    by (simp add: enqueue_graph_extraction_def Let_def sample_queue_defs sample_key_def sample_meta_def)
qed

lemma sample_claim:
  assumes "n < 20"
  shows "claim_pending 0 1 (sample_state stage (sample_job JQueued 0 0 None) (sample_row n None) [])
      = sample_state stage (sample_job JQueued 0 0 None) (sample_row (Suc n) (Some 0)) []"
  using assms by (simp add: claim_pending_def claimed_def claimable_def limit_def order_by_def sample_queue_defs
      MAX_GRAPH_OUTBOX_ATTEMPTS_def)

lemma sample_claimed:
  "queue_reachable (sample_state (Some ''queued'') (sample_job JQueued 0 0 None) (sample_row 1 (Some 0)) [])"
proof -
  show ?thesis using sample_claim [of 0 "Some ''queued''"] queue_reachable.step [OF sample_queued queue_step.claim [where now = 0 and n = 1]] by simp
qed

lemma sample_start:
  assumes "att < 5"
  shows "start_graph_job 0 t sample_key (sample_state stage (sample_job JQueued att n None) b ws) =
     Inr (None, sample_state (Some ''extracting'') (sample_job JRunning (Suc att) n (Some (t + 300))) b (sample_key # ws))"
  using assms
  by (simp add: start_graph_job_def sample_queue_defs Let_def lease_seconds_def LEASE_SECONDS_def)

lemma sample_recover:
  assumes "t < u"
  shows "recover_running u 1 (sample_state stage (sample_job JRunning att n (Some t)) (sample_row a pub) ws) =
     sample_state stage (sample_job JQueued att u None) (sample_row a None) ws"
  using assms by (simp add: recover_running_def recovered_def expired_def limit_def sample_queue_defs)

lemma sample_complete:
  "complete_graph_job sample_key (sample_state stage (sample_job JRunning att n lease) b ws) =
     sample_state (Some ''complete'') (sample_job JSucceeded att n None) b (remove1 sample_key ws)"
  by (simp add: complete_graph_job_def sample_queue_defs Let_def)

lemma sample_running:
  "queue_reachable (sample_state (Some ''extracting'') (sample_job JRunning 1 0 (Some 300)) (sample_row 1 (Some 0)) [sample_key])"
  using queue_reachable.step [OF sample_claimed queue_step.start [OF sample_start [of 0 0]]] by simp

text \<open>A worker outlives its lease, the job is recovered and completed by a second worker.\<close>

lemma sample_overtaken:
  "queue_reachable (sample_state (Some ''complete'') (sample_job JSucceeded 2 301 None) (sample_row 1 None) [sample_key])"
proof -
  have "queue_reachable (sample_state (Some ''extracting'') (sample_job JQueued 1 301 None) (sample_row 1 None) [sample_key])"
    using queue_reachable.step [OF sample_running queue_step.recover [where now = 301 and n = 1]]
    by (simp add: sample_recover [unfolded One_nat_def])
  from queue_reachable.step [OF this queue_step.start [OF sample_start [of 1 302]]]
  have "queue_reachable (sample_state (Some ''extracting'') (sample_job JRunning 2 301 (Some 602)) (sample_row 1 None)
      [sample_key, sample_key])" by (simp add: numeral_2_eq_2)
  from queue_reachable.step [OF this queue_step.completed [of sample_key]]
  show ?thesis by (simp add: sample_complete) (simp add: sample_state_def)
qed

section \<open>Witnesses\<close>

lemma sample_jobs [simp]: "job_of (sample_state stage (sample_job st a t l) b ws) sample_key = Some (sample_job st a t l)"
  by (simp add: sample_queue_defs)

theorem queue_invariant_witness:
  "gj_attempt (sample_job JRunning 1 0 (Some 300)) \<le> gj_max (sample_job JRunning 1 0 (Some 300))"
  using queue_invariant [OF sample_running sample_jobs] by blast

theorem start_exclusive_witness:
  "\<exists>doc. start_graph_job 0 299 sample_key (sample_state (Some ''extracting'') (sample_job JRunning 1 0 (Some 300))
      (sample_row 1 (Some 0)) [sample_key])
    = Inr (Some doc, sample_state (Some ''extracting'') (sample_job JRunning 1 0 (Some 300)) (sample_row 1 (Some 0)) [sample_key])"
proof -
  have "start_graph_job 0 0 sample_key (sample_state (Some ''queued'') (sample_job JQueued 0 0 None) (sample_row 1 (Some 0)) [])
    = Inr (None, sample_state (Some ''extracting'') (sample_job JRunning 1 0 (Some 300)) (sample_row 1 (Some 0)) [sample_key])"
    using sample_start [of 0 0] by simp
  from start_exclusive [OF this, of 299 0] show ?thesis by (simp add: lease_seconds_def LEASE_SECONDS_def)
qed

theorem failed_job_settles_witness:
  "\<exists>b. box_of (fail_graph_job 7 sample_key ''boom'' (sample_state (Some ''extracting'')
      (sample_job JRunning 1 0 (Some 300)) (sample_row 1 (Some 0)) [sample_key])) sample_key = Some b"
  using failed_job_settles [OF sample_running sample_jobs, of 7 "''boom''"]
  by (auto simp: sample_job_def new_job_def split: if_splits)

theorem retries_end_witness:
  "given_up sample_key ((failing_run 0 7 ''boom'' sample_key ^^ 5)
     (sample_state (Some ''queued'') (sample_job JQueued 0 0 None) (sample_row 1 (Some 0)) []))"
proof -
  have "ready (Suc 4) sample_key (sample_state (Some ''queued'') (sample_job JQueued 0 0 None) (sample_row 1 (Some 0)) [])"
    by (simp add: ready_def sample_queue_defs)
  from retries_end [OF this, of 0 7 "''boom''"] show ?thesis by simp
qed

lemma sample_enqueue:
  "enqueue_graph_extraction (\<lambda>x. x) sample_meta (sample_document ''x'') 0
     (sample_state stage (sample_job JQueued 0 0 None) (sample_row n pub) []) =
   sample_state (Some ''queued'') (sample_job JQueued 0 0 None) (sample_row n None) []"
  by (simp add: enqueue_graph_extraction_def put_box_def Let_def sample_queue_defs sample_key_def sample_meta_def)

lemma sample_stage_reachable:
  "n \<le> 20 \<Longrightarrow> queue_reachable (sample_state (Some ''queued'') (sample_job JQueued 0 0 None) (sample_row n None) [])"
proof (induction n)
  case 0
  show ?case by (rule sample_queued)
next
  case (Suc n)
  then have "queue_reachable (sample_state (Some ''queued'') (sample_job JQueued 0 0 None) (sample_row (Suc n) (Some 0)) [])"
    using queue_reachable.step [OF Suc.IH queue_step.claim [where now = 0 and n = 1]] sample_claim [of n]
    by simp
  moreover have "(sample_document ''x'')\<lparr>dc_stage := Some ''queued''\<rparr> \<in> set (q_documents
      (sample_state (Some ''queued'') (sample_job JQueued 0 0 None) (sample_row (Suc n) (Some 0)) []))"
    by (simp add: sample_state_def)
  ultimately have "queue_reachable (enqueue_graph_extraction (\<lambda>x. x) sample_meta
      ((sample_document ''x'')\<lparr>dc_stage := Some ''queued''\<rparr>) 0
      (sample_state (Some ''queued'') (sample_job JQueued 0 0 None) (sample_row (Suc n) (Some 0)) []))"
    by (blast intro: queue_reachable.step queue_step.enqueue)
  moreover have "enqueue_graph_extraction (\<lambda>x. x) sample_meta ((sample_document ''x'')\<lparr>dc_stage := Some ''queued''\<rparr>) 0 s
      = enqueue_graph_extraction (\<lambda>x. x) sample_meta (sample_document ''x'') 0 s" for s
  proof -
    have "new_job m k (d\<lparr>dc_stage := st\<rparr>) t = new_job m k d t" for m k d st t by (simp add: new_job_def)
    then show ?thesis by (simp add: enqueue_graph_extraction_def Let_def cong: option.case_cong)
  qed
  ultimately show ?case by (simp add: sample_enqueue)
qed

theorem outbox_budget_exhausted_witness:
  "\<forall>t n. sample_key \<notin> set (claimed t n (sample_state (Some ''queued'') (sample_job JQueued 0 0 None) (sample_row 20 None) []))"
proof -
  let ?s = "sample_state (Some ''queued'') (sample_job JQueued 0 0 None) (sample_row 20 None) []"
  let ?d = "(sample_document ''x'')\<lparr>dc_stage := Some ''queued''\<rparr>"
  have d: "?d \<in> set (q_documents ?s)" by (simp add: sample_state_def)
  have k: "stable_id (\<lambda>x. x) ''graph-job'' [dc_id ?d, xm_extractor sample_meta] = sample_key"
    by (simp add: sample_document_def sample_meta_def sample_key_def)
  have b: "box_of ?s sample_key = Some (sample_row 20 None)" by (simp add: sample_queue_defs)
  have "enqueue_graph_extraction (\<lambda>x. x) sample_meta ?d 0 ?s = ?s"
    by (simp add: enqueue_graph_extraction_def put_box_def Let_def sample_queue_defs sample_key_def sample_meta_def)
  moreover have "gb_attempts (sample_row 20 None) = MAX_GRAPH_OUTBOX_ATTEMPTS"
    by (simp add: sample_row_def MAX_GRAPH_OUTBOX_ATTEMPTS_def)
  moreover have "queue_reachable ?s" by (rule sample_stage_reachable) simp
  ultimately show ?thesis
    using outbox_budget_exhausted [where s = ?s and d = ?d and sha = "\<lambda>x. x" and m = sample_meta
      and b = "sample_row 20 None" and now = 0, unfolded k] d b by (simp add: Let_def)
qed

text \<open>A worker that fails after its lease ran out takes a job that another worker has completed back
  to the queue: the \<open>except\<close> branch does not look at the status it overwrites.\<close>

theorem late_failure_demotes:
  "\<exists>s k. queue_reachable s \<and> k \<in> set (q_workers s) \<and> map_option gj_status (job_of s k) = Some JSucceeded
     \<and> map_option gj_status (job_of (fail_graph_job now k message s) k) = Some JQueued"
proof (intro exI conjI)
  let ?s = "sample_state (Some ''complete'') (sample_job JSucceeded 2 301 None) (sample_row 1 None) [sample_key]"
  show "queue_reachable ?s" by (rule sample_overtaken)
  show "sample_key \<in> set (q_workers ?s)" by (simp add: sample_state_def)
  show "map_option gj_status (job_of ?s sample_key) = Some JSucceeded"
    unfolding sample_jobs by (simp add: sample_job_def)
  show "map_option gj_status (job_of (fail_graph_job now sample_key message ?s) sample_key) = Some JQueued"
    by (simp add: fail_graph_job_def sample_queue_defs Let_def)
qed

end
