(* ===== verification/GraphView.thy ===== *)
theory GraphView
  imports GraphWalk "HOL-Library.Multiset"
begin

text \<open>
  Views over the knowledge graph, \<open>app/graph/service.py\<close>: citations, scoped lookups, ranking,
  the dataset summary, the explorer and its keyset pages, with the analytics tables of
  \<open>app/models.py\<close> the explorer reads. \<open>snapshot_hash\<close> is an argument: the digest of the identifiers
  and relations of a dataset.
\<close>

section \<open>Rows of the analytics tables\<close>

record analytics_run =
  ar_id :: string
  ar_project :: string
  ar_dataset :: string
  ar_hash :: string
  ar_entities :: int
  ar_relations :: int
  ar_communities :: int
  ar_resolution :: rat
  ar_seed :: int
  ar_levels :: nat
  ar_algorithm :: string
  ar_config :: jobj
  ar_created :: int

record membership =
  mb_run :: string
  mb_entity :: string
  mb_level :: nat
  mb_community :: string

record entity_metric =
  em_run :: string
  em_entity :: string
  em_degree :: int
  em_weighted :: rat
  em_importance :: rat

record community =
  cm_run :: string
  cm_community :: string
  cm_level :: nat
  cm_parent :: "string option"
  cm_entities :: int
  cm_internal :: int
  cm_external :: int
  cm_density :: rat
  cm_importance :: rat

record analytics_db =
  a_runs :: "analytics_run list"
  a_members :: "membership list"
  a_metrics :: "entity_metric list"
  a_communities :: "community list"

section \<open>Citations and relation views\<close>

text \<open>\<open>location or None\<close>: the empty dictionary becomes None.\<close>

definition source_location :: "jobj \<Rightarrow> jobj option" where
  "source_location metadata =
     (let loc = filter (\<lambda>(k, v). k \<in> {''page_number'', ''record_number'', ''segment_part''} \<and> is_jint v) metadata
      in if loc = [] then None else Some loc)"

record citation =
  ct_dataset :: string
  ct_document :: string
  ct_chunk :: string
  ct_quote :: string
  ct_location :: "jobj option"

definition citations :: "graph_db \<Rightarrow> string \<Rightarrow> citation list" where
  "citations db relation_id =
     map (\<lambda>(v, c). \<lparr>ct_dataset = gv_dataset v, ct_document = gv_document v, ct_chunk = gv_chunk v,
             ct_quote = gv_quote v, ct_location = source_location (ck_metadata c)\<rparr>)
       (limit MAX_RELATION_CITATIONS (order_by (\<lambda>(v, c). gv_id v)
         (concat (map (\<lambda>v. map (Pair v) (filter (\<lambda>c. ck_id c = gv_chunk v) (g_chunks db)))
           (filter (\<lambda>v. gv_relation v = Some relation_id) (g_evidence db))))))"

record relation_view =
  rv_relation :: grelation
  rv_citations :: "citation list"

definition relation_view_of :: "graph_db \<Rightarrow> grelation \<Rightarrow> relation_view" where
  "relation_view_of db r = \<lparr>rv_relation = r, rv_citations = citations db (rl_id r)\<rparr>"

section \<open>Scoped lookups\<close>

definition scoped_entity :: "graph_db \<Rightarrow> string \<Rightarrow> string \<Rightarrow> gentity res" where
  "scoped_entity db project k =
     (case find (\<lambda>e. en_id e = k \<and> en_project e = project \<and> supported_entity db e) (g_entities db) of
        None \<Rightarrow> Inl (HTTPException 404 ''entity not found'') | Some e \<Rightarrow> Inr e)"

definition scoped_dataset_entity :: "graph_db \<Rightarrow> string \<Rightarrow> string \<Rightarrow> string \<Rightarrow> gentity res" where
  "scoped_dataset_entity db project dataset k =
     (case find (\<lambda>e. en_id e = k \<and> en_project e = project \<and> en_dataset e = dataset \<and> supported_entity db e)
         (g_entities db) of
        None \<Rightarrow> Inl (HTTPException 404 ''entity not found'') | Some e \<Rightarrow> Inr e)"

section \<open>Ranking\<close>

definition LOW_SIGNAL_ENTITY_TYPES :: "string list" where
  "LOW_SIGNAL_ENTITY_TYPES = [''access_date'', ''accepted_date'', ''article_number'', ''contract'', ''doi'',
     ''iteration_limit'', ''journal_volume'', ''numeric value'', ''publication_date'', ''publication_year'',
     ''received_date'', ''revised_date'', ''sample size'', ''value'']"

text \<open>The class of the regular expression in \<open>low_signal_entity\<close>; the en dash is outside the model's
  alphabet of one-byte characters, the multiplication sign is character 215.\<close>

definition numeric_char :: "char \<Rightarrow> bool" where
  "numeric_char c \<longleftrightarrow> is_digit09 c \<or> py_isspace c \<or> c \<in> set ''.,%x/-'' \<or> c = char_of (215::nat)"

definition low_signal_entity :: "string \<Rightarrow> string \<Rightarrow> bool" where
  "low_signal_entity name entity_type =
     (let t = py_lower (py_strip entity_type); n = py_lower (py_strip name) in
      t \<in> set LOW_SIGNAL_ENTITY_TYPES \<or> ends_with ''_date'' t \<or> ends_with ''_year'' t
      \<or> (n \<noteq> [] \<and> list_all numeric_char n))"

definition low_signal :: "gentity \<Rightarrow> bool" where
  "low_signal e = low_signal_entity (en_name e) (en_type e)"

definition degree_of :: "(string \<times> int) list \<Rightarrow> string \<Rightarrow> int" where
  "degree_of degree k = (case map_of degree k of None \<Rightarrow> 0 | Some n \<Rightarrow> n)"

definition rank_graph_entities :: "gentity list \<Rightarrow> (string \<times> int) list \<Rightarrow> nat \<Rightarrow> gentity list" where
  "rank_graph_entities entities degree n =
     (let useful = filter (\<lambda>e. \<not> low_signal e) entities;
          fallback = (if useful = [] then entities else useful)
      in take n (sort_key (\<lambda>e. (- degree_of degree (en_id e), low_signal e, py_lower (en_type e),
           py_lower (en_name e), en_id e)) fallback))"

section \<open>The summary of a dataset\<close>

record graph_summary =
  gs_dataset :: string
  gs_entities :: nat
  gs_relations :: nat
  gs_nodes :: "gentity list"
  gs_edges :: "relation_view list"

definition dataset_relations :: "graph_db \<Rightarrow> string \<Rightarrow> string \<Rightarrow> int option \<Rightarrow> bool \<Rightarrow> grelation list" where
  "dataset_relations db project dataset as_of hist =
     filter (\<lambda>r. rl_project r = project \<and> rl_dataset r = dataset \<and> supported_relation db r
       \<and> temporal_relation as_of hist r) (g_relations db)"

text \<open>\<open>SELECT endpoint, count(*) ... GROUP BY endpoint\<close>\<close>

definition group_count :: "(grelation \<Rightarrow> string) \<Rightarrow> grelation list \<Rightarrow> (string \<times> int) list" where
  "group_count endpoint rels =
     map (\<lambda>k. (k, int (length (filter (\<lambda>r. endpoint r = k) rels)))) (dict_fromkeys (map endpoint rels))"

definition graph_degree :: "grelation list \<Rightarrow> (string \<times> int) list" where
  "graph_degree rels =
     fold (\<lambda>(k, n) d. AList.update k (degree_of d k + n) d) (group_count rl_target rels) (group_count rl_source rels)"

definition candidate_entities :: "graph_db \<Rightarrow> string \<Rightarrow> string \<Rightarrow> int option \<Rightarrow> bool \<Rightarrow> gentity list" where
  "candidate_entities db project dataset as_of hist =
     limit GRAPH_CANDIDATE_LIMIT (order_by en_name
       (filter (\<lambda>e. en_project e = project \<and> en_dataset e = dataset \<and> supported_entity db e
          \<and> temporal_entity as_of hist e) (g_entities db)))"

definition build_dataset_graph ::
    "graph_db \<Rightarrow> string \<Rightarrow> string \<Rightarrow> nat \<Rightarrow> nat \<Rightarrow> int option \<Rightarrow> bool \<Rightarrow> graph_summary" where
  "build_dataset_graph db project dataset n depth as_of hist =
     (let candidates = candidate_entities db project dataset as_of hist;
          degree = graph_degree (dataset_relations db project dataset as_of hist);
          entities = rank_graph_entities candidates degree n;
          ids = map en_id entities;
          relations = (if depth = 0 \<or> ids = [] then []
            else limit n (order_by rl_id (filter (\<lambda>r. rl_source r \<in> set ids \<and> rl_target r \<in> set ids)
              (dataset_relations db project dataset as_of hist))))
      in \<lparr>gs_dataset = dataset,
          gs_entities = length (filter (\<lambda>e. en_project e = project \<and> en_dataset e = dataset \<and> supported_entity db e)
            (g_entities db)),
          gs_relations = length (filter (\<lambda>r. rl_project r = project \<and> rl_dataset r = dataset \<and> supported_relation db r)
            (g_relations db)),
          gs_nodes = entities, gs_edges = map (relation_view_of db) relations\<rparr>)"

section \<open>The explorer\<close>

record explorer_node =
  xn_id :: string
  xn_name :: string
  xn_type :: string
  xn_community :: "string option"
  xn_degree :: int
  xn_weighted :: rat
  xn_importance :: rat

record explorer_relation =
  xr_id :: string
  xr_source :: string
  xr_target :: string
  xr_type :: string
  xr_weight :: rat
  xr_confidence :: rat

record explorer_community =
  xc_id :: string
  xc_entities :: int
  xc_parent :: "string option"
  xc_children :: "string list"
  xc_internal :: int
  xc_external :: int
  xc_density :: rat
  xc_importance :: rat

record explorer_view =
  xv_dataset :: string
  xv_level :: nat
  xv_levels :: "nat list"
  xv_analytics :: "(analytics_run \<times> bool) option"
  xv_refresh :: bool
  xv_entities :: nat
  xv_relation_count :: nat
  xv_density :: rat
  xv_nodes :: "explorer_node list"
  xv_relations :: "explorer_relation list"
  xv_communities :: "explorer_community list"

definition base_entities :: "graph_db \<Rightarrow> string \<Rightarrow> string \<Rightarrow> gentity list" where
  "base_entities db project dataset =
     filter (\<lambda>e. en_project e = project \<and> en_dataset e = dataset \<and> supported_entity db e) (g_entities db)"

definition base_relations :: "graph_db \<Rightarrow> string \<Rightarrow> string \<Rightarrow> grelation list" where
  "base_relations db project dataset =
     filter (\<lambda>r. rl_project r = project \<and> rl_dataset r = dataset \<and> supported_relation db r) (g_relations db)"

text \<open>\<open>ORDER BY created_at DESC, id DESC LIMIT 1\<close>\<close>

definition latest_run :: "analytics_db \<Rightarrow> string \<Rightarrow> string \<Rightarrow> analytics_run option" where
  "latest_run adb project dataset =
     (let runs = filter (\<lambda>r. ar_project r = project \<and> ar_dataset r = dataset) (a_runs adb)
      in if runs = [] then None
         else Some (last (sort_key (\<lambda>r. (ar_created r, ar_id r)) runs)))"

definition plain_node :: "gentity \<Rightarrow> explorer_node" where
  "plain_node e = \<lparr>xn_id = en_id e, xn_name = en_name e, xn_type = en_type e, xn_community = None,
     xn_degree = 0, xn_weighted = 0, xn_importance = 0\<rparr>"

definition metric_node :: "gentity \<times> string option \<times> entity_metric option \<Rightarrow> explorer_node" where
  "metric_node x = (case x of (e, c, m) \<Rightarrow>
     \<lparr>xn_id = en_id e, xn_name = en_name e, xn_type = en_type e, xn_community = c,
      xn_degree = (case m of None \<Rightarrow> 0 | Some m \<Rightarrow> em_degree m),
      xn_weighted = (case m of None \<Rightarrow> 0 | Some m \<Rightarrow> em_weighted m),
      xn_importance = (case m of None \<Rightarrow> 0 | Some m \<Rightarrow> em_importance m)\<rparr>)"

definition members_of :: "analytics_db \<Rightarrow> string \<Rightarrow> nat \<Rightarrow> string \<Rightarrow> membership list" where
  "members_of adb run level k =
     filter (\<lambda>m. mb_entity m = k \<and> mb_run m = run \<and> mb_level m = level) (a_members adb)"

definition metrics_of :: "analytics_db \<Rightarrow> string \<Rightarrow> string \<Rightarrow> entity_metric list" where
  "metrics_of adb run k = filter (\<lambda>m. em_entity m = k \<and> em_run m = run) (a_metrics adb)"

text \<open>The inner joins of \<open>build_explorer_view\<close> and the outer joins of the node page.\<close>

definition inner_rows :: "analytics_db \<Rightarrow> string \<Rightarrow> nat \<Rightarrow> gentity list \<Rightarrow> (gentity \<times> string option \<times> entity_metric option) list" where
  "inner_rows adb run level es =
     concat (map (\<lambda>e. concat (map (\<lambda>m. map (\<lambda>x. (e, Some (mb_community m), Some x)) (metrics_of adb run (en_id e)))
       (members_of adb run level (en_id e)))) es)"

definition outer_list :: "'a list \<Rightarrow> 'a option list" where
  "outer_list xs = (if xs = [] then [None] else map Some xs)"

definition outer_rows :: "analytics_db \<Rightarrow> string \<Rightarrow> nat \<Rightarrow> gentity list \<Rightarrow> (gentity \<times> string option \<times> entity_metric option) list" where
  "outer_rows adb run level es =
     concat (map (\<lambda>e. concat (map (\<lambda>m. map (\<lambda>x. (e, map_option mb_community m, x))
         (outer_list (metrics_of adb run (en_id e))))
       (outer_list (members_of adb run level (en_id e))))) es)"

definition explorer_relation_of :: "grelation \<Rightarrow> explorer_relation" where
  "explorer_relation_of r = \<lparr>xr_id = rl_id r, xr_source = rl_source r, xr_target = rl_target r,
     xr_type = rl_type r, xr_weight = rl_confidence r, xr_confidence = rl_confidence r\<rparr>"

definition explorer_communities :: "analytics_db \<Rightarrow> string \<Rightarrow> nat \<Rightarrow> explorer_community list" where
  "explorer_communities adb run level =
     (let rows = order_by cm_community (filter (\<lambda>c. cm_run c = run \<and> cm_level c = level) (a_communities adb));
          kids = (if level = 0 then [] else filter (\<lambda>c. cm_run c = run \<and> cm_level c + 1 = level) (a_communities adb))
      in map (\<lambda>c. \<lparr>xc_id = cm_community c, xc_entities = cm_entities c, xc_parent = cm_parent c,
           xc_children = map cm_community (filter (\<lambda>k. cm_parent k = Some (cm_community c)) kids),
           xc_internal = cm_internal c, xc_external = cm_external c, xc_density = cm_density c,
           xc_importance = cm_importance c\<rparr>) rows)"

definition explorer_nodes :: "graph_db \<Rightarrow> analytics_db \<Rightarrow> string \<Rightarrow> string \<Rightarrow> nat \<Rightarrow> nat \<Rightarrow> explorer_node list" where
  "explorer_nodes db adb project dataset n level =
     (case latest_run adb project dataset of
        None \<Rightarrow> map plain_node (limit n (order_by (\<lambda>e. (en_name e, en_id e)) (base_entities db project dataset)))
      | Some run \<Rightarrow> map metric_node (limit n (order_by (\<lambda>(e, c, m). (- (case m of None \<Rightarrow> 0 | Some x \<Rightarrow> em_importance x), en_id e))
          (inner_rows adb (ar_id run) level (base_entities db project dataset)))))"

definition graph_density :: "nat \<Rightarrow> nat \<Rightarrow> rat" where
  "graph_density n m = (if n < 2 then 0 else fdiv (of_nat (2 * m)) (of_nat (n * (n - 1))))"

definition current_hash ::
    "(string list \<Rightarrow> (string \<times> string \<times> rat) list \<Rightarrow> string) \<Rightarrow> graph_db \<Rightarrow> string \<Rightarrow> string \<Rightarrow> string" where
  "current_hash snapshot_hash db project dataset =
     snapshot_hash (sort (map en_id (base_entities db project dataset)))
       (map (\<lambda>r. (rl_source r, rl_target r, rl_confidence r)) (order_by rl_id (base_relations db project dataset)))"

definition explorer_stale ::
    "(string list \<Rightarrow> (string \<times> string \<times> rat) list \<Rightarrow> string) \<Rightarrow> graph_db \<Rightarrow> analytics_db \<Rightarrow> string \<Rightarrow> string \<Rightarrow> bool" where
  "explorer_stale snapshot_hash db adb project dataset =
     (case latest_run adb project dataset of None \<Rightarrow> True
      | Some run \<Rightarrow> ar_hash run \<noteq> current_hash snapshot_hash db project dataset)"

definition build_explorer_view ::
    "(string list \<Rightarrow> (string \<times> string \<times> rat) list \<Rightarrow> string) \<Rightarrow> graph_db \<Rightarrow> analytics_db \<Rightarrow> string \<Rightarrow> string
       \<Rightarrow> nat \<Rightarrow> nat \<Rightarrow> nat \<Rightarrow> explorer_view" where
  "build_explorer_view snapshot_hash db adb project dataset node_limit relation_limit level =
     (let run = latest_run adb project dataset;
          stale = explorer_stale snapshot_hash db adb project dataset;
          ne = length (base_entities db project dataset);
          nr = length (base_relations db project dataset);
          nodes = explorer_nodes db adb project dataset node_limit level;
          ids = map xn_id nodes;
          rels = (if ids = [] then []
            else limit relation_limit (order_by rl_id
              (filter (\<lambda>r. rl_source r \<in> set ids \<and> rl_target r \<in> set ids) (base_relations db project dataset))))
      in \<lparr>xv_dataset = dataset, xv_level = level,
          xv_levels = (case run of None \<Rightarrow> [] | Some r \<Rightarrow> [0..<ar_levels r]),
          xv_analytics = map_option (\<lambda>r. (r, stale)) run, xv_refresh = stale,
          xv_entities = ne, xv_relation_count = nr, xv_density = graph_density ne nr,
          xv_nodes = nodes, xv_relations = map explorer_relation_of rels,
          xv_communities = (case run of None \<Rightarrow> [] | Some r \<Rightarrow> explorer_communities adb (ar_id r) level)\<rparr>)"

section \<open>Keyset pages\<close>

text \<open>\<open>WHERE key > cursor ORDER BY key LIMIT limit + 1\<close>, the rows of the page and the next cursor.\<close>

definition after_cursor :: "('r \<Rightarrow> string) \<Rightarrow> string option \<Rightarrow> 'r list \<Rightarrow> 'r list" where
  "after_cursor key cursor rows = (case cursor of None \<Rightarrow> rows | Some c \<Rightarrow> filter (\<lambda>r. c < key r) rows)"

definition page_of :: "('r \<Rightarrow> string) \<Rightarrow> nat \<Rightarrow> 'r list \<Rightarrow> 'r list \<times> string option" where
  "page_of key n rows =
     (let fetched = limit (n + 1) (order_by key rows);
          has_more = n < length fetched;
          page = take n fetched
      in (page, if has_more \<and> page \<noteq> [] then Some (key (last page)) else None))"

definition list_explorer_relations ::
    "graph_db \<Rightarrow> string \<Rightarrow> string \<Rightarrow> string option \<Rightarrow> nat \<Rightarrow> explorer_relation list \<times> string option" where
  "list_explorer_relations db project dataset cursor n =
     map_prod (map explorer_relation_of) id
       (page_of rl_id n (after_cursor rl_id cursor (base_relations db project dataset)))"

definition build_explorer_node_page ::
    "graph_db \<Rightarrow> analytics_db \<Rightarrow> string \<Rightarrow> string \<Rightarrow> string option \<Rightarrow> nat \<Rightarrow> nat \<Rightarrow> explorer_node list \<times> string option" where
  "build_explorer_node_page db adb project dataset cursor n level =
     (let es = after_cursor en_id cursor (base_entities db project dataset) in
      case latest_run adb project dataset of
        None \<Rightarrow> map_prod (map plain_node) id (page_of en_id n es)
      | Some run \<Rightarrow> map_prod (map metric_node) id
          (page_of (\<lambda>(e, c, m). en_id e) n (outer_rows adb (ar_id run) level es)))"

text \<open>A client that follows the cursors, from the first page to the one without a cursor.\<close>

partial_function (option) follow_pages ::
    "(string option \<Rightarrow> 'a list \<times> string option) \<Rightarrow> string option \<Rightarrow> 'a list option" where
  "follow_pages fetch cursor =
     (case fetch cursor of
        (page, None) \<Rightarrow> Some page
      | (page, Some c) \<Rightarrow> Option.bind (follow_pages fetch (Some c)) (\<lambda>rest. Some (page @ rest)))"

section \<open>Facts about pages\<close>

definition above :: "string option \<Rightarrow> string \<Rightarrow> bool" where
  "above cursor k = (case cursor of None \<Rightarrow> True | Some c \<Rightarrow> c < k)"

lemma filter_above_None: "filter (\<lambda>r. above None (f r)) xs = xs"
  by (simp add: above_def)

lemma after_cursor_filter: "after_cursor key cursor rows = filter (\<lambda>r. above cursor (key r)) rows"
  by (simp add: after_cursor_def above_def split: option.split)

lemma order_by_after: "order_by key (after_cursor key cursor rows) = filter (\<lambda>r. above cursor (key r)) (order_by key rows)"
  by (simp add: order_by_def after_cursor_filter filter_sort)

lemma sorted_filter_drop:
  assumes "sorted (map key xs)" "distinct (map key xs)" "0 < n" "n \<le> length xs"
  shows "filter (\<lambda>r. key (xs ! (n - 1)) < key r) xs = drop n xs"
proof -
  have le: "sorted_wrt (<) (map key xs)" using assms(1,2) by (simp add: strict_sorted_iff)
  have "filter (\<lambda>r. key (xs ! (n - 1)) < key r) (take n xs @ drop n xs) = drop n xs"
  proof -
    have "\<not> key (xs ! (n - 1)) < key r" if "r \<in> set (take n xs)" for r
    proof -
      from that obtain i where i: "i < n" "r = xs ! i" using assms(4) by (auto simp: in_set_conv_nth)
      have "map key xs ! i \<le> map key xs ! (n - 1)"
        using assms(1) i assms(4) by (intro sorted_nth_mono) auto
      with i assms(3,4) show ?thesis by (simp add: not_less)
    qed
    moreover have "key (xs ! (n - 1)) < key r" if "r \<in> set (drop n xs)" for r
    proof -
      from that obtain i where i: "i < length xs - n" "r = xs ! (n + i)" using assms(4) by (auto simp: in_set_conv_nth)
      have "map key xs ! (n - 1) < map key xs ! (n + i)"
        by (rule sorted_wrt_nth_less [OF le]) (use i assms(3,4) in auto)
      with i assms(3,4) show ?thesis by simp
    qed
    ultimately have "filter (\<lambda>r. key (xs ! (n - 1)) < key r) (take n xs) = []"
      "filter (\<lambda>r. key (xs ! (n - 1)) < key r) (drop n xs) = drop n xs"
      by (blast intro: filter_False filter_True)+
    then show ?thesis unfolding filter_append by simp
  qed
  then show ?thesis by simp
qed

text \<open>Following the cursors of a page source yields its rows in the order of their keys, once each.\<close>

lemma follow_pages_all:
  fixes rows :: "'r list"
  assumes fetch: "\<And>c. fetch c = map_prod (map f) id (page_of key n (after_cursor key c rows))"
    and "distinct (map key rows)" "0 < n"
  shows "follow_pages fetch cursor = Some (map f (filter (\<lambda>r. above cursor (key r)) (order_by key rows)))"
proof (induction "length (filter (\<lambda>r. above cursor (key r)) (order_by key rows))" arbitrary: cursor rule: less_induct)
  case less
  let ?R = "\<lambda>c. filter (\<lambda>r. above c (key r)) (order_by key rows)"
  have page: "page_of key n (after_cursor key cursor rows) =
      (take n (?R cursor), if n < length (?R cursor) \<and> ?R cursor \<noteq> [] then Some (key (?R cursor ! (n - 1))) else None)"
    using \<open>0 < n\<close> by (auto simp: page_of_def Let_def order_by_after limit_def last_conv_nth take_Suc_conv_app_nth min_def)
  show ?case
  proof (cases "n < length (?R cursor)")
    case False
    then show ?thesis
      by (subst follow_pages.simps) (simp add: fetch page)
  next
    case True
    let ?k = "key (?R cursor ! (n - 1))"
    have "mset (map key (order_by key rows)) = mset (map key rows)"
      by (simp only: mset_map order_by_def mset_sort)
    then have "distinct (map key (order_by key rows))" using assms(2) by (metis mset_eq_imp_distinct_iff)
    then have d: "distinct (map key (?R cursor))" by (rule distinct_map_filter)
    have s: "sorted (map key (?R cursor))" using sorted_order_by [of key rows] by (rule sorted_filter)
    have in_R: "above cursor ?k" using nth_mem [of "n - 1" "?R cursor"] True \<open>0 < n\<close> by auto
    have "?R (Some ?k) = filter (\<lambda>r. ?k < key r) (?R cursor)"
      unfolding filter_filter using in_R
      by (intro filter_cong refl) (auto simp: above_def split: option.splits)
    also have "\<dots> = drop n (?R cursor)" using s d \<open>0 < n\<close> True by (intro sorted_filter_drop) auto
    finally have next_R: "?R (Some ?k) = drop n (?R cursor)" .
    have "length (?R (Some ?k)) < length (?R cursor)" unfolding next_R using True \<open>0 < n\<close> by simp
    then have "follow_pages fetch (Some ?k) = Some (map f (drop n (?R cursor)))"
      using less [of "Some ?k"] unfolding next_R by simp
    then have "follow_pages fetch cursor = Some (map f (take n (?R cursor)) @ map f (drop n (?R cursor)))"
      using True by (subst follow_pages.simps) (simp add: fetch page next_R)
    then show ?thesis by (simp flip: map_append)
  qed
qed

definition analytics_keys :: "analytics_db \<Rightarrow> bool" where
  "analytics_keys adb \<longleftrightarrow> distinct (map (\<lambda>m. (mb_run m, mb_entity m, mb_level m)) (a_members adb))
     \<and> distinct (map (\<lambda>m. (em_run m, em_entity m)) (a_metrics adb))"

lemma filter_at_most_one:
  assumes "distinct (map g xs)" "\<And>x. x \<in> set xs \<Longrightarrow> P x \<Longrightarrow> g x = k"
  shows "length (filter P xs) \<le> 1"
proof -
  have "distinct (map g (filter P xs))" using assms(1) by (rule distinct_map_filter)
  moreover have "set (map g (filter P xs)) \<subseteq> {k}" using assms(2) by auto
  ultimately have "length (map g (filter P xs)) \<le> card {k}"
    by (metis card_mono distinct_card finite.emptyI finite.insertI)
  then show ?thesis by simp
qed

lemma outer_list_single: "length xs \<le> 1 \<Longrightarrow> outer_list xs = [if xs = [] then None else Some (hd xs)]"
  by (cases xs) (auto simp: outer_list_def)

text \<open>With their primary keys, the outer joins give one row per entity.\<close>

lemma outer_rows_map:
  assumes "analytics_keys adb"
  obtains c m where "\<And>es. outer_rows adb run level es = map (\<lambda>e. (e, c e, m e)) es"
proof -
  have "length (members_of adb run level k) \<le> 1" "length (metrics_of adb run k) \<le> 1" for k
  proof -
    show "length (members_of adb run level k) \<le> 1" unfolding members_of_def
      by (rule filter_at_most_one [of "\<lambda>m. (mb_run m, mb_entity m, mb_level m)" _ _ "(run, k, level)"])
        (use assms in \<open>auto simp: analytics_keys_def\<close>)
    show "length (metrics_of adb run k) \<le> 1" unfolding metrics_of_def
      by (rule filter_at_most_one [of "\<lambda>m. (em_run m, em_entity m)" _ _ "(run, k)"])
        (use assms in \<open>auto simp: analytics_keys_def\<close>)
  qed
  note single = this [THEN outer_list_single]
  have "outer_rows adb run level es = map (\<lambda>e. (e,
      map_option mb_community (if members_of adb run level (en_id e) = [] then None
        else Some (hd (members_of adb run level (en_id e)))),
      if metrics_of adb run (en_id e) = [] then None else Some (hd (metrics_of adb run (en_id e))))) es" for es
    unfolding outer_rows_def single by (induction es) simp_all
  then show ?thesis by (rule that)
qed

lemma map_order_by: "map key (order_by key rows) = sort (map key rows)"
proof (rule sym, rule properties_for_sort)
  show "mset (map key (order_by key rows)) = mset (map key rows)"
    by (simp only: mset_map order_by_def mset_sort)
  show "sorted (map key (order_by key rows))" by (rule sorted_order_by)
qed

lemma base_ids_distinct:
  assumes "graph_keys db"
  shows "distinct (map en_id (base_entities db project dataset))" "distinct (map rl_id (base_relations db project dataset))"
  using assms by (simp_all add: graph_keys_def base_entities_def base_relations_def distinct_map_filter)

lemma node_pages:
  assumes "graph_keys db" "analytics_keys adb" "0 < n"
  shows "map_option (map xn_id) (follow_pages (\<lambda>c. build_explorer_node_page db adb project dataset c n level) None)
    = Some (sort (map en_id (base_entities db project dataset)))"
proof (cases "latest_run adb project dataset")
  case None
  let ?rows = "base_entities db project dataset"
  have "follow_pages (\<lambda>c. build_explorer_node_page db adb project dataset c n level) None =
      Some (map plain_node (filter (\<lambda>r. above None (en_id r)) (order_by en_id ?rows)))"
    by (rule follow_pages_all [where n = n])
      (simp_all add: build_explorer_node_page_def None assms base_ids_distinct)
  moreover have "map xn_id (map plain_node es) = map en_id es" for es by (simp add: plain_node_def)
  ultimately have "map_option (map xn_id) (follow_pages (\<lambda>c. build_explorer_node_page db adb project dataset c n level) None)
      = Some (map en_id (order_by en_id ?rows))" by (simp only: filter_above_None option.map)
  then show ?thesis unfolding map_order_by .
next
  case (Some run)
  obtain c m where o': "\<And>es. outer_rows adb (ar_id run) level es = map (\<lambda>e. (e, c e, m e)) es"
    using outer_rows_map [OF assms(2)] by blast
  let ?key = "\<lambda>(e, c, m). en_id e"
  let ?rows = "map (\<lambda>e. (e, c e, m e)) (base_entities db project dataset)"
  have keys: "map ?key ?rows = map en_id (base_entities db project dataset)" by simp
  have after: "map (\<lambda>e. (e, c e, m e)) (after_cursor en_id cur es) = after_cursor ?key cur (map (\<lambda>e. (e, c e, m e)) es)" for cur es
    by (simp add: after_cursor_def filter_map o_def split: option.split)
  have "distinct (map ?key ?rows)" unfolding keys using assms(1) by (rule base_ids_distinct)
  then have "follow_pages (\<lambda>c. build_explorer_node_page db adb project dataset c n level) None =
      Some (map metric_node (filter (\<lambda>r. above None (?key r)) (order_by ?key ?rows)))"
    by (rule follow_pages_all [where n = n, rotated])
      (simp_all add: build_explorer_node_page_def Some assms(3) o' after)
  moreover have "map xn_id (map metric_node xs) = map ?key xs" for xs by (auto simp: metric_node_def)
  ultimately have "map_option (map xn_id) (follow_pages (\<lambda>c. build_explorer_node_page db adb project dataset c n level) None)
      = Some (map ?key (order_by ?key ?rows))" by (simp only: filter_above_None option.map)
  then show ?thesis unfolding map_order_by keys .
qed

section \<open>Properties\<close>

text \<open>C30. Following the explorer's page cursors terminates and reproduces the unpaged result: the node
  pages list every supported entity of the dataset exactly once in the order of identifiers, with
  or without analytics rows, and the relation pages every supported relation.\<close>

theorem explorer_pages_complete:
  assumes "graph_keys db" "analytics_keys adb" "0 < n"
  shows "map_option (map xn_id) (follow_pages (\<lambda>c. build_explorer_node_page db adb project dataset c n level) None)
      = Some (sort (map en_id (base_entities db project dataset)))
    \<and> follow_pages (\<lambda>c. list_explorer_relations db project dataset c n) None
      = Some (map explorer_relation_of (order_by rl_id (base_relations db project dataset)))"
proof
  have "follow_pages (\<lambda>c. list_explorer_relations db project dataset c n) None =
      Some (map explorer_relation_of (filter (\<lambda>r. above None (rl_id r)) (order_by rl_id (base_relations db project dataset))))"
    by (rule follow_pages_all [where n = n]) (simp_all add: list_explorer_relations_def assms base_ids_distinct)
  then show "follow_pages (\<lambda>c. list_explorer_relations db project dataset c n) None
      = Some (map explorer_relation_of (order_by rl_id (base_relations db project dataset)))" by (simp add: above_def)
qed (rule node_pages [OF assms])

theorem explorer_pages_complete_witness:
  "follow_pages (\<lambda>c. list_explorer_relations (sample_graph Unreviewed) ''p'' ''d'' c 1) None
     = Some (map explorer_relation_of (order_by rl_id (base_relations (sample_graph Unreviewed) ''p'' ''d'')))"
proof -
  have "analytics_keys \<lparr>a_runs = [], a_members = [], a_metrics = [], a_communities = []\<rparr>"
    by (simp add: analytics_keys_def)
  from explorer_pages_complete [OF sample_graph_ok(1) this, of 1] show ?thesis by simp
qed

section \<open>The dataset graph\<close>

lemma rank_spec:
  "length (rank_graph_entities es degree n) \<le> n" "set (rank_graph_entities es degree n) \<subseteq> set es"
  by (auto simp: rank_graph_entities_def Let_def dest!: in_set_takeD split: if_splits)

lemma take_sorted_split:
  "sorted (map key xs) \<Longrightarrow> x \<in> set (take n xs) \<Longrightarrow> y \<in> set xs \<Longrightarrow> y \<notin> set (take n xs) \<Longrightarrow> key x \<le> key y"
proof -
  assume s: "sorted (map key xs)" and x: "x \<in> set (take n xs)" and y: "y \<in> set xs" "y \<notin> set (take n xs)"
  have "y \<in> set (drop n xs)" using y by (metis Un_iff append_take_drop_id set_append)
  moreover have "sorted (map key (take n xs) @ map key (drop n xs))"
    using s by (metis append_take_drop_id map_append)
  ultimately show ?thesis using x by (auto simp: sorted_append)
qed

text \<open>The dataset graph shows the best connected informative entities: within the limit, closed under
  its relations, and no candidate it leaves out has a higher degree than one it shows.\<close>

lemma rank_keeps_degrees:
  assumes "x \<in> set (rank_graph_entities es degree n)" "y \<in> set es" "\<not> low_signal y"
    "y \<notin> set (rank_graph_entities es degree n)"
  shows "degree_of degree (en_id y) \<le> degree_of degree (en_id x) \<and> \<not> low_signal x"
proof -
  let ?key = "\<lambda>e. (- degree_of degree (en_id e), low_signal e, py_lower (en_type e), py_lower (en_name e), en_id e)"
  let ?u = "filter (\<lambda>e. \<not> low_signal e) es"
  have u: "?u \<noteq> []" using assms(2,3) by (auto simp: filter_empty_conv)
  have r: "rank_graph_entities es degree n = take n (sort_key ?key ?u)"
    using u unfolding rank_graph_entities_def Let_def by simp
  have "?key x \<le> ?key y"
    by (rule take_sorted_split [of ?key "sort_key ?key ?u" x n]) (use assms r in auto)
  moreover have "x \<in> set ?u" using assms(1) r by (auto dest!: in_set_takeD)
  ultimately show ?thesis by (auto simp: less_eq_prod_def)
qed

lemma dataset_graph_closed:
  "length (gs_nodes (build_dataset_graph db project dataset n depth as_of hist)) \<le> n
   \<and> length (gs_edges (build_dataset_graph db project dataset n depth as_of hist)) \<le> n
   \<and> (\<forall>v\<in>set (gs_edges (build_dataset_graph db project dataset n depth as_of hist)).
        rl_source (rv_relation v) \<in> en_id ` set (gs_nodes (build_dataset_graph db project dataset n depth as_of hist))
        \<and> rl_target (rv_relation v) \<in> en_id ` set (gs_nodes (build_dataset_graph db project dataset n depth as_of hist))
        \<and> length (rv_citations v) \<le> MAX_RELATION_CITATIONS)"
proof -
  have c: "length (citations db k) \<le> MAX_RELATION_CITATIONS" for k
    unfolding citations_def by (simp add: length_limit)
  show ?thesis
    using rank_spec(1) length_limit c
    by (auto simp: build_dataset_graph_def Let_def relation_view_of_def dest!: set_limit [THEN subsetD])
qed

end
