(* ===== verification/Retrieval.thy ===== *)
theory Retrieval
  imports GraphView Regex
begin

text \<open>
  Retrieval, \<open>app/retrieval.py\<close> and \<open>app/retrieval_api.py\<close>: vector search, graph search and their
  reciprocal rank fusion. Arguments of the model: the embedding provider, pgvector's cosine
  distance, and the two float routines of CPython whose last bit the language does not fix,
  \<open>sum\<close> of floats and \<open>** 0.5\<close>. Latencies are left out.
\<close>

section \<open>Graph evidence with a time limit\<close>

record path_evidence =
  pe_chunk :: string
  pe_score :: rat
  pe_path :: "string list"
  pe_entities :: "string list"
  pe_relations :: "string list"
  pe_evidence :: "string list"

datatype search_status = StatusOk | Fallback string

text \<open>\<open>{item.chunk_id: item for item in sorted(...)}\<close>: a later item overwrites an earlier one.\<close>

definition dedup_evidence :: "path_evidence list \<Rightarrow> path_evidence list" where
  "dedup_evidence evidence =
     map snd (fold (\<lambda>e d. AList.update (pe_chunk e) e d)
       (sort_key (\<lambda>e. (- pe_score e, pe_chunk e, pe_path e)) evidence) [])"

text \<open>\<open>traverse\<close> is what the graph store answers or raises within the time limit.\<close>

definition bounded_graph_search ::
    "path_evidence list res \<Rightarrow> nat \<Rightarrow> (path_evidence list \<times> search_status) res" where
  "bounded_graph_search traverse max_depth =
     (let answer = (if max_depth \<notin> {1, 2} then Inl (ValueError ''graph depth must be 1 or 2'') else traverse) in
      case answer of
        Inr evidence \<Rightarrow> Inr (dedup_evidence evidence, StatusOk)
      | Inl TimeoutError \<Rightarrow> Inr ([], Fallback ''graph_timeout'')
      | Inl (ValueError _) \<Rightarrow> Inr ([], Fallback ''graph_unavailable'')
      | Inl (RuntimeError _) \<Rightarrow> Inr ([], Fallback ''graph_unavailable'')
      | Inl e \<Rightarrow> Inl e)"

section \<open>Vector search\<close>

record rchunk =
  rc_id :: string
  rc_document :: string
  rc_content :: string
  rc_score :: rat
  rc_source :: string
  rc_vector :: "rat option"
  rc_graph :: "rat option"
  rc_entities :: "string list"
  rc_relations :: "string list"
  rc_metadata :: jobj

record float_fns =
  ff_sum :: "rat list \<Rightarrow> rat"
  ff_sqrt :: "rat \<Rightarrow> rat"

definition clamp01 :: "rat \<Rightarrow> rat" where
  "clamp01 x = max 0 (min 1 x)"

definition cosine_similarity :: "float_fns \<Rightarrow> rat list \<Rightarrow> rat list \<Rightarrow> rat" where
  "cosine_similarity ff a b =
     (if a = [] \<or> b = [] \<or> length a \<noteq> length b then 0
      else
        let dot = ff_sum ff (map2 fmul a b);
            norm_a = ff_sqrt ff (ff_sum ff (map (\<lambda>x. fmul x x) a));
            norm_b = ff_sqrt ff (ff_sum ff (map (\<lambda>x. fmul x x) b))
        in if norm_a = 0 \<or> norm_b = 0 then 0 else clamp01 (fdiv dot (fmul norm_a norm_b)))"

definition vector_chunk :: "chunk \<Rightarrow> rat \<Rightarrow> rchunk" where
  "vector_chunk c s = \<lparr>rc_id = ck_id c, rc_document = ck_document c, rc_content = ck_text c, rc_score = s,
     rc_source = ''vector'', rc_vector = Some s, rc_graph = None, rc_entities = [], rc_relations = [],
     rc_metadata = ck_metadata c\<rparr>"

definition embedded_chunks :: "graph_db \<Rightarrow> string \<Rightarrow> string \<Rightarrow> (chunk \<times> rat list) list" where
  "embedded_chunks db project dataset =
     concat (map (\<lambda>c. case ck_embedding c of None \<Rightarrow> [] | Some v \<Rightarrow> [(c, v)])
       (filter (\<lambda>c. ck_project c = project \<and> ck_dataset c = dataset) (g_chunks db)))"

text \<open>\<open>pgvector\<close>: the distance of a chunk from the query, None for SQL's null, or Inl when the
  statement raises or the database is not PostgreSQL.\<close>

type_synonym pgvector = "(rat list \<Rightarrow> rat list \<Rightarrow> rat option) res"

definition distance_key :: "rat option \<Rightarrow> bool \<times> rat" where
  "distance_key d = (case d of None \<Rightarrow> (True, 0) | Some x \<Rightarrow> (False, x))"

definition vector_search ::
    "float_fns \<Rightarrow> (string \<Rightarrow> rat list) \<Rightarrow> pgvector \<Rightarrow> graph_db \<Rightarrow> string \<Rightarrow> string \<Rightarrow> string \<Rightarrow> nat \<Rightarrow> rchunk list" where
  "vector_search ff embed_query pgv db project dataset query top_k =
     (if py_strip query = [] then []
      else
        let qv = embed_query query; rows = embedded_chunks db project dataset in
        if qv = [] then []
        else case pgv of
          Inr distance \<Rightarrow>
            map (\<lambda>(c, d). vector_chunk c (py_round (clamp01 (fsub 1 (case d of None \<Rightarrow> 1 | Some x \<Rightarrow> x))) 4))
              (limit top_k (order_by (\<lambda>(c, d). distance_key d) (map (\<lambda>(c, v). (c, distance v qv)) rows)))
        | Inl _ \<Rightarrow>
            map (\<lambda>(s, c). vector_chunk c (py_round s 4))
              (take top_k (sort_key (\<lambda>(s, c). (- s, ck_id c)) (map (\<lambda>(c, v). (cosine_similarity ff qv v, c)) rows))))"

section \<open>Graph search\<close>

definition token_char :: "char \<Rightarrow> bool" where
  "token_char c \<longleftrightarrow> is_word c \<or> c = CHR ''-''"

text \<open>\<open>re.split(r"[^\w\-_]+", query)\<close>: the pieces between maximal runs of other characters.\<close>

function split_tokens :: "string \<Rightarrow> string \<Rightarrow> string list" where
  "split_tokens acc [] = [rev acc]"
| "split_tokens acc (c # s) =
     (if token_char c then split_tokens (c # acc) s
      else rev acc # split_tokens [] (dropWhile (\<lambda>c. \<not> token_char c) s))"
  by pat_completeness auto
termination
  by (relation "measure (length \<circ> snd)") (auto simp: le_imp_less_Suc length_dropWhile_le)

definition query_tokens :: "string \<Rightarrow> string list" where
  "query_tokens query =
     map (\<lambda>w. py_lower (py_strip w)) (filter (\<lambda>w. 2 \<le> length (py_strip w)) (split_tokens [] query))"

definition current_entities :: "graph_db \<Rightarrow> string \<Rightarrow> string \<Rightarrow> gentity list" where
  "current_entities db project dataset =
     filter (\<lambda>e. en_project e = project \<and> en_dataset e = dataset \<and> supported_entity db e
       \<and> temporal_entity None False e) (g_entities db)"

definition seed_entities :: "graph_db \<Rightarrow> string \<Rightarrow> string \<Rightarrow> string \<Rightarrow> gentity list" where
  "seed_entities db project dataset query =
     (let tokens = take 10 (query_tokens query);
          seeds = limit 5 (order_by (\<lambda>e. - en_confidence e)
            (filter (\<lambda>e. tokens = [] \<or> list_ex (\<lambda>t. py_contains t (py_lower (en_name e))) tokens)
              (current_entities db project dataset)))
      in if seeds \<noteq> [] then seeds
         else take 5 (filter (\<lambda>e. py_contains (py_lower (en_name e)) (py_lower query))
           (limit 50 (order_by (\<lambda>e. - en_confidence e) (current_entities db project dataset)))))"

record gathered =
  ga_entities :: "string list"
  ga_relations :: "string list"
  ga_names :: "string list"
  ga_descriptions :: "string list"

definition add_new :: "'a \<Rightarrow> 'a list \<Rightarrow> 'a list" where
  "add_new x xs = (if x \<in> set xs then xs else xs @ [x])"

definition endpoint_name :: "(string \<times> gentity) list \<Rightarrow> string \<Rightarrow> string" where
  "endpoint_name entities k = (case map_of entities k of None \<Rightarrow> k | Some e \<Rightarrow> en_name e)"

definition describe :: "(string \<times> gentity) list \<Rightarrow> grelation \<Rightarrow> string" where
  "describe entities r =
     endpoint_name entities (rl_source r) @ '' -['' @ rl_type r @ '']-> '' @ endpoint_name entities (rl_target r)"

definition gather_root :: "graph_db \<Rightarrow> string \<Rightarrow> string \<Rightarrow> gentity \<Rightarrow> gathered \<Rightarrow> gathered" where
  "gather_root db project dataset origin g =
     (let w = bounded_walk db project dataset origin 1 10 15 None;
          names0 = add_new (en_name origin) (ga_names g)
      in \<lparr>ga_entities = en_id origin # map fst (wk_entities w) @ ga_entities g,
          ga_relations = map fst (wk_relations w) @ ga_relations g,
          ga_names = fold (\<lambda>(k, e) ns. add_new (en_name e) ns) (wk_entities w) names0,
          ga_descriptions = fold (\<lambda>(k, r) ds. add_new (describe (wk_entities w) r) ds) (wk_relations w) (ga_descriptions g)\<rparr>)"

definition gather :: "graph_db \<Rightarrow> string \<Rightarrow> string \<Rightarrow> gentity list \<Rightarrow> gathered" where
  "gather db project dataset seeds =
     fold (gather_root db project dataset) seeds \<lparr>ga_entities = [], ga_relations = [], ga_names = [], ga_descriptions = []\<rparr>"

text \<open>\<open>any(part in text for part in r.split(" -["))\<close>\<close>

fun split_on :: "nat \<Rightarrow> string \<Rightarrow> string \<Rightarrow> string list" where
  "split_on 0 sep s = [s]"
| "split_on (Suc n) sep s =
     (case py_find sep s of None \<Rightarrow> [s] | Some i \<Rightarrow> take i s # split_on n sep (drop (i + length sep) s))"

definition part_in :: "string \<Rightarrow> string \<Rightarrow> bool" where
  "part_in text r = list_ex (\<lambda>part. py_contains part text) (split_on (length r) '' -['' r)"

definition graph_chunk :: "gathered \<Rightarrow> gevidence \<Rightarrow> chunk \<Rightarrow> rchunk" where
  "graph_chunk g v c =
     (let s = py_round (gv_confidence v) 4 in
      \<lparr>rc_id = ck_id c, rc_document = ck_document c, rc_content = ck_text c, rc_score = s,
       rc_source = ''graph'', rc_vector = None, rc_graph = Some s,
       rc_entities = filter (\<lambda>n. py_contains (py_lower n) (py_lower (ck_text c))) (ga_names g),
       rc_relations = filter (part_in (ck_text c)) (ga_descriptions g),
       rc_metadata = ck_metadata c\<rparr>)"

definition add_evidence :: "gathered \<Rightarrow> gevidence \<times> chunk \<Rightarrow> (string \<times> rchunk) list \<Rightarrow> (string \<times> rchunk) list" where
  "add_evidence g vc d = (case vc of (v, c) \<Rightarrow>
     (case map_of d (ck_id c) of
        None \<Rightarrow> d @ [(ck_id c, graph_chunk g v c)]
      | Some r \<Rightarrow> let s = py_round (max (rc_score r) (gv_confidence v)) 4 in
          AList.update (ck_id c) (r\<lparr>rc_score := s, rc_graph := Some s\<rparr>) d))"

definition evidence_rows :: "graph_db \<Rightarrow> string \<Rightarrow> string \<Rightarrow> gathered \<Rightarrow> nat \<Rightarrow> (gevidence \<times> chunk) list" where
  "evidence_rows db project dataset g n =
     limit n (order_by (\<lambda>(v, c). - gv_confidence v)
       (concat (map (\<lambda>v. map (Pair v) (filter (\<lambda>c. ck_id c = gv_chunk v) (g_chunks db)))
         (filter (\<lambda>v. gv_project v = project \<and> gv_dataset v = dataset
            \<and> (gv_entity v \<in> Some ` set (ga_entities g) \<or> gv_relation v \<in> Some ` set (ga_relations g)))
           (g_evidence db)))))"

definition graph_search ::
    "graph_db \<Rightarrow> string \<Rightarrow> string \<Rightarrow> string \<Rightarrow> nat \<Rightarrow> rchunk list \<times> string list \<times> string list" where
  "graph_search db project dataset query top_k =
     (if py_strip query = [] then ([], [], [])
      else
        let g = gather db project dataset (seed_entities db project dataset query) in
        if ga_entities g = [] \<and> ga_relations g = [] then ([], ga_names g, ga_descriptions g)
        else
          (take top_k (sort_key (\<lambda>c. (- rc_score c, rc_id c))
             (map snd (fold (add_evidence g) (evidence_rows db project dataset g (top_k * 3)) []))),
           take 10 (ga_names g), take 10 (ga_descriptions g)))"

section \<open>Reciprocal rank fusion\<close>

definition ranks :: "rchunk list \<Rightarrow> (string \<times> nat) list" where
  "ranks cs = fold (\<lambda>(i, c) d. AList.update (rc_id c) i d) (enumerate 1 cs) []"

definition store_vector :: "rchunk list \<Rightarrow> (string \<times> rchunk) list" where
  "store_vector cs = fold (\<lambda>c d. AList.update (rc_id c) c d) cs []"

definition merge_graph :: "rchunk \<Rightarrow> (string \<times> rchunk) list \<Rightarrow> (string \<times> rchunk) list" where
  "merge_graph c d =
     (case map_of d (rc_id c) of
        None \<Rightarrow> d @ [(rc_id c, c)]
      | Some x \<Rightarrow> AList.update (rc_id c) (x\<lparr>rc_graph := rc_graph c,
          rc_entities := dict_fromkeys (rc_entities x @ rc_entities c),
          rc_relations := dict_fromkeys (rc_relations x @ rc_relations c)\<rparr>) d)"

definition rrf_part :: "rat \<Rightarrow> nat \<Rightarrow> (string \<times> nat) list \<Rightarrow> string \<Rightarrow> rat" where
  "rrf_part weight k rks cid =
     (case map_of rks cid of None \<Rightarrow> 0 | Some r \<Rightarrow> fdiv weight (of_nat (k + r)))"

definition rrf_score :: "rat \<Rightarrow> rat \<Rightarrow> nat \<Rightarrow> (string \<times> nat) list \<Rightarrow> (string \<times> nat) list \<Rightarrow> string \<Rightarrow> rat" where
  "rrf_score vw gw k vr gr cid = fadd (rrf_part vw k vr cid) (rrf_part gw k gr cid)"

definition max_possible :: "rat \<Rightarrow> rat \<Rightarrow> nat \<Rightarrow> rat" where
  "max_possible vw gw k = (if fadd vw gw > 0 then fdiv (fadd vw gw) (of_nat (k + 1)) else 1)"

definition source_tag :: "bool \<Rightarrow> bool \<Rightarrow> string" where
  "source_tag in_vec in_graph = (if in_vec \<and> in_graph then ''hybrid'' else if in_vec then ''vector'' else ''graph'')"

definition reciprocal_rank_fusion ::
    "rchunk list \<Rightarrow> rchunk list \<Rightarrow> nat \<Rightarrow> nat \<Rightarrow> rat \<Rightarrow> rat \<Rightarrow> rchunk list res" where
  "reciprocal_rank_fusion vec graph top_k k vw gw =
     (if vec = [] \<and> graph = [] then Inr []
      else
        let vr = ranks vec; gr = ranks graph;
            store = fold merge_graph graph (store_vector vec);
            ids = dict_fromkeys (map fst vr @ map fst gr);
            score = rrf_score vw gw k vr gr;
            chosen = take top_k (sort_key (\<lambda>cid. (- score cid, cid)) ids)
        in if chosen \<noteq> [] \<and> max_possible vw gw k = 0 then Inl ZeroDivisionError
           else Inr (map (\<lambda>cid. (the (map_of store cid))
               \<lparr>rc_score := py_round (min 1 (fdiv (score cid) (max_possible vw gw k))) 4,
                rc_source := source_tag (in_dict cid vr) (in_dict cid gr)\<rparr>) chosen))"

definition hybrid_search ::
    "float_fns \<Rightarrow> (string \<Rightarrow> rat list) \<Rightarrow> pgvector \<Rightarrow> graph_db \<Rightarrow> string \<Rightarrow> string \<Rightarrow> string \<Rightarrow> nat
       \<Rightarrow> rat \<Rightarrow> rat \<Rightarrow> nat \<Rightarrow> (rchunk list \<times> string list \<times> string list) res" where
  "hybrid_search ff embed_query pgv db project dataset query top_k vw gw k =
     (let vec = vector_search ff embed_query pgv db project dataset query (top_k * 2) in
      case graph_search db project dataset query (top_k * 2) of (graph, entities, relations) \<Rightarrow>
        bindE (reciprocal_rank_fusion vec graph top_k k vw gw) (\<lambda>fused. Inr (fused, entities, relations)))"

section \<open>The endpoint\<close>

datatype retrieval_mode = RVector | RGraph | RHybrid

record retrieval_request =
  rr_query :: string
  rr_mode :: retrieval_mode
  rr_top_k :: nat
  rr_vector_weight :: rat
  rr_graph_weight :: rat
  rr_compare :: bool

definition valid_retrieval_request :: "retrieval_request \<Rightarrow> bool" where
  "valid_retrieval_request r \<longleftrightarrow> 1 \<le> length (rr_query r) \<and> length (rr_query r) \<le> 1000
     \<and> 1 \<le> rr_top_k r \<and> rr_top_k r \<le> 50 \<and> 0 \<le> rr_vector_weight r \<and> rr_vector_weight r \<le> 1
     \<and> 0 \<le> rr_graph_weight r \<and> rr_graph_weight r \<le> 1"

record mode_result =
  mr_mode :: retrieval_mode
  mr_chunks :: "rchunk list"
  mr_entities :: "string list"
  mr_relations :: "string list"

text \<open>The result and, with \<open>compare\<close>, the results of the three modes.\<close>

definition query_retrieval ::
    "float_fns \<Rightarrow> (string \<Rightarrow> rat list) \<Rightarrow> pgvector \<Rightarrow> graph_db \<Rightarrow> string \<Rightarrow> string \<Rightarrow> retrieval_request
       \<Rightarrow> (mode_result \<times> mode_result list option) res" where
  "query_retrieval ff embed_query pgv db project dataset r =
     (let vec = vector_search ff embed_query pgv db project dataset (rr_query r) (rr_top_k r);
          gs = graph_search db project dataset (rr_query r) (rr_top_k r);
          vres = \<lparr>mr_mode = RVector, mr_chunks = vec, mr_entities = [], mr_relations = []\<rparr>;
          gres = \<lparr>mr_mode = RGraph, mr_chunks = fst gs, mr_entities = fst (snd gs), mr_relations = snd (snd gs)\<rparr>
      in if rr_compare r then
           bindE (reciprocal_rank_fusion vec (fst gs) (rr_top_k r) 60 (rr_vector_weight r) (rr_graph_weight r)) (\<lambda>fused.
             let hres = \<lparr>mr_mode = RHybrid, mr_chunks = fused, mr_entities = fst (snd gs), mr_relations = snd (snd gs)\<rparr>
             in Inr (case rr_mode r of RVector \<Rightarrow> vres | RGraph \<Rightarrow> gres | RHybrid \<Rightarrow> hres, Some [vres, gres, hres]))
         else
           case rr_mode r of RVector \<Rightarrow> Inr (vres, None) | RGraph \<Rightarrow> Inr (gres, None)
            | RHybrid \<Rightarrow>
                bindE (hybrid_search ff embed_query pgv db project dataset (rr_query r) (rr_top_k r)
                   (rr_vector_weight r) (rr_graph_weight r) 60) (\<lambda>h.
                Inr (\<lparr>mr_mode = RHybrid, mr_chunks = fst h, mr_entities = fst (snd h), mr_relations = snd (snd h)\<rparr>, None)))"

section \<open>Facts about dictionaries built in loops\<close>

lemma fold_update_keys:
  "fst ` set (fold (\<lambda>x d. AList.update (key x) (val x) d) xs d) = fst ` set d \<union> key ` set xs"
proof (induction xs arbitrary: d)
  case (Cons x xs)
  have "fst ` set (AList.update (key x) (val x) d) = insert (key x) (fst ` set d)"
    using keys_update [of "key x" "val x" d] by (metis dom_map_of_conv_image_fst map_of_update dom_fun_upd option.distinct(1))
  with Cons.IH show ?case by auto
qed simp

lemma fold_update_values:
  "map_of (fold (\<lambda>x d. AList.update (key x) (val x) d) xs d) k = Some v \<Longrightarrow>
     map_of d k = Some v \<or> (\<exists>x\<in>set xs. key x = k \<and> val x = v)"
proof (induction xs arbitrary: d)
  case (Cons x xs)
  from Cons.IH [of "AList.update (key x) (val x) d"] Cons.prems show ?case
    by (auto split: if_splits)
qed simp

lemma ranks_alt: "ranks cs = fold (\<lambda>x d. AList.update (rc_id (snd x)) (fst x) d) (enumerate 1 cs) []"
  by (simp add: ranks_def case_prod_beta')

lemma ranks_keys: "fst ` set (ranks cs) = rc_id ` set cs"
proof -
  have "rc_id ` snd ` set (enumerate 1 cs) = rc_id ` set cs"
    by (metis map_snd_enumerate set_map)
  then show ?thesis unfolding ranks_alt fold_update_keys by (simp add: image_image)
qed

lemma ranks_pos: "map_of (ranks cs) k = Some r \<Longrightarrow> 1 \<le> r"
  unfolding ranks_alt by (drule fold_update_values) (auto simp: in_set_enumerate_eq)

lemma store_vector_ok:
  "fst ` set (store_vector cs) = rc_id ` set cs"
  "map_of (store_vector cs) k = Some c \<Longrightarrow> rc_id c = k"
  unfolding store_vector_def fold_update_keys by (auto dest!: fold_update_values)

lemma merge_graph_ok:
  assumes "\<forall>k c. map_of d k = Some c \<longrightarrow> rc_id c = k"
  shows "fst ` set (merge_graph c d) = insert (rc_id c) (fst ` set d)
    \<and> (\<forall>k x. map_of (merge_graph c d) k = Some x \<longrightarrow> rc_id x = k)"
proof (cases "map_of d (rc_id c)")
  case None
  then show ?thesis using assms by (auto simp: merge_graph_def map_add_def split: option.splits if_splits)
next
  case (Some x)
  then have "rc_id c \<in> fst ` set d" by (metis map_of_SomeD image_eqI fst_conv)
  with Some assms show ?thesis by (auto simp: merge_graph_def update_keys split: if_splits
      simp flip: set_map)
qed

lemma fold_merge_ok:
  assumes "\<forall>k c. map_of d k = Some c \<longrightarrow> rc_id c = k"
  shows "fst ` set (fold merge_graph cs d) = rc_id ` set cs \<union> fst ` set d
    \<and> (\<forall>k x. map_of (fold merge_graph cs d) k = Some x \<longrightarrow> rc_id x = k)"
  using assms
proof (induction cs arbitrary: d)
  case (Cons c cs)
  note m = merge_graph_ok [OF Cons.prems, of c]
  have "fst ` set (fold merge_graph cs (merge_graph c d)) = rc_id ` set cs \<union> fst ` set (merge_graph c d)
    \<and> (\<forall>k x. map_of (fold merge_graph cs (merge_graph c d)) k = Some x \<longrightarrow> rc_id x = k)"
    by (rule Cons.IH) (rule conjunct2 [OF m])
  then show ?case unfolding conjunct1 [OF m] by simp
qed simp

section \<open>Facts about fusion\<close>

text \<open>\<open>a\<close> is ranked at least as well as \<open>b\<close>.\<close>

definition ranked_before :: "(string \<times> nat) list \<Rightarrow> string \<Rightarrow> string \<Rightarrow> bool" where
  "ranked_before rks a b = (case map_of rks b of None \<Rightarrow> True
     | Some rb \<Rightarrow> (case map_of rks a of None \<Rightarrow> False | Some ra \<Rightarrow> ra \<le> rb))"

lemma rrf_part_nonneg: "0 \<le> w \<Longrightarrow> 0 \<le> rrf_part w k rks cid"
  using fl_mono [of 0] by (auto simp: rrf_part_def fdiv_def split: option.split)

lemma rrf_part_mono:
  assumes "0 \<le> w" "ranked_before (ranks cs) a b"
  shows "rrf_part w k (ranks cs) b \<le> rrf_part w k (ranks cs) a"
proof (cases "map_of (ranks cs) b")
  case None
  then show ?thesis using rrf_part_nonneg [OF assms(1)] by (simp add: rrf_part_def)
next
  case (Some rb)
  with assms(2) obtain ra where ra: "map_of (ranks cs) a = Some ra" "ra \<le> rb"
    by (auto simp: ranked_before_def split: option.splits)
  have "1 \<le> ra" using ra(1) by (rule ranks_pos)
  then have "w / of_nat (k + rb) \<le> w / of_nat (k + ra)"
    using ra(2) assms(1) by (intro divide_left_mono) auto
  with Some ra show ?thesis by (simp add: rrf_part_def fdiv_def fl_mono)
qed

lemma rrf_score_nonneg: "0 \<le> vw \<Longrightarrow> 0 \<le> gw \<Longrightarrow> 0 \<le> rrf_score vw gw k vr gr cid"
  using fl_mono [of 0] rrf_part_nonneg by (fastforce simp: rrf_score_def fadd_def)

lemma max_possible_nonneg: "0 \<le> max_possible vw gw k"
  using fl_mono [of 0 "fadd vw gw / of_nat (k + 1)"] by (auto simp: max_possible_def fdiv_def)

definition normalized :: "rat \<Rightarrow> rat \<Rightarrow> rat" where
  "normalized m s = py_round (min 1 (fdiv s m)) 4"

lemma normalized_mono: "0 \<le> m \<Longrightarrow> s \<le> t \<Longrightarrow> normalized m s \<le> normalized m t"
  unfolding normalized_def fdiv_def by (intro py_round_mono min.mono fl_mono divide_right_mono) auto

lemma normalized_unit: "0 \<le> m \<Longrightarrow> 0 \<le> s \<Longrightarrow> 0 \<le> normalized m s \<and> normalized m s \<le> 1"
  unfolding normalized_def fdiv_def using fl_mono [of 0 "s / m"] by (intro py_round_unit) auto

lemma fusion_result:
  assumes "reciprocal_rank_fusion vec graph top_k k vw gw = Inr fused" "vec \<noteq> [] \<or> graph \<noteq> []"
  defines "score \<equiv> rrf_score vw gw k (ranks vec) (ranks graph)"
  obtains chosen where
    "chosen = take top_k (sort_key (\<lambda>cid. (- score cid, cid)) (dict_fromkeys (map fst (ranks vec) @ map fst (ranks graph))))"
    "map rc_id fused = chosen"
    "map rc_score fused = map (normalized (max_possible vw gw k) \<circ> score) chosen"
    "map rc_source fused = map (\<lambda>cid. source_tag (cid \<in> rc_id ` set vec) (cid \<in> rc_id ` set graph)) chosen"
    "set chosen \<subseteq> rc_id ` set vec \<union> rc_id ` set graph"
proof -
  let ?store = "fold merge_graph graph (store_vector vec)"
  let ?ids = "dict_fromkeys (map fst (ranks vec) @ map fst (ranks graph))"
  define chosen where "chosen = take top_k (sort_key (\<lambda>cid. (- score cid, cid)) ?ids)"
  let ?f = "\<lambda>cid. (the (map_of ?store cid))
       \<lparr>rc_score := normalized (max_possible vw gw k) (score cid),
        rc_source := source_tag (in_dict cid (ranks vec)) (in_dict cid (ranks graph))\<rparr>"
  have f: "fused = map ?f chosen"
    using assms(1,2) unfolding reciprocal_rank_fusion_def chosen_def score_def normalized_def
    by (auto simp: Let_def split: if_splits)
  have sub: "set chosen \<subseteq> rc_id ` set vec \<union> rc_id ` set graph"
    unfolding chosen_def using set_take_subset by (fastforce simp: ranks_keys [symmetric])
  have s: "fst ` set ?store = rc_id ` set graph \<union> rc_id ` set vec"
    and sid: "\<And>k x. map_of ?store k = Some x \<Longrightarrow> rc_id x = k"
    using fold_merge_ok [of "store_vector vec" graph] store_vector_ok by auto
  have id: "rc_id (the (map_of ?store cid)) = cid" if "cid \<in> set chosen" for cid
  proof -
    have "cid \<in> fst ` set ?store" using that sub s by blast
    then obtain x where "map_of ?store cid = Some x" by (metis map_of_eq_None_iff option.exhaust)
    with sid show ?thesis by simp
  qed
  show ?thesis
  proof (rule that)
    show "chosen = take top_k (sort_key (\<lambda>cid. (- score cid, cid)) ?ids)" by (rule chosen_def)
    show "map rc_id fused = chosen" using id by (simp add: f map_idI)
    show "map rc_score fused = map (normalized (max_possible vw gw k) \<circ> score) chosen" by (simp add: f)
    show "map rc_source fused = map (\<lambda>cid. source_tag (cid \<in> rc_id ` set vec) (cid \<in> rc_id ` set graph)) chosen"
      by (simp add: f in_dict_iff ranks_keys)
    show "set chosen \<subseteq> rc_id ` set vec \<union> rc_id ` set graph" by (rule sub)
  qed
qed

section \<open>Properties\<close>

text \<open>Fusion is sound: at most the requested number of chunks, each once and from one of the two
  rankings, tagged by the rankings it occurs in, with scores between 0 and 1 in decreasing order,
  and a chunk that both rankings put at least as high as another never scores lower.\<close>

theorem fusion_sound:
  assumes "reciprocal_rank_fusion vec graph top_k k vw gw = Inr fused" "0 \<le> vw" "0 \<le> gw"
  shows "length fused \<le> top_k \<and> distinct (map rc_id fused)
    \<and> sorted_wrt (\<lambda>a b. rc_score b \<le> rc_score a) fused
    \<and> (\<forall>c\<in>set fused. 0 \<le> rc_score c \<and> rc_score c \<le> 1
        \<and> rc_id c \<in> rc_id ` set vec \<union> rc_id ` set graph
        \<and> rc_source c = source_tag (rc_id c \<in> rc_id ` set vec) (rc_id c \<in> rc_id ` set graph))
    \<and> (\<forall>a\<in>set fused. \<forall>b\<in>set fused. ranked_before (ranks vec) (rc_id a) (rc_id b)
        \<and> ranked_before (ranks graph) (rc_id a) (rc_id b) \<longrightarrow> rc_score b \<le> rc_score a)"
proof (cases "vec = [] \<and> graph = []")
  case True
  with assms(1) show ?thesis by (simp add: reciprocal_rank_fusion_def)
next
  case False
  define score where "score = rrf_score vw gw k (ranks vec) (ranks graph)"
  let ?m = "max_possible vw gw k"
  obtain chosen where c: "chosen = take top_k (sort_key (\<lambda>cid. (- score cid, cid))
        (dict_fromkeys (map fst (ranks vec) @ map fst (ranks graph))))"
    and ids: "map rc_id fused = chosen"
    and scores: "map rc_score fused = map (normalized ?m \<circ> score) chosen"
    and tags: "map rc_source fused = map (\<lambda>cid. source_tag (cid \<in> rc_id ` set vec) (cid \<in> rc_id ` set graph)) chosen"
    and sub: "set chosen \<subseteq> rc_id ` set vec \<union> rc_id ` set graph"
    using fusion_result [OF assms(1)] False unfolding score_def by blast
  have each: "rc_score x = normalized ?m (score (rc_id x))
      \<and> rc_source x = source_tag (rc_id x \<in> rc_id ` set vec) (rc_id x \<in> rc_id ` set graph)
      \<and> rc_id x \<in> rc_id ` set vec \<union> rc_id ` set graph" if x: "x \<in> set fused" for x
  proof -
    have "map rc_score fused = map (\<lambda>x. normalized ?m (score (rc_id x))) fused"
      "map rc_source fused = map (\<lambda>x. source_tag (rc_id x \<in> rc_id ` set vec) (rc_id x \<in> rc_id ` set graph)) fused"
      using scores tags unfolding ids [symmetric] by (simp_all add: o_def)
    moreover have "rc_id x \<in> set chosen" using x ids by (metis image_eqI set_map)
    ultimately show ?thesis using x sub unfolding map_eq_conv by blast
  qed
  have "length fused = length chosen" using ids by (metis length_map)
  then have len: "length fused \<le> top_k" by (simp add: c)
  have "distinct chosen" unfolding c by (simp add: distinct_take)
  then have dist: "distinct (map rc_id fused)" by (simp add: ids)
  have "sorted (map (\<lambda>cid. (- score cid, cid)) chosen)"
    unfolding c take_map [symmetric] by (intro sorted_wrt_take) (rule sorted_sort_key)
  then have "sorted_wrt (\<lambda>a b. score b \<le> score a) chosen"
    unfolding sorted_map by (rule sorted_wrt_mono_rel [rotated]) (auto simp: less_eq_prod_def)
  then have "sorted_wrt (\<lambda>a b. score (rc_id b) \<le> score (rc_id a)) fused"
    unfolding ids [symmetric] by (simp add: sorted_wrt_map)
  then have sorted: "sorted_wrt (\<lambda>a b. rc_score b \<le> rc_score a) fused"
    by (rule sorted_wrt_mono_rel [rotated]) (simp add: each normalized_mono max_possible_nonneg)
  have unit: "0 \<le> rc_score x \<and> rc_score x \<le> 1" if "x \<in> set fused" for x
    using each [OF that] normalized_unit [OF max_possible_nonneg rrf_score_nonneg [OF assms(2,3)]]
    by (simp add: score_def)
  have dom: "rc_score b \<le> rc_score a" if "a \<in> set fused" "b \<in> set fused"
      "ranked_before (ranks vec) (rc_id a) (rc_id b)" "ranked_before (ranks graph) (rc_id a) (rc_id b)" for a b
  proof -
    have "score (rc_id b) \<le> score (rc_id a)"
      unfolding score_def rrf_score_def fadd_def using that(3,4) assms(2,3)
      by (intro fl_mono add_mono rrf_part_mono)
    then show ?thesis using each that(1,2) by (simp add: normalized_mono max_possible_nonneg)
  qed
  show ?thesis using len dist sorted unit each dom by blast
qed

definition sample_rchunk :: "string \<Rightarrow> rchunk" where
  "sample_rchunk k = \<lparr>rc_id = k, rc_document = k, rc_content = k, rc_score = 1, rc_source = ''vector'', rc_vector = Some 1,
     rc_graph = None, rc_entities = [], rc_relations = [], rc_metadata = []\<rparr>"

theorem fusion_sound_witness:
  "\<exists>fused. reciprocal_rank_fusion [sample_rchunk ''a'', sample_rchunk ''b''] [sample_rchunk ''b''] 1 1 (1 / 2) (1 / 2) = Inr fused
     \<and> length fused \<le> 1"
proof -
  have "fl (1 / 2) = 1 / 2" using f_half unfolding f0_5_def .
  then have "max_possible (1 / 2) (1 / 2) 1 = 1 / 2" by (simp add: max_possible_def fadd_def fdiv_def)
  then obtain fused where f: "reciprocal_rank_fusion [sample_rchunk ''a'', sample_rchunk ''b''] [sample_rchunk ''b'']
      1 1 (1 / 2) (1 / 2) = Inr fused"
    by (simp add: reciprocal_rank_fusion_def Let_def)
  with fusion_sound [OF f] show ?thesis by simp
qed

lemma fold_update_other:
  "\<forall>x\<in>set xs. key x \<noteq> k \<Longrightarrow> map_of (fold (\<lambda>x d. AList.update (key x) (val x) d) xs d) k = map_of d k"
  by (induction xs arbitrary: d) auto

lemma fold_update_distinct:
  "distinct (map fst d) \<Longrightarrow> distinct (map fst (fold (\<lambda>x d. AList.update (key x) (val x) d) xs d))"
  by (induction xs arbitrary: d) (simp_all add: distinct_update)

text \<open>The deduplication of graph evidence keeps the worst path of every chunk, not the best one its
  comment announces: the dictionary lets the last item of the descending order win.\<close>

theorem dedup_keeps_worst:
  "map pe_score (dedup_evidence evidence) = map (\<lambda>x. Min (pe_score ` {e \<in> set evidence. pe_chunk e = pe_chunk x})) (dedup_evidence evidence)
   \<and> distinct (map pe_chunk (dedup_evidence evidence))"
proof -
  let ?key = "\<lambda>e. (- pe_score e, pe_chunk e, pe_path e)"
  let ?xs = "sort_key ?key evidence"
  let ?d = "fold (\<lambda>e d. AList.update (pe_chunk e) e d) ?xs []"
  have dist: "distinct (map fst ?d)" by (rule fold_update_distinct) simp
  have kx: "pe_chunk x = k \<and> x \<in> set evidence" if "(k, x) \<in> set ?d" for k x
    using fold_update_values [of pe_chunk "\<lambda>e. e" ?xs "[]" k x] map_of_is_SomeI [OF dist that] by auto
  have least: "pe_score x = Min (pe_score ` {e \<in> set evidence. pe_chunk e = pe_chunk x})" if kxin: "(k, x) \<in> set ?d" for k x
  proof -
    note k = kx [OF kxin]
    then have "\<exists>y\<in>set ?xs. pe_chunk y = k" by auto
    then obtain ys y zs where split: "?xs = ys @ y # zs" "pe_chunk y = k" "\<forall>z\<in>set zs. pe_chunk z \<noteq> k"
      using split_list_last_prop_iff [of ?xs "\<lambda>y. pe_chunk y = k"] by blast
    have "map_of ?d k = Some y"
      unfolding split(1) using split(2,3) by (simp add: fold_update_other [of zs pe_chunk k "\<lambda>e. e"])
    then have "y = x" using map_of_is_SomeI [OF dist kxin] by simp
    have "pe_score x \<le> pe_score e" if e: "e \<in> set evidence" "pe_chunk e = pe_chunk x" for e
    proof -
      have "e \<in> set ?xs" using e(1) by simp
      then have "e \<in> set (ys @ y # zs)" unfolding split(1) .
      moreover have "e \<notin> set zs" using split(3) e(2) k by blast
      ultimately have "e \<in> set ys \<or> e = y" by auto
      moreover have "sorted (map ?key (ys @ y # zs))" unfolding split(1) [symmetric] by (rule sorted_sort_key)
      ultimately show ?thesis using \<open>y = x\<close> by (auto simp: sorted_append less_eq_prod_def)
    qed
    with k show ?thesis by (intro Min_eqI [symmetric]) auto
  qed
  have "map pe_chunk (dedup_evidence evidence) = map fst ?d"
    unfolding dedup_evidence_def map_map
  proof (rule map_cong [OF refl])
    fix x assume "x \<in> set ?d"
    then have "(fst x, snd x) \<in> set ?d" by simp
    from kx [OF this] show "(pe_chunk \<circ> snd) x = fst x" by simp
  qed
  moreover have "\<forall>x\<in>set (dedup_evidence evidence). pe_score x = Min (pe_score ` {e \<in> set evidence. pe_chunk e = pe_chunk x})"
    using least by (force simp: dedup_evidence_def)
  ultimately show ?thesis using dist by simp
qed

text \<open>Graph search stays in its scope: every chunk is cited by evidence of the project and dataset.\<close>

lemma evidence_rows_scoped:
  assumes "(v, c) \<in> set (evidence_rows db project dataset g n)"
  shows "v \<in> set (g_evidence db) \<and> gv_project v = project \<and> gv_dataset v = dataset \<and> ck_id c = gv_chunk v"
proof -
  have "(v, c) \<in> set (concat (map (\<lambda>v. map (Pair v) (filter (\<lambda>c. ck_id c = gv_chunk v) (g_chunks db)))
         (filter (\<lambda>v. gv_project v = project \<and> gv_dataset v = dataset
            \<and> (gv_entity v \<in> Some ` set (ga_entities g) \<or> gv_relation v \<in> Some ` set (ga_relations g)))
           (g_evidence db))))"
    using assms set_limit set_order_by unfolding evidence_rows_def by (metis (no_types, lifting) subsetD)
  then obtain v' where "v' \<in> set (g_evidence db)" "gv_project v' = project" "gv_dataset v' = dataset"
      "(v, c) \<in> Pair v' ` {c \<in> set (g_chunks db). ck_id c = gv_chunk v'}"
    unfolding set_concat set_map by fastforce
  then show ?thesis by blast
qed

lemma add_evidence_ids:
  fixes d :: "(string \<times> rchunk) list"
  assumes "\<forall>x\<in>set d. rc_id (snd x) = fst x \<and> fst x \<in> A" "ck_id (snd vc) \<in> A"
  shows "\<forall>x\<in>set (add_evidence g vc d). rc_id (snd x) = fst x \<and> fst x \<in> A"
proof (cases vc)
  case (Pair v c)
  show ?thesis
  proof (cases "map_of d (ck_id c)")
    case None
    with assms Pair show ?thesis by (auto simp: add_evidence_def graph_chunk_def Let_def)
  next
    case (Some r)
    then have "(ck_id c, r) \<in> set d" by (rule map_of_SomeD)
    with assms Some Pair show ?thesis by (auto simp: add_evidence_def Let_def dest!: set_update)
  qed
qed

lemma graph_search_scoped:
  assumes "c \<in> set (fst (graph_search db project dataset query top_k))"
  shows "\<exists>v\<in>set (g_evidence db). gv_project v = project \<and> gv_dataset v = dataset \<and> gv_chunk v = rc_id c"
proof -
  let ?g = "gather db project dataset (seed_entities db project dataset query)"
  let ?rows = "evidence_rows db project dataset ?g (top_k * 3)"
  let ?A = "gv_chunk ` {v \<in> set (g_evidence db). gv_project v = project \<and> gv_dataset v = dataset}"
  have "\<forall>x\<in>set (fold (add_evidence ?g) ?rows []). rc_id (snd x) = fst x \<and> fst x \<in> ?A"
  proof (rule fold_invariant_step)
    fix vc and d :: "(string \<times> rchunk) list" assume "vc \<in> set ?rows" "\<forall>x\<in>set d. rc_id (snd x) = fst x \<and> fst x \<in> ?A"
    moreover from this(1) have "ck_id (snd vc) \<in> ?A"
      using evidence_rows_scoped [of "fst vc" "snd vc"] by (auto intro!: image_eqI [of _ gv_chunk "fst vc"])
    ultimately show "\<forall>x\<in>set (add_evidence ?g vc d). rc_id (snd x) = fst x \<and> fst x \<in> ?A"
      by (intro add_evidence_ids)
  qed simp
  moreover have "c \<in> set (map snd (fold (add_evidence ?g) ?rows []))"
    using assms by (auto simp: graph_search_def Let_def split: if_splits dest!: in_set_takeD)
  ultimately show ?thesis by fastforce
qed

end
