(* ===== verification/Chunking.thy ===== *)
theory Chunking
  imports Json
begin

text \<open>
  The recursive text chunker, \<open>RecursiveTextChunker\<close> of \<open>app/chunking.py\<close>, over the value objects of
  \<open>open_graph_contracts/documents.py\<close>. \<open>sha24\<close> is the first 24 hexadecimal digits of SHA-256.
\<close>

section \<open>Values\<close>

record segment =
  sg_text :: string
  sg_metadata :: jobj

record parsed_document =
  pd_text :: string
  pd_metadata :: jobj
  pd_segments :: "segment list"

record text_chunk =
  tc_id :: string
  tc_index :: nat
  tc_text :: string
  tc_tokens :: nat
  tc_start :: nat
  tc_end :: nat
  tc_metadata :: jobj
  tc_part :: nat
  tc_count :: nat

record chunker =
  ch_size :: nat
  ch_overlap :: nat
  ch_maximum :: nat

text \<open>The constructor, for non-negative arguments.\<close>

definition new_chunker :: "nat \<Rightarrow> nat \<Rightarrow> nat \<Rightarrow> chunker res" where
  "new_chunker sz overlap maximum =
     (if sz \<le> overlap then Inl (ValueError ''chunk size must exceed non-negative overlap'')
      else Inr \<lparr>ch_size = sz, ch_overlap = overlap, ch_maximum = maximum\<rparr>)"

definition chunker_version :: string where
  "chunker_version = ''recursive-v5-page-aware-exact-offsets''"

record draft =
  dr_text :: string
  dr_start :: nat
  dr_end :: nat
  dr_metadata :: jobj
  dr_part :: nat
  dr_count :: nat

section \<open>Trimming\<close>

function skip_left :: "string \<Rightarrow> nat \<Rightarrow> nat \<Rightarrow> nat" where
  "skip_left text l r = (if l < r \<and> py_isspace (text ! l) then skip_left text (l + 1) r else l)"
  by auto
termination by (relation "measure (\<lambda>(text, l, r). r - l)") auto

function skip_right :: "string \<Rightarrow> nat \<Rightarrow> nat \<Rightarrow> nat" where
  "skip_right text l r = (if l < r \<and> py_isspace (text ! (r - 1)) then skip_right text l (r - 1) else r)"
  by auto
termination by (relation "measure (\<lambda>(text, l, r). r)") auto

declare skip_left.simps [simp del] skip_right.simps [simp del]

section \<open>Cutting a segment\<close>

definition separators :: "string list" where
  "separators = [[char_of (10::nat), char_of (10::nat)], [char_of (10::nat)], ''. '', '' '']"

definition boundary :: "string \<Rightarrow> nat \<Rightarrow> nat \<Rightarrow> int" where
  "boundary text lo hi = Max (set (map (\<lambda>sep. py_rfind sep text lo hi) separators))"

definition cut_end :: "chunker \<Rightarrow> string \<Rightarrow> nat \<Rightarrow> nat" where
  "cut_end c text start =
     (let e = min (start + ch_size c) (length text) in
      if e < length text \<and> boundary text start e > int (start + ch_size c div 2)
      then nat (boundary text start e) + 1 else e)"

definition trimmed :: "string \<Rightarrow> nat \<Rightarrow> nat \<Rightarrow> (nat \<times> nat) option" where
  "trimmed text start e =
     (let l = skip_left text start e; r = skip_right text l e in if l < r then Some (l, r) else None)"

definition too_many :: err where
  "too_many = ValueError ''document exceeds maximum chunk count''"

text \<open>The \<open>while\<close> loop of one segment; \<open>used\<close> is the number of drafts of earlier segments.\<close>

function segment_loop :: "chunker \<Rightarrow> nat \<Rightarrow> string \<Rightarrow> nat \<Rightarrow> (nat \<times> nat) list \<Rightarrow> (nat \<times> nat) list res" where
  "segment_loop c used text start acc =
     (if \<not> start < length text then Inr acc
      else if ch_maximum c \<le> used + length acc then Inl too_many
      else
        let e = cut_end c text start;
            acc' = (case trimmed text start e of None \<Rightarrow> acc | Some lr \<Rightarrow> acc @ [lr])
        in if e = length text then Inr acc'
           else segment_loop c used text (max (start + 1) (e - ch_overlap c)) acc')"
  by auto
termination
  by (relation "measure (\<lambda>(c, used, text, start, acc). length text - start)") auto

declare segment_loop.simps [simp del]

definition offsets :: "jobj \<Rightarrow> nat \<Rightarrow> nat \<Rightarrow> nat \<Rightarrow> nat \<Rightarrow> jobj" where
  "offsets metadata l r part count =
     fold (\<lambda>(k, v). AList.update k (JInt (int v)))
       [(''segment_start_char'', l), (''segment_end_char'', r), (''start_char'', l), (''end_char'', r),
        (''segment_part'', part), (''segment_count'', count)] metadata"

definition make_draft :: "segment \<Rightarrow> nat \<Rightarrow> nat \<Rightarrow> nat \<times> nat \<Rightarrow> draft" where
  "make_draft s part count lr = (case lr of (l, r) \<Rightarrow>
     \<lparr>dr_text = slice l r (sg_text s), dr_start = l, dr_end = r,
      dr_metadata = offsets (sg_metadata s) l r part count, dr_part = part, dr_count = count\<rparr>)"

definition is_page :: "chunker \<Rightarrow> segment \<Rightarrow> bool" where
  "is_page c s \<longleftrightarrow> is_jint (jget ''page_number'' (sg_metadata s)) \<and> length (sg_text s) \<le> ch_size c"

definition segment_drafts :: "chunker \<Rightarrow> nat \<Rightarrow> segment \<Rightarrow> draft list res" where
  "segment_drafts c used s =
     (if is_page c s then
        if ch_maximum c \<le> used then Inl too_many
        else Inr (case trimmed (sg_text s) 0 (length (sg_text s)) of None \<Rightarrow> [] | Some lr \<Rightarrow> [make_draft s 1 1 lr])
      else
        bindE (segment_loop c used (sg_text s) 0 []) (\<lambda>cuts.
          Inr (map (\<lambda>(part, lr). make_draft s part (length cuts) lr) (enumerate 1 cuts))))"

fun all_drafts :: "chunker \<Rightarrow> segment list \<Rightarrow> draft list \<Rightarrow> draft list res" where
  "all_drafts c [] acc = Inr acc"
| "all_drafts c (s # ss) acc = bindE (segment_drafts c (length acc) s) (\<lambda>ds. all_drafts c ss (acc @ ds))"

definition chunk_identity :: "string \<Rightarrow> nat \<Rightarrow> string \<Rightarrow> string" where
  "chunk_identity doc i value = doc @ '':'' @ chunker_version @ '':'' @ dec_str i @ '':'' @ value"

definition make_chunk :: "(string \<Rightarrow> string) \<Rightarrow> string \<Rightarrow> nat \<times> draft \<Rightarrow> text_chunk" where
  "make_chunk sha24 doc x = (case x of (i, d) \<Rightarrow>
     \<lparr>tc_id = ''chunk_'' @ sha24 (chunk_identity doc i (dr_text d)), tc_index = i, tc_text = dr_text d,
      tc_tokens = length (py_split (dr_text d)), tc_start = dr_start d, tc_end = dr_end d,
      tc_metadata = dr_metadata d, tc_part = dr_part d, tc_count = dr_count d\<rparr>)"

definition split_segments :: "(string \<Rightarrow> string) \<Rightarrow> chunker \<Rightarrow> string \<Rightarrow> segment list \<Rightarrow> text_chunk list res" where
  "split_segments sha24 c doc segs =
     bindE (all_drafts c segs []) (\<lambda>ds. Inr (map (make_chunk sha24 doc) (enumerate 0 ds)))"

definition split_text :: "(string \<Rightarrow> string) \<Rightarrow> chunker \<Rightarrow> string \<Rightarrow> string \<Rightarrow> text_chunk list res" where
  "split_text sha24 c doc text = split_segments sha24 c doc [\<lparr>sg_text = text, sg_metadata = []\<rparr>]"

definition split_document :: "(string \<Rightarrow> string) \<Rightarrow> chunker \<Rightarrow> string \<Rightarrow> parsed_document \<Rightarrow> text_chunk list res" where
  "split_document sha24 c doc d =
     split_segments sha24 c doc
       (if pd_segments d = [] then [\<lparr>sg_text = pd_text d, sg_metadata = []\<rparr>] else pd_segments d)"

section \<open>Facts about trimming and cutting\<close>

lemma skip_left_spec:
  "l \<le> r \<Longrightarrow> l \<le> skip_left text l r \<and> skip_left text l r \<le> r
     \<and> (\<forall>i. l \<le> i \<and> i < skip_left text l r \<longrightarrow> py_isspace (text ! i))
     \<and> (skip_left text l r < r \<longrightarrow> \<not> py_isspace (text ! skip_left text l r))"
proof (induction "text" l r rule: skip_left.induct)
  case (1 tx l r)
  show ?case
  proof (cases "l < r \<and> py_isspace (tx ! l)")
    case True
    then have IH: "l + 1 \<le> skip_left tx (l + 1) r \<and> skip_left tx (l + 1) r \<le> r
       \<and> (\<forall>i. l + 1 \<le> i \<and> i < skip_left tx (l + 1) r \<longrightarrow> py_isspace (tx ! i))
       \<and> (skip_left tx (l + 1) r < r \<longrightarrow> \<not> py_isspace (tx ! skip_left tx (l + 1) r))"
      by (intro 1) auto
    have "py_isspace (tx ! i)" if "l \<le> i" "i < skip_left tx (l + 1) r" for i
      using that IH True by (cases "i = l") auto
    with IH True show ?thesis by (auto simp: skip_left.simps [of tx l r])
  next
    case False
    with 1 show ?thesis by (auto simp: skip_left.simps [of tx l r])
  qed
qed

lemma skip_right_spec:
  "l \<le> r \<Longrightarrow> l \<le> skip_right text l r \<and> skip_right text l r \<le> r
     \<and> (\<forall>i. skip_right text l r \<le> i \<and> i < r \<longrightarrow> py_isspace (text ! i))
     \<and> (l < skip_right text l r \<longrightarrow> \<not> py_isspace (text ! (skip_right text l r - 1)))"
proof (induction "text" l r rule: skip_right.induct)
  case (1 tx l r)
  show ?case
  proof (cases "l < r \<and> py_isspace (tx ! (r - 1))")
    case True
    then have IH: "l \<le> skip_right tx l (r - 1) \<and> skip_right tx l (r - 1) \<le> r - 1
       \<and> (\<forall>i. skip_right tx l (r - 1) \<le> i \<and> i < r - 1 \<longrightarrow> py_isspace (tx ! i))
       \<and> (l < skip_right tx l (r - 1) \<longrightarrow> \<not> py_isspace (tx ! (skip_right tx l (r - 1) - 1)))"
      by (intro 1) auto
    have "py_isspace (tx ! i)" if "skip_right tx l (r - 1) \<le> i" "i < r" for i
      using that IH True by (cases "i = r - 1") auto
    with IH True show ?thesis by (auto simp: skip_right.simps [of tx l r])
  next
    case False
    with 1 show ?thesis by (auto simp: skip_right.simps [of tx l r])
  qed
qed

lemma trimmed_Some:
  assumes "trimmed text start e = Some (l, r)" "start \<le> e" "e \<le> length text"
  shows "start \<le> l \<and> l < r \<and> r \<le> e \<and> \<not> py_isspace (text ! l) \<and> \<not> py_isspace (text ! (r - 1))
    \<and> (\<forall>i. start \<le> i \<and> i < e \<and> \<not> py_isspace (text ! i) \<longrightarrow> l \<le> i \<and> i < r)"
proof -
  have l: "l = skip_left text start e" and r: "r = skip_right text l e" and lr: "l < r"
    using assms(1) by (auto simp: trimmed_def Let_def split: if_splits)
  note ls = skip_left_spec [OF assms(2), of "text", folded l]
  then have "l \<le> e" by blast
  note rs = skip_right_spec [OF this, of "text", folded r]
  show ?thesis
  proof (intro conjI allI impI)
    show "start \<le> l" "l < r" "r \<le> e" "\<not> py_isspace (text ! l)" "\<not> py_isspace (text ! (r - 1))"
      using ls rs lr by auto
    fix i assume "start \<le> i \<and> i < e \<and> \<not> py_isspace (text ! i)"
    then show "l \<le> i" "i < r" using ls rs by (meson not_le)+
  qed
qed

lemma trimmed_None:
  assumes "trimmed text start e = None" "start \<le> i" "i < e"
  shows "py_isspace (text ! i)"
proof -
  have le: "start \<le> e" using assms by simp
  note ls = skip_left_spec [OF le, of "text"]
  then have "skip_left text start e \<le> e" by blast
  note rs = skip_right_spec [OF this, of "text"]
  have "\<not> skip_left text start e < skip_right text (skip_left text start e) e"
    using assms(1) by (simp add: trimmed_def Let_def split: if_splits)
  with ls rs assms show ?thesis by (meson le_trans not_le)
qed

lemma cut_end_bounds:
  assumes "start < length text" "0 < ch_size c"
  shows "start < cut_end c text start \<and> cut_end c text start \<le> length text
    \<and> cut_end c text start \<le> start + ch_size c"
proof -
  let ?e = "min (start + ch_size c) (length text)"
  have "boundary text start ?e = -1 \<or> boundary text start ?e + 1 \<le> int ?e"
  proof -
    have "boundary text start ?e \<in> set (map (\<lambda>sep. py_rfind sep text start ?e) separators)"
      unfolding boundary_def by (rule Max_in) (simp_all add: separators_def)
    then obtain sep where sep: "sep \<in> set separators" "boundary text start ?e = py_rfind sep text start ?e"
      by auto
    then have "1 \<le> length sep" by (auto simp: separators_def)
    with sep(2) py_rfind_bounds [of sep "text" start ?e] show ?thesis by auto
  qed
  with assms show ?thesis by (auto simp: cut_end_def Let_def)
qed

section \<open>What cutting a segment promises\<close>

definition good_cut :: "chunker \<Rightarrow> string \<Rightarrow> nat \<times> nat \<Rightarrow> bool" where
  "good_cut c s lr \<longleftrightarrow> fst lr < snd lr \<and> snd lr \<le> length s \<and> snd lr - fst lr \<le> ch_size c
     \<and> \<not> py_isspace (s ! fst lr) \<and> \<not> py_isspace (s ! (snd lr - 1))"

definition covered :: "string \<Rightarrow> nat \<Rightarrow> (nat \<times> nat) list \<Rightarrow> bool" where
  "covered s n cuts \<longleftrightarrow> (\<forall>i<n. \<not> py_isspace (s ! i) \<longrightarrow> (\<exists>lr\<in>set cuts. fst lr \<le> i \<and> i < snd lr))"

lemma trimmed_step:
  assumes "start \<le> e" "e \<le> length s" "e - start \<le> ch_size c" "covered s start acc" "\<forall>lr\<in>set acc. good_cut c s lr"
  defines "acc' \<equiv> (case trimmed s start e of None \<Rightarrow> acc | Some lr \<Rightarrow> acc @ [lr])"
  shows "covered s e acc' \<and> (\<forall>lr\<in>set acc'. good_cut c s lr) \<and> length acc' \<le> Suc (length acc)"
proof (cases "trimmed s start e")
  case None
  have "covered s e acc"
    unfolding covered_def
  proof (intro allI impI)
    fix i assume "i < e" "\<not> py_isspace (s ! i)"
    then have "i < start" using trimmed_None [OF None] by (meson not_le)
    with assms(4) \<open>\<not> py_isspace (s ! i)\<close> show "\<exists>lr\<in>set acc. fst lr \<le> i \<and> i < snd lr" by (simp add: covered_def)
  qed
  with None assms(5) show ?thesis by (simp add: acc'_def)
next
  case (Some lr)
  obtain l r where lr: "lr = (l, r)" by fastforce
  note t = trimmed_Some [OF Some [unfolded lr] assms(1,2)]
  then have "good_cut c s lr" using assms(2,3) by (auto simp: lr good_cut_def)
  moreover have "covered s e (acc @ [lr])"
    unfolding covered_def
  proof (intro allI impI)
    fix i assume i: "i < e" "\<not> py_isspace (s ! i)"
    show "\<exists>x\<in>set (acc @ [lr]). fst x \<le> i \<and> i < snd x"
    proof (cases "i < start")
      case True
      with assms(4) i show ?thesis by (auto simp: covered_def)
    next
      case False
      with t i show ?thesis by (auto simp: lr)
    qed
  qed
  ultimately show ?thesis using Some assms(5) by (auto simp: acc'_def)
qed

lemma segment_loop_spec:
  assumes "segment_loop c used s start acc = Inr cuts" "0 < ch_size c" "covered s (min start (length s)) acc"
    "\<forall>lr\<in>set acc. good_cut c s lr" "used + length acc \<le> ch_maximum c"
  shows "covered s (length s) cuts \<and> (\<forall>lr\<in>set cuts. good_cut c s lr) \<and> used + length cuts \<le> ch_maximum c"
  using assms
proof (induction c used s start acc rule: segment_loop.induct)
  case (1 c used s start acc)
  show ?case
  proof (cases "start < length s")
    case False
    with 1(2) have "cuts = acc" by (simp add: segment_loop.simps [of c used s start acc])
    with False 1 show ?thesis by (simp add: min_def split: if_splits)
  next
    case True
    then have room: "\<not> ch_maximum c \<le> used + length acc"
      using 1(2) by (auto simp: segment_loop.simps [of c used s start acc])
    define e where "e = cut_end c s start"
    define acc' where "acc' = (case trimmed s start e of None \<Rightarrow> acc | Some lr \<Rightarrow> acc @ [lr])"
    have e: "start < e" "e \<le> length s" "e \<le> start + ch_size c"
      using cut_end_bounds [OF True 1(3)] by (simp_all add: e_def)
    have step: "covered s e acc' \<and> (\<forall>lr\<in>set acc'. good_cut c s lr) \<and> length acc' \<le> Suc (length acc)"
      unfolding acc'_def using e 1(4,5) True by (intro trimmed_step) (auto simp: min_def)
    then have len: "used + length acc' \<le> ch_maximum c" using room by simp
    show ?thesis
    proof (cases "e = length s")
      case last: True
      with 1(2) True room have "cuts = acc'"
        by (simp add: segment_loop.simps [of c used s start acc] Let_def e_def acc'_def)
      with step len last show ?thesis by simp
    next
      case False
      let ?next = "max (start + 1) (e - ch_overlap c)"
      have rec: "segment_loop c used s ?next acc' = Inr cuts"
        using 1(2) True room False by (simp add: segment_loop.simps [of c used s start acc] Let_def e_def acc'_def)
      have "covered s (min ?next (length s)) acc'" using step e by (auto simp: covered_def)
      with rec step len 1(3) True room False show ?thesis
        by (intro 1(1) [OF _ _ e_def acc'_def]) (auto simp: e_def acc'_def)
    qed
  qed
qed

definition good_draft :: "chunker \<Rightarrow> segment \<Rightarrow> draft \<Rightarrow> bool" where
  "good_draft c s d \<longleftrightarrow> good_cut c (sg_text s) (dr_start d, dr_end d) \<and> dr_text d = slice (dr_start d) (dr_end d) (sg_text s)"

definition covers :: "segment \<Rightarrow> draft list \<Rightarrow> bool" where
  "covers s ds \<longleftrightarrow> (\<forall>i<length (sg_text s). \<not> py_isspace (sg_text s ! i) \<longrightarrow>
     (\<exists>d\<in>set ds. dr_start d \<le> i \<and> i < dr_end d \<and> dr_text d = slice (dr_start d) (dr_end d) (sg_text s)))"

lemma make_draft_fields [simp]:
  "dr_start (make_draft s p n lr) = fst lr" "dr_end (make_draft s p n lr) = snd lr"
  "dr_text (make_draft s p n lr) = slice (fst lr) (snd lr) (sg_text s)"
  by (simp_all add: make_draft_def split: prod.split)

lemma snd_enumerate: "snd ` set (enumerate m xs) = set xs"
  by (metis map_snd_enumerate set_map)

lemma in_enumerate: "x \<in> set xs \<Longrightarrow> \<exists>p. (p, x) \<in> set (enumerate m xs)"
  using snd_enumerate [of m xs] by force

lemma of_enumerate: "x \<in> set (enumerate m xs) \<Longrightarrow> snd x \<in> set xs"
  using snd_enumerate [of m xs] by blast

lemma drafts_of_cuts:
  assumes "covered (sg_text s) (length (sg_text s)) cuts" "\<forall>lr\<in>set cuts. good_cut c (sg_text s) lr"
    "ds = map (\<lambda>(part, lr). make_draft s part n lr) (enumerate m cuts)"
  shows "covers s ds \<and> (\<forall>d\<in>set ds. good_draft c s d) \<and> length ds = length cuts"
proof -
  have in_cuts: "lr \<in> set cuts" if "(p, lr) \<in> set (enumerate m cuts)" for p lr
    using of_enumerate [OF that] by simp
  have ds: "\<forall>d\<in>set ds. \<exists>lr\<in>set cuts. \<exists>p. d = make_draft s p n lr"
    unfolding assms(3) using in_cuts by fastforce
  then have "\<forall>d\<in>set ds. good_draft c s d" using assms(2) by (auto simp: good_draft_def)
  moreover have "covers s ds"
    unfolding covers_def
  proof (intro allI impI)
    fix i assume "i < length (sg_text s)" "\<not> py_isspace (sg_text s ! i)"
    then obtain lr where lr: "lr \<in> set cuts" "fst lr \<le> i" "i < snd lr" using assms(1) by (auto simp: covered_def)
    then obtain p where "(p, lr) \<in> set (enumerate m cuts)" using in_enumerate by fast
    then have "make_draft s p n lr \<in> set ds" unfolding assms(3) by force
    with lr show "\<exists>d\<in>set ds. dr_start d \<le> i \<and> i < dr_end d \<and> dr_text d = slice (dr_start d) (dr_end d) (sg_text s)"
      by (intro bexI [of _ "make_draft s p n lr"]) simp_all
  qed
  ultimately show ?thesis by (simp add: assms(3))
qed

lemma segment_drafts_spec:
  assumes "segment_drafts c used s = Inr ds" "0 < ch_size c" "used \<le> ch_maximum c"
  shows "covers s ds \<and> (\<forall>d\<in>set ds. good_draft c s d) \<and> used + length ds \<le> ch_maximum c"
proof (cases "is_page c s")
  case True
  let ?n = "length (sg_text s)"
  let ?cuts = "case trimmed (sg_text s) 0 ?n of None \<Rightarrow> [] | Some lr \<Rightarrow> [] @ [lr]"
  have room: "used < ch_maximum c" using assms(1) True by (simp add: segment_drafts_def split: if_splits)
  have ds: "ds = map (\<lambda>(part, lr). make_draft s part 1 lr) (enumerate 1 ?cuts)"
    using assms(1) True by (auto simp: segment_drafts_def split: if_splits option.splits)
  have "covered (sg_text s) ?n ?cuts \<and> (\<forall>lr\<in>set ?cuts. good_cut c (sg_text s) lr)
      \<and> length ?cuts \<le> Suc (length ([] :: (nat \<times> nat) list))"
    by (rule trimmed_step [where start = 0 and acc = "[]"]) (use True in \<open>auto simp: is_page_def covered_def\<close>)
  with drafts_of_cuts [OF _ _ ds, of c] room show ?thesis by simp
next
  case False
  then obtain cuts where cuts: "segment_loop c used (sg_text s) 0 [] = Inr cuts"
    "ds = map (\<lambda>(part, lr). make_draft s part (length cuts) lr) (enumerate 1 cuts)"
    using assms(1) by (auto simp: segment_drafts_def bindE_Inr_iff)
  have "covered (sg_text s) (length (sg_text s)) cuts \<and> (\<forall>lr\<in>set cuts. good_cut c (sg_text s) lr)
      \<and> used + length cuts \<le> ch_maximum c"
    by (rule segment_loop_spec [OF cuts(1) assms(2)]) (use assms(3) in \<open>auto simp: covered_def\<close>)
  with drafts_of_cuts [OF _ _ cuts(2), of c] show ?thesis by simp
qed

lemma all_drafts_spec:
  assumes "all_drafts c ss acc = Inr ds" "0 < ch_size c" "length acc \<le> ch_maximum c"
  shows "(\<exists>new. ds = acc @ new \<and> (\<forall>s\<in>set ss. covers s new) \<and> (\<forall>d\<in>set new. \<exists>s\<in>set ss. good_draft c s d))
    \<and> length ds \<le> ch_maximum c"
  using assms
proof (induction ss arbitrary: acc)
  case (Cons s ss)
  then obtain d1 where d1: "segment_drafts c (length acc) s = Inr d1" "all_drafts c ss (acc @ d1) = Inr ds"
    by (auto simp: bindE_Inr_iff)
  note s1 = segment_drafts_spec [OF d1(1) Cons.prems(2,3)]
  then have "length (acc @ d1) \<le> ch_maximum c" by simp
  from Cons.IH [OF d1(2) Cons.prems(2) this] obtain new where new: "ds = acc @ d1 @ new" "\<forall>s\<in>set ss. covers s new"
    "\<forall>d\<in>set new. \<exists>s\<in>set ss. good_draft c s d" "length ds \<le> ch_maximum c" by auto
  have mono: "covers s' ys" if "covers s' xs" "set xs \<subseteq> set ys" for s' xs ys
    using that unfolding covers_def by blast
  have "covers s (d1 @ new)" "\<forall>s\<in>set ss. covers s (d1 @ new)"
    using s1 new(2) by (auto intro: mono)
  with s1 new show ?case by (intro conjI exI [of _ "d1 @ new"]) auto
qed auto

section \<open>Properties\<close>

text \<open>C28. Chunking loses nothing and invents nothing: every chunk is the exact slice of a segment at its
  recorded offsets, non-empty, trimmed and no longer than the chunk size; every character of every
  segment that is not white space lies in a chunk of that segment; and the chunks are numbered in
  order and within the maximum.\<close>

theorem chunking_sound:
  assumes "split_segments sha24 c doc segs = Inr chunks" "0 < ch_size c"
  shows "(\<forall>t\<in>set chunks. \<exists>s\<in>set segs. good_cut c (sg_text s) (tc_start t, tc_end t)
        \<and> tc_text t = slice (tc_start t) (tc_end t) (sg_text s))
    \<and> (\<forall>s\<in>set segs. \<forall>i<length (sg_text s). \<not> py_isspace (sg_text s ! i) \<longrightarrow>
        (\<exists>t\<in>set chunks. tc_start t \<le> i \<and> i < tc_end t \<and> tc_text t = slice (tc_start t) (tc_end t) (sg_text s)))
    \<and> map tc_index chunks = [0..<length chunks] \<and> length chunks \<le> ch_maximum c"
proof -
  obtain ds where ds: "all_drafts c segs [] = Inr ds" "chunks = map (make_chunk sha24 doc) (enumerate 0 ds)"
    using assms(1) by (auto simp: split_segments_def bindE_Inr_iff)
  note spec = all_drafts_spec [OF ds(1) assms(2)]
  have fields: "tc_index (make_chunk sha24 doc x) = fst x" "tc_text (make_chunk sha24 doc x) = dr_text (snd x)"
    "tc_start (make_chunk sha24 doc x) = dr_start (snd x)" "tc_end (make_chunk sha24 doc x) = dr_end (snd x)" for x
    by (simp_all add: make_chunk_def split: prod.split)
  have of_draft: "\<exists>t\<in>set chunks. tc_text t = dr_text d \<and> tc_start t = dr_start d \<and> tc_end t = dr_end d" if "d \<in> set ds" for d
  proof -
    from that obtain p where "(p, d) \<in> set (enumerate 0 ds)" using in_enumerate by fast
    then have "make_chunk sha24 doc (p, d) \<in> set chunks" unfolding ds(2) by simp
    with fields [of "(p, d)"] show ?thesis by auto
  qed
  have to_draft: "\<exists>d\<in>set ds. tc_text t = dr_text d \<and> tc_start t = dr_start d \<and> tc_end t = dr_end d" if "t \<in> set chunks" for t
  proof -
    from that obtain x where x: "x \<in> set (enumerate 0 ds)" "t = make_chunk sha24 doc x" unfolding ds(2) by auto
    then have "snd x \<in> set ds" by (simp add: of_enumerate)
    with x fields show ?thesis by blast
  qed
  have "map tc_index chunks = [0..<length chunks]"
    unfolding ds(2) map_map o_def fields by (simp add: enumerate_eq_zip)
  moreover have "\<exists>t\<in>set chunks. tc_start t \<le> i \<and> i < tc_end t \<and> tc_text t = slice (tc_start t) (tc_end t) (sg_text s)"
    if i: "s \<in> set segs" "i < length (sg_text s)" "\<not> py_isspace (sg_text s ! i)" for s i
  proof -
    have "covers s ds" using spec i(1) by auto
    then obtain d where d: "d \<in> set ds" "dr_start d \<le> i" "i < dr_end d"
      "dr_text d = slice (dr_start d) (dr_end d) (sg_text s)"
      using i(2,3) unfolding covers_def by blast
    from of_draft [OF d(1)] d show ?thesis by metis
  qed
  moreover have "\<exists>s\<in>set segs. good_cut c (sg_text s) (tc_start t, tc_end t)
      \<and> tc_text t = slice (tc_start t) (tc_end t) (sg_text s)" if t: "t \<in> set chunks" for t
  proof -
    obtain d where d: "d \<in> set ds" "tc_text t = dr_text d" "tc_start t = dr_start d" "tc_end t = dr_end d"
      using to_draft [OF t] by blast
    with spec obtain s where "s \<in> set segs" "good_draft c s d" by auto
    with d show ?thesis by (auto simp: good_draft_def)
  qed
  moreover have "length chunks \<le> ch_maximum c" using spec by (simp add: ds(2))
  ultimately show ?thesis by blast
qed

theorem chunking_sound_witness:
  "\<exists>chunks. split_segments (\<lambda>_. ''h'') \<lparr>ch_size = 9, ch_overlap = 1, ch_maximum = 4\<rparr> ''d''
       [\<lparr>sg_text = '' ab cd '', sg_metadata = [(''page_number'', JInt 1)]\<rparr>] = Inr chunks
     \<and> length chunks \<le> 4 \<and> (\<exists>t\<in>set chunks. tc_start t \<le> 1 \<and> 1 < tc_end t)"
proof -
  let ?c = "\<lparr>ch_size = 9, ch_overlap = 1, ch_maximum = 4\<rparr>"
  let ?s = "\<lparr>sg_text = '' ab cd '', sg_metadata = [(''page_number'', JInt 1)]\<rparr>"
  obtain chunks where s: "split_segments (\<lambda>_. ''h'') ?c ''d'' [?s] = Inr chunks"
    by (simp add: split_segments_def segment_drafts_def is_page_def jget_def)
  have "\<not> py_isspace (sg_text ?s ! 1)" by (simp add: py_isspace_def ord_of_def)
  with s chunking_sound [OF s] show ?thesis by fastforce
qed

end
