(* ===== verification/Extractors.thy ===== *)
theory Extractors
  imports Regex Json
begin

text \<open>
  The rule-based extractors of \<open>packages/core/.../extraction.py\<close>: the data they produce
  (\<open>Entity\<close>, \<open>Relation\<close>, \<open>Extraction\<close>), the fixture extractor for explicit
  \<open>Name [Type]\<close> and \<open>A -> REL -> B\<close> text with its fallbacks on e-mail addresses, skills and
  capitalised phrases, and the sentence-pattern extractor. Unicode normalisation and case folding
  (\<open>unicodedata.normalize\<close>, \<open>str.casefold\<close>) are the functions of the record \<open>unicode\<close>,
  over which every definition and every lemma is general.
\<close>

section \<open>Data\<close>

record xentity =
  xe_name :: string
  xe_type :: string
  xe_confidence :: rat
  xe_aliases :: "string list"

record xrelation =
  xr_source :: string
  xr_target :: string
  xr_type :: string
  xr_confidence :: rat
  xr_source_type :: "string option"
  xr_target_type :: "string option"
  xr_quote :: "string option"

record extraction =
  ex_entities :: "xentity list"
  ex_relations :: "xrelation list"

text \<open>What \<open>Field(ge=0, le=1)\<close> asks of every confidence.\<close>

definition unit_interval :: "rat \<Rightarrow> bool" where
  "unit_interval x \<longleftrightarrow> 0 \<le> x \<and> x \<le> 1"

definition valid_extraction :: "extraction \<Rightarrow> bool" where
  "valid_extraction x \<longleftrightarrow> (\<forall>e\<in>set (ex_entities x). unit_interval (xe_confidence e))
     \<and> (\<forall>r\<in>set (ex_relations x). unit_interval (xr_confidence r))"

record unicode =
  u_nfkc :: "string \<Rightarrow> string"
  u_casefold :: "string \<Rightarrow> string"

definition normalize_name :: "unicode \<Rightarrow> string \<Rightarrow> string" where
  "normalize_name u s = squeeze_ws (u_casefold u (u_nfkc u s))"

section \<open>Matching with several groups\<close>

text \<open>A pattern with groups is the list of its consecutive segments; a match is the list of the
  positions where they end, in the order in which the engine tries them.\<close>

fun seg_matches :: "rx list \<Rightarrow> string \<Rightarrow> nat \<Rightarrow> nat list list" where
  "seg_matches [] s i = [[]]"
| "seg_matches (r # rs) s i = concat (map (\<lambda>j. map ((#) j) (seg_matches rs s j)) (rm r s i))"

text \<open>\<open>pattern.finditer(s)\<close>: from the left, non-overlapping; \<open>look s k\<close> is the lookahead at the end
  of the match. A match is its start followed by the ends of the segments.\<close>

function finditer_from :: "(string \<Rightarrow> nat \<Rightarrow> bool) \<Rightarrow> rx list \<Rightarrow> string \<Rightarrow> nat \<Rightarrow> nat list list" where
  "finditer_from look rs s i =
     (if i < length s then
        (case filter (\<lambda>es. look s (last es)) (seg_matches rs s i) of
           es # _ \<Rightarrow> if i < last es then (i # es) # finditer_from look rs s (last es)
                     else finditer_from look rs s (Suc i)
         | [] \<Rightarrow> finditer_from look rs s (Suc i))
      else [])"
  by pat_completeness auto
termination
  by (relation "measure (\<lambda>(look, rs, s, i). length s - i)") auto

declare finditer_from.simps [simp del]

definition finditer :: "rx list \<Rightarrow> string \<Rightarrow> nat list list" where
  "finditer rs s = finditer_from (\<lambda>_ _. True) rs s 0"

definition finditer_ahead :: "(string \<Rightarrow> nat \<Rightarrow> bool) \<Rightarrow> rx list \<Rightarrow> string \<Rightarrow> nat list list" where
  "finditer_ahead look rs s = finditer_from look rs s 0"

text \<open>The text of the \<open>k\<close>-th segment of a match.\<close>

definition seg :: "string \<Rightarrow> nat list \<Rightarrow> nat \<Rightarrow> string" where
  "seg s m k = slice (m ! k) (m ! Suc k) s"

definition whole :: "string \<Rightarrow> nat list \<Rightarrow> string" where
  "whole s m = slice (hd m) (last m) s"

definition upper :: rx where "upper = Cls is_upper_az"
definition letter :: rx where "letter = Cls (\<lambda>c. is_upper_az c \<or> is_lower_az c)"
definition word_or :: "string \<Rightarrow> rx" where "word_or cs = Cls (\<lambda>c. is_word c \<or> c \<in> set cs)"
definition alnum_or :: "string \<Rightarrow> rx" where
  "alnum_or cs = Cls (\<lambda>c. is_upper_az c \<or> is_lower_az c \<or> is_digit09 c \<or> c \<in> set cs)"

text \<open>\<open>r{0,n}\<close> and \<open>r{0,n}?\<close>\<close>

primrec upto_n :: "nat \<Rightarrow> rx \<Rightarrow> rx" where
  "upto_n 0 r = Eps"
| "upto_n (Suc n) r = Alt (Seq r (upto_n n r)) Eps"

primrec lazy_upto :: "nat \<Rightarrow> rx \<Rightarrow> rx" where
  "lazy_upto 0 r = Eps"
| "lazy_upto (Suc n) r = Alt Eps (Seq r (lazy_upto n r))"

section \<open>The fixture extractor\<close>

definition entity_pattern :: "rx list" where
  "entity_pattern = [Seq upper (LazyStar (word_or '' .&'-'')), Seq (Star space) (lit ''[''),
     Seq letter (Star (word_or ''-'')), lit '']'']"

definition relation_pattern :: "rx list" where
  "relation_pattern =
     (let line = none_of [CHR 0x0A, CHR '';'']; arrow = seqs [Star space, lit ''->'', Star space] in
      [Seq line (LazyStar line), arrow,
       Seq upper (Star (Cls (\<lambda>c. is_upper_az c \<or> is_digit09 c \<or> c = CHR ''_''))), arrow, Plus line])"

definition phrase_pattern :: "rx list" where
  "phrase_pattern =
     (let cap = Seq upper (Star (Cls (\<lambda>c. is_upper_az c \<or> is_lower_az c \<or> is_digit09 c \<or> 192 \<le> ord_of c
                  \<or> c \<in> set ''&+./'-'')));
          word = Alt cap (seqs [upper, upper, Star upper]); more = Seq (Plus space) word in
      [seqs [WordB, word, more, upto_n 4 more, WordB]])"

definition email_pattern :: "rx list" where
  "email_pattern = [seqs [Plus (word_or ''.+-''), lit ''@'', Plus (word_or ''.-''), lit ''.'',
     letter, letter, Star letter]]"

definition skill_pattern :: "rx list" where
  "skill_pattern = [seqs [WordB, alts (map lit_i [''FastAPI'', ''Next.js'', ''PostgreSQL'', ''Docker'',
     ''Python'', ''Machine Learning'', ''LLM'', ''OCR'', ''MinIO'', ''Electron'', ''GitHub Actions'',
     ''Neo4j'', ''Qdrant'', ''React'', ''TypeScript'']), WordB]]"

type_synonym found = "((string \<times> string) \<times> xentity) list"

definition plain_entity :: "string \<Rightarrow> string \<Rightarrow> rat \<Rightarrow> xentity" where
  "plain_entity name type c = \<lparr>xe_name = name, xe_type = type, xe_confidence = c, xe_aliases = []\<rparr>"

definition plain_relation :: "string \<Rightarrow> string \<Rightarrow> string \<Rightarrow> rat \<Rightarrow> xrelation" where
  "plain_relation source type target c = \<lparr>xr_source = source, xr_target = target, xr_type = type,
     xr_confidence = c, xr_source_type = None, xr_target_type = None, xr_quote = None\<rparr>"

definition explicit_entities :: "unicode \<Rightarrow> string \<Rightarrow> found" where
  "explicit_entities u s = fold (\<lambda>m found.
     let e = plain_entity (py_strip (seg s m 0)) (seg s m 2) 1 in
     AList.update (normalize_name u (xe_name e), normalize_name u (xe_type e)) e found)
     (finditer entity_pattern s) []"

definition explicit_relations :: "string \<Rightarrow> xrelation list" where
  "explicit_relations s =
     map (\<lambda>m. plain_relation (py_strip (seg s m 0)) (seg s m 2) (py_strip (seg s m 4)) 1)
       (finditer relation_pattern s)"

definition kind_entities :: "unicode \<Rightarrow> rx list \<Rightarrow> string \<Rightarrow> string \<Rightarrow> string \<Rightarrow> found \<Rightarrow> found" where
  "kind_entities u pat key type s found = fold (\<lambda>m found.
     let name = py_strip (whole s m) in
     AList.update (normalize_name u name, key) (plain_entity name type f0_7) found) (finditer pat s) found"

fun phrase_loop :: "unicode \<Rightarrow> string \<Rightarrow> nat list list \<Rightarrow> found \<Rightarrow> found" where
  "phrase_loop u s [] found = found"
| "phrase_loop u s (m # ms) found =
     (let name = squeeze_ws (whole s m) in
      if length name < 4 \<or> length name > 80 then phrase_loop u s ms found
      else let found' = dict_setdefault (normalize_name u name, ''entity'') (plain_entity name ''Entity'' f0_6) found in
        if length found' \<ge> 24 then found' else phrase_loop u s ms found')"

definition sort_extraction :: "unicode \<Rightarrow> found \<Rightarrow> xrelation list \<Rightarrow> extraction" where
  "sort_extraction u found rs =
     \<lparr>ex_entities = order_by (\<lambda>e. (normalize_name u (xe_name e), xe_type e)) (map snd found),
      ex_relations = order_by (\<lambda>r. (normalize_name u (xr_source r), xr_type r, normalize_name u (xr_target r))) rs\<rparr>"

definition deterministic_extract :: "unicode \<Rightarrow> string \<Rightarrow> extraction" where
  "deterministic_extract u s =
     (let found = explicit_entities u s in
      let found = (if found \<noteq> [] then found
        else phrase_loop u s (finditer phrase_pattern s)
          (kind_entities u skill_pattern ''skill'' ''Skill'' s
            (kind_entities u email_pattern ''contact'' ''Contact'' s found))) in
      sort_extraction u found (explicit_relations s))"

section \<open>The sentence-pattern extractor\<close>

definition f0_85 :: rat where "f0_85 = fl (17 / 20)"

text \<open>\<open>(?=[.!?;]|$)\<close>\<close>

definition sentence_end :: "string \<Rightarrow> nat \<Rightarrow> bool" where
  "sentence_end s k \<longleftrightarrow> (k < length s \<and> s ! k \<in> set ''.!?;'') \<or> k = length s
     \<or> (Suc k = length s \<and> s ! k = CHR 0x0A)"

definition mention_pattern :: "string \<Rightarrow> rx" where
  "mention_pattern extra = seqs [upper, alnum_or extra, lazy_upto 78 (alnum_or extra)]"

definition sentence_pattern :: "rx \<Rightarrow> string \<Rightarrow> rx list" where
  "sentence_pattern verb extra =
     [mention_pattern ''&' -'', seqs [Plus space, verb, Plus space], mention_pattern extra]"

definition relation_patterns :: "(rx list \<times> string \<times> string \<times> string) list" where
  "relation_patterns =
     [(sentence_pattern (lit ''works at'') ''&' -'', ''WORKS_AT'', ''Person'', ''Organization''),
      (sentence_pattern (alts (map lit [''acquired'', ''bought''])) ''&' -'', ''ACQUIRED'', ''Organization'', ''Organization''),
      (sentence_pattern (alts (map lit [''built'', ''developed'', ''created''])) ''&' -'', ''BUILT'', ''Person'', ''Product''),
      (sentence_pattern (alts (map lit [''use'', ''uses''])) ''&' .+-'', ''USES'', ''Organization'', ''Technology'')]"

definition nlp_match :: "unicode \<Rightarrow> string \<Rightarrow> string \<times> string \<times> string \<Rightarrow> nat list
    \<Rightarrow> found \<times> xrelation list \<Rightarrow> found \<times> xrelation list" where
  "nlp_match u s = (\<lambda>(rel, st, tt) m (found, rs).
     let source = squeeze_ws (seg s m 0); target = squeeze_ws (seg s m 2) in
     if source = [] \<or> target = [] then (found, rs)
     else (AList.update (normalize_name u target, tt) (plain_entity target tt f0_85)
             (AList.update (normalize_name u source, st) (plain_entity source st f0_85) found),
           rs @ [plain_relation source rel target f0_85]))"

definition nlp_extract :: "unicode \<Rightarrow> string \<Rightarrow> extraction" where
  "nlp_extract u s =
     (case fold (\<lambda>(pat, meta). fold (nlp_match u s meta) (finditer_ahead sentence_end pat s))
        relation_patterns ([], []) of
      (found, rs) \<Rightarrow> sort_extraction u found rs)"

section \<open>What they produce\<close>

definition unit_found :: "found \<Rightarrow> bool" where
  "unit_found found \<longleftrightarrow> (\<forall>e\<in>set (map snd found). unit_interval (xe_confidence e))"

lemma unit_literals [simp]:
  "unit_interval 1" "unit_interval f0_7" "unit_interval f0_6" "unit_interval f0_85" "unit_interval f0_8"
  using f_lits_unit by (simp_all add: unit_interval_def f0_85_def f0_7_def f64.nonneg f64.le_one)

lemma plain_fields [simp]: "xe_confidence (plain_entity n t c) = c" "xr_confidence (plain_relation a t b c) = c"
  by (simp_all add: plain_entity_def plain_relation_def)

lemma unit_found_update: "unit_found d \<Longrightarrow> unit_interval (xe_confidence e) \<Longrightarrow> unit_found (AList.update k e d)"
  by (induction d) (auto simp: unit_found_def)

lemma unit_found_setdefault: "unit_found d \<Longrightarrow> unit_interval (xe_confidence e) \<Longrightarrow> unit_found (dict_setdefault k e d)"
  by (auto simp: unit_found_def dict_setdefault_def split: option.split)

lemma explicit_unit: "unit_found (explicit_entities u s)"
  unfolding explicit_entities_def
  by (rule fold_invariant_step) (auto simp: Let_def unit_found_update, simp add: unit_found_def)

lemma kind_unit: "unit_found d \<Longrightarrow> unit_found (kind_entities u pat k t s d)"
  unfolding kind_entities_def by (rule fold_invariant_step) (auto simp: Let_def unit_found_update)

lemma phrase_unit: "unit_found d \<Longrightarrow> unit_found (phrase_loop u s ms d)"
  by (induction u s ms d rule: phrase_loop.induct) (auto simp: Let_def unit_found_setdefault)

lemma sort_extraction_valid:
  "unit_found d \<Longrightarrow> \<forall>r\<in>set rs. unit_interval (xr_confidence r) \<Longrightarrow> valid_extraction (sort_extraction u d rs)"
  by (simp add: sort_extraction_def valid_extraction_def unit_found_def)

lemma deterministic_valid: "valid_extraction (deterministic_extract u s)"
  unfolding deterministic_extract_def Let_def
  by (intro sort_extraction_valid)
     (auto simp: explicit_relations_def intro!: explicit_unit kind_unit phrase_unit, simp add: unit_found_def)

lemma nlp_valid: "valid_extraction (nlp_extract u s)"
proof -
  let ?P = "\<lambda>st :: found \<times> xrelation list. unit_found (fst st) \<and> (\<forall>r\<in>set (snd st). unit_interval (xr_confidence r))"
  have step: "?P (nlp_match u s meta m st)" if "?P st" for meta m st
    using that by (cases meta; cases st) (auto simp: nlp_match_def Let_def unit_found_update)
  have "?P (fold (\<lambda>(pat, meta). fold (nlp_match u s meta) (finditer_ahead sentence_end pat s))
      relation_patterns ([], []))"
  proof (rule fold_invariant_step [where P = ?P])
    fix x :: "rx list \<times> string \<times> string \<times> string" and st :: "found \<times> xrelation list"
    assume P: "?P st"
    obtain pat meta where x: "x = (pat, meta)" by (cases x)
    have "?P (fold (nlp_match u s meta) (finditer_ahead sentence_end pat s) st)"
      by (rule fold_invariant_step [where P = ?P]) (use P step in \<open>blast+\<close>)
    then show "?P ((\<lambda>(pat, meta). fold (nlp_match u s meta) (finditer_ahead sentence_end pat s)) x st)"
      by (simp add: x)
  qed (simp add: unit_found_def)
  then show ?thesis
    by (auto simp: nlp_extract_def sort_extraction_valid split: prod.splits)
qed

end
