(* ===== verification/Evidence.thy ===== *)
theory Evidence
  imports Extractors Ids
begin

text \<open>
  \<open>find_evidence\<close> and entity resolution of \<open>packages/core/.../extraction.py\<close>: where a mention
  stands in the text of a chunk, up to soft hyphens, line-break hyphens, white space and Unicode
  compatibility forms, with the exact characters of the chunk as its quote.
\<close>

section \<open>The normal form of a text with the origin of every character\<close>

definition soft_hyphen :: char where "soft_hyphen = char_of (173::nat)"
definition is_crlf :: "char \<Rightarrow> bool" where "is_crlf c \<longleftrightarrow> ord_of c = 13 \<or> ord_of c = 10"

definition space_text :: "string \<Rightarrow> bool" where
  \<comment> \<open>\<open>s.isspace()\<close>\<close>
  "space_text s \<longleftrightarrow> s \<noteq> [] \<and> list_all py_isspace s"

text \<open>One turn of the loop of \<open>_normalize_evidence\<close> at a non-empty rest of the text: how many
  characters it consumes and what it emits.\<close>

fun norm_step :: "(string \<Rightarrow> string) \<Rightarrow> string \<Rightarrow> nat \<times> string" where
  "norm_step nfkc [] = (0, [])"
| "norm_step nfkc (c # cs) =
     (if c = soft_hyphen then (1, [])
      else if c = CHR ''-'' \<and> cs \<noteq> [] \<and> is_crlf (hd cs) then (1 + length (takeWhile is_crlf cs), [])
      else let converted = nfkc [c] in
        if space_text converted then (1 + length (takeWhile py_isspace cs), '' '')
        else (1, converted))"

lemma norm_step_bounds: "s \<noteq> [] \<Longrightarrow> 0 < fst (norm_step f s) \<and> fst (norm_step f s) \<le> length s"
  by (cases s) (auto simp: Let_def length_takeWhile_le)

text \<open>Emitted characters with their entries of \<open>starts\<close> and \<open>ends\<close>.\<close>

function norm_loop :: "(string \<Rightarrow> string) \<Rightarrow> nat \<Rightarrow> string \<Rightarrow> (char \<times> nat \<times> nat) list" where
  "norm_loop nfkc i s =
     (if s = [] then []
      else case norm_step nfkc s of
        (k, cs) \<Rightarrow> map (\<lambda>c. (c, i + k - 1, i + k)) cs @ norm_loop nfkc (i + k) (drop k s))"
  by pat_completeness auto
termination
proof (relation "measure (\<lambda>(f, i, s). length s)")
  fix nfkc :: "string \<Rightarrow> string" and i s k cs
  assume "s \<noteq> []" "(k, cs) = norm_step nfkc s"
  with norm_step_bounds [of s nfkc] show "((nfkc, i + k, drop k s), nfkc, i, s) \<in> measure (\<lambda>(f, i, s). length s)"
    by (cases "norm_step nfkc s") auto
qed simp

declare norm_loop.simps [simp del]

definition normal_form :: "(string \<Rightarrow> string) \<Rightarrow> string \<Rightarrow> string" where
  "normal_form nfkc s = map fst (norm_loop nfkc 0 s)"

definition find_evidence :: "(string \<Rightarrow> string) \<Rightarrow> string \<Rightarrow> string \<Rightarrow> (nat \<times> string) option" where
  "find_evidence nfkc txt mention =
     (case py_find mention txt of
        Some offset \<Rightarrow> Some (offset, mention)
      | None \<Rightarrow>
          let items = norm_loop nfkc 0 txt; wanted = normal_form nfkc mention in
          if wanted = [] then None
          else case py_find wanted (map fst items) of
            None \<Rightarrow> None
          | Some offset \<Rightarrow>
              let start = fst (snd (items ! offset));
                  stop = snd (snd (items ! (offset + length wanted - 1)))
              in Some (start, slice start stop txt))"

section \<open>Entity resolution\<close>

record candidate =
  cd_id :: string
  cd_dataset :: string
  cd_norm :: string
  cd_type :: string

definition resolve_candidate :: "unicode \<Rightarrow> string \<Rightarrow> xentity \<Rightarrow> candidate list \<Rightarrow> candidate option" where
  "resolve_candidate u dataset e cs =
     (let key = (dataset, normalize_name u (xe_name e), normalize_name u (xe_type e));
          matches = filter (\<lambda>c. (cd_dataset c, cd_norm c, normalize_name u (cd_type c)) = key) cs
      in if length matches = 1 then Some (hd matches) else None)"

section \<open>Cutting a text at item boundaries\<close>

text \<open>NFKC maps white space to white space.\<close>

definition nfkc_spaces :: "(string \<Rightarrow> string) \<Rightarrow> bool" where
  "nfkc_spaces f \<longleftrightarrow> (\<forall>c. py_isspace c \<longrightarrow> space_text (f [c]))"

lemma takeWhile_take:
  "length (takeWhile P xs) \<le> n \<Longrightarrow> length (takeWhile P (take n xs)) = length (takeWhile P xs)"
proof (induction xs arbitrary: n)
  case (Cons x xs)
  then show ?case by (cases n) (auto split: if_splits)
qed simp

lemma takeWhile_dropWhile: "takeWhile P (dropWhile P xs) = []"
  by (induction xs) auto

lemma norm_step_take:
  assumes "s \<noteq> []" "fst (norm_step f s) \<le> m"
  shows "norm_step f (take m s) = norm_step f s"
proof -
  obtain c cs where s: "s = c # cs" using assms(1) by (cases s) auto
  obtain q where m: "m = Suc q" using assms norm_step_bounds [OF assms(1), of f] by (cases m) auto
  have hd_take: "hd (take q cs) = hd cs" if "0 < q" using that by (cases cs; cases q) auto
  show ?thesis
  proof (cases "c \<noteq> soft_hyphen \<and> c = CHR ''-'' \<and> cs \<noteq> [] \<and> is_crlf (hd cs)")
    case True
    have "0 < length (takeWhile is_crlf cs)" using True by (cases cs) auto
    moreover have ql: "length (takeWhile is_crlf cs) \<le> q" using True assms(2) s m by auto
    ultimately have q: "0 < q" by linarith
    note q = q ql
    with True show ?thesis by (simp add: s m hd_take takeWhile_take)
  next
    case False
    then have "\<not> (c \<noteq> soft_hyphen \<and> c = CHR ''-'' \<and> take q cs \<noteq> [] \<and> is_crlf (hd (take q cs)))"
      using hd_take by (cases q) auto
    moreover have "length (takeWhile py_isspace cs) \<le> q" if "space_text (f [c])" "c \<noteq> soft_hyphen"
      using assms(2) that False by (cases "c = CHR ''-''") (auto simp: s m Let_def)
    ultimately show ?thesis using False by (auto simp: s m Let_def takeWhile_take)
  qed
qed

lemma norm_loop_Nil [simp]: "norm_loop f i [] = []"
  by (simp add: norm_loop.simps)

lemma norm_loop_step:
  assumes "s \<noteq> []"
  shows "norm_loop f i s = map (\<lambda>c. (c, i + fst (norm_step f s) - 1, i + fst (norm_step f s))) (snd (norm_step f s))
    @ norm_loop f (i + fst (norm_step f s)) (drop (fst (norm_step f s)) s)"
  using assms by (subst norm_loop.simps) (simp split: prod.split)

lemma norm_loop_items:
  "y \<in> set (norm_loop f i s) \<Longrightarrow> snd (snd y) = Suc (fst (snd y)) \<and> i \<le> fst (snd y) \<and> snd (snd y) \<le> i + length s"
proof (induction f i s rule: norm_loop.induct)
  case (1 f i s)
  show ?case
  proof (cases "s = []")
    case False
    obtain k cs where st: "norm_step f s = (k, cs)" by (cases "norm_step f s")
    with norm_step_bounds [OF False, of f] have k: "0 < k" "k \<le> length s" by auto
    have "y \<in> (\<lambda>c. (c, i + k - 1, i + k)) ` set cs \<or> y \<in> set (norm_loop f (i + k) (drop k s))"
      using "1.prems" norm_loop_step [OF False, of f i] st by simp
    then show ?thesis using "1.IH" [OF False st [symmetric]] k by auto
  qed (use 1 in \<open>simp\<close>)
qed

lemma norm_loop_sorted: "sorted (map (\<lambda>y. fst (snd y)) (norm_loop f i s))"
proof (induction f i s rule: norm_loop.induct)
  case (1 f i s)
  show ?case
  proof (cases "s = []")
    case False
    obtain k cs where st: "norm_step f s = (k, cs)" by (cases "norm_step f s")
    have "i + k - 1 \<le> n" if n: "n \<in> set (map (\<lambda>y. fst (snd y)) (norm_loop f (i + k) (drop k s)))" for n
    proof -
      from n obtain y where "y \<in> set (norm_loop f (i + k) (drop k s))" "n = fst (snd y)" by auto
      with norm_loop_items [of y f "i + k" "drop k s"] show ?thesis by linarith
    qed
    then show ?thesis using "1.IH" [OF False st [symmetric]] st
      unfolding norm_loop_step [OF False] map_append sorted_append
      by (simp add: o_def) (simp add: sorted_wrt_map sorted_wrt_iff_nth_less flip: sorted_wrt_map)
  qed simp
qed

text \<open>The items up to the end of one of them are those of the text up to that end.\<close>

lemma norm_loop_prefix:
  assumes "y \<in> set (norm_loop f i s)"
  shows "norm_loop f i (take (snd (snd y) - i) s) = filter (\<lambda>x. snd (snd x) \<le> snd (snd y)) (norm_loop f i s)"
  using assms
proof (induction f i s rule: norm_loop.induct)
  case (1 f i s)
  show ?case
  proof (cases "s = []")
    case False
    obtain k cs where st: "norm_step f s = (k, cs)" by (cases "norm_step f s")
    with norm_step_bounds [OF False, of f] have k: "0 < k" "k \<le> length s" by auto
    let ?rest = "norm_loop f (i + k) (drop k s)" and ?en = "snd (snd y)"
    have loop: "norm_loop f i s = map (\<lambda>c. (c, i + k - 1, i + k)) cs @ ?rest"
      using norm_loop_step [OF False, of f i] st by simp
    have later: "i + k < snd (snd x)" if "x \<in> set ?rest" for x
      using norm_loop_items [OF that] by linarith
    have en: "i + k \<le> ?en" using "1.prems" later [of y] unfolding loop by (fastforce simp del: split_paired_All)
    have cut: "take (?en - i) s \<noteq> []" "norm_step f (take (?en - i) s) = (k, cs)"
      using False en k norm_step_take [OF False, of f "?en - i"] st by auto
    have *: "norm_loop f i (take (?en - i) s)
        = map (\<lambda>c. (c, i + k - 1, i + k)) cs @ norm_loop f (i + k) (take (?en - (i + k)) (drop k s))"
      using norm_loop_step [OF cut(1), of f i] cut(2) by (simp add: drop_take)
    show ?thesis
    proof (cases "y \<in> set ?rest")
      case True
      from "1.IH" [OF False st [symmetric] True] en show ?thesis unfolding * loop by simp
    next
      case False
      then have "?en = i + k" using "1.prems" unfolding loop by auto
      then show ?thesis unfolding * loop by (auto simp: filter_empty_conv dest: later)
    qed
  qed (use 1 in \<open>simp\<close>)
qed

text \<open>A turn that emits something, started at its last consumed character, emits the same.\<close>

lemma norm_step_last:
  assumes sp: "nfkc_spaces f" and s: "s \<noteq> []" and st: "norm_step f s = (k, cs)" and cs: "cs \<noteq> []"
  shows "norm_step f (drop (k - 1) s) = (1, cs) \<and> drop (k - 1) s \<noteq> []"
proof -
  obtain c r where s': "s = c # r" using s by (cases s) auto
  let ?n = "length (takeWhile py_isspace r)"
  show ?thesis
  proof (cases "space_text (f [c]) \<and> 0 < ?n")
    case True
    have c: "k = 1 + ?n" "cs = '' ''" using st cs True by (auto simp: s' Let_def split: if_splits)
    have n: "?n \<le> length r" by (simp add: length_takeWhile_le)
    have d: "drop (k - 1) s = r ! (?n - 1) # drop ?n r"
      using True n c s' by (cases ?n) (auto simp: Cons_nth_drop_Suc)
    have lt: "?n - 1 < ?n" using True by linarith
    have "r ! (?n - 1) \<in> set (takeWhile py_isspace r)"
      using lt nth_mem [OF lt] takeWhile_nth [OF lt] by metis
    then have w: "py_isspace (r ! (?n - 1))" using set_takeWhileD by fast
    then have "space_text (f [r ! (?n - 1)])" using sp by (simp add: nfkc_spaces_def)
    moreover have "r ! (?n - 1) \<noteq> soft_hyphen" "r ! (?n - 1) \<noteq> CHR ''-''"
      using w by (auto simp: soft_hyphen_def py_isspace_def ord_of_def)
    moreover have "takeWhile py_isspace (drop ?n r) = []"
      by (simp add: takeWhile_dropWhile flip: dropWhile_eq_drop)
    ultimately show ?thesis unfolding d by (simp add: c Let_def)
  next
    case False
    then have "k = 1" using st cs by (auto simp: s' Let_def split: if_splits)
    with st s show ?thesis by simp
  qed
qed

text \<open>The items from the start of one of them are those of the text from that start.\<close>

lemma norm_loop_suffix:
  assumes "nfkc_spaces f" "y \<in> set (norm_loop f i s)"
  shows "norm_loop f (fst (snd y)) (drop (fst (snd y) - i) s) = filter (\<lambda>x. fst (snd y) \<le> fst (snd x)) (norm_loop f i s)"
  using assms
proof (induction f i s rule: norm_loop.induct)
  case (1 f i s)
  show ?case
  proof (cases "s = []")
    case False
    obtain k cs where st: "norm_step f s = (k, cs)" by (cases "norm_step f s")
    with norm_step_bounds [OF False, of f] have k: "0 < k" "k \<le> length s" by auto
    let ?rest = "norm_loop f (i + k) (drop k s)" and ?st = "fst (snd y)"
    have loop: "norm_loop f i s = map (\<lambda>c. (c, i + k - 1, i + k)) cs @ ?rest"
      using norm_loop_step [OF False, of f i] st by simp
    have later: "i + k \<le> fst (snd x)" if "x \<in> set ?rest" for x
      using norm_loop_items [OF that] by linarith
    show ?thesis
    proof (cases "y \<in> set ?rest")
      case True
      have "drop (?st - (i + k)) (drop k s) = drop (?st - i) s" using later [OF True] by simp
      with "1.IH" [OF False st [symmetric] "1.prems"(1) True] later [OF True] k show ?thesis
        unfolding loop by (auto simp: filter_empty_conv)
    next
      case False
      then have y: "?st = i + k - 1" "cs \<noteq> []" using "1.prems"(2) unfolding loop by auto
      have last: "norm_step f (drop (k - 1) s) = (1, cs) \<and> drop (k - 1) s \<noteq> []"
        by (rule norm_step_last [OF "1.prems"(1) \<open>s \<noteq> []\<close> st y(2)])
      have "norm_loop f ?st (drop (?st - i) s) = norm_loop f i s"
        using norm_loop_step [of "drop (k - 1) s" f "i + k - 1"] last k y(1) unfolding loop by simp
      moreover have "?st \<le> fst (snd x)" if "x \<in> set (norm_loop f i s)" for x
      proof (cases "x \<in> set ?rest")
        case True
        with later [OF True] y(1) show ?thesis by linarith
      next
        case False
        with that y(1) show ?thesis unfolding loop by auto
      qed
      ultimately show ?thesis by (simp add: filter_id_conv)
    qed
  qed (use 1 in \<open>simp\<close>)
qed

lemma norm_loop_shift: "map fst (norm_loop f i s) = map fst (norm_loop f j s)"
proof (induction f i s arbitrary: j rule: norm_loop.induct)
  case (1 f i s)
  show ?case
  proof (cases "s = []")
    case False
    obtain k cs where st: "norm_step f s = (k, cs)" by (cases "norm_step f s")
    have "map fst (norm_loop f (i + k) (drop k s)) = map fst (norm_loop f (j + k) (drop k s))"
      by (rule "1.IH" [OF False st [symmetric]])
    then show ?thesis using st by (simp add: norm_loop_step [OF False] o_def)
  qed simp
qed

lemma slice_exact:
  "i \<le> length s \<Longrightarrow> e \<le> length s \<Longrightarrow> q = slice i e s \<Longrightarrow>
     i + length q \<le> length s \<and> slice i (i + length q) s = q"
  by (cases "i \<le> e") (auto simp: slice_def min_def)

lemma py_contains_append: "py_contains m (a @ m @ b)"
  unfolding py_contains_iff by (rule exI [of _ "length a"]) (simp add: slice_def)

text \<open>The normal form of the text between two items holds everything the items hold.\<close>

lemma norm_loop_between:
  assumes sp: "nfkc_spaces f" and L: "norm_loop f 0 s = A @ M @ B" and M: "M \<noteq> []"
  shows "py_contains (map fst M) (normal_form f (slice (fst (snd (hd M))) (snd (snd (last M))) s))"
proof -
  let ?L = "norm_loop f 0 s" and ?st = "fst (snd (hd M))" and ?en = "snd (snd (last M))"
  let ?P = "\<lambda>x. ?st \<le> fst (snd x)" and ?Q = "\<lambda>x. snd (snd x) \<le> ?en"
  have mem: "hd M \<in> set ?L" "last M \<in> set ?L" using M by (simp_all add: L)
  note item = norm_loop_items [of _ f 0 s]
  have sorted: "sorted (map (\<lambda>y. fst (snd y)) M)" using norm_loop_sorted [of f 0 s] by (simp add: L sorted_append)
  have lo: "?P x" if "x \<in> set M" for x
    using sorted that by (cases M) auto
  have hi: "?Q x" if x: "x \<in> set M" for x
  proof -
    have "sorted (map (\<lambda>y. fst (snd y)) (butlast M @ [last M]))" using sorted M by simp
    moreover have "x \<in> set (butlast M) \<or> x = last M"
      using x M by (metis Un_iff append_butlast_last_id set_append empty_iff list.set(1) set_ConsD)
    ultimately have "fst (snd x) \<le> fst (snd (last M))" by (auto simp: sorted_append)
    moreover have "x \<in> set ?L" using x by (simp add: L)
    ultimately show ?thesis using item mem(2) by auto
  qed
  have suffix: "norm_loop f ?st (drop ?st s) = filter ?P ?L"
    using norm_loop_suffix [OF sp mem(1)] by simp
  have "last M \<in> set (norm_loop f ?st (drop ?st s))"
    unfolding suffix using mem(2) lo [of "last M"] M by simp
  from norm_loop_prefix [OF this]
  have "norm_loop f ?st (slice ?st ?en s) = filter ?Q (filter ?P ?L)"
    by (simp add: slice_def suffix)
  also have "\<dots> = filter ?Q (filter ?P A) @ M @ filter ?Q (filter ?P B)"
    using lo hi by (simp add: L filter_id_conv)
  finally have "normal_form f (slice ?st ?en s)
      = map fst (filter ?Q (filter ?P A)) @ map fst M @ map fst (filter ?Q (filter ?P B))"
    unfolding normal_form_def norm_loop_shift [of f 0 _ ?st] by simp
  then show ?thesis by (simp add: py_contains_append)
qed

lemma find_evidence_facts:
  assumes "find_evidence f txt m = Some (offset, quote)" "nfkc_spaces f"
  shows "offset + length quote \<le> length txt \<and> slice offset (offset + length quote) txt = quote
    \<and> py_contains (normal_form f m) (normal_form f quote)"
proof (cases "py_find m txt")
  case (Some i)
  with assms(1) have "offset = i" "quote = m" by (simp_all add: find_evidence_def)
  with py_find_Some [OF Some] show ?thesis using py_contains_append [of "normal_form f m" "[]" "[]"] by simp
next
  case None
  let ?L = "norm_loop f 0 txt" and ?w = "normal_form f m"
  obtain k where k: "?w \<noteq> []" "py_find ?w (map fst ?L) = Some k" "offset = fst (snd (?L ! k))"
    "quote = slice offset (snd (snd (?L ! (k + length ?w - 1)))) txt"
    using assms(1) None by (auto simp: find_evidence_def Let_def split: if_splits option.splits)
  let ?M = "slice k (k + length ?w) ?L"
  from py_find_Some [OF k(2)] have w: "k + length ?w \<le> length ?L" "map fst ?M = ?w"
    by (simp_all add: slice_def take_map drop_map)
  have lenM: "length ?M = length ?w" using w(1) by (simp add: length_slice)
  have M: "?M \<noteq> []" using w(2) k(1) by auto
  have pos: "0 < length ?w" using k(1) by simp
  have ends: "hd ?M = ?L ! k" "last ?M = ?L ! (k + length ?w - 1)"
  proof -
    have "k + (length ?w - 1) < length ?L" "length ?w - 1 < k + length ?w - k" using w(1) pos by linarith+
    from nth_slice [OF this(2,1)] M lenM pos show "last ?M = ?L ! (k + length ?w - 1)"
      by (simp add: last_conv_nth)
  qed (use nth_slice [of 0 "k + length ?w" k ?L] M pos w(1) in \<open>simp add: hd_conv_nth\<close>)
  have L: "?L = take k ?L @ ?M @ drop (k + length ?w) ?L"
    by (simp add: slice_def add.commute [of k] flip: drop_drop)
  note c = norm_loop_between [OF assms(2) L M]
  have "k + length ?w - 1 < length ?L" using w(1) pos by linarith
  then have inL: "?L ! (k + length ?w - 1) \<in> set ?L" by (rule nth_mem)
  have b: "snd (snd (?L ! (k + length ?w - 1))) \<le> length txt"
    using norm_loop_items [OF inL] by simp
  have q: "quote = slice offset (snd (snd (?L ! (k + length ?w - 1)))) txt" by (rule k(4))
  have "offset \<le> length txt" using norm_loop_items [of "?L ! k" f 0 "txt"] nth_mem [of k ?L] w(1) pos k(3) by auto
  note slice_exact [OF this b q]
  with c show ?thesis using w(2) ends k(3) q by metis
qed

lemma find_evidence_exact:
  "find_evidence f txt m = Some found \<Longrightarrow> nfkc_spaces f \<Longrightarrow>
     fst found + length (snd found) \<le> length txt \<and> slice (fst found) (fst found + length (snd found)) txt = snd found"
  using find_evidence_facts [of f "txt" m "fst found" "snd found"] by simp

section \<open>Properties\<close>

text \<open>C27. The evidence found for a mention is genuine: the quote is exactly the slice of the text at
  the offset, and it mentions what was asked for: its normal form contains that of the mention.\<close>

theorem find_evidence_sound:
  assumes "find_evidence f txt m = Some (offset, quote)" "nfkc_spaces f"
  shows "offset + length quote \<le> length txt \<and> slice offset (offset + length quote) txt = quote
    \<and> py_contains (normal_form f m) (normal_form f quote)"
  using find_evidence_facts [OF assms] .

theorem find_evidence_sound_witness:
  "find_evidence (\<lambda>s. s) (''big da-'' @ [CHR 0x0A] @ ''ta  sets'') ''data sets''
     = Some (4, ''da-'' @ [CHR 0x0A] @ ''ta  sets'')
   \<and> py_contains (normal_form (\<lambda>s. s) ''data sets'') (normal_form (\<lambda>s. s) (''da-'' @ [CHR 0x0A] @ ''ta  sets''))"
proof -
  have sp: "nfkc_spaces (\<lambda>s. s)" by (simp add: nfkc_spaces_def space_text_def)
  have ev: "find_evidence (\<lambda>s. s) (''big da-'' @ [CHR 0x0A] @ ''ta  sets'') ''data sets''
     = Some (4, ''da-'' @ [CHR 0x0A] @ ''ta  sets'')" by code_simp
  show ?thesis using find_evidence_sound [OF ev sp] ev by (intro conjI) (assumption, blast)
qed

end
