(* ===== verification/LlmAnswer.thy ===== *)
theory LlmAnswer
  imports Evidence
begin

text \<open>
  The language-model extractor of \<open>packages/core/.../extraction.py\<close>: reading the answer of an
  OpenAI-compatible server (a JSON body or an event stream), normalising its payload into an
  \<open>Extraction\<close>, fitting chunks into requests of bounded size, and the batch loop with its
  fallbacks. \<open>json.loads\<close> and \<open>JSONDecoder.raw_decode\<close> are the functions of the record
  \<open>json_fns\<close>; the HTTP server is a function of its own state, so that no two calls need to
  answer alike.
\<close>

section \<open>Reading a payload\<close>

record json_fns =
  j_loads :: "string \<Rightarrow> json res"
  j_raw :: "string \<Rightarrow> json res"

definition object_map :: "json \<Rightarrow> jobj" where
  "object_map v = (case v of JObj d \<Rightarrow> d | _ \<Rightarrow> [])"

definition object_list :: "json \<Rightarrow> json list" where
  "object_list v = (case v of JList xs \<Rightarrow> xs | _ \<Rightarrow> [])"

definition string_of :: "json \<Rightarrow> string option" where
  "string_of v = (case v of JStr s \<Rightarrow> if py_strip s \<noteq> [] then Some s else None | _ \<Rightarrow> None)"

text \<open>\<open>float(i)\<close>, which refuses integers beyond the largest binary64 number.\<close>

definition float_of_int :: "int \<Rightarrow> rat res" where
  "float_of_int i = (let x = fl (of_int i) in if 2 ^ 1024 \<le> \<bar>x\<bar> then Inl OverflowError else Inr x)"

definition confidence_of :: "json \<Rightarrow> rat res" where
  "confidence_of v = (case v of
       JInt i \<Rightarrow> bindE (float_of_int i) (\<lambda>x. Inr (max 0 (min 1 x)))
     | JFloat x \<Rightarrow> Inr (max 0 (min 1 x))
     | _ \<Rightarrow> Inr f0_8)"

definition either :: "'a option \<Rightarrow> 'a option \<Rightarrow> 'a option" where
  \<comment> \<open>\<open>a or b\<close>\<close>
  "either a b = (case a of None \<Rightarrow> b | Some _ \<Rightarrow> a)"

definition json_or :: "json \<Rightarrow> json \<Rightarrow> json" where
  "json_or a b = (if truthy a then a else b)"

definition entity_name :: "jobj \<Rightarrow> string option" where
  "entity_name item = either (string_of (jget ''name'' item))
     (either (string_of (jget ''label'' item)) (string_of (jget ''id'' item)))"

definition entity_type_of :: "jobj \<Rightarrow> string" where
  "entity_type_of item = (case string_of (jget ''type'' item) of Some t \<Rightarrow> t | None \<Rightarrow> ''Entity'')"

fun norm_entities :: "json list \<Rightarrow> json list \<Rightarrow> (string \<times> string) list \<Rightarrow> (json list \<times> (string \<times> string) list) res" where
  "norm_entities [] es names = Inr (es, names)"
| "norm_entities (raw # raws) es names =
     (let item = object_map raw in
      case entity_name item of
        None \<Rightarrow> norm_entities raws es names
      | Some name \<Rightarrow> bindE (confidence_of (jget ''confidence'' item)) (\<lambda>c.
          norm_entities raws
            (es @ [JObj [(''name'', JStr name), (''type'', JStr (entity_type_of item)), (''confidence'', JFloat c),
               (''aliases'', JList (filter is_jstr (object_list (jget ''aliases'' item))))]])
            (case string_of (jget ''id'' item) of None \<Rightarrow> names | Some k \<Rightarrow> AList.update k name names)))"

definition json_opt :: "string option \<Rightarrow> json" where
  "json_opt x = (case x of None \<Rightarrow> JNull | Some s \<Rightarrow> JStr s)"

definition renamed :: "(string \<times> string) list \<Rightarrow> string \<Rightarrow> string" where
  \<comment> \<open>\<open>id_to_name.get(k, k)\<close>\<close>
  "renamed names k = (case map_of names k of None \<Rightarrow> k | Some n \<Rightarrow> n)"

fun norm_relations :: "(string \<times> string) list \<Rightarrow> json list \<Rightarrow> json list \<Rightarrow> json list res" where
  "norm_relations names [] rs = Inr rs"
| "norm_relations names (raw # raws) rs =
     (let item = object_map raw in
      case (either (string_of (jget ''source'' item)) (string_of (jget ''from'' item)),
            either (string_of (jget ''target'' item)) (string_of (jget ''to'' item)),
            either (string_of (jget ''type'' item)) (string_of (jget ''relation'' item))) of
        (Some source, Some target, Some type) \<Rightarrow>
          bindE (confidence_of (jget ''confidence'' item)) (\<lambda>c.
            norm_relations names raws
              (rs @ [JObj [(''source'', JStr (renamed names source)), (''target'', JStr (renamed names target)),
                 (''type'', JStr type), (''confidence'', JFloat c),
                 (''source_type'', json_opt (string_of (jget ''source_type'' item))),
                 (''target_type'', json_opt (string_of (jget ''target_type'' item))),
                 (''quote'', json_opt (string_of (jget ''quote'' item)))]]))
      | _ \<Rightarrow> norm_relations names raws rs)"

definition normalize_extraction_payload :: "json \<Rightarrow> json res" where
  "normalize_extraction_payload payload =
     (let top = object_map payload;
          raw_entities = object_list (json_or (jget ''entities'' top) (jget ''nodes'' top));
          raw_relations = object_list (json_or (jget ''relations'' top) (jget ''edges'' top))
      in bindE (norm_entities raw_entities [] []) (\<lambda>(es, names).
         bindE (norm_relations names raw_relations []) (\<lambda>rs.
           Inr (JObj [(''entities'', JList es), (''relations'', JList rs)]))))"

section \<open>\<open>Extraction.model_validate\<close>\<close>

text \<open>The models forbid unknown fields and require confidences in the unit interval. The payloads
  they are given are normalised: texts are strings and confidences floats.\<close>

definition only_keys :: "string list \<Rightarrow> jobj \<Rightarrow> unit res" where
  "only_keys ks d = guardE (list_all (\<lambda>k. k \<in> set ks) (map fst d)) (ValueError ''extra_forbidden'')"

definition need_str :: "string \<Rightarrow> jobj \<Rightarrow> string res" where
  "need_str k d = (case jget k d of JStr s \<Rightarrow> Inr s | _ \<Rightarrow> Inl (ValueError k))"

definition need_opt :: "string \<Rightarrow> jobj \<Rightarrow> string option res" where
  "need_opt k d = (case jget k d of JStr s \<Rightarrow> Inr (Some s) | JNull \<Rightarrow> Inr None | _ \<Rightarrow> Inl (ValueError k))"

definition need_unit :: "string \<Rightarrow> jobj \<Rightarrow> rat res" where
  "need_unit k d = (case jget k d of
       JFloat x \<Rightarrow> if 0 \<le> x \<and> x \<le> 1 then Inr x else Inl (ValueError k)
     | _ \<Rightarrow> Inl (ValueError k))"

fun map_res :: "('a \<Rightarrow> 'b res) \<Rightarrow> 'a list \<Rightarrow> 'b list res" where
  "map_res f [] = Inr []"
| "map_res f (x # xs) = bindE (f x) (\<lambda>y. bindE (map_res f xs) (\<lambda>ys. Inr (y # ys)))"

definition need_list :: "string \<Rightarrow> jobj \<Rightarrow> json list res" where
  "need_list k d = (case jget k d of JList xs \<Rightarrow> Inr xs | _ \<Rightarrow> Inl (ValueError k))"

definition as_str :: "json \<Rightarrow> string res" where
  "as_str v = (case v of JStr s \<Rightarrow> Inr s | _ \<Rightarrow> Inl (ValueError ''string_type''))"

definition validate_entity :: "json \<Rightarrow> xentity res" where
  "validate_entity v = (case v of JObj d \<Rightarrow>
       bindE (only_keys [''name'', ''type'', ''confidence'', ''aliases''] d) (\<lambda>_.
       bindE (need_str ''name'' d) (\<lambda>n. bindE (need_str ''type'' d) (\<lambda>t. bindE (need_unit ''confidence'' d) (\<lambda>c.
       bindE (bindE (need_list ''aliases'' d) (map_res as_str)) (\<lambda>as.
         Inr \<lparr>xe_name = n, xe_type = t, xe_confidence = c, xe_aliases = as\<rparr>)))))
     | _ \<Rightarrow> Inl (ValueError ''model_type''))"

definition validate_relation :: "json \<Rightarrow> xrelation res" where
  "validate_relation v = (case v of JObj d \<Rightarrow>
       bindE (only_keys [''source'', ''target'', ''type'', ''confidence'', ''source_type'', ''target_type'', ''quote''] d) (\<lambda>_.
       bindE (need_str ''source'' d) (\<lambda>a. bindE (need_str ''target'' d) (\<lambda>b. bindE (need_str ''type'' d) (\<lambda>t.
       bindE (need_unit ''confidence'' d) (\<lambda>c. bindE (need_opt ''source_type'' d) (\<lambda>st.
       bindE (need_opt ''target_type'' d) (\<lambda>tt. bindE (need_opt ''quote'' d) (\<lambda>q.
         Inr \<lparr>xr_source = a, xr_target = b, xr_type = t, xr_confidence = c, xr_source_type = st,
              xr_target_type = tt, xr_quote = q\<rparr>))))))))
     | _ \<Rightarrow> Inl (ValueError ''model_type''))"

definition validate_extraction :: "json \<Rightarrow> extraction res" where
  "validate_extraction v = (case v of JObj d \<Rightarrow>
       bindE (only_keys [''entities'', ''relations''] d) (\<lambda>_.
       bindE (bindE (need_list ''entities'' d) (map_res validate_entity)) (\<lambda>es.
       bindE (bindE (need_list ''relations'' d) (map_res validate_relation)) (\<lambda>rs.
         Inr \<lparr>ex_entities = es, ex_relations = rs\<rparr>)))
     | _ \<Rightarrow> Inl (ValueError ''model_type''))"

section \<open>Reading an answer\<close>

text \<open>\<open>```json ... ```\<close> fences are removed; failing that, the outermost braces are tried. The text
  is already stripped, so that \<open>$\<close> in \<open>\s*```$\<close> can only match at its end.\<close>

definition fence :: string where "fence = replicate 3 (CHR 0x60)"

definition strip_fences :: "string \<Rightarrow> string" where
  "strip_fences s =
     (if starts_with fence s then
        (let body = drop 3 s;
             body = (if starts_with ''json'' (py_lower (take 4 body)) then drop 4 body else body);
             body = py_lstrip body
         in if ends_with fence body then py_rstrip (take (length body - 3) body) else body)
      else s)"

definition load_json_object :: "json_fns \<Rightarrow> string \<Rightarrow> json res" where
  "load_json_object j content =
     (let stripped = strip_fences (py_strip content) in
      case j_loads j stripped of
        Inl JSONDecodeError \<Rightarrow>
          (case (py_find ''{'' stripped, py_rfind ''}'' stripped 0 (length stripped)) of
             (Some start, stop) \<Rightarrow>
               if stop \<le> int start then Inl JSONDecodeError
               else j_loads j (slice start (nat stop + 1) stripped)
           | _ \<Rightarrow> Inl JSONDecodeError)
      | r \<Rightarrow> r)"

definition is_empty_extraction :: "extraction \<Rightarrow> bool" where
  "is_empty_extraction x \<longleftrightarrow> ex_entities x = [] \<and> ex_relations x = []"

text \<open>\<open>except (KeyError, TypeError, ValueError, json.JSONDecodeError)\<close>\<close>

definition value_error :: "err \<Rightarrow> bool" where
  "value_error e = (case e of ValueError _ \<Rightarrow> True | JSONDecodeError \<Rightarrow> True | _ \<Rightarrow> False)"

definition caught :: "err \<Rightarrow> bool" where
  "caught e = (case e of KeyError \<Rightarrow> True | TypeError \<Rightarrow> True | _ \<Rightarrow> value_error e)"

definition parse_extraction_content :: "unicode \<Rightarrow> json_fns \<Rightarrow> string \<Rightarrow> string \<Rightarrow> extraction res" where
  "parse_extraction_content u j content source =
     (let det = deterministic_extract u source in
      case bindE (bindE (load_json_object j content) normalize_extraction_payload) validate_extraction of
        Inl e \<Rightarrow> if value_error e then Inr det else Inl e
      | Inr x \<Rightarrow> if is_empty_extraction x \<and> \<not> is_empty_extraction det then Inr det else Inr x)"

section \<open>The envelope of the answer\<close>

text \<open>\<open>v[k]\<close> and \<open>v[0]\<close>\<close>

definition sub_key :: "string \<Rightarrow> json \<Rightarrow> json res" where
  "sub_key k v = (case v of
       JObj d \<Rightarrow> (case map_of d k of Some x \<Rightarrow> Inr x | None \<Rightarrow> Inl KeyError)
     | _ \<Rightarrow> Inl TypeError)"

definition sub_first :: "json \<Rightarrow> json res" where
  "sub_first v = (case v of
       JList (x # _) \<Rightarrow> Inr x
     | JList [] \<Rightarrow> Inl IndexError
     | JStr (c # _) \<Rightarrow> Inr (JStr [c])
     | JStr [] \<Rightarrow> Inl IndexError
     | JObj _ \<Rightarrow> Inl KeyError
     | _ \<Rightarrow> Inl TypeError)"

definition load_openai_response :: "json_fns \<Rightarrow> string \<Rightarrow> json res" where
  "load_openai_response j body =
     bindE (case j_loads j body of Inl JSONDecodeError \<Rightarrow> j_raw j body | r \<Rightarrow> r)
       (\<lambda>payload. if is_jobj payload then Inr payload else Inl (ValueError ''not a JSON object''))"

text \<open>\<open>str.splitlines()\<close> on the first 256 code points.\<close>

definition line_break :: "char \<Rightarrow> bool" where
  "line_break c = (let n = ord_of c in (10 \<le> n \<and> n \<le> 13) \<or> (28 \<le> n \<and> n \<le> 30) \<or> n = 133)"

fun splitlines_from :: "string \<Rightarrow> string \<Rightarrow> string list" where
  "splitlines_from acc [] = (if acc = [] then [] else [rev acc])"
| "splitlines_from acc [c] = (if line_break c then [rev acc] else [rev (c # acc)])"
| "splitlines_from acc (c # d # cs) =
     (if ord_of c = 13 \<and> ord_of d = 10 then rev acc # splitlines_from [] cs
      else if line_break c then rev acc # splitlines_from [] (d # cs)
      else splitlines_from (c # acc) (d # cs))"

record sse =
  ss_parts :: "string list"
  ss_event :: "string list"
  ss_received :: bool
  ss_done :: bool

text \<open>\<open>delta.get("content", message.get("content"))\<close>\<close>

definition choice_content :: "jobj \<Rightarrow> json" where
  "choice_content c =
     (let delta = object_map (jget ''delta'' c); message = object_map (jget ''message'' c) in
      case map_of delta ''content'' of Some v \<Rightarrow> v | None \<Rightarrow> jget ''content'' message)"

fun sse_choices :: "json list \<Rightarrow> sse \<Rightarrow> sse res" where
  "sse_choices [] st = Inr st"
| "sse_choices (choice # cs) st =
     (let c = object_map choice;
          st = (if jget ''finish_reason'' c = JStr ''stop'' then st\<lparr>ss_done := True\<rparr> else st)
      in case choice_content c of
           JNull \<Rightarrow> sse_choices cs st
         | JStr t \<Rightarrow> sse_choices cs (st\<lparr>ss_parts := ss_parts st @ [t]\<rparr>)
         | _ \<Rightarrow> Inl (ValueError ''SSE content is not a string''))"

definition consume_event :: "json_fns \<Rightarrow> sse \<Rightarrow> sse res" where
  "consume_event j st =
     (if ss_event st = [] then Inr st
      else let raw = py_join [CHR 0x0A] (ss_event st); st = st\<lparr>ss_event := [], ss_received := True\<rparr> in
        if raw = ''[DONE]'' then Inr (st\<lparr>ss_done := True\<rparr>)
        else bindE (j_loads j raw) (\<lambda>v. sse_choices (object_list (jget ''choices'' (object_map v))) st))"

fun sse_lines :: "json_fns \<Rightarrow> string list \<Rightarrow> sse \<Rightarrow> sse res" where
  "sse_lines j [] st = consume_event j st"
| "sse_lines j (line # ls) st =
     (if line = [] then bindE (consume_event j st) (sse_lines j ls)
      else if starts_with ''data:'' line then
        sse_lines j ls (st\<lparr>ss_event := ss_event st @ [dropWhile (\<lambda>c. c = CHR '' '') (drop 5 line)]\<rparr>)
      else if \<not> list_ex (\<lambda>p. starts_with p line) [''event:'', ''id:'', ''retry:'', '':''] then
        Inl (ValueError ''not valid SSE'')
      else sse_lines j ls st)"

definition load_openai_sse_content :: "json_fns \<Rightarrow> string \<Rightarrow> string res" where
  "load_openai_sse_content j body =
     bindE (sse_lines j (splitlines_from [] body)
              \<lparr>ss_parts = [], ss_event = [], ss_received = False, ss_done = False\<rparr>)
       (\<lambda>st. if \<not> ss_received st \<or> \<not> ss_done st \<or> ss_parts st = []
             then Inl (ValueError ''SSE response contains no content'')
             else Inr (concat (ss_parts st)))"

definition load_openai_content :: "json_fns \<Rightarrow> string \<Rightarrow> string res" where
  "load_openai_content j body =
     (case bindE (load_openai_response j body) (\<lambda>payload.
             bindE (bindE (bindE (bindE (sub_key ''choices'' payload) sub_first) (sub_key ''message''))
               (sub_key ''content''))
             (\<lambda>c. case c of JStr s \<Rightarrow> Inr s | _ \<Rightarrow> Inl (ValueError ''content is not a string''))) of
        Inl JSONDecodeError \<Rightarrow> load_openai_sse_content j body
      | r \<Rightarrow> r)"

section \<open>What a normalised payload is\<close>

text \<open>\<open>okE P m\<close>: \<open>m\<close> raises only exceptions in \<open>P\<close>.\<close>

definition okE :: "(err \<Rightarrow> bool) \<Rightarrow> 'a res \<Rightarrow> bool" where
  "okE P m \<longleftrightarrow> (\<forall>e. m = Inl e \<longrightarrow> P e)"

lemma okE_simps [simp]: "okE P (Inr x)" "okE P (Inl e) \<longleftrightarrow> P e" "okE P (guardE b e) \<longleftrightarrow> b \<or> P e"
  by (auto simp: okE_def guardE_def)

lemma okE_bind [intro]: "okE P m \<Longrightarrow> (\<And>x. m = Inr x \<Longrightarrow> okE P (f x)) \<Longrightarrow> okE P (bindE m f)"
  by (cases m) (auto simp: okE_def)

lemma okE_mono: "okE P m \<Longrightarrow> (\<And>e. P e \<Longrightarrow> Q e) \<Longrightarrow> okE Q m"
  by (auto simp: okE_def)

definition overflow :: "err \<Rightarrow> bool" where "overflow e \<longleftrightarrow> e = OverflowError"

lemma confidence_ok: "okE overflow (confidence_of v)"
  by (auto simp: confidence_of_def float_of_int_def overflow_def Let_def okE_def bindE_Inl_iff split: json.splits if_splits)

lemma confidence_unit: "confidence_of v = Inr c \<Longrightarrow> unit_interval c"
  by (auto simp: confidence_of_def unit_interval_def bindE_Inr_iff f_lits_unit split: json.splits)

lemma norm_entities_ok: "okE overflow (norm_entities raws es names)"
  by (induction raws es names rule: norm_entities.induct)
     (auto simp: Let_def confidence_ok split: option.split)

lemma norm_relations_ok: "okE overflow (norm_relations names raws rs)"
  by (induction names raws rs rule: norm_relations.induct)
     (auto simp: Let_def confidence_ok split: option.split)

lemma payload_ok: "okE overflow (normalize_extraction_payload v)"
  unfolding normalize_extraction_payload_def Let_def
  by (intro okE_bind norm_entities_ok) (auto simp: norm_relations_ok split: prod.split)

text \<open>An entity and a relation as the normalisation writes them.\<close>

definition shown :: "string \<Rightarrow> bool" where "shown s \<longleftrightarrow> py_strip s \<noteq> []"

definition good_entity :: "json \<Rightarrow> bool" where
  "good_entity v \<longleftrightarrow> (\<exists>n t c as. v = JObj [(''name'', JStr n), (''type'', JStr t), (''confidence'', JFloat c),
     (''aliases'', JList as)] \<and> shown n \<and> shown t \<and> unit_interval c \<and> list_all is_jstr as)"

definition good_relation :: "json \<Rightarrow> bool" where
  "good_relation v \<longleftrightarrow> (\<exists>a b t c st tt q. v = JObj [(''source'', JStr a), (''target'', JStr b), (''type'', JStr t),
     (''confidence'', JFloat c), (''source_type'', json_opt st), (''target_type'', json_opt tt), (''quote'', json_opt q)]
     \<and> shown a \<and> shown b \<and> shown t \<and> unit_interval c)"

lemma string_of_shown: "string_of v = Some s \<Longrightarrow> shown s"
  by (auto simp: string_of_def shown_def split: json.splits if_splits)

lemma either_Some: "either a b = Some x \<Longrightarrow> a = Some x \<or> b = Some x"
  by (auto simp: either_def split: option.splits)

lemma entity_name_shown: "entity_name item = Some s \<Longrightarrow> shown s"
  unfolding entity_name_def by (blast dest: either_Some string_of_shown)

lemma entity_type_shown: "shown (entity_type_of item)"
  using string_of_shown [of "jget ''type'' item"]
  by (auto simp: entity_type_of_def shown_def py_strip_Nil_iff py_isspace_def ord_of_def split: option.split)

lemma norm_entities_good:
  "norm_entities raws es names = Inr (es', names') \<Longrightarrow> list_all good_entity es \<Longrightarrow> \<forall>n\<in>ran (map_of names). shown n \<Longrightarrow>
     list_all good_entity es' \<and> (\<forall>n\<in>ran (map_of names'). shown n)"
proof (induction raws arbitrary: es names)
  case (Cons raw raws)
  let ?item = "object_map raw"
  show ?case
  proof (cases "entity_name ?item")
    case None
    with Cons show ?thesis by (simp add: Let_def)
  next
    case (Some n)
    note shown = entity_name_shown [OF Some] entity_type_shown [of ?item]
    obtain c where c: "confidence_of (jget ''confidence'' ?item) = Inr c"
      using Cons.prems(1) Some by (auto simp: Let_def bindE_Inr_iff)
    let ?names = "case string_of (jget ''id'' ?item) of None \<Rightarrow> names | Some k \<Rightarrow> AList.update k n names"
    let ?as = "filter is_jstr (object_list (jget ''aliases'' ?item))"
    let ?new = "JObj [(''name'', JStr n), (''type'', JStr (entity_type_of ?item)), (''confidence'', JFloat c), (''aliases'', JList ?as)]"
    have "norm_entities raws (es @ [?new]) ?names = Inr (es', names')"
      using Cons.prems(1) Some c by (simp add: Let_def)
    moreover have "\<forall>n\<in>ran (map_of ?names). shown n"
      using Cons.prems(3) shown(1) by (auto simp: ran_def split: option.split if_splits)
    moreover have "list_all is_jstr ?as" by (simp add: list_all_iff)
    then have "good_entity ?new" unfolding good_entity_def using shown confidence_unit [OF c] by blast
    ultimately show ?thesis using Cons.IH [of "es @ [?new]" ?names] Cons.prems(2) by simp
  qed
qed auto

lemma norm_relations_good:
  "norm_relations names raws rs = Inr rs' \<Longrightarrow> list_all good_relation rs \<Longrightarrow> \<forall>n\<in>ran (map_of names). shown n \<Longrightarrow>
     list_all good_relation rs'"
proof (induction raws arbitrary: rs)
  case (Cons raw raws)
  let ?item = "object_map raw"
  let ?s = "either (string_of (jget ''source'' ?item)) (string_of (jget ''from'' ?item))"
  let ?t = "either (string_of (jget ''target'' ?item)) (string_of (jget ''to'' ?item))"
  let ?k = "either (string_of (jget ''type'' ?item)) (string_of (jget ''relation'' ?item))"
  show ?case
  proof (cases "?s = None \<or> ?t = None \<or> ?k = None")
    case True
    then have "norm_relations names (raw # raws) rs = norm_relations names raws rs"
      by (simp only: norm_relations.simps Let_def split: prod.split option.split) auto
    with Cons show ?thesis by simp
  next
    case False
    then obtain s t k where stk: "?s = Some s" "?t = Some t" "?k = Some k" by auto
    then have shown: "shown s" "shown t" "shown k" by (blast dest: either_Some string_of_shown)+
    have "shown (renamed names x)" if "shown x" for x
      using Cons.prems(3) that by (auto simp: renamed_def ran_def split: option.split)
    with shown have named: "shown (renamed names s)" "shown (renamed names t)" by auto
    obtain c where c: "confidence_of (jget ''confidence'' ?item) = Inr c"
      using Cons.prems(1) stk by (auto simp: Let_def bindE_Inr_iff)
    let ?new = "JObj [(''source'', JStr (renamed names s)), (''target'', JStr (renamed names t)), (''type'', JStr k),
        (''confidence'', JFloat c), (''source_type'', json_opt (string_of (jget ''source_type'' ?item))),
        (''target_type'', json_opt (string_of (jget ''target_type'' ?item))),
        (''quote'', json_opt (string_of (jget ''quote'' ?item)))]"
    have "norm_relations names raws (rs @ [?new]) = Inr rs'"
      using Cons.prems(1) stk c by (simp add: Let_def)
    moreover have "good_relation ?new"
      unfolding good_relation_def using named shown(3) confidence_unit [OF c] by blast
    ultimately show ?thesis
      using Cons.IH [of "rs @ [?new]"] Cons.prems(2,3) by simp
  qed
qed auto

lemma map_res_all:
  "(\<And>x. P x \<Longrightarrow> \<exists>y. f x = Inr y \<and> Q y) \<Longrightarrow> list_all P xs \<Longrightarrow> \<exists>ys. map_res f xs = Inr ys \<and> list_all Q ys"
  by (induction xs) fastforce+

definition entity_ok :: "xentity \<Rightarrow> bool" where
  "entity_ok e \<longleftrightarrow> shown (xe_name e) \<and> shown (xe_type e) \<and> unit_interval (xe_confidence e)"

definition relation_ok :: "xrelation \<Rightarrow> bool" where
  "relation_ok r \<longleftrightarrow> shown (xr_source r) \<and> shown (xr_target r) \<and> shown (xr_type r) \<and> unit_interval (xr_confidence r)"

lemma good_entity_validates: "good_entity v \<Longrightarrow> \<exists>e. validate_entity v = Inr e \<and> entity_ok e"
proof -
  assume "good_entity v"
  then obtain n t c as where v: "v = JObj [(''name'', JStr n), (''type'', JStr t), (''confidence'', JFloat c), (''aliases'', JList as)]"
    "shown n" "shown t" "unit_interval c" "list_all is_jstr as" by (auto simp: good_entity_def)
  have "\<exists>y. as_str x = Inr y \<and> True" if "is_jstr x" for x using that by (cases x) (auto simp: as_str_def)
  from map_res_all [of is_jstr as_str "\<lambda>_. True", OF this v(5)] obtain ys where "map_res as_str as = Inr ys" by blast
  with v show ?thesis
    by (simp add: validate_entity_def only_keys_def need_str_def need_unit_def need_list_def jget_def unit_interval_def entity_ok_def)
qed

lemma need_json_opt: "jget k d = json_opt x \<Longrightarrow> need_opt k d = Inr x"
  by (cases x) (simp_all add: need_opt_def json_opt_def)

lemma good_relation_validates: "good_relation v \<Longrightarrow> \<exists>r. validate_relation v = Inr r \<and> relation_ok r"
proof -
  assume "good_relation v"
  then obtain a b t c st tt q where v: "v = JObj [(''source'', JStr a), (''target'', JStr b), (''type'', JStr t),
     (''confidence'', JFloat c), (''source_type'', json_opt st), (''target_type'', json_opt tt), (''quote'', json_opt q)]"
    "shown a" "shown b" "shown t" "unit_interval c" by (auto simp: good_relation_def)
  let ?d = "[(''source'', JStr a), (''target'', JStr b), (''type'', JStr t), (''confidence'', JFloat c),
     (''source_type'', json_opt st), (''target_type'', json_opt tt), (''quote'', json_opt q)]"
  have "need_opt ''source_type'' ?d = Inr st" "need_opt ''target_type'' ?d = Inr tt" "need_opt ''quote'' ?d = Inr q"
    by (rule need_json_opt, simp add: jget_def)+
  with v show ?thesis
    by (simp add: validate_relation_def only_keys_def need_str_def need_unit_def jget_def unit_interval_def relation_ok_def)
qed

text \<open>C40. Whatever the language model answers, its normalised payload is a well-formed extraction: it
  passes the validation, every entity has a visible name and type, every relation visible endpoints
  and type, every confidence lies in the unit interval. The only exception on the way is the
  overflow of an integer confidence.\<close>

theorem normalized_payload_valid:
  "case normalize_extraction_payload v of
     Inr p \<Rightarrow> \<exists>x. validate_extraction p = Inr x \<and> list_all entity_ok (ex_entities x) \<and> list_all relation_ok (ex_relations x)
   | Inl e \<Rightarrow> e = OverflowError"
proof (cases "normalize_extraction_payload v")
  case (Inl e)
  with payload_ok [of v] show ?thesis by (simp add: okE_def overflow_def)
next
  case (Inr p)
  then obtain es names rs where n: "norm_entities (object_list (json_or (jget ''entities'' (object_map v)) (jget ''nodes'' (object_map v)))) [] []
      = Inr (es, names)" "norm_relations names (object_list (json_or (jget ''relations'' (object_map v)) (jget ''edges'' (object_map v)))) [] = Inr rs"
    "p = JObj [(''entities'', JList es), (''relations'', JList rs)]"
    by (auto simp: normalize_extraction_payload_def Let_def bindE_Inr_iff)
  have es: "list_all good_entity es" "\<forall>n\<in>ran (map_of names). shown n"
    using norm_entities_good [OF n(1)] by auto
  have "list_all good_relation rs" using norm_relations_good [OF n(2) _ es(2)] by simp
  with map_res_all [of good_entity validate_entity entity_ok, OF good_entity_validates es(1)] map_res_all [of good_relation validate_relation relation_ok rs, OF good_relation_validates]
  obtain xs ys where "map_res validate_entity es = Inr xs" "list_all entity_ok xs"
    "map_res validate_relation rs = Inr ys" "list_all relation_ok ys" by blast
  with Inr n(3) show ?thesis by (simp add: validate_extraction_def only_keys_def need_list_def jget_def)
qed

end
