(* ===== verification/BatchExtract.thy ===== *)
theory BatchExtract
  imports LlmAnswer "HOL-Library.Multiset"
begin

text \<open>
  The request side of the language-model extractor: the context of a chunk, the payload of a batch,
  how a batch is cut down to the character limit, what is accepted as its answer, and the loop that
  sends the batches and falls back to single chunks and to the rule-based extractor
  (\<open>_fit_batch_contexts\<close>, \<open>_parse_batch_content\<close>, \<open>OpenAICompatibleExtractor.extract_batch\<close>).
\<close>

section \<open>Contexts and the payload of a batch\<close>

record chunk_ref =
  cr_id :: string
  cr_index :: int
  cr_text :: string

record chunk_context =
  cx_title :: string
  cx_path :: "string list"
  cx_page :: "int option"
  cx_index :: int
  cx_count :: int
  cx_previous :: string
  cx_target :: string
  cx_next :: string
  cx_refs :: "chunk_ref list"
  cx_chunk :: string

record batch_result =
  br_chunk :: string
  br_extraction :: extraction

definition context_chunk_id :: "chunk_context \<Rightarrow> string" where
  "context_chunk_id c = (if cx_chunk c \<noteq> [] then cx_chunk c else ''chunk-'' @ int_str (cx_index c))"

definition ref_key :: "chunk_ref \<Rightarrow> int \<times> string" where
  "ref_key r = (cr_index r, cr_id r)"

definition batch_payload :: "chunk_context list \<Rightarrow> json" where
  "batch_payload cs =
     (let references = fold (\<lambda>r d. AList.update (cr_id r) r d) (concat (map cx_refs cs)) [] in
      JObj [(''previous_chunks_reference_only'',
               JList (map (\<lambda>r. JObj [(''chunk_id'', JStr (cr_id r)), (''text'', JStr (cr_text r))])
                 (order_by ref_key (map snd references)))),
            (''targets'', JList (map (\<lambda>c. JObj
               [(''chunk_id'', JStr (context_chunk_id c)), (''document'', JStr (cx_title c)),
                (''section'', JList (map JStr (cx_path c))),
                (''page'', case cx_page c of None \<Rightarrow> JNull | Some p \<Rightarrow> JInt p),
                (''chunk'', JStr (int_str (cx_index c + 1) @ ''/'' @ int_str (cx_count c))),
                (''target_chunk_only_factual_source'', JStr (cx_target c))]) cs))])"

text \<open>\<open>json.dumps(v, separators=(",", ":"), ensure_ascii=False)\<close> with the escapes \<open>json_char\<close>; \<open>fr\<close> is
  the \<open>repr\<close> of a float.\<close>

definition json_char :: "char \<Rightarrow> string" where
  "json_char c = (let n = ord_of c in
     if n = 34 then [CHR 0x5C, CHR 0x22] else if n = 92 then [CHR 0x5C, CHR 0x5C]
     else if n = 10 then CHR 0x5C # ''n'' else if n = 13 then CHR 0x5C # ''r'' else if n = 9 then CHR 0x5C # ''t''
     else if n = 12 then CHR 0x5C # ''f'' else if n = 8 then CHR 0x5C # ''b''
     else if n < 32 then CHR 0x5C # ''u'' @ hex_pad 4 n else [c])"

definition json_quote :: "(char \<Rightarrow> string) \<Rightarrow> string \<Rightarrow> string" where
  "json_quote esc s = [CHR 0x22] @ concat (map esc s) @ [CHR 0x22]"

fun json_dumps :: "(char \<Rightarrow> string) \<Rightarrow> (rat \<Rightarrow> string) \<Rightarrow> json \<Rightarrow> string" where
  "json_dumps esc fr JNull = ''null''"
| "json_dumps esc fr (JBool b) = (if b then ''true'' else ''false'')"
| "json_dumps esc fr (JInt i) = int_str i"
| "json_dumps esc fr (JFloat x) = fr x"
| "json_dumps esc fr (JStr s) = json_quote esc s"
| "json_dumps esc fr (JList xs) = ''['' @ py_join '','' (map (json_dumps esc fr) xs) @ '']''"
| "json_dumps esc fr (JObj kvs) =
     ''{'' @ py_join '','' (map (\<lambda>kv. json_quote esc (fst kv) @ '':'' @ json_dumps esc fr (snd kv)) kvs) @ ''}''"

text \<open>The payload holds no floats.\<close>

definition payload_chars :: "chunk_context list \<Rightarrow> nat" where
  "payload_chars cs = length (json_dumps json_char (\<lambda>_. []) (batch_payload cs))"

section \<open>Fitting a batch\<close>

definition ref_count :: "chunk_context list \<Rightarrow> nat" where
  "ref_count cs = length (concat (map cx_refs cs))"

definition drop_ref :: "string \<Rightarrow> chunk_context \<Rightarrow> chunk_context" where
  "drop_ref k c = c\<lparr>cx_refs := filter (\<lambda>r. cr_id r \<noteq> k) (cx_refs c)\<rparr>"

text \<open>\<open>min(references, key=...)\<close>: the first least one.\<close>

definition oldest_ref :: "chunk_ref list \<Rightarrow> chunk_ref" where
  "oldest_ref rs = hd (order_by ref_key rs)"

lemma oldest_ref_in: "rs \<noteq> [] \<Longrightarrow> oldest_ref rs \<in> set rs"
  unfolding oldest_ref_def by (metis hd_in_set length_0_conv length_order_by set_order_by)

lemma drop_ref_count:
  assumes "r \<in> set (concat (map cx_refs cs))"
  shows "ref_count (map (drop_ref (cr_id r)) cs) < ref_count cs"
proof -
  have "concat (map cx_refs (map (drop_ref k) cs)) = filter (\<lambda>r. cr_id r \<noteq> k) (concat (map cx_refs cs))" for k
    by (induction cs) (simp_all add: drop_ref_def)
  then show ?thesis
    using assms length_filter_less [of r "concat (map cx_refs cs)" "\<lambda>x. cr_id x \<noteq> cr_id r"]
    by (simp add: ref_count_def)
qed

lemma ref_count_butlast: "concat (map cx_refs cs) = [] \<Longrightarrow> ref_count (butlast cs) = ref_count cs"
proof -
  assume none: "concat (map cx_refs cs) = []"
  then have "concat (map cx_refs (butlast cs)) = []" by (auto dest: in_set_butlastD)
  with none show ?thesis unfolding ref_count_def by (simp only:)
qed

function fit_batch_contexts :: "nat \<Rightarrow> chunk_context list \<Rightarrow> chunk_context list res" where
  "fit_batch_contexts maxc selected =
     (if payload_chars selected \<le> maxc then Inr selected
      else let references = concat (map cx_refs selected) in
        if references = [] then
          (if length selected = 1 then Inr selected
           else if selected = [] then Inl IndexError
           else fit_batch_contexts maxc (butlast selected))
        else fit_batch_contexts maxc (map (drop_ref (cr_id (oldest_ref references))) selected))"
  by pat_completeness auto
termination
proof (relation "measures [\<lambda>(maxc, cs). ref_count cs, \<lambda>(maxc, cs). length cs]")
  fix maxc :: nat and selected :: "chunk_context list" and references
  assume r: "references = concat (map cx_refs selected)"
  show "((maxc, butlast selected), maxc, selected) \<in> measures [\<lambda>(maxc, cs). ref_count cs, \<lambda>(maxc, cs). length cs]"
    if "references = []" "selected \<noteq> []"
    using that r ref_count_butlast by simp
  show "((maxc, map (drop_ref (cr_id (oldest_ref references))) selected), maxc, selected)
      \<in> measures [\<lambda>(maxc, cs). ref_count cs, \<lambda>(maxc, cs). length cs]" if "references \<noteq> []"
    using drop_ref_count oldest_ref_in [OF that] r by simp
qed simp

declare fit_batch_contexts.simps [simp del]

section \<open>The answer to a batch\<close>

definition extraction_of :: "json \<Rightarrow> extraction res" where
  "extraction_of v = bindE (normalize_extraction_payload v) validate_extraction"

fun parse_items :: "string list \<Rightarrow> json list \<Rightarrow> batch_result list \<Rightarrow> batch_result list res" where
  "parse_items requested [] parsed = Inr parsed"
| "parse_items requested (raw # raws) parsed =
     (let item = object_map raw in
      case string_of (jget ''chunk_id'' item) of
        None \<Rightarrow> Inl (ValueError ''invalid chunk IDs'')
      | Some k \<Rightarrow>
          if k \<notin> set requested \<or> k \<in> set (map br_chunk parsed) then Inl (ValueError ''invalid chunk IDs'')
          else bindE (extraction_of (JObj item)) (\<lambda>x.
            parse_items requested raws (parsed @ [\<lparr>br_chunk = k, br_extraction = x\<rparr>])))"

definition parse_batch_content :: "json_fns \<Rightarrow> string \<Rightarrow> chunk_context list \<Rightarrow> batch_result list res" where
  "parse_batch_content j content cs =
     bindE (load_json_object j content) (\<lambda>v.
       let payload = object_map v in
       if length cs = 1 \<and> \<not> has_key ''results'' payload then
         bindE (extraction_of (JObj payload)) (\<lambda>x. Inr [\<lparr>br_chunk = context_chunk_id (hd cs), br_extraction = x\<rparr>])
       else let requested = map context_chunk_id cs in
         bindE (parse_items requested (object_list (jget ''results'' payload)) []) (\<lambda>parsed.
           if set (map br_chunk parsed) \<noteq> set requested then Inl (ValueError ''missing target chunk'')
           else Inr parsed))"

section \<open>The loop\<close>

definition fallback_result :: "unicode \<Rightarrow> chunk_context \<Rightarrow> batch_result" where
  "fallback_result u c = \<lparr>br_chunk = context_chunk_id c, br_extraction = deterministic_extract u (cx_target c)\<rparr>"

text \<open>The equations of \<open>fit_batch_contexts\<close>, one per branch.\<close>

lemma fit_branches:
  "payload_chars cs \<le> maxc \<or> (concat (map cx_refs cs) = [] \<and> length cs = 1) \<Longrightarrow> fit_batch_contexts maxc cs = Inr cs"
  "\<not> payload_chars cs \<le> maxc \<Longrightarrow> concat (map cx_refs cs) = [] \<Longrightarrow> length cs \<noteq> 1 \<Longrightarrow> cs \<noteq> [] \<Longrightarrow>
     fit_batch_contexts maxc cs = fit_batch_contexts maxc (butlast cs)"
  "\<not> payload_chars cs \<le> maxc \<Longrightarrow> concat (map cx_refs cs) \<noteq> [] \<Longrightarrow> fit_batch_contexts maxc cs
     = fit_batch_contexts maxc (map (drop_ref (cr_id (oldest_ref (concat (map cx_refs cs))))) cs)"
  using fit_batch_contexts.simps [of maxc cs] by (simp_all only: Let_def if_True if_False simp_thms split: if_split) blast+

definition bare :: "chunk_context \<Rightarrow> chunk_context" where
  "bare c = c\<lparr>cx_refs := []\<rparr>"

lemma fit_spec:
  "fit_batch_contexts maxc cs = Inr r \<Longrightarrow> cs \<noteq> [] \<Longrightarrow>
     r \<noteq> [] \<and> length r \<le> length cs \<and> map bare r = take (length r) (map bare cs)
     \<and> (\<forall>i<length r. set (cx_refs (r ! i)) \<subseteq> set (cx_refs (cs ! i)))
     \<and> (payload_chars r \<le> maxc \<or> (length r = 1 \<and> ref_count r = 0))"
proof (induction maxc cs rule: fit_batch_contexts.induct)
  case (1 maxc cs)
  let ?refs = "concat (map cx_refs cs)"
  consider (fits) "payload_chars cs \<le> maxc \<or> (?refs = [] \<and> length cs = 1)"
    | (shorter) "\<not> payload_chars cs \<le> maxc" "?refs = []" "length cs \<noteq> 1"
    | (drops) "\<not> payload_chars cs \<le> maxc" "?refs \<noteq> []" by blast
  then show ?case
  proof cases
    case fits
    then have "r = cs" using "1.prems"(1) fit_branches(1) by simp
    with fits "1.prems"(2) show ?thesis by (auto simp: ref_count_def)
  next
    case shorter
    have b: "butlast cs \<noteq> []" using shorter(3) "1.prems"(2) by (cases cs) auto
    have f: "fit_batch_contexts maxc (butlast cs) = Inr r"
      using fit_branches(2) [OF shorter "1.prems"(2)] "1.prems"(1) by simp
    from "1.IH"(1) [OF shorter(1) refl shorter(2,3) "1.prems"(2) f b]
    have "r \<noteq> []" "length r \<le> length (butlast cs)" "map bare r = take (length r) (map bare (butlast cs))"
      "\<forall>i<length r. set (cx_refs (r ! i)) \<subseteq> set (cx_refs (butlast cs ! i))"
      "payload_chars r \<le> maxc \<or> (length r = 1 \<and> ref_count r = 0)" by blast+
    moreover have "length (butlast cs) < length cs" using "1.prems"(2) by simp
    ultimately show ?thesis by (auto simp: map_butlast take_butlast nth_butlast)
  next
    case drops
    let ?d = "drop_ref (cr_id (oldest_ref ?refs))"
    have f: "fit_batch_contexts maxc (map ?d cs) = Inr r"
      using fit_branches(3) [OF drops] "1.prems"(1) by simp
    have bare: "map bare (map ?d cs) = map bare cs" by (simp add: bare_def drop_ref_def)
    have "map ?d cs \<noteq> []" using "1.prems"(2) by simp
    note ih = "1.IH"(2) [OF drops(1) refl drops(2) f this, unfolded bare]
    have "set (cx_refs (r ! i)) \<subseteq> set (cx_refs (cs ! i))" if i: "i < length r" for i
    proof -
      have "i < length cs" using ih i by simp
      then have "set (cx_refs (map ?d cs ! i)) \<subseteq> set (cx_refs (cs ! i))" by (simp add: drop_ref_def)
      with ih i show ?thesis by blast
    qed
    with ih show ?thesis by simp
  qed
qed

section \<open>The batch loop\<close>

text \<open>Sequencing of calls that may raise and that change the server's state.\<close>

definition bindS :: "('a res \<times> 's) \<Rightarrow> ('a \<Rightarrow> 's \<Rightarrow> 'b res \<times> 's) \<Rightarrow> 'b res \<times> 's" where
  "bindS m f = (case m of (Inl e, s) \<Rightarrow> (Inl e, s) | (Inr x, s) \<Rightarrow> f x s)"

lemma bindS_cong [fundef_cong]:
  "m = m' \<Longrightarrow> (\<And>x s. m' = (Inr x, s) \<Longrightarrow> f x s = f' x s) \<Longrightarrow> bindS m f = bindS m' f'"
  by (auto simp: bindS_def split: prod.split sum.split)

lemma bindS_Inr: "bindS m f = (Inr y, t) \<longleftrightarrow> (\<exists>x s. m = (Inr x, s) \<and> f x s = (Inr y, t))"
  by (auto simp: bindS_def split: prod.splits sum.splits)

definition answer_of :: "json_fns \<Rightarrow> string \<Rightarrow> chunk_context list \<Rightarrow> batch_result list res" where
  "answer_of j body req = bindE (load_openai_content j body) (\<lambda>c. parse_batch_content j c req)"

type_synonym 's server = "'s \<Rightarrow> json \<Rightarrow> string res \<times> 's"

function extract_batch :: "unicode \<Rightarrow> json_fns \<Rightarrow> 's server \<Rightarrow> nat \<Rightarrow> chunk_context list \<Rightarrow> 's \<Rightarrow> batch_result list res \<times> 's"
  and extract_each :: "unicode \<Rightarrow> json_fns \<Rightarrow> 's server \<Rightarrow> nat \<Rightarrow> chunk_context list \<Rightarrow> 's \<Rightarrow> batch_result list res \<times> 's" where
  "extract_batch u j post maxc remaining s =
     (if remaining = [] then (Inr [], s)
      else case fit_batch_contexts maxc remaining of
        Inl e \<Rightarrow> (Inl e, s)
      | Inr req \<Rightarrow> bindS (post s (batch_payload req)) (\<lambda>body s.
          bindS
            (case answer_of j body req of
               Inr rs \<Rightarrow> (Inr rs, s)
             | Inl e \<Rightarrow>
                 if \<not> caught e then (Inl e, s)
                 else if 1 < length req then extract_each u j post maxc req s
                 else (Inr (map (fallback_result u) req), s))
            (\<lambda>rs s. bindS (extract_batch u j post maxc (drop (length req) remaining) s) (\<lambda>rest s.
               (Inr (rs @ rest), s)))))"
| "extract_each u j post maxc [] s = (Inr [], s)"
| "extract_each u j post maxc (c # cs) s =
     bindS (extract_batch u j post maxc [c] s) (\<lambda>rs s.
       bindS (extract_each u j post maxc cs s) (\<lambda>rest s. (Inr (rs @ rest), s)))"
  by pat_completeness auto
termination
proof (relation "inv_image (less_than <*lex*> less_than)
    (case_sum (\<lambda>(u, j, post, maxc, cs, s). (if 1 < length cs then 2 else 0, length cs))
       (\<lambda>(u, j, post, maxc, cs, s). (1, length cs)))", goal_cases)
  case (2 u j post maxc remaining s req body s1 e)
  with fit_spec [of maxc remaining req] show ?case by auto
next
  case (3 u j post maxc remaining s req body s1 rs s2)
  with fit_spec [of maxc remaining req] show ?case by auto
qed auto

declare extract_batch.simps [simp del]

text \<open>\<open>extract_with_context\<close> and \<open>extract\<close>, the single requests.\<close>

definition extract_with_context :: "unicode \<Rightarrow> json_fns \<Rightarrow> 's server \<Rightarrow> nat \<Rightarrow> chunk_context \<Rightarrow> 's \<Rightarrow> extraction res \<times> 's" where
  "extract_with_context u j post maxc c s = bindS (extract_batch u j post maxc [c] s) (\<lambda>rs s.
     (case rs of r # _ \<Rightarrow> Inr (br_extraction r) | [] \<Rightarrow> Inl IndexError, s))"

definition extract_text :: "unicode \<Rightarrow> json_fns \<Rightarrow> 's server \<Rightarrow> string \<Rightarrow> 's \<Rightarrow> extraction res \<times> 's" where
  "extract_text u j post source s = bindS (post s (JStr source)) (\<lambda>body s.
     (case load_openai_content j body of
        Inl e \<Rightarrow> if caught e then Inr (deterministic_extract u source) else Inl e
      | Inr content \<Rightarrow> parse_extraction_content u j content source, s))"

section \<open>What the loop returns\<close>

lemma map_res_members: "map_res f xs = Inr ys \<Longrightarrow> y \<in> set ys \<Longrightarrow> \<exists>x\<in>set xs. f x = Inr y"
  by (induction xs arbitrary: ys) (auto simp: bindE_Inr_iff)

lemma need_unit_unit: "need_unit k d = Inr c \<Longrightarrow> unit_interval c"
  by (auto simp: need_unit_def unit_interval_def split: json.splits if_splits)

lemma validate_entity_unit: "validate_entity v = Inr e \<Longrightarrow> unit_interval (xe_confidence e)"
  by (auto simp: validate_entity_def bindE_Inr_iff need_unit_unit split: json.splits)

lemma validate_relation_unit: "validate_relation v = Inr r \<Longrightarrow> unit_interval (xr_confidence r)"
  by (auto simp: validate_relation_def bindE_Inr_iff need_unit_unit split: json.splits)

lemma validate_extraction_valid:
  assumes "validate_extraction v = Inr x"
  shows "valid_extraction x"
proof -
  obtain ves vrs where "map_res validate_entity ves = Inr (ex_entities x)" "map_res validate_relation vrs = Inr (ex_relations x)"
    using assms by (auto simp: validate_extraction_def bindE_Inr_iff split: json.splits)
  then have "\<exists>v. validate_entity v = Inr e" if "e \<in> set (ex_entities x)" for e
    using that map_res_members by metis
  moreover have "\<exists>v. validate_relation v = Inr r" if "r \<in> set (ex_relations x)" for r
    using that \<open>map_res validate_relation vrs = Inr (ex_relations x)\<close> map_res_members by metis
  ultimately show ?thesis unfolding valid_extraction_def by (blast dest: validate_entity_unit validate_relation_unit)
qed

text \<open>A list of results answers a list of contexts: each of them once, each extraction valid.\<close>

definition answers :: "batch_result list \<Rightarrow> chunk_context list \<Rightarrow> bool" where
  "answers rs cs \<longleftrightarrow> mset (map br_chunk rs) = mset (map context_chunk_id cs)
     \<and> (\<forall>r\<in>set rs. valid_extraction (br_extraction r))"

lemma answers_append: "answers rs cs \<Longrightarrow> answers rs' cs' \<Longrightarrow> answers (rs @ rs') (cs @ cs')"
  by (auto simp: answers_def)

lemma answers_ids: "answers rs cs \<Longrightarrow> map context_chunk_id cs = map context_chunk_id ds \<Longrightarrow> answers rs ds"
  by (simp add: answers_def)

lemma answers_fallback: "answers (map (fallback_result u) cs) cs"
  by (auto simp: answers_def fallback_result_def deterministic_valid o_def)

lemma parse_items_spec:
  "parse_items ids raws parsed = Inr rs \<Longrightarrow> distinct (map br_chunk parsed) \<Longrightarrow>
     \<forall>r\<in>set parsed. valid_extraction (br_extraction r) \<Longrightarrow>
     distinct (map br_chunk rs) \<and> (\<forall>r\<in>set rs. valid_extraction (br_extraction r))"
proof (induction raws arbitrary: parsed)
  case (Cons raw raws)
  let ?item = "object_map raw"
  obtain k where k: "string_of (jget ''chunk_id'' ?item) = Some k"
    using Cons.prems(1) by (auto simp: Let_def split: option.splits)
  then have fresh: "k \<in> set ids" "k \<notin> set (map br_chunk parsed)"
    using Cons.prems(1) by (auto simp: Let_def split: if_splits)
  obtain x where x: "extraction_of (JObj ?item) = Inr x"
    "parse_items ids raws (parsed @ [\<lparr>br_chunk = k, br_extraction = x\<rparr>]) = Inr rs"
    using Cons.prems(1) k fresh by (auto simp: Let_def bindE_Inr_iff)
  have "valid_extraction x" using x(1) by (auto simp: extraction_of_def bindE_Inr_iff intro: validate_extraction_valid)
  then show ?case using Cons.IH [OF x(2)] Cons.prems(2,3) fresh(2) by auto
qed auto

lemma parse_batch_answers:
  assumes p: "parse_batch_content j content cs = Inr rs" and d: "distinct (map context_chunk_id cs)"
  shows "answers rs cs"
proof -
  obtain v where v: "load_json_object j content = Inr v" using p by (auto simp: parse_batch_content_def bindE_Inr_iff)
  let ?p = "object_map v"
  show ?thesis
  proof (cases "length cs = 1 \<and> \<not> has_key ''results'' ?p")
    case True
    then obtain c where c: "cs = [c]" by (cases cs) auto
    obtain x where "extraction_of (JObj ?p) = Inr x" "rs = [\<lparr>br_chunk = context_chunk_id c, br_extraction = x\<rparr>]"
      using p v True c by (auto simp: parse_batch_content_def Let_def bindE_Inr_iff)
    then show ?thesis
      by (auto simp: c answers_def extraction_of_def bindE_Inr_iff intro: validate_extraction_valid)
  next
    case False
    then have r: "parse_items (map context_chunk_id cs) (object_list (jget ''results'' ?p)) [] = Inr rs"
      "set (map br_chunk rs) = set (map context_chunk_id cs)"
      using p v by (auto simp: parse_batch_content_def Let_def bindE_Inr_iff split: if_splits)
    have i: "distinct (map br_chunk rs)" "\<forall>r\<in>set rs. valid_extraction (br_extraction r)"
      using parse_items_spec [OF r(1)] by auto
    with d r(2) have "mset (map br_chunk rs) = mset (map context_chunk_id cs)"
      by (simp only: set_eq_iff_mset_eq_distinct)
    with i(2) show ?thesis by (simp add: answers_def)
  qed
qed

lemma bare_ids: "map bare xs = map bare ys \<Longrightarrow> map context_chunk_id xs = map context_chunk_id ys"
proof -
  assume "map bare xs = map bare ys"
  then have "map context_chunk_id (map bare xs) = map context_chunk_id (map bare ys)" by simp
  moreover have "context_chunk_id (bare c) = context_chunk_id c" for c
    by (simp add: bare_def context_chunk_id_def)
  ultimately show ?thesis unfolding map_map o_def by simp
qed

lemma extract_answers:
  "extract_batch u j post maxc cs s = (Inr rs, t) \<Longrightarrow> distinct (map context_chunk_id cs) \<Longrightarrow> answers rs cs"
  "extract_each u j post maxc ds s' = (Inr rs', t') \<Longrightarrow> answers rs' ds"
proof (induction u j post maxc cs s and u j post maxc ds s' arbitrary: rs t and rs' t' rule: extract_batch_extract_each.induct)
  case (1 u j post maxc cs s)
  show ?case
  proof (cases "cs = []")
    case True
    with 1 show ?thesis by (simp add: extract_batch.simps answers_def)
  next
    case False
    obtain req where req: "fit_batch_contexts maxc cs = Inr req"
      using "1.prems"(1) False by (subst (asm) extract_batch.simps) (auto split: sum.splits)
    obtain body s1 where body: "post s (batch_payload req) = (Inr body, s1)"
      using "1.prems"(1) False req by (subst (asm) extract_batch.simps) (auto simp: bindS_Inr)
    obtain rs1 s2 where first: "(case answer_of j body req of Inr rs \<Rightarrow> (Inr rs, s1)
             | Inl e \<Rightarrow> if \<not> caught e then (Inl e, s1)
                 else if 1 < length req then extract_each u j post maxc req s1
                 else (Inr (map (fallback_result u) req), s1)) = (Inr rs1, s2)"
      and rest: "bindS (extract_batch u j post maxc (drop (length req) cs) s2) (\<lambda>rest s. (Inr (rs1 @ rest), s)) = (Inr rs, t)"
      using "1.prems"(1) False req body by (subst (asm) extract_batch.simps) (auto simp: bindS_Inr)
    obtain rs2 where rs2: "extract_batch u j post maxc (drop (length req) cs) s2 = (Inr rs2, t)" "rs = rs1 @ rs2"
      using rest by (auto simp: bindS_Inr)
    note fit = fit_spec [OF req False]
    then have ids: "map context_chunk_id req = map context_chunk_id (take (length req) cs)"
      by (intro bare_ids) (simp add: take_map)
    have dist: "distinct (map context_chunk_id req)" "distinct (map context_chunk_id (drop (length req) cs))"
      unfolding ids using "1.prems"(2) by (simp_all add: take_map [symmetric] drop_map [symmetric])
    have "answers rs1 req"
    proof (cases "answer_of j body req")
      case (Inr rs0)
      then obtain c where "parse_batch_content j c req = Inr rs0" by (auto simp: answer_of_def bindE_Inr_iff)
      with parse_batch_answers [OF this dist(1)] first Inr show ?thesis by simp
    next
      case (Inl e)
      with first have c: "caught e" by (auto split: if_splits)
      show ?thesis
      proof (cases "1 < length req")
        case True
        with first Inl c have "extract_each u j post maxc req s1 = (Inr rs1, s2)" by simp
        from "1.IH"(1) [OF \<open>cs \<noteq> []\<close> req body Inl _ True this] c show ?thesis by simp
      next
        case False
        with first Inl c show ?thesis by (auto simp: answers_fallback)
      qed
    qed
    then have "answers rs1 (take (length req) cs)" using ids by (rule answers_ids)
    moreover have "answers rs2 (drop (length req) cs)"
      using "1.IH"(2) [OF False req] body first rs2(1) dist(2) by auto
    ultimately show ?thesis using answers_append [of rs1 "take (length req) cs" rs2 "drop (length req) cs"] rs2(2) by simp
  qed
next
  case (2 u j post maxc s)
  then show ?case by (simp add: answers_def)
next
  case (3 u j post maxc c cs s)
  obtain a s1 b where "extract_batch u j post maxc [c] s = (Inr a, s1)" "extract_each u j post maxc cs s1 = (Inr b, t')" "rs' = a @ b"
    using "3.prems" by (auto simp: bindS_Inr)
  with 3 answers_append [of a "[c]" b cs] show ?case by auto
qed

section \<open>Which exceptions leave the loop\<close>

text \<open>\<open>json.loads\<close> and \<open>raw_decode\<close> raise \<open>JSONDecodeError\<close>, or \<open>ValueError\<close> for an integer of too
  many digits.\<close>

definition json_errors :: "json_fns \<Rightarrow> bool" where
  "json_errors j \<longleftrightarrow> (\<forall>s. okE value_error (j_loads j s) \<and> okE value_error (j_raw j s))"

definition soft :: "err \<Rightarrow> bool" where
  "soft e \<longleftrightarrow> caught e \<or> e = IndexError \<or> e = OverflowError"

lemma soft_simps [simp]:
  "soft (ValueError m)" "soft KeyError" "soft TypeError" "soft IndexError" "soft OverflowError" "soft JSONDecodeError"
  "value_error (ValueError m)" "value_error JSONDecodeError"
  by (simp_all add: soft_def caught_def value_error_def)

lemma value_soft: "value_error e \<Longrightarrow> soft e"
  by (auto simp: soft_def caught_def value_error_def split: err.splits)

lemma okE_loads: "json_errors j \<Longrightarrow> okE value_error (j_loads j s)" "json_errors j \<Longrightarrow> okE value_error (j_raw j s)"
  by (simp_all add: json_errors_def)

lemma okE_choices: "okE value_error (sse_choices cs st)"
  by (induction cs arbitrary: st) (auto simp: Let_def split: json.split)

lemma okE_consume: "json_errors j \<Longrightarrow> okE value_error (consume_event j st)"
  by (auto simp: consume_event_def Let_def okE_choices okE_loads)

lemma okE_lines: "json_errors j \<Longrightarrow> okE value_error (sse_lines j ls st)"
  by (induction ls arbitrary: st) (auto simp: okE_consume)

lemma okE_sse: "json_errors j \<Longrightarrow> okE value_error (load_openai_sse_content j body)"
  unfolding load_openai_sse_content_def by (intro okE_bind okE_lines) auto

lemma okE_response: "json_errors j \<Longrightarrow> okE value_error (load_openai_response j body)"
  unfolding load_openai_response_def
  by (intro okE_bind) (auto simp: okE_loads okE_def split: sum.split err.split dest: okE_loads(1) [unfolded okE_def, rule_format]
      okE_loads(2) [unfolded okE_def, rule_format])

lemma okE_sub: "okE soft (sub_key k v)" "okE soft (sub_first v)"
  by (auto simp: sub_key_def sub_first_def split: json.split option.split list.split)

lemma okE_content: "json_errors j \<Longrightarrow> okE soft (load_openai_content j body)"
proof -
  assume j: "json_errors j"
  let ?m = "bindE (load_openai_response j body) (\<lambda>payload.
             bindE (bindE (bindE (bindE (sub_key ''choices'' payload) sub_first) (sub_key ''message'')) (sub_key ''content''))
             (\<lambda>c. case c of JStr s \<Rightarrow> Inr s | _ \<Rightarrow> Inl (ValueError ''content is not a string'')))"
  have "okE soft ?m"
    by (intro okE_bind okE_sub okE_mono [OF okE_response [OF j] value_soft]) (auto split: json.split)
  moreover have "okE soft (load_openai_sse_content j body)" by (rule okE_mono [OF okE_sse [OF j] value_soft])
  ultimately show ?thesis
    by (auto simp: load_openai_content_def okE_def split: sum.split err.split)
qed

lemma okE_load_object: "json_errors j \<Longrightarrow> okE value_error (load_json_object j c)"
  by (auto simp: load_json_object_def Let_def okE_loads okE_def split: sum.split err.split option.split
      dest: okE_loads(1) [unfolded okE_def, rule_format])

lemma okE_need: "okE value_error (need_str k d)" "okE value_error (need_opt k d)" "okE value_error (need_unit k d)"
  "okE value_error (need_list k d)" "okE value_error (only_keys ks d)" "okE value_error (as_str v)"
  by (auto simp: need_str_def need_opt_def need_unit_def need_list_def only_keys_def as_str_def split: json.split)

lemma okE_map_res: "(\<And>x. okE P (f x)) \<Longrightarrow> okE P (map_res f xs)"
  by (induction xs) (auto intro!: okE_bind)

lemma okE_validate: "okE value_error (validate_entity v)" "okE value_error (validate_relation v)"
  "okE value_error (validate_extraction v)"
proof -
  show e: "okE value_error (validate_entity v)" for v
    by (cases v) (auto simp: validate_entity_def intro!: okE_bind okE_need okE_map_res)
  show r: "okE value_error (validate_relation v)" for v
    by (cases v) (auto simp: validate_relation_def intro!: okE_bind okE_need)
  show "okE value_error (validate_extraction v)"
    by (cases v) (auto simp: validate_extraction_def intro!: okE_bind okE_need okE_map_res e r)
qed

lemma okE_extraction: "okE soft (extraction_of v)"
  unfolding extraction_of_def
  by (intro okE_bind okE_mono [OF payload_ok] okE_mono [OF okE_validate(3) value_soft]) (simp add: overflow_def)

lemma okE_items: "okE soft (parse_items ids raws parsed)"
  by (induction raws arbitrary: parsed) (auto simp: Let_def okE_extraction split: option.split)

lemma okE_answer: "json_errors j \<Longrightarrow> okE soft (answer_of j body req)"
  unfolding answer_of_def parse_batch_content_def Let_def
  by (intro okE_bind okE_content okE_mono [OF okE_load_object value_soft])
     (auto simp: okE_extraction okE_items)

lemma bindS_Inl: "bindS m f = (Inl e, t) \<longleftrightarrow> m = (Inl e, t) \<or> (\<exists>x s. m = (Inr x, s) \<and> f x s = (Inl e, t))"
  by (auto simp: bindS_def split: prod.splits sum.splits)

lemma fit_total: "cs \<noteq> [] \<Longrightarrow> \<exists>r. fit_batch_contexts maxc cs = Inr r"
proof (induction maxc cs rule: fit_batch_contexts.induct)
  case (1 maxc cs)
  let ?refs = "concat (map cx_refs cs)"
  consider (fits) "payload_chars cs \<le> maxc \<or> (?refs = [] \<and> length cs = 1)"
    | (shorter) "\<not> payload_chars cs \<le> maxc" "?refs = []" "length cs \<noteq> 1"
    | (drops) "\<not> payload_chars cs \<le> maxc" "?refs \<noteq> []" by blast
  then show ?case
  proof cases
    case shorter
    then have "butlast cs \<noteq> []" using "1.prems" by (cases cs) auto
    from "1.IH"(1) [OF shorter(1) refl shorter(2,3) "1.prems" this] show ?thesis
      using fit_branches(2) [OF shorter "1.prems"] by simp
  next
    case drops
    with "1.IH"(2) [OF drops(1) refl drops(2)] "1.prems" fit_branches(3) [OF drops] show ?thesis by simp
  qed (use fit_branches(1) in \<open>blast\<close>)
qed

lemma extract_errors:
  assumes j: "json_errors j" and post: "\<forall>s p. \<exists>body t. post s p = (Inr body, t)"
  shows "extract_batch u j post maxc cs s = (Inl e, t) \<Longrightarrow> e = IndexError \<or> e = OverflowError"
  and "extract_each u j post maxc ds s' = (Inl e', t') \<Longrightarrow> e' = IndexError \<or> e' = OverflowError"
  using j post
proof (induction u j post maxc cs s and u j post maxc ds s' arbitrary: e t and e' t' rule: extract_batch_extract_each.induct)
  case (1 u j post maxc cs s)
  show ?case
  proof (cases "cs = []")
    case True
    with 1 show ?thesis by (simp add: extract_batch.simps)
  next
    case False
    obtain req where req: "fit_batch_contexts maxc cs = Inr req" using fit_total [OF False] by blast
    obtain body s1 where body: "post s (batch_payload req) = (Inr body, s1)" using "1.prems"(3) by blast
    let ?first = "case answer_of j body req of Inr rs \<Rightarrow> (Inr rs, s1)
             | Inl e \<Rightarrow> if \<not> caught e then (Inl e, s1)
                 else if 1 < length req then extract_each u j post maxc req s1
                 else (Inr (map (fallback_result u) req), s1)"
    have "bindS ?first (\<lambda>rs s. bindS (extract_batch u j post maxc (drop (length req) cs) s)
        (\<lambda>rest s. (Inr (rs @ rest), s))) = (Inl e, t)"
      using "1.prems"(1) False req body by (subst (asm) extract_batch.simps) (simp add: bindS_def)
    then consider (now) "?first = (Inl e, t)"
      | (later) rs s2 where "?first = (Inr rs, s2)" "extract_batch u j post maxc (drop (length req) cs) s2 = (Inl e, t)"
      by (auto simp: bindS_Inl)
    then show ?thesis
    proof cases
      case now
      then obtain e1 where e1: "answer_of j body req = Inl e1" by (cases "answer_of j body req") auto
      with okE_answer [OF "1.prems"(2)] have "soft e1" unfolding okE_def by blast
      show ?thesis
      proof (cases "caught e1")
        case True
        with now e1 have more: "1 < length req" "extract_each u j post maxc req s1 = (Inl e, t)"
          by (auto split: if_splits)
        from "1.IH"(1) [OF False req body e1 _ more "1.prems"(2,3)] True show ?thesis by simp
      next
        case False
        with now e1 \<open>soft e1\<close> show ?thesis by (auto simp: soft_def)
      qed
    next
      case later
      with "1.IH"(2) [OF False req body later(1) later(2) "1.prems"(2,3)] show ?thesis by simp
    qed
  qed
next
  case (3 u j post maxc c cs s)
  consider (one) "extract_batch u j post maxc [c] s = (Inl e', t')"
    | (others) a s1 where "extract_batch u j post maxc [c] s = (Inr a, s1)" "extract_each u j post maxc cs s1 = (Inl e', t')"
    using "3.prems"(1) by (auto simp: bindS_Inl)
  then show ?case
  proof cases
    case one
    from "3.IH"(1) [OF this "3.prems"(2,3)] show ?thesis .
  next
    case others
    from "3.IH"(2) [OF others "3.prems"(2,3)] show ?thesis .
  qed
qed simp

section \<open>Properties\<close>

text \<open>A request is the front of the chunks still to do, targets untouched and in order, with at
  most their reference chunks; it respects the character limit unless it is a single chunk stripped
  of its references; and fitting always ends with at least one chunk.\<close>

theorem fit_batch_sound:
  assumes "cs \<noteq> []"
  shows "\<exists>r. fit_batch_contexts maxc cs = Inr r \<and> r \<noteq> [] \<and> length r \<le> length cs
    \<and> map bare r = take (length r) (map bare cs)
    \<and> (\<forall>i<length r. set (cx_refs (r ! i)) \<subseteq> set (cx_refs (cs ! i)))
    \<and> (payload_chars r \<le> maxc \<or> (length r = 1 \<and> ref_count r = 0))"
proof -
  obtain r where "fit_batch_contexts maxc cs = Inr r" using fit_total [OF assms] by blast
  with fit_spec [OF this assms] show ?thesis by blast
qed

definition sample_context :: "string \<Rightarrow> int \<Rightarrow> chunk_context" where
  "sample_context k i = \<lparr>cx_title = ''doc'', cx_path = [], cx_page = None, cx_index = i, cx_count = 2, cx_previous = [],
     cx_target = ''t'', cx_next = [], cx_refs = [\<lparr>cr_id = ''r'', cr_index = 0, cr_text = ''old''\<rparr>], cx_chunk = k\<rparr>"

theorem fit_batch_sound_witness:
  "\<exists>r. fit_batch_contexts 10 [sample_context ''a'' 0, sample_context ''b'' 1] = Inr r \<and> r \<noteq> []
     \<and> (payload_chars r \<le> 10 \<or> (length r = 1 \<and> ref_count r = 0))"
  using fit_batch_sound [of "[sample_context ''a'' 0, sample_context ''b'' 1]" 10] by blast

text \<open>C29. The batch loop answers every chunk exactly once with a valid extraction, whatever the server
  says and however often it falls back; and when the server answers at all, the only exceptions that
  escape the fallbacks are an empty \<open>choices\<close> list and an overflowing integer confidence.\<close>

theorem extract_batch_complete:
  assumes "distinct (map context_chunk_id cs)" "json_errors j" "\<forall>s p. \<exists>body t. post s p = (Inr body, t)"
  shows "case fst (extract_batch u j post maxc cs s) of
      Inr rs \<Rightarrow> mset (map br_chunk rs) = mset (map context_chunk_id cs)
        \<and> (\<forall>r\<in>set rs. valid_extraction (br_extraction r))
    | Inl e \<Rightarrow> e = IndexError \<or> e = OverflowError"
proof -
  obtain r t where r: "extract_batch u j post maxc cs s = (r, t)" by (cases "extract_batch u j post maxc cs s")
  with extract_answers(1) [of u j post maxc cs s _ t] extract_errors(1) [OF assms(2,3), of u maxc cs s _ t] assms(1)
  show ?thesis by (cases r) (auto simp: answers_def)
qed

text \<open>An answer whose \<open>choices\<close> are empty is not caught: the whole document fails instead of falling
  back.\<close>

definition stub_json :: "json \<Rightarrow> json_fns" where
  "stub_json v = \<lparr>j_loads = \<lambda>_. Inr v, j_raw = \<lambda>_. Inl JSONDecodeError\<rparr>"

definition stub_unicode :: unicode where
  "stub_unicode = \<lparr>u_nfkc = (\<lambda>s. s), u_casefold = py_lower\<rparr>"

lemma empty_choices_abort:
  "cs \<noteq> [] \<Longrightarrow> fst (extract_batch u (stub_json (JObj [(''choices'', JList [])])) (\<lambda>s p. (Inr body, s)) maxc cs s) = Inl IndexError"
proof -
  assume "cs \<noteq> []"
  moreover from fit_total [OF this] obtain req where "fit_batch_contexts maxc cs = Inr req" by blast
  moreover have "answer_of (stub_json (JObj [(''choices'', JList [])])) body req = Inl IndexError" for req
    by (simp add: answer_of_def load_openai_content_def load_openai_response_def stub_json_def sub_key_def sub_first_def)
  ultimately show ?thesis by (subst extract_batch.simps) (simp add: bindS_def caught_def value_error_def)
qed

theorem extract_batch_complete_witness:
  "\<exists>r. fst (extract_batch stub_unicode (stub_json (JObj [])) (\<lambda>s p. (Inr ''x'', s)) 10 [sample_context ''a'' 0, sample_context ''b'' 1] ()) = r
     \<and> (case r of Inr rs \<Rightarrow> mset (map br_chunk rs) = {#''a'', ''b''#} | Inl e \<Rightarrow> e = IndexError \<or> e = OverflowError)"
proof -
  have d: "distinct (map context_chunk_id [sample_context ''a'' 0, sample_context ''b'' 1])"
    and m: "map context_chunk_id [sample_context ''a'' 0, sample_context ''b'' 1] = [''a'', ''b'']"
    by (simp_all add: context_chunk_id_def sample_context_def)
  have j: "json_errors (stub_json (JObj []))" by (simp add: json_errors_def stub_json_def)
  from extract_batch_complete [OF d j, of "\<lambda>s p. (Inr ''x'', s)" stub_unicode 10 "()"] m
  show ?thesis by (auto split: sum.splits)
qed

end
