(* ===== verification/Pipeline.thy ===== *)
theory Pipeline
  imports BatchExtract GraphSchema Dispatch
begin

text \<open>
  \<open>app/graph/pipeline.py\<close>: the extraction of a document. Chunks are grouped into request batches with
  their reference chunks, runs are opened and committed before the provider is called, and every
  result is persisted as canonical entities, relations and exact evidence. A failure rolls back to
  the last commit and marks the runs of the active batch as failed.

  The database session commits between the groups: a function that may fail half-way returns the
  last committed state beside the exception.
\<close>

section \<open>State\<close>

datatype run_status = RRunning | RSucceeded | RFailed

record grun =
  gr_id :: string
  gr_project :: string
  gr_dataset :: string
  gr_document :: string
  gr_chunk :: string
  gr_status :: run_status
  gr_provider :: string
  gr_model :: string
  gr_extractor :: string
  gr_prompt :: string
  gr_ontology :: "string option"
  gr_hash :: string
  gr_raw :: "extraction option"
  gr_error :: "string option"
  gr_completed :: "int option"

record pipe_db =
  pp_graph :: graph_db
  pp_runs :: "grun list"

text \<open>What the code takes from its surroundings: Unicode tables, SHA-256, the clock, the text of a
  JSON value that is not a string, the sanitised text of an exception, and the extractor's metadata.\<close>

record pipe_env =
  pe_unicode :: unicode
  pe_sha :: "string \<Rightarrow> string"
  pe_now :: int
  pe_str :: "json \<Rightarrow> string"
  pe_error :: "err \<Rightarrow> string"
  pe_meta :: extractor_meta

section \<open>Batches and contexts\<close>

text \<open>\<open>xs[0:n], xs[n:2n], ...\<close> for a positive \<open>n\<close>.\<close>

function batches :: "nat \<Rightarrow> 'a list \<Rightarrow> 'a list list" where
  "batches n xs = (if xs = [] \<or> n = 0 then [] else take n xs # batches n (drop n xs))"
  by auto
termination by (relation "measure (\<lambda>(n, xs). length xs)") auto

declare batches.simps [simp del]

definition reference_of :: "chunk \<Rightarrow> chunk_ref" where
  "reference_of c = \<lparr>cr_id = ck_id c, cr_index = ck_index c, cr_text = ck_text c\<rparr>"

definition path_of :: "pipe_env \<Rightarrow> jobj \<Rightarrow> string list" where
  "path_of env metadata = (case map_of metadata ''section_path'' of
       Some (JList xs) \<Rightarrow> map (\<lambda>v. case v of JStr s \<Rightarrow> s | _ \<Rightarrow> pe_str env v) xs
     | _ \<Rightarrow> [])"

definition page_of_chunk :: "jobj \<Rightarrow> int option" where
  "page_of_chunk metadata = (case jget ''page_number'' metadata of
       JInt i \<Rightarrow> Some i
     | JBool b \<Rightarrow> Some (if b then 1 else 0)
     | _ \<Rightarrow> None)"

definition context_of :: "pipe_env \<Rightarrow> document \<Rightarrow> nat \<Rightarrow> chunk_ref list \<Rightarrow> chunk \<Rightarrow> chunk_context" where
  "context_of env doc n refs c =
     \<lparr>cx_title = (if dc_filename doc \<noteq> [] then dc_filename doc else dc_id doc),
      cx_path = path_of env (ck_metadata c), cx_page = page_of_chunk (ck_metadata c),
      cx_index = ck_index c, cx_count = int n, cx_previous = [], cx_target = ck_text c, cx_next = [],
      cx_refs = refs, cx_chunk = ck_id c\<rparr>"

text \<open>\<open>_chunk_contexts\<close>: the windows from position \<open>start\<close> on.\<close>

function context_windows :: "pipe_env \<Rightarrow> document \<Rightarrow> nat \<Rightarrow> nat \<Rightarrow> chunk list \<Rightarrow> nat \<Rightarrow> chunk_context list" where
  "context_windows env doc previous n chunks start =
     (if start < length chunks \<and> 0 < n then
        map (context_of env doc (length chunks) (map reference_of (slice (start - previous) start chunks)))
          (slice start (start + n) chunks)
        @ context_windows env doc previous n chunks (start + n)
      else [])"
  by auto
termination by (relation "measure (\<lambda>(env, doc, previous, n, chunks, start). length chunks - start)") auto

declare context_windows.simps [simp del]

definition chunk_contexts :: "pipe_env \<Rightarrow> document \<Rightarrow> chunk list \<Rightarrow> nat \<Rightarrow> nat \<Rightarrow> (string \<times> chunk_context) list" where
  "chunk_contexts env doc chunks previous n =
     fold (\<lambda>c d. AList.update (cx_chunk c) c d) (context_windows env doc previous n chunks 0) []"

section \<open>Runs\<close>

definition run_key :: "pipe_env \<Rightarrow> chunk \<Rightarrow> string" where
  "run_key env c = stable_id (pe_sha env) ''run'' [ck_id c, xm_extractor (pe_meta env), pe_sha env (ck_text c)]"

definition run_of :: "pipe_env \<Rightarrow> chunk \<Rightarrow> pipe_db \<Rightarrow> grun option" where
  "run_of env c db = get_row gr_id (run_key env c) (pp_runs db)"

definition chunk_run_succeeded :: "pipe_env \<Rightarrow> pipe_db \<Rightarrow> chunk \<Rightarrow> bool" where
  "chunk_run_succeeded env db c =
     (case run_of env c db of Some r \<Rightarrow> gr_status r = RSucceeded | None \<Rightarrow> False)"

definition new_run :: "pipe_env \<Rightarrow> document \<Rightarrow> chunk \<Rightarrow> grun" where
  "new_run env doc c =
     \<lparr>gr_id = run_key env c, gr_project = dc_project doc, gr_dataset = dc_dataset doc, gr_document = dc_id doc,
      gr_chunk = ck_id c, gr_status = RRunning, gr_provider = xm_provider (pe_meta env),
      gr_model = xm_model (pe_meta env), gr_extractor = xm_extractor (pe_meta env),
      gr_prompt = xm_prompt (pe_meta env), gr_ontology = None, gr_hash = pe_sha env (ck_text c),
      gr_raw = None, gr_error = None, gr_completed = None\<rparr>"

definition reopen :: "grun \<Rightarrow> grun" where
  "reopen r = r\<lparr>gr_status := RRunning, gr_error := None, gr_completed := None\<rparr>"

definition ensure_running_run :: "pipe_env \<Rightarrow> document \<Rightarrow> pipe_db \<Rightarrow> chunk \<Rightarrow> pipe_db" where
  "ensure_running_run env doc db c =
     (case run_of env c db of
        None \<Rightarrow> db\<lparr>pp_runs := pp_runs db @ [new_run env doc c]\<rparr>
      | Some r \<Rightarrow> db\<lparr>pp_runs := upd_row gr_id (gr_id r) reopen (pp_runs db)\<rparr>)"

section \<open>Inserts and their constraints\<close>

definition confidence_check :: "rat \<Rightarrow> unit res" where
  "confidence_check x = guardE (0 \<le> x \<and> x \<le> 1) (IntegrityError ''confidence BETWEEN 0 AND 1'')"

definition width :: "nat \<Rightarrow> string \<Rightarrow> unit res" where
  "width n s = guardE (length s \<le> n) (DataError ''value too long'')"

definition add_entity :: "gentity \<Rightarrow> graph_db \<Rightarrow> graph_db res" where
  "add_entity e g =
     bindE (width 500 (en_name e)) (\<lambda>_. bindE (width 500 (en_norm e)) (\<lambda>_. bindE (width 100 (en_type e)) (\<lambda>_.
     bindE (confidence_check (en_confidence e)) (\<lambda>_.
     bindE (guardE (\<not> list_ex (\<lambda>x. en_dataset x = en_dataset e \<and> en_norm x = en_norm e \<and> en_type x = en_type e)
       (g_entities g)) (IntegrityError ''uq_entity_candidate'')) (\<lambda>_.
     bindE (insert_row en_id e (g_entities g)) (\<lambda>es. Inr (g\<lparr>g_entities := es\<rparr>)))))))"

definition add_relation :: "grelation \<Rightarrow> graph_db \<Rightarrow> graph_db res" where
  "add_relation r g =
     bindE (width 100 (rl_type r)) (\<lambda>_. bindE (confidence_check (rl_confidence r)) (\<lambda>_.
     bindE (guardE (rl_source r \<noteq> rl_target r) (IntegrityError ''source_entity_id <> target_entity_id'')) (\<lambda>_.
     bindE (guardE (\<not> list_ex (\<lambda>x. rl_dataset x = rl_dataset r \<and> rl_source x = rl_source r \<and> rl_type x = rl_type r
         \<and> rl_target x = rl_target r \<and> rl_extractor x = rl_extractor r) (g_relations g)) (IntegrityError ''unique'')) (\<lambda>_.
     bindE (insert_row rl_id r (g_relations g)) (\<lambda>rs. Inr (g\<lparr>g_relations := rs\<rparr>))))))"

definition insert_evidence :: "gevidence \<Rightarrow> graph_db \<Rightarrow> graph_db res" where
  "insert_evidence v g =
     bindE (confidence_check (gv_confidence v)) (\<lambda>_.
     bindE (insert_row gv_id v (g_evidence g)) (\<lambda>vs. Inr (g\<lparr>g_evidence := vs\<rparr>)))"

section \<open>Persisting an extraction\<close>

definition review_of :: "rat \<Rightarrow> review_state" where
  "review_of c = (if c = 1 then Unreviewed else NeedsReview)"

definition entity_key :: "pipe_env \<Rightarrow> document \<Rightarrow> string \<Rightarrow> string \<Rightarrow> string" where
  "entity_key env doc nname type = stable_id (pe_sha env) ''ent''
     [dc_project doc, dc_dataset doc, nname, normalize_name (pe_unicode env) type]"

definition relation_key :: "pipe_env \<Rightarrow> document \<Rightarrow> string \<Rightarrow> string \<Rightarrow> string \<Rightarrow> string" where
  "relation_key env doc source type target = stable_id (pe_sha env) ''rel''
     [dc_dataset doc, source, type, target, xm_extractor (pe_meta env)]"

definition evidence_key :: "pipe_env \<Rightarrow> string \<Rightarrow> string \<Rightarrow> string" where
  "evidence_key env run subject = stable_id (pe_sha env) ''ev'' [run, subject]"

definition new_entity :: "pipe_env \<Rightarrow> document \<Rightarrow> string \<Rightarrow> xentity \<Rightarrow> gentity" where
  "new_entity env doc k item =
     \<lparr>en_id = k, en_project = dc_project doc, en_dataset = dc_dataset doc, en_name = xe_name item,
      en_norm = normalize_name (pe_unicode env) (xe_name item), en_type = xe_type item,
      en_confidence = xe_confidence item, en_version = 1, en_review = review_of (xe_confidence item),
      en_from = pe_now env, en_until = None, en_superseded_by = None\<rparr>"

definition new_relation :: "pipe_env \<Rightarrow> document \<Rightarrow> string \<Rightarrow> string \<Rightarrow> string \<Rightarrow> string \<Rightarrow> rat \<Rightarrow> review_state \<Rightarrow> grelation" where
  "new_relation env doc k source target type c st =
     \<lparr>rl_id = k, rl_project = dc_project doc, rl_dataset = dc_dataset doc, rl_source = source,
      rl_target = target, rl_type = type, rl_confidence = c, rl_extractor = xm_extractor (pe_meta env),
      rl_review = st, rl_from = pe_now env, rl_until = None, rl_superseded_by = None\<rparr>"

definition evidence_row :: "document \<Rightarrow> string \<Rightarrow> string \<Rightarrow> string \<Rightarrow> string option \<Rightarrow> string option \<Rightarrow> nat \<times> string \<Rightarrow> rat \<Rightarrow> gevidence" where
  "evidence_row doc k chunk run entity relation found c =
     \<lparr>gv_id = k, gv_project = dc_project doc, gv_dataset = dc_dataset doc, gv_document = dc_id doc,
      gv_chunk = chunk, gv_run = run, gv_entity = entity, gv_relation = relation, gv_quote = snd found,
      gv_start = Some (int (fst found)), gv_end = Some (int (fst found + length (snd found))), gv_confidence = c\<rparr>"

text \<open>\<open>if await db.get(GraphEvidence, id) is None: db.add(...)\<close>\<close>

definition ensure_evidence :: "gevidence \<Rightarrow> graph_db \<Rightarrow> graph_db res" where
  "ensure_evidence v g =
     (case get_row gv_id (gv_id v) (g_evidence g) of None \<Rightarrow> insert_evidence v g | Some _ \<Rightarrow> Inr g)"

text \<open>The entities of the chunk by normalised name, in the order of the extraction.\<close>

type_synonym by_name = "(string \<times> gentity list) list"

definition append_entity :: "string \<Rightarrow> gentity \<Rightarrow> by_name \<Rightarrow> by_name" where
  "append_entity nname e d = AList.update nname ((case map_of d nname of None \<Rightarrow> [] | Some es \<Rightarrow> es) @ [e]) d"

definition persist_entity :: "pipe_env \<Rightarrow> document \<Rightarrow> chunk \<Rightarrow> xentity \<Rightarrow> graph_db \<times> by_name \<Rightarrow> (graph_db \<times> by_name) res" where
  "persist_entity env doc c item = (\<lambda>(g, names).
     case find_evidence (u_nfkc (pe_unicode env)) (ck_text c) (xe_name item) of
       None \<Rightarrow> Inr (g, names)
     | Some found \<Rightarrow>
         let nname = normalize_name (pe_unicode env) (xe_name item);
             k = entity_key env doc nname (xe_type item)
         in bindE (case get_row en_id k (g_entities g) of
                     Some e \<Rightarrow> Inr (e, g)
                   | None \<Rightarrow> let e = new_entity env doc k item in bindE (add_entity e g) (\<lambda>g. Inr (e, g)))
              (\<lambda>(e, g). bindE (ensure_evidence (evidence_row doc (evidence_key env (run_key env c) k) (ck_id c)
                   (run_key env c) (Some k) None found (xe_confidence item)) g)
                 (\<lambda>g. Inr (g, append_entity nname e names))))"

definition endpoint_matches :: "pipe_env \<Rightarrow> by_name \<Rightarrow> string \<Rightarrow> string option \<Rightarrow> gentity list" where
  "endpoint_matches env names name type =
     (let found = (case map_of names (normalize_name (pe_unicode env) name) of None \<Rightarrow> [] | Some es \<Rightarrow> es) in
      case type of
        None \<Rightarrow> found
      | Some t \<Rightarrow> filter (\<lambda>e. normalize_name (pe_unicode env) (en_type e) = normalize_name (pe_unicode env) t) found)"

definition the_only :: "'a list \<Rightarrow> 'a option" where
  "the_only xs = (case xs of [x] \<Rightarrow> Some x | _ \<Rightarrow> None)"

definition ensure_relation :: "grelation \<Rightarrow> graph_db \<Rightarrow> graph_db res" where
  "ensure_relation r g =
     (case get_row rl_id (rl_id r) (g_relations g) of None \<Rightarrow> add_relation r g | Some _ \<Rightarrow> Inr g)"

definition persist_relation :: "pipe_env \<Rightarrow> document \<Rightarrow> chunk \<Rightarrow> by_name \<Rightarrow> xrelation \<Rightarrow> graph_db \<Rightarrow> graph_db res" where
  "persist_relation env doc c names item g =
     (case (the_only (endpoint_matches env names (xr_source item) (xr_source_type item)),
            the_only (endpoint_matches env names (xr_target item) (xr_target_type item))) of
        (Some source, Some target) \<Rightarrow>
          if en_id source = en_id target then Inr g
          else (case find_evidence (u_nfkc (pe_unicode env)) (ck_text c)
                  (case xr_quote item of Some (x # xs) \<Rightarrow> x # xs | _ \<Rightarrow> ck_text c) of
                  None \<Rightarrow> Inr g
                | Some found \<Rightarrow>
                    let k = relation_key env doc (en_id source) (xr_type item) (en_id target) in
                    bindE (ensure_relation (new_relation env doc k (en_id source) (en_id target) (xr_type item)
                        (xr_confidence item) (review_of (xr_confidence item))) g)
                      (ensure_evidence (evidence_row doc (evidence_key env (run_key env c) k) (ck_id c)
                        (run_key env c) None (Some k) found (xr_confidence item))))
      | _ \<Rightarrow> Inr g)"

definition persist_extraction :: "pipe_env \<Rightarrow> document \<Rightarrow> chunk \<Rightarrow> extraction \<Rightarrow> graph_db \<Rightarrow> graph_db res" where
  "persist_extraction env doc c x g =
     bindE (foldE (persist_entity env doc c) (ex_entities x) (g, [])) (\<lambda>(g, names).
       foldE (persist_relation env doc c names) (ex_relations x) g)"

definition succeed :: "pipe_env \<Rightarrow> extraction \<Rightarrow> grun \<Rightarrow> grun" where
  "succeed env x r = r\<lparr>gr_raw := Some x, gr_status := RSucceeded, gr_error := None, gr_completed := Some (pe_now env)\<rparr>"

definition persist_chunk_result :: "pipe_env \<Rightarrow> document \<Rightarrow> chunk \<Rightarrow> extraction \<Rightarrow> pipe_db \<Rightarrow> pipe_db res" where
  "persist_chunk_result env doc c x db =
     (if chunk_run_succeeded env db c then Inr db
      else let db = ensure_running_run env doc db c in
        bindE (persist_extraction env doc c x (pp_graph db)) (\<lambda>g.
          Inr (db\<lparr>pp_graph := g, pp_runs := upd_row gr_id (run_key env c) (succeed env x) (pp_runs db)\<rparr>)))"

section \<open>Calling the extractor\<close>

text \<open>An extractor answers batches, or single chunks only; \<open>'s\<close> is the state of its provider.\<close>

datatype 's extractor =
    Batched "chunk_context list \<Rightarrow> 's \<Rightarrow> batch_result list res \<times> 's"
  | Plain "chunk_context \<Rightarrow> 's \<Rightarrow> extraction res \<times> 's"

type_synonym extracted = "(chunk \<times> extraction) list \<times> err option"

definition context_for :: "(string \<times> chunk_context) list \<Rightarrow> chunk \<Rightarrow> chunk_context res" where
  "context_for contexts c = (case map_of contexts (ck_id c) of Some x \<Rightarrow> Inr x | None \<Rightarrow> Inl KeyError)"

definition run_plain :: "(chunk_context \<Rightarrow> 's \<Rightarrow> extraction res \<times> 's) \<Rightarrow> (string \<times> chunk_context) list \<Rightarrow> chunk \<Rightarrow> 's \<Rightarrow> extraction res \<times> 's" where
  "run_plain f contexts c s = (case context_for contexts c of Inl e \<Rightarrow> (Inl e, s) | Inr x \<Rightarrow> f x s)"

text \<open>One after the other, up to the first failure.\<close>

fun plain_until :: "(chunk_context \<Rightarrow> 's \<Rightarrow> extraction res \<times> 's) \<Rightarrow> (string \<times> chunk_context) list \<Rightarrow> chunk list \<Rightarrow> 's \<Rightarrow> extracted \<times> 's" where
  "plain_until f contexts [] s = (([], None), s)"
| "plain_until f contexts (c # cs) s =
     (case run_plain f contexts c s of
        (Inl e, s) \<Rightarrow> (([], Some e), s)
      | (Inr x, s) \<Rightarrow> (case plain_until f contexts cs s of ((rs, e), s) \<Rightarrow> (((c, x) # rs, e), s)))"

text \<open>All of them, as \<open>gather\<close> does; the first failure is reported.\<close>

fun plain_all :: "(chunk_context \<Rightarrow> 's \<Rightarrow> extraction res \<times> 's) \<Rightarrow> (string \<times> chunk_context) list \<Rightarrow> chunk list \<Rightarrow> 's \<Rightarrow> extracted \<times> 's" where
  "plain_all f contexts [] s = (([], None), s)"
| "plain_all f contexts (c # cs) s =
     (case run_plain f contexts c s of
        (Inl e, s) \<Rightarrow> (case plain_all f contexts cs s of ((rs, _), s) \<Rightarrow> ((rs, Some e), s))
      | (Inr x, s) \<Rightarrow> (case plain_all f contexts cs s of ((rs, e), s) \<Rightarrow> (((c, x) # rs, e), s)))"

definition by_chunk :: "batch_result list \<Rightarrow> (string \<times> extraction) list" where
  "by_chunk outs = fold (\<lambda>r d. AList.update (br_chunk r) (br_extraction r) d) outs []"

definition run_batched :: "(chunk_context list \<Rightarrow> 's \<Rightarrow> batch_result list res \<times> 's) \<Rightarrow> (string \<times> chunk_context) list \<Rightarrow> chunk list \<Rightarrow> 's \<Rightarrow> extracted \<times> 's" where
  "run_batched f contexts chunks s =
     (case map_res (context_for contexts) chunks of
        Inl e \<Rightarrow> (([], Some e), s)
      | Inr cxs \<Rightarrow> (case f cxs s of
          (Inl e, s) \<Rightarrow> (([], Some e), s)
        | (Inr outs, s) \<Rightarrow>
            if set (map fst (by_chunk outs)) \<noteq> set (map ck_id chunks)
            then (([], Some (ValueError ''batch extractor returned incomplete chunk results'')), s)
            else ((map (\<lambda>c. (c, the (map_of (by_chunk outs) (ck_id c)))) chunks, None), s)))"

definition extract_chunk_batch :: "'s extractor \<Rightarrow> nat \<Rightarrow> (string \<times> chunk_context) list \<Rightarrow> chunk list \<Rightarrow> 's \<Rightarrow> extracted \<times> 's" where
  "extract_chunk_batch ext parallelism contexts chunks s =
     (case ext of
        Batched f \<Rightarrow> run_batched f contexts chunks s
      | Plain f \<Rightarrow> if parallelism \<le> 1 then plain_until f contexts chunks s else plain_all f contexts chunks s)"

fun gather_batches :: "'s extractor \<Rightarrow> nat \<Rightarrow> (string \<times> chunk_context) list \<Rightarrow> chunk list list \<Rightarrow> 's \<Rightarrow> extracted \<times> 's" where
  "gather_batches ext parallelism contexts [] s = (([], None), s)"
| "gather_batches ext parallelism contexts (b # bs) s =
     (case extract_chunk_batch ext parallelism contexts b s of
        ((rs, e), s) \<Rightarrow> (case gather_batches ext parallelism contexts bs s of
          ((rs', e'), s) \<Rightarrow> ((rs @ rs', case e of Some _ \<Rightarrow> e | None \<Rightarrow> e'), s)))"

definition extract_request_batches :: "'s extractor \<Rightarrow> nat \<Rightarrow> (string \<times> chunk_context) list \<Rightarrow> chunk list list \<Rightarrow> 's \<Rightarrow> extracted \<times> 's" where
  "extract_request_batches ext parallelism contexts bs s =
     (case ext of
        Plain _ \<Rightarrow> extract_chunk_batch ext parallelism contexts (concat bs) s
      | Batched _ \<Rightarrow> gather_batches ext parallelism contexts bs s)"

section \<open>The extraction of a document\<close>

record pipe_settings =
  pt_parallelism :: nat
  pt_batch :: nat
  pt_previous :: nat

text \<open>One group of requests: open the runs and commit, extract, persist and commit, call back.
  \<open>committed\<close> is \<open>on_batch_committed\<close>, which may raise. The result is the last committed state
  and the exception to be raised.\<close>

definition process_group :: "pipe_env \<Rightarrow> pipe_settings \<Rightarrow> 's extractor \<Rightarrow> (pipe_db \<Rightarrow> err option) \<Rightarrow> document
    \<Rightarrow> (string \<times> chunk_context) list \<Rightarrow> chunk list list \<Rightarrow> pipe_db \<Rightarrow> 's \<Rightarrow> (pipe_db \<times> err option) \<times> 's" where
  "process_group env cfg ext committed doc contexts grp db s =
     (let db1 = fold (\<lambda>c db. ensure_running_run env doc db c) (concat grp) db in
      case extract_request_batches ext (pt_parallelism cfg) contexts grp s of
        ((rs, err), s) \<Rightarrow>
          (case foldE (\<lambda>(c, x). persist_chunk_result env doc c x) rs db1 of
             Inl e \<Rightarrow> ((db1, Some e), s)
           | Inr db2 \<Rightarrow> ((db2, case committed db2 of Some e \<Rightarrow> Some e | None \<Rightarrow> err), s)))"

fun run_groups :: "pipe_env \<Rightarrow> pipe_settings \<Rightarrow> 's extractor \<Rightarrow> (pipe_db \<Rightarrow> err option) \<Rightarrow> document
    \<Rightarrow> (string \<times> chunk_context) list \<Rightarrow> chunk list list list \<Rightarrow> pipe_db \<Rightarrow> 's \<Rightarrow> (pipe_db \<times> (err \<times> chunk list) option) \<times> 's" where
  "run_groups env cfg ext committed doc contexts [] db s = ((db, None), s)"
| "run_groups env cfg ext committed doc contexts (g # gs) db s =
     (case process_group env cfg ext committed doc contexts g db s of
        ((db, Some e), s) \<Rightarrow> ((db, Some (e, concat g)), s)
      | ((db, None), s) \<Rightarrow> run_groups env cfg ext committed doc contexts gs db s)"

text \<open>The failure bookkeeping of the active batch.\<close>

definition fail_run :: "pipe_env \<Rightarrow> err \<Rightarrow> pipe_db \<Rightarrow> chunk \<Rightarrow> pipe_db" where
  "fail_run env e db c =
     (case run_of env c db of
        Some r \<Rightarrow> if gr_status r \<noteq> RSucceeded
          then db\<lparr>pp_runs := upd_row gr_id (gr_id r) (\<lambda>r. r\<lparr>gr_status := RFailed, gr_error := Some (pe_error env e),
                   gr_completed := Some (pe_now env)\<rparr>) (pp_runs db)\<rparr>
          else db
      | None \<Rightarrow> db)"

definition document_chunks :: "document \<Rightarrow> graph_db \<Rightarrow> chunk list" where
  "document_chunks doc g = order_by ck_index
     (filter (\<lambda>c. ck_project c = dc_project doc \<and> ck_dataset c = dc_dataset doc \<and> ck_document c = dc_id doc) (g_chunks g))"

definition request_groups :: "pipe_env \<Rightarrow> pipe_settings \<Rightarrow> pipe_db \<Rightarrow> chunk list \<Rightarrow> chunk list list list" where
  "request_groups env cfg db chunks =
     (let pending = map ck_id (filter (\<lambda>c. \<not> chunk_run_succeeded env db c) chunks);
          requests = filter (\<lambda>b. b \<noteq> []) (map (filter (\<lambda>c. ck_id c \<in> set pending)) (batches (pt_batch cfg) chunks))
      in batches (pt_parallelism cfg) requests)"

definition extract_document :: "pipe_env \<Rightarrow> pipe_settings \<Rightarrow> 's extractor \<Rightarrow> (pipe_db \<Rightarrow> err option) \<Rightarrow> string
    \<Rightarrow> pipe_db \<Rightarrow> 's \<Rightarrow> (unit res \<times> pipe_db) \<times> 's" where
  "extract_document env cfg ext committed doc_id db s =
     (case get_row dc_id doc_id (g_documents (pp_graph db)) of
        None \<Rightarrow> ((Inl (ValueError ''graph extraction requires a persisted document''), db), s)
      | Some doc \<Rightarrow>
          if dc_status doc \<noteq> Indexed \<and> dc_status doc \<noteq> Persisting
          then ((Inl (ValueError ''graph extraction requires a persisted document''), db), s)
          else
            let chunks = document_chunks doc (pp_graph db);
                contexts = chunk_contexts env doc chunks (pt_previous cfg) (pt_batch cfg)
            in case run_groups env cfg ext committed doc contexts (request_groups env cfg db chunks) db s of
                 ((db, None), s) \<Rightarrow> ((Inr (), db), s)
               | ((db, Some (e, active)), s) \<Rightarrow> ((Inl e, fold (\<lambda>c db. fail_run env e db c) active db), s))"

end
