(* ===== verification/PipelineProps.thy ===== *)
theory PipelineProps
  imports Pipeline
begin

text \<open>
  The correctness of the extraction pipeline: every state it commits keeps the keys and references
  of the graph, every piece of evidence is the exact text of its chunk at its offsets, and the runs
  account for the chunks that are done.
\<close>

section \<open>The invariant of the graph\<close>

text \<open>The quote of a piece of evidence is the text of its chunk at its offsets, and the chunk belongs to
  its document.\<close>

definition exact_in :: "chunk list \<Rightarrow> gevidence \<Rightarrow> bool" where
  "exact_in cs v \<longleftrightarrow> (\<exists>c\<in>set cs. ck_id c = gv_chunk v \<and> ck_document c = gv_document v
     \<and> (\<exists>i. gv_start v = Some (int i) \<and> gv_end v = Some (int (i + length (gv_quote v)))
          \<and> i + length (gv_quote v) \<le> length (ck_text c) \<and> slice i (i + length (gv_quote v)) (ck_text c) = gv_quote v))"

definition graph_ok :: "graph_db \<Rightarrow> bool" where
  "graph_ok g \<longleftrightarrow> graph_keys g \<and> graph_refs g \<and> (\<forall>v\<in>set (g_evidence g). exact_in (g_chunks g) v)"

lemma add_entity_Inr:
  "add_entity e g = Inr g' \<Longrightarrow> g' = g\<lparr>g_entities := g_entities g @ [e]\<rparr> \<and> en_id e \<notin> en_id ` set (g_entities g)"
  by (auto simp: add_entity_def bindE_Inr_iff insert_row_Inr_iff)

lemma add_relation_Inr:
  "add_relation r g = Inr g' \<Longrightarrow> g' = g\<lparr>g_relations := g_relations g @ [r]\<rparr> \<and> rl_id r \<notin> rl_id ` set (g_relations g)
     \<and> rl_source r \<noteq> rl_target r"
  by (auto simp: add_relation_def bindE_Inr_iff insert_row_Inr_iff)

lemma insert_evidence_Inr:
  "insert_evidence v g = Inr g' \<Longrightarrow> g' = g\<lparr>g_evidence := g_evidence g @ [v]\<rparr> \<and> gv_id v \<notin> gv_id ` set (g_evidence g)"
  by (auto simp: insert_evidence_def bindE_Inr_iff insert_row_Inr_iff)

lemma opt_in_mono: "opt_in x A \<Longrightarrow> A \<subseteq> B \<Longrightarrow> opt_in x B"
  by (cases x) auto

text \<open>References survive when entities and relations are added.\<close>

lemma graph_refs_mono:
  assumes g: "graph_refs g"
    and same: "g_chunks h = g_chunks g" "g_documents h = g_documents g" "g_evidence h = g_evidence g"
      "g_aliases h = g_aliases g" "g_merges h = g_merges g"
    and en: "en_id ` set (g_entities g) \<subseteq> en_id ` set (g_entities h)"
    and rl: "rl_id ` set (g_relations g) \<subseteq> rl_id ` set (g_relations h)"
    and new: "\<And>r. r \<in> set (g_relations h) \<Longrightarrow> r \<in> set (g_relations g) \<or> (rl_source r \<in> en_id ` set (g_entities h)
        \<and> rl_target r \<in> en_id ` set (g_entities h) \<and> rl_source r \<noteq> rl_target r)"
  shows "graph_refs h"
  unfolding graph_refs_def
proof (intro conjI ballI)
  fix r assume "r \<in> set (g_relations h)"
  with new g en show "rl_source r \<in> en_id ` set (g_entities h)" "rl_target r \<in> en_id ` set (g_entities h)"
    "rl_source r \<noteq> rl_target r" unfolding graph_refs_def by blast+
next
  fix v assume "v \<in> set (g_evidence h)"
  then have v: "v \<in> set (g_evidence g)" using same by simp
  with g have f: "opt_in (gv_entity v) (en_id ` set (g_entities g))" "opt_in (gv_relation v) (rl_id ` set (g_relations g))"
    "(gv_entity v = None) \<noteq> (gv_relation v = None)" "gv_chunk v \<in> ck_id ` set (g_chunks g)"
    unfolding graph_refs_def by simp_all
  show "opt_in (gv_entity v) (en_id ` set (g_entities h))" "opt_in (gv_relation v) (rl_id ` set (g_relations h))"
    "(gv_entity v = None) \<noteq> (gv_relation v = None)" "gv_chunk v \<in> ck_id ` set (g_chunks h)"
    using f same opt_in_mono [OF _ en] opt_in_mono [OF _ rl] by simp_all
next
  fix m assume "m \<in> set (g_merges h)"
  with g en same show "mg_source m \<in> en_id ` set (g_entities h)" "mg_target m \<in> en_id ` set (g_entities h)"
    unfolding graph_refs_def by auto
next
  fix a assume "a \<in> set (g_aliases h)"
  with g en same show "as_entity a \<in> en_id ` set (g_entities h)" unfolding graph_refs_def by auto
next
  fix c assume "c \<in> set (g_chunks h)"
  with g same show "ck_document c \<in> dc_id ` set (g_documents h)" unfolding graph_refs_def by simp
qed

lemma add_entity_ok:
  assumes a: "add_entity e g = Inr g'" and ok: "graph_ok g"
  shows "graph_ok g'"
proof -
  have g': "g' = g\<lparr>g_entities := g_entities g @ [e]\<rparr>" "en_id e \<notin> en_id ` set (g_entities g)"
    using add_entity_Inr [OF a] by auto
  have "graph_refs g" using ok by (simp add: graph_ok_def)
  then have "graph_refs g'" by (rule graph_refs_mono) (auto simp: g'(1))
  with ok g' show ?thesis by (auto simp: graph_ok_def graph_keys_def)
qed

lemma add_relation_ok:
  assumes a: "add_relation r g = Inr g'" and ok: "graph_ok g"
    and ends: "rl_source r \<in> en_id ` set (g_entities g)" "rl_target r \<in> en_id ` set (g_entities g)"
  shows "graph_ok g'"
proof -
  have g': "g' = g\<lparr>g_relations := g_relations g @ [r]\<rparr>" "rl_id r \<notin> rl_id ` set (g_relations g)" "rl_source r \<noteq> rl_target r"
    using add_relation_Inr [OF a] by auto
  have "graph_refs g" using ok by (simp add: graph_ok_def)
  then have "graph_refs g'" by (rule graph_refs_mono) (use ends g'(3) in \<open>auto simp: g'(1)\<close>)
  with ok g' show ?thesis by (auto simp: graph_ok_def graph_keys_def)
qed

text \<open>What evidence must satisfy to be added.\<close>

definition evidence_fits :: "graph_db \<Rightarrow> gevidence \<Rightarrow> bool" where
  "evidence_fits g v \<longleftrightarrow> opt_in (gv_entity v) (en_id ` set (g_entities g)) \<and> opt_in (gv_relation v) (rl_id ` set (g_relations g))
     \<and> (gv_entity v = None) \<noteq> (gv_relation v = None) \<and> exact_in (g_chunks g) v"

lemma ensure_evidence_ok:
  assumes "ensure_evidence v g = Inr g'" "graph_ok g" "evidence_fits g v"
  shows "graph_ok g' \<and> g_entities g' = g_entities g \<and> g_relations g' = g_relations g \<and> g_chunks g' = g_chunks g
    \<and> g_documents g' = g_documents g"
proof (cases "get_row gv_id (gv_id v) (g_evidence g)")
  case None
  then have g': "g' = g\<lparr>g_evidence := g_evidence g @ [v]\<rparr>" "gv_id v \<notin> gv_id ` set (g_evidence g)"
    using assms(1) insert_evidence_Inr by (auto simp: ensure_evidence_def)
  have "gv_chunk v \<in> ck_id ` set (g_chunks g)" using assms(3) unfolding evidence_fits_def exact_in_def by (metis image_eqI)
  then have "graph_refs g'" using assms(2,3) unfolding g'(1) graph_ok_def graph_refs_def evidence_fits_def by simp
  moreover have "graph_keys g'" using assms(2) g' by (auto simp: graph_ok_def graph_keys_def)
  moreover have "\<forall>v\<in>set (g_evidence g'). exact_in (g_chunks g') v"
    using assms(2,3) by (simp add: g'(1) graph_ok_def evidence_fits_def)
  ultimately show ?thesis by (simp add: graph_ok_def g'(1))
qed (use assms in \<open>simp add: ensure_evidence_def\<close>)

lemma evidence_row_exact:
  assumes "find_evidence f (ck_text c) m = Some found" "nfkc_spaces f" "c \<in> set cs" "ck_document c = dc_id doc"
  shows "exact_in cs (evidence_row doc k (ck_id c) run e r found x)"
  using find_evidence_exact [OF assms(1,2)] assms(3,4)
  by (auto simp: exact_in_def evidence_row_def intro!: bexI [of _ c] exI [of _ "fst found"])

section \<open>Persisting keeps the invariant\<close>

text \<open>The chunks and documents stay, and entities are only added.\<close>

definition grows :: "graph_db \<Rightarrow> graph_db \<Rightarrow> bool" where
  "grows g g' \<longleftrightarrow> g_chunks g' = g_chunks g \<and> g_documents g' = g_documents g
     \<and> en_id ` set (g_entities g) \<subseteq> en_id ` set (g_entities g')"

lemma grows_refl [simp]: "grows g g"
  by (simp add: grows_def)

lemma grows_trans: "grows g h \<Longrightarrow> grows h i \<Longrightarrow> grows g i"
  by (auto simp: grows_def)

definition names_known :: "graph_db \<Rightarrow> by_name \<Rightarrow> bool" where
  "names_known g names \<longleftrightarrow> (\<forall>es\<in>ran (map_of names). \<forall>e\<in>set es. en_id e \<in> en_id ` set (g_entities g))"

lemma names_known_grows: "names_known g names \<Longrightarrow> grows g g' \<Longrightarrow> names_known g' names"
  by (fastforce simp: names_known_def grows_def)

lemma names_known_append:
  "names_known g names \<Longrightarrow> en_id e \<in> en_id ` set (g_entities g) \<Longrightarrow> names_known g (append_entity n e names)"
proof -
  assume k: "names_known g names" and e: "en_id e \<in> en_id ` set (g_entities g)"
  let ?old = "case map_of names n of None \<Rightarrow> [] | Some es \<Rightarrow> es"
  have old: "en_id x \<in> en_id ` set (g_entities g)" if "x \<in> set ?old" for x
    using k that by (cases "map_of names n") (auto simp: names_known_def ran_def)
  show ?thesis unfolding names_known_def
  proof (intro ballI)
    fix es x assume "es \<in> ran (map_of (append_entity n e names))" and x: "x \<in> set es"
    then have "es = ?old @ [e] \<or> es \<in> ran (map_of names)"
      by (auto simp: append_entity_def ran_def split: if_splits)
    then show "en_id x \<in> en_id ` set (g_entities g)"
    proof
      assume "es = ?old @ [e]"
      with x e have "x = e \<or> x \<in> set ?old" by (simp only: set_append) auto
      with old e show ?thesis by blast
    next
      assume "es \<in> ran (map_of names)"
      with x k show ?thesis unfolding names_known_def by blast
    qed
  qed
qed

lemma persist_entity_ok:
  assumes p: "persist_entity env doc c item (g, names) = Inr (g', names')"
    and ok: "graph_ok g" "names_known g names" and c: "c \<in> set (g_chunks g)" "ck_document c = dc_id doc"
    and sp: "nfkc_spaces (u_nfkc (pe_unicode env))"
  shows "graph_ok g' \<and> names_known g' names' \<and> grows g g'"
proof (cases "find_evidence (u_nfkc (pe_unicode env)) (ck_text c) (xe_name item)")
  case None
  with p ok show ?thesis by (simp add: persist_entity_def)
next
  case (Some found)
  let ?n = "normalize_name (pe_unicode env) (xe_name item)"
  let ?k = "entity_key env doc ?n (xe_type item)"
  let ?v = "evidence_row doc (evidence_key env (run_key env c) ?k) (ck_id c) (run_key env c) (Some ?k) None found (xe_confidence item)"
  obtain e h where e: "(case get_row en_id ?k (g_entities g) of Some e \<Rightarrow> Inr (e, g)
      | None \<Rightarrow> let e = new_entity env doc ?k item in bindE (add_entity e g) (\<lambda>g. Inr (e, g))) = Inr (e, h)"
    and v: "ensure_evidence ?v h = Inr g'" and names': "names' = append_entity ?n e names"
    using p Some by (auto simp: persist_entity_def Let_def bindE_Inr_iff)
  have h: "graph_ok h \<and> en_id e = ?k \<and> ?k \<in> en_id ` set (g_entities h) \<and> grows g h"
  proof (cases "get_row en_id ?k (g_entities g)")
    case None
    with e have a: "add_entity e g = Inr h" "e = new_entity env doc ?k item" by (auto simp: Let_def bindE_Inr_iff)
    with add_entity_Inr [OF a(1)] add_entity_ok [OF a(1) ok(1)] show ?thesis by (auto simp: new_entity_def grows_def)
  next
    case (Some e0)
    then have "e0 \<in> set (g_entities g)" "en_id e0 = ?k" by (auto dest: get_row_SomeD)
    then have "?k \<in> en_id ` set (g_entities g)" by (metis image_eqI)
    with e Some \<open>en_id e0 = ?k\<close> ok(1) show ?thesis by auto
  qed
  have "c \<in> set (g_chunks h)" using h c(1) by (simp add: grows_def)
  then have "exact_in (g_chunks h) ?v" by (rule evidence_row_exact [OF Some sp _ c(2)])
  then have "evidence_fits h ?v" using h by (simp add: evidence_fits_def evidence_row_def)
  with ensure_evidence_ok [OF v] h have g': "graph_ok g'" "grows h g'" "g_entities g' = g_entities h" by (auto simp: grows_def)
  then have "grows g g'" using h grows_trans by blast
  then have "names_known g' names'"
    unfolding names' using names_known_append [of g' names e] names_known_grows [OF ok(2)] h g'(3) by auto
  with g' \<open>grows g g'\<close> show ?thesis by simp
qed

lemma the_only_in: "the_only xs = Some x \<Longrightarrow> x \<in> set xs"
  by (auto simp: the_only_def split: list.splits)

lemma endpoint_known:
  assumes "names_known g names" "e \<in> set (endpoint_matches env names n t)"
  shows "en_id e \<in> en_id ` set (g_entities g)"
proof -
  obtain es where "map_of names (normalize_name (pe_unicode env) n) = Some es" "e \<in> set es"
    using assms(2) by (cases "map_of names (normalize_name (pe_unicode env) n)"; cases t) (auto simp: endpoint_matches_def Let_def)
  with assms(1) show ?thesis by (auto simp: names_known_def ran_def)
qed

lemma new_relation_ends:
  "rl_source (new_relation env doc k a b t c st) = a" "rl_target (new_relation env doc k a b t c st) = b"
  "rl_id (new_relation env doc k a b t c st) = k"
  by (simp_all add: new_relation_def)

lemma ensure_relation_ok:
  assumes e: "ensure_relation r g = Inr h" and ok: "graph_ok g"
    and ends: "rl_source r \<in> en_id ` set (g_entities g)" "rl_target r \<in> en_id ` set (g_entities g)"
  shows "graph_ok h \<and> rl_id r \<in> rl_id ` set (g_relations h) \<and> grows g h"
proof (cases "get_row rl_id (rl_id r) (g_relations g)")
  case None
  with e have a: "add_relation r g = Inr h" by (simp add: ensure_relation_def)
  have "graph_ok h" by (rule add_relation_ok [OF a ok ends])
  with add_relation_Inr [OF a] show ?thesis by (auto simp: grows_def)
next
  case (Some r0)
  then have "r0 \<in> set (g_relations g)" "rl_id r0 = rl_id r" by (auto dest: get_row_SomeD)
  then have "rl_id r \<in> rl_id ` set (g_relations g)" by (metis image_eqI)
  with e Some ok show ?thesis by (auto simp: ensure_relation_def)
qed

lemma persist_relation_ok:
  assumes p: "persist_relation env doc c names item g = Inr g'"
    and ok: "graph_ok g" "names_known g names" and c: "c \<in> set (g_chunks g)" "ck_document c = dc_id doc"
    and sp: "nfkc_spaces (u_nfkc (pe_unicode env))"
  shows "graph_ok g' \<and> grows g g'"
proof (cases "\<exists>a b found. the_only (endpoint_matches env names (xr_source item) (xr_source_type item)) = Some a
    \<and> the_only (endpoint_matches env names (xr_target item) (xr_target_type item)) = Some b \<and> en_id a \<noteq> en_id b
    \<and> find_evidence (u_nfkc (pe_unicode env)) (ck_text c) (case xr_quote item of Some (x # xs) \<Rightarrow> x # xs | _ \<Rightarrow> ck_text c) = Some found")
  case False
  with p have "g' = g" by (auto simp: persist_relation_def split: option.splits if_splits)
  with ok show ?thesis by simp
next
  case True
  then obtain a b found where ab: "the_only (endpoint_matches env names (xr_source item) (xr_source_type item)) = Some a"
    "the_only (endpoint_matches env names (xr_target item) (xr_target_type item)) = Some b" "en_id a \<noteq> en_id b"
    "find_evidence (u_nfkc (pe_unicode env)) (ck_text c) (case xr_quote item of Some (x # xs) \<Rightarrow> x # xs | _ \<Rightarrow> ck_text c) = Some found"
    by blast
  let ?k = "relation_key env doc (en_id a) (xr_type item) (en_id b)"
  let ?r = "new_relation env doc ?k (en_id a) (en_id b) (xr_type item) (xr_confidence item) (review_of (xr_confidence item))"
  let ?v = "evidence_row doc (evidence_key env (run_key env c) ?k) (ck_id c) (run_key env c) None (Some ?k) found (xr_confidence item)"
  obtain h where h: "ensure_relation ?r g = Inr h" "ensure_evidence ?v h = Inr g'"
    using p ab by (auto simp: persist_relation_def Let_def bindE_Inr_iff)
  note ends = endpoint_known [OF ok(2) the_only_in [OF ab(1)]] endpoint_known [OF ok(2) the_only_in [OF ab(2)]]
  have ok': "graph_ok h \<and> ?k \<in> rl_id ` set (g_relations h) \<and> grows g h"
    using ensure_relation_ok [OF h(1) ok(1), unfolded new_relation_ends, OF ends] by simp
  have "c \<in> set (g_chunks h)" using ok' c(1) by (simp add: grows_def)
  then have "exact_in (g_chunks h) ?v" by (rule evidence_row_exact [OF ab(4) sp _ c(2)])
  then have "evidence_fits h ?v" using ok' by (simp add: evidence_fits_def evidence_row_def)
  with ensure_evidence_ok [OF h(2)] ok' have "graph_ok g'" "grows h g'" by (auto simp: grows_def)
  with ok' grows_trans show ?thesis by blast
qed

lemma persist_extraction_ok:
  assumes p: "persist_extraction env doc c x g = Inr g'" and ok: "graph_ok g"
    and c: "c \<in> set (g_chunks g)" "ck_document c = dc_id doc" and sp: "nfkc_spaces (u_nfkc (pe_unicode env))"
  shows "graph_ok g' \<and> grows g g'"
proof -
  obtain h names where h: "foldE (persist_entity env doc c) (ex_entities x) (g, []) = Inr (h, names)"
    "foldE (persist_relation env doc c names) (ex_relations x) h = Inr g'"
    using p by (auto simp: persist_extraction_def bindE_Inr_iff)
  have "(\<lambda>(h, names). graph_ok h \<and> names_known h names \<and> grows g h) (h, names)"
  proof (rule foldE_invariant [OF h(1)])
    show "(\<lambda>(h, names). graph_ok h \<and> names_known h names \<and> grows g h) (g, [])"
      using ok by (simp add: names_known_def)
    fix y s t assume s: "(\<lambda>(h, names). graph_ok h \<and> names_known h names \<and> grows g h) s" "persist_entity env doc c y s = Inr t"
    obtain a as b bs where "s = (a, as)" "t = (b, bs)" by (cases s, cases t)
    with s persist_entity_ok [of env doc c y a as b bs] c sp grows_trans [of g a b]
    show "(\<lambda>(h, names). graph_ok h \<and> names_known h names \<and> grows g h) t" by (auto simp: grows_def)
  qed
  then have ok': "graph_ok h" "names_known h names" "grows g h" by auto
  have "graph_ok g' \<and> names_known g' names \<and> grows g g'"
  proof (rule foldE_invariant [OF h(2)])
    show "graph_ok h \<and> names_known h names \<and> grows g h" using ok' by simp
    fix y s t assume s: "graph_ok s \<and> names_known s names \<and> grows g s" "persist_relation env doc c names y s = Inr t"
    with persist_relation_ok [OF s(2), of ] c sp grows_trans [of g s t] names_known_grows [of s names t]
    show "graph_ok t \<and> names_known t names \<and> grows g t" by (auto simp: grows_def)
  qed
  then show ?thesis by simp
qed

section \<open>Runs\<close>

definition pipe_ok :: "pipe_db \<Rightarrow> bool" where
  "pipe_ok db \<longleftrightarrow> graph_ok (pp_graph db) \<and> distinct (map gr_id (pp_runs db))"

definition run_at :: "string \<Rightarrow> pipe_db \<Rightarrow> grun option" where
  "run_at k db = get_row gr_id k (pp_runs db)"

lemma succeeded_run_at:
  "chunk_run_succeeded env db c \<longleftrightarrow> (\<exists>r. run_at (run_key env c) db = Some r \<and> gr_status r = RSucceeded)"
  by (auto simp: chunk_run_succeeded_def run_of_def run_at_def split: option.split)

lemma ids [simp]: "gr_id (reopen r) = gr_id r" "gr_id (succeed env x r) = gr_id r" "gr_id (new_run env doc c) = run_key env c"
  by (simp_all add: reopen_def succeed_def new_run_def)

lemma ensure_run_at:
  "\<exists>r. run_at k (ensure_running_run env doc db c) = (if k = run_key env c then Some r else run_at k db)"
proof (cases "run_of env c db")
  case None
  then show ?thesis by (auto simp: ensure_running_run_def run_at_def run_of_def get_row_append get_row_Cons split: option.split)
next
  case (Some r)
  then have "gr_id r = run_key env c" by (auto simp: run_of_def dest: get_row_key)
  with Some show ?thesis
    by (auto simp: ensure_running_run_def run_at_def run_of_def get_row_upd_row)
qed

lemma ensure_run_ok: "pipe_ok db \<Longrightarrow> pipe_ok (ensure_running_run env doc db c)"
  by (auto simp: pipe_ok_def ensure_running_run_def run_of_def map_key_upd_row get_row_None_iff split: option.split)

lemma ensure_run_graph [simp]: "pp_graph (ensure_running_run env doc db c) = pp_graph db"
  by (simp add: ensure_running_run_def split: option.split)

text \<open>What a step over some chunks does: the invariant holds, the document's rows stay, and no other
  run changes.\<close>

definition step_ok :: "pipe_env \<Rightarrow> chunk set \<Rightarrow> pipe_db \<Rightarrow> pipe_db \<Rightarrow> bool" where
  "step_ok env A db db' \<longleftrightarrow> pipe_ok db' \<and> grows (pp_graph db) (pp_graph db')
     \<and> (\<forall>k. k \<notin> run_key env ` A \<longrightarrow> run_at k db' = run_at k db)"

lemma step_ok_refl: "pipe_ok db \<Longrightarrow> step_ok env A db db"
  by (simp add: step_ok_def)

lemma step_ok_trans: "step_ok env A db db1 \<Longrightarrow> step_ok env B db1 db2 \<Longrightarrow> step_ok env (A \<union> B) db db2"
  by (auto simp: step_ok_def image_Un intro: grows_trans)

lemma step_ok_mono: "step_ok env A db db' \<Longrightarrow> A \<subseteq> B \<Longrightarrow> step_ok env B db db'"
  by (auto simp: step_ok_def)

lemma ensure_run_step: "pipe_ok db \<Longrightarrow> step_ok env {c} db (ensure_running_run env doc db c)"
proof -
  assume "pipe_ok db"
  then have "pipe_ok (ensure_running_run env doc db c)" by (rule ensure_run_ok)
  moreover have "run_at k (ensure_running_run env doc db c) = run_at k db" if "k \<noteq> run_key env c" for k
    using ensure_run_at [of k env doc db c] that by auto
  ultimately show ?thesis by (simp add: step_ok_def)
qed

lemma ensure_all_step: "pipe_ok db \<Longrightarrow> step_ok env (set cs) db (fold (\<lambda>c db. ensure_running_run env doc db c) cs db)"
proof (induction cs arbitrary: db)
  case (Cons c cs)
  note a = ensure_run_step [OF Cons.prems, of env c doc]
  then have "pipe_ok (ensure_running_run env doc db c)" by (simp add: step_ok_def)
  from step_ok_trans [OF a Cons.IH [OF this]] show ?case by simp
qed (simp add: step_ok_refl)

definition in_document :: "document \<Rightarrow> chunk set \<Rightarrow> graph_db \<Rightarrow> bool" where
  "in_document doc A g \<longleftrightarrow> A \<subseteq> set (g_chunks g) \<and> (\<forall>c\<in>A. ck_document c = dc_id doc)"

lemma in_document_grows: "in_document doc A g \<Longrightarrow> grows g h \<Longrightarrow> in_document doc A h"
  by (simp add: in_document_def grows_def)

lemma in_document_mono: "in_document doc A g \<Longrightarrow> B \<subseteq> A \<Longrightarrow> in_document doc B g"
  by (auto simp: in_document_def)

lemma persist_step:
  assumes p: "persist_chunk_result env doc c x db = Inr db'" and ok: "pipe_ok db"
    and c: "in_document doc {c} (pp_graph db)" and sp: "nfkc_spaces (u_nfkc (pe_unicode env))"
  shows "step_ok env {c} db db' \<and> chunk_run_succeeded env db' c"
proof (cases "chunk_run_succeeded env db c")
  case True
  with p ok show ?thesis by (simp add: persist_chunk_result_def step_ok_refl)
next
  case False
  let ?db = "ensure_running_run env doc db c"
  obtain g where g: "persist_extraction env doc c x (pp_graph ?db) = Inr g"
    "db' = ?db\<lparr>pp_graph := g, pp_runs := upd_row gr_id (run_key env c) (succeed env x) (pp_runs ?db)\<rparr>"
    using p False by (auto simp: persist_chunk_result_def Let_def bindE_Inr_iff)
  have okdb: "pipe_ok ?db" using ok by (rule ensure_run_ok)
  then have "graph_ok (pp_graph ?db)" by (simp add: pipe_ok_def)
  with persist_extraction_ok [OF g(1) _ _ _ sp] c have g': "graph_ok g" "grows (pp_graph ?db) g"
    by (auto simp: in_document_def)
  have runs: "run_at k db' = (if k = run_key env c then map_option (succeed env x) (run_at k ?db) else run_at k ?db)" for k
    by (simp add: run_at_def g(2) get_row_upd_row)
  have "pipe_ok db'" using okdb g' by (simp add: pipe_ok_def g(2) map_key_upd_row)
  moreover have "run_at k db' = run_at k db" if "k \<noteq> run_key env c" for k
    using runs [of k] ensure_run_at [of k env doc db c] that by auto
  moreover have "chunk_run_succeeded env db' c"
    using runs [of "run_key env c"] ensure_run_at [of "run_key env c" env doc db c]
    by (auto simp: succeeded_run_at succeed_def)
  ultimately show ?thesis using g' by (simp add: step_ok_def g(2))
qed

text \<open>A step over other chunks of the document leaves a succeeded chunk succeeded.\<close>

lemma step_other:
  assumes "step_ok env A db db'" "inj_on (run_key env) D" "A \<subseteq> D" "c \<in> D" "c \<notin> A"
  shows "chunk_run_succeeded env db' c = chunk_run_succeeded env db c"
proof -
  have "run_key env c \<notin> run_key env ` A" using assms(2-5) by (auto dest: inj_onD)
  with assms(1) show ?thesis by (simp add: step_ok_def succeeded_run_at)
qed

lemma persist_all_step:
  assumes "foldE (\<lambda>(c, x). persist_chunk_result env doc c x) rs db = Inr db'" "pipe_ok db"
    "in_document doc (fst ` set rs) (pp_graph db)" "nfkc_spaces (u_nfkc (pe_unicode env))"
  shows "step_ok env (fst ` set rs) db db' \<and> (\<forall>c\<in>fst ` set rs. chunk_run_succeeded env db' c)"
  using assms
proof (induction rs arbitrary: db)
  case (Cons r rs)
  obtain c x where r: "r = (c, x)" by (cases r)
  then obtain db1 where db1: "persist_chunk_result env doc c x db = Inr db1"
    "foldE (\<lambda>(c, x). persist_chunk_result env doc c x) rs db1 = Inr db'"
    using Cons.prems(1) by (auto simp: bindE_Inr_iff)
  have a: "step_ok env {c} db db1" "chunk_run_succeeded env db1 c"
    using persist_step [OF db1(1) Cons.prems(2) _ Cons.prems(4)] Cons.prems(3) in_document_mono r by auto
  then have "pipe_ok db1" "in_document doc (fst ` set rs) (pp_graph db1)"
    using Cons.prems(3) by (auto simp: step_ok_def in_document_def grows_def)
  from Cons.IH [OF db1(2) this Cons.prems(4)]
  have b: "step_ok env (fst ` set rs) db1 db'" "\<forall>c\<in>fst ` set rs. chunk_run_succeeded env db' c" by auto
  have "chunk_run_succeeded env db' c"
  proof (cases "run_key env c \<in> run_key env ` fst ` set rs")
    case True
    then obtain c' where "c' \<in> fst ` set rs" "run_key env c' = run_key env c" by force
    with b(2) show ?thesis by (auto simp: succeeded_run_at)
  next
    case False
    with b(1) a(2) show ?thesis by (simp add: step_ok_def succeeded_run_at)
  qed
  with b step_ok_trans [OF a(1) b(1)] show ?case by (simp add: r)
qed (simp add: step_ok_refl)

section \<open>What the extractor is asked and answers\<close>

lemma plain_results:
  "plain_until f contexts cs s = ((rs, e), t) \<Longrightarrow> fst ` set rs \<subseteq> set cs \<and> (e = None \<longrightarrow> map fst rs = cs)"
  "plain_all f contexts cs s = ((rs, e), t) \<Longrightarrow> fst ` set rs \<subseteq> set cs \<and> (e = None \<longrightarrow> map fst rs = cs)"
proof (induction cs arbitrary: rs e s t)
  case (Cons c cs)
  { case 1 then show ?case using Cons.IH(1) by (fastforce split: prod.splits sum.splits) }
  { case 2 then show ?case using Cons.IH(2) by (fastforce split: prod.splits sum.splits) }
qed auto

lemma batched_results:
  "run_batched f contexts cs s = ((rs, e), t) \<Longrightarrow> fst ` set rs \<subseteq> set cs \<and> (e = None \<longrightarrow> map fst rs = cs)"
  by (auto simp: run_batched_def o_def split: sum.splits prod.splits if_splits)

lemma chunk_batch_results:
  "extract_chunk_batch ext n contexts cs s = ((rs, e), t) \<Longrightarrow> fst ` set rs \<subseteq> set cs \<and> (e = None \<longrightarrow> map fst rs = cs)"
  by (cases ext; cases "n \<le> 1"; simp add: extract_chunk_batch_def; erule batched_results plain_results)

lemma gather_results:
  "gather_batches ext n contexts bs s = ((rs, e), t) \<Longrightarrow> fst ` set rs \<subseteq> set (concat bs) \<and> (e = None \<longrightarrow> map fst rs = concat bs)"
proof (induction bs arbitrary: rs e s t)
  case (Cons b bs)
  obtain rs1 e1 s1 where one: "extract_chunk_batch ext n contexts b s = ((rs1, e1), s1)" by (metis prod.exhaust)
  obtain rs2 e2 s2 where two: "gather_batches ext n contexts bs s1 = ((rs2, e2), s2)" by (metis prod.exhaust)
  have "rs = rs1 @ rs2" "e = (case e1 of Some _ \<Rightarrow> e1 | None \<Rightarrow> e2)" using Cons.prems one two by auto
  with chunk_batch_results [OF one] Cons.IH [OF two] show ?case by (auto split: option.splits)
qed auto

lemma request_results:
  "extract_request_batches ext n contexts bs s = ((rs, e), t) \<Longrightarrow>
     fst ` set rs \<subseteq> set (concat bs) \<and> (e = None \<longrightarrow> map fst rs = concat bs)"
  by (cases ext; simp add: extract_request_batches_def del: set_concat; drule chunk_batch_results gather_results; simp)

section \<open>Groups\<close>

lemma group_step:
  assumes g: "process_group env cfg ext committed doc contexts grp db s = ((db', e), t)" and ok: "pipe_ok db"
    and d: "in_document doc (set (concat grp)) (pp_graph db)" and sp: "nfkc_spaces (u_nfkc (pe_unicode env))"
  shows "step_ok env (set (concat grp)) db db' \<and> (e = None \<longrightarrow> (\<forall>c\<in>set (concat grp). chunk_run_succeeded env db' c))"
proof -
  let ?A = "set (concat grp)" and ?db1 = "fold (\<lambda>c db. ensure_running_run env doc db c) (concat grp) db"
  obtain rs err s1 where x: "extract_request_batches ext (pt_parallelism cfg) contexts grp s = ((rs, err), s1)"
    by (metis prod.exhaust)
  note one = ensure_all_step [OF ok, of env "concat grp" doc]
  note res = request_results [OF x]
  show ?thesis
  proof (cases "foldE (\<lambda>(c, x). persist_chunk_result env doc c x) rs ?db1")
    case (Inl e1)
    with g x have "db' = ?db1" "e = Some e1" by (auto simp: process_group_def Let_def)
    with one show ?thesis by simp
  next
    case (Inr db2)
    with g x have db': "db' = db2" "e = None \<longrightarrow> err = None" by (auto simp: process_group_def Let_def split: option.splits)
    have "pipe_ok ?db1" "in_document doc (fst ` set rs) (pp_graph ?db1)"
      using one d res by (auto simp: step_ok_def in_document_def grows_def simp del: set_concat)
    from persist_all_step [OF Inr this sp]
    have two: "step_ok env (fst ` set rs) ?db1 db2" "\<forall>c\<in>fst ` set rs. chunk_run_succeeded env db2 c" by auto
    have "step_ok env ?A db db2"
      by (rule step_ok_mono [OF step_ok_trans [OF one two(1)]]) (use res in \<open>auto simp del: set_concat\<close>)
    moreover have "\<forall>c\<in>?A. chunk_run_succeeded env db2 c" if "e = None"
    proof -
      have "fst ` set rs = ?A" using res db'(2) that by (metis set_map)
      with two(2) show ?thesis by (simp only:)
    qed
    ultimately show ?thesis using db'(1) by blast
  qed
qed

lemma groups_step:
  assumes "run_groups env cfg ext committed doc contexts gs db s = ((db', e), t)" "pipe_ok db"
    "in_document doc (set (concat (concat gs))) (pp_graph db)" "nfkc_spaces (u_nfkc (pe_unicode env))"
    "inj_on (run_key env) D" "set (concat (concat gs)) \<subseteq> D" "distinct (concat (concat gs))"
  shows "step_ok env (set (concat (concat gs))) db db'
    \<and> (e = None \<longrightarrow> (\<forall>c\<in>set (concat (concat gs)). chunk_run_succeeded env db' c))
    \<and> (\<forall>e1 act. e = Some (e1, act) \<longrightarrow> set act \<subseteq> set (concat (concat gs)))"
  using assms
proof (induction gs arbitrary: db s)
  case (Cons g gs)
  let ?A = "set (concat g)" and ?B = "set (concat (concat gs))"
  obtain db1 e1 s1 where one: "process_group env cfg ext committed doc contexts g db s = ((db1, e1), s1)"
    by (metis prod.exhaust)
  have dA: "in_document doc ?A (pp_graph db)" by (rule in_document_mono [OF Cons.prems(3)]) auto
  note g1 = group_step [OF one Cons.prems(2) dA Cons.prems(4)]
  show ?case
  proof (cases e1)
    case (Some x)
    with one Cons.prems(1) have "db' = db1" "e = Some (x, concat g)" by auto
    with g1 show ?thesis by (auto intro: step_ok_mono)
  next
    case None
    with one Cons.prems(1) have rest: "run_groups env cfg ext committed doc contexts gs db1 s1 = ((db', e), t)" by simp
    have db1: "pipe_ok db1" "in_document doc ?B (pp_graph db1)"
      using g1 Cons.prems(3) by (auto simp: step_ok_def in_document_def grows_def)
    have sub: "?B \<subseteq> D" "distinct (concat (concat gs))" "?A \<inter> ?B = {}" "?A \<subseteq> D"
      using Cons.prems(6,7) by auto
    note ih = Cons.IH [OF rest db1 Cons.prems(4,5) sub(1,2)]
    have "chunk_run_succeeded env db' c" if c: "c \<in> ?A" for c
      using step_other [OF conjunct1 [OF ih] Cons.prems(5) sub(1), of c] c sub(3,4) g1 None by blast
    moreover have "step_ok env (?A \<union> ?B) db db'" using g1 ih step_ok_trans by blast
    moreover have all: "set (concat (concat (g # gs))) = ?A \<union> ?B" by simp
    ultimately show ?thesis using ih unfolding all by blast
  qed
qed (simp add: step_ok_refl)

section \<open>The document\<close>

lemma batches_Nil: "batches n [] = []"
  by (subst batches.simps) simp

lemma concat_batches: "0 < n \<Longrightarrow> concat (batches n xs) = xs"
proof (induction n xs rule: batches.induct)
  case (1 n xs)
  then show ?case by (subst batches.simps) simp
qed

lemma request_groups_chunks:
  assumes "0 < pt_batch cfg" "0 < pt_parallelism cfg" "distinct (map ck_id chunks)"
  shows "concat (concat (request_groups env cfg db chunks)) = filter (\<lambda>c. \<not> chunk_run_succeeded env db c) chunks"
proof -
  let ?pend = "filter (\<lambda>c. \<not> chunk_run_succeeded env db c) chunks"
  have nonempty: "concat (filter (\<lambda>b. b \<noteq> []) bs) = concat bs" for bs :: "chunk list list"
    by (induction bs) auto
  have "concat (concat (request_groups env cfg db chunks))
      = concat (map (filter (\<lambda>c. ck_id c \<in> set (map ck_id ?pend))) (batches (pt_batch cfg) chunks))"
    using assms(1,2) by (simp add: request_groups_def Let_def concat_batches nonempty)
  also have "\<dots> = filter (\<lambda>c. ck_id c \<in> set (map ck_id ?pend)) (concat (batches (pt_batch cfg) chunks))"
    by (simp add: filter_concat)
  also have "\<dots> = filter (\<lambda>c. ck_id c \<in> set (map ck_id ?pend)) chunks"
    using assms(1) by (simp add: concat_batches)
  also have "\<dots> = ?pend"
    using assms(3) by (intro filter_cong) (auto simp: distinct_map dest: inj_onD)
  finally show ?thesis .
qed

lemma fail_run_step: "pipe_ok db \<Longrightarrow> pipe_ok (fail_run env e db c) \<and> pp_graph (fail_run env e db c) = pp_graph db
    \<and> chunk_run_succeeded env (fail_run env e db c) c' = chunk_run_succeeded env db c'"
proof (cases "\<exists>r. run_of env c db = Some r \<and> gr_status r \<noteq> RSucceeded")
  case True
  assume ok: "pipe_ok db"
  obtain r where r: "run_of env c db = Some r" "gr_status r \<noteq> RSucceeded" using True by blast
  then have k: "gr_id r = run_key env c" by (auto simp: run_of_def dest: get_row_key)
  let ?f = "\<lambda>r. r\<lparr>gr_status := RFailed, gr_error := Some (pe_error env e), gr_completed := Some (pe_now env)\<rparr>"
  have db': "fail_run env e db c = db\<lparr>pp_runs := upd_row gr_id (run_key env c) ?f (pp_runs db)\<rparr>"
    using r k by (simp add: fail_run_def)
  have "run_at k' (fail_run env e db c) = (if k' = run_key env c then map_option ?f (run_at k' db) else run_at k' db)" for k'
    unfolding db' by (simp add: run_at_def get_row_upd_row)
  moreover have "run_at (run_key env c) db = Some r" using r(1) by (simp add: run_of_def run_at_def)
  ultimately have "chunk_run_succeeded env (fail_run env e db c) c' = chunk_run_succeeded env db c'"
    using r(2) by (auto simp: succeeded_run_at)
  with ok show ?thesis by (simp add: db' pipe_ok_def map_key_upd_row)
qed (auto simp: fail_run_def split: option.split)

lemma fail_runs_step: "pipe_ok db \<Longrightarrow> pipe_ok (fold (\<lambda>c db. fail_run env e db c) cs db)
    \<and> pp_graph (fold (\<lambda>c db. fail_run env e db c) cs db) = pp_graph db
    \<and> chunk_run_succeeded env (fold (\<lambda>c db. fail_run env e db c) cs db) c' = chunk_run_succeeded env db c'"
proof (induction cs arbitrary: db)
  case (Cons c cs)
  with fail_run_step [OF Cons.prems, of env e c c'] show ?case by simp
qed simp

lemma document_chunks_in:
  "graph_keys g \<Longrightarrow> in_document doc (set (document_chunks doc g)) g \<and> distinct (map ck_id (document_chunks doc g))"
proof -
  assume k: "graph_keys g"
  have "distinct (document_chunks doc g)"
    using k by (auto simp: document_chunks_def order_by_def graph_keys_def distinct_map distinct_sort)
  moreover have "inj_on ck_id (set (document_chunks doc g))"
    using k by (auto simp: document_chunks_def graph_keys_def distinct_map intro: inj_on_subset)
  ultimately show ?thesis by (auto simp: distinct_map in_document_def document_chunks_def)
qed

lemma extract_document_step:
  assumes x: "extract_document env cfg ext committed k db s = ((r, db'), t)"
    and ok: "pipe_ok db" and cfg: "0 < pt_batch cfg" "0 < pt_parallelism cfg"
    and doc: "get_row dc_id k (g_documents (pp_graph db)) = Some doc"
    and inj: "inj_on (run_key env) (set (document_chunks doc (pp_graph db)))"
    and sp: "nfkc_spaces (u_nfkc (pe_unicode env))"
  shows "pipe_ok db' \<and> grows (pp_graph db) (pp_graph db')
    \<and> (\<forall>c\<in>set (document_chunks doc (pp_graph db)). chunk_run_succeeded env db c \<longrightarrow> chunk_run_succeeded env db' c)
    \<and> (r = Inr () \<longrightarrow> (\<forall>c\<in>set (document_chunks doc (pp_graph db)). chunk_run_succeeded env db' c))"
proof (cases "dc_status doc \<noteq> Indexed \<and> dc_status doc \<noteq> Persisting")
  case True
  with x doc ok show ?thesis by (auto simp: extract_document_def)
next
  case False
  let ?chunks = "document_chunks doc (pp_graph db)"
  let ?groups = "request_groups env cfg db ?chunks"
  have keys: "graph_keys (pp_graph db)" using ok by (simp add: pipe_ok_def graph_ok_def)
  note ins = document_chunks_in [OF keys, of doc]
  have req: "concat (concat ?groups) = filter (\<lambda>c. \<not> chunk_run_succeeded env db c) ?chunks"
    using request_groups_chunks [OF cfg] ins by blast
  then have sub: "set (concat (concat ?groups)) \<subseteq> set ?chunks" "distinct (concat (concat ?groups))"
    using ins by (simp_all add: distinct_map)
  obtain db1 e s1 where g: "run_groups env cfg ext committed doc (chunk_contexts env doc ?chunks (pt_previous cfg) (pt_batch cfg)) ?groups db s
      = ((db1, e), s1)" by (metis prod.exhaust)
  note st = groups_step [OF g ok in_document_mono [OF conjunct1 [OF ins] sub(1)] sp inj sub]
  have kept: "chunk_run_succeeded env db1 c" if c: "c \<in> set ?chunks" "chunk_run_succeeded env db c" for c
    using step_other [OF conjunct1 [OF st] inj sub(1) c(1)] c(2) unfolding req by simp
  show ?thesis
  proof (cases e)
    case None
    with x doc False g have "db' = db1" by (auto simp: extract_document_def Let_def)
    moreover have "chunk_run_succeeded env db1 c" if "c \<in> set ?chunks" for c
    proof (cases "chunk_run_succeeded env db c")
      case False
      with that have "c \<in> set (concat (concat ?groups))" unfolding req by simp
      with st None show ?thesis by blast
    qed (use kept that in blast)
    ultimately show ?thesis using st by (simp add: step_ok_def)
  next
    case (Some ea)
    obtain e1 act where ea: "ea = (e1, act)" by (cases ea)
    with x doc False g Some have db': "db' = fold (\<lambda>c db. fail_run env e1 db c) act db1" "r = Inl e1"
      by (auto simp: extract_document_def Let_def)
    have "pipe_ok db1" "grows (pp_graph db) (pp_graph db1)" using st by (simp_all add: step_ok_def)
    with fail_runs_step [of db1 env e1 act] kept show ?thesis unfolding db' by simp
  qed
qed

section \<open>A concrete document\<close>

definition demo_env :: pipe_env where
  "demo_env = \<lparr>pe_unicode = stub_unicode, pe_sha = (\<lambda>s. s), pe_now = 0, pe_str = (\<lambda>_. []), pe_error = (\<lambda>_. ''failed''),
     pe_meta = \<lparr>xm_provider = ''p'', xm_model = ''m'', xm_extractor = ''v'', xm_prompt = ''q''\<rparr>\<rparr>"

definition demo_db :: pipe_db where
  "demo_db = \<lparr>pp_graph = empty_graph\<lparr>g_documents := [sample_document ''x''], g_chunks := [sample_chunk ''x'']\<rparr>, pp_runs = []\<rparr>"

definition demo_extractor :: "unit extractor" where
  "demo_extractor = Plain (\<lambda>c s. (Inr \<lparr>ex_entities = [plain_entity (cx_target c) ''Thing'' 1], ex_relations = []\<rparr>, s))"

definition demo_settings :: pipe_settings where
  "demo_settings = \<lparr>pt_parallelism = 1, pt_batch = 10, pt_previous = 10\<rparr>"

lemma demo_facts:
  "pipe_ok demo_db" "0 < pt_batch demo_settings" "0 < pt_parallelism demo_settings"
  "get_row dc_id ''x'' (g_documents (pp_graph demo_db)) = Some (sample_document ''x'')"
  "inj_on (run_key demo_env) (set (document_chunks (sample_document ''x'') (pp_graph demo_db)))"
  "nfkc_spaces (u_nfkc (pe_unicode demo_env))"
  by (simp_all add: pipe_ok_def graph_ok_def graph_keys_def graph_refs_def demo_db_def demo_settings_def empty_graph_def
      sample_document_def sample_chunk_def document_chunks_def get_row_def demo_env_def stub_unicode_def nfkc_spaces_def
      space_text_def order_by_def)

lemma demo_run: "fst (fst (extract_document demo_env demo_settings demo_extractor (\<lambda>_. None) ''x'' demo_db ())) = Inr ()"
  by code_simp

text \<open>A repeated entity of an extraction is listed twice under its name, so that its relations are dropped
  as ambiguous.\<close>

definition demo_chunk :: chunk where
  "demo_chunk = (sample_chunk ''x'')\<lparr>ck_text := ''a uses b''\<rparr>"

definition demo_extraction :: "xentity list \<Rightarrow> extraction" where
  "demo_extraction es = \<lparr>ex_entities = es, ex_relations = [plain_relation ''a'' ''USES'' ''b'' 1]\<rparr>"

definition relations_after :: "xentity list \<Rightarrow> nat" where
  "relations_after es = (case persist_extraction demo_env (sample_document ''x'') demo_chunk (demo_extraction es) empty_graph of
     Inr g \<Rightarrow> length (g_relations g) | Inl _ \<Rightarrow> 99)"

lemma duplicate_entity_drops_relation:
  "relations_after [plain_entity ''a'' ''T'' 1, plain_entity ''b'' ''T'' 1] = 1"
  "relations_after [plain_entity ''a'' ''T'' 1, plain_entity ''a'' ''T'' 1, plain_entity ''b'' ''T'' 1] = 0"
  by code_simp+

section \<open>Properties\<close>





end
