(* ===== verification/Consolidation.thy ===== *)
theory Consolidation
  imports PipelineProps
begin

text \<open>
  Document consolidation: \<open>app/graph/consolidation.py\<close> (the input and its snapshot hash, the checks on
  the model's output) and the second half of \<open>app/graph/pipeline.py\<close> (the consolidation run, and the
  relations, aliases and evidence it adds to the graph).

  The session of \<open>consolidate_document\<close> commits on failure too, with whatever the failing step has
  already added; a step that may fail half-way therefore returns its state beside the exception.
\<close>

section \<open>Data\<close>

record cons_relation =
  cl_source :: string
  cl_source_type :: string
  cl_target :: string
  cl_target_type :: string
  cl_type :: string
  cl_chunk :: string
  cl_quote :: string
  cl_confidence :: rat

record cons_alias =
  ca_name :: string
  ca_type :: string
  ca_alias :: string
  ca_chunk :: string
  ca_quote :: string
  ca_confidence :: rat

record cons_output =
  co_relations :: "cons_relation list"
  co_aliases :: "cons_alias list"

record cons_run =
  cn_id :: string
  cn_project :: string
  cn_dataset :: string
  cn_document :: string
  cn_snapshot :: string
  cn_extractor :: string
  cn_version :: string
  cn_prompt :: string
  cn_status :: run_status
  cn_output :: "cons_output option"
  cn_error :: "string option"
  cn_completed :: "int option"

record cons_db =
  cd_pipe :: pipe_db
  cd_runs :: "cons_run list"

section \<open>The input and its snapshot\<close>

text \<open>\<open>ensure_ascii=True\<close> escapes everything outside the printable ASCII range.\<close>

definition json_char_ascii :: "char \<Rightarrow> string" where
  "json_char_ascii c = (if 126 < ord_of c then CHR 0x5C # ''u'' @ hex_pad 4 (ord_of c) else json_char c)"

text \<open>\<open>sort_keys=True\<close>\<close>

fun sort_keys :: "json \<Rightarrow> json" where
  "sort_keys (JList xs) = JList (map sort_keys xs)"
| "sort_keys (JObj kvs) = JObj (order_by fst (map (\<lambda>kv. (fst kv, sort_keys (snd kv))) kvs))"
| "sort_keys v = v"

text \<open>\<open>model_dump(mode="json")\<close> of an extraction, as the run stores it.\<close>

definition entity_json :: "xentity \<Rightarrow> json" where
  "entity_json e = JObj [(''name'', JStr (xe_name e)), (''type'', JStr (xe_type e)),
     (''confidence'', JFloat (xe_confidence e)), (''aliases'', JList (map JStr (xe_aliases e)))]"

definition relation_json :: "xrelation \<Rightarrow> json" where
  "relation_json r = JObj [(''source'', JStr (xr_source r)), (''target'', JStr (xr_target r)), (''type'', JStr (xr_type r)),
     (''confidence'', JFloat (xr_confidence r)), (''source_type'', json_opt (xr_source_type r)),
     (''target_type'', json_opt (xr_target_type r)), (''quote'', json_opt (xr_quote r))]"

definition extraction_json :: "extraction \<Rightarrow> json" where
  "extraction_json x = JObj [(''entities'', JList (map entity_json (ex_entities x))),
     (''relations'', JList (map relation_json (ex_relations x)))]"

definition meta_or :: "string \<Rightarrow> json \<Rightarrow> chunk \<Rightarrow> json" where
  "meta_or k d c = (case map_of (ck_metadata c) k of Some v \<Rightarrow> v | None \<Rightarrow> d)"

definition payload_item :: "chunk \<Rightarrow> extraction \<Rightarrow> json" where
  "payload_item c x = JObj [(''chunk_id'', JStr (ck_id c)), (''chunk_index'', JInt (ck_index c)),
     (''section_path'', meta_or ''section_path'' (JList []) c), (''page_number'', meta_or ''page_number'' JNull c),
     (''entities'', JList (map entity_json (ex_entities x))), (''relations'', JList (map relation_json (ex_relations x)))]"

definition identity_item :: "(string \<Rightarrow> string) \<Rightarrow> (rat \<Rightarrow> string) \<Rightarrow> chunk \<Rightarrow> extraction \<Rightarrow> json" where
  "identity_item sha fr c x = JObj [(''chunk_id'', JStr (ck_id c)), (''chunk_index'', JInt (ck_index c)),
     (''text_hash'', JStr (sha (ck_text c))),
     (''raw_hash'', JStr (sha (json_dumps json_char_ascii fr (sort_keys (extraction_json x))))),
     (''section_path'', meta_or ''section_path'' (JList []) c), (''page_number'', meta_or ''page_number'' JNull c)]"

definition build_input :: "(string \<Rightarrow> string) \<Rightarrow> (rat \<Rightarrow> string) \<Rightarrow> chunk list \<Rightarrow> (string \<times> extraction) list \<Rightarrow> string \<times> json" where
  "build_input sha fr chunks raw =
     (let known = List.map_filter (\<lambda>c. map_option (Pair c) (map_of raw (ck_id c)))
            (order_by (\<lambda>c. (ck_index c, ck_id c)) chunks)
      in (sha (json_dumps json_char_ascii fr (sort_keys (JList (map (\<lambda>(c, x). identity_item sha fr c x) known)))),
          JList (map (\<lambda>(c, x). payload_item c x) known)))"

section \<open>The checks on the output\<close>

definition check_quote :: "(string \<Rightarrow> string) \<Rightarrow> chunk list \<Rightarrow> string \<Rightarrow> string \<Rightarrow> string list \<Rightarrow> unit res" where
  "check_quote nfkc chunks k quote mentions =
     (case find (\<lambda>c. ck_id c = k) chunks of
        None \<Rightarrow> Inl (ValueError ''consolidation evidence references an unknown chunk'')
      | Some c \<Rightarrow>
          if quote = [] \<or> find_evidence nfkc (ck_text c) quote = None
          then Inl (ValueError ''consolidation evidence quote is not an exact chunk substring'')
          else guardE (list_all (\<lambda>m. py_contains m quote) mentions) (ValueError ''evidence must mention both names''))"

fun check_relations :: "(string \<Rightarrow> string) \<Rightarrow> chunk list \<Rightarrow> (string \<times> string) list \<Rightarrow> cons_relation list \<Rightarrow> unit res" where
  "check_relations nfkc chunks seen [] = Inr ()"
| "check_relations nfkc chunks seen (r # rs) =
     bindE (check_quote nfkc chunks (cl_chunk r) (cl_quote r) [cl_source r, cl_target r]) (\<lambda>_.
     bindE (guardE ((cl_chunk r, cl_quote r) \<notin> set seen) (ValueError ''duplicate evidence references'')) (\<lambda>_.
       check_relations nfkc chunks ((cl_chunk r, cl_quote r) # seen) rs))"

fun check_aliases :: "(string \<Rightarrow> string) \<Rightarrow> chunk list \<Rightarrow> (string \<times> string) list \<Rightarrow> cons_alias list \<Rightarrow> unit res" where
  "check_aliases nfkc chunks seen [] = Inr ()"
| "check_aliases nfkc chunks seen (a # as) =
     bindE (check_quote nfkc chunks (ca_chunk a) (ca_quote a) [ca_alias a, ca_name a]) (\<lambda>_.
     bindE (guardE ((ca_chunk a, ca_quote a) \<notin> set seen) (ValueError ''duplicate evidence references'')) (\<lambda>_.
       check_aliases nfkc chunks ((ca_chunk a, ca_quote a) # seen) as))"

text \<open>The keys of \<open>seen\<close> carry the class of the item, so relations and aliases do not meet.\<close>

definition validate_output :: "(string \<Rightarrow> string) \<Rightarrow> chunk list \<Rightarrow> cons_output \<Rightarrow> unit res" where
  "validate_output nfkc chunks out =
     bindE (check_relations nfkc chunks [] (co_relations out)) (\<lambda>_.
     bindE (check_aliases nfkc chunks [] (co_aliases out)) (\<lambda>_.
       guardE (list_all (\<lambda>r. \<not> (cl_source r = cl_target r \<and> cl_source_type r = cl_target_type r)) (co_relations out))
         (ValueError ''consolidation output has a self-relation'')))"

section \<open>Persisting the output\<close>

text \<open>A state with the exception that stopped the work on it.\<close>

type_synonym 's partial = "'s \<times> err option"

definition thenP :: "'s partial \<Rightarrow> ('s \<Rightarrow> 's partial) \<Rightarrow> 's partial" where
  "thenP m f = (case m of (s, Some e) \<Rightarrow> (s, Some e) | (s, None) \<Rightarrow> f s)"

definition tryP :: "'s \<Rightarrow> 's res \<Rightarrow> 's partial" where
  "tryP s m = (case m of Inl e \<Rightarrow> (s, Some e) | Inr t \<Rightarrow> (t, None))"

fun foldP :: "('a \<Rightarrow> 's \<Rightarrow> 's partial) \<Rightarrow> 'a list \<Rightarrow> 's \<Rightarrow> 's partial" where
  "foldP f [] s = (s, None)"
| "foldP f (x # xs) s = thenP (f x s) (foldP f xs)"

definition succeeded_run :: "document \<Rightarrow> string \<Rightarrow> grun list \<Rightarrow> grun option" where
  "succeeded_run doc k runs = find (\<lambda>r. gr_document r = dc_id doc \<and> gr_chunk r = k \<and> gr_status r = RSucceeded) runs"

text \<open>\<open>_add_consolidation_evidence\<close>: the evidence row to be ensured.\<close>

definition consolidation_evidence :: "pipe_env \<Rightarrow> document \<Rightarrow> grun list \<Rightarrow> string \<Rightarrow> string \<Rightarrow> string \<Rightarrow> rat
    \<Rightarrow> string option \<Rightarrow> string option \<Rightarrow> graph_db \<Rightarrow> gevidence res" where
  "consolidation_evidence env doc runs run_id k quote conf entity relation g =
     (case get_row ck_id k (g_chunks g) of
        None \<Rightarrow> Inl (ValueError ''consolidation evidence is invalid'')
      | Some c \<Rightarrow>
          (case find_evidence (u_nfkc (pe_unicode env)) (ck_text c) quote of
             None \<Rightarrow> Inl (ValueError ''consolidation evidence is invalid'')
           | Some found \<Rightarrow>
               if ck_project c \<noteq> dc_project doc \<or> ck_dataset c \<noteq> dc_dataset doc \<or> ck_document c \<noteq> dc_id doc
               then Inl (ValueError ''consolidation evidence is invalid'')
               else (case succeeded_run doc k runs of
                   None \<Rightarrow> Inl (ValueError ''consolidation evidence has no successful extraction run'')
                 | Some r \<Rightarrow>
                     let subject = (case entity of Some e \<Rightarrow> e | None \<Rightarrow> (case relation of Some e \<Rightarrow> e | None \<Rightarrow> []))
                     in Inr (evidence_row doc (stable_id (pe_sha env) ''ev'' [run_id, subject, k, snd found]) k (gr_id r)
                       entity relation found conf))))"

definition add_consolidation_evidence :: "pipe_env \<Rightarrow> document \<Rightarrow> grun list \<Rightarrow> string \<Rightarrow> string \<Rightarrow> string \<Rightarrow> rat
    \<Rightarrow> string option \<Rightarrow> string option \<Rightarrow> graph_db \<Rightarrow> (graph_db \<times> string) res" where
  "add_consolidation_evidence env doc runs run_id k quote conf entity relation g =
     bindE (consolidation_evidence env doc runs run_id k quote conf entity relation g) (\<lambda>v.
       bindE (ensure_evidence v g) (\<lambda>g. Inr (g, gv_id v)))"

text \<open>The entities of the document's evidence, by normalised name and type; the last one wins.\<close>

definition document_entities :: "pipe_env \<Rightarrow> document \<Rightarrow> graph_db \<Rightarrow> ((string \<times> string) \<times> gentity) list" where
  "document_entities env doc g =
     (let u = pe_unicode env;
          cited = List.map_filter gv_entity (filter (\<lambda>v. gv_project v = dc_project doc \<and> gv_dataset v = dc_dataset doc
            \<and> gv_document v = dc_id doc) (g_evidence g));
          es = filter (\<lambda>e. en_project e = dc_project doc \<and> en_dataset e = dc_dataset doc \<and> en_id e \<in> set cited) (g_entities g)
      in fold (\<lambda>e d. AList.update (normalize_name u (en_name e), normalize_name u (en_type e)) e d) es [])"

definition lookup_entity :: "pipe_env \<Rightarrow> ((string \<times> string) \<times> gentity) list \<Rightarrow> string \<Rightarrow> string \<Rightarrow> gentity option" where
  "lookup_entity env d name type = map_of d (normalize_name (pe_unicode env) name, normalize_name (pe_unicode env) type)"

definition persist_cons_relation :: "pipe_env \<Rightarrow> document \<Rightarrow> grun list \<Rightarrow> string \<Rightarrow> ((string \<times> string) \<times> gentity) list
    \<Rightarrow> cons_relation \<Rightarrow> graph_db \<Rightarrow> graph_db partial" where
  "persist_cons_relation env doc runs run_id d item g =
     (case (lookup_entity env d (cl_source item) (cl_source_type item), lookup_entity env d (cl_target item) (cl_target_type item)) of
        (Some source, Some target) \<Rightarrow>
          if en_id source = en_id target then (g, Some (ValueError ''consolidation relation endpoints do not resolve uniquely''))
          else
            let k = relation_key env doc (en_id source) (cl_type item) (en_id target) in
            thenP (tryP g (ensure_relation (new_relation env doc k (en_id source) (en_id target) (cl_type item)
                (cl_confidence item) NeedsReview) g))
              (\<lambda>g. tryP g (bindE (add_consolidation_evidence env doc runs run_id (cl_chunk item) (cl_quote item)
                (cl_confidence item) None (Some k) g) (\<lambda>(g, _). Inr g)))
      | _ \<Rightarrow> (g, Some (ValueError ''consolidation relation endpoints do not resolve uniquely'')))"

definition add_alias :: "galias \<Rightarrow> graph_db \<Rightarrow> graph_db res" where
  "add_alias a g =
     bindE (width 500 (as_alias a)) (\<lambda>_. bindE (width 500 (as_norm a)) (\<lambda>_. bindE (width 100 (as_type a)) (\<lambda>_.
     bindE (confidence_check (as_confidence a)) (\<lambda>_.
     bindE (guardE (\<not> list_ex (\<lambda>x. as_dataset x = as_dataset a \<and> as_norm x = as_norm a \<and> as_type x = as_type a) (g_aliases g))
       (IntegrityError ''unique'')) (\<lambda>_.
     bindE (insert_row as_id a (g_aliases g)) (\<lambda>as. Inr (g\<lparr>g_aliases := as\<rparr>)))))))"

definition link_alias :: "string \<Rightarrow> string \<Rightarrow> graph_db \<Rightarrow> graph_db" where
  "link_alias a v g =
     (if list_ex (\<lambda>x. ae_alias x = a \<and> ae_evidence x = v) (g_alias_evidence g) then g
      else g\<lparr>g_alias_evidence := g_alias_evidence g @ [\<lparr>ae_alias = a, ae_evidence = v\<rparr>]\<rparr>)"

definition new_alias :: "pipe_env \<Rightarrow> document \<Rightarrow> gentity \<Rightarrow> cons_alias \<Rightarrow> galias" where
  "new_alias env doc e item =
     (let u = pe_unicode env; n = normalize_name u (ca_alias item) in
      \<lparr>as_id = stable_id (pe_sha env) ''alias'' [dc_dataset doc, en_id e, n, normalize_name u (ca_type item)],
       as_project = dc_project doc, as_dataset = dc_dataset doc, as_entity = en_id e, as_alias = ca_alias item,
       as_norm = n, as_type = ca_type item, as_confidence = ca_confidence item\<rparr>)"

definition persist_cons_alias :: "pipe_env \<Rightarrow> document \<Rightarrow> grun list \<Rightarrow> string \<Rightarrow> ((string \<times> string) \<times> gentity) list
    \<Rightarrow> cons_alias \<Rightarrow> graph_db \<Rightarrow> graph_db partial" where
  "persist_cons_alias env doc runs run_id d item g =
     (let u = pe_unicode env; n = normalize_name u (ca_alias item) in
      case lookup_entity env d (ca_name item) (ca_type item) of
        None \<Rightarrow> (g, Some (ValueError ''consolidation alias canonical entity does not resolve''))
      | Some e \<Rightarrow>
          if n = normalize_name u (en_name e) then (g, None)
          else
            let found = find (\<lambda>a. as_project a = dc_project doc \<and> as_dataset a = dc_dataset doc \<and> as_norm a = n
                  \<and> as_type a = ca_type item) (g_aliases g);
                alias = (case found of Some a \<Rightarrow> a | None \<Rightarrow> new_alias env doc e item)
            in thenP
                 (case found of
                    None \<Rightarrow> tryP g (add_alias alias g)
                  | Some a \<Rightarrow> if as_entity a \<noteq> en_id e
                      then (g, Some (ValueError ''ambiguous exact alias maps to multiple canonical entities'')) else (g, None))
                 (\<lambda>g. tryP g (bindE (add_consolidation_evidence env doc runs run_id (ca_chunk item) (ca_quote item)
                    (ca_confidence item) (Some (en_id e)) None g) (\<lambda>(g, v). Inr (link_alias (as_id alias) v g)))))"

definition persist_consolidation :: "pipe_env \<Rightarrow> document \<Rightarrow> grun list \<Rightarrow> string \<Rightarrow> cons_output \<Rightarrow> graph_db \<Rightarrow> graph_db partial" where
  "persist_consolidation env doc runs run_id out g =
     (let d = document_entities env doc g in
      thenP (foldP (persist_cons_relation env doc runs run_id d) (co_relations out) g)
        (foldP (persist_cons_alias env doc runs run_id d) (co_aliases out)))"

section \<open>The consolidation of a document\<close>

record cons_settings =
  cs_version :: string
  cs_prompt :: string
  cs_max :: nat

definition raw_extractions :: "pipe_env \<Rightarrow> document \<Rightarrow> grun list \<Rightarrow> (string \<times> extraction) list" where
  "raw_extractions env doc runs = fold (\<lambda>r d. case gr_raw r of Some x \<Rightarrow> AList.update (gr_chunk r) x d | None \<Rightarrow> d)
     (filter (\<lambda>r. gr_document r = dc_id doc \<and> gr_extractor r = xm_extractor (pe_meta env) \<and> gr_status r = RSucceeded) runs) []"

definition new_cons_run :: "pipe_env \<Rightarrow> cons_settings \<Rightarrow> document \<Rightarrow> string \<Rightarrow> string \<Rightarrow> cons_run" where
  "new_cons_run env cfg doc k snapshot =
     \<lparr>cn_id = k, cn_project = dc_project doc, cn_dataset = dc_dataset doc, cn_document = dc_id doc,
      cn_snapshot = snapshot, cn_extractor = xm_extractor (pe_meta env), cn_version = cs_version cfg,
      cn_prompt = cs_prompt cfg, cn_status = RRunning, cn_output = None, cn_error = None, cn_completed = None\<rparr>"

definition update_cons_run :: "string \<Rightarrow> (cons_run \<Rightarrow> cons_run) \<Rightarrow> cons_db \<Rightarrow> cons_db" where
  "update_cons_run k f db = db\<lparr>cd_runs := upd_row cn_id k f (cd_runs db)\<rparr>"

definition open_cons_run :: "pipe_env \<Rightarrow> cons_settings \<Rightarrow> document \<Rightarrow> string \<Rightarrow> string \<Rightarrow> cons_db \<Rightarrow> cons_db" where
  "open_cons_run env cfg doc k snapshot db =
     (case get_row cn_id k (cd_runs db) of
        None \<Rightarrow> db\<lparr>cd_runs := cd_runs db @ [new_cons_run env cfg doc k snapshot]\<rparr>
      | Some _ \<Rightarrow> update_cons_run k (\<lambda>r. r\<lparr>cn_status := RRunning, cn_error := None, cn_completed := None\<rparr>) db)"

definition fail_cons_run :: "pipe_env \<Rightarrow> string \<Rightarrow> err \<Rightarrow> cons_db \<Rightarrow> cons_db" where
  "fail_cons_run env k e = update_cons_run k (\<lambda>r. r\<lparr>cn_status := RFailed, cn_error := Some (pe_error env e),
     cn_completed := Some (pe_now env)\<rparr>)"

definition with_graph :: "graph_db \<Rightarrow> cons_db \<Rightarrow> cons_db" where
  "with_graph g db = db\<lparr>cd_pipe := (cd_pipe db)\<lparr>pp_graph := g\<rparr>\<rparr>"

text \<open>After an error of the database the session cannot commit; the bookkeeping fails with it.\<close>

definition db_error :: "err \<Rightarrow> bool" where
  "db_error e = (case e of IntegrityError _ \<Rightarrow> True | DataError _ \<Rightarrow> True | _ \<Rightarrow> False)"

definition finish_consolidation :: "pipe_env \<Rightarrow> document \<Rightarrow> chunk list \<Rightarrow> string \<Rightarrow> cons_output \<Rightarrow> cons_db \<Rightarrow> cons_db \<Rightarrow> cons_db partial" where
  "finish_consolidation env doc chunks k out before db =
     (case validate_output (u_nfkc (pe_unicode env)) chunks out of
        Inl e \<Rightarrow> (fail_cons_run env k e db, Some e)
      | Inr _ \<Rightarrow>
          (case persist_consolidation env doc (pp_runs (cd_pipe db)) k out (pp_graph (cd_pipe db)) of
             (g, None) \<Rightarrow> (update_cons_run k (\<lambda>r. r\<lparr>cn_status := RSucceeded, cn_error := None,
                 cn_completed := Some (pe_now env)\<rparr>) (with_graph g db), None)
           | (g, Some e) \<Rightarrow> if db_error e then (before, Some e)
               else (fail_cons_run env k e (with_graph g db), Some e)))"

definition consolidate_document :: "pipe_env \<Rightarrow> (rat \<Rightarrow> string) \<Rightarrow> cons_settings \<Rightarrow> ('s \<Rightarrow> json \<Rightarrow> cons_output res \<times> 's)
    \<Rightarrow> document \<Rightarrow> chunk list \<Rightarrow> cons_db \<Rightarrow> 's \<Rightarrow> cons_db partial \<times> 's" where
  "consolidate_document env fr cfg ask doc chunks db s =
     (if chunks = [] then ((db, None), s)
      else let raw = raw_extractions env doc (pp_runs (cd_pipe db)) in
      if set (map fst raw) \<noteq> set (map ck_id chunks)
      then ((db, Some (ValueError ''consolidation requires successful raw extraction for every chunk'')), s)
      else case build_input (pe_sha env) fr chunks raw of (snapshot, payload) \<Rightarrow>
      if cs_max cfg < length (json_dumps json_char fr payload)
      then ((db, Some (ValueError ''consolidation input exceeds configured character limit'')), s)
      else let k = stable_id (pe_sha env) ''con'' [dc_id doc, snapshot, xm_extractor (pe_meta env), cs_version cfg];
               done = (case get_row cn_id k (cd_runs db) of
                         Some r \<Rightarrow> if cn_status r = RSucceeded then cn_output r else None
                       | None \<Rightarrow> None)
      in case done of
           Some out \<Rightarrow>
             (case persist_consolidation env doc (pp_runs (cd_pipe db)) k out (pp_graph (cd_pipe db)) of
                (g, None) \<Rightarrow> ((with_graph g db, None), s)
              | (_, Some e) \<Rightarrow> ((db, Some e), s))
         | None \<Rightarrow>
             let db1 = open_cons_run env cfg doc k snapshot db in
             (case ask s payload of
                (Inl e, s) \<Rightarrow> ((fail_cons_run env k e db1, Some e), s)
              | (Inr out, s) \<Rightarrow>
                  (finish_consolidation env doc chunks k out db (update_cons_run k (\<lambda>r. r\<lparr>cn_output := Some out\<rparr>) db1), s)))"

section \<open>Every state it leaves keeps the graph\<close>

lemma thenP_invariant:
  "P (fst m) \<Longrightarrow> (\<And>s. P s \<Longrightarrow> P (fst (f s))) \<Longrightarrow> P (fst (thenP m f))"
  by (cases m) (auto simp: thenP_def split: option.split)

lemma tryP_invariant: "P s \<Longrightarrow> (\<And>t. m = Inr t \<Longrightarrow> P t) \<Longrightarrow> P (fst (tryP s m))"
  by (cases m) (auto simp: tryP_def)

lemma foldP_invariant:
  "P s \<Longrightarrow> (\<And>x s. x \<in> set xs \<Longrightarrow> P s \<Longrightarrow> P (fst (f x s))) \<Longrightarrow> P (fst (foldP f xs s))"
proof (induction xs arbitrary: s)
  case (Cons x xs)
  show ?case unfolding foldP.simps
    by (rule thenP_invariant [where P = P]) (use Cons in auto)
qed simp

text \<open>The graph holds and its entities include those of a dictionary of entities.\<close>

definition dict_known :: "graph_db \<Rightarrow> ((string \<times> string) \<times> gentity) list \<Rightarrow> graph_db \<Rightarrow> bool" where
  "dict_known g0 d g \<longleftrightarrow> graph_ok g \<and> grows g0 g \<and> (\<forall>e\<in>ran (map_of d). en_id e \<in> en_id ` set (g_entities g))"

lemma dict_known_step:
  "dict_known g0 d g \<Longrightarrow> graph_ok h \<Longrightarrow> grows g h \<Longrightarrow> dict_known g0 d h"
  using grows_trans by (fastforce simp: dict_known_def grows_def)

lemma lookup_known:
  "dict_known g0 d g \<Longrightarrow> lookup_entity env d n t = Some e \<Longrightarrow> en_id e \<in> en_id ` set (g_entities g)"
  by (auto simp: dict_known_def lookup_entity_def ran_def)

lemma cons_evidence_fits:
  assumes v: "consolidation_evidence env doc runs run_id k quote conf e r g = Inr v"
    and er: "opt_in e (en_id ` set (g_entities g))" "opt_in r (rl_id ` set (g_relations g))" "(e = None) \<noteq> (r = None)"
    and sp: "nfkc_spaces (u_nfkc (pe_unicode env))"
  shows "evidence_fits g v"
proof -
  let ?f = "u_nfkc (pe_unicode env)"
  obtain c where g: "get_row ck_id k (g_chunks g) = Some c"
    using v by (cases "get_row ck_id k (g_chunks g)") (simp_all add: consolidation_evidence_def)
  obtain found where f: "find_evidence ?f (ck_text c) quote = Some found"
    using v g by (cases "find_evidence ?f (ck_text c) quote") (simp_all add: consolidation_evidence_def)
  have d: "ck_document c = dc_id doc" using v g f by (simp add: consolidation_evidence_def split: if_splits)
  obtain r0 where r0: "succeeded_run doc k runs = Some r0"
    using v g f by (cases "succeeded_run doc k runs") (simp_all add: consolidation_evidence_def split: if_splits)
  obtain j gr where "v = evidence_row doc j k gr e r found conf"
    using v g f r0 by (simp add: consolidation_evidence_def Let_def split: if_splits) (metis (no_types))
  with g f d have c: "get_row ck_id k (g_chunks g) = Some c" "ck_document c = dc_id doc"
    "find_evidence ?f (ck_text c) quote = Some found" "v = evidence_row doc j k gr e r found conf" by simp_all
  then have ck: "c \<in> set (g_chunks g)" "ck_id c = k" by (auto dest: get_row_SomeD)
  have "exact_in (g_chunks g) v" using evidence_row_exact [OF c(3) sp ck(1) c(2)] ck(2) c(4) by simp
  then show ?thesis using er c(4) by (simp add: evidence_fits_def evidence_row_def)
qed

lemma add_cons_evidence_ok:
  assumes a: "add_consolidation_evidence env doc runs run_id k quote conf e r g = Inr (h, vid)" and ok: "graph_ok g"
    and er: "opt_in e (en_id ` set (g_entities g))" "opt_in r (rl_id ` set (g_relations g))" "(e = None) \<noteq> (r = None)"
    and sp: "nfkc_spaces (u_nfkc (pe_unicode env))"
  shows "graph_ok h \<and> grows g h"
proof -
  obtain v where v: "consolidation_evidence env doc runs run_id k quote conf e r g = Inr v" "ensure_evidence v g = Inr h"
    using a by (auto simp: add_consolidation_evidence_def bindE_Inr_iff)
  from ensure_evidence_ok [OF v(2) ok cons_evidence_fits [OF v(1) er sp]] show ?thesis by (auto simp: grows_def)
qed

lemma persist_cons_relation_known:
  assumes k: "dict_known g0 d g" and sp: "nfkc_spaces (u_nfkc (pe_unicode env))"
  shows "dict_known g0 d (fst (persist_cons_relation env doc runs run_id d item g))"
proof (cases "\<exists>a b. lookup_entity env d (cl_source item) (cl_source_type item) = Some a
    \<and> lookup_entity env d (cl_target item) (cl_target_type item) = Some b \<and> en_id a \<noteq> en_id b")
  case False
  then have "fst (persist_cons_relation env doc runs run_id d item g) = g"
    by (cases "lookup_entity env d (cl_source item) (cl_source_type item)";
        cases "lookup_entity env d (cl_target item) (cl_target_type item)"; simp add: persist_cons_relation_def)
  with k show ?thesis by (simp only:)
next
  case True
  then obtain a b where ab: "lookup_entity env d (cl_source item) (cl_source_type item) = Some a"
    "lookup_entity env d (cl_target item) (cl_target_type item) = Some b" "en_id a \<noteq> en_id b" by blast
  note ends = lookup_known [OF k ab(1)] lookup_known [OF k ab(2)]
  let ?k = "relation_key env doc (en_id a) (cl_type item) (en_id b)"
  let ?r = "new_relation env doc ?k (en_id a) (en_id b) (cl_type item) (cl_confidence item) NeedsReview"
  have p: "persist_cons_relation env doc runs run_id d item g = thenP (tryP g (ensure_relation ?r g))
      (\<lambda>g. tryP g (bindE (add_consolidation_evidence env doc runs run_id (cl_chunk item) (cl_quote item)
                (cl_confidence item) None (Some ?k) g) (\<lambda>(g, _). Inr g)))"
    using ab by (simp add: persist_cons_relation_def Let_def)
  have ok: "graph_ok g" using k by (simp add: dict_known_def)
  show ?thesis
  proof (cases "ensure_relation ?r g")
    case (Inl e)
    then show ?thesis using k unfolding p by (simp add: tryP_def thenP_def)
  next
    case (Inr h)
    note h = ensure_relation_ok [OF Inr ok, unfolded new_relation_ends, OF ends]
    have kh: "dict_known g0 d h" using dict_known_step [OF k] h by blast
    show ?thesis unfolding p Inr tryP_def thenP_def
    proof (simp split: sum.split, intro conjI impI allI)
      show "dict_known g0 d h" by (rule kh)
      fix t assume "bindE (add_consolidation_evidence env doc runs run_id (cl_chunk item) (cl_quote item)
        (cl_confidence item) None (Some ?k) h) (\<lambda>(g, _). Inr g) = Inr t"
      then obtain vid where "add_consolidation_evidence env doc runs run_id (cl_chunk item) (cl_quote item)
        (cl_confidence item) None (Some ?k) h = Inr (t, vid)" by (auto simp: bindE_Inr_iff)
      from add_cons_evidence_ok [OF this _ _ _ _ sp] h have "graph_ok t \<and> grows h t" by simp
      then show "dict_known g0 d t" using dict_known_step [OF kh] by blast
    qed
  qed
qed

lemma add_alias_Inr:
  "add_alias a g = Inr g' \<Longrightarrow> g' = g\<lparr>g_aliases := g_aliases g @ [a]\<rparr> \<and> as_id a \<notin> as_id ` set (g_aliases g)"
  by (auto simp: add_alias_def bindE_Inr_iff insert_row_Inr_iff)

lemma add_alias_ok:
  assumes "add_alias a g = Inr h" "graph_ok g" "as_entity a \<in> en_id ` set (g_entities g)"
  shows "graph_ok h \<and> grows g h"
proof -
  have h: "h = g\<lparr>g_aliases := g_aliases g @ [a]\<rparr>" "as_id a \<notin> as_id ` set (g_aliases g)"
    using add_alias_Inr [OF assms(1)] by auto
  have "graph_refs h" using assms(2,3) unfolding h(1) graph_ok_def graph_refs_def by simp
  with assms(2) h show ?thesis by (auto simp: graph_ok_def graph_keys_def grows_def)
qed

lemma link_alias_ok: "graph_ok g \<Longrightarrow> graph_ok (link_alias a v g) \<and> grows g (link_alias a v g)"
  by (auto simp: link_alias_def graph_ok_def graph_keys_def graph_refs_def grows_def)

lemma cons_alias_evidence_known:
  assumes kh: "dict_known g0 d h" and e: "en_id e \<in> en_id ` set (g_entities h)" and sp: "nfkc_spaces (u_nfkc (pe_unicode env))"
  shows "dict_known g0 d (fst (tryP h (bindE (add_consolidation_evidence env doc runs run_id k quote conf (Some (en_id e)) None h)
      (\<lambda>(g, v). Inr (link_alias al v g)))))"
proof (rule tryP_invariant [where P = "dict_known g0 d", OF kh])
  fix t assume "bindE (add_consolidation_evidence env doc runs run_id k quote conf (Some (en_id e)) None h)
      (\<lambda>(g, v). Inr (link_alias al v g)) = Inr t"
  then obtain g v where g: "add_consolidation_evidence env doc runs run_id k quote conf (Some (en_id e)) None h = Inr (g, v)"
    "t = link_alias al v g" by (auto simp: bindE_Inr_iff)
  have "graph_ok h" using kh by (simp add: dict_known_def)
  from add_cons_evidence_ok [OF g(1) this _ _ _ sp] e have "graph_ok g" "grows h g" by simp_all
  with link_alias_ok [of g al v] g(2) grows_trans have "graph_ok t" "grows h t" by blast+
  then show "dict_known g0 d t" by (rule dict_known_step [OF kh])
qed

lemma persist_cons_alias_known:
  assumes k: "dict_known g0 d g" and sp: "nfkc_spaces (u_nfkc (pe_unicode env))"
  shows "dict_known g0 d (fst (persist_cons_alias env doc runs run_id d item g))"
proof (cases "lookup_entity env d (ca_name item) (ca_type item)")
  case None
  with k show ?thesis by (simp add: persist_cons_alias_def Let_def)
next
  case (Some e)
  let ?n = "normalize_name (pe_unicode env) (ca_alias item)"
  let ?found = "find (\<lambda>a. as_project a = dc_project doc \<and> as_dataset a = dc_dataset doc \<and> as_norm a = ?n
                  \<and> as_type a = ca_type item) (g_aliases g)"
  note known = lookup_known [OF k Some]
  have ok: "graph_ok g" using k by (simp add: dict_known_def)
  show ?thesis
  proof (cases "?n = normalize_name (pe_unicode env) (en_name e)")
    case True
    with k Some show ?thesis by (simp add: persist_cons_alias_def Let_def)
  next
    case False
    have step: "dict_known g0 d (fst (thenP m (\<lambda>g. tryP g (bindE (add_consolidation_evidence env doc runs run_id (ca_chunk item) (ca_quote item)
                    (ca_confidence item) (Some (en_id e)) None g) (\<lambda>(g, v). Inr (link_alias al v g))))))"
      if m: "dict_known g0 d (fst m) \<and> en_id e \<in> en_id ` set (g_entities (fst m))" for m al
    proof -
      obtain h o1 where ho: "m = (h, o1)" by (cases m)
      show ?thesis
        using m cons_alias_evidence_known [of g0 d h e env doc runs run_id "ca_chunk item" "ca_quote item" "ca_confidence item" al] sp
        by (cases o1) (simp_all add: ho thenP_def)
    qed
    show ?thesis
    proof (cases ?found)
      case None
      have "dict_known g0 d h \<and> en_id e \<in> en_id ` set (g_entities h)"
        if h: "add_alias (new_alias env doc e item) g = Inr h" for h
      proof -
        have "as_entity (new_alias env doc e item) \<in> en_id ` set (g_entities g)" using known by (simp add: new_alias_def Let_def)
        from add_alias_ok [OF h ok this] dict_known_step [OF k] known show ?thesis by (auto simp: grows_def)
      qed
      then have "dict_known g0 d (fst (tryP g (add_alias (new_alias env doc e item) g)))
          \<and> en_id e \<in> en_id ` set (g_entities (fst (tryP g (add_alias (new_alias env doc e item) g))))"
        using k known by (auto simp: tryP_def split: sum.split)
      from step [OF this] show ?thesis using Some False None by (simp add: persist_cons_alias_def Let_def)
    next
      case (Some a)
      from step [of "if as_entity a \<noteq> en_id e
          then (g, Some (ValueError ''ambiguous exact alias maps to multiple canonical entities'')) else (g, None)"] k known
      show ?thesis using Some False \<open>lookup_entity env d (ca_name item) (ca_type item) = Some e\<close>
        by (simp add: persist_cons_alias_def Let_def)
    qed
  qed
qed

lemma ran_fold_update:
  "x \<in> ran (map_of (fold (\<lambda>e d. AList.update (f e) e d) es d)) \<Longrightarrow> x \<in> set es \<or> x \<in> ran (map_of d)"
proof (induction es arbitrary: d)
  case (Cons e es)
  have "x \<in> set es \<or> x \<in> ran (map_of (AList.update (f e) e d))"
    by (rule Cons.IH) (use Cons.prems in simp)
  moreover have "ran (map_of (AList.update (f e) e d)) \<subseteq> insert e (ran (map_of d))"
    by (auto simp: ran_def split: if_splits)
  ultimately show ?case by (auto simp del: map_of_update)
qed simp

lemma document_entities_known: "graph_ok g \<Longrightarrow> dict_known g (document_entities env doc g) g"
proof -
  assume ok: "graph_ok g"
  have "e \<in> set (g_entities g)" if "e \<in> ran (map_of (document_entities env doc g))" for e
    using ran_fold_update [OF that [unfolded document_entities_def Let_def]] by simp
  with ok show ?thesis by (auto simp: dict_known_def)
qed

lemma persist_consolidation_ok:
  assumes ok: "graph_ok g" and sp: "nfkc_spaces (u_nfkc (pe_unicode env))"
  shows "graph_ok (fst (persist_consolidation env doc runs run_id out g))"
proof -
  let ?d = "document_entities env doc g"
  have "dict_known g ?d (fst (persist_consolidation env doc runs run_id out g))"
    unfolding persist_consolidation_def Let_def
    by (rule thenP_invariant [where P = "dict_known g ?d"]; rule foldP_invariant [where P = "dict_known g ?d"])
       (use document_entities_known [OF ok] persist_cons_relation_known persist_cons_alias_known sp in auto)
  then show ?thesis by (simp add: dict_known_def)
qed

lemma cons_pipe [simp]:
  "cd_pipe (update_cons_run k f db) = cd_pipe db" "cd_pipe (fail_cons_run env k e db) = cd_pipe db"
  "cd_pipe (open_cons_run env cfg doc k sn db) = cd_pipe db" "pp_runs (cd_pipe (with_graph g db)) = pp_runs (cd_pipe db)"
  "pp_graph (cd_pipe (with_graph g db)) = g"
  by (simp_all add: update_cons_run_def fail_cons_run_def open_cons_run_def with_graph_def split: option.split)

lemma finish_ok:
  assumes "pipe_ok (cd_pipe db)" "pipe_ok (cd_pipe before)" "nfkc_spaces (u_nfkc (pe_unicode env))"
  shows "pipe_ok (cd_pipe (fst (finish_consolidation env doc chunks k out before db)))"
proof -
  obtain g e where p: "persist_consolidation env doc (pp_runs (cd_pipe db)) k out (pp_graph (cd_pipe db)) = (g, e)"
    by (metis prod.exhaust)
  have "graph_ok g"
    using persist_consolidation_ok [of "pp_graph (cd_pipe db)" env doc "pp_runs (cd_pipe db)" k out] assms p by (simp add: pipe_ok_def)
  with assms p show ?thesis
    by (auto simp: finish_consolidation_def pipe_ok_def split: sum.split option.split)
qed

lemma consolidate_ok:
  assumes ok: "pipe_ok (cd_pipe db)" and sp: "nfkc_spaces (u_nfkc (pe_unicode env))"
  shows "pipe_ok (cd_pipe (fst (fst (consolidate_document env fr cfg ask doc chunks db s))))"
proof -
  let ?raw = "raw_extractions env doc (pp_runs (cd_pipe db))"
  obtain sn payload where b: "build_input (pe_sha env) fr chunks ?raw = (sn, payload)" by (metis prod.exhaust)
  let ?k = "stable_id (pe_sha env) ''con'' [dc_id doc, sn, xm_extractor (pe_meta env), cs_version cfg]"
  let ?done = "case get_row cn_id ?k (cd_runs db) of Some r \<Rightarrow> if cn_status r = RSucceeded then cn_output r else None | None \<Rightarrow> None"
  let ?db1 = "open_cons_run env cfg doc ?k sn db"
  show ?thesis
  proof (cases "chunks = [] \<or> set (map fst ?raw) \<noteq> set (map ck_id chunks) \<or> cs_max cfg < length (json_dumps json_char fr payload)")
    case True
    with ok b show ?thesis by (auto simp: consolidate_document_def Let_def)
  next
    case False
    show ?thesis
    proof (cases ?done)
      case (Some out)
      obtain g e where p: "persist_consolidation env doc (pp_runs (cd_pipe db)) ?k out (pp_graph (cd_pipe db)) = (g, e)"
        by (metis prod.exhaust)
      have "graph_ok g"
        using persist_consolidation_ok [of "pp_graph (cd_pipe db)" env doc "pp_runs (cd_pipe db)" ?k out] ok sp p
        by (simp add: pipe_ok_def)
      moreover have "consolidate_document env fr cfg ask doc chunks db s
          = (case e of None \<Rightarrow> ((with_graph g db, None), s) | Some e \<Rightarrow> ((db, Some e), s))"
        using False b Some p by (simp add: consolidate_document_def Let_def split: option.split)
      ultimately show ?thesis using ok by (cases e) (simp_all add: pipe_ok_def)
    next
      case None
      obtain o1 t where a: "ask s payload = (o1, t)" by (metis prod.exhaust)
      have "consolidate_document env fr cfg ask doc chunks db s = (case o1 of
            Inl e \<Rightarrow> ((fail_cons_run env ?k e ?db1, Some e), t)
          | Inr out \<Rightarrow> (finish_consolidation env doc chunks ?k out db (update_cons_run ?k (\<lambda>r. r\<lparr>cn_output := Some out\<rparr>) ?db1), t))"
        using False b None a by (simp add: consolidate_document_def Let_def split: sum.split)
      then show ?thesis using ok sp finish_ok by (cases o1) simp_all
    qed
  qed
qed

section \<open>A concrete document\<close>

text \<open>The document of \<open>demo_db\<close> with the text \<open>a uses b\<close>, extracted into two entities, and an answer whose
  second relation does not resolve.\<close>

definition demo_pipe :: pipe_db where
  "demo_pipe = snd (fst (extract_document demo_env demo_settings
     (Plain (\<lambda>c s. (Inr \<lparr>ex_entities = [plain_entity ''a'' ''T'' 1, plain_entity ''b'' ''T'' 1], ex_relations = []\<rparr>, s)))
     (\<lambda>_. None) ''x'' (demo_db\<lparr>pp_graph := (pp_graph demo_db)\<lparr>g_chunks := [demo_chunk]\<rparr>\<rparr>) ()))"

definition demo_item :: "string \<Rightarrow> string \<Rightarrow> string \<Rightarrow> cons_relation" where
  "demo_item a b q = \<lparr>cl_source = a, cl_source_type = ''thing'', cl_target = b, cl_target_type = ''thing'', cl_type = ''USES'',
     cl_chunk = ''x'', cl_quote = q, cl_confidence = 1\<rparr>"

definition demo_answer :: cons_output where
  "demo_answer = \<lparr>co_relations = [demo_item ''a'' ''b'' ''a uses b'', demo_item ''uses'' ''b'' ''uses b''], co_aliases = []\<rparr>"

definition demo_cons :: cons_db where
  "demo_cons = \<lparr>cd_pipe = demo_pipe, cd_runs = []\<rparr>"

definition demo_cons_settings :: cons_settings where
  "demo_cons_settings = \<lparr>cs_version = ''v'', cs_prompt = ''q'', cs_max = 100000\<rparr>"

definition cited_graph :: cons_db where
  "cited_graph = \<lparr>cd_pipe = \<lparr>pp_graph = empty_graph\<lparr>g_documents := [sample_document ''x''], g_chunks := [demo_chunk],
       g_entities := [sample_entity ''a'', sample_entity ''b''],
       g_evidence := [sample_cite ''v'' ''x'' (Some ''a'') None, sample_cite ''w'' ''x'' (Some ''b'') None]\<rparr>,
     pp_runs = [(new_run demo_env (sample_document ''x'') demo_chunk)\<lparr>gr_status := RSucceeded\<rparr>]\<rparr>, cd_runs = []\<rparr>"

section \<open>Properties\<close>

text \<open>C17. Every state that consolidation leaves, on success and on each of its failures, keeps the keys
  and references of the graph, and every piece of evidence in it is the exact text of its chunk.\<close>

theorem consolidation_keeps_graph:
  assumes "consolidate_document env fr cfg ask doc chunks db s = ((db', e), t)" "pipe_ok (cd_pipe db)"
    "nfkc_spaces (u_nfkc (pe_unicode env))"
  shows "graph_keys (pp_graph (cd_pipe db')) \<and> graph_refs (pp_graph (cd_pipe db'))
    \<and> (\<forall>v\<in>set (g_evidence (pp_graph (cd_pipe db'))). exact_in (g_chunks (pp_graph (cd_pipe db'))) v)"
proof -
  note consolidate_ok [OF assms(2,3), of fr cfg ask doc chunks s]
  with assms(1) show ?thesis by (simp add: pipe_ok_def graph_ok_def)
qed

theorem consolidation_keeps_graph_witness:
  "\<exists>db' e t. consolidate_document demo_env (\<lambda>_. []) demo_cons_settings (\<lambda>s p. (Inr demo_answer, s)) (sample_document ''x'')
     [demo_chunk] demo_cons () = ((db', e), t) \<and> graph_refs (pp_graph (cd_pipe db'))"
proof -
  obtain r p t where x: "extract_document demo_env demo_settings
     (Plain (\<lambda>c s. (Inr \<lparr>ex_entities = [plain_entity ''a'' ''T'' 1, plain_entity ''b'' ''T'' 1], ex_relations = []\<rparr>, s)))
     (\<lambda>_. None) ''x'' (demo_db\<lparr>pp_graph := (pp_graph demo_db)\<lparr>g_chunks := [demo_chunk]\<rparr>\<rparr>) () = ((r, p), t)"
    by (metis prod.exhaust)
  have "pipe_ok p"
    by (rule conjunct1 [OF extract_document_step [OF x, where doc = "sample_document ''x''"]])
      (simp_all add: pipe_ok_def graph_ok_def graph_keys_def graph_refs_def demo_db_def demo_settings_def empty_graph_def
        sample_document_def sample_chunk_def demo_chunk_def document_chunks_def get_row_def demo_env_def stub_unicode_def
        nfkc_spaces_def space_text_def order_by_def)
  then have ok: "pipe_ok (cd_pipe demo_cons)" by (simp add: demo_cons_def demo_pipe_def x)
  obtain db' e u where y: "consolidate_document demo_env (\<lambda>_. []) demo_cons_settings (\<lambda>s p. (Inr demo_answer, s)) (sample_document ''x'')
     [demo_chunk] demo_cons () = ((db', e), u)" by (metis prod.exhaust)
  from consolidation_keeps_graph [OF y ok demo_facts(6)] y show ?thesis by blast
qed

text \<open>A consolidation that fails is not rolled back: the failure commits what the earlier items of the
  output had already added, here a relation of the rejected output.\<close>

theorem partial_consolidation_committed:
  "let m = finish_consolidation demo_env (sample_document ''x'') [demo_chunk] ''k'' demo_answer cited_graph cited_graph in
     snd m = Some (ValueError ''consolidation relation endpoints do not resolve uniquely'')
     \<and> length (g_relations (pp_graph (cd_pipe cited_graph))) = 0
     \<and> length (g_relations (pp_graph (cd_pipe (fst m)))) = 1"
  by code_simp

end
