(* ===== verification/Plugins.thy ===== *)
theory Plugins
  imports PyFloat PyText
begin

text \<open>
  The plugin contracts of \<open>packages/contracts\<close>: versions, metadata and configuration of a plugin
  (\<open>metadata.py\<close>, \<open>config.py\<close>, \<open>errors.py\<close>) and the registry that validates, stores and
  constructs plugins (\<open>registry.py\<close>). What runs when a factory is called is a parameter: the
  record \<open>plugin_host\<close> says what the \<open>n\<close>-th call returns or raises and which instances satisfy
  a protocol. Identity of factories and protocols is equality of the values that stand for them.
  The lemmas show that the registry implements a write-once map of declarations, that an instance
  once cached stays the same, and that no secret gets into the values of a configuration.
\<close>

section \<open>Errors\<close>

text \<open>A factory may raise any exception, which becomes the \<open>cause\<close> of a construction error. The
  exceptions outside the plugin taxonomy are the ones the code and its libraries raise.\<close>

datatype plugin_error =
    ConfigError string
  | PluginValidationError string "string option"
  | PluginNotRegisteredError string string
  | IncompatiblePluginError string string
  | PluginConstructionError string string plugin_error
  | PyValueError string
  | PyTypeError string
  | PyOverflowError
  | PyOther string

definition quoted :: "string \<Rightarrow> string" where
  "quoted s = CHR 0x27 # s @ [CHR 0x27]"

section \<open>Capabilities\<close>

datatype capability = EXTRACTION | PARSER | CHUNKER | OBJECT_STORE | GRAPH_STORE | GRAPH_RETRIEVER

fun capability_value :: "capability \<Rightarrow> string" where
  "capability_value EXTRACTION = ''extraction''"
| "capability_value PARSER = ''parser''"
| "capability_value CHUNKER = ''chunker''"
| "capability_value OBJECT_STORE = ''object_store''"
| "capability_value GRAPH_STORE = ''graph_store''"
| "capability_value GRAPH_RETRIEVER = ''graph_retriever''"

lemma capability_value_inj [simp]: "capability_value c = capability_value d \<longleftrightarrow> c = d"
  by (cases c; cases d) simp_all

text \<open>A \<open>StrEnum\<close> is ordered as the texts of its members.\<close>

instantiation capability :: linorder
begin

definition less_eq_capability :: "capability \<Rightarrow> capability \<Rightarrow> bool" where
  "c \<le> d \<longleftrightarrow> capability_value c \<le> capability_value d"

definition less_capability :: "capability \<Rightarrow> capability \<Rightarrow> bool" where
  "c < d \<longleftrightarrow> capability_value c < capability_value d"

instance
  by standard (auto simp: less_eq_capability_def less_capability_def less_le)

end

section \<open>Versions and metadata\<close>

record plugin_version =
  vn_major :: int
  vn_minor :: int
  vn_patch :: int

definition new_version :: "int \<Rightarrow> int \<Rightarrow> int \<Rightarrow> plugin_error + plugin_version" where
  "new_version major minor patch =
     (if major < 0 \<or> minor < 0 \<or> patch < 0 then Inl (PyValueError ''version components must be non-negative'')
      else Inr \<lparr>vn_major = major, vn_minor = minor, vn_patch = patch\<rparr>)"

definition version_str :: "plugin_version \<Rightarrow> string" where
  "version_str v = py_join ''.'' [int_str (vn_major v), int_str (vn_minor v), int_str (vn_patch v)]"

definition is_compatible_with :: "plugin_version \<Rightarrow> plugin_version \<Rightarrow> bool" where
  "is_compatible_with self required \<longleftrightarrow> vn_major self = vn_major required
     \<and> (vn_minor self > vn_minor required
        \<or> (vn_minor self = vn_minor required \<and> vn_patch self \<ge> vn_patch required))"

record plugin_spec =
  sp_capability :: capability
  sp_version :: plugin_version

definition spec_key :: "plugin_spec \<Rightarrow> string" where
  "spec_key s = capability_value (sp_capability s) @ '':'' @ version_str (sp_version s)"

record plugin_metadata =
  pm_name :: string
  pm_version :: string
  pm_spec :: plugin_spec
  pm_capabilities :: "capability set"
  pm_description :: string

definition new_metadata ::
    "string \<Rightarrow> string \<Rightarrow> plugin_spec \<Rightarrow> capability set \<Rightarrow> string \<Rightarrow> plugin_error + plugin_metadata" where
  "new_metadata name version spec caps description =
     (if py_strip name = [] then Inl (PyValueError ''plugin name must not be empty'')
      else if py_strip version = [] then Inl (PyValueError ''plugin version must not be empty'')
      else Inr \<lparr>pm_name = name, pm_version = version, pm_spec = spec, pm_capabilities = caps,
                pm_description = description\<rparr>)"

definition pm_capability :: "plugin_metadata \<Rightarrow> capability" where
  "pm_capability m = sp_capability (pm_spec m)"

definition contract_version :: "plugin_metadata \<Rightarrow> plugin_version" where
  "contract_version m = sp_version (pm_spec m)"

text \<open>\<open>is_compatible_with\<close> is a preorder: a plugin that serves a contract serves whatever that
  contract serves.\<close>

lemma is_compatible_refl: "is_compatible_with v v"
  by (simp add: is_compatible_with_def)

lemma is_compatible_trans:
  "is_compatible_with a b \<Longrightarrow> is_compatible_with b c \<Longrightarrow> is_compatible_with a c"
  by (auto simp: is_compatible_with_def)

lemma is_compatible_antisym:
  "is_compatible_with a b \<Longrightarrow> is_compatible_with b a \<Longrightarrow> a = b"
  by (auto simp: is_compatible_with_def intro!: plugin_version.equality)

section \<open>Configuration\<close>

text \<open>The Python values a caller may put into a configuration; \<open>VOther\<close> is a value of any other
  type, \<open>VSecret\<close> a \<open>SecretValue\<close>.\<close>

datatype config_value =
    VNone
  | VStr string
  | VInt int
  | VFloat rat
  | VBool bool
  | VTuple "config_value list"
  | VSecret string
  | VOther

text \<open>What \<open>str\<close> and \<open>repr\<close> show of a secret.\<close>

definition secret_repr :: "string \<Rightarrow> string" where
  "secret_repr s = ''SecretValue(***)''"

definition secret_str :: "string \<Rightarrow> string" where
  "secret_str s = ''***''"

fun is_config_value :: "config_value \<Rightarrow> bool" where
  "is_config_value (VTuple vs) = list_all is_config_value vs"
| "is_config_value (VSecret s) = False"
| "is_config_value VOther = False"
| "is_config_value v = True"

fun is_secret :: "config_value \<Rightarrow> bool" where
  "is_secret (VSecret s) = True"
| "is_secret v = False"

type_synonym config_map = "(string \<times> config_value) list"

record plugin_config =
  cf_values :: config_map
  cf_secrets :: config_map

definition new_config :: "config_map \<Rightarrow> config_map \<Rightarrow> plugin_error + plugin_config" where
  "new_config vals secrets =
     (if list_ex (\<lambda>k. k = []) (map fst vals @ map fst secrets) then
        Inl (ConfigError ''config keys must be non-empty strings'')
      else if list_ex (\<lambda>k. k \<in> fst ` set secrets) (map fst vals) then
        Inl (ConfigError ''config and secret keys must be distinct'')
      else case find (\<lambda>kv. \<not> is_config_value (snd kv)) vals of
        Some kv \<Rightarrow> Inl (ConfigError (''unsupported config value for key: '' @ fst kv))
      | None \<Rightarrow>
          if list_ex (\<lambda>kv. \<not> is_secret (snd kv)) secrets then
            Inl (ConfigError ''secret values must be SecretValue instances'')
          else Inr \<lparr>cf_values = vals, cf_secrets = secrets\<rparr>)"

definition config_get :: "plugin_config \<Rightarrow> string \<Rightarrow> config_value \<Rightarrow> config_value" where
  "config_get c k d = (case map_of (cf_values c) k of None \<Rightarrow> d | Some v \<Rightarrow> v)"

definition config_require :: "plugin_config \<Rightarrow> string \<Rightarrow> plugin_error + config_value" where
  "config_require c k =
     (case map_of (cf_values c) k of
        None \<Rightarrow> Inl (ConfigError (''required config key missing: '' @ k))
      | Some v \<Rightarrow> Inr v)"

definition require_secret :: "plugin_config \<Rightarrow> string \<Rightarrow> plugin_error + config_value" where
  "require_secret c k =
     (case map_of (cf_secrets c) k of
        None \<Rightarrow> Inl (ConfigError (''required secret key missing: '' @ k))
      | Some v \<Rightarrow> Inr v)"

definition secret_get :: "config_value \<Rightarrow> string" where
  "secret_get v = (case v of VSecret s \<Rightarrow> s | _ \<Rightarrow> [])"

definition with_overrides :: "plugin_config \<Rightarrow> config_map \<Rightarrow> plugin_error + plugin_config" where
  "with_overrides c overrides =
     new_config (fold (\<lambda>(k, v). AList.update k v) overrides (cf_values c)) (cf_secrets c)"

section \<open>The registry\<close>

definition REQUIRED_VERSIONS :: "(capability \<times> plugin_version) list" where
  "REQUIRED_VERSIONS = map (\<lambda>c. (c, \<lparr>vn_major = 1, vn_minor = 0, vn_patch = 0\<rparr>))
     [EXTRACTION, PARSER, CHUNKER, OBJECT_STORE, GRAPH_STORE, GRAPH_RETRIEVER]"

text \<open>What calling a factory does: the number of the call, the factory and the keyword arguments
  give an exception or an instance, \<open>None\<close> being Python's \<open>None\<close>; a keyword argument is a
  configuration or, as \<open>None\<close>, something else; then \<open>isinstance\<close> for a
  protocol, and its name.\<close>

type_synonym kwargs = "(string \<times> plugin_config option) list"

record ('f, 'p, 'i) plugin_host =
  h_call :: "nat \<Rightarrow> 'f \<Rightarrow> kwargs \<Rightarrow> plugin_error + 'i option"
  h_satisfies :: "'p \<Rightarrow> 'i option \<Rightarrow> bool"
  h_protocol_name :: "'p \<Rightarrow> string"

record ('f, 'p, 'i) plugin_entry =
  pe_metadata :: plugin_metadata
  pe_factory :: 'f
  pe_protocol :: "'p option"
  pe_instance :: "'i option"

text \<open>\<open>rg_calls\<close> counts the factory calls made so far.\<close>

record ('f, 'p, 'i) registry =
  rg_entries :: "((capability \<times> string) \<times> ('f, 'p, 'i) plugin_entry) list"
  rg_calls :: nat

definition empty_registry :: "('f, 'p, 'i) registry" where
  "empty_registry = \<lparr>rg_entries = [], rg_calls = 0\<rparr>"

text \<open>\<open>PluginEntry.construct\<close>: the answer, the entry with its cache, and the calls made.\<close>

definition construct ::
    "('f, 'p, 'i) plugin_host \<Rightarrow> nat \<Rightarrow> ('f, 'p, 'i) plugin_entry \<Rightarrow> kwargs
      \<Rightarrow> (plugin_error + 'i option) \<times> ('f, 'p, 'i) plugin_entry \<times> nat" where
  "construct h n e kw =
     (if pe_instance e \<noteq> None \<and> kw = [] then (Inr (pe_instance e), e, n)
      else case h_call h n (pe_factory e) kw of
        Inl exc \<Rightarrow>
          (Inl (PluginConstructionError (''failed to construct plugin '' @ quoted (pm_name (pe_metadata e)))
                 (pm_name (pe_metadata e)) exc), e, Suc n)
      | Inr i \<Rightarrow>
          if (case pe_protocol e of None \<Rightarrow> False | Some p \<Rightarrow> \<not> h_satisfies h p i) then
            (Inl (PluginValidationError
                   (''plugin '' @ quoted (pm_name (pe_metadata e)) @ '' does not satisfy ''
                     @ h_protocol_name h (the (pe_protocol e)))
                   (Some (pm_name (pe_metadata e)))), e, Suc n)
          else (Inr i, if kw = [] then e\<lparr>pe_instance := i\<rparr> else e, Suc n))"

definition register ::
    "plugin_metadata \<Rightarrow> 'f \<Rightarrow> 'p option \<Rightarrow> ('f, 'p, 'i) registry \<Rightarrow> plugin_error + ('f, 'p, 'i) registry" where
  "register m f p r =
     (case map_of REQUIRED_VERSIONS (pm_capability m) of
        None \<Rightarrow> Inl (PluginValidationError (''unknown capability: '' @ capability_value (pm_capability m))
                       (Some (pm_name m)))
      | Some required \<Rightarrow>
          if pm_capability m \<notin> pm_capabilities m then
            Inl (PluginValidationError (''plugin '' @ quoted (pm_name m) @ '' does not declare ''
                   @ capability_value (pm_capability m)) (Some (pm_name m)))
          else if \<not> is_compatible_with (contract_version m) required then
            Inl (IncompatiblePluginError
                   (''plugin '' @ quoted (pm_name m) @ '' contract '' @ version_str (contract_version m)
                     @ '' is incompatible with required '' @ version_str required @ '' for ''
                     @ capability_value (pm_capability m)) (pm_name m))
          else case map_of (rg_entries r) (pm_capability m, pm_name m) of
            Some existing \<Rightarrow>
              if pe_metadata existing = m \<and> pe_factory existing = f \<and> pe_protocol existing = p then Inr r
              else Inl (PluginValidationError (''plugin '' @ quoted (pm_name m) @ '' already registered for ''
                          @ capability_value (pm_capability m)) (Some (pm_name m)))
          | None \<Rightarrow>
              Inr (r\<lparr>rg_entries := AList.update (pm_capability m, pm_name m)
                      \<lparr>pe_metadata = m, pe_factory = f, pe_protocol = p, pe_instance = None\<rparr> (rg_entries r)\<rparr>))"

definition get_entry ::
    "('f, 'p, 'i) registry \<Rightarrow> capability \<Rightarrow> string \<Rightarrow> plugin_error + ('f, 'p, 'i) plugin_entry" where
  "get_entry r c name =
     (case map_of (rg_entries r) (c, name) of
        None \<Rightarrow> Inl (PluginNotRegisteredError
                  (''no plugin registered for '' @ capability_value c @ ''/'' @ name) name)
      | Some e \<Rightarrow> Inr e)"

definition create ::
    "('f, 'p, 'i) plugin_host \<Rightarrow> capability \<Rightarrow> string \<Rightarrow> kwargs \<Rightarrow> ('f, 'p, 'i) registry
      \<Rightarrow> (plugin_error + 'i option) \<times> ('f, 'p, 'i) registry" where
  "create h c name kw r =
     (case get_entry r c name of
        Inl exc \<Rightarrow> (Inl exc, r)
      | Inr e \<Rightarrow>
          (case construct h (rg_calls r) e kw of
             (a, e', n) \<Rightarrow> (a, r\<lparr>rg_entries := AList.update (c, name) e' (rg_entries r), rg_calls := n\<rparr>)))"

definition list_names :: "('f, 'p, 'i) registry \<Rightarrow> capability \<Rightarrow> string list" where
  "list_names r c = sort (map snd (filter (\<lambda>k. fst k = c) (map fst (rg_entries r))))"

definition list_capabilities :: "('f, 'p, 'i) registry \<Rightarrow> capability list" where
  "list_capabilities r = sort (dict_fromkeys (map (\<lambda>k. fst (fst k)) (rg_entries r)))"

definition is_registered :: "('f, 'p, 'i) registry \<Rightarrow> capability \<Rightarrow> string \<Rightarrow> bool" where
  "is_registered r c name \<longleftrightarrow> map_of (rg_entries r) (c, name) \<noteq> None"

definition clear :: "('f, 'p, 'i) registry \<Rightarrow> ('f, 'p, 'i) registry" where
  "clear r = r\<lparr>rg_entries := []\<rparr>"

definition validate_instance ::
    "('f, 'p, 'i) plugin_host \<Rightarrow> capability \<Rightarrow> 'i option \<Rightarrow> 'p \<Rightarrow> plugin_error + unit" where
  "validate_instance h c i p =
     (if \<not> h_satisfies h p i then
        Inl (PluginValidationError (''instance does not satisfy protocol '' @ h_protocol_name h p
               @ '' for '' @ capability_value c) None)
      else Inr ())"

text \<open>The module-level singleton: the global is the first component.\<close>

definition get_registry :: "('f, 'p, 'i) registry option \<Rightarrow> ('f, 'p, 'i) registry" where
  "get_registry g = (case g of None \<Rightarrow> empty_registry | Some r \<Rightarrow> r)"

definition reset_registry :: "('f, 'p, 'i) registry option \<Rightarrow> ('f, 'p, 'i) registry option" where
  "reset_registry g = None"

section \<open>Write-once maps\<close>

text \<open>The contract behind the registry: a declaration is put under its key once, putting it again is
  harmless, a different one under the same key is refused, and using what is declared changes no
  declaration.\<close>

datatype ('d, 'u) wo_call = Put 'd | Use 'u

fun wo_step :: "('d \<Rightarrow> 's \<Rightarrow> 'e + 's) \<Rightarrow> ('u \<Rightarrow> 's \<Rightarrow> 's) \<Rightarrow> ('d, 'u) wo_call \<Rightarrow> 's \<Rightarrow> 's" where
  "wo_step put use (Put d) s = (case put d s of Inl _ \<Rightarrow> s | Inr s' \<Rightarrow> s')"
| "wo_step put use (Use u) s = use u s"

definition wo_run :: "('d \<Rightarrow> 's \<Rightarrow> 'e + 's) \<Rightarrow> ('u \<Rightarrow> 's \<Rightarrow> 's) \<Rightarrow> ('d, 'u) wo_call list \<Rightarrow> 's \<Rightarrow> 's" where
  "wo_run put use = fold (wo_step put use)"

text \<open>The abstract machine: the map of declarations alone.\<close>

definition may_put :: "('d \<Rightarrow> bool) \<Rightarrow> ('d \<Rightarrow> 'k) \<Rightarrow> 'd \<Rightarrow> ('k \<Rightarrow> 'd option) \<Rightarrow> bool" where
  "may_put valid key d m \<longleftrightarrow> valid d \<and> (m (key d) = None \<or> m (key d) = Some d)"

fun spec_step :: "('d \<Rightarrow> bool) \<Rightarrow> ('d \<Rightarrow> 'k) \<Rightarrow> ('d, 'u) wo_call \<Rightarrow> ('k \<Rightarrow> 'd option) \<Rightarrow> ('k \<Rightarrow> 'd option)" where
  "spec_step valid key (Put d) m = (if may_put valid key d m then m(key d \<mapsto> d) else m)"
| "spec_step valid key (Use u) m = m"

locale write_once =
  fixes lookup :: "'s \<Rightarrow> 'k \<Rightarrow> 'd option"
    and key :: "'d \<Rightarrow> 'k"
    and put :: "'d \<Rightarrow> 's \<Rightarrow> 'e + 's"
    and use :: "'u \<Rightarrow> 's \<Rightarrow> 's"
    and ok :: "'s \<Rightarrow> bool"
    and valid :: "'d \<Rightarrow> bool"
  assumes put_accepts: "ok s \<Longrightarrow> (\<exists>s'. put d s = Inr s') \<longleftrightarrow> may_put valid key d (lookup s)"
    and put_lookup: "ok s \<Longrightarrow> put d s = Inr s' \<Longrightarrow> lookup s' = (lookup s)(key d \<mapsto> d)"
    and put_ok: "ok s \<Longrightarrow> put d s = Inr s' \<Longrightarrow> ok s'"
    and use_lookup: "ok s \<Longrightarrow> lookup (use u s) = lookup s"
    and use_ok: "ok s \<Longrightarrow> ok (use u s)"
begin

lemma step_refines:
  assumes "ok s"
  shows "lookup (wo_step put use c s) = spec_step valid key c (lookup s)" "ok (wo_step put use c s)"
proof -
  show "lookup (wo_step put use c s) = spec_step valid key c (lookup s)"
  proof (cases c)
    case (Put d)
    then show ?thesis
      using put_accepts [OF assms, of d] put_lookup [OF assms, of d] by (cases "put d s") auto
  qed (simp add: use_lookup [OF assms])
  show "ok (wo_step put use c s)"
    using assms put_ok [OF assms] use_ok [OF assms] by (cases c) (auto split: sum.split)
qed

lemma run_refines:
  assumes "ok s"
  shows "lookup (wo_run put use cs s) = fold (spec_step valid key) cs (lookup s) \<and> ok (wo_run put use cs s)"
  using assms by (induction cs arbitrary: s) (simp_all add: wo_run_def step_refines)

lemma run_ok: "ok s \<Longrightarrow> ok (wo_run put use cs s)"
  by (simp add: run_refines)

text \<open>What is declared stays declared.\<close>

lemma declared_stays:
  assumes "ok s" "lookup s k = Some d"
  shows "lookup (wo_run put use cs s) k = Some d"
proof -
  have "fold (spec_step valid key) cs m k = Some d" if "m k = Some d" for m
    using that
  proof (induction cs arbitrary: m)
    case (Cons c cs)
    have "spec_step valid key c m k = Some d"
      using Cons.prems by (cases c) (auto simp: may_put_def)
    then show ?case using Cons.IH by simp
  qed simp
  then show ?thesis using assms by (simp add: run_refines)
qed

end

section \<open>The registry is one\<close>

type_synonym ('f, 'p) plugin_decl = "plugin_metadata \<times> 'f \<times> 'p option"

definition decl_key :: "('f, 'p) plugin_decl \<Rightarrow> capability \<times> string" where
  "decl_key d = (pm_capability (fst d), pm_name (fst d))"

definition admissible :: "('f, 'p) plugin_decl \<Rightarrow> bool" where
  "admissible d \<longleftrightarrow> pm_capability (fst d) \<in> pm_capabilities (fst d)
     \<and> vn_major (contract_version (fst d)) = 1 \<and> (vn_minor (contract_version (fst d)) > 0
        \<or> vn_minor (contract_version (fst d)) = 0 \<and> vn_patch (contract_version (fst d)) \<ge> 0)"

definition decl_of :: "('f, 'p, 'i) plugin_entry \<Rightarrow> ('f, 'p) plugin_decl" where
  "decl_of e = (pe_metadata e, pe_factory e, pe_protocol e)"

definition declarations :: "('f, 'p, 'i) registry \<Rightarrow> capability \<times> string \<Rightarrow> ('f, 'p) plugin_decl option" where
  "declarations r k = map_option decl_of (map_of (rg_entries r) k)"

definition reg_ok :: "('f, 'p, 'i) registry \<Rightarrow> bool" where
  "reg_ok r \<longleftrightarrow> distinct (map fst (rg_entries r))
     \<and> (\<forall>(k, e)\<in>set (rg_entries r). decl_key (decl_of e) = k \<and> admissible (decl_of e))"

definition put_decl :: "('f, 'p) plugin_decl \<Rightarrow> ('f, 'p, 'i) registry \<Rightarrow> plugin_error + ('f, 'p, 'i) registry" where
  "put_decl d r = register (fst d) (fst (snd d)) (snd (snd d)) r"

definition use_plugin ::
    "('f, 'p, 'i) plugin_host \<Rightarrow> capability \<times> string \<times> kwargs \<Rightarrow> ('f, 'p, 'i) registry \<Rightarrow> ('f, 'p, 'i) registry" where
  "use_plugin h u r = snd (create h (fst u) (fst (snd u)) (snd (snd u)) r)"

definition run_registry ::
    "('f, 'p, 'i) plugin_host \<Rightarrow> (('f, 'p) plugin_decl, capability \<times> string \<times> kwargs) wo_call list
      \<Rightarrow> ('f, 'p, 'i) registry \<Rightarrow> ('f, 'p, 'i) registry" where
  "run_registry h = wo_run put_decl (use_plugin h)"

lemma REQUIRED_VERSIONS_all:
  "map_of REQUIRED_VERSIONS c = Some \<lparr>vn_major = 1, vn_minor = 0, vn_patch = 0\<rparr>"
  by (cases c) (simp_all add: REQUIRED_VERSIONS_def)

lemma register_eq:
  "(\<exists>r'. register m f p r = Inr r') \<longleftrightarrow> may_put admissible decl_key (m, f, p) (declarations r)"
  by (auto simp: register_def REQUIRED_VERSIONS_all is_compatible_with_def admissible_def decl_key_def
      may_put_def declarations_def decl_of_def split: option.split)

lemma register_Inr:
  assumes "register m f p r = Inr r'"
  shows "admissible (m, f, p)"
    and "r' = r \<and> declarations r (decl_key (m, f, p)) = Some (m, f, p)
      \<or> map_of (rg_entries r) (decl_key (m, f, p)) = None
        \<and> r' = r\<lparr>rg_entries := AList.update (decl_key (m, f, p))
              \<lparr>pe_metadata = m, pe_factory = f, pe_protocol = p, pe_instance = None\<rparr> (rg_entries r)\<rparr>"
  using assms
  by (auto simp: register_def REQUIRED_VERSIONS_all is_compatible_with_def admissible_def decl_key_def
      declarations_def decl_of_def split: option.splits if_splits)

lemma register_declarations:
  assumes "register m f p r = Inr r'"
  shows "declarations r' = (declarations r)(decl_key (m, f, p) \<mapsto> (m, f, p))"
  using register_Inr(2) [OF assms] by (auto simp: declarations_def decl_of_def fun_eq_iff)

lemma set_update_insert: "set (AList.update k v d) \<subseteq> insert (k, v) (set d)"
  by (induction d) auto

lemma reg_ok_update:
  assumes "reg_ok r" "decl_key (decl_of e) = k" "admissible (decl_of e)"
  shows "reg_ok (r\<lparr>rg_entries := AList.update k e (rg_entries r), rg_calls := n\<rparr>)"
    "reg_ok (r\<lparr>rg_entries := AList.update k e (rg_entries r)\<rparr>)"
  using assms set_update_insert [of k e "rg_entries r"] by (auto simp: reg_ok_def distinct_update)

lemma reg_ok_entry:
  assumes "reg_ok r" "map_of (rg_entries r) k = Some e"
  shows "decl_key (decl_of e) = k" "admissible (decl_of e)"
  using assms map_of_SomeD [OF assms(2)] by (auto simp: reg_ok_def)

lemma put_decl_ok: "reg_ok r \<Longrightarrow> put_decl d r = Inr r' \<Longrightarrow> reg_ok r'"
  using register_Inr [of "fst d" "fst (snd d)" "snd (snd d)" r r']
  by (auto simp: put_decl_def decl_of_def intro!: reg_ok_update)

lemma construct_decl: "construct h n e kw = (a, e', n') \<Longrightarrow> decl_of e' = decl_of e"
  by (auto simp: construct_def decl_of_def split: if_splits sum.splits option.splits)

lemma create_registered:
  assumes "map_of (rg_entries r) (c, name) = Some e" "construct h (rg_calls r) e kw = (a, e', n')"
  shows "create h c name kw r = (a, r\<lparr>rg_entries := AList.update (c, name) e' (rg_entries r), rg_calls := n'\<rparr>)"
  using assms by (simp add: create_def get_entry_def)

lemma create_unregistered:
  assumes "map_of (rg_entries r) (c, name) = None"
  shows "snd (create h c name kw r) = r"
  using assms by (simp add: create_def get_entry_def)

lemma use_plugin_keeps:
  assumes "reg_ok r"
  shows "declarations (use_plugin h u r) = declarations r" "reg_ok (use_plugin h u r)"
proof -
  obtain c name kw where u: "u = (c, name, kw)" by (cases u) auto
  have "declarations (use_plugin h u r) = declarations r \<and> reg_ok (use_plugin h u r)"
  proof (cases "map_of (rg_entries r) (c, name)")
    case None
    then show ?thesis using assms by (simp add: u use_plugin_def create_unregistered)
  next
    case (Some e)
    obtain a e' n' where k: "construct h (rg_calls r) e kw = (a, e', n')" by (cases "construct h (rg_calls r) e kw")
    have r': "use_plugin h u r = r\<lparr>rg_entries := AList.update (c, name) e' (rg_entries r), rg_calls := n'\<rparr>"
      by (simp add: u use_plugin_def create_registered [OF Some k])
    show ?thesis
      unfolding r' using reg_ok_entry [OF assms Some] construct_decl [OF k] Some
      by (auto simp: declarations_def fun_eq_iff intro!: reg_ok_update assms)
  qed
  then show "declarations (use_plugin h u r) = declarations r" "reg_ok (use_plugin h u r)" by auto
qed

interpretation reg: write_once declarations decl_key put_decl "use_plugin h" reg_ok admissible for h
proof unfold_locales
  fix r r' :: "('a, 'b, 'c) registry" and d
  show "reg_ok r \<Longrightarrow> (\<exists>s'. put_decl d r = Inr s') \<longleftrightarrow> may_put admissible decl_key d (declarations r)"
    using register_eq [of "fst d" "fst (snd d)" "snd (snd d)" r] by (simp add: put_decl_def)
  show "reg_ok r \<Longrightarrow> put_decl d r = Inr r' \<Longrightarrow> declarations r' = (declarations r)(decl_key d \<mapsto> d)"
    using register_declarations [of "fst d" "fst (snd d)" "snd (snd d)" r r'] by (simp add: put_decl_def)
  show "reg_ok r \<Longrightarrow> put_decl d r = Inr r' \<Longrightarrow> reg_ok r'" by (rule put_decl_ok)
qed (simp_all add: use_plugin_keeps)

lemma reg_ok_empty: "reg_ok empty_registry"
  by (simp add: reg_ok_def empty_registry_def)

text \<open>The listings depend on the declarations alone.\<close>

lemma dom_declarations: "dom (declarations r) = fst ` set (rg_entries r)"
  by (auto simp: declarations_def dom_def map_of_eq_None_iff [symmetric] domIff simp flip: dom_map_of_conv_image_fst)

lemma list_names_declared:
  assumes "reg_ok r"
  shows "list_names r c = sorted_list_of_set {n. (c, n) \<in> dom (declarations r)}"
proof -
  let ?ns = "map snd (filter (\<lambda>k. fst k = c) (map fst (rg_entries r)))"
  have s: "set ?ns = {n. (c, n) \<in> dom (declarations r)}"
    unfolding dom_declarations by (force simp: image_iff)
  have "distinct (map fst (rg_entries r))" using assms by (simp add: reg_ok_def)
  then have "distinct (filter (\<lambda>k. fst k = c) (map fst (rg_entries r)))" by (rule distinct_filter)
  then have d: "distinct ?ns"
    unfolding distinct_map by (auto simp: inj_on_def prod_eq_iff)
  show ?thesis
    unfolding list_names_def s [symmetric] by (simp only: sorted_list_of_set_sort_remdups distinct_remdups_id [OF d])
qed

lemma list_capabilities_declared:
  "list_capabilities r = sorted_list_of_set (fst ` dom (declarations r))"
proof -
  have s: "fst ` dom (declarations r) = set (dict_fromkeys (map (\<lambda>k. fst (fst k)) (rg_entries r)))"
    by (simp add: dom_declarations image_image)
  show ?thesis
    unfolding s list_capabilities_def by (simp only: sorted_list_of_set_sort_remdups distinct_remdups_id distinct_dict_fromkeys)
qed

section \<open>The cache\<close>

definition cached :: "('f, 'p, 'i) registry \<Rightarrow> capability \<times> string \<Rightarrow> 'i option" where
  "cached r k = (case map_of (rg_entries r) k of None \<Rightarrow> None | Some e \<Rightarrow> pe_instance e)"

lemma create_cached:
  assumes "cached r (c, name) = Some i"
  shows "create h c name [] r = (Inr (Some i), r)"
proof -
  obtain e where e: "map_of (rg_entries r) (c, name) = Some e" "pe_instance e = Some i"
    using assms by (auto simp: cached_def split: option.splits)
  then show ?thesis
    by (simp add: create_def get_entry_def construct_def update_triv)
qed

lemma construct_keeps_cache: "construct h n e kw = (a, e', n') \<Longrightarrow> pe_instance e = Some i \<Longrightarrow> pe_instance e' = Some i"
  by (auto simp: construct_def split: if_splits sum.splits option.splits)

lemma put_keeps_cache:
  assumes "cached r k = Some i" "put_decl d r = Inr r'"
  shows "cached r' k = Some i"
  using register_Inr(2) [of "fst d" "fst (snd d)" "snd (snd d)" r r'] assms
  by (auto simp: put_decl_def cached_def split: option.splits if_splits)

lemma use_keeps_cache:
  assumes "cached r k = Some i"
  shows "cached (use_plugin h u r) k = Some i"
proof -
  obtain c name kw where u: "u = (c, name, kw)" by (cases u) auto
  show ?thesis
  proof (cases "map_of (rg_entries r) (c, name)")
    case None
    then show ?thesis using assms by (simp add: u use_plugin_def create_unregistered)
  next
    case (Some e)
    obtain a e' n' where k: "construct h (rg_calls r) e kw = (a, e', n')" by (cases "construct h (rg_calls r) e kw")
    show ?thesis
      using assms Some construct_keeps_cache [OF k]
      by (auto simp: u use_plugin_def create_registered [OF Some k] cached_def)
  qed
qed

lemma run_keeps_cache: "cached r k = Some i \<Longrightarrow> cached (run_registry h cs r) k = Some i"
proof (induction cs arbitrary: r)
  case (Cons c cs)
  have "cached (wo_step put_decl (use_plugin h) c r) k = Some i"
    by (cases c) (simp_all add: Cons.prems use_keeps_cache put_keeps_cache [OF Cons.prems] split: sum.split)
  then show ?case using Cons.IH by (simp add: run_registry_def wo_run_def)
qed (simp add: run_registry_def wo_run_def)

lemma create_fills_cache:
  assumes "create h c name [] r = (Inr (Some i), r')"
  shows "cached r' (c, name) = Some i"
proof -
  obtain e where e: "map_of (rg_entries r) (c, name) = Some e"
    using assms by (auto simp: create_def get_entry_def split: option.splits)
  obtain a e' n' where k: "construct h (rg_calls r) e [] = (a, e', n')" by (cases "construct h (rg_calls r) e []")
  have "a = Inr (Some i)" and r': "r' = r\<lparr>rg_entries := AList.update (c, name) e' (rg_entries r), rg_calls := n'\<rparr>"
    using assms by (simp_all add: create_registered [OF e k])
  then have "pe_instance e' = Some i"
    using k by (auto simp: construct_def split: if_splits sum.splits option.splits)
  then show ?thesis by (simp add: cached_def r')
qed

section \<open>Configurations hold no secret\<close>

text \<open>No secret and no foreign object occurs anywhere in a value.\<close>

fun secret_free :: "config_value \<Rightarrow> bool" where
  "secret_free (VTuple vs) = (\<forall>v\<in>set vs. secret_free v)"
| "secret_free (VSecret s) = False"
| "secret_free VOther = False"
| "secret_free _ = True"

lemma is_config_value_iff: "is_config_value v \<longleftrightarrow> secret_free v"
  by (induction v) (auto simp: list_all_iff)

definition config_ok :: "plugin_config \<Rightarrow> bool" where
  "config_ok c \<longleftrightarrow> [] \<notin> fst ` set (cf_values c) \<union> fst ` set (cf_secrets c)
     \<and> (\<forall>v\<in>snd ` set (cf_values c). secret_free v) \<and> (\<forall>v\<in>snd ` set (cf_secrets c). is_secret v)
     \<and> fst ` set (cf_values c) \<inter> fst ` set (cf_secrets c) = {}"

lemma new_config_Inr:
  assumes "new_config vals secrets = Inr c"
  shows "c = \<lparr>cf_values = vals, cf_secrets = secrets\<rparr>" "config_ok c"
proof -
  have a: "\<not> list_ex (\<lambda>k. k = []) (map fst vals @ map fst secrets)"
      "\<not> list_ex (\<lambda>k. k \<in> fst ` set secrets) (map fst vals)"
      "find (\<lambda>kv. \<not> is_config_value (snd kv)) vals = None"
      "\<not> list_ex (\<lambda>kv. \<not> is_secret (snd kv)) secrets" and c: "c = \<lparr>cf_values = vals, cf_secrets = secrets\<rparr>"
    using assms by (auto simp: new_config_def split: if_splits option.splits)
  show "c = \<lparr>cf_values = vals, cf_secrets = secrets\<rparr>" by (rule c)
  show "config_ok c"
    using a by (auto simp: c config_ok_def list_ex_iff find_None_iff is_config_value_iff)
qed

lemma new_config_accepts:
  assumes "config_ok c"
  shows "new_config (cf_values c) (cf_secrets c) = Inr c"
proof -
  have "\<not> list_ex (\<lambda>k. k = []) (map fst (cf_values c) @ map fst (cf_secrets c))"
      "\<not> list_ex (\<lambda>k. k \<in> fst ` set (cf_secrets c)) (map fst (cf_values c))"
      "find (\<lambda>kv. \<not> is_config_value (snd kv)) (cf_values c) = None"
      "\<not> list_ex (\<lambda>kv. \<not> is_secret (snd kv)) (cf_secrets c)"
    using assms by (auto simp: config_ok_def list_ex_iff find_None_iff is_config_value_iff)
  then show ?thesis by (simp add: new_config_def)
qed

lemma map_of_fold_update:
  "map_of (fold (\<lambda>(k, v). AList.update k v) ovs d) = map_of d ++ map_of (rev ovs)"
  by (induction ovs arbitrary: d) (auto simp: fun_eq_iff map_add_def split: option.split)

lemma with_overrides_lookup:
  assumes "with_overrides c ovs = Inr c'"
  shows "map_of (cf_values c') = map_of (cf_values c) ++ map_of (rev ovs)" "cf_secrets c' = cf_secrets c"
  using new_config_Inr(1) [OF assms [unfolded with_overrides_def]] by (simp_all add: map_of_fold_update)

lemma set_fold_update: "set (fold (\<lambda>(k, v). AList.update k v) ovs d) \<subseteq> set d \<union> set ovs"
proof (induction ovs arbitrary: d)
  case (Cons kv ovs)
  obtain k v where kv: "kv = (k, v)" by (cases kv)
  show ?case using Cons.IH [of "AList.update k v d"] set_update_insert [of k v d] by (auto simp: kv)
qed simp

lemma fold_update_overrides:
  assumes "distinct (map fst ovs)"
  shows "set ovs \<subseteq> set (fold (\<lambda>(k, v). AList.update k v) ovs d)"
proof safe
  fix k v assume "(k, v) \<in> set ovs"
  then have "map_of (rev ovs) k = Some v" using assms by (simp add: map_of_eq_Some_iff rev_map [symmetric])
  then have "map_of (fold (\<lambda>(k, v). AList.update k v) ovs d) k = Some v"
    by (simp add: map_of_fold_update)
  then show "(k, v) \<in> set (fold (\<lambda>(k, v). AList.update k v) ovs d)" by (rule map_of_SomeD)
qed

text \<open>An override is accepted exactly when it is a legal value under a key that is not a secret's.\<close>

lemma with_overrides_accepts:
  assumes ok: "config_ok c" and dist: "distinct (map fst ovs)"
  shows "(\<exists>c'. with_overrides c ovs = Inr c') \<longleftrightarrow>
    (\<forall>(k, v)\<in>set ovs. k \<noteq> [] \<and> secret_free v \<and> k \<notin> fst ` set (cf_secrets c))"
proof
  assume "\<exists>c'. with_overrides c ovs = Inr c'"
  then obtain c' where c': "with_overrides c ovs = Inr c'" by blast
  note facts = new_config_Inr [OF c' [unfolded with_overrides_def]]
  have sub: "set ovs \<subseteq> set (cf_values c')" and sec: "cf_secrets c' = cf_secrets c"
    using fold_update_overrides [OF dist] by (simp_all add: facts(1))
  have "fst ` set ovs \<subseteq> fst ` set (cf_values c')" "snd ` set ovs \<subseteq> snd ` set (cf_values c')"
    using sub by (simp_all add: image_mono)
  note keys = this
  have k: "[] \<notin> fst ` set (cf_values c')" "\<forall>v\<in>snd ` set (cf_values c'). secret_free v"
    "fst ` set (cf_values c') \<inter> fst ` set (cf_secrets c) = {}"
    using facts(2) unfolding config_ok_def sec by blast+
  have "[] \<notin> fst ` set ovs" using keys(1) k(1) by (rule contra_subsetD)
  moreover have "\<forall>v\<in>snd ` set ovs. secret_free v" using sub k(2) by blast
  moreover have "fst ` set ovs \<inter> fst ` set (cf_secrets c) = {}" using keys(1) k(3) by (simp add: disjoint_iff subset_iff)
  ultimately show "\<forall>(k, v)\<in>set ovs. k \<noteq> [] \<and> secret_free v \<and> k \<notin> fst ` set (cf_secrets c)"
    by force
next
  assume r: "\<forall>(k, v)\<in>set ovs. k \<noteq> [] \<and> secret_free v \<and> k \<notin> fst ` set (cf_secrets c)"
  let ?d = "\<lparr>cf_values = fold (\<lambda>(k, v). AList.update k v) ovs (cf_values c), cf_secrets = cf_secrets c\<rparr>"
  have sub: "set (cf_values ?d) \<subseteq> set (cf_values c) \<union> set ovs" using set_fold_update by simp
  have "fst ` set (cf_values ?d) \<subseteq> fst ` set (cf_values c) \<union> fst ` set ovs"
    "snd ` set (cf_values ?d) \<subseteq> snd ` set (cf_values c) \<union> snd ` set ovs"
    using image_mono [OF sub] by (simp_all add: image_Un)
  note images = this
  have rk: "k \<noteq> [] \<and> secret_free v \<and> (k, w) \<notin> set (cf_secrets c)" if "(k, v) \<in> set ovs" for k v w
    using r that by force
  have new: "[] \<notin> fst ` set ovs" "\<forall>v\<in>snd ` set ovs. secret_free v" "fst ` set ovs \<inter> fst ` set (cf_secrets c) = {}"
    by (auto dest: rk)
  have old: "[] \<notin> fst ` set (cf_values c)" "[] \<notin> fst ` set (cf_secrets c)" "\<forall>v\<in>snd ` set (cf_values c). secret_free v"
    "\<forall>v\<in>snd ` set (cf_secrets c). is_secret v" "fst ` set (cf_values c) \<inter> fst ` set (cf_secrets c) = {}"
    using ok unfolding config_ok_def by blast+
  have "[] \<notin> fst ` set (cf_values ?d)" using images(1) new(1) old(1) by blast
  moreover have "\<forall>v\<in>snd ` set (cf_values ?d). secret_free v" using images(2) new(2) old(3) by blast
  moreover have "fst ` set (cf_values ?d) \<inter> fst ` set (cf_secrets c) = {}" using images(1) new(3) old(5) by blast
  ultimately have "config_ok ?d" using old(2,4) by (simp add: config_ok_def)
  then show "\<exists>c'. with_overrides c ovs = Inr c'"
    using new_config_accepts [of ?d] by (simp add: with_overrides_def)
qed

section \<open>Properties\<close>

text \<open>A small host for examples: the factories are numbers; the \<open>n\<close>-th call of factory \<open>f\<close> gives the
  pair of them, except that factory 0 raises and factory 1 gives \<open>None\<close>; only even factories
  satisfy the protocol.\<close>

definition sample_host :: "(nat, unit, nat \<times> nat) plugin_host" where
  "sample_host = \<lparr>h_call = (\<lambda>n f kw. if f = 0 then Inl (PyValueError ''no'') else if f = 1 then Inr None else Inr (Some (f, n))),
     h_satisfies = (\<lambda>_ i. case i of None \<Rightarrow> False | Some (f, _) \<Rightarrow> even f), h_protocol_name = (\<lambda>_. ''P'')\<rparr>"

definition sample_metadata :: "string \<Rightarrow> capability \<Rightarrow> int \<Rightarrow> plugin_metadata" where
  "sample_metadata name c major = \<lparr>pm_name = name, pm_version = ''1'',
     pm_spec = \<lparr>sp_capability = c, sp_version = \<lparr>vn_major = major, vn_minor = 0, vn_patch = 0\<rparr>\<rparr>,
     pm_capabilities = {c}, pm_description = []\<rparr>"

definition sample_calls :: "((nat, unit) plugin_decl, capability \<times> string \<times> kwargs) wo_call list" where
  "sample_calls = [Put (sample_metadata ''b'' PARSER 1, 2, Some ()), Put (sample_metadata ''a'' PARSER 1, 4, None),
     Put (sample_metadata ''b'' PARSER 1, 3, None), Put (sample_metadata ''c'' CHUNKER 2, 4, None),
     Use (PARSER, ''a'', [])]"

lemmas sample_plugin_simps = sample_calls_def sample_metadata_def sample_host_def run_registry_def wo_run_def
  put_decl_def use_plugin_def register_def create_def get_entry_def construct_def REQUIRED_VERSIONS_all
  pm_capability_def contract_version_def is_compatible_with_def empty_registry_def

text \<open>C32. The registry refines a write-once map of declarations: whatever sequence of registrations
  and constructions runs on it, its declarations are those of the abstract machine that knows
  nothing of entries, caches and failures; a registration is accepted exactly when the plugin
  declares its capability with a compatible contract version and nothing else holds its name; and
  lookups and listings answer from the declarations alone.\<close>

theorem registry_refines:
  fixes calls :: "(('f, 'p) plugin_decl, capability \<times> string \<times> kwargs) wo_call list"
    and r :: "('f, 'p, 'i) registry" and h :: "('f, 'p, 'i) plugin_host"
  assumes "reg_ok r"
  shows "let m = fold (spec_step admissible decl_key) calls (declarations r); r' = run_registry h calls r in
    declarations r' = m
    \<and> ((\<exists>r''. register md f p r' = Inr r'') \<longleftrightarrow> may_put admissible decl_key (md, f, p) m)
    \<and> ((\<exists>e. get_entry r' c name = Inr e \<and> decl_of e = d) \<longleftrightarrow> m (c, name) = Some d)
    \<and> (is_registered r' c name \<longleftrightarrow> (c, name) \<in> dom m)
    \<and> list_names r' c = sorted_list_of_set {n. (c, n) \<in> dom m}
    \<and> list_capabilities r' = sorted_list_of_set (fst ` dom m)"
proof -
  define m where "m = fold (spec_step admissible decl_key) calls (declarations r)"
  define r' where "r' = run_registry h calls r"
  have run: "declarations r' = m" and ok: "reg_ok r'"
    using reg.run_refines [OF assms(1), of h calls] by (simp_all add: m_def r'_def run_registry_def)
  have "(\<exists>r''. register md f p r' = Inr r'') \<longleftrightarrow> may_put admissible decl_key (md, f, p) m"
    using register_eq [of md f p r'] by (simp add: run)
  moreover have "(\<exists>e. get_entry r' c name = Inr e \<and> decl_of e = d) \<longleftrightarrow> m (c, name) = Some d"
    by (auto simp: run [symmetric] declarations_def get_entry_def split: option.split)
  moreover have "is_registered r' c name \<longleftrightarrow> (c, name) \<in> dom m"
    by (auto simp: run [symmetric] declarations_def is_registered_def)
  moreover have "list_names r' c = sorted_list_of_set {n. (c, n) \<in> dom m}"
    using list_names_declared [OF ok] by (simp add: run)
  moreover have "list_capabilities r' = sorted_list_of_set (fst ` dom m)"
    using list_capabilities_declared [of r'] by (simp add: run)
  ultimately show ?thesis
    unfolding Let_def m_def [symmetric] r'_def [symmetric] using run by blast
qed

theorem registry_refines_witness:
  "list_names (run_registry sample_host sample_calls empty_registry) PARSER = [''a'', ''b'']
    \<and> declarations (run_registry sample_host sample_calls empty_registry)
      = fold (spec_step admissible decl_key) sample_calls (declarations (empty_registry :: (nat, unit, nat \<times> nat) registry))"
proof -
  have "list_names (run_registry sample_host sample_calls empty_registry) PARSER = [''a'', ''b'']"
    by (simp add: sample_plugin_simps list_names_def decl_key_def)
  then show ?thesis using registry_refines [OF reg_ok_empty, of sample_calls sample_host] by (auto simp: Let_def)
qed

text \<open>Construction is idempotent: after \<open>create\<close> without arguments has given an instance, it
  gives the same instance after any further registrations and constructions, without calling a
  factory again and without changing the registry, even if the factory would now answer
  differently.\<close>

theorem cached_instance_stable:
  assumes "create h c name [] r = (Inr (Some i), r1)"
  shows "create h c name [] (run_registry h calls r1) = (Inr (Some i), run_registry h calls r1)"
  by (rule create_cached) (rule run_keeps_cache, rule create_fills_cache, rule assms)

definition sample_registry :: "(nat, unit, nat \<times> nat) registry" where
  "sample_registry = run_registry sample_host (butlast sample_calls) empty_registry"

theorem cached_instance_stable_witness:
  "create sample_host PARSER ''b'' [] (run_registry sample_host sample_calls
       (snd (create sample_host PARSER ''b'' [] sample_registry)))
     = (Inr (Some (2, 0)), run_registry sample_host sample_calls (snd (create sample_host PARSER ''b'' [] sample_registry)))"
proof -
  have "fst (create sample_host PARSER ''b'' [] sample_registry) = Inr (Some (2, 0))"
    by (simp add: sample_registry_def sample_plugin_simps)
  then have "create sample_host PARSER ''b'' [] sample_registry
      = (Inr (Some (2, 0)), snd (create sample_host PARSER ''b'' [] sample_registry))"
    by (cases "create sample_host PARSER ''b'' [] sample_registry") simp
  then show ?thesis by (rule cached_instance_stable)
qed

lemma overrides_safe:
  assumes o: "with_overrides c ovs = Inr c'" and dist: "distinct (map fst ovs)"
  shows "(\<forall>v\<in>snd ` set (cf_values c'). secret_free v)
      \<and> (\<forall>k. config_get c' k d = (case map_of ovs k of Some v \<Rightarrow> v | None \<Rightarrow> config_get c k d))
      \<and> (\<forall>k. require_secret c' k = require_secret c k)
      \<and> (\<forall>k s. require_secret c' k = Inr s \<longrightarrow> is_secret s \<and> config_require c' k = Inl (ConfigError (''required config key missing: '' @ k)))"
proof -
  note c' = new_config_Inr(2) [OF o [unfolded with_overrides_def]]
  note look = with_overrides_lookup [OF o]
  have rev: "map_of (rev ovs) = map_of ovs" using dist by (simp add: map_of_inject_set rev_map [symmetric])
  have "\<forall>v\<in>snd ` set (cf_values c'). secret_free v" using c' by (simp add: config_ok_def)
  moreover have "\<forall>k. config_get c' k d = (case map_of ovs k of Some v \<Rightarrow> v | None \<Rightarrow> config_get c k d)"
    by (simp add: config_get_def look(1) rev map_add_def split: option.split)
  moreover have "\<forall>k. require_secret c' k = require_secret c k"
    by (simp add: require_secret_def look(2))
  moreover have "is_secret s \<and> config_require c' k = Inl (ConfigError (''required config key missing: '' @ k))"
    if s: "require_secret c' k = Inr s" for k s
  proof -
    have m: "(k, s) \<in> set (cf_secrets c')"
      using s by (auto simp: require_secret_def split: option.splits dest: map_of_SomeD)
    then have "s \<in> snd ` set (cf_secrets c')" "k \<in> fst ` set (cf_secrets c')" by force+
    then have "is_secret s" "k \<notin> fst ` set (cf_values c')"
      using c' unfolding config_ok_def by blast+
    then show ?thesis
      by (simp add: config_require_def map_of_eq_None_iff [THEN iffD2])
  qed
  ultimately show ?thesis by blast
qed

text \<open>What is safe to log stays so: however a configuration is built and overridden, no secret
  and no unsupported object occurs anywhere in its values, no key is both a value and a secret, and
  the secrets are those it was built with. An override is refused exactly when it is unsupported,
  has an empty key or names a secret.\<close>

theorem config_holds_no_secret:
  assumes "new_config vals secrets = Inr c" "distinct (map fst ovs)"
  shows "((\<exists>c'. with_overrides c ovs = Inr c') \<longleftrightarrow>
      (\<forall>(k, v)\<in>set ovs. k \<noteq> [] \<and> secret_free v \<and> k \<notin> fst ` set secrets))
    \<and> (\<forall>c'. with_overrides c ovs = Inr c' \<longrightarrow>
      (\<forall>v\<in>snd ` set (cf_values c'). secret_free v)
      \<and> (\<forall>k. config_get c' k d = (case map_of ovs k of Some v \<Rightarrow> v | None \<Rightarrow> config_get c k d))
      \<and> (\<forall>k. require_secret c' k = require_secret c k)
      \<and> (\<forall>k s. require_secret c' k = Inr s \<longrightarrow> is_secret s \<and> config_require c' k = Inl (ConfigError (''required config key missing: '' @ k))))"
proof (rule conjI)
  note c = new_config_Inr [OF assms(1)]
  show "(\<exists>c'. with_overrides c ovs = Inr c') \<longleftrightarrow>
      (\<forall>(k, v)\<in>set ovs. k \<noteq> [] \<and> secret_free v \<and> k \<notin> fst ` set secrets)"
    using with_overrides_accepts [OF c(2) assms(2)] by (simp add: c(1))
qed (intro allI impI overrides_safe assms(2))

definition sample_config :: plugin_config where
  "sample_config = \<lparr>cf_values = [(''bucket'', VStr ''b''), (''n'', VInt 1)], cf_secrets = [(''key'', VSecret ''s'')]\<rparr>"

theorem config_holds_no_secret_witness:
  "config_get (\<lparr>cf_values = [(''bucket'', VStr ''b''), (''n'', VTuple [VInt 2])], cf_secrets = [(''key'', VSecret ''s'')]\<rparr>) ''n'' VNone
     = VTuple [VInt 2]
   \<and> \<not> (\<exists>c'. with_overrides sample_config [(''key'', VStr ''x'')] = Inr c')"
proof -
  have n: "new_config (cf_values sample_config) (cf_secrets sample_config) = Inr sample_config"
    by (simp add: sample_config_def new_config_def)
  have o: "with_overrides sample_config [(''n'', VTuple [VInt 2])]
      = Inr \<lparr>cf_values = [(''bucket'', VStr ''b''), (''n'', VTuple [VInt 2])], cf_secrets = [(''key'', VSecret ''s'')]\<rparr>"
    by (simp add: sample_config_def with_overrides_def new_config_def)
  have "\<not> (\<exists>c'. with_overrides sample_config [(''key'', VStr ''x'')] = Inr c')"
    using config_holds_no_secret [OF n, of "[(''key'', VStr ''x'')]"] by (simp add: sample_config_def)
  moreover have "config_get (\<lparr>cf_values = [(''bucket'', VStr ''b''), (''n'', VTuple [VInt 2])], cf_secrets = [(''key'', VSecret ''s'')]\<rparr>) ''n'' VNone
     = VTuple [VInt 2]"
    using config_holds_no_secret [OF n, of "[(''n'', VTuple [VInt 2])]" VNone] o by (simp add: sample_config_def config_get_def)
  ultimately show ?thesis by blast
qed

end
