(* ===== verification/Settings.thy ===== *)
theory Settings
  imports PyFloat PyText
begin

text \<open>
  The settings of the service, \<open>app/config.py\<close>: the fields that validation and the modelled builders
  read, and \<open>validate_settings\<close>, which decides whether the process starts. \<open>urlparse\<close> of the
  standard library is modelled as far as the code uses it (scheme and password); which bracketed
  hosts are valid addresses is the parameter \<open>bracket_ok\<close>.
\<close>

record settings =
  st_app_env :: string
  st_database_url :: string
  st_database_tls :: string
  st_database_tls_ca_file :: "string option"
  st_admin_api_key :: string
  st_object_store_provider :: string
  st_local_storage_dir :: string
  st_s3_endpoint_url :: string
  st_s3_access_key :: string
  st_s3_secret_key :: string
  st_s3_bucket :: string
  st_s3_region :: string
  st_s3_force_path_style :: bool
  st_openai_base_url :: string
  st_openai_graph_extractor_base_url :: string
  st_openai_api_key :: string
  st_extractor_provider :: string
  st_extractor_model :: string
  st_extractor_version :: string
  st_extractor_prompt_version :: string
  st_extractor_timeout :: int
  st_extractor_parallelism :: int
  st_target_batch_size :: int
  st_max_batch_chars :: int
  st_previous_chunks :: int
  st_consolidation_enabled :: bool
  st_consolidation_version :: string
  st_consolidation_prompt_version :: string
  st_consolidation_max_chars :: int
  st_pdf_parser :: string
  st_liteparse_ocr_mode :: string
  st_liteparse_dpi :: int
  st_liteparse_max_pages :: int
  st_liteparse_ocr_workers :: int
  st_liteparse_image_mode :: string
  st_upload_max_bytes :: int
  st_upload_spool_max_bytes :: int
  st_outbox_poll_seconds :: int
  st_indexing_stale_seconds :: int

section \<open>URLs\<close>

definition is_c0_or_space :: "char \<Rightarrow> bool" where
  "is_c0_or_space c \<longleftrightarrow> ord_of c \<le> 32"

definition is_scheme_char :: "char \<Rightarrow> bool" where
  "is_scheme_char c \<longleftrightarrow> is_lower_az c \<or> is_upper_az c \<or> is_digit09 c \<or> c \<in> set ''+-.''"

text \<open>\<open>urlsplit\<close> up to the network location: the scheme and the rest.\<close>

definition clean_url :: "string \<Rightarrow> string" where
  "clean_url url = filter (\<lambda>c. ord_of c \<notin> {9, 10, 13}) (dropWhile is_c0_or_space url)"

definition split_scheme :: "string \<Rightarrow> string \<times> string" where
  "split_scheme url =
     (let u = clean_url url; pre = takeWhile (\<lambda>c. c \<noteq> CHR '':'') u; rest = dropWhile (\<lambda>c. c \<noteq> CHR '':'') u in
      if rest \<noteq> [] \<and> pre \<noteq> [] \<and> (is_lower_az (hd u) \<or> is_upper_az (hd u)) \<and> list_all is_scheme_char pre
      then (py_lower pre, tl rest) else ([], u))"

definition netloc :: "(string \<Rightarrow> bool) \<Rightarrow> string \<Rightarrow> string res" where
  "netloc bracket_ok url =
     (let rest = snd (split_scheme url) in
      if \<not> starts_with ''//'' rest then Inr []
      else let n = takeWhile (\<lambda>c. c \<notin> set ''/?#'') (drop 2 rest) in
        if (CHR ''['' \<in> set n) \<noteq> (CHR '']'' \<in> set n) then Inl (ValueError ''Invalid IPv6 URL'')
        else if CHR ''['' \<in> set n \<and> \<not> bracket_ok n then Inl (ValueError ''Invalid IPv6 URL'')
        else Inr n)"

definition url_scheme :: "(string \<Rightarrow> bool) \<Rightarrow> string \<Rightarrow> string res" where
  "url_scheme bracket_ok url = bindE (netloc bracket_ok url) (\<lambda>_. Inr (fst (split_scheme url)))"

text \<open>\<open>netloc.rpartition('@')\<close>, then \<open>userinfo.partition(':')\<close>.\<close>

definition userinfo :: "string \<Rightarrow> string option" where
  "userinfo n = (if CHR ''@'' \<in> set n then Some (rev (tl (dropWhile (\<lambda>c. c \<noteq> CHR ''@'') (rev n)))) else None)"

definition url_password :: "(string \<Rightarrow> bool) \<Rightarrow> string \<Rightarrow> string option res" where
  "url_password bracket_ok url = bindE (netloc bracket_ok url) (\<lambda>n. Inr
     (case userinfo n of
        None \<Rightarrow> None
      | Some u \<Rightarrow> if CHR '':'' \<in> set u then Some (tl (dropWhile (\<lambda>c. c \<noteq> CHR '':'') u)) else None))"

text \<open>\<open>s.replace(old, new, 1)\<close>\<close>

definition replace_once :: "string \<Rightarrow> string \<Rightarrow> string \<Rightarrow> string" where
  "replace_once old new s =
     (case py_find old s of None \<Rightarrow> s | Some i \<Rightarrow> take i s @ new @ drop (i + length old) s)"

section \<open>Validation\<close>

definition PLACEHOLDERS :: "string list" where
  "PLACEHOLDERS = [''change-me'', ''changeme'', ''replace_me'', ''example'', ''placeholder'']"

definition has_placeholder :: "string \<Rightarrow> bool" where
  "has_placeholder value \<longleftrightarrow> list_ex (\<lambda>marker. py_contains marker (py_lower value)) PLACEHOLDERS"

definition graph_extractor_base_url :: "settings \<Rightarrow> string" where
  "graph_extractor_base_url s =
     (if st_openai_graph_extractor_base_url s \<noteq> [] then st_openai_graph_extractor_base_url s
      else st_openai_base_url s)"

definition is_production :: "settings \<Rightarrow> bool" where
  "is_production s \<longleftrightarrow> py_lower (st_app_env s) \<in> {''production'', ''prod''}"

definition check_secrets :: "(string \<times> string) list \<Rightarrow> unit res" where
  "check_secrets values =
     raise_first (\<lambda>(name, value). length value < 16 \<or> has_placeholder value)
       (\<lambda>(name, value). ValueError (name @ '' must be a non-placeholder production secret'')) values"

text \<open>The first block, which holds in every environment.\<close>

definition validate_common :: "settings \<Rightarrow> unit res" where
  "validate_common s =
     bindE (guardE (\<not> (st_upload_max_bytes s < 1 \<or> st_upload_spool_max_bytes s < 1))
       (ValueError ''upload limits must be positive'')) (\<lambda>_.
     bindE (guardE (\<not> (st_database_tls s = ''verify-full'' \<and> \<not> (case st_database_tls_ca_file s of None \<Rightarrow> False | Some f \<Rightarrow> f \<noteq> [])))
       (ValueError ''DATABASE_TLS_CA_FILE is required when DATABASE_TLS=verify-full'')) (\<lambda>_.
     bindE (guardE (st_extractor_provider s \<in> {''deterministic'', ''nlp'', ''openai''})
       (ValueError ''graph extractor provider must be deterministic, nlp, or openai'')) (\<lambda>_.
     bindE (guardE (\<not> (st_outbox_poll_seconds s \<le> 0 \<or> st_indexing_stale_seconds s \<le> 0))
       (ValueError ''outbox polling interval must be positive'')) (\<lambda>_.
     bindE (guardE (\<not> (st_extractor_timeout s < 1 \<or> st_extractor_parallelism s < 1 \<or> st_target_batch_size s < 1
         \<or> st_max_batch_chars s < 1 \<or> st_previous_chunks s < 0))
       (ValueError ''graph settings must be positive'')) (\<lambda>_.
     bindE (guardE (\<not> (py_strip (st_consolidation_version s) = [] \<or> py_strip (st_consolidation_prompt_version s) = []))
       (ValueError ''graph consolidation versions must be non-empty'')) (\<lambda>_.
     bindE (guardE (\<not> st_consolidation_max_chars s < 1)
       (ValueError ''graph consolidation character limit must be positive'')) (\<lambda>_.
     bindE (guardE (\<not> (st_consolidation_enabled s \<and> st_extractor_provider s \<noteq> ''openai''))
       (ValueError ''document consolidation requires OpenAI graph extraction'')) (\<lambda>_.
     bindE (guardE (st_pdf_parser s \<in> {''pypdf'', ''liteparse''})
       (ValueError ''PDF parser must be pypdf or liteparse'')) (\<lambda>_.
     bindE (guardE (st_liteparse_ocr_mode s \<in> {''auto'', ''always'', ''disabled''})
       (ValueError ''LiteParse OCR mode must be auto, always, or disabled'')) (\<lambda>_.
     bindE (guardE (\<not> (st_liteparse_dpi s < 1 \<or> st_liteparse_max_pages s < 1 \<or> st_liteparse_ocr_workers s < 1))
       (ValueError ''LiteParse DPI, page limit, and worker count must be positive'')) (\<lambda>_.
     bindE (guardE (st_liteparse_image_mode s = ''off'')
       (ValueError ''LiteParse image mode must be off'')) (\<lambda>_.
     guardE (\<not> (st_extractor_provider s = ''openai'' \<and> st_openai_api_key s = []))
       (ValueError ''OPENAI_API_KEY is required for OpenAI graph extraction'')))))))))))))"

definition validate_production :: "(string \<Rightarrow> bool) \<Rightarrow> settings \<Rightarrow> unit res" where
  "validate_production bracket_ok s =
     bindE (guardE (st_extractor_provider s = ''openai'')
       (ValueError ''GRAPH_EXTRACTOR_PROVIDER must be openai in production'')) (\<lambda>_.
     bindE (url_scheme bracket_ok (graph_extractor_base_url s)) (\<lambda>scheme.
     bindE (guardE (scheme = ''https'')
       (ValueError ''OPENAI_GRAPH_EXTRACTOR_BASE_URL must use https in production'')) (\<lambda>_.
     bindE (check_secrets [(''ADMIN_API_KEY'', st_admin_api_key s), (''S3_SECRET_KEY'', st_s3_secret_key s),
         (''OPENAI_API_KEY'', st_openai_api_key s)]) (\<lambda>_.
     bindE (url_password bracket_ok (replace_once ''postgresql+asyncpg'' ''postgresql'' (st_database_url s))) (\<lambda>pw.
     guardE (case pw of None \<Rightarrow> False | Some p \<Rightarrow> p \<noteq> [] \<and> \<not> has_placeholder p)
       (ValueError ''DATABASE_URL must contain a non-placeholder password''))))))"

definition validate_settings :: "(string \<Rightarrow> bool) \<Rightarrow> settings \<Rightarrow> settings res" where
  "validate_settings bracket_ok s =
     bindE (validate_common s) (\<lambda>_.
       if \<not> is_production s then Inr s
       else bindE (validate_production bracket_ok s) (\<lambda>_. Inr s))"

end
