(* ===== verification/Builtins.thy ===== *)
theory Builtins
  imports Plugins Settings LlmAnswer Dispatch
begin

text \<open>
  The built-in plugins: their factories and explicit registration (\<open>app/plugin_registry.py\<close>), what
  \<open>app/storage.py\<close> and \<open>build_extractor\<close> of \<open>app/graph/pipeline.py\<close> ask of them, and the
  singleton registry they live in. An instance is the settings its constructor received. The client
  library of S3 and the file system are parameters: whether they refuse the settings.
\<close>

section \<open>Instances and factories\<close>

record openai_settings =
  oa_base_url :: string
  oa_api_key :: string
  oa_model :: string
  oa_prompt_version :: string
  oa_timeout :: rat
  oa_max_batch_chars :: int

record s3_settings =
  s3_bucket :: string
  s3_endpoint :: string
  s3_access_key :: string
  s3_secret_key :: string
  s3_region :: string
  s3_path_style :: bool

datatype builtin_instance =
    DeterministicExtractor
  | NlpExtractor string
  | OpenAICompatibleExtractor openai_settings
  | S3ObjectStore s3_settings
  | LocalObjectStore string

datatype builtin_protocol = PExtractor | PObjectStore

datatype builtin_factory = FDeterministic | FNlp | FOpenai | FS3 | FLocal

record builtin_env =
  be_s3 :: "s3_settings \<Rightarrow> plugin_error option"
  be_local :: "string \<Rightarrow> plugin_error option"

definition bindP :: "plugin_error + 'a \<Rightarrow> ('a \<Rightarrow> plugin_error + 'b) \<Rightarrow> plugin_error + 'b" where
  "bindP m f = (case m of Inl e \<Rightarrow> Inl e | Inr x \<Rightarrow> f x)"

lemma bindP_simps [simp]: "bindP (Inl e) f = Inl e" "bindP (Inr x) f = f x"
  by (simp_all add: bindP_def)

definition config_arg :: "kwargs \<Rightarrow> plugin_error + plugin_config" where
  "config_arg kw =
     (case map_of kw ''config'' of
        Some (Some c) \<Rightarrow> if length kw \<noteq> 1
          then Inl (PyTypeError ''built-in plugin factories require only a PluginConfig named config'') else Inr c
      | _ \<Rightarrow> Inl (PyTypeError ''built-in plugin factories require only a PluginConfig named config''))"

definition config_string :: "plugin_config \<Rightarrow> string \<Rightarrow> plugin_error + string" where
  "config_string c k =
     bindP (config_require c k) (\<lambda>v. case v of VStr s \<Rightarrow> Inr s
       | _ \<Rightarrow> Inl (PyTypeError (''config key '' @ quoted k @ '' must be a string'')))"

definition config_number :: "plugin_config \<Rightarrow> string \<Rightarrow> rat \<Rightarrow> plugin_error + rat" where
  "config_number c k d =
     (case config_get c k (VFloat d) of
        VInt i \<Rightarrow> (case float_of_int i of Inl _ \<Rightarrow> Inl PyOverflowError | Inr x \<Rightarrow> Inr x)
      | VFloat x \<Rightarrow> Inr x
      | _ \<Rightarrow> Inl (PyTypeError (''config key '' @ quoted k @ '' must be a number'')))"

text \<open>\<open>int(x)\<close> of a float.\<close>

definition py_trunc :: "rat \<Rightarrow> int" where
  "py_trunc x = (if x < 0 then \<lceil>x\<rceil> else \<lfloor>x\<rfloor>)"

definition deterministic_factory :: "kwargs \<Rightarrow> plugin_error + builtin_instance" where
  "deterministic_factory kw = bindP (config_arg kw) (\<lambda>c. Inr DeterministicExtractor)"

definition nlp_factory :: "kwargs \<Rightarrow> plugin_error + builtin_instance" where
  "nlp_factory kw = bindP (config_arg kw) (\<lambda>c.
     case config_get c ''model'' (VStr ''nlp-graph-v1'') of
       VStr m \<Rightarrow> Inr (NlpExtractor m)
     | _ \<Rightarrow> Inl (PyTypeError (''config key '' @ quoted ''model'' @ '' must be a string'')))"

definition openai_factory :: "kwargs \<Rightarrow> plugin_error + builtin_instance" where
  "openai_factory kw = bindP (config_arg kw) (\<lambda>c.
     bindP (config_string c ''base_url'') (\<lambda>url.
     bindP (require_secret c ''api_key'') (\<lambda>key.
     bindP (config_string c ''model'') (\<lambda>model.
     bindP (config_string c ''prompt_version'') (\<lambda>prompt.
     bindP (config_number c ''timeout'' 30) (\<lambda>timeout.
     bindP (config_number c ''max_batch_chars'' 100000) (\<lambda>chars.
       Inr (OpenAICompatibleExtractor \<lparr>oa_base_url = url, oa_api_key = secret_get key, oa_model = model,
         oa_prompt_version = prompt, oa_timeout = timeout, oa_max_batch_chars = py_trunc chars\<rparr>))))))))"

text \<open>\<open>S3ObjectStore.from_plugin_config\<close>\<close>

definition s3_from_config :: "builtin_env \<Rightarrow> plugin_config \<Rightarrow> plugin_error + builtin_instance" where
  "s3_from_config env c =
     bindP (config_require c ''bucket'') (\<lambda>bucket.
     bindP (config_require c ''endpoint_url'') (\<lambda>endpoint.
     bindP (config_require c ''access_key'') (\<lambda>access.
     bindP (config_require c ''region'') (\<lambda>region.
       case (bucket, endpoint, access, region) of
         (VStr b, VStr e, VStr a, VStr r) \<Rightarrow>
           (case config_get c ''force_path_style'' (VBool True) of
              VBool style \<Rightarrow>
                bindP (require_secret c ''secret_key'') (\<lambda>secret.
                let st = \<lparr>s3_bucket = b, s3_endpoint = e, s3_access_key = a, s3_secret_key = secret_get secret,
                    s3_region = r, s3_path_style = style\<rparr> in
                case be_s3 env st of Some exc \<Rightarrow> Inl exc | None \<Rightarrow> Inr (S3ObjectStore st))
            | _ \<Rightarrow> Inl (PyTypeError ''force_path_style must be a boolean''))
       | _ \<Rightarrow> Inl (PyTypeError ''S3 config values must be strings'')))))"

definition local_from_config :: "builtin_env \<Rightarrow> plugin_config \<Rightarrow> plugin_error + builtin_instance" where
  "local_from_config env c =
     (case config_get c ''base_dir'' (VStr ''./data/uploads'') of
        VStr d \<Rightarrow> (case be_local env d of Some exc \<Rightarrow> Inl exc | None \<Rightarrow> Inr (LocalObjectStore d))
      | _ \<Rightarrow> Inl (PyTypeError ''base_dir must be a string''))"

definition s3_factory :: "builtin_env \<Rightarrow> kwargs \<Rightarrow> plugin_error + builtin_instance" where
  "s3_factory env kw = bindP (config_arg kw) (s3_from_config env)"

definition local_storage_factory :: "builtin_env \<Rightarrow> kwargs \<Rightarrow> plugin_error + builtin_instance" where
  "local_storage_factory env kw = bindP (config_arg kw) (local_from_config env)"

fun run_factory :: "builtin_env \<Rightarrow> builtin_factory \<Rightarrow> kwargs \<Rightarrow> plugin_error + builtin_instance" where
  "run_factory env FDeterministic = deterministic_factory"
| "run_factory env FNlp = nlp_factory"
| "run_factory env FOpenai = openai_factory"
| "run_factory env FS3 = s3_factory env"
| "run_factory env FLocal = local_storage_factory env"

fun instance_of :: "builtin_protocol \<Rightarrow> builtin_instance \<Rightarrow> bool" where
  "instance_of PExtractor (S3ObjectStore _) = False"
| "instance_of PExtractor (LocalObjectStore _) = False"
| "instance_of PExtractor _ = True"
| "instance_of PObjectStore (S3ObjectStore _) = True"
| "instance_of PObjectStore (LocalObjectStore _) = True"
| "instance_of PObjectStore _ = False"

definition builtin_host :: "builtin_env \<Rightarrow> (builtin_factory, builtin_protocol, builtin_instance) plugin_host" where
  "builtin_host env = \<lparr>
     h_call = (\<lambda>n f kw. case run_factory env f kw of Inl e \<Rightarrow> Inl e | Inr i \<Rightarrow> Inr (Some i)),
     h_satisfies = (\<lambda>p i. case i of None \<Rightarrow> False | Some x \<Rightarrow> instance_of p x),
     h_protocol_name = (\<lambda>p. case p of PExtractor \<Rightarrow> ''Extractor'' | PObjectStore \<Rightarrow> ''ObjectStore'')\<rparr>"

section \<open>Registration\<close>

type_synonym builtin_registry = "(builtin_factory, builtin_protocol, builtin_instance) registry"

definition builtin_metadata :: "string \<Rightarrow> capability \<Rightarrow> plugin_metadata" where
  "builtin_metadata name c = \<lparr>pm_name = name, pm_version = ''0.1.0'',
     pm_spec = \<lparr>sp_capability = c, sp_version = \<lparr>vn_major = 1, vn_minor = 0, vn_patch = 0\<rparr>\<rparr>,
     pm_capabilities = {c}, pm_description = ''Built-in Open Graph Memory implementation''\<rparr>"

definition registrations :: "(capability \<times> string \<times> builtin_factory \<times> builtin_protocol) list" where
  "registrations =
     [(EXTRACTION, ''deterministic'', FDeterministic, PExtractor),
      (EXTRACTION, ''nlp'', FNlp, PExtractor),
      (EXTRACTION, ''openai'', FOpenai, PExtractor),
      (OBJECT_STORE, ''s3'', FS3, PObjectStore),
      (OBJECT_STORE, ''local'', FLocal, PObjectStore)]"

text \<open>The registrations made before one that raises stay: the exception, if any, and the registry.\<close>

fun register_all ::
    "(capability \<times> string \<times> builtin_factory \<times> builtin_protocol) list \<Rightarrow> builtin_registry
      \<Rightarrow> plugin_error option \<times> builtin_registry" where
  "register_all [] r = (None, r)"
| "register_all ((c, name, f, p) # rs) r =
     (case register (builtin_metadata name c) f (Some p) r of Inl e \<Rightarrow> (Some e, r) | Inr r' \<Rightarrow> register_all rs r')"

definition register_builtin_plugins ::
    "builtin_registry option \<Rightarrow> builtin_registry option \<Rightarrow> plugin_error option \<times> builtin_registry" where
  "register_builtin_plugins r global =
     register_all registrations (case r of Some r' \<Rightarrow> r' | None \<Rightarrow> get_registry global)"

text \<open>The common body of \<open>create_extractor\<close> and \<open>create_object_store\<close>: the answer and the singleton
  afterwards.\<close>

definition create_builtin ::
    "builtin_env \<Rightarrow> capability \<Rightarrow> string \<Rightarrow> plugin_config \<Rightarrow> builtin_registry option
      \<Rightarrow> (plugin_error + builtin_instance option) \<times> builtin_registry option" where
  "create_builtin env c name cfg global =
     (case register_builtin_plugins None global of
        (Some e, r) \<Rightarrow> (Inl e, Some r)
      | (None, r) \<Rightarrow> (case create (builtin_host env) c name [(''config'', Some cfg)] r of (a, r') \<Rightarrow> (a, Some r')))"

definition create_extractor ::
    "builtin_env \<Rightarrow> string \<Rightarrow> plugin_config \<Rightarrow> builtin_registry option
      \<Rightarrow> (plugin_error + builtin_instance option) \<times> builtin_registry option" where
  "create_extractor env name cfg global = create_builtin env EXTRACTION name cfg global"

definition create_object_store ::
    "builtin_env \<Rightarrow> plugin_config \<Rightarrow> string \<Rightarrow> builtin_registry option
      \<Rightarrow> (plugin_error + builtin_instance option) \<times> builtin_registry option" where
  "create_object_store env cfg provider global = create_builtin env OBJECT_STORE provider cfg global"

section \<open>What the program builds from its settings\<close>

definition extractor_metadata :: "settings \<Rightarrow> extractor_meta res" where
  "extractor_metadata s =
     (case map_of [(''openai'', ''openai_compatible''), (''nlp'', ''nlp''), (''deterministic'', ''deterministic'')]
        (st_extractor_provider s) of
        None \<Rightarrow> Inl KeyError
      | Some provider \<Rightarrow> Inr \<lparr>xm_provider = provider, xm_model = st_extractor_model s,
          xm_extractor = st_extractor_version s, xm_prompt = st_extractor_prompt_version s\<rparr>)"

definition extractor_config :: "settings \<Rightarrow> plugin_error + plugin_config" where
  "extractor_config s = new_config
     [(''base_url'', VStr (graph_extractor_base_url s)), (''model'', VStr (st_extractor_model s)),
      (''prompt_version'', VStr (st_extractor_prompt_version s)), (''timeout'', VInt (st_extractor_timeout s)),
      (''max_batch_chars'', VInt (st_max_batch_chars s))]
     [(''api_key'', VSecret (st_openai_api_key s))]"

text \<open>\<open>build_extractor\<close>: a \<open>KeyError\<close> of the metadata comes first.\<close>

definition build_extractor ::
    "builtin_env \<Rightarrow> settings \<Rightarrow> builtin_registry option
      \<Rightarrow> (err + plugin_error + builtin_instance option \<times> extractor_meta) \<times> builtin_registry option" where
  "build_extractor env s global =
     (case extractor_metadata s of
        Inl e \<Rightarrow> (Inl e, global)
      | Inr md \<Rightarrow>
          (case extractor_config s of
             Inl e \<Rightarrow> (Inr (Inl e), global)
           | Inr cfg \<Rightarrow>
               (case create_extractor env (st_extractor_provider s) cfg global of
                  (Inl e, g) \<Rightarrow> (Inr (Inl e), g)
                | (Inr i, g) \<Rightarrow> (Inr (Inr (i, md)), g))))"

definition get_object_store ::
    "builtin_env \<Rightarrow> settings \<Rightarrow> builtin_registry option
      \<Rightarrow> (plugin_error + builtin_instance option) \<times> builtin_registry option" where
  "get_object_store env s global =
     (if py_lower (st_object_store_provider s) = ''local'' then
        (case new_config [(''base_dir'', VStr (st_local_storage_dir s))] [] of
           Inl e \<Rightarrow> (Inl e, global)
         | Inr cfg \<Rightarrow> create_object_store env cfg ''local'' global)
      else
        (case new_config
            [(''bucket'', VStr (st_s3_bucket s)), (''endpoint_url'', VStr (st_s3_endpoint_url s)),
             (''access_key'', VStr (st_s3_access_key s)), (''region'', VStr (st_s3_region s)),
             (''force_path_style'', VBool (st_s3_force_path_style s))]
            [(''secret_key'', VSecret (st_s3_secret_key s))] of
           Inl e \<Rightarrow> (Inl e, global)
         | Inr cfg \<Rightarrow> create_object_store env cfg ''s3'' global))"

section \<open>The singleton registry holds the built-ins and caches nothing\<close>

definition builtin_entries ::
    "((capability \<times> string) \<times> (builtin_factory, builtin_protocol, builtin_instance) plugin_entry) list" where
  "builtin_entries = map (\<lambda>(c, name, f, p). ((c, name),
     \<lparr>pe_metadata = builtin_metadata name c, pe_factory = f, pe_protocol = Some p, pe_instance = None\<rparr>)) registrations"

definition builtin_global :: "builtin_registry option \<Rightarrow> bool" where
  "builtin_global g \<longleftrightarrow> g = None \<or> (\<exists>n. g = Some \<lparr>rg_entries = builtin_entries, rg_calls = n\<rparr>)"

lemma register_builtin_first:
  "register_builtin_plugins None None = (None, \<lparr>rg_entries = builtin_entries, rg_calls = 0\<rparr>)"
  by (simp add: register_builtin_plugins_def get_registry_def empty_registry_def registrations_def register_def
      REQUIRED_VERSIONS_all pm_capability_def contract_version_def is_compatible_with_def builtin_metadata_def builtin_entries_def)

lemma register_builtin_again:
  "register_builtin_plugins None (Some \<lparr>rg_entries = builtin_entries, rg_calls = n\<rparr>)
     = (None, \<lparr>rg_entries = builtin_entries, rg_calls = n\<rparr>)"
  by (simp add: register_builtin_plugins_def get_registry_def registrations_def register_def
      REQUIRED_VERSIONS_all pm_capability_def contract_version_def is_compatible_with_def builtin_metadata_def builtin_entries_def)

lemma register_builtin:
  assumes "builtin_global g"
  obtains n where "register_builtin_plugins None g = (None, \<lparr>rg_entries = builtin_entries, rg_calls = n\<rparr>)"
  using assms register_builtin_first register_builtin_again by (auto simp: builtin_global_def)

definition builtin_of :: "capability \<Rightarrow> string \<Rightarrow> (builtin_factory \<times> builtin_protocol) option" where
  "builtin_of c name = map_of (map (\<lambda>(c, name, fp). ((c, name), fp)) registrations) (c, name)"

text \<open>What \<open>create\<close> would answer without a registry: the factory of the name, called directly.\<close>

definition direct ::
    "builtin_env \<Rightarrow> capability \<Rightarrow> string \<Rightarrow> plugin_config \<Rightarrow> plugin_error + builtin_instance option" where
  "direct env c name cfg =
     (case builtin_of c name of
        None \<Rightarrow> Inl (PluginNotRegisteredError (''no plugin registered for '' @ capability_value c @ ''/'' @ name) name)
      | Some (f, p) \<Rightarrow>
          (case run_factory env f [(''config'', Some cfg)] of
             Inl e \<Rightarrow> Inl (PluginConstructionError (''failed to construct plugin '' @ quoted name) name e)
           | Inr i \<Rightarrow> Inr (Some i)))"

text \<open>A factory makes what its registration promises.\<close>

lemma bindP_Inr_iff: "bindP m f = Inr y \<longleftrightarrow> (\<exists>x. m = Inr x \<and> f x = Inr y)"
  by (cases m) auto

lemma str_case_Inr:
  "(case v of VNone \<Rightarrow> Inl e | VStr s \<Rightarrow> g s | VInt i \<Rightarrow> Inl e | VFloat x \<Rightarrow> Inl e | VBool b \<Rightarrow> Inl e
     | VTuple vs \<Rightarrow> Inl e | VSecret s \<Rightarrow> Inl e | VOther \<Rightarrow> Inl e) = Inr y \<longleftrightarrow> (\<exists>s. v = VStr s \<and> g s = Inr y)"
  "(case v of VNone \<Rightarrow> Inl e | VStr s \<Rightarrow> Inl e | VInt i \<Rightarrow> Inl e | VFloat x \<Rightarrow> Inl e | VBool b \<Rightarrow> h b
     | VTuple vs \<Rightarrow> Inl e | VSecret s \<Rightarrow> Inl e | VOther \<Rightarrow> Inl e) = Inr y \<longleftrightarrow> (\<exists>b. v = VBool b \<and> h b = Inr y)"
  by (cases v; simp)+

lemma refusal_case_Inr: "(case r of None \<Rightarrow> Inr x | Some e \<Rightarrow> Inl e) = Inr y \<longleftrightarrow> r = None \<and> y = x"
  by (cases r) auto

lemma factory_protocol:
  assumes "(c, name, f, p) \<in> set registrations" "run_factory env f kw = Inr i"
  shows "instance_of p i"
proof -
  have "f = FDeterministic \<and> p = PExtractor \<or> f = FNlp \<and> p = PExtractor \<or> f = FOpenai \<and> p = PExtractor
      \<or> f = FS3 \<and> p = PObjectStore \<or> f = FLocal \<and> p = PObjectStore"
    using assms(1) by (auto simp: registrations_def)
  then show ?thesis
    using assms(2)
    by (elim disjE conjE)
       (auto simp: deterministic_factory_def nlp_factory_def openai_factory_def s3_factory_def s3_from_config_def
         local_storage_factory_def local_from_config_def bindP_Inr_iff Let_def str_case_Inr refusal_case_Inr)
qed

lemma map_of_builtin_entries:
  "map_of builtin_entries (c, name) =
     map_option (\<lambda>(f, p). \<lparr>pe_metadata = builtin_metadata name c, pe_factory = f, pe_protocol = Some p, pe_instance = None\<rparr>)
       (builtin_of c name)"
  by (simp add: builtin_entries_def registrations_def builtin_of_def)

lemma builtin_of_registered: "builtin_of c name = Some (f, p) \<Longrightarrow> (c, name, f, p) \<in> set registrations"
  by (auto simp: builtin_of_def dest!: map_of_SomeD)

lemma create_builtin_eq:
  assumes "builtin_global g"
  shows "\<exists>n. create_builtin env c name cfg g
    = (direct env c name cfg, Some \<lparr>rg_entries = builtin_entries, rg_calls = n\<rparr>)"
proof -
  obtain n where n: "register_builtin_plugins None g = (None, \<lparr>rg_entries = builtin_entries, rg_calls = n\<rparr>)"
    using register_builtin [OF assms] .
  let ?r = "\<lparr>rg_entries = builtin_entries, rg_calls = n\<rparr> :: builtin_registry"
  let ?kw = "[(''config'', Some cfg)]"
  show ?thesis
  proof (cases "builtin_of c name")
    case None
    then show ?thesis
      by (simp add: create_builtin_def n create_def get_entry_def map_of_builtin_entries direct_def)
  next
    case (Some fp)
    obtain f p where fp: "fp = (f, p)" by (cases fp)
    let ?e = "\<lparr>pe_metadata = builtin_metadata name c, pe_factory = f, pe_protocol = Some p, pe_instance = None\<rparr>
        :: (builtin_factory, builtin_protocol, builtin_instance) plugin_entry"
    have e: "map_of builtin_entries (c, name) = Some ?e"
      using Some by (simp add: map_of_builtin_entries fp)
    have reg: "(c, name, f, p) \<in> set registrations" using Some by (simp add: fp builtin_of_registered)
    have "construct (builtin_host env) n ?e ?kw = (direct env c name cfg, ?e, Suc n)"
      using factory_protocol [OF reg, of env ?kw]
      by (auto simp: construct_def builtin_host_def direct_def Some fp builtin_metadata_def
          split: sum.split)
    then have "create (builtin_host env) c name ?kw ?r = (direct env c name cfg, ?r\<lparr>rg_calls := Suc n\<rparr>)"
      using e by (simp add: create_def get_entry_def update_triv)
    then show ?thesis by (simp add: create_builtin_def n)
  qed
qed

definition run_builtin ::
    "builtin_env \<Rightarrow> (capability \<times> string \<times> plugin_config) list \<Rightarrow> builtin_registry option \<Rightarrow> builtin_registry option" where
  "run_builtin env = fold (\<lambda>(c, name, cfg) g. snd (create_builtin env c name cfg g))"

lemma run_builtin_global: "builtin_global g \<Longrightarrow> builtin_global (run_builtin env calls g)"
proof (induction calls arbitrary: g)
  case (Cons call calls)
  obtain c name cfg where call: "call = (c, name, cfg)" by (cases call)
  have "builtin_global (snd (create_builtin env c name cfg g))"
    using create_builtin_eq [OF Cons.prems, of env c name cfg] by (auto simp: builtin_global_def)
  then show ?case using Cons.IH by (simp add: run_builtin_def call)
qed (simp add: run_builtin_def)

lemma builtin_global_None: "builtin_global None"
  by (simp add: builtin_global_def)

lemma builtin_uncached: "builtin_global g \<Longrightarrow> cached (get_registry g) k = None"
  by (cases k) (auto simp: builtin_global_def get_registry_def empty_registry_def cached_def map_of_builtin_entries split: option.splits)

section \<open>Properties\<close>

text \<open>Creating a built-in through the singleton registry is calling its factory, whatever was
  created before: unknown names are not registered, an exception of the factory becomes the cause
  of a construction error, and the registry never caches a built-in, since the factories demand an
  argument and \<open>construct\<close> caches only without arguments. (The module text of \<open>registry.py\<close> says that the
  same kind and name always give the same cached instance.)\<close>

theorem builtin_create_direct:
  "fst (create_builtin env c name cfg (run_builtin env calls None)) = direct env c name cfg
    \<and> cached (get_registry (run_builtin env calls None)) k = None
    \<and> fst (register_builtin_plugins None (run_builtin env calls None)) = None"
proof -
  have g: "builtin_global (run_builtin env calls None)"
    by (rule run_builtin_global [OF builtin_global_None])
  obtain n where "register_builtin_plugins None (run_builtin env calls None)
      = (None, \<lparr>rg_entries = builtin_entries, rg_calls = n\<rparr>)"
    using register_builtin [OF g] .
  then show ?thesis
    using create_builtin_eq [OF g, of env c name cfg] builtin_uncached [OF g, of k] by auto
qed

text \<open>The extractor that the settings describe.\<close>

definition configured_extractor :: "settings \<Rightarrow> builtin_instance" where
  "configured_extractor s =
     (if st_extractor_provider s = ''deterministic'' then DeterministicExtractor
      else if st_extractor_provider s = ''nlp'' then NlpExtractor (st_extractor_model s)
      else OpenAICompatibleExtractor \<lparr>oa_base_url = graph_extractor_base_url s, oa_api_key = st_openai_api_key s,
        oa_model = st_extractor_model s, oa_prompt_version = st_extractor_prompt_version s,
        oa_timeout = of_int (st_extractor_timeout s), oa_max_batch_chars = st_max_batch_chars s\<rparr>)"

lemma guard_bind: "bindE (guardE b e) f = Inr x \<longleftrightarrow> b \<and> f () = Inr x"
  by (cases b) auto

lemma validate_settings_provider:
  assumes "validate_settings bracket_ok s = Inr s'"
  shows "s' = s" "st_extractor_provider s \<in> {''deterministic'', ''nlp'', ''openai''}"
    "0 < st_extractor_timeout s" "0 < st_max_batch_chars s"
    "st_extractor_provider s = ''openai'' \<Longrightarrow> st_openai_api_key s \<noteq> []"
    "is_production s \<Longrightarrow> validate_production bracket_ok s = Inr ()"
proof -
  have c: "validate_common s = Inr ()"
    using assms by (auto simp: validate_settings_def bindE_Inr_iff)
  show "s' = s" "is_production s \<Longrightarrow> validate_production bracket_ok s = Inr ()"
    using assms by (auto simp: validate_settings_def bindE_Inr_iff split: if_splits)
  have "st_extractor_provider s \<in> {''deterministic'', ''nlp'', ''openai''} \<and> 0 < st_extractor_timeout s
      \<and> 0 < st_max_batch_chars s \<and> \<not> (st_extractor_provider s = ''openai'' \<and> st_openai_api_key s = [])"
    using c unfolding validate_common_def guard_bind guardE_Inr_iff by linarith
  then show "st_extractor_provider s \<in> {''deterministic'', ''nlp'', ''openai''}"
    "0 < st_extractor_timeout s" "0 < st_max_batch_chars s"
    "st_extractor_provider s = ''openai'' \<Longrightarrow> st_openai_api_key s \<noteq> []" by blast+
qed

lemma extractor_config_eq:
  "extractor_config s = Inr \<lparr>cf_values = [(''base_url'', VStr (graph_extractor_base_url s)), (''model'', VStr (st_extractor_model s)),
      (''prompt_version'', VStr (st_extractor_prompt_version s)), (''timeout'', VInt (st_extractor_timeout s)),
      (''max_batch_chars'', VInt (st_max_batch_chars s))], cf_secrets = [(''api_key'', VSecret (st_openai_api_key s))]\<rparr>"
  by (simp add: extractor_config_def new_config_def)

lemma float_of_small_int: "0 < n \<Longrightarrow> n < 2 ^ 53 \<Longrightarrow> float_of_int n = Inr (of_int n)"
proof -
  assume n: "0 < n" "n < 2 ^ 53"
  have "(of_int n :: rat) < of_int (2 ^ 53)" using n(2) by (simp only: of_int_less_iff)
  then have "\<bar>of_int n :: rat\<bar> < 2 ^ 1024" using n(1) by simp
  then show ?thesis by (simp add: float_of_int_def fl_of_pos_int [OF n])
qed

lemma direct_extractor:
  assumes "st_extractor_provider s \<in> {''deterministic'', ''nlp'', ''openai''}" "extractor_config s = Inr cfg"
    "0 < st_extractor_timeout s" "st_extractor_timeout s < 2 ^ 53" "0 < st_max_batch_chars s" "st_max_batch_chars s < 2 ^ 53"
  shows "direct env EXTRACTION (st_extractor_provider s) cfg = Inr (Some (configured_extractor s))"
proof -
  have trunc: "py_trunc (of_int n) = n" for n by (simp add: py_trunc_def)
  have cfg: "cfg = \<lparr>cf_values = [(''base_url'', VStr (graph_extractor_base_url s)), (''model'', VStr (st_extractor_model s)),
      (''prompt_version'', VStr (st_extractor_prompt_version s)), (''timeout'', VInt (st_extractor_timeout s)),
      (''max_batch_chars'', VInt (st_max_batch_chars s))], cf_secrets = [(''api_key'', VSecret (st_openai_api_key s))]\<rparr>"
    using assms(2) by (simp add: extractor_config_eq)
  note ints = float_of_small_int [OF assms(3,4)] float_of_small_int [OF assms(5,6)]
  note defs = direct_def builtin_of_def registrations_def config_arg_def configured_extractor_def
  consider "st_extractor_provider s = ''deterministic''" | "st_extractor_provider s = ''nlp''" | "st_extractor_provider s = ''openai''"
    using assms(1) by blast
  then show ?thesis
  proof cases
    case 1
    then show ?thesis by (simp add: defs deterministic_factory_def)
  next
    case 2
    then show ?thesis by (simp add: defs nlp_factory_def config_get_def cfg)
  next
    case 3
    then show ?thesis
      by (simp add: defs openai_factory_def config_string_def config_number_def config_require_def require_secret_def
          secret_get_def config_get_def cfg ints trunc)
  qed
qed

lemma valid_settings_build_parts:
  assumes "validate_settings bracket_ok s = Inr s'" "st_extractor_timeout s < 2 ^ 53" "st_max_batch_chars s < 2 ^ 53"
  shows "\<exists>md g. build_extractor env s (run_builtin env calls None) = (Inr (Inr (Some (configured_extractor s), md)), g)
      \<and> xm_model md = st_extractor_model s
      \<and> xm_provider md = (if st_extractor_provider s = ''openai'' then ''openai_compatible'' else st_extractor_provider s)"
    and "is_production s \<Longrightarrow> \<exists>oa. configured_extractor s = OpenAICompatibleExtractor oa \<and> 16 \<le> length (oa_api_key oa)
      \<and> \<not> has_placeholder (oa_api_key oa) \<and> url_scheme bracket_ok (oa_base_url oa) = Inr ''https''"
proof -
  note v = validate_settings_provider [OF assms(1)]
  obtain cfg where cfg: "extractor_config s = Inr cfg" by (simp add: extractor_config_eq)
  have g: "builtin_global (run_builtin env calls None)" by (rule run_builtin_global [OF builtin_global_None])
  obtain n where n: "create_builtin env EXTRACTION (st_extractor_provider s) cfg (run_builtin env calls None)
      = (Inr (Some (configured_extractor s)), Some \<lparr>rg_entries = builtin_entries, rg_calls = n\<rparr>)"
    using create_builtin_eq [OF g, of env EXTRACTION "st_extractor_provider s" cfg]
      direct_extractor [OF v(2) cfg v(3) assms(2) v(4) assms(3)] by auto
  have "\<exists>md. extractor_metadata s = Inr md \<and> xm_model md = st_extractor_model s
      \<and> xm_provider md = (if st_extractor_provider s = ''openai'' then ''openai_compatible'' else st_extractor_provider s)"
    using v(2) by (auto simp: extractor_metadata_def)
  then obtain md where md: "extractor_metadata s = Inr md" "xm_model md = st_extractor_model s"
      "xm_provider md = (if st_extractor_provider s = ''openai'' then ''openai_compatible'' else st_extractor_provider s)"
    by blast
  have "build_extractor env s (run_builtin env calls None) = (Inr (Inr (Some (configured_extractor s), md)),
      Some \<lparr>rg_entries = builtin_entries, rg_calls = n\<rparr>)"
    by (simp add: build_extractor_def md(1) cfg create_extractor_def n)
  then show "\<exists>md g. build_extractor env s (run_builtin env calls None) = (Inr (Inr (Some (configured_extractor s), md)), g)
      \<and> xm_model md = st_extractor_model s
      \<and> xm_provider md = (if st_extractor_provider s = ''openai'' then ''openai_compatible'' else st_extractor_provider s)"
    using md(2,3) by blast
  assume "is_production s"
  then have p: "validate_production bracket_ok s = Inr ()" by (rule v(6))
  then have "st_extractor_provider s = ''openai''" "url_scheme bracket_ok (graph_extractor_base_url s) = Inr ''https''"
    "16 \<le> length (st_openai_api_key s)" "\<not> has_placeholder (st_openai_api_key s)"
    by (auto simp: validate_production_def guard_bind bindE_Inr_iff check_secrets_def)
  then show "\<exists>oa. configured_extractor s = OpenAICompatibleExtractor oa \<and> 16 \<le> length (oa_api_key oa)
      \<and> \<not> has_placeholder (oa_api_key oa) \<and> url_scheme bracket_ok (oa_base_url oa) = Inr ''https''"
    by (simp add: configured_extractor_def)
qed

text \<open>Settings that pass validation give a working extractor: building it never raises, it is the
  one the settings describe, with exactly their model, limits and key, and its metadata names its
  provider. In production it is the language-model extractor over https, with a key of at least 16
  characters that is no placeholder. (The limits are below \<open>2^53\<close>, where the conversion through
  \<open>float\<close> is exact.)\<close>

theorem valid_settings_build:
  assumes "validate_settings bracket_ok s = Inr s'" "st_extractor_timeout s < 2 ^ 53" "st_max_batch_chars s < 2 ^ 53"
  shows "(\<exists>md g. build_extractor env s (run_builtin env calls None) = (Inr (Inr (Some (configured_extractor s), md)), g)
      \<and> xm_model md = st_extractor_model s
      \<and> xm_provider md = (if st_extractor_provider s = ''openai'' then ''openai_compatible'' else st_extractor_provider s))
    \<and> (is_production s \<longrightarrow> (\<exists>oa. configured_extractor s = OpenAICompatibleExtractor oa \<and> 16 \<le> length (oa_api_key oa)
      \<and> \<not> has_placeholder (oa_api_key oa) \<and> url_scheme bracket_ok (oa_base_url oa) = Inr ''https''))"
  using valid_settings_build_parts [OF assms] by blast

definition sample_settings :: settings where
  "sample_settings = \<lparr>st_app_env = ''Production'', st_database_url = ''postgresql+asyncpg://u:s3cret@db/x'',
     st_database_tls = ''disable'', st_database_tls_ca_file = None, st_admin_api_key = ''0123456789abcdef'',
     st_object_store_provider = ''s3'', st_local_storage_dir = ''d'', st_s3_endpoint_url = ''http://s3'',
     st_s3_access_key = ''k'', st_s3_secret_key = ''0123456789abcdef'', st_s3_bucket = ''b'', st_s3_region = ''r'',
     st_s3_force_path_style = True, st_openai_base_url = ''https://api.openai.com/v1'',
     st_openai_graph_extractor_base_url = [], st_openai_api_key = ''sk-0123456789abcdef'',
     st_extractor_provider = ''openai'', st_extractor_model = ''m'', st_extractor_version = ''v5'',
     st_extractor_prompt_version = ''v4'', st_extractor_timeout = 300, st_extractor_parallelism = 1,
     st_target_batch_size = 10, st_max_batch_chars = 100000, st_previous_chunks = 10,
     st_consolidation_enabled = False, st_consolidation_version = ''c1'', st_consolidation_prompt_version = ''p1'',
     st_consolidation_max_chars = 100000, st_pdf_parser = ''pypdf'', st_liteparse_ocr_mode = ''auto'',
     st_liteparse_dpi = 150, st_liteparse_max_pages = 300, st_liteparse_ocr_workers = 1,
     st_liteparse_image_mode = ''off'', st_upload_max_bytes = 50, st_upload_spool_max_bytes = 10,
     st_outbox_poll_seconds = 10, st_indexing_stale_seconds = 900\<rparr>"

lemma sample_settings_valid: "validate_settings (\<lambda>_. True) sample_settings = Inr sample_settings"
  by code_simp

theorem valid_settings_build_witness:
  "\<exists>oa. configured_extractor sample_settings = OpenAICompatibleExtractor oa \<and> 16 \<le> length (oa_api_key oa)
      \<and> \<not> has_placeholder (oa_api_key oa) \<and> url_scheme (\<lambda>_. True) (oa_base_url oa) = Inr ''https''"
proof -
  have p: "is_production sample_settings" by code_simp
  have t: "st_extractor_timeout sample_settings < 2 ^ 53" "st_max_batch_chars sample_settings < 2 ^ 53"
    by (simp_all add: sample_settings_def)
  show ?thesis using valid_settings_build [OF sample_settings_valid t] p by blast
qed

end
