(* ===== verification/Storage.thy ===== *)
theory Storage
  imports Prelude PyText
begin

text \<open>
  The local object store of \<open>app/storage.py\<close>: how a key becomes a path below the base directory, and
  upload, download and deletion on a file system. A path is the list of its components below the
  root; a file system maps a path to a file with its bytes or to a directory. There are no symbolic
  links, so \<open>Path.resolve\<close> is lexical. The store of Amazon S3 is a client of a library.
\<close>

section \<open>Paths\<close>

text \<open>The components of a path text: empty ones and \<open>.\<close> disappear when a path is built.\<close>

fun split_slash :: "string \<Rightarrow> string \<Rightarrow> string list" where
  "split_slash w [] = [rev w]"
| "split_slash w (c # s) = (if c = CHR ''/'' then rev w # split_slash [] s else split_slash (c # w) s)"

definition path_parts :: "string \<Rightarrow> string list" where
  "path_parts s = filter (\<lambda>p. p \<noteq> [] \<and> p \<noteq> ''.'') (split_slash [] s)"

text \<open>\<open>resolve\<close> of an absolute path: \<open>..\<close> leaves a directory, and the root stays the root.\<close>

fun resolve_from :: "string list \<Rightarrow> string list \<Rightarrow> string list" where
  "resolve_from acc [] = acc"
| "resolve_from acc (p # ps) = (if p = ''..'' then resolve_from (butlast acc) ps else resolve_from (acc @ [p]) ps)"

definition resolve :: "string list \<Rightarrow> string list" where
  "resolve ps = resolve_from [] ps"

definition lstrip_slashes :: "string \<Rightarrow> string" where
  "lstrip_slashes key = dropWhile (\<lambda>c. c = CHR ''/'' \<or> c = CHR 0x5C) key"

section \<open>The file system\<close>

type_synonym path = "string list"
type_synonym bytes = "nat list"

datatype fs_node = File bytes | Dir

type_synonym fs = "path \<Rightarrow> fs_node option"

text \<open>\<open>mkdir(parents=True, exist_ok=True)\<close>\<close>

fun mkdirs_from :: "path \<Rightarrow> path \<Rightarrow> fs \<Rightarrow> fs res" where
  "mkdirs_from done [] fs = Inr fs"
| "mkdirs_from done (p # ps) fs =
     (case fs (done @ [p]) of
        None \<Rightarrow> mkdirs_from (done @ [p]) ps (fs(done @ [p] \<mapsto> Dir))
      | Some Dir \<Rightarrow> mkdirs_from (done @ [p]) ps fs
      | Some (File _) \<Rightarrow> Inl (OSError (if ps = [] then ''FileExistsError'' else ''NotADirectoryError'')))"

definition mkdirs :: "path \<Rightarrow> fs \<Rightarrow> fs res" where
  "mkdirs p fs = mkdirs_from [] p fs"

definition write_bytes :: "path \<Rightarrow> bytes \<Rightarrow> fs \<Rightarrow> fs res" where
  "write_bytes p content fs =
     (if p = [] \<or> fs p = Some Dir then Inl (OSError ''IsADirectoryError'') else Inr (fs(p \<mapsto> File content)))"

section \<open>The store\<close>

record local_store =
  base_dir :: path

text \<open>\<open>LocalObjectStore.__init__\<close>, from the working directory of the process.\<close>

definition new_local_store :: "path \<Rightarrow> string \<Rightarrow> fs \<Rightarrow> (local_store \<times> fs) res" where
  "new_local_store cwd base fs =
     (let p = resolve ((if starts_with ''/'' base then [] else cwd) @ path_parts base) in
      bindE (mkdirs p fs) (\<lambda>fs'. Inr (\<lparr>base_dir = p\<rparr>, fs')))"

definition safe_path :: "local_store \<Rightarrow> string \<Rightarrow> path res" where
  "safe_path st key =
     (let file_path = resolve (base_dir st @ path_parts (lstrip_slashes key)) in
      if \<not> starts_with (base_dir st) file_path then
        Inl (ValueError (''Path traversal detected in object store key: '' @ key))
      else Inr file_path)"

definition upload :: "local_store \<Rightarrow> string \<Rightarrow> bytes \<Rightarrow> fs \<Rightarrow> fs res" where
  "upload st key content fs =
     bindE (safe_path st key) (\<lambda>p.
     bindE (mkdirs (butlast p) fs) (\<lambda>fs'. write_bytes p content fs'))"

definition delete :: "local_store \<Rightarrow> string \<Rightarrow> fs \<Rightarrow> fs res" where
  "delete st key fs =
     bindE (safe_path st key) (\<lambda>p.
       case (if p = [] then Some Dir else fs p) of
         None \<Rightarrow> Inr fs
       | Some Dir \<Rightarrow> Inl (OSError ''IsADirectoryError'')
       | Some (File _) \<Rightarrow> Inr (fs(p := None)))"

definition download :: "local_store \<Rightarrow> string \<Rightarrow> fs \<Rightarrow> bytes res" where
  "download st key fs =
     bindE (safe_path st key) (\<lambda>p.
       case (if p = [] then Some Dir else fs p) of
         None \<Rightarrow> Inl (OSError (''Key not found in local object store: '' @ key))
       | Some Dir \<Rightarrow> Inl (OSError ''IsADirectoryError'')
       | Some (File content) \<Rightarrow> Inr content)"

section \<open>Paths stay below the base\<close>

lemma starts_with_iff: "starts_with p s \<longleftrightarrow> (\<exists>r. s = p @ r)"
  by (auto simp: starts_with_take) (metis append_take_drop_id)

lemma safe_path_below: "safe_path st key = Inr p \<Longrightarrow> \<exists>r. p = base_dir st @ r"
  by (auto simp: safe_path_def Let_def starts_with_iff split: if_splits)

lemma mkdirs_from_frame:
  assumes "mkdirs_from base ps fs = Inr fs'"
  shows "fs' q = fs q \<or> fs q = None \<and> fs' q = Some Dir \<and> (\<exists>n<length ps. q = base @ take (Suc n) ps)"
  using assms
proof (induction base ps fs arbitrary: fs' rule: mkdirs_from.induct)
  case (2 base p ps fs)
  let ?d = "base @ [p]"
  have step: "(\<exists>n<length ps. q = ?d @ take (Suc n) ps) \<Longrightarrow> \<exists>n<length (p # ps). q = base @ take (Suc n) (p # ps)"
    by (metis append.assoc append_Cons append_Nil length_Cons Suc_less_eq take_Suc_Cons)
  consider (fresh) "fs ?d = None" | (isdir) "fs ?d = Some Dir" | (isfile) c where "fs ?d = Some (File c)"
    by (metis fs_node.exhaust option.exhaust)
  then show ?case
  proof cases
    case fresh
    have made: "mkdirs_from ?d ps (fs(?d \<mapsto> Dir)) = Inr fs'" using "2.prems" fresh by simp
    have "fs' q = (fs(?d \<mapsto> Dir)) q \<or> (fs(?d \<mapsto> Dir)) q = None \<and> fs' q = Some Dir
        \<and> (\<exists>n<length ps. q = ?d @ take (Suc n) ps)"
      by (rule "2.IH"(1) [OF fresh made])
    moreover have "\<exists>n<length (p # ps). ?d = base @ take (Suc n) (p # ps)" by (rule exI [of _ 0]) simp
    ultimately show ?thesis using step fresh by (cases "q = ?d") (auto split: if_splits)
  next
    case isdir
    then show ?thesis using "2.IH"(2) [OF isdir] "2.prems" step by auto
  next
    case isfile
    then show ?thesis using "2.prems" by simp
  qed
qed simp

lemma mkdirs_frame:
  assumes "mkdirs p fs = Inr fs'"
  shows "fs' q = fs q \<or> fs q = None \<and> fs' q = Some Dir \<and> (\<exists>n<length p. q = take (Suc n) p)"
  using mkdirs_from_frame [OF assms [unfolded mkdirs_def], of q] by simp

lemma upload_Inr:
  assumes "upload st key c fs = Inr fs'"
  obtains p fs1 where "safe_path st key = Inr p" "p \<noteq> []" "mkdirs (butlast p) fs = Inr fs1" "fs' = fs1(p \<mapsto> File c)"
  using assms by (auto simp: upload_def bindE_Inr_iff write_bytes_def split: if_splits)

text \<open>What an operation changes: the file of the key, and missing directories above it.\<close>

lemma upload_frame:
  assumes "upload st key c fs = Inr fs'" "safe_path st key = Inr p"
  shows "fs' p = Some (File c)" "p \<noteq> []"
    and "q \<noteq> p \<Longrightarrow> fs' q = fs q \<or> fs q = None \<and> fs' q = Some Dir \<and> (\<exists>n. 0 < n \<and> n < length p \<and> q = take n p)"
proof -
  obtain fs1 where p: "p \<noteq> []" "mkdirs (butlast p) fs = Inr fs1" "fs' = fs1(p \<mapsto> File c)"
    using upload_Inr [OF assms(1)] assms(2) by (metis sum.inject(2))
  show "fs' p = Some (File c)" "p \<noteq> []" using p by simp_all
  assume "q \<noteq> p"
  then have e: "fs' q = fs1 q" by (simp add: p(3))
  have "q = take (Suc n) p \<and> Suc n < length p" if "n < length (butlast p)" "q = take (Suc n) (butlast p)" for n
    using that by (auto simp: take_butlast)
  then show "fs' q = fs q \<or> fs q = None \<and> fs' q = Some Dir \<and> (\<exists>n. 0 < n \<and> n < length p \<and> q = take n p)"
    using mkdirs_frame [OF p(2), of q] unfolding e by blast
qed

lemma delete_frame:
  assumes "delete st key fs = Inr fs'" "safe_path st key = Inr p"
  shows "fs' = fs \<and> fs p = None \<or> (\<exists>c. fs p = Some (File c)) \<and> fs' = fs(p := None)"
  using assms by (auto simp: delete_def split: option.splits fs_node.splits if_splits)

lemma download_iff:
  assumes "safe_path st key = Inr p"
  shows "download st key fs = Inr c \<longleftrightarrow> p \<noteq> [] \<and> fs p = Some (File c)"
  using assms by (auto simp: download_def split: option.splits fs_node.splits)

lemma download_unsafe: "safe_path st key = Inl e \<Longrightarrow> download st key fs = Inl e"
  by (simp add: download_def)

text \<open>A key without \<open>..\<close> is never refused.\<close>

lemma resolve_from_plain: "''..'' \<notin> set ps \<Longrightarrow> resolve_from acc ps = acc @ ps"
  by (induction acc ps rule: resolve_from.induct) auto

lemma safe_path_plain:
  assumes "''..'' \<notin> set (base_dir st)" "''..'' \<notin> set (path_parts key)" "\<not> starts_with ''/'' key" "\<not> starts_with [CHR 0x5C] key"
  shows "safe_path st key = Inr (base_dir st @ path_parts key)"
proof -
  have "lstrip_slashes key = key"
    using assms(3,4) by (cases key) (auto simp: lstrip_slashes_def)
  then show ?thesis
    using assms(1,2) by (simp add: safe_path_def resolve_def resolve_from_plain starts_with_iff)
qed

section \<open>Sequences of operations\<close>

datatype store_op = Upload string bytes | Delete string | Download string

fun store_step :: "local_store \<Rightarrow> store_op \<Rightarrow> fs \<Rightarrow> fs" where
  "store_step st (Upload k c) fs = (case upload st k c fs of Inl _ \<Rightarrow> fs | Inr fs' \<Rightarrow> fs')"
| "store_step st (Delete k) fs = (case delete st k fs of Inl _ \<Rightarrow> fs | Inr fs' \<Rightarrow> fs')"
| "store_step st (Download k) fs = fs"

definition store_run :: "local_store \<Rightarrow> store_op list \<Rightarrow> fs \<Rightarrow> fs" where
  "store_run st = fold (store_step st)"

definition base_exists :: "local_store \<Rightarrow> fs \<Rightarrow> bool" where
  "base_exists st fs \<longleftrightarrow> (\<forall>n. 0 < n \<longrightarrow> n \<le> length (base_dir st) \<longrightarrow> fs (take n (base_dir st)) = Some Dir)"

text \<open>One operation: a path outside the base keeps what it has, and so does the base.\<close>

definition outside :: "local_store \<Rightarrow> path \<Rightarrow> bool" where
  "outside st q \<longleftrightarrow> q \<noteq> [] \<and> \<not> starts_with (base_dir st) q"

lemma strict_prefix_cases:
  assumes "q = take n (b @ r)" "0 < n" "n < length (b @ r)"
  shows "(\<exists>m. 0 < m \<and> m \<le> length b \<and> q = take m b) \<or> starts_with b q"
proof (cases "n \<le> length b")
  case True
  then show ?thesis using assms by auto
next
  case False
  then have "q = b @ take (n - length b) r" using assms(1) by simp
  then show ?thesis by (auto simp: starts_with_iff)
qed

lemma store_step_confined:
  assumes base: "base_exists st fs" and q: "outside st q \<or> (\<exists>m. 0 < m \<and> m \<le> length (base_dir st) \<and> q = take m (base_dir st))"
  shows "store_step st op fs q = fs q"
proof (cases op)
  case (Upload k c)
  show ?thesis
  proof (cases "upload st k c fs")
    case (Inr fs')
    obtain p where p: "safe_path st k = Inr p" using upload_Inr [OF Inr] by metis
    obtain r where r: "p = base_dir st @ r" using safe_path_below [OF p] by blast
    note frame = upload_frame [OF Inr p]
    have qp: "q \<noteq> p"
    proof
      assume "q = p"
      then have "\<not> outside st q" by (auto simp: outside_def r starts_with_iff)
      then obtain m where "0 < m" "m \<le> length (base_dir st)" "q = take m (base_dir st)" using q by blast
      then have "fs q = Some Dir" using base by (simp add: base_exists_def)
      then have d: "fs p = Some Dir" using \<open>q = p\<close> by simp
      obtain fs1 where f1: "mkdirs (butlast p) fs = Inr fs1" "write_bytes p c fs1 = Inr fs'"
        using Inr p by (auto simp: upload_def bindE_Inr_iff)
      have "fs1 p = Some Dir" using mkdirs_frame [OF f1(1), of p] d by auto
      then show False using f1(2) by (simp add: write_bytes_def)
    qed
    have "fs' q = fs q"
    proof (rule ccontr)
      assume "fs' q \<noteq> fs q"
      then obtain n where n: "fs q = None" "0 < n" "n < length p" "q = take n p" using frame(3) [OF qp] by blast
      then have "(\<exists>m. 0 < m \<and> m \<le> length (base_dir st) \<and> q = take m (base_dir st)) \<or> starts_with (base_dir st) q"
        using strict_prefix_cases [of q n "base_dir st" r] by (simp add: r)
      moreover have "\<not> (\<exists>m. 0 < m \<and> m \<le> length (base_dir st) \<and> q = take m (base_dir st))"
        using n(1) base by (auto simp: base_exists_def)
      ultimately show False using q by (auto simp: outside_def)
    qed
    then show ?thesis by (simp add: Upload Inr)
  qed (simp add: Upload)
next
  case (Delete k)
  show ?thesis
  proof (cases "delete st k fs")
    case (Inr fs')
    obtain p where p: "safe_path st k = Inr p" using Inr by (auto simp: delete_def bindE_Inr_iff)
    obtain r where r: "p = base_dir st @ r" using safe_path_below [OF p] by blast
    have "fs' q = fs q"
    proof (cases "q = p")
      case True
      then have "\<not> outside st q" by (auto simp: outside_def r starts_with_iff)
      then have "fs q = Some Dir" using q base by (auto simp: base_exists_def)
      then show ?thesis using delete_frame [OF Inr p] True by auto
    next
      case False
      then show ?thesis using delete_frame [OF Inr p] by auto
    qed
    then show ?thesis by (simp add: Delete Inr)
  qed (simp add: Delete)
qed simp

lemma store_step_base:
  assumes b: "base_exists st fs"
  shows "base_exists st (store_step st op fs)"
  unfolding base_exists_def
proof (intro allI impI)
  fix n assume n: "0 < n" "n \<le> length (base_dir st)"
  have "store_step st op fs (take n (base_dir st)) = fs (take n (base_dir st))"
    using b n by (intro store_step_confined) auto
  then show "store_step st op fs (take n (base_dir st)) = Some Dir"
    using b n by (simp add: base_exists_def)
qed

section \<open>Properties\<close>

lemma local_store_roundtrip_parts:
  assumes "upload st key content fs = Inr fs'"
  shows "download st key fs' = Inr content"
    and "safe_path st key' \<noteq> safe_path st key \<Longrightarrow>
      (download st key' fs' = Inr c \<longleftrightarrow> download st key' fs = Inr c)"
    and "\<exists>fs''. delete st key fs' = Inr fs'' \<and> (\<forall>c. download st key fs'' \<noteq> Inr c)
      \<and> (\<forall>key' c. safe_path st key' \<noteq> safe_path st key \<longrightarrow>
          (download st key' fs'' = Inr c \<longleftrightarrow> download st key' fs = Inr c))"
proof -
  obtain p where p: "safe_path st key = Inr p" using upload_Inr [OF assms] by metis
  note frame = upload_frame [OF assms p]
  show "download st key fs' = Inr content"
    using frame(1,2) by (simp add: download_iff [OF p])
  have other: "download st key' fs' = Inr c \<longleftrightarrow> download st key' fs = Inr c"
    if "safe_path st key' \<noteq> safe_path st key" for key' c
  proof (cases "safe_path st key'")
    case (Inr q)
    then have "q \<noteq> p" using that p by auto
    then show ?thesis using frame(3) [of q] by (auto simp: download_iff [OF Inr])
  qed (simp add: download_unsafe)
  then show "safe_path st key' \<noteq> safe_path st key \<Longrightarrow>
      (download st key' fs' = Inr c \<longleftrightarrow> download st key' fs = Inr c)" .
  have del: "delete st key fs' = Inr (fs'(p := None))"
    using frame(1,2) p by (simp add: delete_def)
  have gone: "\<forall>c. download st key (fs'(p := None)) \<noteq> Inr c"
    by (simp add: download_iff [OF p])
  have "download st key' (fs'(p := None)) = Inr c \<longleftrightarrow> download st key' fs = Inr c"
    if k: "safe_path st key' \<noteq> safe_path st key" for key' c
  proof (cases "safe_path st key'")
    case (Inr q)
    then have "q \<noteq> p" using k p by auto
    then have "download st key' (fs'(p := None)) = Inr c \<longleftrightarrow> download st key' fs' = Inr c"
      by (simp add: download_iff [OF Inr])
    then show ?thesis using other [OF k] by simp
  qed (simp add: download_unsafe)
  with del gone show "\<exists>fs''. delete st key fs' = Inr fs'' \<and> (\<forall>c. download st key fs'' \<noteq> Inr c)
      \<and> (\<forall>key' c. safe_path st key' \<noteq> safe_path st key \<longrightarrow>
          (download st key' fs'' = Inr c \<longleftrightarrow> download st key' fs = Inr c))"
    by blast
qed

text \<open>C33. What is uploaded under a key is downloaded under it, byte for byte; keys of other paths
  keep their contents; and deleting the key removes that object alone.\<close>

theorem local_store_roundtrip:
  assumes "upload st key content fs = Inr fs'"
  shows "download st key fs' = Inr content
    \<and> (\<forall>key' c. safe_path st key' \<noteq> safe_path st key \<longrightarrow>
        (download st key' fs' = Inr c \<longleftrightarrow> download st key' fs = Inr c))
    \<and> (\<exists>fs''. delete st key fs' = Inr fs'' \<and> (\<forall>c. download st key fs'' \<noteq> Inr c)
      \<and> (\<forall>key' c. safe_path st key' \<noteq> safe_path st key \<longrightarrow>
          (download st key' fs'' = Inr c \<longleftrightarrow> download st key' fs = Inr c)))"
  using local_store_roundtrip_parts [OF assms] by blast

definition sample_store :: local_store where
  "sample_store = \<lparr>base_dir = [''data'', ''uploads'']\<rparr>"

definition sample_fs :: fs where
  "sample_fs = [[''data''] \<mapsto> Dir, [''data'', ''uploads''] \<mapsto> Dir, [''data'', ''secret''] \<mapsto> File [7]]"

theorem local_store_roundtrip_witness:
  "download sample_store ''/a/../b'' (store_step sample_store (Upload ''/a/../b'' [7, 9]) sample_fs) = Inr [7, 9]"
proof -
  have u: "upload sample_store ''/a/../b'' [7, 9] sample_fs = Inr (sample_fs([''data'', ''uploads'', ''b''] \<mapsto> File [7, 9]))"
    by (simp add: upload_def safe_path_def path_parts_def lstrip_slashes_def resolve_def mkdirs_def write_bytes_def
        sample_store_def sample_fs_def)
  show ?thesis using local_store_roundtrip [OF u] by (simp add: u)
qed

lemma local_store_confined_parts:
  assumes "base_exists st fs"
  shows "outside st q \<Longrightarrow> store_run st ops fs q = fs q"
    and "base_exists st (store_run st ops fs)"
    and "\<not> starts_with (base_dir st) (resolve (base_dir st @ path_parts (lstrip_slashes key))) \<Longrightarrow>
      upload st key content fs = Inl (ValueError (''Path traversal detected in object store key: '' @ key))"
proof -
  have "base_exists st (store_run st ops fs) \<and> (outside st q \<longrightarrow> store_run st ops fs q = fs q)"
    using assms
  proof (induction ops arbitrary: fs)
    case (Cons op ops)
    have "base_exists st (store_step st op fs)" using Cons.prems by (rule store_step_base)
    moreover have "outside st q \<longrightarrow> store_step st op fs q = fs q" using Cons.prems store_step_confined by blast
    ultimately show ?case using Cons.IH [of "store_step st op fs"] by (simp add: store_run_def)
  qed (simp add: store_run_def)
  then show "outside st q \<Longrightarrow> store_run st ops fs q = fs q" "base_exists st (store_run st ops fs)" by auto
qed (simp add: upload_def safe_path_def)

text \<open>The store stays in its directory: whatever keys it is given, no operation creates, changes
  or removes anything outside the base directory, a key whose path leaves it is refused with the
  path-traversal error, and the base directory itself survives.\<close>

theorem local_store_confined:
  assumes "base_exists st fs"
  shows "(\<forall>q. outside st q \<longrightarrow> store_run st ops fs q = fs q) \<and> base_exists st (store_run st ops fs)
    \<and> (\<forall>key content. \<not> starts_with (base_dir st) (resolve (base_dir st @ path_parts (lstrip_slashes key))) \<longrightarrow>
        upload st key content fs = Inl (ValueError (''Path traversal detected in object store key: '' @ key)))"
  using local_store_confined_parts [OF assms] by blast

theorem local_store_confined_witness:
  "store_run sample_store [Upload ''../secret'' [0], Upload ''x'' [1], Delete ''a/../../secret''] sample_fs [''data'', ''secret'']
     = Some (File [7])"
proof -
  have b: "base_exists sample_store sample_fs"
    by (auto simp: base_exists_def sample_store_def sample_fs_def le_Suc_eq numeral_2_eq_2)
  have o: "outside sample_store [''data'', ''secret'']" by (simp add: outside_def sample_store_def)
  show ?thesis
    using local_store_confined [OF b, of "[Upload ''../secret'' [0], Upload ''x'' [1], Delete ''a/../../secret'']"]
    by (simp add: sample_fs_def o [unfolded sample_fs_def])
qed

end
