(* ===== verification/ExportImport.thy ===== *)
theory ExportImport
  imports MemInvariant
begin

text \<open>
  Export and import of the memories of a project, \<open>app/export_import.py\<close>. The payload is kept typed:
  an optional field is a key the JSON object may lack, so \<open>d.get(k, default)\<close> is a case on it; values
  of another JSON type than the API writes are outside the model. \<open>json.dumps\<close> and the client's
  parse are the identity on it. What the column types and checks of the episode tables demand of an
  imported row is \<open>episode_fits\<close>, \<open>attempt_fits\<close> and so on; a row that does not fit aborts the whole
  import. Queries see the rows added before them (the session flushes first).
\<close>

section \<open>The payload\<close>

record x_attempt =
  xa_id :: "string option"
  xa_sequence :: "int option"
  xa_hypothesis :: "string option"
  xa_actions :: "json list option"
  xa_result :: "attempt_result option"
  xa_notes :: "string option"
  xa_metadata :: "jobj option"

record x_outcome =
  xo_id :: "string option"
  xo_status :: "outcome_status option"
  xo_summary :: "string option"
  xo_lesson :: "string option"
  xo_metrics :: "jobj option"
  xo_pattern_key :: "string option"
  xo_metadata :: "jobj option"

record x_evidence =
  xv_id :: "string option"
  xv_reference :: "string option"
  xv_metadata :: "jobj option"

record x_episode =
  xe_id :: "string option"
  xe_domain :: "string option"
  xe_type :: "string option"
  xe_title :: "string option"
  xe_goal :: "string option"
  xe_signature :: "string option"
  xe_scope :: "jobj option"
  xe_tags :: "string list option"
  xe_metadata :: "jobj option"
  xe_content :: "jobj option"
  xe_confidence :: "rat option"
  xe_version :: "int option"
  xe_status :: "ep_status option"
  xe_feedback :: "int option"
  xe_created :: "int option"
  xe_updated :: "int option"
  xe_attempts :: "x_attempt list"
  xe_outcome :: "x_outcome option"
  xe_evidence :: "x_evidence list"

text \<open>\<open>body.data.get("episodes", [])\<close>: absent, something else than an array, or an array.\<close>

datatype import_data = NoEpisodes | NotAnArray | Episodes "x_episode list"

record export_metadata =
  xm_project :: string
  xm_exported_at :: int
  xm_schema_version :: string
  xm_episode_count :: nat

section \<open>Export\<close>

definition export_attempt :: "attempt \<Rightarrow> x_attempt" where
  "export_attempt a = \<lparr>xa_id = Some (at_id a), xa_sequence = Some (at_sequence a), xa_hypothesis = Some (at_hypothesis a),
     xa_actions = Some (at_actions a), xa_result = Some (at_result a), xa_notes = at_notes a,
     xa_metadata = Some (at_metadata a)\<rparr>"

definition export_outcome :: "outcome \<Rightarrow> x_outcome" where
  "export_outcome u = \<lparr>xo_id = Some (out_id u), xo_status = Some (out_status u), xo_summary = Some (out_summary u),
     xo_lesson = out_lesson u, xo_metrics = Some (out_metrics u), xo_pattern_key = Some (out_pattern_key u),
     xo_metadata = Some (out_metadata u)\<rparr>"

definition export_evidence :: "evidence \<Rightarrow> x_evidence" where
  "export_evidence e = \<lparr>xv_id = Some (ev_id e), xv_reference = Some (ev_reference e), xv_metadata = Some (ev_metadata e)\<rparr>"

definition export_episode :: "mem_db \<Rightarrow> episode \<Rightarrow> x_episode" where
  "export_episode db ep = \<lparr>xe_id = Some (ep_id ep), xe_domain = Some (ep_domain ep), xe_type = Some (ep_type ep),
     xe_title = Some (ep_title ep), xe_goal = Some (ep_goal ep), xe_signature = Some (ep_signature ep),
     xe_scope = Some (ep_scope ep), xe_tags = Some (ep_tags ep), xe_metadata = Some (ep_metadata ep),
     xe_content = ep_content ep, xe_confidence = Some (ep_confidence ep), xe_version = Some (ep_version ep),
     xe_status = Some (ep_status ep), xe_feedback = Some (ep_feedback ep), xe_created = Some (ep_created ep),
     xe_updated = Some (ep_updated ep),
     xe_attempts = map export_attempt (attempts_of db (ep_id ep)),
     xe_outcome = map_option export_outcome (find (\<lambda>u. out_episode u = ep_id ep) (outcomes db)),
     xe_evidence = map export_evidence (filter (\<lambda>e. ev_episode e = ep_id ep) (evidences db))\<rparr>"

definition export_project :: "req \<Rightarrow> mem_db \<Rightarrow> export_metadata \<times> x_episode list" where
  "export_project rq db =
     (let es = map (export_episode db) (filter (\<lambda>e. ep_project e = rq_project rq) (episodes db)) in
      (\<lparr>xm_project = rq_project rq, xm_exported_at = rq_now rq, xm_schema_version = ''1.0.0'',
        xm_episode_count = length es\<rparr>, es))"

section \<open>Columns\<close>

definition episode_fits :: "episode \<Rightarrow> bool" where
  "episode_fits e \<longleftrightarrow> length (ep_id e) \<le> 40 \<and> ep_domain e \<in> set Domain \<and> ep_type e \<in> set MemoryType
     \<and> length (ep_title e) \<le> 255 \<and> length (ep_signature e) \<le> 512
     \<and> - (2 ^ 31) \<le> ep_version e \<and> ep_version e < 2 ^ 31 \<and> - (2 ^ 31) \<le> ep_feedback e \<and> ep_feedback e < 2 ^ 31"

definition attempt_fits :: "attempt \<Rightarrow> bool" where
  "attempt_fits a \<longleftrightarrow> length (at_id a) \<le> 40 \<and> - (2 ^ 31) \<le> at_sequence a \<and> at_sequence a < 2 ^ 31"

definition outcome_fits :: "outcome \<Rightarrow> bool" where
  "outcome_fits u \<longleftrightarrow> length (out_id u) \<le> 40 \<and> length (out_pattern_key u) \<le> 255"

definition ev_fits :: "evidence \<Rightarrow> bool" where
  "ev_fits e \<longleftrightarrow> length (ev_id e) \<le> 40"

definition fits_or :: "bool \<Rightarrow> 'a res \<Rightarrow> 'a res" where
  "fits_or b r = (if b then r else Inl (DataError ''value does not fit its column''))"

section \<open>Import\<close>

definition field :: "'a option \<Rightarrow> 'a \<Rightarrow> 'a" where
  \<comment> \<open>\<open>d.get(k, default)\<close>\<close>
  "field x d = (case x of None \<Rightarrow> d | Some v \<Rightarrow> v)"

definition id_given :: "string option \<Rightarrow> bool" where
  "id_given x = truthy_opt x"

text \<open>The identifiers drawn so far are counted along with the database.\<close>

type_synonym import_state = "mem_db \<times> nat"

text \<open>The identifier of a child row: its own unless the episode was remapped, it has none, or a row
  with it exists.\<close>

definition child_id ::
    "string \<Rightarrow> req \<Rightarrow> bool \<Rightarrow> string option \<Rightarrow> (string \<Rightarrow> bool) \<Rightarrow> nat \<Rightarrow> string \<times> nat" where
  "child_id prefix rq remap raw exists n =
     (if remap \<or> \<not> id_given raw then (prefix @ uuid7 (rq_ids rq n), Suc n)
      else if exists (the raw) then (prefix @ uuid7 (rq_ids rq n), Suc n)
      else (the raw, n))"

definition attempt_row :: "req \<Rightarrow> string \<Rightarrow> string \<Rightarrow> x_attempt \<Rightarrow> attempt" where
  "attempt_row rq k ep x = \<lparr>at_id = k, at_episode = ep, at_sequence = field (xa_sequence x) 1,
     at_hypothesis = field (xa_hypothesis x) [], at_actions = field (xa_actions x) [],
     at_result = field (xa_result x) RSuccess, at_notes = xa_notes x, at_metadata = field (xa_metadata x) [],
     at_created = rq_now rq\<rparr>"

definition import_attempt :: "req \<Rightarrow> bool \<Rightarrow> string \<Rightarrow> import_state \<Rightarrow> x_attempt \<Rightarrow> import_state res" where
  "import_attempt rq remap ep st x =
     (case st of (db, n) \<Rightarrow>
      case child_id ''att_'' rq remap (xa_id x) (\<lambda>k. get_row at_id k (attempts db) \<noteq> None) n of (k, n') \<Rightarrow>
      let a = attempt_row rq k ep x in
      fits_or (attempt_fits a)
        (if (ep, at_sequence a) \<in> set (map (\<lambda>a. (at_episode a, at_sequence a)) (attempts db))
         then Inl (IntegrityError ''uq_agent_memory_attempt_sequence'')
         else bindE (insert_row at_id a (attempts db)) (\<lambda>rows. Inr (db\<lparr>attempts := rows\<rparr>, n'))))"

text \<open>\<open>if outcome_data\<close>: an object without keys is no outcome.\<close>

definition empty_outcome :: "x_outcome \<Rightarrow> bool" where
  "empty_outcome x \<longleftrightarrow> xo_id x = None \<and> xo_status x = None \<and> xo_summary x = None \<and> xo_lesson x = None
     \<and> xo_metrics x = None \<and> xo_pattern_key x = None \<and> xo_metadata x = None"

definition outcome_row :: "req \<Rightarrow> string \<Rightarrow> string \<Rightarrow> x_outcome \<Rightarrow> outcome" where
  "outcome_row rq k ep x = \<lparr>out_id = k, out_episode = ep, out_status = field (xo_status x) OSuccess,
     out_summary = field (xo_summary x) [], out_lesson = xo_lesson x, out_metrics = field (xo_metrics x) [],
     out_pattern_key = field (xo_pattern_key x) [], out_metadata = field (xo_metadata x) [], out_created = rq_now rq\<rparr>"

definition import_outcome :: "req \<Rightarrow> bool \<Rightarrow> string \<Rightarrow> import_state \<Rightarrow> x_outcome option \<Rightarrow> import_state res" where
  "import_outcome rq remap ep st xo =
     (case xo of
        None \<Rightarrow> Inr st
      | Some x \<Rightarrow>
          if empty_outcome x then Inr st
          else case st of (db, n) \<Rightarrow>
            case child_id ''out_'' rq remap (xo_id x) (\<lambda>k. get_row out_id k (outcomes db) \<noteq> None) n of (k, n') \<Rightarrow>
            let u = outcome_row rq k ep x in
            fits_or (outcome_fits u)
              (if ep \<in> set (map out_episode (outcomes db))
               then Inl (IntegrityError ''uq_agent_memory_final_outcome_episode'')
               else bindE (insert_row out_id u (outcomes db)) (\<lambda>rows. Inr (db\<lparr>outcomes := rows\<rparr>, n'))))"

definition evidence_import_row :: "string \<Rightarrow> string \<Rightarrow> x_evidence \<Rightarrow> evidence" where
  "evidence_import_row k ep x = \<lparr>ev_id = k, ev_episode = ep, ev_reference = field (xv_reference x) [],
     ev_metadata = field (xv_metadata x) []\<rparr>"

definition import_evidence :: "req \<Rightarrow> bool \<Rightarrow> string \<Rightarrow> import_state \<Rightarrow> x_evidence \<Rightarrow> import_state res" where
  "import_evidence rq remap ep st x =
     (case st of (db, n) \<Rightarrow>
      case child_id ''ev_'' rq remap (xv_id x) (\<lambda>k. get_row ev_id k (evidences db) \<noteq> None) n of (k, n') \<Rightarrow>
      let e = evidence_import_row k ep x in
      fits_or (ev_fits e)
        (bindE (insert_row ev_id e (evidences db)) (\<lambda>rows. Inr (db\<lparr>evidences := rows\<rparr>, n'))))"

abbreviation foldR :: "('s \<Rightarrow> 'a \<Rightarrow> 's res) \<Rightarrow> 's \<Rightarrow> 'a list \<Rightarrow> 's res" where
  "foldR f s xs \<equiv> foldE (\<lambda>x s. f s x) xs s"

text \<open>\<open>ep_data.get(...)\<close> with the defaults of the handler.\<close>

definition imported_episode :: "req \<Rightarrow> string \<Rightarrow> x_episode \<Rightarrow> episode" where
  "imported_episode rq k x = \<lparr>ep_id = k, ep_project = rq_project rq, ep_domain = field (xe_domain x) ''custom'',
     ep_type = field (xe_type x) ''custom'', ep_title = field (xe_title x) ''Imported episode'',
     ep_goal = field (xe_goal x) [], ep_signature = field (xe_signature x) [], ep_scope = field (xe_scope x) [],
     ep_tags = field (xe_tags x) [], ep_metadata = field (xe_metadata x) [], ep_content = xe_content x,
     ep_confidence = field (xe_confidence x) (1 / 2), ep_version = field (xe_version x) 1, ep_root = None,
     ep_status = field (xe_status x) SOpen, ep_feedback = field (xe_feedback x) 0, ep_superseded_by = None,
     ep_created = rq_now rq, ep_updated = rq_now rq\<rparr>"

text \<open>Which episode is there already, and the identifier and remapping otherwise.\<close>

definition episode_target :: "req \<Rightarrow> mem_db \<Rightarrow> nat \<Rightarrow> x_episode \<Rightarrow> (string \<times> bool \<times> nat) option" where
  "episode_target rq db n x =
     (if \<not> id_given (xe_id x) then Some (memory_id (rq_ids rq n), False, Suc n)
      else case get_row ep_id (the (xe_id x)) (episodes db) of
        None \<Rightarrow> Some (the (xe_id x), False, n)
      | Some existing \<Rightarrow>
          if ep_project existing = rq_project rq then None
          else Some (memory_id (rq_ids rq n), True, Suc n))"

definition import_episode :: "req \<Rightarrow> import_state \<times> nat \<Rightarrow> x_episode \<Rightarrow> (import_state \<times> nat) res" where
  "import_episode rq sc x =
     (case sc of ((db, n), imported) \<Rightarrow>
      case episode_target rq db n x of
        None \<Rightarrow> Inr sc
      | Some (k, remap, n') \<Rightarrow>
          let ep = imported_episode rq k x in
          fits_or (episode_fits ep)
            (bindE (insert_row ep_id ep (episodes db)) (\<lambda>rows.
             bindE (foldR (import_attempt rq remap k) (db\<lparr>episodes := rows\<rparr>, n') (xe_attempts x)) (\<lambda>st1.
             bindE (import_outcome rq remap k st1 (xe_outcome x)) (\<lambda>st2.
             bindE (foldR (import_evidence rq remap k) st2 (xe_evidence x)) (\<lambda>st3.
             Inr (st3, Suc imported)))))))"

definition import_project :: "req \<Rightarrow> mem_db \<Rightarrow> import_data \<Rightarrow> (nat \<times> mem_db) res" where
  "import_project rq db data =
     (case data of
        NotAnArray \<Rightarrow> Inl (HTTPException 400 ''invalid import data: episodes must be an array'')
      | NoEpisodes \<Rightarrow> Inr (0, db)
      | Episodes xs \<Rightarrow> bindE (foldR (import_episode rq) ((db, 0), 0) xs) (\<lambda>((db', n), k). Inr (k, db')))"

section \<open>Importing what was exported\<close>

text \<open>Rows whose identifiers the import keeps: they fit their columns and are not empty texts.\<close>

definition episode_movable :: "episode \<Rightarrow> bool" where
  "episode_movable e \<longleftrightarrow> ep_id e \<noteq> [] \<and> episode_fits e"

definition rows_movable :: "mem_db \<Rightarrow> bool" where
  "rows_movable db \<longleftrightarrow> list_all episode_movable (episodes db)
     \<and> list_all (\<lambda>a. at_id a \<noteq> [] \<and> attempt_fits a) (attempts db)
     \<and> list_all (\<lambda>u. out_id u \<noteq> [] \<and> outcome_fits u) (outcomes db)
     \<and> list_all (\<lambda>v. ev_id v \<noteq> [] \<and> ev_fits v) (evidences db)"

text \<open>A row after it has moved: the dates and the links are those of the import.\<close>

definition moved_episode :: "req \<Rightarrow> episode \<Rightarrow> episode" where
  "moved_episode rq e = e\<lparr>ep_project := rq_project rq, ep_root := None, ep_superseded_by := None,
     ep_created := rq_now rq, ep_updated := rq_now rq\<rparr>"

definition moved_attempt :: "req \<Rightarrow> attempt \<Rightarrow> attempt" where
  "moved_attempt rq a = a\<lparr>at_created := rq_now rq\<rparr>"

definition moved_outcome :: "req \<Rightarrow> outcome \<Rightarrow> outcome" where
  "moved_outcome rq u = u\<lparr>out_created := rq_now rq\<rparr>"

definition outcomes_of :: "mem_db \<Rightarrow> string \<Rightarrow> outcome list" where
  "outcomes_of db k = (case find (\<lambda>u. out_episode u = k) (outcomes db) of None \<Rightarrow> [] | Some u \<Rightarrow> [u])"

definition evidence_of :: "mem_db \<Rightarrow> string \<Rightarrow> evidence list" where
  "evidence_of db k = filter (\<lambda>v. ev_episode v = k) (evidences db)"

definition moved :: "req \<Rightarrow> mem_db \<Rightarrow> episode \<Rightarrow> mem_db \<Rightarrow> mem_db" where
  "moved rq db e D = D\<lparr>episodes := episodes D @ [moved_episode rq e],
     attempts := attempts D @ map (moved_attempt rq) (attempts_of db (ep_id e)),
     outcomes := outcomes D @ map (moved_outcome rq) (outcomes_of db (ep_id e)),
     evidences := evidences D @ evidence_of db (ep_id e)\<rparr>"

lemma field_simps_x [simp]: "field (Some x) d = x" "field None d = d"
  by (simp_all add: field_def)

lemma imported_exported: "imported_episode rq (ep_id e) (export_episode db e) = moved_episode rq e"
  by (simp add: imported_episode_def export_episode_def moved_episode_def)

lemma child_id_kept: "raw \<noteq> [] \<Longrightarrow> \<not> exists raw \<Longrightarrow> child_id prefix rq False (Some raw) exists n = (raw, n)"
  by (simp add: child_id_def id_given_def)

lemma import_attempt_kept:
  assumes "at_id a \<noteq> []" "attempt_fits a" "at_id a \<notin> at_id ` set (attempts D)"
    "(at_episode a, at_sequence a) \<notin> (\<lambda>a. (at_episode a, at_sequence a)) ` set (attempts D)"
  shows "import_attempt rq False (at_episode a) (D, n) (export_attempt a)
    = Inr (D\<lparr>attempts := attempts D @ [moved_attempt rq a]\<rparr>, n)"
proof -
  have none: "get_row at_id (at_id a) (attempts D) = None" using assms(3) by (simp add: get_row_None_iff)
  have row: "attempt_row rq (at_id a) (at_episode a) (export_attempt a) = moved_attempt rq a"
    by (simp add: attempt_row_def export_attempt_def moved_attempt_def)
  have xid: "xa_id (export_attempt a) = Some (at_id a)" by (simp add: export_attempt_def)
  have fits: "attempt_fits (moved_attempt rq a)" using assms(2) by (simp add: attempt_fits_def moved_attempt_def)
  have same: "at_id (moved_attempt rq a) = at_id a" "at_sequence (moved_attempt rq a) = at_sequence a"
    by (simp_all add: moved_attempt_def)
  have ins: "insert_row at_id (moved_attempt rq a) (attempts D) = Inr (attempts D @ [moved_attempt rq a])"
    using assms(3) by (simp add: insert_row_Inr_iff same)
  show ?thesis
    using assms(1,4) none fits ins
    by (simp add: import_attempt_def xid child_id_kept row fits_or_def same)
qed

lemma import_attempts_kept:
  assumes "distinct (map at_id as)" "\<forall>a\<in>set as. at_id a \<noteq> [] \<and> attempt_fits a \<and> at_episode a = k"
    "at_id ` set as \<inter> at_id ` set (attempts D) = {}" "distinct (map at_sequence as)"
    "\<forall>b\<in>set (attempts D). at_episode b = k \<longrightarrow> at_sequence b \<notin> at_sequence ` set as"
  shows "foldR (import_attempt rq False k) (D, n) (map export_attempt as)
    = Inr (D\<lparr>attempts := attempts D @ map (moved_attempt rq) as\<rparr>, n)"
  using assms
proof (induction as arbitrary: D)
  case (Cons a as)
  let ?D = "D\<lparr>attempts := attempts D @ [moved_attempt rq a]\<rparr>"
  have step: "import_attempt rq False k (D, n) (export_attempt a) = Inr (?D, n)"
  proof -
    have "(at_episode a, at_sequence a) \<notin> (\<lambda>a. (at_episode a, at_sequence a)) ` set (attempts D)"
    proof
      assume "(at_episode a, at_sequence a) \<in> (\<lambda>a. (at_episode a, at_sequence a)) ` set (attempts D)"
      then obtain b where "b \<in> set (attempts D)" "at_episode b = at_episode a" "at_sequence b = at_sequence a"
        by (elim imageE) simp
      moreover have "at_episode a = k" using Cons.prems(2) by simp
      ultimately show False using Cons.prems(5) by simp
    qed
    moreover have "at_id a \<noteq> []" "attempt_fits a" "at_episode a = k" "at_id a \<notin> at_id ` set (attempts D)"
      using Cons.prems(2,3) by simp_all
    ultimately show ?thesis using import_attempt_kept [of a D rq n] by simp
  qed
  have "foldR (import_attempt rq False k) (?D, n) (map export_attempt as)
      = Inr (?D\<lparr>attempts := attempts ?D @ map (moved_attempt rq) as\<rparr>, n)"
    by (rule Cons.IH) (use Cons.prems in \<open>auto simp: moved_attempt_def\<close>)
  then show ?case by (simp add: step)
qed simp

lemma import_outcome_kept:
  assumes "\<forall>u\<in>set us. out_id u \<noteq> [] \<and> outcome_fits u \<and> out_episode u = k" "us = (case xo of None \<Rightarrow> [] | Some u \<Rightarrow> [u])"
    "out_id ` set us \<inter> out_id ` set (outcomes D) = {}" "k \<notin> out_episode ` set (outcomes D)"
  shows "import_outcome rq False k (D, n) (map_option export_outcome xo)
    = Inr (D\<lparr>outcomes := outcomes D @ map (moved_outcome rq) us\<rparr>, n)"
proof (cases xo)
  case (Some u)
  have us: "us = [u]" using assms(2) Some by simp
  have u: "out_id u \<noteq> []" "outcome_fits u" "out_episode u = k" "out_id u \<notin> out_id ` set (outcomes D)"
    using assms(1,3) by (simp_all add: us)
  have none: "get_row out_id (out_id u) (outcomes D) = None" using u(4) by (simp add: get_row_None_iff)
  have row: "outcome_row rq (out_id u) k (export_outcome u) = moved_outcome rq u"
    using u(3) by (simp add: outcome_row_def export_outcome_def moved_outcome_def)
  have xid: "xo_id (export_outcome u) = Some (out_id u)" by (simp add: export_outcome_def)
  have fits: "outcome_fits (moved_outcome rq u)" using u(2) by (simp add: outcome_fits_def moved_outcome_def)
  have ins: "insert_row out_id (moved_outcome rq u) (outcomes D) = Inr (outcomes D @ [moved_outcome rq u])"
    using u(4) by (simp add: insert_row_Inr_iff moved_outcome_def)
  have "\<not> empty_outcome (export_outcome u)" by (simp add: empty_outcome_def export_outcome_def)
  then show ?thesis
    using u(1) none fits ins assms(4)
    by (simp add: Some us import_outcome_def xid child_id_kept row fits_or_def)
qed (use assms(2) in \<open>simp add: import_outcome_def\<close>)

lemma import_evidence_kept:
  assumes "distinct (map ev_id vs)" "\<forall>v\<in>set vs. ev_id v \<noteq> [] \<and> ev_fits v \<and> ev_episode v = k"
    "ev_id ` set vs \<inter> ev_id ` set (evidences D) = {}"
  shows "foldR (import_evidence rq False k) (D, n) (map export_evidence vs)
    = Inr (D\<lparr>evidences := evidences D @ vs\<rparr>, n)"
  using assms
proof (induction vs arbitrary: D)
  case (Cons v vs)
  let ?D = "D\<lparr>evidences := evidences D @ [v]\<rparr>"
  have v: "ev_id v \<noteq> []" "ev_fits v" "ev_episode v = k" "ev_id v \<notin> ev_id ` set (evidences D)"
    using Cons.prems by auto
  have none: "get_row ev_id (ev_id v) (evidences D) = None" using v(4) by (simp add: get_row_None_iff)
  have row: "evidence_import_row (ev_id v) k (export_evidence v) = v"
    using v(3) by (simp add: evidence_import_row_def export_evidence_def)
  have xid: "xv_id (export_evidence v) = Some (ev_id v)" by (simp add: export_evidence_def)
  have ins: "insert_row ev_id v (evidences D) = Inr (evidences D @ [v])"
    using v(4) by (simp add: insert_row_Inr_iff)
  have step: "import_evidence rq False k (D, n) (export_evidence v) = Inr (?D, n)"
    using v(1,2) none ins by (simp add: import_evidence_def xid child_id_kept row fits_or_def)
  have "foldR (import_evidence rq False k) (?D, n) (map export_evidence vs) = Inr (?D\<lparr>evidences := evidences ?D @ vs\<rparr>, n)"
    by (rule Cons.IH) (use Cons.prems in auto)
  then show ?case by (simp add: step)
qed simp

text \<open>The exported rows of one episode are its own, with distinct keys.\<close>

lemma find_SomeD: "find P xs = Some x \<Longrightarrow> x \<in> set xs \<and> P x"
  by (induction xs) (auto split: if_splits)

lemma same_key: "distinct (map key rows) \<Longrightarrow> r \<in> set rows \<Longrightarrow> r' \<in> set rows \<Longrightarrow> key r = key r' \<Longrightarrow> r = r'"
  by (auto simp: distinct_map dest: inj_onD)

lemma attempts_of_rows:
  assumes "keys_ok db"
  shows "set (attempts_of db k) = {a \<in> set (attempts db). at_episode a = k}" "distinct (map at_id (attempts_of db k))"
    "distinct (map at_sequence (attempts_of db k))"
proof -
  let ?f = "filter (\<lambda>a. at_episode a = k) (attempts db)"
  show "set (attempts_of db k) = {a \<in> set (attempts db). at_episode a = k}"
    by (auto simp: attempts_of_def)
  have "distinct (map at_id (attempts db))" "distinct (map (\<lambda>a. (at_episode a, at_sequence a)) (attempts db))"
    using assms by (simp_all add: keys_ok_def)
  then have "distinct (map at_id ?f)" "distinct (map (\<lambda>a. (at_episode a, at_sequence a)) ?f)"
    by (simp_all add: distinct_map_filter)
  then have "distinct ?f" "inj_on at_id (set ?f)" "inj_on at_sequence (set ?f)"
    by (auto simp: distinct_map inj_on_def)
  then show "distinct (map at_id (attempts_of db k))" "distinct (map at_sequence (attempts_of db k))"
    by (simp_all add: attempts_of_def order_by_def distinct_map)
qed

lemma outcomes_of_rows: "set (outcomes_of db k) \<subseteq> {u \<in> set (outcomes db). out_episode u = k}"
  using find_SomeD [of "\<lambda>u. out_episode u = k" "outcomes db"] by (auto simp: outcomes_of_def split: option.splits)

lemma evidence_of_rows: "set (evidence_of db k) = {v \<in> set (evidences db). ev_episode v = k}"
  by (auto simp: evidence_of_def)

text \<open>Nothing of the episodes \<open>es\<close> of \<open>db\<close> is in \<open>D\<close> yet.\<close>

definition unmoved :: "mem_db \<Rightarrow> episode list \<Rightarrow> mem_db \<Rightarrow> bool" where
  "unmoved db es D \<longleftrightarrow> (\<forall>e\<in>set es. ep_id e \<notin> ep_id ` set (episodes D)
     \<and> (\<forall>a\<in>set (attempts D). at_episode a \<noteq> ep_id e) \<and> (\<forall>u\<in>set (outcomes D). out_episode u \<noteq> ep_id e)
     \<and> (\<forall>v\<in>set (evidences D). ev_episode v \<noteq> ep_id e)
     \<and> (\<forall>a\<in>set (attempts_of db (ep_id e)). at_id a \<notin> at_id ` set (attempts D))
     \<and> (\<forall>u\<in>set (outcomes_of db (ep_id e)). out_id u \<notin> out_id ` set (outcomes D))
     \<and> (\<forall>v\<in>set (evidence_of db (ep_id e)). ev_id v \<notin> ev_id ` set (evidences D)))"

definition export_keys :: "mem_db \<Rightarrow> bool" where
  "export_keys db \<longleftrightarrow> keys_ok db \<and> distinct (map ev_id (evidences db)) \<and> rows_movable db"

lemma xe_id_export: "xe_id (export_episode db e) = Some (ep_id e)"
  by (simp add: export_episode_def)

lemma import_episode_kept:
  assumes ok: "export_keys db" and e: "e \<in> set (episodes db)" and new: "unmoved db [e] D"
  shows "import_episode rq ((D, n), c) (export_episode db e) = Inr ((moved rq db e D, n), Suc c)"
proof -
  let ?k = "ep_id e"
  have mv: "episode_movable e" "\<forall>a\<in>set (attempts db). at_id a \<noteq> [] \<and> attempt_fits a"
    "\<forall>u\<in>set (outcomes db). out_id u \<noteq> [] \<and> outcome_fits u" "\<forall>v\<in>set (evidences db). ev_id v \<noteq> [] \<and> ev_fits v"
    using ok e by (simp_all add: export_keys_def rows_movable_def list_all_iff)
  have keys: "keys_ok db" "distinct (map ev_id (evidences db))" using ok by (simp_all add: export_keys_def)
  note rows = attempts_of_rows [OF keys(1), of ?k]
  have new': "?k \<notin> ep_id ` set (episodes D)" "\<forall>a\<in>set (attempts D). at_episode a \<noteq> ?k"
    "?k \<notin> out_episode ` set (outcomes D)" "at_id ` set (attempts_of db ?k) \<inter> at_id ` set (attempts D) = {}"
    "out_id ` set (outcomes_of db ?k) \<inter> out_id ` set (outcomes D) = {}"
    "ev_id ` set (evidence_of db ?k) \<inter> ev_id ` set (evidences D) = {}"
    using new unfolding unmoved_def by auto
  have target: "episode_target rq D n (export_episode db e) = Some (?k, False, n)"
    using mv(1) new'(1)
    by (simp add: episode_target_def id_given_def episode_movable_def get_row_None_iff [THEN iffD2] xe_id_export)
  have fits: "episode_fits (moved_episode rq e)"
    using mv(1) by (simp add: episode_movable_def episode_fits_def moved_episode_def)
  have ins: "insert_row ep_id (moved_episode rq e) (episodes D) = Inr (episodes D @ [moved_episode rq e])"
    using new'(1) by (simp add: insert_row_Inr_iff moved_episode_def)
  let ?D1 = "D\<lparr>episodes := episodes D @ [moved_episode rq e]\<rparr>"
  let ?D2 = "?D1\<lparr>attempts := attempts D @ map (moved_attempt rq) (attempts_of db ?k)\<rparr>"
  let ?D3 = "?D2\<lparr>outcomes := outcomes D @ map (moved_outcome rq) (outcomes_of db ?k)\<rparr>"
  have s1: "foldR (import_attempt rq False ?k) (?D1, n) (map export_attempt (attempts_of db ?k)) = Inr (?D2, n)"
    using import_attempts_kept [of "attempts_of db ?k" ?k ?D1 rq n] rows mv(2) new'(2,4) by simp
  have "\<forall>u\<in>set (outcomes_of db ?k). out_id u \<noteq> [] \<and> outcome_fits u \<and> out_episode u = ?k"
    using outcomes_of_rows [of db ?k] mv(3) by auto
  then have s2: "import_outcome rq False ?k (?D2, n) (map_option export_outcome (find (\<lambda>u. out_episode u = ?k) (outcomes db)))
      = Inr (?D3, n)"
    using import_outcome_kept [of "outcomes_of db ?k" ?k "find (\<lambda>u. out_episode u = ?k) (outcomes db)" ?D2 rq n] new'(3,5)
    by (simp add: outcomes_of_def)
  have "distinct (map ev_id (evidence_of db ?k))"
    using keys(2) by (simp add: evidence_of_def distinct_map_filter)
  then have s3: "foldR (import_evidence rq False ?k) (?D3, n) (map export_evidence (evidence_of db ?k))
      = Inr (?D3\<lparr>evidences := evidences D @ evidence_of db ?k\<rparr>, n)"
    using import_evidence_kept [of "evidence_of db ?k" ?k ?D3 rq n] evidence_of_rows [of db ?k] mv(4) new'(6) by simp
  have parts: "xe_attempts (export_episode db e) = map export_attempt (attempts_of db ?k)"
    "xe_outcome (export_episode db e) = map_option export_outcome (find (\<lambda>u. out_episode u = ?k) (outcomes db))"
    "xe_evidence (export_episode db e) = map export_evidence (evidence_of db ?k)"
    by (simp_all add: export_episode_def evidence_of_def)
  have "moved rq db e D = ?D3\<lparr>evidences := evidences D @ evidence_of db ?k\<rparr>" by (simp add: moved_def)
  then show ?thesis
    by (simp add: import_episode_def target imported_exported fits fits_or_def ins parts s1 s2 s3)
qed

lemma unmoved_step:
  assumes ok: "export_keys db" and es: "set (e # es) \<subseteq> set (episodes db)" "distinct (map ep_id (e # es))"
    and new: "unmoved db (e # es) D"
  shows "unmoved db es (moved rq db e D)"
  unfolding unmoved_def
proof (intro ballI conjI)
  fix e' assume e': "e' \<in> set es"
  have "ep_id e' \<in> ep_id ` set es" using e' by simp
  then have ne: "ep_id e' \<noteq> ep_id e" using es(2) by auto
  have old: "ep_id e' \<notin> ep_id ` set (episodes D)" "\<forall>a\<in>set (attempts D). at_episode a \<noteq> ep_id e'"
    "\<forall>u\<in>set (outcomes D). out_episode u \<noteq> ep_id e'" "\<forall>v\<in>set (evidences D). ev_episode v \<noteq> ep_id e'"
    "\<forall>a\<in>set (attempts_of db (ep_id e')). at_id a \<notin> at_id ` set (attempts D)"
    "\<forall>u\<in>set (outcomes_of db (ep_id e')). out_id u \<notin> out_id ` set (outcomes D)"
    "\<forall>v\<in>set (evidence_of db (ep_id e')). ev_id v \<notin> ev_id ` set (evidences D)"
    using new e' unfolding unmoved_def by simp_all
  have keys: "keys_ok db" "distinct (map ev_id (evidences db))" "distinct (map at_id (attempts db))" "distinct (map out_id (outcomes db))"
    using ok by (simp_all add: export_keys_def keys_ok_def)
  note rows = attempts_of_rows(1) [OF keys(1)]
  show "ep_id e' \<notin> ep_id ` set (episodes (moved rq db e D))"
    using old(1) ne by (simp add: moved_def moved_episode_def)
  show "at_episode a \<noteq> ep_id e'" if "a \<in> set (attempts (moved rq db e D))" for a
    using that old(2) ne by (auto simp: moved_def moved_attempt_def rows)
  show "out_episode u \<noteq> ep_id e'" if "u \<in> set (outcomes (moved rq db e D))" for u
    using that old(3) ne outcomes_of_rows [of db "ep_id e"] by (auto simp: moved_def moved_outcome_def)
  show "ev_episode v \<noteq> ep_id e'" if "v \<in> set (evidences (moved rq db e D))" for v
    using that old(4) ne by (auto simp: moved_def evidence_of_rows)
  show "at_id a \<notin> at_id ` set (attempts (moved rq db e D))" if a: "a \<in> set (attempts_of db (ep_id e'))" for a
  proof -
    have dif: "at_id a \<noteq> at_id b" if "b \<in> set (attempts_of db (ep_id e))" for b
      using a that ne same_key [OF keys(3), of a b] by (auto simp: rows)
    have "at_id a \<notin> at_id ` set (attempts_of db (ep_id e))" using dif by blast
    then show ?thesis using old(5) a by (simp add: moved_def moved_attempt_def image_image image_Un)
  qed
  show "out_id u \<notin> out_id ` set (outcomes (moved rq db e D))" if u: "u \<in> set (outcomes_of db (ep_id e'))" for u
  proof -
    have dif: "out_id u \<noteq> out_id b" if "b \<in> set (outcomes_of db (ep_id e))" for b
      using subsetD [OF outcomes_of_rows u] subsetD [OF outcomes_of_rows that] ne same_key [OF keys(4), of u b] by auto
    have "out_id u \<notin> out_id ` set (outcomes_of db (ep_id e))" using dif by blast
    then show ?thesis using old(6) u by (simp add: moved_def moved_outcome_def image_image image_Un)
  qed
  show "ev_id v \<notin> ev_id ` set (evidences (moved rq db e D))" if v: "v \<in> set (evidence_of db (ep_id e'))" for v
  proof -
    have dif: "ev_id v \<noteq> ev_id b" if "b \<in> set (evidence_of db (ep_id e))" for b
      using v that ne same_key [OF keys(2), of v b] by (auto simp: evidence_of_rows)
    have "ev_id v \<notin> ev_id ` set (evidence_of db (ep_id e))" using dif by blast
    then show ?thesis using old(7) v by (simp add: moved_def image_Un)
  qed
qed

lemma import_episodes_kept:
  assumes "export_keys db" "set es \<subseteq> set (episodes db)" "distinct (map ep_id es)" "unmoved db es D"
  shows "foldR (import_episode rq) ((D, n), c) (map (export_episode db) es)
    = Inr ((fold (moved rq db) es D, n), c + length es)"
  using assms
proof (induction es arbitrary: D c)
  case (Cons e es)
  have "unmoved db [e] D" using Cons.prems(4) by (simp add: unmoved_def)
  then have "import_episode rq ((D, n), c) (export_episode db e) = Inr ((moved rq db e D, n), Suc c)"
    using Cons.prems by (intro import_episode_kept) simp_all
  moreover have "unmoved db es (moved rq db e D)" using Cons.prems by (intro unmoved_step)
  ultimately show ?case using Cons.IH Cons.prems by simp
qed simp

lemma fold_moved:
  "episodes (fold (moved rq db) es D) = episodes D @ map (moved_episode rq) es"
  "attempts (fold (moved rq db) es D) = attempts D @ concat (map (\<lambda>e. map (moved_attempt rq) (attempts_of db (ep_id e))) es)"
  "outcomes (fold (moved rq db) es D) = outcomes D @ concat (map (\<lambda>e. map (moved_outcome rq) (outcomes_of db (ep_id e))) es)"
  "evidences (fold (moved rq db) es D) = evidences D @ concat (map (\<lambda>e. evidence_of db (ep_id e)) es)"
  by (induction es arbitrary: D) (simp_all add: moved_def)

text \<open>What the imported database exports.\<close>

lemma filter_concat_own:
  assumes "\<And>e x. x \<in> set (g e) \<Longrightarrow> own x = key e" "distinct (map key es)" "e0 \<in> set es"
  shows "filter (\<lambda>x. own x = key e0) (concat (map g es)) = g e0"
  using assms(2,3)
proof (induction es)
  case (Cons e es)
  have g: "filter (\<lambda>x. own x = key e0) (g e) = (if key e = key e0 then g e else [])" for e
    using assms(1) by (auto simp: filter_id_conv filter_empty_conv)
  show ?case
  proof (cases "e0 = e")
    case True
    have "filter (\<lambda>x. own x = key e0) (concat (map g es)) = []"
    proof -
      have "own x \<noteq> key e0" if "y \<in> set es" "x \<in> set (g y)" for x y
      proof -
        have "key y \<in> key ` set es" using that(1) by simp
        then show ?thesis using Cons.prems(1) True assms(1) [OF that(2)] by auto
      qed
      then show ?thesis by (auto simp: filter_empty_conv)
    qed
    then show ?thesis using True g by simp
  next
    case False
    then have e0: "e0 \<in> set es" using Cons.prems(2) by simp
    then have "key e0 \<in> key ` set es" by simp
    then have "key e \<noteq> key e0" using Cons.prems(1) by auto
    then show ?thesis using Cons.IH [OF _ e0] Cons.prems(1) g by simp
  qed
qed simp

lemma find_of_filter: "find P xs = (case filter P xs of [] \<Rightarrow> None | x # _ \<Rightarrow> Some x)"
  by (induction xs) simp_all

lemma moved_keys [simp]:
  "at_episode (moved_attempt rq a) = at_episode a" "at_sequence (moved_attempt rq a) = at_sequence a"
  "out_episode (moved_outcome rq u) = out_episode u" "ep_id (moved_episode rq e) = ep_id e"
  "ep_project (moved_episode rq e) = rq_project rq"
  "export_attempt (moved_attempt rq a) = export_attempt a" "export_outcome (moved_outcome rq u) = export_outcome u"
  by (simp_all add: moved_attempt_def moved_outcome_def moved_episode_def export_attempt_def export_outcome_def)

definition undated :: "x_episode \<Rightarrow> x_episode" where
  "undated x = x\<lparr>xe_created := None, xe_updated := None\<rparr>"

lemma undated_moved:
  assumes "attempts_of D (ep_id e) = map (moved_attempt rq) (attempts_of db (ep_id e))"
    "find (\<lambda>u. out_episode u = ep_id e) (outcomes D) = map_option (moved_outcome rq) (find (\<lambda>u. out_episode u = ep_id e) (outcomes db))"
    "evidence_of D (ep_id e) = evidence_of db (ep_id e)"
  shows "undated (export_episode D (moved_episode rq e)) = undated (export_episode db e)"
proof -
  have "undated (export_episode D (moved_episode rq e)) = (export_episode db e)\<lparr>xe_created := None, xe_updated := None,
      xe_attempts := map export_attempt (attempts_of D (ep_id e)),
      xe_outcome := map_option export_outcome (find (\<lambda>u. out_episode u = ep_id e) (outcomes D)),
      xe_evidence := map export_evidence (evidence_of D (ep_id e))\<rparr>"
    by (simp add: undated_def export_episode_def evidence_of_def) (simp add: moved_episode_def)
  also have "\<dots> = undated (export_episode db e)"
    unfolding assms by (simp add: undated_def export_episode_def evidence_of_def option.map_comp o_def)
  finally show ?thesis .
qed

lemma moved_children:
  assumes "unmoved db es D" "distinct (map ep_id es)" "e \<in> set es" and D': "D' = fold (moved rq db) es D"
  shows "attempts_of D' (ep_id e) = map (moved_attempt rq) (attempts_of db (ep_id e))"
    "find (\<lambda>u. out_episode u = ep_id e) (outcomes D') = map_option (moved_outcome rq) (find (\<lambda>u. out_episode u = ep_id e) (outcomes db))"
    "evidence_of D' (ep_id e) = evidence_of db (ep_id e)"
proof -
  let ?k = "ep_id e"
  have D: "filter (\<lambda>a. at_episode a = ?k) (attempts D) = []" "filter (\<lambda>u. out_episode u = ?k) (outcomes D) = []"
    "filter (\<lambda>v. ev_episode v = ?k) (evidences D) = []"
    using assms(1,3) by (auto simp: unmoved_def filter_empty_conv)
  have own_a: "\<And>e x. x \<in> set (map (moved_attempt rq) (attempts_of db (ep_id e))) \<Longrightarrow> at_episode x = ep_id e"
    by (auto simp: attempts_of_def)
  have "filter (\<lambda>a. at_episode a = ?k) (attempts D') = map (moved_attempt rq) (attempts_of db ?k)"
    using D(1) filter_concat_own [of "\<lambda>e. map (moved_attempt rq) (attempts_of db (ep_id e))" at_episode ep_id es e, OF own_a assms(2,3)]
    by (simp add: D' fold_moved)
  moreover have "sorted (map at_sequence (attempts_of db ?k))" by (simp add: attempts_of_def sorted_order_by)
  ultimately show "attempts_of D' ?k = map (moved_attempt rq) (attempts_of db ?k)"
    by (simp add: attempts_of_def [of D'] order_by_def sort_key_id_if_sorted o_def)
  have own: "\<And>e x. x \<in> set (map (moved_outcome rq) (outcomes_of db (ep_id e))) \<Longrightarrow> out_episode x = ep_id e"
    using outcomes_of_rows by fastforce
  have "filter (\<lambda>u. out_episode u = ?k) (outcomes D') = map (moved_outcome rq) (outcomes_of db ?k)"
    using D(2) filter_concat_own [of "\<lambda>e. map (moved_outcome rq) (outcomes_of db (ep_id e))" out_episode ep_id es e, OF own assms(2,3)]
    by (simp add: D' fold_moved)
  then show "find (\<lambda>u. out_episode u = ?k) (outcomes D') = map_option (moved_outcome rq) (find (\<lambda>u. out_episode u = ?k) (outcomes db))"
    by (simp add: find_of_filter [of _ "outcomes D'"] outcomes_of_def split: option.split)
  show "evidence_of D' ?k = evidence_of db ?k"
    using D(3) filter_concat_own [of "\<lambda>e. evidence_of db (ep_id e)" ev_episode ep_id es e] assms(2,3)
    by (simp add: D' fold_moved evidence_of_def)
qed

text \<open>An import skips what the project already has.\<close>

lemma import_present:
  assumes "\<forall>x\<in>set xs. \<exists>k r. xe_id x = Some k \<and> k \<noteq> [] \<and> get_row ep_id k (episodes D) = Some r \<and> ep_project r = rq_project rq"
  shows "foldR (import_episode rq) ((D, n), c) xs = Inr ((D, n), c)"
  using assms
proof (induction xs)
  case (Cons x xs)
  obtain k r where "xe_id x = Some k" "k \<noteq> []" "get_row ep_id k (episodes D) = Some r" "ep_project r = rq_project rq"
    using Cons.prems by auto
  then have "import_episode rq ((D, n), c) x = Inr ((D, n), c)"
    by (simp add: import_episode_def episode_target_def id_given_def)
  then show ?case using Cons by simp
qed simp

section \<open>Properties\<close>

definition disjoint_ids :: "mem_db \<Rightarrow> mem_db \<Rightarrow> bool" where
  "disjoint_ids db D \<longleftrightarrow> ep_id ` set (episodes db) \<inter> ep_id ` set (episodes D) = {}
     \<and> at_id ` set (attempts db) \<inter> at_id ` set (attempts D) = {}
     \<and> out_id ` set (outcomes db) \<inter> out_id ` set (outcomes D) = {}
     \<and> ev_id ` set (evidences db) \<inter> ev_id ` set (evidences D) = {}"

lemma disjoint_unmoved:
  assumes "disjoint_ids db D" "refs_ok D" "keys_ok db" "set es \<subseteq> set (episodes db)"
  shows "unmoved db es D"
  unfolding unmoved_def
proof (intro ballI conjI)
  fix e assume "e \<in> set es"
  then have k: "ep_id e \<in> ep_id ` set (episodes db)" using assms(4) by auto
  then show new: "ep_id e \<notin> ep_id ` set (episodes D)" using assms(1) by (auto simp: disjoint_ids_def)
  have refs: "\<forall>a\<in>set (attempts D). at_episode a \<in> ep_id ` set (episodes D)"
    "\<forall>u\<in>set (outcomes D). out_episode u \<in> ep_id ` set (episodes D)"
    "\<forall>v\<in>set (evidences D). ev_episode v \<in> ep_id ` set (episodes D)"
    using assms(2) by (simp_all add: refs_ok_def Let_def list_all_iff)
  show "at_episode a \<noteq> ep_id e" if "a \<in> set (attempts D)" for a using bspec [OF refs(1) that] new by metis
  show "out_episode u \<noteq> ep_id e" if "u \<in> set (outcomes D)" for u using bspec [OF refs(2) that] new by metis
  show "ev_episode v \<noteq> ep_id e" if "v \<in> set (evidences D)" for v using bspec [OF refs(3) that] new by metis
  show "at_id a \<notin> at_id ` set (attempts D)" if "a \<in> set (attempts_of db (ep_id e))" for a
    using that assms(1) unfolding disjoint_ids_def attempts_of_rows(1) [OF assms(3)] by blast
  show "out_id u \<notin> out_id ` set (outcomes D)" if "u \<in> set (outcomes_of db (ep_id e))" for u
    using subsetD [OF outcomes_of_rows that] assms(1) unfolding disjoint_ids_def by blast
  show "ev_id v \<notin> ev_id ` set (evidences D)" if "v \<in> set (evidence_of db (ep_id e))" for v
    using that assms(1) unfolding disjoint_ids_def evidence_of_rows by blast
qed


definition sample_x_episode :: episode where
  "sample_x_episode = \<lparr>ep_id = ''mem_1'', ep_project = ''p'', ep_domain = ''research'', ep_type = ''fact'', ep_title = ''t'',
     ep_goal = ''g'', ep_signature = ''s'', ep_scope = [], ep_tags = [''x''], ep_metadata = [], ep_content = None,
     ep_confidence = 1 / 2, ep_version = 1, ep_root = None, ep_status = SActive, ep_feedback = 0,
     ep_superseded_by = None, ep_created = 5, ep_updated = 6\<rparr>"

definition sample_x_db :: mem_db where
  "sample_x_db = empty_db\<lparr>episodes := [sample_x_episode],
     attempts := [\<lparr>at_id = ''att_1'', at_episode = ''mem_1'', at_sequence = 1, at_hypothesis = ''h'', at_actions = [],
       at_result = RFailed, at_notes = None, at_metadata = [], at_created = 5\<rparr>]\<rparr>"

definition sample_x_req :: "string \<Rightarrow> req" where
  "sample_x_req p = \<lparr>rq_project = p, rq_now = 9, rq_ids = (\<lambda>_. \<lparr>draw_ms = 0, draw_a = 0, draw_b = 0\<rparr>)\<rparr>"


section \<open>Any import\<close>

text \<open>What an import adds keeps the keys and references of the tables, whatever the payload says.\<close>

definition grown :: "mem_db \<Rightarrow> mem_db \<Rightarrow> bool" where
  "grown D D' \<longleftrightarrow> set (episodes D) \<subseteq> set (episodes D') \<and> set (attempts D) \<subseteq> set (attempts D')
     \<and> set (outcomes D) \<subseteq> set (outcomes D') \<and> set (evidences D) \<subseteq> set (evidences D')
     \<and> patterns D' = patterns D \<and> verifiers D' = verifiers D \<and> members D' = members D \<and> versions D' = versions D
     \<and> holds D' = holds D \<and> audit_logs D' = audit_logs D"

definition tables_ok :: "mem_db \<Rightarrow> bool" where
  "tables_ok D \<longleftrightarrow> keys_ok D \<and> refs_ok D"

definition import_step :: "mem_db \<Rightarrow> string \<Rightarrow> mem_db \<Rightarrow> bool" where
  "import_step D k D' \<longleftrightarrow> tables_ok D' \<and> grown D D' \<and> k \<in> ep_id ` set (episodes D')"

lemma grown_refl: "grown D D" by (simp add: grown_def)

lemma grown_trans: "grown A B \<Longrightarrow> grown B C \<Longrightarrow> grown A C"
  unfolding grown_def by auto

lemma fits_or_Inr [simp]: "fits_or b r = Inr x \<longleftrightarrow> b \<and> r = Inr x"
  by (simp add: fits_or_def)

lemma refs_add_child:
  assumes "refs_ok D" "k \<in> ep_id ` set (episodes D)"
  shows "at_episode a = k \<Longrightarrow> refs_ok (D\<lparr>attempts := attempts D @ [a]\<rparr>)"
    "ev_episode v = k \<Longrightarrow> refs_ok (D\<lparr>evidences := evidences D @ [v]\<rparr>)"
  using assms by (auto simp: refs_ok_def Let_def list_all_iff)

lemma refs_add_outcome:
  assumes "refs_ok D" "k \<in> ep_id ` set (episodes D)" "out_episode u = k"
  shows "refs_ok (D\<lparr>outcomes := outcomes D @ [u]\<rparr>)"
  using assms by (auto simp: refs_ok_def Let_def list_all_iff)

lemma import_attempt_step:
  assumes "import_attempt rq remap k (D, n) x = Inr (D', n')" "import_step D0 k D"
  shows "import_step D0 k D'"
proof -
  obtain i m where i: "child_id ''att_'' rq remap (xa_id x) (\<lambda>k. get_row at_id k (attempts D) \<noteq> None) n = (i, m)"
    by (cases "child_id ''att_'' rq remap (xa_id x) (\<lambda>k. get_row at_id k (attempts D) \<noteq> None) n")
  let ?a = "attempt_row rq i k x"
  have a: "at_episode ?a = k" "(k, at_sequence ?a) \<notin> set (map (\<lambda>a. (at_episode a, at_sequence a)) (attempts D))"
      "at_id ?a \<notin> at_id ` set (attempts D)" "D' = D\<lparr>attempts := attempts D @ [?a]\<rparr>"
    using assms(1) i
    by (simp_all add: import_attempt_def Let_def bindE_Inr_iff insert_row_Inr_iff attempt_row_def split: if_splits)
  have ok: "keys_ok D" "refs_ok D" "grown D0 D" "k \<in> ep_id ` set (episodes D)"
    using assms(2) by (simp_all add: import_step_def tables_ok_def)
  have "keys_ok D'" using ok(1) a(1-3) by (auto simp: keys_ok_def a(4))
  moreover have "refs_ok D'" using refs_add_child(1) [OF ok(2,4) a(1)] by (simp add: a(4))
  moreover have "grown D0 D'" using ok(3) by (auto simp: grown_def a(4))
  ultimately show ?thesis using ok(4) by (simp add: import_step_def tables_ok_def a(4))
qed

lemma import_evidence_step:
  assumes "import_evidence rq remap k (D, n) x = Inr (D', n')" "import_step D0 k D"
  shows "import_step D0 k D'"
proof -
  obtain i m where i: "child_id ''ev_'' rq remap (xv_id x) (\<lambda>k. get_row ev_id k (evidences D) \<noteq> None) n = (i, m)"
    by (cases "child_id ''ev_'' rq remap (xv_id x) (\<lambda>k. get_row ev_id k (evidences D) \<noteq> None) n")
  let ?v = "evidence_import_row i k x"
  have v: "ev_episode ?v = k" "D' = D\<lparr>evidences := evidences D @ [?v]\<rparr>"
    using assms(1) i by (simp_all add: import_evidence_def Let_def bindE_Inr_iff insert_row_Inr_iff evidence_import_row_def)
  have ok: "keys_ok D" "refs_ok D" "grown D0 D" "k \<in> ep_id ` set (episodes D)"
    using assms(2) by (simp_all add: import_step_def tables_ok_def)
  have "keys_ok D'" using ok(1) by (simp add: keys_ok_def v(2))
  moreover have "refs_ok D'" using refs_add_child(2) [OF ok(2,4) v(1)] by (simp add: v(2))
  moreover have "grown D0 D'" using ok(3) by (auto simp: grown_def v(2))
  ultimately show ?thesis using ok(4) by (simp add: import_step_def tables_ok_def v(2))
qed

lemma import_outcome_step:
  assumes "import_outcome rq remap k (D, n) xo = Inr (D', n')" "import_step D0 k D"
  shows "import_step D0 k D'"
proof (cases "xo = None \<or> (\<exists>x. xo = Some x \<and> empty_outcome x)")
  case True
  then have "D' = D" using assms(1) by (auto simp: import_outcome_def)
  then show ?thesis using assms(2) by simp
next
  case False
  then obtain x where x: "xo = Some x" "\<not> empty_outcome x" by auto
  obtain i m where i: "child_id ''out_'' rq remap (xo_id x) (\<lambda>k. get_row out_id k (outcomes D) \<noteq> None) n = (i, m)"
    by (cases "child_id ''out_'' rq remap (xo_id x) (\<lambda>k. get_row out_id k (outcomes D) \<noteq> None) n")
  let ?u = "outcome_row rq i k x"
  have u: "out_episode ?u = k" "k \<notin> out_episode ` set (outcomes D)"
      "out_id ?u \<notin> out_id ` set (outcomes D)" "D' = D\<lparr>outcomes := outcomes D @ [?u]\<rparr>"
    using assms(1) x i
    by (simp_all add: import_outcome_def Let_def bindE_Inr_iff insert_row_Inr_iff outcome_row_def split: if_splits)
  have ok: "keys_ok D" "refs_ok D" "grown D0 D" "k \<in> ep_id ` set (episodes D)"
    using assms(2) by (simp_all add: import_step_def tables_ok_def)
  have "keys_ok D'" using ok(1) u(1-3) by (auto simp: keys_ok_def u(4))
  moreover have "refs_ok D'" using refs_add_outcome [OF ok(2,4) u(1)] by (simp add: u(4))
  moreover have "grown D0 D'" using ok(3) by (auto simp: grown_def u(4))
  ultimately show ?thesis using ok(4) by (simp add: import_step_def tables_ok_def u(4))
qed

lemma foldR_step:
  assumes "\<And>D n x D' n'. f (D, n) x = Inr (D', n') \<Longrightarrow> P D \<Longrightarrow> P D'"
  shows "foldR f (D, n) xs = Inr (D', n') \<Longrightarrow> P D \<Longrightarrow> P (D' :: mem_db)"
proof (induction xs arbitrary: D n)
  case (Cons x xs)
  then obtain D1 n1 where "f (D, n) x = Inr (D1, n1)" "foldR f (D1, n1) xs = Inr (D', n')"
    by (auto simp: bindE_Inr_iff)
  then show ?case using Cons.IH assms Cons.prems(2) by blast
qed simp

lemma insert_episode_tables:
  assumes "tables_ok D" "ep_id e \<notin> ep_id ` set (episodes D)" "ep_superseded_by e = None" "ep_root e = None"
  shows "tables_ok (D\<lparr>episodes := episodes D @ [e]\<rparr>)"
proof -
  have "opt_ref (map ep_id (episodes D @ [e])) x" if "opt_ref (map ep_id (episodes D)) x" for x
    using that by (auto simp: opt_ref_def split: option.splits)
  moreover have "opt_ref ks None" for ks by (simp add: opt_ref_def)
  ultimately show ?thesis
    using assms by (auto simp: tables_ok_def keys_ok_def refs_ok_def Let_def list_all_iff)
qed

lemma import_episode_step:
  assumes "import_episode rq ((D, n), c) x = Inr ((D', n'), c')" "tables_ok D"
  shows "tables_ok D' \<and> grown D D' \<and> length (episodes D') + c = length (episodes D) + c'"
proof (cases "episode_target rq D n x")
  case None
  then show ?thesis using assms by (simp add: import_episode_def grown_refl)
next
  case (Some t)
  obtain k remap m where t: "t = (k, remap, m)" by (cases t)
  let ?ep = "imported_episode rq k x"
  have eq: "ep_id ?ep = k" "ep_superseded_by ?ep = None" "ep_root ?ep = None" by (simp_all add: imported_episode_def)
  let ?D1 = "D\<lparr>episodes := episodes D @ [?ep]\<rparr>"
  obtain D2 n2 D3 n3 where s: "k \<notin> ep_id ` set (episodes D)"
      "foldR (import_attempt rq remap k) (?D1, m) (xe_attempts x) = Inr (D2, n2)"
      "import_outcome rq remap k (D2, n2) (xe_outcome x) = Inr (D3, n3)"
      "foldR (import_evidence rq remap k) (D3, n3) (xe_evidence x) = Inr (D', n')" "c' = Suc c"
    using assms(1) Some t by (auto simp: import_episode_def Let_def bindE_Inr_iff insert_row_Inr_iff eq)
  have 1: "import_step ?D1 k ?D1"
    using insert_episode_tables [OF assms(2), of ?ep] s(1) by (simp add: import_step_def grown_refl eq)
  have 2: "import_step ?D1 k D2"
    by (rule foldR_step [where P = "import_step ?D1 k", OF _ s(2) 1]) (rule import_attempt_step)
  have 3: "import_step ?D1 k D3" using import_outcome_step [OF s(3) 2] .
  have 4: "import_step ?D1 k D'"
    by (rule foldR_step [where P = "import_step ?D1 k", OF _ s(4) 3]) (rule import_evidence_step)
  have a: "episodes (fst st') = episodes (fst st)" if "foldR (import_attempt rq remap k) st ys = Inr st'" for ys st st'
    using that
  proof (induction ys arbitrary: st)
    case (Cons y ys)
    then show ?case by (cases st) (auto simp: bindE_Inr_iff import_attempt_def Let_def split: if_splits prod.splits)
  qed simp
  have v: "episodes (fst st') = episodes (fst st)" if "foldR (import_evidence rq remap k) st ys = Inr st'" for ys st st'
    using that
  proof (induction ys arbitrary: st)
    case (Cons y ys)
    then show ?case by (cases st) (auto simp: bindE_Inr_iff import_evidence_def Let_def split: prod.splits)
  qed simp
  have o': "episodes D3 = episodes D2"
    using s(3) by (auto simp: import_outcome_def Let_def bindE_Inr_iff split: option.splits if_splits prod.splits)
  have "episodes D' = episodes D @ [?ep]" using a [OF s(2)] v [OF s(4)] o' by simp
  moreover have "grown D ?D1" by (auto simp: grown_def)
  ultimately show ?thesis
    using 4 s(5) grown_trans by (auto simp: import_step_def)
qed

lemma import_episodes_step:
  assumes "foldR (import_episode rq) ((D, n), c) xs = Inr ((D', n'), c')" "tables_ok D"
  shows "tables_ok D' \<and> grown D D' \<and> length (episodes D') + c = length (episodes D) + c'"
  using assms
proof (induction xs arbitrary: D n c)
  case Nil
  then show ?case by (simp add: grown_refl)
next
  case (Cons x xs)
  obtain st where st: "import_episode rq ((D, n), c) x = Inr st" "foldR (import_episode rq) st xs = Inr ((D', n'), c')"
    using Cons.prems(1) by (auto simp: bindE_Inr_iff)
  obtain D1 n1 c1 where p: "st = ((D1, n1), c1)" by (cases st) auto
  note one = import_episode_step [OF st(1) [unfolded p] Cons.prems(2)]
  have "tables_ok D' \<and> grown D1 D' \<and> length (episodes D') + c1 = length (episodes D1) + c'"
    using Cons.IH [OF st(2) [unfolded p]] one by simp
  then show ?case using one grown_trans by auto
qed

text \<open>An import of any payload keeps the keys, the uniqueness constraints and the references of
  the memory tables, removes or changes no row that was there, adds exactly the episodes it counts,
  and leaves patterns, verifiers, versions, legal holds and the audit log alone; if a single row is
  refused nothing is imported.\<close>

theorem import_keeps_tables:
  assumes "tables_ok D" "import_project rq D data = Inr (c, D')"
  shows "tables_ok D' \<and> grown D D' \<and> length (episodes D') = length (episodes D) + c"
proof (cases data)
  case (Episodes xs)
  obtain st where st: "foldR (import_episode rq) ((D, 0), 0) xs = Inr st" "(\<lambda>((D', n), k). Inr (k, D')) st = (Inr (c, D') :: (nat \<times> mem_db) res)"
    using assms(2) by (auto simp: import_project_def Episodes bindE_Inr_iff)
  obtain D1 n1 c1 where "st = ((D1, n1), c1)" by (cases st) auto
  then have "foldR (import_episode rq) ((D, 0), 0) xs = Inr ((D', n1), c)" using st by simp
  then show ?thesis using import_episodes_step assms(1) by fastforce
qed (use assms in \<open>auto simp: import_project_def grown_refl\<close>)

definition blank_x_episode :: x_episode where
  "blank_x_episode = \<lparr>xe_id = None, xe_domain = None, xe_type = None, xe_title = None, xe_goal = None,
     xe_signature = None, xe_scope = None, xe_tags = None, xe_metadata = None, xe_content = None,
     xe_confidence = Some 5, xe_version = None, xe_status = None, xe_feedback = None, xe_created = None,
     xe_updated = None, xe_attempts = [], xe_outcome = None, xe_evidence = []\<rparr>"

lemma blank_import:
  "import_project (sample_x_req ''p'') empty_db (Episodes [blank_x_episode])
    = Inr (1, empty_db\<lparr>episodes := [imported_episode (sample_x_req ''p'') (memory_id \<lparr>draw_ms = 0, draw_a = 0, draw_b = 0\<rparr>) blank_x_episode]\<rparr>)"
proof -
  let ?k = "memory_id \<lparr>draw_ms = 0, draw_a = 0, draw_b = 0\<rparr>"
  have "episode_fits (imported_episode (sample_x_req ''p'') ?k blank_x_episode)"
    by (simp add: episode_fits_def imported_episode_def blank_x_episode_def Domain_def MemoryType_def)
  then show ?thesis
    by (simp add: import_project_def import_episode_def episode_target_def id_given_def blank_x_episode_def
        sample_x_req_def fits_or_def insert_row_def imported_episode_def import_outcome_def empty_db_def)
qed

theorem import_keeps_tables_witness:
  "\<exists>D'. import_project (sample_x_req ''p'') empty_db (Episodes [blank_x_episode]) = Inr (1, D')
    \<and> tables_ok D' \<and> length (episodes D') = 1"
proof -
  have "tables_ok empty_db" using mem_ok_empty by (simp add: tables_ok_def mem_ok_def)
  then show ?thesis using import_keeps_tables [OF _ blank_import] blank_import by (fastforce simp: empty_db_def)
qed

text \<open>What the API would refuse is imported: a confidence above one breaks the invariant of the
  memory service.\<close>

lemma import_breaks_confidence:
  "\<exists>D'. import_project (sample_x_req ''p'') empty_db (Episodes [blank_x_episode]) = Inr (1, D') \<and> \<not> mem_ok D'"
  by (intro exI conjI, rule blank_import)
     (simp add: mem_ok_def values_ok_def episode_ok_def imported_episode_def blank_x_episode_def)

end
