(* ===== verification/GraphStore.thy ===== *)
theory GraphStore
  imports Retrieval
begin

text \<open>
  The traversal of \<open>app/graph/store.py\<close>: from seed names and seed chunks over current, supported
  relations of one dataset, one or two hops far, to the evidence a graph search answers with.  The
  theorems say that the traversal never fails, stays in its scope and within its bounds, and that
  every path it reports is a walk in the graph that starts at a seed.
\<close>

section \<open>Queries\<close>

text \<open>The filters on an entity, on a relation and on a piece of evidence.\<close>

definition current_entity :: "string \<Rightarrow> string \<Rightarrow> gentity \<Rightarrow> bool" where
  "current_entity p d e \<longleftrightarrow> en_project e = p \<and> en_dataset e = d \<and> en_until e = None \<and> en_superseded_by e = None"

definition current_relation :: "string \<Rightarrow> string \<Rightarrow> grelation \<Rightarrow> bool" where
  "current_relation p d r \<longleftrightarrow> rl_project r = p \<and> rl_dataset r = d \<and> rl_until r = None \<and> rl_superseded_by r = None"

definition current_evidence_subject :: "graph_db \<Rightarrow> string \<Rightarrow> string \<Rightarrow> gevidence \<Rightarrow> bool" where
  "current_evidence_subject db p d v \<longleftrightarrow>
     (\<exists>e\<in>set (g_entities db). gv_entity v = Some (en_id e) \<and> current_entity p d e)
     \<or> (\<exists>r\<in>set (g_relations db). gv_relation v = Some (rl_id r) \<and> current_relation p d r)"

definition supported_entity_ids :: "graph_db \<Rightarrow> string \<Rightarrow> string \<Rightarrow> string list \<Rightarrow> string list" where
  "supported_entity_ids db p d ids =
     remdups (map en_id (filter (\<lambda>e. en_id e \<in> set ids \<and> current_entity p d e \<and> supported_entity db e)
       (g_entities db)))"

definition live_relation :: "graph_db \<Rightarrow> string \<Rightarrow> string \<Rightarrow> grelation \<Rightarrow> bool" where
  "live_relation db p d r \<longleftrightarrow> current_relation p d r \<and> supported_relation db r"

text \<open>\<open>(x,) if x else ()\<close> for an optional column.\<close>

definition opt_truthy :: "string option \<Rightarrow> string list" where
  "opt_truthy x = (case x of None \<Rightarrow> [] | Some s \<Rightarrow> if s = [] then [] else [s])"

section \<open>Seeds\<close>

definition named_seeds :: "graph_db \<Rightarrow> string \<Rightarrow> string \<Rightarrow> string list \<Rightarrow> string list" where
  "named_seeds db p d names =
     map en_id (filter (\<lambda>e. en_name e \<in> set names \<and> current_entity p d e \<and> supported_entity db e) (g_entities db))"

definition seed_evidence :: "graph_db \<Rightarrow> string \<Rightarrow> string \<Rightarrow> string list \<Rightarrow> gevidence list" where
  "seed_evidence db p d chunks =
     filter (\<lambda>v. gv_project v = p \<and> gv_dataset v = d \<and> gv_chunk v \<in> set chunks \<and> current_evidence_subject db p d v)
       (g_evidence db)"

definition chunk_seeds :: "graph_db \<Rightarrow> string \<Rightarrow> string \<Rightarrow> string list \<Rightarrow> string list" where
  "chunk_seeds db p d chunks =
     (let found = seed_evidence db p d chunks;
          relations = concat (map (\<lambda>v. opt_truthy (gv_relation v)) found) in
      concat (map (\<lambda>v. opt_truthy (gv_entity v)) found)
      @ concat (map (\<lambda>r. [rl_source r, rl_target r])
          (filter (\<lambda>r. rl_id r \<in> set relations \<and> live_relation db p d r) (g_relations db))))"

definition traversal_seeds :: "graph_db \<Rightarrow> string \<Rightarrow> string \<Rightarrow> string list \<Rightarrow> string list \<Rightarrow> string list" where
  "traversal_seeds db p d chunks names =
     supported_entity_ids db p d (named_seeds db p d names @ chunk_seeds db p d chunks)"

section \<open>Hops\<close>

record walker =
  wk_paths :: "(string \<times> string list) list"
  wk_next :: "string list"
  wk_relations :: "string list"

definition frontier_relations :: "graph_db \<Rightarrow> string \<Rightarrow> string \<Rightarrow> nat \<Rightarrow> string list \<Rightarrow> grelation list" where
  "frontier_relations db p d fanout frontier =
     limit (length frontier * fanout)
       (sort_key (\<lambda>r. (- rl_confidence r, rl_id r))
         (filter (\<lambda>r. live_relation db p d r \<and> (rl_source r \<in> set frontier \<or> rl_target r \<in> set frontier))
           (g_relations db)))"

text \<open>One relation of a hop: the matched endpoint is the one in the frontier, the source first.\<close>

definition hop_step :: "string list \<Rightarrow> string list \<Rightarrow> grelation \<Rightarrow> walker \<Rightarrow> walker res" where
  "hop_step frontier endpoints r w =
     (let matched = (if rl_source r \<in> set frontier then rl_source r else rl_target r);
          entity = (if matched = rl_source r then rl_target r else rl_source r) in
      if entity \<notin> set endpoints then Inr w
      else
        let w1 = w\<lparr>wk_relations := List.insert (rl_id r) (wk_relations w)\<rparr> in
        if map_of (wk_paths w) entity \<noteq> None then Inr w1
        else case map_of (wk_paths w) matched of
            None \<Rightarrow> Inl KeyError
          | Some path \<Rightarrow> Inr (w1\<lparr>wk_paths := AList.update entity (path @ [rl_id r, entity]) (wk_paths w),
                                wk_next := List.insert entity (wk_next w)\<rparr>))"

definition hop :: "graph_db \<Rightarrow> string \<Rightarrow> string \<Rightarrow> nat \<Rightarrow> walker \<Rightarrow> walker res" where
  "hop db p d fanout w =
     (let frontier = wk_next w in
      if frontier = [] then Inr w
      else
        let relations = frontier_relations db p d fanout frontier;
            endpoints = supported_entity_ids db p d (concat (map (\<lambda>r. [rl_source r, rl_target r]) relations)) in
        foldE (hop_step frontier endpoints) relations (w\<lparr>wk_next := []\<rparr>))"

definition start_walker :: "string list \<Rightarrow> walker" where
  "start_walker seeds =
     \<lparr>wk_paths = map (\<lambda>k. (k, [k])) seeds, wk_next = seeds, wk_relations = []\<rparr>"

definition explore :: "graph_db \<Rightarrow> string \<Rightarrow> string \<Rightarrow> nat \<Rightarrow> nat \<Rightarrow> string list \<Rightarrow> walker res" where
  "explore db p d max_depth fanout seeds =
     foldE (\<lambda>_ w. hop db p d fanout w) [0..<max_depth] (start_walker seeds)"

section \<open>The answer\<close>

text \<open>\<open>xs or ["__none__"]\<close>, a list no column is meant to hold when there is nothing to ask for.\<close>

definition or_none :: "string list \<Rightarrow> string list" where
  "or_none xs = (if xs = [] then [''__none__''] else xs)"

definition cited :: "string list \<Rightarrow> walker \<Rightarrow> gevidence \<Rightarrow> bool" where
  "cited chunks w v \<longleftrightarrow>
     gv_chunk v \<in> set (or_none chunks)
     \<or> (case gv_entity v of None \<Rightarrow> False | Some k \<Rightarrow> k \<in> set (or_none (map fst (wk_paths w))))
     \<or> (case gv_relation v of None \<Rightarrow> False | Some k \<Rightarrow> k \<in> set (or_none (wk_relations w)))"

definition answer_rows :: "graph_db \<Rightarrow> string \<Rightarrow> string \<Rightarrow> string list \<Rightarrow> nat \<Rightarrow> walker \<Rightarrow> gevidence list" where
  "answer_rows db p d chunks seed_limit w =
     limit seed_limit
       (sort_key (\<lambda>v. (- gv_confidence v, gv_id v))
         (filter (\<lambda>v. gv_project v = p \<and> gv_dataset v = d \<and> current_evidence_subject db p d v \<and> cited chunks w v)
           (g_evidence db)))"

definition path_evidence_of :: "walker \<Rightarrow> gevidence \<Rightarrow> path_evidence" where
  "path_evidence_of w v =
     \<lparr>pe_chunk = gv_chunk v, pe_score = gv_confidence v,
      pe_path = (case map_of (wk_paths w) (case gv_entity v of None \<Rightarrow> [] | Some k \<Rightarrow> k) of
                   None \<Rightarrow> [gv_chunk v] | Some path \<Rightarrow> path),
      pe_entities = opt_truthy (gv_entity v), pe_relations = opt_truthy (gv_relation v), pe_evidence = [gv_chunk v]\<rparr>"

definition traverse :: "graph_db \<Rightarrow> string \<Rightarrow> string \<Rightarrow> string list \<Rightarrow> string list \<Rightarrow> nat \<Rightarrow> int \<Rightarrow> int
    \<Rightarrow> path_evidence list res" where
  "traverse db p d chunks names max_depth fanout seed_limit =
     (if max_depth \<notin> {1, 2} then Inl (ValueError ''graph depth must be 1 or 2'')
      else if fanout < 1 \<or> seed_limit < 1 then Inr []
      else
        bindE (explore db p d max_depth (nat fanout) (traversal_seeds db p d chunks names)) (\<lambda>w.
          Inr (map (path_evidence_of w) (answer_rows db p d chunks (nat seed_limit) w))))"

section \<open>Walks\<close>

text \<open>A walk alternates entities and relation ids; each relation joins its neighbours.\<close>

definition live_entity :: "graph_db \<Rightarrow> string \<Rightarrow> string \<Rightarrow> string \<Rightarrow> bool" where
  "live_entity db p d k \<longleftrightarrow> list_ex (\<lambda>e. en_id e = k \<and> current_entity p d e \<and> supported_entity db e) (g_entities db)"

definition relation_joins :: "graph_db \<Rightarrow> string \<Rightarrow> string \<Rightarrow> string \<Rightarrow> string \<Rightarrow> string \<Rightarrow> bool" where
  "relation_joins db p d a k b \<longleftrightarrow> list_ex (\<lambda>r. rl_id r = k \<and> live_relation db p d r
     \<and> (rl_source r = a \<and> rl_target r = b \<or> rl_target r = a \<and> rl_source r = b)) (g_relations db)"

fun graph_walk :: "graph_db \<Rightarrow> string \<Rightarrow> string \<Rightarrow> string list \<Rightarrow> bool" where
  "graph_walk db p d [e] = live_entity db p d e"
| "graph_walk db p d (a # k # b # rest) =
     (live_entity db p d a \<and> relation_joins db p d a k b \<and> graph_walk db p d (b # rest))"
| "graph_walk db p d _ = False"

lemma graph_walk_extend:
  "graph_walk db p d xs \<Longrightarrow> relation_joins db p d (last xs) k b \<Longrightarrow> live_entity db p d b
   \<Longrightarrow> graph_walk db p d (xs @ [k, b])"
  by (induction db p d xs rule: graph_walk.induct) auto

lemma set_supported_entity_ids:
  "k \<in> set (supported_entity_ids db p d ids) \<longleftrightarrow> k \<in> set ids \<and> live_entity db p d k"
  by (auto simp: supported_entity_ids_def live_entity_def list_ex_iff)

section \<open>The traversal follows the graph\<close>

text \<open>What holds of a walker after \<open>n\<close> hops, and of the frontier while a hop runs.\<close>

definition paths_ok :: "graph_db \<Rightarrow> string \<Rightarrow> string \<Rightarrow> string list \<Rightarrow> nat \<Rightarrow> walker \<Rightarrow> bool" where
  "paths_ok db p d seeds n w \<longleftrightarrow> (\<forall>k path. map_of (wk_paths w) k = Some path \<longrightarrow>
     graph_walk db p d path \<and> hd path \<in> set seeds \<and> last path = k \<and> length path \<le> 2 * n + 1)"

definition frontier_ok :: "nat \<Rightarrow> string list \<Rightarrow> walker \<Rightarrow> bool" where
  "frontier_ok n frontier w \<longleftrightarrow>
     (\<forall>k\<in>set frontier. \<exists>path. map_of (wk_paths w) k = Some path \<and> length path \<le> 2 * n + 1)"

lemma paths_okD:
  assumes "paths_ok db p d seeds n w" "map_of (wk_paths w) k = Some path"
  shows "graph_walk db p d path" "hd path \<in> set seeds" "last path = k" "length path \<le> 2 * n + 1"
  using assms by (auto simp: paths_ok_def)

lemma frontier_okE:
  assumes "frontier_ok n frontier w" "k \<in> set frontier"
  obtains path where "map_of (wk_paths w) k = Some path" "length path \<le> 2 * n + 1"
  using assms by (auto simp: frontier_ok_def)

lemma paths_ok_mono: "paths_ok db p d seeds n w \<Longrightarrow> n \<le> m \<Longrightarrow> paths_ok db p d seeds m w"
  unfolding paths_ok_def by (meson add_le_mono1 mult_le_mono2 order_trans)

lemma graph_walk_nonempty: "graph_walk db p d xs \<Longrightarrow> xs \<noteq> []"
  by (cases xs) auto

lemma paths_ok_extend:
  assumes ok: "paths_ok db p d seeds (Suc n) w" and path: "map_of (wk_paths w) a = Some path" "length path \<le> 2 * n + 1"
    and step: "relation_joins db p d a k b" "live_entity db p d b"
  shows "paths_ok db p d seeds (Suc n) (w\<lparr>wk_relations := rs, wk_paths := AList.update b (path @ [k, b]) (wk_paths w), wk_next := nx\<rparr>)"
proof -
  note P = paths_okD [OF ok path(1)]
  have "graph_walk db p d (path @ [k, b])" by (rule graph_walk_extend [OF P(1)]) (use P(3) step in simp_all)
  moreover have "hd (path @ [k, b]) = hd path" using graph_walk_nonempty [OF P(1)] by simp
  ultimately show ?thesis using ok P(2) path(2) by (auto simp: paths_ok_def)
qed

lemma hop_step_ok:
  assumes ok: "paths_ok db p d seeds (Suc n) w" "frontier_ok n frontier w" "frontier_ok (Suc n) (wk_next w) w"
    and r: "r \<in> set (g_relations db)" "live_relation db p d r" "rl_source r \<in> set frontier \<or> rl_target r \<in> set frontier"
    and ends: "\<And>k. k \<in> set endpoints \<Longrightarrow> live_entity db p d k"
  shows "\<exists>w'. hop_step frontier endpoints r w = Inr w' \<and> paths_ok db p d seeds (Suc n) w'
    \<and> frontier_ok n frontier w' \<and> frontier_ok (Suc n) (wk_next w') w'"
proof -
  define a where "a = (if rl_source r \<in> set frontier then rl_source r else rl_target r)"
  define b where "b = (if a = rl_source r then rl_target r else rl_source r)"
  have a: "a \<in> set frontier" using r(3) by (auto simp: a_def)
  have ab: "relation_joins db p d a (rl_id r) b"
    using r(1,2) by (auto simp: relation_joins_def list_ex_iff a_def b_def)
  obtain path where path: "map_of (wk_paths w) a = Some path" "length path \<le> 2 * n + 1"
    by (rule frontier_okE [OF ok(2) a])
  define w1 where "w1 = w\<lparr>wk_relations := List.insert (rl_id r) (wk_relations w)\<rparr>"
  define w2 where "w2 = w\<lparr>wk_relations := List.insert (rl_id r) (wk_relations w),
     wk_paths := AList.update b (path @ [rl_id r, b]) (wk_paths w), wk_next := List.insert b (wk_next w)\<rparr>"
  have w1: "paths_ok db p d seeds (Suc n) w1 \<and> frontier_ok n frontier w1 \<and> frontier_ok (Suc n) (wk_next w1) w1"
    using ok by (simp add: w1_def paths_ok_def frontier_ok_def)
  have eq: "hop_step frontier endpoints r w =
     (if b \<notin> set endpoints then Inr w else if map_of (wk_paths w) b \<noteq> None then Inr w1 else Inr w2)"
    unfolding hop_step_def a_def [symmetric] b_def [symmetric] Let_def w1_def w2_def using path(1) by simp
  consider (out) "b \<notin> set endpoints" | (seen) "b \<in> set endpoints" "map_of (wk_paths w) b \<noteq> None"
    | (new) "b \<in> set endpoints" "map_of (wk_paths w) b = None" by blast
  then show ?thesis
  proof cases
    case out then show ?thesis using ok eq by simp
  next
    case seen then show ?thesis using w1 eq by simp
  next
    case new
    have "paths_ok db p d seeds (Suc n) w2"
      unfolding w2_def by (rule paths_ok_extend [OF ok(1) path ab ends [OF new(1)]])
    moreover have "frontier_ok n frontier w2"
      using ok(2) new(2) by (force simp: frontier_ok_def w2_def)
    moreover have "frontier_ok (Suc n) (wk_next w2) w2"
      using ok(3) new(2) path(2) by (force simp: frontier_ok_def w2_def)
    ultimately show ?thesis using eq new by simp
  qed
qed

lemma hop_ok:
  assumes "paths_ok db p d seeds n w" "frontier_ok n (wk_next w) w"
  shows "\<exists>w'. hop db p d fanout w = Inr w' \<and> paths_ok db p d seeds (Suc n) w' \<and> frontier_ok (Suc n) (wk_next w') w'"
proof (cases "wk_next w = []")
  case True
  then show ?thesis using assms paths_ok_mono [OF assms(1), of "Suc n"] by (simp add: hop_def frontier_ok_def)
next
  case False
  define frontier where "frontier = wk_next w"
  define rels where "rels = frontier_relations db p d fanout frontier"
  define ends where "ends = supported_entity_ids db p d (concat (map (\<lambda>r. [rl_source r, rl_target r]) rels))"
  let ?I = "\<lambda>u. paths_ok db p d seeds (Suc n) u \<and> frontier_ok n frontier u \<and> frontier_ok (Suc n) (wk_next u) u"
  have "\<exists>w'. foldE (hop_step frontier ends) rels (w\<lparr>wk_next := []\<rparr>) = Inr w' \<and> ?I w'"
  proof (rule foldE_total)
    show "?I (w\<lparr>wk_next := []\<rparr>)"
      using assms paths_ok_mono [OF assms(1), of "Suc n"] by (simp add: paths_ok_def frontier_ok_def frontier_def)
  next
    fix r u assume r: "r \<in> set rels" and u: "?I u"
    have "r \<in> set (g_relations db) \<and> live_relation db p d r \<and> (rl_source r \<in> set frontier \<or> rl_target r \<in> set frontier)"
      using r set_limit by (fastforce simp: rels_def frontier_relations_def)
    then show "\<exists>t. hop_step frontier ends r u = Inr t \<and> ?I t"
      using u by (intro hop_step_ok) (auto simp: ends_def set_supported_entity_ids)
  qed
  then show ?thesis using False by (auto simp: hop_def Let_def frontier_def rels_def ends_def)
qed

lemma hops_ok:
  assumes "paths_ok db p d seeds n w" "frontier_ok n (wk_next w) w"
  shows "\<exists>w'. foldE (\<lambda>_ w. hop db p d fanout w) xs w = Inr w' \<and> paths_ok db p d seeds (n + length xs) w'"
  using assms
proof (induction xs arbitrary: n w)
  case (Cons x xs)
  obtain u where u: "hop db p d fanout w = Inr u" "paths_ok db p d seeds (Suc n) u" "frontier_ok (Suc n) (wk_next u) u"
    using hop_ok [OF Cons.prems] by blast
  show ?case using Cons.IH [OF u(2,3)] u(1) by simp
qed simp

lemma map_of_start: "map_of (map (\<lambda>k. (k, [k])) seeds) k = (if k \<in> set seeds then Some [k] else None)"
  by (induction seeds) auto

lemma explore_ok:
  assumes "\<And>k. k \<in> set seeds \<Longrightarrow> live_entity db p d k"
  shows "\<exists>w. explore db p d n fanout seeds = Inr w \<and> paths_ok db p d seeds n w"
proof -
  have start: "paths_ok db p d seeds 0 (start_walker seeds)" "frontier_ok 0 (wk_next (start_walker seeds)) (start_walker seeds)"
    using assms by (auto simp: paths_ok_def frontier_ok_def start_walker_def map_of_start)
  show ?thesis using hops_ok [OF start, of fanout "[0..<n]"] by (simp add: explore_def)
qed

lemma answer_rows_scope:
  assumes "v \<in> set (answer_rows db p d chunks n w)"
  shows "v \<in> set (g_evidence db)" "gv_project v = p" "gv_dataset v = d" "current_evidence_subject db p d v"
    "cited chunks w v"
  using assms set_limit by (fastforce simp: answer_rows_def)+

definition subject_key :: "gevidence \<Rightarrow> string" where
  "subject_key v = (case gv_entity v of None \<Rightarrow> [] | Some k \<Rightarrow> k)"

definition honest_path :: "graph_db \<Rightarrow> string \<Rightarrow> string \<Rightarrow> string list \<Rightarrow> nat \<Rightarrow> gevidence \<Rightarrow> path_evidence \<Rightarrow> bool" where
  "honest_path db p d seeds n v x \<longleftrightarrow> pe_chunk x = gv_chunk v \<and> pe_score x = gv_confidence v
     \<and> (pe_path x = [gv_chunk v]
        \<or> (graph_walk db p d (pe_path x) \<and> hd (pe_path x) \<in> set seeds \<and> last (pe_path x) = subject_key v
           \<and> length (pe_path x) \<le> 2 * n + 1))"

lemma honest_path_of:
  assumes "paths_ok db p d seeds n w"
  shows "honest_path db p d seeds n v (path_evidence_of w v)"
  using paths_okD [OF assms]
  by (auto simp: honest_path_def path_evidence_of_def subject_key_def split: option.split)

section \<open>Properties\<close>

text \<open>C26. With a depth of one or two, a traversal of the graph answers and never raises: at most
  \<open>seed_limit\<close> pieces of evidence, each of the asked project and dataset and about an entity or a
  relation that is current there, and the path given for it is its own chunk or a walk of at most
  \<open>max_depth\<close> supported relations, in that scope, from a seed to the entity it is about.\<close>

theorem traverse_sound:
  assumes "max_depth \<in> {1, 2}"
  shows "\<exists>rows. traverse db p d chunks names max_depth fanout seed_limit = Inr rows
    \<and> length rows \<le> nat seed_limit
    \<and> (\<forall>x\<in>set rows. \<exists>v\<in>set (g_evidence db). gv_project v = p \<and> gv_dataset v = d
        \<and> current_evidence_subject db p d v \<and> honest_path db p d (traversal_seeds db p d chunks names) max_depth v x)"
proof (cases "fanout < 1 \<or> seed_limit < 1")
  case True
  then show ?thesis using assms by (auto simp: traverse_def)
next
  case False
  let ?seeds = "traversal_seeds db p d chunks names"
  have "\<And>k. k \<in> set ?seeds \<Longrightarrow> live_entity db p d k"
    by (simp add: traversal_seeds_def set_supported_entity_ids)
  then obtain w where w: "explore db p d max_depth (nat fanout) ?seeds = Inr w" "paths_ok db p d ?seeds max_depth w"
    using explore_ok by meson
  let ?rows = "answer_rows db p d chunks (nat seed_limit) w"
  have "traverse db p d chunks names max_depth fanout seed_limit = Inr (map (path_evidence_of w) ?rows)"
    using assms False w(1) by (simp add: traverse_def del: insert_iff)
  moreover have "length ?rows \<le> nat seed_limit" by (simp add: answer_rows_def length_limit)
  moreover have "\<exists>v\<in>set (g_evidence db). gv_project v = p \<and> gv_dataset v = d
      \<and> current_evidence_subject db p d v \<and> honest_path db p d ?seeds max_depth v x"
    if "x \<in> set (map (path_evidence_of w) ?rows)" for x
    using that answer_rows_scope honest_path_of [OF w(2)] by fastforce
  ultimately show ?thesis by auto
qed

definition walk_graph :: graph_db where
  "walk_graph = sample_graph Approved\<lparr>g_evidence :=
     [sample_cite ''v'' ''x'' None (Some ''r''), sample_cite ''w'' ''y'' (Some ''c'') None,
      sample_cite ''u'' ''y'' (Some ''b'') None]\<rparr>"

lemmas walk_graph_defs = walk_graph_def sample_graph_defs

lemma walk_graph_answer:
  "map_sum id (map pe_path) (traverse walk_graph ''p'' ''d'' [] [''a''] 1 5 10) =
     Inr [[''a'', ''r'', ''b''], [''x'']]"
  by code_simp

lemma traverse_sound_witness:
  "\<exists>rows. traverse walk_graph ''p'' ''d'' [] [''a''] 1 5 10 = Inr rows \<and> length rows \<le> nat 10
    \<and> (\<forall>x\<in>set rows. \<exists>v\<in>set (g_evidence walk_graph). gv_project v = ''p'' \<and> gv_dataset v = ''d''
        \<and> current_evidence_subject walk_graph ''p'' ''d'' v
        \<and> honest_path walk_graph ''p'' ''d'' (traversal_seeds walk_graph ''p'' ''d'' [] [''a'']) 1 v x)"
  by (rule traverse_sound) simp

end
