(* ===== verification/Corpus.thy ===== *)
theory Corpus
  imports Dispatch Storage
begin

text \<open>
  The document side of the service: datasets (\<open>app/datasets.py\<close>), the tables a document lives in
  (\<open>app/models.py\<close>) and the retained deletion records (\<open>app/graph/cleanup.py\<close>).

  One record holds the committed tables. The queue of graph jobs is the one of theory Dispatch: it
  is a view of the same tables (\<open>queue_of\<close>). The object store is a record of three functions on a
  state of its own; every call may raise.
\<close>

section \<open>Tables\<close>

datatype dataset_status = DsActive | DsDeleting | DsDeleteFailed

record dataset =
  ds_id :: string
  ds_project :: string
  ds_name :: string
  ds_description :: "string option"
  ds_metadata :: json
  ds_status :: dataset_status
  ds_error :: "string option"
  ds_created :: int

record ijob =
  ij_id :: string
  ij_project :: string
  ij_dataset :: string
  ij_document :: string
  ij_status :: job_status
  ij_stage :: ix_stage
  ij_attempt :: nat
  ij_pipeline :: string
  ij_code :: "string option"
  ij_message :: "string option"
  ij_trace :: string
  ij_updated :: int

record ibox =
  ib_job :: string
  ib_attempts :: nat
  ib_error :: "string option"
  ib_dispatched :: "int option"
  ib_created :: int

record ievent =
  ie_id :: string
  ie_job :: string
  ie_attempt :: nat
  ie_stage :: ix_stage

datatype cleanup_target = CleanDocument | CleanDataset

record cleanup_row =
  cl_id :: string
  cl_project :: string
  cl_dataset :: string
  cl_document :: "string option"
  cl_target :: cleanup_target
  cl_ready :: bool
  cl_completed :: "int option"
  cl_published :: "int option"
  cl_lease :: "int option"
  cl_exec_lease :: "int option"
  cl_next :: "int option"
  cl_dead :: "int option"
  cl_error :: "string option"

record corpus =
  co_datasets :: "dataset list"
  co_graph :: graph_db
  co_jobs :: "ijob list"
  co_boxes :: "ibox list"
  co_events :: "ievent list"
  co_gjobs :: "gjob list"
  co_gboxes :: "gbox list"
  co_workers :: "string list"
  co_cleanups :: "cleanup_row list"

definition queue_of :: "corpus \<Rightarrow> queue_db" where
  "queue_of c = \<lparr>q_documents = g_documents (co_graph c), q_jobs = co_gjobs c, q_outbox = co_gboxes c,
     q_workers = co_workers c\<rparr>"

definition with_queue :: "queue_db \<Rightarrow> corpus \<Rightarrow> corpus" where
  "with_queue q c = c\<lparr>co_graph := (co_graph c)\<lparr>g_documents := q_documents q\<rparr>, co_gjobs := q_jobs q,
     co_gboxes := q_outbox q, co_workers := q_workers q\<rparr>"

definition co_documents :: "corpus \<Rightarrow> document list" where
  "co_documents c = g_documents (co_graph c)"

definition set_document :: "string \<Rightarrow> (document \<Rightarrow> document) \<Rightarrow> corpus \<Rightarrow> corpus" where
  "set_document k f c = c\<lparr>co_graph := (co_graph c)\<lparr>g_documents := upd_row dc_id k f (g_documents (co_graph c))\<rparr>\<rparr>"

definition set_dataset :: "string \<Rightarrow> (dataset \<Rightarrow> dataset) \<Rightarrow> corpus \<Rightarrow> corpus" where
  "set_dataset k f c = c\<lparr>co_datasets := upd_row ds_id k f (co_datasets c)\<rparr>"

definition set_ijob :: "string \<Rightarrow> (ijob \<Rightarrow> ijob) \<Rightarrow> corpus \<Rightarrow> corpus" where
  "set_ijob k f c = c\<lparr>co_jobs := upd_row ij_id k f (co_jobs c)\<rparr>"

definition set_ibox :: "string \<Rightarrow> (ibox \<Rightarrow> ibox) \<Rightarrow> corpus \<Rightarrow> corpus" where
  "set_ibox k f c = c\<lparr>co_boxes := upd_row ib_job k f (co_boxes c)\<rparr>"

text \<open>Deleting indexing jobs deletes their outbox rows and stage events, deleting a document all its
  jobs, chunks and evidence, deleting a dataset everything that names it (\<open>ON DELETE CASCADE\<close>).\<close>

definition drop_ijobs :: "(ijob \<Rightarrow> bool) \<Rightarrow> corpus \<Rightarrow> corpus" where
  "drop_ijobs P c =
     (let gone = map ij_id (filter P (co_jobs c)) in
      c\<lparr>co_jobs := del_rows P (co_jobs c),
        co_boxes := del_rows (\<lambda>b. ib_job b \<in> set gone) (co_boxes c),
        co_events := del_rows (\<lambda>e. ie_job e \<in> set gone) (co_events c)\<rparr>)"

definition drop_document :: "string \<Rightarrow> corpus \<Rightarrow> corpus" where
  "drop_document k c =
     (let q = delete_job_document k (queue_of c) in
      drop_ijobs (\<lambda>j. ij_document j = k)
        (c\<lparr>co_graph := delete_document_row k (co_graph c), co_gjobs := q_jobs q, co_gboxes := q_outbox q\<rparr>))"

definition drop_dataset_graph :: "string \<Rightarrow> graph_db \<Rightarrow> graph_db" where
  "drop_dataset_graph d g =
     (let gone = map en_id (filter (\<lambda>e. en_dataset e = d) (g_entities g));
          g1 = delete_relation_rows (\<lambda>r. rl_dataset r = d)
                 (delete_evidence_rows (\<lambda>v. gv_dataset v = d \<or> gv_entity v \<in> Some ` set gone) g);
          g2 = delete_alias_rows (\<lambda>a. as_dataset a = d \<or> as_entity a \<in> set gone) g1 in
      g2\<lparr>g_merges := del_rows (\<lambda>m. mg_dataset m = d) (g_merges g2),
         g_entities := del_rows (\<lambda>e. en_dataset e = d) (g_entities g2)\<rparr>)"

text \<open>Rows of another dataset that name an entity of this one forbid the deletion (\<open>ON DELETE
  RESTRICT\<close>). The other tables hold the dataset of their document and go with it.\<close>

definition restricted :: "string \<Rightarrow> graph_db \<Rightarrow> bool" where
  "restricted d g \<longleftrightarrow> list_ex (\<lambda>e. en_dataset e = d
     \<and> (list_ex (\<lambda>r. rl_dataset r \<noteq> d \<and> (rl_source r = en_id e \<or> rl_target r = en_id e)) (g_relations g)
        \<or> list_ex (\<lambda>m. mg_dataset m \<noteq> d \<and> (mg_source m = en_id e \<or> mg_target m = en_id e)) (g_merges g)))
     (g_entities g)"

definition drop_dataset :: "string \<Rightarrow> corpus \<Rightarrow> corpus" where
  "drop_dataset d c =
     (let c1 = fold drop_document (map dc_id (filter (\<lambda>x. dc_dataset x = d) (co_documents c))) c in
      c1\<lparr>co_graph := drop_dataset_graph d (co_graph c1),
         co_datasets := del_rows (\<lambda>x. ds_id x = d) (co_datasets c1)\<rparr>)"

section \<open>The object store\<close>


record 's object_store =
  os_upload :: "string \<Rightarrow> bytes \<Rightarrow> string \<Rightarrow> 's \<Rightarrow> 's res"
  os_download :: "string \<Rightarrow> 's \<Rightarrow> bytes res"
  os_delete :: "string \<Rightarrow> 's \<Rightarrow> 's res"

text \<open>What the handlers take from their surroundings: SHA-256 as a hexadecimal text, \<open>str(exc)\<close> and
  the class name of an exception, the clock.\<close>

record corpus_env =
  ce_sha :: "string \<Rightarrow> string"
  ce_str :: "err \<Rightarrow> string"
  ce_type :: "err \<Rightarrow> string"
  ce_now :: int

section \<open>Deletion records\<close>

definition new_cleanup :: "string \<Rightarrow> string \<Rightarrow> string \<Rightarrow> string option \<Rightarrow> cleanup_target \<Rightarrow> cleanup_row" where
  "new_cleanup k p d doc t = \<lparr>cl_id = k, cl_project = p, cl_dataset = d, cl_document = doc, cl_target = t,
     cl_ready = False, cl_completed = None, cl_published = None, cl_lease = None, cl_exec_lease = None,
     cl_next = None, cl_dead = None, cl_error = None\<rparr>"

definition ensure_cleanup :: "cleanup_row \<Rightarrow> corpus \<Rightarrow> corpus" where
  "ensure_cleanup row c =
     (case get_row cl_id (cl_id row) (co_cleanups c) of
        Some _ \<Rightarrow> c | None \<Rightarrow> c\<lparr>co_cleanups := co_cleanups c @ [row]\<rparr>)"

definition document_cleanup_id :: "(string \<Rightarrow> string) \<Rightarrow> document \<Rightarrow> string" where
  "document_cleanup_id sha x = stable_id sha ''graph-cleanup-document'' [dc_project x, dc_dataset x, dc_id x]"

definition create_document_cleanup :: "(string \<Rightarrow> string) \<Rightarrow> document \<Rightarrow> corpus \<Rightarrow> corpus" where
  "create_document_cleanup sha x c =
     ensure_cleanup (new_cleanup (document_cleanup_id sha x) (dc_project x) (dc_dataset x) (Some (dc_id x)) CleanDocument) c"

definition dataset_cleanup_id :: "(string \<Rightarrow> string) \<Rightarrow> dataset \<Rightarrow> string" where
  "dataset_cleanup_id sha x = stable_id sha ''graph-cleanup-dataset'' [ds_project x, ds_id x]"

definition create_dataset_cleanup :: "(string \<Rightarrow> string) \<Rightarrow> dataset \<Rightarrow> corpus \<Rightarrow> corpus" where
  "create_dataset_cleanup sha x c =
     ensure_cleanup (new_cleanup (dataset_cleanup_id sha x) (ds_project x) (ds_id x) None CleanDataset) c"

definition mark_cleanup_ready :: "int \<Rightarrow> string \<Rightarrow> corpus \<Rightarrow> corpus" where
  "mark_cleanup_ready now k c =
     c\<lparr>co_cleanups := upd_row cl_id k (\<lambda>r. r\<lparr>cl_ready := True, cl_completed := Some now, cl_published := None,
         cl_lease := None, cl_exec_lease := None, cl_next := None, cl_dead := None, cl_error := None\<rparr>) (co_cleanups c)\<rparr>"

end
