(* ===== verification/Datasets.thy ===== *)
theory Datasets
  imports Corpus LlmAnswer
begin

text \<open>
  The dataset endpoints of \<open>app/datasets.py\<close>: creation, listing, reading, updating and deletion.
  A handler returns its answer or the exception it ends with, together with the committed state;
  the deletion also threads the state of the object store.
\<close>

section \<open>Requests and views\<close>

record dataset_input =
  di_name :: string
  di_description :: "string option"
  di_metadata :: jobj

text \<open>A field of a patch is absent, null or a value.\<close>

record dataset_patch =
  dp_name :: "string option option"
  dp_description :: "string option option"
  dp_metadata :: "jobj option option"

definition name_ok :: "string \<Rightarrow> bool" where
  "name_ok s \<longleftrightarrow> 1 \<le> length s \<and> length s \<le> 255"

definition description_ok :: "string option \<Rightarrow> bool" where
  "description_ok x = (case x of None \<Rightarrow> True | Some s \<Rightarrow> length s \<le> 5000)"

definition valid_dataset_input :: "dataset_input \<Rightarrow> bool" where
  "valid_dataset_input b \<longleftrightarrow> name_ok (di_name b) \<and> description_ok (di_description b)"

definition valid_dataset_patch :: "dataset_patch \<Rightarrow> bool" where
  "valid_dataset_patch b \<longleftrightarrow> (case dp_name b of Some (Some s) \<Rightarrow> name_ok s | _ \<Rightarrow> True)
     \<and> (case dp_description b of Some x \<Rightarrow> description_ok x | None \<Rightarrow> True)"

record dataset_view =
  dv_id :: string
  dv_project :: string
  dv_name :: string
  dv_description :: "string option"
  dv_metadata :: jobj
  dv_status :: dataset_status
  dv_error :: "string option"

text \<open>The response model validates what it shows: the metadata must be an object.\<close>

definition view :: "dataset \<Rightarrow> dataset_view res" where
  "view x = (case ds_metadata x of
     JObj m \<Rightarrow> Inr \<lparr>dv_id = ds_id x, dv_project = ds_project x, dv_name = ds_name x,
        dv_description = ds_description x, dv_metadata = m, dv_status = ds_status x, dv_error = ds_error x\<rparr>
   | _ \<Rightarrow> Inl (ValueError ''Input should be a valid dictionary''))"

section \<open>Reading\<close>

definition owned :: "corpus \<Rightarrow> string \<Rightarrow> string \<Rightarrow> dataset res" where
  "owned c p dataset_id =
     (case find (\<lambda>x. ds_id x = normalize_dataset_id dataset_id \<and> ds_project x = p) (co_datasets c) of
        None \<Rightarrow> Inl (HTTPException 404 ''dataset not found'')
      | Some x \<Rightarrow> Inr x)"

definition list_datasets :: "corpus \<Rightarrow> string \<Rightarrow> dataset_view list res" where
  "list_datasets c p = map_res view (order_by ds_created (filter (\<lambda>x. ds_project x = p) (co_datasets c)))"

definition get_dataset :: "corpus \<Rightarrow> string \<Rightarrow> string \<Rightarrow> dataset_view res" where
  "get_dataset c p k = bindE (owned c p k) view"

section \<open>Writing\<close>

text \<open>The unique keys of the table: the identifier and the name in the project.\<close>

definition name_taken :: "dataset \<Rightarrow> dataset list \<Rightarrow> bool" where
  "name_taken x rows \<longleftrightarrow> list_ex (\<lambda>y. ds_id y \<noteq> ds_id x \<and> ds_project y = ds_project x \<and> ds_name y = ds_name x) rows"

definition name_conflict :: err where
  "name_conflict = HTTPException 409 ''dataset name already exists''"

definition new_dataset :: "string \<Rightarrow> string \<Rightarrow> dataset_input \<Rightarrow> int \<Rightarrow> dataset" where
  "new_dataset k p b now = \<lparr>ds_id = k, ds_project = p, ds_name = di_name b, ds_description = di_description b,
     ds_metadata = JObj (di_metadata b), ds_status = DsActive, ds_error = None, ds_created = now\<rparr>"

definition create_dataset :: "draw \<Rightarrow> int \<Rightarrow> string \<Rightarrow> dataset_input \<Rightarrow> corpus \<Rightarrow> dataset_view res \<times> corpus" where
  "create_dataset d now p b c =
     (case new_id ''ds'' d of
        Inl e \<Rightarrow> (Inl e, c)
      | Inr k \<Rightarrow>
          let x = new_dataset k p b now in
          if k \<in> ds_id ` set (co_datasets c) \<or> name_taken x (co_datasets c) then (Inl name_conflict, c)
          else (view x, c\<lparr>co_datasets := co_datasets c @ [x]\<rparr>))"

definition patch_dataset :: "dataset_patch \<Rightarrow> dataset \<Rightarrow> dataset" where
  "patch_dataset b x =
     (let x1 = (case dp_name b of Some (Some s) \<Rightarrow> x\<lparr>ds_name := s\<rparr> | _ \<Rightarrow> x);
          x2 = (case dp_description b of Some y \<Rightarrow> x1\<lparr>ds_description := y\<rparr> | None \<Rightarrow> x1) in
      case dp_metadata b of
        None \<Rightarrow> x2
      | Some None \<Rightarrow> x2\<lparr>ds_metadata := JNull\<rparr>
      | Some (Some m) \<Rightarrow> x2\<lparr>ds_metadata := JObj m\<rparr>)"

text \<open>A null name violates \<open>NOT NULL\<close>, which the handler reports like a taken name. The view is
  built after the commit.\<close>

definition update_dataset :: "string \<Rightarrow> string \<Rightarrow> dataset_patch \<Rightarrow> corpus \<Rightarrow> dataset_view res \<times> corpus" where
  "update_dataset p k b c =
     (case owned c p k of
        Inl e \<Rightarrow> (Inl e, c)
      | Inr x \<Rightarrow>
          let y = patch_dataset b x in
          if dp_name b = Some None \<or> name_taken y (co_datasets c) then (Inl name_conflict, c)
          else (view y, set_dataset (ds_id x) (\<lambda>_. y) c))"

section \<open>Deletion\<close>

definition ignored :: "corpus_env \<Rightarrow> err \<Rightarrow> bool" where
  "ignored env e \<longleftrightarrow> py_contains ''NoSuchKey'' (ce_str env e)"

text \<open>The loop over the documents; on an exception it stops with that exception and the document.\<close>

fun delete_documents :: "corpus_env \<Rightarrow> 's object_store \<Rightarrow> document list \<Rightarrow> corpus \<Rightarrow> 's
    \<Rightarrow> (err \<times> string) option \<times> corpus \<times> 's" where
  "delete_documents env st [] c s = (None, c, s)"
| "delete_documents env st (x # xs) c s =
     (let c1 = set_document (dc_id x) (\<lambda>y. y\<lparr>dc_status := Deleting\<rparr>) c in
      case os_delete st (dc_object_key x) s of
        Inr s1 \<Rightarrow> delete_documents env st xs (drop_document (dc_id x) c1) s1
      | Inl e \<Rightarrow> if ignored env e then delete_documents env st xs (drop_document (dc_id x) c1) s
                 else (Some (e, dc_id x), c1, s))"

definition fail_document :: "string \<Rightarrow> string \<Rightarrow> corpus \<Rightarrow> corpus" where
  "fail_document k message c =
     set_document k (\<lambda>y. if dc_status y = Deleting then y\<lparr>dc_status := DeleteFailed, dc_error := Some (take 2000 message)\<rparr> else y) c"

definition begin_dataset_delete :: "(string \<Rightarrow> string) \<Rightarrow> dataset \<Rightarrow> corpus \<Rightarrow> corpus" where
  "begin_dataset_delete sha x c =
     create_dataset_cleanup sha x (set_dataset (ds_id x) (\<lambda>y. y\<lparr>ds_status := DsDeleting, ds_error := None\<rparr>) c)"

text \<open>The documents are those whose column equals the identifier of the request, as it is.
  \<open>refused\<close> says whether the database refuses the deletion of the dataset row for the order in which
  it runs the cascades: relations and merges of the dataset itself restrict the deletion of its
  entities until they are gone.\<close>

definition dataset_documents :: "string \<Rightarrow> string \<Rightarrow> corpus \<Rightarrow> document list" where
  "dataset_documents p k c = filter (\<lambda>y. dc_project y = p \<and> dc_dataset y = k) (co_documents c)"

definition delete_dataset :: "corpus_env \<Rightarrow> 's object_store \<Rightarrow> bool \<Rightarrow> string \<Rightarrow> string \<Rightarrow> corpus \<Rightarrow> 's
    \<Rightarrow> unit res \<times> corpus \<times> 's" where
  "delete_dataset env st refused p k c s =
     (case owned c p k of
        Inl e \<Rightarrow> (Inl e, c, s)
      | Inr x \<Rightarrow>
          let c1 = begin_dataset_delete (ce_sha env) x c in
          case delete_documents env st (dataset_documents p k c1) c1 s of
            (Some (e, doc), c2, s2) \<Rightarrow>
              (Inl (HTTPException 503 ''dataset object deletion failed''),
               fail_document doc (ce_str env e)
                 (set_dataset (ds_id x) (\<lambda>y. y\<lparr>ds_status := DsDeleteFailed, ds_error := Some (take 2000 (ce_str env e))\<rparr>) c2),
               s2)
          | (None, c2, s2) \<Rightarrow>
              if refused \<or> restricted (ds_id x) (co_graph c2) then (Inl (IntegrityError ''restricted''), c2, s2)
              else (Inr (), drop_dataset (ds_id x) (mark_cleanup_ready (ce_now env) (dataset_cleanup_id (ce_sha env) x) c2), s2))"

end
