(* ===== verification/Ingestion.thy ===== *)
theory Ingestion
  imports Corpus GraphGc Chunking Regex
begin

text \<open>
  Indexing of documents: \<open>app/ingestion.py\<close> and the durable queue around it in
  \<open>app/arq_worker.py\<close>. As in theory Dispatch every database transaction is one definition, so that
  the interleavings of workers, dispatchers and the reconciler are sequences of these steps;
  \<open>run_ingestion\<close> composes them for a run nothing comes in between. The parser and the embedding
  service are parameters.
\<close>

section \<open>Identifiers and messages\<close>

definition PIPELINE_VERSION :: string where
  "PIPELINE_VERSION = ''ingestion-v6:parser-v5-liteparse-page-segments:recursive-v5-page-aware-exact-offsets''"

definition error_words :: rx where
  "error_words = alts [lit_i ''password'', lit_i ''secret'', lit_i ''token'', lit_i ''key'']"

definition error_value :: rx where
  "error_value = Seq (chr (CHR ''='')) (Plus (Cls (\<lambda>c. \<not> py_isspace c)))"

definition sanitized_error :: "corpus_env \<Rightarrow> err \<Rightarrow> string" where
  "sanitized_error env e =
     (let message = take 1000 (squeeze_ws (rx_sub error_words error_value (\<lambda>g. g @ ''=[redacted]'') (ce_str env e)))
      in if message = [] then ce_type env e else message)"

definition job_key :: "(string \<Rightarrow> string) \<Rightarrow> document \<Rightarrow> string" where
  "job_key sha x = deterministic_id sha ''job'' [dc_id x, dc_hash x, PIPELINE_VERSION]"

fun stage_value :: "ix_stage \<Rightarrow> string" where
  "stage_value StQueued = ''queued''"
| "stage_value StReading = ''reading''"
| "stage_value StParsing = ''parsing''"
| "stage_value StChunking = ''chunking''"
| "stage_value StPersisting = ''persisting''"
| "stage_value StComplete = ''complete''"

definition event_key :: "(string \<Rightarrow> string) \<Rightarrow> string \<Rightarrow> nat \<Rightarrow> ix_stage \<Rightarrow> string" where
  "event_key sha k n st = deterministic_id sha ''stage'' [k, dec_str n, stage_value st]"

definition chunk_key :: "(string \<Rightarrow> string) \<Rightarrow> document \<Rightarrow> nat \<Rightarrow> string" where
  "chunk_key sha x i = deterministic_id sha ''chunk'' [dc_id x, dc_hash x, PIPELINE_VERSION, dec_str i]"

definition ijob_of :: "corpus \<Rightarrow> string \<Rightarrow> ijob option" where
  "ijob_of c k = get_row ij_id k (co_jobs c)"

definition ibox_of :: "corpus \<Rightarrow> string \<Rightarrow> ibox option" where
  "ibox_of c k = get_row ib_job k (co_boxes c)"

definition document_of :: "corpus \<Rightarrow> string \<Rightarrow> document option" where
  "document_of c k = get_row dc_id k (co_documents c)"

section \<open>Enqueueing\<close>

definition new_ibox :: "string \<Rightarrow> string option \<Rightarrow> int \<Rightarrow> ibox" where
  "new_ibox k message now =
     \<lparr>ib_job = k, ib_attempts = 0, ib_error = message, ib_dispatched = None, ib_created = now\<rparr>"

text \<open>The outbox row of a job is added, or made due again; its attempts are kept.\<close>

definition put_ibox :: "string \<Rightarrow> string option \<Rightarrow> int \<Rightarrow> corpus \<Rightarrow> corpus" where
  "put_ibox k message now c =
     (case ibox_of c k of
        None \<Rightarrow> c\<lparr>co_boxes := co_boxes c @ [new_ibox k message now]\<rparr>
      | Some _ \<Rightarrow> set_ibox k (\<lambda>b. b\<lparr>ib_dispatched := None, ib_error := message\<rparr>) c)"

definition new_ijob :: "string \<Rightarrow> string \<Rightarrow> document \<Rightarrow> int \<Rightarrow> ijob" where
  "new_ijob k trace x now = \<lparr>ij_id = k, ij_project = dc_project x, ij_dataset = dc_dataset x, ij_document = dc_id x,
     ij_status = JQueued, ij_stage = StQueued, ij_attempt = 0, ij_pipeline = PIPELINE_VERSION, ij_code = None,
     ij_message = None, ij_trace = trace, ij_updated = now\<rparr>"

definition insert_ijob :: "ijob \<Rightarrow> corpus \<Rightarrow> corpus res" where
  "insert_ijob j c =
     (if list_ex (\<lambda>i. ij_document i = ij_document j \<and> ij_pipeline i = ij_pipeline j) (co_jobs c)
      then Inl (IntegrityError ''indexing_jobs'')
      else Inr (c\<lparr>co_jobs := co_jobs c @ [j]\<rparr>))"

definition requeue_document :: "string \<Rightarrow> document \<Rightarrow> int \<Rightarrow> corpus \<Rightarrow> corpus" where
  "requeue_document k x now c =
     set_document (dc_id x) (\<lambda>y. y\<lparr>dc_status := DQueued, dc_error := None\<rparr>) (put_ibox k None now c)"

definition enqueue_document :: "corpus_env \<Rightarrow> draw \<Rightarrow> document \<Rightarrow> corpus \<Rightarrow> corpus res" where
  "enqueue_document env d x c =
     (let k = job_key (ce_sha env) x; now = ce_now env in
      case ijob_of c k of
        None \<Rightarrow> bindE (new_id ''qry'' d) (\<lambda>trace.
                 bindE (insert_ijob (new_ijob k trace x now) c) (\<lambda>c1. Inr (requeue_document k x now c1)))
      | Some j \<Rightarrow>
          if ij_status j = JSucceeded
          then Inr (set_document (dc_id x) (\<lambda>y. y\<lparr>dc_status := Indexed, dc_error := None\<rparr>) c)
          else Inr (requeue_document k x now
                 (if ij_status j = JFailed
                  then set_ijob k (\<lambda>i. i\<lparr>ij_status := JQueued, ij_stage := StQueued, ij_updated := now\<rparr>) c
                  else c)))"

section \<open>A run\<close>

text \<open>Claiming: the first component is the answer of a job that needs no run.\<close>

definition claim_job :: "int \<Rightarrow> string \<Rightarrow> corpus \<Rightarrow> (string option \<times> corpus) res" where
  "claim_job now k c =
     (case ijob_of c k of
        None \<Rightarrow> Inl (ValueError ''indexing job not found'')
      | Some j \<Rightarrow>
          if ij_status j = JSucceeded \<or> ij_status j = JRunning then Inr (Some (ij_document j), c)
          else case document_of c (ij_document j) of
              None \<Rightarrow> Inl (ValueError ''document not found'')
            | Some _ \<Rightarrow> Inr (None, set_ijob k (\<lambda>i. i\<lparr>ij_status := JRunning, ij_attempt := ij_attempt i + 1,
                ij_code := None, ij_message := None, ij_updated := now\<rparr>) c))"

definition stale_data :: err where
  "stale_data = RuntimeError ''UPDATE statement on table expected to update 1 row(s); 0 were matched.''"

definition add_event :: "ievent \<Rightarrow> corpus \<Rightarrow> corpus res" where
  "add_event e c = bindE (insert_row ie_id e (co_events c)) (\<lambda>es. Inr (c\<lparr>co_events := es\<rparr>))"

text \<open>\<open>_stage\<close>, with the status the caller has given the document before; \<open>n\<close> is the attempt of
  this run. The rows may have been deleted since the claim.\<close>

definition enter_stage :: "corpus_env \<Rightarrow> string \<Rightarrow> nat \<Rightarrow> string \<Rightarrow> doc_status option \<Rightarrow> ix_stage \<Rightarrow> corpus \<Rightarrow> corpus res" where
  "enter_stage env k n doc status st c =
     (if ijob_of c k = None \<or> (status \<noteq> None \<and> document_of c doc = None) then Inl stale_data
      else
        let c1 = (case status of None \<Rightarrow> c | Some x \<Rightarrow> set_document doc (\<lambda>y. y\<lparr>dc_status := x\<rparr>) c);
            c2 = set_ijob k (\<lambda>i. i\<lparr>ij_stage := st, ij_updated := ce_now env\<rparr>) c1 in
        add_event \<lparr>ie_id = event_key (ce_sha env) k n st, ie_job = k, ie_attempt = n, ie_stage = st\<rparr> c2)"

definition chunk_metadata :: "jobj \<Rightarrow> jobj \<Rightarrow> jobj" where
  "chunk_metadata parsed item =
     fold (\<lambda>(k, v) m. AList.update k v m) (parsed @ item) [(''chunker'', JStr chunker_version)]"

definition VECTOR_DIMENSIONS :: nat where "VECTOR_DIMENSIONS = 1536"

definition chunk_row :: "(string \<Rightarrow> string) \<Rightarrow> document \<Rightarrow> jobj \<Rightarrow> rat list option \<Rightarrow> text_chunk \<Rightarrow> chunk" where
  "chunk_row sha x meta emb item =
     \<lparr>ck_id = chunk_key sha x (tc_index item), ck_project = dc_project x, ck_dataset = dc_dataset x,
      ck_document = dc_id x, ck_pipeline = PIPELINE_VERSION, ck_index = int (tc_index item), ck_text = tc_text item,
      ck_tokens = int (tc_tokens item), ck_embedding = emb, ck_metadata = chunk_metadata meta (tc_metadata item)\<rparr>"

text \<open>\<open>chunk_embeddings[i] if i < len(chunk_embeddings) else None\<close>\<close>

fun chunk_rows :: "(string \<Rightarrow> string) \<Rightarrow> document \<Rightarrow> jobj \<Rightarrow> rat list list \<Rightarrow> text_chunk list \<Rightarrow> chunk list" where
  "chunk_rows sha x meta embs [] = []"
| "chunk_rows sha x meta [] (t # ts) = chunk_row sha x meta None t # chunk_rows sha x meta [] ts"
| "chunk_rows sha x meta (v # vs) (t # ts) = chunk_row sha x meta (Some v) t # chunk_rows sha x meta vs ts"

definition insert_chunks :: "chunk list \<Rightarrow> graph_db \<Rightarrow> graph_db res" where
  "insert_chunks rows g =
     bindE (guardE (\<forall>r\<in>set rows. case ck_embedding r of None \<Rightarrow> True | Some v \<Rightarrow> length v = VECTOR_DIMENSIONS)
             (DataError ''expected 1536 dimensions'')) (\<lambda>_.
     bindE (insert_rows ck_id rows (g_chunks g)) (\<lambda>cs. Inr (g\<lparr>g_chunks := cs\<rparr>)))"

text \<open>The chunks of the document are replaced: the old ones and their evidence go first, then the
  graph is collected.\<close>

definition document_chunk :: "document \<Rightarrow> chunk \<Rightarrow> bool" where
  "document_chunk x r \<longleftrightarrow> ck_project r = dc_project x \<and> ck_dataset r = dc_dataset x \<and> ck_document r = dc_id x"

definition clear_chunks :: "document \<Rightarrow> graph_db \<Rightarrow> graph_db" where
  "clear_chunks x g = cleanup_document_graph (dc_project x) (dc_dataset x) (dc_id x) (delete_chunk_rows (document_chunk x) g)"

definition finish_ingestion :: "corpus_env \<Rightarrow> extractor_meta \<Rightarrow> string \<Rightarrow> nat \<Rightarrow> document \<Rightarrow> chunk list \<Rightarrow> corpus \<Rightarrow> corpus res" where
  "finish_ingestion env m k n x rows c =
     (if ijob_of c k = None \<or> document_of c (dc_id x) = None then Inl stale_data
      else
        bindE (insert_chunks rows (clear_chunks x (co_graph c))) (\<lambda>g.
        bindE (add_event \<lparr>ie_id = event_key (ce_sha env) k n StComplete, ie_job = k, ie_attempt = n, ie_stage = StComplete\<rparr>
                (c\<lparr>co_graph := g\<rparr>)) (\<lambda>c1.
        let c2 = set_ijob k (\<lambda>i. i\<lparr>ij_status := JSucceeded, ij_stage := StComplete, ij_updated := ce_now env\<rparr>)
                   (set_document (dc_id x) (\<lambda>y. y\<lparr>dc_status := Persisting, dc_error := None\<rparr>) c1) in
        Inr (with_queue (enqueue_graph_extraction (ce_sha env) m x (ce_now env) (queue_of c2)) c2))))"

definition fail_ingestion :: "corpus_env \<Rightarrow> string \<Rightarrow> err \<Rightarrow> corpus \<Rightarrow> corpus" where
  "fail_ingestion env k e c =
     (case ijob_of c k of
        None \<Rightarrow> c
      | Some j \<Rightarrow>
          let message = sanitized_error env e in
          set_document (ij_document j) (\<lambda>y. y\<lparr>dc_status := DFailed, dc_error := Some message\<rparr>)
            (set_ijob k (\<lambda>i. i\<lparr>ij_status := JFailed, ij_code := Some (ce_type env e), ij_message := Some message,
                ij_updated := ce_now env\<rparr>) c))"

text \<open>What a run asks of the outside: the bytes of the document from the store, the parser, the
  chunker with its identifier hash, and the embedding service.\<close>

record ingest_io =
  io_download :: "string \<Rightarrow> bytes res"
  io_parse :: "string \<Rightarrow> bytes \<Rightarrow> string \<Rightarrow> parsed_document res"
  io_sha24 :: "string \<Rightarrow> string"
  io_embed :: "string list \<Rightarrow> rat list list res"

definition default_chunker :: chunker where
  "default_chunker = \<lparr>ch_size = 1200, ch_overlap = 200, ch_maximum = 5000\<rparr>"

text \<open>The rows of a document, from its bytes.\<close>

definition embed_chunks :: "ingest_io \<Rightarrow> text_chunk list \<Rightarrow> rat list list res" where
  "embed_chunks io chunks = (if chunks = [] then Inr [] else io_embed io (map tc_text chunks))"

definition persisted :: "corpus_env \<Rightarrow> extractor_meta \<Rightarrow> ingest_io \<Rightarrow> string \<Rightarrow> nat \<Rightarrow> document \<Rightarrow> parsed_document
    \<Rightarrow> text_chunk list \<Rightarrow> corpus \<Rightarrow> corpus res" where
  "persisted env m io k n x parsed chunks c =
     bindE (embed_chunks io chunks) (\<lambda>embs.
       finish_ingestion env m k n x (chunk_rows (ce_sha env) x (pd_metadata parsed) embs chunks) c)"

text \<open>The body of the run: the last committed state and the exception it ended with, if any. An
  exception stops it in the state committed so far.\<close>

definition or_stop :: "corpus \<Rightarrow> 'a res \<Rightarrow> ('a \<Rightarrow> err option \<times> corpus) \<Rightarrow> err option \<times> corpus" where
  "or_stop c m rest = (case m of Inl e \<Rightarrow> (Some e, c) | Inr x \<Rightarrow> rest x)"

definition attempt_run :: "corpus_env \<Rightarrow> extractor_meta \<Rightarrow> ingest_io \<Rightarrow> string \<Rightarrow> nat \<Rightarrow> document \<Rightarrow> corpus
    \<Rightarrow> err option \<times> corpus" where
  "attempt_run env m io k n x c0 =
     or_stop c0 (enter_stage env k n (dc_id x) None StReading c0) (\<lambda>c1.
     or_stop c1 (io_download io (dc_object_key x)) (\<lambda>content.
     or_stop c1 (enter_stage env k n (dc_id x) (Some Parsing) StParsing c1) (\<lambda>c2.
     or_stop c2 (io_parse io (dc_mime x) content (dc_filename x)) (\<lambda>parsed.
     or_stop c2 (enter_stage env k n (dc_id x) (Some DChunking) StChunking c2) (\<lambda>c3.
     or_stop c3 (split_document (io_sha24 io) default_chunker (dc_id x) parsed) (\<lambda>chunks.
     or_stop c3 (enter_stage env k n (dc_id x) (Some Persisting) StPersisting c3) (\<lambda>c4.
     or_stop c4 (persisted env m io k n x parsed chunks c4) (\<lambda>c5. (None, c5)))))))))"

definition run_ingestion :: "corpus_env \<Rightarrow> extractor_meta \<Rightarrow> ingest_io \<Rightarrow> string \<Rightarrow> corpus \<Rightarrow> string res \<times> corpus" where
  "run_ingestion env m io k c =
     (case claim_job (ce_now env) k c of
        Inl e \<Rightarrow> (Inl e, c)
      | Inr (Some doc, c1) \<Rightarrow> (Inr doc, c1)
      | Inr (None, c1) \<Rightarrow>
          (case ijob_of c1 k of
             None \<Rightarrow> (Inl stale_data, c1)
           | Some j \<Rightarrow>
               (case document_of c1 (ij_document j) of
                  None \<Rightarrow> (Inl stale_data, c1)
                | Some x \<Rightarrow>
                    (case attempt_run env m io k (ij_attempt j) x c1 of
                       (None, c2) \<Rightarrow> (Inr (dc_id x), c2)
                     | (Some e, c2) \<Rightarrow> (Inl e, fail_ingestion env k e c2)))))"

section \<open>The durable queue\<close>

definition MAX_INDEXING_OUTBOX_ATTEMPTS :: nat where "MAX_INDEXING_OUTBOX_ATTEMPTS = 20"

definition due :: "corpus \<Rightarrow> ibox \<Rightarrow> bool" where
  "due c b \<longleftrightarrow> ib_dispatched b = None \<and> ib_attempts b < MAX_INDEXING_OUTBOX_ATTEMPTS
     \<and> (case ijob_of c (ib_job b) of None \<Rightarrow> False | Some j \<Rightarrow> ij_status j = JQueued)"

definition due_jobs :: "nat \<Rightarrow> corpus \<Rightarrow> string list" where
  "due_jobs n c = map ib_job (limit n (order_by ib_created (filter (due c) (co_boxes c))))"

definition claim_boxes :: "int \<Rightarrow> nat \<Rightarrow> corpus \<Rightarrow> corpus" where
  "claim_boxes now n c = c\<lparr>co_boxes := map (\<lambda>b. if ib_job b \<in> set (due_jobs n c)
     then b\<lparr>ib_attempts := ib_attempts b + 1, ib_dispatched := Some now, ib_error := None\<rparr> else b) (co_boxes c)\<rparr>"

text \<open>The transaction after publishing raised; \<open>claimed_at\<close> is the dispatcher's start.\<close>

definition publish_index_failed :: "int \<Rightarrow> int \<Rightarrow> string \<Rightarrow> string \<Rightarrow> corpus \<Rightarrow> corpus" where
  "publish_index_failed now claimed_at k message c =
     (case ibox_of c k of
        None \<Rightarrow> c
      | Some b \<Rightarrow>
          if ib_dispatched b \<noteq> Some claimed_at then c
          else
            let c1 = set_ibox k (\<lambda>b. b\<lparr>ib_dispatched := None, ib_error := Some message\<rparr>) c in
            case ijob_of c k of
              None \<Rightarrow> c1
            | Some j \<Rightarrow>
                if ib_attempts b < MAX_INDEXING_OUTBOX_ATTEMPTS then c1
                else set_document (ij_document j) (\<lambda>y. y\<lparr>dc_status := DFailed, dc_error := Some message\<rparr>)
                       (set_ijob k (\<lambda>i. i\<lparr>ij_status := JFailed, ij_code := Some ''DispatchError'',
                           ij_message := Some message, ij_updated := now\<rparr>) c1))"

text \<open>The dispatcher when nothing comes in between; \<open>publish\<close> gives the exception of \<open>enqueue_job\<close>.\<close>

definition dispatch_pending_indexing :: "corpus_env \<Rightarrow> (string \<Rightarrow> err option) \<Rightarrow> nat \<Rightarrow> corpus \<Rightarrow> nat \<times> corpus" where
  "dispatch_pending_indexing env publish n c =
     fold (\<lambda>k (sent, c). case publish k of
         None \<Rightarrow> (sent + 1, c)
       | Some e \<Rightarrow> (sent, publish_index_failed (ce_now env) (ce_now env) k (sanitized_error env e) c))
       (due_jobs n c) (0, claim_boxes (ce_now env) n c)"

definition indexing_heartbeat :: "int \<Rightarrow> string \<Rightarrow> corpus \<Rightarrow> corpus" where
  "indexing_heartbeat now k c =
     set_ijob k (\<lambda>j. if ij_status j = JRunning then j\<lparr>ij_updated := now\<rparr> else j) c"

definition requeue_indexing_job :: "int \<Rightarrow> string \<Rightarrow> string \<Rightarrow> corpus \<Rightarrow> corpus" where
  "requeue_indexing_job now k reason c =
     (case ijob_of c k of
        None \<Rightarrow> c
      | Some j \<Rightarrow>
          if ij_status j = JSucceeded then c
          else put_ibox k (Some reason) now
                 (set_ijob k (\<lambda>i. i\<lparr>ij_status := JQueued, ij_message := Some reason, ij_updated := now\<rparr>) c))"

definition stale_jobs :: "int \<Rightarrow> int \<Rightarrow> nat \<Rightarrow> corpus \<Rightarrow> string list" where
  "stale_jobs seconds now n c = map ij_id (limit n (order_by ij_updated
     (filter (\<lambda>j. ij_status j = JRunning \<and> ij_updated j < now - seconds) (co_jobs c))))"

definition recover_job :: "int \<Rightarrow> string \<Rightarrow> corpus \<Rightarrow> corpus" where
  "recover_job now k c =
     put_ibox k None now (set_ijob k (\<lambda>i. i\<lparr>ij_status := JQueued, ij_updated := now\<rparr>) c)"

definition recover_indexing :: "int \<Rightarrow> int \<Rightarrow> nat \<Rightarrow> corpus \<Rightarrow> corpus" where
  "recover_indexing seconds now n c = fold (recover_job now) (stale_jobs seconds now n c) c"

definition stale_dispatches :: "int \<Rightarrow> int \<Rightarrow> nat \<Rightarrow> corpus \<Rightarrow> string list" where
  "stale_dispatches seconds now n c = map ib_job (limit n (filter (\<lambda>b.
       (case ijob_of c (ib_job b) of None \<Rightarrow> False | Some j \<Rightarrow> ij_status j = JQueued)
       \<and> (case ib_dispatched b of None \<Rightarrow> False | Some t \<Rightarrow> t < now - seconds * 2)) (co_boxes c)))"

definition redispatch :: "int \<Rightarrow> int \<Rightarrow> nat \<Rightarrow> corpus \<Rightarrow> corpus" where
  "redispatch seconds now n c = c\<lparr>co_boxes := map (\<lambda>b. if ib_job b \<in> set (stale_dispatches seconds now n c)
     then b\<lparr>ib_dispatched := None, ib_error := Some ''dispatch stale; requeued''\<rparr> else b) (co_boxes c)\<rparr>"

definition reconcile_indexing_jobs :: "int \<Rightarrow> int \<Rightarrow> nat \<Rightarrow> corpus \<Rightarrow> nat \<times> corpus" where
  "reconcile_indexing_jobs seconds now n c =
     (let c1 = recover_indexing seconds now n c in
      (length (stale_jobs seconds now n c) + length (stale_dispatches seconds now n c1), redispatch seconds now n c1))"

text \<open>The task of the worker: a transient failure before the fifth try is queued again.\<close>

datatype task_end = Done string | Raised err | Retried err

fun transient :: "err \<Rightarrow> bool" where
  "transient TimeoutError = True"
| "transient (OSError _) = True"
| "transient _ = False"

definition task_index_document :: "corpus_env \<Rightarrow> extractor_meta \<Rightarrow> ingest_io \<Rightarrow> nat \<Rightarrow> string \<Rightarrow> corpus \<Rightarrow> task_end \<times> corpus" where
  "task_index_document env m io job_try k c =
     (case run_ingestion env m io k c of
        (Inr doc, c1) \<Rightarrow> (Done doc, c1)
      | (Inl e, c1) \<Rightarrow>
          if \<not> transient e \<or> 5 \<le> job_try then (Raised e, c1)
          else (Retried e, requeue_indexing_job (ce_now env) k (''transient failure: '' @ ce_type env e) c1))"

end
