(* ===== verification/Uploads.thy ===== *)
theory Uploads
  imports Corpus Storage
begin

text \<open>
  What \<open>app/documents.py\<close> checks before a file becomes a document: the size while the body is
  spooled, the name, the declared type, and the first bytes of the content. Bytes are numbers below
  256, decoded text is a list of code points.
\<close>

section \<open>UTF-8\<close>

definition cont_byte :: "nat \<Rightarrow> bool" where
  "cont_byte b \<longleftrightarrow> 128 \<le> b \<and> b \<le> 191"

text \<open>The strict decoder of Python: shortest forms only, no surrogates, at most U+10FFFF.\<close>

definition second_ok :: "nat \<Rightarrow> nat \<Rightarrow> bool" where
  "second_ok a b \<longleftrightarrow> cont_byte b \<and> (a = 224 \<longrightarrow> 160 \<le> b) \<and> (a = 237 \<longrightarrow> b \<le> 159)
     \<and> (a = 240 \<longrightarrow> 144 \<le> b) \<and> (a = 244 \<longrightarrow> b \<le> 143)"

fun utf8_decode :: "bytes \<Rightarrow> nat list option" where
  "utf8_decode [] = Some []"
| "utf8_decode (a # rest) =
     (if a < 128 then map_option (Cons a) (utf8_decode rest)
      else if 194 \<le> a \<and> a \<le> 223 then
        (case rest of b # r \<Rightarrow>
           if cont_byte b then map_option (Cons ((a - 192) * 64 + (b - 128))) (utf8_decode r) else None
         | _ \<Rightarrow> None)
      else if 224 \<le> a \<and> a \<le> 239 then
        (case rest of b # c # r \<Rightarrow>
           if second_ok a b \<and> cont_byte c
           then map_option (Cons ((a - 224) * 4096 + (b - 128) * 64 + (c - 128))) (utf8_decode r) else None
         | _ \<Rightarrow> None)
      else if 240 \<le> a \<and> a \<le> 244 then
        (case rest of b # c # d # r \<Rightarrow>
           if second_ok a b \<and> cont_byte c \<and> cont_byte d
           then map_option (Cons ((a - 240) * 262144 + (b - 128) * 4096 + (c - 128) * 64 + (d - 128))) (utf8_decode r)
           else None
         | _ \<Rightarrow> None)
      else None)"

section \<open>Spooling\<close>

record spooled =
  sp_content :: bytes
  sp_size :: nat
  sp_head :: bytes
  sp_tail :: bytes

definition too_large :: "nat \<Rightarrow> err" where
  "too_large n = HTTPException 413 (''file exceeds '' @ dec_str n @ '' byte limit'')"

text \<open>One piece of at most 64 KiB; \<open>del tail[:-8192]\<close> keeps the last 8192 bytes.\<close>

definition spool_piece :: "nat \<Rightarrow> bytes \<Rightarrow> spooled \<Rightarrow> spooled res" where
  "spool_piece bound piece s =
     (let n = sp_size s + length piece in
      if bound < n then Inl (too_large bound)
      else
        let head = (if length (sp_head s) < 8192 then sp_head s @ take (8192 - length (sp_head s)) piece else sp_head s);
            tail = sp_tail s @ piece in
        Inr \<lparr>sp_content = sp_content s @ piece, sp_size = n, sp_head = head,
             sp_tail = drop (length tail - 8192) tail\<rparr>)"

definition spool :: "nat \<Rightarrow> bytes list \<Rightarrow> spooled res" where
  "spool bound pieces =
     foldE (spool_piece bound) pieces \<lparr>sp_content = [], sp_size = 0, sp_head = [], sp_tail = []\<rparr>"

section \<open>Names and types\<close>

text \<open>\<open>Path(s).name\<close> and \<open>Path(s).suffix\<close>\<close>

definition path_name :: "string \<Rightarrow> string" where
  "path_name s = (case rev (path_parts s) of [] \<Rightarrow> [] | p # _ \<Rightarrow> p)"

fun last_dot :: "string \<Rightarrow> nat \<Rightarrow> nat option" where
  "last_dot [] i = None"
| "last_dot (c # s) i = (case last_dot s (Suc i) of Some j \<Rightarrow> Some j | None \<Rightarrow> if c = CHR ''.'' then Some i else None)"

definition path_suffix :: "string \<Rightarrow> string" where
  "path_suffix s = (let name = path_name s in case last_dot name 0 of
     None \<Rightarrow> [] | Some i \<Rightarrow> if 0 < i \<and> i + 1 < length name then drop i name else [])"

definition MIMES :: "(string \<times> string list) list" where
  "MIMES = [(''.txt'', [''text/plain'']), (''.md'', [''text/markdown'', ''text/plain'']), (''.html'', [''text/html'']),
     (''.json'', [''application/json'', ''text/json'', ''text/plain'']), (''.pdf'', [''application/pdf'']),
     (''.csv'', [''text/csv'', ''text/plain'', ''application/csv''])]"

record upload_file =
  uf_name :: "string option"
  uf_type :: "string option"

definition file_name :: "upload_file \<Rightarrow> string" where
  "file_name f = path_name (case uf_name f of None \<Rightarrow> [] | Some s \<Rightarrow> s)"

definition file_mime :: "upload_file \<Rightarrow> string" where
  "file_mime f = py_lower (takeWhile (\<lambda>c. c \<noteq> CHR '';'') (case uf_type f of None \<Rightarrow> [] | Some s \<Rightarrow> s))"

section \<open>Content\<close>

definition codes :: "string \<Rightarrow> nat list" where
  "codes s = map ord_of s"

definition space_code :: "nat \<Rightarrow> bool" where
  "space_code n \<longleftrightarrow> (9 \<le> n \<and> n \<le> 13) \<or> (28 \<le> n \<and> n \<le> 32) \<or> n = 133 \<or> n = 160 \<or> n = 5760
     \<or> (8192 \<le> n \<and> n \<le> 8202) \<or> n = 8232 \<or> n = 8233 \<or> n = 8239 \<or> n = 8287 \<or> n = 12288"

text \<open>Lower case as far as the prefixes below can tell: outside ASCII only U+0130 and U+212A have an
  ASCII letter in their lower case, and neither i nor k occurs in a prefix.\<close>

definition lower_code :: "nat \<Rightarrow> nat" where
  "lower_code n = (if 65 \<le> n \<and> n \<le> 90 then n + 32 else n)"

definition html_start :: "nat list \<Rightarrow> bool" where
  "html_start text = list_ex (\<lambda>p. starts_with (codes p) (map lower_code (dropWhile space_code text)))
     [''<!doctype html'', ''<html'', ''<head'', ''<body'']"

definition check_text :: "string \<Rightarrow> bytes \<Rightarrow> unit res" where
  "check_text extension head =
     (case utf8_decode head of
        None \<Rightarrow> Inl (HTTPException 415 ''text upload is not UTF-8'')
      | Some text \<Rightarrow>
          if 0 \<in> set text then Inl (HTTPException 415 ''text upload contains binary data'')
          else if extension = ''.html'' \<and> \<not> html_start text then Inl (HTTPException 415 ''invalid HTML content'')
          else Inr ())"

definition validate_upload :: "upload_file \<Rightarrow> bytes \<Rightarrow> string res" where
  "validate_upload f head =
     (let filename = file_name f; extension = py_lower (path_suffix filename) in
      if filename = [] \<or> uf_name f \<noteq> Some filename \<or> map_of MIMES extension = None
      then Inl (HTTPException 400 ''invalid filename or extension'')
      else if 255 < length filename then Inl (HTTPException 400 ''filename exceeds 255 characters'')
      else if file_mime f \<notin> set (the (map_of MIMES extension))
      then Inl (HTTPException 415 ''MIME type does not match extension'')
      else if head = [] then Inl (HTTPException 415 ''empty files are not supported'')
      else if extension = ''.pdf'' then
        (if starts_with (codes ''%PDF-'') head then Inr filename else Inl (HTTPException 415 ''invalid PDF signature''))
      else bindE (check_text extension head) (\<lambda>_. Inr filename))"

section \<open>The spool keeps the content\<close>

definition spool_state :: "bytes \<Rightarrow> spooled" where
  "spool_state xs = \<lparr>sp_content = xs, sp_size = length xs, sp_head = take 8192 xs, sp_tail = drop (length xs - 8192) xs\<rparr>"

lemma spool_piece_state:
  "spool_piece bound p (spool_state xs) =
     (if bound < length (xs @ p) then Inl (too_large bound) else Inr (spool_state (xs @ p)))"
proof -
  have head: "(if length (take 8192 xs) < 8192 then take 8192 xs @ take (8192 - length (take 8192 xs)) p else take 8192 xs)
      = take 8192 (xs @ p)" by auto
  have tail: "drop (length (drop (length xs - 8192) xs @ p) - 8192) (drop (length xs - 8192) xs @ p)
      = drop (length (xs @ p) - 8192) (xs @ p)"
    by (cases "length xs \<le> 8192") (auto simp: drop_append add.commute)
  show ?thesis unfolding spool_piece_def spool_state_def Let_def spooled.simps head tail by simp
qed

lemma spool_from:
  "length xs \<le> bound \<Longrightarrow> foldE (spool_piece bound) ps (spool_state xs) =
     (if bound < length (xs @ concat ps) then Inl (too_large bound) else Inr (spool_state (xs @ concat ps)))"
proof (induction ps arbitrary: xs)
  case (Cons p ps)
  show ?case
  proof (cases "bound < length (xs @ p)")
    case True then show ?thesis by (simp add: spool_piece_state)
  next
    case False
    then show ?thesis using Cons.IH [of "xs @ p"] by (simp add: spool_piece_state)
  qed
qed simp

lemma spool_eq:
  "spool bound ps = (if bound < length (concat ps) then Inl (too_large bound) else Inr (spool_state (concat ps)))"
  using spool_from [of "[]" bound ps] by (simp add: spool_def spool_state_def)

section \<open>Encoding\<close>

definition scalar :: "nat \<Rightarrow> bool" where
  "scalar n \<longleftrightarrow> n < 1114112 \<and> \<not> (55296 \<le> n \<and> n \<le> 57343)"

definition utf8_char :: "nat \<Rightarrow> bytes" where
  "utf8_char n =
     (if n < 128 then [n]
      else if n < 2048 then [192 + n div 64, 128 + n mod 64]
      else if n < 65536 then [224 + n div 4096, 128 + n div 64 mod 64, 128 + n mod 64]
      else [240 + n div 262144, 128 + n div 4096 mod 64, 128 + n div 64 mod 64, 128 + n mod 64])"

definition utf8_encode :: "nat list \<Rightarrow> bytes" where
  "utf8_encode cs = concat (map utf8_char cs)"

lemma utf8_encode_simps [simp]:
  "utf8_encode [] = []" "utf8_encode (c # cs) = utf8_char c @ utf8_encode cs"
  by (simp_all add: utf8_encode_def)

lemma cont_byte_mod [simp]: "cont_byte (128 + n mod 64)"
  by (simp add: cont_byte_def)

lemma two_bytes:
  assumes "128 \<le> n" "n < (2048::nat)"
  shows "194 \<le> 192 + n div 64" "n div 64 \<le> 31" "n div 64 * 64 + n mod 64 = n"
  using assms by auto

lemma digits64:
  "n = 64 * (n div 64) + n mod (64::nat)" "n div 64 = 64 * (n div 4096) + n div 64 mod 64"
  "n div 4096 = 64 * (n div 262144) + n div 4096 mod 64" "n mod 64 < 64" "n div 64 mod 64 < 64" "n div 4096 mod 64 < 64"
proof -
  have d: "n div 4096 = n div 64 div 64" "n div 262144 = n div 4096 div 64" by (simp_all add: div_mult2_eq [symmetric])
  show "n = 64 * (n div 64) + n mod 64" "n div 64 = 64 * (n div 4096) + n div 64 mod 64"
    "n div 4096 = 64 * (n div 262144) + n div 4096 mod 64"
    unfolding d by simp_all
qed simp_all

lemma three_bytes:
  assumes n: "2048 \<le> n" "n < (65536::nat)" and s: "scalar n"
  shows "224 + n div 4096 \<le> 239" "second_ok (224 + n div 4096) (128 + n div 64 mod 64)"
    "n div 4096 * 4096 + n div 64 mod 64 * 64 + n mod 64 = n"
proof -
  note D = digits64 [of n]
  show "224 + n div 4096 \<le> 239" using n by auto
  show "n div 4096 * 4096 + n div 64 mod 64 * 64 + n mod 64 = n" using D(1,2) by linarith
  have "160 \<le> 128 + n div 64 mod 64" if "n div 4096 = 0" using that n D(1,2,4) by linarith
  moreover have "128 + n div 64 mod 64 \<le> 159" if "n div 4096 = 13"
  proof -
    have "n < 55296 \<or> 57343 < n" using s by (auto simp: scalar_def)
    then show ?thesis using that D(1,2,5) by linarith
  qed
  ultimately show "second_ok (224 + n div 4096) (128 + n div 64 mod 64)" using n by (auto simp: second_ok_def)
qed

lemma four_bytes:
  assumes n: "65536 \<le> n" "n < (1114112::nat)"
  shows "240 + n div 262144 \<le> 244" "second_ok (240 + n div 262144) (128 + n div 4096 mod 64)"
    "n div 262144 * 262144 + n div 4096 mod 64 * 4096 + n div 64 mod 64 * 64 + n mod 64 = n"
proof -
  note D = digits64 [of n]
  show "240 + n div 262144 \<le> 244" using n by auto
  show "n div 262144 * 262144 + n div 4096 mod 64 * 4096 + n div 64 mod 64 * 64 + n mod 64 = n"
    using D(1,2,3) by linarith
  have "144 \<le> 128 + n div 4096 mod 64" if "n div 262144 = 0" using that n D by linarith
  moreover have "128 + n div 4096 mod 64 \<le> 143" if "n div 262144 = 4" using that n D by linarith
  ultimately show "second_ok (240 + n div 262144) (128 + n div 4096 mod 64)" by (auto simp: second_ok_def)
qed

lemma utf8_decode_char:
  assumes "scalar n"
  shows "utf8_decode (utf8_char n @ rest) = map_option (Cons n) (utf8_decode rest)"
proof -
  consider (one) "n < 128" | (two) "128 \<le> n" "n < 2048" | (three) "2048 \<le> n" "n < 65536" | (four) "65536 \<le> n" "n < 1114112"
    using assms by (fastforce simp: scalar_def)
  then show ?thesis
  proof cases
    case one then show ?thesis by (simp add: utf8_char_def)
  next
    case two
    show ?thesis using two two_bytes(1) [OF two] by (simp add: utf8_char_def two_bytes(2,3) [OF two])
  next
    case three
    note T = three_bytes [OF three assms]
    then show ?thesis using three by (simp add: utf8_char_def)
  next
    case four
    note T = four_bytes [OF four]
    then show ?thesis using four by (simp add: utf8_char_def)
  qed
qed

lemma utf8_roundtrip: "\<forall>n\<in>set cs. scalar n \<Longrightarrow> utf8_decode (utf8_encode cs) = Some cs"
  by (induction cs) (simp_all add: utf8_decode_char)

text \<open>A proper, nonempty beginning of a character does not decode.\<close>

lemma utf8_cut_char:
  assumes "scalar n" "0 < m" "m < length (utf8_char n)"
  shows "utf8_decode (take m (utf8_char n)) = None"
proof -
  consider (two) "128 \<le> n" "n < 2048" | (three) "2048 \<le> n" "n < 65536" | (four) "65536 \<le> n" "n < 1114112"
    using assms by (fastforce simp: scalar_def utf8_char_def split: if_splits)
  then show ?thesis
  proof cases
    case two
    then have "m = 1" using assms(2,3) by (simp add: utf8_char_def)
    then show ?thesis using two two_bytes [OF two] by (simp add: utf8_char_def)
  next
    case three
    then have "m = 1 \<or> m = 2" using assms(2,3) by (auto simp: utf8_char_def)
    then show ?thesis using three three_bytes [OF three assms(1)] by (auto simp: utf8_char_def)
  next
    case four
    then have "m = 1 \<or> m = 2 \<or> m = 3" using assms(2,3) by (auto simp: utf8_char_def)
    then show ?thesis using four four_bytes [OF four] by (auto simp: utf8_char_def numeral_3_eq_3)
  qed
qed


text \<open>The first \<open>m\<close> bytes of an encoded text decode when, and only when, the cut falls between two
  characters.\<close>

definition char_boundary :: "nat list \<Rightarrow> nat \<Rightarrow> bool" where
  "char_boundary cs m \<longleftrightarrow> (\<exists>n\<le>length cs. length (utf8_encode (take n cs)) = m)"

lemma utf8_char_nonempty: "0 < length (utf8_char c)"
  by (simp add: utf8_char_def)

lemma char_boundary_Nil: "char_boundary [] m \<longleftrightarrow> m = 0"
  by (auto simp: char_boundary_def)

lemma char_boundary_Cons:
  "char_boundary (c # cs) m \<longleftrightarrow> m = 0 \<or> (length (utf8_char c) \<le> m \<and> char_boundary cs (m - length (utf8_char c)))"
proof
  assume "char_boundary (c # cs) m"
  then obtain n where n: "n \<le> Suc (length cs)" "length (utf8_encode (take n (c # cs))) = m" by (auto simp: char_boundary_def)
  show "m = 0 \<or> (length (utf8_char c) \<le> m \<and> char_boundary cs (m - length (utf8_char c)))"
    using n by (cases n) (auto simp: char_boundary_def)
next
  assume "m = 0 \<or> (length (utf8_char c) \<le> m \<and> char_boundary cs (m - length (utf8_char c)))"
  then show "char_boundary (c # cs) m"
  proof
    assume "m = 0" then show ?thesis by (auto simp: char_boundary_def intro: exI [of _ 0])
  next
    assume m: "length (utf8_char c) \<le> m \<and> char_boundary cs (m - length (utf8_char c))"
    then obtain n where "n \<le> length cs" "length (utf8_encode (take n cs)) = m - length (utf8_char c)"
      by (auto simp: char_boundary_def)
    then show ?thesis using m unfolding char_boundary_def by (intro exI [of _ "Suc n"]) simp
  qed
qed

lemma utf8_decode_cut:
  assumes "\<forall>n\<in>set cs. scalar n" "m \<le> length (utf8_encode cs)"
  shows "char_boundary cs m \<and> (\<exists>n. utf8_decode (take m (utf8_encode cs)) = Some (take n cs))
     \<or> \<not> char_boundary cs m \<and> utf8_decode (take m (utf8_encode cs)) = None"
  using assms
proof (induction cs arbitrary: m)
  case Nil then show ?case by (simp add: char_boundary_Nil)
next
  case (Cons c cs)
  have c: "scalar c" using Cons.prems by simp
  consider (zero) "m = 0" | (cut) "0 < m" "m < length (utf8_char c)" | (past) "length (utf8_char c) \<le> m" by linarith
  then show ?case
  proof cases
    case zero then show ?thesis by (auto simp: char_boundary_Cons intro: exI [of _ 0])
  next
    case cut
    then have "\<not> char_boundary (c # cs) m" by (simp add: char_boundary_Cons)
    then show ?thesis using utf8_cut_char [OF c cut] cut by simp
  next
    case past
    let ?r = "m - length (utf8_char c)"
    have eq: "utf8_decode (take m (utf8_encode (c # cs))) = map_option (Cons c) (utf8_decode (take ?r (utf8_encode cs)))"
      using past utf8_decode_char [OF c] by simp
    have b: "char_boundary (c # cs) m \<longleftrightarrow> char_boundary cs ?r"
      using past utf8_char_nonempty [of c] by (auto simp: char_boundary_Cons)
    have "char_boundary cs ?r \<and> (\<exists>n. utf8_decode (take ?r (utf8_encode cs)) = Some (take n cs))
       \<or> \<not> char_boundary cs ?r \<and> utf8_decode (take ?r (utf8_encode cs)) = None"
      by (rule Cons.IH) (use Cons.prems past in auto)
    then show ?thesis unfolding eq b by (metis option.simps(8,9) take_Suc_Cons)
  qed
qed

lemma validate_plain:
  assumes "file_name f = name" "uf_name f = Some name" "path_suffix name = ''.txt''" "length name \<le> 255"
    "file_mime f = ''text/plain''" "head \<noteq> []"
  shows "validate_upload f head = bindE (check_text ''.txt'' head) (\<lambda>_. Inr name)"
proof -
  have "name \<noteq> []" using assms(3) by (auto simp: path_suffix_def path_name_def path_parts_def Let_def)
  moreover have "py_lower ''.txt'' = ''.txt''" by code_simp
  ultimately show ?thesis using assms by (simp add: validate_upload_def Let_def MIMES_def)
qed

section \<open>Properties\<close>

text \<open>A UTF-8 text without NUL, uploaded under its own name with the extension and type of a plain
  text and within the size limit, is accepted exactly when its 8192nd byte ends a character (or the
  text is no longer than that): whether a correct file is taken depends on where a character falls.\<close>

theorem text_upload_accepted_iff:
  assumes "\<forall>n\<in>set cs. scalar n" "cs \<noteq> []" "0 \<notin> set cs"
    and "concat pieces = utf8_encode cs" "length (utf8_encode cs) \<le> bound"
    and "file_name f = name" "uf_name f = Some name" "path_suffix name = ''.txt''" "length name \<le> 255"
    and "file_mime f = ''text/plain''"
  shows "bindE (spool bound pieces) (\<lambda>s. validate_upload f (sp_head s)) = Inr name
     \<longleftrightarrow> char_boundary cs (min 8192 (length (utf8_encode cs)))"
proof -
  let ?m = "min 8192 (length (utf8_encode cs))"
  let ?head = "take ?m (utf8_encode cs)"
  have s: "spool bound pieces = Inr (spool_state (utf8_encode cs))" using assms(4,5) by (simp add: spool_eq)
  have head: "sp_head (spool_state (utf8_encode cs)) = ?head" by (simp add: spool_state_def min_def)
  have ne: "?head \<noteq> []" using assms(2) utf8_char_nonempty by (cases cs) (auto simp: min_def)
  have validate: "validate_upload f ?head = bindE (check_text ''.txt'' ?head) (\<lambda>_. Inr name)"
    by (rule validate_plain [OF assms(6-10) ne])
  have m: "?m \<le> length (utf8_encode cs)" by simp
  from utf8_decode_cut [OF assms(1) m] show ?thesis
  proof (elim disjE conjE exE)
    fix n assume b: "char_boundary cs ?m" and d: "utf8_decode ?head = Some (take n cs)"
    have "0 \<notin> set (take n cs)" using assms(3) by (meson in_set_takeD)
    then show ?thesis using b d by (simp add: s head validate check_text_def)
  next
    assume "\<not> char_boundary cs ?m" "utf8_decode ?head = None"
    then show ?thesis by (simp add: s head validate check_text_def)
  qed
qed


definition plain_file :: upload_file where
  "plain_file = \<lparr>uf_name = Some ''a.txt'', uf_type = Some ''text/plain; charset=utf-8''\<rparr>"

lemma plain_file_facts:
  "file_name plain_file = ''a.txt''" "path_suffix ''a.txt'' = ''.txt''" "file_mime plain_file = ''text/plain''"
  by code_simp+

text \<open>8191 ASCII letters and one accented letter.\<close>

definition long_text :: "nat list" where
  "long_text = replicate 8191 97 @ [233]"

lemma utf8_encode_append [simp]: "utf8_encode (xs @ ys) = utf8_encode xs @ utf8_encode ys"
  by (simp add: utf8_encode_def)

lemma utf8_encode_replicate: "c < 128 \<Longrightarrow> utf8_encode (replicate n c) = replicate n c"
  by (induction n) (simp_all add: utf8_char_def)

lemma long_text_facts: "length (utf8_encode long_text) = 8193" "\<not> char_boundary long_text 8192"
proof -
  show len: "length (utf8_encode long_text) = 8193"
    by (simp add: long_text_def utf8_encode_replicate) (simp add: utf8_char_def)
  have "length (utf8_encode (take n long_text)) \<noteq> 8192" for n
  proof (cases "n \<le> 8191")
    case True
    then have "take n long_text = replicate n 97" by (simp add: long_text_def)
    then show ?thesis using True by (simp add: utf8_encode_replicate)
  next
    case False
    then have "take n long_text = long_text" by (simp add: long_text_def)
    then show ?thesis by (simp add: len)
  qed
  then show "\<not> char_boundary long_text 8192" by (auto simp: char_boundary_def)
qed

theorem text_upload_accepted_iff_witness:
  "bindE (spool 10000 [utf8_encode long_text]) (\<lambda>s. validate_upload plain_file (sp_head s)) \<noteq> Inr ''a.txt''"
proof -
  have "bindE (spool 10000 [utf8_encode long_text]) (\<lambda>s. validate_upload plain_file (sp_head s)) = Inr ''a.txt''
     \<longleftrightarrow> char_boundary long_text (min 8192 (length (utf8_encode long_text)))"
    by (rule text_upload_accepted_iff)
      (simp_all add: plain_file_facts long_text_facts(1), simp_all add: long_text_def scalar_def plain_file_def)
  then show ?thesis using long_text_facts by simp
qed

end
