(* ===== verification/Documents.thy ===== *)
theory Documents
  imports Datasets Ingestion Uploads
begin

text \<open>
  The document endpoints of \<open>app/documents.py\<close>: upload with deduplication by content, reading, and
  deletion. A handler returns its answer or its exception, the committed tables and the state of the
  object store.
\<close>

section \<open>Views\<close>

record document_view =
  vw_id :: string
  vw_project :: string
  vw_dataset :: string
  vw_filename :: string
  vw_mime :: string
  vw_size :: int
  vw_hash :: string
  vw_object_key :: string
  vw_status :: doc_status
  vw_error :: "string option"
  vw_stage :: "string option"
  vw_duplicate :: bool

definition shown_status :: "document \<Rightarrow> doc_status" where
  "shown_status x =
     (if dc_status x = Indexed \<and> dc_stage x \<noteq> Some ''complete''
      then if dc_stage x = Some ''failed'' then DFailed else Persisting
      else dc_status x)"

definition serialize :: "bool \<Rightarrow> document \<Rightarrow> document_view" where
  "serialize duplicate x =
     \<lparr>vw_id = dc_id x, vw_project = dc_project x, vw_dataset = dc_dataset x, vw_filename = dc_filename x,
      vw_mime = dc_mime x, vw_size = dc_size x, vw_hash = dc_hash x, vw_object_key = dc_object_key x,
      vw_status = shown_status x, vw_error = dc_error x, vw_stage = dc_stage x, vw_duplicate = duplicate\<rparr>"

section \<open>Upload\<close>

record upload_io =
  ui_digest :: "bytes \<Rightarrow> string"
  ui_json_ok :: "bytes \<Rightarrow> bool"
  ui_limit :: nat

definition find_by_hash :: "string \<Rightarrow> string \<Rightarrow> string \<Rightarrow> corpus \<Rightarrow> document option" where
  "find_by_hash p d h c =
     find (\<lambda>x. dc_project x = p \<and> dc_dataset x = d \<and> dc_hash x = h) (co_documents c)"

definition object_key :: "string \<Rightarrow> string \<Rightarrow> string \<Rightarrow> string" where
  "object_key p d k = ''projects/'' @ p @ ''/datasets/'' @ d @ ''/documents/'' @ k @ ''/raw''"

definition new_document :: "string \<Rightarrow> string \<Rightarrow> string \<Rightarrow> string \<Rightarrow> string \<Rightarrow> nat \<Rightarrow> string \<Rightarrow> document" where
  "new_document k p d filename mime n h =
     \<lparr>dc_id = k, dc_project = p, dc_dataset = d, dc_filename = filename, dc_mime = mime, dc_size = int n, dc_hash = h,
      dc_source = ''upload'', dc_object_key = object_key p d k, dc_status = PendingUpload, dc_error = None,
      dc_stage = None, dc_metadata = []\<rparr>"

definition add_document :: "document \<Rightarrow> corpus \<Rightarrow> corpus" where
  "add_document x c = c\<lparr>co_graph := (co_graph c)\<lparr>g_documents := g_documents (co_graph c) @ [x]\<rparr>\<rparr>"

text \<open>The row the request works on, the tables a rollback leaves and the tables with the row. \<open>race\<close> is
  what other transactions commit between the query, which found nothing, and the insert; the insert
  fails when a row with the same key is there.\<close>

definition reserve_document :: "(corpus \<Rightarrow> corpus) \<Rightarrow> document \<Rightarrow> corpus \<Rightarrow> (document \<times> corpus \<times> corpus) res" where
  "reserve_document race x c =
     (case find_by_hash (dc_project x) (dc_dataset x) (dc_hash x) c of
        Some y \<Rightarrow> Inr (y, c, c)
      | None \<Rightarrow>
          let c1 = race c in
          case find_by_hash (dc_project x) (dc_dataset x) (dc_hash x) c1 of
            Some y \<Rightarrow> Inr (y, c1, c1)
          | None \<Rightarrow> if dc_id x \<in> dc_id ` set (co_documents c1) then Inl (IntegrityError ''documents_pkey'')
                    else Inr (x, c1, add_document x c1))"

definition taken :: "doc_status \<Rightarrow> bool" where
  "taken st \<longleftrightarrow> st \<in> {Uploaded, DQueued, Parsing, DChunking, Persisting, Indexed}"

text \<open>The checks before the database is asked.\<close>

definition check_upload :: "upload_io \<Rightarrow> upload_file \<Rightarrow> bytes list \<Rightarrow> (string \<times> spooled) res" where
  "check_upload io f pieces =
     bindE (spool (ui_limit io) pieces) (\<lambda>sp.
     bindE (validate_upload f (sp_head sp)) (\<lambda>filename.
     bindE (guardE (py_lower (path_suffix filename) \<noteq> ''.json'' \<or> ui_json_ok io (sp_content sp))
              (HTTPException 415 ''invalid JSON content'')) (\<lambda>_. Inr (filename, sp))))"

definition store_document :: "corpus_env \<Rightarrow> 's object_store \<Rightarrow> draw \<Rightarrow> document \<Rightarrow> bytes \<Rightarrow> corpus \<Rightarrow> corpus \<Rightarrow> 's
    \<Rightarrow> document_view res \<times> corpus \<times> 's" where
  "store_document env st d x content before c s =
     (if taken (dc_status x) then (Inr (serialize True x), c, s)
      else case os_upload st (dc_object_key x) content (dc_mime x) s of
          Inl e \<Rightarrow> (Inl (HTTPException 503 ''object storage upload failed''),
                    set_document (dc_id x) (\<lambda>y. y\<lparr>dc_status := StorageFailed, dc_error := Some (take 2000 (ce_str env e))\<rparr>) c, s)
        | Inr s1 \<Rightarrow>
            (case enqueue_document env d x (set_document (dc_id x) (\<lambda>y. y\<lparr>dc_status := Uploaded, dc_error := None\<rparr>) c) of
               Inl e \<Rightarrow> (Inl e, before, s1)
             | Inr c1 \<Rightarrow>
                 (case document_of c1 (dc_id x) of
                    None \<Rightarrow> (Inl stale_data, before, s1)
                  | Some y \<Rightarrow> (Inr (serialize False y), c1, s1))))"

definition upload_document :: "corpus_env \<Rightarrow> upload_io \<Rightarrow> 's object_store \<Rightarrow> (corpus \<Rightarrow> corpus) \<Rightarrow> draw \<Rightarrow> draw
    \<Rightarrow> string \<Rightarrow> string \<Rightarrow> upload_file \<Rightarrow> bytes list \<Rightarrow> corpus \<Rightarrow> 's \<Rightarrow> document_view res \<times> corpus \<times> 's" where
  "upload_document env io st race d1 d2 p dataset_id f pieces c s =
     (let k = normalize_dataset_id dataset_id in
      case owned c p k of Inl e \<Rightarrow> (Inl e, c, s) | Inr _ \<Rightarrow>
      case check_upload io f pieces of Inl e \<Rightarrow> (Inl e, c, s) | Inr (filename, sp) \<Rightarrow>
      case new_id ''doc'' d1 of Inl e \<Rightarrow> (Inl e, c, s) | Inr doc \<Rightarrow>
      case reserve_document race (new_document doc p k filename (file_mime f) (sp_size sp) (ui_digest io (sp_content sp))) c of
        Inl e \<Rightarrow> (Inl e, race c, s)
      | Inr (x, before, c1) \<Rightarrow> store_document env st d2 x (sp_content sp) before c1 s)"

section \<open>Reading\<close>

definition owned_document :: "corpus \<Rightarrow> string \<Rightarrow> string \<Rightarrow> document res" where
  "owned_document c p k =
     (case find (\<lambda>x. dc_id x = k \<and> dc_project x = p) (co_documents c) of
        None \<Rightarrow> Inl (HTTPException 404 ''document not found'')
      | Some x \<Rightarrow> Inr x)"

definition list_documents :: "corpus \<Rightarrow> string \<Rightarrow> string \<Rightarrow> document_view list res" where
  "list_documents c p dataset_id =
     (let k = normalize_dataset_id dataset_id in
      bindE (owned c p k) (\<lambda>_.
        Inr (map (serialize False) (filter (\<lambda>x. dc_project x = p \<and> dc_dataset x = k) (co_documents c)))))"

definition get_document :: "corpus \<Rightarrow> string \<Rightarrow> string \<Rightarrow> string \<Rightarrow> document_view res" where
  "get_document c p dataset_id k =
     bindE (owned_document c p k) (\<lambda>x.
       if dc_dataset x \<noteq> dataset_id then Inl (HTTPException 404 ''document not found'') else Inr (serialize False x))"

definition get_document_by_id :: "corpus \<Rightarrow> string \<Rightarrow> string \<Rightarrow> document_view res" where
  "get_document_by_id c p k = bindE (owned_document c p k) (\<lambda>x. Inr (serialize False x))"

section \<open>Deletion\<close>

definition begin_document_delete :: "(string \<Rightarrow> string) \<Rightarrow> document \<Rightarrow> corpus \<Rightarrow> corpus" where
  "begin_document_delete sha x c =
     create_document_cleanup sha x (set_document (dc_id x) (\<lambda>y. y\<lparr>dc_status := Deleting, dc_error := None\<rparr>) c)"

definition finish_document_delete :: "corpus_env \<Rightarrow> document \<Rightarrow> corpus \<Rightarrow> corpus" where
  "finish_document_delete env x c =
     (let c1 = drop_document (dc_id x) c;
          c2 = c1\<lparr>co_graph := cleanup_document_graph (dc_project x) (dc_dataset x) (dc_id x) (co_graph c1)\<rparr> in
      mark_cleanup_ready (ce_now env) (document_cleanup_id (ce_sha env) x) c2)"

definition delete_document :: "corpus_env \<Rightarrow> 's object_store \<Rightarrow> string \<Rightarrow> string \<Rightarrow> corpus \<Rightarrow> 's \<Rightarrow> unit res \<times> corpus \<times> 's" where
  "delete_document env st p k c s =
     (case owned_document c p k of
        Inl e \<Rightarrow> (Inl e, c, s)
      | Inr x \<Rightarrow>
          let c1 = begin_document_delete (ce_sha env) x c in
          case os_delete st (dc_object_key x) s of
            Inr s1 \<Rightarrow> (Inr (), finish_document_delete env x c1, s1)
          | Inl e \<Rightarrow>
              if ignored env e then (Inr (), finish_document_delete env x c1, s)
              else (Inl (HTTPException 503 ''object storage deletion failed''),
                    set_document k (\<lambda>y. y\<lparr>dc_status := DeleteFailed, dc_error := Some (take 2000 (ce_str env e))\<rparr>) c1, s))"

section \<open>What a deletion leaves in the graph\<close>

text \<open>Collecting a document that has no evidence left does nothing.\<close>

lemma cleanup_without_evidence:
  assumes "\<And>v. v \<in> set (g_evidence g) \<Longrightarrow> \<not> doc_evidence p d doc v"
  shows "cleanup_document_graph p d doc g = g"
proof -
  have none: "filter (doc_evidence p d doc) (g_evidence g) = []" using assms by (auto simp: filter_empty_conv)
  have keep: "del_rows (doc_evidence p d doc) (g_evidence g) = g_evidence g" "del_rows (\<lambda>a. False) (g_alias_evidence g) = g_alias_evidence g"
    using assms by (auto simp: del_rows_def intro!: filter_True)
  have "delete_evidence_rows (doc_evidence p d doc) g = g"
    by (simp add: delete_evidence_rows_def none keep)
  then show ?thesis
    by (simp add: cleanup_document_graph_def affected_entities_def affected_relations_def none somes_def
        gc_candidates_def gc_entities_def Let_def)
qed

lemma drop_ijobs_graph [simp]: "co_graph (drop_ijobs P c) = co_graph c"
  by (simp add: drop_ijobs_def Let_def)

lemma drop_document_graph: "co_graph (drop_document k c) = delete_document_row k (co_graph c)"
  by (simp add: drop_document_def Let_def)

lemma delete_document_row_graph:
  "g_entities (delete_document_row k g) = g_entities g" "g_relations (delete_document_row k g) = g_relations g"
  "g_aliases (delete_document_row k g) = g_aliases g" "g_merges (delete_document_row k g) = g_merges g"
  "v \<in> set (g_evidence (delete_document_row k g)) \<Longrightarrow> gv_document v \<noteq> k"
  by (auto simp: delete_document_row_def)

lemma finish_delete_graph:
  "co_graph (finish_document_delete env x c) = delete_document_row (dc_id x) (co_graph c)"
proof -
  have "cleanup_document_graph (dc_project x) (dc_dataset x) (dc_id x) (delete_document_row (dc_id x) (co_graph c))
      = delete_document_row (dc_id x) (co_graph c)"
    by (rule cleanup_without_evidence) (auto simp: doc_evidence_def dest: delete_document_row_graph(5))
  then show ?thesis by (simp add: finish_document_delete_def mark_cleanup_ready_def drop_document_graph Let_def)
qed

lemma clear_chunks_graph:
  assumes "\<And>v. v \<in> set (g_evidence g) \<Longrightarrow> doc_evidence (dc_project x) (dc_dataset x) (dc_id x) v
     \<Longrightarrow> \<exists>r\<in>set (g_chunks g). document_chunk x r \<and> ck_id r = gv_chunk v"
  shows "clear_chunks x g = delete_chunk_rows (document_chunk x) g"
  unfolding clear_chunks_def
proof (rule cleanup_without_evidence)
  fix v assume v: "v \<in> set (g_evidence (delete_chunk_rows (document_chunk x) g))"
  then have "v \<in> set (g_evidence g)" "gv_chunk v \<notin> ck_id ` {r \<in> set (g_chunks g). document_chunk x r}" by simp_all
  then have "v \<in> set (g_evidence g)" "\<not> (\<exists>r\<in>set (g_chunks g). document_chunk x r \<and> ck_id r = gv_chunk v)"
    by (simp_all add: image_iff) metis
  then show "\<not> doc_evidence (dc_project x) (dc_dataset x) (dc_id x) v" using assms by blast
qed

lemma begin_delete_graph:
  "co_graph (begin_document_delete sha x c) = co_graph (set_document (dc_id x) (\<lambda>y. y\<lparr>dc_status := Deleting, dc_error := None\<rparr>) c)"
  by (simp add: begin_document_delete_def create_document_cleanup_def ensure_cleanup_def split: option.split)

lemma delete_document_done:
  assumes "delete_document env st p k c s = (Inr (), c', s')"
  obtains x where "owned_document c p k = Inr x" "c' = finish_document_delete env x (begin_document_delete (ce_sha env) x c)"
  using assms by (auto simp: delete_document_def Let_def split: sum.splits if_splits)

lemma owned_document_Inr: "owned_document c p k = Inr x \<Longrightarrow> x \<in> set (co_documents c) \<and> dc_id x = k \<and> dc_project x = p"
  by (auto simp: owned_document_def find_Some_iff split: option.splits)

text \<open>Deleting a document removes nothing from the graph but evidence: every entity, alias, merge
  and relation is still there, and a relation that had its citations in this document alone, and no
  reviewer's approval, is there without support. The rows of the document are deleted, with their
  evidence, before the collection looks for the evidence of the document.\<close>

theorem deletion_leaves_orphans:
  assumes "delete_document env st p k c s = (Inr (), c', s')"
  shows "g_entities (co_graph c') = g_entities (co_graph c) \<and> g_relations (co_graph c') = g_relations (co_graph c)
    \<and> g_aliases (co_graph c') = g_aliases (co_graph c) \<and> g_merges (co_graph c') = g_merges (co_graph c)
    \<and> (\<forall>r\<in>set (g_relations (co_graph c)). rl_review r \<noteq> Approved
         \<and> (\<forall>v\<in>set (g_evidence (co_graph c)). gv_relation v = Some (rl_id r) \<longrightarrow> gv_document v = k)
         \<longrightarrow> \<not> supported_relation (co_graph c') r)"
proof -
  obtain x where x: "owned_document c p k = Inr x" "c' = finish_document_delete env x (begin_document_delete (ce_sha env) x c)"
    by (rule delete_document_done [OF assms])
  have k: "dc_id x = k" using owned_document_Inr [OF x(1)] by simp
  define g where "g = co_graph (set_document k (\<lambda>y. y\<lparr>dc_status := Deleting, dc_error := None\<rparr>) c)"
  have g: "co_graph c' = delete_document_row k g" by (simp add: x(2) finish_delete_graph begin_delete_graph k g_def)
  have same: "g_entities g = g_entities (co_graph c)" "g_relations g = g_relations (co_graph c)" "g_aliases g = g_aliases (co_graph c)"
    "g_merges g = g_merges (co_graph c)" "g_evidence g = g_evidence (co_graph c)"
    by (simp_all add: g_def set_document_def)
  have ev: "v \<in> set (g_evidence (co_graph c)) \<and> gv_document v \<noteq> k" if "v \<in> set (g_evidence (co_graph c'))" for v
    using that same(5) by (auto simp: g delete_document_row_def)
  have "\<not> supported_relation (co_graph c') r" if "rl_review r \<noteq> Approved"
    "\<forall>v\<in>set (g_evidence (co_graph c)). gv_relation v = Some (rl_id r) \<longrightarrow> gv_document v = k" for r
    using that ev by (auto simp: supported_relation_def list_ex_iff)
  then show ?thesis using same by (auto simp: g delete_document_row_graph)
qed

text \<open>The corpus of the two sample documents, and a store that has nothing to delete.\<close>

definition orphan_corpus :: corpus where
  "orphan_corpus = \<lparr>co_datasets = [], co_graph = sample_graph NeedsReview, co_jobs = [], co_boxes = [], co_events = [],
     co_gjobs = [], co_gboxes = [], co_workers = [], co_cleanups = []\<rparr>"

definition void_store :: "unit object_store" where
  "void_store = \<lparr>os_upload = (\<lambda>k content mime s. Inr s), os_download = (\<lambda>k s. Inr []), os_delete = (\<lambda>k s. Inr s)\<rparr>"

theorem deletion_leaves_orphans_witness:
  "\<exists>c' s'. delete_document \<lparr>ce_sha = rev, ce_str = (\<lambda>e. []), ce_type = (\<lambda>e. []), ce_now = 7\<rparr> void_store ''p'' ''x'' orphan_corpus ()
       = (Inr (), c', s')
     \<and> sample_relation ''r'' ''a'' ''b'' NeedsReview \<in> set (g_relations (co_graph c'))
     \<and> \<not> supported_relation (co_graph c') (sample_relation ''r'' ''a'' ''b'' NeedsReview)"
proof -
  define env where "env = \<lparr>ce_sha = rev, ce_str = (\<lambda>e. []), ce_type = (\<lambda>e. []), ce_now = 7\<rparr>"
  have "owned_document orphan_corpus ''p'' ''x'' = Inr (sample_document ''x'')"
    by (simp add: owned_document_def orphan_corpus_def co_documents_def sample_graph_defs)
  then obtain c' where d: "delete_document env void_store ''p'' ''x'' orphan_corpus () = (Inr (), c', ())"
    by (simp add: delete_document_def void_store_def Let_def)
  show ?thesis
    using deletion_leaves_orphans [OF d] d unfolding env_def [symmetric]
    by (auto simp: orphan_corpus_def sample_graph_defs)
qed

end
