(* ===== verification/CorpusInvariant.thy ===== *)
theory CorpusInvariant
  imports Documents
begin

text \<open>
  The invariant of the document side: keys, foreign keys, and that no indexing job is lost. It holds
  in every state that uploads, deletions, workers, dispatchers, the reconciler and the graph's own
  queue reach, whatever the order of their transactions.
\<close>

section \<open>The invariant\<close>

text \<open>The indexing tables over the identifiers \<open>D\<close> of the documents; a queued job has an outbox row,
  except the job \<open>k\<close> when one is named.\<close>

definition index_rows :: "string option \<Rightarrow> string set \<Rightarrow> ijob list \<Rightarrow> ibox list \<Rightarrow> ievent list \<Rightarrow> bool" where
  "index_rows k D jobs boxes events \<longleftrightarrow>
     distinct (map ij_id jobs) \<and> distinct (map ib_job boxes) \<and> distinct (map ie_id events)
     \<and> distinct (map (\<lambda>j. (ij_document j, ij_pipeline j)) jobs)
     \<and> (\<forall>j\<in>set jobs. ij_document j \<in> D
          \<and> (ij_status j = JQueued \<and> k \<noteq> Some (ij_id j) \<longrightarrow> ij_id j \<in> ib_job ` set boxes)
          \<and> (ij_status j = JRunning \<longrightarrow> 1 \<le> ij_attempt j))
     \<and> (\<forall>b\<in>set boxes. ib_job b \<in> ij_id ` set jobs \<and> ib_attempts b \<le> MAX_INDEXING_OUTBOX_ATTEMPTS)
     \<and> (\<forall>e\<in>set events. ie_job e \<in> ij_id ` set jobs)"

definition index_but :: "string option \<Rightarrow> corpus \<Rightarrow> bool" where
  "index_but k c = index_rows k (dc_id ` set (co_documents c)) (co_jobs c) (co_boxes c) (co_events c)"

definition index_ok :: "corpus \<Rightarrow> bool" where
  "index_ok c = index_but None c"

definition datasets_ok :: "corpus \<Rightarrow> bool" where
  "datasets_ok c \<longleftrightarrow> distinct (map ds_id (co_datasets c))
     \<and> distinct (map (\<lambda>x. (ds_project x, ds_name x)) (co_datasets c))
     \<and> distinct (map (\<lambda>x. (dc_project x, dc_dataset x, dc_hash x)) (co_documents c))
     \<and> dc_dataset ` set (co_documents c) \<subseteq> ds_id ` set (co_datasets c)"

definition corpus_ok :: "corpus \<Rightarrow> bool" where
  "corpus_ok c \<longleftrightarrow> graph_keys (co_graph c) \<and> graph_refs (co_graph c) \<and> merges_scoped (co_graph c)
     \<and> queue_ok (queue_of c) \<and> index_ok c \<and> datasets_ok c"

section \<open>The indexing tables\<close>

lemma index_rows_jobs:
  assumes "index_rows k D jobs boxes events"
    and same: "\<And>j. j \<in> set jobs \<Longrightarrow> ij_id (g j) = ij_id j \<and> ij_document (g j) = ij_document j \<and> ij_pipeline (g j) = ij_pipeline j"
    and row: "\<And>j. j \<in> set jobs \<Longrightarrow> (ij_status (g j) = JQueued \<longrightarrow> ij_status j = JQueued \<or> k = Some (ij_id j))
      \<and> (ij_status (g j) = JRunning \<longrightarrow> 1 \<le> ij_attempt (g j))"
  shows "index_rows k D (map g jobs) boxes events"
proof -
  have m: "map ij_id (map g jobs) = map ij_id jobs"
    "map (\<lambda>j. (ij_document j, ij_pipeline j)) (map g jobs) = map (\<lambda>j. (ij_document j, ij_pipeline j)) jobs"
    using same by auto
  have ids: "ij_id ` set (map g jobs) = ij_id ` set jobs" using m(1) by (metis set_map)
  have "ij_document i \<in> D \<and> (ij_status i = JQueued \<and> k \<noteq> Some (ij_id i) \<longrightarrow> ij_id i \<in> ib_job ` set boxes)
      \<and> (ij_status i = JRunning \<longrightarrow> 1 \<le> ij_attempt i)" if i: "i \<in> set (map g jobs)" for i
  proof -
    from i obtain j where j: "j \<in> set jobs" "i = g j" by auto
    then show ?thesis using assms(1) same [OF j(1)] row [OF j(1)] unfolding index_rows_def by auto
  qed
  then show ?thesis using assms(1) unfolding index_rows_def m ids by blast
qed

lemma index_rows_boxes:
  assumes "index_rows k D jobs boxes events"
    and same: "\<And>b. b \<in> set boxes \<Longrightarrow> ib_job (g b) = ib_job b \<and> ib_attempts (g b) \<le> MAX_INDEXING_OUTBOX_ATTEMPTS"
  shows "index_rows k D jobs (map g boxes) events"
proof -
  have m: "map ib_job (map g boxes) = map ib_job boxes" using same by simp
  have ids: "ib_job ` set (map g boxes) = ib_job ` set boxes" using m by (metis set_map)
  have "ib_job b \<in> ij_id ` set jobs \<and> ib_attempts b \<le> MAX_INDEXING_OUTBOX_ATTEMPTS" if b: "b \<in> set (map g boxes)" for b
    using b assms(1) same unfolding index_rows_def by auto
  then show ?thesis using assms(1) unfolding index_rows_def m ids by blast
qed

lemma index_rows_weaken: "index_rows None D jobs boxes events \<Longrightarrow> index_rows k D jobs boxes events"
  unfolding index_rows_def by auto

lemma index_rows_boxed:
  assumes "index_rows (Some k) D jobs boxes events" "k \<in> ib_job ` set boxes"
  shows "index_rows None D jobs boxes events"
proof -
  have "ij_id j \<in> ib_job ` set boxes" if "j \<in> set jobs" "ij_status j = JQueued" for j
    using assms that unfolding index_rows_def by (cases "ij_id j = k") auto
  then show ?thesis using assms(1) unfolding index_rows_def by auto
qed

lemma index_rows_new_box:
  assumes "index_rows (Some k) D jobs boxes events" "k \<in> ij_id ` set jobs" "k \<notin> ib_job ` set boxes" "ib_job b = k"
    "ib_attempts b \<le> MAX_INDEXING_OUTBOX_ATTEMPTS"
  shows "index_rows None D jobs (boxes @ [b]) events"
proof -
  have "index_rows (Some k) D jobs (boxes @ [b]) events" using assms unfolding index_rows_def by auto
  then show ?thesis by (rule index_rows_boxed) (use assms(4) in auto)
qed

lemma index_rows_new_job:
  assumes "index_rows None D jobs boxes events" "ij_id j \<notin> ij_id ` set jobs" "ij_document j \<in> D" "ij_status j = JQueued"
    "\<not> (\<exists>i\<in>set jobs. ij_document i = ij_document j \<and> ij_pipeline i = ij_pipeline j)"
  shows "index_rows (Some (ij_id j)) D (jobs @ [j]) boxes events"
  using assms unfolding index_rows_def by auto

lemma index_rows_event:
  assumes "index_rows k D jobs boxes events" "ie_id e \<notin> ie_id ` set events" "ie_job e \<in> ij_id ` set jobs"
  shows "index_rows k D jobs boxes (events @ [e])"
  using assms unfolding index_rows_def by auto

lemma index_rows_docs: "index_rows k D jobs boxes events \<Longrightarrow> D \<subseteq> E \<Longrightarrow> index_rows k E jobs boxes events"
  unfolding index_rows_def by auto

lemma index_rows_drop:
  assumes "index_rows None D jobs boxes events" "\<And>j. j \<in> set jobs \<Longrightarrow> \<not> P j \<Longrightarrow> ij_document j \<in> E"
  shows "index_rows None E (del_rows P jobs) (del_rows (\<lambda>b. ib_job b \<in> ij_id ` set (filter P jobs)) boxes)
    (del_rows (\<lambda>e. ie_job e \<in> ij_id ` set (filter P jobs)) events)"
proof -
  have inj: "inj_on ij_id (set jobs)" using assms(1) by (simp add: index_rows_def distinct_map)
  have keep: "ij_id j \<notin> ij_id ` set (filter P jobs)" if "j \<in> set jobs" "\<not> P j" for j
    using that inj by (auto simp: inj_on_def)
  let ?G = "ij_id ` set (filter P jobs)"
  have key: "x \<in> ij_id ` set (del_rows P jobs)" if "x \<in> ij_id ` set jobs" "x \<notin> ?G" for x
    using that by (force simp: image_iff)
  have box: "ij_id j \<in> ib_job ` set (del_rows (\<lambda>b. ib_job b \<in> ?G) boxes)"
    if j: "j \<in> set (del_rows P jobs)" "ij_status j = JQueued" for j
  proof -
    have jj: "j \<in> set jobs" "\<not> P j" using j(1) by simp_all
    then have "ij_id j \<in> ib_job ` set boxes" using assms(1) j(2) by (simp add: index_rows_def)
    then obtain b where b: "b \<in> set boxes" "ij_id j = ib_job b" by auto
    then have "b \<in> set (del_rows (\<lambda>b. ib_job b \<in> ?G) boxes)" using keep [OF jj] by simp
    with b(2) show ?thesis by simp
  qed
  have "ij_document j \<in> E \<and> (ij_status j = JRunning \<longrightarrow> 1 \<le> ij_attempt j)" if "j \<in> set (del_rows P jobs)" for j
    using assms that by (simp add: index_rows_def)
  moreover have "ib_job b \<in> ij_id ` set (del_rows P jobs) \<and> ib_attempts b \<le> MAX_INDEXING_OUTBOX_ATTEMPTS"
    if "b \<in> set (del_rows (\<lambda>b. ib_job b \<in> ?G) boxes)" for b
    using assms(1) that key [of "ib_job b"] by (simp add: index_rows_def)
  moreover have "ie_job e \<in> ij_id ` set (del_rows P jobs)" if "e \<in> set (del_rows (\<lambda>e. ie_job e \<in> ?G) events)" for e
    using assms(1) that key [of "ie_job e"] by (simp add: index_rows_def)
  moreover have "distinct (map ij_id jobs)" "distinct (map ib_job boxes)" "distinct (map ie_id events)"
    "distinct (map (\<lambda>j. (ij_document j, ij_pipeline j)) jobs)"
    using assms(1) by (simp_all add: index_rows_def)
  ultimately show ?thesis using box unfolding index_rows_def by (simp only: distinct_map_del_rows) blast
qed

section \<open>Operations on the indexing tables\<close>

lemma docs_frame [simp]:
  "co_documents (set_ijob k f c) = co_documents c" "co_documents (set_ibox k g c) = co_documents c"
  "co_documents (put_ibox k m now c) = co_documents c"
  by (simp_all add: co_documents_def set_ijob_def set_ibox_def put_ibox_def split: option.split)

lemma set_ijob_but:
  assumes "index_but k c"
    "\<And>j. ij_id (f j) = ij_id j \<and> ij_document (f j) = ij_document j \<and> ij_pipeline (f j) = ij_pipeline j"
    "\<And>j. j \<in> set (co_jobs c) \<Longrightarrow> ij_id j = i \<Longrightarrow>
       (ij_status (f j) = JQueued \<longrightarrow> ij_status j = JQueued \<or> k = Some i) \<and> (ij_status (f j) = JRunning \<longrightarrow> 1 \<le> ij_attempt (f j))"
  shows "index_but k (set_ijob i f c)"
proof -
  have run: "ij_status j = JRunning \<longrightarrow> 1 \<le> ij_attempt j" if "j \<in> set (co_jobs c)" for j
    using assms(1) that by (simp add: index_but_def index_rows_def)
  have "index_rows k (dc_id ` set (co_documents c)) (map (\<lambda>j. if ij_id j = i then f j else j) (co_jobs c)) (co_boxes c) (co_events c)"
    by (rule index_rows_jobs) (use assms run in \<open>auto simp: index_but_def\<close>)
  then show ?thesis unfolding index_but_def docs_frame by (simp add: set_ijob_def upd_row_def)
qed

lemma set_ibox_but:
  assumes "index_but k c" "\<And>b. ib_job (g b) = ib_job b \<and> ib_attempts (g b) = ib_attempts b"
  shows "index_but k (set_ibox i g c)"
proof -
  have "index_rows k (dc_id ` set (co_documents c)) (co_jobs c) (map (\<lambda>b. if ib_job b = i then g b else b) (co_boxes c)) (co_events c)"
    by (rule index_rows_boxes) (use assms in \<open>auto simp: index_but_def index_rows_def\<close>)
  then show ?thesis unfolding index_but_def docs_frame by (simp add: set_ibox_def upd_row_def)
qed

lemma put_ibox_ok:
  assumes "index_but (Some k) c" "k \<in> ij_id ` set (co_jobs c)"
  shows "index_ok (put_ibox k m now c)"
proof (cases "ibox_of c k")
  case None
  then have "k \<notin> ib_job ` set (co_boxes c)" by (simp add: ibox_of_def get_row_None_iff)
  then show ?thesis using assms None index_rows_new_box [of k _ "co_jobs c" "co_boxes c" _ "new_ibox k m now"]
    by (simp add: index_ok_def index_but_def put_ibox_def new_ibox_def co_documents_def)
next
  case (Some b)
  then have b: "k \<in> ib_job ` set (co_boxes c)" by (auto simp: ibox_of_def dest: get_row_SomeD)
  have "index_but (Some k) (put_ibox k m now c)" using Some assms(1) by (simp add: put_ibox_def set_ibox_but)
  moreover have "ib_job ` set (co_boxes (put_ibox k m now c)) = ib_job ` set (co_boxes c)"
  proof -
    have "map ib_job (co_boxes (put_ibox k m now c)) = map ib_job (co_boxes c)"
      using Some by (simp add: put_ibox_def set_ibox_def map_key_upd_row)
    then show ?thesis by (metis set_map)
  qed
  ultimately show ?thesis using b unfolding index_ok_def index_but_def by (intro index_rows_boxed) simp_all
qed

text \<open>What the operations on the indexing tables leave alone.\<close>

definition same_rest :: "corpus \<Rightarrow> corpus \<Rightarrow> bool" where
  "same_rest c c' \<longleftrightarrow> co_graph c' = co_graph c \<and> queue_of c' = queue_of c \<and> co_datasets c' = co_datasets c"

lemma same_rest_simps [simp]:
  "same_rest c c" "same_rest c (set_ijob k f c') = same_rest c c'" "same_rest c (set_ibox k g c') = same_rest c c'"
  "same_rest c (put_ibox k m now c') = same_rest c c'" "same_rest c (c'\<lparr>co_boxes := bs\<rparr>) = same_rest c c'"
  "same_rest c (c'\<lparr>co_jobs := js\<rparr>) = same_rest c c'" "same_rest c (c'\<lparr>co_events := es\<rparr>) = same_rest c c'"
  "same_rest c (c'\<lparr>co_cleanups := cl\<rparr>) = same_rest c c'"
  by (simp_all add: same_rest_def set_ijob_def set_ibox_def put_ibox_def queue_of_def split: option.split)

lemma index_change_ok: "corpus_ok c \<Longrightarrow> same_rest c c' \<Longrightarrow> index_ok c' \<Longrightarrow> corpus_ok c'"
  by (simp add: corpus_ok_def same_rest_def datasets_ok_def co_documents_def)

lemma corpus_ok_index: "corpus_ok c \<Longrightarrow> index_ok c"
  by (simp add: corpus_ok_def)

lemma ijob_of_SomeD: "ijob_of c k = Some j \<Longrightarrow> j \<in> set (co_jobs c) \<and> ij_id j = k"
  unfolding ijob_of_def by (rule get_row_SomeD)

lemma ijob_key: "ijob_of c k \<noteq> None \<Longrightarrow> k \<in> ij_id ` set (co_jobs c)"
  by (auto dest: ijob_of_SomeD)

lemma set_ijob_keys [simp]:
  "(\<And>j. ij_id (f j) = ij_id j) \<Longrightarrow> ij_id ` set (co_jobs (set_ijob k f c)) = ij_id ` set (co_jobs c)"
  by (metis (no_types, lifting) map_key_upd_row set_map corpus.select_convs(3) corpus.surjective corpus.update_convs(3) set_ijob_def)

lemma job_update_ok:
  assumes "corpus_ok c" "\<And>j. ij_id (f j) = ij_id j \<and> ij_document (f j) = ij_document j \<and> ij_pipeline (f j) = ij_pipeline j"
    "\<And>j. j \<in> set (co_jobs c) \<Longrightarrow> ij_id j = k \<Longrightarrow>
       (ij_status (f j) = JQueued \<longrightarrow> ij_status j = JQueued) \<and> (ij_status (f j) = JRunning \<longrightarrow> 1 \<le> ij_attempt (f j))"
  shows "corpus_ok (set_ijob k f c)"
proof (rule index_change_ok [OF assms(1)])
  show "index_ok (set_ijob k f c)"
    using corpus_ok_index [OF assms(1)] unfolding index_ok_def by (rule set_ijob_but) (use assms in auto)
qed simp

text \<open>A job is queued and its outbox row made due in one transaction.\<close>

lemma requeue_document_ok:
  assumes "corpus_ok c" "k \<in> ij_id ` set (co_jobs c)"
    "\<And>j. ij_id (f j) = ij_id j \<and> ij_document (f j) = ij_document j \<and> ij_pipeline (f j) = ij_pipeline j"
    "\<And>j. j \<in> set (co_jobs c) \<Longrightarrow> ij_status (f j) = JRunning \<longrightarrow> 1 \<le> ij_attempt (f j)"
  shows "corpus_ok (put_ibox k m now (set_ijob k f c))"
proof (rule index_change_ok [OF assms(1)])
  have "index_but (Some k) c"
    using corpus_ok_index [OF assms(1)] by (simp add: index_ok_def index_but_def index_rows_weaken)
  then have "index_but (Some k) (set_ijob k f c)" by (rule set_ijob_but) (use assms(3,4) in auto)
  then show "index_ok (put_ibox k m now (set_ijob k f c))" by (rule put_ibox_ok) (use assms(2,3) in simp)
qed simp

lemma running_attempt: "corpus_ok c \<Longrightarrow> j \<in> set (co_jobs c) \<Longrightarrow> ij_status j = JRunning \<Longrightarrow> 1 \<le> ij_attempt j"
  by (simp add: corpus_ok_def index_ok_def index_but_def index_rows_def)

section \<open>Documents\<close>

definition keeps_identity :: "(document \<Rightarrow> document) \<Rightarrow> bool" where
  "keeps_identity f \<longleftrightarrow> (\<forall>x. dc_id (f x) = dc_id x \<and> dc_project (f x) = dc_project x \<and> dc_dataset (f x) = dc_dataset x
     \<and> dc_hash (f x) = dc_hash x)"

lemma set_document_ok:
  assumes "corpus_ok c" "keeps_identity f"
  shows "corpus_ok (set_document k f c)"
proof -
  let ?ds = "g_documents (co_graph c)"
  let ?es = "upd_row dc_id k f ?ds"
  have f: "dc_id (f x) = dc_id x" "dc_project (f x) = dc_project x" "dc_dataset (f x) = dc_dataset x" "dc_hash (f x) = dc_hash x" for x
    using assms(2) by (simp_all add: keeps_identity_def)
  have m: "map dc_id ?es = map dc_id ?ds" "map dc_dataset ?es = map dc_dataset ?ds"
    "map (\<lambda>x. (dc_project x, dc_dataset x, dc_hash x)) ?es = map (\<lambda>x. (dc_project x, dc_dataset x, dc_hash x)) ?ds"
    by (simp_all add: map_key_upd_row upd_row_map_other f)
  have i: "dc_id ` set ?es = dc_id ` set ?ds" "dc_dataset ` set ?es = dc_dataset ` set ?ds"
    using m by (metis set_map)+
  show ?thesis
    using assms(1) m i
    by (simp add: corpus_ok_def set_document_def graph_keys_def graph_refs_def merges_scoped_def queue_of_def queue_ok_def
        index_ok_def index_but_def datasets_ok_def co_documents_def)
qed

lemma keeps_identity_simps [simp]:
  "keeps_identity (\<lambda>y. y\<lparr>dc_status := st\<rparr>)" "keeps_identity (\<lambda>y. y\<lparr>dc_status := st, dc_error := e\<rparr>)"
  "keeps_identity (\<lambda>y. if P y then y\<lparr>dc_status := st, dc_error := e\<rparr> else y)"
  by (auto simp: keeps_identity_def)

section \<open>Rows of the graph go\<close>

lemma graph_parts:
  "corpus_ok c \<Longrightarrow> graph_keys (co_graph c)" "corpus_ok c \<Longrightarrow> graph_refs (co_graph c)" "corpus_ok c \<Longrightarrow> merges_scoped (co_graph c)"
  by (simp_all add: corpus_ok_def)

definition graph_tables_ok :: "graph_db \<Rightarrow> bool" where
  "graph_tables_ok g \<longleftrightarrow> graph_keys g \<and> graph_refs g \<and> merges_scoped g"

lemma corpus_graph_ok: "corpus_ok c \<Longrightarrow> graph_tables_ok (co_graph c)"
  by (simp add: corpus_ok_def graph_tables_ok_def)

lemma delete_evidence_ok: "graph_tables_ok g \<Longrightarrow> graph_tables_ok (delete_evidence_rows P g)"
  by (simp add: graph_tables_ok_def delete_evidence_refs delete_evidence_keys merges_scoped_def)

lemma delete_chunks_ok:
  assumes "graph_tables_ok g"
  shows "graph_tables_ok (delete_chunk_rows P g)"
proof -
  have "gv_chunk v \<in> ck_id ` set (del_rows P (g_chunks g))"
    if "v \<in> set (g_evidence g)" "gv_chunk v \<notin> set (map ck_id (filter P (g_chunks g)))" for v
    using assms that image_rest [of "gv_chunk v" ck_id "set (g_chunks g)" P] by (simp add: graph_tables_ok_def graph_refs_def)
  then show ?thesis
    using assms by (simp add: graph_tables_ok_def graph_keys_def graph_refs_def merges_scoped_def distinct_map_del_rows)
qed

lemma delete_document_row_ok:
  assumes "graph_tables_ok g"
  shows "graph_tables_ok (delete_document_row k g)"
proof -
  let ?g1 = "delete_chunk_rows (\<lambda>c. ck_document c = k) g"
  have "graph_tables_ok ?g1" by (rule delete_chunks_ok [OF assms])
  then have "graph_tables_ok (?g1\<lparr>g_documents := del_rows (\<lambda>d. dc_id d = k) (g_documents ?g1)\<rparr>)"
    by (auto simp: graph_tables_ok_def graph_keys_def graph_refs_def merges_scoped_def distinct_map_del_rows)
  moreover have "delete_document_row k g =
      delete_evidence_rows (\<lambda>v. gv_document v = k) (?g1\<lparr>g_documents := del_rows (\<lambda>d. dc_id d = k) (g_documents ?g1)\<rparr>)"
    by (simp add: delete_document_row_def delete_chunk_rows_def delete_evidence_rows_def Let_def)
  ultimately show ?thesis by (simp add: delete_evidence_ok)
qed

lemma gc_entities_keys: "graph_keys g \<Longrightarrow> graph_keys (gc_entities p d cands g)"
  by (auto simp: gc_entities_def graph_keys_def Let_def distinct_map_del_rows)

lemma gc_mid_keys: "graph_keys g \<Longrightarrow> graph_keys (gc_mid p d doc g)"
  by (auto simp: gc_mid_def gc_aliases_def gc_relations_def graph_keys_def Let_def distinct_map_del_rows)

lemma cleanup_ok:
  assumes "graph_tables_ok g"
  shows "graph_tables_ok (cleanup_document_graph p d doc g)"
proof -
  have mid: "graph_refs (gc_mid p d doc g)" "merges_scoped (gc_mid p d doc g)" "graph_keys (gc_mid p d doc g)"
    using assms gc_mid_refs gc_mid_keys by (auto simp: graph_tables_ok_def merges_scoped_def)
  have "merges_scoped (gc_entities p d cands (gc_mid p d doc g))" for cands
    using mid(2) gc_entities_merges gc_entities_set unfolding merges_scoped_def by blast
  then show ?thesis unfolding cleanup_eq graph_tables_ok_def using mid by (simp add: gc_entities_refs gc_entities_keys)
qed

lemma cleanup_tables [simp]:
  "g_documents (cleanup_document_graph p d doc g) = g_documents g" "g_chunks (cleanup_document_graph p d doc g) = g_chunks g"
  by (auto simp: cleanup_eq gc_entities_def Let_def)

lemma insert_chunks_ok:
  assumes "graph_tables_ok g" "insert_chunks rows g = Inr g'" "\<And>r. r \<in> set rows \<Longrightarrow> ck_document r \<in> dc_id ` set (g_documents g)"
  shows "graph_tables_ok g' \<and> g_documents g' = g_documents g"
proof -
  have g': "g' = g\<lparr>g_chunks := g_chunks g @ rows\<rparr>" "distinct (map ck_id rows)" "ck_id ` set rows \<inter> ck_id ` set (g_chunks g) = {}"
    using assms(2) by (auto simp: insert_chunks_def bindE_Inr_iff insert_rows_Inr_iff)
  show ?thesis using assms(1,3) g'(2,3)
    by (auto simp: g'(1) graph_tables_ok_def graph_keys_def graph_refs_def merges_scoped_def)
qed

lemma clear_chunks_ok:
  assumes "graph_tables_ok g"
  shows "graph_tables_ok (clear_chunks x g) \<and> g_documents (clear_chunks x g) = g_documents g"
  using assms by (simp add: clear_chunks_def cleanup_ok delete_chunks_ok)

lemma chunk_rows_document: "r \<in> set (chunk_rows sha x meta embs items) \<Longrightarrow> ck_document r = dc_id x"
  by (induction sha x meta embs items rule: chunk_rows.induct) (auto simp: chunk_row_def)

section \<open>Documents go\<close>

lemma drop_document_parts:
  "co_datasets (drop_document k c) = co_datasets c"
  "co_documents (drop_document k c) = del_rows (\<lambda>d. dc_id d = k) (co_documents c)"
  "queue_of (drop_document k c) = delete_job_document k (queue_of c)"
  by (simp_all add: drop_document_def drop_ijobs_def Let_def queue_of_def delete_job_document_def co_documents_def
      delete_document_row_def delete_chunk_rows_def delete_evidence_rows_def)

lemma drop_document_ok:
  assumes "corpus_ok c"
  shows "corpus_ok (drop_document k c)"
proof -
  have g: "graph_tables_ok (co_graph (drop_document k c))"
    using corpus_graph_ok [OF assms] by (simp add: drop_document_graph delete_document_row_ok)
  have q: "queue_ok (queue_of (drop_document k c))" using assms by (simp add: drop_document_parts delete_ok corpus_ok_def)
  have docs: "dc_id ` set (del_rows (\<lambda>d. dc_id d = k) (co_documents c)) = dc_id ` set (co_documents c) - {k}" by auto
  have "index_ok c" using assms by (rule corpus_ok_index)
  then have "index_rows None (dc_id ` set (co_documents c) - {k}) (co_jobs (drop_document k c)) (co_boxes (drop_document k c))
      (co_events (drop_document k c))"
    unfolding index_ok_def index_but_def drop_document_def drop_ijobs_def Let_def
    by (simp del: set_filter set_del_rows) (rule index_rows_drop, auto simp: index_rows_def)
  then have "index_ok (drop_document k c)" by (simp add: index_ok_def index_but_def drop_document_parts docs del: set_del_rows)
  moreover have "datasets_ok (drop_document k c)"
    using assms by (auto simp: corpus_ok_def datasets_ok_def drop_document_parts distinct_map_del_rows)
  ultimately show ?thesis using g q by (simp add: corpus_ok_def graph_tables_ok_def)
qed

section \<open>Datasets go\<close>

lemma drop_dataset_graph_ok:
  assumes ok: "graph_tables_ok g" and free: "\<not> restricted d g"
  shows "graph_tables_ok (drop_dataset_graph d g)"
proof -
  let ?gone = "en_id ` {e \<in> set (g_entities g). en_dataset e = d}"
  let ?rgone = "rl_id ` {r \<in> set (g_relations g). rl_dataset r = d}"
  let ?g = "drop_dataset_graph d g"
  have keep: "k \<in> en_id ` {e \<in> set (g_entities g). en_dataset e \<noteq> d}"
    if "k \<in> en_id ` set (g_entities g)" "k \<notin> ?gone" for k using that by blast
  have sets: "set (g_entities ?g) = {e \<in> set (g_entities g). en_dataset e \<noteq> d}"
    "set (g_relations ?g) = {r \<in> set (g_relations g). rl_dataset r \<noteq> d}"
    "set (g_evidence ?g) = {v \<in> set (g_evidence g). gv_dataset v \<noteq> d \<and> gv_entity v \<notin> Some ` ?gone \<and> gv_relation v \<notin> Some ` ?rgone}"
    "set (g_aliases ?g) = {a \<in> set (g_aliases g). as_dataset a \<noteq> d \<and> as_entity a \<notin> ?gone}"
    "set (g_merges ?g) = {m \<in> set (g_merges g). mg_dataset m \<noteq> d}"
    "g_chunks ?g = g_chunks g" "g_documents ?g = g_documents g"
    by (auto simp: drop_dataset_graph_def Let_def)
  have rel: "rl_source r \<notin> ?gone \<and> rl_target r \<notin> ?gone" if "r \<in> set (g_relations g)" "rl_dataset r \<noteq> d" for r
    using free that by (auto simp: restricted_def list_ex_iff)
  have mg: "mg_source m \<notin> ?gone \<and> mg_target m \<notin> ?gone" if "m \<in> set (g_merges g)" "mg_dataset m \<noteq> d" for m
    using free that by (auto simp: restricted_def list_ex_iff)
  have refs: "graph_refs g" using ok by (simp add: graph_tables_ok_def)
  have ev: "opt_in (gv_entity v) (en_id ` set (g_entities ?g)) \<and> opt_in (gv_relation v) (rl_id ` set (g_relations ?g))"
    if v: "v \<in> set (g_evidence ?g)" for v
  proof -
    have v0: "v \<in> set (g_evidence g)" "gv_entity v \<notin> Some ` ?gone" "gv_relation v \<notin> Some ` ?rgone" using v by (simp_all add: sets(3))
    have "opt_in (gv_entity v) (en_id ` set (g_entities g))" "opt_in (gv_relation v) (rl_id ` set (g_relations g))"
      using refs v0(1) by (simp_all add: graph_refs_def)
    then show ?thesis using v0(2,3) keep image_rest [of _ rl_id "set (g_relations g)" "\<lambda>r. rl_dataset r = d"]
      unfolding sets(1,2) by (cases "gv_entity v"; cases "gv_relation v") auto
  qed
  have "graph_refs ?g"
    unfolding graph_refs_def
  proof (intro conjI ballI)
    fix r assume "r \<in> set (g_relations ?g)"
    then have r: "r \<in> set (g_relations g)" "rl_dataset r \<noteq> d" by (simp_all add: sets)
    then show "rl_source r \<in> en_id ` set (g_entities ?g)" "rl_target r \<in> en_id ` set (g_entities ?g)" "rl_source r \<noteq> rl_target r"
      using refs keep rel [OF r] unfolding sets(1) by (simp_all add: graph_refs_def)
  next
    fix v assume v: "v \<in> set (g_evidence ?g)"
    then show "opt_in (gv_entity v) (en_id ` set (g_entities ?g))" "opt_in (gv_relation v) (rl_id ` set (g_relations ?g))"
      using ev by simp_all
    have "v \<in> set (g_evidence g)" using v by (simp add: sets)
    then show "(gv_entity v = None) \<noteq> (gv_relation v = None)" "gv_chunk v \<in> ck_id ` set (g_chunks ?g)"
      using refs by (simp_all add: graph_refs_def sets)
  next
    fix a assume "a \<in> set (g_aliases ?g)"
    then show "as_entity a \<in> en_id ` set (g_entities ?g)" using refs keep unfolding sets(1,4) by (simp add: graph_refs_def)
  next
    fix m assume "m \<in> set (g_merges ?g)"
    then have m: "m \<in> set (g_merges g)" "mg_dataset m \<noteq> d" by (simp_all add: sets)
    then show "mg_source m \<in> en_id ` set (g_entities ?g)" "mg_target m \<in> en_id ` set (g_entities ?g)"
      using refs keep mg [OF m] unfolding sets(1) by (simp_all add: graph_refs_def)
  next
    fix c assume "c \<in> set (g_chunks ?g)"
    then show "ck_document c \<in> dc_id ` set (g_documents ?g)" using refs by (simp add: graph_refs_def sets)
  qed
  moreover have "graph_keys ?g"
    using ok by (simp add: graph_tables_ok_def graph_keys_def drop_dataset_graph_def Let_def distinct_map_del_rows)
  moreover have "merges_scoped ?g" using ok unfolding graph_tables_ok_def merges_scoped_def sets(1,5) by blast
  ultimately show ?thesis by (simp add: graph_tables_ok_def)
qed

lemma fold_drop_documents_ok: "corpus_ok c \<Longrightarrow> corpus_ok (fold drop_document ks c)"
  by (induction ks arbitrary: c) (auto simp: drop_document_ok)

lemma fold_drop_documents_parts:
  "co_datasets (fold drop_document ks c) = co_datasets c"
  "co_documents (fold drop_document ks c) = del_rows (\<lambda>d. dc_id d \<in> set ks) (co_documents c)"
  by (induction ks arbitrary: c) (simp_all add: drop_document_parts del_rows_del_rows, auto simp: del_rows_def intro!: filter_cong)

lemma drop_dataset_graph_docs [simp]: "g_documents (drop_dataset_graph d g) = g_documents g"
  by (simp add: drop_dataset_graph_def Let_def)

lemma restricted_documents:
  "restricted d (co_graph (fold drop_document ks c)) = restricted d (co_graph c)"
proof (induction ks arbitrary: c)
  case (Cons k ks)
  then show ?case by (simp add: drop_document_graph restricted_def delete_document_row_graph)
qed simp

lemma drop_dataset_ok:
  assumes ok: "corpus_ok c" and free: "\<not> restricted d (co_graph c)"
  shows "corpus_ok (drop_dataset d c)"
proof -
  let ?ks = "map dc_id (filter (\<lambda>x. dc_dataset x = d) (co_documents c))"
  let ?c = "fold drop_document ?ks c"
  have c: "corpus_ok ?c" by (rule fold_drop_documents_ok [OF ok])
  have docs: "dc_dataset x \<noteq> d" if "x \<in> set (co_documents ?c)" for x
    using that by (auto simp: fold_drop_documents_parts)
  have g: "graph_tables_ok (drop_dataset_graph d (co_graph ?c))"
    by (rule drop_dataset_graph_ok [OF corpus_graph_ok [OF c]]) (simp only: restricted_documents free not_False_eq_True)
  have eq: "drop_dataset d c = ?c\<lparr>co_graph := drop_dataset_graph d (co_graph ?c),
      co_datasets := del_rows (\<lambda>x. ds_id x = d) (co_datasets ?c)\<rparr>"
    by (simp add: drop_dataset_def Let_def)
  have docs_eq: "co_documents (drop_dataset d c) = co_documents ?c" by (simp add: eq co_documents_def)
  have "queue_of (drop_dataset d c) = queue_of ?c" by (simp add: eq queue_of_def)
  moreover have "index_ok (drop_dataset d c) = index_ok ?c" by (simp add: index_ok_def index_but_def docs_eq) (simp add: eq)
  moreover have "datasets_ok (drop_dataset d c)"
  proof -
    have D: "distinct (map ds_id (co_datasets ?c))" "distinct (map (\<lambda>x. (ds_project x, ds_name x)) (co_datasets ?c))"
      "distinct (map (\<lambda>x. (dc_project x, dc_dataset x, dc_hash x)) (co_documents ?c))"
      "dc_dataset ` set (co_documents ?c) \<subseteq> ds_id ` set (co_datasets ?c)"
      using c unfolding corpus_ok_def datasets_ok_def by blast+
    have rows: "co_datasets (drop_dataset d c) = del_rows (\<lambda>x. ds_id x = d) (co_datasets ?c)" by (simp add: eq)
    have "dc_dataset x \<in> ds_id ` set (co_datasets (drop_dataset d c))" if x: "x \<in> set (co_documents ?c)" for x
    proof -
      have "dc_dataset x \<in> ds_id ` set (co_datasets ?c)" using D(4) x by blast
      then show ?thesis using docs [OF x] by (auto simp: rows)
    qed
    then show ?thesis using D(1-3) unfolding datasets_ok_def docs_eq by (auto simp: rows distinct_map_del_rows)
  qed
  ultimately show ?thesis using c g by (simp add: corpus_ok_def graph_tables_ok_def) (simp add: eq)
qed

section \<open>The transactions of an indexing run\<close>

lemma document_of_SomeD: "document_of c k = Some x \<Longrightarrow> x \<in> set (co_documents c) \<and> dc_id x = k"
  unfolding document_of_def by (rule get_row_SomeD)

lemma document_key: "document_of c k \<noteq> None \<Longrightarrow> k \<in> dc_id ` set (co_documents c)"
  by (auto dest: document_of_SomeD)

lemma enqueue_document_ok:
  assumes ok: "corpus_ok c" and x: "dc_id x \<in> dc_id ` set (co_documents c)" and res: "enqueue_document env d x c = Inr c'"
  shows "corpus_ok c'"
proof -
  let ?k = "job_key (ce_sha env) x" and ?now = "ce_now env"
  have requeue: "corpus_ok (requeue_document ?k x ?now (set_ijob ?k f c))"
    if j: "ijob_of c ?k \<noteq> None"
      and f: "\<And>j. ij_id (f j) = ij_id j \<and> ij_document (f j) = ij_document j \<and> ij_pipeline (f j) = ij_pipeline j"
        "\<And>j. ij_status (f j) = JRunning \<Longrightarrow> ij_status j = JRunning \<and> ij_attempt (f j) = ij_attempt j" for f
    unfolding requeue_document_def
    by (rule set_document_ok, rule requeue_document_ok [OF ok ijob_key [OF j] f(1)])
      (use f(2) in \<open>auto simp: running_attempt [OF ok, simplified]\<close>)
  consider (new) trace where "ijob_of c ?k = None" "c' = requeue_document ?k x ?now (c\<lparr>co_jobs := co_jobs c @ [new_ijob ?k trace x ?now]\<rparr>)"
      "\<not> (\<exists>i\<in>set (co_jobs c). ij_document i = dc_id x \<and> ij_pipeline i = PIPELINE_VERSION)"
    | (finished) "c' = set_document (dc_id x) (\<lambda>y. y\<lparr>dc_status := Indexed, dc_error := None\<rparr>) c"
    | (again) "ijob_of c ?k \<noteq> None" "c' = requeue_document ?k x ?now (set_ijob ?k (\<lambda>i. i) c)"
    | (failed) "ijob_of c ?k \<noteq> None"
       "c' = requeue_document ?k x ?now (set_ijob ?k (\<lambda>i. i\<lparr>ij_status := JQueued, ij_stage := StQueued, ij_updated := ?now\<rparr>) c)"
  proof (cases "ijob_of c ?k")
    case None
    then show ?thesis using res new
      by (auto simp: enqueue_document_def Let_def bindE_Inr_iff insert_ijob_def list_ex_iff new_ijob_def split: if_splits)
  next
    case (Some j)
    have "set_ijob ?k (\<lambda>i. i) c = c" by (simp add: set_ijob_def upd_row_def)
    then show ?thesis using res Some finished again failed by (auto simp: enqueue_document_def Let_def split: if_splits)
  qed
  then show ?thesis
  proof cases
    case (new trace)
    let ?j = "new_ijob ?k trace x ?now"
    let ?c = "c\<lparr>co_jobs := co_jobs c @ [?j]\<rparr>"
    have "index_rows None (dc_id ` set (co_documents c)) (co_jobs c) (co_boxes c) (co_events c)"
      using corpus_ok_index [OF ok] by (simp add: index_ok_def index_but_def)
    moreover have "?k \<notin> ij_id ` set (co_jobs c)" using new(1) by (simp add: ijob_of_def get_row_None_iff)
    ultimately have "index_rows (Some (ij_id ?j)) (dc_id ` set (co_documents c)) (co_jobs c @ [?j]) (co_boxes c) (co_events c)"
      by (intro index_rows_new_job) (use x new(3) in \<open>simp_all add: new_ijob_def\<close>)
    then have "index_but (Some ?k) ?c" by (simp add: index_but_def co_documents_def new_ijob_def)
    then have "index_ok (put_ibox ?k None ?now ?c)" by (rule put_ibox_ok) (simp add: new_ijob_def)
    then have "corpus_ok (put_ibox ?k None ?now ?c)" by (rule index_change_ok [OF ok, rotated]) simp
    then show ?thesis using new(2) by (simp add: requeue_document_def set_document_ok)
  next
    case finished then show ?thesis by (simp add: set_document_ok ok)
  next
    case again
    show ?thesis unfolding again(2) by (rule requeue [OF again(1)]) simp_all
  next
    case failed
    show ?thesis unfolding failed(2) by (rule requeue [OF failed(1)]) simp_all
  qed
qed

lemma claim_job_ok:
  assumes "corpus_ok c" "claim_job now k c = Inr (r, c')"
  shows "corpus_ok c'"
proof -
  have "corpus_ok (set_ijob k (\<lambda>i. i\<lparr>ij_status := JRunning, ij_attempt := ij_attempt i + 1,
      ij_code := None, ij_message := None, ij_updated := now\<rparr>) c)"
    by (rule job_update_ok [OF assms(1)]) simp_all
  then show ?thesis using assms by (auto simp: claim_job_def split: option.splits if_splits)
qed

lemma add_event_ok:
  assumes ok: "corpus_ok c" and e: "add_event e c = Inr c'" "ie_job e \<in> ij_id ` set (co_jobs c)"
  shows "corpus_ok c'"
proof -
  have c': "c' = c\<lparr>co_events := co_events c @ [e]\<rparr>" "ie_id e \<notin> ie_id ` set (co_events c)"
    using e(1) by (auto simp: add_event_def bindE_Inr_iff insert_row_Inr_iff)
  have "index_rows None (dc_id ` set (co_documents c)) (co_jobs c) (co_boxes c) (co_events c @ [e])"
    using corpus_ok_index [OF ok] c'(2) e(2) by (intro index_rows_event) (simp_all add: index_ok_def index_but_def)
  then show ?thesis
    by (intro index_change_ok [OF ok]) (simp_all add: c'(1) index_ok_def index_but_def co_documents_def)
qed

lemma set_document_jobs [simp]: "co_jobs (set_document k f c) = co_jobs c"
  by (simp add: set_document_def)

lemma enter_stage_ok:
  assumes ok: "corpus_ok c" and res: "enter_stage env k n doc status st c = Inr c'"
  shows "corpus_ok c'"
proof -
  let ?c1 = "case status of None \<Rightarrow> c | Some x \<Rightarrow> set_document doc (\<lambda>y. y\<lparr>dc_status := x\<rparr>) c"
  let ?c2 = "set_ijob k (\<lambda>i. i\<lparr>ij_stage := st, ij_updated := ce_now env\<rparr>) ?c1"
  have job: "ijob_of c k \<noteq> None"
    and ev: "add_event \<lparr>ie_id = event_key (ce_sha env) k n st, ie_job = k, ie_attempt = n, ie_stage = st\<rparr> ?c2 = Inr c'"
    using res by (auto simp: enter_stage_def Let_def split: if_splits)
  have c1: "corpus_ok ?c1" using ok by (auto simp: set_document_ok split: option.split)
  have "co_jobs ?c1 = co_jobs c" by (auto split: option.split)
  then have key: "k \<in> ij_id ` set (co_jobs ?c2)" using ijob_key [OF job] by simp
  have "corpus_ok ?c2" by (rule job_update_ok [OF c1]) (simp_all add: running_attempt [OF c1, simplified])
  then show ?thesis using ev by (rule add_event_ok) (use key in simp)
qed

lemma fail_job_ok:
  "corpus_ok c \<Longrightarrow> corpus_ok (set_ijob k (\<lambda>i. i\<lparr>ij_status := JFailed, ij_code := e, ij_message := m, ij_updated := now\<rparr>) c)"
  by (rule job_update_ok) simp_all

lemma fail_ingestion_ok: "corpus_ok c \<Longrightarrow> corpus_ok (fail_ingestion env k e c)"
  by (cases "ijob_of c k") (simp_all add: fail_ingestion_def Let_def set_document_ok fail_job_ok)

lemma graph_change_ok:
  assumes "corpus_ok c" "graph_tables_ok g" "g_documents g = g_documents (co_graph c)"
  shows "corpus_ok (c\<lparr>co_graph := g\<rparr>)"
  using assms by (simp add: corpus_ok_def graph_tables_ok_def queue_of_def index_ok_def index_but_def datasets_ok_def co_documents_def)

text \<open>A change of the queue of graph jobs keeps the documents' identity.\<close>

definition same_documents :: "document list \<Rightarrow> document list \<Rightarrow> bool" where
  "same_documents xs ys \<longleftrightarrow> map (\<lambda>x. (dc_id x, dc_project x, dc_dataset x, dc_hash x)) xs
     = map (\<lambda>x. (dc_id x, dc_project x, dc_dataset x, dc_hash x)) ys"

lemma same_documents_maps:
  assumes "same_documents xs ys"
  shows "map dc_id xs = map dc_id ys" "map dc_dataset xs = map dc_dataset ys"
    "map (\<lambda>x. (dc_project x, dc_dataset x, dc_hash x)) xs = map (\<lambda>x. (dc_project x, dc_dataset x, dc_hash x)) ys"
proof -
  let ?t = "\<lambda>x. (dc_id x, dc_project x, dc_dataset x, dc_hash x)"
  have m: "map ?t xs = map ?t ys" using assms by (simp add: same_documents_def)
  have "map (h \<circ> ?t) xs = map (h \<circ> ?t) ys" for h :: "string \<times> string \<times> string \<times> string \<Rightarrow> 'z"
    using arg_cong [OF m, of "map h"] by simp
  from this [of fst] this [of "\<lambda>t. fst (snd (snd t))"] this [of snd]
  show "map dc_id xs = map dc_id ys" "map dc_dataset xs = map dc_dataset ys"
    "map (\<lambda>x. (dc_project x, dc_dataset x, dc_hash x)) xs = map (\<lambda>x. (dc_project x, dc_dataset x, dc_hash x)) ys"
    by (simp_all add: o_def)
qed

lemma queue_change_ok:
  assumes "corpus_ok c" "queue_ok q" "same_documents (q_documents q) (co_documents c)"
  shows "corpus_ok (with_queue q c)"
proof -
  note m = same_documents_maps [OF assms(3), unfolded co_documents_def]
  have i: "dc_id ` set (q_documents q) = dc_id ` set (g_documents (co_graph c))"
    "dc_dataset ` set (q_documents q) = dc_dataset ` set (g_documents (co_graph c))" using m by (metis set_map)+
  have "queue_of (with_queue q c) = q" by (simp add: queue_of_def with_queue_def)
  moreover have "graph_keys (co_graph (with_queue q c)) = graph_keys (co_graph c)"
    "graph_refs (co_graph (with_queue q c)) = graph_refs (co_graph c)"
    "merges_scoped (co_graph (with_queue q c)) = merges_scoped (co_graph c)"
    "index_ok (with_queue q c) = index_ok c" "datasets_ok (with_queue q c) = datasets_ok c"
    using m i by (simp_all add: with_queue_def graph_keys_def graph_refs_def merges_scoped_def
        index_ok_def index_but_def datasets_ok_def co_documents_def)
  ultimately show ?thesis using assms(1,2) by (simp add: corpus_ok_def)
qed

lemma set_document_ids:
  assumes "keeps_identity f"
  shows "dc_id ` set (co_documents (set_document k f c)) = dc_id ` set (co_documents c)"
proof -
  have "map dc_id (upd_row dc_id k f (co_documents c)) = map dc_id (co_documents c)"
    using assms by (simp add: map_key_upd_row keeps_identity_def)
  then have "dc_id ` set (upd_row dc_id k f (co_documents c)) = dc_id ` set (co_documents c)" by (metis set_map)
  then show ?thesis by (simp add: set_document_def co_documents_def)
qed

lemma finish_ingestion_ok:
  assumes ok: "corpus_ok c" and res: "finish_ingestion env m k n x rows c = Inr c'"
    and rows: "\<And>r. r \<in> set rows \<Longrightarrow> ck_document r = dc_id x"
  shows "corpus_ok c'"
proof -
  have job: "ijob_of c k \<noteq> None" and doc: "document_of c (dc_id x) \<noteq> None"
    using res by (auto simp: finish_ingestion_def split: if_splits)
  obtain g c1 where g: "insert_chunks rows (clear_chunks x (co_graph c)) = Inr g"
    and c1: "add_event \<lparr>ie_id = event_key (ce_sha env) k n StComplete, ie_job = k, ie_attempt = n, ie_stage = StComplete\<rparr>
        (c\<lparr>co_graph := g\<rparr>) = Inr c1"
    and c': "c' = (let c2 = set_ijob k (\<lambda>i. i\<lparr>ij_status := JSucceeded, ij_stage := StComplete, ij_updated := ce_now env\<rparr>)
        (set_document (dc_id x) (\<lambda>y. y\<lparr>dc_status := Persisting, dc_error := None\<rparr>) c1) in
        with_queue (enqueue_graph_extraction (ce_sha env) m x (ce_now env) (queue_of c2)) c2)"
    using res by (auto simp: finish_ingestion_def bindE_Inr_iff Let_def split: if_splits)
  have clear: "graph_tables_ok (clear_chunks x (co_graph c))" "g_documents (clear_chunks x (co_graph c)) = g_documents (co_graph c)"
    using clear_chunks_ok [OF corpus_graph_ok [OF ok]] by simp_all
  have "graph_tables_ok g \<and> g_documents g = g_documents (clear_chunks x (co_graph c))"
    by (rule insert_chunks_ok [OF clear(1) g]) (use rows document_key [OF doc] clear(2) in \<open>simp add: co_documents_def\<close>)
  then have gc: "corpus_ok (c\<lparr>co_graph := g\<rparr>)" "g_documents g = g_documents (co_graph c)"
    using clear(2) by (simp_all add: graph_change_ok ok)
  have "corpus_ok c1" by (rule add_event_ok [OF gc(1) c1]) (use ijob_key [OF job] in simp)
  define c2 where "c2 = set_ijob k (\<lambda>i. i\<lparr>ij_status := JSucceeded, ij_stage := StComplete, ij_updated := ce_now env\<rparr>)
        (set_document (dc_id x) (\<lambda>y. y\<lparr>dc_status := Persisting, dc_error := None\<rparr>) c1)"
  have ok2: "corpus_ok c2" unfolding c2_def by (rule job_update_ok) (simp_all add: set_document_ok \<open>corpus_ok c1\<close>)
  have "co_documents c1 = co_documents c"
    using c1 gc(2) by (auto simp: add_event_def bindE_Inr_iff co_documents_def)
  then have "dc_id ` set (co_documents c2) = dc_id ` set (co_documents c)"
    unfolding c2_def docs_frame by (simp add: set_document_ids)
  then have x2: "dc_id x \<in> dc_id ` set (q_documents (queue_of c2))"
    using document_key [OF doc] by (simp add: queue_of_def co_documents_def)
  have q: "queue_ok (enqueue_graph_extraction (ce_sha env) m x (ce_now env) (queue_of c2))"
    by (rule enqueue_row_ok [OF _ x2]) (use ok2 in \<open>simp add: corpus_ok_def\<close>)
  have "same_documents (q_documents (enqueue_graph_extraction (ce_sha env) m x (ce_now env) (queue_of c2))) (co_documents c2)"
    by (auto simp: enqueue_graph_extraction_def set_doc_def Let_def same_documents_def queue_of_def co_documents_def upd_row_def
        put_box_def set_box_def set_job_def box_of_def split: option.split)
  then show ?thesis unfolding c' Let_def c2_def [symmetric] by (rule queue_change_ok [OF ok2 q])
qed

section \<open>The durable queue\<close>

lemma boxes_change_ok:
  assumes ok: "corpus_ok c" and g: "\<And>b. b \<in> set (co_boxes c) \<Longrightarrow> ib_job (g b) = ib_job b \<and> ib_attempts (g b) \<le> MAX_INDEXING_OUTBOX_ATTEMPTS"
  shows "corpus_ok (c\<lparr>co_boxes := map g (co_boxes c)\<rparr>)"
proof -
  have "index_rows None (dc_id ` set (co_documents c)) (co_jobs c) (map g (co_boxes c)) (co_events c)"
    by (rule index_rows_boxes) (use corpus_ok_index [OF ok] g in \<open>simp_all add: index_ok_def index_but_def\<close>)
  then show ?thesis by (intro index_change_ok [OF ok]) (simp_all add: index_ok_def index_but_def co_documents_def)
qed

lemma box_attempts: "corpus_ok c \<Longrightarrow> b \<in> set (co_boxes c) \<Longrightarrow> ib_attempts b \<le> MAX_INDEXING_OUTBOX_ATTEMPTS"
  by (simp add: corpus_ok_def index_ok_def index_but_def index_rows_def)

lemma box_keys: "corpus_ok c \<Longrightarrow> distinct (map ib_job (co_boxes c))"
  by (simp add: corpus_ok_def index_ok_def index_but_def index_rows_def)

lemma set_ibox_ok:
  assumes ok: "corpus_ok c" and g: "\<And>b. ib_job (g b) = ib_job b \<and> ib_attempts (g b) = ib_attempts b"
  shows "corpus_ok (set_ibox k g c)"
  unfolding set_ibox_def upd_row_def by (rule boxes_change_ok [OF ok]) (use g box_attempts [OF ok] in auto)

lemma claim_boxes_ok:
  assumes ok: "corpus_ok c"
  shows "corpus_ok (claim_boxes now n c)"
  unfolding claim_boxes_def
proof (rule boxes_change_ok [OF ok])
  fix b assume b: "b \<in> set (co_boxes c)"
  have "ib_attempts b < MAX_INDEXING_OUTBOX_ATTEMPTS" if due: "ib_job b \<in> set (due_jobs n c)"
  proof -
    obtain b' where b': "b' \<in> set (co_boxes c)" "due c b'" "ib_job b' = ib_job b"
      using due set_limit by (fastforce simp: due_jobs_def)
    then have "b' = b" using b box_keys [OF ok] by (simp add: distinct_map inj_on_def)
    then show ?thesis using b' by (simp add: due_def)
  qed
  then show "ib_job (if ib_job b \<in> set (due_jobs n c) then b\<lparr>ib_attempts := ib_attempts b + 1, ib_dispatched := Some now, ib_error := None\<rparr> else b) = ib_job b
     \<and> ib_attempts (if ib_job b \<in> set (due_jobs n c) then b\<lparr>ib_attempts := ib_attempts b + 1, ib_dispatched := Some now, ib_error := None\<rparr> else b) \<le> MAX_INDEXING_OUTBOX_ATTEMPTS"
    using box_attempts [OF ok b] by auto
qed

lemma publish_index_failed_ok:
  assumes "corpus_ok c"
  shows "corpus_ok (publish_index_failed now t k message c)"
proof -
  have "corpus_ok (set_ibox k (\<lambda>b. b\<lparr>ib_dispatched := None, ib_error := Some message\<rparr>) c)"
    by (rule set_ibox_ok [OF assms]) simp
  then show ?thesis using assms
    by (simp add: publish_index_failed_def Let_def set_document_ok fail_job_ok split: option.split)
qed

lemma heartbeat_ok: "corpus_ok c \<Longrightarrow> corpus_ok (indexing_heartbeat now k c)"
  unfolding indexing_heartbeat_def by (rule job_update_ok) (auto simp: running_attempt [simplified])

lemma requeue_indexing_ok:
  assumes "corpus_ok c"
  shows "corpus_ok (requeue_indexing_job now k reason c)"
proof (cases "ijob_of c k")
  case (Some j)
  then have "corpus_ok (put_ibox k (Some reason) now (set_ijob k (\<lambda>i. i\<lparr>ij_status := JQueued, ij_message := Some reason, ij_updated := now\<rparr>) c))"
    by (intro requeue_document_ok [OF assms] ijob_key) simp_all
  then show ?thesis using assms Some by (simp add: requeue_indexing_job_def)
qed (simp add: requeue_indexing_job_def assms)

lemma recover_job_ok:
  assumes "corpus_ok c" "k \<in> ij_id ` set (co_jobs c)"
  shows "corpus_ok (recover_job now k c) \<and> ij_id ` set (co_jobs (recover_job now k c)) = ij_id ` set (co_jobs c)"
proof
  show "corpus_ok (recover_job now k c)" unfolding recover_job_def by (rule requeue_document_ok [OF assms]) simp_all
  have "co_jobs (put_ibox k None now c') = co_jobs c'" for c' by (simp add: put_ibox_def set_ibox_def split: option.split)
  then show "ij_id ` set (co_jobs (recover_job now k c)) = ij_id ` set (co_jobs c)" by (simp add: recover_job_def)
qed

lemma recover_indexing_ok:
  assumes "corpus_ok c"
  shows "corpus_ok (recover_indexing seconds now n c)"
proof -
  let ?P = "\<lambda>s. corpus_ok s \<and> ij_id ` set (co_jobs s) = ij_id ` set (co_jobs c)"
  have "?P (fold (recover_job now) (stale_jobs seconds now n c) c)"
  proof (rule fold_invariant_step)
    fix k s assume k: "k \<in> set (stale_jobs seconds now n c)" and s: "?P s"
    have "k \<in> ij_id ` set (co_jobs c)" using k set_limit by (fastforce simp: stale_jobs_def)
    then show "?P (recover_job now k s)" using recover_job_ok [of s k now] s by simp
  qed (simp add: assms)
  then show ?thesis by (simp add: recover_indexing_def)
qed

lemma redispatch_ok: "corpus_ok c \<Longrightarrow> corpus_ok (redispatch seconds now n c)"
  unfolding redispatch_def by (rule boxes_change_ok) (auto simp: box_attempts)

section \<open>The requests\<close>

lemma cleanups_ok: "corpus_ok c \<Longrightarrow> corpus_ok (c\<lparr>co_cleanups := cl\<rparr>)"
  by (rule index_change_ok, assumption, simp) (simp add: corpus_ok_def index_ok_def index_but_def co_documents_def)

lemma ensure_cleanup_ok: "corpus_ok c \<Longrightarrow> corpus_ok (ensure_cleanup row c)"
  by (simp add: ensure_cleanup_def cleanups_ok split: option.split)

lemma mark_cleanup_ok: "corpus_ok c \<Longrightarrow> corpus_ok (mark_cleanup_ready now k c)"
  by (simp add: mark_cleanup_ready_def cleanups_ok)

lemma set_dataset_ok:
  assumes "corpus_ok c" "\<And>x. ds_id (f x) = ds_id x \<and> ds_project (f x) = ds_project x \<and> ds_name (f x) = ds_name x"
  shows "corpus_ok (set_dataset k f c)"
proof -
  have m: "map ds_id (upd_row ds_id k f (co_datasets c)) = map ds_id (co_datasets c)"
    "map (\<lambda>x. (ds_project x, ds_name x)) (upd_row ds_id k f (co_datasets c)) = map (\<lambda>x. (ds_project x, ds_name x)) (co_datasets c)"
    using assms(2) by (simp_all add: map_key_upd_row upd_row_map_other)
  then have "ds_id ` set (upd_row ds_id k f (co_datasets c)) = ds_id ` set (co_datasets c)" by (metis set_map)
  then show ?thesis using assms(1) m
    by (simp add: corpus_ok_def set_dataset_def queue_of_def index_ok_def index_but_def datasets_ok_def co_documents_def)
qed

lemma begin_document_delete_ok: "corpus_ok c \<Longrightarrow> corpus_ok (begin_document_delete sha x c)"
  by (simp add: begin_document_delete_def create_document_cleanup_def ensure_cleanup_ok set_document_ok)

lemma finish_document_delete_ok: "corpus_ok c \<Longrightarrow> corpus_ok (finish_document_delete env x c)"
  unfolding finish_document_delete_def Let_def
  by (intro mark_cleanup_ok graph_change_ok drop_document_ok cleanup_ok corpus_graph_ok) simp_all

lemma begin_dataset_delete_ok: "corpus_ok c \<Longrightarrow> corpus_ok (begin_dataset_delete sha x c)"
  by (simp add: begin_dataset_delete_def create_dataset_cleanup_def ensure_cleanup_ok set_dataset_ok)

lemma fail_document_ok: "corpus_ok c \<Longrightarrow> corpus_ok (fail_document k message c)"
  by (simp add: fail_document_def set_document_ok)

lemma owned_Inr: "owned c p k = Inr x \<Longrightarrow> x \<in> set (co_datasets c) \<and> ds_id x = normalize_dataset_id k \<and> ds_project x = p"
  by (auto simp: owned_def find_Some_iff split: option.splits)

lemma normalize_twice [simp]: "normalize_dataset_id (normalize_dataset_id k) = normalize_dataset_id k"
  by (simp add: normalize_dataset_id_def)

lemma add_document_ok:
  assumes ok: "corpus_ok c" and x: "dc_id x \<notin> dc_id ` set (co_documents c)" "dc_dataset x \<in> ds_id ` set (co_datasets c)"
    "find_by_hash (dc_project x) (dc_dataset x) (dc_hash x) c = None"
  shows "corpus_ok (add_document x c)"
proof -
  have hash: "(dc_project x, dc_dataset x, dc_hash x) \<notin> (\<lambda>x. (dc_project x, dc_dataset x, dc_hash x)) ` set (co_documents c)"
    using x(3) by (auto simp: find_by_hash_def find_None_iff)
  have "index_rows None (dc_id ` set (co_documents c)) (co_jobs c) (co_boxes c) (co_events c)"
    using corpus_ok_index [OF ok] by (simp add: index_ok_def index_but_def)
  then have "index_rows None (insert (dc_id x) (dc_id ` set (co_documents c))) (co_jobs c) (co_boxes c) (co_events c)"
    by (rule index_rows_docs) auto
  then have "index_ok (add_document x c)"
    by (simp add: index_ok_def index_but_def add_document_def co_documents_def)
  moreover have "queue_ok (queue_of (add_document x c))"
    using ok x(1) by (auto simp: corpus_ok_def queue_ok_def queue_of_def add_document_def co_documents_def)
  moreover have "graph_tables_ok (co_graph (add_document x c))"
    using corpus_graph_ok [OF ok] x(1)
    by (auto simp: graph_tables_ok_def graph_keys_def graph_refs_def merges_scoped_def add_document_def co_documents_def)
  moreover have "datasets_ok (add_document x c)"
    using ok x(2) hash by (simp add: corpus_ok_def datasets_ok_def add_document_def co_documents_def)
  ultimately show ?thesis by (simp add: corpus_ok_def graph_tables_ok_def)
qed

lemma reserve_document_ok:
  assumes ok: "corpus_ok c" and race: "corpus_ok (race c)" "ds_id ` set (co_datasets c) \<subseteq> ds_id ` set (co_datasets (race c))"
    and x: "dc_dataset x \<in> ds_id ` set (co_datasets c)" and res: "reserve_document race x c = Inr (y, before, c')"
  shows "corpus_ok before \<and> corpus_ok c' \<and> y \<in> set (co_documents c')"
  using res ok race x
  by (auto simp: reserve_document_def Let_def add_document_ok find_by_hash_def find_Some_iff split: option.splits if_splits)
     (auto simp: add_document_def co_documents_def)

lemma store_document_ok:
  assumes ok: "corpus_ok c" "corpus_ok before" "y \<in> set (co_documents c)"
  shows "corpus_ok (fst (snd (store_document env st d y content before c s)))"
proof -
  have up: "corpus_ok (set_document (dc_id y) (\<lambda>y. y\<lparr>dc_status := Uploaded, dc_error := None\<rparr>) c)"
    by (simp add: set_document_ok ok)
  have "dc_id y \<in> dc_id ` set (co_documents (set_document (dc_id y) (\<lambda>y. y\<lparr>dc_status := Uploaded, dc_error := None\<rparr>) c))"
    using ok(3) by (simp add: set_document_ids)
  then have "corpus_ok c1" if "enqueue_document env d y (set_document (dc_id y) (\<lambda>y. y\<lparr>dc_status := Uploaded, dc_error := None\<rparr>) c) = Inr c1" for c1
    by (rule enqueue_document_ok [OF up _ that])
  then show ?thesis using ok by (auto simp: store_document_def set_document_ok split: sum.split option.split)
qed

lemma upload_document_ok:
  assumes "corpus_ok c" "corpus_ok (race c)" "ds_id ` set (co_datasets c) \<subseteq> ds_id ` set (co_datasets (race c))"
  shows "corpus_ok (fst (snd (upload_document env io st race d1 d2 p k f pieces c s)))"
proof (cases "owned c p (normalize_dataset_id k)")
  case (Inr o1)
  have ds: "normalize_dataset_id k \<in> ds_id ` set (co_datasets c)" using owned_Inr [OF Inr] by force
  have "corpus_ok before \<and> corpus_ok c' \<and> y \<in> set (co_documents c')"
    if "reserve_document race (new_document doc p (normalize_dataset_id k) n m q h) c = Inr (y, before, c')" for doc n m q h y before c'
    by (rule reserve_document_ok [OF assms _ that]) (simp add: new_document_def ds)
  then show ?thesis using assms Inr
    by (simp add: upload_document_def Let_def split: sum.split prod.split) (meson store_document_ok)
qed (simp add: upload_document_def assms)

lemma create_dataset_ok:
  assumes "corpus_ok c"
  shows "corpus_ok (snd (create_dataset d now p b c))"
proof (cases "new_id ''ds'' d")
  case (Inr k)
  let ?x = "new_dataset k p b now"
  have "corpus_ok (c\<lparr>co_datasets := co_datasets c @ [?x]\<rparr>)"
    if free: "k \<notin> ds_id ` set (co_datasets c)" "\<not> name_taken ?x (co_datasets c)"
  proof -
    have "(ds_project ?x, ds_name ?x) \<notin> (\<lambda>x. (ds_project x, ds_name x)) ` set (co_datasets c)"
      using free by (auto simp: name_taken_def list_ex_iff new_dataset_def)
    then have "datasets_ok (c\<lparr>co_datasets := co_datasets c @ [?x]\<rparr>)"
      using assms free(1) by (auto simp: corpus_ok_def datasets_ok_def co_documents_def new_dataset_def)
    then show ?thesis using assms
      by (simp add: corpus_ok_def queue_of_def index_ok_def index_but_def co_documents_def)
  qed
  then show ?thesis using assms Inr by (simp add: create_dataset_def Let_def)
qed (simp add: create_dataset_def assms)

lemma patch_dataset_id [simp]: "ds_id (patch_dataset b x) = ds_id x" "ds_project (patch_dataset b x) = ds_project x"
  by (simp_all add: patch_dataset_def Let_def split: option.split)

lemma distinct_replace:
  assumes "distinct (map k xs)" "distinct (map g xs)" "x \<in> set xs" "k y = k x" "\<And>z. z \<in> set xs \<Longrightarrow> k z \<noteq> k x \<Longrightarrow> g z \<noteq> g y"
  shows "distinct (map g (map (\<lambda>z. if k z = k x then y else z) xs))"
  using assms
proof (induction xs)
  case (Cons a xs)
  show ?case
  proof (cases "k a = k x")
    case True
    have other: "k z \<noteq> k x" if "z \<in> set xs" for z using that True Cons.prems(1) by (auto simp: image_iff)
    then have "map (\<lambda>z. if k z = k x then y else z) xs = xs" by (simp add: map_idI)
    moreover have "g y \<notin> g ` set xs" using Cons.prems(5) other by force
    ultimately show ?thesis using True Cons.prems(2) by simp
  next
    case False
    then have x: "x \<in> set xs" using Cons.prems(3) by auto
    define ys where "ys = map (\<lambda>z. if k z = k x then y else z) xs"
    have "g a \<noteq> g y" using Cons.prems(5) [of a] False by simp
    then have "g a \<notin> g ` set ys" using Cons.prems(2) by (auto simp: ys_def)
    moreover have "distinct (map g ys)" unfolding ys_def by (rule Cons.IH) (use Cons.prems x in auto)
    moreover have "map (\<lambda>z. if k z = k x then y else z) (a # xs) = a # ys" using False by (simp add: ys_def)
    ultimately show ?thesis by (simp only: list.map distinct.simps set_map HOL.simp_thms)
  qed
qed simp

lemma update_dataset_ok:
  assumes ok: "corpus_ok c"
  shows "corpus_ok (snd (update_dataset p k b c))"
proof (cases "owned c p k")
  case (Inr x)
  let ?y = "patch_dataset b x"
  have x: "x \<in> set (co_datasets c)" using owned_Inr [OF Inr] by simp
  have "corpus_ok (set_dataset (ds_id x) (\<lambda>_. ?y) c)" if free: "\<not> name_taken ?y (co_datasets c)"
  proof -
    define rows where "rows = map (\<lambda>z. if ds_id z = ds_id x then ?y else z) (co_datasets c)"
    have D: "distinct (map ds_id (co_datasets c))" "distinct (map (\<lambda>x. (ds_project x, ds_name x)) (co_datasets c))"
      using ok by (simp_all add: corpus_ok_def datasets_ok_def)
    have "distinct (map (\<lambda>x. (ds_project x, ds_name x)) rows)"
      unfolding rows_def by (rule distinct_replace [OF D x]) (use free in \<open>auto simp: name_taken_def list_ex_iff\<close>)
    moreover have m: "map ds_id rows = map ds_id (co_datasets c)" by (simp add: rows_def)
    moreover have "ds_id ` set rows = ds_id ` set (co_datasets c)" using m by (metis set_map)
    moreover have "co_datasets (set_dataset (ds_id x) (\<lambda>_. ?y) c) = rows" "co_documents (set_dataset (ds_id x) (\<lambda>_. ?y) c) = co_documents c"
      by (simp_all add: set_dataset_def upd_row_def rows_def co_documents_def)
    ultimately have "datasets_ok (set_dataset (ds_id x) (\<lambda>_. ?y) c)"
      using ok by (simp add: corpus_ok_def datasets_ok_def)
    then show ?thesis using ok
      by (simp add: corpus_ok_def set_dataset_def queue_of_def index_ok_def index_but_def co_documents_def)
  qed
  then show ?thesis using ok Inr by (simp add: update_dataset_def Let_def)
qed (simp add: update_dataset_def ok)

lemma delete_documents_ok: "corpus_ok c \<Longrightarrow> corpus_ok (fst (snd (delete_documents env st xs c s)))"
proof (induction env st xs c s rule: delete_documents.induct)
  case (2 env st x xs c s)
  have c1: "corpus_ok (set_document (dc_id x) (\<lambda>y. y\<lparr>dc_status := Deleting\<rparr>) c)" by (simp add: set_document_ok 2)
  then show ?case using 2 by (auto simp: Let_def drop_document_ok split: sum.split)
qed simp

lemma delete_dataset_ok:
  assumes "corpus_ok c"
  shows "corpus_ok (fst (snd (delete_dataset env st refused p k c s)))"
proof (cases "owned c p k")
  case (Inr x)
  let ?c1 = "begin_dataset_delete (ce_sha env) x c"
  have "corpus_ok (fst (snd (delete_documents env st (dataset_documents p k ?c1) ?c1 s)))"
    by (simp add: delete_documents_ok begin_dataset_delete_ok assms)
  moreover obtain f c2 s2 where r: "delete_documents env st (dataset_documents p k ?c1) ?c1 s = (f, c2, s2)" by (metis prod_cases3)
  ultimately have c2: "corpus_ok c2" by simp
  have free: "\<not> restricted (ds_id x) (co_graph (mark_cleanup_ready (ce_now env) (dataset_cleanup_id (ce_sha env) x) c2))"
    if "\<not> restricted (ds_id x) (co_graph c2)" using that by (simp add: mark_cleanup_ready_def)
  show ?thesis using c2 Inr r free
    by (auto simp: delete_dataset_def Let_def fail_document_ok set_dataset_ok mark_cleanup_ok drop_dataset_ok
        split: option.split)
qed (simp add: delete_dataset_def assms)

lemma delete_document_ok: "corpus_ok c \<Longrightarrow> corpus_ok (fst (snd (delete_document env st p k c s)))"
  by (auto simp: delete_document_def Let_def finish_document_delete_ok begin_document_delete_ok set_document_ok
      split: sum.split)

section \<open>Steps\<close>

text \<open>The transactions in any order; \<open>queue\<close> is a transaction of the queue of graph jobs, \<open>graph\<close> one of
  the extraction, the consolidation or a reviewer, which keep the graph's own invariant.\<close>

inductive corpus_step :: "corpus \<Rightarrow> corpus \<Rightarrow> bool" where
  create: "corpus_step c (snd (create_dataset d now p b c))"
| update: "corpus_step c (snd (update_dataset p k patch c))"
| upload: "corpus_step c (fst (snd (upload_document env io (st :: fs object_store) (\<lambda>c. c) d1 d2 p k f pieces c s)))"
| begin_delete: "corpus_step c (begin_document_delete sha x c)"
| finish_delete: "corpus_step c (finish_document_delete env x c)"
| fail_delete: "corpus_step c (set_document k (\<lambda>y. y\<lparr>dc_status := DeleteFailed, dc_error := message\<rparr>) c)"
| remove: "corpus_step c (fst (snd (delete_document env (st :: fs object_store) p k c s)))"
| begin_discard: "corpus_step c (begin_dataset_delete sha o1 c)"
| purge: "corpus_step c (drop_document k c)"
| discard: "corpus_step c (fst (snd (delete_dataset env (st :: fs object_store) refused p k c s)))"
| claim: "claim_job now k c = Inr (r, c') \<Longrightarrow> corpus_step c c'"
| stage: "enter_stage env k n doc status st c = Inr c' \<Longrightarrow> corpus_step c c'"
| finish: "finish_ingestion env m k n x (chunk_rows (ce_sha env) x meta embs chunks) c = Inr c' \<Longrightarrow> corpus_step c c'"
| fail: "corpus_step c (fail_ingestion env k e c)"
| dispatch: "corpus_step c (claim_boxes now n c)"
| unpublish: "corpus_step c (publish_index_failed now t k message c)"
| heartbeat: "corpus_step c (indexing_heartbeat now k c)"
| requeue: "corpus_step c (requeue_indexing_job now k reason c)"
| recover: "corpus_step c (recover_indexing seconds now n c)"
| redispatch: "corpus_step c (redispatch seconds now n c)"
| queue: "queue_step (queue_of c) q \<Longrightarrow> same_documents (q_documents q) (co_documents c) \<Longrightarrow> corpus_step c (with_queue q c)"
| graph: "graph_tables_ok g \<Longrightarrow> g_documents g = g_documents (co_graph c) \<Longrightarrow> corpus_step c (c\<lparr>co_graph := g\<rparr>)"

definition empty_corpus :: corpus where
  "empty_corpus = \<lparr>co_datasets = [], co_graph = empty_graph, co_jobs = [], co_boxes = [], co_events = [],
     co_gjobs = [], co_gboxes = [], co_workers = [], co_cleanups = []\<rparr>"

inductive corpus_reachable :: "corpus \<Rightarrow> bool" where
  initial: "corpus_reachable empty_corpus"
| step: "corpus_reachable c \<Longrightarrow> corpus_step c c' \<Longrightarrow> corpus_reachable c'"

lemma corpus_step_ok: "corpus_step c c' \<Longrightarrow> corpus_ok c \<Longrightarrow> corpus_ok c'"
proof (induction rule: corpus_step.induct)
  case upload
  then show ?case by (simp add: upload_document_ok [where race = "\<lambda>c. c"])
next
  case (finish env m k n x meta embs chunks c c')
  show ?case by (rule finish_ingestion_ok [OF finish(2,1)]) (rule chunk_rows_document)
next
  case (queue c q)
  have "queue_ok q" by (rule queue_step_ok [OF queue(1)]) (use queue(3) in \<open>simp add: corpus_ok_def\<close>)
  then show ?case by (rule queue_change_ok [OF queue(3) _ queue(2)])
next
  case (claim now k c r c') then show ?case by (rule claim_job_ok [rotated])
next
  case (stage env k n doc status st c c') then show ?case by (rule enter_stage_ok [rotated])
next
  case (graph g c) then show ?case by (simp add: graph_change_ok)
qed (simp_all add: create_dataset_ok update_dataset_ok begin_document_delete_ok finish_document_delete_ok set_document_ok
    delete_document_ok begin_dataset_delete_ok drop_document_ok delete_dataset_ok fail_ingestion_ok claim_boxes_ok
    publish_index_failed_ok heartbeat_ok requeue_indexing_ok recover_indexing_ok redispatch_ok)

lemma empty_corpus_ok: "corpus_ok empty_corpus"
  by (simp add: corpus_ok_def empty_corpus_def empty_graph_def graph_keys_def graph_refs_def merges_scoped_def queue_of_def
      queue_ok_def index_ok_def index_but_def index_rows_def datasets_ok_def co_documents_def)

lemma corpus_reachable_ok: "corpus_reachable c \<Longrightarrow> corpus_ok c"
  by (induction rule: corpus_reachable.induct) (auto simp: empty_corpus_ok corpus_step_ok)

section \<open>Properties\<close>

text \<open>C4. In every state that any order of requests, workers, dispatchers and reconcilers reaches, all
  keys are unique and all foreign keys hold, and no indexing job is lost: a queued job has an outbox
  row and its document, a running one has been attempted, no outbox row passes its budget, and the
  queue of graph jobs keeps its own invariant.\<close>

theorem corpus_invariant:
  assumes "corpus_reachable c"
  shows "graph_keys (co_graph c) \<and> graph_refs (co_graph c) \<and> queue_ok (queue_of c) \<and> datasets_ok c
    \<and> distinct (map ij_id (co_jobs c)) \<and> distinct (map ib_job (co_boxes c))
    \<and> (\<forall>j\<in>set (co_jobs c). document_of c (ij_document j) \<noteq> None
         \<and> (ij_status j = JQueued \<longrightarrow> ibox_of c (ij_id j) \<noteq> None)
         \<and> (ij_status j = JRunning \<longrightarrow> 1 \<le> ij_attempt j))
    \<and> (\<forall>b\<in>set (co_boxes c). ijob_of c (ib_job b) \<noteq> None \<and> ib_attempts b \<le> MAX_INDEXING_OUTBOX_ATTEMPTS)"
proof -
  have ok: "corpus_ok c" by (rule corpus_reachable_ok [OF assms])
  then have "index_rows None (dc_id ` set (co_documents c)) (co_jobs c) (co_boxes c) (co_events c)"
    by (simp add: corpus_ok_def index_ok_def index_but_def)
  then show ?thesis using ok
    by (auto simp: corpus_ok_def index_rows_def document_of_def ibox_of_def ijob_of_def get_row_None_iff simp del: not_None_eq)
qed

section \<open>A concrete corpus\<close>

definition corpus_demo_env :: corpus_env where
  "corpus_demo_env = \<lparr>ce_sha = rev, ce_str = (\<lambda>e. ''boom''), ce_type = (\<lambda>e. ''Error''), ce_now = 7\<rparr>"

text \<open>A store that keeps every object under its key, in one directory.\<close>

definition flat_store :: "fs object_store" where
  "flat_store = \<lparr>os_upload = (\<lambda>k content mime s. Inr (s([k] \<mapsto> File content))),
     os_download = (\<lambda>k s. case s [k] of Some (File content) \<Rightarrow> Inr content | _ \<Rightarrow> Inl (OSError k)),
     os_delete = (\<lambda>k s. Inr (s([k] := None)))\<rparr>"

definition demo_io :: upload_io where
  "demo_io = \<lparr>ui_digest = (\<lambda>content. map (\<lambda>n. char_of n) content), ui_json_ok = (\<lambda>content. True), ui_limit = 100\<rparr>"

definition demo_input :: dataset_input where
  "demo_input = \<lparr>di_name = ''notes'', di_description = None, di_metadata = []\<rparr>"

definition demo_dataset_key :: string where
  "demo_dataset_key = ''ds_'' @ uuid7 sample_draw"

definition demo_created :: corpus where
  "demo_created = snd (create_dataset sample_draw 1 ''p'' demo_input empty_corpus)"

definition demo_uploaded :: corpus where
  "demo_uploaded = fst (snd (upload_document corpus_demo_env demo_io flat_store (\<lambda>c. c) sample_draw sample_draw ''p''
     demo_dataset_key plain_file [codes ''hello''] demo_created sample_fs))"

lemma demo_reachable: "corpus_reachable demo_uploaded"
  unfolding demo_uploaded_def demo_created_def
  by (rule corpus_reachable.step [OF corpus_reachable.step [OF corpus_reachable.initial corpus_step.create] corpus_step.upload])


lemma demo_created_eq: "demo_created = empty_corpus\<lparr>co_datasets := [new_dataset demo_dataset_key ''p'' demo_input 1]\<rparr>"
  by (simp add: demo_created_def create_dataset_def new_id_def PREFIXES_def demo_dataset_key_def name_taken_def Let_def empty_corpus_def)

lemma demo_key_normal: "normalize_dataset_id demo_dataset_key = demo_dataset_key"
  by (simp add: normalize_dataset_id_def demo_dataset_key_def)

lemma demo_check: "check_upload demo_io plain_file [codes ''hello''] = Inr (''a.txt'', spool_state (codes ''hello''))"
proof -
  have len: "concat [codes ''hello''] = codes ''hello''" "length (codes ''hello'') = 5" by (simp_all add: codes_def)
  have dec: "utf8_decode (codes ''hello'') = Some (codes ''hello'')" "0 \<notin> set (codes ''hello'')" "codes ''hello'' \<noteq> []" by code_simp+
  have suffix: "py_lower ''.txt'' = ''.txt''" by code_simp
  have "validate_upload plain_file (codes ''hello'') = bindE (check_text ''.txt'' (codes ''hello'')) (\<lambda>_. Inr ''a.txt'')"
    by (rule validate_plain) (simp_all add: plain_file_facts dec, simp add: plain_file_def)
  then have "validate_upload plain_file (codes ''hello'') = Inr ''a.txt''" by (simp add: check_text_def dec)
  then show ?thesis
    by (simp add: check_upload_def spool_eq len demo_io_def spool_state_def plain_file_facts suffix)
qed

lemma demo_owned: "owned demo_created ''p'' demo_dataset_key = Inr (new_dataset demo_dataset_key ''p'' demo_input 1)"
  by (simp add: owned_def demo_created_eq demo_key_normal new_dataset_def)

lemma demo_uploaded_queued:
  "map ij_status (co_jobs demo_uploaded) = [JQueued] \<and> map dc_status (co_documents demo_uploaded) = [DQueued]"
proof -
  have docs: "g_documents (co_graph demo_created) = []" "co_jobs demo_created = []" "co_boxes demo_created = []"
    by (simp_all add: demo_created_eq empty_corpus_def empty_graph_def)
  show ?thesis
    unfolding demo_uploaded_def upload_document_def Let_def demo_key_normal demo_owned
    by (simp add: demo_check new_id_def PREFIXES_def reserve_document_def find_by_hash_def docs new_document_def store_document_def
        taken_def flat_store_def enqueue_document_def Let_def ijob_of_def document_of_def insert_ijob_def requeue_document_def
        put_ibox_def ibox_of_def set_document_def add_document_def co_documents_def upd_row_def get_row_def new_ijob_def)
qed

theorem corpus_invariant_witness:
  "map ij_status (co_jobs demo_uploaded) = [JQueued] \<and> ibox_of demo_uploaded (ij_id (hd (co_jobs demo_uploaded))) \<noteq> None"
proof -
  obtain j where j: "co_jobs demo_uploaded = [j]" "ij_status j = JQueued" using demo_uploaded_queued by auto
  then have "ibox_of demo_uploaded (ij_id j) \<noteq> None" using corpus_invariant [OF demo_reachable] by simp
  then show ?thesis using j by simp
qed

end
