(* ===== verification/CorpusProps.thy ===== *)
theory CorpusProps
  imports CorpusInvariant
begin

text \<open>
  What the document side promises: an indexing run replaces the chunks of its document or changes
  nothing but the two status rows; an accepted upload is stored and queued; and where the datasets'
  endpoints break their own rules.
\<close>

section \<open>An indexing run is all or nothing\<close>

text \<open>The stages before the last transaction touch the job, its events and the status of the document.\<close>

definition status_only :: "corpus \<Rightarrow> corpus \<Rightarrow> bool" where
  "status_only c c' \<longleftrightarrow> (co_graph c')\<lparr>g_documents := []\<rparr> = (co_graph c)\<lparr>g_documents := []\<rparr>
     \<and> same_documents (co_documents c') (co_documents c) \<and> co_datasets c' = co_datasets c
     \<and> map (\<lambda>j. (ij_id j, ij_document j)) (co_jobs c') = map (\<lambda>j. (ij_id j, ij_document j)) (co_jobs c) \<and> co_boxes c' = co_boxes c
     \<and> co_gjobs c' = co_gjobs c \<and> co_gboxes c' = co_gboxes c \<and> co_workers c' = co_workers c"

lemma status_only_refl [simp]: "status_only c c"
  by (simp add: status_only_def same_documents_def)

lemma status_only_trans: "status_only a b \<Longrightarrow> status_only b c \<Longrightarrow> status_only a c"
  by (simp add: status_only_def same_documents_def)

lemma status_only_document: "keeps_identity f \<Longrightarrow> status_only c (set_document k f c)"
  by (auto simp: status_only_def set_document_def same_documents_def co_documents_def upd_row_def keeps_identity_def)

lemma status_only_job:
  "(\<And>j. ij_id (f j) = ij_id j \<and> ij_document (f j) = ij_document j) \<Longrightarrow> status_only c (set_ijob k f c)"
  by (auto simp: status_only_def set_ijob_def same_documents_def co_documents_def upd_row_map_other)

lemma status_only_event: "add_event e c = Inr c' \<Longrightarrow> status_only c c'"
  by (auto simp: add_event_def bindE_Inr_iff status_only_def same_documents_def co_documents_def)

lemma enter_stage_status:
  assumes "enter_stage env k n doc status st c = Inr c'"
  shows "status_only c c'"
proof -
  let ?c1 = "case status of None \<Rightarrow> c | Some x \<Rightarrow> set_document doc (\<lambda>y. y\<lparr>dc_status := x\<rparr>) c"
  let ?c2 = "set_ijob k (\<lambda>i. i\<lparr>ij_stage := st, ij_updated := ce_now env\<rparr>) ?c1"
  have ev: "add_event \<lparr>ie_id = event_key (ce_sha env) k n st, ie_job = k, ie_attempt = n, ie_stage = st\<rparr> ?c2 = Inr c'"
    using assms by (auto simp: enter_stage_def Let_def split: if_splits)
  have "status_only c ?c1" by (auto simp: status_only_document split: option.split)
  moreover have "status_only ?c1 ?c2" by (rule status_only_job) simp
  ultimately show ?thesis using status_only_event [OF ev] status_only_trans by blast
qed

text \<open>A run ends in a failure before the last transaction, or with it.\<close>

definition progress_only :: "corpus \<Rightarrow> corpus \<Rightarrow> bool" where
  "progress_only c c' \<longleftrightarrow> status_only c c' \<and> corpus_ok c'"

lemma committed_stage:
  "progress_only c d \<Longrightarrow> enter_stage env k n doc status st d = Inr d' \<Longrightarrow> progress_only c d'"
  unfolding progress_only_def by (blast intro: status_only_trans enter_stage_status enter_stage_ok)

lemma stage_stopE:
  assumes "or_stop d (enter_stage env k n doc status st d) rest = (r, c')" "progress_only c d"
  obtains (stopped) e where "r = Some e" "progress_only c c'" | (passed) d' where "progress_only c d'" "rest d' = (r, c')"
proof (cases "enter_stage env k n doc status st d")
  case (Inl e)
  show thesis by (rule stopped [of e]) (use assms Inl in \<open>auto simp: or_stop_def\<close>)
next
  case (Inr d')
  show thesis by (rule passed [OF committed_stage [OF assms(2) Inr]]) (use assms(1) Inr in \<open>simp add: or_stop_def\<close>)
qed

lemma other_stopE:
  assumes "or_stop d m rest = (r, c')" "progress_only c d"
  obtains (stopped) e where "r = Some e" "progress_only c c'" | (passed) y where "m = Inr y" "rest y = (r, c')" "progress_only c d"
  using assms by (auto simp: or_stop_def split: sum.splits)

lemma attempt_run_cases:
  assumes ok: "corpus_ok c" and run: "attempt_run env m io k n x c = (r, c')"
  obtains (failing) e where "r = Some e" "progress_only c c'"
  | (finishing) content parsed chunks embs d where "r = None" "progress_only c d"
      "io_download io (dc_object_key x) = Inr content" "io_parse io (dc_mime x) content (dc_filename x) = Inr parsed"
      "split_document (io_sha24 io) default_chunker (dc_id x) parsed = Inr chunks" "embed_chunks io chunks = Inr embs"
      "finish_ingestion env m k n x (chunk_rows (ce_sha env) x (pd_metadata parsed) embs chunks) d = Inr c'"
proof -
  have c0: "progress_only c c" using ok by (simp add: progress_only_def)
  show thesis
    using run c0 unfolding attempt_run_def persisted_def
    by (elim stage_stopE other_stopE) (auto intro: failing finishing simp: bindE_Inr_iff)
qed


text \<open>The rows of the document after a run.\<close>

definition indexed_rows :: "corpus_env \<Rightarrow> ingest_io \<Rightarrow> document \<Rightarrow> chunk list \<Rightarrow> bool" where
  "indexed_rows env io x rows \<longleftrightarrow> (\<exists>content parsed chunks embs.
     io_download io (dc_object_key x) = Inr content \<and> io_parse io (dc_mime x) content (dc_filename x) = Inr parsed
     \<and> split_document (io_sha24 io) default_chunker (dc_id x) parsed = Inr chunks \<and> embed_chunks io chunks = Inr embs
     \<and> rows = chunk_rows (ce_sha env) x (pd_metadata parsed) embs chunks)"

lemma set_ijob_of:
  "(\<And>j. ij_id (f j) = ij_id j) \<Longrightarrow> ijob_of (set_ijob k f c) k' = (if k' = k then map_option f (ijob_of c k') else ijob_of c k')"
  by (simp add: ijob_of_def set_ijob_def get_row_upd_row)

lemma set_document_of:
  "(\<And>x. dc_id (f x) = dc_id x) \<Longrightarrow>
     document_of (set_document k f c) k' = (if k' = k then map_option f (document_of c k') else document_of c k')"
  by (simp add: document_of_def set_document_def co_documents_def get_row_upd_row)

lemma jobs_frames [simp]:
  "ijob_of (set_document k f c) i = ijob_of c i" "ijob_of (with_queue q c) i = ijob_of c i" "ijob_of (c\<lparr>co_graph := g\<rparr>) i = ijob_of c i"
  "document_of (set_ijob k h c) i = document_of c i"
  by (simp_all add: ijob_of_def set_document_def with_queue_def document_of_def)

definition graph_job_key :: "corpus_env \<Rightarrow> extractor_meta \<Rightarrow> document \<Rightarrow> string" where
  "graph_job_key env m x = stable_id (ce_sha env) ''graph-job'' [dc_id x, xm_extractor m]"

lemma enqueued_job:
  "\<exists>j. job_of (enqueue_graph_extraction sha m x now q) (stable_id sha ''graph-job'' [dc_id x, xm_extractor m]) = Some j
     \<and> gj_status j = JQueued"
  by (auto simp: enqueue_graph_extraction_def Let_def put_box_def job_of_def set_doc_def set_box_def set_job_def
      get_row_upd_row get_row_append new_job_def get_row_Cons split: option.split)

lemma enqueued_documents:
  "q_documents (enqueue_graph_extraction sha m x now q) = upd_row dc_id (dc_id x) (\<lambda>y. y\<lparr>dc_stage := Some ''queued''\<rparr>) (q_documents q)"
  by (auto simp: enqueue_graph_extraction_def Let_def put_box_def set_doc_def set_box_def set_job_def split: option.split)

lemma finish_ingestion_result:
  assumes "finish_ingestion env m k n x rows c = Inr c'"
  shows "ijob_of c' k = map_option (\<lambda>j. j\<lparr>ij_status := JSucceeded, ij_stage := StComplete, ij_updated := ce_now env\<rparr>) (ijob_of c k)"
    and "g_chunks (co_graph c') = del_rows (document_chunk x) (g_chunks (co_graph c)) @ rows"
    and "\<exists>y. document_of c' (dc_id x) = Some y \<and> dc_status y = Persisting \<and> dc_stage y = Some ''queued''"
    and "\<exists>j. job_of (queue_of c') (graph_job_key env m x) = Some j \<and> gj_status j = JQueued"
proof -
  obtain y where y: "document_of c (dc_id x) = Some y" using assms by (auto simp: finish_ingestion_def split: if_splits)
  obtain g c1 where g: "insert_chunks rows (clear_chunks x (co_graph c)) = Inr g"
    and c1: "add_event \<lparr>ie_id = event_key (ce_sha env) k n StComplete, ie_job = k, ie_attempt = n, ie_stage = StComplete\<rparr>
        (c\<lparr>co_graph := g\<rparr>) = Inr c1"
    and c': "c' = (let c2 = set_ijob k (\<lambda>i. i\<lparr>ij_status := JSucceeded, ij_stage := StComplete, ij_updated := ce_now env\<rparr>)
        (set_document (dc_id x) (\<lambda>y. y\<lparr>dc_status := Persisting, dc_error := None\<rparr>) c1) in
        with_queue (enqueue_graph_extraction (ce_sha env) m x (ce_now env) (queue_of c2)) c2)"
    using assms by (auto simp: finish_ingestion_def bindE_Inr_iff Let_def split: if_splits)
  have g_eq: "g_chunks g = del_rows (document_chunk x) (g_chunks (co_graph c)) @ rows" "g_documents g = g_documents (co_graph c)"
    using g by (auto simp: insert_chunks_def bindE_Inr_iff insert_rows_Inr_iff clear_chunks_def)
  have c1_eq: "co_graph c1 = g" "co_jobs c1 = co_jobs c" using c1 by (auto simp: add_event_def bindE_Inr_iff)
  have y1: "document_of c1 (dc_id x) = Some y" using y by (simp add: document_of_def co_documents_def c1_eq g_eq)
  have j1: "ijob_of c1 k = ijob_of c k" by (simp add: ijob_of_def c1_eq)
  show "ijob_of c' k = map_option (\<lambda>j. j\<lparr>ij_status := JSucceeded, ij_stage := StComplete, ij_updated := ce_now env\<rparr>) (ijob_of c k)"
    by (simp add: c' Let_def set_ijob_of j1)
  show "g_chunks (co_graph c') = del_rows (document_chunk x) (g_chunks (co_graph c)) @ rows"
    by (simp add: c' Let_def with_queue_def set_ijob_def set_document_def c1_eq g_eq)
  define c2 where "c2 = set_ijob k (\<lambda>i. i\<lparr>ij_status := JSucceeded, ij_stage := StComplete, ij_updated := ce_now env\<rparr>)
        (set_document (dc_id x) (\<lambda>y. y\<lparr>dc_status := Persisting, dc_error := None\<rparr>) c1)"
  have c'2: "c' = with_queue (enqueue_graph_extraction (ce_sha env) m x (ce_now env) (queue_of c2)) c2"
    by (simp add: c' c2_def Let_def)
  have "document_of c2 (dc_id x) = Some (y\<lparr>dc_status := Persisting, dc_error := None\<rparr>)"
    unfolding c2_def jobs_frames using y1 by (simp add: set_document_of)
  then show "\<exists>y. document_of c' (dc_id x) = Some y \<and> dc_status y = Persisting \<and> dc_stage y = Some ''queued''"
    by (simp add: c'2 document_of_def co_documents_def with_queue_def enqueued_documents queue_of_def get_row_upd_row)
  show "\<exists>j. job_of (queue_of c') (graph_job_key env m x) = Some j \<and> gj_status j = JQueued"
    using enqueued_job [of "ce_sha env" m x "ce_now env" "queue_of c2"]
    by (simp add: c'2 graph_job_key_def job_of_def queue_of_def with_queue_def)
qed

lemma fail_ingestion_result:
  assumes "ijob_of c k = Some j"
  shows "ijob_of (fail_ingestion env k e c) k = Some (j\<lparr>ij_status := JFailed, ij_code := Some (ce_type env e),
      ij_message := Some (sanitized_error env e), ij_updated := ce_now env\<rparr>)"
    and "document_of (fail_ingestion env k e c) (ij_document j) =
      map_option (\<lambda>y. y\<lparr>dc_status := DFailed, dc_error := Some (sanitized_error env e)\<rparr>) (document_of c (ij_document j))"
    and "status_only c (fail_ingestion env k e c)"
proof -
  show "ijob_of (fail_ingestion env k e c) k = Some (j\<lparr>ij_status := JFailed, ij_code := Some (ce_type env e),
      ij_message := Some (sanitized_error env e), ij_updated := ce_now env\<rparr>)"
    using assms by (simp add: fail_ingestion_def Let_def set_ijob_of)
  show "document_of (fail_ingestion env k e c) (ij_document j) =
      map_option (\<lambda>y. y\<lparr>dc_status := DFailed, dc_error := Some (sanitized_error env e)\<rparr>) (document_of c (ij_document j))"
    using assms by (simp add: fail_ingestion_def Let_def set_document_of)
  have "status_only c (set_ijob k (\<lambda>i. i\<lparr>ij_status := JFailed, ij_code := Some (ce_type env e),
      ij_message := Some (sanitized_error env e), ij_updated := ce_now env\<rparr>) c)" by (rule status_only_job) simp
  then show "status_only c (fail_ingestion env k e c)"
    using assms by (auto simp: fail_ingestion_def Let_def intro!: status_only_trans [OF _ status_only_document])
qed


lemma status_only_chunks: "status_only c c' \<Longrightarrow> g_chunks (co_graph c') = g_chunks (co_graph c)"
  by (auto simp: status_only_def dest: arg_cong [of _ _ g_chunks])

lemma status_only_document_key:
  assumes "status_only c c'" "document_of c k \<noteq> None"
  shows "document_of c' k \<noteq> None"
proof -
  have "map dc_id (co_documents c') = map dc_id (co_documents c)" using assms(1) by (auto simp: status_only_def dest: same_documents_maps)
  then have "dc_id ` set (co_documents c') = dc_id ` set (co_documents c)" by (metis set_map)
  then show ?thesis using assms(2) unfolding document_of_def get_row_None_iff by simp
qed

lemma get_row_same_map:
  "map (\<lambda>j. (key j, h j)) xs = map (\<lambda>j. (key j, h j)) ys \<Longrightarrow> get_row key k xs = Some x \<Longrightarrow> \<exists>y. get_row key k ys = Some y \<and> h y = h x"
proof (induction xs arbitrary: ys)
  case (Cons a xs)
  then obtain b zs where ys: "ys = b # zs" "key b = key a" "h b = h a" "map (\<lambda>j. (key j, h j)) xs = map (\<lambda>j. (key j, h j)) zs"
    by (cases ys) auto
  then show ?case using Cons by (auto simp: get_row_Cons split: if_splits)
qed simp

lemma status_only_job_document:
  assumes "status_only c c'" "ijob_of c k = Some j"
  shows "\<exists>j'. ijob_of c' k = Some j' \<and> ij_document j' = ij_document j"
  using assms get_row_same_map [of ij_id ij_document "co_jobs c" "co_jobs c'" k j] by (auto simp: status_only_def ijob_of_def)

section \<open>Properties\<close>

definition run_succeeded :: "corpus_env \<Rightarrow> extractor_meta \<Rightarrow> ingest_io \<Rightarrow> string \<Rightarrow> document \<Rightarrow> corpus \<Rightarrow> corpus \<Rightarrow> bool" where
  "run_succeeded env m io k x c c' \<longleftrightarrow>
     (\<exists>rows. indexed_rows env io x rows \<and> g_chunks (co_graph c') = del_rows (document_chunk x) (g_chunks (co_graph c)) @ rows)
     \<and> (\<exists>j. ijob_of c' k = Some j \<and> ij_status j = JSucceeded)
     \<and> (\<exists>y. document_of c' (dc_id x) = Some y \<and> dc_status y = Persisting \<and> dc_stage y = Some ''queued'')
     \<and> (\<exists>j. job_of (queue_of c') (graph_job_key env m x) = Some j \<and> gj_status j = JQueued)"

definition run_failed :: "string \<Rightarrow> document \<Rightarrow> corpus \<Rightarrow> corpus \<Rightarrow> bool" where
  "run_failed k x c c' \<longleftrightarrow> status_only c c' \<and> (\<exists>j. ijob_of c' k = Some j \<and> ij_status j = JFailed)
     \<and> (\<exists>y. document_of c' (dc_id x) = Some y \<and> dc_status y = DFailed)"

text \<open>C5. Running a queued or failed indexing job either succeeds, and then the chunks of its document
  are exactly the parsed, cut and embedded content of the stored object, every other chunk is as it
  was, the job has succeeded and a graph job is queued; or it raises, and then it has changed
  nothing but statuses and stage events: the job and the document are marked as failed.\<close>

theorem ingestion_all_or_nothing:
  assumes ok: "corpus_ok c" and j: "ijob_of c k = Some j" "ij_status j = JQueued \<or> ij_status j = JFailed"
    and run: "run_ingestion env m io k c = (r, c')"
  shows "\<exists>x. document_of c (ij_document j) = Some x
    \<and> (r = Inr (dc_id x) \<and> run_succeeded env m io k x c c' \<or> (\<exists>e. r = Inl e) \<and> run_failed k x c c')"
proof -
  have "ij_document j \<in> dc_id ` set (co_documents c)"
    using ok ijob_of_SomeD [OF j(1)] by (simp add: corpus_ok_def index_ok_def index_but_def index_rows_def)
  then have "document_of c (ij_document j) \<noteq> None" unfolding document_of_def get_row_None_iff by simp
  then obtain x where x: "document_of c (ij_document j) = Some x" by blast
  have id: "dc_id x = ij_document j" using document_of_SomeD [OF x] by simp
  define c1 where "c1 = set_ijob k (\<lambda>i. i\<lparr>ij_status := JRunning, ij_attempt := ij_attempt i + 1,
      ij_code := None, ij_message := None, ij_updated := ce_now env\<rparr>) c"
  have claim: "claim_job (ce_now env) k c = Inr (None, c1)" using j x by (auto simp: claim_job_def c1_def)
  have ok1: "corpus_ok c1" by (rule claim_job_ok [OF ok claim])
  have st1: "status_only c c1" unfolding c1_def by (rule status_only_job) simp
  obtain j1 where j1: "ijob_of c1 k = Some j1" "ij_document j1 = ij_document j" using status_only_job_document [OF st1 j(1)] by blast
  have x1: "document_of c1 (ij_document j1) = Some x" using x j1(2) by (simp add: c1_def)
  obtain q c2 where a: "attempt_run env m io k (ij_attempt j1) x c1 = (q, c2)" by (metis surj_pair)
  from ok1 a show ?thesis
  proof (cases rule: attempt_run_cases)
    case (failing e)
    have st2: "status_only c c2" using failing(2) status_only_trans [OF st1] by (simp add: progress_only_def)
    obtain j2 where j2: "ijob_of c2 k = Some j2" "ij_document j2 = ij_document j" using status_only_job_document [OF st2 j(1)] by blast
    have r: "r = Inl e" "c' = fail_ingestion env k e c2"
      using run claim j1(1) x1 a failing(1) by (auto simp: run_ingestion_def)
    note F = fail_ingestion_result [OF j2(1), of env e]
    have "document_of c2 (dc_id x) \<noteq> None" using status_only_document_key [OF st2] x id by simp
    then have "run_failed k x c c'" using F j2(2) id status_only_trans [OF st2 F(3)] by (auto simp: run_failed_def r)
    then show ?thesis using x r by auto
  next
    case (finishing content parsed chunks embs d)
    have std: "status_only c d" using finishing(2) status_only_trans [OF st1] by (simp add: progress_only_def)
    have r: "r = Inr (dc_id x)" "c' = c2" using run claim j1(1) x1 a finishing(1) by (auto simp: run_ingestion_def)
    note F = finish_ingestion_result [OF finishing(7)]
    obtain jd where "ijob_of d k = Some jd" using status_only_job_document [OF std j(1)] by blast
    moreover have "indexed_rows env io x (chunk_rows (ce_sha env) x (pd_metadata parsed) embs chunks)"
      using finishing(3-6) unfolding indexed_rows_def by blast
    ultimately have "run_succeeded env m io k x c c'"
      using F status_only_chunks [OF std] unfolding run_succeeded_def r(2) by auto
    then show ?thesis using x r by blast
  qed
qed


definition demo_meta :: extractor_meta where
  "demo_meta = \<lparr>xm_provider = ''p'', xm_model = ''m'', xm_extractor = ''x'', xm_prompt = ''v''\<rparr>"

definition demo_ingest :: ingest_io where
  "demo_ingest = \<lparr>io_download = (\<lambda>k. Inr (codes ''hello'')),
     io_parse = (\<lambda>mime content name. Inr \<lparr>pd_text = ''hello'', pd_metadata = [], pd_segments = []\<rparr>),
     io_sha24 = take 24, io_embed = (\<lambda>texts. Inr (map (\<lambda>t. replicate 1536 0) texts))\<rparr>"

theorem ingestion_all_or_nothing_witness:
  "\<exists>j x r c'. j \<in> set (co_jobs demo_uploaded) \<and> document_of demo_uploaded (ij_document j) = Some x
     \<and> run_ingestion corpus_demo_env demo_meta demo_ingest (ij_id j) demo_uploaded = (r, c')
     \<and> (r = Inr (dc_id x) \<and> run_succeeded corpus_demo_env demo_meta demo_ingest (ij_id j) x demo_uploaded c'
          \<or> (\<exists>e. r = Inl e) \<and> run_failed (ij_id j) x demo_uploaded c')"
proof -
  obtain j where j: "co_jobs demo_uploaded = [j]" "ij_status j = JQueued" using demo_uploaded_queued by auto
  have job: "ijob_of demo_uploaded (ij_id j) = Some j" by (simp add: ijob_of_def j(1) get_row_Cons)
  obtain r c' where run: "run_ingestion corpus_demo_env demo_meta demo_ingest (ij_id j) demo_uploaded = (r, c')" by (metis surj_pair)
  show ?thesis
    using ingestion_all_or_nothing [OF corpus_reachable_ok [OF demo_reachable] job _ run] j run by auto
qed

end
