(* ===== verification/DatasetProps.thy ===== *)
theory DatasetProps
  imports CorpusProps
begin

text \<open>
  Deleting a dataset: with its full identifier nothing of it remains, neither rows nor stored
  objects, and the documents of other datasets are untouched; with the short identifier the same
  request leaves every object in the store. What the store promises is a locale, interpreted on the
  local store of \<open>app/storage.py\<close>.
\<close>

section \<open>What a store promises of deletion\<close>

locale object_deletion =
  fixes env :: corpus_env and st :: "'s object_store" and present :: "string \<Rightarrow> 's \<Rightarrow> bool"
  assumes delete_absent: "os_delete st k s = Inr s' \<Longrightarrow> \<not> present k s'"
    and delete_only: "os_delete st k s = Inr s' \<Longrightarrow> present q s' \<Longrightarrow> present q s"
    and ignored_absent: "os_delete st k s = Inl e \<Longrightarrow> ignored env e \<Longrightarrow> \<not> present k s"
begin

lemma delete_documents_shrink:
  "delete_documents env st xs c s = (r, c', s') \<Longrightarrow> present q s' \<Longrightarrow> present q s"
proof (induction xs arbitrary: c s)
  case (Cons x xs)
  show ?case
  proof (cases "os_delete st (dc_object_key x) s")
    case (Inl e)
    then show ?thesis using Cons.prems Cons.IH by (auto simp: Let_def split: if_splits)
  next
    case (Inr s1)
    then have "present q s1" using Cons.prems Cons.IH by (auto simp: Let_def)
    then show ?thesis by (rule delete_only [OF Inr])
  qed
qed simp

lemma delete_documents_absent:
  "delete_documents env st xs c s = (None, c', s') \<Longrightarrow> x \<in> set xs \<Longrightarrow> \<not> present (dc_object_key x) s'"
proof (induction xs arbitrary: c s)
  case (Cons y xs)
  show ?case
  proof (cases "x = y")
    case True
    show ?thesis
    proof (cases "os_delete st (dc_object_key y) s")
      case (Inl e)
      then have "ignored env e" "\<exists>c1. delete_documents env st xs c1 s = (None, c', s')"
        using Cons.prems(1) by (auto simp: Let_def split: if_splits)
      then show ?thesis using ignored_absent [OF Inl] delete_documents_shrink True by blast
    next
      case (Inr s1)
      then have "\<exists>c1. delete_documents env st xs c1 s1 = (None, c', s')" using Cons.prems(1) by (auto simp: Let_def)
      then show ?thesis using delete_absent [OF Inr] delete_documents_shrink True by blast
    qed
  next
    case False
    then have "x \<in> set xs" using Cons.prems(2) by simp
    then show ?thesis using Cons.prems(1) Cons.IH by (auto simp: Let_def split: sum.splits if_splits)
  qed
qed simp

end

section \<open>The local store\<close>

definition local_objects :: "local_store \<Rightarrow> fs object_store" where
  "local_objects st = \<lparr>os_upload = (\<lambda>k content mime. upload st k content), os_download = download st, os_delete = delete st\<rparr>"

definition stored :: "local_store \<Rightarrow> string \<Rightarrow> fs \<Rightarrow> bool" where
  "stored st k s \<longleftrightarrow> (\<exists>content. download st k s = Inr content)"

lemma local_cases:
  obtains (bad) e where "safe_path st k = Inl e" | (dir) p where "safe_path st k = Inr p" "(if p = [] then Some Dir else s p) = Some Dir"
  | (none) p where "safe_path st k = Inr p" "p \<noteq> []" "s p = None"
  | (isfile) p content where "safe_path st k = Inr p" "p \<noteq> []" "s p = Some (File content)"
proof (cases "safe_path st k")
  case (Inr p)
  show thesis
  proof (cases "p = []")
    case False
    show thesis
    proof (cases "s p")
      case None then show thesis using none Inr False by blast
    next
      case (Some x) then show thesis using dir isfile Inr False by (cases x) auto
    qed
  qed (use dir Inr in auto)
qed (rule bad)

lemma stored_iff: "stored st k s \<longleftrightarrow> (\<exists>p content. safe_path st k = Inr p \<and> p \<noteq> [] \<and> s p = Some (File content))"
  by (cases rule: local_cases [where st = st and k = k and s = s]) (auto simp: stored_def download_def split: if_splits)

lemma local_delete_cases:
  assumes "delete st k s = Inr s'"
  obtains p where "safe_path st k = Inr p" "p \<noteq> []" "s' = s(p := None)"
proof (cases rule: local_cases [where st = st and k = k and s = s])
  case (none p)
  then show thesis using assms that [of p] fun_upd_idem [of s p None] by (simp add: delete_def)
qed (use assms that in \<open>auto simp: delete_def\<close>)

lemma local_delete_refused: "delete st k s = Inl e \<Longrightarrow> \<not> stored st k s"
  by (cases rule: local_cases [where st = st and k = k and s = s]) (auto simp: stored_iff delete_def)

interpretation local_store: object_deletion env "local_objects st" "stored st" for env st
proof
  fix k q s s' e
  show "\<not> stored st k s'" if "os_delete (local_objects st) k s = Inr s'"
  proof -
    from that have "delete st k s = Inr s'" by (simp add: local_objects_def)
    then show ?thesis by (rule local_delete_cases) (simp add: stored_iff)
  qed
  show "stored st q s" if "os_delete (local_objects st) k s = Inr s'" "stored st q s'"
  proof -
    from that have "delete st k s = Inr s'" by (simp add: local_objects_def)
    then show ?thesis using that(2) by (elim local_delete_cases) (auto simp: stored_iff split: if_splits)
  qed
  show "\<not> stored st k s" if "os_delete (local_objects st) k s = Inl e" "ignored env e"
    using that(1) by (simp add: local_objects_def local_delete_refused)
qed

section \<open>The rows\<close>

lemma delete_documents_documents:
  assumes "delete_documents env st xs c s = (None, c', s')"
  shows "co_documents c' = del_rows (\<lambda>d. dc_id d \<in> dc_id ` set xs) (co_documents c)"
  using assms
proof (induction xs arbitrary: c s)
  case Nil then show ?case by (simp add: del_rows_def)
next
  case (Cons x xs)
  let ?c = "drop_document (dc_id x) (set_document (dc_id x) (\<lambda>y. y\<lparr>dc_status := Deleting\<rparr>) c)"
  have "\<exists>s1. delete_documents env st xs ?c s1 = (None, c', s')"
    using Cons.prems by (auto simp: Let_def split: sum.splits if_splits)
  then have "co_documents c' = del_rows (\<lambda>d. dc_id d \<in> dc_id ` set xs) (co_documents ?c)" using Cons.IH by blast
  moreover have "co_documents ?c = del_rows (\<lambda>d. dc_id d = dc_id x) (co_documents c)"
  proof -
    have "filter (\<lambda>d. dc_id d \<noteq> dc_id x) (map (\<lambda>d. if dc_id d = dc_id x then d\<lparr>dc_status := Deleting\<rparr> else d) ds)
       = filter (\<lambda>d. dc_id d \<noteq> dc_id x) ds" for ds by (induction ds) auto
    then have "del_rows (\<lambda>d. dc_id d = dc_id x) (co_documents (set_document (dc_id x) (\<lambda>y. y\<lparr>dc_status := Deleting\<rparr>) c))
        = del_rows (\<lambda>d. dc_id d = dc_id x) (co_documents c)"
      by (simp add: set_document_def co_documents_def upd_row_def del_rows_def)
    then show ?thesis by (simp only: drop_document_parts)
  qed
  ultimately have "co_documents c' = del_rows (\<lambda>d. dc_id d \<in> dc_id ` set xs \<or> dc_id d = dc_id x) (co_documents c)"
    by (simp only: del_rows_del_rows)
  then show ?case by (simp add: disj_commute)
qed

lemma begin_delete_documents [simp]: "co_documents (begin_dataset_delete sha x c) = co_documents c"
  by (simp add: begin_dataset_delete_def create_dataset_cleanup_def ensure_cleanup_def set_dataset_def co_documents_def split: option.split)

lemma mark_cleanup_documents [simp]: "co_documents (mark_cleanup_ready now k c) = co_documents c"
  by (simp add: mark_cleanup_ready_def co_documents_def)

lemma drop_dataset_documents: "co_documents (drop_dataset d c) = del_rows (\<lambda>x. dc_id x \<in> dc_id ` {y \<in> set (co_documents c). dc_dataset y = d}) (co_documents c)"
  by (simp add: drop_dataset_def Let_def co_documents_def) (simp add: fold_drop_documents_parts [unfolded co_documents_def])

lemma delete_dataset_done:
  assumes "delete_dataset env st refused p k c s = (Inr (), c', s')"
  obtains x c2 where "owned c p k = Inr x"
    "delete_documents env st (dataset_documents p k (begin_dataset_delete (ce_sha env) x c)) (begin_dataset_delete (ce_sha env) x c) s = (None, c2, s')"
    "c' = drop_dataset (normalize_dataset_id k) (mark_cleanup_ready (ce_now env) (dataset_cleanup_id (ce_sha env) x) c2)"
proof (cases "owned c p k")
  case (Inl e) then show thesis using assms by (simp add: delete_dataset_def)
next
  case (Inr x)
  obtain f c2 s2 where r: "delete_documents env st (dataset_documents p k (begin_dataset_delete (ce_sha env) x c)) (begin_dataset_delete (ce_sha env) x c) s = (f, c2, s2)"
    by (metis prod_cases3)
  have id: "ds_id x = normalize_dataset_id k" using owned_Inr [OF Inr] by simp
  have "f = None" "s2 = s'" "c' = drop_dataset (normalize_dataset_id k) (mark_cleanup_ready (ce_now env) (dataset_cleanup_id (ce_sha env) x) c2)"
    using assms Inr r id by (auto simp: delete_dataset_def Let_def split: option.splits if_splits)
  then show thesis using that Inr r by blast
qed

section \<open>An example\<close>

text \<open>Two datasets of one project, with one document each, kept in the local store.\<close>

definition kept_dataset :: "string \<Rightarrow> dataset" where
  "kept_dataset k = \<lparr>ds_id = k, ds_project = ''p'', ds_name = k, ds_description = None, ds_metadata = JObj [],
     ds_status = DsActive, ds_error = None, ds_created = 0\<rparr>"

definition kept_document :: "string \<Rightarrow> string \<Rightarrow> document" where
  "kept_document k d = (sample_document k)\<lparr>dc_dataset := d\<rparr>"

definition kept_corpus :: corpus where
  "kept_corpus = empty_corpus\<lparr>co_datasets := [kept_dataset ''ds_d'', kept_dataset ''ds_e''],
     co_graph := empty_graph\<lparr>g_documents := [kept_document ''x'' ''ds_d'', kept_document ''y'' ''ds_e'']\<rparr>\<rparr>"

definition kept_files :: fs where
  "kept_files = sample_fs([''data'', ''uploads'', ''x''] \<mapsto> File [1], [''data'', ''uploads'', ''y''] \<mapsto> File [2])"

lemmas kept_defs = kept_corpus_def kept_dataset_def kept_document_def empty_corpus_def empty_graph_def sample_document_def

lemma kept_ok: "corpus_ok kept_corpus"
  by (simp add: corpus_ok_def kept_defs graph_keys_def graph_refs_def merges_scoped_def queue_ok_def queue_of_def
      index_ok_def index_but_def index_rows_def datasets_ok_def co_documents_def)

lemma kept_owned: "owned kept_corpus ''p'' ''ds_d'' = Inr (kept_dataset ''ds_d'')" "owned kept_corpus ''p'' ''d'' = Inr (kept_dataset ''ds_d'')"
  by (simp_all add: owned_def normalize_dataset_id_def kept_defs)

lemma kept_x: "delete sample_store ''x'' kept_files = Inr (kept_files([''data'', ''uploads'', ''x''] := None))"
proof -
  have "safe_path sample_store ''x'' = Inr [''data'', ''uploads'', ''x'']" by code_simp
  then show ?thesis by (simp add: delete_def kept_files_def)
qed

lemma begin_dataset_delete_graph [simp]: "co_graph (begin_dataset_delete sha x c) = co_graph c"
  by (simp add: begin_dataset_delete_def create_dataset_cleanup_def ensure_cleanup_def set_dataset_def split: option.split)

lemma no_entities_unrestricted: "g_entities g = [] \<Longrightarrow> \<not> restricted d g"
  by (simp add: restricted_def)

lemma kept_documents: "co_documents kept_corpus = [kept_document ''x'' ''ds_d'', kept_document ''y'' ''ds_e'']"
  "g_entities (co_graph kept_corpus) = []"
  by (simp_all add: kept_corpus_def co_documents_def empty_graph_def)

lemma kept_full: "\<exists>c'. delete_dataset corpus_demo_env (local_objects sample_store) False ''p'' ''ds_d'' kept_corpus kept_files
    = (Inr (), c', kept_files([''data'', ''uploads'', ''x''] := None))"
proof -
  have fields: "dc_project (kept_document k d) = ''p''" "dc_dataset (kept_document k d) = d" "dc_object_key (kept_document k d) = k"
    "ds_id (kept_dataset d) = d" for k d by (simp_all add: kept_document_def sample_document_def kept_dataset_def)
  have one: "dataset_documents ''p'' ''ds_d'' (begin_dataset_delete sha o1 kept_corpus) = [kept_document ''x'' ''ds_d'']" for sha o1
    by (simp add: dataset_documents_def kept_documents fields)
  show ?thesis
    by (simp add: delete_dataset_def kept_owned one fields local_objects_def kept_x Let_def no_entities_unrestricted
        drop_document_graph delete_document_row_graph set_document_def kept_documents)
qed

lemma kept_short: "\<exists>c'. delete_dataset corpus_demo_env flat_store False ''p'' ''d'' kept_corpus kept_files = (Inr (), c', kept_files)"
proof -
  have "dataset_documents ''p'' ''d'' (begin_dataset_delete sha o1 kept_corpus) = []" for sha o1
    by (simp add: dataset_documents_def kept_documents kept_document_def)
  then show ?thesis
    by (simp add: delete_dataset_def kept_owned Let_def no_entities_unrestricted kept_documents)
qed

section \<open>Properties\<close>



text \<open>C35. The same request with the identifier short of its prefix, which the handler accepts, deletes the
  dataset and all of its documents and never calls the store: the objects stay there, and nothing
  in the tables names them any more.\<close>

theorem short_identifier_leaks_objects:
  assumes k: "\<not> starts_with ''ds_'' k" and full: "\<forall>x\<in>set (co_documents c). starts_with ''ds_'' (dc_dataset x)"
    and res: "delete_dataset env st refused p k c s = (Inr (), c', s')"
  shows "s' = s \<and> (\<exists>x\<in>set (co_datasets c). ds_id x = normalize_dataset_id k \<and> ds_project x = p)
    \<and> normalize_dataset_id k \<notin> ds_id ` set (co_datasets c') \<and> normalize_dataset_id k \<notin> dc_dataset ` set (co_documents c')"
proof -
  obtain o1 c2 where o1: "owned c p k = Inr o1"
    and c2: "delete_documents env st (dataset_documents p k (begin_dataset_delete (ce_sha env) o1 c)) (begin_dataset_delete (ce_sha env) o1 c) s = (None, c2, s')"
    and c': "c' = drop_dataset (normalize_dataset_id k) (mark_cleanup_ready (ce_now env) (dataset_cleanup_id (ce_sha env) o1) c2)"
    by (rule delete_dataset_done [OF res])
  have "dataset_documents p k (begin_dataset_delete (ce_sha env) o1 c) = []" using full k by (auto simp: dataset_documents_def filter_empty_conv)
  then have "s' = s" using c2 by simp
  moreover have "normalize_dataset_id k \<notin> ds_id ` set (co_datasets c')" by (auto simp: c' drop_dataset_def Let_def)
  moreover have "normalize_dataset_id k \<notin> dc_dataset ` set (co_documents c')" by (auto simp: c' drop_dataset_documents)
  ultimately show ?thesis using owned_Inr [OF o1] by blast
qed

theorem short_identifier_leaks_objects_witness:
  "\<exists>c'. delete_dataset corpus_demo_env flat_store False ''p'' ''d'' kept_corpus kept_files = (Inr (), c', kept_files)
     \<and> ''ds_d'' \<notin> ds_id ` set (co_datasets c')"
proof -
  obtain c' where d: "delete_dataset corpus_demo_env flat_store False ''p'' ''d'' kept_corpus kept_files = (Inr (), c', kept_files)"
    using kept_short by blast
  have full: "\<forall>x\<in>set (co_documents kept_corpus). starts_with ''ds_'' (dc_dataset x)"
    by (simp add: kept_documents kept_document_def)
  show ?thesis
    using short_identifier_leaks_objects [OF _ full d] d by (simp add: normalize_dataset_id_def)
qed

lemma map_res_Inl: "z \<in> set xs \<Longrightarrow> f z = Inl e0 \<Longrightarrow> \<exists>e. map_res f xs = Inl e"
proof (induction xs)
  case (Cons a xs)
  then show ?case by (cases "f a") auto
qed simp

text \<open>A null in the metadata of a patch is stored and then fails the response model, so that listing
  the datasets of the project fails from then on.\<close>

theorem null_metadata_blocks_listing:
  assumes "update_dataset p k \<lparr>dp_name = None, dp_description = None, dp_metadata = Some None\<rparr> c = (r, c')"
    and "owned c p k = Inr x" "\<not> name_taken x (co_datasets c)"
  shows "(\<exists>e. r = Inl e) \<and> (\<exists>e. list_datasets c' p = Inl e)"
proof -
  let ?y = "x\<lparr>ds_metadata := JNull\<rparr>"
  have x: "x \<in> set (co_datasets c)" "ds_project x = p" using owned_Inr [OF assms(2)] by simp_all
  have r: "r = view ?y" "c' = set_dataset (ds_id x) (\<lambda>_. ?y) c"
    using assms by (auto simp: update_dataset_def Let_def patch_dataset_def name_taken_def)
  have bad: "view ?y = Inl (ValueError ''Input should be a valid dictionary'')" by (simp add: view_def)
  have "?y \<in> set (co_datasets c')" using x(1) by (auto simp: r(2) set_dataset_def set_upd_row)
  then have "?y \<in> set (order_by ds_created (filter (\<lambda>x. ds_project x = p) (co_datasets c')))" using x(2) by simp
  then have "\<exists>e. list_datasets c' p = Inl e"
    unfolding list_datasets_def using bad by (rule map_res_Inl)
  then show ?thesis using bad by (simp add: r(1))
qed

theorem null_metadata_blocks_listing_witness:
  "\<exists>r c'. update_dataset ''p'' ''ds_d'' \<lparr>dp_name = None, dp_description = None, dp_metadata = Some None\<rparr> kept_corpus = (r, c')
     \<and> (\<exists>e. list_datasets c' ''p'' = Inl e)"
proof -
  obtain r c' where u: "update_dataset ''p'' ''ds_d'' \<lparr>dp_name = None, dp_description = None, dp_metadata = Some None\<rparr> kept_corpus = (r, c')"
    by (metis surj_pair)
  have "\<not> name_taken (kept_dataset ''ds_d'') (co_datasets kept_corpus)"
    by (simp add: name_taken_def kept_corpus_def kept_dataset_def)
  then show ?thesis using null_metadata_blocks_listing [OF u kept_owned(1)] u by blast
qed

end
