(* ===== verification/CodeGraph.thy ===== *)
theory CodeGraph
  imports LlmAnswer Uploads Regex
begin

text \<open>
  The code extractor of \<open>open_graph_core/code_extractor.py\<close>: symbols, relations and chunks of a source
  file, from a syntax tree or, when there is none or the walk over it raises, from its lines.

  The parser of tree-sitter is an argument, and so is the decoding of bytes with replacement
  characters, which lie outside the alphabet of the model. Strings are code points below 256.
\<close>

section \<open>Data\<close>

datatype symbol_kind = FileSymbol | ClassSymbol | FunctionSymbol | MethodSymbol | InterfaceSymbol | StructSymbol
  | EnumSymbol | VariableSymbol | ImportSymbol | TypeAliasSymbol | ModuleSymbol

fun kind_value :: "symbol_kind \<Rightarrow> string" where
  "kind_value FileSymbol = ''file''" | "kind_value ClassSymbol = ''class''"
| "kind_value FunctionSymbol = ''function''" | "kind_value MethodSymbol = ''method''"
| "kind_value InterfaceSymbol = ''interface''" | "kind_value StructSymbol = ''struct''"
| "kind_value EnumSymbol = ''enum''" | "kind_value VariableSymbol = ''variable''"
| "kind_value ImportSymbol = ''import''" | "kind_value TypeAliasSymbol = ''type_alias''"
| "kind_value ModuleSymbol = ''module''"

datatype code_relation_kind = Contains | Calls | Imports | Inherits | Implements | TypeReferences

fun relation_value :: "code_relation_kind \<Rightarrow> string" where
  "relation_value Contains = ''contains''" | "relation_value Calls = ''calls''"
| "relation_value Imports = ''imports''" | "relation_value Inherits = ''inherits''"
| "relation_value Implements = ''implements''" | "relation_value TypeReferences = ''type_references''"

record code_entity =
  sy_id :: string
  sy_path :: string
  sy_name :: string
  sy_kind :: symbol_kind
  sy_language :: string
  sy_start :: nat
  sy_end :: nat
  sy_from :: nat
  sy_to :: nat
  sy_signature :: "string option"
  sy_doc :: "string option"
  sy_parent :: "string option"
  sy_meta :: jobj

record code_relation =
  cl_id :: string
  cl_source :: string
  cl_target :: string
  cl_kind :: code_relation_kind
  cl_path :: string
  cl_line :: nat
  cl_quote :: "string option"

record ast_chunk =
  ac_id :: string
  ac_path :: string
  ac_symbol :: "string option"
  ac_name :: string
  ac_kind :: string
  ac_index :: nat
  ac_text :: string
  ac_tokens :: nat
  ac_start :: nat
  ac_end :: nat
  ac_meta :: jobj

record code_result =
  cd_path :: string
  cd_language :: string
  cd_entities :: "code_entity list"
  cd_relations :: "code_relation list"
  cd_chunks :: "ast_chunk list"

definition EXT_TO_LANG :: "(string \<times> string) list" where
  "EXT_TO_LANG = [(''.py'', ''python''), (''.pyi'', ''python''), (''.ts'', ''typescript''), (''.tsx'', ''typescript''),
     (''.js'', ''javascript''), (''.jsx'', ''javascript''), (''.mjs'', ''javascript''), (''.cjs'', ''javascript''),
     (''.go'', ''go''), (''.rs'', ''rust''), (''.c'', ''c''), (''.h'', ''c''), (''.cpp'', ''cpp''), (''.hpp'', ''cpp''),
     (''.cc'', ''cpp''), (''.cxx'', ''cpp'')]"

definition detect_language :: "string \<Rightarrow> string" where
  "detect_language path =
     (case map_of EXT_TO_LANG (py_lower (path_suffix path)) of None \<Rightarrow> ''generic'' | Some l \<Rightarrow> l)"

definition identifier_char :: "char \<Rightarrow> bool" where
  "identifier_char c \<longleftrightarrow> is_lower_az c \<or> is_upper_az c \<or> is_digit09 c \<or> c = CHR ''_''"

definition safe_name :: "string \<Rightarrow> string" where
  "safe_name s = take 40 (rx_sub (Plus (Cls (\<lambda>c. \<not> identifier_char c))) Eps (\<lambda>_. ''_'') s)"

definition canonical_symbol_id :: "(string \<Rightarrow> string) \<Rightarrow> string \<Rightarrow> string \<Rightarrow> string \<Rightarrow> string \<Rightarrow> string" where
  "canonical_symbol_id sha language path name kind =
     (let norm_path = py_strip_chars ''/'' (map (\<lambda>c. if c = CHR 0x5C then CHR ''/'' else c) path);
          raw = language @ '':'' @ norm_path @ '':'' @ kind @ '':'' @ name in
      ''code_'' @ language @ ''_'' @ safe_name name @ ''_'' @ take 12 (sha raw))"

section \<open>Syntax trees\<close>

text \<open>A node has its type, its bytes and rows, and its children with the names of their fields.\<close>

datatype ast = Node (n_type: string) (n_start: nat) (n_end: nat) (n_row: nat) (n_last: nat)
  (n_children: "(string option \<times> ast) list")

definition child_field :: "string \<Rightarrow> ast \<Rightarrow> ast option" where
  "child_field f n = map_option snd (find (\<lambda>(l, c). l = Some f) (n_children n))"

definition first_child :: "ast \<Rightarrow> ast option" where
  "first_child n = (case n_children n of [] \<Rightarrow> None | (l, c) # _ \<Rightarrow> Some c)"

definition or_else :: "'a option \<Rightarrow> 'a option \<Rightarrow> 'a option" where
  "or_else x y = (case x of None \<Rightarrow> y | Some v \<Rightarrow> Some v)"

text \<open>What the walk over a file knows: its language, path and file symbol, the digest, and the text of a
  node.\<close>

record code_ctx =
  kx_language :: string
  kx_path :: string
  kx_file :: string
  kx_sha :: "string \<Rightarrow> string"
  kx_text :: "ast \<Rightarrow> string"

definition node_text :: "(nat list \<Rightarrow> string) \<Rightarrow> nat list \<Rightarrow> ast \<Rightarrow> string" where
  "node_text decode code_bytes n = decode (slice (n_start n) (n_end n) code_bytes)"

definition symbol_id :: "code_ctx \<Rightarrow> string \<Rightarrow> symbol_kind \<Rightarrow> string" where
  "symbol_id cx name kind = canonical_symbol_id (kx_sha cx) (kx_language cx) (kx_path cx) name (kind_value kind)"

definition stripped :: "code_ctx \<Rightarrow> ast option \<Rightarrow> string option" where
  "stripped cx n = map_option (\<lambda>x. py_strip (kx_text cx x)) n"

definition name_from_parent :: "code_ctx \<Rightarrow> ast \<Rightarrow> string option" where
  "name_from_parent cx p =
     (if n_type p = ''variable_declarator'' then stripped cx (child_field ''name'' p)
      else if n_type p \<in> {''assignment_expression'', ''assignment'', ''assignment_statement'', ''short_var_declaration''}
        then stripped cx (or_else (child_field ''left'' p) (first_child p))
      else if n_type p \<in> {''pair'', ''property_definition'', ''field_definition'', ''method_definition''}
        then stripped cx (or_else (child_field ''key'' p) (child_field ''name'' p))
      else if n_type p = ''var_spec'' then stripped cx (or_else (child_field ''name'' p) (first_child p))
      else if n_type p = ''let_declaration'' then stripped cx (child_field ''pattern'' p)
      else if n_type p = ''type_definition'' then stripped cx (child_field ''declarator'' p)
      else if n_type p \<in> {''export_statement'', ''export_default_declaration''} then Some ''default''
      else None)"

definition infer_symbol_name :: "code_ctx \<Rightarrow> ast option \<Rightarrow> ast \<Rightarrow> string option" where
  "infer_symbol_name cx parent n =
     (case stripped cx (child_field ''name'' n) of
        Some (c # cs) \<Rightarrow> Some (c # cs)
      | _ \<Rightarrow> (case parent of None \<Rightarrow> None | Some p \<Rightarrow> name_from_parent cx p))"

text \<open>The truth value of a name that may be missing.\<close>

definition named :: "string option \<Rightarrow> string option" where
  "named x = (case x of Some (c # cs) \<Rightarrow> Some (c # cs) | _ \<Rightarrow> None)"

definition name_or :: "string \<Rightarrow> string option \<Rightarrow> string" where
  "name_or d x = (case named x of None \<Rightarrow> d | Some s \<Rightarrow> s)"

section \<open>What a node adds\<close>

record visited =
  vt_entities :: "code_entity list"
  vt_relations :: "code_relation list"
  vt_next :: string

definition unvisited :: "string \<Rightarrow> visited" where
  "unvisited cur = \<lparr>vt_entities = [], vt_relations = [], vt_next = cur\<rparr>"

definition symbol_entity :: "code_ctx \<Rightarrow> ast \<Rightarrow> string \<Rightarrow> string \<Rightarrow> symbol_kind \<Rightarrow> string \<Rightarrow> string \<Rightarrow> string option \<Rightarrow> jobj \<Rightarrow> code_entity" where
  "symbol_entity cx n cur k kind name signature doc meta =
     \<lparr>sy_id = k, sy_path = kx_path cx, sy_name = name, sy_kind = kind, sy_language = kx_language cx,
      sy_start = n_row n + 1, sy_end = n_last n + 1, sy_from = n_start n, sy_to = n_end n,
      sy_signature = Some signature, sy_doc = doc, sy_parent = Some cur, sy_meta = meta\<rparr>"

definition contains_relation :: "code_ctx \<Rightarrow> nat \<Rightarrow> string \<Rightarrow> string \<Rightarrow> code_relation" where
  "contains_relation cx line cur k =
     \<lparr>cl_id = ''rel_contains_'' @ cur @ ''_'' @ k, cl_source = cur, cl_target = k, cl_kind = Contains,
      cl_path = kx_path cx, cl_line = line, cl_quote = None\<rparr>"

text \<open>A symbol, contained in the current parent; \<open>inner\<close> says whether it becomes the parent of what is
  below it.\<close>

definition add_symbol :: "code_ctx \<Rightarrow> ast \<Rightarrow> string \<Rightarrow> bool \<Rightarrow> symbol_kind \<Rightarrow> string \<Rightarrow> string \<Rightarrow> string option \<Rightarrow> jobj \<Rightarrow> visited" where
  "add_symbol cx n cur inner kind name signature doc meta =
     (let k = symbol_id cx name kind in
      \<lparr>vt_entities = [symbol_entity cx n cur k kind name signature doc meta],
       vt_relations = [contains_relation cx (n_row n + 1) cur k],
       vt_next = (if inner then k else cur)\<rparr>)"

definition add_import :: "code_ctx \<Rightarrow> ast \<Rightarrow> string \<Rightarrow> (string \<Rightarrow> string) \<Rightarrow> visited" where
  "add_import cx n cur display =
     (let imp = py_strip (kx_text cx n); k = symbol_id cx (''import_'' @ dec_str (n_start n)) ImportSymbol in
      \<lparr>vt_entities = [symbol_entity cx n (kx_file cx) k ImportSymbol (take 50 (display imp)) imp None []],
       vt_relations = [\<lparr>cl_id = ''rel_imports_'' @ kx_file cx @ ''_'' @ k, cl_source = kx_file cx, cl_target = k,
          cl_kind = Imports, cl_path = kx_path cx, cl_line = n_row n + 1, cl_quote = Some imp\<rparr>],
       vt_next = cur\<rparr>)"

definition call_relation :: "code_ctx \<Rightarrow> ast \<Rightarrow> string \<Rightarrow> string \<Rightarrow> string \<Rightarrow> code_relation" where
  "call_relation cx n cur name quote =
     \<lparr>cl_id = ''rel_calls_'' @ cur @ ''_'' @ dec_str (n_start n), cl_source = cur,
      cl_target = symbol_id cx name FunctionSymbol, cl_kind = Calls, cl_path = kx_path cx, cl_line = n_row n + 1,
      cl_quote = Some (take 100 quote)\<rparr>"

definition add_call :: "code_ctx \<Rightarrow> ast \<Rightarrow> string \<Rightarrow> string \<Rightarrow> string \<Rightarrow> visited" where
  "add_call cx n cur name quote =
     (unvisited cur)\<lparr>vt_relations := (if name \<noteq> [] \<and> cur \<noteq> kx_file cx then [call_relation cx n cur name quote] else [])\<rparr>"

section \<open>Languages\<close>

definition python_docstring :: "code_ctx \<Rightarrow> ast \<Rightarrow> string option" where
  "python_docstring cx n =
     Option.bind (child_field ''body'' n) (\<lambda>body. Option.bind (first_child body) (\<lambda>stmt.
       if n_type stmt \<noteq> ''expression_statement'' then None
       else Option.bind (first_child stmt) (\<lambda>s.
         if n_type s \<noteq> ''string'' then None
         else Some (py_strip_chars [CHR 0x27, CHR 0x22, CHR '' '', CHR 0x0A, CHR 0x09] (kx_text cx s)))))"

definition superclasses :: "code_ctx \<Rightarrow> ast \<Rightarrow> string list" where
  "superclasses cx n =
     (case or_else (child_field ''superclasses'' n) (child_field ''argument_list'' n) of
        None \<Rightarrow> []
      | Some s \<Rightarrow> map (\<lambda>(l, c). kx_text cx c)
          (filter (\<lambda>(l, c). n_type c \<in> {''identifier'', ''attribute''}) (n_children s)))"

definition inherits_relation :: "code_ctx \<Rightarrow> ast \<Rightarrow> string \<Rightarrow> string \<Rightarrow> string \<Rightarrow> code_relation" where
  "inherits_relation cx n k name base =
     \<lparr>cl_id = ''rel_inherits_'' @ k @ ''_'' @ base, cl_source = k, cl_target = symbol_id cx base ClassSymbol,
      cl_kind = Inherits, cl_path = kx_path cx, cl_line = n_row n + 1,
      cl_quote = Some (''class '' @ name @ ''('' @ base @ ''):'')\<rparr>"

definition parameters_text :: "code_ctx \<Rightarrow> ast \<Rightarrow> string" where
  "parameters_text cx n = (case child_field ''parameters'' n of None \<Rightarrow> ''()'' | Some p \<Rightarrow> kx_text cx p)"

definition visit_python :: "code_ctx \<Rightarrow> ast option \<Rightarrow> ast \<Rightarrow> string \<Rightarrow> visited" where
  "visit_python cx parent n cur =
     (if n_type n \<in> {''function_definition'', ''async_function_definition'', ''lambda''} then
        (case named (infer_symbol_name cx parent n) of
           None \<Rightarrow> unvisited cur
         | Some name \<Rightarrow>
             add_symbol cx n cur True (if cur \<noteq> kx_file cx then MethodSymbol else FunctionSymbol) name
               (''def '' @ name @ parameters_text cx n) (python_docstring cx n) [])
      else if n_type n = ''class_definition'' then
        (let name = name_or ''anonymous'' (infer_symbol_name cx parent n);
             bases = superclasses cx n;
             v = add_symbol cx n cur True ClassSymbol name (''class '' @ name) None
                   [(''superclasses'', JList (map JStr bases))] in
         v\<lparr>vt_relations := vt_relations v @ map (inherits_relation cx n (symbol_id cx name ClassSymbol) name) bases\<rparr>)
      else if n_type n \<in> {''import_statement'', ''import_from_statement''} then add_import cx n cur (\<lambda>s. s)
      else if n_type n = ''call'' then
        (case child_field ''function'' n of
           None \<Rightarrow> unvisited cur
         | Some f \<Rightarrow> add_call cx n cur (kx_text cx f) (kx_text cx n))
      else unvisited cur)"

definition upper_char :: "char \<Rightarrow> bool" where
  "upper_char c \<longleftrightarrow> is_upper_az c \<or> 192 \<le> ord_of c \<and> ord_of c \<le> 222 \<and> ord_of c \<noteq> 215"

definition visit_call :: "code_ctx \<Rightarrow> ast \<Rightarrow> string \<Rightarrow> visited" where
  "visit_call cx n cur =
     (case child_field ''function'' n of
        None \<Rightarrow> unvisited cur
      | Some f \<Rightarrow> let name = py_strip (kx_text cx f) in add_call cx n cur name name)"

definition visit_script :: "code_ctx \<Rightarrow> ast option \<Rightarrow> ast \<Rightarrow> string \<Rightarrow> visited" where
  "visit_script cx parent n cur =
     (if n_type n \<in> {''function_declaration'', ''function_expression'', ''method_definition'', ''arrow_function''} then
        (case named (infer_symbol_name cx parent n) of
           None \<Rightarrow> unvisited cur
         | Some name \<Rightarrow>
             add_symbol cx n cur True (if n_type n = ''method_definition'' then MethodSymbol else FunctionSymbol) name
               (''function '' @ name @ parameters_text cx n) None [])
      else if n_type n \<in> {''class_declaration'', ''interface_declaration'', ''type_alias_declaration''} then
        (let name = name_or ''anonymous'' (infer_symbol_name cx parent n);
             kind = (if n_type n = ''interface_declaration'' then InterfaceSymbol
                     else if n_type n = ''type_alias_declaration'' then TypeAliasSymbol else ClassSymbol) in
         add_symbol cx n cur True kind name (kind_value kind @ '' '' @ name) None [])
      else if n_type n = ''import_statement'' then add_import cx n cur (\<lambda>s. s)
      else if n_type n = ''call_expression'' then visit_call cx n cur
      else if n_type n \<in> {''jsx_element'', ''jsx_self_closing_element''} then
        (case (if n_type n = ''jsx_element'' then child_field ''open_tag'' n else Some n) of
           None \<Rightarrow> unvisited cur
         | Some t \<Rightarrow>
             (case stripped cx (child_field ''name'' t) of
                Some (c # cs) \<Rightarrow> if upper_char c then add_call cx n cur (c # cs) (c # cs) else unvisited cur
              | _ \<Rightarrow> unvisited cur))
      else unvisited cur)"

text \<open>\<open>node_text(node).split("{")[0].strip()\<close>\<close>

definition head_text :: "code_ctx \<Rightarrow> ast \<Rightarrow> string" where
  "head_text cx n = py_strip (takeWhile (\<lambda>c. c \<noteq> CHR 0x7B) (kx_text cx n))"

definition visit_go :: "code_ctx \<Rightarrow> ast option \<Rightarrow> ast \<Rightarrow> string \<Rightarrow> visited" where
  "visit_go cx parent n cur =
     (if n_type n \<in> {''function_declaration'', ''method_declaration'', ''func_literal''} then
        (case named (infer_symbol_name cx parent n) of
           None \<Rightarrow> unvisited cur
         | Some name \<Rightarrow>
             add_symbol cx n cur True (if n_type n = ''method_declaration'' then MethodSymbol else FunctionSymbol) name
               (head_text cx n) None [])
      else if n_type n = ''type_spec'' then
        (case named (infer_symbol_name cx parent n) of
           None \<Rightarrow> unvisited cur
         | Some name \<Rightarrow>
             let t = map_option n_type (child_field ''type'' n) in
             add_symbol cx n cur False
               (if t = Some ''struct_type'' then StructSymbol else if t = Some ''interface_type'' then InterfaceSymbol
                else TypeAliasSymbol) name (''type '' @ name) None [])
      else if n_type n = ''import_spec'' then add_import cx n cur (py_strip_chars [CHR 0x22])
      else if n_type n = ''call_expression'' then visit_call cx n cur
      else unvisited cur)"

definition visit_rust :: "code_ctx \<Rightarrow> ast option \<Rightarrow> ast \<Rightarrow> string \<Rightarrow> visited" where
  "visit_rust cx parent n cur =
     (if n_type n \<in> {''function_item'', ''struct_item'', ''enum_item'', ''trait_item'', ''closure_expression''} then
        (case named (infer_symbol_name cx parent n) of
           None \<Rightarrow> unvisited cur
         | Some name \<Rightarrow>
             add_symbol cx n cur True
               (if n_type n \<in> {''function_item'', ''closure_expression''} then FunctionSymbol
                else if n_type n = ''struct_item'' then StructSymbol
                else if n_type n = ''enum_item'' then EnumSymbol else InterfaceSymbol)
               name (head_text cx n) None [])
      else unvisited cur)"

text \<open>A structure without a name: \<open>sym_id\<close> is read before it is assigned.\<close>

definition visit_c :: "code_ctx \<Rightarrow> ast option \<Rightarrow> ast \<Rightarrow> string \<Rightarrow> visited res" where
  "visit_c cx parent n cur =
     (if n_type n = ''function_definition'' then
        (let text = (case child_field ''declarator'' n of None \<Rightarrow> ''function'' | Some d \<Rightarrow> kx_text cx d);
             name = py_strip (takeWhile (\<lambda>c. c \<noteq> CHR ''('') text) in
         Inr (add_symbol cx n cur True FunctionSymbol name name None []))
      else if n_type n \<in> {''struct_specifier'', ''class_specifier''} then
        (case named (infer_symbol_name cx parent n) of
           None \<Rightarrow> Inl (RuntimeError ''cannot access local variable sym_id'')
         | Some name \<Rightarrow>
             let kind = (if n_type n = ''class_specifier'' then ClassSymbol else StructSymbol) in
             Inr (add_symbol cx n cur True kind name (kind_value kind @ '' '' @ name) None []))
      else Inr (unvisited cur))"

definition visit_node :: "code_ctx \<Rightarrow> ast option \<Rightarrow> ast \<Rightarrow> string \<Rightarrow> visited res" where
  "visit_node cx parent n cur =
     (if kx_language cx = ''python'' then Inr (visit_python cx parent n cur)
      else if kx_language cx \<in> {''typescript'', ''javascript''} then Inr (visit_script cx parent n cur)
      else if kx_language cx = ''go'' then Inr (visit_go cx parent n cur)
      else if kx_language cx = ''rust'' then Inr (visit_rust cx parent n cur)
      else if kx_language cx \<in> {''c'', ''cpp''} then visit_c cx parent n cur
      else Inr (unvisited cur))"

section \<open>The walk\<close>

type_synonym found = "code_entity list \<times> code_relation list"

fun traverse_node :: "code_ctx \<Rightarrow> ast option \<Rightarrow> string \<Rightarrow> ast \<Rightarrow> found \<Rightarrow> found res"
  and traverse_children :: "code_ctx \<Rightarrow> ast \<Rightarrow> string \<Rightarrow> (string option \<times> ast) list \<Rightarrow> found \<Rightarrow> found res" where
  "traverse_node cx parent cur (Node t a b r l cs) (es, rs) =
     bindE (visit_node cx parent (Node t a b r l cs) cur) (\<lambda>v.
       traverse_children cx (Node t a b r l cs) (vt_next v) cs (es @ vt_entities v, rs @ vt_relations v))"
| "traverse_children cx p cur [] acc = Inr acc"
| "traverse_children cx p cur ((f, n) # cs) acc =
     bindE (traverse_node cx (Some p) cur n acc) (\<lambda>acc'. traverse_children cx p cur cs acc')"

section \<open>Chunks\<close>

definition CHUNK_SIZE :: nat where "CHUNK_SIZE = 1500"

definition opt_json :: "string option \<Rightarrow> json" where
  "opt_json x = (case x of None \<Rightarrow> JNull | Some s \<Rightarrow> JStr s)"

definition file_chunk :: "string \<Rightarrow> string \<Rightarrow> ast_chunk" where
  "file_chunk path content =
     \<lparr>ac_id = ''chunk_'' @ path @ ''_0'', ac_path = path, ac_symbol = None, ac_name = path_name path, ac_kind = ''file'',
      ac_index = 0, ac_text = take CHUNK_SIZE content, ac_tokens = length (py_split (take CHUNK_SIZE content)),
      ac_start = 1, ac_end = max 1 (length (splitlines_from [] content)), ac_meta = []\<rparr>"

definition symbol_chunk :: "string \<Rightarrow> string list \<Rightarrow> nat \<times> code_entity \<Rightarrow> ast_chunk" where
  "symbol_chunk path lines x =
     (case x of (i, e) \<Rightarrow>
        let a = max 1 (sy_start e); b = min (length lines) (sy_end e);
            text = py_join [CHR 0x0A] (slice (a - 1) b lines) in
        \<lparr>ac_id = ''chunk_'' @ path @ ''_'' @ sy_name e @ ''_'' @ dec_str i, ac_path = path, ac_symbol = Some (sy_id e),
         ac_name = sy_name e, ac_kind = kind_value (sy_kind e), ac_index = i, ac_text = text,
         ac_tokens = length (py_split text), ac_start = a, ac_end = b,
         ac_meta = [(''signature'', opt_json (sy_signature e)), (''docstring'', opt_json (sy_doc e)),
                    (''parent_id'', opt_json (sy_parent e))]\<rparr>)"

definition generate_ast_chunks :: "string \<Rightarrow> string \<Rightarrow> code_entity list \<Rightarrow> ast_chunk list" where
  "generate_ast_chunks path content entities =
     (let symbols = filter (\<lambda>e. sy_kind e \<noteq> FileSymbol) entities in
      if symbols = [] then [file_chunk path content]
      else map (symbol_chunk path (splitlines_from [] content)) (enumerate 0 symbols))"

section \<open>Extraction\<close>

definition file_entity :: "(string \<Rightarrow> string) \<Rightarrow> string \<Rightarrow> string \<Rightarrow> string \<Rightarrow> code_entity" where
  "file_entity sha language path content =
     \<lparr>sy_id = canonical_symbol_id sha language path (path_name path) ''file'', sy_path = path, sy_name = path_name path,
      sy_kind = FileSymbol, sy_language = language, sy_start = 1, sy_end = max 1 (length (splitlines_from [] content)),
      sy_from = 0, sy_to = length (utf8_encode (codes content)), sy_signature = Some path, sy_doc = None,
      sy_parent = None, sy_meta = []\<rparr>"

record code_io =
  ki_sha :: "string \<Rightarrow> string"
  ki_decode :: "nat list \<Rightarrow> string"
  ki_parse :: "string \<Rightarrow> nat list \<Rightarrow> ast res"
  ki_available :: bool

definition code_context :: "code_io \<Rightarrow> string \<Rightarrow> string \<Rightarrow> string \<Rightarrow> code_ctx" where
  "code_context io language path content =
     \<lparr>kx_language = language, kx_path = path, kx_file = sy_id (file_entity (ki_sha io) language path content),
      kx_sha = ki_sha io, kx_text = node_text (ki_decode io) (utf8_encode (codes content))\<rparr>"

definition code_result_of :: "string \<Rightarrow> string \<Rightarrow> string \<Rightarrow> found \<Rightarrow> code_result" where
  "code_result_of path language content x =
     \<lparr>cd_path = path, cd_language = language, cd_entities = fst x, cd_relations = snd x,
      cd_chunks = generate_ast_chunks path content (fst x)\<rparr>"

definition extract_with_treesitter :: "code_io \<Rightarrow> string \<Rightarrow> string \<Rightarrow> string \<Rightarrow> code_result res" where
  "extract_with_treesitter io path content language =
     bindE (ki_parse io language (utf8_encode (codes content))) (\<lambda>root.
     let cx = code_context io language path content in
     bindE (traverse_node cx None (kx_file cx) root ([file_entity (ki_sha io) language path content], [])) (\<lambda>x.
     Inr (code_result_of path language content x)))"

text \<open>\<open>^\s*(?:async\s+)?(?:def|function|...)\s+\<close> and the group \<open>([A-Za-z0-9_]+)\<close>, at the start of a line: a
  line of \<open>splitlines\<close> has no line feed inside.\<close>

definition word_rx :: "string \<Rightarrow> rx" where
  "word_rx s = seqs (map chr s)"

definition symbol_prefix :: rx where
  "symbol_prefix = seqs [Star space, Opt (Seq (word_rx ''async'') (Plus space)),
     alts (map word_rx [''def'', ''function'', ''fn'', ''func'', ''class'', ''struct'', ''interface'', ''type'']), Plus space]"

definition line_symbol :: "string \<Rightarrow> string option" where
  "line_symbol line =
     (case match_at symbol_prefix (Plus (Cls identifier_char)) line 0 of
        None \<Rightarrow> None
      | Some (j, k) \<Rightarrow> Some (slice j k line))"

definition line_entity :: "(string \<Rightarrow> string) \<Rightarrow> string \<Rightarrow> string \<Rightarrow> string \<Rightarrow> nat \<times> string \<Rightarrow> string \<Rightarrow> code_entity" where
  "line_entity sha language path content x name =
     (case x of (i, line) \<Rightarrow>
        let is_fn = py_contains ''def'' line \<or> py_contains ''function'' line \<or> py_contains ''fn'' line;
            kind = (if is_fn then FunctionSymbol else ClassSymbol);
            file = file_entity sha language path content in
        \<lparr>sy_id = canonical_symbol_id sha language path name (kind_value kind), sy_path = path, sy_name = name, sy_kind = kind,
         sy_language = language, sy_start = i, sy_end = min (i + 20) (length (splitlines_from [] content)), sy_from = 0,
         sy_to = length (utf8_encode (codes content)), sy_signature = Some (py_strip line), sy_doc = None,
         sy_parent = Some (sy_id file), sy_meta = []\<rparr>)"

definition line_found :: "(string \<Rightarrow> string) \<Rightarrow> string \<Rightarrow> string \<Rightarrow> string \<Rightarrow> nat \<times> string \<Rightarrow> (code_entity \<times> code_relation) list" where
  "line_found sha language path content x =
     (case line_symbol (snd x) of
        None \<Rightarrow> []
      | Some name \<Rightarrow>
          let e = line_entity sha language path content x name;
              file = sy_id (file_entity sha language path content) in
          [(e, \<lparr>cl_id = ''rel_contains_'' @ file @ ''_'' @ sy_id e, cl_source = file, cl_target = sy_id e,
                cl_kind = Contains, cl_path = path, cl_line = fst x, cl_quote = None\<rparr>)])"

definition extract_with_fallback :: "code_io \<Rightarrow> string \<Rightarrow> string \<Rightarrow> string \<Rightarrow> code_result" where
  "extract_with_fallback io path content language =
     (let found = concat (map (line_found (ki_sha io) language path content) (enumerate 1 (splitlines_from [] content))) in
      code_result_of path language content
        (file_entity (ki_sha io) language path content # map fst found, map snd found))"

definition extract_file :: "code_io \<Rightarrow> string \<Rightarrow> string \<Rightarrow> code_result" where
  "extract_file io path content =
     (let language = detect_language path in
      if ki_available io \<and> language \<noteq> ''generic'' then
        (case extract_with_treesitter io path content language of
           Inr r \<Rightarrow> r
         | Inl e \<Rightarrow> extract_with_fallback io path content language)
      else extract_with_fallback io path content language)"

end
