(* ===== verification/Analytics.thy ===== *)
theory Analytics
  imports GraphView LlmAnswer "HOL-Library.AList"
begin

text \<open>
  The analytics of \<open>app/graph/analytics.py\<close>: three levels of communities, each grouping the
  communities of the level below, with their statistics, and the refresh that stores them for a
  snapshot of a dataset.

  The graphs and the Louvain method are those of the library networkx: a record of operations, with
  what its documentation says of them as the predicate \<open>networkx_ok\<close>. The digest and the JSON writer
  are arguments.
\<close>

section \<open>The library\<close>

record ('n, 'g) graph_ops =
  go_new :: "'n list \<Rightarrow> 'g"
  go_add :: "'n \<Rightarrow> 'n \<Rightarrow> rat \<Rightarrow> 'g \<Rightarrow> 'g"
  go_weight :: "'g \<Rightarrow> 'n \<Rightarrow> 'n \<Rightarrow> rat option"
  go_nodes :: "'g \<Rightarrow> 'n list"
  go_edges :: "'g \<Rightarrow> ('n \<times> 'n \<times> rat) list"

record ('g, 'h) networkx =
  nx_names :: "(string, 'g) graph_ops"
  nx_indexes :: "(nat, 'h) graph_ops"
  nx_relabel :: "(nat \<Rightarrow> string) \<Rightarrow> 'h \<Rightarrow> 'g"
  nx_degree :: "'g \<Rightarrow> string \<Rightarrow> int"
  nx_weighted_degree :: "'g \<Rightarrow> string \<Rightarrow> rat"
  nx_louvain :: "rat \<Rightarrow> int \<Rightarrow> 'g \<Rightarrow> string list list"

text \<open>What the documentation of networkx promises: which nodes a graph has, that edges join nodes,
  and that the communities are a partition of the nodes.\<close>

definition graph_ops_ok :: "('n, 'g) graph_ops \<Rightarrow> bool" where
  "graph_ops_ok G \<longleftrightarrow> (\<forall>ns. set (go_nodes G (go_new G ns)) = set ns)
     \<and> (\<forall>a b w g. set (go_nodes G (go_add G a b w g)) = insert a (insert b (set (go_nodes G g))))
     \<and> (\<forall>g a b w. (a, b, w) \<in> set (go_edges G g) \<longrightarrow> a \<in> set (go_nodes G g) \<and> b \<in> set (go_nodes G g))"

text \<open>A partition, as a list of lists.\<close>

definition partitions :: "'a list list \<Rightarrow> 'a set \<Rightarrow> bool" where
  "partitions gs A \<longleftrightarrow> distinct (concat gs) \<and> set (concat gs) = A \<and> [] \<notin> set gs"

definition networkx_ok :: "('g, 'h) networkx \<Rightarrow> bool" where
  "networkx_ok N \<longleftrightarrow> graph_ops_ok (nx_names N) \<and> graph_ops_ok (nx_indexes N)
     \<and> (\<forall>f h. inj f \<longrightarrow> set (go_nodes (nx_names N) (nx_relabel N f h)) = f ` set (go_nodes (nx_indexes N) h))
     \<and> (\<forall>r seed g. partitions (nx_louvain N r seed g) (set (go_nodes (nx_names N) g)))"

section \<open>Constants\<close>

definition LOUVAIN_SEED :: int where "LOUVAIN_SEED = 0"

definition LOUVAIN_RESOLUTION :: rat where "LOUVAIN_RESOLUTION = 1"

definition HIERARCHY_RESOLUTIONS :: "rat list" where
  "HIERARCHY_RESOLUTIONS = [1, 1 / 2, 1 / 4]"

definition HIERARCHY_ALGORITHM_VERSION :: string where
  "HIERARCHY_ALGORITHM_VERSION = ''hierarchical-louvain-v1''"

definition MAX_ANALYTICS_ENTITIES :: nat where "MAX_ANALYTICS_ENTITIES = 5000"

definition MAX_ANALYTICS_RELATIONS :: nat where "MAX_ANALYTICS_RELATIONS = 20000"

section \<open>Sums\<close>

text \<open>The built-in \<open>sum\<close> of Python 3.12 on floats: Neumaier's compensated summation.\<close>

fun sum_from :: "rat \<Rightarrow> rat \<Rightarrow> rat list \<Rightarrow> rat" where
  "sum_from s c [] = fadd s c"
| "sum_from s c (x # xs) =
     (let t = fadd s x in
      sum_from t (fadd c (if \<bar>x\<bar> \<le> \<bar>s\<bar> then fadd (fsub s t) x else fadd (fsub x t) s)) xs)"

definition py_sum :: "rat list \<Rightarrow> rat" where
  "py_sum xs = sum_from 0 0 xs"

section \<open>The hierarchy\<close>

definition snapshot_digest :: "(string \<Rightarrow> string) \<Rightarrow> (string list \<Rightarrow> (string \<times> string \<times> rat) list \<Rightarrow> string)
    \<Rightarrow> string list \<Rightarrow> (string \<times> string \<times> rat) list \<Rightarrow> string" where
  "snapshot_digest sha dumps es rs = sha (dumps (sort es) (sort rs))"

definition community_id :: "(string \<Rightarrow> string) \<Rightarrow> string \<Rightarrow> nat \<Rightarrow> string list \<Rightarrow> string" where
  "community_id sha snapshot level members =
     take 32 (sha (snapshot @ '':'' @ HIERARCHY_ALGORITHM_VERSION @ '':'' @ dec_str level @ '':'' @ py_join '','' members))"

definition groups_of :: "('g, 'h) networkx \<Rightarrow> 'g \<Rightarrow> rat \<Rightarrow> string list list" where
  "groups_of N g r = (if go_nodes (nx_names N) g = [] then [] else sort (map sort (nx_louvain N r LOUVAIN_SEED g)))"

definition entity_graph :: "('g, 'h) networkx \<Rightarrow> string list \<Rightarrow> (string \<times> string \<times> rat) list \<Rightarrow> 'g" where
  "entity_graph N es rs =
     fold (\<lambda>(s, t, w) g. go_add (nx_names N) s t
         (fadd (case go_weight (nx_names N) g s t of None \<Rightarrow> 0 | Some v \<Rightarrow> v) w) g)
       (sort rs) (go_new (nx_names N) (sort es))"

text \<open>\<open>{entity: index for index, group in enumerate(children) for entity in group}\<close>\<close>

definition child_of :: "string list list \<Rightarrow> string \<Rightarrow> nat option" where
  "child_of children = map_of (rev (concat (map (\<lambda>(i, g). map (\<lambda>e. (e, i)) g) (enumerate 0 children))))"

definition quotient :: "('g, 'h) networkx \<Rightarrow> 'g \<Rightarrow> string list list \<Rightarrow> 'h res" where
  "quotient N g children =
     foldE (\<lambda>(s, t, w) q. case (child_of children s, child_of children t) of
         (Some l, Some r) \<Rightarrow>
           if l = r then Inr q
           else Inr (go_add (nx_indexes N) l r (fadd (case go_weight (nx_indexes N) q l r of None \<Rightarrow> 0 | Some v \<Rightarrow> v) w) q)
       | _ \<Rightarrow> Inl KeyError)
       (go_edges (nx_names N) g) (go_new (nx_indexes N) [0..<length children])"

text \<open>\<open>int(index)\<close> on a string of digits, and \<open>children[...]\<close>.\<close>

definition parse_index :: "string \<Rightarrow> nat res" where
  "parse_index s =
     (if s \<noteq> [] \<and> list_all is_digit09 s then Inr (foldl (\<lambda>n c. 10 * n + (ord_of c - 48)) 0 s)
      else Inl (ValueError ''invalid literal for int() with base 10''))"

definition member_group :: "string list list \<Rightarrow> string \<Rightarrow> string list res" where
  "member_group children s =
     bindE (parse_index s) (\<lambda>n. if n < length children then Inr (children ! n) else Inl IndexError)"

definition parent_groups :: "('g, 'h) networkx \<Rightarrow> 'g \<Rightarrow> string list list \<Rightarrow> rat \<Rightarrow> string list list res" where
  "parent_groups N g children r =
     bindE (quotient N g children) (\<lambda>q.
       map_res (\<lambda>group. bindE (map_res (member_group children) group) (\<lambda>gs. Inr (sort (concat gs))))
         (groups_of N (nx_relabel N dec_str q) r))"

definition level_groups :: "('g, 'h) networkx \<Rightarrow> 'g \<Rightarrow> string list list list res" where
  "level_groups N g =
     foldE (\<lambda>r ls. bindE (parent_groups N g (last ls) r) (\<lambda>l. Inr (ls @ [l])))
       (tl HIERARCHY_RESOLUTIONS) [groups_of N g (hd HIERARCHY_RESOLUTIONS)]"

section \<open>The result\<close>

record community_stats =
  st_members :: "string list"
  st_parent :: "string option"
  st_internal :: nat
  st_external :: nat
  st_density :: rat
  st_importance :: rat

record analytics_result =
  rs_hash :: string
  rs_memberships :: "(string \<Rightarrow> string option) list"
  rs_stats :: "(string \<times> community_stats) list list"
  rs_degree :: "string \<Rightarrow> int option"
  rs_weighted :: "string \<Rightarrow> rat option"
  rs_importance :: "string \<Rightarrow> rat option"
  rs_relations :: nat

text \<open>\<open>{entity: id of group for group in groups for entity in group}\<close>\<close>

definition level_members :: "(string \<Rightarrow> string) \<Rightarrow> string \<Rightarrow> nat \<Rightarrow> string list list \<Rightarrow> string \<Rightarrow> string option" where
  "level_members sha digest level groups =
     map_of (rev (concat (map (\<lambda>g. map (\<lambda>e. (e, community_id sha digest level g)) g) groups)))"

definition parent_of :: "(string \<Rightarrow> string option) list \<Rightarrow> nat \<Rightarrow> string list \<Rightarrow> string option res" where
  "parent_of memberships level xs =
     (if level = 2 then Inr None
      else case xs of
        [] \<Rightarrow> Inl IndexError
      | e # _ \<Rightarrow> (case (memberships ! Suc level) e of None \<Rightarrow> Inl KeyError | Some k \<Rightarrow> Inr (Some k)))"

definition group_stats :: "(string \<times> string \<times> rat) list \<Rightarrow> string list \<Rightarrow> string option \<Rightarrow> community_stats" where
  "group_stats edges xs parent =
     (let members = set xs; n = length xs;
          internal = length (filter (\<lambda>(s, t, w). s \<in> members \<and> t \<in> members) edges);
          external = length (filter (\<lambda>(s, t, w). (s \<in> members) \<noteq> (t \<in> members)) edges);
          weight = py_sum (map (\<lambda>(s, t, w). w) (filter (\<lambda>(s, t, w). s \<in> members \<or> t \<in> members) edges));
          total = py_sum (map (\<lambda>(s, t, w). w) edges) in
      \<lparr>st_members = xs, st_parent = parent, st_internal = internal, st_external = external,
       st_density = (if n < 2 then 0 else fdiv (of_nat (2 * internal)) (of_nat (n * (n - 1)))),
       st_importance = (if total = 0 then 0 else fdiv weight (fmul 2 total))\<rparr>)"

definition level_stats :: "(string \<Rightarrow> string) \<Rightarrow> string \<Rightarrow> (string \<times> string \<times> rat) list \<Rightarrow> (string \<Rightarrow> string option) list
    \<Rightarrow> nat \<Rightarrow> string list list \<Rightarrow> (string \<times> community_stats) list res" where
  "level_stats sha digest edges memberships level groups =
     foldE (\<lambda>g d. bindE (parent_of memberships level g) (\<lambda>p.
         Inr (AList.update (community_id sha digest level g) (group_stats edges g p) d)))
       groups []"

definition importance_map :: "('g, 'h) networkx \<Rightarrow> 'g \<Rightarrow> string \<Rightarrow> rat option" where
  "importance_map N g =
     (let nodes = go_nodes (nx_names N) g; total = py_sum (map (nx_weighted_degree N g) nodes) in
      map_of (map (\<lambda>e. (e, if total \<noteq> 0 then fdiv (nx_weighted_degree N g e) total
                           else fdiv 1 (of_nat (length nodes)))) nodes))"

definition analyze_graph :: "('g, 'h) networkx \<Rightarrow> (string \<Rightarrow> string) \<Rightarrow> (string list \<Rightarrow> (string \<times> string \<times> rat) list \<Rightarrow> string)
    \<Rightarrow> string list \<Rightarrow> (string \<times> string \<times> rat) list \<Rightarrow> analytics_result res" where
  "analyze_graph N sha dumps es rs =
     (let g = entity_graph N es rs; digest = snapshot_digest sha dumps es rs;
          nodes = go_nodes (nx_names N) g in
      bindE (level_groups N g) (\<lambda>levels.
      let memberships = map (\<lambda>(i, gs). level_members sha digest i gs) (enumerate 0 levels) in
      bindE (map_res (\<lambda>(i, gs). level_stats sha digest (go_edges (nx_names N) g) memberships i gs) (enumerate 0 levels)) (\<lambda>stats.
      Inr \<lparr>rs_hash = digest, rs_memberships = memberships, rs_stats = stats,
           rs_degree = map_of (map (\<lambda>e. (e, nx_degree N g e)) nodes),
           rs_weighted = map_of (map (\<lambda>e. (e, nx_weighted_degree N g e)) nodes),
           rs_importance = importance_map N g, rs_relations = length rs\<rparr>)))"

section \<open>Refreshing a dataset\<close>

definition analytics_relation :: "graph_db \<Rightarrow> grelation \<Rightarrow> bool" where
  "analytics_relation db r \<longleftrightarrow> rl_review r \<noteq> Rejected
     \<and> (rl_review r = Approved \<or> list_ex (\<lambda>v. gv_relation v = Some (rl_id r)) (g_evidence db))"

definition analytics_entities :: "graph_db \<Rightarrow> string \<Rightarrow> string \<Rightarrow> string list" where
  "analytics_entities db project dataset =
     limit (MAX_ANALYTICS_ENTITIES + 1)
       (sort (map en_id (filter (\<lambda>e. en_project e = project \<and> en_dataset e = dataset) (g_entities db))))"

definition analytics_rows :: "graph_db \<Rightarrow> string \<Rightarrow> string \<Rightarrow> (string \<times> string \<times> rat) list" where
  "analytics_rows db project dataset =
     map (\<lambda>r. (rl_source r, rl_target r, rl_confidence r))
       (limit (MAX_ANALYTICS_RELATIONS + 1) (order_by rl_id
         (filter (\<lambda>r. rl_project r = project \<and> rl_dataset r = dataset \<and> analytics_relation db r) (g_relations db))))"

definition analytics_run_row :: "string \<Rightarrow> int \<Rightarrow> string \<Rightarrow> string \<Rightarrow> nat \<Rightarrow> analytics_result \<Rightarrow> analytics_run" where
  "analytics_run_row k now project dataset n res =
     \<lparr>ar_id = k, ar_project = project, ar_dataset = dataset, ar_hash = rs_hash res, ar_entities = int n,
      ar_relations = int (rs_relations res), ar_communities = int (length (rs_stats res ! 0)),
      ar_resolution = LOUVAIN_RESOLUTION, ar_seed = LOUVAIN_SEED, ar_levels = 3,
      ar_algorithm = HIERARCHY_ALGORITHM_VERSION,
      ar_config = [(''resolutions'', JList (map JFloat HIERARCHY_RESOLUTIONS))], ar_created = now\<rparr>"

definition entity_metric_of :: "string \<Rightarrow> analytics_result \<Rightarrow> string \<Rightarrow> entity_metric res" where
  "entity_metric_of k res e =
     (case (rs_degree res e, rs_weighted res e, rs_importance res e) of
        (Some d, Some w, Some i) \<Rightarrow> Inr \<lparr>em_run = k, em_entity = e, em_degree = d, em_weighted = w, em_importance = i\<rparr>
      | _ \<Rightarrow> Inl KeyError)"

definition entity_memberships :: "string \<Rightarrow> analytics_result \<Rightarrow> string \<Rightarrow> membership list res" where
  "entity_memberships k res e =
     map_res (\<lambda>level. case (rs_memberships res ! level) e of
         None \<Rightarrow> Inl KeyError
       | Some c \<Rightarrow> Inr \<lparr>mb_run = k, mb_entity = e, mb_level = level, mb_community = c\<rparr>) [0..<3]"

definition community_rows :: "string \<Rightarrow> analytics_result \<Rightarrow> community list" where
  "community_rows k res =
     concat (map (\<lambda>(level, d). map (\<lambda>(c, v). \<lparr>cm_run = k, cm_community = c, cm_level = level, cm_parent = st_parent v,
         cm_entities = int (length (st_members v)), cm_internal = int (st_internal v), cm_external = int (st_external v),
         cm_density = st_density v, cm_importance = st_importance v\<rparr>) d) (enumerate 0 (rs_stats res)))"

text \<open>The identifier of the run and the time of the transaction are arguments; an identifier in use
  violates the primary key.\<close>

definition refresh_dataset_analytics :: "('g, 'h) networkx \<Rightarrow> (string \<Rightarrow> string) \<Rightarrow> (string list \<Rightarrow> (string \<times> string \<times> rat) list \<Rightarrow> string)
    \<Rightarrow> string \<Rightarrow> int \<Rightarrow> graph_db \<Rightarrow> string \<Rightarrow> string \<Rightarrow> analytics_db \<Rightarrow> (analytics_run \<times> analytics_db) res" where
  "refresh_dataset_analytics N sha dumps k now db project dataset adb =
     (let es = analytics_entities db project dataset; rows = analytics_rows db project dataset in
      if length es > MAX_ANALYTICS_ENTITIES then Inl (ValueError ''analytics entity limit exceeded'')
      else if length rows > MAX_ANALYTICS_RELATIONS then Inl (ValueError ''analytics relation limit exceeded'')
      else bindE (analyze_graph N sha dumps es rows) (\<lambda>res.
        case find (\<lambda>r. ar_project r = project \<and> ar_dataset r = dataset \<and> ar_hash r = rs_hash res) (a_runs adb) of
          Some r \<Rightarrow> Inr (r, adb)
        | None \<Rightarrow>
            if k \<in> ar_id ` set (a_runs adb) then Inl (IntegrityError ''graph_analytics_runs_pkey'')
            else bindE (map_res (entity_metric_of k res) es) (\<lambda>metrics.
                 bindE (map_res (entity_memberships k res) es) (\<lambda>members.
                 let run = analytics_run_row k now project dataset (length es) res in
                 Inr (run, \<lparr>a_runs = a_runs adb @ [run], a_members = a_members adb @ concat members,
                           a_metrics = a_metrics adb @ metrics, a_communities = a_communities adb @ community_rows k res\<rparr>)))))"

text \<open>The endpoint: a limit exceeded is reported as 422, any other exception ends the request; either way
  nothing is committed.\<close>

definition refresh_analytics :: "('g, 'h) networkx \<Rightarrow> (string \<Rightarrow> string) \<Rightarrow> (string list \<Rightarrow> (string \<times> string \<times> rat) list \<Rightarrow> string)
    \<Rightarrow> string \<Rightarrow> int \<Rightarrow> graph_db \<Rightarrow> string \<Rightarrow> string \<Rightarrow> analytics_db \<Rightarrow> analytics_run res \<times> analytics_db" where
  "refresh_analytics N sha dumps k now db project dataset adb =
     (case refresh_dataset_analytics N sha dumps k now db project dataset adb of
        Inl (ValueError m) \<Rightarrow> (Inl (HTTPException 422 m), adb)
      | Inl e \<Rightarrow> (Inl e, adb)
      | Inr (run, adb') \<Rightarrow> (Inr run, adb'))"

end
