(* ===== verification/Codebase.thy ===== *)
theory Codebase
  imports CodeGraph Analytics Datasets
begin

text \<open>
  Indexing of code into the knowledge graph, \<open>app/codebase.py\<close>: the symbols of the files become entities,
  their relations are resolved across files, and the analytics of the dataset are refreshed. The
  digest, the parser, networkx and the file system are arguments.
\<close>

section \<open>Requests\<close>

record file_item =
  fi_path :: string
  fi_code :: string

record ingest_request =
  ir_dataset :: string
  ir_name :: "string option"
  ir_description :: "string option"
  ir_files :: "file_item list"

record ingest_response =
  ig_dataset :: string
  ig_name :: string
  ig_files :: nat
  ig_entities :: nat
  ig_relations :: nat
  ig_communities :: int

text \<open>The bounds of the request models.\<close>

definition text_between :: "nat \<Rightarrow> nat \<Rightarrow> string \<Rightarrow> bool" where
  "text_between a b s \<longleftrightarrow> a \<le> length s \<and> length s \<le> b"

definition valid_file_item :: "file_item \<Rightarrow> bool" where
  "valid_file_item f \<longleftrightarrow> text_between 1 500 (fi_path f) \<and> fi_code f \<noteq> []"

definition valid_ingest_request :: "ingest_request \<Rightarrow> bool" where
  "valid_ingest_request q \<longleftrightarrow> text_between 1 100 (ir_dataset q)
     \<and> (case ir_name q of None \<Rightarrow> True | Some s \<Rightarrow> length s \<le> 255)
     \<and> (case ir_description q of None \<Rightarrow> True | Some s \<Rightarrow> length s \<le> 1000)
     \<and> 1 \<le> length (ir_files q) \<and> length (ir_files q) \<le> 1000 \<and> (\<forall>f\<in>set (ir_files q). valid_file_item f)"

record code_env =
  cb_code :: code_io
  cb_dumps :: "string list \<Rightarrow> (string \<times> string \<times> rat) list \<Rightarrow> string"
  cb_now :: int
  cb_run :: string

definition short_id :: "(string \<Rightarrow> string) \<Rightarrow> string \<Rightarrow> string \<Rightarrow> string" where
  "short_id sha prefix v = prefix @ ''_'' @ take 32 (sha v)"

section \<open>The dataset\<close>

text \<open>\<open>s or d\<close>\<close>

definition str_or :: "string option \<Rightarrow> string \<Rightarrow> string" where
  "str_or x d = (case x of Some (c # cs) \<Rightarrow> c # cs | _ \<Rightarrow> d)"

text \<open>The columns hold 40 and 255 characters.\<close>

definition ensure_dataset :: "int \<Rightarrow> string \<Rightarrow> string \<Rightarrow> string \<Rightarrow> string \<Rightarrow> dataset list \<Rightarrow> dataset list res" where
  "ensure_dataset now project k name description rows =
     (if list_ex (\<lambda>x. ds_project x = project \<and> ds_id x = k) rows then Inr rows
      else let x = \<lparr>ds_id = k, ds_project = project, ds_name = name, ds_description = Some description,
                    ds_metadata = JObj [], ds_status = DsActive, ds_error = None, ds_created = now\<rparr> in
        if length k > 40 \<or> length name > 255 then Inl (DataError ''value too long for type character varying'')
        else if k \<in> ds_id ` set rows \<or> name_taken x rows then Inl (IntegrityError ''datasets'')
        else Inr (rows @ [x]))"

section \<open>Symbols\<close>

record code_index =
  cx_entities :: "(code_entity \<times> string) list"
  cx_links :: "code_relation list"
  cx_symbols :: "string \<Rightarrow> string option"
  cx_raw :: "string \<Rightarrow> string option"

definition code_entity_key :: "(string \<Rightarrow> string) \<Rightarrow> string \<Rightarrow> string \<Rightarrow> string" where
  "code_entity_key sha dataset k = short_id sha ''ce'' (dataset @ '':'' @ k)"

definition index_entity :: "(string \<Rightarrow> string) \<Rightarrow> string \<Rightarrow> code_entity \<Rightarrow> code_index \<Rightarrow> code_index" where
  "index_entity sha dataset e x =
     (let k = code_entity_key sha dataset (sy_id e) in
      x\<lparr>cx_raw := (cx_raw x)(sy_id e \<mapsto> k),
        cx_symbols := (if sy_kind e \<in> {ClassSymbol, FunctionSymbol, MethodSymbol, InterfaceSymbol, StructSymbol}
          then (cx_symbols x)(sy_name e \<mapsto> k, py_lower (sy_name e) \<mapsto> k) else cx_symbols x),
        cx_entities := cx_entities x @ [(e, k)]\<rparr>)"

definition index_file :: "code_io \<Rightarrow> string \<Rightarrow> file_item \<Rightarrow> code_index \<Rightarrow> code_index" where
  "index_file io dataset f x =
     (let r = extract_file io (fi_path f) (fi_code f);
          y = fold (index_entity (ki_sha io) dataset) (cd_entities r) x in
      y\<lparr>cx_links := cx_links y @ cd_relations r\<rparr>)"

definition index_files :: "code_io \<Rightarrow> string \<Rightarrow> file_item list \<Rightarrow> code_index" where
  "index_files io dataset fs =
     fold (index_file io dataset) fs \<lparr>cx_entities = [], cx_links = [], cx_symbols = Map.empty, cx_raw = Map.empty\<rparr>"

section \<open>Entities\<close>

definition code_row :: "int \<Rightarrow> string \<Rightarrow> string \<Rightarrow> code_entity \<times> string \<Rightarrow> gentity" where
  "code_row now project dataset x =
     (case x of (e, k) \<Rightarrow>
       \<lparr>en_id = k, en_project = project, en_dataset = dataset, en_name = sy_name e,
        en_norm = take 500 (py_lower (sy_path e @ ''::'' @ sy_name e @ ''::'' @ dec_str (sy_start e))),
        en_type = ''code.'' @ kind_value (sy_kind e), en_confidence = 1, en_version = 1, en_review = Approved,
        en_from = now, en_until = None, en_superseded_by = None\<rparr>)"

text \<open>\<open>INSERT ... ON CONFLICT (id) DO UPDATE\<close>: a conflict of another key is an error.\<close>

definition upsert_entity :: "gentity \<Rightarrow> gentity list \<Rightarrow> gentity list res" where
  "upsert_entity r rows =
     (if length (en_name r) > 500 then Inl (DataError ''value too long for type character varying'')
      else if en_id r \<in> en_id ` set rows then Inr (upd_row en_id (en_id r) (\<lambda>e. e\<lparr>en_name := en_name r\<rparr>) rows)
      else if list_ex (\<lambda>e. en_dataset e = en_dataset r \<and> en_norm e = en_norm r \<and> en_type e = en_type r) rows
      then Inl (IntegrityError ''uq_entity_candidate'')
      else Inr (rows @ [r]))"

definition upsert_entities :: "int \<Rightarrow> string \<Rightarrow> string \<Rightarrow> (code_entity \<times> string) list \<Rightarrow> gentity list \<Rightarrow> gentity list res" where
  "upsert_entities now project dataset = foldE (\<lambda>x. upsert_entity (code_row now project dataset x))"

section \<open>Relations\<close>

text \<open>\<open>rel.quote.split("(")[0].split(" ")[-1].replace(".", "").strip()\<close>\<close>

definition quoted_symbol :: "string \<Rightarrow> string" where
  "quoted_symbol q =
     py_strip (remove_char (CHR ''.'') (rev (takeWhile (\<lambda>c. c \<noteq> CHR '' '') (rev (takeWhile (\<lambda>c. c \<noteq> CHR ''('') q)))))"

fun split_underscore :: "string \<Rightarrow> string \<Rightarrow> string list" where
  "split_underscore acc [] = [rev acc]"
| "split_underscore acc (c # cs) =
     (if c = CHR ''_'' then rev acc # split_underscore [] cs else split_underscore (c # acc) cs)"

definition truthy_name :: "string option \<Rightarrow> bool" where
  "truthy_name x \<longleftrightarrow> (case x of Some (c # cs) \<Rightarrow> True | _ \<Rightarrow> False)"

definition extracted_symbol :: "(string \<Rightarrow> string option) \<Rightarrow> code_relation \<Rightarrow> string option" where
  "extracted_symbol symbols r =
     (let by_quote = (case cl_quote r of
          Some (c # cs) \<Rightarrow> let m = quoted_symbol (c # cs) in if symbols m \<noteq> None then Some m else None
        | _ \<Rightarrow> None) in
      if truthy_name by_quote then by_quote
      else or_else (find (\<lambda>p. symbols p \<noteq> None) (split_underscore [] (cl_target r))) by_quote)"

definition resolve_target :: "(string \<Rightarrow> string) \<Rightarrow> string \<Rightarrow> code_index \<Rightarrow> string set \<Rightarrow> code_relation \<Rightarrow> string" where
  "resolve_target sha dataset x known r =
     (case cx_raw x (cl_target r) of
        Some t \<Rightarrow> if t \<in> known then t else
          (case extracted_symbol (cx_symbols x) r of
             Some (c # cs) \<Rightarrow> (case cx_symbols x (c # cs) of Some k \<Rightarrow> k | None \<Rightarrow> code_entity_key sha dataset (cl_target r))
           | _ \<Rightarrow> code_entity_key sha dataset (cl_target r))
      | None \<Rightarrow>
          (case extracted_symbol (cx_symbols x) r of
             Some (c # cs) \<Rightarrow> (case cx_symbols x (c # cs) of Some k \<Rightarrow> k | None \<Rightarrow> code_entity_key sha dataset (cl_target r))
           | _ \<Rightarrow> code_entity_key sha dataset (cl_target r)))"

definition resolve_source :: "(string \<Rightarrow> string) \<Rightarrow> string \<Rightarrow> code_index \<Rightarrow> code_relation \<Rightarrow> string" where
  "resolve_source sha dataset x r =
     (case cx_raw x (cl_source r) of Some s \<Rightarrow> s | None \<Rightarrow> code_entity_key sha dataset (cl_source r))"

definition relation_row :: "(string \<Rightarrow> string) \<Rightarrow> int \<Rightarrow> string \<Rightarrow> string \<Rightarrow> string \<Rightarrow> string \<Rightarrow> string \<Rightarrow> grelation" where
  "relation_row sha now project dataset s t v =
     \<lparr>rl_id = short_id sha ''ra'' (dataset @ '':'' @ s @ ''->'' @ v @ ''->'' @ t), rl_project = project, rl_dataset = dataset,
      rl_source = s, rl_target = t, rl_type = v, rl_confidence = 1, rl_extractor = ''deterministic_code_v1'',
      rl_review = Approved, rl_from = now, rl_until = None, rl_superseded_by = None\<rparr>"

definition upsert_relation :: "grelation \<Rightarrow> grelation list \<Rightarrow> grelation list res" where
  "upsert_relation r rows =
     (if rl_id r \<in> rl_id ` set rows then Inr (upd_row rl_id (rl_id r) (\<lambda>x. x\<lparr>rl_confidence := 1\<rparr>) rows)
      else if list_ex (\<lambda>x. rl_dataset x = rl_dataset r \<and> rl_source x = rl_source r \<and> rl_type x = rl_type r
             \<and> rl_target x = rl_target r \<and> rl_extractor x = rl_extractor r) rows
      then Inl (IntegrityError ''relation_assertions'')
      else Inr (rows @ [r]))"

text \<open>The keys seen, the number of relations written, and the rows.\<close>

type_synonym link_state = "(string \<times> string \<times> string) list \<times> nat \<times> grelation list"

definition link_step :: "(string \<Rightarrow> string) \<Rightarrow> int \<Rightarrow> string \<Rightarrow> string \<Rightarrow> code_index \<Rightarrow> string set \<Rightarrow> code_relation \<Rightarrow> link_state \<Rightarrow> link_state res" where
  "link_step sha now project dataset x known r st =
     (case st of (seen, n, rows) \<Rightarrow>
       let s = resolve_source sha dataset x r; t = resolve_target sha dataset x known r; v = relation_value (cl_kind r) in
       if s \<notin> known \<or> t \<notin> known \<or> s = t \<or> (s, t, v) \<in> set seen then Inr st
       else bindE (upsert_relation (relation_row sha now project dataset s t v) rows) (\<lambda>rows'.
            Inr ((s, t, v) # seen, n + 1, rows')))"

definition link_files :: "(string \<Rightarrow> string) \<Rightarrow> int \<Rightarrow> string \<Rightarrow> string \<Rightarrow> code_index \<Rightarrow> string set \<Rightarrow> grelation list \<Rightarrow> (nat \<times> grelation list) res" where
  "link_files sha now project dataset x known rows =
     bindE (foldE (link_step sha now project dataset x known) (cx_links x) ([], 0, rows)) (\<lambda>(seen, n, rows'). Inr (n, rows'))"

section \<open>Ingestion\<close>

definition dataset_entity_ids :: "string \<Rightarrow> string \<Rightarrow> graph_db \<Rightarrow> string list" where
  "dataset_entity_ids project dataset g =
     map en_id (filter (\<lambda>e. en_project e = project \<and> en_dataset e = dataset) (g_entities g))"

text \<open>The steps after the dataset: entities, relations and analytics, each committed before the next; an
  exception keeps what was committed. The answer counts the entities of the dataset, the relations
  written and the communities.\<close>

definition index_code :: "('g, 'h) networkx \<Rightarrow> code_env \<Rightarrow> string \<Rightarrow> string \<Rightarrow> file_item list \<Rightarrow> graph_db \<Rightarrow> analytics_db
    \<Rightarrow> (nat \<times> nat \<times> int) res \<times> graph_db \<times> analytics_db" where
  "index_code N env project dataset fs g adb =
     (let sha = ki_sha (cb_code env); x = index_files (cb_code env) dataset fs in
      case upsert_entities (cb_now env) project dataset (cx_entities x) (g_entities g) of
        Inl e \<Rightarrow> (Inl e, g, adb)
      | Inr es \<Rightarrow>
          let g1 = g\<lparr>g_entities := es\<rparr>; known = set (dataset_entity_ids project dataset g1) in
          case link_files sha (cb_now env) project dataset x known (g_relations g1) of
            Inl e \<Rightarrow> (Inl e, g1, adb)
          | Inr (n, rs) \<Rightarrow>
              let g2 = g1\<lparr>g_relations := rs\<rparr> in
              case refresh_dataset_analytics N sha (cb_dumps env) (cb_run env) (cb_now env) g2 project dataset adb of
                Inl e \<Rightarrow> (Inl e, g2, adb)
              | Inr (run, adb') \<Rightarrow> (Inr (card known, n, ar_communities run), g2, adb'))"

definition ingest_codebase :: "('g, 'h) networkx \<Rightarrow> code_env \<Rightarrow> string \<Rightarrow> ingest_request \<Rightarrow> corpus \<Rightarrow> analytics_db
    \<Rightarrow> ingest_response res \<times> corpus \<times> analytics_db" where
  "ingest_codebase N env project q c adb =
     (let k = ir_dataset q; name = str_or (ir_name q) k in
      case ensure_dataset (cb_now env) project k name (str_or (ir_description q) (''AST Knowledge Graph for '' @ name)) (co_datasets c) of
        Inl e \<Rightarrow> (Inl e, c, adb)
      | Inr ds \<Rightarrow>
          (case index_code N env project k (ir_files q) (co_graph c) adb of
             (Inl e, g, adb') \<Rightarrow> (Inl e, c\<lparr>co_datasets := ds, co_graph := g\<rparr>, adb')
           | (Inr (n, m, cs), g, adb') \<Rightarrow>
               (Inr \<lparr>ig_dataset = k, ig_name = name, ig_files = length (ir_files q), ig_entities = n, ig_relations = m,
                     ig_communities = cs\<rparr>,
                c\<lparr>co_datasets := ds, co_graph := g\<rparr>, adb')))"

definition sync_codebase_file :: "('g, 'h) networkx \<Rightarrow> code_env \<Rightarrow> string \<Rightarrow> string \<Rightarrow> file_item \<Rightarrow> corpus \<Rightarrow> analytics_db
    \<Rightarrow> ingest_response res \<times> corpus \<times> analytics_db" where
  "sync_codebase_file N env project dataset f =
     ingest_codebase N env project \<lparr>ir_dataset = dataset, ir_name = None, ir_description = None, ir_files = [f]\<rparr>"

section \<open>Directories\<close>

text \<open>What \<open>rglob\<close> lists below the directory: the path, whether it is a file, its resolved path and its
  text, where resolving and reading may raise.\<close>

record dir_entry =
  de_path :: path
  de_file :: bool
  de_resolved :: "path res"
  de_text :: "string option"

record directory_io =
  dr_resolve :: "string \<Rightarrow> path"
  dr_root :: "string option"
  dr_is_dir :: "path \<Rightarrow> bool"
  dr_entries :: "path \<Rightarrow> dir_entry list"

record directory_request =
  dq_path :: string
  dq_dataset :: "string option"
  dq_name :: "string option"
  dq_description :: "string option"

record directory_response =
  dx_id :: string
  dx_name :: string
  dx_files :: nat
  dx_loc :: nat
  dx_entities :: nat
  dx_relations :: nat
  dx_communities :: int

definition path_string :: "path \<Rightarrow> string" where
  "path_string p = ''/'' @ py_join ''/'' p"

definition forbidden_prefixes :: "string list" where
  "forbidden_prefixes = [''/etc'', ''/proc'', ''/sys'', ''/dev'', ''/boot'', ''/root'', ''/var/run'', ''/var/log'']"

definition forbidden_directory :: "path \<Rightarrow> bool" where
  "forbidden_directory p \<longleftrightarrow> path_string p = ''/''
     \<or> list_ex (\<lambda>x. path_string p = x \<or> starts_with (x @ ''/'') (path_string p)) forbidden_prefixes"

definition check_directory :: "directory_io \<Rightarrow> directory_request \<Rightarrow> path res" where
  "check_directory io q =
     (let p = dr_resolve io (dq_path q);
          outside = (case dr_root io of
            Some (c # cs) \<Rightarrow> \<not> starts_with (dr_resolve io (c # cs)) p
          | _ \<Rightarrow> False) in
      if outside then Inl (HTTPException 400 ''Directory must be within the configured codebase index root.'')
      else if forbidden_directory p then Inl (HTTPException 400 ''Access to system directories is forbidden.'')
      else if \<not> dr_is_dir io p then Inl (HTTPException 400 (''Directory '' @ [CHR 0x27] @ dq_path q @ [CHR 0x27] @ '' does not exist on server.''))
      else Inr p)"

definition valid_exts :: "string list" where
  "valid_exts = [''.ts'', ''.tsx'', ''.js'', ''.jsx'', ''.mjs'', ''.cjs'', ''.py'', ''.go'', ''.rs'', ''.c'', ''.cpp'', ''.h'', ''.hpp'']"

definition ignore_dirs :: "string list" where
  "ignore_dirs = [''.venv'', ''venv'', ''.git'', ''__pycache__'', ''build'', ''dist'', ''node_modules'', ''out'', ''.next'',
     ''generated'', ''.prisma'']"

definition last_part :: "path \<Rightarrow> string" where
  "last_part p = (if p = [] then [] else last p)"

text \<open>One entry: skipped, taken, or an exception that ends the request. The parts of a path include its
  root.\<close>

definition scan_entry :: "path \<Rightarrow> dir_entry \<Rightarrow> file_item option res" where
  "scan_entry dir e =
     (if \<not> de_file e then Inr None
      else case de_resolved e of
        Inl (RuntimeError m) \<Rightarrow> Inr None
      | Inl (ValueError m) \<Rightarrow> Inr None
      | Inl x \<Rightarrow> Inl x
      | Inr p \<Rightarrow>
          if \<not> starts_with dir p then Inr None
          else if list_ex (\<lambda>i. i \<in> set (''/'' # de_path e)) ignore_dirs then Inr None
          else if ends_with ''.min.js'' (last_part (de_path e)) \<or> ends_with ''.d.ts'' (last_part (de_path e)) then Inr None
          else if py_lower (path_suffix (last_part (de_path e))) \<notin> set valid_exts then Inr None
          else (case de_text e of
              None \<Rightarrow> Inr None
            | Some t \<Rightarrow> Inr (Some \<lparr>fi_path = map (\<lambda>c. if c = CHR 0x5C then CHR ''/'' else c) (py_join ''/'' (drop (length dir) (de_path e))),
                                 fi_code = t\<rparr>)))"

definition scan_directory :: "path \<Rightarrow> dir_entry list \<Rightarrow> file_item list res" where
  "scan_directory dir es = bindE (map_res (scan_entry dir) es) (\<lambda>xs. Inr (concat (map (\<lambda>x. case x of None \<Rightarrow> [] | Some f \<Rightarrow> [f]) xs)))"

definition dir_stem :: "path \<Rightarrow> string" where
  "dir_stem p = map (\<lambda>c. if c = CHR ''-'' \<or> c = CHR '' '' then CHR ''_'' else c) (py_lower (last_part p))"

definition index_directory :: "('g, 'h) networkx \<Rightarrow> code_env \<Rightarrow> directory_io \<Rightarrow> string \<Rightarrow> directory_request \<Rightarrow> corpus \<Rightarrow> analytics_db
    \<Rightarrow> directory_response res \<times> corpus \<times> analytics_db" where
  "index_directory N env io project q c adb =
     (case check_directory io q of
        Inl e \<Rightarrow> (Inl e, c, adb)
      | Inr dir \<Rightarrow>
          let k = str_or (dq_dataset q) (''ds_'' @ dir_stem dir);
              name = str_or (dq_name q) (last_part dir @ '' Codebase'');
              desc = str_or (dq_description q) (''AST Knowledge Graph for '' @ last_part dir) in
          case ensure_dataset (cb_now env) project k name desc (co_datasets c) of
            Inl e \<Rightarrow> (Inl e, c, adb)
          | Inr ds \<Rightarrow>
              (case scan_directory dir (dr_entries io dir) of
                 Inl e \<Rightarrow> (Inl e, c\<lparr>co_datasets := ds\<rparr>, adb)
               | Inr fs \<Rightarrow>
                   (case index_code N env project k fs (co_graph c) adb of
                      (Inl e, g, adb') \<Rightarrow> (Inl e, c\<lparr>co_datasets := ds, co_graph := g\<rparr>, adb')
                    | (Inr (n, m, cs), g, adb') \<Rightarrow>
                        (Inr \<lparr>dx_id = k, dx_name = name, dx_files = length fs,
                              dx_loc = sum_list (map (\<lambda>f. length (splitlines_from [] (fi_code f))) fs),
                              dx_entities = n, dx_relations = m, dx_communities = cs\<rparr>,
                         c\<lparr>co_datasets := ds, co_graph := g\<rparr>, adb'))))"

end
