(* ===== verification/AnalyticsProps.thy ===== *)
theory AnalyticsProps
  imports Analytics
begin

text \<open>
  The community hierarchy of the analytics is a chain of partitions, whatever partitions the Louvain
  method answers with; refreshing an unchanged dataset writes nothing; and the view of a dataset that
  has an unsupported entity is stale from the start.
\<close>

section \<open>Partitions\<close>

lemma map_res_Inr: "(\<And>x. x \<in> set xs \<Longrightarrow> f x = Inr (g x)) \<Longrightarrow> map_res f xs = Inr (map g xs)"
  by (induction xs) auto

lemma ord_of_digit: "n < 10 \<Longrightarrow> ord_of (char_of (48 + n)) = 48 + n \<and> is_digit09 (char_of (48 + n))"
  by (simp add: ord_of_def is_digit09_def)

definition index_value :: "string \<Rightarrow> nat" where
  "index_value s = foldl (\<lambda>n c. 10 * n + (ord_of c - 48)) 0 s"

lemma dec_str_digits: "list_all is_digit09 (dec_str n) \<and> index_value (dec_str n) = n"
proof (induction n rule: dec_str.induct)
  case (1 n)
  show ?case
  proof (cases "n < 10")
    case True
    then show ?thesis by (subst (1 2) dec_str.simps) (simp add: ord_of_digit index_value_def)
  next
    case False
    then show ?thesis using 1 ord_of_digit [of "n mod 10"]
      by (subst (1 2) dec_str.simps) (simp add: index_value_def)
  qed
qed

lemma index_value_dec [simp]: "index_value (dec_str n) = n"
  using dec_str_digits by simp

lemma parse_dec [simp]: "parse_index (dec_str n) = Inr n"
  using dec_str_digits [of n] by (simp add: parse_index_def dec_str_nonempty index_value_def)

lemma inj_dec_str: "inj dec_str"
  by (rule injI) (metis index_value_dec)

lemma partitions_nonempty: "partitions gs A \<Longrightarrow> g \<in> set gs \<Longrightarrow> g \<noteq> [] \<and> set g \<subseteq> A"
  by (auto simp: partitions_def)

lemma partitions_block: "partitions gs A \<Longrightarrow> x \<in> A \<Longrightarrow> \<exists>g\<in>set gs. x \<in> set g"
  by (auto simp: partitions_def)

lemma partitions_same: "partitions gs A \<Longrightarrow> g \<in> set gs \<Longrightarrow> h \<in> set gs \<Longrightarrow> x \<in> set g \<Longrightarrow> x \<in> set h \<Longrightarrow> g = h"
  unfolding partitions_def distinct_concat_iff by blast

lemma mset_concat_sum: "mset (concat gs) = \<Sum>\<^sub># (image_mset mset (mset gs))"
  by (induction gs) auto

lemma partitions_mset:
  assumes "partitions gs A" "mset (concat hs) = mset (concat gs)" "[] \<notin> set hs"
  shows "partitions hs A"
  using assms mset_eq_imp_distinct_iff [OF assms(2)] mset_eq_setD [OF assms(2)] unfolding partitions_def by simp

lemma sort_Nil_iff [simp]: "sort xs = [] \<longleftrightarrow> xs = []"
  by (metis mset_sort mset_zero_iff)

lemma partitions_sort:
  assumes "partitions gs A"
  shows "partitions (sort (map sort gs)) A"
proof (rule partitions_mset [OF assms])
  show "mset (concat (sort (map sort gs))) = mset (concat gs)"
    by (simp add: mset_concat_sum image_mset.compositionality o_def)
  show "[] \<notin> set (sort (map sort gs))"
    using partitions_nonempty [OF assms] by (auto simp: eq_commute [of "[]"])
qed

lemma partitions_map:
  assumes "partitions gs A" "inj_on f A"
  shows "partitions (map (map f) gs) (f ` A)"
proof -
  have "concat (map (map f) gs) = map f (concat gs)" by (simp add: map_concat)
  then show ?thesis using assms unfolding partitions_def by (auto simp: distinct_map)
qed

text \<open>Grouping the blocks of a partition by a partition of their indexes gives a coarser partition.\<close>

definition merged :: "'a::linorder list list \<Rightarrow> nat list list \<Rightarrow> 'a list list" where
  "merged children idx = map (\<lambda>g. sort (concat (map ((!) children) g))) idx"

lemma merged_partitions:
  assumes "partitions children A" "partitions idx (set [0..<length children])"
  shows "partitions (merged children idx) A"
proof (rule partitions_mset [OF assms(1)])
  have idx: "mset (concat idx) = mset [0..<length children]"
    using assms(2) set_eq_iff_mset_eq_distinct [of "concat idx" "[0..<length children]"] unfolding partitions_def by simp
  have "mset (concat (merged children idx)) = mset (concat (map ((!) children) (concat idx)))"
    unfolding merged_def by (induction idx) auto
  also have "\<dots> = mset (concat (map ((!) children) [0..<length children]))"
    by (simp only: mset_concat_sum [of "map ((!) children) ys" for ys] mset_map idx)
  finally show "mset (concat (merged children idx)) = mset (concat children)" by (simp add: map_nth)
  have "concat (map ((!) children) g) \<noteq> []" if "g \<in> set idx" for g
  proof -
    have g: "g \<noteq> []" "\<forall>i\<in>set g. i < length children" using partitions_nonempty [OF assms(2) that] by auto
    then have "children ! hd g \<noteq> []" using partitions_nonempty [OF assms(1)] by simp
    then show ?thesis using g(1) by (cases g) auto
  qed
  moreover have "\<exists>g\<in>set idx. concat (map ((!) children) g) = []" if "[] \<in> set (merged children idx)"
  proof -
    from that have "[] \<in> (\<lambda>g. sort (concat (map ((!) children) g))) ` set idx" by (simp only: merged_def list.set_map)
    then obtain g where "g \<in> set idx" "[] = sort (concat (map ((!) children) g))" by (rule imageE)
    then show ?thesis by (intro bexI [of _ g]) (metis sort_Nil_iff)
  qed
  ultimately show "[] \<notin> set (merged children idx)" by blast
qed

lemma merged_contains:
  assumes "partitions idx (set [0..<length children])" "c \<in> set children"
  shows "\<exists>h\<in>set (merged children idx). set c \<subseteq> set h"
proof -
  obtain i where i: "i < length children" "children ! i = c" using assms(2) by (metis in_set_conv_nth)
  then obtain g where g: "g \<in> set idx" "i \<in> set g" using partitions_block [OF assms(1), of i] by auto
  then have "set c \<subseteq> set (sort (concat (map ((!) children) g)))" using i by auto
  then show ?thesis using g(1) unfolding merged_def by auto
qed

section \<open>The hierarchy\<close>

lemma groups_of_partitions:
  assumes "networkx_ok N"
  shows "partitions (groups_of N g r) (set (go_nodes (nx_names N) g))"
proof (cases "go_nodes (nx_names N) g = []")
  case False
  then show ?thesis using assms by (simp add: groups_of_def networkx_ok_def partitions_sort)
qed (simp add: groups_of_def partitions_def)

lemma child_of_Some:
  assumes "x \<in> set (concat children)"
  shows "\<exists>i. child_of children x = Some i \<and> i < length children"
proof -
  let ?ps = "concat (map (\<lambda>(i, g). map (\<lambda>e. (e, i)) g) (enumerate 0 children))"
  have all: "i < length children" if "(e, i) \<in> set ?ps" for e i
    using that by (auto simp: in_set_enumerate_eq)
  have "fst ` set ?ps = set (concat children)"
  proof -
    have "map fst ?ps = concat children"
      by (simp add: map_concat o_def case_prod_beta flip: map_map) (simp add: o_def case_prod_beta)
    then show ?thesis by (metis list.set_map)
  qed
  then have "x \<in> fst ` set (rev ?ps)" using assms by simp
  then obtain i where "map_of (rev ?ps) x = Some i" by (metis map_of_eq_None_iff not_None_eq)
  then show ?thesis using all map_of_SomeD unfolding child_of_def by (metis set_rev)
qed

lemma quotient_ok:
  assumes "networkx_ok N" "partitions children (set (go_nodes (nx_names N) g))"
  shows "\<exists>q. quotient N g children = Inr q \<and> set (go_nodes (nx_indexes N) q) = {0..<length children}"
proof -
  let ?G = "nx_indexes N"
  have G: "graph_ops_ok ?G" and names: "graph_ops_ok (nx_names N)" using assms(1) by (simp_all add: networkx_ok_def)
  have "\<exists>q. foldE (\<lambda>(s, t, w) q. case (child_of children s, child_of children t) of
         (Some l, Some r) \<Rightarrow>
           if l = r then Inr q
           else Inr (go_add ?G l r (fadd (case go_weight ?G q l r of None \<Rightarrow> 0 | Some v \<Rightarrow> v) w) q)
       | _ \<Rightarrow> Inl KeyError) es q0 = Inr q \<and> set (go_nodes ?G q) = {0..<length children}"
    if "set es \<subseteq> set (go_edges (nx_names N) g)" "set (go_nodes ?G q0) = {0..<length children}" for es q0
    using that
  proof (induction es arbitrary: q0)
    case (Cons x es)
    obtain s t w where x: "x = (s, t, w)" by (cases x)
    have "(s, t, w) \<in> set (go_edges (nx_names N) g)" using Cons.prems x by simp
    then have "s \<in> set (go_nodes (nx_names N) g)" "t \<in> set (go_nodes (nx_names N) g)"
      using names unfolding graph_ops_ok_def by blast+
    then have "s \<in> set (concat children)" "t \<in> set (concat children)" using assms(2) by (simp_all add: partitions_def)
    then obtain l r where lr: "child_of children s = Some l" "l < length children" "child_of children t = Some r" "r < length children"
      using child_of_Some by metis
    show ?case
    proof (cases "l = r")
      case True
      then show ?thesis using Cons x lr by simp
    next
      case False
      let ?q = "go_add ?G l r (fadd (case go_weight ?G q0 l r of None \<Rightarrow> 0 | Some v \<Rightarrow> v) w) q0"
      have "set (go_nodes ?G ?q) = {0..<length children}"
        using G Cons.prems(2) lr unfolding graph_ops_ok_def by auto
      then show ?thesis using Cons x lr False by simp
    qed
  qed simp
  moreover have "set (go_nodes ?G (go_new ?G [0..<length children])) = {0..<length children}"
    using G unfolding graph_ops_ok_def by simp
  ultimately show ?thesis unfolding quotient_def by blast
qed

lemma parent_groups_ok:
  assumes ok: "networkx_ok N" and part: "partitions children (set (go_nodes (nx_names N) g))"
  shows "\<exists>gs. parent_groups N g children r = Inr gs \<and> partitions gs (set (go_nodes (nx_names N) g))
    \<and> (\<forall>c\<in>set children. \<exists>h\<in>set gs. set c \<subseteq> set h)"
proof -
  obtain q where q: "quotient N g children = Inr q" "set (go_nodes (nx_indexes N) q) = {0..<length children}"
    using quotient_ok [OF ok part] by blast
  define labels where "labels = groups_of N (nx_relabel N dec_str q) r"
  define idx where "idx = map (map index_value) labels"
  have nodes: "set (go_nodes (nx_names N) (nx_relabel N dec_str q)) = dec_str ` {0..<length children}"
    using ok inj_dec_str q(2) by (simp add: networkx_ok_def)
  have labels: "partitions labels (dec_str ` {0..<length children})"
    using groups_of_partitions [OF ok, of "nx_relabel N dec_str q"] unfolding labels_def nodes .
  have "inj_on index_value (dec_str ` {0..<length children})" by (rule inj_on_inverseI [of _ dec_str]) auto
  then have "partitions idx (index_value ` dec_str ` {0..<length children})"
    unfolding idx_def by (rule partitions_map [OF labels])
  then have idx: "partitions idx (set [0..<length children])" by (simp add: image_comp)
  have member: "member_group children s = Inr (children ! index_value s)" if m: "l \<in> set labels" "s \<in> set l" for l s
  proof -
    obtain i where "s = dec_str i" "i < length children" using partitions_nonempty [OF labels m(1)] m(2) by auto
    then show ?thesis by (simp add: member_group_def)
  qed
  have "map_res (\<lambda>group. bindE (map_res (member_group children) group) (\<lambda>gs. Inr (sort (concat gs)))) labels
      = Inr (map (\<lambda>l. sort (concat (map (\<lambda>s. children ! index_value s) l))) labels)"
    by (rule map_res_Inr) (simp add: map_res_Inr [OF member])
  then have "parent_groups N g children r = Inr (merged children idx)"
    by (simp add: parent_groups_def q(1) labels_def idx_def merged_def o_def)
  then show ?thesis using merged_partitions [OF part idx] merged_contains [OF idx] by blast
qed

definition hierarchy :: "string list list list \<Rightarrow> string set \<Rightarrow> bool" where
  "hierarchy levels A \<longleftrightarrow> (\<forall>gs\<in>set levels. partitions gs A)
     \<and> (\<forall>i. Suc i < length levels \<longrightarrow> (\<forall>g\<in>set (levels ! i). \<exists>h\<in>set (levels ! Suc i). set g \<subseteq> set h))"

lemma level_groups_ok:
  assumes ok: "networkx_ok N"
  shows "\<exists>levels. level_groups N g = Inr levels \<and> length levels = 3 \<and> hierarchy levels (set (go_nodes (nx_names N) g))"
proof -
  let ?A = "set (go_nodes (nx_names N) g)"
  let ?l0 = "groups_of N g 1"
  have l0: "partitions ?l0 ?A" by (rule groups_of_partitions [OF ok])
  obtain l1 where l1: "parent_groups N g ?l0 (1 / 2) = Inr l1" "partitions l1 ?A" "\<forall>c\<in>set ?l0. \<exists>h\<in>set l1. set c \<subseteq> set h"
    using parent_groups_ok [OF ok l0] by blast
  obtain l2 where l2: "parent_groups N g l1 (1 / 4) = Inr l2" "partitions l2 ?A" "\<forall>c\<in>set l1. \<exists>h\<in>set l2. set c \<subseteq> set h"
    using parent_groups_ok [OF ok l1(2)] by blast
  have "level_groups N g = Inr [?l0, l1, l2]"
    by (simp add: level_groups_def HIERARCHY_RESOLUTIONS_def l1(1) l2(1))
  moreover have "hierarchy [?l0, l1, l2] ?A"
    using l0 l1 l2 by (auto simp: hierarchy_def less_Suc_eq)
  ultimately show ?thesis by simp
qed

lemma entity_graph_nodes:
  assumes ok: "networkx_ok N" and ends: "\<forall>(s, t, w)\<in>set rs. s \<in> set es \<and> t \<in> set es"
  shows "set (go_nodes (nx_names N) (entity_graph N es rs)) = set es"
proof -
  let ?G = "nx_names N"
  have G: "graph_ops_ok ?G" using ok by (simp add: networkx_ok_def)
  show ?thesis unfolding entity_graph_def
  proof (rule fold_invariant_step [where P = "\<lambda>g. set (go_nodes ?G g) = set es"])
    show "set (go_nodes ?G (go_new ?G (sort es))) = set es" using G by (simp add: graph_ops_ok_def)
    fix x g assume "x \<in> set (sort rs)" "set (go_nodes ?G g) = set es"
    then show "set (go_nodes ?G ((\<lambda>(s, t, w) g. go_add ?G s t
         (fadd (case go_weight ?G g s t of None \<Rightarrow> 0 | Some v \<Rightarrow> v) w) g) x g)) = set es"
      using G ends by (fastforce simp: graph_ops_ok_def)
  qed
qed

section \<open>The stored result\<close>

lemma level_members_block:
  assumes "partitions gs A" "g \<in> set gs" "x \<in> set g"
  shows "level_members sha d l gs x = Some (community_id sha d l g)"
proof -
  let ?ps = "concat (map (\<lambda>g. map (\<lambda>e. (e, community_id sha d l g)) g) gs)"
  have only: "v = community_id sha d l g" if "(x, v) \<in> set ?ps" for v
    using that partitions_same [OF assms(1) _ assms(2) _ assms(3)] by auto
  have "(x, community_id sha d l g) \<in> set (rev ?ps)" using assms(2,3) by auto
  then obtain v where v: "map_of (rev ?ps) x = Some v" using weak_map_of_SomeI by fast
  then have "(x, v) \<in> set ?ps" using map_of_SomeD [OF v] by (simp only: set_rev)
  then have "v = community_id sha d l g" by (rule only)
  with v have "map_of (rev ?ps) x = Some (community_id sha d l g)" by simp
  then show ?thesis by (simp only: level_members_def)
qed

lemma AList_update_member: "(k, v) \<in> set (AList.update k' v' d) \<Longrightarrow> (k, v) = (k', v') \<or> (k, v) \<in> set d"
  by (induction d) (auto split: if_splits)

text \<open>What an entry of the statistics says.\<close>

definition stats_entry :: "(string \<Rightarrow> string) \<Rightarrow> string \<Rightarrow> string list list list \<Rightarrow> nat \<Rightarrow> string \<times> community_stats \<Rightarrow> bool" where
  "stats_entry sha digest levels i x \<longleftrightarrow> st_members (snd x) \<in> set (levels ! i)
     \<and> fst x = community_id sha digest i (st_members (snd x))
     \<and> (if i = 2 then st_parent (snd x) = None
        else \<exists>h\<in>set (levels ! Suc i). set (st_members (snd x)) \<subseteq> set h
               \<and> st_parent (snd x) = Some (community_id sha digest (Suc i) h))"

lemma group_stats_fields [simp]: "st_members (group_stats edges g p) = g" "st_parent (group_stats edges g p) = p"
  by (simp_all add: group_stats_def Let_def)

lemma level_stats_ok:
  assumes h: "hierarchy levels A" "length levels = 3" and i: "i < 3"
    and ms: "ms = map (\<lambda>(i, gs). level_members sha digest i gs) (enumerate 0 levels)"
  shows "\<exists>d. level_stats sha digest edges ms i (levels ! i) = Inr d \<and> (\<forall>x\<in>set d. stats_entry sha digest levels i x)"
proof -
  have part: "partitions (levels ! j) A" if "j < 3" for j using h that by (simp add: hierarchy_def)
  have nth: "ms ! j = level_members sha digest j (levels ! j)" if "j < 3" for j
    using h(2) that by (simp add: ms nth_enumerate_eq)
  have parent: "\<exists>p. parent_of ms i g = Inr p \<and> stats_entry sha digest levels i (community_id sha digest i g, group_stats edges g p)"
    if g: "g \<in> set (levels ! i)" for g
  proof (cases "i = 2")
    case True
    then show ?thesis using g by (simp add: parent_of_def stats_entry_def)
  next
    case False
    then have i2: "Suc i < 3" using i by simp
    obtain up where up: "up \<in> set (levels ! Suc i)" "set g \<subseteq> set up" using h g i2 unfolding hierarchy_def by metis
    obtain e es where e: "g = e # es" using partitions_nonempty [OF part [OF i] g] by (cases g) auto
    have "(ms ! Suc i) e = Some (community_id sha digest (Suc i) up)"
      unfolding nth [OF i2] by (rule level_members_block [OF part [OF i2] up(1)]) (use up e in simp)
    then have "parent_of ms i g = Inr (Some (community_id sha digest (Suc i) up))" using False e by (simp add: parent_of_def)
    then show ?thesis using g up False by (auto simp: stats_entry_def)
  qed
  have "\<exists>d. foldE (\<lambda>g d. bindE (parent_of ms i g) (\<lambda>p.
         Inr (AList.update (community_id sha digest i g) (group_stats edges g p) d))) gs d0 = Inr d
      \<and> (\<forall>x\<in>set d. stats_entry sha digest levels i x)"
    if "set gs \<subseteq> set (levels ! i)" "\<forall>x\<in>set d0. stats_entry sha digest levels i x" for gs d0
    using that
  proof (induction gs arbitrary: d0)
    case (Cons g gs)
    obtain p where p: "parent_of ms i g = Inr p" "stats_entry sha digest levels i (community_id sha digest i g, group_stats edges g p)"
      using parent Cons.prems(1) by auto
    have "\<forall>x\<in>set (AList.update (community_id sha digest i g) (group_stats edges g p) d0). stats_entry sha digest levels i x"
      using AList_update_member p(2) Cons.prems(2) by (metis surj_pair)
    then show ?case using Cons p(1) by simp
  qed simp
  then show ?thesis unfolding level_stats_def by simp
qed

lemma analyze_graph_ok:
  assumes ok: "networkx_ok N" and ends: "\<forall>(s, t, w)\<in>set rs. s \<in> set es \<and> t \<in> set es"
  shows "\<exists>levels res. level_groups N (entity_graph N es rs) = Inr levels \<and> length levels = 3 \<and> hierarchy levels (set es)
    \<and> analyze_graph N sha dumps es rs = Inr res
    \<and> rs_hash res = snapshot_digest sha dumps es rs \<and> length (rs_stats res) = 3
    \<and> (\<forall>i<3. \<forall>g\<in>set (levels ! i). \<forall>e\<in>set g. (rs_memberships res ! i) e = Some (community_id sha (rs_hash res) i g))
    \<and> (\<forall>i<3. \<forall>x\<in>set (rs_stats res ! i). stats_entry sha (rs_hash res) levels i x)
    \<and> (\<forall>e\<in>set es. rs_degree res e \<noteq> None \<and> rs_weighted res e \<noteq> None \<and> rs_importance res e \<noteq> None)"
proof -
  let ?g = "entity_graph N es rs"
  define nodes where "nodes = go_nodes (nx_names N) ?g"
  have nodes: "set nodes = set es" unfolding nodes_def by (rule entity_graph_nodes [OF ok ends])
  obtain levels where levels: "level_groups N ?g = Inr levels" "length levels = 3" "hierarchy levels (set es)"
    using level_groups_ok [OF ok, of ?g] entity_graph_nodes [OF ok ends] by auto
  define digest where "digest = snapshot_digest sha dumps es rs"
  define ms where "ms = map (\<lambda>(i, gs). level_members sha digest i gs) (enumerate 0 levels)"
  let ?f = "\<lambda>(i, gs). level_stats sha digest (go_edges (nx_names N) ?g) ms i gs"
  have stats: "\<exists>d. level_stats sha digest (go_edges (nx_names N) ?g) ms i (levels ! i) = Inr d \<and> (\<forall>x\<in>set d. stats_entry sha digest levels i x)"
    if "i < 3" for i by (rule level_stats_ok [OF levels(3,2) that ms_def])
  then obtain st where st: "\<And>i. i < 3 \<Longrightarrow> level_stats sha digest (go_edges (nx_names N) ?g) ms i (levels ! i) = Inr (st i)"
    "\<And>i. i < 3 \<Longrightarrow> \<forall>x\<in>set (st i). stats_entry sha digest levels i x" by metis
  have "map_res ?f (enumerate 0 levels) = Inr (map (\<lambda>(i, gs). st i) (enumerate 0 levels))"
    by (rule map_res_Inr) (use levels(2) st(1) in \<open>auto simp: in_set_enumerate_eq\<close>)
  moreover define stats where "stats = map (\<lambda>(i, gs). st i) (enumerate 0 levels)"
  moreover define res where "res = \<lparr>rs_hash = digest, rs_memberships = ms, rs_stats = stats,
           rs_degree = map_of (map (\<lambda>e. (e, nx_degree N ?g e)) nodes),
           rs_weighted = map_of (map (\<lambda>e. (e, nx_weighted_degree N ?g e)) nodes),
           rs_importance = importance_map N ?g, rs_relations = length rs\<rparr>"
  ultimately have run: "analyze_graph N sha dumps es rs = Inr res"
    by (simp add: analyze_graph_def levels(1) Let_def ms_def digest_def nodes_def)
  have fields: "rs_hash res = digest" "rs_memberships res = ms" "rs_stats res = stats" by (simp_all add: res_def)
  have s: "length stats = 3" "stats ! i = st i" if "i < 3" for i using levels(2) that by (simp_all add: stats_def nth_enumerate_eq)
  have m: "(ms ! i) e = Some (community_id sha digest i g)" if "i < 3" "g \<in> set (levels ! i)" "e \<in> set g" for i g e
  proof -
    have "partitions (levels ! i) (set es)" using levels that by (simp add: hierarchy_def)
    then show ?thesis using levels(2) that by (simp add: ms_def nth_enumerate_eq level_members_block)
  qed
  have dom: "map_of (map (\<lambda>e. (e, f e)) nodes) e \<noteq> None" if "e \<in> set es" for f and e :: string
    using that nodes by (simp only: map_of_eq_None_iff) (simp add: image_image)
  have "rs_degree res e \<noteq> None" "rs_weighted res e \<noteq> None" "rs_importance res e \<noteq> None" if "e \<in> set es" for e
    unfolding res_def importance_map_def Let_def nodes_def [symmetric] analytics_result.simps by (rule dom [OF that])+
  moreover have "\<forall>x\<in>set (stats ! i). stats_entry sha digest levels i x" if "i < 3" for i using st(2) [OF that] s(2) [OF that] by simp
  moreover have "length stats = 3" using s(1) [of 0] by simp
  ultimately show ?thesis
    using levels run m unfolding fields [symmetric] digest_def [symmetric] by blast
qed

section \<open>Refreshing\<close>

definition relations_scoped :: "graph_db \<Rightarrow> string \<Rightarrow> string \<Rightarrow> bool" where
  "relations_scoped db p d \<longleftrightarrow> (\<forall>r\<in>set (g_relations db). rl_project r = p \<and> rl_dataset r = d \<longrightarrow>
     (\<exists>a\<in>set (g_entities db). \<exists>b\<in>set (g_entities db). en_id a = rl_source r \<and> en_id b = rl_target r
        \<and> en_project a = p \<and> en_dataset a = d \<and> en_project b = p \<and> en_dataset b = d))"

definition within_limits :: "graph_db \<Rightarrow> string \<Rightarrow> string \<Rightarrow> bool" where
  "within_limits db p d \<longleftrightarrow> length (filter (\<lambda>e. en_project e = p \<and> en_dataset e = d) (g_entities db)) \<le> MAX_ANALYTICS_ENTITIES
     \<and> length (filter (\<lambda>r. rl_project r = p \<and> rl_dataset r = d \<and> analytics_relation db r) (g_relations db)) \<le> MAX_ANALYTICS_RELATIONS"

lemma analytics_inputs:
  assumes "within_limits db p d"
  shows "analytics_entities db p d = sort (map en_id (filter (\<lambda>e. en_project e = p \<and> en_dataset e = d) (g_entities db)))"
    "length (analytics_entities db p d) \<le> MAX_ANALYTICS_ENTITIES" "length (analytics_rows db p d) \<le> MAX_ANALYTICS_RELATIONS"
    "set (analytics_rows db p d) = (\<lambda>r. (rl_source r, rl_target r, rl_confidence r)) `
       {r \<in> set (g_relations db). rl_project r = p \<and> rl_dataset r = d \<and> analytics_relation db r}"
  using assms by (simp_all add: within_limits_def analytics_entities_def analytics_rows_def limit_def order_by_def)

lemma analytics_ends:
  assumes "within_limits db p d" "relations_scoped db p d"
  shows "\<forall>(s, t, w)\<in>set (analytics_rows db p d). s \<in> set (analytics_entities db p d) \<and> t \<in> set (analytics_entities db p d)"
proof -
  have "rl_source r \<in> set (analytics_entities db p d) \<and> rl_target r \<in> set (analytics_entities db p d)"
    if m: "r \<in> set (g_relations db)" "rl_project r = p" "rl_dataset r = d" for r
  proof -
    have "\<exists>a\<in>set (g_entities db). \<exists>b\<in>set (g_entities db). en_id a = rl_source r \<and> en_id b = rl_target r
        \<and> en_project a = p \<and> en_dataset a = d \<and> en_project b = p \<and> en_dataset b = d"
      by (rule mp [OF bspec [OF assms(2) [unfolded relations_scoped_def] m(1)]]) (simp add: m)
    then obtain a b where a: "a \<in> set (g_entities db)" "en_project a = p" "en_dataset a = d" "en_id a = rl_source r"
      and b: "b \<in> set (g_entities db)" "en_project b = p" "en_dataset b = d" "en_id b = rl_target r" by blast
    have "en_id a \<in> set (analytics_entities db p d)" "en_id b \<in> set (analytics_entities db p d)"
      unfolding analytics_inputs(1) [OF assms(1)] using a(1-3) b(1-3) by auto
    then show ?thesis using a(4) b(4) by simp
  qed
  then show ?thesis unfolding analytics_inputs(4) [OF assms(1)] by auto
qed

text \<open>The rows a new run writes: one membership per entity and level, and one metric per entity.\<close>

definition run_rows_complete :: "string \<Rightarrow> string list \<Rightarrow> analytics_db \<Rightarrow> bool" where
  "run_rows_complete k es adb \<longleftrightarrow> (\<forall>e\<in>set es. (\<exists>m\<in>set (a_metrics adb). em_run m = k \<and> em_entity m = e)
     \<and> (\<forall>l<3. \<exists>m\<in>set (a_members adb). mb_run m = k \<and> mb_entity m = e \<and> mb_level m = l))"

lemma map_res_total: "(\<And>x. x \<in> set xs \<Longrightarrow> \<exists>y. f x = Inr y \<and> P x y) \<Longrightarrow> \<exists>ys. map_res f xs = Inr ys \<and> (\<forall>x\<in>set xs. \<exists>y\<in>set ys. P x y)"
proof (induction xs)
  case (Cons x xs)
  obtain y where "f x = Inr y" "P x y" using Cons.prems [of x] by auto
  moreover obtain ys where "map_res f xs = Inr ys" "\<forall>x\<in>set xs. \<exists>y\<in>set ys. P x y" using Cons by auto
  ultimately show ?case by auto
qed simp

lemma entity_rows:
  assumes "rs_degree res e \<noteq> None" "rs_weighted res e \<noteq> None" "rs_importance res e \<noteq> None"
    and "\<And>i. i < 3 \<Longrightarrow> (rs_memberships res ! i) e \<noteq> None"
  shows "\<exists>m. entity_metric_of k res e = Inr m \<and> em_run m = k \<and> em_entity m = e"
    "\<exists>ms. entity_memberships k res e = Inr ms \<and> (\<forall>l<3. \<exists>m\<in>set ms. mb_run m = k \<and> mb_entity m = e \<and> mb_level m = l)"
proof -
  show "\<exists>m. entity_metric_of k res e = Inr m \<and> em_run m = k \<and> em_entity m = e"
    using assms(1-3) by (auto simp: entity_metric_of_def)
  have "\<exists>ms. map_res (\<lambda>level. case (rs_memberships res ! level) e of
         None \<Rightarrow> Inl KeyError
       | Some c \<Rightarrow> Inr \<lparr>mb_run = k, mb_entity = e, mb_level = level, mb_community = c\<rparr>) [0..<3] = Inr ms
     \<and> (\<forall>l\<in>set [0..<3]. \<exists>m\<in>set ms. mb_run m = k \<and> mb_entity m = e \<and> mb_level m = l)"
    by (rule map_res_total) (use assms(4) in \<open>force split: option.split\<close>)
  then show "\<exists>ms. entity_memberships k res e = Inr ms \<and> (\<forall>l<3. \<exists>m\<in>set ms. mb_run m = k \<and> mb_entity m = e \<and> mb_level m = l)"
    by (auto simp: entity_memberships_def)
qed

text \<open>A refresh either finds the run of the snapshot or writes a new one.\<close>

lemma refresh_cases:
  fixes sha :: "string \<Rightarrow> string" and dumps :: "string list \<Rightarrow> (string \<times> string \<times> rat) list \<Rightarrow> string"
  assumes ok: "networkx_ok N" and lim: "within_limits db p d" and sc: "relations_scoped db p d"
    and fresh: "k \<notin> ar_id ` set (a_runs adb)"
  defines "digest \<equiv> snapshot_digest sha dumps (analytics_entities db p d) (analytics_rows db p d)"
  obtains (found) r where "refresh_dataset_analytics N sha dumps k now db p d adb = Inr (r, adb)"
      "find (\<lambda>r. ar_project r = p \<and> ar_dataset r = d \<and> ar_hash r = digest) (a_runs adb) = Some r"
    | (written) r adb' where "refresh_dataset_analytics N sha dumps k now db p d adb = Inr (r, adb')"
      "find (\<lambda>r. ar_project r = p \<and> ar_dataset r = d \<and> ar_hash r = digest) (a_runs adb) = None"
      "a_runs adb' = a_runs adb @ [r]" "ar_id r = k" "ar_project r = p" "ar_dataset r = d" "ar_hash r = digest" "ar_created r = now"
      "run_rows_complete k (analytics_entities db p d) adb'"
proof -
  let ?es = "analytics_entities db p d" and ?rs = "analytics_rows db p d"
  obtain levels res where res: "length levels = 3" "hierarchy levels (set ?es)" "analyze_graph N sha dumps ?es ?rs = Inr res" "rs_hash res = digest"
    "\<forall>i<3. \<forall>g\<in>set (levels ! i). \<forall>e\<in>set g. (rs_memberships res ! i) e = Some (community_id sha (rs_hash res) i g)"
    "\<forall>e\<in>set ?es. rs_degree res e \<noteq> None \<and> rs_weighted res e \<noteq> None \<and> rs_importance res e \<noteq> None"
    using analyze_graph_ok [OF ok analytics_ends [OF lim sc], of sha dumps] unfolding digest_def by blast
  have member: "(rs_memberships res ! i) e \<noteq> None" if m: "i < 3" "e \<in> set ?es" for i e
  proof -
    have "partitions (levels ! i) (set ?es)" using res(1,2) m(1) by (simp add: hierarchy_def)
    then obtain g where "g \<in> set (levels ! i)" "e \<in> set g" using partitions_block m(2) by metis
    then show ?thesis using res(5) m(1) by simp
  qed
  note rows = entity_rows [of res _ k, OF _ _ _ member]
  have "\<exists>ms. map_res (entity_metric_of k res) ?es = Inr ms \<and> (\<forall>e\<in>set ?es. \<exists>m\<in>set ms. em_run m = k \<and> em_entity m = e)"
    by (rule map_res_total) (use rows(1) res(6) in blast)
  then obtain metrics where metrics: "map_res (entity_metric_of k res) ?es = Inr metrics"
    "\<forall>e\<in>set ?es. \<exists>m\<in>set metrics. em_run m = k \<and> em_entity m = e" by blast
  have "\<exists>ms. map_res (entity_memberships k res) ?es = Inr ms
     \<and> (\<forall>e\<in>set ?es. \<exists>x\<in>set ms. \<forall>l<3. \<exists>m\<in>set x. mb_run m = k \<and> mb_entity m = e \<and> mb_level m = l)"
    by (rule map_res_total) (use rows(2) res(6) in blast)
  then obtain members where members: "map_res (entity_memberships k res) ?es = Inr members"
    "\<forall>e\<in>set ?es. \<exists>x\<in>set members. \<forall>l<3. \<exists>m\<in>set x. mb_run m = k \<and> mb_entity m = e \<and> mb_level m = l" by blast
  show thesis
  proof (cases "find (\<lambda>r. ar_project r = p \<and> ar_dataset r = d \<and> ar_hash r = digest) (a_runs adb)")
    case (Some r)
    then show thesis using found analytics_inputs(2,3) [OF lim] res(3,4) by (simp add: refresh_dataset_analytics_def Let_def)
  next
    case None
    let ?run = "analytics_run_row k now p d (length ?es) res"
    let ?adb = "\<lparr>a_runs = a_runs adb @ [?run], a_members = a_members adb @ concat members,
                           a_metrics = a_metrics adb @ metrics, a_communities = a_communities adb @ community_rows k res\<rparr>"
    have "refresh_dataset_analytics N sha dumps k now db p d adb = Inr (?run, ?adb)"
      using None analytics_inputs(2,3) [OF lim] res(3,4) fresh metrics(1) members(1)
      by (simp add: refresh_dataset_analytics_def Let_def)
    moreover have "run_rows_complete k ?es ?adb"
      unfolding run_rows_complete_def
    proof (intro ballI conjI allI impI)
      fix e assume e: "e \<in> set ?es"
      show "\<exists>m\<in>set (a_metrics ?adb). em_run m = k \<and> em_entity m = e" using metrics(2) e by fastforce
      fix l :: nat assume l: "l < 3"
      obtain x m where "x \<in> set members" "m \<in> set x" "mb_run m = k" "mb_entity m = e" "mb_level m = l"
        using members(2) e l by blast
      then show "\<exists>m\<in>set (a_members ?adb). mb_run m = k \<and> mb_entity m = e \<and> mb_level m = l" by auto
    qed
    ultimately show thesis using written None res(4) by (simp add: analytics_run_row_def)
  qed
qed

section \<open>Properties\<close>

text \<open>C13. With a Louvain method that answers with partitions, the analysis never fails; each of its three
  levels is a partition of the entities, every community lies in exactly one community of the next
  level, every entity is recorded under its community at every level, and every statistics row names
  its members and its parent.\<close>

theorem community_hierarchy:
  assumes "networkx_ok N" and "\<forall>(s, t, w)\<in>set rs. s \<in> set es \<and> t \<in> set es"
  shows "\<exists>levels res. analyze_graph N sha dumps es rs = Inr res \<and> length levels = 3
    \<and> (\<forall>i<3. partitions (levels ! i) (set es))
    \<and> (\<forall>i<2. \<forall>g\<in>set (levels ! i). \<exists>!h. h \<in> set (levels ! Suc i) \<and> set g \<subseteq> set h)
    \<and> (\<forall>i<3. \<forall>g\<in>set (levels ! i). \<forall>e\<in>set g. (rs_memberships res ! i) e = Some (community_id sha (rs_hash res) i g))
    \<and> (\<forall>i<3. \<forall>x\<in>set (rs_stats res ! i). stats_entry sha (rs_hash res) levels i x)"
proof -
  obtain levels res where res: "length levels = 3" "hierarchy levels (set es)" "analyze_graph N sha dumps es rs = Inr res"
    "\<forall>i<3. \<forall>g\<in>set (levels ! i). \<forall>e\<in>set g. (rs_memberships res ! i) e = Some (community_id sha (rs_hash res) i g)"
    "\<forall>i<3. \<forall>x\<in>set (rs_stats res ! i). stats_entry sha (rs_hash res) levels i x"
    using analyze_graph_ok [OF assms, of sha dumps] by blast
  have part: "partitions (levels ! i) (set es)" if "i < 3" for i using res(1,2) that by (simp add: hierarchy_def)
  have "\<exists>!h. h \<in> set (levels ! Suc i) \<and> set g \<subseteq> set h" if i: "i < 2" and g: "g \<in> set (levels ! i)" for i g
  proof -
    have i3: "i < 3" "Suc i < 3" using i by simp_all
    obtain h where h: "h \<in> set (levels ! Suc i)" "set g \<subseteq> set h" using res(1,2) i3 g unfolding hierarchy_def by metis
    obtain e where "e \<in> set g" using partitions_nonempty [OF part [OF i3(1)] g] by (cases g) auto
    then have uniq: "k = h" if "k \<in> set (levels ! Suc i)" "set g \<subseteq> set k" for k
      using partitions_same [OF part [OF i3(2)] that(1) h(1)] that(2) h(2) by blast
    show ?thesis by (rule ex1I [of _ h]) (use h uniq in blast)+
  qed
  then have up: "\<forall>i<2. \<forall>g\<in>set (levels ! i). \<exists>!h. h \<in> set (levels ! Suc i) \<and> set g \<subseteq> set h" by blast
  have all: "\<forall>i<3. partitions (levels ! i) (set es)" using part by blast
  show ?thesis by (intro exI conjI, fact res(3), fact res(1), fact all, fact up, fact res(4), fact res(5))
qed

text \<open>A library for examples: a graph keeps its nodes and its edges, and everything is one community.\<close>

definition plain_ops :: "('n, 'n list \<times> ('n \<times> 'n \<times> rat) list) graph_ops" where
  "plain_ops = \<lparr>go_new = (\<lambda>ns. (ns, [])),
     go_add = (\<lambda>a b w (ns, es). (List.insert a (List.insert b ns), (a, b, w) # filter (\<lambda>(x, y, v). {x, y} \<noteq> {a, b}) es)),
     go_weight = (\<lambda>(ns, es) a b. map_option (\<lambda>(x, y, v). v) (find (\<lambda>(x, y, v). {x, y} = {a, b}) es)),
     go_nodes = (\<lambda>(ns, es). remdups ns),
     go_edges = (\<lambda>(ns, es). filter (\<lambda>(x, y, v). x \<in> set ns \<and> y \<in> set ns) es)\<rparr>"

definition plain_networkx :: "(string list \<times> (string \<times> string \<times> rat) list, nat list \<times> (nat \<times> nat \<times> rat) list) networkx" where
  "plain_networkx = \<lparr>nx_names = plain_ops, nx_indexes = plain_ops,
     nx_relabel = (\<lambda>f (ns, es). (map f ns, map (\<lambda>(a, b, w). (f a, f b, w)) es)),
     nx_degree = (\<lambda>(ns, es) n. int (length (filter (\<lambda>(a, b, w). a = n \<or> b = n) es))),
     nx_weighted_degree = (\<lambda>(ns, es) n. sum_list (map (\<lambda>(a, b, w). w) (filter (\<lambda>(a, b, w). a = n \<or> b = n) es))),
     nx_louvain = (\<lambda>r seed (ns, es). if ns = [] then [] else [remdups ns])\<rparr>"

lemma plain_networkx_ok: "networkx_ok plain_networkx"
  by (auto simp: networkx_ok_def graph_ops_ok_def plain_networkx_def plain_ops_def partitions_def)

theorem community_hierarchy_witness:
  "\<exists>levels res. analyze_graph plain_networkx rev (\<lambda>es rs. concat es) [''b'', ''a''] [(''a'', ''b'', 1)] = Inr res
    \<and> length levels = 3 \<and> partitions (levels ! 2) {''a'', ''b''}"
  using community_hierarchy [OF plain_networkx_ok, of "[(''a'', ''b'', 1)]" "[''b'', ''a'']" rev "\<lambda>es rs. concat es"]
  by (auto simp: insert_commute)

text \<open>A snapshot that has a run is answered with that run.\<close>

lemma refresh_again:
  assumes "networkx_ok N" "within_limits db p d" "relations_scoped db p d"
    and "find (\<lambda>r. ar_project r = p \<and> ar_dataset r = d
      \<and> ar_hash r = snapshot_digest sha dumps (analytics_entities db p d) (analytics_rows db p d)) (a_runs adb) = Some r"
  shows "refresh_analytics N sha dumps k now db p d adb = (Inr r, adb)"
proof -
  obtain res where "analyze_graph N sha dumps (analytics_entities db p d) (analytics_rows db p d) = Inr res"
    "rs_hash res = snapshot_digest sha dumps (analytics_entities db p d) (analytics_rows db p d)"
    using analyze_graph_ok [OF assms(1) analytics_ends [OF assms(2,3)], of sha dumps] by blast
  then show ?thesis using assms(4) analytics_inputs(2,3) [OF assms(2)]
    by (simp add: refresh_analytics_def refresh_dataset_analytics_def Let_def)
qed

lemma find_snoc: "find P xs = None \<Longrightarrow> P x \<Longrightarrow> find P (xs @ [x]) = Some x"
  by (induction xs) (auto split: if_splits)

text \<open>C14. A refresh within the limits succeeds: it answers with the run stored for the snapshot, writing
  nothing, or stores a new run with a metric and three memberships for every entity; and refreshing
  again without a change of the graph answers with the same run and writes nothing.\<close>

theorem refresh_idempotent:
  assumes "networkx_ok N" "within_limits db p d" "relations_scoped db p d" "k \<notin> ar_id ` set (a_runs adb)"
  shows "\<exists>r adb'. refresh_analytics N sha dumps k now db p d adb = (Inr r, adb') \<and> r \<in> set (a_runs adb')
    \<and> (r \<in> set (a_runs adb) \<and> adb' = adb
       \<or> ar_id r = k \<and> a_runs adb' = a_runs adb @ [r] \<and> run_rows_complete k (analytics_entities db p d) adb')
    \<and> (\<forall>k' now'. refresh_analytics N sha dumps k' now' db p d adb' = (Inr r, adb'))"
proof (rule refresh_cases [OF assms, of sha dumps now])
  fix r assume found: "refresh_dataset_analytics N sha dumps k now db p d adb = Inr (r, adb)"
    "find (\<lambda>r. ar_project r = p \<and> ar_dataset r = d
       \<and> ar_hash r = snapshot_digest sha dumps (analytics_entities db p d) (analytics_rows db p d)) (a_runs adb) = Some r"
  then have "r \<in> set (a_runs adb)" by (auto simp: find_Some_iff)
  then show ?thesis using found refresh_again [OF assms(1-3) found(2)] by (simp add: refresh_analytics_def)
next
  fix r adb' assume written: "refresh_dataset_analytics N sha dumps k now db p d adb = Inr (r, adb')"
    "find (\<lambda>r. ar_project r = p \<and> ar_dataset r = d
       \<and> ar_hash r = snapshot_digest sha dumps (analytics_entities db p d) (analytics_rows db p d)) (a_runs adb) = None"
    "a_runs adb' = a_runs adb @ [r]" "ar_id r = k" "ar_project r = p" "ar_dataset r = d"
    "ar_hash r = snapshot_digest sha dumps (analytics_entities db p d) (analytics_rows db p d)" "ar_created r = now"
    "run_rows_complete k (analytics_entities db p d) adb'"
  have "find (\<lambda>r. ar_project r = p \<and> ar_dataset r = d
      \<and> ar_hash r = snapshot_digest sha dumps (analytics_entities db p d) (analytics_rows db p d)) (a_runs adb') = Some r"
    unfolding written(3) by (rule find_snoc [OF written(2)]) (use written(5-7) in simp)
  note again = refresh_again [OF assms(1-3) this]
  have "refresh_analytics N sha dumps k now db p d adb = (Inr r, adb')" using written(1) by (simp add: refresh_analytics_def)
  moreover have "r \<in> set (a_runs adb')" using written(3) by simp
  ultimately show ?thesis using written(3,4,9) again by blast
qed

text \<open>A longest key goes to the end.\<close>

lemma sort_key_snoc:
  assumes "\<forall>y\<in>set xs. f y \<le> f x"
  shows "sort_key f (xs @ [x]) = sort_key f xs @ [x]"
proof (rule properties_for_sort_key)
  show "mset (sort_key f xs @ [x]) = mset (xs @ [x])" by simp
  show "filter (\<lambda>y. f k = f y) (sort_key f xs @ [x]) = filter (\<lambda>y. f k = f y) (xs @ [x])"
    if "k \<in> set (sort_key f xs @ [x])" for k
    using sort_key_stable [of f "f k" xs] by (simp add: eq_commute)
  show "sorted (map f (sort_key f xs @ [x]))" using assms by (auto simp: sorted_append)
qed

text \<open>When an entity of the dataset has no support, the explorer calls the run stale that a refresh has
  just written, unless two texts have the same digest: the refresh hashes all entities, the explorer
  the supported ones.\<close>

theorem refreshed_view_stale:
  assumes "networkx_ok N" "within_limits db p d" "relations_scoped db p d" "graph_keys db"
    and fresh: "k \<notin> ar_id ` set (a_runs adb)" and later: "\<forall>r\<in>set (a_runs adb). ar_created r < now"
    and e: "e \<in> set (g_entities db)" "en_project e = p" "en_dataset e = d" "\<not> supported_entity db e"
    and dumps: "\<And>es rs es' rs'. dumps es rs = dumps es' rs' \<Longrightarrow> es = es'"
    and res: "refresh_analytics N sha dumps k now db p d adb = (Inr r, adb')" "ar_id r = k"
  shows "explorer_stale (snapshot_digest sha dumps) db adb' p d \<or> (\<exists>x y. x \<noteq> y \<and> sha x = sha y)"
proof (rule refresh_cases [OF assms(1-3) fresh, of sha dumps now])
  fix q assume found: "refresh_dataset_analytics N sha dumps k now db p d adb = Inr (q, adb)"
  then have "r = q" "adb' = adb" using res by (simp_all add: refresh_analytics_def)
  moreover assume "find (\<lambda>r. ar_project r = p \<and> ar_dataset r = d
       \<and> ar_hash r = snapshot_digest sha dumps (analytics_entities db p d) (analytics_rows db p d)) (a_runs adb) = Some q"
  ultimately have "r \<in> set (a_runs adb)" by (auto simp: find_Some_iff)
  then show ?thesis using fresh res(2) by auto
next
  fix q adb2 assume written: "refresh_dataset_analytics N sha dumps k now db p d adb = Inr (q, adb2)"
    "a_runs adb2 = a_runs adb @ [q]" "ar_project q = p" "ar_dataset q = d"
    "ar_hash q = snapshot_digest sha dumps (analytics_entities db p d) (analytics_rows db p d)" "ar_created q = now"
  then have q: "q = r" "adb2 = adb'" using res by (simp_all add: refresh_analytics_def)
  let ?mine = "filter (\<lambda>r. ar_project r = p \<and> ar_dataset r = d) (a_runs adb)"
  have "\<forall>x\<in>set ?mine. (ar_created x, ar_id x) \<le> (ar_created r, ar_id r)" using later written(6) q by auto
  then have "sort_key (\<lambda>r. (ar_created r, ar_id r)) (?mine @ [r]) = sort_key (\<lambda>r. (ar_created r, ar_id r)) ?mine @ [r]"
    by (rule sort_key_snoc)
  then have latest: "latest_run adb' p d = Some r" using written q by (simp add: latest_run_def)
  have "sort (sort (map en_id (base_entities db p d))) \<noteq> sort (analytics_entities db p d)"
  proof
    assume eq: "sort (sort (map en_id (base_entities db p d))) = sort (analytics_entities db p d)"
    have "en_id e \<in> set (sort (analytics_entities db p d))" using e unfolding analytics_inputs(1) [OF assms(2)] by auto
    then have "en_id e \<in> set (map en_id (base_entities db p d))" using eq by (metis set_sort)
    then obtain b where b: "b \<in> set (g_entities db)" "en_id b = en_id e" "supported_entity db b" by (auto simp: base_entities_def)
    have "inj_on en_id (set (g_entities db))" using assms(4) by (simp add: graph_keys_def distinct_map)
    then have "b = e" using b(1,2) e(1) by (metis inj_onD)
    then show False using b(3) e(4) by simp
  qed
  then have differ: "dumps (sort (sort (map en_id (base_entities db p d)))) rs \<noteq> dumps (sort (analytics_entities db p d)) rs'" for rs rs'
    using dumps by blast
  define x where "x = dumps (sort (sort (map en_id (base_entities db p d))))
    (sort (map (\<lambda>r. (rl_source r, rl_target r, rl_confidence r)) (order_by rl_id (base_relations db p d))))"
  define y where "y = dumps (sort (analytics_entities db p d)) (sort (analytics_rows db p d))"
  have "explorer_stale (snapshot_digest sha dumps) db adb' p d \<longleftrightarrow> sha y \<noteq> sha x"
    using latest written(5) q(1) by (simp add: explorer_stale_def current_hash_def snapshot_digest_def x_def y_def)
  moreover have "x \<noteq> y" using differ by (simp add: x_def y_def)
  ultimately show ?thesis by metis
qed

text \<open>The sample graph with an entity that no evidence and no reviewer supports.\<close>

definition unsupported_graph :: graph_db where
  "unsupported_graph = empty_graph\<lparr>g_entities := [sample_entity ''a'']\<rparr>"

definition no_runs :: analytics_db where
  "no_runs = \<lparr>a_runs = [], a_members = [], a_metrics = [], a_communities = []\<rparr>"

lemma unsupported_sample:
  "within_limits unsupported_graph ''p'' ''d''" "relations_scoped unsupported_graph ''p'' ''d''" "graph_keys unsupported_graph"
  "\<not> supported_entity unsupported_graph (sample_entity ''a'')" "g_entities unsupported_graph = [sample_entity ''a'']"
  "en_project (sample_entity ''a'') = ''p''" "en_dataset (sample_entity ''a'') = ''d''"
  by (simp_all add: within_limits_def relations_scoped_def graph_keys_def unsupported_graph_def empty_graph_def sample_entity_def
      supported_entity_def MAX_ANALYTICS_ENTITIES_def)

theorem refresh_idempotent_witness:
  "\<exists>r adb'. refresh_analytics plain_networkx rev (\<lambda>es rs. concat es) ''k'' 1 unsupported_graph ''p'' ''d'' no_runs = (Inr r, adb')
     \<and> refresh_analytics plain_networkx rev (\<lambda>es rs. concat es) ''l'' 2 unsupported_graph ''p'' ''d'' adb' = (Inr r, adb')"
  using refresh_idempotent [OF plain_networkx_ok unsupported_sample(1,2), of "''k''" no_runs rev "\<lambda>es rs. concat es" 1]
  by (auto simp: no_runs_def)

text \<open>The writer of the example puts every identifier between quotes.\<close>

definition quote_all :: "string list \<Rightarrow> string" where
  "quote_all es = concat (map (\<lambda>e. concat (map (\<lambda>c. [CHR ''x'', c]) e) @ [CHR ''y'']) es)"

lemma quote_all_inj: "quote_all es = quote_all es' \<Longrightarrow> es = es'"
proof (induction es arbitrary: es')
  case Nil then show ?case by (cases es') (auto simp: quote_all_def)
next
  case (Cons e es)
  have word: "concat (map (\<lambda>c. [CHR ''x'', c]) e) @ CHR ''y'' # r = concat (map (\<lambda>c. [CHR ''x'', c]) e') @ CHR ''y'' # r'
      \<Longrightarrow> e = e' \<and> r = r'" for e e' r r'
  proof (induction e arbitrary: e')
    case Nil then show ?case by (cases e') auto
  next
    case (Cons c e) then show ?case by (cases e') auto
  qed
  from Cons.prems obtain e' fs where es': "es' = e' # fs" by (cases es') (auto simp: quote_all_def)
  have "e = e' \<and> quote_all es = quote_all fs" by (rule word) (use Cons.prems es' in \<open>simp add: quote_all_def\<close>)
  then show ?case using Cons.IH es' by simp
qed

theorem refreshed_view_stale_witness:
  "\<exists>r adb'. refresh_analytics plain_networkx rev (\<lambda>es rs. quote_all es) ''k'' 1 unsupported_graph ''p'' ''d'' no_runs = (Inr r, adb')
     \<and> explorer_stale (snapshot_digest rev (\<lambda>es rs. quote_all es)) unsupported_graph adb' ''p'' ''d''"
proof -
  obtain r adb' where r: "refresh_analytics plain_networkx rev (\<lambda>es rs. quote_all es) ''k'' 1 unsupported_graph ''p'' ''d'' no_runs = (Inr r, adb')"
    "ar_id r = ''k''"
    by (rule refresh_cases [OF plain_networkx_ok unsupported_sample(1,2), of "''k''" no_runs rev "\<lambda>es rs. quote_all es" 1])
      (simp_all add: no_runs_def refresh_analytics_def)
  have "explorer_stale (snapshot_digest rev (\<lambda>es rs. quote_all es)) unsupported_graph adb' ''p'' ''d'' \<or> (\<exists>x y. x \<noteq> y \<and> rev x = (rev y :: string))"
    by (rule refreshed_view_stale [OF plain_networkx_ok unsupported_sample(1-3) _ _ _ _ _ unsupported_sample(4) _ r])
      (simp_all add: no_runs_def unsupported_sample quote_all_inj)
  then show ?thesis using r by auto
qed

end
