(* ===== verification/CodeGraphProps.thy ===== *)
theory CodeGraphProps
  imports CodeGraph
begin

text \<open>
  The symbols of a file form a tree whatever the parser answers, symbols of the same kind and name
  share an identifier, and a C structure without a name loses the syntax tree.
\<close>

section \<open>What the walk keeps\<close>

definition entity_ids :: "code_entity list \<Rightarrow> string set" where
  "entity_ids es = sy_id ` set es"

text \<open>The edges that place a symbol: one from the symbol that holds it.\<close>

definition placing :: "code_relation \<Rightarrow> bool" where
  "placing r \<longleftrightarrow> cl_kind r = Contains \<or> cl_kind r = Imports"

definition place_of :: "code_entity \<Rightarrow> string option \<times> string" where
  "place_of e = (sy_parent e, sy_id e)"

definition edge_of :: "code_relation \<Rightarrow> string option \<times> string" where
  "edge_of r = (Some (cl_source r), cl_target r)"

definition visit_sound :: "code_ctx \<Rightarrow> string \<Rightarrow> visited \<Rightarrow> bool" where
  "visit_sound cx cur v \<longleftrightarrow> (\<forall>e\<in>set (vt_entities v). sy_kind e \<noteq> FileSymbol \<and> (sy_parent e = Some cur \<or> sy_parent e = Some (kx_file cx))
       \<and> (sy_kind e \<noteq> ImportSymbol \<longrightarrow> sy_id e = symbol_id cx (sy_name e) (sy_kind e)))
     \<and> map edge_of (filter placing (vt_relations v)) = map place_of (vt_entities v)
     \<and> cl_source ` set (vt_relations v) \<subseteq> {cur, kx_file cx} \<union> entity_ids (vt_entities v)
     \<and> vt_next v \<in> insert cur (entity_ids (vt_entities v))"

lemmas visit_fields = visit_sound_def add_symbol_def symbol_entity_def contains_relation_def entity_ids_def placing_def
  place_of_def edge_of_def unvisited_def

lemma unvisited_ok [simp]: "visit_sound cx cur (unvisited cur)"
  by (simp add: visit_fields)

lemma add_symbol_ok [simp]: "kind \<noteq> FileSymbol \<Longrightarrow> visit_sound cx cur (add_symbol cx n cur inner kind name s d m)"
  by (simp add: visit_fields Let_def)

lemma add_import_ok [simp]: "visit_sound cx cur (add_import cx n cur f)"
  by (simp add: visit_fields add_import_def Let_def)

lemma add_call_ok [simp]: "visit_sound cx cur (add_call cx n cur name q)"
  by (auto simp: visit_fields add_call_def call_relation_def)

lemma inherits_ok:
  "visit_sound cx cur (let v = add_symbol cx n cur True ClassSymbol name s d m in
     v\<lparr>vt_relations := vt_relations v @ map (inherits_relation cx n (symbol_id cx name ClassSymbol) name) bases\<rparr>)"
proof -
  have "filter placing (map (inherits_relation cx n k name) bases) = []" for k
    by (induction bases) (simp_all add: placing_def inherits_relation_def)
  then show ?thesis by (auto simp: visit_fields Let_def inherits_relation_def)
qed

lemma visit_python_ok: "visit_sound cx cur (visit_python cx p n cur)"
  using inherits_ok [of cx cur n] by (auto simp: visit_python_def Let_def split: option.split)

lemma visit_call_ok [simp]: "visit_sound cx cur (visit_call cx n cur)"
  by (simp add: visit_call_def Let_def split: option.split)

lemma visit_script_ok: "visit_sound cx cur (visit_script cx p n cur)"
  by (simp add: visit_script_def Let_def split: option.split list.split)

lemma visit_go_ok: "visit_sound cx cur (visit_go cx p n cur)"
  by (simp add: visit_go_def Let_def split: option.split)

lemma visit_rust_ok: "visit_sound cx cur (visit_rust cx p n cur)"
  by (simp add: visit_rust_def split: option.split)

lemma visit_c_ok: "visit_c cx p n cur = Inr v \<Longrightarrow> visit_sound cx cur v"
  by (auto simp: visit_c_def Let_def split: option.splits if_splits)

lemma visit_result_ok: "visit_node cx p n cur = Inr v \<Longrightarrow> visit_sound cx cur v"
  by (auto simp: visit_node_def visit_python_ok visit_script_ok visit_go_ok visit_rust_ok visit_c_ok split: if_splits)

text \<open>Every symbol after the first is held by one that comes before it.\<close>

definition rooted :: "code_entity list \<Rightarrow> bool" where
  "rooted es \<longleftrightarrow> (\<forall>i<length es. 0 < i \<longrightarrow> (\<exists>j<i. sy_parent (es ! i) = Some (sy_id (es ! j))))"

lemma rooted_append:
  assumes "rooted es" "\<forall>e\<in>set fs. \<exists>k\<in>entity_ids es. sy_parent e = Some k"
  shows "rooted (es @ fs)"
  unfolding rooted_def
proof (intro allI impI)
  fix i assume i: "i < length (es @ fs)" "0 < i"
  show "\<exists>j<i. sy_parent ((es @ fs) ! i) = Some (sy_id ((es @ fs) ! j))"
  proof (cases "i < length es")
    case True
    then obtain j where "j < i" "sy_parent (es ! i) = Some (sy_id (es ! j))" using assms(1) i(2) unfolding rooted_def by blast
    then show ?thesis using True by (intro exI [of _ j]) (simp add: nth_append)
  next
    case False
    then have "(es @ fs) ! i \<in> set fs" using i by (simp add: nth_append)
    then obtain e where "e \<in> set es" "sy_parent ((es @ fs) ! i) = Some (sy_id e)" using assms(2) by (auto simp: entity_ids_def)
    then obtain j where "j < length es" "sy_parent ((es @ fs) ! i) = Some (sy_id (es ! j))" by (metis in_set_conv_nth)
    then show ?thesis using False by (intro exI [of _ j]) (simp add: nth_append)
  qed
qed

definition found_ok :: "code_ctx \<Rightarrow> found \<Rightarrow> bool" where
  "found_ok cx x \<longleftrightarrow> (case x of (es, rs) \<Rightarrow> es \<noteq> [] \<and> sy_kind (hd es) = FileSymbol \<and> kx_file cx = sy_id (hd es) \<and> rooted es
     \<and> (\<forall>e\<in>set (tl es). sy_kind e \<noteq> FileSymbol \<and> (sy_kind e \<noteq> ImportSymbol \<longrightarrow> sy_id e = symbol_id cx (sy_name e) (sy_kind e)))
     \<and> map edge_of (filter placing rs) = map place_of (tl es) \<and> cl_source ` set rs \<subseteq> entity_ids es)"

lemma found_ok_visit:
  assumes ok: "found_ok cx (es, rs)" and cur: "cur \<in> entity_ids es" and v: "visit_sound cx cur v"
  shows "found_ok cx (es @ vt_entities v, rs @ vt_relations v)" "vt_next v \<in> entity_ids (es @ vt_entities v)"
proof -
  have root: "kx_file cx \<in> entity_ids es" using ok by (cases es) (auto simp: found_ok_def entity_ids_def)
  have "rooted (es @ vt_entities v)"
    by (rule rooted_append) (use ok v cur root in \<open>auto simp: found_ok_def visit_sound_def\<close>)
  moreover have "cl_source ` set (rs @ vt_relations v) \<subseteq> entity_ids (es @ vt_entities v)"
    using ok v cur root by (auto simp: found_ok_def visit_sound_def entity_ids_def)
  ultimately show "found_ok cx (es @ vt_entities v, rs @ vt_relations v)"
    using ok v by (cases es) (auto simp: found_ok_def visit_sound_def)
  show "vt_next v \<in> entity_ids (es @ vt_entities v)" using v cur by (auto simp: visit_sound_def entity_ids_def)
qed

lemma traverse_ok:
  "found_ok cx x \<Longrightarrow> cur \<in> entity_ids (fst x) \<Longrightarrow> traverse_node cx p cur n x = Inr y \<Longrightarrow> found_ok cx y \<and> set (fst x) \<subseteq> set (fst y)"
  "found_ok cx x \<Longrightarrow> cur \<in> entity_ids (fst x) \<Longrightarrow> traverse_children cx q cur cs x = Inr y \<Longrightarrow> found_ok cx y \<and> set (fst x) \<subseteq> set (fst y)"
proof (induction cx p cur n x and cx q cur cs x arbitrary: y and y rule: traverse_node_traverse_children.induct)
  case (1 cx parent cur t a b r l cs es rs)
  from "1.prems"(3) obtain v where v: "visit_node cx parent (Node t a b r l cs) cur = Inr v"
    and rest: "traverse_children cx (Node t a b r l cs) (vt_next v) cs (es @ vt_entities v, rs @ vt_relations v) = Inr y"
    by (auto simp: bindE_Inr_iff)
  note step = found_ok_visit [OF "1.prems"(1) _ visit_result_ok [OF v]]
  have "found_ok cx y \<and> set (es @ vt_entities v) \<subseteq> set (fst y)"
    using "1.IH" [OF step(1) _ rest] step(2) "1.prems"(2) by simp
  then show ?case by simp
next
  case (3 cx p cur f n cs x)
  from "3.prems"(3) obtain z where z: "traverse_node cx (Some p) cur n x = Inr z" "traverse_children cx p cur cs z = Inr y"
    by (auto simp: bindE_Inr_iff)
  have one: "found_ok cx z \<and> set (fst x) \<subseteq> set (fst z)" by (rule "3.IH"(1) [OF "3.prems"(1,2) z(1)])
  then have "cur \<in> entity_ids (fst z)" using "3.prems"(2) by (auto simp: entity_ids_def)
  then show ?case using "3.IH"(2) [OF _ _ z(2)] one by auto
qed simp

section \<open>Extraction\<close>

lemma treesitter_ok:
  assumes "extract_with_treesitter io path content language = Inr r"
  shows "found_ok (code_context io language path content) (cd_entities r, cd_relations r)
    \<and> cd_chunks r = generate_ast_chunks path content (cd_entities r) \<and> cd_path r = path \<and> cd_language r = language"
proof -
  let ?cx = "code_context io language path content" and ?f = "file_entity (ki_sha io) language path content"
  obtain root x where x: "traverse_node ?cx None (kx_file ?cx) root ([?f], []) = Inr x" "r = code_result_of path language content x"
    using assms by (auto simp: extract_with_treesitter_def bindE_Inr_iff Let_def)
  have "found_ok ?cx ([?f], [])" by (simp add: found_ok_def rooted_def code_context_def file_entity_def)
  then have "found_ok ?cx x" by (rule traverse_ok(1) [OF _ _ x(1), THEN conjunct1]) (simp add: entity_ids_def code_context_def)
  then show ?thesis using x(2) by (simp add: code_result_of_def)
qed

lemma line_found_cases:
  assumes "y \<in> set (line_found sha language path content x)"
  obtains name where "line_symbol (snd x) = Some name" "fst y = line_entity sha language path content x name"
    "line_found sha language path content x = [y]"
    "placing (snd y)" "edge_of (snd y) = place_of (fst y)" "cl_source (snd y) = sy_id (file_entity sha language path content)"
proof (cases "line_symbol (snd x)")
  case None then show thesis using assms by (simp add: line_found_def)
next
  case (Some name)
  define e where "e = line_entity sha language path content x name"
  define r where "r = \<lparr>cl_id = ''rel_contains_'' @ sy_id (file_entity sha language path content) @ ''_'' @ sy_id e,
    cl_source = sy_id (file_entity sha language path content), cl_target = sy_id e, cl_kind = Contains, cl_path = path,
    cl_line = fst x, cl_quote = None\<rparr>"
  have f: "line_found sha language path content x = [(e, r)]" using Some by (simp add: line_found_def Let_def e_def r_def)
  have "sy_parent e = Some (sy_id (file_entity sha language path content))" by (cases x) (simp add: e_def line_entity_def Let_def)
  moreover have "y = (e, r)" using f assms by simp
  ultimately show thesis
    by (intro that [OF Some]) (simp_all add: f e_def r_def placing_def edge_of_def place_of_def)
qed

lemma fallback_ok:
  "found_ok (code_context io language path content)
     (cd_entities (extract_with_fallback io path content language), cd_relations (extract_with_fallback io path content language))"
proof -
  let ?cx = "code_context io language path content" and ?f = "file_entity (ki_sha io) language path content"
  define fs where "fs = concat (map (line_found (ki_sha io) language path content) (enumerate 1 (splitlines_from [] content)))"
  have all: "placing (snd y) \<and> edge_of (snd y) = place_of (fst y) \<and> cl_source (snd y) = sy_id ?f
      \<and> (\<exists>x name. fst y = line_entity (ki_sha io) language path content x name)" if "y \<in> set fs" for y
  proof -
    from that obtain x where "y \<in> set (line_found (ki_sha io) language path content x)" unfolding fs_def by auto
    then show ?thesis by (rule line_found_cases) blast
  qed
  have ent: "sy_kind e \<noteq> FileSymbol \<and> sy_kind e \<noteq> ImportSymbol \<and> sy_parent e = Some (sy_id ?f) \<and> sy_id e = symbol_id ?cx (sy_name e) (sy_kind e)"
    if "e = line_entity (ki_sha io) language path content x name" for e x name
    using that by (cases x) (simp add: line_entity_def Let_def symbol_id_def code_context_def)
  have ents: "sy_kind e \<noteq> FileSymbol \<and> sy_kind e \<noteq> ImportSymbol \<and> sy_parent e = Some (sy_id ?f) \<and> sy_id e = symbol_id ?cx (sy_name e) (sy_kind e)"
    if m: "e \<in> set (map fst fs)" for e
  proof -
    obtain y where y: "y \<in> set fs" "e = fst y" using m by auto
    obtain x name where "fst y = line_entity (ki_sha io) language path content x name" using all [OF y(1)] by blast
    then show ?thesis using ent [of e x name] y(2) by simp
  qed
  have "\<exists>k\<in>entity_ids [?f]. sy_parent e = Some k" if m: "e \<in> set (map fst fs)" for e
    using ents [OF m] by (simp add: entity_ids_def)
  then have "rooted ([?f] @ map fst fs)" by (intro rooted_append ballI) (simp_all add: rooted_def)
  moreover have "map edge_of (filter placing (map snd fs)) = map place_of (map fst fs)"
  proof -
    have "filter placing (map snd fs) = map snd fs" by (rule filter_True) (auto dest: all [THEN conjunct1])
    moreover have "map (edge_of \<circ> snd) fs = map (place_of \<circ> fst) fs" by (rule map_cong) (auto dest: all [THEN conjunct2, THEN conjunct1])
    ultimately show ?thesis by simp
  qed
  moreover have "cl_source ` set (map snd fs) \<subseteq> entity_ids ([?f] @ map fst fs)"
  proof
    fix k assume "k \<in> cl_source ` set (map snd fs)"
    then obtain y where y: "y \<in> set fs" "k = cl_source (snd y)" by (metis (no_types, lifting) imageE list.set_map)
    have "k = sy_id ?f" using all [OF y(1)] y(2) by (elim conjE) simp
    then show "k \<in> entity_ids ([?f] @ map fst fs)" by (simp add: entity_ids_def)
  qed
  moreover have "cd_entities (extract_with_fallback io path content language) = ?f # map fst fs"
    "cd_relations (extract_with_fallback io path content language) = map snd fs"
    by (simp_all add: extract_with_fallback_def code_result_of_def fs_def Let_def)
  moreover have "sy_kind ?f = FileSymbol" "kx_file ?cx = sy_id ?f" by (simp_all add: file_entity_def code_context_def)
  moreover have "\<forall>e\<in>set (map fst fs). sy_kind e \<noteq> FileSymbol \<and> (sy_kind e \<noteq> ImportSymbol \<longrightarrow> sy_id e = symbol_id ?cx (sy_name e) (sy_kind e))"
    by (intro ballI) (blast dest: ents)
  ultimately show ?thesis unfolding found_ok_def by simp
qed

lemma extract_file_ok:
  fixes io path content
  defines "r \<equiv> extract_file io path content"
  shows "found_ok (code_context io (detect_language path) path content) (cd_entities r, cd_relations r)
    \<and> cd_chunks r = generate_ast_chunks path content (cd_entities r)"
  using treesitter_ok [of io path content "detect_language path"] fallback_ok [of io "detect_language path" path content]
  by (auto simp: r_def extract_file_def Let_def extract_with_fallback_def code_result_of_def split: sum.split)

text \<open>The nodes below a node, each with its parent.\<close>

fun subnodes :: "ast option \<Rightarrow> ast \<Rightarrow> (ast option \<times> ast) list" and child_nodes :: "ast \<Rightarrow> (string option \<times> ast) list \<Rightarrow> (ast option \<times> ast) list" where
  "subnodes p (Node t a b r l cs) = (p, Node t a b r l cs) # child_nodes (Node t a b r l cs) cs"
| "child_nodes p [] = []"
| "child_nodes p ((f, n) # cs) = subnodes (Some p) n @ child_nodes p cs"

definition anonymous_structure :: "code_ctx \<Rightarrow> ast option \<times> ast \<Rightarrow> bool" where
  "anonymous_structure cx x \<longleftrightarrow> n_type (snd x) \<in> {''struct_specifier'', ''class_specifier''}
     \<and> named (infer_symbol_name cx (fst x) (snd x)) = None"

lemma anonymous_raises:
  assumes "kx_language cx \<in> {''c'', ''cpp''}" "anonymous_structure cx (p, n)"
  shows "\<exists>e. visit_node cx p n cur = Inl e"
  using assms by (auto simp: visit_node_def visit_c_def anonymous_structure_def)

lemma traverse_anonymous:
  "kx_language cx \<in> {''c'', ''cpp''} \<Longrightarrow> \<exists>y\<in>set (subnodes p n). anonymous_structure cx y \<Longrightarrow> \<exists>e. traverse_node cx p cur n x = Inl e"
  "kx_language cx \<in> {''c'', ''cpp''} \<Longrightarrow> \<exists>y\<in>set (child_nodes q cs). anonymous_structure cx y \<Longrightarrow> \<exists>e. traverse_children cx q cur cs x = Inl e"
proof (induction cx p cur n x and cx q cur cs x rule: traverse_node_traverse_children.induct)
  case (1 cx parent cur t a b r l cs es rs)
  show ?case
  proof (cases "visit_node cx parent (Node t a b r l cs) cur")
    case (Inr v)
    have "\<not> anonymous_structure cx (parent, Node t a b r l cs)"
      using anonymous_raises [OF "1.prems"(1), of parent "Node t a b r l cs" cur] Inr by (metis sum.distinct(1))
    then have "\<exists>y\<in>set (child_nodes (Node t a b r l cs) cs). anonymous_structure cx y" using "1.prems"(2) by auto
    then show ?thesis using "1.IH" "1.prems"(1) Inr by simp
  qed simp
next
  case (3 cx p cur f n cs x)
  show ?case
  proof (cases "traverse_node cx (Some p) cur n x")
    case (Inr z)
    then have "\<not> (\<exists>y\<in>set (subnodes (Some p) n). anonymous_structure cx y)"
      using "3.IH"(1) [OF "3.prems"(1)] by (metis sum.distinct(1))
    then have "\<exists>y\<in>set (child_nodes p cs). anonymous_structure cx y" using "3.prems"(2) by auto
    then show ?thesis using "3.IH"(2) "3.prems"(1) Inr by simp
  qed simp
qed simp

section \<open>Properties\<close>

lemma chunk_symbols: "map (ac_symbol \<circ> symbol_chunk path lines) (enumerate n es) = map (\<lambda>e. Some (sy_id e)) es"
  by (induction es arbitrary: n) (simp_all add: symbol_chunk_def Let_def)

text \<open>C12. Whatever the parser answers, the extraction of a file gives the file first and then its symbols,
  each held by one that comes before it and placed by exactly one edge, in the order of the symbols;
  every relation starts at an extracted symbol; and there is one chunk for every symbol, or one for
  the file.\<close>

theorem code_graph_rooted:
  "\<exists>f es. cd_entities (extract_file io path content) = f # es \<and> sy_kind f = FileSymbol \<and> rooted (f # es)
     \<and> map edge_of (filter placing (cd_relations (extract_file io path content))) = map (\<lambda>e. (sy_parent e, sy_id e)) es
     \<and> cl_source ` set (cd_relations (extract_file io path content)) \<subseteq> sy_id ` set (f # es)
     \<and> map ac_symbol (cd_chunks (extract_file io path content)) = (if es = [] then [None] else map (\<lambda>e. Some (sy_id e)) es)"
proof -
  define r where "r = extract_file io path content"
  have ok: "found_ok (code_context io (detect_language path) path content) (cd_entities r, cd_relations r)"
    and chunks: "cd_chunks r = generate_ast_chunks path content (cd_entities r)"
    using extract_file_ok [of io path content] by (simp_all add: r_def)
  then obtain f es where e: "cd_entities r = f # es" by (cases "cd_entities r") (auto simp: found_ok_def)
  have "sy_kind f = FileSymbol" "\<forall>e\<in>set es. sy_kind e \<noteq> FileSymbol" using ok e by (auto simp: found_ok_def)
  then have "filter (\<lambda>e. sy_kind e \<noteq> FileSymbol) (cd_entities r) = es" using e by simp
  then have "map ac_symbol (cd_chunks r) = (if es = [] then [None] else map (\<lambda>e. Some (sy_id e)) es)"
    unfolding chunks generate_ast_chunks_def
    by (simp add: file_chunk_def Let_def chunk_symbols)
  then show ?thesis using ok e unfolding r_def [symmetric] by (auto simp: found_ok_def entity_ids_def place_of_def [abs_def])
qed

text \<open>An identifier is made of the path, the kind and the name of a symbol: two symbols of a file with
  the same kind and name, such as the methods of two classes, get the same identifier.\<close>

theorem same_name_same_identifier:
  assumes "a \<in> set (tl (cd_entities (extract_file io path content)))" "b \<in> set (tl (cd_entities (extract_file io path content)))"
    and "sy_kind a = sy_kind b" "sy_name a = sy_name b" "sy_kind a \<noteq> ImportSymbol"
  shows "sy_id a = sy_id b"
proof -
  have "found_ok (code_context io (detect_language path) path content)
      (cd_entities (extract_file io path content), cd_relations (extract_file io path content))"
    using extract_file_ok by blast
  then show ?thesis using assms by (simp add: found_ok_def)
qed

text \<open>One structure without a name, in a C or C++ file, makes the walk over the syntax tree raise: the
  file is extracted from its lines as if it could not be parsed.\<close>

theorem anonymous_structure_loses_tree:
  assumes "detect_language path \<in> {''c'', ''cpp''}"
    and "ki_parse io (detect_language path) (utf8_encode (codes content)) = Inr tree"
    and "\<exists>y\<in>set (subnodes None tree). anonymous_structure (code_context io (detect_language path) path content) y"
  shows "extract_file io path content = extract_with_fallback io path content (detect_language path)"
proof -
  have "\<exists>e. traverse_node (code_context io (detect_language path) path content) None cur tree x = Inl e" for cur x
    by (rule traverse_anonymous(1)) (use assms in \<open>simp_all add: code_context_def\<close>)
  then have "\<exists>e. extract_with_treesitter io path content (detect_language path) = Inl e"
    using assms(2) by (auto simp: extract_with_treesitter_def Let_def) (metis bindE_simps(1))
  then show ?thesis by (auto simp: extract_file_def Let_def)
qed


section \<open>Examples\<close>

definition leaf :: "string \<Rightarrow> nat \<Rightarrow> nat \<Rightarrow> ast" where
  "leaf t a b = Node t a b 0 0 []"

definition demo_class :: "nat \<Rightarrow> ast" where
  "demo_class i = Node ''class_definition'' i (i + 10) 0 0
     [(Some ''name'', leaf ''identifier'' (i + 6) (i + 7)),
      (Some ''body'', Node ''function_definition'' (i + 9) (i + 10) 0 0 [(Some ''name'', leaf ''identifier'' (i + 9) (i + 10))])]"

definition demo_code_io :: code_io where
  "demo_code_io = \<lparr>ki_sha = (\<lambda>s. s), ki_decode = map char_of,
     ki_parse = (\<lambda>l b. Inr (Node ''module'' 0 21 0 0 [(None, demo_class 0), (None, demo_class 11)])), ki_available = True\<rparr>"

theorem same_name_same_identifier_witness:
  "map sy_name (tl (cd_entities (extract_file demo_code_io ''a.py'' ''class A: m class B: m''))) = [''A'', ''m'', ''B'', ''m'']
   \<and> sy_id (cd_entities (extract_file demo_code_io ''a.py'' ''class A: m class B: m'') ! 2)
     = sy_id (cd_entities (extract_file demo_code_io ''a.py'' ''class A: m class B: m'') ! 4)"
proof -
  let ?es = "cd_entities (extract_file demo_code_io ''a.py'' ''class A: m class B: m'')"
  have e: "map (\<lambda>e. (sy_name e, sy_kind e)) (tl ?es) = [(''A'', ClassSymbol), (''m'', MethodSymbol), (''B'', ClassSymbol), (''m'', MethodSymbol)]"
    by code_simp
  then obtain f a m b m' where es: "?es = [f, a, m, b, m']" "sy_name a = ''A''" "sy_name m = ''m''" "sy_name b = ''B''" "sy_name m' = ''m''"
    "sy_kind m = MethodSymbol" "sy_kind m' = MethodSymbol"
    by (cases ?es) (auto simp: map_eq_Cons_conv)
  then show ?thesis using same_name_same_identifier [of m demo_code_io "''a.py''" "''class A: m class B: m''" m'] by simp
qed

definition demo_struct_io :: code_io where
  "demo_struct_io = demo_code_io\<lparr>ki_parse := (\<lambda>l b. Inr (Node ''translation_unit'' 0 19 0 0
     [(None, Node ''declaration'' 0 19 0 0 [(Some ''type'', leaf ''struct_specifier'' 0 16)])]))\<rparr>"

theorem anonymous_structure_loses_tree_witness:
  "extract_file demo_struct_io ''a.c'' ''struct { int x; } v;'' = extract_with_fallback demo_struct_io ''a.c'' ''struct { int x; } v;'' ''c''"
proof -
  have c: "detect_language ''a.c'' = ''c''" by code_simp
  have "\<exists>y\<in>set (subnodes None (Node ''translation_unit'' 0 19 0 0
     [(None, Node ''declaration'' 0 19 0 0 [(Some ''type'', leaf ''struct_specifier'' 0 16)])])).
     anonymous_structure (code_context demo_struct_io ''c'' ''a.c'' ''struct { int x; } v;'') y"
    by (simp add: leaf_def anonymous_structure_def infer_symbol_name_def child_field_def stripped_def name_from_parent_def named_def)
  then show ?thesis
    using anonymous_structure_loses_tree [of "''a.c''" demo_struct_io "''struct { int x; } v;''"]
    by (simp add: c demo_struct_io_def)
qed

end
