(* ===== verification/CodebaseProps.thy ===== *)
theory CodebaseProps
  imports Codebase AnalyticsProps CodeGraphProps CorpusInvariant
begin

text \<open>
  Indexing of code keeps the graph and, repeated, changes nothing; a directory below an ignored name is
  empty to the scan.
\<close>

section \<open>Entities\<close>

lemma foldE_append: "foldE f (xs @ ys) s = bindE (foldE f xs s) (foldE f ys)"
  by (induction xs arbitrary: s) (auto simp: bindE_def split: sum.split)

lemma upsert_entity_cases:
  assumes "upsert_entity r rows = Inr rows'"
  obtains (old) "en_id r \<in> en_id ` set rows" "rows' = map (\<lambda>e. if en_id e = en_id r then e\<lparr>en_name := en_name r\<rparr> else e) rows"
    | (new) "en_id r \<notin> en_id ` set rows" "rows' = rows @ [r]"
  using assms that by (auto simp: upsert_entity_def upd_row_def split: if_splits)

text \<open>What no upsert changes of the rows that are there.\<close>

definition same_rows :: "gentity list \<Rightarrow> gentity list \<Rightarrow> bool" where
  "same_rows rows rows' \<longleftrightarrow> (\<exists>f new. rows' = map f rows @ new
     \<and> (\<forall>e. en_id (f e) = en_id e \<and> en_project (f e) = en_project e \<and> en_dataset (f e) = en_dataset e))"

lemma same_rows_refl: "same_rows rows rows"
  unfolding same_rows_def by (rule exI [of _ "\<lambda>e. e"], rule exI [of _ "[]"]) simp

lemma same_rows_trans:
  assumes "same_rows a b" "same_rows b c"
  shows "same_rows a c"
proof -
  obtain f x where f: "b = map f a @ x" "\<forall>e. en_id (f e) = en_id e \<and> en_project (f e) = en_project e \<and> en_dataset (f e) = en_dataset e"
    using assms(1) unfolding same_rows_def by blast
  obtain h y where h: "c = map h b @ y" "\<forall>e. en_id (h e) = en_id e \<and> en_project (h e) = en_project e \<and> en_dataset (h e) = en_dataset e"
    using assms(2) unfolding same_rows_def by blast
  show ?thesis unfolding same_rows_def by (rule exI [of _ "h \<circ> f"], rule exI [of _ "map h x @ y"]) (simp add: f h)
qed

lemma upsert_entity_step:
  assumes "upsert_entity r rows = Inr rows'" "distinct (map en_id rows)"
  shows "distinct (map en_id rows') \<and> same_rows rows rows' \<and> set (map en_id rows') = insert (en_id r) (set (map en_id rows))"
  using assms(1)
proof (cases rule: upsert_entity_cases)
  case old
  have ids: "map en_id rows' = map en_id rows" by (simp add: old(2))
  have "same_rows rows rows'" unfolding same_rows_def old(2)
    by (rule exI [of _ "\<lambda>e. if en_id e = en_id r then e\<lparr>en_name := en_name r\<rparr> else e"], rule exI [of _ "[]"]) simp
  then show ?thesis using assms(2) old(1) unfolding ids by auto
next
  case new
  have "same_rows rows rows'" unfolding same_rows_def new(2) by (rule exI [of _ "\<lambda>e. e"], rule exI [of _ "[r]"]) simp
  then show ?thesis using assms(2) new by auto
qed

lemma upsert_entities_step:
  "upsert_entities now p d xs rows = Inr rows' \<Longrightarrow> distinct (map en_id rows)
   \<Longrightarrow> distinct (map en_id rows') \<and> same_rows rows rows' \<and> set (map en_id rows') = snd ` set xs \<union> set (map en_id rows)"
proof (induction xs arbitrary: rows)
  case Nil then show ?case by (simp add: upsert_entities_def same_rows_refl)
next
  case (Cons x xs)
  obtain mid where mid: "upsert_entity (code_row now p d x) rows = Inr mid" "upsert_entities now p d xs mid = Inr rows'"
    using Cons.prems(1) by (auto simp: upsert_entities_def bindE_Inr_iff)
  note s = upsert_entity_step [OF mid(1) Cons.prems(2)]
  then have t: "distinct (map en_id rows')" "same_rows mid rows'" "set (map en_id rows') = snd ` set xs \<union> set (map en_id mid)"
    using Cons.IH [OF mid(2)] by simp_all
  have k: "en_id (code_row now p d x) = snd x" by (cases x) (simp add: code_row_def)
  have "same_rows rows rows'" using s t(2) same_rows_trans by blast
  moreover have "set (map en_id rows') = snd ` set (x # xs) \<union> set (map en_id rows)"
    using s [THEN conjunct2, THEN conjunct2] unfolding t(3) k by simp
  ultimately show ?case using t(1) by simp
qed

text \<open>Upserting again what was upserted changes nothing.\<close>

definition last_name :: "(code_entity \<times> string) list \<Rightarrow> string \<Rightarrow> string option" where
  "last_name xs = map_of (rev (map (\<lambda>(e, k). (k, sy_name e)) xs))"

lemma last_name_Cons: "last_name ((e, k) # xs) j = (case last_name xs j of None \<Rightarrow> if j = k then Some (sy_name e) else None | Some n \<Rightarrow> Some n)"
  by (simp add: last_name_def map_add_def split: option.split)

lemma upsert_entities_named:
  "upsert_entities now p d xs rows = Inr rows' \<Longrightarrow> r \<in> set rows' \<Longrightarrow> last_name xs (en_id r) = Some n \<Longrightarrow> en_name r = n"
proof (induction xs arbitrary: rows rows' r n rule: rev_induct)
  case (snoc x xs)
  obtain e k where x: "x = (e, k)" by (cases x)
  obtain mid where mid: "upsert_entities now p d xs rows = Inr mid" "upsert_entity (code_row now p d x) mid = Inr rows'"
    using snoc.prems(1) by (auto simp: upsert_entities_def foldE_append bindE_Inr_iff)
  have name: "last_name (xs @ [x]) j = (if j = k then Some (sy_name e) else last_name xs j)" for j by (simp add: last_name_def x)
  have row: "en_id (code_row now p d x) = k" "en_name (code_row now p d x) = sy_name e" by (simp_all add: x code_row_def)
  from mid(2) show ?case
  proof (cases rule: upsert_entity_cases)
    case old
    then obtain q where q: "q \<in> set mid" "r = (if en_id q = k then q\<lparr>en_name := sy_name e\<rparr> else q)" using snoc.prems(2) row by auto
    show ?thesis
    proof (cases "en_id q = k")
      case True then show ?thesis using q snoc.prems(3) name by simp
    next
      case False then show ?thesis using q snoc.prems(3) name snoc.IH [OF mid(1) q(1)] by simp
    qed
  next
    case new
    then have "r \<in> set mid \<or> r = code_row now p d x" using snoc.prems(2) by auto
    then show ?thesis
    proof
      assume r: "r \<in> set mid"
      then have "en_id r \<noteq> k" using new(1) row(1) by (metis image_eqI)
      then show ?thesis using snoc.prems(3) name snoc.IH [OF mid(1) r] by simp
    next
      assume "r = code_row now p d x" then show ?thesis using snoc.prems(3) name row by simp
    qed
  qed
qed (simp add: last_name_def)

lemma upsert_entities_again:
  "snd ` set xs \<subseteq> en_id ` set rows \<Longrightarrow> \<forall>x\<in>set xs. length (sy_name (fst x)) \<le> 500
   \<Longrightarrow> upsert_entities now p d xs rows = Inr (map (\<lambda>r. case last_name xs (en_id r) of None \<Rightarrow> r | Some n \<Rightarrow> r\<lparr>en_name := n\<rparr>) rows)"
proof (induction xs arbitrary: rows)
  case Nil then show ?case by (simp add: upsert_entities_def last_name_def)
next
  case (Cons x xs)
  obtain e k where x: "x = (e, k)" by (cases x)
  let ?mid = "map (\<lambda>r. if en_id r = k then r\<lparr>en_name := sy_name e\<rparr> else r) rows"
  have "upsert_entity (code_row now p d x) rows = Inr ?mid"
    using Cons.prems by (auto simp: x upsert_entity_def code_row_def upd_row_def)
  moreover have ids: "map en_id ?mid = map en_id rows" by simp
  then have "en_id ` set ?mid = en_id ` set rows" by (metis list.set_map)
  then have "upsert_entities now p d xs ?mid = Inr (map (\<lambda>r. case last_name xs (en_id r) of None \<Rightarrow> r | Some n \<Rightarrow> r\<lparr>en_name := n\<rparr>) ?mid)"
    using Cons by simp
  ultimately show ?case
    by (simp add: upsert_entities_def) (auto simp: x last_name_Cons split: option.split)
qed

lemma upsert_entities_short: "upsert_entities now p d xs rows = Inr rows' \<Longrightarrow> \<forall>x\<in>set xs. length (sy_name (fst x)) \<le> 500"
proof (induction xs arbitrary: rows)
  case (Cons x xs)
  obtain mid where mid: "upsert_entity (code_row now p d x) rows = Inr mid" "upsert_entities now p d xs mid = Inr rows'"
    using Cons.prems by (auto simp: upsert_entities_def bindE_Inr_iff)
  have "length (sy_name (fst x)) \<le> 500" using mid(1) by (cases x) (auto simp: upsert_entity_def code_row_def split: if_splits)
  then show ?case using Cons.IH [OF mid(2)] by simp
qed simp

lemma upsert_entities_idem:
  assumes "upsert_entities now p d xs rows = Inr rows'" "distinct (map en_id rows)"
  shows "upsert_entities now' p d xs rows' = Inr rows'"
proof -
  have ids: "snd ` set xs \<subseteq> en_id ` set rows'" using upsert_entities_step [OF assms] by auto
  have "map (\<lambda>r. case last_name xs (en_id r) of None \<Rightarrow> r | Some n \<Rightarrow> r\<lparr>en_name := n\<rparr>) rows' = map (\<lambda>r. r) rows'"
    by (rule map_cong) (use upsert_entities_named [OF assms(1)] in \<open>auto split: option.split\<close>)
  then show ?thesis using upsert_entities_again [OF ids upsert_entities_short [OF assms(1)], of now' p d] by simp
qed

section \<open>Relations\<close>

definition link_key :: "(string \<Rightarrow> string) \<Rightarrow> string \<Rightarrow> string \<times> string \<times> string \<Rightarrow> string" where
  "link_key sha d x = (case x of (s, t, v) \<Rightarrow> short_id sha ''ra'' (d @ '':'' @ s @ ''->'' @ v @ ''->'' @ t))"

lemma relation_row_fields [simp]:
  "rl_id (relation_row sha now p d s t v) = link_key sha d (s, t, v)" "rl_source (relation_row sha now p d s t v) = s"
  "rl_target (relation_row sha now p d s t v) = t" "rl_project (relation_row sha now p d s t v) = p"
  "rl_dataset (relation_row sha now p d s t v) = d" "rl_confidence (relation_row sha now p d s t v) = 1"
  by (simp_all add: relation_row_def link_key_def)

lemma upsert_relation_cases:
  assumes "upsert_relation r rows = Inr rows'"
  obtains (old) "rl_id r \<in> rl_id ` set rows" "rows' = upd_row rl_id (rl_id r) (\<lambda>x. x\<lparr>rl_confidence := 1\<rparr>) rows"
    | (new) "rl_id r \<notin> rl_id ` set rows" "rows' = rows @ [r]"
  using assms that by (auto simp: upsert_relation_def split: if_splits)

lemma link_step_cases:
  assumes "link_step sha now p d x known r (seen, n, rows) = Inr st"
  obtains (skipped) "st = (seen, n, rows)"
    | (written) s t v rows' where "s \<in> known" "t \<in> known" "s \<noteq> t" "(s, t, v) \<notin> set seen"
        "upsert_relation (relation_row sha now p d s t v) rows = Inr rows'" "st = ((s, t, v) # seen, n + 1, rows')"
        "s = resolve_source sha d x r" "t = resolve_target sha d x known r" "v = relation_value (cl_kind r)"
  using assms that by (auto simp: link_step_def Let_def bindE_Inr_iff split: if_splits)

definition links_written :: "(string \<Rightarrow> string) \<Rightarrow> string \<Rightarrow> (string \<times> string \<times> string) list \<Rightarrow> grelation list \<Rightarrow> bool" where
  "links_written sha d seen rows \<longleftrightarrow> (\<forall>k\<in>set seen. link_key sha d k \<in> rl_id ` set rows
     \<and> (\<forall>r\<in>set rows. rl_id r = link_key sha d k \<longrightarrow> rl_confidence r = 1))"

lemma upsert_relation_confidence:
  assumes "upsert_relation r rows = Inr rows'" "rl_confidence r = 1"
  shows "rl_id ` set rows' = insert (rl_id r) (rl_id ` set rows)"
    "\<forall>x\<in>set rows'. rl_id x = rl_id r \<longrightarrow> rl_confidence x = 1"
    "\<forall>x\<in>set rows'. (\<exists>y\<in>set rows. rl_id y = rl_id x \<and> (rl_confidence y = 1 \<longrightarrow> rl_confidence x = 1)) \<or> rl_id x = rl_id r"
proof -
  have "rl_id ` set rows' = insert (rl_id r) (rl_id ` set rows)
      \<and> (\<forall>x\<in>set rows'. rl_id x = rl_id r \<longrightarrow> rl_confidence x = 1)
      \<and> (\<forall>x\<in>set rows'. (\<exists>y\<in>set rows. rl_id y = rl_id x \<and> (rl_confidence y = 1 \<longrightarrow> rl_confidence x = 1)) \<or> rl_id x = rl_id r)"
    using assms(1)
  proof (cases rule: upsert_relation_cases)
    case old
    have "map rl_id rows' = map rl_id rows" unfolding old(2) by (simp add: upd_row_def)
    then have "rl_id ` set rows' = rl_id ` set rows" by (metis list.set_map)
    then show ?thesis using old(1) by (auto simp: old(2) upd_row_def)
  next
    case new
    have "rl_id x \<noteq> rl_id r" if "x \<in> set rows" for x using new(1) that by (metis image_eqI)
    then show ?thesis using assms(2) unfolding new(2) by auto
  qed
  then show "rl_id ` set rows' = insert (rl_id r) (rl_id ` set rows)"
    "\<forall>x\<in>set rows'. rl_id x = rl_id r \<longrightarrow> rl_confidence x = 1"
    "\<forall>x\<in>set rows'. (\<exists>y\<in>set rows. rl_id y = rl_id x \<and> (rl_confidence y = 1 \<longrightarrow> rl_confidence x = 1)) \<or> rl_id x = rl_id r"
    by blast+
qed

lemma link_step_written:
  assumes "link_step sha now p d x known r (seen, n, rows) = Inr (seen', n', rows')" "links_written sha d seen rows"
  shows "links_written sha d seen' rows' \<and> set seen \<subseteq> set seen'"
  using assms(1)
proof (cases rule: link_step_cases)
  case skipped then show ?thesis using assms(2) by simp
next
  case (written s t v rs)
  note c = upsert_relation_confidence [OF written(5), unfolded relation_row_fields, OF refl]
  have "link_key sha d k \<in> rl_id ` set rs \<and> (\<forall>r\<in>set rs. rl_id r = link_key sha d k \<longrightarrow> rl_confidence r = 1)"
    if "k \<in> insert (s, t, v) (set seen)" for k
  proof (cases "link_key sha d k = link_key sha d (s, t, v)")
    case True then show ?thesis using c(1,2) by simp
  next
    case False
    then have "k \<in> set seen" using that by auto
    then have w: "link_key sha d k \<in> rl_id ` set rows" "\<forall>r\<in>set rows. rl_id r = link_key sha d k \<longrightarrow> rl_confidence r = 1"
      using assms(2) unfolding links_written_def by blast+
    have "rl_confidence q = 1" if q: "q \<in> set rs" "rl_id q = link_key sha d k" for q
    proof -
      have "rl_id q \<noteq> link_key sha d (s, t, v)" using q(2) False by simp
      then obtain y where "y \<in> set rows" "rl_id y = rl_id q" "rl_confidence y = 1 \<longrightarrow> rl_confidence q = 1"
        using c(3) q(1) by blast
      then show ?thesis using w(2) q(2) by simp
    qed
    then show ?thesis using w(1) c(1) by blast
  qed
  then show ?thesis using written(6) by (auto simp: links_written_def)
qed

lemma link_fold_written:
  "foldE (link_step sha now p d x known) rs (seen, n, rows) = Inr (seen', n', rows') \<Longrightarrow> links_written sha d seen rows
   \<Longrightarrow> links_written sha d seen' rows' \<and> set seen \<subseteq> set seen'"
proof (induction rs arbitrary: seen n rows)
  case (Cons r rs)
  obtain s m q where step: "link_step sha now p d x known r (seen, n, rows) = Inr (s, m, q)"
    "foldE (link_step sha now p d x known) rs (s, m, q) = Inr (seen', n', rows')"
    using Cons.prems(1) by (auto simp: bindE_Inr_iff)
  then show ?case using link_step_written [OF step(1) Cons.prems(2)] Cons.IH [OF step(2)] by blast
qed simp

lemma link_step_again:
  assumes "link_step sha now p d x known r (seen, n, rows) = Inr (seen', n', rows')" "links_written sha d seen' final"
  shows "link_step sha now' p d x known r (seen, n, final) = Inr (seen', n', final)"
proof -
  have idem: "upsert_relation (relation_row sha now' p d s t v) final = Inr final" if "(s, t, v) \<in> set seen'" for s t v
  proof -
    have "upd_row rl_id (link_key sha d (s, t, v)) (\<lambda>x. x\<lparr>rl_confidence := 1\<rparr>) final = map (\<lambda>x. x) final"
      unfolding upd_row_def by (rule map_cong) (use assms(2) that in \<open>auto simp: links_written_def\<close>)
    then show ?thesis using assms(2) that by (auto simp: upsert_relation_def links_written_def)
  qed
  show ?thesis
    using assms(1) idem by (auto simp: link_step_def Let_def bindE_Inr_iff split: if_splits)
qed

lemma link_fold_again:
  "foldE (link_step sha now p d x known) rs (seen, n, rows) = Inr (seen', n', rows') \<Longrightarrow> links_written sha d seen rows
   \<Longrightarrow> links_written sha d seen' final \<Longrightarrow> foldE (link_step sha now' p d x known) rs (seen, n, final) = Inr (seen', n', final)"
proof (induction rs arbitrary: seen n rows)
  case (Cons r rs)
  obtain s m q where step: "link_step sha now p d x known r (seen, n, rows) = Inr (s, m, q)"
    "foldE (link_step sha now p d x known) rs (s, m, q) = Inr (seen', n', rows')"
    using Cons.prems(1) by (auto simp: bindE_Inr_iff)
  have w: "links_written sha d s q" using link_step_written [OF step(1) Cons.prems(2)] by blast
  then have "set s \<subseteq> set seen'" using link_fold_written [OF step(2)] by blast
  then have "links_written sha d s final" using Cons.prems(3) unfolding links_written_def by blast
  then show ?case using link_step_again [OF step(1)] Cons.IH [OF step(2) w Cons.prems(3)] by simp
qed simp

lemma link_files_idem:
  assumes "link_files sha now p d x known rows = Inr (n, rows')"
  shows "link_files sha now' p d x known rows' = Inr (n, rows')"
proof -
  obtain seen where seen: "foldE (link_step sha now p d x known) (cx_links x) ([], 0, rows) = Inr (seen, n, rows')"
    using assms by (auto simp: link_files_def bindE_Inr_iff)
  have w: "links_written sha d [] rows" by (simp add: links_written_def)
  show ?thesis using link_fold_again [OF seen w] link_fold_written [OF seen w] by (simp add: link_files_def)
qed

text \<open>The rows a linking adds join known entities.\<close>

definition link_ok :: "string \<Rightarrow> string \<Rightarrow> string set \<Rightarrow> grelation list \<Rightarrow> grelation \<Rightarrow> bool" where
  "link_ok p d known rows r \<longleftrightarrow> (\<exists>q\<in>set rows. rl_id q = rl_id r \<and> rl_source r = rl_source q \<and> rl_target r = rl_target q
          \<and> rl_project r = rl_project q \<and> rl_dataset r = rl_dataset q)
     \<or> rl_source r \<in> known \<and> rl_target r \<in> known \<and> rl_source r \<noteq> rl_target r \<and> rl_project r = p \<and> rl_dataset r = d"

lemma link_ok_confidence [simp]: "link_ok p d known rows (r\<lparr>rl_confidence := c\<rparr>) = link_ok p d known rows r"
  by (simp add: link_ok_def)

definition links_ok :: "string \<Rightarrow> string \<Rightarrow> string set \<Rightarrow> grelation list \<Rightarrow> grelation list \<Rightarrow> bool" where
  "links_ok p d known rows rows' \<longleftrightarrow> distinct (map rl_id rows') \<and> set (map rl_id rows) \<subseteq> set (map rl_id rows')
     \<and> (\<forall>r\<in>set rows'. link_ok p d known rows r)"

lemma link_step_ok:
  assumes "links_ok p d known rows mid" "link_step sha now p d x known r (seen, n, mid) = Inr (seen', n', rows')"
  shows "links_ok p d known rows rows'"
  using assms(2)
proof (cases rule: link_step_cases)
  case skipped then show ?thesis using assms(1) by simp
next
  case (written s t v rs)
  from written(5) show ?thesis
  proof (cases rule: upsert_relation_cases)
    case old
    have rs: "rs = map (\<lambda>x. if rl_id x = link_key sha d (s, t, v) then x\<lparr>rl_confidence := 1\<rparr> else x) mid"
      using old(2) by (simp add: upd_row_def)
    have "map rl_id rs = map rl_id mid" by (simp add: rs)
    moreover have "link_ok p d known rows r" if r: "r \<in> set rs" for r
    proof -
      obtain m where m: "m \<in> set mid" "r = (if rl_id m = link_key sha d (s, t, v) then m\<lparr>rl_confidence := 1\<rparr> else m)"
        using r unfolding rs by auto
      have "link_ok p d known rows m" using assms(1) m(1) unfolding links_ok_def by blast
      then show ?thesis by (simp add: m(2))
    qed
    moreover have "rs = rows'" using written(6) by simp
    ultimately show ?thesis using assms(1) unfolding links_ok_def by metis
  next
    case new
    have rows': "rows' = mid @ [relation_row sha now p d s t v]" using new(2) written(6) by simp
    have "distinct (map rl_id rows')" using assms(1) new(1) unfolding rows' links_ok_def by simp
    moreover have "set (map rl_id rows) \<subseteq> set (map rl_id rows')" using assms(1) unfolding rows' links_ok_def by auto
    moreover have "link_ok p d known rows (relation_row sha now p d s t v)" using written(1-3) by (simp add: link_ok_def)
    then have "\<forall>r\<in>set rows'. link_ok p d known rows r" using assms(1) unfolding links_ok_def rows' by simp
    ultimately show ?thesis unfolding links_ok_def by blast
  qed
qed

lemma link_files_ok:
  assumes "link_files sha now p d x known rows = Inr (n, rows')" "distinct (map rl_id rows)"
  shows "links_ok p d known rows rows'"
proof -
  obtain seen where seen: "foldE (link_step sha now p d x known) (cx_links x) ([], 0, rows) = Inr (seen, n, rows')"
    using assms(1) by (auto simp: link_files_def bindE_Inr_iff)
  have "links_ok p d known rows (snd (snd (seen, n, rows')))"
  proof (rule foldE_invariant [OF seen, where P = "\<lambda>st. links_ok p d known rows (snd (snd st))"])
    show "links_ok p d known rows (snd (snd ([], 0, rows)))" using assms(2) by (auto simp: links_ok_def link_ok_def)
    fix r and st st' :: link_state
    assume "links_ok p d known rows (snd (snd st))" "link_step sha now p d x known r st = Inr st'"
    then show "links_ok p d known rows (snd (snd st'))" by (cases st; cases st') (auto intro: link_step_ok)
  qed
  then show ?thesis by simp
qed

section \<open>The graph\<close>

lemma same_rows_member:
  assumes "same_rows rows rows'" "e \<in> set rows"
  shows "\<exists>e'\<in>set rows'. en_id e' = en_id e \<and> en_project e' = en_project e \<and> en_dataset e' = en_dataset e"
  using assms unfolding same_rows_def by auto

lemma entities_graph_ok:
  assumes keys: "graph_keys g" "graph_refs g" "relations_scoped g p d" and up: "upsert_entities now p d xs (g_entities g) = Inr es"
  shows "graph_keys (g\<lparr>g_entities := es\<rparr>)" "graph_refs (g\<lparr>g_entities := es\<rparr>)" "relations_scoped (g\<lparr>g_entities := es\<rparr>) p d"
proof -
  have "distinct (map en_id (g_entities g))" using keys(1) by (simp add: graph_keys_def)
  note s = upsert_entities_step [OF up this]
  show "graph_keys (g\<lparr>g_entities := es\<rparr>)" using keys(1) s by (simp add: graph_keys_def)
  have ids: "en_id ` set (g_entities g) \<subseteq> en_id ` set es" using s by auto
  then have opt: "opt_in x (en_id ` set es)" if "opt_in x (en_id ` set (g_entities g))" for x
    using that by (cases x) auto
  show "graph_refs (g\<lparr>g_entities := es\<rparr>)" using keys(2) ids opt by (auto simp: graph_refs_def)
  show "relations_scoped (g\<lparr>g_entities := es\<rparr>) p d"
    unfolding relations_scoped_def
  proof (intro ballI impI)
    fix r assume "r \<in> set (g_relations (g\<lparr>g_entities := es\<rparr>))" and scope: "rl_project r = p \<and> rl_dataset r = d"
    then have "r \<in> set (g_relations g)" by simp
    from mp [OF bspec [OF keys(3) [unfolded relations_scoped_def] this] scope]
    obtain a b where a: "a \<in> set (g_entities g)" "en_id a = rl_source r" "en_project a = p" "en_dataset a = d"
      and b: "b \<in> set (g_entities g)" "en_id b = rl_target r" "en_project b = p" "en_dataset b = d" by blast
    obtain a' b' where "a' \<in> set es" "en_id a' = en_id a" "en_project a' = en_project a" "en_dataset a' = en_dataset a"
      "b' \<in> set es" "en_id b' = en_id b" "en_project b' = en_project b" "en_dataset b' = en_dataset b"
      using same_rows_member [of _ es] s a(1) b(1) by metis
    then show "\<exists>a\<in>set (g_entities (g\<lparr>g_entities := es\<rparr>)). \<exists>b\<in>set (g_entities (g\<lparr>g_entities := es\<rparr>)).
        en_id a = rl_source r \<and> en_id b = rl_target r \<and> en_project a = p \<and> en_dataset a = d \<and> en_project b = p \<and> en_dataset b = d"
      using a b by (intro bexI [of _ a'] bexI [of _ b']) simp_all
  qed
qed

lemma links_graph_ok:
  assumes keys: "graph_keys g" "graph_refs g" "relations_scoped g p d"
    and l: "link_files sha now p d x (set (dataset_entity_ids p d g)) (g_relations g) = Inr (n, rs)"
  shows "graph_keys (g\<lparr>g_relations := rs\<rparr>)" "graph_refs (g\<lparr>g_relations := rs\<rparr>)" "relations_scoped (g\<lparr>g_relations := rs\<rparr>) p d"
proof -
  have "distinct (map rl_id (g_relations g))" using keys(1) by (simp add: graph_keys_def)
  from link_files_ok [OF l this] have d: "distinct (map rl_id rs)" and ids: "rl_id ` set (g_relations g) \<subseteq> rl_id ` set rs"
    and row: "\<And>r. r \<in> set rs \<Longrightarrow> link_ok p d (set (dataset_entity_ids p d g)) (g_relations g) r"
    by (auto simp: links_ok_def)
  show "graph_keys (g\<lparr>g_relations := rs\<rparr>)" using keys(1) d by (simp add: graph_keys_def)
  have known: "\<exists>a\<in>set (g_entities g). en_id a = k \<and> en_project a = p \<and> en_dataset a = d" if "k \<in> set (dataset_entity_ids p d g)" for k
    using that by (auto simp: dataset_entity_ids_def)
  have ends: "rl_source r \<in> en_id ` set (g_entities g) \<and> rl_target r \<in> en_id ` set (g_entities g) \<and> rl_source r \<noteq> rl_target r"
    if r: "r \<in> set rs" for r
    using row [OF r] unfolding link_ok_def
  proof
    assume "\<exists>q\<in>set (g_relations g). rl_id q = rl_id r \<and> rl_source r = rl_source q \<and> rl_target r = rl_target q
          \<and> rl_project r = rl_project q \<and> rl_dataset r = rl_dataset q"
    then show ?thesis using keys(2) unfolding graph_refs_def by fastforce
  qed (auto simp: dataset_entity_ids_def)
  have opt: "opt_in x (rl_id ` set rs)" if "opt_in x (rl_id ` set (g_relations g))" for x
    using that ids by (cases x) auto
  show "graph_refs (g\<lparr>g_relations := rs\<rparr>)" using keys(2) ends opt by (auto simp: graph_refs_def)
  show "relations_scoped (g\<lparr>g_relations := rs\<rparr>) p d"
    unfolding relations_scoped_def
  proof (intro ballI impI)
    fix r assume "r \<in> set (g_relations (g\<lparr>g_relations := rs\<rparr>))" and scope: "rl_project r = p \<and> rl_dataset r = d"
    then have r: "r \<in> set rs" by simp
    show "\<exists>a\<in>set (g_entities (g\<lparr>g_relations := rs\<rparr>)). \<exists>b\<in>set (g_entities (g\<lparr>g_relations := rs\<rparr>)).
        en_id a = rl_source r \<and> en_id b = rl_target r \<and> en_project a = p \<and> en_dataset a = d \<and> en_project b = p \<and> en_dataset b = d"
      using row [OF r] unfolding link_ok_def
    proof
      assume "\<exists>q\<in>set (g_relations g). rl_id q = rl_id r \<and> rl_source r = rl_source q \<and> rl_target r = rl_target q
          \<and> rl_project r = rl_project q \<and> rl_dataset r = rl_dataset q"
      then obtain q where q: "q \<in> set (g_relations g)" "rl_source r = rl_source q" "rl_target r = rl_target q"
        "rl_project r = rl_project q" "rl_dataset r = rl_dataset q" by blast
      show ?thesis using mp [OF bspec [OF keys(3) [unfolded relations_scoped_def] q(1)]] scope q by simp
    next
      assume "rl_source r \<in> set (dataset_entity_ids p d g) \<and> rl_target r \<in> set (dataset_entity_ids p d g)
         \<and> rl_source r \<noteq> rl_target r \<and> rl_project r = p \<and> rl_dataset r = d"
      then obtain a b where "a \<in> set (g_entities g)" "en_id a = rl_source r" "en_project a = p" "en_dataset a = d"
        "b \<in> set (g_entities g)" "en_id b = rl_target r" "en_project b = p" "en_dataset b = d" using known by blast
      then show ?thesis by (intro bexI [of _ a] bexI [of _ b]) simp_all
    qed
  qed
qed

text \<open>The stages of an indexing.\<close>

lemma index_code_cases:
  assumes "index_code N env p d fs g adb = (r, g', adb')"
  obtains (entities) e where "r = Inl e" "g' = g" "adb' = adb"
    | (links) es e where "upsert_entities (cb_now env) p d (cx_entities (index_files (cb_code env) d fs)) (g_entities g) = Inr es"
        "r = Inl e" "g' = g\<lparr>g_entities := es\<rparr>" "adb' = adb"
    | (stored) es n rs where "upsert_entities (cb_now env) p d (cx_entities (index_files (cb_code env) d fs)) (g_entities g) = Inr es"
        "link_files (ki_sha (cb_code env)) (cb_now env) p d (index_files (cb_code env) d fs)
           (set (dataset_entity_ids p d (g\<lparr>g_entities := es\<rparr>))) (g_relations g) = Inr (n, rs)"
        "g' = g\<lparr>g_entities := es, g_relations := rs\<rparr>"
        "(\<exists>e. refresh_dataset_analytics N (ki_sha (cb_code env)) (cb_dumps env) (cb_run env) (cb_now env) g' p d adb = Inl e
            \<and> r = Inl e \<and> adb' = adb)
         \<or> (\<exists>run. refresh_dataset_analytics N (ki_sha (cb_code env)) (cb_dumps env) (cb_run env) (cb_now env) g' p d adb = Inr (run, adb')
            \<and> r = Inr (card (set (dataset_entity_ids p d (g\<lparr>g_entities := es\<rparr>))), n, ar_communities run))"
  using assms that by (auto simp: index_code_def Let_def split: sum.splits prod.splits)

lemma graph_updates_link:
  "(g\<lparr>g_entities := es\<rparr>)\<lparr>g_relations := rs\<rparr> = g\<lparr>g_entities := es, g_relations := rs\<rparr>"
  by simp

lemma index_code_graph:
  assumes "graph_keys g" "graph_refs g" "relations_scoped g p d" and run: "index_code N env p d fs g adb = (r, g', adb')"
  shows "graph_keys g' \<and> graph_refs g' \<and> relations_scoped g' p d"
  using run
proof (cases rule: index_code_cases)
  case entities then show ?thesis using assms by simp
next
  case (links es e) then show ?thesis using entities_graph_ok [OF assms(1-3) links(1)] by simp
next
  case (stored es n rs)
  note e = entities_graph_ok [OF assms(1-3) stored(1)]
  have "link_files (ki_sha (cb_code env)) (cb_now env) p d (index_files (cb_code env) d fs)
           (set (dataset_entity_ids p d (g\<lparr>g_entities := es\<rparr>))) (g_relations (g\<lparr>g_entities := es\<rparr>)) = Inr (n, rs)"
    using stored(2) by simp
  then show ?thesis using links_graph_ok [OF e] unfolding stored(3) by simp
qed

text \<open>A refresh that succeeded is repeated without an effect.\<close>

lemma refresh_repeat:
  assumes "refresh_dataset_analytics N sha dumps k now g p d adb = Inr (r, adb')"
  shows "refresh_dataset_analytics N sha dumps k' now' g p d adb' = Inr (r, adb')"
proof -
  let ?es = "analytics_entities g p d" and ?rs = "analytics_rows g p d"
  obtain res where res: "\<not> length ?es > MAX_ANALYTICS_ENTITIES" "\<not> length ?rs > MAX_ANALYTICS_RELATIONS"
    "analyze_graph N sha dumps ?es ?rs = Inr res"
    using assms by (auto simp: refresh_dataset_analytics_def Let_def bindE_Inr_iff split: if_splits)
  have "find (\<lambda>r. ar_project r = p \<and> ar_dataset r = d \<and> ar_hash r = rs_hash res) (a_runs adb') = Some r"
  proof (cases "find (\<lambda>r. ar_project r = p \<and> ar_dataset r = d \<and> ar_hash r = rs_hash res) (a_runs adb)")
    case None
    then have "r = analytics_run_row k now p d (length ?es) res" "a_runs adb' = a_runs adb @ [r]"
      using assms res by (auto simp: refresh_dataset_analytics_def Let_def bindE_Inr_iff split: if_splits)
    then show ?thesis using find_snoc [OF None, of r] by (simp add: analytics_run_row_def)
  next
    case (Some q) then show ?thesis using assms res by (simp add: refresh_dataset_analytics_def Let_def)
  qed
  then show ?thesis using res by (simp add: refresh_dataset_analytics_def Let_def)
qed

section \<open>Properties\<close>

text \<open>C10. Indexing code, however it ends, keeps the keys and the references of the graph, and every relation
  of the dataset joins two different entities of the same project and dataset.\<close>

theorem code_indexing_keeps_graph:
  assumes "graph_keys (co_graph c)" "graph_refs (co_graph c)" "relations_scoped (co_graph c) p (ir_dataset q)"
    and "ingest_codebase N env p q c adb = (r, c', adb')"
  shows "graph_keys (co_graph c') \<and> graph_refs (co_graph c') \<and> relations_scoped (co_graph c') p (ir_dataset q)"
proof (cases "ensure_dataset (cb_now env) p (ir_dataset q) (str_or (ir_name q) (ir_dataset q))
    (str_or (ir_description q) (''AST Knowledge Graph for '' @ str_or (ir_name q) (ir_dataset q))) (co_datasets c)")
  case (Inl e) then show ?thesis using assms by (simp add: ingest_codebase_def Let_def)
next
  case (Inr ds)
  obtain x g a where run: "index_code N env p (ir_dataset q) (ir_files q) (co_graph c) adb = (x, g, a)" by (metis prod_cases3)
  have "co_graph c' = g" using assms(4) Inr run by (auto simp: ingest_codebase_def Let_def split: sum.splits)
  then show ?thesis using index_code_graph [OF assms(1-3) run] by simp
qed


text \<open>The parts of a path that make the scan skip a file are those of its absolute path: in a directory
  that lies below a directory called \<open>build\<close>, \<open>dist\<close> or \<open>out\<close>, no file is indexed at all.\<close>

theorem scan_below_ignored_is_empty:
  assumes "\<exists>i\<in>set ignore_dirs. i \<in> set dir" "\<forall>e\<in>set es. starts_with dir (de_path e)"
    and "\<forall>e\<in>set es. \<exists>p. de_resolved e = Inr p"
  shows "scan_directory dir es = Inr []"
proof -
  have "scan_entry dir e = Inr None" if e: "e \<in> set es" for e
  proof -
    obtain rest where "de_path e = dir @ rest" using assms(2) e unfolding starts_with_take by (metis append_take_drop_id)
    then have "list_ex (\<lambda>i. i \<in> set (''/'' # de_path e)) ignore_dirs" using assms(1) by (auto simp: list_ex_iff)
    moreover obtain p where "de_resolved e = Inr p" using assms(3) e by blast
    ultimately show ?thesis by (simp add: scan_entry_def)
  qed
  then have "map_res (scan_entry dir) es = Inr (map (\<lambda>e. None) es)" by (rule map_res_Inr)
  moreover have "concat (map ((\<lambda>x. case x of None \<Rightarrow> [] | Some f \<Rightarrow> [f]) \<circ> (\<lambda>e. None)) es) = []" by (induction es) simp_all
  ultimately show ?thesis by (simp add: scan_directory_def del: concat_eq_Nil_conv)
qed

section \<open>Examples\<close>

text \<open>A file without symbols, in a new dataset.\<close>

definition demo_code_env :: code_env where
  "demo_code_env = \<lparr>cb_code = demo_code_io, cb_dumps = (\<lambda>es rs. concat es), cb_now = 1, cb_run = ''run''\<rparr>"

definition demo_request :: ingest_request where
  "demo_request = \<lparr>ir_dataset = ''ds_code'', ir_name = None, ir_description = None, ir_files = [\<lparr>fi_path = ''x'', fi_code = ''x''\<rparr>]\<rparr>"

lemma demo_rows:
  "case upsert_entities 1 ''p'' ''ds_code'' (cx_entities (index_files demo_code_io ''ds_code'' [\<lparr>fi_path = ''x'', fi_code = ''x''\<rparr>])) [] of
     Inl e \<Rightarrow> False
   | Inr es \<Rightarrow> length es < 9 \<and> list_all (\<lambda>e. en_project e = ''p'' \<and> en_dataset e = ''ds_code'') es
       \<and> (case link_files (\<lambda>s. s) 1 ''p'' ''ds_code'' (index_files demo_code_io ''ds_code'' [\<lparr>fi_path = ''x'', fi_code = ''x''\<rparr>])
            (set (map en_id es)) [] of Inl e \<Rightarrow> False | Inr (n, rs) \<Rightarrow> length rs < 9)"
  by code_simp

lemma empty_corpus_graph: "graph_keys (co_graph empty_corpus)" "graph_refs (co_graph empty_corpus)" "relations_scoped (co_graph empty_corpus) p d"
  by (simp_all add: empty_corpus_def empty_graph_def graph_keys_def graph_refs_def relations_scoped_def)

lemma demo_ingest_succeeds: "\<not> isl (fst (ingest_codebase plain_networkx demo_code_env ''p'' demo_request empty_corpus no_runs))"
proof -
  let ?fs = "[\<lparr>fi_path = ''x'', fi_code = ''x''\<rparr>]" and ?g = "co_graph empty_corpus"
  let ?x = "index_files demo_code_io ''ds_code'' ?fs"
  obtain es n rs where up: "upsert_entities 1 ''p'' ''ds_code'' (cx_entities ?x) [] = Inr es" and small: "length es < 9" "length rs < 9"
    and scope: "list_all (\<lambda>e. en_project e = ''p'' \<and> en_dataset e = ''ds_code'') es"
    and link: "link_files (\<lambda>s. s) 1 ''p'' ''ds_code'' ?x (set (map en_id es)) [] = Inr (n, rs)"
    using demo_rows by (auto split: sum.splits prod.splits)
  have "filter (\<lambda>e. en_project e = ''p'' \<and> en_dataset e = ''ds_code'') es = es"
    using scope by (auto simp: filter_id_conv list_all_iff)
  then have ids: "dataset_entity_ids ''p'' ''ds_code'' (?g\<lparr>g_entities := es\<rparr>) = map en_id es" by (simp add: dataset_entity_ids_def)
  have g: "g_entities ?g = []" "g_relations ?g = []" by (simp_all add: empty_corpus_def empty_graph_def)
  have "upsert_entities 1 ''p'' ''ds_code'' (cx_entities ?x) (g_entities ?g) = Inr es" using up g by simp
  note e = entities_graph_ok [OF empty_corpus_graph this]
  have "link_files (\<lambda>s. s) 1 ''p'' ''ds_code'' ?x (set (dataset_entity_ids ''p'' ''ds_code'' (?g\<lparr>g_entities := es\<rparr>)))
      (g_relations (?g\<lparr>g_entities := es\<rparr>)) = Inr (n, rs)" using link g ids by simp
  from links_graph_ok(3) [OF e this]
  have scoped: "relations_scoped (?g\<lparr>g_entities := es, g_relations := rs\<rparr>) ''p'' ''ds_code''" by simp
  have short: "length (filter P xs) \<le> n" if "length xs < 9" "9 \<le> n" for P n and xs :: "'x list"
    using that length_filter_le [of P xs] by linarith
  have "length (filter P es) \<le> MAX_ANALYTICS_ENTITIES" "length (filter Q rs) \<le> MAX_ANALYTICS_RELATIONS" for P Q
    by (rule short, use small in \<open>simp_all add: MAX_ANALYTICS_ENTITIES_def MAX_ANALYTICS_RELATIONS_def\<close>)+
  then have lim: "within_limits (?g\<lparr>g_entities := es, g_relations := rs\<rparr>) ''p'' ''ds_code''" by (simp add: within_limits_def)
  have fresh: "''run'' \<notin> ar_id ` set (a_runs no_runs)" by (simp add: no_runs_def)
  obtain x where refresh: "refresh_dataset_analytics plain_networkx (\<lambda>s. s) (\<lambda>es rs. concat es) ''run'' 1
      (?g\<lparr>g_entities := es, g_relations := rs\<rparr>) ''p'' ''ds_code'' no_runs = Inr x"
    by (rule refresh_cases [OF plain_networkx_ok lim scoped fresh, of "\<lambda>s. s" "\<lambda>es rs. concat es" 1]) blast+
  have ds: "ensure_dataset 1 ''p'' ''ds_code'' ''ds_code'' desc [] = Inr ds \<or> (\<exists>d. ensure_dataset 1 ''p'' ''ds_code'' ''ds_code'' desc [] = Inr d)" for desc ds
    by (simp add: ensure_dataset_def name_taken_def)
  obtain d where "ensure_dataset 1 ''p'' ''ds_code'' ''ds_code'' (''AST Knowledge Graph for '' @ ''ds_code'') [] = Inr d" using ds by blast
  then show ?thesis
    using up link refresh g ids
    by (cases x) (simp add: ingest_codebase_def index_code_def Let_def demo_request_def demo_code_env_def demo_code_io_def
        str_or_def empty_corpus_def)
qed

theorem code_indexing_keeps_graph_witness:
  "\<exists>r c' adb'. ingest_codebase plain_networkx demo_code_env ''p'' demo_request empty_corpus no_runs = (r, c', adb') \<and> \<not> isl r
     \<and> graph_refs (co_graph c')"
proof -
  obtain r c' adb' where i: "ingest_codebase plain_networkx demo_code_env ''p'' demo_request empty_corpus no_runs = (r, c', adb')"
    by (metis prod_cases3)
  have "\<not> isl r" using demo_ingest_succeeds unfolding i by simp
  then show ?thesis using i code_indexing_keeps_graph [OF empty_corpus_graph i] by blast
qed


theorem scan_below_ignored_is_empty_witness:
  "scan_directory [''srv'', ''build'', ''app''] [\<lparr>de_path = [''srv'', ''build'', ''app'', ''main.py''], de_file = True,
     de_resolved = Inr [''srv'', ''build'', ''app'', ''main.py''], de_text = Some ''x''\<rparr>] = Inr []"
  by (rule scan_below_ignored_is_empty) (simp_all add: ignore_dirs_def)

end
