(* ===== verification/GraphApi.thy ===== *)
theory GraphApi
  imports Analytics Pipeline Datasets
begin

text \<open>
  The endpoints of \<open>app/graph/api.py\<close> with the views of \<open>app/graph/schemas.py\<close>. An endpoint gets the
  committed tables, the project of the key and the parameters of the request, and returns the answer or
  the exception. The ranges the query parameters are validated against are separate predicates; the
  case folding of the database is that of the model's alphabet.
\<close>

section \<open>Views\<close>

record entity_view =
  ew_id :: string
  ew_dataset :: string
  ew_name :: string
  ew_type :: string
  ew_confidence :: rat
  ew_version :: int
  ew_review :: review_state
  ew_from :: int
  ew_until :: "int option"
  ew_superseded_by :: "string option"

definition entity_view_of :: "gentity \<Rightarrow> entity_view" where
  "entity_view_of e = \<lparr>ew_id = en_id e, ew_dataset = en_dataset e, ew_name = en_name e, ew_type = en_type e,
     ew_confidence = en_confidence e, ew_version = en_version e, ew_review = en_review e, ew_from = en_from e,
     ew_until = en_until e, ew_superseded_by = en_superseded_by e\<rparr>"

record path_view =
  pv_dataset :: string
  pv_source :: string
  pv_target :: string
  pv_found :: bool
  pv_hops :: nat
  pv_nodes :: "entity_view list"
  pv_relations :: "relation_view list"

record subgraph_view =
  sv_dataset :: string
  sv_root :: string
  sv_depth :: nat
  sv_nodes :: "entity_view list"
  sv_relations :: "relation_view list"

record neighbor_view =
  nv_relation :: relation_view
  nv_entity :: entity_view

record evidence_view =
  vw_citation :: citation
  vw_id :: string
  vw_run :: string
  vw_entity :: "string option"
  vw_relation :: "string option"
  vw_confidence :: rat
  vw_start :: "int option"
  vw_end :: "int option"

record run_view =
  uw_id :: string
  uw_dataset :: string
  uw_document :: string
  uw_chunk :: string
  uw_status :: run_status
  uw_provider :: string
  uw_model :: string
  uw_extractor :: string
  uw_prompt :: string
  uw_ontology :: "string option"
  uw_error :: "string option"
  uw_completed :: "int option"

record job_view =
  jw_id :: string
  jw_dataset :: string
  jw_document :: string
  jw_status :: job_status
  jw_attempt :: nat
  jw_max :: nat
  jw_error :: "string option"
  jw_provider :: string
  jw_model :: string
  jw_extractor :: string

record run_summary =
  aw_id :: string
  aw_dataset :: string
  aw_hash :: string
  aw_entities :: int
  aw_relations :: int
  aw_communities :: int
  aw_levels :: nat
  aw_algorithm :: string

definition run_summary_of :: "analytics_run \<Rightarrow> run_summary" where
  "run_summary_of r = \<lparr>aw_id = ar_id r, aw_dataset = ar_dataset r, aw_hash = ar_hash r, aw_entities = ar_entities r,
     aw_relations = ar_relations r, aw_communities = ar_communities r, aw_levels = ar_levels r, aw_algorithm = ar_algorithm r\<rparr>"

section \<open>Validation of the parameters\<close>

definition in_range :: "nat \<Rightarrow> nat \<Rightarrow> nat \<Rightarrow> bool" where
  "in_range lo hi n \<longleftrightarrow> lo \<le> n \<and> n \<le> hi"

definition valid_search_query :: "string \<Rightarrow> string option \<Rightarrow> nat \<Rightarrow> bool" where
  "valid_search_query q entity_type n \<longleftrightarrow> in_range 1 200 (length q)
     \<and> (case entity_type of None \<Rightarrow> True | Some t \<Rightarrow> in_range 1 100 (length t)) \<and> in_range 1 MAX_NEIGHBORS n"

definition valid_path_query :: "nat \<Rightarrow> nat \<Rightarrow> bool" where
  "valid_path_query max_depth relation_limit \<longleftrightarrow> in_range 1 MAX_PATH_DEPTH max_depth
     \<and> in_range 1 MAX_PATH_RELATIONS relation_limit"

definition valid_subgraph_query :: "nat \<Rightarrow> nat \<Rightarrow> nat \<Rightarrow> bool" where
  "valid_subgraph_query depth node_limit relation_limit \<longleftrightarrow> in_range 0 MAX_SUBGRAPH_DEPTH depth
     \<and> in_range 1 MAX_NODES node_limit \<and> in_range 1 MAX_SUBGRAPH_RELATIONS relation_limit"

section \<open>Entities\<close>

definition get_entity :: "graph_db \<Rightarrow> string \<Rightarrow> string \<Rightarrow> entity_view res" where
  "get_entity db project k = bindE (scoped_entity db project k) (\<lambda>e. Inr (entity_view_of e))"

definition alias_match :: "graph_db \<Rightarrow> string \<Rightarrow> string \<Rightarrow> string \<Rightarrow> gentity \<Rightarrow> bool" where
  "alias_match db project dataset term e \<longleftrightarrow>
     list_ex (\<lambda>a. as_entity a = en_id e \<and> as_project a = project \<and> as_dataset a = dataset
       \<and> py_contains (py_lower term) (py_lower (as_alias a))) (g_aliases db)"

definition search_match :: "graph_db \<Rightarrow> string \<Rightarrow> string \<Rightarrow> string \<Rightarrow> string option \<Rightarrow> int option \<Rightarrow> bool \<Rightarrow> gentity \<Rightarrow> bool" where
  "search_match db project dataset term entity_type as_of hist e \<longleftrightarrow>
     en_project e = project \<and> en_dataset e = dataset
     \<and> (py_contains (py_lower term) (py_lower (en_name e)) \<or> alias_match db project dataset term e)
     \<and> supported_entity db e \<and> temporal_entity as_of hist e
     \<and> (case entity_type of None \<Rightarrow> True | Some t \<Rightarrow> py_lower (en_type e) = py_lower (py_strip t))"

text \<open>The exact match first (\<open>False\<close> sorts before \<open>True\<close>), then by descending confidence, name and
  identifier.\<close>

definition search_entities :: "corpus \<Rightarrow> string \<Rightarrow> string \<Rightarrow> string \<Rightarrow> string option \<Rightarrow> nat \<Rightarrow> int option \<Rightarrow> bool
    \<Rightarrow> entity_view list res" where
  "search_entities c project dataset_id q entity_type n as_of hist =
     bindE (owned c project dataset_id) (\<lambda>ds.
       let term = py_strip q; db = co_graph c in
       if term = [] then Inl (HTTPException 422 ''search query must not be blank'')
       else Inr (map entity_view_of (limit n
         (order_by (\<lambda>e. (py_lower (en_name e) \<noteq> py_lower term, - en_confidence e, en_name e, en_id e))
           (filter (search_match db project (ds_id ds) term entity_type as_of hist) (g_entities db))))))"

section \<open>Walks\<close>

definition lookup_all :: "('k \<times> 'v) list \<Rightarrow> 'k list \<Rightarrow> 'v list res" where
  "lookup_all d ks = map_res (\<lambda>k. case map_of d k of None \<Rightarrow> Inl KeyError | Some v \<Rightarrow> Inr v) ks"

text \<open>\<open>path\<close>; None where \<open>path_ids\<close> does not return.\<close>

definition path_answer :: "graph_db \<Rightarrow> string \<Rightarrow> string \<Rightarrow> string \<Rightarrow> walk \<Rightarrow> string list \<times> string list \<Rightarrow> path_view res" where
  "path_answer db dataset source target w x = (case x of (es, ks) \<Rightarrow>
     bindE (lookup_all (wk_entities w) es) (\<lambda>nodes.
     bindE (lookup_all (wk_relations w) ks) (\<lambda>rels.
       Inr \<lparr>pv_dataset = dataset, pv_source = source, pv_target = target, pv_found = (es \<noteq> []), pv_hops = length ks,
            pv_nodes = map entity_view_of nodes, pv_relations = map (relation_view_of db) rels\<rparr>)))"

definition graph_path :: "corpus \<Rightarrow> string \<Rightarrow> string \<Rightarrow> string \<Rightarrow> string \<Rightarrow> nat \<Rightarrow> nat \<Rightarrow> path_view res option" where
  "graph_path c project dataset_id source target max_depth relation_limit =
     (let db = co_graph c in
      case bindE (owned c project dataset_id) (\<lambda>ds.
           bindE (scoped_dataset_entity db project (ds_id ds) source) (\<lambda>origin.
           bindE (scoped_dataset_entity db project (ds_id ds) target) (\<lambda>_. Inr (ds_id ds, origin)))) of
        Inl e \<Rightarrow> Some (Inl e)
      | Inr (dataset, origin) \<Rightarrow>
          let w = bounded_walk db project dataset origin max_depth MAX_NODES relation_limit (Some target) in
          map_option (\<lambda>r. bindE r (path_answer db dataset source target w)) (path_ids source target (wk_parents w)))"

definition subgraph :: "corpus \<Rightarrow> string \<Rightarrow> string \<Rightarrow> string \<Rightarrow> nat \<Rightarrow> nat \<Rightarrow> nat \<Rightarrow> subgraph_view res" where
  "subgraph c project dataset_id k depth node_limit relation_limit =
     (let db = co_graph c in
      bindE (owned c project dataset_id) (\<lambda>ds.
      bindE (scoped_dataset_entity db project (ds_id ds) k) (\<lambda>origin.
        let w = bounded_walk db project (ds_id ds) origin depth node_limit relation_limit None;
            included = map fst (wk_entities w);
            rows = filter (\<lambda>r. rl_source r \<in> set included \<and> rl_target r \<in> set included) (map snd (wk_relations w)) in
        Inr \<lparr>sv_dataset = ds_id ds, sv_root = k, sv_depth = depth, sv_nodes = map (entity_view_of \<circ> snd) (wk_entities w),
             sv_relations = map (relation_view_of db) rows\<rparr>)))"

text \<open>The relations are not filtered by their validity, the entities at their other ends are.\<close>

definition neighbor_rows :: "graph_db \<Rightarrow> string \<Rightarrow> gentity \<Rightarrow> nat \<Rightarrow> grelation list" where
  "neighbor_rows db project e n =
     limit n (order_by rl_id (filter (\<lambda>r. rl_project r = project \<and> rl_dataset r = en_dataset e
       \<and> (rl_source r = en_id e \<or> rl_target r = en_id e) \<and> supported_relation db r) (g_relations db)))"

definition neighbor_of :: "graph_db \<Rightarrow> string \<Rightarrow> gentity \<Rightarrow> grelation \<Rightarrow> neighbor_view list" where
  "neighbor_of db project e r =
     (let other = (if rl_source r = en_id e then rl_target r else rl_source r) in
      case find (\<lambda>x. en_id x = other \<and> en_project x = project \<and> en_dataset x = en_dataset e
          \<and> supported_entity db x \<and> temporal_entity None False x) (g_entities db) of
        None \<Rightarrow> []
      | Some x \<Rightarrow> [\<lparr>nv_relation = relation_view_of db r, nv_entity = entity_view_of x\<rparr>])"

definition neighbors :: "graph_db \<Rightarrow> string \<Rightarrow> string \<Rightarrow> nat \<Rightarrow> neighbor_view list res" where
  "neighbors db project k n =
     bindE (scoped_entity db project k) (\<lambda>e. Inr (concat (map (neighbor_of db project e) (neighbor_rows db project e n))))"

section \<open>Summaries and analytics\<close>

definition refresh_endpoint :: "('g, 'h) networkx \<Rightarrow> (string \<Rightarrow> string) \<Rightarrow> (string list \<Rightarrow> (string \<times> string \<times> rat) list \<Rightarrow> string)
    \<Rightarrow> string \<Rightarrow> int \<Rightarrow> corpus \<Rightarrow> string \<Rightarrow> string \<Rightarrow> analytics_db \<Rightarrow> run_summary res \<times> analytics_db" where
  "refresh_endpoint N sha dumps run_id now c project dataset_id adb =
     (case owned c project dataset_id of
        Inl e \<Rightarrow> (Inl e, adb)
      | Inr ds \<Rightarrow> map_prod (\<lambda>r. bindE r (\<lambda>run. Inr (run_summary_of run))) id
          (refresh_analytics N sha dumps run_id now (co_graph c) project (ds_id ds) adb))"

definition graph_endpoint :: "corpus \<Rightarrow> string \<Rightarrow> string \<Rightarrow> nat \<Rightarrow> nat \<Rightarrow> int option \<Rightarrow> bool \<Rightarrow> graph_summary res" where
  "graph_endpoint c project dataset_id n depth as_of hist =
     bindE (owned c project dataset_id) (\<lambda>ds. Inr (build_dataset_graph (co_graph c) project (ds_id ds) n depth as_of hist))"

definition explorer_endpoint :: "(string list \<Rightarrow> (string \<times> string \<times> rat) list \<Rightarrow> string) \<Rightarrow> corpus \<Rightarrow> analytics_db
    \<Rightarrow> string \<Rightarrow> string \<Rightarrow> nat \<Rightarrow> nat \<Rightarrow> nat \<Rightarrow> explorer_view res" where
  "explorer_endpoint snapshot_hash c adb project dataset_id node_limit relation_limit level =
     bindE (owned c project dataset_id) (\<lambda>ds.
       Inr (build_explorer_view snapshot_hash (co_graph c) adb project (ds_id ds) node_limit relation_limit level))"

definition explorer_nodes_endpoint :: "corpus \<Rightarrow> analytics_db \<Rightarrow> string \<Rightarrow> string \<Rightarrow> string option \<Rightarrow> nat \<Rightarrow> nat
    \<Rightarrow> (explorer_node list \<times> string option) res" where
  "explorer_nodes_endpoint c adb project dataset_id cursor n level =
     bindE (owned c project dataset_id) (\<lambda>ds.
       Inr (build_explorer_node_page (co_graph c) adb project (ds_id ds) cursor n level))"

definition explorer_relations_endpoint :: "corpus \<Rightarrow> string \<Rightarrow> string \<Rightarrow> string option \<Rightarrow> nat
    \<Rightarrow> (explorer_relation list \<times> string option) res" where
  "explorer_relations_endpoint c project dataset_id cursor n =
     bindE (owned c project dataset_id) (\<lambda>ds. Inr (list_explorer_relations (co_graph c) project (ds_id ds) cursor n))"

section \<open>Evidence\<close>

definition evidence_view_of :: "gevidence \<Rightarrow> jobj option \<Rightarrow> evidence_view" where
  "evidence_view_of v location =
     \<lparr>vw_citation = \<lparr>ct_dataset = gv_dataset v, ct_document = gv_document v, ct_chunk = gv_chunk v, ct_quote = gv_quote v,
        ct_location = location\<rparr>,
      vw_id = gv_id v, vw_run = gv_run v, vw_entity = gv_entity v, vw_relation = gv_relation v,
      vw_confidence = gv_confidence v, vw_start = gv_start v, vw_end = gv_end v\<rparr>"

definition read_evidence :: "graph_db \<Rightarrow> string \<Rightarrow> string \<Rightarrow> evidence_view res" where
  "read_evidence db project k =
     (case find (\<lambda>v. gv_id v = k \<and> gv_project v = project) (g_evidence db) of
        None \<Rightarrow> Inl (HTTPException 404 ''evidence not found'')
      | Some v \<Rightarrow> Inr (evidence_view_of v
          (case get_row ck_id (gv_chunk v) (g_chunks db) of None \<Rightarrow> None | Some ck \<Rightarrow> source_location (ck_metadata ck))))"

definition cited_rows :: "graph_db \<Rightarrow> string \<Rightarrow> string \<Rightarrow> string \<Rightarrow> (gevidence \<times> chunk) list" where
  "cited_rows db project dataset relation_id =
     concat (map (\<lambda>v. map (Pair v) (filter (\<lambda>ck. ck_id ck = gv_chunk v \<and> ck_project ck = gv_project v
         \<and> ck_dataset ck = gv_dataset v) (g_chunks db)))
       (filter (\<lambda>v. gv_relation v = Some relation_id \<and> gv_project v = project \<and> gv_dataset v = dataset) (g_evidence db)))"

definition relation_evidence :: "corpus \<Rightarrow> string \<Rightarrow> string \<Rightarrow> string \<Rightarrow> nat \<Rightarrow> evidence_view list res" where
  "relation_evidence c project dataset_id relation_id n =
     (let db = co_graph c in
      bindE (owned c project dataset_id) (\<lambda>ds.
        case find (\<lambda>r. rl_id r = relation_id \<and> rl_project r = project \<and> rl_dataset r = ds_id ds \<and> supported_relation db r)
            (g_relations db) of
          None \<Rightarrow> Inl (HTTPException 404 ''relation not found'')
        | Some r \<Rightarrow> Inr (map (\<lambda>(v, ck). evidence_view_of v (source_location (ck_metadata ck)))
            (limit n (order_by (\<lambda>(v, ck). gv_id v) (cited_rows db project (ds_id ds) relation_id))))))"

section \<open>Runs and jobs\<close>

definition read_run :: "grun list \<Rightarrow> string \<Rightarrow> string \<Rightarrow> run_view res" where
  "read_run rows project k =
     (case find (\<lambda>r. gr_id r = k \<and> gr_project r = project) rows of
        None \<Rightarrow> Inl (HTTPException 404 ''graph run not found'')
      | Some r \<Rightarrow> Inr \<lparr>uw_id = gr_id r, uw_dataset = gr_dataset r, uw_document = gr_document r, uw_chunk = gr_chunk r,
          uw_status = gr_status r, uw_provider = gr_provider r, uw_model = gr_model r, uw_extractor = gr_extractor r,
          uw_prompt = gr_prompt r, uw_ontology = gr_ontology r, uw_error = gr_error r, uw_completed = gr_completed r\<rparr>)"

definition read_job :: "gjob list \<Rightarrow> string \<Rightarrow> string \<Rightarrow> job_view res" where
  "read_job rows project k =
     (case find (\<lambda>j. gj_id j = k \<and> gj_project j = project) rows of
        None \<Rightarrow> Inl (HTTPException 404 ''graph job not found'')
      | Some j \<Rightarrow> Inr \<lparr>jw_id = gj_id j, jw_dataset = gj_dataset j, jw_document = gj_document j, jw_status = gj_status j,
          jw_attempt = gj_attempt j, jw_max = gj_max j, jw_error = gj_error j, jw_provider = gj_provider j,
          jw_model = gj_model j, jw_extractor = gj_extractor j\<rparr>)"

section \<open>Review\<close>

definition set_review :: "string \<Rightarrow> review_state \<Rightarrow> graph_db \<Rightarrow> graph_db" where
  "set_review k st db = db\<lparr>g_relations := upd_row rl_id k (\<lambda>r. r\<lparr>rl_review := st\<rparr>) (g_relations db)\<rparr>"

definition review_relation :: "string \<Rightarrow> string \<Rightarrow> review_state \<Rightarrow> graph_db \<Rightarrow> relation_view res \<times> graph_db" where
  "review_relation project k st db =
     (case find (\<lambda>r. rl_id r = k \<and> rl_project r = project) (g_relations db) of
        None \<Rightarrow> (Inl (HTTPException 404 ''relation not found''), db)
      | Some r \<Rightarrow>
          if rl_review r \<in> {Approved, Rejected} \<or> st \<notin> {Approved, Rejected}
          then (Inl (HTTPException 409 ''invalid review transition''), db)
          else (let db' = set_review k st db in (Inr (relation_view_of db' (r\<lparr>rl_review := st\<rparr>)), db')))"

end
