(* ===== verification/WalkComplete.thy ===== *)
theory WalkComplete
  imports GraphWalk
begin

text \<open>
  The walk against its specification: the entities within so many hops of the root, over the current
  supported relations of the dataset. Where no relation leads out of the visible entities and no limit is
  reached, the walk finds exactly these entities.
\<close>

section \<open>Specification\<close>

definition hop_between :: "graph_db \<Rightarrow> string \<Rightarrow> string \<Rightarrow> string \<Rightarrow> string \<Rightarrow> bool" where
  "hop_between db p s a b \<longleftrightarrow> (\<exists>r. good_relation db p s r
     \<and> (rl_source r = a \<and> rl_target r = b \<or> rl_source r = b \<and> rl_target r = a))"

fun reach :: "graph_db \<Rightarrow> string \<Rightarrow> string \<Rightarrow> string \<Rightarrow> nat \<Rightarrow> string set" where
  "reach db p s a 0 = {a}"
| "reach db p s a (Suc n) = reach db p s a n \<union> {b. \<exists>k\<in>reach db p s a n. hop_between db p s k b}"

text \<open>No relation leads to an entity that is hidden.\<close>

definition visible_end :: "graph_db \<Rightarrow> string \<Rightarrow> string \<Rightarrow> gentity \<Rightarrow> string \<Rightarrow> bool" where
  "visible_end db p s origin k \<longleftrightarrow> k = en_id origin \<or> (\<exists>e. good_entity db p s e \<and> en_id e = k)"

definition ends_visible :: "graph_db \<Rightarrow> string \<Rightarrow> string \<Rightarrow> gentity \<Rightarrow> bool" where
  "ends_visible db p s origin \<longleftrightarrow> (\<forall>r\<in>set (g_relations db). good_relation db p s r
     \<longrightarrow> visible_end db p s origin (rl_source r) \<and> visible_end db p s origin (rl_target r))"

lemma reach_mono: "m \<le> n \<Longrightarrow> reach db p s a m \<subseteq> reach db p s a n"
  by (induction n) (auto simp: le_Suc_eq)

section \<open>Sizes only grow\<close>

lemma length_update_le: "length d \<le> length (AList.update k v d)"
  by (induction d) auto

lemma length_update_new: "\<not> in_dict k d \<Longrightarrow> length (AList.update k v d) = Suc (length d)"
  by (induction d) auto

lemma visit_grows:
  "length (wk_entities w) \<le> length (wk_entities (visit fr cs r w))"
  "length (wk_relations w) \<le> length (wk_relations (visit fr cs r w))"
  by (simp_all add: visit_def Let_def length_update_le)

lemma walk_level_grows:
  "length (wk_entities w) \<le> length (wk_entities (snd (walk_level nl tgt fr cs rows w)))
   \<and> length (wk_relations w) \<le> length (wk_relations (snd (walk_level nl tgt fr cs rows w)))"
proof (induction nl tgt fr cs rows w rule: walk_level.induct)
  case (2 nl tgt fr cs r rows w)
  then show ?case using visit_grows [of w fr cs r] by (auto simp: Let_def intro: le_trans)
qed simp

lemma walk_loop_grows:
  "length (wk_entities w) \<le> length (wk_entities (walk_loop db p s nl rl tgt depth fr w))
   \<and> length (wk_relations w) \<le> length (wk_relations (walk_loop db p s nl rl tgt depth fr w))"
proof (induction depth arbitrary: fr w)
  case (Suc depth)
  let ?rows = "walk_rows_of db p s fr (wk_relations w) rl"
  let ?cs = "walk_candidates db p s (wk_entities w) ?rows"
  obtain b w' where l: "walk_level nl tgt fr ?cs ?rows (w\<lparr>wk_next := []\<rparr>) = (b, w')" by fastforce
  have "length (wk_entities w) \<le> length (wk_entities w') \<and> length (wk_relations w) \<le> length (wk_relations w')"
    using walk_level_grows [of "w\<lparr>wk_next := []\<rparr>" nl tgt fr ?cs ?rows] l by simp
  then show ?case using Suc.IH [of w' "wk_next w'"] by (auto simp: Let_def l split: bool.splits)
qed simp

section \<open>A level that skips nothing\<close>

text \<open>What a level does when every row has known ends and no limit is reached.\<close>

definition level_done :: "grelation list \<Rightarrow> walk \<Rightarrow> walk \<Rightarrow> bool" where
  "level_done rows w w' \<longleftrightarrow>
     (\<forall>k. in_dict k (wk_entities w') \<longleftrightarrow> in_dict k (wk_entities w) \<or> (\<exists>r\<in>set rows. k = rl_source r \<or> k = rl_target r))
     \<and> (\<forall>q. in_dict q (wk_relations w') \<longleftrightarrow> in_dict q (wk_relations w) \<or> q \<in> rl_id ` set rows)
     \<and> length (wk_relations w') = length (wk_relations w) + length rows
     \<and> set (wk_next w) \<subseteq> set (wk_next w')
     \<and> (\<forall>k. in_dict k (wk_entities w') \<and> \<not> in_dict k (wk_entities w) \<longrightarrow> k \<in> set (wk_next w'))"

lemma visit_done:
  assumes "rl_source r \<in> set fr \<or> rl_target r \<in> set fr" "\<forall>k\<in>set fr. in_dict k (wk_entities w)"
    and "\<not> in_dict (rl_id r) (wk_relations w)"
  shows "level_done [r] w (visit fr cs r w)"
  using assms by (auto simp: level_done_def visit_def Let_def length_update_new)

lemma level_done_Cons:
  assumes "level_done [r] w v" "level_done rows v w'"
  shows "level_done (r # rows) w w'"
proof -
  have "k \<in> set (wk_next w')" if "in_dict k (wk_entities w')" "\<not> in_dict k (wk_entities w)" for k
  proof (cases "in_dict k (wk_entities v)")
    case True
    then have "k \<in> set (wk_next v)" using assms(1) that(2) unfolding level_done_def by blast
    then show ?thesis using assms(2) unfolding level_done_def by blast
  next
    case False
    then show ?thesis using assms(2) that(1) unfolding level_done_def by blast
  qed
  then have new: "\<forall>k. in_dict k (wk_entities w') \<and> \<not> in_dict k (wk_entities w) \<longrightarrow> k \<in> set (wk_next w')" by blast
  have ents: "in_dict k (wk_entities w') \<longleftrightarrow> in_dict k (wk_entities w) \<or> (\<exists>x\<in>set (r # rows). k = rl_source x \<or> k = rl_target x)" for k
    using assms unfolding level_done_def by simp
  have rels: "in_dict q (wk_relations w') \<longleftrightarrow> in_dict q (wk_relations w) \<or> q \<in> rl_id ` set (r # rows)" for q
    using assms unfolding level_done_def by simp
  have "length (wk_relations w') = length (wk_relations w) + length (r # rows)" "set (wk_next w) \<subseteq> set (wk_next w')"
    using assms unfolding level_done_def by auto
  then show ?thesis unfolding level_done_def using new ents rels by blast
qed

lemma walk_level_complete:
  assumes "walk_level nl tgt fr cs rows w = (b, w')" "length (wk_entities w') < nl"
    and "\<forall>r\<in>set rows. rl_source r \<in> set fr \<or> rl_target r \<in> set fr"
    and "\<forall>k\<in>set fr. in_dict k (wk_entities w)"
    and "\<forall>r\<in>set rows. (in_dict (rl_source r) (wk_entities w) \<or> in_dict (rl_source r) cs)
      \<and> (in_dict (rl_target r) (wk_entities w) \<or> in_dict (rl_target r) cs)"
    and "distinct (map rl_id rows)" "\<forall>r\<in>set rows. \<not> in_dict (rl_id r) (wk_relations w)"
  shows "if b then (\<exists>t. tgt = Some t \<and> in_dict t (wk_entities w')) else level_done rows w w'"
  using assms
proof (induction nl tgt fr cs rows w rule: walk_level.induct)
  case (1 nl tgt fr cs w)
  then show ?case by (auto simp: level_done_def)
next
  case (2 nl tgt fr cs r rows w)
  note IH = 2(3) and asm = 2(4-10)
  define new where "new = (if rl_source r \<in> set fr then rl_target r else rl_source r)"
  let ?w = "visit fr cs r w"
  have first: "level_done [r] w ?w" by (rule visit_done) (use asm(3,4,7) in auto)
  have known: "in_dict (rl_source r) (wk_entities w) \<or> in_dict (rl_source r) cs"
    "in_dict (rl_target r) (wk_entities w) \<or> in_dict (rl_target r) cs" using asm(5) by auto
  have grows: "length (wk_entities w) \<le> length (wk_entities w')"
    using walk_level_grows [of w nl tgt fr cs "r # rows"] asm(1) by simp
  have room: "\<not> (\<not> in_dict new (wk_entities w) \<and> nl \<le> length (wk_entities w))" using grows asm(2) by simp
  have level: "walk_level nl tgt fr cs (r # rows) w = (if Some new = tgt then (True, ?w) else walk_level nl tgt fr cs rows ?w)"
    using known room by (auto simp: Let_def new_def)
  have seen: "in_dict k (wk_entities ?w)" if "in_dict k (wk_entities w)" for k using that by (rule visit_keeps)
  show ?case
  proof (cases "Some new = tgt")
    case True
    then have "b" "w' = ?w" using asm(1) [unfolded level] by simp_all
    moreover have "in_dict new (wk_entities ?w)" using first by (auto simp: level_done_def new_def)
    ultimately show ?thesis using True by auto
  next
    case False
    then have step: "walk_level nl tgt fr cs rows ?w = (b, w')" using asm(1) [unfolded level] by simp
    have rels: "in_dict q (wk_relations ?w) \<longleftrightarrow> in_dict q (wk_relations w) \<or> q = rl_id r" for q
      using first by (auto simp: level_done_def)
    have "if b then (\<exists>t. tgt = Some t \<and> in_dict t (wk_entities w')) else level_done rows ?w w'"
      by (rule IH [OF refl refl]) (use known room False step asm(2-7) seen rels in \<open>auto simp: new_def image_iff\<close>)
    then show ?thesis using level_done_Cons [OF first] by (auto split: if_splits)
  qed
qed

section \<open>The loop\<close>

definition found_upto :: "graph_db \<Rightarrow> string \<Rightarrow> string \<Rightarrow> string \<Rightarrow> nat \<Rightarrow> string list \<Rightarrow> walk \<Rightarrow> bool" where
  "found_upto db p s a d fr w \<longleftrightarrow> (\<forall>k. in_dict k (wk_entities w) \<longleftrightarrow> k \<in> reach db p s a d)
     \<and> (\<forall>k r. in_dict k (wk_entities w) \<and> k \<notin> set fr \<and> good_relation db p s r \<and> (rl_source r = k \<or> rl_target r = k)
          \<longrightarrow> in_dict (rl_id r) (wk_relations w))"

lemma walk_relation_ends:
  assumes "walk_ok db p s origin nl rl d w" "distinct (map rl_id (g_relations db))"
    and "good_relation db p s r" "in_dict (rl_id r) (wk_relations w)"
  shows "in_dict (rl_source r) (wk_entities w) \<and> in_dict (rl_target r) (wk_entities w)"
proof -
  obtain x where x: "x \<in> set (wk_relations w)" "fst x = rl_id r" using assms(4) by (auto simp: in_dict_iff)
  then have "rl_id (snd x) = rl_id r" "snd x \<in> set (g_relations db)"
    "in_dict (rl_source (snd x)) (wk_entities w)" "in_dict (rl_target (snd x)) (wk_entities w)"
    using assms(1) by (auto simp: walk_ok_def good_relation_def)
  moreover from this have "snd x = r" using assms(2,3) by (simp add: distinct_map inj_on_def good_relation_def)
  ultimately show ?thesis by simp
qed

text \<open>Where all known entities are settled, nothing more is reached.\<close>

lemma settled_reach:
  assumes "walk_ok db p s origin nl rl d w" "distinct (map rl_id (g_relations db))" "found_upto db p s a m [] w" "m \<le> n"
  shows "reach db p s a n = reach db p s a m"
  using assms(4)
proof (induction n)
  case (Suc n)
  show ?case
  proof (cases "m = Suc n")
    case False
    then have IH: "reach db p s a n = reach db p s a m" using Suc by simp
    have "b \<in> reach db p s a m" if "k \<in> reach db p s a m" "hop_between db p s k b" for k b
    proof -
      obtain r where r: "good_relation db p s r" "rl_source r = k \<and> rl_target r = b \<or> rl_source r = b \<and> rl_target r = k"
        using \<open>hop_between db p s k b\<close> unfolding hop_between_def by blast
      have "in_dict k (wk_entities w)" using assms(3) that(1) by (simp add: found_upto_def)
      then have "in_dict (rl_id r) (wk_relations w)" using assms(3) r by (auto simp: found_upto_def)
      from walk_relation_ends [OF assms(1,2) r(1) this] r(2) assms(3) show ?thesis by (auto simp: found_upto_def)
    qed
    then show ?thesis using IH by auto
  qed simp
qed simp

text \<open>The rows of a level, when the limit does not cut them.\<close>

lemma walk_rows_iff:
  assumes "length rels + length (walk_rows_of db p s fr rels rl) < rl"
  shows "r \<in> set (walk_rows_of db p s fr rels rl) \<longleftrightarrow>
     good_relation db p s r \<and> (rl_source r \<in> set fr \<or> rl_target r \<in> set fr) \<and> \<not> in_dict (rl_id r) rels"
proof -
  let ?all = "order_by rl_id (filter (\<lambda>r. walk_filter db p s fr r \<and> \<not> in_dict (rl_id r) rels) (g_relations db))"
  have "length ?all \<le> rl - length rels" using assms by (simp add: walk_rows_of_def limit_def)
  then have "walk_rows_of db p s fr rels rl = ?all" by (simp add: walk_rows_of_def limit_def)
  then show ?thesis by (auto simp: order_by_def walk_filter_def good_relation_def)
qed

lemma walk_rows_distinct:
  assumes "distinct (map rl_id (g_relations db))"
  shows "distinct (map rl_id (walk_rows_of db p s fr rels rl))"
    "r \<in> set (walk_rows_of db p s fr rels rl) \<Longrightarrow> \<not> in_dict (rl_id r) rels"
proof -
  let ?P = "\<lambda>r. walk_filter db p s fr r \<and> \<not> in_dict (rl_id r) rels"
  have "distinct (map rl_id (filter ?P (g_relations db)))" using assms by (rule distinct_map_filter)
  then have "distinct (map rl_id (order_by rl_id (filter ?P (g_relations db))))"
    by (simp add: order_by_def distinct_map)
  then show "distinct (map rl_id (walk_rows_of db p s fr rels rl))"
    by (simp add: walk_rows_of_def limit_def take_map [symmetric])
  show "\<not> in_dict (rl_id r) rels" if "r \<in> set (walk_rows_of db p s fr rels rl)"
    using that set_limit by (fastforce simp: walk_rows_of_def order_by_def)
qed

text \<open>With visible ends the candidates of a level cover the ends of its rows.\<close>

lemma candidates_cover:
  assumes "ends_visible db p s origin" "in_dict (en_id origin) ents"
    and "r \<in> set rows" "good_relation db p s r" "k = rl_source r \<or> k = rl_target r"
  shows "in_dict k ents \<or> in_dict k (walk_candidates db p s ents rows)"
proof (cases "in_dict k ents")
  case False
  then have "k \<noteq> en_id origin" using assms(2) by auto
  moreover have "visible_end db p s origin k"
    using assms(1,4,5) unfolding ends_visible_def good_relation_def by blast
  ultimately obtain e where e: "good_entity db p s e" "en_id e = k" by (auto simp: visible_end_def)
  have "k \<in> set (filter (\<lambda>k. \<not> in_dict k ents) (concat (map (\<lambda>r. [rl_source r, rl_target r]) rows)))"
    using False assms(3,5) by auto
  then have "(k, e) \<in> set (walk_candidates db p s ents rows)"
    using e by (auto simp: walk_candidates_def Let_def good_entity_def)
  then show ?thesis by (force simp: in_dict_iff)
qed simp

text \<open>One level takes the walk from one depth to the next.\<close>

lemma level_found:
  assumes ok: "walk_ok db p s origin nl rl d w" and keys: "distinct (map rl_id (g_relations db))"
    and f: "found_upto db p s (en_id origin) d fr w"
    and rows: "\<And>r. r \<in> set rows \<longleftrightarrow> good_relation db p s r \<and> (rl_source r \<in> set fr \<or> rl_target r \<in> set fr)
      \<and> \<not> in_dict (rl_id r) (wk_relations w)"
    and dn: "level_done rows w w'" and fr: "\<forall>k\<in>set fr. in_dict k (wk_entities w)"
  shows "found_upto db p s (en_id origin) (Suc d) (wk_next w') w'"
proof -
  let ?R = "reach db p s (en_id origin)"
  have ents: "in_dict k (wk_entities w) \<longleftrightarrow> k \<in> ?R d" for k using f by (simp add: found_upto_def)
  have ends: "rl_source r \<in> ?R (Suc d) \<and> rl_target r \<in> ?R (Suc d)" if "r \<in> set rows" for r
  proof -
    have r: "good_relation db p s r" "rl_source r \<in> ?R d \<or> rl_target r \<in> ?R d"
      using that rows fr ents by blast+
    then have "hop_between db p s (rl_source r) (rl_target r)" "hop_between db p s (rl_target r) (rl_source r)"
      unfolding hop_between_def by blast+
    then show ?thesis using r(2) by auto
  qed
  have there: "in_dict (rl_source r) (wk_entities w') \<and> in_dict (rl_target r) (wk_entities w')
      \<and> in_dict (rl_id r) (wk_relations w')"
    if "good_relation db p s r" "rl_source r = k \<or> rl_target r = k" "in_dict k (wk_entities w)" for r k
  proof (cases "in_dict (rl_id r) (wk_relations w)")
    case True
    then show ?thesis using walk_relation_ends [OF ok keys that(1)] dn unfolding level_done_def by blast
  next
    case False
    then have "k \<in> set fr" using f that unfolding found_upto_def by blast
    then have "r \<in> set rows" using rows that False by blast
    then show ?thesis using dn unfolding level_done_def by blast
  qed
  have "in_dict k (wk_entities w') \<longleftrightarrow> k \<in> ?R (Suc d)" for k
  proof
    assume "in_dict k (wk_entities w')"
    then show "k \<in> ?R (Suc d)" using dn ents ends unfolding level_done_def by auto
  next
    assume "k \<in> ?R (Suc d)"
    then consider "k \<in> ?R d" | a where "a \<in> ?R d" "hop_between db p s a k" by auto
    then show "in_dict k (wk_entities w')"
    proof cases
      case 1 then show ?thesis using ents dn unfolding level_done_def by blast
    next
      case 2
      then obtain r where "good_relation db p s r" "rl_source r = a \<and> rl_target r = k \<or> rl_source r = k \<and> rl_target r = a"
        unfolding hop_between_def by blast
      then show ?thesis using there [of r a] 2(1) ents by auto
    qed
  qed
  moreover have "in_dict (rl_id r) (wk_relations w')"
    if "in_dict k (wk_entities w')" "k \<notin> set (wk_next w')" "good_relation db p s r" "rl_source r = k \<or> rl_target r = k" for k r
    using there [OF that(3,4)] that(1,2) dn unfolding level_done_def by blast
  ultimately show ?thesis unfolding found_upto_def by blast
qed

lemma walk_loop_complete:
  assumes "walk_ok db p s origin nl rl d w" and keys: "distinct (map rl_id (g_relations db))" and vis: "ends_visible db p s origin"
    and "found_upto db p s (en_id origin) d fr w" "\<forall>k\<in>set fr. in_dict k (wk_entities w)" "length (wk_relations w) \<le> rl"
    and "length (wk_entities (walk_loop db p s nl rl tgt depth fr w)) < nl"
      "length (wk_relations (walk_loop db p s nl rl tgt depth fr w)) < rl"
  shows "(\<exists>t. tgt = Some t \<and> in_dict t (wk_entities (walk_loop db p s nl rl tgt depth fr w)))
    \<or> (\<forall>k. in_dict k (wk_entities (walk_loop db p s nl rl tgt depth fr w)) \<longleftrightarrow> k \<in> reach db p s (en_id origin) (d + depth))"
  using assms(1,4-8)
proof (induction depth arbitrary: d fr w)
  case 0
  then show ?case by (simp add: found_upto_def)
next
  case (Suc depth)
  let ?loop = "walk_loop db p s nl rl tgt"
  let ?w = "w\<lparr>wk_next := []\<rparr>"
  let ?rows = "walk_rows_of db p s fr (wk_relations w) rl"
  let ?cs = "walk_candidates db p s (wk_entities w) ?rows"
  obtain b w' where l: "walk_level nl tgt fr ?cs ?rows ?w = (b, w')" by fastforce
  have small: "length (wk_entities w) < nl" "length (wk_relations w) < rl"
    using le_less_trans [OF conjunct1 [OF walk_loop_grows] Suc.prems(5)] le_less_trans [OF conjunct2 [OF walk_loop_grows] Suc.prems(6)]
    by blast+
  show ?case
  proof (cases "fr = []")
    case True
    then have "reach db p s (en_id origin) (d + Suc depth) = reach db p s (en_id origin) d"
      using settled_reach [OF Suc.prems(1) keys, of "en_id origin" d "d + Suc depth"] Suc.prems(2) by simp
    then show ?thesis using True Suc.prems(2) by (simp add: found_upto_def)
  next
    case False
    then have loop: "?loop (Suc depth) fr w = (if b then w' else ?loop depth (wk_next w') w')"
      using small by (simp add: l Let_def)
    have small': "length (wk_entities w') < nl" "length (wk_relations w') < rl"
      using walk_loop_grows [of w' db p s nl rl tgt depth "wk_next w'"] Suc.prems(5,6) loop by (auto split: if_splits)
    have near: "near ?w = near w" by (intro ext) (simp add: near_def)
    have okw: "walk_ok db p s origin nl rl d ?w" using Suc.prems(1) by (simp add: walk_ok_def near)
    have origin: "in_dict (en_id origin) (wk_entities w)" using Suc.prems(1) by (simp add: walk_ok_def)
    note good = walk_rows_good [of _ db p s fr "wk_relations w" rl]
    have level: "if b then (\<exists>t. tgt = Some t \<and> in_dict t (wk_entities w')) else level_done ?rows ?w w'"
      by (rule walk_level_complete [OF l small'(1)])
        (use good candidates_cover [OF vis origin] walk_rows_distinct [OF keys] Suc.prems(3) in auto)
    have frnear: "\<forall>k\<in>set fr. near ?w (en_id origin) d k"
      using Suc.prems(1,3) by (simp add: walk_ok_def near)
    have w': "walk_ok db p s origin nl rl (Suc d) w' \<and> length (wk_relations w') \<le> rl
        \<and> (\<forall>k\<in>set (wk_next w'). in_dict k (wk_entities w'))"
      by (rule walk_level_ok [OF walk_ok_mono [OF okw, of "Suc d"] keys frnear _ _ _ _ l])
        (use walk_candidates_good good walk_rows_length [OF Suc.prems(4)] in \<open>auto\<close>)
    show ?thesis
    proof (cases b)
      case True
      then show ?thesis using level loop by auto
    next
      case False
      then have dn: "level_done ?rows ?w w'" using level by simp
      then have uncut: "length (wk_relations w) + length ?rows < rl" using small'(2) by (simp add: level_done_def)
      have "found_upto db p s (en_id origin) d fr ?w = found_upto db p s (en_id origin) d fr w" by (simp add: found_upto_def)
      then have f: "found_upto db p s (en_id origin) d fr ?w" using Suc.prems(2) by simp
      have "found_upto db p s (en_id origin) (Suc d) (wk_next w') w'"
        by (rule level_found [OF okw keys f _ dn]) (use walk_rows_iff [OF uncut] Suc.prems(3) in simp_all)
      from Suc.IH [OF conjunct1 [OF w'] this] w' Suc.prems(5,6) loop False show ?thesis by simp
    qed
  qed
qed

text \<open>Everything a walk finds is within its depth.\<close>

lemma away_reach:
  assumes "walk_ok db p s origin nl rl d w"
  shows "away (wk_relations w) ps (en_id origin) n k \<Longrightarrow> k \<in> reach db p s (en_id origin) n"
proof (induction n arbitrary: k)
  case (Suc n)
  then obtain a q where a: "joins (wk_relations w) q a k" "a \<in> reach db p s (en_id origin) n" by (auto split: option.splits)
  then obtain r where "(q, r) \<in> set (wk_relations w)" "rl_source r = a \<and> rl_target r = k \<or> rl_source r = k \<and> rl_target r = a"
    by (auto simp: joins_def split: option.splits dest: map_of_SomeD)
  then have "hop_between db p s a k" using assms unfolding hop_between_def walk_ok_def by fastforce
  then show ?case using a(2) by auto
qed simp

lemma bounded_walk_within:
  assumes "distinct (map rl_id (g_relations db))" "in_dict k (wk_entities (bounded_walk db p s origin depth nl rl tgt))"
  shows "k \<in> reach db p s (en_id origin) depth"
proof -
  let ?w = "bounded_walk db p s origin depth nl rl tgt"
  have ok: "walk_ok db p s origin nl rl depth ?w" using bounded_walk_ok [OF assms(1)] by blast
  then have "near ?w (en_id origin) depth k" using assms(2) unfolding walk_ok_def by blast
  then obtain n where "n \<le> depth" "away (wk_relations ?w) (wk_parents ?w) (en_id origin) n k" by (auto simp: near_def)
  then show ?thesis using away_reach [OF ok] reach_mono by blast
qed

lemma bounded_walk_complete:
  fixes origin :: gentity and nl rl depth :: nat and tgt :: "string option"
  assumes keys: "distinct (map rl_id (g_relations db))" and vis: "ends_visible db p s origin"
    and small: "length (wk_entities (bounded_walk db p s origin depth nl rl tgt)) < nl"
      "length (wk_relations (bounded_walk db p s origin depth nl rl tgt)) < rl"
  shows "(\<exists>t. tgt = Some t \<and> in_dict t (wk_entities (bounded_walk db p s origin depth nl rl tgt)))
    \<or> (\<forall>k. in_dict k (wk_entities (bounded_walk db p s origin depth nl rl tgt)) \<longleftrightarrow> k \<in> reach db p s (en_id origin) depth)"
proof -
  let ?w = "\<lparr>wk_entities = [(en_id origin, origin)], wk_relations = [], wk_parents = [], wk_next = []\<rparr>"
  have ok: "walk_ok db p s origin nl rl 0 ?w" by (auto simp: walk_ok_def near_def)
  have f: "found_upto db p s (en_id origin) 0 [en_id origin] ?w" by (auto simp: found_upto_def)
  show ?thesis
    using walk_loop_complete [OF ok keys vis f, of tgt depth] small by (simp add: bounded_walk_def)
qed

end
