(* ===== verification/GraphApiProps.thy ===== *)
theory GraphApiProps
  imports GraphApi WalkComplete CorpusInvariant
begin

text \<open>
  What the endpoints of the graph answer: a path request returns and its answer is a path, it finds a
  path exactly where there is one, reviews settle relations once, and the neighbours of an entity.
\<close>

abbreviation walk_entity :: "graph_db \<Rightarrow> string \<Rightarrow> string \<Rightarrow> gentity \<Rightarrow> bool" where
  "walk_entity \<equiv> GraphWalk.good_entity"

abbreviation walk_relation :: "graph_db \<Rightarrow> string \<Rightarrow> string \<Rightarrow> grelation \<Rightarrow> bool" where
  "walk_relation \<equiv> GraphWalk.good_relation"

section \<open>Lookups\<close>

lemma find_by_key:
  assumes "distinct (map key xs)" "x \<in> set xs" "P x" "\<And>y. P y \<Longrightarrow> key y = key x"
  shows "find P xs = Some x"
proof -
  obtain y where y: "find P xs = Some y" using assms(2,3) by (metis find_None_iff not_None_eq)
  then have "y \<in> set xs" "P y" by (auto simp: find_Some_iff)
  then have "y = x" using assms(1,2) assms(4) [of y] by (simp add: distinct_map inj_on_def)
  then show ?thesis using y by simp
qed

lemma owned_dataset:
  assumes "owned c p k = Inr d"
  shows "d \<in> set (co_datasets c) \<and> ds_project d = p \<and> ds_id d = normalize_dataset_id k"
  using assms by (auto simp: owned_def find_Some_iff split: option.splits)

lemma scoped_dataset_entity_Inr:
  assumes "scoped_dataset_entity db p s k = Inr e"
  shows "e \<in> set (g_entities db) \<and> en_id e = k \<and> en_project e = p \<and> en_dataset e = s \<and> supported_entity db e"
  using assms by (auto simp: scoped_dataset_entity_def find_Some_iff split: option.splits)

lemma lookup_all_Inr:
  assumes "\<forall>k\<in>set ks. in_dict k d"
  shows "lookup_all d ks = Inr (map (\<lambda>k. the (map_of d k)) ks)"
proof -
  have "(case map_of d k of None \<Rightarrow> Inl KeyError | Some v \<Rightarrow> Inr v) = Inr (the (map_of d k))" if "k \<in> set ks" for k
    using assms that by (auto simp: in_dict_def)
  then show ?thesis unfolding lookup_all_def by (induction ks) simp_all
qed

section \<open>Paths\<close>

text \<open>The relations join consecutive nodes.\<close>

fun view_chain :: "entity_view list \<Rightarrow> relation_view list \<Rightarrow> bool" where
  "view_chain [a] [] = True"
| "view_chain (a # b # es) (x # xs) =
     ((rl_source (rv_relation x) = ew_id a \<and> rl_target (rv_relation x) = ew_id b
       \<or> rl_source (rv_relation x) = ew_id b \<and> rl_target (rv_relation x) = ew_id a) \<and> view_chain (b # es) xs)"
| "view_chain es xs = False"

definition path_shown :: "graph_db \<Rightarrow> string \<Rightarrow> string \<Rightarrow> path_view \<Rightarrow> bool" where
  "path_shown db p s v \<longleftrightarrow>
     view_chain (pv_nodes v) (pv_relations v) \<and> length (pv_relations v) = pv_hops v
     \<and> ew_id (hd (pv_nodes v)) = pv_source v \<and> ew_id (last (pv_nodes v)) = pv_target v
     \<and> (\<forall>x\<in>set (pv_relations v). walk_relation db p s (rv_relation x))
     \<and> (\<forall>e\<in>set (tl (pv_nodes v)). ew_id e = pv_source v \<or> (\<exists>g. walk_entity db p s g \<and> e = entity_view_of g))"

lemma linked_keys:
  "linked rels es ks \<Longrightarrow> \<forall>k\<in>set ks. in_dict k rels"
  by (induction rels es ks rule: linked.induct) (auto simp: joins_def in_dict_def split: option.splits)

lemma linked_ends:
  assumes "linked rels es ks" "\<And>k a b. joins rels k a b \<Longrightarrow> in_dict a d \<and> in_dict b d" "in_dict (hd es) d"
  shows "\<forall>k\<in>set es. in_dict k d"
  using assms by (induction rels es ks rule: linked.induct) auto

lemma linked_chain:
  assumes "linked rels es ks" "\<forall>k\<in>set es. ew_id (f k) = k" "\<And>k r. map_of rels k = Some r \<Longrightarrow> rv_relation (g k) = r"
  shows "view_chain (map f es) (map g ks)"
  using assms by (induction rels es ks rule: linked.induct) (auto simp: joins_def split: option.splits)

lemma walk_joins_in:
  assumes "walk_ok db p s origin nl rl d w" "joins (wk_relations w) k a b"
  shows "in_dict a (wk_entities w) \<and> in_dict b (wk_entities w)"
proof -
  obtain r where "(k, r) \<in> set (wk_relations w)" "rl_source r = a \<and> rl_target r = b \<or> rl_source r = b \<and> rl_target r = a"
    using assms(2) by (auto simp: joins_def split: option.splits dest: map_of_SomeD)
  then show ?thesis using assms(1) unfolding walk_ok_def by force
qed

text \<open>The answer for the parent links of a walk.\<close>

lemma path_answer_shown:
  assumes ok: "walk_ok db p s origin nl rl d w" and l: "linked (wk_relations w) es ks"
    and e: "hd es = en_id origin" "last es = k"
  shows "\<exists>v. path_answer db s (en_id origin) k w (es, ks) = Inr v \<and> pv_found v \<and> pv_hops v = length ks \<and> path_shown db p s v"
proof -
  let ?node = "\<lambda>k. the (map_of (wk_entities w) k)" and ?rel = "\<lambda>k. the (map_of (wk_relations w) k)"
  have origin: "in_dict (hd es) (wk_entities w)" using ok e(1) by (simp add: walk_ok_def)
  have nodes: "\<forall>k\<in>set es. in_dict k (wk_entities w)"
    by (rule linked_ends [OF l _ origin]) (rule walk_joins_in [OF ok])
  note rels = linked_keys [OF l]
  have ne: "es \<noteq> []" using l by auto
  let ?v = "\<lparr>pv_dataset = s, pv_source = en_id origin, pv_target = k, pv_found = True, pv_hops = length ks,
    pv_nodes = map (entity_view_of \<circ> ?node) es, pv_relations = map (relation_view_of db \<circ> ?rel) ks\<rparr>"
  have answer: "path_answer db s (en_id origin) k w (es, ks) = Inr ?v"
    using ne by (simp add: path_answer_def lookup_all_Inr [OF nodes] lookup_all_Inr [OF rels])
  have walk_rows: "\<forall>x\<in>set (wk_entities w). fst x = en_id (snd x) \<and> (snd x = origin \<or> walk_entity db p s (snd x))"
    "\<forall>x\<in>set (wk_relations w). walk_relation db p s (snd x)"
    using ok unfolding walk_ok_def by blast+
  have node: "en_id (?node k) = k \<and> (?node k = origin \<or> walk_entity db p s (?node k))" if "in_dict k (wk_entities w)" for k
    using bspec [OF walk_rows(1) in_dict_map_of [OF that]] by simp
  have id: "ew_id (entity_view_of x) = en_id x" for x by (simp add: entity_view_of_def)
  have "view_chain (pv_nodes ?v) (pv_relations ?v)"
    using linked_chain [OF l, of "entity_view_of \<circ> ?node" "relation_view_of db \<circ> ?rel"] nodes node
    by (simp add: id relation_view_of_def)
  moreover have "walk_relation db p s (rv_relation x)" if x: "x \<in> set (pv_relations ?v)" for x
  proof -
    obtain q where q: "q \<in> set ks" "x = relation_view_of db (?rel q)" using x by auto
    then have "(q, ?rel q) \<in> set (wk_relations w)" using rels in_dict_map_of by metis
    from bspec [OF walk_rows(2) this] show ?thesis using q(2) by (simp add: relation_view_of_def)
  qed
  moreover have "ew_id x = pv_source ?v \<or> (\<exists>g. walk_entity db p s g \<and> x = entity_view_of g)" if x: "x \<in> set (tl (pv_nodes ?v))" for x
  proof -
    obtain q where q: "q \<in> set es" "x = entity_view_of (?node q)" using x by (cases es) auto
    then have "in_dict q (wk_entities w)" using nodes by blast
    from node [OF this] show ?thesis using q(2) by (auto simp: id)
  qed
  moreover have "ew_id (hd (pv_nodes ?v)) = pv_source ?v" "ew_id (last (pv_nodes ?v)) = pv_target ?v"
    using node [OF bspec [OF nodes hd_in_set [OF ne]]] node [OF bspec [OF nodes last_in_set [OF ne]]] ne e
    by (simp_all add: hd_map last_map id)
  ultimately have "path_shown db p s ?v" by (simp add: path_shown_def)
  then show ?thesis using answer by (intro exI [of _ ?v]) simp
qed

text \<open>The answer of the endpoint for two visible entities, by whether the walk reaches the target.\<close>

lemma graph_path_cases:
  fixes c :: corpus
  defines "db \<equiv> co_graph c"
  assumes keys: "graph_keys db" and d: "owned c p k = Inr d" and src: "scoped_dataset_entity db p (ds_id d) a = Inr origin"
    and tgt: "scoped_dataset_entity db p (ds_id d) b = Inr e"
  obtains (found) v where "in_dict b (wk_entities (bounded_walk db p (ds_id d) origin depth MAX_NODES rl (Some b)))"
      "graph_path c p k a b depth rl = Some (Inr v)" "pv_found v" "pv_hops v \<le> depth" "path_shown db p (ds_id d) v"
    | (missing) v where "\<not> in_dict b (wk_entities (bounded_walk db p (ds_id d) origin depth MAX_NODES rl (Some b)))"
      "graph_path c p k a b depth rl = Some (Inr v)" "\<not> pv_found v" "pv_hops v = 0" "pv_nodes v = []" "pv_relations v = []"
proof -
  let ?w = "bounded_walk db p (ds_id d) origin depth MAX_NODES rl (Some b)"
  have dist: "distinct (map rl_id (g_relations db))" using keys by (simp add: graph_keys_def)
  have ok: "walk_ok db p (ds_id d) origin MAX_NODES rl depth ?w" using bounded_walk_ok [OF dist] by blast
  have a: "en_id origin = a" using scoped_dataset_entity_Inr [OF src] by simp
  have run: "graph_path c p k a b depth rl =
      map_option (\<lambda>r. bindE r (path_answer db (ds_id d) a b ?w)) (path_ids a b (wk_parents ?w))"
    using d src tgt unfolding graph_path_def db_def by (simp add: Let_def)
  show thesis
  proof (cases "in_dict b (wk_entities ?w)")
    case True
    then have "near ?w (en_id origin) depth b" using ok unfolding walk_ok_def by blast
    then obtain n where n: "n \<le> depth" "away (wk_relations ?w) (wk_parents ?w) a n b" using a by (auto simp: near_def)
    from path_ids_away [OF n(2)] obtain es ks where e: "path_ids a b (wk_parents ?w) = Some (Inr (es, ks))" "length ks = n"
      "linked (wk_relations ?w) es ks" "hd es = en_id origin" "last es = b" unfolding a by blast
    from path_answer_shown [OF ok e(3-5)] obtain v where "path_answer db (ds_id d) a b ?w (es, ks) = Inr v" "pv_found v"
      "pv_hops v = length ks" "path_shown db p (ds_id d) v" unfolding a by blast
    then show thesis using found [OF True, of v] run e(1,2) n(1) by simp
  next
    case False
    have "a \<noteq> b" using False ok a by (auto simp: walk_ok_def)
    moreover have "\<not> in_dict b (wk_parents ?w)" using False ok unfolding walk_ok_def by blast
    ultimately have "path_ids a b (wk_parents ?w) = Some (Inr ([], []))" by (simp add: path_ids_def)
    then have "graph_path c p k a b depth rl = Some (path_answer db (ds_id d) a b ?w ([], []))" using run by simp
    then show thesis using missing [OF False] by (simp add: path_answer_def lookup_all_def)
  qed
qed

text \<open>Sizes of a walk, from the sizes of the dataset.\<close>

lemma visit_distinct: "distinct (map fst (wk_relations w)) \<Longrightarrow> distinct (map fst (wk_relations (visit fr cs r w)))"
  by (simp add: visit_def Let_def distinct_update)

lemma walk_level_distinct:
  "distinct (map fst (wk_relations w)) \<Longrightarrow> distinct (map fst (wk_relations (snd (walk_level nl tgt fr cs rows w))))"
  by (induction nl tgt fr cs rows w rule: walk_level.induct) (auto simp: Let_def visit_distinct)

lemma walk_loop_distinct:
  "distinct (map fst (wk_relations w)) \<Longrightarrow> distinct (map fst (wk_relations (walk_loop db p s nl rl tgt depth fr w)))"
proof (induction depth arbitrary: fr w)
  case (Suc depth)
  let ?rows = "walk_rows_of db p s fr (wk_relations w) rl"
  let ?cs = "walk_candidates db p s (wk_entities w) ?rows"
  obtain b w' where l: "walk_level nl tgt fr ?cs ?rows (w\<lparr>wk_next := []\<rparr>) = (b, w')" by fastforce
  have "distinct (map fst (wk_relations w'))"
    using walk_level_distinct [of "w\<lparr>wk_next := []\<rparr>" nl tgt fr ?cs ?rows] Suc.prems l by simp
  then show ?case using Suc by (auto simp: Let_def l split: bool.splits)
qed simp

lemma length_keys_le:
  assumes "distinct (map fst xs)" "fst ` set xs \<subseteq> A" "finite A"
  shows "length xs \<le> card A"
proof -
  have "length xs = card (fst ` set xs)" using distinct_card [OF assms(1)] by simp
  then show ?thesis using card_mono [OF assms(3,2)] by simp
qed

definition visible_entities :: "graph_db \<Rightarrow> string \<Rightarrow> string \<Rightarrow> gentity list" where
  "visible_entities db p s = filter (walk_entity db p s) (g_entities db)"

definition visible_relations :: "graph_db \<Rightarrow> string \<Rightarrow> string \<Rightarrow> grelation list" where
  "visible_relations db p s = filter (walk_relation db p s) (g_relations db)"

lemma walk_sizes:
  assumes "distinct (map rl_id (g_relations db))"
  shows "length (wk_entities (bounded_walk db p s origin depth nl rl tgt)) \<le> Suc (length (visible_entities db p s))"
    "length (wk_relations (bounded_walk db p s origin depth nl rl tgt)) \<le> length (visible_relations db p s)"
proof -
  let ?w = "bounded_walk db p s origin depth nl rl tgt"
  have ok: "walk_ok db p s origin nl rl depth ?w" using bounded_walk_ok [OF assms] by blast
  have "fst x \<in> insert (en_id origin) (en_id ` set (visible_entities db p s))" if "x \<in> set (wk_entities ?w)" for x
    using ok that unfolding walk_ok_def by (fastforce simp: visible_entities_def GraphWalk.good_entity_def)
  then have sub: "fst ` set (wk_entities ?w) \<subseteq> insert (en_id origin) (en_id ` set (visible_entities db p s))" by blast
  have "distinct (map fst (wk_entities ?w))" using ok by (simp add: walk_ok_def)
  from length_keys_le [OF this sub] have "length (wk_entities ?w) \<le> Suc (card (en_id ` set (visible_entities db p s)))"
    by (simp add: card_insert_if split: if_splits)
  also have "card (en_id ` set (visible_entities db p s)) \<le> length (visible_entities db p s)"
    using card_length [of "map en_id (visible_entities db p s)"] by simp
  finally show "length (wk_entities ?w) \<le> Suc (length (visible_entities db p s))" by simp
  have "fst x \<in> rl_id ` set (visible_relations db p s)" if "x \<in> set (wk_relations ?w)" for x
    using ok that unfolding walk_ok_def by (fastforce simp: visible_relations_def GraphWalk.good_relation_def)
  then have "fst ` set (wk_relations ?w) \<subseteq> rl_id ` set (visible_relations db p s)" by blast
  moreover have "distinct (map fst (wk_relations ?w))" unfolding bounded_walk_def by (rule walk_loop_distinct) simp
  ultimately have "length (wk_relations ?w) \<le> card (rl_id ` set (visible_relations db p s))" by (intro length_keys_le) simp_all
  also have "\<dots> \<le> length (visible_relations db p s)" using card_length [of "map rl_id (visible_relations db p s)"] by simp
  finally show "length (wk_relations ?w) \<le> length (visible_relations db p s)" .
qed

section \<open>Properties of walks\<close>

text \<open>A path request between two entities of a dataset always returns, without an exception: with a
  path from the one to the other over current, supported relations and entities of the dataset, in at most
  as many hops as asked for, or with the empty answer.\<close>

theorem path_answers:
  assumes "graph_keys (co_graph c)" "owned c p k = Inr d" "scoped_dataset_entity (co_graph c) p (ds_id d) a = Inr origin"
    "scoped_dataset_entity (co_graph c) p (ds_id d) b = Inr e"
  shows "\<exists>v. graph_path c p k a b depth rl = Some (Inr v) \<and> pv_hops v \<le> depth
    \<and> (if pv_found v then path_shown (co_graph c) p (ds_id d) v else pv_nodes v = [] \<and> pv_relations v = [])"
  by (rule graph_path_cases [OF assms, of depth rl]) auto


section \<open>Reviews\<close>

text \<open>The state machine of a review.\<close>

inductive review_edge :: "review_state \<Rightarrow> review_state \<Rightarrow> bool" where
  decide: "s \<in> {Unreviewed, NeedsReview} \<Longrightarrow> t \<in> {Approved, Rejected} \<Longrightarrow> review_edge s t"

inductive_simps review_edge_iff: "review_edge s t"

definition reviewed :: "grelation \<Rightarrow> grelation \<Rightarrow> bool" where
  "reviewed r r' \<longleftrightarrow> r' = r \<or> (review_edge (rl_review r) (rl_review r') \<and> r' = r\<lparr>rl_review := rl_review r'\<rparr>)"

lemma reviewed_trans: "reviewed r r' \<Longrightarrow> reviewed r' r'' \<Longrightarrow> reviewed r r''"
  by (auto simp: reviewed_def review_edge_iff)

lemma reviewed_fields:
  assumes "reviewed r r'"
  shows "rl_id r' = rl_id r" "rl_source r' = rl_source r" "rl_target r' = rl_target r"
proof -
  obtain st where "r' = r \<or> r' = r\<lparr>rl_review := st\<rparr>" using assms unfolding reviewed_def by blast
  then show "rl_id r' = rl_id r" "rl_source r' = rl_source r" "rl_target r' = rl_target r" by auto
qed

definition same_but_reviews :: "graph_db \<Rightarrow> graph_db \<Rightarrow> bool" where
  "same_but_reviews db db' \<longleftrightarrow> list_all2 reviewed (g_relations db) (g_relations db')
     \<and> db'\<lparr>g_relations := g_relations db\<rparr> = db"

lemma same_but_reviews_trans:
  assumes "same_but_reviews db db'" "same_but_reviews db' db''"
  shows "same_but_reviews db db''"
proof -
  have "list_all2 reviewed (g_relations db) (g_relations db'')"
    by (rule list_all2_trans [of reviewed reviewed reviewed]) (use assms reviewed_trans in \<open>auto simp: same_but_reviews_def\<close>)
  moreover have "db''\<lparr>g_relations := g_relations db\<rparr> = db"
  proof -
    have "db''\<lparr>g_relations := g_relations db\<rparr> = (db''\<lparr>g_relations := g_relations db'\<rparr>)\<lparr>g_relations := g_relations db\<rparr>" by simp
    also have "\<dots> = db'\<lparr>g_relations := g_relations db\<rparr>" using assms(2) by (simp only: same_but_reviews_def)
    also have "\<dots> = db" using assms(1) by (simp only: same_but_reviews_def)
    finally show ?thesis .
  qed
  ultimately show ?thesis by (simp add: same_but_reviews_def)
qed

lemma review_step:
  assumes "distinct (map rl_id (g_relations db))"
  shows "same_but_reviews db (snd (review_relation p k st db))"
proof -
  have refl: "same_but_reviews db db" by (simp add: same_but_reviews_def list_all2_refl reviewed_def)
  show ?thesis
  proof (cases "find (\<lambda>r. rl_id r = k \<and> rl_project r = p) (g_relations db)")
    case None then show ?thesis using refl by (simp add: review_relation_def)
  next
    case (Some r)
    then have r: "r \<in> set (g_relations db)" "rl_id r = k" by (auto simp: find_Some_iff)
    show ?thesis
    proof (cases "rl_review r \<in> {Approved, Rejected} \<or> st \<notin> {Approved, Rejected}")
      case True then show ?thesis using Some refl by (auto simp: review_relation_def)
    next
      case False
      then have edge: "review_edge (rl_review r) st" by (cases "rl_review r") (auto simp: review_edge_iff)
      have "reviewed x (if rl_id x = k then x\<lparr>rl_review := st\<rparr> else x)" if "x \<in> set (g_relations db)" for x
      proof (cases "rl_id x = k")
        case True
        then have "x = r" using that r assms by (simp add: distinct_map inj_on_def)
        then show ?thesis using edge True by (simp add: reviewed_def)
      qed (simp add: reviewed_def)
      then have "list_all2 reviewed (g_relations db) (g_relations (set_review k st db))"
        by (simp add: set_review_def upd_row_def list_all2_map2 list_all2_same)
      then have "same_but_reviews db (set_review k st db)" by (simp add: same_but_reviews_def set_review_def)
      then show ?thesis using Some False by (simp add: review_relation_def Let_def)
    qed
  qed
qed

lemma list_all2_ids: "list_all2 reviewed rs rs' \<Longrightarrow> map rl_id rs' = map rl_id rs"
  by (induction rs rs' rule: list_all2_induct) (simp_all add: reviewed_fields)

definition reviews :: "(string \<times> string \<times> review_state) list \<Rightarrow> graph_db \<Rightarrow> graph_db" where
  "reviews qs db = fold (\<lambda>(p, k, st) db. snd (review_relation p k st db)) qs db"

lemma reviews_same:
  assumes "distinct (map rl_id (g_relations db))"
  shows "same_but_reviews db (reviews qs db)"
  using assms
proof (induction qs arbitrary: db)
  case Nil
  then show ?case by (simp add: reviews_def same_but_reviews_def list_all2_refl reviewed_def)
next
  case (Cons q qs)
  obtain p k st where q: "q = (p, k, st)" by (cases q)
  let ?db = "snd (review_relation p k st db)"
  have step: "same_but_reviews db ?db" by (rule review_step [OF Cons.prems])
  then have "map rl_id (g_relations ?db) = map rl_id (g_relations db)" unfolding same_but_reviews_def using list_all2_ids by blast
  then have "same_but_reviews ?db (reviews qs ?db)" using Cons.IH [of ?db] Cons.prems by simp
  then show ?case using same_but_reviews_trans [OF step] by (simp add: reviews_def q)
qed

lemma same_but_reviews_fields:
  assumes "same_but_reviews db db'"
  shows "g_documents db' = g_documents db" "g_chunks db' = g_chunks db" "g_entities db' = g_entities db"
    "g_aliases db' = g_aliases db" "g_evidence db' = g_evidence db" "g_merges db' = g_merges db"
    "map rl_id (g_relations db') = map rl_id (g_relations db)"
proof -
  have e: "db'\<lparr>g_relations := g_relations db\<rparr> = db" using assms by (simp add: same_but_reviews_def)
  show "g_documents db' = g_documents db" "g_chunks db' = g_chunks db" "g_entities db' = g_entities db"
    "g_aliases db' = g_aliases db" "g_evidence db' = g_evidence db" "g_merges db' = g_merges db"
    using arg_cong [OF e, of g_documents] arg_cong [OF e, of g_chunks] arg_cong [OF e, of g_entities]
      arg_cong [OF e, of g_aliases] arg_cong [OF e, of g_evidence] arg_cong [OF e, of g_merges] by simp_all
  show "map rl_id (g_relations db') = map rl_id (g_relations db)"
    using assms list_all2_ids unfolding same_but_reviews_def by blast
qed

text \<open>C24. Whatever reviews are requested, every relation is decided at most once, from unreviewed or needing
  review to approved or rejected, and stays as decided; nothing else of the graph changes, and its keys and
  references are kept.\<close>

theorem review_settles:
  assumes "graph_keys db" "graph_refs db"
  shows "same_but_reviews db (reviews qs db) \<and> graph_keys (reviews qs db) \<and> graph_refs (reviews qs db)"
proof -
  let ?db = "reviews qs db"
  have same: "same_but_reviews db ?db" by (rule reviews_same) (use assms(1) in \<open>simp add: graph_keys_def\<close>)
  note f = same_but_reviews_fields [OF same]
  have ends: "\<exists>x\<in>set (g_relations db). rl_source r = rl_source x \<and> rl_target r = rl_target x" if m: "r \<in> set (g_relations ?db)" for r
  proof -
    obtain i where i: "i < length (g_relations ?db)" "r = g_relations ?db ! i" using m by (auto simp: in_set_conv_nth)
    then have "reviewed (g_relations db ! i) r" "i < length (g_relations db)"
      using same unfolding same_but_reviews_def by (auto simp: list_all2_conv_all_nth)
    then show ?thesis using reviewed_fields by (intro bexI [of _ "g_relations db ! i"]) auto
  qed
  have ids: "rl_id ` set (g_relations ?db) = rl_id ` set (g_relations db)" using f(7) by (metis set_map)
  have "rl_source r \<in> en_id ` set (g_entities db) \<and> rl_target r \<in> en_id ` set (g_entities db) \<and> rl_source r \<noteq> rl_target r"
    if r: "r \<in> set (g_relations ?db)" for r
    using ends [OF r] assms(2) unfolding graph_refs_def by metis
  then have "\<forall>r\<in>set (g_relations ?db). rl_source r \<in> en_id ` set (g_entities db) \<and> rl_target r \<in> en_id ` set (g_entities db)
      \<and> rl_source r \<noteq> rl_target r" by blast
  then have "graph_refs ?db" using assms(2) unfolding graph_refs_def f(1-6) ids by (elim conjE, intro conjI)
  moreover have "graph_keys ?db" using assms(1) unfolding graph_keys_def f by simp
  ultimately show ?thesis using same by blast
qed

section \<open>Neighbours\<close>

text \<open>The neighbours of an entity include those over relations whose validity has ended, which every walk,
  path and subgraph leaves out.\<close>

theorem neighbors_show_expired:
  assumes "graph_keys db" "scoped_entity db p k = Inr e" "r \<in> set (g_relations db)" "rl_project r = p"
    "rl_dataset r = en_dataset e" "rl_source r = k" "supported_relation db r" "rl_until r = Some u"
    "walk_entity db p (en_dataset e) x" "rl_target r = en_id x" "length (g_relations db) \<le> n"
  shows "\<exists>vs v. neighbors db p k n = Inr vs \<and> v \<in> set vs \<and> rv_relation (nv_relation v) = r
    \<and> \<not> walk_relation db p (en_dataset e) r"
proof -
  have e: "en_id e = k" using assms(2) by (auto simp: scoped_entity_def find_Some_iff split: option.splits)
  let ?P = "\<lambda>r. rl_project r = p \<and> rl_dataset r = en_dataset e \<and> (rl_source r = en_id e \<or> rl_target r = en_id e) \<and> supported_relation db r"
  have "length (order_by rl_id (filter ?P (g_relations db))) \<le> n"
    using le_trans [OF length_filter_le assms(11)] by (simp add: order_by_def)
  then have "neighbor_rows db p e n = order_by rl_id (filter ?P (g_relations db))" by (simp add: neighbor_rows_def limit_def)
  then have r: "r \<in> set (neighbor_rows db p e n)" using assms(3-7) e by (simp add: order_by_def)
  have x: "x \<in> set (g_entities db)" "en_project x = p" "en_dataset x = en_dataset e" "supported_entity db x" "temporal_entity None False x"
    using assms(9) by (simp_all add: GraphWalk.good_entity_def)
  have "find (\<lambda>y. en_id y = en_id x \<and> en_project y = p \<and> en_dataset y = en_dataset e \<and> supported_entity db y
      \<and> temporal_entity None False y) (g_entities db) = Some x"
    by (rule find_by_key [of en_id]) (use assms(1) x in \<open>simp_all add: graph_keys_def\<close>)
  then have v: "neighbor_of db p e r = [\<lparr>nv_relation = relation_view_of db r, nv_entity = entity_view_of x\<rparr>]"
    using assms(6,10) e by (simp add: neighbor_of_def)
  have "\<not> walk_relation db p (en_dataset e) r"
    using assms(8) by (simp add: GraphWalk.good_relation_def temporal_relation_def temporal_def)
  moreover have "neighbors db p k n = Inr (concat (map (neighbor_of db p e) (neighbor_rows db p e n)))"
    using assms(2) by (simp add: neighbors_def)
  moreover have "hd (neighbor_of db p e r) \<in> set (concat (map (neighbor_of db p e) (neighbor_rows db p e n)))"
    using r v by (auto intro!: bexI [of _ r])
  ultimately show ?thesis using v by (intro exI conjI) (auto simp: relation_view_of_def)
qed

section \<open>Examples\<close>

text \<open>Two approved entities and the relation between them.\<close>

definition small_entity :: "string \<Rightarrow> gentity" where
  "small_entity k = (sample_entity k)\<lparr>en_dataset := ''ds_d'', en_review := Approved\<rparr>"

definition small_relation :: "int option \<Rightarrow> grelation" where
  "small_relation u = (sample_relation ''r'' ''a'' ''b'' Approved)\<lparr>rl_dataset := ''ds_d'', rl_until := u\<rparr>"

definition small_graph :: "int option \<Rightarrow> graph_db" where
  "small_graph u = empty_graph\<lparr>g_entities := [small_entity ''a'', small_entity ''b''], g_relations := [small_relation u]\<rparr>"

definition small_dataset :: dataset where
  "small_dataset = \<lparr>ds_id = ''ds_d'', ds_project = ''p'', ds_name = ''d'', ds_description = None, ds_metadata = JObj [],
     ds_status = DsActive, ds_error = None, ds_created = 0\<rparr>"

definition small_corpus :: corpus where
  "small_corpus = empty_corpus\<lparr>co_datasets := [small_dataset], co_graph := small_graph None\<rparr>"

lemmas small_defs = small_graph_def small_entity_def small_relation_def empty_graph_def sample_entity_def sample_relation_def

lemma small_graph_ok: "graph_keys (small_graph u)" "graph_refs (small_graph u)"
  by (simp_all add: graph_keys_def graph_refs_def small_defs)

lemma small_lookups:
  "owned small_corpus ''p'' ''d'' = Inr small_dataset" "ds_id small_dataset = ''ds_d''"
  "scoped_dataset_entity (small_graph u) ''p'' ''ds_d'' ''a'' = Inr (small_entity ''a'')"
  "scoped_dataset_entity (small_graph u) ''p'' ''ds_d'' ''b'' = Inr (small_entity ''b'')"
  "scoped_entity (small_graph u) ''p'' ''a'' = Inr (small_entity ''a'')"
  by (simp_all add: owned_def small_corpus_def small_dataset_def normalize_dataset_id_def scoped_dataset_entity_def
      scoped_entity_def supported_entity_def small_defs)

lemma small_current:
  "walk_entity (small_graph u) ''p'' ''ds_d'' (small_entity ''a'')" "walk_entity (small_graph u) ''p'' ''ds_d'' (small_entity ''b'')"
  "walk_relation (small_graph None) ''p'' ''ds_d'' (small_relation None)"
  by (simp_all add: GraphWalk.good_entity_def GraphWalk.good_relation_def supported_entity_def supported_relation_def
      temporal_entity_def temporal_relation_def temporal_def small_defs)

lemma small_ids: "en_id (small_entity k) = k" "rl_source (small_relation u) = ''a''" "rl_target (small_relation u) = ''b''"
  "rl_id (small_relation u) = ''r''"
  by (simp_all add: small_defs)

lemma small_corpus_graph: "co_graph small_corpus = small_graph None"
  by (simp add: small_corpus_def)

theorem path_answers_witness:
  "\<exists>v. graph_path small_corpus ''p'' ''d'' ''a'' ''b'' 3 100 = Some (Inr v) \<and> pv_hops v \<le> 3"
  using path_answers [of small_corpus "''p''" "''d''" small_dataset "''a''" "small_entity ''a''" "''b''" "small_entity ''b''" 3 100]
  by (auto simp: small_corpus_graph small_graph_ok small_lookups)


theorem review_settles_witness:
  "graph_refs (reviews [(''p'', ''r'', Approved), (''p'', ''r'', Rejected)] (sample_graph Unreviewed))"
  using review_settles [OF sample_graph_ok, of Unreviewed "[(''p'', ''r'', Approved), (''p'', ''r'', Rejected)]"] by blast

theorem neighbors_show_expired_witness:
  "\<exists>vs v. neighbors (small_graph (Some 1)) ''p'' ''a'' 25 = Inr vs \<and> v \<in> set vs \<and> rv_relation (nv_relation v) = small_relation (Some 1)"
proof -
  have "en_dataset (small_entity ''a'') = ''ds_d''" by (simp add: small_defs)
  moreover have "small_relation (Some 1) \<in> set (g_relations (small_graph (Some 1)))" "rl_project (small_relation (Some 1)) = ''p''"
    "rl_dataset (small_relation (Some 1)) = ''ds_d''" "supported_relation (small_graph (Some 1)) (small_relation (Some 1))"
    "rl_until (small_relation (Some 1)) = Some 1" "length (g_relations (small_graph (Some 1))) \<le> 25"
    by (simp_all add: small_defs supported_relation_def)
  ultimately show ?thesis
    using neighbors_show_expired [of "small_graph (Some 1)" "''p''" "''a''" "small_entity ''a''" "small_relation (Some 1)" 1 "small_entity ''b''" 25]
      small_graph_ok small_lookups small_current(2) small_ids by auto
qed

end
