(* ===== verification/Auth.thy ===== *)
theory Auth
  imports LegalHold
begin

text \<open>
  Projects and keys, \<open>app/projects.py\<close> and \<open>app/auth.py\<close>: the creation of a project with its first
  key, and the checks that turn the headers of a request into the project it acts on. SHA-256 is an
  argument; identifiers and tokens that are drawn at random are arguments too. A header is a text of
  one-byte characters, as the server decodes it.
\<close>

section \<open>UUIDs\<close>

text \<open>\<open>s.replace(sub, "")\<close> for a non-empty \<open>sub\<close>.\<close>

fun remove_sub :: "string \<Rightarrow> nat \<Rightarrow> string \<Rightarrow> string" where
  "remove_sub sub skip [] = []"
| "remove_sub sub (Suc n) (c # cs) = remove_sub sub n cs"
| "remove_sub sub 0 (c # cs) =
     (if starts_with sub (c # cs) then remove_sub sub (length sub - 1) cs else c # remove_sub sub 0 cs)"

definition hex_value :: "char \<Rightarrow> nat option" where
  "hex_value c = (let n = ord_of c in
     if 48 \<le> n \<and> n \<le> 57 then Some (n - 48)
     else if 97 \<le> n \<and> n \<le> 102 then Some (n - 87)
     else if 65 \<le> n \<and> n \<le> 70 then Some (n - 55) else None)"

text \<open>The digits of \<open>int(s, 16)\<close>; the flag says that an underscore or the end may follow.\<close>

fun hex_digits :: "bool \<Rightarrow> nat \<Rightarrow> string \<Rightarrow> nat option" where
  "hex_digits ok n [] = (if ok then Some n else None)"
| "hex_digits ok n (c # cs) =
     (case hex_value c of
        Some d \<Rightarrow> hex_digits True (16 * n + d) cs
      | None \<Rightarrow> if c = CHR ''_'' \<and> ok then hex_digits False n cs else None)"

text \<open>\<open>int(s, 16)\<close>: blanks around, a sign, a prefix \<open>0x\<close>, and digits.\<close>

definition int_blank :: "char \<Rightarrow> bool" where
  "int_blank c \<longleftrightarrow> ord_of c \<in> {9, 10, 11, 12, 13, 32, 133, 160}"

definition int_base16 :: "string \<Rightarrow> int option" where
  "int_base16 s =
     (let t = rev (dropWhile int_blank (rev (dropWhile int_blank s)));
          neg = starts_with ''-'' t;
          u = (if neg \<or> starts_with ''+'' t then tl t else t);
          v = (if starts_with ''0x'' u \<or> starts_with ''0X'' u
               then (if starts_with ''_'' (drop 2 u) then drop 3 u else drop 2 u) else u) in
      map_option (\<lambda>n. if neg then - int n else int n) (hex_digits False 0 v))"

definition uuid_of :: "string \<Rightarrow> nat res" where
  "uuid_of s =
     (let h = remove_char (CHR ''-'') (py_strip_chars ''{}'' (remove_sub ''uuid:'' 0 (remove_sub ''urn:'' 0 s))) in
      if length h \<noteq> 32 then Inl (ValueError ''badly formed hexadecimal UUID string'')
      else case int_base16 h of
        None \<Rightarrow> Inl (ValueError ''invalid literal for int() with base 16'')
      | Some n \<Rightarrow> if 0 \<le> n \<and> n < 2 ^ 128 then Inr (nat n) else Inl (ValueError ''int is out of range (need a 128-bit value)''))"

section \<open>Tables\<close>

record project_row =
  pj_id :: string
  pj_name :: string
  pj_created :: int

record api_key =
  ak_id :: string
  ak_project :: string
  ak_name :: string
  ak_prefix :: string
  ak_hash :: string
  ak_created :: int
  ak_revoked :: "int option"

record auth_db =
  au_projects :: "project_row list"
  au_keys :: "api_key list"

definition auth_keys_ok :: "auth_db \<Rightarrow> bool" where
  "auth_keys_ok db \<longleftrightarrow> distinct (map pj_id (au_projects db)) \<and> distinct (map ak_id (au_keys db))
     \<and> distinct (map ak_hash (au_keys db)) \<and> ak_project ` set (au_keys db) \<subseteq> pj_id ` set (au_projects db)"

section \<open>Authentication\<close>

text \<open>\<open>secrets.compare_digest\<close> on texts: both must be ASCII.\<close>

definition ascii :: "string \<Rightarrow> bool" where
  "ascii s \<longleftrightarrow> list_all (\<lambda>c. ord_of c < 128) s"

definition compare_digest :: "string \<Rightarrow> string \<Rightarrow> bool res" where
  "compare_digest a b = (if ascii a \<and> ascii b then Inr (a = b) else Inl TypeError)"

definition require_admin_key :: "string \<Rightarrow> string \<Rightarrow> unit res" where
  "require_admin_key admin x_api_key =
     bindE (compare_digest x_api_key admin) (\<lambda>same. guardE same (HTTPException 401 ''invalid API key''))"

definition key_matches :: "(string \<Rightarrow> string) \<Rightarrow> string \<Rightarrow> string \<Rightarrow> api_key \<Rightarrow> bool" where
  "key_matches sha project x_api_key k \<longleftrightarrow> ak_project k = project \<and> ak_prefix k = take 16 x_api_key
     \<and> ak_hash k = sha x_api_key \<and> ak_revoked k = None"

definition require_project :: "(string \<Rightarrow> string) \<Rightarrow> string \<Rightarrow> auth_db \<Rightarrow> string \<Rightarrow> string \<Rightarrow> string res" where
  "require_project sha admin db x_api_key x_project_id =
     (case uuid_of x_project_id of
        Inl e \<Rightarrow> Inl (HTTPException 400 ''invalid project ID'')
      | Inr n \<Rightarrow>
          bindE (compare_digest x_api_key admin) (\<lambda>same.
            if same then Inr (uuid_str n)
            else if list_ex (key_matches sha (uuid_str n) x_api_key) (au_keys db) then Inr (uuid_str n)
            else Inl (HTTPException 401 ''invalid project API key'')))"

section \<open>Creating a project\<close>

record project_created =
  pc_id :: string
  pc_name :: string
  pc_key :: string

definition valid_project_input :: "string \<Rightarrow> bool" where
  "valid_project_input name \<longleftrightarrow> 1 \<le> length name \<and> length name \<le> 255"

text \<open>The draws: two random UUIDs and a token.\<close>

definition first_key :: "(string \<Rightarrow> string) \<Rightarrow> int \<Rightarrow> string \<Rightarrow> string \<Rightarrow> string \<Rightarrow> api_key" where
  "first_key sha now key_id project raw =
     \<lparr>ak_id = key_id, ak_project = project, ak_name = ''default'', ak_prefix = take 16 raw, ak_hash = sha raw,
      ak_created = now, ak_revoked = None\<rparr>"

definition create_project :: "(string \<Rightarrow> string) \<Rightarrow> string \<Rightarrow> int \<Rightarrow> nat \<times> nat \<times> string \<Rightarrow> string \<Rightarrow> string \<Rightarrow> auth_db
    \<Rightarrow> (project_created \<times> auth_db) res" where
  "create_project sha admin now draws x_api_key name db =
     (case draws of (p, k, token) \<Rightarrow>
       bindE (require_admin_key admin x_api_key) (\<lambda>_.
       let raw = ''ogm_'' @ token in
       bindE (insert_row pj_id \<lparr>pj_id = uuid_str p, pj_name = name, pj_created = now\<rparr> (au_projects db)) (\<lambda>ps.
       bindE (insert_row ak_hash (first_key sha now (uuid_str k) (uuid_str p) raw) (au_keys db)) (\<lambda>_.
       bindE (insert_row ak_id (first_key sha now (uuid_str k) (uuid_str p) raw) (au_keys db)) (\<lambda>ks.
         Inr (\<lparr>pc_id = uuid_str p, pc_name = name, pc_key = raw\<rparr>, \<lparr>au_projects = ps, au_keys = ks\<rparr>))))))"

section \<open>UUID texts\<close>

lemma hex_value_digit: "d < 16 \<Longrightarrow> hex_value (hex_digit d) = Some d"
  by (auto simp: hex_value_def hex_digit_def ord_of_def take_bit_eq_mod Let_def)

lemma hex_digits_append:
  "(\<And>c. c \<in> set xs \<Longrightarrow> hex_value c \<noteq> None) \<Longrightarrow> xs \<noteq> [] \<Longrightarrow>
   hex_digits ok n (xs @ ys) = hex_digits True (foldl (\<lambda>n c. 16 * n + the (hex_value c)) n xs) ys"
proof (induction xs arbitrary: n ok)
  case (Cons x xs)
  obtain d where d: "hex_value x = Some d" using Cons.prems(1) by fastforce
  show ?case
  proof (cases "xs = []")
    case False
    then show ?thesis using Cons d by simp
  qed (use d in simp)
qed simp

lemma hex_digits_pad:
  assumes "v < 16 ^ w" "0 < w"
  shows "hex_digits ok 0 (hex_pad w v) = Some v"
proof -
  have all: "hex_value c \<noteq> None" if "c \<in> set (hex_pad w v)" for c w v
    using that by (induction w arbitrary: v) (auto simp: hex_value_digit)
  have "foldl (\<lambda>n c. 16 * n + the (hex_value c)) 0 (hex_pad w v) = v" if "v < 16 ^ w" for w v
    using that
  proof (induction w arbitrary: v)
    case (Suc w)
    then have "v div 16 < 16 ^ w" by (simp add: less_mult_imp_div_less mult.commute)
    then show ?case using Suc.IH by (simp add: hex_value_digit)
  qed simp
  moreover have "hex_pad w v \<noteq> []" using assms(2) by (metis length_0_conv length_hex_pad less_numeral_extra(3))
  ultimately show ?thesis
    using hex_digits_append [of "hex_pad w v" ok 0 "[]"] all assms(1) by simp
qed

text \<open>What the characters of a UUID text are not.\<close>

definition plain_hex :: "char \<Rightarrow> bool" where
  "plain_hex c \<longleftrightarrow> hex_value c \<noteq> None"

lemma plain_hex_not: "plain_hex c \<Longrightarrow> c \<notin> set ''-{}:+_xXurn'' \<and> \<not> int_blank c"
  by (auto simp: plain_hex_def hex_value_def int_blank_def ord_of_def Let_def split: if_splits)

lemma plain_hex_pad: "\<forall>c\<in>set (hex_pad w v). plain_hex c"
  by (induction w arbitrary: v) (auto simp: plain_hex_def hex_value_digit)

lemma remove_sub_absent: "x \<in> set sub \<Longrightarrow> x \<notin> set s \<Longrightarrow> remove_sub sub 0 s = s"
proof (induction s)
  case (Cons c cs)
  have "\<not> starts_with sub (c # cs)"
    using Cons.prems by (metis starts_with_take set_take_subset subsetD)
  then show ?case using Cons by simp
qed simp

lemma dropWhile_none: "(\<And>c. c \<in> set s \<Longrightarrow> \<not> P c) \<Longrightarrow> dropWhile P s = s"
  by (cases s) auto

lemma uuid_str_chars: "c \<in> set (uuid_str v) \<Longrightarrow> c = CHR ''-'' \<or> plain_hex c"
  using plain_hex_pad [of 32 v]
  by (auto simp: uuid_str_def Let_def slice_def dest: in_set_takeD in_set_dropD)

lemma uuid_str_hex: "remove_char (CHR ''-'') (uuid_str v) = hex_pad 32 v"
proof -
  have keep: "filter (\<lambda>x. x \<noteq> CHR ''-'') xs = xs" if "set xs \<subseteq> set (hex_pad 32 v)" for xs
    using that plain_hex_pad [of 32 v] plain_hex_not by (fastforce simp: filter_id_conv)
  have sub: "set (take n (drop m (hex_pad 32 v))) \<subseteq> set (hex_pad 32 v)" for n m
    by (meson set_drop_subset set_take_subset subset_trans)
  have "remove_char (CHR ''-'') (uuid_str v) = take 8 (hex_pad 32 v) @ slice 8 12 (hex_pad 32 v) @ slice 12 16 (hex_pad 32 v)
      @ slice 16 20 (hex_pad 32 v) @ drop 20 (hex_pad 32 v)"
    using keep [of "take 8 (hex_pad 32 v)"] keep [of "slice 8 12 (hex_pad 32 v)"] keep [of "slice 12 16 (hex_pad 32 v)"]
      keep [of "slice 16 20 (hex_pad 32 v)"] keep [of "drop 20 (hex_pad 32 v)"] sub [of _ 0] sub [of 32] set_drop_subset
    by (simp add: remove_char_def uuid_str_def Let_def slice_def sub set_take_subset)
  also have "\<dots> = hex_pad 32 v"
  proof -
    have s: "take 4 (drop m xs) @ drop (m + 4) xs = drop m xs" for m and xs :: string
      by (metis append_take_drop_id drop_drop add.commute)
    show ?thesis using s [of 8 "hex_pad 32 v"] s [of 12 "hex_pad 32 v"] s [of 16 "hex_pad 32 v"] by (simp add: slice_def)
  qed
  finally show ?thesis .
qed

text \<open>Reading a printed UUID gives it back.\<close>

lemma uuid_round: 
  assumes "n < 2 ^ 128"
  shows "uuid_of (uuid_str n) = Inr n"
proof -
  have colon: "CHR '':'' \<notin> set (uuid_str n)" using uuid_str_chars plain_hex_not by fastforce
  have braces: "c \<notin> set ''{}''" if "c \<in> set (uuid_str n)" for c using uuid_str_chars [OF that] plain_hex_not [of c] by auto
  have "remove_sub ''uuid:'' 0 (remove_sub ''urn:'' 0 (uuid_str n)) = uuid_str n"
    using remove_sub_absent [of "CHR '':''", OF _ colon] by simp
  moreover have "py_strip_chars ''{}'' (uuid_str n) = uuid_str n"
    unfolding py_strip_chars_def using dropWhile_none [of "uuid_str n" "\<lambda>c. c \<in> set ''{}''"]
      dropWhile_none [of "rev (uuid_str n)" "\<lambda>c. c \<in> set ''{}''"] braces by simp
  ultimately have h: "remove_char (CHR ''-'') (py_strip_chars ''{}'' (remove_sub ''uuid:'' 0 (remove_sub ''urn:'' 0 (uuid_str n))))
      = hex_pad 32 n" by (simp add: uuid_str_hex)
  let ?h = "hex_pad 32 n"
  have ph: "plain_hex c" if "c \<in> set ?h" for c using plain_hex_pad that by blast
  have strip: "rev (dropWhile int_blank (rev (dropWhile int_blank ?h))) = ?h"
    using dropWhile_none [of ?h int_blank] dropWhile_none [of "rev ?h" int_blank] ph plain_hex_not by fastforce
  have no: "\<not> starts_with (c # cs) ?h" if "c \<in> set ''-+''" for c cs
    using that ph plain_hex_not by (cases ?h) fastforce+
  have nox: "\<not> starts_with [d, c] ?h" if c: "c \<in> set ''xX''" for c d
  proof
    assume "starts_with [d, c] ?h"
    then have "c \<in> set ?h" by (metis starts_with_take set_take_subset subsetD list.set_intros)
    then show False using ph [of c] plain_hex_not [of c] c by auto
  qed
  have "n < 16 ^ 32" using assms by simp
  then have "int_base16 ?h = Some (int n)"
    using no [of "CHR ''-''" "[]"] no [of "CHR ''+''" "[]"] nox [of "CHR ''x''" "CHR ''0''"] nox [of "CHR ''X''" "CHR ''0''"]
      hex_digits_pad [of n 32 False] by (simp add: int_base16_def strip Let_def)
  then show ?thesis using assms by (simp add: uuid_of_def h Let_def)
qed

section \<open>Properties\<close>

lemma take_prefix_eq: "key_matches sha project raw (first_key sha now k project raw)"
  by (simp add: key_matches_def first_key_def)

text \<open>C22. The key of a created project opens that project and, with any other spelling of a project
  identifier, no other, whatever keys exist; the tables keep their keys and references.\<close>

theorem created_key_opens_project:
  assumes "auth_keys_ok db" "create_project sha admin now (p, k, token) x_api_key name db = Inr (r, db')"
    and "p < 2 ^ 128" "ascii admin" "ascii (pc_key r)" "pc_key r \<noteq> admin"
  shows "auth_keys_ok db' \<and> require_project sha admin db' (pc_key r) (pc_id r) = Inr (pc_id r)
    \<and> (\<forall>h q. require_project sha admin db' (pc_key r) h = Inr q \<longrightarrow> q = pc_id r)"
proof -
  define raw where "raw = ''ogm_'' @ token"
  let ?key = "first_key sha now (uuid_str k) (uuid_str p) raw"
  have r: "r = \<lparr>pc_id = uuid_str p, pc_name = name, pc_key = raw\<rparr>"
    and ps: "au_projects db' = au_projects db @ [\<lparr>pj_id = uuid_str p, pj_name = name, pj_created = now\<rparr>]"
    and ks: "au_keys db' = au_keys db @ [?key]"
    and new: "uuid_str p \<notin> pj_id ` set (au_projects db)" "ak_hash ?key \<notin> ak_hash ` set (au_keys db)" "ak_id ?key \<notin> ak_id ` set (au_keys db)"
    using assms(2) by (auto simp: create_project_def Let_def bindE_Inr_iff insert_row_Inr_iff raw_def)
  have ok: "auth_keys_ok db'"
    using assms(1) new by (auto simp: auth_keys_ok_def ps ks first_key_def)
  have shown: "pc_key r = raw" "pc_id r = uuid_str p" by (simp_all add: r)
  have cmp: "compare_digest raw admin = Inr False" using assms(4-6) by (simp add: compare_digest_def shown)
  have hit: "key_matches sha (uuid_str p) raw ?key" by (rule take_prefix_eq)
  have only: "q = uuid_str p" if "x \<in> set (au_keys db')" "key_matches sha q raw x" for q x
  proof -
    have "ak_hash x = ak_hash ?key" "?key \<in> set (au_keys db')" using that(2) by (simp_all add: key_matches_def first_key_def ks)
    then have "x = ?key" using ok that(1) by (simp add: auth_keys_ok_def distinct_map inj_on_def)
    then show ?thesis using that(2) by (simp add: key_matches_def first_key_def)
  qed
  have "require_project sha admin db' raw (uuid_str p) = Inr (uuid_str p)"
    using hit by (simp add: require_project_def uuid_round [OF assms(3)] cmp ks)
  moreover have "q = uuid_str p" if a: "require_project sha admin db' raw h = Inr q" for h q
  proof -
    obtain n where n: "uuid_of h = Inr n" using a by (cases "uuid_of h") (simp_all add: require_project_def)
    have m: "list_ex (key_matches sha (uuid_str n) raw) (au_keys db')" and q: "q = uuid_str n"
      using a by (simp_all add: require_project_def n cmp split: if_splits)
    from m [unfolded list_ex_iff] obtain x where x: "x \<in> set (au_keys db')" "key_matches sha (uuid_str n) raw x" by (elim bexE)
    show ?thesis using only [OF x] q by simp
  qed
  ultimately show ?thesis unfolding shown using ok by blast
qed

theorem created_key_opens_project_witness:
  "\<exists>r db'. create_project rev ''admin'' 1 (1, 2, ''token'') ''admin'' ''name'' \<lparr>au_projects = [], au_keys = []\<rparr> = Inr (r, db')
     \<and> require_project rev ''admin'' db' (pc_key r) (pc_id r) = Inr (pc_id r)"
proof -
  let ?r = "\<lparr>pc_id = uuid_str 1, pc_name = ''name'', pc_key = ''ogm_token''\<rparr>"
  obtain db' where c: "create_project rev ''admin'' 1 (1, 2, ''token'') ''admin'' ''name'' \<lparr>au_projects = [], au_keys = []\<rparr> = Inr (?r, db')"
    by (simp add: create_project_def require_admin_key_def compare_digest_def ascii_def ord_of_def guardE_def insert_row_def Let_def)
  then show ?thesis
    using created_key_opens_project [OF _ c] by (auto simp: auth_keys_ok_def ascii_def ord_of_def)
qed

end
