(* ===== verification/Mcp.thy ===== *)
theory Mcp
  imports MemApi Auth
begin

text \<open>
  The tools of \<open>app/mcp_server.py\<close>, over the tables and operations of the agent memory, and the
  sessions of \<open>app/mcp_stdio.py\<close>. The arguments of a tool are typed as its input schema declares
  them, each of them optional, as the server does not enforce the schema; values of other types are
  outside the model. The text of an exception is an argument.
\<close>

section \<open>Tool descriptions\<close>

definition schema_type :: "string \<Rightarrow> json" where
  "schema_type t = JObj [(''type'', JStr t)]"

definition schema_enum :: "string list \<Rightarrow> json" where
  "schema_enum xs = JObj [(''type'', JStr ''string''), (''enum'', JList (map JStr xs))]"

definition schema_object :: "(string \<times> json) list \<Rightarrow> string list \<Rightarrow> json" where
  "schema_object props required =
     JObj ([(''type'', JStr ''object''), (''properties'', JObj props)]
       @ (if required = [] then [] else [(''required'', JList (map JStr required))]))"

definition mcp_tool :: "string \<Rightarrow> string \<Rightarrow> json \<Rightarrow> jobj" where
  "mcp_tool name description input =
     [(''name'', JStr name), (''description'', JStr description), (''inputSchema'', input)]"

definition MCP_TOOLS :: "jobj list" where
  "MCP_TOOLS =
    [mcp_tool ''memory_observe'' ''Persist one immutable, redacted evidence episode.''
       (schema_object
         [(''kind'', schema_enum [''observation'', ''message'', ''command'', ''command_output'', ''file'', ''code'', ''tool_call'',
             ''tool_result'', ''error'', ''event'']),
          (''observation'', JObj [(''type'', JStr ''object''), (''description'', JStr ''JSON evidence'')]),
          (''metadata'', schema_type ''object''), (''idempotency_key'', schema_type ''string'')]
         [''kind'', ''observation'', ''idempotency_key'']),
     mcp_tool ''memory_commit'' ''Commit a typed durable memory supported by episode evidence.''
       (schema_object
         [(''type'', schema_enum [''bugfix'', ''decision'', ''preference'', ''procedure'', ''research'', ''trading'', ''learning'',
             ''fact'', ''custom'']),
          (''content'', schema_type ''object''),
          (''confidence'', JObj [(''type'', JStr ''number''), (''minimum'', JInt 0), (''maximum'', JInt 1)]),
          (''episodes'', JObj [(''type'', JStr ''array''), (''items'', schema_type ''object'')]),
          (''idempotency_key'', schema_type ''string'')]
         [''type'', ''content'', ''confidence'', ''episodes'', ''idempotency_key'']),
     mcp_tool ''memory_recall'' ''Recall bounded, explainable memory capsules.''
       (schema_object
         [(''text'', schema_type ''string''), (''exact'', schema_type ''object''), (''entity_key'', schema_type ''string''),
          (''limit'', JObj [(''type'', JStr ''integer''), (''minimum'', JInt 1), (''maximum'', JInt 50)])] []),
     mcp_tool ''memory_feedback'' ''Confirm, reject, correct, merge, supersede, stale, or verify a memory.''
       (schema_object
         [(''memory_id'', schema_type ''string''),
          (''kind'', schema_enum [''confirm'', ''reject'', ''correct'', ''supersede'', ''merge'', ''stale'', ''verified'']),
          (''content'', schema_type ''object''), (''confidence'', schema_type ''number''), (''target_id'', schema_type ''string''),
          (''idempotency_key'', schema_type ''string'')]
         [''memory_id'', ''kind'', ''idempotency_key'']),
     mcp_tool ''memory_forget'' ''Archive or invalidate by default; hard delete requires explicit mode.''
       (schema_object
         [(''memory_id'', schema_type ''string''), (''mode'', schema_enum [''archive'', ''invalidate'', ''hard_delete'']),
          (''idempotency_key'', schema_type ''string'')]
         [''memory_id'']),
     mcp_tool ''memory_inspect'' ''Read bounded memory provenance and ranking explanation.''
       (schema_object [(''memory_id'', schema_type ''string''), (''include_inactive'', schema_type ''boolean'')] [''memory_id''])]"

section \<open>Arguments and answers\<close>

record tool_args =
  ta_kind :: "string option"
  ta_observation :: "jobj option"
  ta_metadata :: "jobj option"
  ta_key :: "string option"
  ta_type :: "string option"
  ta_content :: "jobj option"
  ta_confidence :: "rat option"
  ta_memory :: "string option"
  ta_target :: "string option"
  ta_mode :: "string option"
  ta_limit :: "int option"

definition no_args :: tool_args where
  "no_args = \<lparr>ta_kind = None, ta_observation = None, ta_metadata = None, ta_key = None, ta_type = None, ta_content = None,
     ta_confidence = None, ta_memory = None, ta_target = None, ta_mode = None, ta_limit = None\<rparr>"

definition default :: "'a \<Rightarrow> 'a option \<Rightarrow> 'a" where
  "default d x = (case x of None \<Rightarrow> d | Some v \<Rightarrow> v)"

definition tool_error :: "string \<Rightarrow> jobj" where
  "tool_error m = [(''error'', JStr m)]"

fun status_text :: "ep_status \<Rightarrow> string" where
  "status_text SOpen = ''open''"
| "status_text SActive = ''active''"
| "status_text SDegraded = ''degraded''"
| "status_text SSuperseded = ''superseded''"
| "status_text SRejected = ''rejected''"
| "status_text SArchived = ''archived''"

definition created_answer :: "string \<Rightarrow> jobj" where
  "created_answer k = [(''episode_id'', JStr k), (''status'', JStr ''created'')]"

definition memory_answer :: "episode \<Rightarrow> jobj" where
  "memory_answer e =
     [(''id'', JStr (ep_id e)), (''type'', JStr (ep_type e)), (''title'', JStr (ep_title e)),
      (''content'', case ep_content e of None \<Rightarrow> JNull | Some c \<Rightarrow> JObj c), (''confidence'', JFloat (ep_confidence e)),
      (''status'', JStr (status_text (ep_status e)))]"

definition feedback_answer :: "episode \<Rightarrow> jobj" where
  "feedback_answer e = [(''memory_id'', JStr (ep_id e)), (''status'', JStr (status_text (ep_status e))),
     (''confidence'', JFloat (ep_confidence e)), (''version'', JInt (ep_version e))]"

definition forget_answer :: "string \<Rightarrow> string \<Rightarrow> jobj" where
  "forget_answer k mode = [(''memory_id'', JStr k), (''deleted'', JBool True), (''mode'', JStr mode)]"

section \<open>Idempotency\<close>

text \<open>The resource stored under the key, if any, and the session, in which an expired row is deleted.\<close>

definition seen_resource :: "req \<Rightarrow> mem_db \<Rightarrow> string option \<Rightarrow> string \<Rightarrow> string option \<times> mem_db" where
  "seen_resource rq db key operation =
     (if truthy_opt key then
        (case check_idempotency (rq_now rq) db (the key) (rq_project rq) operation of
           (found, db1) \<Rightarrow> (if truthy_opt found then found else None, db1))
      else (None, db))"

text \<open>The key column holds 255 characters.\<close>

definition store_key :: "(jobj \<Rightarrow> string) \<Rightarrow> req \<Rightarrow> mem_db \<Rightarrow> string option \<Rightarrow> string \<Rightarrow> string \<Rightarrow> jobj \<Rightarrow> mem_db res" where
  "store_key hash rq db key operation resource data =
     (if truthy_opt key then
        (if length (the key) > 255 then Inl (DataError ''value too long for type character varying(255)'')
         else store_idempotency hash (rq_now rq) db (the key) (rq_project rq) operation resource data)
      else Inr db)"

definition seen_episode :: "req \<Rightarrow> mem_db \<Rightarrow> string option \<Rightarrow> episode option \<times> mem_db" where
  "seen_episode rq db key =
     (case seen_resource rq db key ''episode.create'' of
        (None, db1) \<Rightarrow> (None, db1)
      | (Some k, db1) \<Rightarrow> (get_row ep_id k (episodes db1), db1))"

section \<open>Storing memories\<close>

definition mcp_episode :: "req \<Rightarrow> string \<Rightarrow> string \<Rightarrow> string \<Rightarrow> string \<Rightarrow> string \<Rightarrow> jobj \<Rightarrow> jobj \<Rightarrow> rat \<Rightarrow> episode" where
  "mcp_episode rq domain type title goal signature metadata content confidence =
     \<lparr>ep_id = memory_id (rq_ids rq 0), ep_project = rq_project rq, ep_domain = domain, ep_type = type, ep_title = title,
      ep_goal = goal, ep_signature = signature, ep_scope = [], ep_tags = [], ep_metadata = metadata, ep_content = Some content,
      ep_confidence = confidence, ep_version = 1, ep_root = None, ep_status = SOpen, ep_feedback = 0,
      ep_superseded_by = None, ep_created = rq_now rq, ep_updated = rq_now rq\<rparr>"

definition add_memory :: "(jobj \<Rightarrow> string) \<Rightarrow> req \<Rightarrow> mem_db \<Rightarrow> string option \<Rightarrow> episode \<Rightarrow> (jobj \<times> mem_db) res" where
  "add_memory hash rq db key e =
     (if length (ep_title e) > 255 \<or> length (ep_signature e) > 512
      then Inl (DataError ''value too long for type character varying'')
      else bindE (insert_row ep_id e (episodes db)) (\<lambda>eps.
           bindE (store_key hash rq (db\<lparr>episodes := eps\<rparr>) key ''episode.create'' (ep_id e)
             [(''id'', JStr (ep_id e)), (''type'', JStr (ep_type e))]) (\<lambda>db2.
           Inr (created_answer (ep_id e), db2))))"

definition memory_observe :: "(jobj \<Rightarrow> string) \<Rightarrow> req \<Rightarrow> mem_db \<Rightarrow> tool_args \<Rightarrow> (jobj \<times> mem_db) res" where
  "memory_observe hash rq db a =
     (case seen_episode rq db (ta_key a) of
        (Some e, _) \<Rightarrow> Inr (created_answer (ep_id e), db)
      | (None, db1) \<Rightarrow>
          add_memory hash rq db1 (ta_key a)
            (mcp_episode rq ''engineering'' ''custom'' (default ''observation'' (ta_kind a)) ''MCP observation''
               (default ''observation'' (ta_kind a)) (sanitize_input (default [] (ta_metadata a)))
               (sanitize_input (default [] (ta_observation a))) (1 / 2)))"

definition memory_commit :: "(jobj \<Rightarrow> string) \<Rightarrow> req \<Rightarrow> mem_db \<Rightarrow> tool_args \<Rightarrow> (jobj \<times> mem_db) res" where
  "memory_commit hash rq db a =
     (case (ta_type a, ta_content a) of
        (Some t, Some c) \<Rightarrow>
          bindE (validate_typed_content t c) (\<lambda>_.
          case seen_episode rq db (ta_key a) of
            (Some e, _) \<Rightarrow> Inr (created_answer (ep_id e), db)
          | (None, db1) \<Rightarrow>
              let conf = default (1 / 2) (ta_confidence a) in
              if conf < 0 \<or> 1 < conf then Inr (tool_error ''confidence must be a finite number between 0 and 1'', db)
              else add_memory hash rq db1 (ta_key a)
                (mcp_episode rq ''custom'' t (''MCP commit: '' @ t) ''MCP committed memory'' t
                   (sanitize_input (default [] (ta_metadata a))) (sanitize_input c) conf))
      | _ \<Rightarrow> Inl KeyError)"

section \<open>Reading\<close>

text \<open>No filter but the project; a negative limit is an error of the database.\<close>

definition memory_recall :: "req \<Rightarrow> mem_db \<Rightarrow> tool_args \<Rightarrow> jobj res" where
  "memory_recall rq db a =
     (let n = default 10 (ta_limit a) in
      if n < 0 then Inl (DataError ''LIMIT must not be negative'')
      else Inr [(''memories'', JList (map (JObj \<circ> memory_answer)
        (limit (nat n) (filter (\<lambda>e. ep_project e = rq_project rq) (episodes db)))))])"

definition own_memory :: "req \<Rightarrow> mem_db \<Rightarrow> string option \<Rightarrow> episode option" where
  "own_memory rq db k =
     (case k of None \<Rightarrow> None
      | Some k \<Rightarrow> (case get_row ep_id k (episodes db) of
           None \<Rightarrow> None | Some e \<Rightarrow> if ep_project e = rq_project rq then Some e else None))"

definition memory_inspect :: "req \<Rightarrow> mem_db \<Rightarrow> tool_args \<Rightarrow> jobj" where
  "memory_inspect rq db a =
     (case own_memory rq db (ta_memory a) of
        None \<Rightarrow> tool_error ''memory not found''
      | Some e \<Rightarrow> memory_answer e @ [(''version'', JInt (ep_version e))])"

section \<open>Feedback\<close>

definition feedback_kind_of :: "string \<Rightarrow> feedback_kind option" where
  "feedback_kind_of s =
     map_of [(''confirm'', FConfirm), (''reject'', FReject), (''correct'', FCorrect), (''supersede'', FSupersede),
       (''merge'', FMerge), (''stale'', FStale), (''verified'', FVerified)] s"

text \<open>The operations of \<open>app/memory/confidence.py\<close>, and the two answers for a missing target.\<close>

definition feedback_change :: "req \<Rightarrow> mem_db \<Rightarrow> episode \<Rightarrow> feedback_kind \<Rightarrow> tool_args \<Rightarrow> jobj option \<Rightarrow> (jobj + episode \<times> mem_db) res" where
  "feedback_change rq db e kind a content =
     (let changed = (\<lambda>r. bindE r (\<lambda>x. Inr (Inr x))) in
      if kind = FMerge then
        (if \<not> truthy_opt (ta_target a) then Inr (Inl (tool_error ''merge requires target_id''))
         else changed (merge_memories (rq_now rq) db e (the (ta_target a)) content (ta_confidence a)))
      else if kind = FCorrect then changed (apply_confidence_feedback (rq_now rq) db e kind content (ta_confidence a))
      else if kind = FSupersede then
        (if \<not> truthy_opt (ta_target a) then Inr (Inl (tool_error ''supersede requires target_id''))
         else changed (supersede_memory (rq_now rq) db e (the (ta_target a))))
      else changed (apply_confidence_feedback (rq_now rq) db e kind content None))"

definition seen_feedback :: "req \<Rightarrow> mem_db \<Rightarrow> string \<Rightarrow> string \<Rightarrow> jobj" where
  "seen_feedback rq db k found =
     (if found \<noteq> k then tool_error ''idempotency key was used for a different memory''
      else case own_memory rq db (Some found) of
        None \<Rightarrow> tool_error ''idempotency result no longer exists''
      | Some e \<Rightarrow> feedback_answer e)"

definition memory_feedback :: "(jobj \<Rightarrow> string) \<Rightarrow> (err \<Rightarrow> string) \<Rightarrow> req \<Rightarrow> mem_db \<Rightarrow> tool_args \<Rightarrow> jobj \<times> mem_db" where
  "memory_feedback hash exc rq db a =
     (if \<not> truthy_opt (ta_memory a) then (tool_error ''memory_id is required'', db)
      else case feedback_kind_of (default ''None'' (ta_kind a)) of
        None \<Rightarrow> (tool_error (''invalid feedback kind: '' @ default ''None'' (ta_kind a)), db)
      | Some kind \<Rightarrow>
          (case seen_resource rq db (ta_key a) ''memory.feedback'' of
             (Some found, db1) \<Rightarrow> (seen_feedback rq db1 (the (ta_memory a)) found, db)
           | (None, db1) \<Rightarrow>
               (case own_memory rq db1 (ta_memory a) of
                  None \<Rightarrow> (tool_error ''memory not found'', db)
                | Some e \<Rightarrow>
                    let conf = default (1 / 2) (ta_confidence a) in
                    if conf < 0 \<or> 1 < conf then (tool_error ''confidence must be a finite number between 0 and 1'', db)
                    else case feedback_change rq db1 e kind a (map_option sanitize_input (ta_content a)) of
                        Inl x \<Rightarrow> (tool_error (exc x), db)
                      | Inr (Inl answer) \<Rightarrow> (answer, db)
                      | Inr (Inr (e', db2)) \<Rightarrow>
                          (case store_key hash rq db2 (ta_key a) ''memory.feedback'' (ep_id e')
                              [(''id'', JStr (ep_id e')), (''status'', JStr (status_text (ep_status e'))),
                               (''confidence'', JFloat (ep_confidence e'))] of
                             Inl x \<Rightarrow> (tool_error (exc x), db)
                           | Inr db3 \<Rightarrow> (feedback_answer e', db3)))))"

section \<open>Forgetting\<close>

text \<open>The change of the rows, or the answer that ends the tool.\<close>

definition forget_change :: "(err \<Rightarrow> string) \<Rightarrow> req \<Rightarrow> mem_db \<Rightarrow> episode \<Rightarrow> string \<Rightarrow> jobj + mem_db" where
  "forget_change exc rq db e mode =
     (if mode = ''archive'' then Inr (save_episode (e\<lparr>ep_status := SArchived, ep_updated := rq_now rq\<rparr>) db)
      else if mode = ''invalidate'' then Inr (save_episode (e\<lparr>ep_status := SRejected, ep_updated := rq_now rq\<rparr>) db)
      else if mode = ''hard'' \<or> mode = ''hard_delete'' then
        (case check_legal_hold db (rq_project rq) [ep_id e] None of
           Inl x \<Rightarrow> Inl (tool_error (''memory is under legal hold: '' @ exc x))
         | Inr _ \<Rightarrow> Inr (delete_episode_row (ep_id e) db))
      else Inl (tool_error (''invalid mode: '' @ mode)))"

definition memory_forget :: "(jobj \<Rightarrow> string) \<Rightarrow> (err \<Rightarrow> string) \<Rightarrow> req \<Rightarrow> mem_db \<Rightarrow> tool_args \<Rightarrow> jobj \<times> mem_db" where
  "memory_forget hash exc rq db a =
     (if \<not> truthy_opt (ta_memory a) then (tool_error ''memory_id is required'', db)
      else
        let k = the (ta_memory a); mode = default ''archive'' (ta_mode a) in
        case seen_resource rq db (ta_key a) ''memory.forget'' of
          (Some found, _) \<Rightarrow>
            (if found \<noteq> k then tool_error ''idempotency key was used for a different memory'' else forget_answer found mode, db)
        | (None, db1) \<Rightarrow>
            (case own_memory rq db1 (Some k) of
               None \<Rightarrow> (tool_error ''memory not found'', db)
             | Some e \<Rightarrow>
                 (case forget_change exc rq db1 e mode of
                    Inl answer \<Rightarrow> (answer, db)
                  | Inr db2 \<Rightarrow>
                      (case store_key hash rq db2 (ta_key a) ''memory.forget'' k [(''id'', JStr k), (''mode'', JStr mode)] of
                         Inl x \<Rightarrow> (tool_error (exc x), db)
                       | Inr db3 \<Rightarrow> (forget_answer k mode, db3)))))"

section \<open>Requests\<close>

text \<open>The answer and the committed tables, or the exception, which commits nothing.\<close>

definition execute_tool :: "(jobj \<Rightarrow> string) \<Rightarrow> (err \<Rightarrow> string) \<Rightarrow> req \<Rightarrow> mem_db \<Rightarrow> string \<Rightarrow> tool_args \<Rightarrow> (jobj \<times> mem_db) res" where
  "execute_tool hash exc rq db name a =
     (if name = ''memory_observe'' then memory_observe hash rq db a
      else if name = ''memory_commit'' then memory_commit hash rq db a
      else if name = ''memory_recall'' then bindE (memory_recall rq db a) (\<lambda>r. Inr (r, db))
      else if name = ''memory_inspect'' then Inr (memory_inspect rq db a, db)
      else if name = ''memory_feedback'' then Inr (memory_feedback hash exc rq db a)
      else if name = ''memory_forget'' then Inr (memory_forget hash exc rq db a)
      else Inr (tool_error (''unknown tool: '' @ name), db))"

record mcp_request =
  mq_method :: string
  mq_tool :: "string option"
  mq_args :: tool_args

datatype mcp_body = Answer jobj | Failure int string

definition MCP_PROTOCOL_VERSION :: string where "MCP_PROTOCOL_VERSION = ''2024-11-05''"

definition initialize_answer :: jobj where
  "initialize_answer =
     [(''protocolVersion'', JStr MCP_PROTOCOL_VERSION),
      (''capabilities'', JObj [(''tools'', JObj []), (''resources'', JObj [])]),
      (''serverInfo'', JObj [(''name'', JStr ''ogm-mcp''), (''version'', JStr ''1.0.0'')])]"

definition mcp_resource :: "string \<Rightarrow> string \<Rightarrow> json" where
  "mcp_resource uri name = JObj [(''uri'', JStr uri), (''name'', JStr name), (''mimeType'', JStr ''application/json'')]"

definition resources_answer :: jobj where
  "resources_answer = [(''resources'', JList [mcp_resource ''ogm://project/profile'' ''Project profile'',
     mcp_resource ''ogm://project/memories/recent?limit=20'' ''Recent memories''])]"

definition handle_mcp_request :: "(jobj \<Rightarrow> string) \<Rightarrow> (err \<Rightarrow> string) \<Rightarrow> req \<Rightarrow> mem_db \<Rightarrow> mcp_request \<Rightarrow> (mcp_body \<times> mem_db) res" where
  "handle_mcp_request hash exc rq db q =
     (if mq_method q = ''initialize'' then Inr (Answer initialize_answer, db)
      else if mq_method q = ''tools/list'' then Inr (Answer [(''tools'', JList (map JObj MCP_TOOLS))], db)
      else if mq_method q = ''tools/call'' then
        (if \<not> truthy_opt (mq_tool q) then Inr (Failure (-32602) ''missing tool name'', db)
         else bindE (execute_tool hash exc rq db (the (mq_tool q)) (mq_args q)) (\<lambda>(r, db'). Inr (Answer r, db')))
      else if mq_method q = ''resources/list'' then Inr (Answer resources_answer, db)
      else Inr (Failure (-32601) (''method not found: '' @ mq_method q), db))"

text \<open>The HTTP endpoint: the key must belong to the project; the administrator's key is not accepted.
  The header is compared with a UUID column, so a malformed one is an error of the database.\<close>

definition mcp_authenticate :: "(string \<Rightarrow> string) \<Rightarrow> auth_db \<Rightarrow> string \<Rightarrow> string \<Rightarrow> unit res" where
  "mcp_authenticate sha adb x_api_key x_project_id =
     (case uuid_of x_project_id of
        Inl e \<Rightarrow> Inl (DataError ''invalid input for query argument'')
      | Inr n \<Rightarrow> guardE (list_ex (key_matches sha (uuid_str n) x_api_key) (au_keys adb)) (HTTPException 401 ''invalid API key''))"

definition mcp_endpoint :: "(string \<Rightarrow> string) \<Rightarrow> auth_db \<Rightarrow> (jobj \<Rightarrow> string) \<Rightarrow> (err \<Rightarrow> string) \<Rightarrow> string \<Rightarrow> req \<Rightarrow> mem_db
    \<Rightarrow> mcp_request \<Rightarrow> (mcp_body \<times> mem_db) res" where
  "mcp_endpoint sha adb hash exc x_api_key rq db q =
     bindE (mcp_authenticate sha adb x_api_key (rq_project rq)) (\<lambda>_. handle_mcp_request hash exc rq db q)"

text \<open>One line of the stdio server: the request it parses to, or the text of the exception; the answer
  is written and the server goes on.\<close>

definition stdio_line :: "(jobj \<Rightarrow> string) \<Rightarrow> (err \<Rightarrow> string) \<Rightarrow> req \<Rightarrow> mem_db \<Rightarrow> string + mcp_request \<Rightarrow> mcp_body \<times> mem_db" where
  "stdio_line hash exc rq db line =
     (case line of
        Inl e \<Rightarrow> (Failure (-32700) (''parse error: '' @ e), db)
      | Inr q \<Rightarrow>
          (case handle_mcp_request hash exc rq db q of
             Inl e \<Rightarrow> (Failure (-32603) (''internal error: '' @ exc e), db)
           | Inr (body, db') \<Rightarrow> (body, db')))"

fun stdio_run :: "(jobj \<Rightarrow> string) \<Rightarrow> (err \<Rightarrow> string) \<Rightarrow> (req \<times> (string + mcp_request)) list \<Rightarrow> mem_db \<Rightarrow> mcp_body list \<times> mem_db" where
  "stdio_run hash exc [] db = ([], db)"
| "stdio_run hash exc ((rq, line) # lines) db =
     (case stdio_line hash exc rq db line of
        (body, db1) \<Rightarrow> (case stdio_run hash exc lines db1 of (bodies, db2) \<Rightarrow> (body # bodies, db2)))"

end
