(* ===== verification/Parsers.thy ===== *)
theory Parsers
  imports Chunking
begin

text \<open>
  The parsers of \<open>app/parsers.py\<close>: what they build from decoded texts, tables, JSON values, the nodes of
  a page and the pages of a PDF, and the registry that chooses one by MIME type and file name. Decoding,
  the CSV and JSON readers, the HTML and Markdown libraries and the PDF libraries are a record of
  arguments.
\<close>

section \<open>What the libraries read\<close>

text \<open>A node of a page: its tag and its text, and for \<open>pre\<close> and \<open>table\<close> the text with line breaks.\<close>

record html_node =
  hn_tag :: string
  hn_text :: string

record lite_page =
  lp_number :: int
  lp_text :: string

record lite_result =
  lr_text :: string
  lr_count :: int
  lr_pages :: "lite_page list"

record parser_io =
  px_text :: "nat list \<Rightarrow> string"
  px_rows :: "nat list \<Rightarrow> string list list res"
  px_json :: "nat list \<Rightarrow> json res"
  px_dumps :: "json \<Rightarrow> string"
  px_markdown :: "nat list \<Rightarrow> html_node list res"
  px_html :: "nat list \<Rightarrow> string option \<times> html_node list"
  px_pdf :: "nat list \<Rightarrow> string option list res"
  px_complex :: "nat list \<Rightarrow> (int \<times> bool) list res"
  px_lite :: "bool \<Rightarrow> nat list \<Rightarrow> lite_result res"

definition plain_document :: "string \<Rightarrow> parsed_document" where
  "plain_document t = \<lparr>pd_text = t, pd_metadata = [], pd_segments = []\<rparr>"

section \<open>Text\<close>

text \<open>\<open>s.replace("\r\n", "\n")\<close>\<close>

fun unix_lines :: "string \<Rightarrow> string" where
  "unix_lines (a # b # cs) =
     (if a = CHR 0x0D \<and> b = CHR 0x0A then CHR 0x0A # unix_lines cs else a # unix_lines (b # cs))"
| "unix_lines cs = cs"

definition parse_text :: "parser_io \<Rightarrow> nat list \<Rightarrow> parsed_document" where
  "parse_text io content = plain_document (py_strip (unix_lines (px_text io content)))"

section \<open>Tables\<close>

definition format_csv_row :: "string list \<Rightarrow> string list \<Rightarrow> string" where
  "format_csv_row header row = py_join ''; '' (map (\<lambda>(k, v). k @ '': '' @ v) (zip header row))"

text \<open>\<open>{key: value for key, value in zip(header, row)}\<close>\<close>

definition row_values :: "string list \<Rightarrow> string list \<Rightarrow> jobj" where
  "row_values header row = fold (\<lambda>(k, v) d. AList.update k (JStr v) d) (zip header row) []"

definition row_segment :: "string list \<Rightarrow> nat \<times> string list \<Rightarrow> segment" where
  "row_segment header x = (case x of (i, row) \<Rightarrow>
     \<lparr>sg_text = format_csv_row header row,
      sg_metadata = [(''record_number'', JInt (int i)), (''columns'', JList (map JStr header)),
        (''values'', JObj (row_values header row))]\<rparr>)"

definition joined_texts :: "string \<Rightarrow> segment list \<Rightarrow> string" where
  "joined_texts sep segs = py_join sep (map sg_text segs)"

definition clean_rows :: "string list list \<Rightarrow> string list list" where
  "clean_rows rows = map (map py_strip) (filter (list_ex (\<lambda>v. py_strip v \<noteq> [])) rows)"

definition rows_to_document :: "string list list \<Rightarrow> parsed_document" where
  "rows_to_document rows =
     (case clean_rows rows of
        [] \<Rightarrow> plain_document []
      | header # body \<Rightarrow>
          let segs = map (row_segment header) (enumerate 1 body) in
          \<lparr>pd_text = joined_texts [CHR 0x0A] segs,
           pd_metadata = [(''rows'', JInt (int (length body))), (''columns'', JList (map JStr header))],
           pd_segments = segs\<rparr>)"

definition parse_csv :: "parser_io \<Rightarrow> nat list \<Rightarrow> parsed_document res" where
  "parse_csv io content = bindE (px_rows io content) (\<lambda>rows. Inr (rows_to_document rows))"

section \<open>JSON\<close>

fun json_type_name :: "json \<Rightarrow> string" where
  "json_type_name JNull = ''null''"
| "json_type_name (JBool b) = ''boolean''"
| "json_type_name (JInt n) = ''number''"
| "json_type_name (JFloat x) = ''number''"
| "json_type_name (JStr s) = ''string''"
| "json_type_name v = ''object''"

definition record_segment :: "parser_io \<Rightarrow> nat \<times> json \<Rightarrow> segment" where
  "record_segment io x = (case x of (i, v) \<Rightarrow>
     \<lparr>sg_text = px_dumps io v,
      sg_metadata = [(''record_number'', JInt (int i)), (''json_path'', JStr (''$['' @ dec_str (i - 1) @ '']''))]\<rparr>)"

definition json_document :: "parser_io \<Rightarrow> json \<Rightarrow> parsed_document" where
  "json_document io v =
     (case v of
        JList items \<Rightarrow>
          let segs = map (record_segment io) (enumerate 1 items) in
          \<lparr>pd_text = joined_texts [CHR 0x0A] segs,
           pd_metadata = [(''root_type'', JStr ''array''), (''records'', JInt (int (length segs)))],
           pd_segments = segs\<rparr>
      | _ \<Rightarrow> \<lparr>pd_text = px_dumps io v, pd_metadata = [(''root_type'', JStr (json_type_name v)), (''json_path'', JStr ''$'')],
             pd_segments = []\<rparr>)"

definition parse_json :: "parser_io \<Rightarrow> nat list \<Rightarrow> parsed_document res" where
  "parse_json io content = bindE (px_json io content) (\<lambda>v. Inr (json_document io v))"

section \<open>Pages\<close>

definition html_block_type :: "string \<Rightarrow> string" where
  "html_block_type name =
     (if name = ''li'' then ''list'' else if name = ''table'' then ''table'' else if name = ''pre'' then ''code'' else ''paragraph'')"

text \<open>\<open>section_path[level - 1 :] = [text]\<close>\<close>

definition push_heading :: "nat \<Rightarrow> string \<Rightarrow> string list \<Rightarrow> string list" where
  "push_heading level t path = take (level - 1) path @ [t]"

definition block_segment :: "string list \<Rightarrow> html_node \<Rightarrow> segment" where
  "block_segment path n =
     \<lparr>sg_text = hn_text n,
      sg_metadata = (''block_type'', JStr (html_block_type (hn_tag n)))
        # (if path = [] then [] else [(''section_title'', JStr (last path)), (''section_path'', JList (map JStr path))])\<rparr>"

text \<open>The level of a heading \<open>h1\<close> to \<open>h6\<close>, the tags the search asks for.\<close>

definition heading_level :: "string \<Rightarrow> nat option" where
  "heading_level tag = (case tag of [h, d] \<Rightarrow> if h = CHR ''h'' then Some (ord_of d - 48) else None | _ \<Rightarrow> None)"

fun html_segments :: "string list \<Rightarrow> html_node list \<Rightarrow> segment list" where
  "html_segments path [] = []"
| "html_segments path (n # ns) =
     (if hn_text n = [] then html_segments path ns
      else case heading_level (hn_tag n) of
        Some l \<Rightarrow> html_segments (push_heading l (hn_text n) path) ns
      | None \<Rightarrow> block_segment path n # html_segments path ns)"

definition html_to_document :: "html_node list \<Rightarrow> parsed_document" where
  "html_to_document nodes =
     (let segs = html_segments [] nodes in
      if segs = [] then plain_document []
      else \<lparr>pd_text = joined_texts [CHR 0x0A, CHR 0x0A] segs, pd_metadata = [], pd_segments = segs\<rparr>)"

definition parse_markdown :: "parser_io \<Rightarrow> nat list \<Rightarrow> parsed_document res" where
  "parse_markdown io content = bindE (px_markdown io content) (\<lambda>ns. Inr (html_to_document ns))"

definition parse_html :: "parser_io \<Rightarrow> nat list \<Rightarrow> parsed_document" where
  "parse_html io content =
     (case px_html io content of (title, ns) \<Rightarrow>
       let d = html_to_document ns in
       d\<lparr>pd_metadata := pd_metadata d @ (if truthy_opt title then [(''title'', JStr (the title))] else [])\<rparr>)"

section \<open>PDF\<close>

definition page_segments :: "(int \<times> string) list \<Rightarrow> segment list" where
  "page_segments pages =
     map (\<lambda>(n, t). \<lparr>sg_text = py_strip t, sg_metadata = [(''page_number'', JInt n)]\<rparr>) (filter (\<lambda>(n, t). py_strip t \<noteq> []) pages)"

definition pdf_document :: "string option list \<Rightarrow> parsed_document" where
  "pdf_document pages =
     (let texts = map (\<lambda>p. case p of None \<Rightarrow> [] | Some t \<Rightarrow> t) pages;
          segs = page_segments (map (\<lambda>(i, t). (int i, t)) (enumerate 1 texts)) in
      \<lparr>pd_text = joined_texts [CHR 0x0A, CHR 0x0A] segs,
       pd_metadata = [(''parser'', JStr ''pypdf''), (''parser_version'', JStr ''pypdf''), (''pages'', JInt (int (length texts))),
         (''non_empty_pages'', JInt (int (length segs)))],
       pd_segments = segs\<rparr>)"

definition parse_pdf :: "parser_io \<Rightarrow> nat list \<Rightarrow> parsed_document res" where
  "parse_pdf io content = bindE (px_pdf io content) (\<lambda>pages. Inr (pdf_document pages))"

text \<open>The LiteParse adapter: with \<open>auto\<close> the pages that need it decide whether text recognition runs.\<close>

definition parse_lite :: "parser_io \<Rightarrow> string \<Rightarrow> nat list \<Rightarrow> parsed_document res" where
  "parse_lite io ocr_mode content =
     bindE (if ocr_mode = ''auto'' then px_complex io content else Inr []) (\<lambda>complexity.
     let complex_pages = map fst (filter snd complexity);
         ocr = (ocr_mode = ''always'' \<or> complex_pages \<noteq> []) in
     bindE (px_lite io ocr content) (\<lambda>r.
     Inr \<lparr>pd_text = lr_text r,
          pd_metadata = [(''parser'', JStr ''liteparse''), (''parser_version'', JStr ''2.6.0''), (''pages'', JInt (lr_count r)),
            (''ocr_mode'', JStr ocr_mode), (''ocr_requested'', JBool ocr), (''complex_pages'', JList (map JInt complex_pages))],
          pd_segments = page_segments (map (\<lambda>p. (lp_number p, lp_text p)) (lr_pages r))\<rparr>))"

section \<open>The registry\<close>

datatype parser_kind = PText | PCsv | PJson | PMarkdown | PHtml | PPdf | PLite string

definition run_parser :: "parser_io \<Rightarrow> parser_kind \<Rightarrow> nat list \<Rightarrow> parsed_document res" where
  "run_parser io p content =
     (case p of
        PText \<Rightarrow> Inr (parse_text io content)
      | PCsv \<Rightarrow> parse_csv io content
      | PJson \<Rightarrow> parse_json io content
      | PMarkdown \<Rightarrow> parse_markdown io content
      | PHtml \<Rightarrow> Inr (parse_html io content)
      | PPdf \<Rightarrow> parse_pdf io content
      | PLite mode \<Rightarrow> parse_lite io mode content)"

fun mime_types :: "parser_kind \<Rightarrow> string list" where
  "mime_types PText = [''text/plain'']"
| "mime_types PCsv = [''text/csv'', ''application/csv'']"
| "mime_types PJson = [''application/json'', ''text/json'']"
| "mime_types PMarkdown = [''text/markdown'']"
| "mime_types PHtml = [''text/html'']"
| "mime_types PPdf = [''application/pdf'']"
| "mime_types (PLite mode) = [''application/pdf'']"

type_synonym parser_registry = "string \<Rightarrow> parser_kind option"

definition register_parser :: "parser_kind \<Rightarrow> parser_registry \<Rightarrow> parser_registry" where
  "register_parser p r = fold (\<lambda>m r. r(m \<mapsto> p)) (mime_types p) r"

definition default_registry :: "parser_kind option \<Rightarrow> parser_registry" where
  "default_registry pdf =
     fold register_parser [PText, PCsv, PJson, PMarkdown, PHtml, (case pdf of None \<Rightarrow> PPdf | Some p \<Rightarrow> p)] Map.empty"

text \<open>\<open>re.sub(r"\n{3,}", "\n\n", s)\<close>; the number counts the line breaks just written.\<close>

fun squeeze_breaks :: "nat \<Rightarrow> string \<Rightarrow> string" where
  "squeeze_breaks n [] = []"
| "squeeze_breaks n (c # cs) =
     (if c = CHR 0x0A then (if n < 2 then c # squeeze_breaks (Suc n) cs else squeeze_breaks n cs)
      else c # squeeze_breaks 0 cs)"

definition choose_parser :: "parser_registry \<Rightarrow> string \<Rightarrow> string \<Rightarrow> parser_kind option" where
  "choose_parser r mime filename =
     (let f = py_lower filename in
      if mime = ''text/plain'' \<and> ends_with ''.json'' f then r ''application/json''
      else if mime = ''text/plain'' \<and> ends_with ''.csv'' f then r ''text/csv''
      else if mime = ''text/plain'' \<and> ends_with ''.md'' f then r ''text/markdown''
      else r mime)"

definition squeezed :: "parsed_document \<Rightarrow> parsed_document" where
  "squeezed d = d\<lparr>pd_text := squeeze_breaks 0 (pd_text d),
     pd_segments := map (\<lambda>s. s\<lparr>sg_text := squeeze_breaks 0 (sg_text s)\<rparr>) (pd_segments d)\<rparr>"

definition registry_parse :: "parser_io \<Rightarrow> parser_registry \<Rightarrow> string \<Rightarrow> nat list \<Rightarrow> string \<Rightarrow> parsed_document res" where
  "registry_parse io r mime content filename =
     (case choose_parser r mime filename of
        None \<Rightarrow> Inl (ValueError (''unsupported MIME type: '' @ mime))
      | Some p \<Rightarrow> bindE (run_parser io p content) (\<lambda>d. Inr (squeezed d)))"

end
