(* ===== verification/ParsersProps.thy ===== *)
theory ParsersProps
  imports Parsers
begin

text \<open>
  The sections of a page: where no heading skips a level, the path of a block is the chain of headings
  that enclose it; where all headings have one level, everything is placed below the first. And what the
  registry does to the texts.
\<close>

section \<open>Sections\<close>

text \<open>The specification: a heading closes the sections of its level and below. The stack holds the levels
  and texts of the open sections, the innermost first.\<close>

definition open_section :: "nat \<Rightarrow> string \<Rightarrow> (nat \<times> string) list \<Rightarrow> (nat \<times> string) list" where
  "open_section l t stack = (l, t) # dropWhile (\<lambda>(k, x). l \<le> k) stack"

fun section_segments :: "(nat \<times> string) list \<Rightarrow> html_node list \<Rightarrow> segment list" where
  "section_segments stack [] = []"
| "section_segments stack (n # ns) =
     (if hn_text n = [] then section_segments stack ns
      else case heading_level (hn_tag n) of
        Some l \<Rightarrow> section_segments (open_section l (hn_text n) stack) ns
      | None \<Rightarrow> block_segment (map snd (rev stack)) n # section_segments stack ns)"

text \<open>No heading skips a level; the number is the level of the last heading.\<close>

fun levels_nested :: "nat \<Rightarrow> html_node list \<Rightarrow> bool" where
  "levels_nested d [] = True"
| "levels_nested d (n # ns) =
     (if hn_text n = [] then levels_nested d ns
      else case heading_level (hn_tag n) of
        Some l \<Rightarrow> 1 \<le> l \<and> l \<le> Suc d \<and> levels_nested l ns
      | None \<Rightarrow> levels_nested d ns)"

text \<open>The open sections of nested levels have the levels from the innermost down to one.\<close>

lemma dropWhile_levels:
  assumes "map fst stack = rev [1..<Suc d]" "1 \<le> l" "l \<le> Suc d"
  shows "map fst (dropWhile (\<lambda>(k, x). l \<le> k) stack) = rev [1..<l]
    \<and> map snd (rev (dropWhile (\<lambda>(k, x). l \<le> k) stack)) = take (l - 1) (map snd (rev stack))"
  using assms
proof (induction stack arbitrary: d)
  case Nil
  then have "d = 0" by (cases d) simp_all
  then show ?case using Nil by simp
next
  case (Cons x stack)
  then obtain e where d: "d = Suc e" by (cases d) simp_all
  then have x: "fst x = Suc e" and rest: "map fst stack = rev [1..<Suc e]" using Cons.prems(1) by simp_all
  have len: "length stack = e" using arg_cong [OF rest, of length] by simp
  show ?case
  proof (cases "l \<le> Suc e")
    case True
    then have "l - 1 \<le> length stack" using len by simp
    then show ?thesis using Cons.IH [OF rest Cons.prems(2) True] x True by (cases x) simp
  next
    case False
    then have "l = Suc (Suc e)" using Cons.prems(3) d by simp
    then show ?thesis using x rest len by (cases x) simp
  qed
qed

lemma section_path_agrees:
  assumes "map fst stack = rev [1..<Suc d]" "levels_nested d ns"
  shows "html_segments (map snd (rev stack)) ns = section_segments stack ns"
  using assms
proof (induction ns arbitrary: stack d)
  case (Cons n ns)
  show ?case
  proof (cases "hn_text n = []")
    case True
    then show ?thesis using Cons by simp
  next
    case False
    show ?thesis
    proof (cases "heading_level (hn_tag n)")
      case None
      then show ?thesis using Cons False by simp
    next
      case (Some l)
      then have l: "1 \<le> l" "l \<le> Suc d" "levels_nested l ns" using Cons.prems(2) False by simp_all
      note drop = dropWhile_levels [OF Cons.prems(1) l(1,2)]
      have "map fst (open_section l (hn_text n) stack) = rev [1..<Suc l]"
        using drop l(1) by (cases l) (simp_all add: open_section_def)
      moreover have "map snd (rev (open_section l (hn_text n) stack)) = push_heading l (hn_text n) (map snd (rev stack))"
        using drop by (simp add: open_section_def push_heading_def)
      ultimately show ?thesis using Cons.IH [of "open_section l (hn_text n) stack" l] l(3) Some False by simp
    qed
  qed
qed simp

text \<open>C25. In a page whose headings never skip a level, the section path of every block is the chain of the
  headings that enclose it.\<close>

theorem section_paths_enclose:
  assumes "levels_nested 0 ns"
  shows "html_segments [] ns = section_segments [] ns"
  using section_path_agrees [of "[]" 0 ns] assms by simp

text \<open>In a page whose headings all have one level, two or deeper, the section path of every block begins
  with the first heading, so that each further section is recorded as a part of the first.\<close>

theorem flat_headings_nest:
  assumes "2 \<le> l" "hn_text h \<noteq> []" "heading_level (hn_tag h) = Some l"
    and "\<forall>n\<in>set ns. heading_level (hn_tag n) \<in> {None, Some l}"
  shows "\<forall>s\<in>set (html_segments [] (h # ns)). \<exists>path. (''section_path'', JList (map JStr (hn_text h # path))) \<in> set (sg_metadata s)"
proof -
  have "\<forall>s\<in>set (html_segments (a # path) ns). \<exists>path. (''section_path'', JList (map JStr (a # path))) \<in> set (sg_metadata s)" for a path
    using assms(4)
  proof (induction ns arbitrary: path)
    case (Cons n ns)
    have "push_heading l t (a # path) = a # (take (l - 2) path @ [t])" for t
      using assms(1) by (cases l; cases "l - 1") (simp_all add: push_heading_def)
    moreover have "\<exists>p. (''section_path'', JList (map JStr (a # p))) \<in> set (sg_metadata (block_segment (a # path) n))"
      by (rule exI [of _ path]) (simp add: block_segment_def)
    ultimately show ?case using Cons by auto
  qed simp
  then show ?thesis using assms(2,3) by (simp add: push_heading_def)
qed

section \<open>Line breaks\<close>

lemma squeeze_breaks_gap:
  "n \<le> 2 \<Longrightarrow> \<not> starts_with (replicate (3 - n) (CHR 0x0A)) (squeeze_breaks n cs)"
proof (induction n cs rule: squeeze_breaks.induct)
  case (1 n)
  then show ?case by (cases "3 - n") simp_all
next
  case (2 n c cs)
  show ?case
  proof (cases "c = CHR 0x0A")
    case True
    show ?thesis
    proof (cases "n < 2")
      case less: True
      then have "replicate (3 - n) (CHR 0x0A) = CHR 0x0A # replicate (3 - Suc n) (CHR 0x0A)"
        by (metis Suc_diff_Suc less_trans_Suc numeral_2_eq_2 numeral_3_eq_3 replicate_Suc less_SucI)
      then show ?thesis using 2 True less by simp
    next
      case False
      then show ?thesis using 2 True by simp
    qed
  next
    case False
    then have "3 - n = Suc (2 - n)" using 2 by simp
    then show ?thesis using False by simp
  qed
qed

lemma starts_with_appendD: "starts_with (a @ b) s \<Longrightarrow> starts_with a s"
  by (induction a s rule: starts_with.induct) auto

lemma squeeze_breaks_no_gap: "n \<le> 2 \<Longrightarrow> \<not> py_contains (replicate 3 (CHR 0x0A)) (squeeze_breaks n cs)"
proof (induction n cs rule: squeeze_breaks.induct)
  case (1 n)
  then show ?case by (simp add: py_contains_def numeral_3_eq_3)
next
  case (2 n c cs)
  have "\<not> starts_with (replicate 3 (CHR 0x0A)) (squeeze_breaks n (c # cs))"
  proof
    assume s: "starts_with (replicate 3 (CHR 0x0A)) (squeeze_breaks n (c # cs))"
    have "replicate 3 (CHR 0x0A) = replicate (3 - n) (CHR 0x0A) @ replicate n (CHR 0x0A)"
      using 2(4) by (simp add: replicate_add [symmetric])
    then have "starts_with (replicate (3 - n) (CHR 0x0A)) (squeeze_breaks n (c # cs))"
      using s starts_with_appendD by metis
    then show False using squeeze_breaks_gap [OF 2(4)] by blast
  qed
  then show ?case using 2 by (auto simp: py_contains_def split: if_splits)
qed

text \<open>Nothing but line breaks is removed.\<close>

lemma squeeze_breaks_keeps: "filter (\<lambda>c. c \<noteq> CHR 0x0A) (squeeze_breaks n cs) = filter (\<lambda>c. c \<noteq> CHR 0x0A) cs"
  by (induction n cs rule: squeeze_breaks.induct) auto

text \<open>Whatever parser is chosen, no text of a parsed document holds three line breaks in a row, and the
  texts of its segments are those of the parser but for line breaks.\<close>

theorem registry_squeezes:
  assumes "registry_parse io r mime content filename = Inr d"
  shows "\<exists>p raw. choose_parser r mime filename = Some p \<and> run_parser io p content = Inr raw
    \<and> (\<forall>t\<in>set (pd_text d # map sg_text (pd_segments d)). \<not> py_contains (replicate 3 (CHR 0x0A)) t)
    \<and> map (filter (\<lambda>c. c \<noteq> CHR 0x0A) \<circ> sg_text) (pd_segments d) = map (filter (\<lambda>c. c \<noteq> CHR 0x0A) \<circ> sg_text) (pd_segments raw)
    \<and> map sg_metadata (pd_segments d) = map sg_metadata (pd_segments raw)"
proof -
  obtain p raw where "choose_parser r mime filename = Some p" "run_parser io p content = Inr raw" and d: "d = squeezed raw"
    using assms by (auto simp: registry_parse_def bindE_Inr_iff split: option.splits)
  moreover have "\<forall>t\<in>set (pd_text d # map sg_text (pd_segments d)). \<not> py_contains (replicate 3 (CHR 0x0A)) t"
    using squeeze_breaks_no_gap [of 0] unfolding d by (auto simp: squeezed_def)
  moreover have "map (filter (\<lambda>c. c \<noteq> CHR 0x0A) \<circ> sg_text) (pd_segments d) = map (filter (\<lambda>c. c \<noteq> CHR 0x0A) \<circ> sg_text) (pd_segments raw)"
    unfolding d by (simp add: squeezed_def squeeze_breaks_keeps)
  moreover have "map sg_metadata (pd_segments d) = map sg_metadata (pd_segments raw)" unfolding d by (simp add: squeezed_def o_def)
  ultimately show ?thesis by blast
qed

section \<open>Examples\<close>

theorem section_paths_enclose_witness:
  "html_segments [] [\<lparr>hn_tag = ''h1'', hn_text = ''A''\<rparr>, \<lparr>hn_tag = ''h2'', hn_text = ''B''\<rparr>, \<lparr>hn_tag = ''h2'', hn_text = ''C''\<rparr>,
      \<lparr>hn_tag = ''p'', hn_text = ''x''\<rparr>]
   = [block_segment [''A'', ''C''] \<lparr>hn_tag = ''p'', hn_text = ''x''\<rparr>]"
proof -
  have "levels_nested 0 [\<lparr>hn_tag = ''h1'', hn_text = ''A''\<rparr>, \<lparr>hn_tag = ''h2'', hn_text = ''B''\<rparr>, \<lparr>hn_tag = ''h2'', hn_text = ''C''\<rparr>,
      \<lparr>hn_tag = ''p'', hn_text = ''x''\<rparr>]"
    by (simp add: heading_level_def ord_of_def)
  from section_paths_enclose [OF this] show ?thesis by (simp add: heading_level_def ord_of_def open_section_def)
qed

theorem flat_headings_nest_witness:
  "\<exists>path. (''section_path'', JList (map JStr (''A'' # path))) \<in> set (sg_metadata (hd (html_segments []
     [\<lparr>hn_tag = ''h2'', hn_text = ''A''\<rparr>, \<lparr>hn_tag = ''h2'', hn_text = ''B''\<rparr>, \<lparr>hn_tag = ''p'', hn_text = ''x''\<rparr>])))"
  using flat_headings_nest [of 2 "\<lparr>hn_tag = ''h2'', hn_text = ''A''\<rparr>" "[\<lparr>hn_tag = ''h2'', hn_text = ''B''\<rparr>, \<lparr>hn_tag = ''p'', hn_text = ''x''\<rparr>]"]
  by (simp add: heading_level_def ord_of_def)

definition demo_parser_io :: parser_io where
  "demo_parser_io = \<lparr>px_text = map char_of, px_rows = (\<lambda>c. Inr [map (\<lambda>x. [char_of x]) c]), px_json = (\<lambda>c. Inr JNull), px_dumps = (\<lambda>v. ''null''),
     px_markdown = (\<lambda>c. Inr []), px_html = (\<lambda>c. (None, [])), px_pdf = (\<lambda>c. Inr [Some ''page'']), px_complex = (\<lambda>c. Inr []),
     px_lite = (\<lambda>b c. Inr \<lparr>lr_text = [], lr_count = 0, lr_pages = []\<rparr>)\<rparr>"

theorem registry_squeezes_witness:
  "\<exists>d. registry_parse demo_parser_io (default_registry None) ''application/pdf'' [1] ''a'' = Inr d
     \<and> \<not> py_contains (replicate 3 (CHR 0x0A)) (pd_text d) \<and> length (pd_segments d) = 1"
proof -
  have "choose_parser (default_registry None) ''application/pdf'' ''a'' = Some PPdf"
    by (simp add: choose_parser_def default_registry_def register_parser_def)
  then obtain d where d: "registry_parse demo_parser_io (default_registry None) ''application/pdf'' [1] ''a'' = Inr d"
    and n: "length (pd_segments d) = 1"
    by (simp add: registry_parse_def run_parser_def parse_pdf_def demo_parser_io_def squeezed_def pdf_document_def page_segments_def
        py_strip_def py_lstrip_def py_rstrip_def py_isspace_def ord_of_def enumerate_eq_zip Let_def)
  then show ?thesis using registry_squeezes [OF d] by auto
qed

end
