(* ===== verification/Sdk.thy ===== *)
theory Sdk
  imports MemInvariant MemGraph
begin

text \<open>
  The Python client of \<open>packages/sdk\<close> and the routes it calls: how a method becomes a request, how a
  response becomes a value or an exception, which endpoint of the application (\<open>app/main.py\<close> and its
  routers) a request reaches, and what the response models accept. The transport, the texts of library
  exceptions, the router of the framework and the validation of pydantic are arguments.
\<close>

section \<open>Routes\<close>

datatype http_method = MGet | MPost | MPatch | MDelete

datatype handler = HHealth | HMetrics | HReady | HCreateProject | HCreateDataset | HListDatasets | HGetDataset | HUpdateDataset |
  HDeleteDataset | HUpload | HListDocuments | HGetDocument | HGetDocumentById | HDeleteDocument | HGetEntity |
  HSearchEntities | HPath | HSubgraph | HNeighbors | HRefreshAnalytics | HGraph | HExplorer | HExplorerNodes |
  HExplorerRelations | HEvidence | HRelationEvidence | HRun | HJob | HReview | HCreateEpisode | HListEpisodes |
  HGetEpisode | HAppendAttempt | HRecordOutcome | HSearch | HFeedback | HSupersede | HFeedbackPattern |
  HSupersedePattern | HMemoryGraph | HHardDelete | HConfidence | HVersions | HTypes | HCreateHold | HListHolds |
  HGetHold | HDeleteHold | HPreviewRetention | HApplyRetention | HListPolicies | HAuditLogs | HExport | HImport
  | HMcp | HIngestCode | HSyncFile | HIndexDirectory | HQuery

type_synonym route = "http_method \<times> string \<times> handler"

definition under :: "string \<Rightarrow> route list \<Rightarrow> route list" where
  "under prefix rs = map (\<lambda>(m, t, h). (m, prefix @ t, h)) rs"

definition health_routes :: "route list" where
  "health_routes = under []
    [(MGet, ''/health'', HHealth),
     (MGet, ''/metrics'', HMetrics),
     (MGet, ''/ready'', HReady)]"

definition projects_routes :: "route list" where
  "projects_routes = under ''/v1/projects''
    [(MPost, [], HCreateProject)]"

definition datasets_routes :: "route list" where
  "datasets_routes = under ''/v1/datasets''
    [(MPost, [], HCreateDataset),
     (MGet, [], HListDatasets),
     (MGet, ''/{dataset_id}'', HGetDataset),
     (MPatch, ''/{dataset_id}'', HUpdateDataset),
     (MDelete, ''/{dataset_id}'', HDeleteDataset)]"

definition documents_routes :: "route list" where
  "documents_routes = under []
    [(MPost, ''/v1/datasets/{dataset_id}/documents'', HUpload),
     (MGet, ''/v1/datasets/{dataset_id}/documents'', HListDocuments),
     (MGet, ''/v1/datasets/{dataset_id}/documents/{document_id}'', HGetDocument),
     (MGet, ''/v1/documents/{document_id}'', HGetDocumentById),
     (MDelete, ''/v1/documents/{document_id}'', HDeleteDocument)]"

definition graph_routes :: "route list" where
  "graph_routes = under ''/v1''
    [(MGet, ''/entities/{entity_id}'', HGetEntity),
     (MGet, ''/datasets/{dataset_id}/entities/search'', HSearchEntities),
     (MGet, ''/datasets/{dataset_id}/graph/path'', HPath),
     (MGet, ''/datasets/{dataset_id}/graph/subgraph'', HSubgraph),
     (MGet, ''/entities/{entity_id}/neighbors'', HNeighbors),
     (MPost, ''/datasets/{dataset_id}/analytics/refresh'', HRefreshAnalytics),
     (MGet, ''/datasets/{dataset_id}/graph'', HGraph),
     (MGet, ''/datasets/{dataset_id}/graph/explorer'', HExplorer),
     (MGet, ''/datasets/{dataset_id}/graph/explorer/nodes'', HExplorerNodes),
     (MGet, ''/datasets/{dataset_id}/graph/explorer/relations'', HExplorerRelations),
     (MGet, ''/evidence/{evidence_id}'', HEvidence),
     (MGet, ''/datasets/{dataset_id}/relations/{relation_id}/evidence'', HRelationEvidence),
     (MGet, ''/graph-runs/{run_id}'', HRun),
     (MGet, ''/graph-jobs/{job_id}'', HJob),
     (MPatch, ''/relations/{relation_id}/review'', HReview)]"

definition memory_routes :: "route list" where
  "memory_routes = under ''/v1/agent-memory''
    [(MPost, ''/episodes'', HCreateEpisode),
     (MGet, ''/episodes'', HListEpisodes),
     (MGet, ''/episodes/{episode_id}'', HGetEpisode),
     (MPost, ''/episodes/{episode_id}/attempts'', HAppendAttempt),
     (MPost, ''/episodes/{episode_id}/outcomes'', HRecordOutcome),
     (MGet, ''/search'', HSearch),
     (MPost, ''/episodes/{episode_id}/feedback'', HFeedback),
     (MPost, ''/episodes/{episode_id}/supersede'', HSupersede),
     (MPost, ''/patterns/{pattern_key}/feedback'', HFeedbackPattern),
     (MPost, ''/patterns/{pattern_key}/supersede'', HSupersedePattern),
     (MGet, ''/graph'', HMemoryGraph),
     (MDelete, ''/episodes/{episode_id}'', HHardDelete),
     (MPost, ''/episodes/{episode_id}/confidence'', HConfidence),
     (MGet, ''/episodes/{episode_id}/versions'', HVersions),
     (MGet, ''/types'', HTypes)]"

definition legal_hold_routes :: "route list" where
  "legal_hold_routes = under ''/v1/legal-holds''
    [(MPost, [], HCreateHold),
     (MGet, [], HListHolds),
     (MGet, ''/{hold_id}'', HGetHold),
     (MDelete, ''/{hold_id}'', HDeleteHold)]"

definition retention_routes :: "route list" where
  "retention_routes = under ''/v1/retention''
    [(MPost, ''/preview'', HPreviewRetention),
     (MPost, ''/apply'', HApplyRetention),
     (MGet, ''/policies'', HListPolicies)]"

definition audit_routes :: "route list" where
  "audit_routes = under ''/v1/audit-logs''
    [(MGet, [], HAuditLogs)]"

definition export_routes :: "route list" where
  "export_routes = under ''/v1/projects''
    [(MGet, ''/{project_id}/export'', HExport),
     (MPost, ''/{project_id}/import'', HImport)]"

definition mcp_routes :: "route list" where
  "mcp_routes = under ''/mcp''
    [(MPost, [], HMcp)]"

definition codebase_routes :: "route list" where
  "codebase_routes = under ''/v1/codebase''
    [(MPost, ''/ingest'', HIngestCode),
     (MPost, ''/sync-file'', HSyncFile),
     (MPost, ''/index-directory'', HIndexDirectory)]"

definition retrieval_routes :: "route list" where
  "retrieval_routes = under ''/v1/retrieval''
    [(MPost, ''/query'', HQuery)]"

definition app_routes :: "route list" where
  "app_routes = health_routes @ projects_routes @ datasets_routes @ documents_routes @ graph_routes @ memory_routes
     @ legal_hold_routes @ retention_routes @ audit_routes @ export_routes @ mcp_routes @ codebase_routes
     @ retrieval_routes"

text \<open>How the framework chooses a route is an argument of the properties. What its documentation says: the
  routes are tried in their order, a part \<open>{name}\<close> of a template stands for one non-empty segment of the
  path, and the other parts for themselves.\<close>

text \<open>\<open>path.split("/")\<close>\<close>

fun path_segments :: "string \<Rightarrow> string list" where
  "path_segments [] = [[]]"
| "path_segments (c # cs) =
     (if c = CHR ''/'' then [] # path_segments cs
      else case path_segments cs of [] \<Rightarrow> [[c]] | w # ws \<Rightarrow> (c # w) # ws)"

definition is_param :: "string \<Rightarrow> bool" where
  "is_param t \<longleftrightarrow> starts_with ''{'' t"

fun match_segments :: "string list \<Rightarrow> string list \<Rightarrow> string list option" where
  "match_segments [] [] = Some []"
| "match_segments (t # ts) (s # ss) =
     (if is_param t then (if s = [] then None else map_option (Cons s) (match_segments ts ss))
      else if t = s then match_segments ts ss else None)"
| "match_segments _ _ = None"

fun first_match :: "http_method \<Rightarrow> string list \<Rightarrow> route list \<Rightarrow> (handler \<times> string list) option" where
  "first_match m segs [] = None"
| "first_match m segs ((m', t, h) # rs) =
     (case match_segments (path_segments t) segs of
        Some args \<Rightarrow> if m' = m then Some (h, args) else first_match m segs rs
      | None \<Rightarrow> first_match m segs rs)"

type_synonym router = "route list \<Rightarrow> http_method \<Rightarrow> string \<Rightarrow> (handler \<times> string list) option"

definition ordered_routing :: "router \<Rightarrow> bool" where
  "ordered_routing serve \<longleftrightarrow> (\<forall>rs m path x. first_match m (path_segments path) rs = Some x \<longrightarrow> serve rs m path = Some x)"

section \<open>Requests\<close>

record client_config =
  cc_base :: string
  cc_key :: string
  cc_project :: "string option"
  cc_admin :: "string option"

text \<open>\<open>os.environ.get(k) or None\<close>\<close>

definition filled :: "string option \<Rightarrow> string option" where
  "filled x = (if truthy_opt x then x else None)"

definition config_from_env :: "(string \<Rightarrow> string option) \<Rightarrow> client_config" where
  "config_from_env env =
     \<lparr>cc_base = (case env ''OGM_BASE_URL'' of None \<Rightarrow> ''http://localhost:8000'' | Some s \<Rightarrow> s),
      cc_key = (case env ''OGM_API_KEY'' of None \<Rightarrow> [] | Some s \<Rightarrow> s),
      cc_project = filled (env ''OGM_PROJECT_ID''), cc_admin = filled (env ''OGM_ADMIN_KEY'')\<rparr>"

datatype error_class = OGMError | ValidationError | AuthenticationError | NotFoundError | ConflictError
  | PayloadTooLargeError | UnsupportedMediaTypeError | BadGatewayError | ServiceUnavailableError | ServerError

text \<open>What a call may end with: an error of the SDK (its class, message, status code and detail), or an
  exception of a library that the client lets through.\<close>

datatype sdk_error =
    TransportError string
  | StatusError error_class string nat json
  | MissingProject
  | NotJson
  | ModelInvalid
  | HttpxError string

definition and_then :: "'e + 'a \<Rightarrow> ('a \<Rightarrow> 'e + 'b) \<Rightarrow> 'e + 'b" where
  "and_then m f = (case m of Inl e \<Rightarrow> Inl e | Inr x \<Rightarrow> f x)"

lemma and_then_simps [simp]:
  "and_then (Inl e) f = Inl e"
  "and_then (Inr x) f = f x"
  by (simp_all add: and_then_def)

record sdk_args =
  sa_method :: http_method
  sa_path :: string
  sa_admin :: bool
  sa_json :: "json option"
  sa_params :: "jobj option"
  sa_file :: "(string \<times> nat list \<times> string) option"

record sdk_request =
  sq_args :: sdk_args
  sq_headers :: "(string \<times> string) list"

definition client_headers :: "client_config \<Rightarrow> bool \<Rightarrow> sdk_error + (string \<times> string) list" where
  "client_headers cfg admin =
     (let key = (if admin \<and> truthy_opt (cc_admin cfg) then the (cc_admin cfg) else cc_key cfg) in
      if admin then Inr [(''X-API-Key'', key)]
      else case cc_project cfg of
        None \<Rightarrow> Inl MissingProject
      | Some p \<Rightarrow> Inr [(''X-API-Key'', key), (''X-Project-Id'', p)])"

section \<open>Responses\<close>

text \<open>The body is None when it is not JSON.\<close>

record http_response =
  hr_status :: nat
  hr_body :: "json option"
  hr_text :: string

definition status_errors :: "(nat \<times> error_class) list" where
  "status_errors = [(400, ValidationError), (401, AuthenticationError), (404, NotFoundError), (409, ConflictError),
     (413, PayloadTooLargeError), (415, UnsupportedMediaTypeError), (502, BadGatewayError), (503, ServiceUnavailableError)]"

definition error_class_of :: "nat \<Rightarrow> error_class" where
  "error_class_of status =
     (case map_of status_errors status of Some c \<Rightarrow> c | None \<Rightarrow> if 500 \<le> status then ServerError else OGMError)"

text \<open>\<open>str(detail)\<close>; \<open>rep\<close> is \<open>str\<close> of a value that is no text.\<close>

definition detail_text :: "(json \<Rightarrow> string) \<Rightarrow> json \<Rightarrow> string" where
  "detail_text rep v = (case v of JStr s \<Rightarrow> s | _ \<Rightarrow> rep v)"

definition response_detail :: "http_response \<Rightarrow> json" where
  "response_detail r =
     (case hr_body r of None \<Rightarrow> JStr (hr_text r) | Some (JObj d) \<Rightarrow> jget ''detail'' d | Some v \<Rightarrow> v)"

definition raise_for_response :: "(json \<Rightarrow> string) \<Rightarrow> http_response \<Rightarrow> sdk_error + unit" where
  "raise_for_response rep r =
     (if hr_status r < 400 then Inr ()
      else Inl (StatusError (error_class_of (hr_status r)) (detail_text rep (response_detail r)) (hr_status r)
        (response_detail r)))"

definition read_response :: "(json \<Rightarrow> string) \<Rightarrow> http_response \<Rightarrow> sdk_error + json option" where
  "read_response rep r =
     and_then (raise_for_response rep r) (\<lambda>_.
       if hr_status r = 204 then Inr None
       else case hr_body r of None \<Rightarrow> Inl NotJson | Some v \<Rightarrow> Inr (Some v))"

definition client_request :: "(sdk_request \<Rightarrow> string + http_response) \<Rightarrow> (json \<Rightarrow> string) \<Rightarrow> client_config \<Rightarrow> sdk_args
    \<Rightarrow> sdk_error + json option" where
  "client_request transport rep cfg a =
     and_then (client_headers cfg (sa_admin a)) (\<lambda>headers.
       case transport \<lparr>sq_args = a, sq_headers = headers\<rparr> of
         Inl m \<Rightarrow> Inl (TransportError m)
       | Inr r \<Rightarrow> read_response rep r)"

text \<open>\<open>health\<close> and \<open>ready\<close> use the connection directly.\<close>

definition client_probe :: "(string \<Rightarrow> string + http_response) \<Rightarrow> (json \<Rightarrow> string) \<Rightarrow> string \<Rightarrow> sdk_error + json" where
  "client_probe get rep path =
     (case get path of
        Inl m \<Rightarrow> Inl (HttpxError m)
      | Inr r \<Rightarrow> and_then (raise_for_response rep r) (\<lambda>_.
          case hr_body r of None \<Rightarrow> Inl NotJson | Some v \<Rightarrow> Inr v))"

section \<open>The methods of the client\<close>

definition get_args :: "string \<Rightarrow> jobj option \<Rightarrow> sdk_args" where
  "get_args path params = \<lparr>sa_method = MGet, sa_path = path, sa_admin = False, sa_json = None, sa_params = params, sa_file = None\<rparr>"

definition body_args :: "http_method \<Rightarrow> string \<Rightarrow> jobj \<Rightarrow> sdk_args" where
  "body_args m path d = \<lparr>sa_method = m, sa_path = path, sa_admin = False, sa_json = Some (JObj d), sa_params = None, sa_file = None\<rparr>"

definition delete_args :: "string \<Rightarrow> sdk_args" where
  "delete_args path = \<lparr>sa_method = MDelete, sa_path = path, sa_admin = False, sa_json = None, sa_params = None, sa_file = None\<rparr>"

text \<open>\<open>x or {}\<close>, \<open>x or []\<close>\<close>

definition or_empty :: "'a list option \<Rightarrow> 'a list" where
  "or_empty x = (case x of None \<Rightarrow> [] | Some xs \<Rightarrow> xs)"

text \<open>A parameter that is passed only when it is given.\<close>

definition opt_param :: "string \<Rightarrow> string option \<Rightarrow> jobj" where
  "opt_param k x = (case x of None \<Rightarrow> [] | Some s \<Rightarrow> [(k, JStr s)])"

definition sdk_create_project :: "string \<Rightarrow> sdk_args" where
  "sdk_create_project name =
     (body_args MPost ''/v1/projects'' [(''name'', JStr name)])\<lparr>sa_admin := True\<rparr>"

definition sdk_create_dataset :: "string \<Rightarrow> string option \<Rightarrow> jobj option \<Rightarrow> sdk_args" where
  "sdk_create_dataset name description metadata =
     body_args MPost ''/v1/datasets''
       [(''name'', JStr name), (''description'', jopt description), (''metadata'', JObj (or_empty metadata))]"

definition sdk_list_datasets :: "sdk_args" where
  "sdk_list_datasets =
     get_args ''/v1/datasets'' None"

definition sdk_get_dataset :: "string \<Rightarrow> sdk_args" where
  "sdk_get_dataset k =
     get_args (''/v1/datasets/'' @ k) None"

definition sdk_update_dataset :: "string \<Rightarrow> string option \<Rightarrow> string option \<Rightarrow> jobj option \<Rightarrow> sdk_args" where
  "sdk_update_dataset k name description metadata =
     body_args MPatch (''/v1/datasets/'' @ k)
       (opt_param ''name'' name @ opt_param ''description'' description
         @ (case metadata of None \<Rightarrow> [] | Some m \<Rightarrow> [(''metadata'', JObj m)]))"

definition sdk_delete_dataset :: "string \<Rightarrow> sdk_args" where
  "sdk_delete_dataset k =
     delete_args (''/v1/datasets/'' @ k)"

definition sdk_upload_document :: "string \<Rightarrow> string \<Rightarrow> nat list \<Rightarrow> string \<Rightarrow> sdk_args" where
  "sdk_upload_document k filename content content_type =
     \<lparr>sa_method = MPost, sa_path = ''/v1/datasets/'' @ k @ ''/documents'', sa_admin = False, sa_json = None,
       sa_params = None, sa_file = Some (filename, content, content_type)\<rparr>"

definition sdk_list_documents :: "string \<Rightarrow> sdk_args" where
  "sdk_list_documents k =
     get_args (''/v1/datasets/'' @ k @ ''/documents'') None"

definition sdk_get_document :: "string \<Rightarrow> string \<Rightarrow> sdk_args" where
  "sdk_get_document k document =
     get_args (''/v1/datasets/'' @ k @ ''/documents/'' @ document) None"

definition sdk_get_document_by_id :: "string \<Rightarrow> sdk_args" where
  "sdk_get_document_by_id document =
     get_args (''/v1/documents/'' @ document) None"

definition sdk_delete_document :: "string \<Rightarrow> sdk_args" where
  "sdk_delete_document document =
     delete_args (''/v1/documents/'' @ document)"

definition sdk_create_episode :: "string \<Rightarrow> string \<Rightarrow> string \<Rightarrow> string \<Rightarrow> jobj option \<Rightarrow> string list option \<Rightarrow> jobj option
    \<Rightarrow> json list option \<Rightarrow> sdk_args" where
  "sdk_create_episode domain title goal signature scope tags metadata evidence =
     body_args MPost ''/v1/agent-memory/episodes''
       [(''domain'', JStr domain), (''title'', JStr title), (''goal'', JStr goal), (''problem_signature'', JStr signature),
        (''scope'', JObj (or_empty scope)), (''tags'', JList (map JStr (or_empty tags))),
        (''metadata'', JObj (or_empty metadata)), (''evidence'', JList (or_empty evidence))]"

definition sdk_list_episodes :: "string option \<Rightarrow> nat \<Rightarrow> sdk_args" where
  "sdk_list_episodes status n =
     get_args ''/v1/agent-memory/episodes'' (Some ((''limit'', JInt (int n)) # opt_param ''status'' status))"

definition sdk_get_episode :: "string \<Rightarrow> sdk_args" where
  "sdk_get_episode k =
     get_args (''/v1/agent-memory/episodes/'' @ k) None"

definition sdk_append_attempt :: "string \<Rightarrow> string \<Rightarrow> json list \<Rightarrow> string \<Rightarrow> string option \<Rightarrow> jobj option \<Rightarrow> sdk_args" where
  "sdk_append_attempt k hypothesis actions result notes metadata =
     body_args MPost (''/v1/agent-memory/episodes/'' @ k @ ''/attempts'')
       [(''hypothesis'', JStr hypothesis), (''actions'', JList actions), (''result'', JStr result), (''notes'', jopt notes),
        (''metadata'', JObj (or_empty metadata))]"

definition sdk_record_outcome :: "string \<Rightarrow> string \<Rightarrow> string \<Rightarrow> string option \<Rightarrow> json list option \<Rightarrow> jobj option \<Rightarrow> string option
    \<Rightarrow> jobj option \<Rightarrow> sdk_args" where
  "sdk_record_outcome k status summary lesson checks metrics pattern_key metadata =
     body_args MPost (''/v1/agent-memory/episodes/'' @ k @ ''/outcomes'')
       [(''status'', JStr status), (''summary'', JStr summary), (''lesson'', jopt lesson),
        (''verifiers'', JList (or_empty checks)), (''metrics'', JObj (or_empty metrics)),
        (''pattern_key'', jopt pattern_key), (''metadata'', JObj (or_empty metadata))]"

definition sdk_search_memory :: "string \<Rightarrow> string option \<Rightarrow> string option \<Rightarrow> string option \<Rightarrow> bool \<Rightarrow> nat \<Rightarrow> sdk_args" where
  "sdk_search_memory q signature repository environment inactive n =
     get_args ''/v1/agent-memory/search''
       (Some ([(''q'', JStr q), (''include_inactive'', JBool inactive), (''limit'', JInt (int n))]
         @ opt_param ''problem_signature'' signature @ opt_param ''repository'' repository @ opt_param ''environment'' environment))"

definition sdk_feedback_episode :: "string \<Rightarrow> int \<Rightarrow> sdk_args" where
  "sdk_feedback_episode k score =
     body_args MPost (''/v1/agent-memory/episodes/'' @ k @ ''/feedback'') [(''score'', JInt score)]"

definition sdk_supersede_episode :: "string \<Rightarrow> string \<Rightarrow> sdk_args" where
  "sdk_supersede_episode k superseding =
     body_args MPost (''/v1/agent-memory/episodes/'' @ k @ ''/supersede'') [(''superseding_episode_id'', JStr superseding)]"

definition sdk_get_entity :: "string \<Rightarrow> sdk_args" where
  "sdk_get_entity k =
     get_args (''/v1/entities/'' @ k) None"

definition sdk_get_neighbors :: "string \<Rightarrow> nat \<Rightarrow> sdk_args" where
  "sdk_get_neighbors k n =
     get_args (''/v1/entities/'' @ k @ ''/neighbors'') (Some [(''limit'', JInt (int n))])"

definition sdk_get_graph :: "string \<Rightarrow> nat \<Rightarrow> nat \<Rightarrow> sdk_args" where
  "sdk_get_graph k n depth =
     get_args (''/v1/datasets/'' @ k @ ''/graph'') (Some [(''limit'', JInt (int n)), (''depth'', JInt (int depth))])"

definition sdk_search_graph :: "string \<Rightarrow> string \<Rightarrow> string option \<Rightarrow> nat \<Rightarrow> sdk_args" where
  "sdk_search_graph k q entity_type n =
     get_args (''/v1/datasets/'' @ k @ ''/entities/search'')
       (Some ([(''q'', JStr q), (''limit'', JInt (int n))] @ opt_param ''entity_type'' entity_type))"

definition sdk_find_path :: "string \<Rightarrow> string \<Rightarrow> string \<Rightarrow> nat \<Rightarrow> nat \<Rightarrow> sdk_args" where
  "sdk_find_path k source target max_depth relation_limit =
     get_args (''/v1/datasets/'' @ k @ ''/graph/path'')
       (Some [(''source_entity_id'', JStr source), (''target_entity_id'', JStr target),
         (''max_depth'', JInt (int max_depth)), (''relation_limit'', JInt (int relation_limit))])"

definition sdk_get_subgraph :: "string \<Rightarrow> string \<Rightarrow> nat \<Rightarrow> nat \<Rightarrow> nat \<Rightarrow> sdk_args" where
  "sdk_get_subgraph k entity depth node_limit relation_limit =
     get_args (''/v1/datasets/'' @ k @ ''/graph/subgraph'')
       (Some [(''entity_id'', JStr entity), (''depth'', JInt (int depth)), (''node_limit'', JInt (int node_limit)),
         (''relation_limit'', JInt (int relation_limit))])"

definition sdk_get_evidence :: "string \<Rightarrow> sdk_args" where
  "sdk_get_evidence k =
     get_args (''/v1/evidence/'' @ k) None"

definition sdk_relation_evidence :: "string \<Rightarrow> string \<Rightarrow> nat \<Rightarrow> sdk_args" where
  "sdk_relation_evidence k relation n =
     get_args (''/v1/datasets/'' @ k @ ''/relations/'' @ relation @ ''/evidence'') (Some [(''limit'', JInt (int n))])"

definition sdk_get_run :: "string \<Rightarrow> sdk_args" where
  "sdk_get_run k =
     get_args (''/v1/graph-runs/'' @ k) None"

definition sdk_get_job :: "string \<Rightarrow> sdk_args" where
  "sdk_get_job k =
     get_args (''/v1/graph-jobs/'' @ k) None"

definition sdk_review_relation :: "string \<Rightarrow> string \<Rightarrow> sdk_args" where
  "sdk_review_relation k state =
     body_args MPatch (''/v1/relations/'' @ k @ ''/review'') [(''review_state'', JStr state)]"

section \<open>Response models\<close>

text \<open>The types of the fields of a model; a required field must be present.\<close>

datatype ftype = FStr | FInt | FNum | FBool | FAny | FDict | FLit "string list" | FOpt ftype | FList ftype | FModel ffields
  and ffields = NoField | Field string bool ftype ffields

fun fields_of :: "(string \<times> bool \<times> ftype) list \<Rightarrow> ffields" where
  "fields_of [] = NoField"
| "fields_of ((k, needed, t) # fs) = Field k needed t (fields_of fs)"

definition attempt_model :: ftype where
  "attempt_model = FModel (fields_of [(''id'', True, FStr), (''sequence'', True, FInt), (''hypothesis'', True, FStr),
     (''actions'', False, FList FAny), (''result'', True, FLit [''success'', ''failed'', ''partial'']),
     (''notes'', False, FOpt FStr), (''metadata'', False, FDict)])"

definition sdk_domains :: "string list" where
  "sdk_domains = [''engineering'', ''trading'', ''research'', ''operations'', ''custom'']"

definition sdk_statuses :: "string list" where
  "sdk_statuses = [''open'', ''active'', ''degraded'', ''superseded'', ''rejected'']"

definition sdk_outcomes :: "string list" where
  "sdk_outcomes = [''success'', ''failed'', ''partial'', ''cancelled'']"

definition episode_model :: ftype where
  "episode_model = FModel (fields_of [(''id'', True, FStr), (''project_id'', True, FStr), (''domain'', True, FLit sdk_domains),
     (''title'', True, FStr), (''goal'', True, FStr), (''problem_signature'', True, FStr), (''scope'', False, FDict),
     (''tags'', False, FList FStr), (''metadata'', False, FDict), (''status'', True, FLit sdk_statuses),
     (''feedback_score'', True, FInt), (''superseded_by_id'', False, FOpt FStr), (''attempts'', False, FList attempt_model)])"

definition pattern_model :: ftype where
  "pattern_model = FModel (fields_of [(''pattern_key'', True, FStr), (''verified_outcomes'', True, FInt),
     (''weighted_successes'', True, FNum), (''weighted_total'', True, FNum), (''confidence'', True, FNum),
     (''promoted'', True, FBool)])"

definition outcome_model :: ftype where
  "outcome_model = FModel (fields_of [(''id'', True, FStr), (''status'', True, FLit sdk_outcomes), (''pattern'', True, pattern_model)])"

definition search_result_model :: ftype where
  "search_result_model = FModel (fields_of [(''episode'', True, episode_model), (''pattern'', False, FOpt pattern_model),
     (''recommended_actions'', False, FList FAny), (''lesson'', False, FOpt FStr), (''scope_match'', True, FBool)])"

definition search_model :: ftype where
  "search_model = FModel (fields_of [(''query'', True, FStr), (''results'', True, FList search_result_model)])"

text \<open>\<open>Model.model_validate(data)\<close> with the validation \<open>accepts\<close> of the library; a response without content
  gives None.\<close>

type_synonym validation = "ftype \<Rightarrow> json \<Rightarrow> bool"

definition validated :: "validation \<Rightarrow> ftype \<Rightarrow> json option \<Rightarrow> sdk_error + json" where
  "validated accepts t x =
     (let v = (case x of None \<Rightarrow> JNull | Some v \<Rightarrow> v) in if accepts t v then Inr v else Inl ModelInvalid)"

definition sdk_value :: "validation \<Rightarrow> (json \<Rightarrow> string) \<Rightarrow> ftype \<Rightarrow> http_response \<Rightarrow> sdk_error + json" where
  "sdk_value accepts rep t r = and_then (read_response rep r) (validated accepts t)"

text \<open>What the documentation of the library says of these types. \<open>co\<close> stands for the values of other kinds it
  coerces to a number or a truth value.\<close>

fun conforms :: "(ftype \<Rightarrow> json \<Rightarrow> bool) \<Rightarrow> ftype \<Rightarrow> json \<Rightarrow> bool"
  and conforms_fields :: "(ftype \<Rightarrow> json \<Rightarrow> bool) \<Rightarrow> ffields \<Rightarrow> jobj \<Rightarrow> bool" where
  "conforms co FStr v \<longleftrightarrow> is_jstr v"
| "conforms co FInt v \<longleftrightarrow> (case v of JInt n \<Rightarrow> True | _ \<Rightarrow> co FInt v)"
| "conforms co FNum v \<longleftrightarrow> (case v of JInt n \<Rightarrow> True | JFloat x \<Rightarrow> True | _ \<Rightarrow> co FNum v)"
| "conforms co FBool v \<longleftrightarrow> (case v of JBool b \<Rightarrow> True | _ \<Rightarrow> co FBool v)"
| "conforms co FAny v \<longleftrightarrow> True"
| "conforms co FDict v \<longleftrightarrow> is_jobj v"
| "conforms co (FLit ls) v \<longleftrightarrow> (case v of JStr s \<Rightarrow> s \<in> set ls | _ \<Rightarrow> False)"
| "conforms co (FOpt t) v \<longleftrightarrow> v = JNull \<or> conforms co t v"
| "conforms co (FList t) v \<longleftrightarrow> (case v of JList vs \<Rightarrow> list_all (\<lambda>x. conforms co t x) vs | _ \<Rightarrow> False)"
| "conforms co (FModel fs) v \<longleftrightarrow> (case v of JObj d \<Rightarrow> conforms_fields co fs d | _ \<Rightarrow> False)"
| "conforms_fields co NoField d \<longleftrightarrow> True"
| "conforms_fields co (Field k needed t fs) d \<longleftrightarrow>
     (case map_of d k of None \<Rightarrow> \<not> needed | Some v \<Rightarrow> conforms co t v) \<and> conforms_fields co fs d"

definition documented_validation :: "validation \<Rightarrow> bool" where
  "documented_validation accepts \<longleftrightarrow> (\<exists>co. \<forall>t v. accepts t v \<longleftrightarrow> conforms co t v)"

section \<open>What the server sends\<close>

definition attempt_json :: "attempt_view \<Rightarrow> json" where
  "attempt_json a = JObj [(''id'', JStr (av_id a)), (''sequence'', JInt (av_sequence a)),
     (''hypothesis'', JStr (ai_hypothesis (av_body a))), (''actions'', JList (ai_actions (av_body a))),
     (''result'', JStr (result_str (ai_result (av_body a)))), (''notes'', jopt (ai_notes (av_body a))),
     (''metadata'', JObj (ai_metadata (av_body a)))]"

definition episode_json :: "episode_view \<Rightarrow> json" where
  "episode_json w = JObj [(''id'', JStr (w_id w)), (''project_id'', JStr (w_project w)), (''domain'', JStr (w_domain w)),
     (''type'', JStr (w_type w)), (''title'', JStr (w_title w)), (''goal'', JStr (w_goal w)),
     (''problem_signature'', JStr (w_signature w)), (''scope'', JObj (w_scope w)), (''tags'', JList (map JStr (w_tags w))),
     (''metadata'', JObj (w_metadata w)), (''content'', case w_content w of None \<Rightarrow> JNull | Some d \<Rightarrow> JObj d),
     (''confidence'', JFloat (w_confidence w)), (''version'', JInt (w_version w)), (''root_id'', jopt (w_root w)),
     (''status'', JStr (ep_status_str (w_status w))), (''feedback_score'', JInt (w_feedback w)),
     (''superseded_by_id'', jopt (w_superseded_by w)), (''attempts'', JList (map attempt_json (w_attempts w)))]"

definition pattern_json :: "pattern_view \<Rightarrow> json" where
  "pattern_json p = JObj [(''pattern_key'', JStr (pv_key p)), (''verified_outcomes'', JInt (pv_verified p)),
     (''weighted_successes'', JFloat (pv_successes p)), (''weighted_total'', JFloat (pv_total p)),
     (''confidence'', JFloat (pv_confidence p)), (''promoted'', JBool (pv_promoted p))]"

definition outcome_json :: "outcome_view \<Rightarrow> json" where
  "outcome_json x = JObj [(''id'', JStr (ov_id x)), (''status'', JStr (outcome_str (ov_status x))), (''pattern'', pattern_json (ov_pattern x))]"

definition search_json :: "string \<Rightarrow> search_result list \<Rightarrow> json" where
  "search_json q rs = JObj [(''query'', JStr q), (''results'', JList (map (\<lambda>r. JObj
     [(''episode'', episode_json (sr_episode r)), (''pattern'', case sr_pattern r of None \<Rightarrow> JNull | Some p \<Rightarrow> pattern_json p),
      (''recommended_actions'', JList (sr_actions r)), (''lesson'', jopt (sr_lesson r)), (''scope_match'', JBool (sr_scope_match r))]) rs))]"

text \<open>A response with a value, and the response to an \<open>HTTPException\<close>.\<close>

definition ok_response :: "json \<Rightarrow> http_response" where
  "ok_response v = \<lparr>hr_status = 200, hr_body = Some v, hr_text = []\<rparr>"

definition error_response :: "nat \<Rightarrow> string \<Rightarrow> http_response" where
  "error_response code m = \<lparr>hr_status = code, hr_body = Some (JObj [(''detail'', JStr m)]), hr_text = []\<rparr>"

end
