(* ===== verification/SdkProps.thy ===== *)
theory SdkProps
  imports Sdk
begin

text \<open>
  What the Python client can rely on: every method reaches the endpoint it is written for, an error of a
  handler arrives with its status and its text, and the responses of the memory endpoints are accepted
  except for archived episodes, which the client's model does not know.
\<close>

section \<open>Calls and their endpoints\<close>

datatype sdk_call =
    CreateProject string
  | CreateDataset string "string option" "jobj option"
  | ListDatasets
  | GetDataset string
  | UpdateDataset string "string option" "string option" "jobj option"
  | DeleteDataset string
  | UploadDocument string string "nat list" string
  | ListDocuments string
  | GetDocument string string
  | GetDocumentById string
  | DeleteDocument string
  | CreateEpisode string string string string "jobj option" "string list option" "jobj option" "json list option"
  | ListEpisodes "string option" nat
  | GetEpisode string
  | AppendAttempt string string "json list" string "string option" "jobj option"
  | RecordOutcome string string string "string option" "json list option" "jobj option" "string option" "jobj option"
  | SearchMemory string "string option" "string option" "string option" bool nat
  | FeedbackEpisode string int
  | SupersedeEpisode string string
  | GetEntity string
  | GetNeighbors string nat
  | GetGraph string nat nat
  | SearchGraph string string "string option" nat
  | FindPath string string string nat nat
  | GetSubgraph string string nat nat nat
  | GetEvidence string
  | RelationEvidence string string nat
  | GetRun string
  | GetJob string
  | ReviewRelation string string

fun call_args :: "sdk_call \<Rightarrow> sdk_args" where
  "call_args (CreateProject n) = sdk_create_project n"
| "call_args (CreateDataset n d m) = sdk_create_dataset n d m"
| "call_args ListDatasets = sdk_list_datasets"
| "call_args (GetDataset k) = sdk_get_dataset k"
| "call_args (UpdateDataset k n d m) = sdk_update_dataset k n d m"
| "call_args (DeleteDataset k) = sdk_delete_dataset k"
| "call_args (UploadDocument k f b t) = sdk_upload_document k f b t"
| "call_args (ListDocuments k) = sdk_list_documents k"
| "call_args (GetDocument k d) = sdk_get_document k d"
| "call_args (GetDocumentById d) = sdk_get_document_by_id d"
| "call_args (DeleteDocument d) = sdk_delete_document d"
| "call_args (CreateEpisode a b c d s t m e) = sdk_create_episode a b c d s t m e"
| "call_args (ListEpisodes s n) = sdk_list_episodes s n"
| "call_args (GetEpisode k) = sdk_get_episode k"
| "call_args (AppendAttempt k h a r n m) = sdk_append_attempt k h a r n m"
| "call_args (RecordOutcome k s t l v m p d) = sdk_record_outcome k s t l v m p d"
| "call_args (SearchMemory q s r e i n) = sdk_search_memory q s r e i n"
| "call_args (FeedbackEpisode k s) = sdk_feedback_episode k s"
| "call_args (SupersedeEpisode k s) = sdk_supersede_episode k s"
| "call_args (GetEntity k) = sdk_get_entity k"
| "call_args (GetNeighbors k n) = sdk_get_neighbors k n"
| "call_args (GetGraph k n d) = sdk_get_graph k n d"
| "call_args (SearchGraph k q t n) = sdk_search_graph k q t n"
| "call_args (FindPath k a b d n) = sdk_find_path k a b d n"
| "call_args (GetSubgraph k e d n r) = sdk_get_subgraph k e d n r"
| "call_args (GetEvidence k) = sdk_get_evidence k"
| "call_args (RelationEvidence k r n) = sdk_relation_evidence k r n"
| "call_args (GetRun k) = sdk_get_run k"
| "call_args (GetJob k) = sdk_get_job k"
| "call_args (ReviewRelation k s) = sdk_review_relation k s"

text \<open>The endpoint a call is meant for, with the values of its path parameters.\<close>

fun call_target :: "sdk_call \<Rightarrow> handler \<times> string list" where
  "call_target (CreateProject _) = (HCreateProject, [])"
| "call_target (CreateDataset _ _ _) = (HCreateDataset, [])"
| "call_target ListDatasets = (HListDatasets, [])"
| "call_target (GetDataset k) = (HGetDataset, [k])"
| "call_target (UpdateDataset k _ _ _) = (HUpdateDataset, [k])"
| "call_target (DeleteDataset k) = (HDeleteDataset, [k])"
| "call_target (UploadDocument k _ _ _) = (HUpload, [k])"
| "call_target (ListDocuments k) = (HListDocuments, [k])"
| "call_target (GetDocument k d) = (HGetDocument, [k, d])"
| "call_target (GetDocumentById d) = (HGetDocumentById, [d])"
| "call_target (DeleteDocument d) = (HDeleteDocument, [d])"
| "call_target (CreateEpisode _ _ _ _ _ _ _ _) = (HCreateEpisode, [])"
| "call_target (ListEpisodes _ _) = (HListEpisodes, [])"
| "call_target (GetEpisode k) = (HGetEpisode, [k])"
| "call_target (AppendAttempt k _ _ _ _ _) = (HAppendAttempt, [k])"
| "call_target (RecordOutcome k _ _ _ _ _ _ _) = (HRecordOutcome, [k])"
| "call_target (SearchMemory _ _ _ _ _ _) = (HSearch, [])"
| "call_target (FeedbackEpisode k _) = (HFeedback, [k])"
| "call_target (SupersedeEpisode k _) = (HSupersede, [k])"
| "call_target (GetEntity k) = (HGetEntity, [k])"
| "call_target (GetNeighbors k _) = (HNeighbors, [k])"
| "call_target (GetGraph k _ _) = (HGraph, [k])"
| "call_target (SearchGraph k _ _ _) = (HSearchEntities, [k])"
| "call_target (FindPath k _ _ _ _) = (HPath, [k])"
| "call_target (GetSubgraph k _ _ _ _) = (HSubgraph, [k])"
| "call_target (GetEvidence k) = (HEvidence, [k])"
| "call_target (RelationEvidence k r _) = (HRelationEvidence, [k, r])"
| "call_target (GetRun k) = (HRun, [k])"
| "call_target (GetJob k) = (HJob, [k])"
| "call_target (ReviewRelation k _) = (HReview, [k])"

text \<open>Identifiers of letters, digits, underscores and hyphens; a URL carries them as they are.\<close>

definition plain_id :: "string \<Rightarrow> bool" where
  "plain_id k \<longleftrightarrow> k \<noteq> [] \<and> list_all (\<lambda>c. is_lower_az c \<or> is_upper_az c \<or> is_digit09 c \<or> c = CHR ''_'' \<or> c = CHR ''-'') k"

lemma plain_id_no_slash: "plain_id k \<Longrightarrow> k \<noteq> [] \<and> CHR ''/'' \<notin> set k"
  by (auto simp: plain_id_def list_all_iff is_lower_az_def is_upper_az_def is_digit09_def ord_of_def)

lemma path_segments_nonempty: "path_segments s \<noteq> []"
  by (induction s) (auto split: list.splits)

lemma path_segments_segment [simp]: "CHR ''/'' \<notin> set k \<Longrightarrow> path_segments k = [k]"
  by (induction k) auto

lemma path_segments_slash [simp]: "CHR ''/'' \<notin> set k \<Longrightarrow> path_segments (k @ CHR ''/'' # r) = k # path_segments r"
  by (induction k) (auto simp: path_segments_nonempty)

lemmas router_defs = health_routes_def projects_routes_def datasets_routes_def documents_routes_def graph_routes_def
  memory_routes_def legal_hold_routes_def retention_routes_def audit_routes_def export_routes_def mcp_routes_def
  codebase_routes_def retrieval_routes_def

text \<open>The table with its templates split; None is a parameter.\<close>

definition template_parts :: "string \<Rightarrow> string option list" where
  "template_parts t = map (\<lambda>s. if is_param s then None else Some s) (path_segments t)"

fun match_parts :: "string option list \<Rightarrow> string list \<Rightarrow> string list option" where
  "match_parts [] [] = Some []"
| "match_parts (None # ts) (s # ss) = (if s = [] then None else map_option (Cons s) (match_parts ts ss))"
| "match_parts (Some t # ts) (s # ss) = (if t = s then match_parts ts ss else None)"
| "match_parts _ _ = None"

lemma match_parts_eq: "match_segments ts ss = match_parts (map (\<lambda>s. if is_param s then None else Some s) ts) ss"
  by (induction ts ss rule: match_segments.induct) auto

fun first_split :: "http_method \<Rightarrow> string list \<Rightarrow> (http_method \<times> string option list \<times> handler) list \<Rightarrow> (handler \<times> string list) option" where
  "first_split m segs [] = None"
| "first_split m segs ((m', ts, h) # rs) =
     (if m' = m then case match_parts ts segs of Some args \<Rightarrow> Some (h, args) | None \<Rightarrow> first_split m segs rs
      else first_split m segs rs)"

lemma first_match_split: "first_match m segs rs = first_split m segs (map (\<lambda>(m, t, h). (m, template_parts t, h)) rs)"
  by (induction m segs rs rule: first_match.induct) (auto simp: match_parts_eq template_parts_def split: option.splits)

definition split_routes :: "(http_method \<times> string option list \<times> handler) list" where
  "split_routes =
    [(MGet, [Some [], Some ''health''], HHealth),
     (MGet, [Some [], Some ''metrics''], HMetrics),
     (MGet, [Some [], Some ''ready''], HReady),
     (MPost, [Some [], Some ''v1'', Some ''projects''], HCreateProject),
     (MPost, [Some [], Some ''v1'', Some ''datasets''], HCreateDataset),
     (MGet, [Some [], Some ''v1'', Some ''datasets''], HListDatasets),
     (MGet, [Some [], Some ''v1'', Some ''datasets'', None], HGetDataset),
     (MPatch, [Some [], Some ''v1'', Some ''datasets'', None], HUpdateDataset),
     (MDelete, [Some [], Some ''v1'', Some ''datasets'', None], HDeleteDataset),
     (MPost, [Some [], Some ''v1'', Some ''datasets'', None, Some ''documents''], HUpload),
     (MGet, [Some [], Some ''v1'', Some ''datasets'', None, Some ''documents''], HListDocuments),
     (MGet, [Some [], Some ''v1'', Some ''datasets'', None, Some ''documents'', None], HGetDocument),
     (MGet, [Some [], Some ''v1'', Some ''documents'', None], HGetDocumentById),
     (MDelete, [Some [], Some ''v1'', Some ''documents'', None], HDeleteDocument),
     (MGet, [Some [], Some ''v1'', Some ''entities'', None], HGetEntity),
     (MGet, [Some [], Some ''v1'', Some ''datasets'', None, Some ''entities'', Some ''search''], HSearchEntities),
     (MGet, [Some [], Some ''v1'', Some ''datasets'', None, Some ''graph'', Some ''path''], HPath),
     (MGet, [Some [], Some ''v1'', Some ''datasets'', None, Some ''graph'', Some ''subgraph''], HSubgraph),
     (MGet, [Some [], Some ''v1'', Some ''entities'', None, Some ''neighbors''], HNeighbors),
     (MPost, [Some [], Some ''v1'', Some ''datasets'', None, Some ''analytics'', Some ''refresh''], HRefreshAnalytics),
     (MGet, [Some [], Some ''v1'', Some ''datasets'', None, Some ''graph''], HGraph),
     (MGet, [Some [], Some ''v1'', Some ''datasets'', None, Some ''graph'', Some ''explorer''], HExplorer),
     (MGet, [Some [], Some ''v1'', Some ''datasets'', None, Some ''graph'', Some ''explorer'', Some ''nodes''], HExplorerNodes),
     (MGet, [Some [], Some ''v1'', Some ''datasets'', None, Some ''graph'', Some ''explorer'', Some ''relations''], HExplorerRelations),
     (MGet, [Some [], Some ''v1'', Some ''evidence'', None], HEvidence),
     (MGet, [Some [], Some ''v1'', Some ''datasets'', None, Some ''relations'', None, Some ''evidence''], HRelationEvidence),
     (MGet, [Some [], Some ''v1'', Some ''graph-runs'', None], HRun),
     (MGet, [Some [], Some ''v1'', Some ''graph-jobs'', None], HJob),
     (MPatch, [Some [], Some ''v1'', Some ''relations'', None, Some ''review''], HReview),
     (MPost, [Some [], Some ''v1'', Some ''agent-memory'', Some ''episodes''], HCreateEpisode),
     (MGet, [Some [], Some ''v1'', Some ''agent-memory'', Some ''episodes''], HListEpisodes),
     (MGet, [Some [], Some ''v1'', Some ''agent-memory'', Some ''episodes'', None], HGetEpisode),
     (MPost, [Some [], Some ''v1'', Some ''agent-memory'', Some ''episodes'', None, Some ''attempts''], HAppendAttempt),
     (MPost, [Some [], Some ''v1'', Some ''agent-memory'', Some ''episodes'', None, Some ''outcomes''], HRecordOutcome),
     (MGet, [Some [], Some ''v1'', Some ''agent-memory'', Some ''search''], HSearch),
     (MPost, [Some [], Some ''v1'', Some ''agent-memory'', Some ''episodes'', None, Some ''feedback''], HFeedback),
     (MPost, [Some [], Some ''v1'', Some ''agent-memory'', Some ''episodes'', None, Some ''supersede''], HSupersede),
     (MPost, [Some [], Some ''v1'', Some ''agent-memory'', Some ''patterns'', None, Some ''feedback''], HFeedbackPattern),
     (MPost, [Some [], Some ''v1'', Some ''agent-memory'', Some ''patterns'', None, Some ''supersede''], HSupersedePattern),
     (MGet, [Some [], Some ''v1'', Some ''agent-memory'', Some ''graph''], HMemoryGraph),
     (MDelete, [Some [], Some ''v1'', Some ''agent-memory'', Some ''episodes'', None], HHardDelete),
     (MPost, [Some [], Some ''v1'', Some ''agent-memory'', Some ''episodes'', None, Some ''confidence''], HConfidence),
     (MGet, [Some [], Some ''v1'', Some ''agent-memory'', Some ''episodes'', None, Some ''versions''], HVersions),
     (MGet, [Some [], Some ''v1'', Some ''agent-memory'', Some ''types''], HTypes),
     (MPost, [Some [], Some ''v1'', Some ''legal-holds''], HCreateHold),
     (MGet, [Some [], Some ''v1'', Some ''legal-holds''], HListHolds),
     (MGet, [Some [], Some ''v1'', Some ''legal-holds'', None], HGetHold),
     (MDelete, [Some [], Some ''v1'', Some ''legal-holds'', None], HDeleteHold),
     (MPost, [Some [], Some ''v1'', Some ''retention'', Some ''preview''], HPreviewRetention),
     (MPost, [Some [], Some ''v1'', Some ''retention'', Some ''apply''], HApplyRetention),
     (MGet, [Some [], Some ''v1'', Some ''retention'', Some ''policies''], HListPolicies),
     (MGet, [Some [], Some ''v1'', Some ''audit-logs''], HAuditLogs),
     (MGet, [Some [], Some ''v1'', Some ''projects'', None, Some ''export''], HExport),
     (MPost, [Some [], Some ''v1'', Some ''projects'', None, Some ''import''], HImport),
     (MPost, [Some [], Some ''mcp''], HMcp),
     (MPost, [Some [], Some ''v1'', Some ''codebase'', Some ''ingest''], HIngestCode),
     (MPost, [Some [], Some ''v1'', Some ''codebase'', Some ''sync-file''], HSyncFile),
     (MPost, [Some [], Some ''v1'', Some ''codebase'', Some ''index-directory''], HIndexDirectory),
     (MPost, [Some [], Some ''v1'', Some ''retrieval'', Some ''query''], HQuery)]"

lemma app_routes_split: "map (\<lambda>(m, t, h). (m, template_parts t, h)) app_routes = split_routes"
  by (simp add: app_routes_def router_defs under_def split_routes_def template_parts_def is_param_def)

lemma serve_split:
  "ordered_routing serve \<Longrightarrow> first_split m (path_segments path) split_routes = Some x \<Longrightarrow> serve app_routes m path = Some x"
  using first_match_split [of m "path_segments path" app_routes] unfolding ordered_routing_def app_routes_split by metis

lemmas sdk_args_defs = get_args_def body_args_def delete_args_def

lemmas sdk_defs = sdk_create_project_def sdk_create_dataset_def sdk_list_datasets_def sdk_get_dataset_def
  sdk_update_dataset_def sdk_delete_dataset_def sdk_upload_document_def sdk_list_documents_def
  sdk_get_document_def sdk_get_document_by_id_def sdk_delete_document_def sdk_create_episode_def
  sdk_list_episodes_def sdk_get_episode_def sdk_append_attempt_def sdk_record_outcome_def
  sdk_search_memory_def sdk_feedback_episode_def sdk_supersede_episode_def sdk_get_entity_def
  sdk_get_neighbors_def sdk_get_graph_def sdk_search_graph_def sdk_find_path_def sdk_get_subgraph_def
  sdk_get_evidence_def sdk_relation_evidence_def sdk_get_run_def sdk_get_job_def sdk_review_relation_def

text \<open>The segments of the path of a call.\<close>

fun call_segments :: "sdk_call \<Rightarrow> string list" where
  "call_segments (CreateProject _) = [[], ''v1'', ''projects'']"
| "call_segments (CreateDataset _ _ _) = [[], ''v1'', ''datasets'']"
| "call_segments ListDatasets = [[], ''v1'', ''datasets'']"
| "call_segments (GetDataset k) = [[], ''v1'', ''datasets'', k]"
| "call_segments (UpdateDataset k _ _ _) = [[], ''v1'', ''datasets'', k]"
| "call_segments (DeleteDataset k) = [[], ''v1'', ''datasets'', k]"
| "call_segments (UploadDocument k _ _ _) = [[], ''v1'', ''datasets'', k, ''documents'']"
| "call_segments (ListDocuments k) = [[], ''v1'', ''datasets'', k, ''documents'']"
| "call_segments (GetDocument k d) = [[], ''v1'', ''datasets'', k, ''documents'', d]"
| "call_segments (GetDocumentById d) = [[], ''v1'', ''documents'', d]"
| "call_segments (DeleteDocument d) = [[], ''v1'', ''documents'', d]"
| "call_segments (CreateEpisode _ _ _ _ _ _ _ _) = [[], ''v1'', ''agent-memory'', ''episodes'']"
| "call_segments (ListEpisodes _ _) = [[], ''v1'', ''agent-memory'', ''episodes'']"
| "call_segments (GetEpisode k) = [[], ''v1'', ''agent-memory'', ''episodes'', k]"
| "call_segments (AppendAttempt k _ _ _ _ _) = [[], ''v1'', ''agent-memory'', ''episodes'', k, ''attempts'']"
| "call_segments (RecordOutcome k _ _ _ _ _ _ _) = [[], ''v1'', ''agent-memory'', ''episodes'', k, ''outcomes'']"
| "call_segments (SearchMemory _ _ _ _ _ _) = [[], ''v1'', ''agent-memory'', ''search'']"
| "call_segments (FeedbackEpisode k _) = [[], ''v1'', ''agent-memory'', ''episodes'', k, ''feedback'']"
| "call_segments (SupersedeEpisode k _) = [[], ''v1'', ''agent-memory'', ''episodes'', k, ''supersede'']"
| "call_segments (GetEntity k) = [[], ''v1'', ''entities'', k]"
| "call_segments (GetNeighbors k _) = [[], ''v1'', ''entities'', k, ''neighbors'']"
| "call_segments (GetGraph k _ _) = [[], ''v1'', ''datasets'', k, ''graph'']"
| "call_segments (SearchGraph k _ _ _) = [[], ''v1'', ''datasets'', k, ''entities'', ''search'']"
| "call_segments (FindPath k _ _ _ _) = [[], ''v1'', ''datasets'', k, ''graph'', ''path'']"
| "call_segments (GetSubgraph k _ _ _ _) = [[], ''v1'', ''datasets'', k, ''graph'', ''subgraph'']"
| "call_segments (GetEvidence k) = [[], ''v1'', ''evidence'', k]"
| "call_segments (RelationEvidence k r _) = [[], ''v1'', ''datasets'', k, ''relations'', r, ''evidence'']"
| "call_segments (GetRun k) = [[], ''v1'', ''graph-runs'', k]"
| "call_segments (GetJob k) = [[], ''v1'', ''graph-jobs'', k]"
| "call_segments (ReviewRelation k _) = [[], ''v1'', ''relations'', k, ''review'']"

lemma call_path:
  assumes "list_all plain_id (snd (call_target c))"
  shows "path_segments (sa_path (call_args c)) = call_segments c"
  using assms by (cases c) (simp_all add: sdk_defs sdk_args_defs plain_id_no_slash)

lemma call_routed:
  assumes "list_all (\<lambda>k. k \<noteq> []) (snd (call_target c))"
  shows "first_split (sa_method (call_args c)) (call_segments c) split_routes = Some (call_target c)"
  using assms by (cases c) (simp_all add: sdk_defs sdk_args_defs split_routes_def)

text \<open>C23. Every method of the client, called with plain identifiers, reaches the endpoint it is meant for,
  with these identifiers as its path parameters.\<close>

theorem sdk_calls_reach_endpoints:
  assumes "ordered_routing serve" "list_all plain_id (snd (call_target c))"
  shows "serve app_routes (sa_method (call_args c)) (sa_path (call_args c)) = Some (call_target c)"
proof -
  have "list_all (\<lambda>k. k \<noteq> []) (snd (call_target c))"
    using assms(2) by (auto simp: list_all_iff dest!: plain_id_no_slash)
  then show ?thesis using call_path [OF assms(2)] call_routed [of c] by (intro serve_split [OF assms(1)]) simp
qed

text \<open>An identifier is not quoted: one with a slash may reach another endpoint.\<close>

lemma unquoted_identifier_misroutes:
  assumes "ordered_routing serve" "plain_id k"
  shows "serve app_routes MGet (sa_path (sdk_get_episode (k @ ''/versions''))) = Some (HVersions, [k])"
proof -
  have "first_split MGet (path_segments (sa_path (sdk_get_episode (k @ ''/versions'')))) split_routes = Some (HVersions, [k])"
    using plain_id_no_slash [OF assms(2)] by (simp add: sdk_defs sdk_args_defs split_routes_def)
  then show ?thesis by (rule serve_split [OF assms(1)])
qed

section \<open>Errors\<close>

lemma sdk_reports_errors:
  assumes "400 \<le> code"
  shows "sdk_value accepts rep t (error_response code m) = Inl (StatusError (error_class_of code) m code (JStr m))"
  using assms
  by (simp add: sdk_value_def read_response_def raise_for_response_def error_response_def response_detail_def jget_def detail_text_def)

lemma sdk_value_ok: "sdk_value accepts rep t (ok_response v) = (if accepts t v then Inr v else Inl ModelInvalid)"
  by (simp add: sdk_value_def read_response_def raise_for_response_def ok_response_def validated_def)

section \<open>The memory endpoints\<close>

lemma jopt_shape [simp]: "jopt x = JNull \<or> is_jstr (jopt x)" "\<not> is_jstr (jopt x) \<Longrightarrow> jopt x = JNull"
  by (cases x; simp add: jopt_def)+

lemma conforms_any [simp]: "list_all (conforms co FAny) xs"
  by (simp add: list_all_iff)

lemma conforms_attempt: "conforms co attempt_model (attempt_json a)"
  by (cases "ai_result (av_body a)") (simp_all add: attempt_model_def attempt_json_def)

lemma conforms_episode_iff:
  "conforms co episode_model (episode_json w) \<longleftrightarrow> w_domain w \<in> set sdk_domains \<and> w_status w \<noteq> SArchived"
  by (cases "w_status w") (simp_all add: episode_model_def episode_json_def sdk_statuses_def list_all_iff conforms_attempt)

lemma conforms_pattern: "conforms co pattern_model (pattern_json p)"
  by (simp add: pattern_model_def pattern_json_def)

lemma conforms_outcome: "conforms co outcome_model (outcome_json x)"
  by (cases "ov_status x") (simp_all add: outcome_model_def outcome_json_def sdk_outcomes_def conforms_pattern)

lemma conforms_search_iff:
  "conforms co search_model (search_json q rs) \<longleftrightarrow> list_all (\<lambda>r. conforms co episode_model (episode_json (sr_episode r))) rs"
  by (auto simp: search_model_def search_json_def search_result_model_def list_all_iff conforms_pattern split: option.splits)

lemma sdk_domains_eq: "set sdk_domains = set Domain"
  by (simp add: sdk_domains_def Domain_def)

lemma listed_episode:
  "v \<in> set (list_episodes rq db status n) \<Longrightarrow> \<exists>e\<in>set (episodes db). v = episode_view_of e []"
  by (auto simp: list_episodes_def dest!: subsetD [OF set_limit])

text \<open>The client accepts a listing of episodes, whose domains the service has checked, exactly when none
  of the listed episodes is archived.\<close>

theorem sdk_accepts_listing_iff:
  assumes "documented_validation accepts" "list_all (\<lambda>e. ep_domain e \<in> set Domain) (episodes db)"
  shows "sdk_value accepts rep (FList episode_model) (ok_response (JList (map episode_json (list_episodes rq db status n))))
    = (if SArchived \<in> w_status ` set (list_episodes rq db status n) then Inl ModelInvalid
       else Inr (JList (map episode_json (list_episodes rq db status n))))"
proof -
  obtain co where co: "accepts t v = conforms co t v" for t v using assms(1) by (auto simp: documented_validation_def)
  have "w_domain v \<in> set sdk_domains" if "v \<in> set (list_episodes rq db status n)" for v
    using listed_episode [OF that] assms(2) by (auto simp: list_all_iff sdk_domains_eq episode_view_of_def)
  then have "list_all (\<lambda>v. conforms co episode_model (episode_json v)) (list_episodes rq db status n)
      \<longleftrightarrow> SArchived \<notin> w_status ` set (list_episodes rq db status n)"
    unfolding list_all_iff conforms_episode_iff by (metis imageE imageI)
  then show ?thesis by (simp add: sdk_value_ok co list_all_iff)
qed


section \<open>Instances\<close>

definition sdk_rq :: req where
  "sdk_rq = \<lparr>rq_project = ''p'', rq_now = 1, rq_ids = (\<lambda>i. sample_draw)\<rparr>"

definition sdk_demo :: mem_db where
  "sdk_demo = empty_db\<lparr>episodes := [\<lparr>ep_id = ''e'', ep_project = ''p'', ep_domain = ''custom'', ep_type = ''fact'', ep_title = ''t'',
     ep_goal = ''g'', ep_signature = ''s'', ep_scope = [], ep_tags = [], ep_metadata = [], ep_content = None, ep_confidence = 1,
     ep_version = 1, ep_root = None, ep_status = SOpen, ep_feedback = 0, ep_superseded_by = None, ep_created = 0, ep_updated = 0\<rparr>]\<rparr>"

lemma sdk_demo_ok: "mem_ok sdk_demo"
  by (simp add: sdk_demo_def mem_ok_def keys_ok_def refs_ok_def values_ok_def empty_db_def episode_ok_def opt_ref_def)

text \<open>A router and a validation that do what is documented.\<close>

lemma first_match_ordered: "ordered_routing (\<lambda>rs m path. first_match m (path_segments path) rs)"
  by (simp add: ordered_routing_def)

lemma conforms_documented: "documented_validation (conforms (\<lambda>t v. False))"
  by (auto simp: documented_validation_def)

theorem sdk_calls_reach_endpoints_witness:
  "first_match MGet (path_segments ''/v1/datasets/ds_1/documents/doc-2'') app_routes = Some (HGetDocument, [''ds_1'', ''doc-2''])"
  using sdk_calls_reach_endpoints [OF first_match_ordered, of "GetDocument ''ds_1'' ''doc-2''"]
  by (simp add: plain_id_def is_lower_az_def is_digit09_def ord_of_def sdk_get_document_def get_args_def del: path_segments.simps)

theorem sdk_accepts_listing_iff_witness:
  "sdk_value (conforms (\<lambda>t v. False)) (\<lambda>v. []) (FList episode_model)
      (ok_response (JList (map episode_json (list_episodes sdk_rq sdk_demo None 25))))
    = Inr (JList (map episode_json (list_episodes sdk_rq sdk_demo None 25)))"
proof -
  have "list_all (\<lambda>e. ep_domain e \<in> set Domain) (episodes sdk_demo)" by (simp add: sdk_demo_def empty_db_def Domain_def)
  moreover have "SArchived \<notin> w_status ` set (list_episodes sdk_rq sdk_demo None 25)"
    using listed_episode [of _ sdk_rq sdk_demo None 25] by (fastforce simp: sdk_demo_def empty_db_def episode_view_of_def)
  ultimately show ?thesis
    using sdk_accepts_listing_iff [OF conforms_documented, of sdk_demo "\<lambda>v. []" sdk_rq None 25] by simp
qed


end
