(* ===== verification/Spec2Isabelle.thy ===== *)
theory Spec2Isabelle
  imports MemProps MemGraph MemSearch GraphGc GraphWalk Dispatch Retrieval Chunking Consolidation
    Builtins Storage ExportImport GraphStore DatasetProps CodebaseProps GraphApiProps McpProps ParsersProps SdkProps
begin

text \<open>
  Open Graph Memory: a service that keeps a memory of episodes for agents and a knowledge graph extracted
  from uploaded documents and indexed code. The development models its Python code (\<open>apps/api/app\<close>,
  \<open>packages/core\<close>, \<open>packages/contracts\<close>, \<open>packages/sdk\<close>) as functions on explicit states. File names below are relative to
  \<open>apps/api/app\<close> unless a package is named.

  \<^bold>\<open>How the program is put together.\<close> A request is authenticated (\<open>auth.py\<close>) and acts on one project. The memory
  side (\<open>memory/\<close>) stores episodes, attempts, outcomes and patterns, guarded by legal holds, retention and
  idempotency keys; the same tables are served to agents by the tools of \<open>mcp_server.py\<close>. The document side
  stores an upload in an object store, queues an indexing job, parses and chunks the text
  (\<open>parsers.py\<close>, \<open>chunking.py\<close>, \<open>ingestion.py\<close>) and queues an extraction; the extraction
  (\<open>graph/dispatch.py\<close>, \<open>graph/pipeline.py\<close>, \<open>packages/core\<close>) asks a language model or a rule-based extractor
  and stores entities, relations and evidence, which consolidation, garbage collection and analytics rework and
  the graph endpoints and the retrieval read.

  \<^bold>\<open>State and operations.\<close> A table is a list of records, one record per model class, its columns as fields; a
  database is a record of tables. An operation takes the request and the tables and returns its answer with the
  tables it commits, or the exception (type \<open>err\<close>, result type \<open>res\<close>) with the tables as they are then. A handler
  that commits several times is composed of one function per transaction, and the step relations interleave
  these. Foreign keys are invariants, and cascades are part of the deleting operations. Python's integers are
  \<open>int\<close> or \<open>nat\<close>, its floats are the rational numbers that binary64 represents, rounded after every operation
  (\<open>fl\<close> in theory PyFloat), its texts are lists of one-byte characters, its dictionaries association lists in
  insertion order, and times are integers.

  \<^bold>\<open>Theories.\<close>
  \<^item> Shared: Prelude (errors, tables, automation collected in \<open>tbl\<close> and \<open>frame\<close>), PyFloat, PyText, Json, Regex
    (the engine behind the patterns the code uses).
  \<^item> Identifiers and secrets: Ids (\<open>packages/core\<close> \<open>ids.py\<close>), Redaction (\<open>redaction.py\<close>), Auth (\<open>auth.py\<close>,
    \<open>projects.py\<close>).
  \<^item> Agent memory: MemTypes, MemSchema, MemService, MemSearch, MemGraph, MemConfidence, MemApi (\<open>memory/\<close>),
    Idempotency, LegalHold, Retention, ExportImport (the files of these names), Supersession (the chain walk three
    handlers share), MemInvariant (the service as a state machine with its invariant), MemChains, MemProps; Mcp
    and McpProps (\<open>mcp_server.py\<close>, \<open>mcp_stdio.py\<close>).
  \<^item> Documents: Corpus (the tables and the deletion of datasets and documents), Datasets, Uploads, Documents,
    Ingestion (with \<open>arq_worker.py\<close>), Storage, Parsers, Chunking, CorpusInvariant (all endpoints and workers as one
    step relation), CorpusProps, DatasetProps, ParsersProps.
  \<^item> Knowledge graph: GraphSchema, GraphGc, GraphWalk, WalkComplete, GraphView, GraphStore, GraphApi,
    GraphApiProps, Analytics, AnalyticsProps (\<open>graph/\<close>), Dispatch (\<open>graph/dispatch.py\<close>), Pipeline and PipelineProps
    and Consolidation (\<open>graph/pipeline.py\<close>, \<open>graph/consolidation.py\<close>).
  \<^item> Extraction (\<open>packages/core\<close> \<open>extraction.py\<close>): Extractors, Evidence, LlmAnswer, BatchExtract; code
    (\<open>code_extractor.py\<close>, \<open>codebase.py\<close>): CodeGraph, CodeGraphProps, Codebase, CodebaseProps.
  \<^item> Retrieval (\<open>retrieval.py\<close>, \<open>retrieval_api.py\<close>); plugins and settings: Plugins (\<open>packages/contracts\<close>), Builtins
    (\<open>plugin_registry.py\<close>), Settings (\<open>config.py\<close>); Sdk and SdkProps (\<open>packages/sdk\<close> and the routes of \<open>main.py\<close>).

  \<^bold>\<open>What the lemmas show.\<close>
  \<^item> Invariants of whole components under every order of their steps: the memory service, the stdio server of the
    tools, the document side, the extraction queue; and of single runs that may stop anywhere: extraction,
    consolidation, garbage collection, code indexing, reviews, the levels of communities.
  \<^item> Safety: held episodes survive retention and deletion, supersession has no cycles (but for a merge), supported
    rows survive garbage collection, a failed indexing run changes nothing, a key opens only its project.
  \<^item> Functional behaviour against a specification: chunking, evidence search, batches, traversal, walks (a path
    is found exactly when the target is reachable), pages, sections of a parsed page, requests of the client to endpoints, the plugin registry as a
    write-once map, export and import, the object store, idempotent creation, indexing and analytics.
  \<^item> Termination: the runs of a failing job end after the attempts left; the walks, the chunker and the pages end.
  \<^item> Error behaviour: where the code departs from what it means to do, a lemma states what it does instead.

  \<^bold>\<open>Interfaces.\<close> The locales \<open>rounding\<close> (interpreted by binary64), \<open>supersession\<close> (by the three superseding
  handlers), \<open>write_once\<close> (by the plugin registry) and \<open>object_deletion\<close> (by the local object store) state the laws
  their clients use.

  \<^bold>\<open>Parameters.\<close> Code outside the repository is an argument: SHA-256, the clock, random draws, the texts of
  exceptions, the answers of the language model, embedding vectors, the parsers of CSV, JSON, HTML, Markdown and
  PDF, the syntax trees of tree-sitter, networkx, the serialisation of JSON where its text matters, and an object
  store. Where a property needs a law of such an argument it is a named hypothesis that its documentation states
  (\<open>networkx_ok\<close>, \<open>ordered_routing\<close>, \<open>documented_validation\<close>), with a concrete instance in the witness.

  \<^bold>\<open>Bounds.\<close> No definition carries fuel that can run out: loops recurse on a list, on a decreasing number (the
  depth of a walk, the length of a text) or with a measure. The two loops that need not end for every argument,
  \<open>path_loop\<close> along the parents of a walk and \<open>follow_pages\<close> of a client, are partial functions, and their
  properties state that a result exists.

  \<^bold>\<open>Not modelled.\<close> The embedding providers (\<open>embedding.py\<close>: logarithms over hashes and an HTTP call), the wiring of the
  application (\<open>db.py\<close>, \<open>dependencies.py\<close>, \<open>observability.py\<close>, \<open>health.py\<close>), the command line that runs
  the tools of PostgreSQL (\<open>cli.py\<close>), the response models of the client beside the agent memory, the schema migrations, the evaluation
  harnesses and the release scripts. Of modelled files: the loops of asyncio around the workers, the S3 client
  behind the object store, the ranking of PostgreSQL's full-text search (the rows it returns are an argument),
  and columns that only the database fills in and nothing modelled reads.
\<close>

end
